(* ===== verification/GoPrelude.thy ===== *)
theory GoPrelude
  imports Main "HOL-Library.Word" "HOL-Library.AList"
begin

text \<open>
  The prelude of the development: the vocabulary of Go that every component uses.

  \<^item> machine integers: \<open>uint64\<close> is \<open>u64\<close>, a 64-bit word;
  \<^item> errors: a sentinel, a message, or a message wrapped around an error (\<open>fmt.Errorf\<close>
    with \<open>%w\<close>), with \<open>errors.Is\<close> as \<open>errors_is\<close>; a fallible call returns
    \<open>go_error + 'a\<close>; a run-time panic is the error \<open>Panic\<close>;
  \<^item> strings: a Go string is a sequence of bytes, here a \<^typ>\<open>string\<close> (a list of 8-bit
    characters), with the functions of the packages \<open>strings\<close> and \<open>unicode/utf8\<close> that the
    program calls, Unicode white space and malformed UTF-8 included;
  \<^item> maps: a Go map is an association list with distinct keys, in whatever order the range
    statement visits it; a theorem about all lists is a theorem about all orders;
  \<^item> time: a \<open>time.Time\<close> is its number of nanoseconds since the Unix epoch, as an integer.
\<close>

named_theorems guard_simps \<open>unfolding rules of the validation routines\<close>
named_theorems step_simps \<open>unfolding rules of the state-changing operations\<close>

section \<open>Integers and time\<close>

type_synonym u64 = "64 word"
type_synonym time = int

definition zero_time :: time where
  "zero_time = - 62135596800000000000"

definition is_zero_time :: "time \<Rightarrow> bool" where
  "is_zero_time t \<longleftrightarrow> t = zero_time"

definition seconds :: "int \<Rightarrow> time" where
  "seconds n = n * 1000000000"

section \<open>Errors\<close>

datatype sentinel =
    ErrLimitExceeded
  | StoreNotFound | StoreConflict
  | ErrEscape | ErrAbsolute
  | CursorInvalid | CursorExpired
  | ContentInvalidLimit | ContentTooLarge
  | CodecUnsupported | CodecInvalid
  | AccessDisabled | AccessDeclined | AccessInvalid | AccessPending
  | ConfigInvalid | ConfigReplaceValues | ConfigStateOverlap
  | ContractMissing | RehydrateRequired | ContractInvalid
  | RecordsResponseTooLarge | RecordsReportInvalid | RecordsInvalidArgument
  | RecordsInvalidTransition | RecordsStorageFailure
  | RunnerNotExecutable | RunnerPlanStale | RunnerRunState | RunnerSnapshotBusy
  | DataSourceChanged | DataResponseTooLarge | DataSourceTooLarge | FileNotExist

datatype go_error =
    Sentinel sentinel
  | Text string
  | Wrap string go_error
  | Validation string string
  | Transition string string
  | Join go_error go_error
  | Panic string

fun errors_is :: "go_error \<Rightarrow> sentinel \<Rightarrow> bool" where
  "errors_is (Sentinel s) t = (s = t)"
| "errors_is (Text _) t = False"
| "errors_is (Wrap _ e) t = errors_is e t"
| "errors_is (Validation _ _) t = False"
| "errors_is (Transition _ _) t = (t = RecordsInvalidTransition)"
| "errors_is (Join a b) t = (errors_is a t \<or> errors_is b t)"
| "errors_is (Panic _) t = False"

text \<open>The early return of \<open>if err != nil { return err }\<close>.\<close>

fun try_then :: "('e + 'a) \<Rightarrow> ('a \<Rightarrow> 'e + 'b) \<Rightarrow> 'e + 'b" where
  "try_then (Inl e) f = Inl e"
| "try_then (Inr x) f = f x"

definition is_ok :: "('e + 'a) \<Rightarrow> bool" where
  "is_ok r = (case r of Inl _ \<Rightarrow> False | Inr _ \<Rightarrow> True)"

lemma is_ok_simps [simp]: "is_ok (Inl e) = False" "is_ok (Inr x) = True"
  by (simp_all add: is_ok_def)

lemma is_okE: "is_ok r \<Longrightarrow> (\<And>x. r = Inr x \<Longrightarrow> P) \<Longrightarrow> P"
  by (cases r) auto

lemma is_ok_iff: "is_ok r \<longleftrightarrow> (\<exists>x. r = Inr x)"
  by (cases r) auto

lemma try_then_Inr_iff [simp]:
  "try_then m f = Inr y \<longleftrightarrow> (\<exists>x. m = Inr x \<and> f x = Inr y)"
  by (cases m) auto

lemma try_then_Inl_iff:
  "try_then m f = Inl e \<longleftrightarrow> m = Inl e \<or> (\<exists>x. m = Inr x \<and> f x = Inl e)"
  by (cases m) auto

lemma is_ok_try_then [simp]:
  "is_ok (try_then m f) \<longleftrightarrow> (\<exists>x. m = Inr x \<and> is_ok (f x))"
  by (cases m) auto

text \<open>A validation is a list of checks, the first that fails decides the error.\<close>

fun check_all :: "(bool \<times> go_error) list \<Rightarrow> go_error + unit" where
  "check_all [] = Inr ()"
| "check_all ((bad, e) # rest) = (if bad then Inl e else check_all rest)"

lemma check_all_ok: "check_all cs = Inr u \<longleftrightarrow> (\<forall>c \<in> set cs. \<not> fst c)"
  by (induction cs rule: check_all.induct) auto

lemma check_all_append:
  "check_all (xs @ ys) = try_then (check_all xs) (\<lambda>_. check_all ys)"
  by (induction xs) auto

section \<open>The package strings, on bytes\<close>

definition has_prefix :: "string \<Rightarrow> string \<Rightarrow> bool" where
  "has_prefix s p \<longleftrightarrow> take (length p) s = p"

definition has_suffix :: "string \<Rightarrow> string \<Rightarrow> bool" where
  "has_suffix s p \<longleftrightarrow> has_prefix (rev s) (rev p)"

definition trim_prefix :: "string \<Rightarrow> string \<Rightarrow> string" where
  "trim_prefix s p = (if has_prefix s p then drop (length p) s else s)"

definition trim_suffix :: "string \<Rightarrow> string \<Rightarrow> string" where
  "trim_suffix s p = (if has_suffix s p then take (length s - length p) s else s)"

lemma has_prefix_append [simp]: "has_prefix (p @ s) p"
  by (simp add: has_prefix_def)

lemma has_prefix_iff: "has_prefix s p \<longleftrightarrow> (\<exists>r. s = p @ r)"
  by (metis append_eq_conv_conj has_prefix_def)

lemma trim_prefix_append [simp]: "trim_prefix (p @ s) p = s"
  by (simp add: trim_prefix_def)

lemma trim_prefix_cases:
  "has_prefix s p \<Longrightarrow> s = p @ trim_prefix s p"
  by (auto simp: trim_prefix_def has_prefix_iff)

fun contains_str :: "string \<Rightarrow> string \<Rightarrow> bool" where
  "contains_str [] p = (p = [])"
| "contains_str (c # s) p = (has_prefix (c # s) p \<or> contains_str s p)"

lemma contains_str_iff: "contains_str s p \<longleftrightarrow> (\<exists>a b. s = a @ p @ b)"
proof (induction s)
  case Nil
  then show ?case by auto
next
  case (Cons c s)
  show ?case
  proof
    assume "contains_str (c # s) p"
    then consider "has_prefix (c # s) p" | "contains_str s p" by auto
    then show "\<exists>a b. c # s = a @ p @ b"
    proof cases
      case 1
      then show ?thesis by (metis append_Nil has_prefix_iff)
    next
      case 2
      with Cons.IH show ?thesis by (metis append_Cons)
    qed
  next
    assume "\<exists>a b. c # s = a @ p @ b"
    then obtain a b where ab: "c # s = a @ p @ b" by blast
    then show "contains_str (c # s) p"
    proof (cases a)
      case Nil
      with ab have "has_prefix (c # s) p" by (auto simp: has_prefix_iff)
      then show ?thesis by simp
    next
      case (Cons x xs)
      with ab have "s = xs @ p @ b" by simp
      with Cons.IH show ?thesis by auto
    qed
  qed
qed

definition contains_any :: "string \<Rightarrow> string \<Rightarrow> bool" where
  "contains_any s cs \<longleftrightarrow> list_ex (\<lambda>c. c \<in> set cs) s"

text \<open>\<open>strings.Split\<close> with a one-byte separator, \<open>strings.Join\<close>, \<open>strings.LastIndex\<close>.\<close>

fun split_on :: "char \<Rightarrow> string \<Rightarrow> string list" where
  "split_on d [] = [[]]"
| "split_on d (c # s) =
     (if c = d then [] # split_on d s
      else (case split_on d s of [] \<Rightarrow> [[c]] | p # ps \<Rightarrow> (c # p) # ps))"

fun join_with :: "string \<Rightarrow> string list \<Rightarrow> string" where
  "join_with d [] = []"
| "join_with d [s] = s"
| "join_with d (s # t # ss) = s @ d @ join_with d (t # ss)"

lemma split_on_not_Nil [simp]: "split_on d s \<noteq> []"
  by (induction s) (auto split: list.splits)

lemma join_split: "join_with [d] (split_on d s) = s"
proof (induction s)
  case Nil
  then show ?case by simp
next
  case (Cons c s)
  obtain p ps where ps: "split_on d s = p # ps"
    by (cases "split_on d s") auto
  with Cons show ?case by (cases ps) auto
qed

lemma split_on_no_sep: "x \<in> set (split_on d s) \<Longrightarrow> d \<notin> set x"
  by (induction s arbitrary: x) (auto split: if_splits list.splits)

lemma split_on_none: "d \<notin> set s \<Longrightarrow> split_on d s = [s]"
  by (induction s) auto

lemma split_on_append: "d \<notin> set a \<Longrightarrow> split_on d (a @ d # b) = a # split_on d b"
  by (induction a) auto

fun last_index_from :: "nat \<Rightarrow> string \<Rightarrow> string \<Rightarrow> nat option" where
  "last_index_from i [] p = (if p = [] then Some i else None)"
| "last_index_from i (c # s) p =
     (case last_index_from (Suc i) s p of
        Some j \<Rightarrow> Some j
      | None \<Rightarrow> if has_prefix (c # s) p then Some i else None)"

definition last_index :: "string \<Rightarrow> string \<Rightarrow> nat option" where
  "last_index s p = last_index_from 0 s p"

lemma last_index_from_Some:
  "last_index_from i s p = Some j \<Longrightarrow> i \<le> j \<and> j \<le> i + length s \<and> has_prefix (drop (j - i) s) p"
proof (induction s arbitrary: i)
  case Nil
  then show ?case by (auto simp: has_prefix_def split: if_splits)
next
  case (Cons c s)
  show ?case
  proof (cases "last_index_from (Suc i) s p")
    case None
    with Cons.prems show ?thesis by (auto split: if_splits)
  next
    case (Some k)
    with Cons.prems have "k = j" by simp
    with Some Cons.IH [of "Suc i"] have
      *: "Suc i \<le> j \<and> j \<le> Suc i + length s \<and> has_prefix (drop (j - Suc i) s) p" by simp
    then obtain d where "j = Suc i + d" using le_Suc_ex by blast
    with * show ?thesis by simp
  qed
qed

lemma last_index_Some:
  "last_index s p = Some j \<Longrightarrow> j \<le> length s \<and> has_prefix (drop j s) p"
  using last_index_from_Some [of 0 s p j] by (auto simp: last_index_def)

section \<open>Unicode white space and runes\<close>

text \<open>
  \<open>unicode.IsSpace\<close>: the UTF-8 encodings of the white-space code points. Their first bytes
  never occur inside another encoding, so scanning bytes finds the same runs of white space as
  decoding runes.
\<close>

definition space_encodings :: "string list" where
  "space_encodings =
     [[CHR 0x09], [CHR 0x0A], [CHR 0x0B], [CHR 0x0C], [CHR 0x0D], [CHR 0x20],
      [CHR 0xC2, CHR 0x85], [CHR 0xC2, CHR 0xA0], [CHR 0xE1, CHR 0x9A, CHR 0x80],
      [CHR 0xE2, CHR 0x80, CHR 0x80], [CHR 0xE2, CHR 0x80, CHR 0x81], [CHR 0xE2, CHR 0x80, CHR 0x82],
      [CHR 0xE2, CHR 0x80, CHR 0x83], [CHR 0xE2, CHR 0x80, CHR 0x84], [CHR 0xE2, CHR 0x80, CHR 0x85],
      [CHR 0xE2, CHR 0x80, CHR 0x86], [CHR 0xE2, CHR 0x80, CHR 0x87], [CHR 0xE2, CHR 0x80, CHR 0x88],
      [CHR 0xE2, CHR 0x80, CHR 0x89], [CHR 0xE2, CHR 0x80, CHR 0x8A], [CHR 0xE2, CHR 0x80, CHR 0xA8],
      [CHR 0xE2, CHR 0x80, CHR 0xA9], [CHR 0xE2, CHR 0x80, CHR 0xAF], [CHR 0xE2, CHR 0x81, CHR 0x9F],
      [CHR 0xE3, CHR 0x80, CHR 0x80]]"

fun strip_any :: "string list \<Rightarrow> string \<Rightarrow> string option" where
  "strip_any [] s = None"
| "strip_any (e # es) s =
     (if e \<noteq> [] \<and> has_prefix s e then Some (drop (length e) s) else strip_any es s)"

lemma strip_any_shorter: "strip_any es s = Some r \<Longrightarrow> length r < length s"
proof (induction es)
  case Nil
  then show ?case by simp
next
  case (Cons e es)
  show ?case
  proof (cases "e \<noteq> [] \<and> has_prefix s e")
    case True
    then obtain t where "s = e @ t" "e \<noteq> []" by (auto simp: has_prefix_iff)
    with Cons.prems show ?thesis by (auto simp: has_prefix_def)
  next
    case False
    with Cons show ?thesis by auto
  qed
qed

function trim_with :: "string list \<Rightarrow> string \<Rightarrow> string" where
  "trim_with es s = (case strip_any es s of None \<Rightarrow> s | Some r \<Rightarrow> trim_with es r)"
  by pat_completeness auto
termination
  by (relation "measure (\<lambda>(es, s). length s)") (auto dest: strip_any_shorter)

declare trim_with.simps [simp del]

definition trim_left :: "string \<Rightarrow> string" where
  "trim_left s = trim_with space_encodings s"

definition trim_right :: "string \<Rightarrow> string" where
  "trim_right s = rev (trim_with (map rev space_encodings) (rev s))"

definition trim_space :: "string \<Rightarrow> string" where
  "trim_space s = trim_right (trim_left s)"

lemma trim_with_length: "length (trim_with es s) \<le> length s"
proof (induction es s rule: trim_with.induct)
  case (1 es s)
  show ?case
  proof (cases "strip_any es s")
    case None
    then show ?thesis by (simp add: trim_with.simps [of es s])
  next
    case (Some r)
    with 1 [OF Some] strip_any_shorter [OF Some] show ?thesis
      by (simp add: trim_with.simps [of es s])
  qed
qed

lemma trim_with_Nil [simp]: "trim_with es [] = []"
  using trim_with_length [of es "[]"] by simp

lemma trim_space_Nil [simp]: "trim_space [] = []"
  by (simp add: trim_space_def trim_left_def trim_right_def)

lemma trim_space_nonempty: "trim_space s \<noteq> [] \<Longrightarrow> s \<noteq> []"
  by auto

text \<open>\<open>strings.Fields\<close>.\<close>

function fields_from :: "string \<Rightarrow> string \<Rightarrow> string list" where
  "fields_from cur s =
     (case strip_any space_encodings s of
        Some r \<Rightarrow> (if cur = [] then fields_from [] r else rev cur # fields_from [] r)
      | None \<Rightarrow> (case s of
            [] \<Rightarrow> (if cur = [] then [] else [rev cur])
          | c # cs \<Rightarrow> fields_from (c # cur) cs))"
  by pat_completeness auto
termination
  by (relation "measure (\<lambda>(cur, s). length s)") (auto dest: strip_any_shorter)

declare fields_from.simps [simp del]

definition fields_of :: "string \<Rightarrow> string list" where
  "fields_of s = fields_from [] s"

lemma fields_from_nonempty: "w \<in> set (fields_from cur s) \<Longrightarrow> w \<noteq> []"
proof (induction cur s rule: fields_from.induct)
  case (1 cur s)
  from "1.prems" have *: "w \<in> set (case strip_any space_encodings s of
        Some r \<Rightarrow> (if cur = [] then fields_from [] r else rev cur # fields_from [] r)
      | None \<Rightarrow> (case s of
            [] \<Rightarrow> (if cur = [] then [] else [rev cur])
          | c # cs \<Rightarrow> fields_from (c # cur) cs))"
    by (simp only: fields_from.simps [of cur s])
  show ?case
  proof (cases "strip_any space_encodings s")
    case (Some r)
    show ?thesis
      by (cases "cur = []") (use * Some "1.IH" in auto)
  next
    case None
    with * "1.IH" show ?thesis by (auto split: if_splits list.splits)
  qed
qed

lemma fields_of_nonempty: "w \<in> set (fields_of s) \<Longrightarrow> w \<noteq> []"
  by (simp add: fields_of_def fields_from_nonempty)

text \<open>
  \<open>utf8.DecodeRune\<close>: the width of the first rune and whether it is well formed; a malformed
  byte is a rune of width one.
\<close>

definition byte :: "char \<Rightarrow> nat" where
  "byte c = of_char c"

definition between :: "nat \<Rightarrow> nat \<Rightarrow> char \<Rightarrow> bool" where
  "between lo hi c \<longleftrightarrow> lo \<le> byte c \<and> byte c \<le> hi"

definition cont_byte :: "char \<Rightarrow> bool" where
  "cont_byte c = between 0x80 0xBF c"

fun second_range :: "nat \<Rightarrow> nat \<times> nat" where
  "second_range b = (if b = 0xE0 then (0xA0, 0xBF) else if b = 0xED then (0x80, 0x9F)
     else if b = 0xF0 then (0x90, 0xBF) else if b = 0xF4 then (0x80, 0x8F) else (0x80, 0xBF))"

definition rune_size :: "nat \<Rightarrow> nat" where
  "rune_size b = (if b < 0x80 then 1 else if 0xC2 \<le> b \<and> b \<le> 0xDF then 2
     else if 0xE0 \<le> b \<and> b \<le> 0xEF then 3 else if 0xF0 \<le> b \<and> b \<le> 0xF4 then 4 else 0)"

fun first_rune :: "string \<Rightarrow> nat \<times> bool" where
  "first_rune [] = (0, False)"
| "first_rune (c # s) =
     (let n = rune_size (byte c); tail = take (n - 1) s; (lo, hi) = second_range (byte c)
      in if n = 0 \<or> length tail < n - 1 then (1, False)
         else if n = 1 then (1, True)
         else if between lo hi (hd tail) \<and> list_all cont_byte (tl tail) then (n, True)
         else (1, False))"

declare first_rune.simps(2) [simp del]

lemma first_rune_pos: "s \<noteq> [] \<Longrightarrow> 0 < fst (first_rune s)"
proof (cases s)
  case (Cons c t)
  show ?thesis
    by (cases "second_range (byte c)")
      (simp add: Cons first_rune.simps(2) Let_def del: second_range.simps)
qed simp

function runes :: "string \<Rightarrow> (string \<times> bool) list" where
  "runes s =
     (if s = [] then []
      else let (n, ok) = first_rune s in (take n s, ok) # runes (drop n s))"
  by pat_completeness auto
termination
proof (relation "measure length")
  fix s x n ok assume "s \<noteq> []" "x = first_rune s" "(n, ok) = x"
  then have "0 < n" using first_rune_pos [of s] by (metis fst_conv)
  with \<open>s \<noteq> []\<close> show "(drop n s, s) \<in> measure length" by simp
qed simp

declare runes.simps [simp del]

lemma runes_Nil [simp]: "runes [] = []"
  by (simp add: runes.simps)

definition utf8_valid :: "string \<Rightarrow> bool" where
  "utf8_valid s = list_all snd (runes s)"

definition rune_count :: "string \<Rightarrow> nat" where
  "rune_count s = length (runes s)"

text \<open>\<open>[]rune(s)\<close>, each rune as its encoding; a malformed byte becomes U+FFFD.\<close>

definition rune_strings :: "string \<Rightarrow> string list" where
  "rune_strings s = map (\<lambda>(r, ok). if ok then r else [CHR 0xEF, CHR 0xBF, CHR 0xBD]) (runes s)"

lemma runes_concat: "concat (map fst (runes s)) = s"
proof (induction s rule: runes.induct)
  case (1 s)
  show ?case
  proof (cases "s = []")
    case True
    then show ?thesis by simp
  next
    case False
    obtain n ok where f: "first_rune s = (n, ok)" by fastforce
    with False 1 have "concat (map fst (runes (drop n s))) = drop n s" by simp
    with False f show ?thesis by (simp add: runes.simps [of s])
  qed
qed

lemma rune_count_le: "rune_count s \<le> length s"
proof (induction s rule: runes.induct)
  case (1 s)
  show ?case
  proof (cases "s = []")
    case True
    then show ?thesis by (simp add: rune_count_def)
  next
    case False
    obtain n ok where f: "first_rune s = (n, ok)" by fastforce
    with False first_rune_pos [of s] have n: "0 < n" by simp
    from False f 1 have "rune_count (drop n s) \<le> length (drop n s)" by simp
    then have "length (runes (drop n s)) \<le> length s - n" by (simp add: rune_count_def)
    moreover from False have "0 < length s" by simp
    ultimately have "Suc (length (runes (drop n s))) \<le> length s" using n by linarith
    then show ?thesis using False f by (simp add: rune_count_def runes.simps [of s])
  qed
qed

section \<open>Decimal numbers\<close>

definition digit_char :: "nat \<Rightarrow> char" where
  "digit_char d = char_of (48 + d)"

fun itoa :: "nat \<Rightarrow> string" where
  "itoa n = (if n < 10 then [digit_char n] else itoa (n div 10) @ [digit_char (n mod 10)])"

declare itoa.simps [simp del]

text \<open>The wrap-around of a signed 64-bit addition, on integers.\<close>

definition wrap64 :: "int \<Rightarrow> int" where
  "wrap64 x = signed_take_bit 63 x"

text \<open>\<open>strconv.ParseUint(s, 10, 64)\<close>.\<close>

definition digits_value :: "string \<Rightarrow> nat" where
  "digits_value s = fold (\<lambda>c n. n * 10 + (byte c - 48)) s 0"

definition all_digits :: "string \<Rightarrow> bool" where
  "all_digits s \<longleftrightarrow> s \<noteq> [] \<and> list_all (between 48 57) s"

definition parse_uint :: "string \<Rightarrow> nat option" where
  "parse_uint s = (if all_digits s \<and> int (digits_value s) < 2 ^ 64 then Some (digits_value s) else None)"

text \<open>\<open>%q\<close> of a text without characters to escape.\<close>

definition quoted :: "string \<Rightarrow> string" where
  "quoted s = [CHR 0x22] @ s @ [CHR 0x22]"

section \<open>Lines\<close>

definition strip_cr :: "string \<Rightarrow> string" where
  "strip_cr s = trim_suffix s [CHR 0x0D]"

text \<open>\<open>bufio.Scanner\<close> with \<open>ScanLines\<close> and a maximal token: the lines, and whether one was too long.\<close>

fun scan_lines :: "int \<Rightarrow> string list \<Rightarrow> string list \<times> bool" where
  "scan_lines limit [] = ([], False)"
| "scan_lines limit [l] = (if limit \<le> int (length l) then ([], True) else if l = [] then ([], False) else ([strip_cr l], False))"
| "scan_lines limit (l # m # ls) =
     (if limit \<le> int (length l) then ([], True)
      else let (rest, long) = scan_lines limit (m # ls) in (strip_cr l # rest, long))"

section \<open>JSON values\<close>

text \<open>What \<open>encoding/json\<close> decodes into \<open>any\<close> with \<open>UseNumber\<close>: numbers keep their text, the members of an
  object are a map in list order.\<close>

datatype json = JNull | JBool bool | JNumber string | JString string | JArray "json list"
  | JObject "(string \<times> json) list"

section \<open>Maps\<close>

text \<open>A Go map visited in list order: lookup, insertion and deletion of the library's
  association lists.\<close>

type_synonym ('k, 'v) gomap = "('k \<times> 'v) list"

definition wf_map :: "('k, 'v) gomap \<Rightarrow> bool" where
  "wf_map m \<longleftrightarrow> distinct (map fst m)"

definition map_put :: "'k \<Rightarrow> 'v \<Rightarrow> ('k, 'v) gomap \<Rightarrow> ('k, 'v) gomap" where
  "map_put k v m = AList.update k v m"

definition map_del :: "'k \<Rightarrow> ('k, 'v) gomap \<Rightarrow> ('k, 'v) gomap" where
  "map_del k m = AList.delete k m"

lemma wf_map_Nil [simp]: "wf_map []"
  by (simp add: wf_map_def)

lemma wf_map_put [simp]: "wf_map m \<Longrightarrow> wf_map (map_put k v m)"
  by (simp add: wf_map_def map_put_def distinct_update)

lemma wf_map_del [simp]: "wf_map m \<Longrightarrow> wf_map (map_del k m)"
  by (simp add: wf_map_def map_del_def distinct_delete)

lemma wf_map_filter [simp]: "wf_map m \<Longrightarrow> wf_map (filter P m)"
  by (simp add: wf_map_def distinct_map_filter)

lemma map_put_lookup [simp]: "map_of (map_put k v m) = (map_of m)(k \<mapsto> v)"
  by (simp add: map_put_def update_conv')

lemma map_del_lookup [simp]: "map_of (map_del k m) = (map_of m)(k := None)"
  by (simp add: map_del_def delete_conv')

lemma map_put_set: "x \<in> set (map_put k v m) \<Longrightarrow> x = (k, v) \<or> x \<in> set m"
  unfolding map_put_def by (induction m) (auto split: if_splits)

lemma map_put_set_eq:
  "wf_map m \<Longrightarrow> set (map_put k v m) = insert (k, v) {x \<in> set m. fst x \<noteq> k}"
proof (induction m)
  case Nil
  then show ?case by (simp add: map_put_def)
next
  case (Cons a m)
  obtain x y where a: "a = (x, y)" by (cases a)
  from Cons.prems a have wf: "wf_map m" and x: "\<forall>p \<in> set m. fst p \<noteq> x"
    by (auto simp: wf_map_def)
  show ?case
  proof (cases "x = k")
    case True
    with a x show ?thesis by (auto simp: map_put_def)
  next
    case False
    with a have "map_put k v (a # m) = a # map_put k v m" by (simp add: map_put_def)
    with Cons.IH [OF wf] a False show ?thesis by auto
  qed
qed

lemma map_del_set: "set (map_del k m) = {x \<in> set m. fst x \<noteq> k}"
  by (auto simp: map_del_def AList.delete_eq)

lemma map_put_length: "length (map_put k v m) \<le> Suc (length m)"
  unfolding map_put_def by (induction m) auto

lemma map_del_length: "length (map_del k m) \<le> length m"
  unfolding map_del_def by (rule length_delete_le)

lemma wf_map_lookup: "wf_map m \<Longrightarrow> map_of m k = Some v \<longleftrightarrow> (k, v) \<in> set m"
  by (simp add: wf_map_def map_of_eq_Some_iff)

end
