(* ===== verification/Contracts.thy ===== *)
theory Contracts
  imports GoPrelude
begin

text \<open>
  The package \<open>internal/contracts\<close>: the bounded-work limits every query normalises
  (\<open>limits.go\<close>) and the response envelope the list and search operations share
  (\<open>response.go\<close>). The lemmas bound every normalised limit by its public cap and describe the
  accepted requests exactly; one property shows how the millisecond conversion wraps around.
\<close>

section \<open>The response envelope\<close>

datatype status = StatusOK | StatusPartial | StatusError | StatusUnsupported

datatype count_relation = CountExact | CountLowerBound | CountUnknown | CountNotApplicable

datatype scan_state = ScanComplete | ScanPartial | ScanNotApplicable

record counts =
  cn_matched :: "u64 option"
  cn_relation :: count_relation
  cn_returned :: u64

record scan =
  sc_state :: scan_state
  sc_scope_ref :: "string option"

record warning =
  wn_code :: string
  wn_message :: string
  wn_ref :: "string option"

record 'a response =
  rs_status :: status
  rs_items :: "'a list"
  rs_counts :: counts
  rs_scan :: scan
  rs_truncated :: "bool option"
  rs_next_cursor :: "string option"
  rs_snapshot_ref :: "string option"
  rs_warnings :: "warning list"

section \<open>Limits\<close>

definition DefaultItemLimit :: u64 where "DefaultItemLimit = 50"
definition MaximumItemLimit :: u64 where "MaximumItemLimit = 500"
definition DefaultByteLimit :: u64 where "DefaultByteLimit = 64 * 1024"
definition MaximumByteLimit :: u64 where "MaximumByteLimit = 1024 * 1024"
definition DefaultTimeLimit :: u64 where "DefaultTimeLimit = 5 * 1000000000"
definition MaximumTimeLimit :: u64 where "MaximumTimeLimit = 30 * 1000000000"

lemmas limit_constants = DefaultItemLimit_def MaximumItemLimit_def DefaultByteLimit_def
  MaximumByteLimit_def DefaultTimeLimit_def MaximumTimeLimit_def

record limits =
  lm_item_limit :: u64
  lm_byte_limit :: u64
  lm_time_limit :: u64

record limit_request =
  lr_item_limit :: u64
  lr_byte_limit :: u64
  lr_time_limit_ms :: u64

text \<open>
  \<open>TimeLimitMS\<close> and \<open>time.Duration\<close> are signed 64-bit integers: words read with \<^const>\<open>sint\<close>.
  The conversion to nanoseconds is the machine multiplication, which wraps around.
\<close>

definition normalize_limits :: "limit_request \<Rightarrow> go_error + limits" where
  "normalize_limits req =
     (let itemLimit = (if lr_item_limit req = 0 then DefaultItemLimit else lr_item_limit req);
          byteLimit = (if lr_byte_limit req = 0 then DefaultByteLimit else lr_byte_limit req);
          timeLimit = (if lr_time_limit_ms req = 0 then DefaultTimeLimit
                       else lr_time_limit_ms req * 1000000)
      in if sint (lr_time_limit_ms req) < 0
           then Inl (Wrap ''time_limit_ms: '' (Sentinel ErrLimitExceeded))
         else if itemLimit > MaximumItemLimit
           then Inl (Wrap ''item_limit: '' (Sentinel ErrLimitExceeded))
         else if byteLimit > MaximumByteLimit
           then Inl (Wrap ''byte_limit: '' (Sentinel ErrLimitExceeded))
         else if sint timeLimit > sint MaximumTimeLimit
           then Inl (Wrap ''time_limit_ms: '' (Sentinel ErrLimitExceeded))
         else Inr \<lparr>lm_item_limit = itemLimit, lm_byte_limit = byteLimit, lm_time_limit = timeLimit\<rparr>)"

definition limits_bounded :: "limits \<Rightarrow> bool" where
  "limits_bounded l \<longleftrightarrow>
     0 < lm_item_limit l \<and> lm_item_limit l \<le> MaximumItemLimit \<and>
     0 < lm_byte_limit l \<and> lm_byte_limit l \<le> MaximumByteLimit \<and>
     sint (lm_time_limit l) \<le> sint MaximumTimeLimit"

lemma word_pos: "(0::u64) < w \<longleftrightarrow> w \<noteq> 0"
  by (simp add: word_neq_0_conv)

lemma normalize_limits_bounded:
  "normalize_limits req = Inr l \<Longrightarrow> limits_bounded l"
  by (auto simp: normalize_limits_def limits_bounded_def Let_def word_pos
      DefaultItemLimit_def DefaultByteLimit_def split: if_splits)

lemma normalize_limits_errors:
  "normalize_limits req = Inl e \<Longrightarrow> errors_is e ErrLimitExceeded"
  by (auto simp: normalize_limits_def Let_def split: if_splits)

text \<open>
  The multiplication does not wrap as long as the request stays below the largest representable
  number of milliseconds.
\<close>

definition max_exact_ms :: int where
  "max_exact_ms = 9223372036854"

lemma sint_ms_exact:
  assumes "0 \<le> sint (ms::u64)" and "sint ms \<le> max_exact_ms"
  shows "sint (ms * 1000000) = sint ms * 1000000"
proof -
  have "sint (ms * 1000000) = signed_take_bit 63 (sint ms * 1000000)"
    by (simp add: sint_word_ariths)
  also have "\<dots> = sint ms * 1000000"
    by (rule signed_take_bit_int_eq_self) (use assms in \<open>simp_all add: max_exact_ms_def\<close>)
  finally show ?thesis .
qed

definition within_caps :: "limit_request \<Rightarrow> bool" where
  "within_caps req \<longleftrightarrow> lr_item_limit req \<le> 500 \<and> lr_byte_limit req \<le> 1048576 \<and>
     0 \<le> sint (lr_time_limit_ms req) \<and> sint (lr_time_limit_ms req) \<le> 30000"

lemma sint_zero_iff: "sint (w::u64) = 0 \<longleftrightarrow> w = 0"
  by (metis signed_0 signed_word_eqI)

text \<open>Every limit the server works with is positive and below its public cap, whatever the
  caller asked for.\<close>

theorem limits_never_exceed_caps:
  assumes "normalize_limits req = Inr l"
  shows "0 < lm_item_limit l \<and> lm_item_limit l \<le> 500 \<and> 0 < lm_byte_limit l \<and>
    lm_byte_limit l \<le> 1048576 \<and> sint (lm_time_limit l) \<le> 30000000000"
  using normalize_limits_bounded [OF assms] by (simp add: limits_bounded_def limit_constants)

lemma normalize_limits_exact_aux:
  assumes "sint (lr_time_limit_ms req) \<le> max_exact_ms"
  shows "is_ok (normalize_limits req) \<longleftrightarrow> within_caps req"
proof (cases "sint (lr_time_limit_ms req) < 0")
  case True
  then show ?thesis by (simp add: normalize_limits_def within_caps_def)
next
  case False
  with assms have s: "sint (lr_time_limit_ms req * 1000000) = sint (lr_time_limit_ms req) * 1000000"
    by (intro sint_ms_exact) auto
  from False s show ?thesis
    by (auto simp: normalize_limits_def within_caps_def Let_def limit_constants)
qed

theorem limits_never_exceed_caps_witness:
  "normalize_limits \<lparr>lr_item_limit = 7, lr_byte_limit = 0, lr_time_limit_ms = 250\<rparr> =
     Inr \<lparr>lm_item_limit = 7, lm_byte_limit = 65536, lm_time_limit = 250000000\<rparr> \<and>
   (7::u64) \<le> 500"
proof -
  have n: "normalize_limits \<lparr>lr_item_limit = 7, lr_byte_limit = 0, lr_time_limit_ms = 250\<rparr> =
     Inr \<lparr>lm_item_limit = 7, lm_byte_limit = 65536, lm_time_limit = 250000000\<rparr>"
    by code_simp
  from limits_never_exceed_caps [OF n] n show ?thesis by simp
qed

text \<open>The acceptance test is exact below the wrap-around bound: a request is accepted if and
  only if every part of it is within its cap, and a refusal is always the limit error.\<close>

theorem normalize_limits_exact:
  assumes "sint (lr_time_limit_ms req) \<le> 9223372036854"
  shows "(if within_caps req then is_ok (normalize_limits req)
          else \<exists>e. normalize_limits req = Inl e \<and> errors_is e ErrLimitExceeded)"
proof -
  have ex: "is_ok (normalize_limits req) \<longleftrightarrow> within_caps req"
    by (rule normalize_limits_exact_aux) (simp add: max_exact_ms_def assms)
  show ?thesis
  proof (cases "normalize_limits req")
    case (Inl e)
    then show ?thesis using normalize_limits_errors [OF Inl] ex by simp
  next
    case (Inr l)
    then show ?thesis using ex by simp
  qed
qed

theorem normalize_limits_exact_witness:
  "within_caps \<lparr>lr_item_limit = 500, lr_byte_limit = 0, lr_time_limit_ms = 30000\<rparr> \<and>
   is_ok (normalize_limits \<lparr>lr_item_limit = 500, lr_byte_limit = 0, lr_time_limit_ms = 30000\<rparr>) \<and>
   \<not> within_caps \<lparr>lr_item_limit = 500, lr_byte_limit = 0, lr_time_limit_ms = 30001\<rparr> \<and>
   \<not> is_ok (normalize_limits \<lparr>lr_item_limit = 500, lr_byte_limit = 0, lr_time_limit_ms = 30001\<rparr>)"
proof -
  let ?a = "\<lparr>lr_item_limit = 500, lr_byte_limit = 0, lr_time_limit_ms = 30000\<rparr>"
  let ?b = "\<lparr>lr_item_limit = 500, lr_byte_limit = 0, lr_time_limit_ms = 30001\<rparr>"
  have a: "within_caps ?a" "sint (lr_time_limit_ms ?a) \<le> 9223372036854" by code_simp+
  have b: "\<not> within_caps ?b" "sint (lr_time_limit_ms ?b) \<le> 9223372036854" by code_simp+
  from normalize_limits_exact [OF a(2)] a(1) have "is_ok (normalize_limits ?a)" by simp
  moreover from normalize_limits_exact [OF b(2)] b(1) have "\<not> is_ok (normalize_limits ?b)" by auto
  ultimately show ?thesis using a(1) b(1) by simp
qed

text \<open>Beyond that bound the conversion to nanoseconds wraps: the request for
  18446744073710 milliseconds (over 500 years) is accepted with a time limit below half a
  millisecond, and the one for 9223372036855 milliseconds with a negative one.\<close>

theorem normalize_limits_overflow:
  "normalize_limits \<lparr>lr_item_limit = 1, lr_byte_limit = 1, lr_time_limit_ms = 18446744073710\<rparr> =
     Inr \<lparr>lm_item_limit = 1, lm_byte_limit = 1, lm_time_limit = 448384\<rparr> \<and>
   (\<exists>l. normalize_limits \<lparr>lr_item_limit = 1, lr_byte_limit = 1, lr_time_limit_ms = 9223372036855\<rparr>
      = Inr l \<and> sint (lm_time_limit l) < 0)"
proof
  show "normalize_limits \<lparr>lr_item_limit = 1, lr_byte_limit = 1, lr_time_limit_ms = 18446744073710\<rparr> =
     Inr \<lparr>lm_item_limit = 1, lm_byte_limit = 1, lm_time_limit = 448384\<rparr>" by code_simp
  have "normalize_limits \<lparr>lr_item_limit = 1, lr_byte_limit = 1, lr_time_limit_ms = 9223372036855\<rparr> =
     Inr \<lparr>lm_item_limit = 1, lm_byte_limit = 1, lm_time_limit = 9223372036855000000\<rparr> \<and>
     sint (9223372036855000000 :: u64) < 0" by code_simp
  then show "\<exists>l. normalize_limits \<lparr>lr_item_limit = 1, lr_byte_limit = 1, lr_time_limit_ms = 9223372036855\<rparr>
      = Inr l \<and> sint (lm_time_limit l) < 0" by auto
qed

end
