(* ===== verification/Paths.thy ===== *)
theory Paths
  imports GoPrelude "HOL-Library.Sublist"
begin

text \<open>
  The functions of \<open>path/filepath\<close> that the program uses, for a host with \<open>/\<close> as separator:
  \<open>Clean\<close>, \<open>Join\<close>, \<open>IsAbs\<close>, \<open>Rel\<close>, \<open>Base\<close>, and the containment test built on
  \<open>Rel\<close>. The main lemma reads that test as a prefix of component lists.
\<close>

section \<open>Cleaning\<close>

definition is_abs :: "string \<Rightarrow> bool" where
  "is_abs s \<longleftrightarrow> has_prefix s ''/''"

fun clean_push :: "bool \<Rightarrow> string \<Rightarrow> string list \<Rightarrow> string list" where
  "clean_push rooted c stack =
     (if c = [] \<or> c = ''.'' then stack
      else if c = ''..'' then
        (case stack of
           [] \<Rightarrow> (if rooted then [] else [''..''])
         | t # ts \<Rightarrow> (if t = ''..'' then ''..'' # stack else ts))
      else c # stack)"

text \<open>The components of a cleaned path, and the path they spell.\<close>

definition clean_comps :: "string \<Rightarrow> string list" where
  "clean_comps s = rev (fold (clean_push (is_abs s)) (split_on (CHR ''/'') s) [])"

definition spell :: "bool \<Rightarrow> string list \<Rightarrow> string" where
  "spell rooted cs = (if rooted then ''/'' @ join_with ''/'' cs
     else if cs = [] then ''.'' else join_with ''/'' cs)"

definition path_clean :: "string \<Rightarrow> string" where
  "path_clean s = spell (is_abs s) (clean_comps s)"

definition path_join :: "string \<Rightarrow> string \<Rightarrow> string" where
  "path_join a b = (if a = [] then (if b = [] then [] else path_clean b)
     else path_clean (a @ ''/'' @ b))"

definition path_base :: "string \<Rightarrow> string" where
  "path_base s = (case rev (clean_comps s) of [] \<Rightarrow> (if is_abs s then ''/'' else ''.'') | c # _ \<Rightarrow> c)"

text \<open>\<open>filepath.Ext\<close>.\<close>

fun rev_ext :: "string \<Rightarrow> string \<Rightarrow> string" where
  "rev_ext acc [] = []"
| "rev_ext acc (c # cs) = (if c = CHR ''/'' then [] else if c = CHR ''.'' then c # acc else rev_ext (c # acc) cs)"

definition path_ext :: "string \<Rightarrow> string" where
  "path_ext p = rev_ext [] (rev p)"

text \<open>A component: not empty, not a dot, without a separator.\<close>

definition is_comp :: "string \<Rightarrow> bool" where
  "is_comp c \<longleftrightarrow> c \<noteq> [] \<and> c \<noteq> ''.'' \<and> CHR ''/'' \<notin> set c"

definition plain_comp :: "string \<Rightarrow> bool" where
  "plain_comp c \<longleftrightarrow> is_comp c \<and> c \<noteq> ''..''"

lemma plain_comp_imp: "plain_comp c \<Longrightarrow> is_comp c"
  by (simp add: plain_comp_def)

lemma clean_push_comps:
  "\<lbrakk>list_all is_comp st; CHR ''/'' \<notin> set c\<rbrakk> \<Longrightarrow> list_all is_comp (clean_push r c st)"
  by (cases st) (auto simp: is_comp_def)

lemma clean_push_plain:
  "\<lbrakk>list_all plain_comp st; CHR ''/'' \<notin> set c\<rbrakk> \<Longrightarrow> list_all plain_comp (clean_push True c st)"
  by (cases st) (auto simp: plain_comp_def is_comp_def)

lemma fold_clean_comps:
  "\<lbrakk>\<And>c. c \<in> set cs \<Longrightarrow> CHR ''/'' \<notin> set c; list_all is_comp st\<rbrakk>
     \<Longrightarrow> list_all is_comp (fold (clean_push r) cs st)"
proof (induction cs arbitrary: st)
  case (Cons c cs)
  have "list_all is_comp (clean_push r c st)"
    using Cons.prems by (intro clean_push_comps) auto
  with Cons show ?case by simp
qed simp

lemma fold_clean_plain:
  "\<lbrakk>\<And>c. c \<in> set cs \<Longrightarrow> CHR ''/'' \<notin> set c; list_all plain_comp st\<rbrakk>
     \<Longrightarrow> list_all plain_comp (fold (clean_push True) cs st)"
proof (induction cs arbitrary: st)
  case (Cons c cs)
  have "list_all plain_comp (clean_push True c st)"
    using Cons.prems by (intro clean_push_plain) auto
  with Cons show ?case by simp
qed simp

lemma clean_comps_are_comps: "list_all is_comp (clean_comps s)"
  unfolding clean_comps_def
  by (simp add: list_all_rev) (rule fold_clean_comps, auto dest: split_on_no_sep)

lemma clean_comps_plain: "is_abs s \<Longrightarrow> list_all plain_comp (clean_comps s)"
  unfolding clean_comps_def
  by (simp add: list_all_rev) (rule fold_clean_plain, auto dest: split_on_no_sep)

section \<open>Rel and containment\<close>

fun strip_common :: "string list \<Rightarrow> string list \<Rightarrow> string list \<times> string list" where
  "strip_common (b # bs) (t # ts) = (if b = t then strip_common bs ts else (b # bs, t # ts))"
| "strip_common bs ts = (bs, ts)"

definition path_rel :: "string \<Rightarrow> string \<Rightarrow> string option" where
  "path_rel base target =
     (if path_clean target = path_clean base then Some ''.''
      else if is_abs base \<noteq> is_abs target then None
      else (case strip_common (clean_comps base) (clean_comps target) of (bs, ts) \<Rightarrow>
        (if bs \<noteq> [] \<and> hd bs = ''..'' then None
         else Some (join_with ''/'' (replicate (length bs) ''..'' @ ts)))))"

definition path_within :: "string \<Rightarrow> string \<Rightarrow> bool" where
  "path_within root candidate =
     (case path_rel root candidate of
        None \<Rightarrow> False
      | Some r \<Rightarrow> r \<noteq> ''..'' \<and> \<not> has_prefix r ''../'' \<and> \<not> is_abs r)"

lemma strip_common_split:
  "strip_common bs ts = (x, y) \<Longrightarrow> \<exists>p. bs = p @ x \<and> ts = p @ y"
  by (induction bs ts rule: strip_common.induct) (auto split: if_splits intro: exI [of _ "_ # _"])

lemma strip_common_prefix: "fst (strip_common bs ts) = [] \<longleftrightarrow> prefix bs ts"
  by (induction bs ts rule: strip_common.induct) auto

lemma join_has_sep_prefix:
  assumes "CHR ''/'' \<notin> set c" "CHR ''/'' \<notin> set d"
  shows "has_prefix (join_with ''/'' (c # cs)) (d @ ''/'') \<longleftrightarrow> c = d \<and> cs \<noteq> []"
proof (cases cs)
  case Nil
  have "\<not> has_prefix c (d @ ''/'')"
  proof
    assume "has_prefix c (d @ ''/'')"
    then obtain r where "c = d @ ''/'' @ r" by (auto simp: has_prefix_iff)
    with assms show False by simp
  qed
  with Nil show ?thesis by simp
next
  case (Cons x xs)
  have "has_prefix (c @ ''/'' @ j) (d @ ''/'') \<longleftrightarrow> c = d" for j
  proof
    assume "has_prefix (c @ ''/'' @ j) (d @ ''/'')"
    then obtain r where "c @ ''/'' @ j = d @ ''/'' @ r" by (auto simp: has_prefix_iff)
    then have "takeWhile (\<lambda>z. z \<noteq> CHR ''/'') (c @ ''/'' @ j) =
        takeWhile (\<lambda>z. z \<noteq> CHR ''/'') (d @ ''/'' @ r)" by simp
    moreover have "takeWhile (\<lambda>z. z \<noteq> CHR ''/'') (u @ ''/'' @ v) = u"
      if "CHR ''/'' \<notin> set u" for u v
      using that by (induction u) auto
    ultimately show "c = d" using assms by metis
  qed (simp add: has_prefix_def)
  with Cons show ?thesis by simp
qed

lemma join_eq_single:
  assumes "CHR ''/'' \<notin> set d" "join_with ''/'' (c # cs) = d"
  shows "cs = [] \<and> c = d"
  using assms by (cases cs) auto

lemma join_not_abs:
  "\<lbrakk>c \<noteq> []; CHR ''/'' \<notin> set c\<rbrakk> \<Longrightarrow> \<not> is_abs (join_with ''/'' (c # cs))"
  by (cases cs; cases c) (auto simp: is_abs_def has_prefix_def)

lemma spell_join_inj:
  "\<lbrakk>join_with ''/'' xs = join_with ''/'' ys; list_all is_comp xs; list_all is_comp ys\<rbrakk> \<Longrightarrow> xs = ys"
proof (induction xs arbitrary: ys)
  case Nil
  then show ?case by (cases ys; cases "tl ys") (auto simp: is_comp_def)
next
  case (Cons x xs)
  from Cons.prems obtain y zs where ys: "ys = y # zs"
    by (cases ys; cases xs) (auto simp: is_comp_def)
  have tw: "takeWhile (\<lambda>z. z \<noteq> CHR ''/'') (join_with ''/'' (u # us)) = u"
    if "CHR ''/'' \<notin> set u" for u us
    using that by (cases us; induction u) auto
  from Cons.prems ys have nx: "CHR ''/'' \<notin> set x" and ny: "CHR ''/'' \<notin> set y"
    by (auto simp: is_comp_def)
  have xy: "x = y" using tw [OF nx, of xs] tw [OF ny, of zs] Cons.prems(1) ys by metis
  show ?case
  proof (cases xs)
    case Nil
    with Cons.prems(1) ys xy show ?thesis by (cases zs) auto
  next
    case (Cons a as)
    with Cons.prems(1) ys xy obtain b bs where zs: "zs = b # bs" by (cases zs) auto
    with Cons.prems Cons ys xy have "join_with ''/'' xs = join_with ''/'' zs" by simp
    with Cons.IH [of zs] Cons.prems ys xy show ?thesis by simp
  qed
qed

lemma path_clean_eq_iff:
  assumes "is_abs a" "is_abs b"
  shows "path_clean a = path_clean b \<longleftrightarrow> clean_comps a = clean_comps b"
  using assms spell_join_inj [OF _ clean_comps_are_comps clean_comps_are_comps]
  by (auto simp: path_clean_def spell_def)

text \<open>Containment of absolute paths is a prefix of the component lists.\<close>

lemma path_within_iff:
  assumes root: "is_abs root" and cand: "is_abs candidate"
  shows "path_within root candidate \<longleftrightarrow> prefix (clean_comps root) (clean_comps candidate)"
proof (cases "path_clean candidate = path_clean root")
  case True
  with assms have "clean_comps candidate = clean_comps root" by (simp add: path_clean_eq_iff)
  with True show ?thesis by (simp add: path_within_def path_rel_def is_abs_def has_prefix_def)
next
  case False
  obtain bs ts where st: "strip_common (clean_comps root) (clean_comps candidate) = (bs, ts)"
    by fastforce
  obtain p where p: "clean_comps root = p @ bs" "clean_comps candidate = p @ ts"
    using strip_common_split [OF st] by blast
  from clean_comps_plain [OF root] clean_comps_plain [OF cand] p
  have plain: "list_all plain_comp bs" "list_all plain_comp ts" by auto
  show ?thesis
  proof (cases bs)
    case Nil
    with st False p assms obtain t us where ts: "ts = t # us"
      by (cases ts) (auto simp: path_clean_eq_iff)
    from plain ts have t: "t \<noteq> []" "t \<noteq> ''..''" "CHR ''/'' \<notin> set t"
      by (auto simp: plain_comp_def is_comp_def)
    have "path_rel root candidate = Some (join_with ''/'' (t # us))"
      using False assms st Nil ts by (simp add: path_rel_def)
    moreover have "join_with ''/'' (t # us) \<noteq> ''..''"
      using join_eq_single [of "''..''" t us] t by auto
    moreover have "\<not> has_prefix (join_with ''/'' (t # us)) ''../''"
      using join_has_sep_prefix [of t "''..''" us] t by simp
    ultimately have "path_within root candidate"
      using join_not_abs [OF t(1) t(3), of us] by (simp add: path_within_def)
    with Nil p show ?thesis by simp
  next
    case (Cons b bs')
    with plain have b: "b \<noteq> ''..''" by (simp add: plain_comp_def)
    let ?r = "join_with ''/'' (''..'' # replicate (length bs') ''..'' @ ts)"
    have "path_rel root candidate = Some ?r"
      using False assms st Cons b by (simp add: path_rel_def)
    moreover have "?r = ''..'' \<or> has_prefix ?r ''../''"
      using join_has_sep_prefix [of "''..''" "''..''" "replicate (length bs') ''..'' @ ts"]
      by (cases "replicate (length bs') ''..'' @ ts") auto
    ultimately have "\<not> path_within root candidate" by (auto simp: path_within_def)
    moreover have "\<not> prefix (clean_comps root) (clean_comps candidate)"
      using strip_common_prefix [of "clean_comps root" "clean_comps candidate"] st Cons by simp
    ultimately show ?thesis by simp
  qed
qed

lemma path_clean_nonempty [simp]: "path_clean s \<noteq> []"
proof -
  have "clean_comps s = c # cs \<Longrightarrow> c \<noteq> []" for c cs
    using clean_comps_are_comps [of s] by (simp add: is_comp_def)
  then show ?thesis
    by (cases "clean_comps s"; cases "tl (clean_comps s)") (auto simp: path_clean_def spell_def)
qed

lemma path_join_nonempty [simp]: "a \<noteq> [] \<or> b \<noteq> [] \<Longrightarrow> path_join a b \<noteq> []"
  by (auto simp: path_join_def)

section \<open>Relative paths\<close>

text \<open>A relative cleaned path consists of leading \<open>..\<close> components and then plain ones.\<close>

definition dots_last :: "string list \<Rightarrow> bool" where
  "dots_last st \<longleftrightarrow> (\<exists>xs n. st = xs @ replicate n ''..'' \<and> list_all plain_comp xs)"

lemma clean_push_dots:
  assumes "dots_last st" "CHR ''/'' \<notin> set c"
  shows "dots_last (clean_push False c st)"
proof -
  from assms(1) obtain xs n where st: "st = xs @ replicate n ''..''" "list_all plain_comp xs"
    by (auto simp: dots_last_def)
  consider "c = [] \<or> c = ''.''" | "c = ''..''" "xs = []" | "c = ''..''" "xs \<noteq> []" | "plain_comp c"
    using assms(2) by (auto simp: plain_comp_def is_comp_def)
  then show ?thesis
  proof cases
    case 2
    then have "clean_push False c st = [] @ replicate (Suc n) ''..''" using st by (cases n) auto
    then show ?thesis unfolding dots_last_def by (metis list.pred_inject(1))
  next
    case 3
    then obtain y ys where y: "xs = y # ys" by (cases xs) auto
    then have "clean_push False c st = ys @ replicate n ''..''" using 3 st by (auto simp: plain_comp_def)
    with y st show ?thesis unfolding dots_last_def by (metis list.pred_inject(2))
  next
    case 4
    then have "clean_push False c st = (c # xs) @ replicate n ''..''" using st by (auto simp: plain_comp_def is_comp_def)
    with 4 st show ?thesis unfolding dots_last_def by (metis list.pred_inject(2))
  qed (use assms(1) in auto)
qed

lemma clean_comps_dots:
  assumes "\<not> is_abs s"
  obtains n xs where "clean_comps s = replicate n ''..'' @ xs" "list_all plain_comp xs"
proof -
  have "dots_last (fold (clean_push False) cs st)" if "\<forall>c \<in> set cs. CHR ''/'' \<notin> set c" "dots_last st" for cs st
    using that by (induction cs arbitrary: st) (auto simp del: clean_push.simps intro: clean_push_dots)
  moreover have "dots_last []" by (auto simp: dots_last_def)
  ultimately have "dots_last (fold (clean_push False) (split_on (CHR ''/'') s) [])" using split_on_no_sep by blast
  then show thesis using assms that
    unfolding clean_comps_def dots_last_def by (auto simp: list_all_rev)
qed

text \<open>Joining a relative path: leading \<open>..\<close> components remove components of the base.\<close>

lemma clean_push_above:
  assumes "st = xs @ replicate n ''..''" "list_all plain_comp xs" "list_all plain_comp base" "CHR ''/'' \<notin> set c"
  obtains ys m where "clean_push False c st = ys @ replicate m ''..''" "list_all plain_comp ys"
    "clean_push True c (xs @ drop n base) = ys @ drop m base"
proof -
  consider "c = [] \<or> c = ''.''" | "c = ''..''" "xs = []" | "c = ''..''" "xs \<noteq> []" | "plain_comp c"
    using assms(4) by (auto simp: plain_comp_def is_comp_def)
  then show thesis
  proof cases
    case 1
    then show thesis using assms that [of xs n] by auto
  next
    case 2
    have "clean_push False c st = [] @ replicate (Suc n) ''..''" using 2 assms(1) by (cases n) auto
    moreover have "clean_push True c (xs @ drop n base) = [] @ drop (Suc n) base"
    proof (cases "drop n base")
      case Nil
      then show ?thesis using 2 by simp
    next
      case (Cons y ys)
      then have "y \<in> set base" by (metis in_set_dropD list.set_intros(1))
      with assms(3) have "y \<noteq> ''..''" by (auto simp: list_all_iff plain_comp_def)
      moreover have "drop (Suc n) base = ys" using Cons by (metis drop_Suc tl_drop list.sel(3))
      ultimately show ?thesis using 2 Cons by simp
    qed
    ultimately show thesis using that [of "[]" "Suc n"] by simp
  next
    case 3
    then obtain y ys where y: "xs = y # ys" by (cases xs) auto
    with 3 assms that [of ys n] show thesis by (auto simp: plain_comp_def)
  next
    case 4
    with assms that [of "c # xs" n] show thesis by (auto simp: plain_comp_def is_comp_def)
  qed
qed

lemma fold_push_above:
  assumes "st = xs @ replicate n ''..''" "list_all plain_comp xs" "list_all plain_comp base" "\<forall>c \<in> set cs. CHR ''/'' \<notin> set c"
  shows "\<exists>ys m. fold (clean_push False) cs st = ys @ replicate m ''..'' \<and> list_all plain_comp ys \<and>
    fold (clean_push True) cs (xs @ drop n base) = ys @ drop m base"
  using assms
proof (induction cs arbitrary: st xs n)
  case Nil
  then show ?case by auto
next
  case (Cons c cs)
  from Cons.prems obtain ys m where "clean_push False c st = ys @ replicate m ''..''" "list_all plain_comp ys"
    "clean_push True c (xs @ drop n base) = ys @ drop m base"
    by (meson clean_push_above list.set_intros(1))
  with Cons.IH [of "clean_push False c st" ys m] Cons.prems show ?case by (simp del: clean_push.simps)
qed

lemma split_on_join: "split_on d (x @ d # y) = split_on d x @ split_on d y"
proof (induction x)
  case (Cons a x)
  then show ?case using split_on_not_Nil [of d x] by (auto split: list.split)
qed simp

lemma join_plain:
  assumes "is_abs a" "\<not> is_abs b" "list_all plain_comp (clean_comps b)"
  shows "clean_comps (a @ ''/'' @ b) = clean_comps a @ clean_comps b"
proof -
  let ?base = "rev (clean_comps a)"
  have "is_abs (a @ ''/'' @ b)" using assms(1) by (auto simp: is_abs_def has_prefix_iff)
  then have j: "clean_comps (a @ ''/'' @ b) = rev (fold (clean_push True) (split_on (CHR ''/'') b) ?base)"
    using assms(1) by (simp add: clean_comps_def split_on_join)
  have "list_all plain_comp ?base" using clean_comps_plain [OF assms(1)] by (simp add: list_all_rev)
  then obtain ys m where y: "fold (clean_push False) (split_on (CHR ''/'') b) [] = ys @ replicate m ''..''"
    "fold (clean_push True) (split_on (CHR ''/'') b) ?base = ys @ drop m ?base"
    using fold_push_above [of "[]" "[]" 0 ?base "split_on (CHR ''/'') b"] split_on_no_sep by auto
  have b: "clean_comps b = replicate m ''..'' @ rev ys" using assms(2) y(1) by (simp add: clean_comps_def)
  with assms(3) have "m = 0" by (cases m) (auto simp: plain_comp_def)
  with b y(2) j show ?thesis by simp
qed

text \<open>Cleaning a cleaned absolute path changes nothing.\<close>

lemma split_join:
  "\<lbrakk>cs \<noteq> []; \<forall>c \<in> set cs. CHR ''/'' \<notin> set c\<rbrakk> \<Longrightarrow> split_on (CHR ''/'') (join_with ''/'' cs) = cs"
proof (induction cs)
  case (Cons c cs)
  have one: "CHR ''/'' \<notin> set x \<Longrightarrow> split_on (CHR ''/'') x = [x]" for x by (induction x) auto
  show ?case
  proof (cases cs)
    case Nil
    with Cons.prems one show ?thesis by simp
  next
    case (Cons d ds)
    then have "join_with ''/'' (c # cs) = c @ CHR ''/'' # join_with ''/'' cs" by simp
    then show ?thesis using Cons.IH Cons.prems Cons one [of c] by (simp add: split_on_join)
  qed
qed simp

lemma fold_plain: "list_all plain_comp cs \<Longrightarrow> fold (clean_push True) cs st = rev cs @ st"
  by (induction cs arbitrary: st) (auto simp: plain_comp_def is_comp_def)

lemma clean_comps_clean:
  assumes "is_abs s"
  shows "clean_comps (path_clean s) = clean_comps s" "is_abs (path_clean s)"
proof -
  let ?cs = "clean_comps s"
  have p: "list_all plain_comp ?cs" by (rule clean_comps_plain [OF assms])
  have c: "path_clean s = ''/'' @ join_with ''/'' ?cs" using assms by (simp add: path_clean_def spell_def)
  then show a: "is_abs (path_clean s)" by (simp add: is_abs_def has_prefix_iff)
  show "clean_comps (path_clean s) = ?cs"
  proof (cases "?cs = []")
    case True
    then show ?thesis using c a by (simp add: clean_comps_def)
  next
    case False
    from p have "\<forall>c \<in> set ?cs. CHR ''/'' \<notin> set c" by (auto simp: list_all_iff plain_comp_def is_comp_def)
    with False have "split_on (CHR ''/'') (path_clean s) = [] # ?cs"
      using split_join [of ?cs] split_on_join [of "CHR ''/''" "[]" "join_with ''/'' ?cs"] c by simp
    then show ?thesis using a fold_plain [OF p, of "[]"] by (simp add: clean_comps_def [of "path_clean s"])
  qed
qed

lemma join_within:
  assumes "is_abs root" "\<not> is_abs b" "list_all plain_comp (clean_comps b)"
  shows "path_within root (path_join root b)" "clean_comps (path_join root b) = clean_comps root @ clean_comps b"
proof -
  have a: "is_abs (root @ ''/'' @ b)" "root \<noteq> []" using assms(1) by (auto simp: is_abs_def has_prefix_iff)
  with clean_comps_clean [OF a(1)] join_plain [OF assms]
  show c: "clean_comps (path_join root b) = clean_comps root @ clean_comps b" by (simp add: path_join_def)
  have "is_abs (path_join root b)" using clean_comps_clean(2) [OF a(1)] a(2) by (simp add: path_join_def)
  with c path_within_iff [OF assms(1)] show "path_within root (path_join root b)" by simp
qed

text \<open>Relative paths given by their components.\<close>

lemma comp_of: "c \<noteq> [] \<Longrightarrow> c \<noteq> ''.'' \<Longrightarrow> c \<noteq> ''..'' \<Longrightarrow> CHR ''/'' \<notin> set c \<Longrightarrow> plain_comp c"
  by (simp add: plain_comp_def is_comp_def)

lemma clean_push_plain_comp: "plain_comp c \<Longrightarrow> clean_push b c st = c # st"
  by (auto simp: plain_comp_def is_comp_def)

lemma fold_plain_any: "list_all plain_comp cs \<Longrightarrow> fold (clean_push b) cs st = rev cs @ st"
  by (induction cs arbitrary: st) (auto simp: clean_push_plain_comp simp del: clean_push.simps)

lemma relative_comps:
  assumes "cs \<noteq> []" "list_all plain_comp cs"
  shows "clean_comps (join_with ''/'' cs) = cs" "\<not> is_abs (join_with ''/'' cs)"
proof -
  have "\<forall>c \<in> set cs. CHR ''/'' \<notin> set c" using assms(2) by (auto simp: list_all_iff plain_comp_def is_comp_def)
  then have s: "split_on (CHR ''/'') (join_with ''/'' cs) = cs" by (rule split_join [OF assms(1)])
  show "clean_comps (join_with ''/'' cs) = cs" by (simp add: clean_comps_def s fold_plain_any [OF assms(2)])
  obtain c ds where "cs = c # ds" using assms(1) by (cases cs) auto
  then show "\<not> is_abs (join_with ''/'' cs)" using assms(2) join_not_abs by (auto simp: plain_comp_def is_comp_def)
qed

lemma join_comps:
  assumes "is_abs root" "cs \<noteq> []" "list_all plain_comp cs"
  shows "clean_comps (path_join root (join_with ''/'' cs)) = clean_comps root @ cs" "is_abs (path_join root (join_with ''/'' cs))"
proof -
  note r = relative_comps [OF assms(2,3)]
  show "clean_comps (path_join root (join_with ''/'' cs)) = clean_comps root @ cs"
    using join_within(2) [OF assms(1) r(2)] r(1) assms(3) by simp
  have a: "is_abs (root @ ''/'' @ join_with ''/'' cs)" "root \<noteq> []" using assms(1) by (auto simp: is_abs_def has_prefix_iff)
  show "is_abs (path_join root (join_with ''/'' cs))" using clean_comps_clean(2) [OF a(1)] a(2) by (simp add: path_join_def)
qed

lemma join_with_append: "xs \<noteq> [] \<Longrightarrow> ys \<noteq> [] \<Longrightarrow> join_with s (xs @ ys) = join_with s xs @ s @ join_with s ys"
proof (induction xs)
  case (Cons x xs)
  then show ?case by (cases xs; cases ys) auto
qed simp

lemma path_join_spelled:
  assumes "is_abs root" "path_clean root = root" "root \<noteq> ''/''" "cs \<noteq> []" "list_all plain_comp cs"
  shows "path_join root (join_with ''/'' cs) = root @ ''/'' @ join_with ''/'' cs"
proof -
  note r = relative_comps [OF assms(4,5)]
  have root: "root = ''/'' @ join_with ''/'' (clean_comps root)" "clean_comps root \<noteq> []"
    using assms(1-3) by (auto simp: path_clean_def spell_def)
  have long: "is_abs (root @ ''/'' @ join_with ''/'' cs)" "root \<noteq> []" using assms(1) by (auto simp: is_abs_def has_prefix_iff)
  have "path_join root (join_with ''/'' cs) = path_clean (root @ ''/'' @ join_with ''/'' cs)" using long(2) by (simp add: path_join_def)
  also have "\<dots> = ''/'' @ join_with ''/'' (clean_comps root @ cs)"
    using join_plain [OF assms(1) r(2)] r(1) assms(5) long(1) by (simp add: path_clean_def spell_def)
  finally show ?thesis using root join_with_append [OF root(2) assms(4)] by simp
qed

end
