(* ===== verification/Workspace.thy ===== *)
theory Workspace
  imports Paths
begin

text \<open>
  The trust boundary \<open>internal/workspace/root.go\<close>: a workspace root, the resolution of request
  paths against it, and the session-local read grants. The operating system is the record
  \<open>os_env\<close>: what \<open>realPath\<close> (\<open>filepath.EvalSymlinks\<close>), \<open>os.Lstat\<close> and
  \<open>os.Stat\<close> answer, and the working directory. Nothing is assumed of these answers, so the
  containment lemmas hold for every arrangement of symbolic links.
\<close>

datatype lstat_answer = LstatFound | LstatMissing | LstatFailed go_error

record os_env =
  env_realpath :: "string \<Rightarrow> go_error + string"
  env_lstat :: "string \<Rightarrow> lstat_answer"
  env_stat_dir :: "string \<Rightarrow> go_error + bool"
  env_stat_file :: "string \<Rightarrow> go_error + (bool \<times> nat)"
  env_read :: "string \<Rightarrow> go_error + string"
  env_cwd :: string

record read_grant_target =
  rt_resolved :: string
  rt_directory :: bool

record root =
  rt_id :: string
  rt_lexical :: string
  rt_root_resolved :: string
  rt_grants :: "(string, read_grant_target) gomap"

record read_grant =
  rg_id :: string
  rg_path :: string

record read_grant_plan =
  rp_grant :: read_grant
  rp_candidate :: read_grant_target

definition path_abs :: "os_env \<Rightarrow> string \<Rightarrow> string" where
  "path_abs env p = (if is_abs p then path_clean p else path_join (env_cwd env) p)"

definition same_path :: "string \<Rightarrow> string \<Rightarrow> bool" where
  "same_path left right \<longleftrightarrow> path_clean left = path_clean right"

definition grant_covers :: "read_grant_target \<Rightarrow> string \<Rightarrow> bool" where
  "grant_covers g candidate \<longleftrightarrow>
     (\<not> rt_directory g \<and> same_path (rt_resolved g) candidate) \<or>
     (rt_directory g \<and> path_within (rt_resolved g) candidate)"

definition read_allowed :: "root \<Rightarrow> string \<Rightarrow> bool" where
  "read_allowed r candidate \<longleftrightarrow>
     path_within (rt_root_resolved r) candidate \<or>
     list_ex (\<lambda>(gid, g). grant_covers g candidate) (rt_grants r)"

definition resolve_existing :: "os_env \<Rightarrow> root \<Rightarrow> string \<Rightarrow> go_error + string" where
  "resolve_existing env r relative =
     (if is_abs relative then Inl (Sentinel ErrAbsolute)
      else try_then (env_realpath env (path_join (rt_lexical r) (path_clean relative)))
        (\<lambda>real. let resolved = path_clean (path_abs env real) in
           if \<not> read_allowed r resolved then Inl (Sentinel ErrEscape) else Inr resolved))"

definition resolve_primary_existing :: "os_env \<Rightarrow> root \<Rightarrow> string \<Rightarrow> go_error + string" where
  "resolve_primary_existing env r relative =
     (if is_abs relative then Inl (Sentinel ErrAbsolute)
      else let lexical = path_join (rt_lexical r) (path_clean relative) in
        if \<not> path_within (rt_lexical r) lexical then Inl (Sentinel ErrEscape)
        else try_then (env_realpath env lexical)
          (\<lambda>real. let resolved = path_clean (path_abs env real) in
             if \<not> path_within (rt_root_resolved r) resolved then Inl (Sentinel ErrEscape)
             else Inr resolved))"

text \<open>
  The walk of \<open>ResolveForLookup\<close> to the nearest existing parent. The lexical path is absolute
  and clean, so \<open>filepath.Dir\<close> drops its last component and \<open>filepath.Base\<close> is that
  component; the walk runs down the reversed component list and collects the missing names.
\<close>

fun lookup_walk :: "os_env \<Rightarrow> go_error \<Rightarrow> string list \<Rightarrow> string list \<Rightarrow> go_error + (string \<times> string list)" where
  "lookup_walk env exhausted comps missing =
     (let parent = spell True (rev comps) in
      case env_lstat env parent of
        LstatFound \<Rightarrow> Inr (parent, missing)
      | LstatFailed e \<Rightarrow> Inl e
      | LstatMissing \<Rightarrow>
          (case comps of
             [] \<Rightarrow> Inl exhausted
           | c # cs \<Rightarrow> lookup_walk env exhausted cs (missing @ [c])))"

declare lookup_walk.simps [simp del]

definition resolve_for_lookup :: "os_env \<Rightarrow> root \<Rightarrow> string \<Rightarrow> go_error + (string \<times> bool)" where
  "resolve_for_lookup env r relative =
     (if is_abs relative then Inl (Sentinel ErrAbsolute)
      else let lexical = path_join (rt_lexical r) (path_clean relative) in
        case env_lstat env lexical of
          LstatFound \<Rightarrow> try_then (resolve_existing env r relative) (\<lambda>p. Inr (p, True))
        | LstatFailed e \<Rightarrow> Inl e
        | LstatMissing \<Rightarrow>
            try_then (lookup_walk env (Sentinel ErrEscape) (rev (clean_comps lexical)) [])
              (\<lambda>(parent, missing). try_then (env_realpath env parent)
                (\<lambda>resolvedParent.
                   if \<not> read_allowed r resolvedParent then Inl (Sentinel ErrEscape)
                   else let resolved = path_clean (foldr (\<lambda>c p. path_join p c) missing resolvedParent)
                     in if \<not> read_allowed r resolved then Inl (Sentinel ErrEscape)
                        else Inr (resolved, False))))"

definition real_path_allow_missing :: "os_env \<Rightarrow> string \<Rightarrow> go_error + string" where
  "real_path_allow_missing env p =
     try_then (lookup_walk env (Wrap ''no existing ancestor: '' (Text ''file does not exist''))
         (rev (clean_comps (path_abs env p))) [])
       (\<lambda>(parent, missing). try_then (env_realpath env parent)
         (\<lambda>resolved. Inr (path_clean (foldr (\<lambda>c p. path_join p c) missing resolved))))"

text \<open>
  Grant identities: \<open>digest\<close> stands for the base64 text of the truncated SHA-256 sum of the
  canonical path.
\<close>

definition grant_identity :: "(string \<Rightarrow> string) \<Rightarrow> string \<Rightarrow> string" where
  "grant_identity digest resolved = ''rg_'' @ digest (path_clean resolved)"

definition prepare_read_grant ::
    "(string \<Rightarrow> string) \<Rightarrow> os_env \<Rightarrow> root \<Rightarrow> string \<Rightarrow> go_error + read_grant_plan" where
  "prepare_read_grant digest env r relative =
     (if is_abs relative then Inl (Sentinel ErrAbsolute)
      else let clean = path_clean relative in
        if clean = ''.'' \<or> trim_space relative = []
          then Inl (Text ''workspace: read grant path is required'')
        else try_then (env_realpath env (path_join (rt_lexical r) clean))
          (\<lambda>real. let resolved = path_clean (path_abs env real) in
             try_then (env_stat_dir env resolved)
               (\<lambda>dir. Inr \<lparr>rp_grant = \<lparr>rg_id = grant_identity digest resolved, rg_path = clean\<rparr>,
                            rp_candidate = \<lparr>rt_resolved = resolved, rt_directory = dir\<rparr>\<rparr>)))"

definition apply_read_grant :: "root \<Rightarrow> read_grant_plan \<Rightarrow> root \<times> read_grant" where
  "apply_read_grant r plan =
     (r\<lparr>rt_grants := map_put (rg_id (rp_grant plan)) (rp_candidate plan) (rt_grants r)\<rparr>,
      rp_grant plan)"

definition grant_read ::
    "(string \<Rightarrow> string) \<Rightarrow> os_env \<Rightarrow> root \<Rightarrow> string \<Rightarrow> go_error + (root \<times> read_grant)" where
  "grant_read digest env r relative =
     try_then (prepare_read_grant digest env r relative) (\<lambda>plan. Inr (apply_read_grant r plan))"

definition revoke_read :: "root \<Rightarrow> string \<Rightarrow> root \<times> bool" where
  "revoke_read r gid =
     (case map_of (rt_grants r) gid of
        None \<Rightarrow> (r, False)
      | Some _ \<Rightarrow> (r\<lparr>rt_grants := map_del gid (rt_grants r)\<rparr>, True))"

section \<open>The saved workspace identity (\<open>identity.go\<close>)\<close>

definition identity_file :: string where
  "identity_file = ''.repoplane/workspace-id''"

definition identity_char :: "char \<Rightarrow> bool" where
  "identity_char c \<longleftrightarrow> between 65 90 c \<or> between 97 122 c \<or> between 48 57 c \<or>
     c = CHR ''_'' \<or> c = CHR ''-''"

definition identity_pattern :: "string \<Rightarrow> bool" where
  "identity_pattern s \<longleftrightarrow> has_prefix s ''ws_'' \<and> length s = 27 \<and> list_all identity_char (drop 3 s)"

definition saved_identity :: "os_env \<Rightarrow> root \<Rightarrow> go_error + string" where
  "saved_identity env r =
     try_then (resolve_for_lookup env r identity_file)
       (\<lambda>(_, found). if \<not> found then Inr []
         else try_then (resolve_primary_existing env r identity_file) (\<lambda>p.
           try_then (env_stat_file env p) (\<lambda>(regular, size).
             if \<not> regular \<or> 128 < size
               then Inl (Text ''workspace: private workspace-id must be a regular file of at most 128 bytes; restore the original identity file'')
             else try_then (env_read env p) (\<lambda>content.
               let contents = take 129 content; ident = trim_space contents in
               if 128 < length contents \<or> \<not> identity_pattern ident
                 then Inl (Text ''workspace: invalid private workspace-id; restore the original identity file'')
               else Inr ident))))"

text \<open>\<open>identity\<close>: \<open>digest\<close> is the base64 text of the truncated SHA-256 sum. \<open>Open\<close> starts
  from it and prefers the saved identity.\<close>

definition path_identity :: "(string \<Rightarrow> string) \<Rightarrow> string \<Rightarrow> string" where
  "path_identity digest resolved = ''ws_'' @ digest (path_clean resolved)"

definition err_invalid_root :: go_error where
  "err_invalid_root = Text ''workspace: invalid root''"

definition open_root :: "(string \<Rightarrow> string) \<Rightarrow> os_env \<Rightarrow> string \<Rightarrow> go_error + root" where
  "open_root digest env p =
     (let ab = path_abs env p in
      case env_stat_dir env ab of
        Inl e \<Rightarrow> Inl (Wrap ''stat'' err_invalid_root)
      | Inr dir \<Rightarrow> if \<not> dir then Inl (Wrap ''not a directory'' err_invalid_root)
          else (case env_realpath env ab of
            Inl e \<Rightarrow> Inl (Wrap ''resolve'' err_invalid_root)
          | Inr real \<Rightarrow>
              (let resolved = path_clean (path_abs env real);
                   r = \<lparr>rt_id = path_identity digest resolved, rt_lexical = path_clean ab,
                        rt_root_resolved = resolved, rt_grants = []\<rparr>
               in try_then (saved_identity env r)
                 (\<lambda>saved. Inr (if saved \<noteq> [] then r\<lparr>rt_id := saved\<rparr> else r)))))"

definition prepare_identity :: "(string \<Rightarrow> string) \<Rightarrow> os_env \<Rightarrow> root \<Rightarrow> string \<Rightarrow> go_error + root" where
  "prepare_identity digest env r origin =
     try_then
       (if origin = [] then Inr (rt_id r)
        else if \<not> is_abs origin
          then Inl (Text ''workspace: workspace-origin must be an absolute former canonical path'')
        else (case real_path_allow_missing env origin of
            Inl e \<Rightarrow> Inl (Wrap ''workspace: resolve former workspace path: '' e)
          | Inr canonical \<Rightarrow> Inr (path_identity digest canonical)))
       (\<lambda>wanted. try_then (saved_identity env r) (\<lambda>saved.
          if saved \<noteq> [] \<and> saved \<noteq> wanted
            then Inl (Text ''workspace: workspace-origin or prepared identity conflicts with saved identity; refusing to replace it'')
          else Inr (r\<lparr>rt_id := wanted\<rparr>)))"

section \<open>Containment\<close>

lemma resolve_existing_allowed:
  "resolve_existing env r relative = Inr p \<Longrightarrow> read_allowed r p"
  by (auto simp: resolve_existing_def Let_def split: if_splits)

lemma resolve_primary_within:
  "resolve_primary_existing env r relative = Inr p \<Longrightarrow> path_within (rt_root_resolved r) p"
  by (auto simp: resolve_primary_existing_def Let_def split: if_splits)

lemma resolve_for_lookup_allowed:
  "resolve_for_lookup env r relative = Inr (p, b) \<Longrightarrow> read_allowed r p"
  by (auto simp: resolve_for_lookup_def Let_def resolve_existing_allowed
      split: if_splits lstat_answer.splits)

lemma path_clean_abs: "is_abs p \<Longrightarrow> is_abs (path_clean p)"
  by (simp add: path_clean_def spell_def is_abs_def has_prefix_def)

lemma path_join_abs: "is_abs a \<Longrightarrow> is_abs (path_join a b)"
  by (cases a) (auto simp: path_join_def is_abs_def has_prefix_def spell_def path_clean_def)

lemma path_abs_abs: "is_abs (env_cwd env) \<Longrightarrow> is_abs (path_abs env p)"
  by (simp add: path_abs_def path_clean_abs path_join_abs)

lemma resolve_primary_abs:
  assumes "resolve_primary_existing env r relative = Inr p" "is_abs (env_cwd env)"
  shows "is_abs p"
  using assms by (auto simp: resolve_primary_existing_def Let_def path_clean_abs path_abs_abs
      split: if_splits)

lemma apply_read_grant_primary [simp]:
  "rt_root_resolved (fst (apply_read_grant r plan)) = rt_root_resolved r"
  "rt_lexical (fst (apply_read_grant r plan)) = rt_lexical r"
  by (simp_all add: apply_read_grant_def)

lemma revoke_read_primary [simp]:
  "rt_root_resolved (fst (revoke_read r gid)) = rt_root_resolved r"
  "rt_lexical (fst (revoke_read r gid)) = rt_lexical r"
  by (simp_all add: revoke_read_def split: option.splits)

lemma resolve_primary_depends:
  "\<lbrakk>rt_root_resolved r' = rt_root_resolved r; rt_lexical r' = rt_lexical r\<rbrakk> \<Longrightarrow>
     resolve_primary_existing env r' relative = resolve_primary_existing env r relative"
  by (simp only: resolve_primary_existing_def)

lemma revoke_read_lookup [simp]:
  "map_of (rt_grants (fst (revoke_read r gid))) = (map_of (rt_grants r))(gid := None)"
  by (auto simp: revoke_read_def split: option.splits)

lemma revoke_read_wf [simp]:
  "wf_map (rt_grants r) \<Longrightarrow> wf_map (rt_grants (fst (revoke_read r gid)))"
  by (simp add: revoke_read_def split: option.splits)

text \<open>C1: whatever the symbolic links, a path resolved for mutation, catalog or Runner code lies
  below the primary root: its components extend the components of the resolved root.\<close>

theorem primary_resolution_contained:
  assumes "resolve_primary_existing env r relative = Inr p"
    and "is_abs (env_cwd env)" and "is_abs (rt_root_resolved r)"
  shows "prefix (clean_comps (rt_root_resolved r)) (clean_comps p)"
  using resolve_primary_within [OF assms(1)] resolve_primary_abs [OF assms(1,2)] assms(3)
  by (simp add: path_within_iff)

definition sample_env :: os_env where
  "sample_env = \<lparr>env_realpath = (\<lambda>p. if p = ''/w/a'' then Inr ''/w/lib/a'' else Inr ''/etc''),
     env_lstat = (\<lambda>p. LstatFound), env_stat_dir = (\<lambda>p. Inr True),
     env_stat_file = (\<lambda>p. Inr (True, 28)),
     env_read = (\<lambda>p. Inr ''ws_abcdefghijklmnopqrstuvwx''), env_cwd = ''/''\<rparr>"

definition sample_root :: root where
  "sample_root = \<lparr>rt_id = ''ws_1'', rt_lexical = ''/w'', rt_root_resolved = ''/w'', rt_grants = []\<rparr>"

lemma sample_primary: "resolve_primary_existing sample_env sample_root ''a'' = Inr ''/w/lib/a''"
  by code_simp

theorem primary_resolution_contained_witness:
  "resolve_primary_existing sample_env sample_root ''a'' = Inr ''/w/lib/a'' \<and>
   prefix (clean_comps (rt_root_resolved sample_root)) (clean_comps ''/w/lib/a'')"
proof -
  have "is_abs (env_cwd sample_env)" "is_abs (rt_root_resolved sample_root)" by code_simp+
  then show ?thesis
    using primary_resolution_contained [OF sample_primary] sample_primary by simp
qed

text \<open>Read grants never enlarge the authority of mutation and Runner code: applying or
  revoking a grant leaves every primary resolution as it was.\<close>

theorem read_grants_keep_primary_authority:
  "resolve_primary_existing env (fst (apply_read_grant r plan)) relative
     = resolve_primary_existing env r relative \<and>
   resolve_primary_existing env (fst (revoke_read r gid)) relative
     = resolve_primary_existing env r relative"
  by (intro conjI resolve_primary_depends) simp_all

section \<open>Identities\<close>

lemma saved_identity_form:
  assumes "saved_identity env r = Inr ident" "ident \<noteq> []"
  shows "identity_pattern ident"
  using assms by (auto simp: saved_identity_def Let_def split: if_splits)

lemma saved_identity_id_indep: "saved_identity env (r\<lparr>rt_id := i\<rparr>) = saved_identity env r"
  by (simp add: saved_identity_def resolve_for_lookup_def resolve_existing_def read_allowed_def
      resolve_primary_existing_def Let_def cong: if_cong lstat_answer.case_cong)

lemma saved_identity_rename:
  "saved_identity env \<lparr>rt_id = i, rt_lexical = a, rt_root_resolved = b, rt_grants = c\<rparr> =
     saved_identity env \<lparr>rt_id = j, rt_lexical = a, rt_root_resolved = b, rt_grants = c\<rparr>"
  using saved_identity_id_indep [where env = env and i = i and
      r = "\<lparr>rt_id = j, rt_lexical = a, rt_root_resolved = b, rt_grants = c\<rparr>"] by simp

lemma open_root_cases:
  assumes "open_root digest env p = Inr r"
  obtains real saved where
    "saved_identity env \<lparr>rt_id = path_identity digest (path_clean (path_abs env real)),
       rt_lexical = path_clean (path_abs env p), rt_root_resolved = path_clean (path_abs env real),
       rt_grants = []\<rparr> = Inr saved"
    "r = \<lparr>rt_id = (if saved \<noteq> [] then saved
                  else path_identity digest (path_clean (path_abs env real))),
       rt_lexical = path_clean (path_abs env p), rt_root_resolved = path_clean (path_abs env real),
       rt_grants = []\<rparr>"
  using assms by (force simp: open_root_def Let_def split: if_splits sum.splits)

lemma open_root_saved:
  assumes "open_root digest env p = Inr r" "saved_identity env r = Inr saved" "saved \<noteq> []"
  shows "rt_id r = saved"
proof -
  obtain real saved' where s: "saved_identity env
      \<lparr>rt_id = path_identity digest (path_clean (path_abs env real)),
       rt_lexical = path_clean (path_abs env p), rt_root_resolved = path_clean (path_abs env real),
       rt_grants = []\<rparr> = Inr saved'"
    and r: "r = \<lparr>rt_id = (if saved' \<noteq> [] then saved'
                  else path_identity digest (path_clean (path_abs env real))),
       rt_lexical = path_clean (path_abs env p), rt_root_resolved = path_clean (path_abs env real),
       rt_grants = []\<rparr>"
    by (rule open_root_cases [OF assms(1)])
  have "saved_identity env r = Inr saved'"
    unfolding r by (rule trans [OF saved_identity_rename s])
  with assms(2) have "saved' = saved" by simp
  with assms(3) r show ?thesis by simp
qed

lemma prepare_identity_saved:
  assumes "prepare_identity digest env r origin = Inr r'" "saved_identity env r = Inr saved" "saved \<noteq> []"
  shows "rt_id r' = saved"
  using assms by (auto simp: prepare_identity_def Let_def split: if_splits sum.splits)

end
