(* ===== verification/Settings.thy ===== *)
theory Settings
  imports Paths
begin

text \<open>
  \<open>internal/config/config.go\<close>: the startup settings, what \<open>Parse\<close> does after the flag package has
  stored the flags, and the search for the default catalog root. The file system is the record
  \<open>stat_env\<close>. The lemmas state the combinations of flags that are refused and that the choice of
  a nested catalog is unambiguous.
\<close>

record settings =
  st_transport :: string
  st_tool_surface :: string
  st_result_content :: string
  st_http_profile :: string
  st_workspace :: string
  st_workspace_origin :: string
  st_state_dir :: string
  st_catalog_roots :: "string list"
  st_candidate_roots :: "string list"
  st_rule_files :: "string list"
  st_symbol_indexes :: "string list"
  st_enable_intention_writes :: bool
  st_enable_report_import :: bool
  st_enable_runner :: bool
  st_enable_cache :: bool

text \<open>\<open>stringList.Set\<close>, called once per occurrence of a repeatable flag.\<close>

definition string_list_set :: "string list \<Rightarrow> string \<Rightarrow> go_error + string list" where
  "string_list_set values value =
     (let v = trim_space value in
      if v = [] then Inl (Text ''path must not be empty'') else Inr (values @ [v]))"

record dir_entry =
  de_name :: string
  de_is_dir :: bool
  de_is_symlink :: bool

record stat_env =
  se_exists :: "string \<Rightarrow> bool"
  se_is_dir :: "string \<Rightarrow> bool"
  se_read_dir :: "string \<Rightarrow> go_error + dir_entry list"

fun child_catalog_loop :: "stat_env \<Rightarrow> string \<Rightarrow> string \<Rightarrow> dir_entry list \<Rightarrow> string" where
  "child_catalog_loop env ws candidate [] = candidate"
| "child_catalog_loop env ws candidate (e # es) =
     (if \<not> de_is_dir e \<or> de_is_symlink e then child_catalog_loop env ws candidate es
      else let repository = path_join ws (de_name e) in
        if \<not> se_exists env (path_join repository ''.git'') then child_catalog_loop env ws candidate es
        else if \<not> se_is_dir env (path_join repository ''catalog'') then child_catalog_loop env ws candidate es
        else if candidate \<noteq> [] then []
        else child_catalog_loop env ws (path_join (de_name e) ''catalog'') es)"

definition unique_child_catalog_root :: "stat_env \<Rightarrow> string \<Rightarrow> string" where
  "unique_child_catalog_root env ws =
     (case se_read_dir env ws of
        Inl _ \<Rightarrow> []
      | Inr entries \<Rightarrow> if 64 < length entries then [] else child_catalog_loop env ws [] entries)"

text \<open>
  The upward walk of \<open>defaultCatalogRoot\<close>: \<open>comps\<close> is the reversed component list of the current
  directory. \<open>Some r\<close> is a return inside the loop, \<open>None\<close> falls through to the children.
\<close>

definition catalog_fallback :: string where "catalog_fallback = ''catalog''"

definition repository_catalog :: "stat_env \<Rightarrow> string \<Rightarrow> string \<Rightarrow> string" where
  "repository_catalog env ws current =
     (let catalogPath = path_join current catalog_fallback in
      if se_is_dir env catalogPath then
        (case path_rel ws catalogPath of
           Some relative \<Rightarrow> if path_within ws catalogPath then relative else catalog_fallback
         | None \<Rightarrow> catalog_fallback)
      else catalog_fallback)"

fun catalog_walk :: "stat_env \<Rightarrow> string \<Rightarrow> string list \<Rightarrow> string option" where
  "catalog_walk env ws comps =
     (let current = spell True (rev comps) in
      if \<not> path_within ws current then None
      else if se_exists env (path_join current ''.git'') then Some (repository_catalog env ws current)
      else case comps of [] \<Rightarrow> None | c # cs \<Rightarrow> catalog_walk env ws cs)"

declare catalog_walk.simps [simp del]

definition default_catalog_root :: "stat_env \<Rightarrow> string \<Rightarrow> string \<Rightarrow> string \<Rightarrow> string" where
  "default_catalog_root env cwd workspacePath startPath =
     (let absolute = (\<lambda>p. if is_abs p then path_clean p else path_join cwd p);
          ws = absolute workspacePath; start = absolute startPath in
      if se_is_dir env (path_join ws catalog_fallback) then catalog_fallback
      else if \<not> path_within ws start then catalog_fallback
      else case catalog_walk env ws (rev (clean_comps start)) of
          Some r \<Rightarrow> r
        | None \<Rightarrow> (let nested = unique_child_catalog_root env ws in
            if nested \<noteq> [] then nested else catalog_fallback))"

text \<open>What \<open>Parse\<close> does with the parsed flags and the positional arguments.\<close>

definition settings_checks :: "string list \<Rightarrow> settings \<Rightarrow> (bool \<times> go_error) list" where
  "settings_checks positional s =
     [(positional \<noteq> [], Text (''unexpected positional arguments: '' @ join_with '' '' positional)),
      (st_enable_cache s \<and> \<not> st_enable_runner s, Text ''--enable-cache requires --enable-runner''),
      (st_transport s \<noteq> ''stdio'' \<and> st_transport s \<noteq> ''http'', Text ''--transport must be stdio or http''),
      (st_tool_surface s \<noteq> ''typed.v1'' \<and> st_tool_surface s \<noteq> ''toolbox.v1'',
        Text ''--tool-surface must be typed.v1 or toolbox.v1''),
      (st_result_content s \<noteq> ''compatible'' \<and> st_result_content s \<noteq> ''deduplicated'',
        Text ''--result-content must be compatible or deduplicated''),
      (st_transport s = ''http'' \<and> trim_space (st_http_profile s) = [],
        Text ''--http-profile is required for HTTP transport''),
      (st_transport s = ''stdio'' \<and> st_http_profile s \<noteq> [],
        Text ''--http-profile requires --transport=http'')]"

definition settings_defaults :: "stat_env \<Rightarrow> string \<Rightarrow> settings \<Rightarrow> settings" where
  "settings_defaults env cwd s = s\<lparr>
     st_catalog_roots := (if st_catalog_roots s = []
       then [default_catalog_root env cwd (st_workspace s) cwd] else st_catalog_roots s),
     st_candidate_roots := (if st_candidate_roots s = [] then [''tools'', ''scripts''] else st_candidate_roots s),
     st_rule_files := (if st_rule_files s = [] then [''AGENTS.md''] else st_rule_files s)\<rparr>"

definition finish_settings ::
    "stat_env \<Rightarrow> string \<Rightarrow> string list \<Rightarrow> settings \<Rightarrow> go_error + settings" where
  "finish_settings env cwd positional s =
     try_then (check_all (settings_checks positional s)) (\<lambda>_. Inr (settings_defaults env cwd s))"

section \<open>The nested catalog is unambiguous\<close>

definition catalog_child :: "stat_env \<Rightarrow> string \<Rightarrow> dir_entry \<Rightarrow> bool" where
  "catalog_child env ws e \<longleftrightarrow> de_is_dir e \<and> \<not> de_is_symlink e \<and>
     se_exists env (path_join (path_join ws (de_name e)) ''.git'') \<and>
     se_is_dir env (path_join (path_join ws (de_name e)) ''catalog'')"

definition only_child :: "dir_entry list \<Rightarrow> string" where
  "only_child es = (case es of [e] \<Rightarrow> path_join (de_name e) ''catalog'' | _ \<Rightarrow> [])"

lemma child_catalog_loop_seen:
  "candidate \<noteq> [] \<Longrightarrow> child_catalog_loop env ws candidate es =
     (if filter (catalog_child env ws) es = [] then candidate else [])"
  by (induction es) (auto simp: catalog_child_def Let_def)

lemma child_catalog_loop_filter:
  "child_catalog_loop env ws [] es = only_child (filter (catalog_child env ws) es)"
proof (induction es)
  case Nil
  then show ?case by (simp add: only_child_def)
next
  case (Cons e es)
  show ?case
  proof (cases "catalog_child env ws e")
    case True
    then have "child_catalog_loop env ws [] (e # es) =
        child_catalog_loop env ws (path_join (de_name e) ''catalog'') es"
      by (simp add: catalog_child_def Let_def)
    also have "\<dots> = only_child (e # filter (catalog_child env ws) es)"
      by (subst child_catalog_loop_seen) (auto simp: only_child_def split: list.split)
    finally show ?thesis using True by simp
  next
    case False
    then show ?thesis using Cons.IH by (auto simp: catalog_child_def Let_def)
  qed
qed

text \<open>A catalog below a child repository is chosen only when exactly one of at most 64
  entries is a real directory holding a repository with a catalog.\<close>

theorem unique_child_catalog_spec:
  "unique_child_catalog_root env ws =
     (case se_read_dir env ws of
        Inl _ \<Rightarrow> []
      | Inr es \<Rightarrow> if length es \<le> 64 then only_child (filter (catalog_child env ws) es) else [])"
  by (simp add: unique_child_catalog_root_def child_catalog_loop_filter split: sum.split)

section \<open>Refused combinations\<close>

definition settings_ok :: "settings \<Rightarrow> bool" where
  "settings_ok s \<longleftrightarrow> (st_enable_cache s \<longrightarrow> st_enable_runner s) \<and>
     st_transport s \<in> {''stdio'', ''http''} \<and> st_tool_surface s \<in> {''typed.v1'', ''toolbox.v1''} \<and>
     st_result_content s \<in> {''compatible'', ''deduplicated''} \<and>
     (st_transport s = ''http'' \<longrightarrow> trim_space (st_http_profile s) \<noteq> []) \<and>
     (st_transport s = ''stdio'' \<longrightarrow> st_http_profile s = [])"

lemma settings_checks_ok:
  "check_all (settings_checks positional s) = Inr u \<longleftrightarrow> positional = [] \<and> settings_ok s"
  unfolding check_all_ok settings_checks_def settings_ok_def
  by simp

lemma finish_settings_ok:
  assumes "finish_settings env cwd positional s = Inr s'"
  shows "positional = [] \<and> settings_ok s \<and> s' = settings_defaults env cwd s"
  using assms by (simp add: finish_settings_def settings_checks_ok)

lemma finish_settings_sources:
  assumes "finish_settings env cwd positional s = Inr s'"
  shows "settings_ok s' \<and> st_catalog_roots s' \<noteq> [] \<and> st_candidate_roots s' \<noteq> [] \<and> st_rule_files s' \<noteq> []"
  using finish_settings_ok [OF assms]
  by (simp add: settings_defaults_def settings_ok_def)

end
