(* ===== verification/RuntimeAccess.thy ===== *)
theory RuntimeAccess
  imports Workspace "HOL-Library.Char_ord" "HOL-Library.List_Lexorder"
begin

text \<open>
  \<open>internal/runtimeaccess/service.go\<close>: the ephemeral, user-approved capabilities of a stdio
  process. The state \<open>access\<close> is the struct \<open>Service\<close> together with the workspace root it
  points to; \<open>begin_access\<close>, \<open>complete\<close>, \<open>revoke\<close> and \<open>rebind_root\<close> are its operations.
  The clock, the random token and the operating system are arguments. The sections of \<open>Complete\<close>
  under the mutex are separate definitions, so that its interleavings can be stated.
\<close>

section \<open>State\<close>

definition KindReadPath :: string where "KindReadPath = ''read_path''"
definition KindIntentWrite :: string where "KindIntentWrite = ''intent_write''"
definition KindReportImport :: string where "KindReportImport = ''report_import''"
definition KindRunner :: string where "KindRunner = ''runner_execute''"
definition KindCache :: string where "KindCache = ''cache_reuse''"
definition KindMemoryExport :: string where "KindMemoryExport = ''memory_export''"

lemmas kind_defs = KindReadPath_def KindIntentWrite_def KindReportImport_def KindRunner_def
  KindCache_def KindMemoryExport_def

definition pending_ttl :: time where "pending_ttl = seconds 300"
definition max_pending :: nat where "max_pending = 64"

record initial =
  in_intent_write :: bool
  in_report_import :: bool
  in_runner :: bool
  in_cache :: bool

record grant =
  gr_id :: string
  gr_kind :: string
  gr_path :: string
  gr_revocable :: bool

record access_response =
  ar_status :: string
  ar_grants :: "grant list"

record pending =
  pe_kind :: string
  pe_path :: string
  pe_read_plan :: "read_grant_plan option"
  pe_expires_at :: time

record access =
  ac_root :: root
  ac_allowed :: bool
  ac_fixed :: "(string, bool) gomap"
  ac_enabled :: "(string, bool) gomap"
  ac_grants :: "(string, grant) gomap"
  ac_pending :: "(string, pending) gomap"

definition flag_of :: "(string, bool) gomap \<Rightarrow> string \<Rightarrow> bool" where
  "flag_of m k = (map_of m k = Some True)"

definition host_id :: "string \<Rightarrow> string" where "host_id kind = ''host_'' @ kind"
definition runtime_id :: "string \<Rightarrow> string" where "runtime_id kind = ''runtime_'' @ kind"

definition initial_fixed :: "initial \<Rightarrow> (string, bool) gomap" where
  "initial_fixed initial =
     [(KindIntentWrite, in_intent_write initial), (KindReportImport, in_report_import initial),
      (KindRunner, in_runner initial), (KindCache, in_cache initial)]"

definition host_grant :: "string \<Rightarrow> grant" where
  "host_grant kind = \<lparr>gr_id = host_id kind, gr_kind = kind, gr_path = [], gr_revocable = False\<rparr>"

definition new_access :: "root \<Rightarrow> bool \<Rightarrow> initial \<Rightarrow> access" where
  "new_access r allowed initial =
     (let fixed = initial_fixed initial
      in \<lparr>ac_root = r, ac_allowed = allowed, ac_fixed = fixed, ac_enabled = fixed,
          ac_grants = map (\<lambda>(kind, _). (host_id kind, host_grant kind)) (filter snd fixed),
          ac_pending = []\<rparr>)"

section \<open>Operations\<close>

definition sorted_grants :: "(string, grant) gomap \<Rightarrow> grant list" where
  "sorted_grants values = sort_key gr_id (map snd values)"

definition enabled :: "access \<Rightarrow> string \<Rightarrow> bool" where
  "enabled s kind = flag_of (ac_enabled s) kind"

definition available :: "access \<Rightarrow> bool" where
  "available s = ac_allowed s"

definition status_of :: "access \<Rightarrow> access_response" where
  "status_of s = \<lparr>ar_status = ''ok'', ar_grants = sorted_grants (ac_grants s)\<rparr>"

definition approved_path :: "os_env \<Rightarrow> access \<Rightarrow> string \<Rightarrow> string \<Rightarrow> string option" where
  "approved_path env s kind path =
     (if kind \<noteq> KindMemoryExport \<or> \<not> is_abs path then None
      else (case env_realpath env (path_clean path) of
          Inl _ \<Rightarrow> None
        | Inr resolved \<Rightarrow>
            map_option (gr_path \<circ> snd)
              (find (\<lambda>(_, g). gr_kind g = kind \<and> same_path (gr_path g) resolved) (ac_grants s))))"

definition granted_path :: "os_env \<Rightarrow> access \<Rightarrow> string \<Rightarrow> string \<Rightarrow> bool" where
  "granted_path env s kind path \<longleftrightarrow> approved_path env s kind path \<noteq> None"

definition validate_access :: "string \<Rightarrow> string \<Rightarrow> go_error + unit" where
  "validate_access kind path =
     (if kind = KindReadPath then
        (if path = [] \<or> path = ''.'' \<or> is_abs path \<or> 4096 < length path
         then Inl (Sentinel AccessInvalid) else Inr ())
      else if kind = KindMemoryExport then
        (if path = [] \<or> \<not> is_abs path \<or> 4096 < length path
         then Inl (Sentinel AccessInvalid) else Inr ())
      else if kind \<in> {KindIntentWrite, KindReportImport, KindRunner, KindCache} then
        (if path \<noteq> ''.'' \<and> trim_space path \<noteq> [] then Inl (Sentinel AccessInvalid) else Inr ())
      else Inl (Sentinel AccessInvalid))"

text \<open>The part of \<open>Begin\<close> that runs under the mutex: expired proposals are swept, then the new
  one is queued unless the queue is full.\<close>

definition sweep_pending :: "time \<Rightarrow> access \<Rightarrow> access" where
  "sweep_pending now s = s\<lparr>ac_pending := filter (\<lambda>(_, p). now < pe_expires_at p) (ac_pending s)\<rparr>"

definition queue_pending :: "time \<Rightarrow> string \<Rightarrow> pending \<Rightarrow> access \<Rightarrow> access \<times> (go_error + unit)" where
  "queue_pending now token item s =
     (let s' = sweep_pending now s in
      if max_pending \<le> length (ac_pending s')
        then (s', Inl (Text ''runtime access approval queue is full''))
      else (s'\<lparr>ac_pending := map_put token item (ac_pending s')\<rparr>, Inr ()))"

definition access_message :: "(string \<Rightarrow> string) \<Rightarrow> string \<Rightarrow> string \<Rightarrow> string" where
  "access_message quote kind path =
     (if kind = KindReadPath then
        ''Allow RepoPlane to read '' @ quote path @ '' outside the primary workspace for this MCP process? This does not allow writes or execution.''
      else if kind = KindMemoryExport then
        ''Allow RepoPlane to write portable memory backups into '' @ quote path @ '' for this MCP process? Archives exclude profiles, tokens, and secret keys.''
      else ''Allow RepoPlane capability '' @ quote kind @ '' for this MCP process?'')"

definition begin_path :: "os_env \<Rightarrow> string \<Rightarrow> string \<Rightarrow> go_error + string" where
  "begin_path env kind path =
     (if kind = KindMemoryExport then
        (if \<not> is_abs path then Inl (Sentinel AccessInvalid)
         else (case env_realpath env (path_clean path) of
             Inl _ \<Rightarrow> Inl (Sentinel AccessInvalid)
           | Inr p \<Rightarrow> Inr p))
      else Inr (path_clean path))"

definition begin_plan ::
    "(string \<Rightarrow> string) \<Rightarrow> os_env \<Rightarrow> root \<Rightarrow> string \<Rightarrow> string \<Rightarrow> go_error + read_grant_plan option" where
  "begin_plan digest env r kind path =
     (if kind = KindReadPath
      then try_then (prepare_read_grant digest env r path) (\<lambda>plan. Inr (Some plan))
      else Inr None)"

definition begin_access ::
    "(string \<Rightarrow> string) \<Rightarrow> (string \<Rightarrow> string) \<Rightarrow> os_env \<Rightarrow> time \<Rightarrow> go_error + string \<Rightarrow>
     string \<Rightarrow> string \<Rightarrow> access \<Rightarrow> access \<times> (go_error + (string \<times> string))" where
  "begin_access digest quote env now token kind raw s =
     (if \<not> ac_allowed s then (s, Inl (Sentinel AccessDisabled))
      else case try_then (begin_path env kind raw) (\<lambda>path.
             try_then (validate_access kind path) (\<lambda>_.
             try_then (begin_plan digest env (ac_root s) kind path) (\<lambda>plan.
             try_then token (\<lambda>t. Inr (path, plan, t))))) of
          Inl e \<Rightarrow> (s, Inl e)
        | Inr (path, plan, t) \<Rightarrow>
            (let (s', r) = queue_pending now t
                   \<lparr>pe_kind = kind, pe_path = path, pe_read_plan = plan,
                    pe_expires_at = now + pending_ttl\<rparr> s
             in (s', try_then r (\<lambda>_. Inr (t, access_message quote kind path)))))"

definition rebind_root :: "root \<Rightarrow> access \<Rightarrow> access" where
  "rebind_root r s = s\<lparr>ac_root := r,
     ac_grants := filter (\<lambda>(_, g). gr_kind g \<noteq> KindReadPath) (ac_grants s), ac_pending := []\<rparr>"

text \<open>\<open>Complete\<close>: consuming the token, then applying the proposal.\<close>

definition take_pending :: "string \<Rightarrow> access \<Rightarrow> access \<times> pending option" where
  "take_pending token s =
     (s\<lparr>ac_pending := map_del token (ac_pending s)\<rparr>, map_of (ac_pending s) token)"

definition check_item :: "time \<Rightarrow> bool \<Rightarrow> pending option \<Rightarrow> go_error + pending" where
  "check_item now accepted item =
     (case item of
        None \<Rightarrow> Inl (Sentinel AccessPending)
      | Some p \<Rightarrow> if \<not> now < pe_expires_at p then Inl (Sentinel AccessPending)
                  else if \<not> accepted then Inl (Sentinel AccessDeclined) else Inr p)"

definition add_grant :: "grant \<Rightarrow> access \<Rightarrow> access" where
  "add_grant g s = s\<lparr>ac_grants := map_put (gr_id g) g (ac_grants s)\<rparr>"

definition apply_root :: "pending \<Rightarrow> access \<Rightarrow> access \<times> (go_error + grant)" where
  "apply_root item s =
     (if pe_kind item = KindReadPath then
        (case pe_read_plan item of
           None \<Rightarrow> (s, Inl (Sentinel AccessPending))
         | Some plan \<Rightarrow>
             (let (r, rg) = apply_read_grant (ac_root s) plan
              in (s\<lparr>ac_root := r\<rparr>, Inr \<lparr>gr_id = rg_id rg, gr_kind = pe_kind item, gr_path = rg_path rg, gr_revocable = True\<rparr>)))
      else if pe_kind item = KindMemoryExport then
        (s, Inr \<lparr>gr_id = runtime_id (pe_kind item), gr_kind = pe_kind item, gr_path = pe_path item, gr_revocable = True\<rparr>)
      else (s, Inr \<lparr>gr_id = runtime_id (pe_kind item), gr_kind = pe_kind item, gr_path = [], gr_revocable = True\<rparr>))"

definition publish_grant :: "grant \<Rightarrow> access \<Rightarrow> access \<times> access_response" where
  "publish_grant g s =
     (let s' = add_grant g
            (if gr_kind g = KindReadPath \<or> gr_kind g = KindMemoryExport then s
             else s\<lparr>ac_enabled := map_put (gr_kind g) True (ac_enabled s)\<rparr>)
      in (s', \<lparr>ar_status = ''granted'', ar_grants = sorted_grants (ac_grants s')\<rparr>))"

definition apply_item :: "pending \<Rightarrow> access \<Rightarrow> access \<times> (go_error + access_response)" where
  "apply_item item s =
     (case apply_root item s of
        (s', Inl e) \<Rightarrow> (s', Inl e)
      | (s', Inr g) \<Rightarrow> (let (s'', resp) = publish_grant g s' in (s'', Inr resp)))"

definition complete :: "time \<Rightarrow> string \<Rightarrow> bool \<Rightarrow> access \<Rightarrow> access \<times> (go_error + access_response)" where
  "complete now token accepted s =
     (if \<not> ac_allowed s then (s, Inl (Sentinel AccessDisabled))
      else let (s', item) = take_pending token s in
        case check_item now accepted item of
          Inl e \<Rightarrow> (s', Inl e)
        | Inr p \<Rightarrow> apply_item p s')"

definition revoke :: "string \<Rightarrow> access \<Rightarrow> access \<times> (go_error + access_response)" where
  "revoke gid s =
     (if \<not> ac_allowed s then (s, Inl (Sentinel AccessDisabled))
      else case map_of (ac_grants s) gid of
          None \<Rightarrow> (s, Inl (Sentinel AccessInvalid))
        | Some g \<Rightarrow>
            if \<not> gr_revocable g then (s, Inl (Sentinel AccessInvalid))
            else let grants = map_del gid (ac_grants s);
                     s1 = s\<lparr>ac_grants := grants,
                       ac_enabled := (if gr_kind g \<noteq> KindReadPath \<and> gr_kind g \<noteq> KindMemoryExport
                         then map_put (gr_kind g) (flag_of (ac_fixed s) (gr_kind g)) (ac_enabled s)
                         else ac_enabled s)\<rparr>;
                     s2 = (if gr_kind g = KindReadPath
                         then s1\<lparr>ac_root := fst (revoke_read (ac_root s1) gid)\<rparr> else s1)
                 in (s2, Inr \<lparr>ar_status = ''revoked'', ar_grants = sorted_grants grants\<rparr>))"


section \<open>Invariant\<close>

definition runtime_kinds :: "string set" where
  "runtime_kinds = {KindIntentWrite, KindReportImport, KindRunner, KindCache, KindMemoryExport}"

definition grant_ok :: "(string, bool) gomap \<Rightarrow> string \<Rightarrow> grant \<Rightarrow> bool" where
  "grant_ok fixed k g \<longleftrightarrow> gr_id g = k \<and>
     (if gr_revocable g
      then (gr_kind g = KindReadPath \<and> has_prefix k ''rg_'') \<or>
           (gr_kind g \<in> runtime_kinds \<and> k = runtime_id (gr_kind g))
      else k = host_id (gr_kind g) \<and> gr_kind g \<noteq> KindReadPath \<and> flag_of fixed (gr_kind g))"

definition pending_ok :: "pending \<Rightarrow> bool" where
  "pending_ok p \<longleftrightarrow>
     (pe_kind p = KindReadPath \<and> (\<exists>plan. pe_read_plan p = Some plan \<and> has_prefix (rg_id (rp_grant plan)) ''rg_'')) \<or>
     pe_kind p \<in> runtime_kinds"

text \<open>The read paths the service reports are those the root enforces.\<close>

definition read_reported :: "access \<Rightarrow> string \<Rightarrow> bool" where
  "read_reported s k \<longleftrightarrow> (\<exists>g. map_of (ac_grants s) k = Some g \<and> gr_kind g = KindReadPath)"

definition read_enforced :: "access \<Rightarrow> string \<Rightarrow> bool" where
  "read_enforced s k \<longleftrightarrow> map_of (rt_grants (ac_root s)) k \<noteq> None"

definition maps_ok :: "access \<Rightarrow> bool" where
  "maps_ok s \<longleftrightarrow> wf_map (ac_grants s) \<and> wf_map (ac_pending s) \<and> length (ac_pending s) \<le> max_pending \<and>
     (\<forall>k g. map_of (ac_grants s) k = Some g \<longrightarrow> grant_ok (ac_fixed s) k g) \<and>
     (\<forall>t p. map_of (ac_pending s) t = Some p \<longrightarrow> pending_ok p)"

definition enabled_ok :: "access \<Rightarrow> bool" where
  "enabled_ok s \<longleftrightarrow> (\<forall>k. k \<noteq> KindMemoryExport \<longrightarrow>
     (enabled s k \<longleftrightarrow> flag_of (ac_fixed s) k \<or> map_of (ac_grants s) (runtime_id k) \<noteq> None))"

definition access_inv :: "access \<Rightarrow> bool" where
  "access_inv s \<longleftrightarrow> maps_ok s \<and> enabled_ok s \<and> (\<forall>k. read_reported s k \<longleftrightarrow> read_enforced s k)"

lemma id_classes [simp]:
  "\<not> has_prefix (runtime_id k) ''rg_''" "\<not> has_prefix (host_id k) ''rg_''"
  "host_id k \<noteq> runtime_id k'" "runtime_id k \<noteq> host_id k'"
  "runtime_id k = runtime_id k' \<longleftrightarrow> k = k'"
  by (simp_all add: runtime_id_def host_id_def has_prefix_def)

lemma kind_distinct [simp]:
  "KindReadPath \<noteq> KindMemoryExport" "KindMemoryExport \<noteq> KindReadPath" "KindReadPath \<notin> runtime_kinds"
  by (simp_all add: runtime_kinds_def kind_defs)

lemma flag_of_put [simp]: "flag_of (map_put k b m) k' = (if k' = k then b else flag_of m k')"
  by (simp add: flag_of_def)

lemma access_invI:
  "\<lbrakk>maps_ok s; enabled_ok s; \<And>k. read_reported s k \<longleftrightarrow> read_enforced s k\<rbrakk> \<Longrightarrow> access_inv s"
  by (simp add: access_inv_def)

lemma maps_ok_grant: "\<lbrakk>maps_ok s; map_of (ac_grants s) k = Some g\<rbrakk> \<Longrightarrow> grant_ok (ac_fixed s) k g"
  by (simp add: maps_ok_def)

lemma map_of_filter_Some:
  "wf_map m \<Longrightarrow> map_of (filter P m) k = Some v \<longleftrightarrow> map_of m k = Some v \<and> P (k, v)"
  by (simp add: wf_map_lookup)

lemma initial_fixed_wf: "wf_map (initial_fixed i)"
  by (simp add: initial_fixed_def wf_map_def kind_defs)

lemma host_id_inj [simp]: "host_id a = host_id b \<longleftrightarrow> a = b"
  by (simp add: host_id_def)

lemma wf_new_grants: "wf_map (ac_grants (new_access r allowed i))"
proof -
  have "distinct (map host_id (map fst (filter snd (initial_fixed i))))"
    using initial_fixed_wf [of i]
    by (simp add: distinct_map inj_on_def wf_map_def distinct_map_filter)
  then show ?thesis by (simp add: new_access_def Let_def wf_map_def comp_def case_prod_unfold)
qed

lemma new_access_grants:
  "map_of (ac_grants (new_access r allowed i)) k = Some g \<longleftrightarrow>
     (\<exists>kind. flag_of (initial_fixed i) kind \<and> k = host_id kind \<and> g = host_grant kind)"
proof -
  have "map_of (ac_grants (new_access r allowed i)) k = Some g \<longleftrightarrow>
      (k, g) \<in> set (ac_grants (new_access r allowed i))"
    by (rule wf_map_lookup [OF wf_new_grants])
  also have "\<dots> \<longleftrightarrow> (\<exists>kind. (kind, True) \<in> set (initial_fixed i) \<and> k = host_id kind \<and> g = host_grant kind)"
    by (force simp: new_access_def Let_def)
  finally show ?thesis by (simp add: flag_of_def wf_map_lookup [OF initial_fixed_wf])
qed

lemma initial_fixed_kinds: "flag_of (initial_fixed i) k \<Longrightarrow> k \<noteq> KindReadPath"
  by (auto simp: flag_of_def initial_fixed_def kind_defs split: if_splits)

lemma new_access_inv:
  assumes "rt_grants r = []"
  shows "access_inv (new_access r allowed i)"
proof (rule access_invI)
  let ?s = "new_access r allowed i"
  show "maps_ok ?s"
    unfolding maps_ok_def new_access_grants using wf_new_grants initial_fixed_kinds
    by (auto simp: grant_ok_def host_grant_def) (simp_all add: new_access_def Let_def max_pending_def)
  have "map_of (ac_grants ?s) (runtime_id k) = None" for k
    using new_access_grants [of r allowed i "runtime_id k"]
    by (cases "map_of (ac_grants ?s) (runtime_id k)") auto
  then show "enabled_ok ?s"
    by (simp add: enabled_ok_def enabled_def) (simp add: new_access_def Let_def)
  show "read_reported ?s k \<longleftrightarrow> read_enforced ?s k" for k
    unfolding read_reported_def read_enforced_def new_access_grants using initial_fixed_kinds assms
    by (auto simp: new_access_def Let_def host_grant_def)
qed

section \<open>Every operation keeps the invariant\<close>

lemma frame_inv:
  assumes "access_inv s" "ac_grants s' = ac_grants s" "ac_fixed s' = ac_fixed s"
    "ac_enabled s' = ac_enabled s" "rt_grants (ac_root s') = rt_grants (ac_root s)"
    "wf_map (ac_pending s')" "length (ac_pending s') \<le> max_pending"
    "\<And>t p. map_of (ac_pending s') t = Some p \<Longrightarrow> pending_ok p"
  shows "access_inv s'"
  using assms by (simp add: access_inv_def maps_ok_def enabled_ok_def enabled_def
      read_reported_def read_enforced_def)

lemma inv_pending:
  "access_inv s \<Longrightarrow> wf_map (ac_pending s) \<and> length (ac_pending s) \<le> max_pending \<and>
     (\<forall>t p. map_of (ac_pending s) t = Some p \<longrightarrow> pending_ok p)"
  by (simp add: access_inv_def maps_ok_def)

lemma sweep_inv: "access_inv s \<Longrightarrow> access_inv (sweep_pending now s)"
  by (rule frame_inv, assumption)
    (auto simp: sweep_pending_def map_of_filter_Some dest!: inv_pending
      intro: order.trans [OF length_filter_le])

lemma queue_inv:
  assumes "access_inv s" "pending_ok item"
  shows "access_inv (fst (queue_pending now t item s))"
proof (cases "max_pending \<le> length (ac_pending (sweep_pending now s))")
  case True
  then show ?thesis using sweep_inv [OF assms(1)] by (simp add: queue_pending_def Let_def)
next
  case False
  let ?s = "sweep_pending now s"
  have len: "length (map_put t item (ac_pending ?s)) \<le> max_pending"
    using map_put_length [of t item "ac_pending ?s"] False by linarith
  have "access_inv (?s\<lparr>ac_pending := map_put t item (ac_pending ?s)\<rparr>)"
    by (rule frame_inv [OF sweep_inv [OF assms(1)]])
      (use inv_pending [OF sweep_inv [OF assms(1)]] assms(2) len in \<open>auto split: if_splits\<close>)
  then show ?thesis using False by (simp add: queue_pending_def Let_def)
qed

lemma begin_plan_ok:
  assumes "begin_plan digest env r kind path = Inr plan" "validate_access kind path = Inr u"
  shows "pending_ok \<lparr>pe_kind = kind, pe_path = path, pe_read_plan = plan, pe_expires_at = e\<rparr>"
proof (cases "kind = KindReadPath")
  case True
  with assms(1) obtain pl where p: "plan = Some pl" "prepare_read_grant digest env r path = Inr pl"
    by (auto simp: begin_plan_def)
  from p(2) have "has_prefix (rg_id (rp_grant pl)) ''rg_''"
    by (auto simp: prepare_read_grant_def Let_def grant_identity_def has_prefix_def split: if_splits)
  with True p(1) show ?thesis by (simp add: pending_ok_def)
next
  case False
  with assms(2) show ?thesis
    by (auto simp: pending_ok_def validate_access_def runtime_kinds_def split: if_splits)
qed

lemma begin_inv:
  assumes "access_inv s"
  shows "access_inv (fst (begin_access digest quote env now tok kind raw s))"
  using assms by (auto simp: begin_access_def split_beta Let_def intro!: queue_inv begin_plan_ok
      split: sum.split if_splits)

lemma take_inv: "access_inv s \<Longrightarrow> access_inv (fst (take_pending token s))"
  by (rule frame_inv, assumption)
    (auto simp: take_pending_def dest!: inv_pending split: if_splits
      intro: order.trans [OF map_del_length])


definition plan_grant :: "pending \<Rightarrow> read_grant_plan \<Rightarrow> grant" where
  "plan_grant item plan = \<lparr>gr_id = rg_id (rp_grant plan), gr_kind = pe_kind item,
     gr_path = rg_path (rp_grant plan), gr_revocable = True\<rparr>"

definition runtime_grant :: "pending \<Rightarrow> grant" where
  "runtime_grant item = \<lparr>gr_id = runtime_id (pe_kind item), gr_kind = pe_kind item,
     gr_path = (if pe_kind item = KindMemoryExport then pe_path item else []), gr_revocable = True\<rparr>"

lemma apply_item_read:
  assumes "pe_kind p = KindReadPath" "pe_read_plan p = Some plan"
  shows "fst (apply_item p s) = add_grant (plan_grant p plan)
    (s\<lparr>ac_root := fst (apply_read_grant (ac_root s) plan)\<rparr>)"
  using assms by (simp add: apply_item_def apply_root_def publish_grant_def plan_grant_def
      apply_read_grant_def Let_def)

lemma apply_item_runtime:
  assumes "pe_kind p \<in> runtime_kinds"
  shows "fst (apply_item p s) = add_grant (runtime_grant p)
    (if pe_kind p = KindMemoryExport then s
     else s\<lparr>ac_enabled := map_put (pe_kind p) True (ac_enabled s)\<rparr>)"
proof -
  from assms have "pe_kind p \<noteq> KindReadPath" by auto
  then show ?thesis
    by (simp add: apply_item_def apply_root_def publish_grant_def runtime_grant_def Let_def)
qed

lemma maps_ok_add:
  "\<lbrakk>maps_ok s; grant_ok (ac_fixed s) (gr_id g) g\<rbrakk> \<Longrightarrow> maps_ok (add_grant g s)"
  by (simp add: maps_ok_def add_grant_def)

lemma apply_read_inv:
  assumes inv: "access_inv s" and p: "pe_kind p = KindReadPath" "pe_read_plan p = Some plan"
    "has_prefix (rg_id (rp_grant plan)) ''rg_''"
  shows "access_inv (fst (apply_item p s))"
  unfolding apply_item_read [OF p(1,2)]
proof (rule access_invI)
  let ?r = "fst (apply_read_grant (ac_root s) plan)"
  let ?s = "add_grant (plan_grant p plan) (s\<lparr>ac_root := ?r\<rparr>)"
  have rid: "runtime_id k \<noteq> rg_id (rp_grant plan)" for k
    using p(3) id_classes(1) [of k] by metis
  show "maps_ok ?s"
    using inv p by (intro maps_ok_add) (simp_all add: access_inv_def maps_ok_def grant_ok_def plan_grant_def)
  show "enabled_ok ?s"
    using inv p rid by (simp add: access_inv_def enabled_ok_def enabled_def add_grant_def plan_grant_def)
  show "read_reported ?s k \<longleftrightarrow> read_enforced ?s k" for k
    using inv p by (simp add: access_inv_def read_reported_def read_enforced_def add_grant_def
        plan_grant_def apply_read_grant_def)
qed

lemma inv_grant: "\<lbrakk>access_inv s; map_of (ac_grants s) k = Some g\<rbrakk> \<Longrightarrow> grant_ok (ac_fixed s) k g"
  by (simp add: access_inv_def maps_ok_grant)

lemma runtime_slot:
  assumes "access_inv s" "map_of (ac_grants s) (runtime_id k) = Some g"
  shows "gr_kind g = k" "gr_kind g \<noteq> KindReadPath" "gr_revocable g"
  using inv_grant [OF assms] by (auto simp: grant_ok_def split: if_splits)

lemma inv_reported: "access_inv s \<Longrightarrow> read_reported s k = read_enforced s k"
  by (simp add: access_inv_def)

lemma runtime_not_enforced: "access_inv s \<Longrightarrow> \<not> read_enforced s (runtime_id k)"
  using runtime_slot(2) [of s k] by (auto simp: inv_reported [symmetric] read_reported_def)

lemma inv_enabled:
  "\<lbrakk>access_inv s; k \<noteq> KindMemoryExport\<rbrakk> \<Longrightarrow>
     enabled s k \<longleftrightarrow> flag_of (ac_fixed s) k \<or> map_of (ac_grants s) (runtime_id k) \<noteq> None"
  by (simp add: access_inv_def enabled_ok_def)

lemma enabled_okI:
  "(\<And>k. k \<noteq> KindMemoryExport \<Longrightarrow>
     enabled s k \<longleftrightarrow> flag_of (ac_fixed s) k \<or> map_of (ac_grants s) (runtime_id k) \<noteq> None)
   \<Longrightarrow> enabled_ok s"
  by (simp add: enabled_ok_def)

lemma apply_runtime_inv:
  assumes inv: "access_inv s" and p: "pe_kind p \<in> runtime_kinds"
  shows "access_inv (fst (apply_item p s))"
  unfolding apply_item_runtime [OF p]
proof (rule access_invI)
  let ?s0 = "if pe_kind p = KindMemoryExport then s
     else s\<lparr>ac_enabled := map_put (pe_kind p) True (ac_enabled s)\<rparr>"
  let ?s = "add_grant (runtime_grant p) ?s0"
  from p have kind: "pe_kind p \<noteq> KindReadPath" by auto
  show "maps_ok ?s"
    using inv p by (intro maps_ok_add) (simp_all add: access_inv_def maps_ok_def grant_ok_def runtime_grant_def)
  show "enabled_ok ?s"
    using inv by (auto simp: access_inv_def enabled_ok_def enabled_def add_grant_def runtime_grant_def)
  show "read_reported ?s k \<longleftrightarrow> read_enforced ?s k" for k
  proof (cases "k = runtime_id (pe_kind p)")
    case True
    have "rt_grants (ac_root ?s) = rt_grants (ac_root s)" by (simp add: add_grant_def)
    with True show ?thesis using runtime_not_enforced [OF inv, of "pe_kind p"] kind
      by (simp add: read_reported_def read_enforced_def add_grant_def runtime_grant_def)
  next
    case False
    then show ?thesis using inv_reported [OF inv, of k]
      by (simp add: read_reported_def read_enforced_def add_grant_def runtime_grant_def)
  qed
qed

lemma apply_item_inv:
  "\<lbrakk>access_inv s; pending_ok p\<rbrakk> \<Longrightarrow> access_inv (fst (apply_item p s))"
  unfolding pending_ok_def using apply_read_inv apply_runtime_inv by blast

lemma complete_inv:
  assumes "access_inv s"
  shows "access_inv (fst (complete now token accepted s))"
proof -
  have "pending_ok p" if "map_of (ac_pending s) token = Some p" for p
    using inv_pending [OF assms] that by blast
  then show ?thesis
    using assms take_inv [OF assms, of token] apply_item_inv
    by (auto simp: complete_def check_item_def take_pending_def Let_def split: option.splits)
qed

lemma revoke_inv:
  assumes inv: "access_inv s"
  shows "access_inv (fst (revoke gid s))"
proof (cases "ac_allowed s \<and> (\<exists>g. map_of (ac_grants s) gid = Some g \<and> gr_revocable g)")
  case False
  then show ?thesis using inv by (auto simp: revoke_def split: option.split)
next
  case True
  then obtain g where g: "map_of (ac_grants s) gid = Some g" "gr_revocable g" "ac_allowed s" by blast
  from inv g have ok: "grant_ok (ac_fixed s) gid g" by (simp add: access_inv_def maps_ok_def)
  let ?s = "fst (revoke gid s)"
  have m: "map_of (ac_grants ?s) = (map_of (ac_grants s))(gid := None)" "ac_pending ?s = ac_pending s"
    "ac_fixed ?s = ac_fixed s" "wf_map (ac_grants ?s)"
    using inv g by (simp_all add: revoke_def Let_def access_inv_def maps_ok_def)
  have mo: "maps_ok ?s"
    using inv m by (auto simp: access_inv_def maps_ok_def)
  have en: "enabled ?s k = (if k = gr_kind g \<and> g_cap then flag_of (ac_fixed s) k else enabled s k)"
    if "g_cap = (gr_kind g \<noteq> KindReadPath \<and> gr_kind g \<noteq> KindMemoryExport)" for k g_cap
    using g that by (simp add: enabled_def revoke_def Let_def)
  have gid: "gid = runtime_id k \<Longrightarrow> k \<noteq> KindMemoryExport \<Longrightarrow>
      k = gr_kind g \<and> gr_kind g \<noteq> KindReadPath \<and> gr_kind g \<noteq> KindMemoryExport" for k
    using runtime_slot [OF inv, of k g] g(1) by auto
  have gid': "gr_kind g \<noteq> KindReadPath \<Longrightarrow> gid = runtime_id (gr_kind g)"
    using ok g(2) by (simp add: grant_ok_def)
  show ?thesis
  proof (rule access_invI [OF mo enabled_okI])
    fix k assume k: "k \<noteq> KindMemoryExport"
    show "enabled ?s k \<longleftrightarrow> flag_of (ac_fixed ?s) k \<or> map_of (ac_grants ?s) (runtime_id k) \<noteq> None"
    proof (cases "gid = runtime_id k")
      case True
      with gid k have "k = gr_kind g \<and> gr_kind g \<noteq> KindReadPath \<and> gr_kind g \<noteq> KindMemoryExport" by blast
      with True show ?thesis unfolding en [OF refl] m by simp
    next
      case False
      with gid' have "\<not> (k = gr_kind g \<and> gr_kind g \<noteq> KindReadPath)" by blast
      with False show ?thesis unfolding en [OF refl] m using inv_enabled [OF inv k] by auto
    qed
  next
    fix k
    show "read_reported ?s k \<longleftrightarrow> read_enforced ?s k"
    proof (cases "gr_kind g = KindReadPath")
      case True
      then have "map_of (rt_grants (ac_root ?s)) = (map_of (rt_grants (ac_root s)))(gid := None)"
        using g by (simp add: revoke_def Let_def)
      then show ?thesis using inv_reported [OF inv, of k] by (simp add: read_reported_def read_enforced_def m)
    next
      case False
      then have "ac_root ?s = ac_root s" using g by (simp add: revoke_def Let_def)
      then show ?thesis using inv_reported [OF inv, of k] g(1) False
        by (auto simp: read_reported_def read_enforced_def m)
    qed
  qed
qed

lemma rebind_inv:
  assumes inv: "access_inv s" and fresh: "rt_grants r = []"
  shows "access_inv (rebind_root r s)"
proof (rule access_invI)
  let ?s = "rebind_root r s"
  from inv have wf: "wf_map (ac_grants s)" by (simp add: access_inv_def maps_ok_def)
  have m: "map_of (ac_grants ?s) k = Some g \<longleftrightarrow> map_of (ac_grants s) k = Some g \<and> gr_kind g \<noteq> KindReadPath" for k g
    by (simp add: rebind_root_def map_of_filter_Some [OF wf])
  show mo: "maps_ok ?s"
    using inv wf by (simp add: access_inv_def maps_ok_def m) (simp add: rebind_root_def)
  have slot: "map_of (ac_grants ?s) (runtime_id k) = map_of (ac_grants s) (runtime_id k)" for k
    using m [of "runtime_id k"] runtime_slot(2) [OF inv, of k]
    by (cases "map_of (ac_grants s) (runtime_id k)"; cases "map_of (ac_grants ?s) (runtime_id k)") auto
  show "enabled_ok ?s"
    by (rule enabled_okI) 
      (simp only: slot, use inv_enabled [OF inv] in \<open>simp add: enabled_def rebind_root_def\<close>)
  show "read_reported ?s k \<longleftrightarrow> read_enforced ?s k" for k
    unfolding read_reported_def read_enforced_def m by (simp add: rebind_root_def fresh)
qed


section \<open>Reachable states\<close>

text \<open>The operations one after the other, with the roots the service was made or rebound with. The root of a newly opened
  workspace carries no grants; the roll-back of a workspace switch and the start of the HTTP transport hand in a root in use.\<close>

inductive access_run :: "root list \<Rightarrow> access \<Rightarrow> bool" where
  initial: "access_run [r] (new_access r allowed i)"
| begin_step: "access_run rs s \<Longrightarrow> access_run rs (fst (begin_access digest quote env now tok kind raw s))"
| complete_step: "access_run rs s \<Longrightarrow> access_run rs (fst (complete now token accepted s))"
| revoke_step: "access_run rs s \<Longrightarrow> access_run rs (fst (revoke gid s))"
| rebind_step: "access_run rs s \<Longrightarrow> access_run (r # rs) (rebind_root r s)"

definition fresh_roots :: "root list \<Rightarrow> bool" where "fresh_roots rs \<longleftrightarrow> (\<forall>r \<in> set rs. rt_grants r = [])"

lemma run_inv: "access_run rs s \<Longrightarrow> fresh_roots rs \<Longrightarrow> access_inv s"
  by (induction rule: access_run.induct)
    (simp_all add: fresh_roots_def new_access_inv begin_inv complete_inv revoke_inv rebind_inv)

lemma read_allowed_iff:
  "read_allowed r p \<longleftrightarrow> path_within (rt_root_resolved r) p \<or>
     (\<exists>(k, g) \<in> set (rt_grants r). grant_covers g p)"
  by (auto simp: read_allowed_def list_ex_iff)

lemma map_of_in_set: "(k, v) \<in> set m \<Longrightarrow> map_of m k \<noteq> None"
  by (metis option.distinct(1) weak_map_of_SomeI)

lemma grant_ok_read:
  "\<lbrakk>grant_ok fixed k g; gr_kind g = KindReadPath\<rbrakk> \<Longrightarrow>
     gr_id g = k \<and> gr_revocable g \<and> has_prefix k ''rg_''"
  by (simp add: grant_ok_def split: if_splits)

lemma allowed_reported:
  assumes "access_inv s" "read_allowed (ac_root s) p" "\<not> path_within (rt_root_resolved (ac_root s)) p"
  shows "\<exists>g. g \<in> snd ` set (ac_grants s) \<and> gr_kind g = KindReadPath \<and> gr_revocable g \<and>
    (\<exists>t. (gr_id g, t) \<in> set (rt_grants (ac_root s)) \<and> grant_covers t p)"
proof -
  from assms(2,3) have "\<exists>(k, t) \<in> set (rt_grants (ac_root s)). grant_covers t p"
    by (simp add: read_allowed_iff)
  then obtain k t where t: "(k, t) \<in> set (rt_grants (ac_root s))" "grant_covers t p" by blast
  from map_of_in_set [OF t(1)] have "read_enforced s k" by (simp add: read_enforced_def)
  then obtain g where g: "map_of (ac_grants s) k = Some g" "gr_kind g = KindReadPath"
    unfolding inv_reported [OF assms(1), symmetric] read_reported_def by blast
  from grant_ok_read [OF inv_grant [OF assms(1) g(1)] g(2)] have "gr_id g = k" "gr_revocable g"
    by simp_all
  moreover have "g \<in> snd ` set (ac_grants s)"
    using map_of_SomeD [OF g(1)] image_iff by fastforce
  ultimately show ?thesis using g(2) t by blast
qed

text \<open>C2: in every state reached by sequential operations, as long as the roots the service was made or rebound with carry no
  grants, a path the workspace resolves for reading lies in the primary root or below the canonical target of a listed,
  revocable grant.\<close>

theorem reads_stay_granted:
  assumes "access_run rs s" "fresh_roots rs" "resolve_existing env (ac_root s) relative = Inr p"
  shows "path_within (rt_root_resolved (ac_root s)) p \<or>
    (\<exists>g \<in> set (ar_grants (status_of s)). gr_kind g = KindReadPath \<and> gr_revocable g \<and>
       (\<exists>t. (gr_id g, t) \<in> set (rt_grants (ac_root s)) \<and> grant_covers t p))"
  using allowed_reported [OF run_inv [OF assms(1,2)] resolve_existing_allowed [OF assms(3)]]
  by (auto simp: status_of_def sorted_grants_def)

text \<open>C13: in every state reached by sequential operations, as long as the roots the service was made or rebound with carry no
  grants, a capability is enabled if and only if the host fixed it or its runtime grant is present, the listed read paths are
  exactly those the root enforces, and at most 64 proposals wait.\<close>

theorem access_state_consistent:
  assumes "access_run rs s" "fresh_roots rs"
  shows "(\<forall>k. k \<noteq> KindMemoryExport \<longrightarrow>
      (enabled s k \<longleftrightarrow> flag_of (ac_fixed s) k \<or> map_of (ac_grants s) (runtime_id k) \<noteq> None)) \<and>
    (\<forall>k. read_reported s k \<longleftrightarrow> read_enforced s k) \<and> length (ac_pending s) \<le> 64"
  using run_inv [OF assms] inv_enabled [OF run_inv [OF assms]]
    inv_reported [OF run_inv [OF assms]] inv_pending [OF run_inv [OF assms]]
  by (simp add: max_pending_def)











lemma unlisted_not_revoked:
  assumes "\<not> read_reported s k" "maps_ok s" "has_prefix k ''rg_''"
  shows "fst (revoke k s) = s"
proof (cases "map_of (ac_grants s) k")
  case None
  then show ?thesis by (simp add: revoke_def)
next
  case (Some g)
  from assms(1) Some have "gr_kind g \<noteq> KindReadPath" by (simp add: read_reported_def)
  with maps_ok_grant [OF assms(2) Some] assms(3) id_classes have False
    by (auto simp: grant_ok_def split: if_splits)
  then show ?thesis ..
qed

lemma rebind_twice:
  "rebind_root (ac_root s) (rebind_root r s) =
     s\<lparr>ac_grants := filter (\<lambda>(_, g). gr_kind g \<noteq> KindReadPath) (ac_grants s), ac_pending := []\<rparr>"
  by (simp add: rebind_root_def)

lemma enforced_prefix:
  assumes "access_inv s" "read_enforced s k"
  shows "has_prefix k ''rg_''"
proof -
  from assms obtain g where g: "map_of (ac_grants s) k = Some g" "gr_kind g = KindReadPath"
    by (auto simp: inv_reported [OF assms(1), symmetric] read_reported_def)
  from grant_ok_read [OF inv_grant [OF assms(1) g(1)] g(2)] show ?thesis by simp
qed

text \<open>Rolling a workspace switch back by rebinding the old root leaves its read grants
  enforced while the service no longer lists them, so no revocation can withdraw them.\<close>

theorem rollback_hides_read_grants:
  assumes "access_run rs s" "fresh_roots rs" "read_enforced s k"
  shows "let s' = rebind_root (ac_root s) (rebind_root r s) in
    read_enforced s' k \<and> \<not> (\<exists>g \<in> set (ar_grants (status_of s')). gr_kind g = KindReadPath) \<and>
    fst (revoke k s') = s'"
proof -
  let ?s = "rebind_root (ac_root s) (rebind_root r s)"
  note inv = run_inv [OF assms(1,2)]
  from inv have wf: "wf_map (ac_grants s)" by (simp add: access_inv_def maps_ok_def)
  have none: "\<not> read_reported ?s k"
    by (simp add: rebind_twice read_reported_def map_of_filter_Some [OF wf])
  moreover have mo: "maps_ok ?s"
    using inv wf by (simp add: rebind_twice access_inv_def maps_ok_def map_of_filter_Some)
  ultimately have "fst (revoke k ?s) = ?s"
    using unlisted_not_revoked enforced_prefix [OF inv assms(3)] by blast
  moreover have "read_enforced ?s k" using assms(3) by (simp add: rebind_twice read_enforced_def)
  moreover have "\<not> (\<exists>g \<in> set (ar_grants (status_of ?s)). gr_kind g = KindReadPath)"
    by (auto simp: rebind_twice status_of_def sorted_grants_def)
  ultimately show ?thesis by (simp add: Let_def)
qed

section \<open>A concrete session\<close>

definition demo_env :: os_env where
  "demo_env = \<lparr>env_realpath = (\<lambda>p. Inr p), env_lstat = (\<lambda>p. LstatFound),
     env_stat_dir = (\<lambda>p. Inr True), env_stat_file = (\<lambda>p. Inr (True, 0)),
     env_read = (\<lambda>p. Inr []), env_cwd = ''/''\<rparr>"

definition demo_initial :: initial where
  "demo_initial = \<lparr>in_intent_write = True, in_report_import = False, in_runner = False, in_cache = False\<rparr>"

definition demo0 :: access where "demo0 = new_access sample_root True demo_initial"
definition demo1 :: access where
  "demo1 = fst (begin_access (\<lambda>p. p) (\<lambda>p. p) demo_env 0 (Inr ''t'') KindReadPath ''../lib'' demo0)"
definition demo2 :: access where "demo2 = fst (complete 1 ''t'' True demo1)"

lemma demo_run: "access_run [sample_root] demo0" "access_run [sample_root] demo1" "access_run [sample_root] demo2"
proof -
  show 0: "access_run [sample_root] demo0" unfolding demo0_def by (rule access_run.initial)
  then show 1: "access_run [sample_root] demo1" unfolding demo1_def by (rule access_run.begin_step)
  then show "access_run [sample_root] demo2" unfolding demo2_def by (rule access_run.complete_step)
qed

lemma demo_fresh: "fresh_roots [sample_root]" "fresh_roots [sample_root, sample_root]"
  by (simp_all add: fresh_roots_def sample_root_def)

lemma demo_enforced: "read_enforced demo2 ''rg_/lib''"
  unfolding read_enforced_def by code_simp

lemma demo_read: "resolve_existing demo_env (ac_root demo2) ''../lib/a'' = Inr ''/lib/a''"
  by code_simp

theorem reads_stay_granted_witness:
  "resolve_existing demo_env (ac_root demo2) ''../lib/a'' = Inr ''/lib/a'' \<and>
   (\<exists>g \<in> set (ar_grants (status_of demo2)). gr_kind g = KindReadPath)"
proof -
  have "\<not> path_within (rt_root_resolved (ac_root demo2)) ''/lib/a''" by code_simp
  with reads_stay_granted [OF demo_run(3) demo_fresh(1) demo_read] demo_read show ?thesis by auto
qed

theorem access_state_consistent_witness:
  "enabled demo2 KindIntentWrite \<and> \<not> enabled demo2 KindRunner \<and> read_reported demo2 ''rg_/lib''"
proof -
  note c = access_state_consistent [OF demo_run(3) demo_fresh(1)]
  have "flag_of (ac_fixed demo2) KindIntentWrite" "KindIntentWrite \<noteq> KindMemoryExport" by code_simp+
  moreover have "\<not> flag_of (ac_fixed demo2) KindRunner" "KindRunner \<noteq> KindMemoryExport"
    "map_of (ac_grants demo2) (runtime_id KindRunner) = None" by code_simp+
  ultimately show ?thesis using c demo_enforced by auto
qed


theorem rollback_hides_read_grants_witness:
  "read_enforced (rebind_root (ac_root demo2) (rebind_root sample_root demo2)) ''rg_/lib'' \<and>
   ar_grants (status_of demo2) \<noteq> []"
proof -
  have "ar_grants (status_of demo2) \<noteq> []" by code_simp
  with rollback_hides_read_grants [OF demo_run(3) demo_fresh(1) demo_enforced, of sample_root]
  show ?thesis by (simp add: Let_def)
qed

end
