(* ===== verification/RuntimeConfig.thy ===== *)
theory RuntimeConfig
  imports Settings RuntimeAccess Contracts
begin

text \<open>
  The live configuration of a stdio process: the request contract of
  \<open>internal/runtimeconfig/types.go\<close> and its controller in
  \<open>internal/application/runtime_config.go\<close> and \<open>application.go\<close>, which changes the settings,
  builds a replacement service bundle, swaps it in and rebinds the approvals. The state is \<open>app\<close>;
  the live root object, which the bundle and the approval service share, is \<^const>\<open>ac_root\<close> of its
  approval state. Opening databases, stopping and starting HTTP and closing bundles are answers of
  the record \<open>app_env\<close>.
\<close>

section \<open>The request contract\<close>

record config_request =
  cr_action :: string
  cr_target :: string
  cr_values :: "string list option"

definition values_of :: "config_request \<Rightarrow> string list" where
  "values_of req = (case cr_values req of None \<Rightarrow> [] | Some vs \<Rightarrow> vs)"

definition source_targets :: "string list" where
  "source_targets = [''catalog_root'', ''candidate_root'', ''rule_file'', ''symbol_index'']"

definition blank :: "string \<Rightarrow> bool" where
  "blank s \<longleftrightarrow> trim_space s = []"

definition one_value :: "string list \<Rightarrow> go_error + unit" where
  "one_value vs = (if length vs \<noteq> 1 \<or> blank (hd vs) then Inl (Sentinel ConfigInvalid) else Inr ())"

definition no_values :: "string list \<Rightarrow> go_error + unit" where
  "no_values vs = (if vs \<noteq> [] then Inl (Sentinel ConfigInvalid) else Inr ())"

definition validate_source :: "string \<Rightarrow> config_request \<Rightarrow> go_error + unit" where
  "validate_source action req =
     (if action = ''add'' \<or> action = ''remove'' then one_value (values_of req)
      else if action = ''replace'' then
        (if cr_values req = None then Inl (Sentinel ConfigReplaceValues)
         else if list_ex blank (values_of req) then Inl (Sentinel ConfigInvalid) else Inr ())
      else if action = ''refresh'' then no_values (values_of req)
      else Inl (Sentinel ConfigInvalid))"

definition validate_http :: "string \<Rightarrow> config_request \<Rightarrow> go_error + unit" where
  "validate_http action req =
     (if action = ''start'' then one_value (values_of req)
      else if action = ''stop'' then no_values (values_of req)
      else Inl (Sentinel ConfigInvalid))"

definition validate_config :: "config_request \<Rightarrow> go_error + unit" where
  "validate_config req =
     (let action = trim_space (cr_action req); target = trim_space (cr_target req); vs = values_of req in
      if 64 < length vs \<or> list_ex (\<lambda>v. 4096 < length v) vs then Inl (Sentinel ConfigInvalid)
      else if action = ''status'' then
        (if target \<noteq> [] \<or> vs \<noteq> [] then Inl (Sentinel ConfigInvalid) else Inr ())
      else if target \<in> set source_targets then validate_source action req
      else if target = ''workspace'' \<or> target = ''state_dir'' then
        (if action \<noteq> ''select'' then Inl (Sentinel ConfigInvalid) else one_value vs)
      else if target = ''http_transport'' then validate_http action req
      else Inl (Sentinel ConfigInvalid))"

section \<open>Changing the settings\<close>

definition normalize_values :: "string list \<Rightarrow> string list" where
  "normalize_values vs = map (\<lambda>v. path_clean (trim_space v)) vs"

fun contains_path :: "string list \<Rightarrow> string \<Rightarrow> bool" where
  "contains_path [] wanted = False"
| "contains_path (v # vs) wanted = (same_path v wanted \<or> contains_path vs wanted)"

fun unique_paths_from :: "string list \<Rightarrow> string list \<Rightarrow> string list" where
  "unique_paths_from result [] = result"
| "unique_paths_from result (v # vs) =
     unique_paths_from (if contains_path result v then result else result @ [v]) vs"

definition unique_paths :: "string list \<Rightarrow> string list" where
  "unique_paths vs = unique_paths_from [] vs"

definition same_paths :: "string list \<Rightarrow> string list \<Rightarrow> bool" where
  "same_paths left right \<longleftrightarrow> length left = length right \<and> list_all2 same_path left right"

text \<open>The list a source target points to, and the update of that list.\<close>

definition source_list :: "string \<Rightarrow> settings \<Rightarrow> string list" where
  "source_list target s =
     (if target = ''catalog_root'' then st_catalog_roots s
      else if target = ''candidate_root'' then st_candidate_roots s
      else if target = ''rule_file'' then st_rule_files s else st_symbol_indexes s)"

definition set_source_list :: "string \<Rightarrow> string list \<Rightarrow> settings \<Rightarrow> settings" where
  "set_source_list target vs s =
     (if target = ''catalog_root'' then s\<lparr>st_catalog_roots := vs\<rparr>
      else if target = ''candidate_root'' then s\<lparr>st_candidate_roots := vs\<rparr>
      else if target = ''rule_file'' then s\<lparr>st_rule_files := vs\<rparr> else s\<lparr>st_symbol_indexes := vs\<rparr>)"

text \<open>\<open>request.Values[0]\<close>, which panics on an empty slice.\<close>

definition first_value :: "string list \<Rightarrow> go_error + string" where
  "first_value vs = (case vs of [] \<Rightarrow> Inl (Panic ''index out of range'') | v # _ \<Rightarrow> Inr v)"

definition select_path :: "os_env \<Rightarrow> string \<Rightarrow> string \<Rightarrow> settings \<Rightarrow> go_error + (settings \<times> bool \<times> bool)" where
  "select_path env target v s =
     (let value = path_abs env (path_clean v) in
      if \<not> is_abs v then Inl (Sentinel ConfigInvalid)
      else if target = ''workspace'' then
        (let changed = (\<not> same_path (st_workspace s) value)
         in Inr (s\<lparr>st_workspace := value, st_workspace_origin := []\<rparr>, changed, changed))
      else (let changed = (\<not> same_path (st_state_dir s) value)
         in Inr (s\<lparr>st_state_dir := value\<rparr>, changed, changed)))"

definition change_source ::
    "string \<Rightarrow> string list \<Rightarrow> string list \<Rightarrow> go_error + string list" where
  "change_source action vs before =
     (if action = ''add'' then
        try_then (first_value vs) (\<lambda>v. Inr (if contains_path before v then before else before @ [v]))
      else if action = ''remove'' then
        try_then (first_value vs) (\<lambda>v. Inr (filter (\<lambda>x. \<not> same_path x v) before))
      else if action = ''replace'' then Inr (unique_paths vs)
      else Inl (Sentinel ConfigInvalid))"

definition mutate_settings :: "os_env \<Rightarrow> config_request \<Rightarrow> settings \<Rightarrow> go_error + (settings \<times> bool \<times> bool)" where
  "mutate_settings env req s =
     (if cr_target req = ''workspace'' \<or> cr_target req = ''state_dir'' then
        try_then (first_value (values_of req)) (\<lambda>v. select_path env (cr_target req) v s)
      else if cr_target req \<notin> set source_targets then Inl (Sentinel ConfigInvalid)
      else if cr_action req = ''refresh'' then Inr (s, False, True)
      else let before = source_list (cr_target req) s in
        try_then (change_source (cr_action req) (normalize_values (values_of req)) before)
          (\<lambda>after. Inr (set_source_list (cr_target req) after s, \<not> same_paths before after, True)))"

definition check_sources :: "os_env \<Rightarrow> root \<Rightarrow> string list \<Rightarrow> go_error + unit" where
  "check_sources env r vs = foldr (\<lambda>v rest.
     (if is_abs v then Inl (Sentinel ConfigInvalid)
      else case resolve_primary_existing env r v of
          Inl e \<Rightarrow> Inl (Wrap ''configured source unavailable: '' e)
        | Inr _ \<Rightarrow> rest)) vs (Inr ())"

definition validate_runtime_paths ::
    "(string \<Rightarrow> string) \<Rightarrow> os_env \<Rightarrow> settings \<Rightarrow> config_request \<Rightarrow> go_error + unit" where
  "validate_runtime_paths digest env s req =
     try_then (open_root digest env (st_workspace s)) (\<lambda>r.
       if cr_target req = ''workspace'' \<or> cr_target req = ''state_dir'' \<or>
          cr_action req = ''remove'' \<or> cr_action req = ''refresh'' then Inr ()
       else check_sources env r (values_of req))"


section \<open>The application\<close>

record app_env =
  ae_os :: os_env
  ae_digest :: "string \<Rightarrow> string"
  ae_mkdir :: "string \<Rightarrow> go_error option"
  ae_open_services :: "settings \<Rightarrow> root \<Rightarrow> go_error option"
  ae_snapshot :: "go_error option"
  ae_stop_http :: "go_error option"
  ae_start_http :: "settings \<Rightarrow> string \<Rightarrow> go_error option"
  ae_close :: "go_error option"

record app =
  ap_settings :: settings
  ap_blocked :: bool
  ap_access :: access
  ap_http :: "string option"

text \<open>\<open>buildBundle\<close>: the replacement root, and the state directory kept out of the workspace. What
  follows \<open>PrepareIdentity\<close> (databases, keys, recovery, the pinned identity) is one answer.\<close>

definition path_inside :: "os_env \<Rightarrow> string \<Rightarrow> string \<Rightarrow> go_error + bool" where
  "path_inside env r candidate =
     (case path_rel (path_abs env r) (path_abs env candidate) of
        None \<Rightarrow> Inl (Text ''Rel: cannot make path relative'')
      | Some relative \<Rightarrow> Inr (relative = ''.'' \<or> (relative \<noteq> ''..'' \<and> \<not> has_prefix relative ''../'')))"

definition outside_workspace :: "os_env \<Rightarrow> root \<Rightarrow> string \<Rightarrow> go_error + unit" where
  "outside_workspace env r p =
     try_then (path_inside env (rt_root_resolved r) p)
       (\<lambda>inside. if inside then Inl (Sentinel ConfigStateOverlap) else Inr ())"

definition option_error :: "go_error option \<Rightarrow> go_error + unit" where
  "option_error e = (case e of None \<Rightarrow> Inr () | Some err \<Rightarrow> Inl err)"

definition wrap_error :: "string \<Rightarrow> (go_error + 'a) \<Rightarrow> go_error + 'a" where
  "wrap_error msg r = (case r of Inl e \<Rightarrow> Inl (Wrap msg e) | Inr x \<Rightarrow> Inr x)"

definition build_bundle :: "app_env \<Rightarrow> settings \<Rightarrow> go_error + root" where
  "build_bundle env s =
     try_then (open_root (ae_digest env) (ae_os env) (st_workspace s)) (\<lambda>r.
     try_then (wrap_error ''resolve planned state directory: ''
       (real_path_allow_missing (ae_os env) (st_state_dir s))) (\<lambda>planned.
     try_then (outside_workspace (ae_os env) r planned) (\<lambda>_.
     try_then (wrap_error ''create state directory: '' (option_error (ae_mkdir env (st_state_dir s)))) (\<lambda>_.
     try_then (wrap_error ''resolve state directory: ''
       (env_realpath (ae_os env) (st_state_dir s))) (\<lambda>resolved.
     try_then (outside_workspace (ae_os env) r resolved) (\<lambda>_.
     try_then (prepare_identity (ae_digest env) (ae_os env) r (st_workspace_origin s)) (\<lambda>r'.
     try_then (option_error (ae_open_services env s r')) (\<lambda>_. Inr r'))))))))"

definition stop_http :: "app_env \<Rightarrow> app \<Rightarrow> app \<times> (go_error + unit)" where
  "stop_http env a =
     (case ap_http a of
        None \<Rightarrow> (a, Inr ())
      | Some _ \<Rightarrow> (a\<lparr>ap_http := None\<rparr>, option_error (ae_stop_http env)))"

definition start_http :: "app_env \<Rightarrow> string \<Rightarrow> app \<Rightarrow> app \<times> (go_error + unit)" where
  "start_http env profile a =
     (case ae_start_http env (ap_settings a) profile of
        Some e \<Rightarrow> (a, Inl e)
      | None \<Rightarrow> (a\<lparr>ap_http := Some profile\<rparr>, Inr ()))"

definition install_bundle :: "app_env \<Rightarrow> settings \<Rightarrow> root \<Rightarrow> app \<Rightarrow> app" where
  "install_bundle env next r a = a\<lparr>
     ap_settings := next\<lparr>st_workspace := rt_root_resolved r,
                         st_state_dir := path_abs (ae_os env) (st_state_dir next)\<rparr>,
     ap_blocked := False, ap_access := rebind_root r (ap_access a)\<rparr>"

text \<open>The roll-back after a failed restart of HTTP: the old bundle, whose root object still is the
  one the approvals pointed to, is swapped back.\<close>

definition roll_back :: "app \<Rightarrow> app \<Rightarrow> app" where
  "roll_back old a = a\<lparr>ap_settings := ap_settings old, ap_blocked := ap_blocked old,
     ap_access := rebind_root (ac_root (ap_access old)) (ap_access a)\<rparr>"

definition close_error :: "app_env \<Rightarrow> app \<Rightarrow> go_error + unit" where
  "close_error env old = (if ap_blocked old then Inr () else option_error (ae_close env))"

definition switch_bundle :: "app_env \<Rightarrow> settings \<Rightarrow> app \<Rightarrow> app \<times> (go_error + unit)" where
  "switch_bundle env next a =
     (if \<not> ap_blocked a \<and> ae_snapshot env \<noteq> None
        then (a, Inl (Text ''runtime configuration conflicts with active work''))
      else case build_bundle env next of
        Inl e \<Rightarrow> (a, Inl e)
      | Inr r \<Rightarrow>
          (case stop_http env a of
             (a1, Inl e) \<Rightarrow> (a1, Inl e)
           | (a1, Inr _) \<Rightarrow>
               (let a2 = install_bundle env next r a1 in
                case ap_http a of
                  None \<Rightarrow> (a2, close_error env a)
                | Some profile \<Rightarrow>
                    (case start_http env profile a2 of
                       (a3, Inr _) \<Rightarrow> (a3, close_error env a)
                     | (a3, Inl e) \<Rightarrow> (fst (start_http env profile (roll_back a a3)), Inl e)))))"

definition configure_http :: "app_env \<Rightarrow> config_request \<Rightarrow> app \<Rightarrow> app \<times> (go_error + bool)" where
  "configure_http env req a =
     (if cr_action req = ''stop'' then
        (if ap_http a = None then (a, Inr False)
         else let (a', r) = stop_http env a in (a', try_then r (\<lambda>_. Inr True)))
      else case first_value (values_of req) of
        Inl e \<Rightarrow> (a, Inl e)
      | Inr v \<Rightarrow>
          (if \<not> is_abs v then (a, Inl (Sentinel ConfigInvalid))
           else let profile = path_abs (ae_os env) (path_clean v) in
             case stop_http env a of
               (a1, Inl e) \<Rightarrow> (a1, Inl e)
             | (a1, Inr _) \<Rightarrow>
                 (case start_http env profile a1 of
                    (a2, Inl e) \<Rightarrow>
                      ((case ap_http a of None \<Rightarrow> a2 | Some old \<Rightarrow> fst (start_http env old a2)), Inl e)
                  | (a2, Inr _) \<Rightarrow>
                      (a2, Inr (case ap_http a of None \<Rightarrow> True
                         | Some old \<Rightarrow> \<not> same_path old profile)))))"

section \<open>Status and \<open>Apply\<close>\<close>

definition snapshot_of :: "app \<Rightarrow> (string, string list) gomap" where
  "snapshot_of a =
     [(''workspace'', [st_workspace (ap_settings a)]), (''state_dir'', [st_state_dir (ap_settings a)]),
      (''catalog_root'', st_catalog_roots (ap_settings a)),
      (''candidate_root'', st_candidate_roots (ap_settings a)),
      (''rule_file'', st_rule_files (ap_settings a)), (''symbol_index'', st_symbol_indexes (ap_settings a)),
      (''tool_surface'', [st_tool_surface (ap_settings a)]),
      (''workspace_identity'', (if ap_blocked a then [''unavailable''] else [''pinned'', ''.repoplane/workspace-id''])),
      (''http_transport'', (case ap_http a of None \<Rightarrow> [] | Some p \<Rightarrow> [p]))]"

record config_response =
  cs_status :: string
  cs_changed :: bool
  cs_refreshed :: bool
  cs_configuration :: "(string, string list) gomap"
  cs_warnings :: "warning list"

definition overlap_warning :: warning where
  "overlap_warning = \<lparr>wn_code = ''workspace_state_overlap'',
     wn_message = ''State directory is inside the workspace; select a project workspace or a state directory outside the workspace with runtime_config(action=select, target=workspace|state_dir, values=[absolute_path]).'',
     wn_ref = None\<rparr>"

definition config_status :: "app \<Rightarrow> config_response" where
  "config_status a = \<lparr>cs_status = (if ap_blocked a then ''blocked'' else ''ok''), cs_changed = False,
     cs_refreshed = False, cs_configuration = snapshot_of a,
     cs_warnings = (if ap_blocked a then [overlap_warning] else [])\<rparr>"

definition changed_response :: "bool \<Rightarrow> bool \<Rightarrow> app \<Rightarrow> config_response" where
  "changed_response changed refreshed a = \<lparr>cs_status = ''ok'', cs_changed = changed,
     cs_refreshed = refreshed, cs_configuration = snapshot_of a, cs_warnings = []\<rparr>"

definition apply_settings :: "app_env \<Rightarrow> config_request \<Rightarrow> app \<Rightarrow> app \<times> (go_error + config_response)" where
  "apply_settings env req a =
     (case mutate_settings (ae_os env) req (ap_settings a) of
        Inl e \<Rightarrow> (a, Inl e)
      | Inr (next, changed, refreshed) \<Rightarrow>
          (if \<not> changed \<and> \<not> refreshed then (a, Inr (config_status a))
           else case validate_runtime_paths (ae_digest env) (ae_os env) next req of
               Inl e \<Rightarrow> (a, Inl e)
             | Inr _ \<Rightarrow>
                 (let (a', r) = switch_bundle env next a
                  in (a', try_then r (\<lambda>_. Inr (changed_response changed True a'))))))"

definition apply_config :: "app_env \<Rightarrow> config_request \<Rightarrow> app \<Rightarrow> app \<times> (go_error + config_response)" where
  "apply_config env req a =
     (case validate_config req of
        Inl e \<Rightarrow> (a, Inl e)
      | Inr _ \<Rightarrow>
          if cr_action req = ''status'' then (a, Inr (config_status a))
          else if ap_blocked a \<and> (cr_action req \<noteq> ''select'' \<or>
              (cr_target req \<noteq> ''workspace'' \<and> cr_target req \<noteq> ''state_dir''))
            then (a, Inl (Sentinel ConfigStateOverlap))
          else if cr_target req = ''http_transport'' then
            (let (a', r) = configure_http env req a
             in (a', try_then r (\<lambda>changed. Inr (changed_response changed False a'))))
          else apply_settings env req a)"


section \<open>Lists of sources\<close>

abbreviation cleans :: "string list \<Rightarrow> string set" where
  "cleans vs \<equiv> path_clean ` set vs"

lemma contains_path_iff: "contains_path vs w \<longleftrightarrow> path_clean w \<in> cleans vs"
  by (induction vs) (auto simp: same_path_def)

lemma unique_paths_from_spec:
  "distinct (map path_clean result) \<Longrightarrow>
     distinct (map path_clean (unique_paths_from result vs)) \<and>
     cleans (unique_paths_from result vs) = cleans result \<union> cleans vs"
proof (induction vs arbitrary: result)
  case Nil
  then show ?case by simp
next
  case (Cons v vs)
  let ?r = "if contains_path result v then result else result @ [v]"
  have "distinct (map path_clean ?r)" "cleans ?r = insert (path_clean v) (cleans result)"
    using Cons.prems by (auto simp: contains_path_iff)
  with Cons.IH [of ?r] show ?case by simp
qed

lemma unique_paths_spec:
  "distinct (map path_clean (unique_paths vs))" "cleans (unique_paths vs) = cleans vs"
  using unique_paths_from_spec [of "[]" vs] by (simp_all add: unique_paths_def)

lemma change_source_add:
  "change_source ''add'' (v # vs) before = Inr after \<Longrightarrow> cleans after = insert (path_clean v) (cleans before)"
  by (auto simp: change_source_def first_value_def contains_path_iff split: if_splits)

lemma change_source_remove:
  "change_source ''remove'' (v # vs) before = Inr after \<Longrightarrow> cleans after = cleans before - {path_clean v}"
  by (auto simp: change_source_def first_value_def same_path_def)

lemma change_source_replace:
  "change_source ''replace'' vs before = Inr after \<Longrightarrow>
     cleans after = cleans vs \<and> distinct (map path_clean after)"
proof -
  assume "change_source ''replace'' vs before = Inr after"
  then have "after = unique_paths vs" by (simp add: change_source_def)
  then show ?thesis by (simp only: unique_paths_spec)
qed

lemma source_list_set:
  assumes "t \<in> set source_targets" "u \<in> set source_targets"
  shows "source_list u (set_source_list t vs s) = (if u = t then vs else source_list u s)"
  using assms by (auto simp: source_list_def set_source_list_def source_targets_def)

lemma set_source_list_frame:
  "st_workspace (set_source_list t vs s) = st_workspace s"
  "st_state_dir (set_source_list t vs s) = st_state_dir s"
  by (simp_all add: set_source_list_def)

lemma source_target_names:
  "t \<in> set source_targets \<Longrightarrow> t \<noteq> ''workspace'' \<and> t \<noteq> ''state_dir'' \<and> t \<noteq> ''http_transport''"
  by (auto simp: source_targets_def)

lemma mutate_source:
  assumes "cr_target req \<in> set source_targets" "cr_action req \<noteq> ''refresh''"
    "mutate_settings env req s = Inr (s', changed, refreshed)"
  obtains after where
    "change_source (cr_action req) (normalize_values (values_of req)) (source_list (cr_target req) s) = Inr after"
    "s' = set_source_list (cr_target req) after s" "changed = (\<not> same_paths (source_list (cr_target req) s) after)"
  using assms source_target_names [OF assms(1)] by (auto simp: mutate_settings_def Let_def)

lemma normalize_values_Cons:
  "values_of req = v # vs \<Longrightarrow> normalize_values (values_of req) = path_clean (trim_space v) # normalize_values vs"
  by (simp add: normalize_values_def)

text \<open>A source request changes the one list it names as a set of cleaned paths (add inserts,
  remove deletes, replace installs the given values without duplicates), leaves the other lists,
  the workspace and the state directory alone, and reports a change exactly when the list
  changed.\<close>

theorem source_mutation_semantics:
  assumes t: "cr_target req \<in> set source_targets"
    and m: "mutate_settings env req s = Inr (s', changed, refreshed)"
    and a: "cr_action req \<in> {''add'', ''remove'', ''replace''}" and vs: "values_of req = v # vs"
  shows "let before = source_list (cr_target req) s; after = source_list (cr_target req) s';
             w = path_clean (path_clean (trim_space v)) in
    (cr_action req = ''add'' \<longrightarrow> cleans after = insert w (cleans before)) \<and>
    (cr_action req = ''remove'' \<longrightarrow> cleans after = cleans before - {w}) \<and>
    (cr_action req = ''replace'' \<longrightarrow> cleans after = cleans (normalize_values (v # vs)) \<and>
       distinct (map path_clean after)) \<and>
    changed = (\<not> same_paths before after) \<and>
    (\<forall>u \<in> set source_targets. u \<noteq> cr_target req \<longrightarrow> source_list u s' = source_list u s) \<and>
    st_workspace s' = st_workspace s \<and> st_state_dir s' = st_state_dir s"
proof -
  from a have "cr_action req \<noteq> ''refresh''" by auto
  then obtain after where c: "change_source (cr_action req) (normalize_values (values_of req))
      (source_list (cr_target req) s) = Inr after"
    and s': "s' = set_source_list (cr_target req) after s"
    and ch: "changed = (\<not> same_paths (source_list (cr_target req) s) after)"
    using mutate_source [OF t _ m] by blast
  have "source_list (cr_target req) s' = after" unfolding s' by (simp add: source_list_set [OF t t])
  moreover have "source_list u s' = source_list u s"
    if "u \<in> set source_targets" "u \<noteq> cr_target req" for u
    unfolding s' using that by (simp add: source_list_set [OF t])
  moreover note c [unfolded normalize_values_Cons [OF vs]]
  then have
    "cr_action req = ''add'' \<longrightarrow> cleans after = insert (path_clean (path_clean (trim_space v))) (cleans (source_list (cr_target req) s))"
    "cr_action req = ''remove'' \<longrightarrow> cleans after = cleans (source_list (cr_target req) s) - {path_clean (path_clean (trim_space v))}"
    "cr_action req = ''replace'' \<longrightarrow> cleans after = cleans (normalize_values (v # vs)) \<and> distinct (map path_clean after)"
    using change_source_add change_source_remove change_source_replace
    by (metis, metis, metis c vs)
  ultimately show ?thesis
    using ch unfolding Let_def s' set_source_list_frame by simp
qed

section \<open>Failed requests\<close>

lemma stop_http_frame:
  "ap_settings (fst (stop_http env a)) = ap_settings a" "ap_blocked (fst (stop_http env a)) = ap_blocked a"
  "ap_access (fst (stop_http env a)) = ap_access a"
  by (simp_all add: stop_http_def split: option.split)

lemma start_http_frame:
  "ap_settings (fst (start_http env p a)) = ap_settings a" "ap_blocked (fst (start_http env p a)) = ap_blocked a"
  "ap_access (fst (start_http env p a)) = ap_access a"
  by (simp_all add: start_http_def split: option.split)

definition kept :: "app \<Rightarrow> app \<Rightarrow> bool" where
  "kept a a' \<longleftrightarrow> ap_settings a' = ap_settings a \<and> ap_blocked a' = ap_blocked a \<and>
     ac_root (ap_access a') = ac_root (ap_access a) \<and> ac_enabled (ap_access a') = ac_enabled (ap_access a)"

lemma kept_refl [simp]: "kept a a"
  by (simp add: kept_def)

lemma kept_stop: "stop_http env a = (a', r) \<Longrightarrow> kept a a'"
  using stop_http_frame [of env a] by (simp add: kept_def)

lemma kept_start: "start_http env p a = (a', r) \<Longrightarrow> kept a a'"
  using start_http_frame [of env p a] by (simp add: kept_def)

lemma kept_trans: "\<lbrakk>kept a b; kept b c\<rbrakk> \<Longrightarrow> kept a c"
  by (simp add: kept_def)

lemma close_error_Inl: "close_error env a = Inl e \<Longrightarrow> \<not> ap_blocked a \<and> ae_close env = Some e"
  by (auto simp: close_error_def option_error_def split: if_splits option.splits)

lemma kept_roll_back:
  assumes "stop_http env a = (a1, r1)" "start_http env p (install_bundle env next r a1) = (a3, r3)"
  shows "kept a (fst (start_http env p (roll_back a a3)))"
proof -
  have "ac_enabled (ap_access a3) = ac_enabled (ap_access a1)"
    using start_http_frame(3) [of env p "install_bundle env next r a1"] assms(2)
    by (simp add: install_bundle_def rebind_root_def)
  moreover have "ap_access a1 = ap_access a" using stop_http_frame(3) [of env a] assms(1) by simp
  ultimately show ?thesis by (simp add: kept_def start_http_frame roll_back_def rebind_root_def)
qed

lemma switch_bundle_failed:
  assumes "switch_bundle env next a = (a', Inl e)"
  shows "kept a a' \<or> (\<not> ap_blocked a \<and> ae_close env = Some e)"
proof (cases "(\<not> ap_blocked a \<and> ae_snapshot env \<noteq> None) \<or> (\<exists>e. build_bundle env next = Inl e)")
  case True
  then show ?thesis using assms by (auto simp: switch_bundle_def split: if_splits)
next
  case False
  then obtain r where b: "build_bundle env next = Inr r" by (cases "build_bundle env next") auto
  obtain a1 r1 where st: "stop_http env a = (a1, r1)" by fastforce
  show ?thesis
  proof (cases r1)
    case (Inl e1)
    then show ?thesis using assms False b st kept_stop [OF st] by (auto simp: switch_bundle_def)
  next
    case (Inr u)
    show ?thesis
    proof (cases "ap_http a")
      case None
      then show ?thesis using assms False b st Inr close_error_Inl by (auto simp: switch_bundle_def)
    next
      case (Some p)
      obtain a3 r3 where sta: "start_http env p (install_bundle env next r a1) = (a3, r3)" by fastforce
      show ?thesis
        using assms False b st Inr Some sta close_error_Inl kept_roll_back [OF st sta]
        by (cases r3) (auto simp: switch_bundle_def Let_def)
    qed
  qed
qed

lemma configure_http_failed:
  assumes "configure_http env req a = (a', Inl e)"
  shows "kept a a'"
proof -
  obtain a1 r1 where st: "stop_http env a = (a1, r1)" by fastforce
  have "kept a (fst (start_http env q (fst (start_http env p a1))))" for p q
    using kept_stop [OF st] by (simp add: kept_def start_http_frame)
  moreover have "kept a (fst (start_http env p a1))" for p
    using kept_stop [OF st] by (simp add: kept_def start_http_frame)
  ultimately show ?thesis
    using assms st kept_stop [OF st]
    by (auto simp: configure_http_def Let_def split_beta split: if_splits sum.splits option.splits prod.splits)
qed

lemma apply_settings_failed:
  assumes "apply_settings env req a = (a', Inl e)"
  shows "kept a a' \<or> (\<not> ap_blocked a \<and> ae_close env = Some e)"
  using assms switch_bundle_failed
  by (fastforce simp: apply_settings_def Let_def try_then_Inl_iff split: sum.splits prod.splits if_splits)

text \<open>A configuration request that fails changes neither the settings nor the workspace root
  nor the capabilities, with one exception: the switch succeeded and only closing the services it
  replaced failed.\<close>

theorem failed_apply_keeps_configuration:
  assumes "apply_config env req a = (a', Inl e)"
  shows "(ap_settings a' = ap_settings a \<and> ap_blocked a' = ap_blocked a \<and>
       ac_root (ap_access a') = ac_root (ap_access a) \<and>
       ac_enabled (ap_access a') = ac_enabled (ap_access a)) \<or>
     (\<not> ap_blocked a \<and> ae_close env = Some e)"
  unfolding kept_def [symmetric]
  using assms apply_settings_failed [of env req a a' e] configure_http_failed [of env req a a' e]
  by (auto simp: apply_config_def Let_def try_then_Inl_iff split: sum.splits if_splits prod.splits)


section \<open>The state directory\<close>

lemma path_inside_within:
  "path_inside env r c = Inr b \<Longrightarrow> path_within (path_abs env r) (path_abs env c) \<Longrightarrow> b"
  by (auto simp: path_inside_def path_within_def split: option.splits)

lemma outside_workspace_ok:
  "outside_workspace env r p = Inr u \<Longrightarrow>
     \<not> path_within (path_abs env (rt_root_resolved r)) (path_abs env p)"
  using path_inside_within by (auto simp: outside_workspace_def split: if_splits)

lemma prepare_identity_root:
  "prepare_identity digest env r origin = Inr r' \<Longrightarrow> rt_root_resolved r' = rt_root_resolved r"
  by (auto simp: prepare_identity_def split: if_splits)

text \<open>A bundle is only built when the resolved state directory is not below the resolved
  workspace root.\<close>

theorem state_directory_outside_workspace:
  assumes b: "build_bundle env s = Inr r" and cwd: "is_abs (env_cwd (ae_os env))"
  shows "\<exists>state. env_realpath (ae_os env) (st_state_dir s) = Inr state \<and>
    \<not> prefix (clean_comps (path_abs (ae_os env) (rt_root_resolved r))) (clean_comps (path_abs (ae_os env) state))"
proof -
  from b obtain r0 state u where s: "env_realpath (ae_os env) (st_state_dir s) = Inr state"
    and o: "outside_workspace (ae_os env) r0 state = Inr u"
    and p: "prepare_identity (ae_digest env) (ae_os env) r0 (st_workspace_origin s) = Inr r"
    by (auto simp: build_bundle_def wrap_error_def split: sum.splits)
  have "\<not> path_within (path_abs (ae_os env) (rt_root_resolved r)) (path_abs (ae_os env) state)"
    using outside_workspace_ok [OF o] prepare_identity_root [OF p] by simp
  then show ?thesis using s by (simp add: path_within_iff path_abs_abs cwd)
qed

section \<open>Padded actions\<close>

text \<open>\<open>Validate\<close> trims the action of its own copy of the request, \<open>Apply\<close> goes on with the
  original: a padded stop action passes validation and then indexes the missing values, so the
  handler panics.\<close>

theorem padded_stop_panics:
  assumes "\<not> ap_blocked a"
  shows "validate_config \<lparr>cr_action = '' stop'', cr_target = ''http_transport'', cr_values = None\<rparr> = Inr () \<and>
    apply_config env \<lparr>cr_action = '' stop'', cr_target = ''http_transport'', cr_values = None\<rparr> a =
      (a, Inl (Panic ''index out of range''))"
proof -
  have "validate_config \<lparr>cr_action = '' stop'', cr_target = ''http_transport'', cr_values = None\<rparr> = Inr ()"
    by code_simp
  then show ?thesis
    using assms by (simp add: apply_config_def configure_http_def values_of_def first_value_def)
qed

section \<open>A concrete application\<close>

definition cfg_os :: os_env where
  "cfg_os = demo_env\<lparr>env_lstat := (\<lambda>p. if has_suffix p ''workspace-id'' then LstatMissing else LstatFound)\<rparr>"

definition cfg_env :: app_env where
  "cfg_env = \<lparr>ae_os = cfg_os, ae_digest = (\<lambda>p. p), ae_mkdir = (\<lambda>p. None),
     ae_open_services = (\<lambda>s r. if st_rule_files s = [] then Some (Text ''no rules'') else None),
     ae_snapshot = None, ae_stop_http = None, ae_start_http = (\<lambda>s p. None), ae_close = None\<rparr>"

definition cfg_settings :: settings where
  "cfg_settings = \<lparr>st_transport = ''stdio'', st_tool_surface = ''typed.v1'', st_result_content = ''compatible'',
     st_http_profile = [], st_workspace = ''/w'', st_workspace_origin = [], st_state_dir = ''/s'',
     st_catalog_roots = [''catalog''], st_candidate_roots = [''tools''], st_rule_files = [''AGENTS.md''],
     st_symbol_indexes = [], st_enable_intention_writes = False, st_enable_report_import = False,
     st_enable_runner = False, st_enable_cache = False\<rparr>"

definition cfg_app :: app where
  "cfg_app = \<lparr>ap_settings = cfg_settings, ap_blocked = False, ap_access = demo2, ap_http = None\<rparr>"

theorem source_mutation_semantics_witness:
  "mutate_settings cfg_os \<lparr>cr_action = ''add'', cr_target = ''rule_file'', cr_values = Some ['' docs/./R.md '']\<rparr> cfg_settings
     = Inr (cfg_settings\<lparr>st_rule_files := [''AGENTS.md'', ''docs/R.md'']\<rparr>, True, True) \<and>
   cleans [''AGENTS.md'', ''docs/R.md''] = insert ''docs/R.md'' (cleans [''AGENTS.md''])"
proof -
  let ?r = "\<lparr>cr_action = ''add'', cr_target = ''rule_file'', cr_values = Some ['' docs/./R.md '']\<rparr>"
  have m: "mutate_settings cfg_os ?r cfg_settings
     = Inr (cfg_settings\<lparr>st_rule_files := [''AGENTS.md'', ''docs/R.md'']\<rparr>, True, True)" by code_simp
  have t: "cr_target ?r \<in> set source_targets" by code_simp
  have v: "values_of ?r = '' docs/./R.md '' # []" by code_simp
  have w: "path_clean (path_clean (trim_space '' docs/./R.md '')) = ''docs/R.md''" by code_simp
  have b: "source_list (cr_target ?r) cfg_settings = [''AGENTS.md'']"
    "source_list (cr_target ?r) (cfg_settings\<lparr>st_rule_files := [''AGENTS.md'', ''docs/R.md'']\<rparr>) = [''AGENTS.md'', ''docs/R.md'']"
    by code_simp+
  have a: "cr_action ?r = ''add''" by simp
  then have "cr_action ?r \<in> {''add'', ''remove'', ''replace''}" by simp
  from mp [OF conjunct1 [OF source_mutation_semantics [OF t m this v, unfolded b w Let_def]] a] m
  show ?thesis unfolding image_set by (simp only: simp_thms)
qed

theorem failed_apply_keeps_configuration_witness:
  "snd (apply_config cfg_env \<lparr>cr_action = ''replace'', cr_target = ''rule_file'', cr_values = Some []\<rparr> cfg_app) =
     Inl (Text ''no rules'') \<and>
   ap_settings (fst (apply_config cfg_env \<lparr>cr_action = ''replace'', cr_target = ''rule_file'', cr_values = Some []\<rparr> cfg_app)) =
     ap_settings cfg_app"
proof -
  let ?r = "\<lparr>cr_action = ''replace'', cr_target = ''rule_file'', cr_values = Some []\<rparr>"
  have e: "snd (apply_config cfg_env ?r cfg_app) = Inl (Text ''no rules'')" by code_simp
  then have p: "apply_config cfg_env ?r cfg_app = (fst (apply_config cfg_env ?r cfg_app), Inl (Text ''no rules''))"
    by (metis prod.collapse)
  have "ae_close cfg_env \<noteq> Some (Text ''no rules'')" by (simp add: cfg_env_def)
  with failed_apply_keeps_configuration [OF p] e show ?thesis by (simp only: simp_thms)
qed

theorem state_directory_outside_workspace_witness:
  "is_ok (build_bundle cfg_env cfg_settings) \<and>
   (\<exists>state. env_realpath cfg_os ''/s'' = Inr state)"
proof -
  have ok: "is_ok (build_bundle cfg_env cfg_settings)" by code_simp
  then obtain r where "build_bundle cfg_env cfg_settings = Inr r" by (auto simp: is_ok_iff)
  moreover have "is_abs (env_cwd (ae_os cfg_env))" by code_simp
  ultimately show ?thesis using state_directory_outside_workspace ok
    by (fastforce simp: cfg_env_def cfg_settings_def)
qed

theorem padded_stop_panics_witness:
  "snd (apply_config cfg_env \<lparr>cr_action = '' stop'', cr_target = ''http_transport'', cr_values = None\<rparr> cfg_app) =
     Inl (Panic ''index out of range'')"
proof -
  have "\<not> ap_blocked cfg_app" by (simp add: cfg_app_def)
  from padded_stop_panics [OF this, of cfg_env] show ?thesis by simp
qed

end
