(* ===== verification/ToolboxClient.thy ===== *)
theory ToolboxClient
  imports GoPrelude
begin

text \<open>
  \<open>internal/toolboxclient/cache.go\<close>: the client-side cache of tool contracts, which keeps the
  bytes of a contract apart from its residency in the model's context. \<open>json_object\<close> tells whether
  a text is a JSON object (\<open>json.Valid\<close> and \<open>json.Unmarshal\<close> into a map that is not nil).
\<close>

record cache_key =
  ck_server :: string
  ck_surface :: string
  ck_toolbox :: string
  ck_operation :: string

record cache_entry =
  ce_handle :: string
  ce_contract :: string
  ce_resident :: bool

type_synonym contract_cache = "(cache_key, cache_entry) gomap"

datatype 'a argument = ArgText string | ArgMap 'a

definition valid_key :: "cache_key \<Rightarrow> bool" where
  "valid_key k \<longleftrightarrow> ck_server k \<noteq> [] \<and> ck_surface k = ''toolbox.v1'' \<and> ck_toolbox k \<noteq> [] \<and>
     ck_operation k \<noteq> []"

definition handle_prefix :: "cache_key \<Rightarrow> string" where
  "handle_prefix k = ''schema:'' @ ck_operation k @ ''@sha256:''"

definition remember ::
    "(string \<Rightarrow> bool) \<Rightarrow> cache_key \<Rightarrow> string \<Rightarrow> string \<Rightarrow> contract_cache \<Rightarrow> contract_cache \<times> (go_error + unit)" where
  "remember json_object k handle contract c =
     (if \<not> valid_key k \<or> \<not> has_prefix handle (handle_prefix k) \<or> contract = [] \<or> \<not> json_object contract
        then (c, Inl (Sentinel ContractInvalid))
      else (map_put k \<lparr>ce_handle = handle, ce_contract = contract, ce_resident = True\<rparr> c, Inr ()))"

definition describe_arguments :: "cache_key \<Rightarrow> contract_cache \<Rightarrow> (string, 'a argument) gomap" where
  "describe_arguments k c =
     (let arguments = [(''action'', ArgText ''describe''), (''operation'', ArgText (ck_operation k))] in
      case map_of c k of
        Some e \<Rightarrow> if ce_resident e
            then map_put ''known_schema_handle'' (ArgText (ce_handle e)) arguments else arguments
      | None \<Rightarrow> arguments)"

definition call_arguments ::
    "cache_key \<Rightarrow> 'a \<Rightarrow> contract_cache \<Rightarrow> go_error + (string, 'a argument) gomap" where
  "call_arguments k arguments c =
     (case map_of c k of
        None \<Rightarrow> Inl (Sentinel ContractMissing)
      | Some e \<Rightarrow> if \<not> ce_resident e then Inl (Sentinel RehydrateRequired)
          else Inr [(''action'', ArgText ''call''), (''operation'', ArgText (ck_operation k)),
                    (''schema_handle'', ArgText (ce_handle e)), (''arguments'', ArgMap arguments)])"

definition compact_contracts :: "contract_cache \<Rightarrow> contract_cache" where
  "compact_contracts c = map (\<lambda>(k, e). (k, e\<lparr>ce_resident := False\<rparr>)) c"

definition rehydrate :: "cache_key \<Rightarrow> contract_cache \<Rightarrow> contract_cache \<times> (go_error + string)" where
  "rehydrate k c =
     (case map_of c k of
        None \<Rightarrow> (c, Inl (Sentinel ContractMissing))
      | Some e \<Rightarrow> (map_put k (e\<lparr>ce_resident := True\<rparr>) c, Inr (ce_contract e)))"

section \<open>Residency\<close>

lemma compact_lookup:
  "map_of (compact_contracts c) k = map_option (\<lambda>e. e\<lparr>ce_resident := False\<rparr>) (map_of c k)"
  by (induction c) (auto simp: compact_contracts_def)

inductive cache_reachable :: "(string \<Rightarrow> bool) \<Rightarrow> contract_cache \<Rightarrow> bool" for json_object where
  empty: "cache_reachable json_object []"
| remember: "cache_reachable json_object c \<Longrightarrow>
    cache_reachable json_object (fst (remember json_object k handle contract c))"
| compact: "cache_reachable json_object c \<Longrightarrow> cache_reachable json_object (compact_contracts c)"
| rehydrate: "cache_reachable json_object c \<Longrightarrow> cache_reachable json_object (fst (rehydrate k c))"

definition entry_ok :: "(string \<Rightarrow> bool) \<Rightarrow> cache_key \<Rightarrow> cache_entry \<Rightarrow> bool" where
  "entry_ok json_object k e \<longleftrightarrow> valid_key k \<and> has_prefix (ce_handle e) (handle_prefix k) \<and>
     json_object (ce_contract e)"

lemma reachable_entries:
  "\<lbrakk>cache_reachable json_object c; map_of c k = Some e\<rbrakk> \<Longrightarrow> entry_ok json_object k e"
proof (induction arbitrary: k e rule: cache_reachable.induct)
  case (remember c k' handle contract)
  then show ?case by (auto simp: remember_def entry_ok_def split: if_splits)
next
  case (compact c)
  then show ?case by (fastforce simp: compact_lookup entry_ok_def)
next
  case (rehydrate c k')
  then show ?case by (fastforce simp: rehydrate_def entry_ok_def split: option.splits if_splits)
qed simp

text \<open>A call is only ever built for a contract that was validated and is resident: the handle
  it carries belongs to the operation called; after a compaction every call is refused until the
  contract is rehydrated, and rehydration returns the bytes that were remembered.\<close>

theorem calls_need_resident_contract:
  assumes "cache_reachable json_object c"
  shows "(\<forall>k arguments m. call_arguments k arguments c = Inr m \<longrightarrow>
       (\<exists>h. map_of m ''schema_handle'' = Some (ArgText h) \<and> has_prefix h (handle_prefix k))) \<and>
    (\<forall>k arguments. \<not> is_ok (call_arguments k arguments (compact_contracts c))) \<and>
    (\<forall>k e. map_of c k = Some e \<longrightarrow>
       snd (rehydrate k (compact_contracts c)) = Inr (ce_contract e) \<and>
       call_arguments k arguments (fst (rehydrate k (compact_contracts c))) =
         call_arguments k arguments (fst (rehydrate k c)) \<and>
       is_ok (call_arguments k arguments (fst (rehydrate k c))))"
  using reachable_entries [OF assms]
  by (auto simp: call_arguments_def compact_lookup rehydrate_def entry_ok_def
      split: option.splits if_splits)

definition demo_key :: cache_key where
  "demo_key = \<lparr>ck_server = ''s'', ck_surface = ''toolbox.v1'', ck_toolbox = ''read'', ck_operation = ''op''\<rparr>"

definition demo_contracts :: contract_cache where
  "demo_contracts = fst (remember (\<lambda>_. True) demo_key ''schema:op@sha256:00'' ''{}'' [])"

theorem calls_need_resident_contract_witness:
  "is_ok (call_arguments demo_key (0::nat) demo_contracts) \<and>
   \<not> is_ok (call_arguments demo_key (0::nat) (compact_contracts demo_contracts)) \<and>
   snd (rehydrate demo_key (compact_contracts demo_contracts)) = Inr ''{}''"
proof -
  have "cache_reachable (\<lambda>_. True) demo_contracts"
    unfolding demo_contracts_def by (intro cache_reachable.intros)
  note c = calls_need_resident_contract [OF this]
  have "map_of demo_contracts demo_key =
      Some \<lparr>ce_handle = ''schema:op@sha256:00'', ce_contract = ''{}'', ce_resident = True\<rparr>" by code_simp
  moreover have "is_ok (call_arguments demo_key (0::nat) demo_contracts)" by code_simp
  ultimately show ?thesis using c by fastforce
qed

end
