(* ===== verification/RecordStore.thy ===== *)
theory RecordStore
  imports GoPrelude "HOL-Library.Char_ord" "HOL-Library.List_Lexorder" "HOL-Library.Product_Lexorder"
begin

text \<open>
  The durable record repository: the contract of \<open>internal/store/store.go\<close> and its SQLite adapter
  \<open>internal/store/sqlite/records.go\<close>. A database is its three tables as lists of rows in insertion
  order; a transaction that fails leaves the tables as they were. The primary keys, the two partial
  unique indexes and the trigger of the schema are checks of the statements that meet them. The JSON
  functions of SQLite are the record \<open>json_env\<close>. Revisions are counted with \<^typ>\<open>nat\<close>: each one is
  a stored row, so the 64-bit column cannot overflow before the table does.
\<close>

section \<open>Rows\<close>

record durable =
  du_id :: string
  du_kind :: string
  du_schema_version :: string
  du_project :: string
  du_workspace :: string
  du_revision :: nat
  du_source :: string
  du_writer_class :: string
  du_validity :: string
  du_created_at :: time
  du_updated_at :: time
  du_payload :: string
  du_evidence :: "string list"
  du_supersedes :: string

record revision =
  rv_record_id :: string
  rv_revision :: nat
  rv_updated_at :: time
  rv_payload :: string
  rv_evidence :: "string list"
  rv_validity :: string
  rv_supersedes :: string

record receipt =
  rc_source_hash :: string
  rc_parser_revision :: string
  rc_record_id :: string
  rc_imported_at :: time

record archive =
  av_records :: "durable list"
  av_revisions :: "revision list"
  av_imports :: "receipt list"

record import_row =
  im_project :: string
  im_workspace :: string
  im_receipt :: receipt

record record_db =
  db_records :: "durable list"
  db_revisions :: "revision list"
  db_imports :: "import_row list"

definition empty_db :: record_db where
  "empty_db = \<lparr>db_records = [], db_revisions = [], db_imports = []\<rparr>"

record record_update =
  ru_project :: string
  ru_workspace :: string
  ru_id :: string
  ru_expected :: nat
  ru_payload :: string
  ru_evidence :: "string list"
  ru_validity :: string
  ru_supersedes :: string

record record_replace =
  rr_project :: string
  rr_workspace :: string
  rr_old_id :: string
  rr_expected :: nat
  rr_new :: durable

text \<open>What SQLite makes of a payload: \<open>json_extract\<close> of a top-level field, the texts of
  \<open>json_tree\<close>, and the well-formedness test of \<open>encoding/json\<close>.\<close>

datatype sql_value = SqlNull | SqlText string | SqlOther string

record json_env =
  jn_valid :: "string \<Rightarrow> bool"
  jn_extract :: "string \<Rightarrow> string \<Rightarrow> sql_value"
  jn_texts :: "string \<Rightarrow> string list"

definition conflict :: go_error where "conflict = Sentinel StoreConflict"

section \<open>Indexes and trigger\<close>

type_synonym topic_slot = "string \<times> string \<times> sql_value \<times> sql_value \<times> sql_value"

definition topic_slot :: "json_env \<Rightarrow> durable \<Rightarrow> topic_slot option" where
  "topic_slot j r =
     (if du_kind r = ''memo'' \<and> du_validity r = ''current'' then
        (case jn_extract j ''topic_key'' (du_payload r) of
           SqlText t \<Rightarrow> if t \<noteq> [] then
               Some (du_project r, du_workspace r, jn_extract j ''scope'' (du_payload r),
                     jn_extract j ''configuration'' (du_payload r), SqlText t) else None
         | _ \<Rightarrow> None)
      else None)"

definition successor_slot :: "durable \<Rightarrow> (string \<times> string \<times> string) option" where
  "successor_slot r =
     (if du_kind r = ''memo'' \<and> du_supersedes r \<noteq> []
      then Some (du_project r, du_workspace r, du_supersedes r) else None)"

text \<open>A null column never violates a unique index.\<close>

definition slot_unique :: "topic_slot \<Rightarrow> bool" where
  "slot_unique s = (case s of (_, _, scope, configuration, _) \<Rightarrow> scope \<noteq> SqlNull \<and> configuration \<noteq> SqlNull)"

definition collides :: "json_env \<Rightarrow> durable \<Rightarrow> durable \<Rightarrow> bool" where
  "collides j r r' \<longleftrightarrow>
     (\<exists>s \<in> set_option (topic_slot j r). slot_unique s \<and> topic_slot j r' = Some s) \<or>
     (\<exists>s \<in> set_option (successor_slot r). successor_slot r' = Some s)"

definition coalesce :: "sql_value \<Rightarrow> sql_value" where
  "coalesce v = (case v of SqlNull \<Rightarrow> SqlText [] | _ \<Rightarrow> v)"

definition topic_trigger :: "json_env \<Rightarrow> durable \<Rightarrow> durable \<Rightarrow> bool" where
  "topic_trigger j old new \<longleftrightarrow>
     du_kind old = ''memo'' \<and> du_validity old = ''current'' \<and> du_validity new = ''current'' \<and>
     (let f = (\<lambda>field r. coalesce (jn_extract j field (du_payload r))) in
      f ''topic_key'' old \<noteq> f ''topic_key'' new \<or>
      (f ''topic_key'' old \<noteq> SqlText [] \<and>
       (f ''scope'' old \<noteq> f ''scope'' new \<or> f ''configuration'' old \<noteq> f ''configuration'' new)))"

section \<open>Statements\<close>

definition owned :: "string \<Rightarrow> string \<Rightarrow> durable \<Rightarrow> bool" where
  "owned p w r \<longleftrightarrow> du_project r = p \<and> du_workspace r = w"

definition get_record :: "string \<Rightarrow> string \<Rightarrow> string \<Rightarrow> record_db \<Rightarrow> go_error + durable" where
  "get_record p w i db =
     (case find (\<lambda>r. owned p w r \<and> du_id r = i) (db_records db) of
        None \<Rightarrow> Inl (Sentinel StoreNotFound)
      | Some r \<Rightarrow> Inr r)"

definition sql_insert_record :: "json_env \<Rightarrow> durable \<Rightarrow> record_db \<Rightarrow> go_error + record_db" where
  "sql_insert_record j r db =
     (if list_ex (\<lambda>x. du_id x = du_id r \<or> collides j r x) (db_records db)
      then Inl (Text ''UNIQUE constraint failed'')
      else Inr (db\<lparr>db_records := db_records db @ [r]\<rparr>))"

definition sql_insert_revision :: "revision \<Rightarrow> record_db \<Rightarrow> go_error + record_db" where
  "sql_insert_revision v db =
     (if list_ex (\<lambda>x. rv_record_id x = rv_record_id v \<and> rv_revision x = rv_revision v) (db_revisions db)
      then Inl (Text ''UNIQUE constraint failed'')
      else if \<not> list_ex (\<lambda>r. du_id r = rv_record_id v) (db_records db)
      then Inl (Text ''FOREIGN KEY constraint failed'')
      else Inr (db\<lparr>db_revisions := db_revisions db @ [v]\<rparr>))"

definition sql_insert_import :: "import_row \<Rightarrow> record_db \<Rightarrow> go_error + record_db" where
  "sql_insert_import row db =
     (if list_ex (\<lambda>x. im_project x = im_project row \<and> im_workspace x = im_workspace row \<and>
           rc_source_hash (im_receipt x) = rc_source_hash (im_receipt row) \<and>
           rc_parser_revision (im_receipt x) = rc_parser_revision (im_receipt row)) (db_imports db)
      then Inl (Text ''UNIQUE constraint failed'')
      else if \<not> list_ex (\<lambda>r. du_id r = rc_record_id (im_receipt row)) (db_records db)
      then Inl (Text ''FOREIGN KEY constraint failed'')
      else Inr (db\<lparr>db_imports := db_imports db @ [row]\<rparr>))"

definition replace_row :: "durable \<Rightarrow> record_db \<Rightarrow> record_db" where
  "replace_row r db = db\<lparr>db_records := map (\<lambda>x. if du_id x = du_id r then r else x) (db_records db)\<rparr>"

text \<open>An update of one row by primary key; only an assignment to the payload fires the trigger.\<close>

definition sql_update_record ::
    "json_env \<Rightarrow> bool \<Rightarrow> durable \<Rightarrow> durable \<Rightarrow> record_db \<Rightarrow> go_error + record_db" where
  "sql_update_record j sets_payload old r db =
     (if sets_payload \<and> topic_trigger j old r then Inl (Text ''memo topic identity is immutable'')
      else if list_ex (\<lambda>x. du_id x \<noteq> du_id r \<and> collides j r x) (db_records db)
      then Inl (Text ''UNIQUE constraint failed'')
      else Inr (replace_row r db))"

definition revision_of :: "durable \<Rightarrow> revision" where
  "revision_of r = \<lparr>rv_record_id = du_id r, rv_revision = du_revision r, rv_updated_at = du_updated_at r,
     rv_payload = du_payload r, rv_evidence = du_evidence r, rv_validity = du_validity r,
     rv_supersedes = du_supersedes r\<rparr>"

definition prefix_error :: "string \<Rightarrow> (go_error + 'a) \<Rightarrow> go_error + 'a" where
  "prefix_error msg r = (case r of Inl e \<Rightarrow> Inl (Wrap msg e) | Inr x \<Rightarrow> Inr x)"

section \<open>Operations of the repository\<close>

definition payload_ok :: "json_env \<Rightarrow> string \<Rightarrow> string list \<Rightarrow> bool" where
  "payload_ok j payload evidence \<longleftrightarrow> jn_valid j payload \<and> int (length payload) \<le> 64 * 1024 \<and> int (length evidence) \<le> 128"

definition validate_record :: "json_env \<Rightarrow> durable \<Rightarrow> go_error + unit" where
  "validate_record j r =
     (if du_id r = [] \<or> du_kind r = [] \<or> du_schema_version r = [] \<or> du_project r = [] \<or>
         du_workspace r = [] \<or> du_revision r \<noteq> 1 \<or> du_source r = [] \<or> du_writer_class r = [] \<or>
         du_validity r = [] \<or> is_zero_time (du_created_at r) \<or> is_zero_time (du_updated_at r) \<or>
         \<not> payload_ok j (du_payload r) (du_evidence r)
      then Inl conflict else Inr ())"

definition insert_record :: "json_env \<Rightarrow> durable \<Rightarrow> record_db \<Rightarrow> go_error + record_db" where
  "insert_record j r db =
     try_then (validate_record j r) (\<lambda>_.
     case sql_insert_record j r db of
       Inl e \<Rightarrow> Inl (Wrap ''insert durable record: '' conflict)
     | Inr db1 \<Rightarrow> prefix_error ''insert initial record revision: '' (sql_insert_revision (revision_of r) db1))"

text \<open>A writing operation returns its result and the database; the failed transaction is rolled
  back.\<close>

definition transact :: "record_db \<Rightarrow> (go_error + ('a \<times> record_db)) \<Rightarrow> record_db \<times> (go_error + 'a)" where
  "transact db r = (case r of Inl e \<Rightarrow> (db, Inl e) | Inr (x, db') \<Rightarrow> (db', Inr x))"

definition create_record :: "json_env \<Rightarrow> durable \<Rightarrow> record_db \<Rightarrow> record_db \<times> (go_error + durable)" where
  "create_record j r db = transact db (try_then (insert_record j r db) (\<lambda>db'. Inr (r, db')))"

definition create_checkpoint :: "json_env \<Rightarrow> durable \<Rightarrow> record_db \<Rightarrow> record_db \<times> (go_error + durable)" where
  "create_checkpoint j r db =
     (if du_kind r \<noteq> ''checkpoint'' \<or> du_writer_class r \<noteq> ''intention'' then (db, Inl conflict)
      else create_record j r db)"

definition create_memo :: "json_env \<Rightarrow> durable \<Rightarrow> record_db \<Rightarrow> record_db \<times> (go_error + durable)" where
  "create_memo j r db =
     (if du_kind r \<noteq> ''memo'' \<or> du_writer_class r \<noteq> ''intention'' then (db, Inl conflict)
      else create_record j r db)"

definition observation_kind :: "string \<Rightarrow> bool" where
  "observation_kind kind \<longleftrightarrow> kind = ''environment'' \<or> kind = ''run'' \<or> kind = ''artifact''"

definition create_observation :: "json_env \<Rightarrow> durable \<Rightarrow> record_db \<Rightarrow> record_db \<times> (go_error + durable)" where
  "create_observation j r db =
     (if \<not> observation_kind (du_kind r) \<or> du_writer_class r \<noteq> ''server'' \<or> du_source r \<noteq> ''observed''
      then (db, Inl conflict) else create_record j r db)"

definition updated_record :: "time \<Rightarrow> record_update \<Rightarrow> durable \<Rightarrow> durable" where
  "updated_record now u r = r\<lparr>du_revision := Suc (du_revision r), du_updated_at := now,
     du_payload := ru_payload u, du_evidence := ru_evidence u, du_validity := ru_validity u,
     du_supersedes := ru_supersedes u\<rparr>"

definition update_guard :: "json_env \<Rightarrow> record_update \<Rightarrow> bool" where
  "update_guard j u \<longleftrightarrow> ru_project u \<noteq> [] \<and> ru_workspace u \<noteq> [] \<and> ru_id u \<noteq> [] \<and> ru_expected u \<noteq> 0 \<and>
     ru_validity u \<noteq> [] \<and> payload_ok j (ru_payload u) (ru_evidence u)"

definition update_tx ::
    "json_env \<Rightarrow> time \<Rightarrow> string \<Rightarrow> record_update \<Rightarrow> record_db \<Rightarrow> go_error + (durable \<times> record_db)" where
  "update_tx j now kind u db =
     try_then (get_record (ru_project u) (ru_workspace u) (ru_id u) db) (\<lambda>current.
     if du_kind current \<noteq> kind \<or> du_revision current \<noteq> ru_expected u then Inl conflict
     else let new = updated_record now u current in
       case sql_update_record j True current new db of
         Inl e \<Rightarrow> (if e = Text ''memo topic identity is immutable''
             then Inl (Wrap ''update durable record: memo topic identity is immutable'' conflict)
             else Inl (Wrap ''update durable record: '' e))
       | Inr db1 \<Rightarrow> try_then (prefix_error ''insert durable record revision: ''
             (sql_insert_revision (revision_of new) db1)) (\<lambda>db2. Inr (new, db2)))"

definition update_record ::
    "json_env \<Rightarrow> time \<Rightarrow> string \<Rightarrow> record_update \<Rightarrow> record_db \<Rightarrow> record_db \<times> (go_error + durable)" where
  "update_record j now kind u db =
     (if \<not> update_guard j u then (db, Inl conflict) else transact db (update_tx j now kind u db))"

definition update_observation ::
    "json_env \<Rightarrow> time \<Rightarrow> string \<Rightarrow> record_update \<Rightarrow> record_db \<Rightarrow> record_db \<times> (go_error + durable)" where
  "update_observation j now kind u db =
     (if \<not> observation_kind kind then (db, Inl conflict) else update_record j now kind u db)"

definition superseded_record :: "durable \<Rightarrow> durable \<Rightarrow> durable" where
  "superseded_record new old = old\<lparr>du_revision := Suc (du_revision old),
     du_updated_at := du_created_at new, du_validity := ''superseded''\<rparr>"

definition replace_tx :: "json_env \<Rightarrow> record_replace \<Rightarrow> record_db \<Rightarrow> go_error + (durable \<times> record_db)" where
  "replace_tx j q db =
     try_then (validate_record j (rr_new q)) (\<lambda>_.
     try_then (get_record (rr_project q) (rr_workspace q) (rr_old_id q) db) (\<lambda>old.
     if du_kind old \<noteq> ''memo'' \<or> du_validity old \<noteq> ''current'' \<or> du_revision old \<noteq> rr_expected q
       then Inl conflict
     else let old' = superseded_record (rr_new q) old in
       try_then (prefix_error ''supersede replaced memo: '' (sql_update_record j False old old' db)) (\<lambda>db1.
       try_then (prefix_error ''record replaced memo revision: ''
         (sql_insert_revision (revision_of old') db1)) (\<lambda>db2.
       try_then (insert_record j (rr_new q) db2) (\<lambda>db3. Inr (rr_new q, db3))))))"

definition replace_memo :: "json_env \<Rightarrow> record_replace \<Rightarrow> record_db \<Rightarrow> record_db \<times> (go_error + durable)" where
  "replace_memo j q db =
     (if rr_project q = [] \<or> rr_workspace q = [] \<or> rr_old_id q = [] \<or> rr_expected q = 0 \<or>
         du_kind (rr_new q) \<noteq> ''memo'' \<or> du_supersedes (rr_new q) \<noteq> rr_old_id q \<or>
         du_project (rr_new q) \<noteq> rr_project q \<or> du_workspace (rr_new q) \<noteq> rr_workspace q
      then (db, Inl conflict) else transact db (replace_tx j q db))"

definition find_import :: "string \<Rightarrow> string \<Rightarrow> string \<Rightarrow> string \<Rightarrow> record_db \<Rightarrow> import_row option" where
  "find_import p w hash parser db =
     find (\<lambda>x. im_project x = p \<and> im_workspace x = w \<and> rc_source_hash (im_receipt x) = hash \<and>
       rc_parser_revision (im_receipt x) = parser) (db_imports db)"

definition import_tx ::
    "json_env \<Rightarrow> time \<Rightarrow> durable \<Rightarrow> string \<Rightarrow> string \<Rightarrow> record_db \<Rightarrow> go_error + ((durable \<times> bool) \<times> record_db)" where
  "import_tx j now r hash parser db =
     (case find_import (du_project r) (du_workspace r) hash parser db of
        Some row \<Rightarrow> try_then (get_record (du_project r) (du_workspace r) (rc_record_id (im_receipt row)) db)
          (\<lambda>old. Inr ((old, True), db))
      | None \<Rightarrow> try_then (insert_record j r db) (\<lambda>db1.
          try_then (prefix_error ''insert report import receipt: '' (sql_insert_import
            \<lparr>im_project = du_project r, im_workspace = du_workspace r,
             im_receipt = \<lparr>rc_source_hash = hash, rc_parser_revision = parser,
               rc_record_id = du_id r, rc_imported_at = now\<rparr>\<rparr> db1)) (\<lambda>db2. Inr ((r, False), db2))))"

definition import_verification ::
    "json_env \<Rightarrow> time \<Rightarrow> durable \<Rightarrow> string \<Rightarrow> string \<Rightarrow> record_db \<Rightarrow> record_db \<times> (go_error + (durable \<times> bool))" where
  "import_verification j now r hash parser db =
     (if du_kind r \<noteq> ''verification'' \<or> du_writer_class r \<noteq> ''importer'' \<or> hash = [] \<or> parser = []
      then (db, Inl conflict) else transact db (import_tx j now r hash parser db))"


section \<open>Queries\<close>

record record_query =
  rq_project :: string
  rq_workspace :: string
  rq_kind :: string
  rq_validity :: string
  rq_source :: string
  rq_updated_after :: time
  rq_updated_before :: time
  rq_topic_key :: string
  rq_scope :: string
  rq_configuration :: string
  rq_supersedes :: string
  rq_terms :: "string list"
  rq_match_all :: bool
  rq_limit :: nat

record record_page =
  pg_records :: "durable list"
  pg_matched :: nat
  pg_complete :: bool

definition column_filter :: "string \<Rightarrow> string \<Rightarrow> bool" where
  "column_filter wanted actual \<longleftrightarrow> wanted = [] \<or> actual = wanted"

definition json_filter :: "json_env \<Rightarrow> string \<Rightarrow> string \<Rightarrow> durable \<Rightarrow> bool" where
  "json_filter j field wanted r \<longleftrightarrow> wanted = [] \<or> jn_extract j field (du_payload r) = SqlText wanted"

definition base_match :: "json_env \<Rightarrow> record_query \<Rightarrow> durable \<Rightarrow> bool" where
  "base_match j q r \<longleftrightarrow> owned (rq_project q) (rq_workspace q) r \<and>
     column_filter (rq_kind q) (du_kind r) \<and> column_filter (rq_validity q) (du_validity r) \<and>
     column_filter (rq_source q) (du_source r) \<and> column_filter (rq_supersedes q) (du_supersedes r) \<and>
     (is_zero_time (rq_updated_after q) \<or> rq_updated_after q \<le> du_updated_at r) \<and>
     (is_zero_time (rq_updated_before q) \<or> du_updated_at r < rq_updated_before q) \<and>
     json_filter j ''topic_key'' (rq_topic_key q) r \<and> json_filter j ''scope'' (rq_scope q) r \<and>
     json_filter j ''configuration'' (rq_configuration q) r"

text \<open>SQLite's \<open>lower\<close> folds ASCII only; the terms were folded by \<open>strings.ToLower\<close>, the argument
  \<open>lower\<close>.\<close>

definition sql_lower :: "string \<Rightarrow> string" where
  "sql_lower s = map (\<lambda>c. if between 65 90 c then char_of (byte c + 32) else c) s"

definition metadata_text :: "durable \<Rightarrow> string" where
  "metadata_text r = sql_lower (du_id r @ '' '' @ du_kind r @ '' '' @ du_schema_version r @ '' '' @ du_source r)"

definition payload_match :: "json_env \<Rightarrow> string \<Rightarrow> durable \<Rightarrow> bool" where
  "payload_match j term r \<longleftrightarrow> list_ex (\<lambda>t. contains_str (sql_lower t) term) (jn_texts j (du_payload r))"

definition term_match :: "json_env \<Rightarrow> durable \<Rightarrow> string \<Rightarrow> bool" where
  "term_match j r term \<longleftrightarrow> contains_str (metadata_text r) term \<or> payload_match j term r"

definition term_score :: "json_env \<Rightarrow> durable \<Rightarrow> string \<Rightarrow> nat" where
  "term_score j r term =
     (if contains_str (sql_lower (du_id r)) term then 8
      else if contains_str (metadata_text r) term then 4
      else if payload_match j term r then 1 else 0)"

definition terms_match :: "json_env \<Rightarrow> record_query \<Rightarrow> string list \<Rightarrow> durable \<Rightarrow> bool" where
  "terms_match j q terms r \<longleftrightarrow> terms = [] \<or>
     (if rq_match_all q then list_all (term_match j r) terms else list_ex (term_match j r) terms)"

type_synonym query_rank = "int \<times> int \<times> int \<times> int \<times> string"

definition query_rank :: "json_env \<Rightarrow> string list \<Rightarrow> durable \<Rightarrow> query_rank" where
  "query_rank j terms r =
     (if terms = [] then (0, 0, 0, - du_updated_at r, du_id r)
      else ((if du_validity r = ''current'' then - 1 else 0),
            - int (length (filter (term_match j r) terms)),
            - int (sum_list (map (term_score j r) terms)), - du_updated_at r, du_id r))"

definition query_terms :: "(string \<Rightarrow> string) \<Rightarrow> record_query \<Rightarrow> string list" where
  "query_terms lower q = map (\<lambda>t. lower (trim_space t)) (rq_terms q)"

definition query_conflict :: go_error where
  "query_conflict = Wrap ''query durable records: '' conflict"

definition query_records ::
    "(string \<Rightarrow> string) \<Rightarrow> json_env \<Rightarrow> record_query \<Rightarrow> record_db \<Rightarrow> go_error + record_page" where
  "query_records lower j q db =
     (if rq_project q = [] \<or> rq_workspace q = [] \<or> rq_limit q = 0 \<or> 10000 < int (rq_limit q) \<or>
         16 < length (rq_terms q) then Inl query_conflict
      else let terms = query_terms lower q in
        if list_ex (\<lambda>t. t = [] \<or> 128 < int (length t)) terms then Inl query_conflict
        else let found = filter (\<lambda>r. base_match j q r \<and> terms_match j q terms r) (db_records db) in
          Inr \<lparr>pg_records = take (rq_limit q) (sort_key (query_rank j terms) found),
               pg_matched = length found, pg_complete = (length found \<le> rq_limit q)\<rparr>)"

section \<open>Export and restore\<close>

definition belongs :: "string \<Rightarrow> string \<Rightarrow> record_db \<Rightarrow> string \<Rightarrow> bool" where
  "belongs p w db i \<longleftrightarrow> list_ex (\<lambda>r. owned p w r \<and> du_id r = i) (db_records db)"

definition exported_records :: "string \<Rightarrow> string \<Rightarrow> record_db \<Rightarrow> durable list" where
  "exported_records p w db = sort_key du_id (filter (owned p w) (db_records db))"

definition exported_revisions :: "string \<Rightarrow> string \<Rightarrow> record_db \<Rightarrow> revision list" where
  "exported_revisions p w db = sort_key (\<lambda>v. (rv_record_id v, rv_revision v))
     (filter (\<lambda>v. belongs p w db (rv_record_id v)) (db_revisions db))"

definition exported_imports :: "string \<Rightarrow> string \<Rightarrow> record_db \<Rightarrow> receipt list" where
  "exported_imports p w db = sort_key (\<lambda>c. (rc_source_hash c, rc_parser_revision c))
     (map im_receipt (filter (\<lambda>x. im_project x = p \<and> im_workspace x = w) (db_imports db)))"

definition archive_size :: "archive \<Rightarrow> nat" where
  "archive_size a = length (av_records a) + length (av_revisions a) + length (av_imports a)"

definition export_records :: "string \<Rightarrow> string \<Rightarrow> nat \<Rightarrow> record_db \<Rightarrow> go_error + archive" where
  "export_records p w limit db =
     (if p = [] \<or> w = [] \<or> limit = 0 \<or> 100000 < int limit then Inl conflict
      else let a = \<lparr>av_records = exported_records p w db, av_revisions = exported_revisions p w db,
                    av_imports = exported_imports p w db\<rparr>
        in if limit < archive_size a
             then Inl (Wrap ''durable record export exceeds item limit: '' conflict)
           else Inr a)"

text \<open>\<open>validateRecordArchive\<close>: records, then revisions, then the histories, then the receipts.\<close>

definition restore_error :: "string \<Rightarrow> go_error" where
  "restore_error msg = Wrap msg conflict"

definition archive_record_bad :: "json_env \<Rightarrow> durable \<Rightarrow> bool" where
  "archive_record_bad j r \<longleftrightarrow> du_id r = [] \<or> du_kind r = [] \<or> du_schema_version r = [] \<or>
     du_project r = [] \<or> du_workspace r = [] \<or> du_revision r = 0 \<or> du_source r = [] \<or>
     du_writer_class r = [] \<or> du_validity r = [] \<or> is_zero_time (du_created_at r) \<or>
     is_zero_time (du_updated_at r) \<or> \<not> payload_ok j (du_payload r) (du_evidence r)"

fun check_archive_records ::
    "json_env \<Rightarrow> (string \<times> string) option \<Rightarrow> string list \<Rightarrow> durable list \<Rightarrow> go_error + unit" where
  "check_archive_records j owner seen [] = Inr ()"
| "check_archive_records j owner seen (r # rs) =
     (let own = (case owner of None \<Rightarrow> (du_project r, du_workspace r) | Some x \<Rightarrow> x) in
      if archive_record_bad j r then Inl (restore_error ''restore record is invalid: '')
      else if (du_project r, du_workspace r) \<noteq> own
        then Inl (restore_error ''restore archive has mixed ownership: '')
      else if du_id r \<in> set seen then Inl (restore_error ''restore record ID is duplicated: '')
      else check_archive_records j (Some own) (du_id r # seen) rs)"

definition archive_revision_bad :: "json_env \<Rightarrow> string list \<Rightarrow> revision \<Rightarrow> bool" where
  "archive_revision_bad j ids v \<longleftrightarrow> rv_record_id v \<notin> set ids \<or> rv_revision v = 0 \<or>
     is_zero_time (rv_updated_at v) \<or> \<not> payload_ok j (rv_payload v) (rv_evidence v) \<or> rv_validity v = []"

fun check_archive_revisions ::
    "json_env \<Rightarrow> string list \<Rightarrow> (string \<times> nat) list \<Rightarrow> revision list \<Rightarrow> go_error + unit" where
  "check_archive_revisions j ids seen [] = Inr ()"
| "check_archive_revisions j ids seen (v # vs) =
     (if archive_revision_bad j ids v then Inl (restore_error ''restore revision is invalid: '')
      else if (rv_record_id v, rv_revision v) \<in> set seen
        then Inl (restore_error ''restore revision is duplicated: '')
      else check_archive_revisions j ids ((rv_record_id v, rv_revision v) # seen) vs)"

definition by_number :: "revision list \<Rightarrow> string \<Rightarrow> nat \<Rightarrow> revision option" where
  "by_number vs i n = find (\<lambda>v. rv_record_id v = i \<and> rv_revision v = n) vs"

definition history_bad :: "revision list \<Rightarrow> durable \<Rightarrow> bool" where
  "history_bad vs r \<longleftrightarrow>
     length (filter (\<lambda>v. rv_record_id v = du_id r) vs) \<noteq> du_revision r \<or>
     list_ex (\<lambda>n. by_number vs (du_id r) n = None) [1..<Suc (du_revision r)]"

definition latest_differs :: "revision list \<Rightarrow> durable \<Rightarrow> bool" where
  "latest_differs vs r \<longleftrightarrow>
     (case by_number vs (du_id r) (du_revision r) of
        None \<Rightarrow> True
      | Some v \<Rightarrow> rv_updated_at v \<noteq> du_updated_at r \<or> rv_payload v \<noteq> du_payload r \<or>
          rv_validity v \<noteq> du_validity r \<or> rv_supersedes v \<noteq> du_supersedes r \<or>
          rv_evidence v \<noteq> du_evidence r)"

definition history_checks :: "archive \<Rightarrow> (bool \<times> go_error) list" where
  "history_checks a = concat (map (\<lambda>r.
     [(history_bad (av_revisions a) r, restore_error ''restore revision history is incomplete: ''),
      (latest_differs (av_revisions a) r,
       restore_error ''restore current record disagrees with revision history: '')]) (av_records a))"

definition receipt_bad :: "durable list \<Rightarrow> receipt \<Rightarrow> bool" where
  "receipt_bad rs c \<longleftrightarrow>
     (case find (\<lambda>r. du_id r = rc_record_id c) rs of
        None \<Rightarrow> True
      | Some r \<Rightarrow> du_kind r \<noteq> ''verification'' \<or> rc_source_hash c = [] \<or> rc_parser_revision c = [] \<or>
          is_zero_time (rc_imported_at c))"

definition validate_archive :: "json_env \<Rightarrow> archive \<Rightarrow> go_error + unit" where
  "validate_archive j a =
     try_then (check_archive_records j None [] (av_records a)) (\<lambda>_.
     try_then (check_archive_revisions j (map du_id (av_records a)) [] (av_revisions a)) (\<lambda>_.
     try_then (check_all (history_checks a)) (\<lambda>_.
     check_all (map (\<lambda>c. (receipt_bad (av_records a) c,
       restore_error ''restore report receipt is invalid: '')) (av_imports a)))))"

fun each :: "('a \<Rightarrow> 's \<Rightarrow> go_error + 's) \<Rightarrow> 'a list \<Rightarrow> 's \<Rightarrow> go_error + 's" where
  "each f [] s = Inr s"
| "each f (x # xs) s = try_then (f x s) (each f xs)"

definition rebase :: "string \<Rightarrow> string \<Rightarrow> durable \<Rightarrow> durable" where
  "rebase p w r = r\<lparr>du_project := p, du_workspace := w\<rparr>"

definition restore_revision :: "json_env \<Rightarrow> string list \<Rightarrow> revision \<Rightarrow> record_db \<Rightarrow> go_error + record_db" where
  "restore_revision j ids v db =
     (if archive_revision_bad j ids v then Inl (restore_error ''restore revision is invalid: '')
      else prefix_error ''restore durable revision: '' (sql_insert_revision v db))"

definition restore_receipt ::
    "string \<Rightarrow> string \<Rightarrow> string list \<Rightarrow> receipt \<Rightarrow> record_db \<Rightarrow> go_error + record_db" where
  "restore_receipt p w ids c db =
     (if rc_record_id c \<notin> set ids \<or> rc_source_hash c = [] \<or> rc_parser_revision c = [] \<or>
         is_zero_time (rc_imported_at c)
      then Inl (restore_error ''restore report receipt is invalid: '')
      else prefix_error ''restore report receipt: ''
        (sql_insert_import \<lparr>im_project = p, im_workspace = w, im_receipt = c\<rparr> db))"

definition restore_tx :: "json_env \<Rightarrow> string \<Rightarrow> string \<Rightarrow> archive \<Rightarrow> record_db \<Rightarrow> go_error + record_db" where
  "restore_tx j p w a db =
     (if list_ex (owned p w) (db_records db)
      then Inl (restore_error ''restore target already has durable records: '')
      else let ids = map du_id (av_records a) in
        try_then (each (\<lambda>r db. prefix_error ''restore durable record: ''
          (sql_insert_record j (rebase p w r) db)) (av_records a) db) (\<lambda>db1.
        try_then (each (restore_revision j ids) (av_revisions a) db1) (\<lambda>db2.
        each (restore_receipt p w ids) (av_imports a) db2)))"

definition restore_records ::
    "json_env \<Rightarrow> string \<Rightarrow> string \<Rightarrow> archive \<Rightarrow> record_db \<Rightarrow> record_db \<times> (go_error + unit)" where
  "restore_records j p w a db =
     (if p = [] \<or> w = [] \<or> 100000 < int (archive_size a) then (db, Inl conflict)
      else case validate_archive j a of
          Inl e \<Rightarrow> (db, Inl e)
        | Inr _ \<Rightarrow> transact db (try_then (restore_tx j p w a db) (\<lambda>db'. Inr ((), db'))))"

end
