(* ===== verification/RecordRequests.thy ===== *)
theory RecordRequests
  imports RecordStore
begin

text \<open>
  The write requests of \<open>internal/records/service.go\<close> and \<open>update.go\<close>: their validation, their JSON
  forms, and the merge of a partial update into the stored payload. Object keys are matched exactly
  (\<open>encoding/json\<close> would also fold their case); times are parsed and printed by \<open>time_env\<close>.
\<close>

section \<open>Requests\<close>

record host_fact =
  hf_alias :: string
  hf_role :: string
  hf_os :: string
  hf_tier :: string
  hf_services :: "string list"
  hf_paths :: "string list"
  hf_confirmed_at :: string

text \<open>A slice is \<open>None\<close> when it is nil; \<open>present\<close> holds the fields of a wire request.\<close>

record memo_request =
  mq_present :: "(string, json) gomap"
  mq_mode :: string
  mq_id :: string
  mq_expected :: nat
  mq_supersedes :: string
  mq_kind :: string
  mq_scope :: string
  mq_configuration :: string
  mq_topic_key :: string
  mq_title :: string
  mq_summary :: string
  mq_temporal_kind :: string
  mq_as_of :: string
  mq_content :: string
  mq_host :: "host_fact option"
  mq_invalidation :: string
  mq_source :: string
  mq_evidence :: "string list option"
  mq_view :: string

record checkpoint_request =
  cq_present :: "(string, json) gomap"
  cq_mode :: string
  cq_id :: string
  cq_expected :: nat
  cq_goal :: string
  cq_baseline :: string
  cq_dirty :: "bool option"
  cq_run_refs :: "string list option"
  cq_remaining :: "string list option"
  cq_next_action :: string
  cq_change_summary :: string
  cq_background :: "string list option"
  cq_risks :: "string list option"
  cq_evidence :: "string list option"
  cq_view :: string

record time_env =
  te_parse :: "string \<Rightarrow> time option"
  te_format :: "time \<Rightarrow> string"

definition non_nil :: "'a list option \<Rightarrow> 'a list" where
  "non_nil xs = (case xs of None \<Rightarrow> [] | Some ys \<Rightarrow> ys)"

definition maximumRecordPayload :: int where "maximumRecordPayload = 64 * 1024"

definition invalid_argument :: "go_error \<Rightarrow> go_error" where
  "invalid_argument e = Join (Sentinel RecordsInvalidArgument) e"

definition record_limit_error :: "string \<Rightarrow> string \<Rightarrow> go_error" where
  "record_limit_error field reason = Join (Sentinel ErrLimitExceeded) (Validation field reason)"

section \<open>Validation\<close>

text \<open>\<open>^[first][rest]{0,n}$\<close>.\<close>

definition pattern_ok :: "(char \<Rightarrow> bool) \<Rightarrow> (char \<Rightarrow> bool) \<Rightarrow> nat \<Rightarrow> string \<Rightarrow> bool" where
  "pattern_ok first rest n s = (case s of [] \<Rightarrow> False | c # cs \<Rightarrow> first c \<and> length cs \<le> n \<and> list_all rest cs)"

definition lower_digit :: "char \<Rightarrow> bool" where
  "lower_digit c \<longleftrightarrow> between 97 122 c \<or> between 48 57 c"

definition host_alias_pattern :: "string \<Rightarrow> bool" where
  "host_alias_pattern = pattern_ok (\<lambda>c. lower_digit c \<or> between 65 90 c)
     (\<lambda>c. lower_digit c \<or> between 65 90 c \<or> c \<in> set ''._-'') 127"

definition topic_key_pattern :: "string \<Rightarrow> bool" where
  "topic_key_pattern = pattern_ok lower_digit (\<lambda>c. lower_digit c \<or> c \<in> set ''._/-'') 127"

definition git_commit_pattern :: "string \<Rightarrow> bool" where
  "git_commit_pattern s \<longleftrightarrow> (length s = 40 \<or> length s = 64) \<and> list_all (\<lambda>c. between 48 57 c \<or> between 97 102 c) s"

definition checklist_id_pattern :: "string \<Rightarrow> bool" where
  "checklist_id_pattern = pattern_ok lower_digit (\<lambda>c. lower_digit c \<or> c \<in> set ''._-'') 127"

definition validate_response_view :: "string \<Rightarrow> go_error + unit" where
  "validate_response_view view =
     (if List.member [[], ''full'', ''receipt''] view then Inr () else Inl (Text ''response_view must be full or receipt''))"

fun validate_refs :: "string \<Rightarrow> nat \<Rightarrow> string list \<Rightarrow> go_error + unit" where
  "validate_refs kind i [] = Inr ()"
| "validate_refs kind i (r # rs) =
     (if 1024 < int (length r)
      then Inl (Validation (kind @ '' references['' @ itoa i @ '']'')
        (''is '' @ itoa (length r) @ '' UTF-8 bytes; maximum is 1024 bytes''))
      else validate_refs kind (Suc i) rs)"

definition validate_text_and_refs :: "string \<Rightarrow> string \<Rightarrow> string list \<Rightarrow> go_error + unit" where
  "validate_text_and_refs kind body refs =
     (if 32 * 1024 < int (length body)
      then Inl (Validation (kind @ '' text'')
        (''is '' @ itoa (length body) @ '' UTF-8 bytes across fields; maximum is 32768 bytes''))
      else if 128 < int (length refs)
      then Inl (Validation (kind @ '' references'') (''have '' @ itoa (length refs) @ '' entries; maximum is 128''))
      else validate_refs kind 0 refs)"

fun validate_host_strings :: "(string \<Rightarrow> string) \<Rightarrow> string \<Rightarrow> nat \<Rightarrow> string list \<Rightarrow> string list \<Rightarrow> go_error + unit" where
  "validate_host_strings lower field i seen [] = Inr ()"
| "validate_host_strings lower field i seen (v # vs) =
     (let at = field @ ''['' @ itoa i @ '']''
      in if trim_space v \<noteq> v \<or> v = []
         then Inl (Validation at ''must be a non-empty string without surrounding whitespace'')
         else if 1024 < int (rune_count v)
         then Inl (Validation at (''has '' @ itoa (rune_count v) @ '' characters; maximum is 1024''))
         else if List.member seen (lower v) then Inl (Validation field ''must not contain duplicate entries'')
         else validate_host_strings lower field (Suc i) (lower v # seen) vs)"

definition validate_host_list :: "(string \<Rightarrow> string) \<Rightarrow> string \<Rightarrow> string list \<Rightarrow> go_error + unit" where
  "validate_host_list lower field vs =
     (if 64 < int (length vs)
      then Inl (Validation field (''has '' @ itoa (length vs) @ '' entries; maximum is 64''))
      else validate_host_strings lower field 0 [] vs)"

definition host_checks :: "time_env \<Rightarrow> host_fact \<Rightarrow> string \<Rightarrow> (bool \<times> go_error) list" where
  "host_checks te h invalidation =
     [(\<not> host_alias_pattern (hf_alias h), Validation ''host.alias'' ''must match ^[A-Za-z0-9][A-Za-z0-9._-]{0,127}$''),
      (trim_space (hf_role h) = [], Validation ''host.role'' ''is required''),
      (trim_space (hf_os h) = [], Validation ''host.os'' ''is required''),
      (trim_space invalidation = [], Validation ''invalidation_condition'' ''is required for host_fact''),
      (trim_space (hf_role h) \<noteq> hf_role h \<or> trim_space (hf_os h) \<noteq> hf_os h,
       Validation ''host.role/host.os'' ''must not have surrounding whitespace''),
      (\<not> List.member [''production'', ''test'', ''staging'', ''development''] (hf_tier h),
       Validation ''host.tier'' ''must be production, test, staging, or development''),
      (te_parse te (hf_confirmed_at h) = None, Validation ''host.confirmed_at'' ''must be RFC3339''),
      (128 < int (rune_count (hf_role h)),
       Validation ''host.role'' (''has '' @ itoa (rune_count (hf_role h)) @ '' characters; maximum is 128'')),
      (128 < int (rune_count (hf_os h)),
       Validation ''host.os'' (''has '' @ itoa (rune_count (hf_os h)) @ '' characters; maximum is 128''))]"

definition validate_host_fact :: "time_env \<Rightarrow> (string \<Rightarrow> string) \<Rightarrow> host_fact option \<Rightarrow> string \<Rightarrow> go_error + unit" where
  "validate_host_fact te lower host invalidation =
     (case host of
        None \<Rightarrow> Inl (Validation ''host'' ''is required for host_fact'')
      | Some h \<Rightarrow>
          try_then (check_all (host_checks te h invalidation)) (\<lambda>_.
          try_then (validate_host_list lower ''host.services'' (hf_services h)) (\<lambda>_.
            validate_host_list lower ''host.paths'' (hf_paths h))))"

definition write_modes :: "string list" where "write_modes = [''create'', ''update'', ''supersede'']"

definition memo_kinds :: "string list" where
  "memo_kinds = [''decision'', ''failed_attempt'', ''resolved_failure'', ''limitation'', ''host_fact'']"

definition validate_memo_body :: "time_env \<Rightarrow> (string \<Rightarrow> string) \<Rightarrow> memo_request \<Rightarrow> go_error + unit" where
  "validate_memo_body te lower q =
     (if mq_mode q = ''supersede'' then Inr ()
      else if \<not> List.member memo_kinds (mq_kind q)
      then Inl (Validation ''memo_kind'' ''must be decision, failed_attempt, resolved_failure, limitation, or host_fact'')
      else if mq_kind q \<noteq> ''host_fact'' \<and> trim_space (mq_content q) = [] then Inl (Validation ''content'' ''is required'')
      else if mq_kind q = ''host_fact'' then
        (if mq_topic_key q \<noteq> [] then Inl (Validation ''topic_key'' ''is not valid for host_fact'')
         else if mq_title q \<noteq> [] \<or> mq_summary q \<noteq> [] \<or> mq_temporal_kind q \<noteq> [] \<or> mq_as_of q \<noteq> []
         then Inl (Validation ''title/summary/temporal_kind/as_of'' ''are not valid for host_fact'')
         else validate_host_fact te lower (mq_host q) (mq_invalidation q))
      else if mq_host q \<noteq> None then Inl (Text ''host is only valid for host_fact'')
      else Inr ())"

definition memo_checks :: "time_env \<Rightarrow> memo_request \<Rightarrow> (bool \<times> go_error) list" where
  "memo_checks te q =
     [(mq_topic_key q \<noteq> [] \<and> trim_space (mq_scope q) = [],
       Validation ''scope'' ''is required when topic_key is set; on update omit scope to preserve it''),
      (mq_topic_key q \<noteq> [] \<and> \<not> topic_key_pattern (mq_topic_key q),
       Validation ''topic_key'' ''must use lowercase letters, digits, dot, underscore, slash, or hyphen''),
      (mq_supersedes q \<noteq> [] \<and> (mq_mode q \<noteq> ''create'' \<or> mq_expected q = 0 \<or> 128 < int (length (mq_supersedes q))),
       Text ''supersedes requires create mode and expected_revision''),
      (160 < int (rune_count (mq_title q)),
       Validation ''title'' (''has '' @ itoa (rune_count (mq_title q)) @ '' characters; maximum is 160'')),
      (240 < int (rune_count (mq_summary q)),
       Validation ''summary'' (''has '' @ itoa (rune_count (mq_summary q)) @ '' characters; maximum is 240'')),
      (\<not> List.member [[], ''historical_observation'', ''current_guidance''] (mq_temporal_kind q),
       Validation ''temporal_kind'' ''must be historical_observation or current_guidance''),
      ((mq_temporal_kind q = []) \<noteq> (mq_as_of q = []),
       Validation ''temporal_kind/as_of'' ''must be provided or explicitly cleared together''),
      (mq_as_of q \<noteq> [] \<and> te_parse te (mq_as_of q) = None, Validation ''as_of'' ''must be RFC3339''),
      (mq_source q \<noteq> ''user_asserted'' \<and> mq_source q \<noteq> ''llm_proposed'',
       Text ''source must be user_asserted or llm_proposed''),
      (mq_mode q \<noteq> ''create'' \<and> (mq_id q = [] \<or> mq_expected q = 0),
       Text ''id and expected_revision are required for update or supersede'')]"

definition validate_memo :: "time_env \<Rightarrow> (string \<Rightarrow> string) \<Rightarrow> memo_request \<Rightarrow> go_error + unit" where
  "validate_memo te lower q =
     try_then (validate_response_view (mq_view q)) (\<lambda>_.
     if \<not> List.member write_modes (mq_mode q) then Inl (Text ''mode must be create, update, or supersede'')
     else try_then (validate_memo_body te lower q) (\<lambda>_.
          try_then (check_all (memo_checks te q)) (\<lambda>_.
            validate_text_and_refs ''memo''
              (mq_kind q @ mq_scope q @ mq_configuration q @ mq_title q @ mq_summary q @ mq_content q @ mq_invalidation q)
              (non_nil (mq_evidence q)))))"

definition checkpoint_refs :: "checkpoint_request \<Rightarrow> string list" where
  "checkpoint_refs q = non_nil (cq_run_refs q) @ non_nil (cq_remaining q) @ non_nil (cq_background q) @ non_nil (cq_risks q) @
     non_nil (cq_evidence q)"

definition validate_checkpoint :: "checkpoint_request \<Rightarrow> go_error + unit" where
  "validate_checkpoint q =
     try_then (validate_response_view (cq_view q)) (\<lambda>_.
     if \<not> List.member write_modes (cq_mode q) then Inl (Text ''mode must be create, update, or supersede'')
     else if cq_mode q = ''create'' \<and> trim_space (cq_goal q) = [] then Inl (Text ''goal is required for create'')
     else if cq_mode q \<noteq> ''create'' \<and> (cq_id q = [] \<or> cq_expected q = 0)
     then Inl (Text ''id and expected_revision are required for update or supersede'')
     else validate_text_and_refs ''checkpoint'' (cq_goal q @ cq_baseline q @ cq_next_action q @ cq_change_summary q) (checkpoint_refs q))"

section \<open>JSON forms\<close>

definition json_strings :: "string list \<Rightarrow> json" where
  "json_strings xs = JArray (map JString xs)"

definition host_json :: "host_fact \<Rightarrow> json" where
  "host_json h = JObject [(''alias'', JString (hf_alias h)), (''role'', JString (hf_role h)), (''os'', JString (hf_os h)),
     (''tier'', JString (hf_tier h)), (''services'', json_strings (hf_services h)), (''paths'', json_strings (hf_paths h)),
     (''confirmed_at'', JString (hf_confirmed_at h))]"

text \<open>\<open>omitempty\<close>.\<close>

definition some_text :: "string \<Rightarrow> string \<Rightarrow> (string \<times> json) list" where
  "some_text k s = (if s = [] then [] else [(k, JString s)])"

definition some_list :: "string \<Rightarrow> string list option \<Rightarrow> (string \<times> json) list" where
  "some_list k xs = (if non_nil xs = [] then [] else [(k, json_strings (non_nil xs))])"

definition memo_json :: "memo_request \<Rightarrow> (string, json) gomap" where
  "memo_json q =
     [(''mode'', JString (mq_mode q))] @ some_text ''id'' (mq_id q) @
     (if mq_expected q = 0 then [] else [(''expected_revision'', JNumber (itoa (mq_expected q)))]) @
     some_text ''supersedes'' (mq_supersedes q) @ some_text ''memo_kind'' (mq_kind q) @ some_text ''scope'' (mq_scope q) @
     some_text ''configuration'' (mq_configuration q) @ some_text ''topic_key'' (mq_topic_key q) @
     some_text ''title'' (mq_title q) @ some_text ''summary'' (mq_summary q) @
     some_text ''temporal_kind'' (mq_temporal_kind q) @ some_text ''as_of'' (mq_as_of q) @ some_text ''content'' (mq_content q) @
     (case mq_host q of None \<Rightarrow> [] | Some h \<Rightarrow> [(''host'', host_json h)]) @
     some_text ''invalidation_condition'' (mq_invalidation q) @ some_text ''source'' (mq_source q) @
     some_list ''evidence_refs'' (mq_evidence q) @ some_text ''response_view'' (mq_view q)"

definition checkpoint_json :: "checkpoint_request \<Rightarrow> (string, json) gomap" where
  "checkpoint_json q =
     [(''mode'', JString (cq_mode q))] @ some_text ''id'' (cq_id q) @
     (if cq_expected q = 0 then [] else [(''expected_revision'', JNumber (itoa (cq_expected q)))]) @
     some_text ''goal'' (cq_goal q) @ some_text ''baseline_commit'' (cq_baseline q) @
     (case cq_dirty q of None \<Rightarrow> [] | Some b \<Rightarrow> [(''dirty'', JBool b)]) @
     some_list ''run_refs'' (cq_run_refs q) @ some_list ''remaining_checks'' (cq_remaining q) @
     some_text ''next_action'' (cq_next_action q) @ some_text ''change_summary'' (cq_change_summary q) @
     some_list ''background_refs'' (cq_background q) @ some_list ''risks'' (cq_risks q) @
     some_list ''evidence_refs'' (cq_evidence q) @ some_text ''response_view'' (cq_view q)"

definition json_mismatch :: go_error where "json_mismatch = Text ''json: cannot unmarshal value''"

text \<open>\<open>Unmarshal\<close> into a field: an absent or null member leaves the zero value.\<close>

definition text_field :: "(string, json) gomap \<Rightarrow> string \<Rightarrow> go_error + string" where
  "text_field m k = (case map_of m k of None \<Rightarrow> Inr [] | Some JNull \<Rightarrow> Inr [] | Some (JString s) \<Rightarrow> Inr s | _ \<Rightarrow> Inl json_mismatch)"

fun text_items :: "json list \<Rightarrow> go_error + string list" where
  "text_items [] = Inr []"
| "text_items (v # vs) = (case v of
      JString s \<Rightarrow> try_then (text_items vs) (\<lambda>r. Inr (s # r))
    | JNull \<Rightarrow> try_then (text_items vs) (\<lambda>r. Inr ([] # r))
    | _ \<Rightarrow> Inl json_mismatch)"

definition list_field :: "(string, json) gomap \<Rightarrow> string \<Rightarrow> go_error + string list option" where
  "list_field m k = (case map_of m k of
      None \<Rightarrow> Inr None | Some JNull \<Rightarrow> Inr None
    | Some (JArray vs) \<Rightarrow> try_then (text_items vs) (\<lambda>r. Inr (Some r)) | _ \<Rightarrow> Inl json_mismatch)"

definition number_field :: "(string, json) gomap \<Rightarrow> string \<Rightarrow> go_error + nat" where
  "number_field m k = (case map_of m k of
      None \<Rightarrow> Inr 0 | Some JNull \<Rightarrow> Inr 0
    | Some (JNumber s) \<Rightarrow> (case parse_uint s of None \<Rightarrow> Inl json_mismatch | Some n \<Rightarrow> Inr n) | _ \<Rightarrow> Inl json_mismatch)"

definition bool_field :: "(string, json) gomap \<Rightarrow> string \<Rightarrow> go_error + bool option" where
  "bool_field m k = (case map_of m k of
      None \<Rightarrow> Inr None | Some JNull \<Rightarrow> Inr None | Some (JBool b) \<Rightarrow> Inr (Some b) | _ \<Rightarrow> Inl json_mismatch)"

definition host_of_json :: "(string, json) gomap \<Rightarrow> go_error + host_fact" where
  "host_of_json m =
     try_then (text_field m ''alias'') (\<lambda>a. try_then (text_field m ''role'') (\<lambda>r. try_then (text_field m ''os'') (\<lambda>os.
     try_then (text_field m ''tier'') (\<lambda>t. try_then (list_field m ''services'') (\<lambda>ss. try_then (list_field m ''paths'') (\<lambda>ps.
     try_then (text_field m ''confirmed_at'') (\<lambda>c.
       Inr \<lparr>hf_alias = a, hf_role = r, hf_os = os, hf_tier = t, hf_services = non_nil ss, hf_paths = non_nil ps,
            hf_confirmed_at = c\<rparr>)))))))"

definition host_field :: "(string, json) gomap \<Rightarrow> string \<Rightarrow> go_error + host_fact option" where
  "host_field m k = (case map_of m k of
      None \<Rightarrow> Inr None | Some JNull \<Rightarrow> Inr None
    | Some (JObject h) \<Rightarrow> try_then (host_of_json h) (\<lambda>r. Inr (Some r)) | _ \<Rightarrow> Inl json_mismatch)"

definition memo_of_json :: "(string, json) gomap \<Rightarrow> go_error + memo_request" where
  "memo_of_json m =
     try_then (text_field m ''mode'') (\<lambda>mode. try_then (text_field m ''id'') (\<lambda>i.
     try_then (number_field m ''expected_revision'') (\<lambda>expected. try_then (text_field m ''supersedes'') (\<lambda>supersedes.
     try_then (text_field m ''memo_kind'') (\<lambda>kind. try_then (text_field m ''scope'') (\<lambda>scope.
     try_then (text_field m ''configuration'') (\<lambda>configuration. try_then (text_field m ''topic_key'') (\<lambda>topic.
     try_then (text_field m ''title'') (\<lambda>title. try_then (text_field m ''summary'') (\<lambda>summary.
     try_then (text_field m ''temporal_kind'') (\<lambda>temporal. try_then (text_field m ''as_of'') (\<lambda>as_of.
     try_then (text_field m ''content'') (\<lambda>content. try_then (host_field m ''host'') (\<lambda>host.
     try_then (text_field m ''invalidation_condition'') (\<lambda>invalidation. try_then (text_field m ''source'') (\<lambda>source.
     try_then (list_field m ''evidence_refs'') (\<lambda>evidence. try_then (text_field m ''response_view'') (\<lambda>view.
       Inr \<lparr>mq_present = [], mq_mode = mode, mq_id = i, mq_expected = expected, mq_supersedes = supersedes, mq_kind = kind,
            mq_scope = scope, mq_configuration = configuration, mq_topic_key = topic, mq_title = title, mq_summary = summary,
            mq_temporal_kind = temporal, mq_as_of = as_of, mq_content = content, mq_host = host,
            mq_invalidation = invalidation, mq_source = source, mq_evidence = evidence, mq_view = view\<rparr>))))))))))))))))))"

definition checkpoint_of_json :: "(string, json) gomap \<Rightarrow> go_error + checkpoint_request" where
  "checkpoint_of_json m =
     try_then (text_field m ''mode'') (\<lambda>mode. try_then (text_field m ''id'') (\<lambda>i.
     try_then (number_field m ''expected_revision'') (\<lambda>expected. try_then (text_field m ''goal'') (\<lambda>goal.
     try_then (text_field m ''baseline_commit'') (\<lambda>baseline. try_then (bool_field m ''dirty'') (\<lambda>dirty.
     try_then (list_field m ''run_refs'') (\<lambda>run_refs. try_then (list_field m ''remaining_checks'') (\<lambda>remaining.
     try_then (text_field m ''next_action'') (\<lambda>next_action. try_then (text_field m ''change_summary'') (\<lambda>change.
     try_then (list_field m ''background_refs'') (\<lambda>background. try_then (list_field m ''risks'') (\<lambda>risks.
     try_then (list_field m ''evidence_refs'') (\<lambda>evidence. try_then (text_field m ''response_view'') (\<lambda>view.
       Inr \<lparr>cq_present = [], cq_mode = mode, cq_id = i, cq_expected = expected, cq_goal = goal, cq_baseline = baseline,
            cq_dirty = dirty, cq_run_refs = run_refs, cq_remaining = remaining, cq_next_action = next_action,
            cq_change_summary = change, cq_background = background, cq_risks = risks, cq_evidence = evidence,
            cq_view = view\<rparr>))))))))))))))"

section \<open>Partial updates\<close>

definition put_all :: "(string \<times> json) list \<Rightarrow> (string, json) gomap \<Rightarrow> (string, json) gomap" where
  "put_all kvs m = fold (\<lambda>(k, v). map_put k v) kvs m"

text \<open>The patch of a request: its JSON form, then the fields present on the wire, then the slices that are not nil.\<close>

definition update_patch :: "(string, json) gomap \<Rightarrow> (string, json) gomap \<Rightarrow> (string \<times> string list option) list \<Rightarrow> (string, json) gomap" where
  "update_patch form present slices =
     put_all (List.map_filter (\<lambda>(k, xs). map_option (\<lambda>ys. (k, json_strings ys)) xs) slices) (put_all present form)"

definition merged_object :: "durable \<Rightarrow> (string, json) gomap \<Rightarrow> (string, json) gomap \<Rightarrow> (string, json) gomap" where
  "merged_object current patch base =
     put_all patch (map_put ''evidence_refs'' (json_strings (du_evidence current)) (map_put ''source'' (JString (du_source current)) base))"

text \<open>\<open>decode\<close> is \<open>Unmarshal\<close> of a stored payload into a map: \<open>None\<close> on an error or a null payload.\<close>

definition merge_record_update ::
    "(string \<Rightarrow> (string, json) gomap option) \<Rightarrow> ((string, json) gomap \<Rightarrow> go_error + 'q) \<Rightarrow> durable \<Rightarrow> (string, json) gomap \<Rightarrow>
     go_error + 'q" where
  "merge_record_update decode read current patch =
     (case decode (du_payload current) of
        None \<Rightarrow> Inl (Sentinel RecordsStorageFailure)
      | Some base \<Rightarrow> (case read (merged_object current patch base) of
            Inl e \<Rightarrow> Inl (invalid_argument e) | Inr q \<Rightarrow> Inr q))"

definition memo_patch :: "memo_request \<Rightarrow> (string, json) gomap" where
  "memo_patch q = update_patch (memo_json q) (mq_present q) [(''evidence_refs'', mq_evidence q)]"

definition checkpoint_patch :: "checkpoint_request \<Rightarrow> (string, json) gomap" where
  "checkpoint_patch q = update_patch (checkpoint_json q) (cq_present q)
     [(''run_refs'', cq_run_refs q), (''remaining_checks'', cq_remaining q), (''background_refs'', cq_background q),
      (''risks'', cq_risks q), (''evidence_refs'', cq_evidence q)]"

definition mutation_store_error :: "go_error \<Rightarrow> go_error" where
  "mutation_store_error e =
     (if errors_is e StoreConflict \<or> errors_is e StoreNotFound then e
      else Wrap ''storage'' (Sentinel RecordsStorageFailure))"

definition record_for_update :: "string \<Rightarrow> string \<Rightarrow> string \<Rightarrow> string \<Rightarrow> nat \<Rightarrow> record_db \<Rightarrow> go_error + durable" where
  "record_for_update p w kind i revision db =
     (if i = [] \<or> revision = 0
      then Inl (invalid_argument (Validation ''id/expected_revision'' ''are required for update''))
      else case get_record p w i db of
          Inl e \<Rightarrow> Inl (mutation_store_error e)
        | Inr current \<Rightarrow>
            if du_kind current \<noteq> kind
            then Inl (Transition ''id'' ''must identify a record of the tool's kind; use the matching write tool'')
            else if du_revision current \<noteq> revision then Inl (Sentinel StoreConflict)
            else Inr current)"

end
