(* ===== verification/RecordService.thy ===== *)
theory RecordService
  imports RecordRequests Contracts
begin

text \<open>
  The writing half of \<open>internal/records/service.go\<close>: observation of the Git subject, the views of a
  record, checkpoints and memos. Git is the exit and output of an argument list; JSON and the random
  identifiers are parameters; \<open>now\<close> is the clock of the service and \<open>later\<close> the clock of the repository.
\<close>

section \<open>Environment\<close>

datatype git_exit = GitOK | GitExit int | GitError

type_synonym payload = "(string, json) gomap option"

record records_env =
  xe_id :: string
  xe_root :: string
  xe_json :: json_env
  xe_lower :: "string \<Rightarrow> string"
  xe_fold_eq :: "string \<Rightarrow> string \<Rightarrow> bool"
  xe_time :: time_env
  xe_object :: "string \<Rightarrow> string + payload"
  xe_marshal :: "(string, json) gomap \<Rightarrow> string"
  xe_git :: "string list \<Rightarrow> git_exit \<times> string"

definition members :: "payload \<Rightarrow> (string, json) gomap" where
  "members p = (case p of None \<Rightarrow> [] | Some m \<Rightarrow> m)"

definition stored_object :: "records_env \<Rightarrow> string \<Rightarrow> (string, json) gomap option" where
  "stored_object env s = (case xe_object env s of Inl _ \<Rightarrow> None | Inr p \<Rightarrow> p)"

section \<open>The Git subject\<close>

record subject_observation =
  ob_commit :: string
  ob_dirty :: bool
  ob_observed :: bool

definition no_subject :: subject_observation where
  "no_subject = \<lparr>ob_commit = [], ob_dirty = False, ob_observed = False\<rparr>"

fun diff_state :: "(string list \<Rightarrow> git_exit \<times> string) \<Rightarrow> string list list \<Rightarrow> bool \<Rightarrow> bool option" where
  "diff_state git [] dirty = Some dirty"
| "diff_state git (args # rest) dirty = (case fst (git args) of
      GitOK \<Rightarrow> diff_state git rest dirty
    | GitExit n \<Rightarrow> if n = 1 then diff_state git rest True else None
    | GitError \<Rightarrow> None)"

definition current_subject :: "(string list \<Rightarrow> git_exit \<times> string) \<Rightarrow> string \<Rightarrow> subject_observation" where
  "current_subject git r =
     (let at = (\<lambda>args. [''-C'', r] @ args); (found, commit) = git (at [''rev-parse'', ''HEAD''])
      in if found \<noteq> GitOK then no_subject
         else case diff_state git [at [''diff'', ''--quiet'', ''--''], at [''diff'', ''--cached'', ''--quiet'', ''--'']] False of
           None \<Rightarrow> no_subject
         | Some dirty \<Rightarrow>
             (case git (at [''ls-files'', ''--others'', ''--exclude-standard'', ''--directory'']) of
                (e, others) \<Rightarrow>
                  if e \<noteq> GitOK then no_subject
                  else \<lparr>ob_commit = trim_space commit, ob_dirty = dirty \<or> others \<noteq> [], ob_observed = True\<rparr>))"

definition observe_subject :: "records_env \<Rightarrow> subject_observation" where
  "observe_subject env = current_subject (xe_git env) (xe_root env)"

definition text_member :: "(string, json) gomap \<Rightarrow> string \<Rightarrow> string" where
  "text_member m k = (case map_of m k of Some (JString s) \<Rightarrow> s | _ \<Rightarrow> [])"

definition validity_from_payload :: "(string, json) gomap \<Rightarrow> subject_observation \<Rightarrow> string" where
  "validity_from_payload m current =
     (case map_of m ''subject'' of
        Some (JObject subject) \<Rightarrow>
          (let commit = text_member subject ''git_commit''
           in case map_of subject ''dirty'' of
                Some (JBool dirty) \<Rightarrow>
                  if commit = [] \<or> \<not> ob_observed current then ''unknown''
                  else if commit = ob_commit current \<and> \<not> dirty \<and> \<not> ob_dirty current
                  then (if map_of m ''truncated'' = Some (JBool True) then ''unknown'' else ''current'')
                  else if commit \<noteq> ob_commit current \<or> (\<not> dirty \<and> ob_dirty current) then ''stale''
                  else ''unknown''
              | _ \<Rightarrow> ''unknown'')
      | _ \<Rightarrow> ''unknown'')"

definition basis_of :: "string list \<Rightarrow> string" where
  "basis_of refs = (case find (\<lambda>r. has_prefix r ''git:'' \<and> git_commit_pattern (trim_prefix r ''git:'')) refs of
      None \<Rightarrow> [] | Some r \<Rightarrow> trim_prefix r ''git:'')"

definition plain_warning :: "string \<Rightarrow> string \<Rightarrow> string option \<Rightarrow> warning" where
  "plain_warning code message ref = \<lparr>wn_code = code, wn_message = message, wn_ref = ref\<rparr>"

definition memo_basis_warnings :: "records_env \<Rightarrow> durable \<Rightarrow> warning list" where
  "memo_basis_warnings env r =
     (let basis = basis_of (du_evidence r); ref = Some (''git:'' @ basis); current = observe_subject env
      in if basis = [] then []
         else if \<not> ob_observed current
         then [plain_warning ''memo_basis_unknown'' ''Git basis unavailable; verify current source'' ref]
         else if ob_commit current \<noteq> basis
         then [plain_warning ''memo_basis_older'' ''Git basis differs; verify relevant source'' ref]
         else if ob_dirty current then [plain_warning ''memo_basis_dirty'' ''worktree changed; verify relevant source'' ref]
         else [])"

section \<open>Views of a record\<close>

record record_result =
  ro_id :: string
  ro_kind :: string
  ro_schema :: string
  ro_revision :: nat
  ro_source :: string
  ro_writer :: string
  ro_validity :: string
  ro_created_at :: time
  ro_updated_at :: time
  ro_title :: string
  ro_summary :: string
  ro_next_action :: string
  ro_change_summary :: string
  ro_change_state :: string
  ro_background :: "string list"
  ro_remaining :: "string list"
  ro_topic_key :: string
  ro_scope :: string
  ro_configuration :: string
  ro_temporal_kind :: string
  ro_as_of :: string
  ro_search_as_of :: time
  ro_payload :: payload
  ro_complete :: bool
  ro_evidence :: "string list"
  ro_supersedes :: string
  ro_superseded_by :: string

definition blank_record :: record_result where
  "blank_record = \<lparr>ro_id = [], ro_kind = [], ro_schema = [], ro_revision = 0, ro_source = [], ro_writer = [], ro_validity = [],
     ro_created_at = zero_time, ro_updated_at = zero_time, ro_title = [], ro_summary = [], ro_next_action = [],
     ro_change_summary = [], ro_change_state = [], ro_background = [], ro_remaining = [], ro_topic_key = [], ro_scope = [],
     ro_configuration = [], ro_temporal_kind = [], ro_as_of = [], ro_search_as_of = zero_time, ro_payload = None,
     ro_complete = False, ro_evidence = [], ro_supersedes = [], ro_superseded_by = []\<rparr>"

definition ellipsis :: string where "ellipsis = [CHR 0xE2, CHR 0x80, CHR 0xA6]"

definition compact_preview :: "string \<Rightarrow> nat \<Rightarrow> string" where
  "compact_preview s maximum =
     (let value = join_with '' '' (fields_of s); rs = rune_strings value
      in if length rs \<le> maximum then value else concat (take (maximum - 1) rs) @ ellipsis)"

primrec compact_value :: "json \<Rightarrow> json" where
  "compact_value JNull = JNull"
| "compact_value (JBool b) = JBool b"
| "compact_value (JNumber n) = JNumber n"
| "compact_value (JString s) = JString (compact_preview s 320)"
| "compact_value (JArray vs) = JArray (take 8 (map compact_value vs))"
| "compact_value (JObject m) = JObject m"

definition select_members :: "(json \<Rightarrow> json) \<Rightarrow> string list \<Rightarrow> (string, json) gomap \<Rightarrow> (string, json) gomap" where
  "select_members f names m = fold (\<lambda>k out. case map_of m k of None \<Rightarrow> out | Some v \<Rightarrow> map_put k (f v) out) names []"

definition discovery_fields :: "string \<Rightarrow> string list" where
  "discovery_fields kind =
     (if kind = ''memo'' then [''memo_kind'', ''scope'', ''configuration'', ''topic_key'']
      else if kind = ''checkpoint'' then [''goal'', ''next_action'', ''remaining_checks'']
      else if kind = ''verification'' then [''check_id'', ''status'', ''outcome'', ''configuration'', ''truncated'']
      else if kind = ''environment'' then [''capability_id'', ''configuration'', ''ready'', ''observed_at'']
      else if kind = ''run'' then [''capability_id'', ''configuration'', ''state'', ''started_at'', ''finished_at'']
      else if kind = ''artifact'' then [''path'', ''storage'', ''size'', ''content_hash'']
      else [])"

definition discovery_payload :: "string \<Rightarrow> (string, json) gomap \<Rightarrow> (string, json) gomap" where
  "discovery_payload kind m =
     (let selected = select_members compact_value (discovery_fields kind) m
      in if kind \<noteq> ''memo'' then selected
         else
           (let previewed = (case map_of m ''content'' of
                  Some (JString s) \<Rightarrow> map_put ''preview'' (JString (compact_preview s 320)) selected | _ \<Rightarrow> selected)
            in case map_of m ''host'' of
                 Some (JObject h) \<Rightarrow> map_put ''host'' (JObject (select_members compact_value
                   [''alias'', ''role'', ''os'', ''tier'', ''services'', ''paths'', ''confirmed_at''] h)) previewed
               | _ \<Rightarrow> previewed))"

fun first_text :: "(string \<Rightarrow> string) \<Rightarrow> string list \<Rightarrow> string" where
  "first_text f [] = []"
| "first_text f (n # ns) = (if f n \<noteq> [] then f n else first_text f ns)"

definition or_text :: "string \<Rightarrow> string \<Rightarrow> string" where
  "or_text s d = (if s = [] then d else s)"

text \<open>Title and summary of a brief view; \<open>f\<close> is the trimmed text of a field.\<close>

definition brief_texts :: "string \<Rightarrow> (string, json) gomap \<Rightarrow> (string \<Rightarrow> string) \<Rightarrow> string \<times> string" where
  "brief_texts kind m f =
     (let title = f ''title''; summary = f ''summary'';
          host = (case map_of m ''host'' of Some (JObject h) \<Rightarrow> Some h | _ \<Rightarrow> None)
      in if kind = ''memo'' then
           (let title1 = (case host of None \<Rightarrow> title | Some h \<Rightarrow> or_text title (text_member h ''alias''));
                summary1 = (case host of None \<Rightarrow> summary
                  | Some h \<Rightarrow> or_text summary (trim_space (text_member h ''role'' @ '' '' @ text_member h ''os'')))
            in (or_text title1 (or_text (f ''topic_key'') (f ''scope'')), or_text summary1 (f ''content'')))
         else if kind = ''checkpoint'' then (or_text title (f ''goal''), or_text summary (f ''next_action''))
         else (or_text title (first_text f [''capability_id'', ''check_id'', ''path'']),
               or_text summary (first_text f [''summary'', ''status'', ''state'', ''outcome''])))"

definition brief_record :: "durable \<Rightarrow> (string, json) gomap \<Rightarrow> string \<Rightarrow> record_result" where
  "brief_record r m validity =
     (let f = (\<lambda>k. trim_space (text_member m k)); (title, summary) = brief_texts (du_kind r) m f
      in blank_record\<lparr>ro_id := du_id r, ro_kind := du_kind r, ro_validity := validity, ro_updated_at := du_updated_at r,
           ro_title := compact_preview (or_text title (du_kind r)) 96, ro_summary := compact_preview summary 140,
           ro_topic_key := f ''topic_key'', ro_scope := compact_preview (f ''scope'') 96,
           ro_configuration := compact_preview (f ''configuration'') 96,
           ro_temporal_kind := or_text (f ''temporal_kind'') ''unknown'', ro_as_of := f ''as_of'', ro_source := du_source r\<rparr>)"

definition record_view ::
    "records_env \<Rightarrow> durable \<Rightarrow> subject_observation option \<Rightarrow> string list \<Rightarrow> string \<Rightarrow> go_error + record_result" where
  "record_view env r current wanted view =
     (case xe_object env (du_payload r) of
        Inl e \<Rightarrow> Inl (Text (''decode record payload: '' @ e))
      | Inr p \<Rightarrow>
          (let m = members p;
               validity = (case current of
                   Some c \<Rightarrow> if du_kind r = ''verification'' \<and> du_validity r \<noteq> ''superseded'' then validity_from_payload m c
                             else du_validity r
                 | None \<Rightarrow> du_validity r);
               complete = (wanted = [] \<and> view \<noteq> ''discovery'')
           in Inr (if view = ''brief'' then brief_record r m validity
              else blank_record\<lparr>ro_id := du_id r, ro_kind := du_kind r, ro_schema := du_schema_version r,
                ro_revision := du_revision r, ro_source := du_source r, ro_writer := du_writer_class r, ro_validity := validity,
                ro_created_at := du_created_at r, ro_updated_at := du_updated_at r,
                ro_payload := (if view = ''discovery'' then Some (discovery_payload (du_kind r) m)
                  else if \<not> complete then Some (select_members (\<lambda>v. v) wanted m) else p),
                ro_complete := complete, ro_evidence := du_evidence r, ro_supersedes := du_supersedes r\<rparr>)))"

definition resume_record :: "records_env \<Rightarrow> durable \<Rightarrow> go_error + record_result" where
  "resume_record env r =
     (case xe_object env (du_payload r) of
        Inl e \<Rightarrow> Inl (Text (''decode checkpoint: '' @ e))
      | Inr p \<Rightarrow>
          (let m = members p
           in try_then (text_field m ''goal'') (\<lambda>goal. try_then (text_field m ''next_action'') (\<lambda>next_action.
              try_then (text_field m ''change_summary'') (\<lambda>change. try_then (list_field m ''background_refs'') (\<lambda>background.
              try_then (list_field m ''remaining_checks'') (\<lambda>remaining.
                Inr (blank_record\<lparr>ro_id := du_id r, ro_kind := du_kind r, ro_revision := du_revision r,
                  ro_validity := du_validity r, ro_updated_at := du_updated_at r, ro_title := compact_preview goal 120,
                  ro_next_action := compact_preview next_action 320, ro_change_summary := compact_preview change 240,
                  ro_change_state := (if trim_space change \<noteq> [] then ''recorded'' else ''unknown''),
                  ro_remaining := map (\<lambda>c. compact_preview c 160) (take 5 (non_nil remaining)),
                  ro_evidence := take 5 (du_evidence r), ro_background := take 5 (non_nil background)\<rparr>))))))))"

section \<open>Mutations\<close>

record mutation_response =
  mr_status :: status
  mr_record :: record_result
  mr_duplicate :: bool
  mr_warnings :: "warning list"

definition mutation_answer :: "records_env \<Rightarrow> durable \<Rightarrow> bool \<Rightarrow> string \<Rightarrow> go_error + mutation_response" where
  "mutation_answer env r duplicate view =
     (if view = [] \<or> view = ''receipt''
      then Inr \<lparr>mr_status = StatusOK, mr_record = blank_record\<lparr>ro_id := du_id r, ro_revision := du_revision r\<rparr>,
                mr_duplicate = duplicate, mr_warnings = []\<rparr>
      else try_then (record_view env r None [] ''full'') (\<lambda>x.
        Inr \<lparr>mr_status = StatusOK, mr_record = x, mr_duplicate = duplicate, mr_warnings = []\<rparr>))"

definition new_record :: "records_env \<Rightarrow> time \<Rightarrow> string \<Rightarrow> string \<Rightarrow> string \<Rightarrow> string \<Rightarrow> string \<Rightarrow> string list \<Rightarrow> durable" where
  "new_record env now k kind schema source payload evidence =
     \<lparr>du_id = k, du_kind = kind, du_schema_version = schema, du_project = xe_id env, du_workspace = xe_id env, du_revision = 1,
      du_source = source, du_writer_class = ''intention'', du_validity = ''current'', du_created_at = now, du_updated_at = now,
      du_payload = payload, du_evidence = evidence, du_supersedes = []\<rparr>"

definition stored :: "record_db \<times> (go_error + 'a) \<Rightarrow> record_db \<times> (go_error + 'a)" where
  "stored out = (case out of (db, Inl e) \<Rightarrow> (db, Inl (mutation_store_error e)) | (db, Inr x) \<Rightarrow> (db, Inr x))"

definition mutate ::
    "records_env \<Rightarrow> time \<Rightarrow> time \<Rightarrow> string \<Rightarrow> string \<Rightarrow> string \<Rightarrow> string \<Rightarrow> string \<Rightarrow> string \<Rightarrow> nat \<Rightarrow> string \<Rightarrow> string list \<Rightarrow>
     record_db \<Rightarrow> record_db \<times> (go_error + durable)" where
  "mutate env now later k kind schema source mode i expected payload evidence db =
     (if mode = ''create'' then
        (let r = new_record env now k kind schema source payload evidence
         in stored (if kind = ''checkpoint'' then create_checkpoint (xe_json env) r db else create_memo (xe_json env) r db))
      else if mode = ''update'' \<or> mode = ''supersede'' then
        (case get_record (xe_id env) (xe_id env) i db of
           Inl e \<Rightarrow> (db, Inl (mutation_store_error e))
         | Inr current \<Rightarrow>
             if du_kind current \<noteq> kind \<or> du_revision current \<noteq> expected then (db, Inl (Sentinel StoreConflict))
             else stored (update_record (xe_json env) later kind
               \<lparr>ru_project = xe_id env, ru_workspace = xe_id env, ru_id = i, ru_expected = expected,
                ru_payload = (if mode = ''supersede'' then du_payload current else payload),
                ru_evidence = (if mode = ''supersede'' then du_evidence current else evidence),
                ru_validity = (if mode = ''supersede'' then ''superseded'' else ''current''),
                ru_supersedes = du_supersedes current\<rparr> db))
      else (db, Inl (Text (''unsupported mutation mode '' @ quoted mode))))"

section \<open>Checkpoints\<close>

definition merged_checkpoint :: "records_env \<Rightarrow> checkpoint_request \<Rightarrow> record_db \<Rightarrow> go_error + checkpoint_request" where
  "merged_checkpoint env q db =
     (if cq_mode q = ''update''
      then try_then (record_for_update (xe_id env) (xe_id env) ''checkpoint'' (cq_id q) (cq_expected q) db) (\<lambda>current.
        merge_record_update (stored_object env) checkpoint_of_json current (checkpoint_patch q))
      else Inr q)"

definition with_baseline :: "records_env \<Rightarrow> checkpoint_request \<Rightarrow> checkpoint_request" where
  "with_baseline env q =
     (let o1 = observe_subject env
      in if cq_mode q = ''create'' \<and> (cq_baseline q = [] \<or> cq_dirty q = None) \<and> ob_observed o1
         then q\<lparr>cq_baseline := or_text (cq_baseline q) (ob_commit o1),
                cq_dirty := (case cq_dirty q of None \<Rightarrow> Some (ob_dirty o1) | Some b \<Rightarrow> Some b)\<rparr>
         else q)"

definition checkpoint_payload :: "checkpoint_request \<Rightarrow> (string, json) gomap" where
  "checkpoint_payload q =
     [(''goal'', JString (cq_goal q)), (''baseline_commit'', JString (cq_baseline q)),
      (''dirty'', (case cq_dirty q of None \<Rightarrow> JNull | Some b \<Rightarrow> JBool b)),
      (''run_refs'', json_strings (non_nil (cq_run_refs q))), (''remaining_checks'', json_strings (non_nil (cq_remaining q))),
      (''next_action'', JString (cq_next_action q)), (''change_summary'', JString (cq_change_summary q)),
      (''background_refs'', json_strings (non_nil (cq_background q))), (''risks'', json_strings (non_nil (cq_risks q)))]"

definition payload_limit :: "string \<Rightarrow> string \<Rightarrow> go_error + unit" where
  "payload_limit what payload =
     (if maximumRecordPayload < int (length payload)
      then Inl (record_limit_error (what @ '' payload'') (''is '' @ itoa (length payload) @ '' bytes; maximum is 65536 bytes''))
      else Inr ())"

definition answer :: "records_env \<Rightarrow> string \<Rightarrow> record_db \<times> (go_error + durable) \<Rightarrow> record_db \<times> (go_error + mutation_response)" where
  "answer env view out = (case out of (db, Inl e) \<Rightarrow> (db, Inl e) | (db, Inr r) \<Rightarrow> (db, mutation_answer env r False view))"

definition write_checkpoint ::
    "records_env \<Rightarrow> time \<Rightarrow> time \<Rightarrow> string \<Rightarrow> checkpoint_request \<Rightarrow> record_db \<Rightarrow> record_db \<times> (go_error + mutation_response)" where
  "write_checkpoint env now later k raw db =
     (case try_then (merged_checkpoint env raw db) (\<lambda>merged.
        let q = with_baseline env merged; payload = xe_marshal env (checkpoint_payload q)
        in case validate_checkpoint q of
             Inl e \<Rightarrow> Inl (invalid_argument e)
           | Inr _ \<Rightarrow> try_then (payload_limit ''checkpoint'' payload) (\<lambda>_. Inr (q, payload))) of
        Inl e \<Rightarrow> (db, Inl e)
      | Inr (q, payload) \<Rightarrow>
          answer env (cq_view q) (mutate env now later k ''checkpoint'' ''checkpoint.v1'' ''user_asserted'' (cq_mode q) (cq_id q)
            (cq_expected q) payload (non_nil (cq_evidence q)) db))"

end
