(* ===== verification/RecordMemos.thy ===== *)
theory RecordMemos
  imports RecordService
begin

text \<open>
  \<open>WriteMemo\<close> of \<open>internal/records/service.go\<close>: normalisation, payload and schema of a memo, the
  identity rules of an update, the topic checks and the warnings that accompany a write.
\<close>

section \<open>Normalisation and payload\<close>

definition merged_memo :: "records_env \<Rightarrow> memo_request \<Rightarrow> record_db \<Rightarrow> go_error + (memo_request \<times> durable option)" where
  "merged_memo env q db =
     (if mq_mode q = ''update''
      then try_then (record_for_update (xe_id env) (xe_id env) ''memo'' (mq_id q) (mq_expected q) db) (\<lambda>current.
        try_then (merge_record_update (stored_object env) memo_of_json current (memo_patch q)) (\<lambda>merged.
          Inr (merged, Some current)))
      else Inr (q, None))"

definition rfc3339 :: "time_env \<Rightarrow> string \<Rightarrow> string" where
  "rfc3339 te s = te_format te (case te_parse te s of None \<Rightarrow> zero_time | Some t \<Rightarrow> t)"

text \<open>Before the validation, and after it.\<close>

definition prepared_memo :: "records_env \<Rightarrow> memo_request \<Rightarrow> memo_request" where
  "prepared_memo env q = q\<lparr>mq_source := or_text (mq_source q) ''user_asserted'', mq_topic_key := xe_lower env (mq_topic_key q)\<rparr>"

definition canonical_memo :: "records_env \<Rightarrow> memo_request \<Rightarrow> memo_request" where
  "canonical_memo env q = q\<lparr>
     mq_host := map_option (\<lambda>h. h\<lparr>hf_alias := xe_lower env (hf_alias h),
       hf_confirmed_at := rfc3339 (xe_time env) (hf_confirmed_at h)\<rparr>) (mq_host q),
     mq_as_of := (if mq_as_of q = [] then [] else rfc3339 (xe_time env) (mq_as_of q))\<rparr>"

definition memo_payload :: "memo_request \<Rightarrow> (string, json) gomap" where
  "memo_payload q =
     [(''memo_kind'', JString (mq_kind q)), (''scope'', JString (mq_scope q)), (''configuration'', JString (mq_configuration q)),
      (''content'', JString (mq_content q)), (''invalidation_condition'', JString (mq_invalidation q))] @
     some_text ''topic_key'' (mq_topic_key q) @ some_text ''title'' (mq_title q) @ some_text ''summary'' (mq_summary q) @
     some_text ''temporal_kind'' (mq_temporal_kind q) @ some_text ''as_of'' (mq_as_of q) @
     (case mq_host q of None \<Rightarrow> [] | Some h \<Rightarrow> [(''host'', host_json h)])"

definition memo_schema :: "memo_request \<Rightarrow> string" where
  "memo_schema q = (if mq_kind q = ''host_fact'' then ''memo.v2'' else if mq_topic_key q \<noteq> [] then ''memo.v3'' else ''memo.v1'')"

section \<open>Identity of an updated memo\<close>

definition schema_advice :: string where
  "schema_advice = ''update cannot change memo schema; only for an intentional schema change, create a successor with supersedes and expected_revision''"

definition kind_advice :: string where
  "kind_advice = ''is immutable on update; only for an intentional kind change, create a successor with supersedes and expected_revision''"

definition identity_advice :: string where
  "identity_advice = ''is immutable on update; omit it to preserve the current identity; only for an intentional identity change, create a successor with supersedes and expected_revision''"

fun same_identity :: "(string, json) gomap \<Rightarrow> (string \<times> string) list \<Rightarrow> go_error + unit" where
  "same_identity existing [] = Inr ()"
| "same_identity existing ((name, value) # rest) =
     (case map_of existing name of
        Some (JString old) \<Rightarrow> if old \<noteq> value then Inl (Transition name identity_advice) else same_identity existing rest
      | Some JNull \<Rightarrow> if value \<noteq> [] then Inl (Transition name identity_advice) else same_identity existing rest
      | _ \<Rightarrow> Inl (Sentinel RecordsStorageFailure))"

definition identity_check :: "records_env \<Rightarrow> durable \<Rightarrow> memo_request \<Rightarrow> go_error + unit" where
  "identity_check env current q =
     (if du_kind current \<noteq> ''memo'' \<or> du_schema_version current \<noteq> memo_schema q
      then Inl (Transition ''memo_kind/topic_key'' schema_advice)
      else case xe_object env (du_payload current) of
          Inl _ \<Rightarrow> Inl (Sentinel RecordsStorageFailure)
        | Inr p \<Rightarrow>
            if text_member (members p) ''memo_kind'' \<noteq> mq_kind q then Inl (Transition ''memo_kind'' kind_advice)
            else if du_source current \<noteq> mq_source q
            then Inl (Transition ''source'' ''provenance is immutable on update; retain the existing source'')
            else if memo_schema q = ''memo.v3''
            then same_identity (members p) [(''scope'', mq_scope q), (''configuration'', mq_configuration q),
                   (''topic_key'', mq_topic_key q)]
            else Inr ())"

section \<open>Warnings\<close>

definition memo_query :: "records_env \<Rightarrow> nat \<Rightarrow> record_query" where
  "memo_query env limit =
     \<lparr>rq_project = xe_id env, rq_workspace = xe_id env, rq_kind = ''memo'', rq_validity = ''current'', rq_source = [],
      rq_updated_after = zero_time, rq_updated_before = zero_time, rq_topic_key = [], rq_scope = [], rq_configuration = [],
      rq_supersedes = [], rq_terms = [], rq_match_all = False, rq_limit = limit\<rparr>"

definition maximumRecordQuery :: nat where "maximumRecordQuery = 1000"

definition run_query :: "records_env \<Rightarrow> record_query \<Rightarrow> record_db \<Rightarrow> go_error + record_page" where
  "run_query env q db = query_records (xe_lower env) (xe_json env) q db"

definition current_topic_memo :: "records_env \<Rightarrow> string \<Rightarrow> string \<Rightarrow> string \<Rightarrow> record_db \<Rightarrow> go_error + durable option" where
  "current_topic_memo env scope configuration topic db =
     try_then (run_query env ((memo_query env 1)\<lparr>rq_topic_key := topic, rq_scope := scope, rq_configuration := configuration\<rparr>) db)
       (\<lambda>page. Inr (case pg_records page of [r] \<Rightarrow> Some r | _ \<Rightarrow> None))"

definition record_ref :: "durable \<Rightarrow> string option" where
  "record_ref r = Some (''record:'' @ du_id r)"

definition related_topic :: "records_env \<Rightarrow> memo_request \<Rightarrow> durable \<Rightarrow> warning option" where
  "related_topic env q r =
     (case xe_object env (du_payload r) of
        Inl _ \<Rightarrow> None
      | Inr p \<Rightarrow>
          (case (text_field (members p) ''scope'', text_field (members p) ''configuration'', text_field (members p) ''topic_key'') of
             (Inr s, Inr c, Inr t) \<Rightarrow>
               if s \<noteq> mq_scope q \<or> c \<noteq> mq_configuration q \<or> t = [] \<or> t = mq_topic_key q then None
               else Some (plain_warning ''memo_topic_related'' (''related current memo topic: '' @ t) (record_ref r))
           | _ \<Rightarrow> None))"

definition related_topic_warnings :: "records_env \<Rightarrow> memo_request \<Rightarrow> record_db \<Rightarrow> warning list" where
  "related_topic_warnings env q db =
     (case run_query env ((memo_query env maximumRecordQuery)\<lparr>rq_terms := [mq_scope q]\<rparr>) db of
        Inl _ \<Rightarrow> [plain_warning ''memo_topic_check_unknown'' ''related memo topics could not be checked'' None]
      | Inr page \<Rightarrow> take 3 (List.map_filter (related_topic env q) (pg_records page)))"

definition host_conflict :: "records_env \<Rightarrow> memo_request \<Rightarrow> host_fact \<Rightarrow> durable \<Rightarrow> warning option" where
  "host_conflict env q h r =
     (if du_id r = mq_id q \<or> du_schema_version r \<noteq> ''memo.v2'' then None
      else case xe_object env (du_payload r) of
          Inl _ \<Rightarrow> None
        | Inr p \<Rightarrow>
            (case (text_field (members p) ''memo_kind'', host_field (members p) ''host'') of
               (Inr kind, Inr (Some other)) \<Rightarrow>
                 if kind \<noteq> ''host_fact'' \<or> \<not> xe_fold_eq env (hf_alias other) (hf_alias h) \<or>
                    xe_fold_eq env (hf_os other) (hf_os h) \<and> xe_fold_eq env (hf_role other) (hf_role h) then None
                 else Some (plain_warning ''host_fact_conflict'' ''a current fact for this alias disagrees on os or role'' (record_ref r))
             | _ \<Rightarrow> None))"

definition host_fact_warnings :: "records_env \<Rightarrow> memo_request \<Rightarrow> record_db \<Rightarrow> warning list" where
  "host_fact_warnings env q db =
     (case mq_host q of
        None \<Rightarrow> []
      | Some h \<Rightarrow>
          if mq_kind q \<noteq> ''host_fact'' \<or> mq_mode q = ''supersede'' then []
          else case run_query env ((memo_query env maximumRecordQuery)\<lparr>rq_terms := [hf_alias h]\<rparr>) db of
              Inl _ \<Rightarrow> [plain_warning ''host_fact_check_unknown'' ''current host facts could not be checked'' None]
            | Inr page \<Rightarrow>
                (let ws = take 8 (List.map_filter (host_conflict env q h) (pg_records page))
                 in if \<not> pg_complete page \<and> length ws < 8
                    then ws @ [plain_warning ''host_fact_check_partial'' ''host fact conflict check was bounded'' None] else ws))"

section \<open>Writing a memo\<close>

definition existing_topic_answer :: "records_env \<Rightarrow> durable \<Rightarrow> string \<Rightarrow> go_error + mutation_response" where
  "existing_topic_answer env r view =
     try_then (mutation_answer env r False view) (\<lambda>a. Inr (a\<lparr>mr_status := StatusPartial,
       mr_warnings := [plain_warning ''memo_topic_exists'' ''current topic exists; update by ID/revision or supersede'' (record_ref r)]\<rparr>))"

text \<open>What happens before the store is written: the request as it is to be stored, its payload, the topic
  memo that already exists, and the warnings.\<close>

definition memo_request_checked :: "records_env \<Rightarrow> memo_request \<Rightarrow> record_db \<Rightarrow> go_error + (memo_request \<times> string)" where
  "memo_request_checked env raw db =
     try_then (merged_memo env raw db) (\<lambda>(merged, current).
       let q = prepared_memo env merged
       in case validate_memo (xe_time env) (xe_lower env) q of
            Inl e \<Rightarrow> Inl (invalid_argument e)
          | Inr _ \<Rightarrow>
              (let c = canonical_memo env q; payload = xe_marshal env (memo_payload c)
               in try_then (payload_limit ''memo'' payload) (\<lambda>_.
                  try_then (case current of None \<Rightarrow> Inr () | Some r \<Rightarrow> identity_check env r c) (\<lambda>_. Inr (c, payload)))))"

definition new_topic :: "memo_request \<Rightarrow> bool" where
  "new_topic q \<longleftrightarrow> mq_mode q = ''create'' \<and> mq_topic_key q \<noteq> [] \<and> mq_supersedes q = []"

definition time_warnings :: "memo_request \<Rightarrow> warning list" where
  "time_warnings q =
     (if mq_mode q = ''create'' \<and> mq_kind q \<noteq> ''host_fact'' \<and> mq_temporal_kind q = []
      then [plain_warning ''memo_time_unknown'' ''time unknown; set temporal_kind/as_of only from evidence'' None] else [])"

text \<open>The topic check: \<open>Inl\<close> the memo that holds the topic, or the warnings to add.\<close>

definition topic_check :: "records_env \<Rightarrow> memo_request \<Rightarrow> record_db \<Rightarrow> durable + warning list" where
  "topic_check env q db =
     (if \<not> new_topic q then Inr []
      else case current_topic_memo env (mq_scope q) (mq_configuration q) (mq_topic_key q) db of
          Inl _ \<Rightarrow> Inr [plain_warning ''memo_topic_check_unknown'' ''current memo topics could not be checked'' None]
        | Inr (Some r) \<Rightarrow> Inl r
        | Inr None \<Rightarrow> Inr (related_topic_warnings env q db))"

definition store_memo ::
    "records_env \<Rightarrow> time \<Rightarrow> time \<Rightarrow> string \<Rightarrow> memo_request \<Rightarrow> string \<Rightarrow> record_db \<Rightarrow> record_db \<times> (go_error + durable)" where
  "store_memo env now later k q payload db =
     (if mq_mode q = ''create'' \<and> mq_supersedes q \<noteq> [] then
        stored (replace_memo (xe_json env)
          \<lparr>rr_project = xe_id env, rr_workspace = xe_id env, rr_old_id = mq_supersedes q, rr_expected = mq_expected q,
           rr_new = (new_record env now k ''memo'' (memo_schema q) (mq_source q) payload (non_nil (mq_evidence q)))
             \<lparr>du_supersedes := mq_supersedes q\<rparr>\<rparr> db)
      else mutate env now later k ''memo'' (memo_schema q) (mq_source q) (mq_mode q) (mq_id q) (mq_expected q) payload
        (non_nil (mq_evidence q)) db)"

text \<open>A create that lost a race for its topic answers with the memo that won; \<open>race\<close> is what other writers do
  between the checks and the write.\<close>

definition write_memo ::
    "records_env \<Rightarrow> time \<Rightarrow> time \<Rightarrow> string \<Rightarrow> (record_db \<Rightarrow> record_db) \<Rightarrow> memo_request \<Rightarrow> record_db \<Rightarrow>
     record_db \<times> (go_error + mutation_response)" where
  "write_memo env now later k race raw db =
     (case memo_request_checked env raw db of
        Inl e \<Rightarrow> (db, Inl e)
      | Inr (q, payload) \<Rightarrow>
          (case topic_check env q db of
             Inl r \<Rightarrow> (db, existing_topic_answer env r (mq_view q))
           | Inr topic_warnings \<Rightarrow>
               (let warnings = host_fact_warnings env q db @ time_warnings q @ topic_warnings
                in case store_memo env now later k q payload (race db) of
                     (db', Inr r) \<Rightarrow> (db', try_then (mutation_answer env r False (mq_view q)) (\<lambda>a. Inr (a\<lparr>mr_warnings := warnings\<rparr>)))
                   | (db', Inl e) \<Rightarrow>
                       (db', case current_topic_memo env (mq_scope q) (mq_configuration q) (mq_topic_key q) db' of
                          Inr (Some r) \<Rightarrow> if new_topic q \<and> errors_is e StoreConflict then existing_topic_answer env r (mq_view q) else Inl e
                        | _ \<Rightarrow> Inl e))))"

end
