(* ===== verification/CatalogStore.thy ===== *)
theory CatalogStore
  imports GoPrelude "HOL-Library.Multiset" "HOL-Library.Char_ord" "HOL-Library.List_Lexorder" "HOL-Library.Product_Lexorder"
begin

text \<open>
  Workspaces, catalog generations and result sets as \<open>internal/store/sqlite\<close> keeps them
  (\<open>sqlite.go\<close>, \<open>catalog_retention.go\<close>). Rows that SQLite deletes by cascade are nested in the row
  that owns them; the triggers on \<open>current_catalog\<close> are part of the statements that fire them.
  \<open>json_valid\<close> stands for \<open>json.Valid\<close> and \<open>lower\<close> for \<open>strings.ToLower\<close>.
\<close>

section \<open>Rows\<close>

record workspace_row =
  ws_id :: string
  ws_fingerprint :: string
  ws_created_at :: time
  ws_seen_at :: time

record catalog_term =
  ct_field :: string
  ct_term :: string
  ct_weight :: int

record catalog_item =
  ci_id :: string
  ci_revision :: string
  ci_source :: string
  ci_execution :: string
  ci_document :: string
  ci_terms :: "catalog_term list"

record catalog_issue =
  cu_code :: string
  cu_source :: string
  cu_detail :: string

record generation_meta =
  gm_id :: string
  gm_workspace :: string
  gm_fingerprint :: string
  gm_created_at :: time

record catalog_generation =
  gn_meta :: generation_meta
  gn_items :: "catalog_item list"
  gn_issues :: "catalog_issue list"

record result_item =
  ri_ordinal :: nat
  ri_ref :: string
  ri_hash :: string
  ri_payload :: string

record result_set =
  sn_id :: string
  sn_workspace :: string
  sn_query :: string
  sn_generation :: string
  sn_created_at :: time
  sn_expires_at :: time
  sn_metadata :: string
  sn_items :: "result_item list"

text \<open>\<open>db_retired\<close> is the table \<open>catalog_retirements\<close>.\<close>

record catalog_db =
  db_workspaces :: "workspace_row list"
  db_generations :: "catalog_generation list"
  db_current :: "(string, string) gomap"
  db_retired :: "(string, time) gomap"
  db_results :: "result_set list"

definition fresh_catalog :: catalog_db where
  "fresh_catalog = \<lparr>db_workspaces = [], db_generations = [], db_current = [], db_retired = [], db_results = []\<rparr>"

abbreviation gn_id :: "catalog_generation \<Rightarrow> string" where
  "gn_id g \<equiv> gm_id (gn_meta g)"

definition find_generation :: "string \<Rightarrow> catalog_db \<Rightarrow> catalog_generation option" where
  "find_generation k db = find (\<lambda>g. gn_id g = k) (db_generations db)"

definition has_workspace :: "string \<Rightarrow> catalog_db \<Rightarrow> bool" where
  "has_workspace w db \<longleftrightarrow> list_ex (\<lambda>x. ws_id x = w) (db_workspaces db)"

section \<open>Workspaces\<close>

definition upsert_workspace :: "workspace_row \<Rightarrow> catalog_db \<Rightarrow> catalog_db \<times> (go_error + unit)" where
  "upsert_workspace w db =
     (if ws_id w = [] \<or> ws_fingerprint w = [] then (db, Inl (Sentinel StoreConflict))
      else if has_workspace (ws_id w) db then
        (db\<lparr>db_workspaces := map (\<lambda>x. if ws_id x = ws_id w
            then x\<lparr>ws_fingerprint := ws_fingerprint w, ws_seen_at := ws_seen_at w\<rparr> else x) (db_workspaces db)\<rparr>, Inr ())
      else (db\<lparr>db_workspaces := db_workspaces db @ [w]\<rparr>, Inr ()))"

definition get_workspace :: "string \<Rightarrow> catalog_db \<Rightarrow> go_error + workspace_row" where
  "get_workspace w db =
     (case find (\<lambda>x. ws_id x = w) (db_workspaces db) of
        None \<Rightarrow> Inl (Sentinel StoreNotFound) | Some x \<Rightarrow> Inr x)"

section \<open>Publication\<close>

definition item_invalid :: "(string \<Rightarrow> bool) \<Rightarrow> catalog_item \<Rightarrow> bool" where
  "item_invalid json_valid i \<longleftrightarrow>
     ci_id i = [] \<or> ci_revision i = [] \<or> ci_source i = [] \<or> \<not> json_valid (ci_document i)"

fun items_rejected :: "(string \<Rightarrow> bool) \<Rightarrow> string list \<Rightarrow> catalog_item list \<Rightarrow> bool" where
  "items_rejected json_valid seen [] = False"
| "items_rejected json_valid seen (i # is) =
     (item_invalid json_valid i \<or> List.member seen (ci_id i) \<or>
      items_rejected json_valid (ci_id i # seen) is)"

definition validate_generation :: "(string \<Rightarrow> bool) \<Rightarrow> catalog_generation \<Rightarrow> go_error + unit" where
  "validate_generation json_valid g =
     (let m = gn_meta g
      in if gm_id m = [] \<or> gm_workspace m = [] \<or> gm_fingerprint m = [] \<or> is_zero_time (gm_created_at m)
           then Inl (Sentinel StoreConflict)
         else if items_rejected json_valid [] (gn_items g) then Inl (Sentinel StoreConflict)
         else if list_ex (\<lambda>u. cu_code u = [] \<or> \<not> json_valid (cu_detail u)) (gn_issues g)
           then Inl (Sentinel StoreConflict)
         else Inr ())"

text \<open>The upsert of \<open>current_catalog\<close> with the triggers it fires: a replaced generation is retired at
  the clock of the database, the new one loses its retirement.\<close>

definition set_current :: "time \<Rightarrow> string \<Rightarrow> string \<Rightarrow> catalog_db \<Rightarrow> catalog_db" where
  "set_current clock w g db =
     (case map_of (db_current db) w of
        None \<Rightarrow> db\<lparr>db_current := map_put w g (db_current db), db_retired := map_del g (db_retired db)\<rparr>
      | Some old \<Rightarrow>
          if old = g then db
          else db\<lparr>db_current := map_put w g (db_current db),
                  db_retired := map_del g (map_put old clock (db_retired db))\<rparr>)"

definition activate_generation :: "time \<Rightarrow> generation_meta \<Rightarrow> catalog_db \<Rightarrow> catalog_db" where
  "activate_generation clock m db =
     (let previous = map_of (db_current db) (gm_workspace m);
          db' = set_current clock (gm_workspace m) (gm_id m) db
      in case previous of
           None \<Rightarrow> db'
         | Some old \<Rightarrow>
             if old \<noteq> [] \<and> old \<noteq> gm_id m \<and> map_of (db_retired db') old \<noteq> None
             then db'\<lparr>db_retired := map_put old (gm_created_at m) (db_retired db')\<rparr> else db')"

definition publish_generation ::
    "(string \<Rightarrow> bool) \<Rightarrow> time \<Rightarrow> catalog_generation \<Rightarrow> catalog_db \<Rightarrow> catalog_db \<times> (go_error + unit)" where
  "publish_generation json_valid clock g db =
     (let m = gn_meta g
      in case validate_generation json_valid g of
           Inl e \<Rightarrow> (db, Inl e)
         | Inr _ \<Rightarrow>
             (case find_generation (gm_id m) db of
                Some old \<Rightarrow>
                  if gm_workspace (gn_meta old) \<noteq> gm_workspace m \<or> gm_fingerprint (gn_meta old) \<noteq> gm_fingerprint m
                  then (db, Inl (Sentinel StoreConflict))
                  else (activate_generation clock m db, Inr ())
              | None \<Rightarrow>
                  if \<not> has_workspace (gm_workspace m) db then (db, Inl (Sentinel StoreConflict))
                  else (activate_generation clock m (db\<lparr>db_generations := db_generations db @ [g]\<rparr>), Inr ())))"

text \<open>Opening the file gives a retirement time to the generations that have none.\<close>

definition unobserved :: "catalog_db \<Rightarrow> string list" where
  "unobserved db = filter (\<lambda>k. \<not> List.member (map snd (db_current db)) k \<and> map_of (db_retired db) k = None)
     (map gn_id (db_generations db))"

definition initialize_retention :: "time \<Rightarrow> catalog_db \<Rightarrow> catalog_db" where
  "initialize_retention now db =
     db\<lparr>db_retired := fold (\<lambda>k. map_put k now) (unobserved db) (db_retired db)\<rparr>"

section \<open>Reading a generation\<close>

definition current_generation :: "string \<Rightarrow> catalog_db \<Rightarrow> go_error + generation_meta" where
  "current_generation w db =
     (case map_of (db_current db) w of
        None \<Rightarrow> Inl (Sentinel StoreNotFound)
      | Some k \<Rightarrow> (case find_generation k db of
            None \<Rightarrow> Inl (Sentinel StoreNotFound) | Some g \<Rightarrow> Inr (gn_meta g)))"

definition resolve_generation :: "string \<Rightarrow> string \<Rightarrow> catalog_db \<Rightarrow> go_error + string" where
  "resolve_generation w k db =
     (if k \<noteq> [] then
        (case find_generation k db of
           None \<Rightarrow> Inl (Sentinel StoreNotFound)
         | Some g \<Rightarrow> if gm_workspace (gn_meta g) = w then Inr k else Inl (Sentinel StoreNotFound))
      else try_then (current_generation w db) (\<lambda>m. Inr (gm_id m)))"

definition generation_items :: "string \<Rightarrow> catalog_db \<Rightarrow> catalog_item list" where
  "generation_items k db = (case find_generation k db of None \<Rightarrow> [] | Some g \<Rightarrow> gn_items g)"

definition read_terms :: "catalog_item \<Rightarrow> catalog_item" where
  "read_terms i = i\<lparr>ci_terms := sort_key (\<lambda>t. (ct_field t, ct_term t, ct_weight t)) (ci_terms i)\<rparr>"

definition get_catalog_item :: "string \<Rightarrow> string \<Rightarrow> string \<Rightarrow> catalog_db \<Rightarrow> go_error + catalog_item" where
  "get_catalog_item w k i db =
     try_then (resolve_generation w k db) (\<lambda>r.
       case find (\<lambda>x. ci_id x = i) (generation_items r db) of
         None \<Rightarrow> Inl (Sentinel StoreNotFound) | Some x \<Rightarrow> Inr (read_terms x))"

definition list_catalog_issues :: "string \<Rightarrow> string \<Rightarrow> catalog_db \<Rightarrow> go_error + catalog_issue list" where
  "list_catalog_issues w k db =
     try_then (resolve_generation w k db) (\<lambda>r.
       Inr (case find_generation r db of None \<Rightarrow> [] | Some g \<Rightarrow> gn_issues g))"

section \<open>Search\<close>

definition fold_catalog_text :: "(string \<Rightarrow> string) \<Rightarrow> string \<Rightarrow> string" where
  "fold_catalog_text lower v = map (\<lambda>c. if c = CHR ''-'' \<or> c = CHR ''_'' \<or> c = CHR ''/'' then CHR ''.'' else c) (lower v)"

definition normalize_terms :: "(string \<Rightarrow> string) \<Rightarrow> string list \<Rightarrow> string list" where
  "normalize_terms lower ts = filter (\<lambda>t. t \<noteq> []) (map (\<lambda>t. fold_catalog_text lower (trim_space t)) ts)"

definition item_score :: "(string \<Rightarrow> string) \<Rightarrow> catalog_term list \<Rightarrow> string list \<Rightarrow> int" where
  "item_score lower its qs =
     fold (\<lambda>q r. fold (\<lambda>t r. if contains_str (fold_catalog_text lower (ct_term t)) q
                              then wrap64 (r + ct_weight t) else r) its r) qs 0"

record store_query =
  cq_workspace :: string
  cq_generation :: string
  cq_exact :: string
  cq_terms :: "string list"
  cq_limit :: nat

record catalog_match =
  mt_item :: catalog_item
  mt_score :: int

record catalog_page =
  cp_generation :: string
  cp_matches :: "catalog_match list"
  cp_matched :: nat

definition catalog_match_of :: "(string \<Rightarrow> string) \<Rightarrow> string \<Rightarrow> string list \<Rightarrow> catalog_item \<Rightarrow> catalog_match option" where
  "catalog_match_of lower exact_id terms i =
     (let exact = exact_id \<noteq> [] \<and> fold_catalog_text lower exact_id = fold_catalog_text lower (ci_id i);
          sc = item_score lower (ci_terms i) terms
      in if exact \<or> 0 < sc \<or> terms = []
           then Some \<lparr>mt_item = i, mt_score = (if exact then wrap64 (sc + 1000000) else sc)\<rparr> else None)"

definition match_rank :: "catalog_match \<Rightarrow> int \<times> string" where
  "match_rank m = (- mt_score m, ci_id (mt_item m))"

definition search_catalog :: "(string \<Rightarrow> string) \<Rightarrow> store_query \<Rightarrow> catalog_db \<Rightarrow> go_error + catalog_page" where
  "search_catalog lower q db =
     (if cq_limit q = 0 then Inl (Sentinel StoreConflict)
      else try_then (resolve_generation (cq_workspace q) (cq_generation q) db) (\<lambda>k.
        (let terms = normalize_terms lower (cq_terms q);
             found = sort_key match_rank (List.map_filter (\<lambda>i. catalog_match_of lower (cq_exact q) terms (read_terms i))
                       (generation_items k db))
         in Inr \<lparr>cp_generation = k, cp_matches = take (cq_limit q) found, cp_matched = length found\<rparr>)))"

section \<open>Result sets\<close>

fun result_items_rejected :: "(string \<Rightarrow> bool) \<Rightarrow> nat \<Rightarrow> result_item list \<Rightarrow> bool" where
  "result_items_rejected json_valid n [] = False"
| "result_items_rejected json_valid n (i # is) =
     (ri_ordinal i \<noteq> n \<or> ri_ref i = [] \<or> ri_hash i = [] \<or> \<not> json_valid (ri_payload i) \<or>
      result_items_rejected json_valid (Suc n) is)"

definition validate_result_set :: "(string \<Rightarrow> bool) \<Rightarrow> result_set \<Rightarrow> go_error + unit" where
  "validate_result_set json_valid s =
     (if sn_id s = [] \<or> sn_workspace s = [] \<or> sn_query s = [] \<or> sn_generation s = [] \<or>
         is_zero_time (sn_created_at s) \<or> \<not> sn_created_at s < sn_expires_at s \<or> \<not> json_valid (sn_metadata s)
        then Inl (Sentinel StoreConflict)
      else if result_items_rejected json_valid 0 (sn_items s) then Inl (Sentinel StoreConflict) else Inr ())"

text \<open>\<open>deleteExpiredResultSetsSQL\<close>: the oldest expired sets go first, at most \<open>limit\<close> of them.\<close>

definition expired_sets :: "time \<Rightarrow> nat \<Rightarrow> result_set list \<Rightarrow> result_set list" where
  "expired_sets now limit rs = take limit (sort_key (\<lambda>s. (sn_expires_at s, sn_id s)) (filter (\<lambda>s. sn_expires_at s \<le> now) rs))"

definition drop_expired :: "time \<Rightarrow> nat \<Rightarrow> result_set list \<Rightarrow> result_set list" where
  "drop_expired now limit rs = filter (\<lambda>s. \<not> List.member (map sn_id (expired_sets now limit rs)) (sn_id s)) rs"

definition expiredResultSetBatch :: nat where "expiredResultSetBatch = 64"

definition create_result_set :: "(string \<Rightarrow> bool) \<Rightarrow> result_set \<Rightarrow> catalog_db \<Rightarrow> catalog_db \<times> (go_error + unit)" where
  "create_result_set json_valid s db =
     (case validate_result_set json_valid s of
        Inl e \<Rightarrow> (db, Inl e)
      | Inr _ \<Rightarrow>
          (let rs = drop_expired (sn_created_at s) expiredResultSetBatch (db_results db)
           in if \<not> has_workspace (sn_workspace s) db \<or> list_ex (\<lambda>x. sn_id x = sn_id s) rs
                then (db, Inl (Sentinel StoreConflict))
              else (db\<lparr>db_results := rs @ [s]\<rparr>, Inr ())))"

text \<open>The candidates \<open>FindResultSet\<close> chooses from: SQLite leaves the order of equal expiries open, so
  \<open>pick\<close> selects one of them.\<close>

definition reusable_sets :: "string \<Rightarrow> string \<Rightarrow> string \<Rightarrow> time \<Rightarrow> catalog_db \<Rightarrow> result_set list" where
  "reusable_sets w k h min_expires db =
     filter (\<lambda>s. sn_generation s = k \<and> sn_workspace s = w \<and> sn_query s = h \<and> min_expires < sn_expires_at s) (db_results db)"

definition find_result_set ::
    "(result_set list \<Rightarrow> result_set) \<Rightarrow> string \<Rightarrow> string \<Rightarrow> string \<Rightarrow> time \<Rightarrow> catalog_db \<Rightarrow> go_error + result_set" where
  "find_result_set pick w k h min_expires db =
     (let cs = reusable_sets w k h min_expires db;
          best = filter (\<lambda>s. list_all (\<lambda>x. sn_expires_at x \<le> sn_expires_at s) cs) cs
      in if cs = [] then Inl (Sentinel StoreNotFound)
         else Inr ((pick best)\<lparr>sn_metadata := [], sn_items := []\<rparr>))"

record result_page =
  pg_set :: string
  pg_items :: "result_item list"
  pg_total :: nat
  pg_metadata :: string
  pg_next :: "nat option"

definition read_result_page :: "string \<Rightarrow> nat \<Rightarrow> nat \<Rightarrow> catalog_db \<Rightarrow> go_error + result_page" where
  "read_result_page k start limit db =
     (if limit = 0 then Inl (Sentinel StoreConflict)
      else case find (\<lambda>s. sn_id s = k) (db_results db) of
        None \<Rightarrow> Inl (Sentinel StoreNotFound)
      | Some s \<Rightarrow>
          (let items = take (limit + 1) (filter (\<lambda>i. start \<le> ri_ordinal i) (sort_key ri_ordinal (sn_items s)))
           in Inr \<lparr>pg_set = k, pg_items = take limit items, pg_total = length (sn_items s), pg_metadata = sn_metadata s,
                   pg_next = (if limit < length items then Some (ri_ordinal (items ! limit)) else None)\<rparr>))"

definition delete_expired_result_sets :: "time \<Rightarrow> nat \<Rightarrow> catalog_db \<Rightarrow> catalog_db \<times> nat" where
  "delete_expired_result_sets now limit db =
     (if limit = 0 then (db, 0)
      else (db\<lparr>db_results := drop_expired now limit (db_results db)\<rparr>, length (expired_sets now limit (db_results db))))"

section \<open>Retired generations\<close>

definition live_snapshot :: "time \<Rightarrow> string \<Rightarrow> catalog_db \<Rightarrow> bool" where
  "live_snapshot now k db \<longleftrightarrow> list_ex (\<lambda>s. sn_generation s = k \<and> now < sn_expires_at s) (db_results db)"

definition retired_generations :: "string \<Rightarrow> time \<Rightarrow> time \<Rightarrow> nat \<Rightarrow> catalog_db \<Rightarrow> string list" where
  "retired_generations w before now limit db =
     take limit (map snd (sort (map (\<lambda>g. (the (map_of (db_retired db) (gn_id g)), gn_id g))
       (filter (\<lambda>g. gm_workspace (gn_meta g) = w \<and>
            (case map_of (db_retired db) (gn_id g) of None \<Rightarrow> False | Some at_time \<Rightarrow> at_time \<le> before) \<and>
            \<not> List.member (map snd (db_current db)) (gn_id g) \<and> \<not> live_snapshot now (gn_id g) db)
          (db_generations db)))))"

definition delete_retired_generations :: "string \<Rightarrow> time \<Rightarrow> time \<Rightarrow> nat \<Rightarrow> catalog_db \<Rightarrow> catalog_db \<times> nat" where
  "delete_retired_generations w before now limit db =
     (let gone = retired_generations w before now limit db
      in if limit = 0 \<or> gone = [] then (db, 0)
         else (db\<lparr>db_generations := filter (\<lambda>g. \<not> List.member gone (gn_id g)) (db_generations db),
                  db_current := filter (\<lambda>c. \<not> List.member gone (snd c)) (db_current db),
                  db_retired := filter (\<lambda>r. \<not> List.member gone (fst r)) (db_retired db)\<rparr>, length gone))"

section \<open>The invariant\<close>

definition catalog_ok :: "catalog_db \<Rightarrow> bool" where
  "catalog_ok db \<longleftrightarrow>
     distinct (map gn_id (db_generations db)) \<and> wf_map (db_current db) \<and> wf_map (db_retired db) \<and>
     distinct (map sn_id (db_results db)) \<and>
     (\<forall>w k. map_of (db_current db) w = Some k \<longrightarrow>
        (\<exists>g \<in> set (db_generations db). gn_id g = k \<and> gm_workspace (gn_meta g) = w)) \<and>
     (\<forall>k. map_of (db_retired db) k \<noteq> None \<longrightarrow> k \<in> gn_id ` set (db_generations db)) \<and>
     (\<forall>k \<in> gn_id ` set (db_generations db).
        (\<exists>w. map_of (db_current db) w = Some k) \<longleftrightarrow> map_of (db_retired db) k = None)"

text \<open>A step carries the clock reading by which the operation judges expiry; the operations that judge
  none are steps at any time.\<close>

inductive catalog_step :: "(string \<Rightarrow> bool) \<Rightarrow> time \<Rightarrow> catalog_db \<Rightarrow> catalog_db \<Rightarrow> bool" for json_valid where
  upsert: "catalog_step json_valid now db (fst (upsert_workspace w db))"
| publish: "catalog_step json_valid now db (fst (publish_generation json_valid clock g db))"
| reopen: "catalog_step json_valid now db (initialize_retention now db)"
| snapshot: "catalog_step json_valid (sn_created_at s) db (fst (create_result_set json_valid s db))"
| expire: "catalog_step json_valid now db (fst (delete_expired_result_sets now limit db))"
| retire: "catalog_step json_valid now db (fst (delete_retired_generations w before now limit db))"

inductive catalog_reachable :: "(string \<Rightarrow> bool) \<Rightarrow> catalog_db \<Rightarrow> bool" for json_valid where
  fresh: "catalog_reachable json_valid fresh_catalog"
| step: "catalog_reachable json_valid db \<Longrightarrow> catalog_step json_valid now db db' \<Longrightarrow> catalog_reachable json_valid db'"

text \<open>A run all of whose clock readings are before \<open>t\<close>.\<close>

inductive catalog_run :: "(string \<Rightarrow> bool) \<Rightarrow> time \<Rightarrow> catalog_db \<Rightarrow> catalog_db \<Rightarrow> bool" for json_valid t where
  stay: "catalog_run json_valid t db db"
| more: "catalog_run json_valid t db db' \<Longrightarrow> catalog_step json_valid now db' db'' \<Longrightarrow> now < t \<Longrightarrow>
    catalog_run json_valid t db db''"

lemma catalog_ok_status:
  "\<lbrakk>catalog_ok db; k \<in> gn_id ` set (db_generations db)\<rbrakk> \<Longrightarrow>
     (\<exists>w. map_of (db_current db) w = Some k) \<longleftrightarrow> map_of (db_retired db) k = None"
  unfolding catalog_ok_def by (elim conjE) (drule (1) bspec)

lemma catalog_okI:
  assumes "distinct (map gn_id (db_generations db))" "wf_map (db_current db)" "wf_map (db_retired db)"
    "distinct (map sn_id (db_results db))"
    "\<And>w k. map_of (db_current db) w = Some k \<Longrightarrow>
       \<exists>g \<in> set (db_generations db). gn_id g = k \<and> gm_workspace (gn_meta g) = w"
    "\<And>k. map_of (db_retired db) k \<noteq> None \<Longrightarrow> k \<in> gn_id ` set (db_generations db)"
    "\<And>k. k \<in> gn_id ` set (db_generations db) \<Longrightarrow>
       (\<exists>w. map_of (db_current db) w = Some k) \<longleftrightarrow> map_of (db_retired db) k = None"
  shows "catalog_ok db"
  unfolding catalog_ok_def by (intro conjI allI impI ballI) (erule assms | rule assms)+

lemma catalog_ok_tables:
  "catalog_ok db \<Longrightarrow> distinct (map gn_id (db_generations db))" "catalog_ok db \<Longrightarrow> wf_map (db_current db)"
  "catalog_ok db \<Longrightarrow> wf_map (db_retired db)" "catalog_ok db \<Longrightarrow> distinct (map sn_id (db_results db))"
  unfolding catalog_ok_def by simp_all

lemma same_generation:
  assumes "distinct (map gn_id gs)" "g \<in> set gs" "g' \<in> set gs" "gn_id g = gn_id g'"
  shows "g = g'"
  using assms by (simp add: distinct_map inj_on_def)

lemma catalog_ok_current:
  "\<lbrakk>catalog_ok db; map_of (db_current db) w = Some k\<rbrakk> \<Longrightarrow>
     \<exists>g \<in> set (db_generations db). gn_id g = k \<and> gm_workspace (gn_meta g) = w"
  unfolding catalog_ok_def by blast

lemma catalog_ok_retired:
  "\<lbrakk>catalog_ok db; map_of (db_retired db) k \<noteq> None\<rbrakk> \<Longrightarrow> k \<in> gn_id ` set (db_generations db)"
  unfolding catalog_ok_def by blast

lemma catalog_ok_unique:
  assumes "catalog_ok db" "map_of (db_current db) w = Some k" "map_of (db_current db) w' = Some k"
  shows "w = w'"
proof -
  obtain g g' where "g \<in> set (db_generations db)" "gn_id g = k" "gm_workspace (gn_meta g) = w"
    and "g' \<in> set (db_generations db)" "gn_id g' = k" "gm_workspace (gn_meta g') = w'"
    using catalog_ok_current [OF assms(1,2)] catalog_ok_current [OF assms(1,3)] by blast
  with same_generation [OF catalog_ok_tables(1) [OF assms(1)], of g g'] show ?thesis by simp
qed

lemma catalog_ok_current_not_retired:
  assumes "catalog_ok db" "map_of (db_current db) w = Some k"
  shows "map_of (db_retired db) k = None"
proof -
  from catalog_ok_current [OF assms] have "k \<in> gn_id ` set (db_generations db)" by blast
  from catalog_ok_status [OF assms(1) this] show ?thesis by (rule iffD1) (rule exI, rule assms(2))
qed

lemma member_snd_current:
  "wf_map m \<Longrightarrow> List.member (map snd m) k \<longleftrightarrow> (\<exists>w. map_of m w = Some k)"
  by (force simp: wf_map_lookup)

lemma find_generation_Some:
  "find_generation k db = Some g \<Longrightarrow> g \<in> set (db_generations db) \<and> gn_id g = k"
  unfolding find_generation_def by (metis (mono_tags, lifting) find_Some_iff nth_mem)

lemma find_generation_None:
  "find_generation k db = None \<longleftrightarrow> k \<notin> gn_id ` set (db_generations db)"
  by (auto simp: find_generation_def find_None_iff)

lemma find_generation_eq:
  assumes "catalog_ok db" "g \<in> set (db_generations db)" "gn_id g = k"
  shows "find_generation k db = Some g"
proof -
  from assms(2,3) have "find_generation k db \<noteq> None" by (auto simp: find_generation_None)
  then obtain g' where g': "find_generation k db = Some g'" by blast
  with find_generation_Some [OF g'] assms have "g' = g"
    using same_generation [OF catalog_ok_tables(1) [OF assms(1)], of g' g] by simp
  with g' show ?thesis by simp
qed

lemma set_current_generations [simp]:
  "db_generations (set_current c w g db) = db_generations db" "db_results (set_current c w g db) = db_results db"
  "db_workspaces (set_current c w g db) = db_workspaces db"
  by (simp_all add: set_current_def split: option.split)

lemma activate_frame [simp]:
  "db_generations (activate_generation c m db) = db_generations db"
  "db_results (activate_generation c m db) = db_results db"
  "db_workspaces (activate_generation c m db) = db_workspaces db"
  by (simp_all add: activate_generation_def Let_def split: option.split)

text \<open>Net effect of an activation on the two tables.\<close>

lemma activate_current:
  "map_of (db_current (activate_generation c m db)) = (map_of (db_current db))(gm_workspace m \<mapsto> gm_id m)"
  by (auto simp: activate_generation_def set_current_def Let_def fun_upd_idem split: option.split)

lemma activate_wf:
  "wf_map (db_current db) \<Longrightarrow> wf_map (db_current (activate_generation c m db))"
  "wf_map (db_retired db) \<Longrightarrow> wf_map (db_retired (activate_generation c m db))"
  by (auto simp: activate_generation_def set_current_def Let_def split: option.split)

lemma activate_retired_dom:
  assumes "\<And>w k. map_of (db_current db) w = Some k \<Longrightarrow> map_of (db_retired db) k = None"
  shows "map_of (db_retired (activate_generation c m db)) k \<noteq> None \<longleftrightarrow>
    k \<noteq> gm_id m \<and> (map_of (db_retired db) k \<noteq> None \<or> map_of (db_current db) (gm_workspace m) = Some k)"
  using assms [of "gm_workspace m"]
  by (auto simp: activate_generation_def set_current_def Let_def split: option.split)

lemma activate_ok:
  assumes ok: "catalog_ok db0" and db: "db_current db = db_current db0" "db_retired db = db_retired db0"
      "db_results db = db_results db0"
    and gens: "distinct (map gn_id (db_generations db))"
      "gn_id ` set (db_generations db) = insert (gm_id m) (gn_id ` set (db_generations db0))"
      "\<And>g. g \<in> set (db_generations db0) \<Longrightarrow> g \<in> set (db_generations db)"
    and new: "\<exists>g \<in> set (db_generations db). gn_id g = gm_id m \<and> gm_workspace (gn_meta g) = gm_workspace m"
  shows "catalog_ok (activate_generation c m db)"
proof -
  let ?d = "activate_generation c m db"
  have cr: "map_of (db_retired db) k = None" if "map_of (db_current db) w = Some k" for w k
    using catalog_ok_current_not_retired [OF ok] that unfolding db .
  have dom: "map_of (db_retired ?d) k \<noteq> None \<longleftrightarrow>
    k \<noteq> gm_id m \<and> (map_of (db_retired db) k \<noteq> None \<or> map_of (db_current db) (gm_workspace m) = Some k)" for k
    by (rule activate_retired_dom) (erule cr)
  note cur = activate_current [of c m db]
  have own: "\<exists>g \<in> set (db_generations db). gn_id g = k \<and> gm_workspace (gn_meta g) = w"
    if "map_of (db_current ?d) w = Some k" for w k
  proof (cases "w = gm_workspace m")
    case True
    with that new cur show ?thesis by simp
  next
    case False
    with that cur have "map_of (db_current db0) w = Some k" by (simp add: db)
    with catalog_ok_current [OF ok] gens(3) show ?thesis by blast
  qed
  have "(\<exists>w. map_of (db_current ?d) w = Some k) \<longleftrightarrow> map_of (db_retired ?d) k = None"
    if k: "k \<in> gn_id ` set (db_generations db)" for k
  proof (cases "k = gm_id m")
    case True
    with cur dom show ?thesis by (metis fun_upd_same)
  next
    case False
    with k gens(2) have k0: "k \<in> gn_id ` set (db_generations db0)" by simp
    from catalog_ok_status [OF ok k0]
    have old: "(\<exists>w. map_of (db_current db) w = Some k) \<longleftrightarrow> map_of (db_retired db) k = None"
      unfolding db .
    have "(\<exists>w. map_of (db_current ?d) w = Some k) \<longleftrightarrow>
        (\<exists>w. w \<noteq> gm_workspace m \<and> map_of (db_current db) w = Some k)"
      using False by (auto simp: cur)
    moreover have "map_of (db_current db) w = Some k \<Longrightarrow> map_of (db_current db) w' = Some k \<Longrightarrow> w = w'" for w w'
      using catalog_ok_unique [OF ok] unfolding db .
    ultimately show ?thesis using old dom [of k] False by (metis option.distinct(1))
  qed
  moreover have "k \<in> gn_id ` set (db_generations db)" if "map_of (db_retired ?d) k \<noteq> None" for k
  proof -
    from that dom [of k] consider "map_of (db_retired db) k \<noteq> None" | "map_of (db_current db) (gm_workspace m) = Some k"
      by blast
    then have "k \<in> gn_id ` set (db_generations db0)"
      using catalog_ok_retired [OF ok] catalog_ok_current [OF ok] unfolding db by cases blast+
    with gens(2) show ?thesis by simp
  qed
  ultimately show ?thesis
    using own gens(1) activate_wf [of db c m] catalog_ok_tables [OF ok]
    by (intro catalog_okI) (simp_all only: activate_frame db)
qed

lemma publish_ok:
  assumes ok: "catalog_ok db"
  shows "catalog_ok (fst (publish_generation json_valid clock g db))"
proof (cases "find_generation (gn_id g) db")
  case (Some old)
  from find_generation_Some [OF this] have old: "old \<in> set (db_generations db)" "gn_id old = gn_id g" by auto
  then have "insert (gn_id g) (gn_id ` set (db_generations db)) = gn_id ` set (db_generations db)" by (metis image_eqI insert_absorb)
  then have "catalog_ok (activate_generation clock (gn_meta g) db)" if "gm_workspace (gn_meta old) = gm_workspace (gn_meta g)"
    using activate_ok [OF ok, of db "gn_meta g" clock] catalog_ok_tables [OF ok] old that by auto
  with ok Some show ?thesis by (auto simp: publish_generation_def Let_def split: sum.split)
next
  case None
  then have "gn_id g \<notin> gn_id ` set (db_generations db)" by (simp add: find_generation_None)
  then have "catalog_ok (activate_generation clock (gn_meta g) (db\<lparr>db_generations := db_generations db @ [g]\<rparr>))"
    using catalog_ok_tables [OF ok] by (intro activate_ok [OF ok]) auto
  with ok None show ?thesis by (auto simp: publish_generation_def Let_def split: sum.split)
qed

lemma fold_map_put:
  "map_of (fold (\<lambda>k. map_put k v) ks m) k = (if k \<in> set ks then Some v else map_of m k)"
  "wf_map m \<Longrightarrow> wf_map (fold (\<lambda>k. map_put k v) ks m)"
  by (induction ks arbitrary: m) auto

lemma unobserved_set:
  assumes "catalog_ok db"
  shows "set (unobserved db) = {}"
proof -
  have "List.member (map snd (db_current db)) k \<or> map_of (db_retired db) k \<noteq> None"
    if "k \<in> gn_id ` set (db_generations db)" for k
    using catalog_ok_status [OF assms that] catalog_ok_tables(2) [OF assms] by (auto simp: member_snd_current simp del: List.member_iff)
  then show ?thesis by (auto simp: unobserved_def filter_empty_conv simp del: List.member_iff)
qed

lemma drop_expired_distinct:
  "distinct (map sn_id rs) \<Longrightarrow> distinct (map sn_id (drop_expired now limit rs))"
  by (simp add: drop_expired_def distinct_map_filter)

lemma results_ok:
  "\<lbrakk>catalog_ok db; distinct (map sn_id rs)\<rbrakk> \<Longrightarrow> catalog_ok (db\<lparr>db_results := rs\<rparr>)"
  by (simp add: catalog_ok_def)

lemma create_result_ok:
  assumes "catalog_ok db"
  shows "catalog_ok (fst (create_result_set json_valid s db))"
proof -
  let ?rs = "drop_expired (sn_created_at s) expiredResultSetBatch (db_results db)"
  have "distinct (map sn_id (?rs @ [s]))" if "\<not> list_ex (\<lambda>x. sn_id x = sn_id s) ?rs"
    using that drop_expired_distinct [OF catalog_ok_tables(4) [OF assms]] by (auto simp: list_ex_iff)
  with results_ok [OF assms] assms show ?thesis
    by (simp add: create_result_set_def Let_def split: sum.split)
qed

lemma filter_map_of:
  "wf_map m \<Longrightarrow> map_of (filter (\<lambda>(k, v). P k v) m) k = Some v \<longleftrightarrow> map_of m k = Some v \<and> P k v"
  by (simp add: wf_map_lookup)

lemma retired_generation:
  assumes "catalog_ok db" "k \<in> set (retired_generations w before now limit db)"
  obtains g at_time where "g \<in> set (db_generations db)" "gn_id g = k" "gm_workspace (gn_meta g) = w"
    "map_of (db_retired db) k = Some at_time" "at_time \<le> before"
    "\<And>u. map_of (db_current db) u \<noteq> Some k" "\<not> live_snapshot now k db"
proof -
  note m = member_snd_current [OF catalog_ok_tables(2) [OF assms(1)]]
  from assms(2) have "k \<in> snd ` set (map (\<lambda>g. (the (map_of (db_retired db) (gn_id g)), gn_id g))
      (filter (\<lambda>g. gm_workspace (gn_meta g) = w \<and>
            (case map_of (db_retired db) (gn_id g) of None \<Rightarrow> False | Some at_time \<Rightarrow> at_time \<le> before) \<and>
            \<not> List.member (map snd (db_current db)) (gn_id g) \<and> \<not> live_snapshot now (gn_id g) db)
          (db_generations db)))"
    unfolding retired_generations_def by (auto dest: in_set_takeD simp del: List.member_iff)
  then obtain g where g: "g \<in> set (db_generations db)" "gn_id g = k" "gm_workspace (gn_meta g) = w"
    "case map_of (db_retired db) k of None \<Rightarrow> False | Some at_time \<Rightarrow> at_time \<le> before"
    "\<not> List.member (map snd (db_current db)) k" "\<not> live_snapshot now k db"
    by (auto simp del: List.member_iff)
  with m [of k] that [OF g(1-3)] show thesis by (auto split: option.splits simp del: List.member_iff)
qed

lemma delete_retired_frame [simp]:
  "db_results (fst (delete_retired_generations w before now limit db)) = db_results db"
  "db_workspaces (fst (delete_retired_generations w before now limit db)) = db_workspaces db"
  by (simp_all add: delete_retired_generations_def Let_def)

lemma delete_retired_current:
  assumes "catalog_ok db"
  shows "db_current (fst (delete_retired_generations w before now limit db)) = db_current db"
proof -
  have "snd c \<notin> set (retired_generations w before now limit db)" if "c \<in> set (db_current db)" for c
    using that retired_generation [OF assms] wf_map_lookup [OF catalog_ok_tables(2) [OF assms]]
    by (metis prod.collapse)
  then have "filter (\<lambda>c. \<not> List.member (retired_generations w before now limit db) (snd c)) (db_current db) = db_current db"
    by (simp add: filter_id_conv)
  then show ?thesis by (simp add: delete_retired_generations_def Let_def)
qed

lemma delete_retired_shape:
  obtains gone where "set gone \<subseteq> set (retired_generations w before now limit db)"
    "db_generations (fst (delete_retired_generations w before now limit db)) = filter (\<lambda>g. gn_id g \<notin> set gone) (db_generations db)"
    "db_retired (fst (delete_retired_generations w before now limit db)) = filter (\<lambda>r. fst r \<notin> set gone) (db_retired db)"
proof (cases "limit = 0 \<or> retired_generations w before now limit db = []")
  case True
  then show thesis by (intro that [of "[]"]) (auto simp: delete_retired_generations_def Let_def)
next
  case False
  then show thesis
    by (intro that [of "retired_generations w before now limit db"]) (simp_all add: delete_retired_generations_def Let_def)
qed

lemma map_of_filter_keys: "map_of (filter (\<lambda>r. fst r \<notin> S) m) k = (if k \<in> S then None else map_of m k)"
  by (induction m) auto

lemma retire_ok:
  assumes ok: "catalog_ok db"
  shows "catalog_ok (fst (delete_retired_generations w before now limit db))"
proof -
  let ?d = "fst (delete_retired_generations w before now limit db)"
  obtain gone where gone: "set gone \<subseteq> set (retired_generations w before now limit db)"
    "db_generations ?d = filter (\<lambda>g. gn_id g \<notin> set gone) (db_generations db)"
    "db_retired ?d = filter (\<lambda>r. fst r \<notin> set gone) (db_retired db)"
    by (rule delete_retired_shape)
  have cur: "db_current ?d = db_current db" by (rule delete_retired_current [OF ok])
  have nc: "map_of (db_current db) u \<noteq> Some k" if "k \<in> set gone" for u k
    using that gone(1) retired_generation [OF ok] by (metis subsetD)
  show ?thesis
  proof (rule catalog_okI)
    show "distinct (map gn_id (db_generations ?d))" "wf_map (db_retired ?d)"
      using catalog_ok_tables [OF ok] by (simp_all add: gone distinct_map_filter)
    show "wf_map (db_current ?d)" "distinct (map sn_id (db_results ?d))"
      using catalog_ok_tables [OF ok] by (simp_all add: cur)
    show "\<exists>g \<in> set (db_generations ?d). gn_id g = k \<and> gm_workspace (gn_meta g) = u"
      if "map_of (db_current ?d) u = Some k" for u k
      using that catalog_ok_current [OF ok, of u k] nc [of k u] by (auto simp: cur gone)
    show "k \<in> gn_id ` set (db_generations ?d)" if "map_of (db_retired ?d) k \<noteq> None" for k
    proof -
      from that have "k \<notin> set gone" "map_of (db_retired db) k \<noteq> None"
        by (auto simp: gone map_of_filter_keys split: if_splits)
      with catalog_ok_retired [OF ok] gone(2) show ?thesis by fastforce
    qed
    show "(\<exists>u. map_of (db_current ?d) u = Some k) \<longleftrightarrow> map_of (db_retired ?d) k = None"
      if "k \<in> gn_id ` set (db_generations ?d)" for k
    proof -
      from that gone(2) have "k \<notin> set gone" "k \<in> gn_id ` set (db_generations db)" by auto
      with catalog_ok_status [OF ok] show ?thesis by (simp add: cur gone map_of_filter_keys)
    qed
  qed
qed

lemma step_ok: "catalog_step json_valid now db db' \<Longrightarrow> catalog_ok db \<Longrightarrow> catalog_ok db'"
proof (induction rule: catalog_step.induct)
  case (upsert now db w)
  then show ?case by (simp add: upsert_workspace_def catalog_ok_def)
next
  case (reopen now db)
  from unobserved_set [OF this] have "initialize_retention now db = db" by (simp add: initialize_retention_def)
  with reopen show ?case by simp
next
  case (expire now db limit)
  then show ?case using results_ok drop_expired_distinct [OF catalog_ok_tables(4)]
    by (simp add: delete_expired_result_sets_def)
qed (simp_all add: publish_ok create_result_ok retire_ok)

lemma reachable_ok: "catalog_reachable json_valid db \<Longrightarrow> catalog_ok db"
  by (induction rule: catalog_reachable.induct)
    (auto simp: fresh_catalog_def catalog_ok_def [of "\<lparr>db_workspaces = [], db_generations = [], db_current = [], db_retired = [], db_results = []\<rparr>"] step_ok)

lemma drop_expired_subset: "set (drop_expired now limit rs) \<subseteq> set rs"
  by (auto simp: drop_expired_def)

lemma step_results_valid:
  assumes "catalog_step json_valid now db db'" "\<forall>s \<in> set (db_results db). validate_result_set json_valid s = Inr ()"
  shows "\<forall>s \<in> set (db_results db'). validate_result_set json_valid s = Inr ()"
  using assms(1)
proof cases
  case (upsert w)
  with assms(2) show ?thesis by (simp add: upsert_workspace_def)
next
  case (publish clock g)
  with assms(2) show ?thesis by (auto simp: publish_generation_def Let_def split: sum.split option.split)
next
  case (reopen)
  with assms(2) show ?thesis by (simp add: initialize_retention_def)
next
  case (snapshot s')
  with assms(2) drop_expired_subset [of "sn_created_at s'" expiredResultSetBatch "db_results db"] show ?thesis
    by (auto simp: create_result_set_def Let_def split: sum.splits)
next
  case (expire limit)
  with assms(2) drop_expired_subset [of now limit "db_results db"] show ?thesis
    by (auto simp: delete_expired_result_sets_def)
next
  case (retire w before limit)
  with assms(2) show ?thesis by simp
qed

lemma reachable_results_valid:
  "catalog_reachable json_valid db \<Longrightarrow> \<forall>s \<in> set (db_results db). validate_result_set json_valid s = Inr ()"
  by (induction rule: catalog_reachable.induct) (simp add: fresh_catalog_def, rule step_results_valid)

section \<open>What survives a step\<close>

lemma same_result:
  assumes "catalog_ok db" "s \<in> set (db_results db)" "s' \<in> set (db_results db)" "sn_id s = sn_id s'"
  shows "s = s'"
  using catalog_ok_tables(4) [OF assms(1)] assms(2-4) by (simp add: distinct_map inj_on_def)

lemma drop_expired_keeps:
  assumes "catalog_ok db" "s \<in> set (db_results db)" "now < sn_expires_at s"
  shows "s \<in> set (drop_expired now limit (db_results db))"
proof -
  have "sn_id s \<notin> sn_id ` set (expired_sets now limit (db_results db))"
  proof
    assume "sn_id s \<in> sn_id ` set (expired_sets now limit (db_results db))"
    then obtain x where x: "x \<in> set (expired_sets now limit (db_results db))" "sn_id s = sn_id x" by blast
    then have "x \<in> set (db_results db)" "sn_expires_at x \<le> now"
      by (auto simp: expired_sets_def dest!: in_set_takeD)
    with same_result [OF assms(1,2) _ x(2)] assms(3) show False by simp
  qed
  with assms(2) show ?thesis by (simp add: drop_expired_def)
qed

lemma step_keeps_result:
  assumes "catalog_step json_valid now db db'" "catalog_ok db" "s \<in> set (db_results db)" "now < sn_expires_at s"
  shows "s \<in> set (db_results db')"
  using assms(1)
proof cases
  case (upsert w)
  with assms(3) show ?thesis by (simp add: upsert_workspace_def)
next
  case (publish clock g)
  with assms(3) show ?thesis by (auto simp: publish_generation_def Let_def split: sum.split option.split)
next
  case (reopen)
  with assms(3) show ?thesis by (simp add: initialize_retention_def)
next
  case (snapshot s')
  with drop_expired_keeps [OF assms(2-4)] assms(3) show ?thesis
    by (auto simp: create_result_set_def Let_def split: sum.split)
next
  case (expire limit)
  with drop_expired_keeps [OF assms(2-4)] assms(3) show ?thesis by (auto simp: delete_expired_result_sets_def)
next
  case (retire w before limit)
  with assms(3) show ?thesis by simp
qed

lemma publish_generations:
  "\<exists>xs. db_generations (fst (publish_generation json_valid clock g db)) = db_generations db @ xs"
  by (auto simp: publish_generation_def Let_def split: sum.split option.split)

lemma find_append_Some: "find P xs = Some x \<Longrightarrow> find P (xs @ ys) = Some x"
  by (induction xs) (auto split: if_splits)

lemma find_append_None: "find P xs = None \<Longrightarrow> find P (xs @ ys) = find P ys"
  by (induction xs) (auto split: if_splits)

lemma find_generation_append:
  "db_generations db' = db_generations db @ xs \<Longrightarrow> find_generation k db = Some g \<Longrightarrow> find_generation k db' = Some g"
  by (simp add: find_generation_def find_append_Some)

lemma step_keeps_generation:
  assumes "catalog_step json_valid now db db'" "catalog_ok db" "find_generation k db = Some g" "live_snapshot now k db"
  shows "find_generation k db' = Some g"
  using assms(1)
proof cases
  case (publish clock g')
  then show ?thesis using publish_generations find_generation_append assms(3) by metis
next
  case (retire w before limit)
  obtain gone where gone: "set gone \<subseteq> set (retired_generations w before now limit db)"
    "db_generations db' = filter (\<lambda>g. gn_id g \<notin> set gone) (db_generations db)"
    using retire delete_retired_shape [of w before now limit db] by metis
  have "k \<notin> set gone"
    using gone(1) retired_generation [OF assms(2)] assms(4) by (metis subsetD)
  with find_generation_Some [OF assms(3)] gone(2) have "g \<in> set (db_generations db')" "gn_id g = k" by auto
  with find_generation_eq [OF step_ok [OF assms(1,2)]] show ?thesis by simp
qed (use assms(3) in \<open>auto simp: upsert_workspace_def initialize_retention_def create_result_set_def Let_def
  delete_expired_result_sets_def find_generation_def split: sum.split\<close>)

lemma run_keeps:
  assumes "catalog_run json_valid t db db'" "catalog_ok db" "s \<in> set (db_results db)" "t \<le> sn_expires_at s"
  shows "catalog_ok db' \<and> s \<in> set (db_results db') \<and>
    (\<forall>g. find_generation (sn_generation s) db = Some g \<longrightarrow> find_generation (sn_generation s) db' = Some g)"
  using assms
proof (induction rule: catalog_run.induct)
  case (more db db' now db'')
  from more have ih: "catalog_ok db'" "s \<in> set (db_results db')"
    "\<And>g. find_generation (sn_generation s) db = Some g \<Longrightarrow> find_generation (sn_generation s) db' = Some g" by auto
  from more have early: "now < sn_expires_at s" by simp
  from ih(2) early have "live_snapshot now (sn_generation s) db'" by (auto simp: live_snapshot_def list_ex_iff)
  with step_keeps_generation [OF more.hyps(2) ih(1)] step_keeps_result [OF more.hyps(2) ih(1,2) early]
    step_ok [OF more.hyps(2) ih(1)] ih(3)
  show ?case by blast
qed simp

lemma find_result_eq:
  assumes "catalog_ok db" "s \<in> set (db_results db)"
  shows "find (\<lambda>x. sn_id x = sn_id s) (db_results db) = Some s"
proof (cases "find (\<lambda>x. sn_id x = sn_id s) (db_results db)")
  case None
  with assms(2) show ?thesis by (auto simp: find_None_iff)
next
  case (Some x)
  then have "x \<in> set (db_results db)" "sn_id x = sn_id s" by (metis (mono_tags, lifting) find_Some_iff nth_mem)+
  with Some same_result [OF assms(1,2), of x] show ?thesis by simp
qed

lemma distinct_sorted_snd: "distinct (map snd (sort xs)) = distinct (map snd xs)"
  by (rule mset_eq_imp_distinct_iff) (metis mset_map mset_sort)

lemma distinct_retired: "catalog_ok db \<Longrightarrow> distinct (retired_generations w before now limit db)"
  using catalog_ok_tables(1) [of db] unfolding retired_generations_def
  by (intro distinct_take) (simp add: distinct_sorted_snd comp_def distinct_map_filter del: List.member_iff)

lemma length_remove_keys:
  assumes "distinct (map f xs)" "distinct ks" "set ks \<subseteq> f ` set xs"
  shows "length xs = length (filter (\<lambda>x. f x \<notin> set ks) xs) + length ks"
proof -
  have "set (map f (filter (\<lambda>x. f x \<in> set ks) xs)) = set ks" using assms(3) by auto
  moreover have "distinct (map f (filter (\<lambda>x. f x \<in> set ks) xs))" using assms(1) by (simp add: distinct_map_filter)
  ultimately have "length (filter (\<lambda>x. f x \<in> set ks) xs) = length ks"
    using assms(2) by (metis distinct_card length_map)
  then show ?thesis using sum_length_filter_compl [of "\<lambda>x. f x \<in> set ks" xs] by simp
qed

section \<open>Properties\<close>

text \<open>In every reachable database each stored generation either is the current one of its workspace
  or has a retirement time, never both and never neither; a current entry always leads to a stored
  generation of its own workspace.\<close>

theorem generations_current_or_retired:
  assumes "catalog_reachable json_valid db"
  shows "(find_generation k db = Some g \<longrightarrow>
      (map_of (db_current db) (gm_workspace (gn_meta g)) = Some k \<longleftrightarrow> map_of (db_retired db) k = None)) \<and>
    (map_of (db_current db) w = Some k \<longrightarrow>
      (\<exists>m. current_generation w db = Inr m \<and> gm_id m = k \<and> gm_workspace m = w))"
proof (intro conjI impI)
  note ok = reachable_ok [OF assms]
  assume g: "find_generation k db = Some g"
  note g' = find_generation_Some [OF g]
  have "map_of (db_current db) u = Some k \<Longrightarrow> u = gm_workspace (gn_meta g)" for u
    using catalog_ok_current [OF ok, of u k] find_generation_eq [OF ok] g by force
  moreover have "(\<exists>u. map_of (db_current db) u = Some k) \<longleftrightarrow> map_of (db_retired db) k = None"
    using g' by (intro catalog_ok_status [OF ok]) blast
  ultimately show "map_of (db_current db) (gm_workspace (gn_meta g)) = Some k \<longleftrightarrow> map_of (db_retired db) k = None"
    by metis
next
  note ok = reachable_ok [OF assms]
  assume c: "map_of (db_current db) w = Some k"
  from catalog_ok_current [OF ok c] obtain g where "g \<in> set (db_generations db)" "gn_id g = k" "gm_workspace (gn_meta g) = w"
    by blast
  with find_generation_eq [OF ok] c show "\<exists>m. current_generation w db = Inr m \<and> gm_id m = k \<and> gm_workspace m = w"
    by (simp add: current_generation_def)
qed

text \<open>C23: as long as every clock reading lies before the expiry of a stored result set, no sequence of
  store operations removes the set, changes any of its pages, or removes or changes the catalog
  generation it was computed from.\<close>

theorem unexpired_snapshot_survives:
  assumes "catalog_reachable json_valid db" "catalog_run json_valid t db db'"
    "s \<in> set (db_results db)" "t \<le> sn_expires_at s"
  shows "read_result_page (sn_id s) start limit db' = read_result_page (sn_id s) start limit db \<and>
    s \<in> set (db_results db') \<and>
    (find_generation (sn_generation s) db = Some g \<longrightarrow> find_generation (sn_generation s) db' = Some g)"
proof -
  note ok = reachable_ok [OF assms(1)]
  from run_keeps [OF assms(2) ok assms(3,4)] have r: "catalog_ok db'" "s \<in> set (db_results db')"
    "find_generation (sn_generation s) db = Some g \<longrightarrow> find_generation (sn_generation s) db' = Some g" by auto
  with find_result_eq [OF ok assms(3)] find_result_eq [OF r(1,2)] show ?thesis
    by (simp add: read_result_page_def)
qed

text \<open>Removing retired generations takes only generations of the workspace that were retired by the
  cut-off, are current nowhere and carry no result set that is still valid; at most \<open>limit\<close> go, the
  reported number is the number removed, and the current catalog of every workspace reads as before.\<close>

theorem retirement_spares_live:
  assumes "catalog_reachable json_valid db" "delete_retired_generations w before now limit db = (db', n)"
  shows "n \<le> limit \<and> length (db_generations db) = length (db_generations db') + n \<and>
    (\<forall>g \<in> set (db_generations db) - set (db_generations db').
       gm_workspace (gn_meta g) = w \<and> (\<forall>u. map_of (db_current db) u \<noteq> Some (gn_id g)) \<and>
       (\<exists>at_time. map_of (db_retired db) (gn_id g) = Some at_time \<and> at_time \<le> before) \<and>
       \<not> live_snapshot now (gn_id g) db) \<and>
    (\<forall>u. current_generation u db' = current_generation u db)"
proof -
  note ok = reachable_ok [OF assms(1)]
  let ?gone = "retired_generations w before now limit db"
  have db': "db' = fst (delete_retired_generations w before now limit db)" using assms(2) by simp
  note ok' = retire_ok [OF ok, of w before now limit, folded db']
  obtain gone where gone: "set gone \<subseteq> set ?gone"
    "db_generations db' = filter (\<lambda>g. gn_id g \<notin> set gone) (db_generations db)"
    using delete_retired_shape [of w before now limit db] db' by metis
  have removed: "gn_id g \<in> set ?gone" "g \<in> set (db_generations db)"
    if "g \<in> set (db_generations db) - set (db_generations db')" for g
    using that gone by auto
  have p: "gm_workspace (gn_meta g) = w \<and> (\<forall>u. map_of (db_current db) u \<noteq> Some (gn_id g)) \<and>
       (\<exists>at_time. map_of (db_retired db) (gn_id g) = Some at_time \<and> at_time \<le> before) \<and>
       \<not> live_snapshot now (gn_id g) db" if r: "g \<in> set (db_generations db) - set (db_generations db')" for g
  proof -
    from removed [OF r] obtain g' at_time where "g' \<in> set (db_generations db)" "gn_id g' = gn_id g"
      "gm_workspace (gn_meta g') = w" "map_of (db_retired db) (gn_id g) = Some at_time" "at_time \<le> before"
      "\<And>u. map_of (db_current db) u \<noteq> Some (gn_id g)" "\<not> live_snapshot now (gn_id g) db"
      using retired_generation [OF ok] by metis
    moreover have "g' = g"
      using same_generation [OF catalog_ok_tables(1) [OF ok]] calculation(1,2) removed(2) [OF r] by blast
    ultimately show ?thesis by blast
  qed
  have n: "n \<le> limit \<and> length (db_generations db) = length (db_generations db') + n"
  proof (cases "limit = 0 \<or> ?gone = []")
    case True
    with assms(2) show ?thesis by (auto simp: delete_retired_generations_def Let_def)
  next
    case False
    with assms(2) have d: "n = length ?gone" "db_generations db' = filter (\<lambda>g. gn_id g \<notin> set ?gone) (db_generations db)"
      by (auto simp: delete_retired_generations_def Let_def)
    have "set ?gone \<subseteq> gn_id ` set (db_generations db)"
    proof
      fix k
      assume "k \<in> set ?gone"
      then show "k \<in> gn_id ` set (db_generations db)" by (rule retired_generation [OF ok]) blast
    qed
    from length_remove_keys [OF catalog_ok_tables(1) [OF ok] distinct_retired [OF ok] this] d show ?thesis
      by (simp add: retired_generations_def)
  qed
  have "find_generation k db' = find_generation k db" if "map_of (db_current db) u = Some k" for u k
  proof -
    from catalog_ok_current [OF ok that] obtain g where g: "g \<in> set (db_generations db)" "gn_id g = k" by blast
    have "k \<notin> set gone" using gone(1) retired_generation [OF ok] that by (metis subsetD)
    with g gone(2) have "g \<in> set (db_generations db')" by auto
    with find_generation_eq [OF ok g] find_generation_eq [OF ok' _ g(2)] show ?thesis by simp
  qed
  then have "current_generation u db' = current_generation u db" for u
    using delete_retired_current [OF ok, of w before now limit, folded db']
    by (simp add: current_generation_def split: option.split)
  with p n show ?thesis by blast
qed

text \<open>A successful publication makes the published generation the current one of its workspace; when
  the identifier was free, exactly the published items and issues are read back, and otherwise the
  stored generation is kept as it was first published.\<close>

theorem publish_makes_current:
  assumes "catalog_reachable json_valid db" "publish_generation json_valid clock g db = (db', Inr u)"
  shows "(\<exists>m. current_generation (gm_workspace (gn_meta g)) db' = Inr m \<and> gm_id m = gn_id g \<and>
      gm_fingerprint m = gm_fingerprint (gn_meta g)) \<and>
    find_generation (gn_id g) db' =
      Some (case find_generation (gn_id g) db of None \<Rightarrow> g | Some old \<Rightarrow> old) \<and>
    (\<forall>w. w \<noteq> gm_workspace (gn_meta g) \<longrightarrow> current_generation w db' = current_generation w db)"
proof -
  note ok = reachable_ok [OF assms(1)]
  have ok': "catalog_ok db'" using publish_ok [OF ok, of json_valid clock g] assms(2) by simp
  obtain base where base: "db' = activate_generation clock (gn_meta g) base" "db_current base = db_current db"
    "\<exists>xs. db_generations base = db_generations db @ xs"
    and stored: "find_generation (gn_id g) base = Some (case find_generation (gn_id g) db of None \<Rightarrow> g | Some old \<Rightarrow> old)"
    and same: "\<And>old. find_generation (gn_id g) db = Some old \<Longrightarrow> gm_fingerprint (gn_meta old) = gm_fingerprint (gn_meta g)"
  proof (cases "find_generation (gn_id g) db")
    case (Some old)
    with assms(2) show thesis
      by (intro that [of db]) (auto simp: publish_generation_def Let_def split: sum.splits if_splits)
  next
    case None
    with assms(2) show thesis
      by (intro that [of "db\<lparr>db_generations := db_generations db @ [g]\<rparr>"])
        (auto simp: publish_generation_def Let_def find_generation_None find_generation_def find_append_None
          split: sum.splits if_splits)
  qed
  have find': "find_generation k db' = find_generation k base" for k by (simp add: base(1) find_generation_def)
  have cur: "map_of (db_current db') = (map_of (db_current db))(gm_workspace (gn_meta g) \<mapsto> gn_id g)"
    using activate_current [of clock "gn_meta g" base] base(1,2) by simp
  obtain m where m: "find_generation (gn_id g) db' = Some m" "m = (case find_generation (gn_id g) db of None \<Rightarrow> g | Some old \<Rightarrow> old)"
    using stored find' by metis
  have "gm_fingerprint (gn_meta m) = gm_fingerprint (gn_meta g)" using m(2) same by (simp split: option.splits)
  with m find_generation_Some [OF m(1)] cur
  have "\<exists>m. current_generation (gm_workspace (gn_meta g)) db' = Inr m \<and> gm_id m = gn_id g \<and>
      gm_fingerprint m = gm_fingerprint (gn_meta g)"
    by (simp add: current_generation_def)
  moreover have "current_generation w db' = current_generation w db" if w: "w \<noteq> gm_workspace (gn_meta g)" for w
  proof (cases "map_of (db_current db) w")
    case None
    with cur w show ?thesis by (simp add: current_generation_def)
  next
    case (Some k)
    with catalog_ok_current [OF ok] obtain x where "find_generation k db = Some x"
      using find_generation_eq [OF ok] by blast
    with Some cur w base(3) find' find_generation_append show ?thesis by (fastforce simp: current_generation_def)
  qed
  ultimately show ?thesis using m by simp
qed

section \<open>Witnesses\<close>

definition demo_generation :: "string \<Rightarrow> time \<Rightarrow> catalog_generation" where
  "demo_generation k at_time = \<lparr>gn_meta = \<lparr>gm_id = k, gm_workspace = ''w'', gm_fingerprint = ''f'', gm_created_at = at_time\<rparr>,
     gn_items = [\<lparr>ci_id = ''i'', ci_revision = ''r'', ci_source = ''s'', ci_execution = [], ci_document = ''{}'', ci_terms = []\<rparr>],
     gn_issues = []\<rparr>"

definition demo_catalog :: catalog_db where
  "demo_catalog = fst (publish_generation (\<lambda>_. True) 4 (demo_generation ''g1'' 5)
     (fst (upsert_workspace \<lparr>ws_id = ''w'', ws_fingerprint = ''f'', ws_created_at = 1, ws_seen_at = 1\<rparr> fresh_catalog)))"

definition demo_result_set :: result_set where
  "demo_result_set = \<lparr>sn_id = ''s'', sn_workspace = ''w'', sn_query = ''q'', sn_generation = ''g1'', sn_created_at = 6,
     sn_expires_at = 20, sn_metadata = ''{}'',
     sn_items = [\<lparr>ri_ordinal = 0, ri_ref = ''x'', ri_hash = ''h'', ri_payload = ''{}''\<rparr>]\<rparr>"

definition demo_snapshot :: catalog_db where
  "demo_snapshot = fst (create_result_set (\<lambda>_. True) demo_result_set demo_catalog)"

definition demo_replaced :: catalog_db where
  "demo_replaced = fst (publish_generation (\<lambda>_. True) 7 (demo_generation ''g2'' 8) demo_snapshot)"

lemma demo_catalog_reachable: "catalog_reachable (\<lambda>_. True) demo_catalog"
  unfolding demo_catalog_def by (rule step, rule step, rule fresh, rule upsert, rule publish)

lemma demo_snapshot_reachable: "catalog_reachable (\<lambda>_. True) demo_snapshot"
  unfolding demo_snapshot_def by (rule step, rule demo_catalog_reachable, rule snapshot)

lemma demo_replaced_reachable: "catalog_reachable (\<lambda>_. True) demo_replaced"
  unfolding demo_replaced_def by (rule step, rule demo_snapshot_reachable, rule publish)

theorem generations_current_or_retired_witness:
  "map_of (db_retired demo_replaced) ''g1'' = Some 8 \<and> map_of (db_current demo_replaced) ''w'' \<noteq> Some ''g1''"
proof -
  have "find_generation ''g1'' demo_replaced = Some (demo_generation ''g1'' 5)"
    "gm_workspace (gn_meta (demo_generation ''g1'' 5)) = ''w''" "map_of (db_retired demo_replaced) ''g1'' = Some 8" by code_simp+
  with generations_current_or_retired [OF demo_replaced_reachable, of "''g1''" "demo_generation ''g1'' 5"] show ?thesis
    by simp
qed

theorem unexpired_snapshot_survives_witness:
  "demo_result_set \<in> set (db_results (fst (delete_retired_generations ''w'' 9 10 5 demo_replaced)))"
proof -
  have "catalog_run (\<lambda>_. True) 20 demo_snapshot (fst (delete_retired_generations ''w'' 9 10 5 demo_replaced))"
    unfolding demo_replaced_def
    by (rule more, rule more, rule stay, rule publish [where now = 0], simp, rule retire, simp)
  moreover have "demo_result_set \<in> set (db_results demo_snapshot)" "20 \<le> sn_expires_at demo_result_set" by code_simp+
  ultimately show ?thesis using unexpired_snapshot_survives [OF demo_snapshot_reachable] by blast
qed

theorem retirement_spares_live_witness:
  "db_generations (fst (delete_retired_generations ''w'' 9 30 5 demo_replaced)) = [demo_generation ''g2'' 8] \<and>
   current_generation ''w'' (fst (delete_retired_generations ''w'' 9 30 5 demo_replaced)) = current_generation ''w'' demo_replaced"
proof -
  have "db_generations (fst (delete_retired_generations ''w'' 9 30 5 demo_replaced)) = [demo_generation ''g2'' 8]" by code_simp
  moreover have "delete_retired_generations ''w'' 9 30 5 demo_replaced =
      (fst (delete_retired_generations ''w'' 9 30 5 demo_replaced), snd (delete_retired_generations ''w'' 9 30 5 demo_replaced))" by simp
  ultimately show ?thesis using retirement_spares_live [OF demo_replaced_reachable] by blast
qed

theorem publish_makes_current_witness:
  "\<exists>m. current_generation ''w'' demo_replaced = Inr m \<and> gm_id m = ''g2'' \<and> gm_fingerprint m = ''f''"
proof -
  have "snd (publish_generation (\<lambda>_. True) 7 (demo_generation ''g2'' 8) demo_snapshot) = Inr ()" by code_simp
  then have "publish_generation (\<lambda>_. True) 7 (demo_generation ''g2'' 8) demo_snapshot = (demo_replaced, Inr ())"
    unfolding demo_replaced_def by (metis prod.collapse)
  from publish_makes_current [OF demo_snapshot_reachable this] show ?thesis by (simp add: demo_generation_def)
qed

end
