(* ===== verification/Paging.thy ===== *)
theory Paging
  imports CatalogStore Contracts
begin

text \<open>
  What the list operations of RepoPlane share to page through a stored result set: the signed cursors
  of \<open>internal/cursor/codec.go\<close> with the base64 alphabet they travel in, the loop that drops items until
  a response fits its byte limit, and the interface \<open>paged\<close> of a service that pages a snapshot. HMAC
  and the JSON form of a payload are the parameters of \<open>codec\<close>.
\<close>

section \<open>Base64\<close>

definition b64_digit :: "nat \<Rightarrow> char" where
  "b64_digit n = char_of (if n < 26 then 65 + n else if n < 52 then 71 + n else if n < 62 then n - 4
     else if n = 62 then 45 else 95)"

definition b64_value :: "char \<Rightarrow> nat option" where
  "b64_value c = (if between 65 90 c then Some (byte c - 65) else if between 97 122 c then Some (byte c - 71)
     else if between 48 57 c then Some (byte c + 4) else if byte c = 45 then Some 62
     else if byte c = 95 then Some 63 else None)"

fun b64_encode :: "string \<Rightarrow> string" where
  "b64_encode [] = []"
| "b64_encode [a] = [b64_digit (byte a div 4), b64_digit (byte a mod 4 * 16)]"
| "b64_encode [a, b] = [b64_digit (byte a div 4), b64_digit (byte a mod 4 * 16 + byte b div 16), b64_digit (byte b mod 16 * 4)]"
| "b64_encode (a # b # c # r) =
     b64_digit (byte a div 4) # b64_digit (byte a mod 4 * 16 + byte b div 16) #
     b64_digit (byte b mod 16 * 4 + byte c div 64) # b64_digit (byte c mod 64) # b64_encode r"

text \<open>\<open>RawURLEncoding.DecodeString\<close> skips line breaks and is not strict about trailing bits.\<close>

fun b64_groups :: "nat list \<Rightarrow> string option" where
  "b64_groups [] = Some []"
| "b64_groups [p] = None"
| "b64_groups [p, q] = Some [char_of (p * 4 + q div 16)]"
| "b64_groups [p, q, r] = Some [char_of (p * 4 + q div 16), char_of (q mod 16 * 16 + r div 4)]"
| "b64_groups (p # q # r # s # t) =
     map_option (\<lambda>x. char_of (p * 4 + q div 16) # char_of (q mod 16 * 16 + r div 4) # char_of (r mod 4 * 64 + s) # x)
       (b64_groups t)"

definition b64_decode :: "string \<Rightarrow> string option" where
  "b64_decode s =
     (let vs = map b64_value (filter (\<lambda>c. byte c \<noteq> 10 \<and> byte c \<noteq> 13) s)
      in if list_ex (\<lambda>v. v = None) vs then None else b64_groups (map the vs))"

lemma byte_less [simp]: "byte c < 256"
  by (simp add: byte_def)

lemma byte_char_of [simp]: "n < 256 \<Longrightarrow> byte (char_of n) = n"
  by (simp add: byte_def)

lemma char_of_byte [simp]: "char_of (byte c) = c"
  by (simp add: byte_def)

lemma b64_digit_byte: "n < 64 \<Longrightarrow> byte (b64_digit n) =
    (if n < 26 then 65 + n else if n < 52 then 71 + n else if n < 62 then n - 4 else if n = 62 then 45 else 95)"
  by (simp add: b64_digit_def)

lemma b64_digit_cases:
  assumes "n < 64"
  obtains "n < 26" "byte (b64_digit n) = 65 + n" | "26 \<le> n" "n < 52" "byte (b64_digit n) = 71 + n"
    | m where "n = m + 4" "48 \<le> m" "m < 58" "byte (b64_digit n) = m" | "n = 62" "byte (b64_digit n) = 45"
    | "n = 63" "byte (b64_digit n) = 95"
proof -
  consider "n < 26" | "26 \<le> n" "n < 52" | "52 \<le> n" "n < 62" | "n = 62" | "n = 63" using assms by linarith
  then show thesis
  proof cases
    case 3
    then have "n = n - 4 + 4" "48 \<le> n - 4" "n - 4 < 58" by arith+
    with 3 b64_digit_byte [OF assms] that(3) [of "n - 4"] show thesis by simp
  qed (use that b64_digit_byte [OF assms] in simp_all)
qed

lemma b64_value_digit [simp]: "n < 64 \<Longrightarrow> b64_value (b64_digit n) = Some n"
  by (erule b64_digit_cases) (simp_all add: b64_value_def between_def)

lemma b64_digit_kept: "n < 64 \<Longrightarrow> byte (b64_digit n) \<noteq> 10 \<and> byte (b64_digit n) \<noteq> 13 \<and> byte (b64_digit n) \<noteq> 46"
  by (erule b64_digit_cases) simp_all

fun b64_sextets :: "string \<Rightarrow> nat list" where
  "b64_sextets [] = []"
| "b64_sextets [a] = [byte a div 4, byte a mod 4 * 16]"
| "b64_sextets [a, b] = [byte a div 4, byte a mod 4 * 16 + byte b div 16, byte b mod 16 * 4]"
| "b64_sextets (a # b # c # r) = byte a div 4 # (byte a mod 4 * 16 + byte b div 16) #
     (byte b mod 16 * 4 + byte c div 64) # byte c mod 64 # b64_sextets r"

lemma b64_encode_sextets: "b64_encode s = map b64_digit (b64_sextets s)"
  by (induction s rule: b64_sextets.induct) simp_all

lemma sextet_bounds:
  "byte a div 4 < 64" "byte a mod 4 * 16 + byte b div 16 < 64" "byte b mod 16 * 4 + byte c div 64 < 64"
  "byte a mod 4 * 16 < 64" "byte b mod 16 * 4 < 64"
proof -
  have "byte a < 256" "byte b < 256" "byte c < 256" by simp_all
  then have d: "byte a div 4 < 64" "byte b div 16 < 16" "byte c div 64 < 4" by (auto intro: less_mult_imp_div_less)
  have m: "byte a mod 4 < 4" "byte b mod 16 < 16" by simp_all
  from d show "byte a div 4 < 64" by simp
  from d m show "byte a mod 4 * 16 + byte b div 16 < 64" "byte b mod 16 * 4 + byte c div 64 < 64"
    "byte a mod 4 * 16 < 64" "byte b mod 16 * 4 < 64" by simp_all
qed

lemma b64_sextets_less: "n \<in> set (b64_sextets s) \<Longrightarrow> n < 64"
  by (induction s rule: b64_sextets.induct) (use sextet_bounds in auto)

lemma byte_split:
  "byte a div 4 * 4 + (byte a mod 4 * 16 + byte b div 16) div 16 = byte a"
  "(byte a mod 4 * 16 + byte b div 16) mod 16 * 16 + (byte b mod 16 * 4 + byte c div 64) div 4 = byte b"
  "(byte b mod 16 * 4 + byte c div 64) mod 4 * 64 + byte c mod 64 = byte c"
  "byte a div 4 * 4 + byte a mod 4 * 16 div 16 = byte a"
  "(byte a mod 4 * 16 + byte b div 16) mod 16 * 16 + byte b mod 16 * 4 div 4 = byte b"
proof -
  have "byte a < 256" "byte b < 256" "byte c < 256" by simp_all
  then have d: "byte b div 16 < 16" "byte c div 64 < 4" by (auto intro: less_mult_imp_div_less)
  have e: "(x * 16 + y) div 16 = x" "(x * 16 + y) mod 16 = y" if "y < 16" for x y :: nat using that by simp_all
  have f: "(x * 4 + y) div 4 = x" "(x * 4 + y) mod 4 = y" if "y < 4" for x y :: nat using that by simp_all
  show "byte a div 4 * 4 + (byte a mod 4 * 16 + byte b div 16) div 16 = byte a"
    "(byte a mod 4 * 16 + byte b div 16) mod 16 * 16 + (byte b mod 16 * 4 + byte c div 64) div 4 = byte b"
    "(byte b mod 16 * 4 + byte c div 64) mod 4 * 64 + byte c mod 64 = byte c"
    "byte a div 4 * 4 + byte a mod 4 * 16 div 16 = byte a"
    "(byte a mod 4 * 16 + byte b div 16) mod 16 * 16 + byte b mod 16 * 4 div 4 = byte b"
    by (simp_all only: e [OF d(1)] f [OF d(2)] div_mult_mod_eq nonzero_mult_div_cancel_right)
qed

lemma b64_groups_sextets: "b64_groups (b64_sextets s) = Some s"
  by (induction s rule: b64_sextets.induct) (simp_all only: b64_sextets.simps b64_groups.simps byte_split char_of_byte option.map)

lemma b64_round_trip: "b64_decode (b64_encode s) = Some s"
proof -
  have k: "filter (\<lambda>c. byte c \<noteq> 10 \<and> byte c \<noteq> 13) (map b64_digit ns) = map b64_digit ns"
    "map b64_value (map b64_digit ns) = map Some ns" if "\<forall>n \<in> set ns. n < 64" for ns
    using that b64_digit_kept by (simp_all add: filter_id_conv)
  from b64_sextets_less [of _ s] k [of "b64_sextets s"] b64_groups_sextets [of s] show ?thesis
    by (simp add: b64_decode_def b64_encode_sextets list_ex_iff comp_def cong: map_cong)
qed

lemma b64_no_dot: "CHR ''.'' \<notin> set (b64_encode s)"
proof
  assume "CHR ''.'' \<in> set (b64_encode s)"
  then obtain n where "n \<in> set (b64_sextets s)" "b64_digit n = CHR ''.''" by (auto simp: b64_encode_sextets)
  with b64_digit_kept [OF b64_sextets_less [of n s]] show False by (simp add: byte_def)
qed

section \<open>Cursors\<close>

record cursor_payload =
  cr_version :: int
  cr_workspace :: string
  cr_set :: string
  cr_next :: nat
  cr_expires :: int

text \<open>\<open>cd_sign\<close> is HMAC-SHA256 under the key of the codec; the other two are \<open>json.Marshal\<close> and
  \<open>json.Unmarshal\<close> at \<^typ>\<open>cursor_payload\<close>.\<close>

record codec =
  cd_sign :: "string \<Rightarrow> string"
  cd_marshal :: "cursor_payload \<Rightarrow> string"
  cd_unmarshal :: "string \<Rightarrow> cursor_payload option"

definition codec_key_ok :: "string \<Rightarrow> bool" where
  "codec_key_ok key \<longleftrightarrow> 32 \<le> length key"

definition new_codec :: "(string \<Rightarrow> codec) \<Rightarrow> string \<Rightarrow> go_error + codec" where
  "new_codec keyed key =
     (if codec_key_ok key then Inr (keyed key)
      else Inl (Wrap ''key must contain at least 32 bytes'' (Sentinel CursorInvalid)))"

text \<open>\<open>time.Time.Unix\<close> and back.\<close>

definition unix_seconds :: "time \<Rightarrow> int" where
  "unix_seconds t = t div 1000000000"

definition cursor_for :: "string \<Rightarrow> string \<Rightarrow> nat \<Rightarrow> time \<Rightarrow> cursor_payload" where
  "cursor_for w k n expires =
     \<lparr>cr_version = 1, cr_workspace = w, cr_set = k, cr_next = n, cr_expires = unix_seconds expires\<rparr>"

definition encode_cursor :: "codec \<Rightarrow> string \<Rightarrow> string \<Rightarrow> nat \<Rightarrow> time \<Rightarrow> go_error + string" where
  "encode_cursor c w k n expires =
     (if w = [] \<or> k = [] \<or> is_zero_time expires
        then Inl (Wrap ''missing payload field'' (Sentinel CursorInvalid))
      else let payload = cd_marshal c (cursor_for w k n expires)
           in Inr (b64_encode payload @ ''.'' @ b64_encode (cd_sign c payload)))"

definition decode_cursor :: "codec \<Rightarrow> time \<Rightarrow> string \<Rightarrow> string \<Rightarrow> go_error + cursor_payload" where
  "decode_cursor c now encoded expected =
     (case split_on (CHR ''.'') encoded of
        [body, mac] \<Rightarrow>
          (case b64_decode body of
             None \<Rightarrow> Inl (Sentinel CursorInvalid)
           | Some payload \<Rightarrow>
               if b64_decode mac \<noteq> Some (cd_sign c payload) then Inl (Sentinel CursorInvalid)
               else case cd_unmarshal c payload of
                 None \<Rightarrow> Inl (Sentinel CursorInvalid)
               | Some p \<Rightarrow>
                   if cr_version p \<noteq> 1 \<or> cr_workspace p = [] \<or> cr_set p = [] then Inl (Sentinel CursorInvalid)
                   else if expected \<noteq> [] \<and> cr_workspace p \<noteq> expected then Inl (Sentinel CursorInvalid)
                   else if seconds (cr_expires p) \<le> now then Inl (Sentinel CursorExpired)
                   else Inr p)
      | _ \<Rightarrow> Inl (Sentinel CursorInvalid))"

lemma split_cursor: "split_on (CHR ''.'') (b64_encode a @ ''.'' @ b64_encode b) = [b64_encode a, b64_encode b]"
  using b64_no_dot by (simp add: split_on_append split_on_none)

text \<open>A cursor of the codec decodes to what was encoded until it expires.\<close>

lemma decode_encoded:
  assumes "encode_cursor c w k n expires = Inr s"
    and law: "cd_unmarshal c (cd_marshal c (cursor_for w k n expires)) = Some (cursor_for w k n expires)"
  shows "decode_cursor c now s v =
    (if v \<noteq> [] \<and> v \<noteq> w then Inl (Sentinel CursorInvalid)
     else if seconds (unix_seconds expires) \<le> now then Inl (Sentinel CursorExpired)
     else Inr (cursor_for w k n expires))"
proof -
  from assms(1) have w: "w \<noteq> []" "k \<noteq> []"
    and s: "s = b64_encode (cd_marshal c (cursor_for w k n expires)) @ ''.'' @
        b64_encode (cd_sign c (cd_marshal c (cursor_for w k n expires)))"
    by (auto simp: encode_cursor_def Let_def split: if_splits)
  show ?thesis
    unfolding decode_cursor_def s split_cursor using w law by (simp add: b64_round_trip cursor_for_def)
qed

text \<open>What a decoded cursor vouches for: a payload signed by the codec for the expected workspace, not yet
  expired.\<close>

lemma decode_cursor_signed:
  assumes "decode_cursor c now s v = Inr p"
  shows "\<exists>body mac payload. split_on (CHR ''.'') s = [body, mac] \<and> b64_decode body = Some payload \<and>
      b64_decode mac = Some (cd_sign c payload) \<and> cd_unmarshal c payload = Some p \<and>
      (v \<noteq> [] \<longrightarrow> cr_workspace p = v) \<and> cr_set p \<noteq> [] \<and> now < seconds (cr_expires p)"
  using assms unfolding decode_cursor_def
  by (auto split: list.splits option.splits if_splits)

section \<open>Fitting a page into its byte limit\<close>

text \<open>The loop \<open>for returned := len(items); returned >= 0; returned--\<close>: the body fails, gives a response
  that fits, or goes on with one item less.\<close>

primrec shrink :: "(nat \<Rightarrow> go_error + 'r option) \<Rightarrow> nat \<Rightarrow> go_error + (nat \<times> 'r) option" where
  "shrink body 0 = (case body 0 of Inl e \<Rightarrow> Inl e | Inr None \<Rightarrow> Inr None | Inr (Some r) \<Rightarrow> Inr (Some (0, r)))"
| "shrink body (Suc n) = (case body (Suc n) of Inl e \<Rightarrow> Inl e | Inr None \<Rightarrow> shrink body n
     | Inr (Some r) \<Rightarrow> Inr (Some (Suc n, r)))"

definition fit_page :: "go_error \<Rightarrow> (nat \<Rightarrow> go_error + 'r option) \<Rightarrow> nat \<Rightarrow> go_error + 'r" where
  "fit_page too_large body n =
     try_then (shrink body n) (\<lambda>found. case found of
        None \<Rightarrow> Inl too_large
      | Some (returned, r) \<Rightarrow> if returned = 0 \<and> 0 < n then Inl too_large else Inr r)"

lemma shrink_bound: "shrink body n = Inr (Some (k, r)) \<Longrightarrow> k \<le> n"
  by (induction n) (auto split: sum.splits option.splits)

lemma shrink_Some:
  "shrink body n = Inr (Some (k, r)) \<longleftrightarrow> k \<le> n \<and> body k = Inr (Some r) \<and> (\<forall>j \<in> {k<..n}. body j = Inr None)"
proof (induction n)
  case 0
  show ?case by (auto split: sum.splits option.splits)
next
  case (Suc n)
  show ?case
  proof (cases "k = Suc n")
    case True
    have "\<not> (\<exists>r. shrink body n = Inr (Some (Suc n, r)))" using Suc True
      by (metis (no_types, lifting) not_less_eq_eq order_refl shrink_bound)
    with True show ?thesis by (auto split: sum.splits option.splits)
  next
    case False
    then have "k \<le> Suc n \<longleftrightarrow> k \<le> n" by auto
    moreover have "{k<..Suc n} = insert (Suc n) {k<..n}" if "k \<le> n" using that by auto
    ultimately show ?thesis using Suc False by (auto split: sum.splits option.splits)
  qed
qed

lemma fit_page_ok:
  assumes "fit_page too_large body n = Inr r"
  obtains k where "k \<le> n" "0 < n \<longrightarrow> 0 < k" "body k = Inr (Some r)" "\<forall>j \<in> {k<..n}. body j = Inr None"
proof -
  from assms obtain k where "shrink body n = Inr (Some (k, r))" "\<not> (k = 0 \<and> 0 < n)"
    by (auto simp: fit_page_def split: option.splits if_splits)
  with shrink_Some [of body n k r] show thesis by (intro that [of k]) auto
qed

section \<open>Reading a stored page\<close>

fun decode_items :: "go_error \<Rightarrow> (string \<Rightarrow> 'i option) \<Rightarrow> result_item list \<Rightarrow> go_error + 'i list" where
  "decode_items e decode [] = Inr []"
| "decode_items e decode (x # xs) = (case decode (ri_payload x) of
      None \<Rightarrow> Inl e
    | Some i \<Rightarrow> try_then (decode_items e decode xs) (\<lambda>is. Inr (i # is)))"

definition page_cursor :: "codec \<Rightarrow> string \<Rightarrow> string \<Rightarrow> nat \<Rightarrow> nat \<Rightarrow> time \<Rightarrow> go_error + string option" where
  "page_cursor c w k n whole expires =
     (if n < whole then try_then (encode_cursor c w k n expires) (\<lambda>s. Inr (Some s)) else Inr None)"

lemma decode_items_ok:
  "decode_items e decode xs = Inr is \<Longrightarrow> is = map (\<lambda>x. the (decode (ri_payload x))) xs"
  by (induction xs arbitrary: "is") (auto split: option.splits)

text \<open>The contents of a stored set, and what the table says about it.\<close>

definition set_contents :: "(string \<Rightarrow> 'i option) \<Rightarrow> result_set \<Rightarrow> 'i list" where
  "set_contents decode s = map (\<lambda>x. the (decode (ri_payload x))) (sn_items s)"

definition well_numbered :: "result_set \<Rightarrow> bool" where
  "well_numbered s \<longleftrightarrow> map ri_ordinal (sn_items s) = [0..<length (sn_items s)]"

lemma upt_length_Cons: "[m..<m + length (x # xs)] = m # [Suc m..<Suc m + length xs]"
  by (simp add: upt_conv_Cons del: upt_Suc)

lemma numbered_from:
  "\<not> result_items_rejected json_valid n xs \<Longrightarrow> map ri_ordinal xs = [n..<n + length xs]"
proof (induction xs arbitrary: n)
  case (Cons x xs)
  then have "ri_ordinal x = n" "\<not> result_items_rejected json_valid (Suc n) xs" by auto
  with Cons.IH [of "Suc n"] have "ri_ordinal x = n" "map ri_ordinal xs = [Suc n..<Suc n + length xs]" by blast+
  then show ?case by (simp only: upt_length_Cons list.map)
qed simp

lemma validated_numbered: "validate_result_set json_valid s = Inr u \<Longrightarrow> well_numbered s"
  using numbered_from [of json_valid 0 "sn_items s"]
  by (auto simp: validate_result_set_def well_numbered_def split: if_splits)

lemma filter_numbered:
  assumes "map f xs = [m..<m + length xs]"
  shows "filter (\<lambda>x. n \<le> f x) xs = drop (n - m) xs"
  using assms
proof (induction xs arbitrary: m)
  case (Cons x xs)
  then have x: "f x = m" and xs: "map f xs = [Suc m..<Suc m + length xs]"
    by (simp_all only: upt_length_Cons list.map list.inject)
  show ?case
  proof (cases "n \<le> m")
    case True
    then have "filter (\<lambda>x. n \<le> f x) xs = xs" using Cons.IH [OF xs] by simp
    with True x show ?thesis by simp
  next
    case False
    then have "n - m = Suc (n - Suc m)" by simp
    with False x Cons.IH [OF xs] show ?thesis by simp
  qed
qed simp

lemma sort_numbered: "map f xs = [m..<k] \<Longrightarrow> sort_key f xs = xs" for f :: "'a \<Rightarrow> nat"
  by (rule sort_key_id_if_sorted) simp

lemma read_result_slice:
  assumes "catalog_ok db" "s \<in> set (db_results db)" "well_numbered s" "read_result_page (sn_id s) n limit db = Inr p"
  shows "pg_items p = take limit (drop n (sn_items s)) \<and> pg_total p = length (sn_items s) \<and> 0 < limit"
proof -
  from assms(3) have "filter (\<lambda>i. n \<le> ri_ordinal i) (sort_key ri_ordinal (sn_items s)) = drop n (sn_items s)"
    using filter_numbered [of ri_ordinal "sn_items s" 0 n] sort_numbered [of ri_ordinal "sn_items s" 0 "length (sn_items s)"]
    by (simp add: well_numbered_def)
  with assms(4) find_result_eq [OF assms(1,2)] show ?thesis
    by (auto simp: read_result_page_def Let_def min_def split: if_splits)
qed

lemma read_result_metadata:
  assumes "catalog_ok db" "s \<in> set (db_results db)" "read_result_page (sn_id s) n limit db = Inr p"
  shows "pg_metadata p = sn_metadata s"
  using assms(3) find_result_eq [OF assms(1,2)] by (auto simp: read_result_page_def Let_def split: if_splits)

section \<open>The interface of a paging service\<close>

definition page_slice ::
    "(string \<Rightarrow> nat \<Rightarrow> bool) \<Rightarrow> ('r \<Rightarrow> 'i list) \<Rightarrow> ('r \<Rightarrow> string option) \<Rightarrow> 'i list \<Rightarrow> nat \<Rightarrow> 'r \<Rightarrow> bool" where
  "page_slice points items nxt contents n r \<longleftrightarrow>
     items r = take (length (items r)) (drop n contents) \<and> (n < length contents \<longrightarrow> items r \<noteq> []) \<and>
     (case nxt r of
        None \<Rightarrow> n + length (items r) = length contents
      | Some c \<Rightarrow> n + length (items r) < length contents \<and> points c (n + length (items r)))"

text \<open>A client follows the cursors of a page, one element of the list per request, until there is none.\<close>

fun follow :: "(string \<Rightarrow> 'l \<Rightarrow> 'e + 'r) \<Rightarrow> ('r \<Rightarrow> 'i list) \<Rightarrow> ('r \<Rightarrow> string option) \<Rightarrow> 'r \<Rightarrow> 'l list \<Rightarrow> 'e + ('i list \<times> bool)" where
  "follow resume items nxt r [] = Inr (items r, nxt r = None)"
| "follow resume items nxt r (l # ls) =
     (case nxt r of
        None \<Rightarrow> Inr (items r, True)
      | Some c \<Rightarrow> try_then (resume c l) (\<lambda>r'. try_then (follow resume items nxt r' ls)
          (\<lambda>(xs, finished). Inr (items r @ xs, finished))))"

locale paged =
  fixes start :: "'st \<Rightarrow> 'l \<Rightarrow> 'e + 'r"
    and resume :: "'st \<Rightarrow> string \<Rightarrow> 'l \<Rightarrow> 'e + 'r"
    and items :: "'r \<Rightarrow> 'i list"
    and nxt :: "'r \<Rightarrow> string option"
    and contents :: "'st \<Rightarrow> 'i list"
    and valid :: "'st \<Rightarrow> 'l \<Rightarrow> bool"
    and points :: "'st \<Rightarrow> string \<Rightarrow> nat \<Rightarrow> bool"
  assumes start_slice: "\<lbrakk>valid st l; start st l = Inr r\<rbrakk> \<Longrightarrow> page_slice (points st) items nxt (contents st) 0 r"
    and resume_slice: "\<lbrakk>valid st l; points st c n; n \<le> length (contents st); resume st c l = Inr r\<rbrakk> \<Longrightarrow>
      page_slice (points st) items nxt (contents st) n r"
begin

lemma follow_slices:
  assumes "page_slice (points st) items nxt (contents st) n r" "n \<le> length (contents st)" "\<forall>l \<in> set ls. valid st l"
    "follow (resume st) items nxt r ls = Inr (xs, finished)"
  shows "xs = take (length xs) (drop n (contents st)) \<and> (finished \<longleftrightarrow> n + length xs = length (contents st)) \<and>
    (length (contents st) \<le> n + Suc (length ls) \<longrightarrow> finished)"
  using assms
proof (induction ls arbitrary: n r xs finished)
  case Nil
  have "finished" if "length (contents st) \<le> Suc n"
  proof (rule ccontr)
    assume "\<not> finished"
    with Nil.prems(1,4) obtain c where "nxt r = Some c" "n + length (items r) < length (contents st)"
      "n < length (contents st) \<longrightarrow> items r \<noteq> []"
      by (auto simp: page_slice_def)
    with that show False by (cases "items r") auto
  qed
  with Nil show ?case by (auto simp: page_slice_def split: option.splits)
next
  case (Cons l ls)
  show ?case
  proof (cases "nxt r")
    case None
    with Cons.prems show ?thesis by (auto simp: page_slice_def)
  next
    case (Some c)
    let ?m = "n + length (items r)"
    from Some Cons.prems(1) have s: "items r = take (length (items r)) (drop n (contents st))" "?m < length (contents st)"
      "points st c ?m" "0 < length (items r)"
      by (auto simp: page_slice_def)
    from Some Cons.prems(4) obtain r' ys where r': "resume st c l = Inr r'"
      "follow (resume st) items nxt r' ls = Inr (ys, finished)" "xs = items r @ ys"
      by auto
    have "page_slice (points st) items nxt (contents st) ?m r'"
      using resume_slice [OF _ s(3) _ r'(1)] s(2) Cons.prems(3) by simp
    from Cons.IH [OF this _ _ r'(2)] s(2) Cons.prems(3)
    have ih: "ys = take (length ys) (drop ?m (contents st))" "finished \<longleftrightarrow> ?m + length ys = length (contents st)"
      "length (contents st) \<le> ?m + Suc (length ls) \<longrightarrow> finished" by auto
    have len: "length xs = length (items r) + length ys" using r'(3) by simp
    have "items r @ ys = take (length (items r) + length ys) (drop n (contents st))"
      unfolding take_add using s(1) ih(1) by (simp add: add.commute)
    then have "xs = take (length xs) (drop n (contents st))" using len r'(3) by metis
    moreover have "finished \<longleftrightarrow> n + length xs = length (contents st)" using ih(2) len by (simp add: add.assoc)
    moreover have "finished" if "length (contents st) \<le> n + Suc (length (l # ls))"
      using that s(4) ih(3) by (simp del: length_greater_0_conv)
    ultimately show ?thesis by blast
  qed
qed

text \<open>Following the cursors lists the contents of the snapshot in order, without repetition or omission,
  and ends after at most one page per item.\<close>

lemma follow_all:
  assumes "start st l = Inr r" "valid st l" "\<forall>l \<in> set ls. valid st l"
    "follow (resume st) items nxt r ls = Inr (xs, finished)"
  shows "xs = take (length xs) (contents st) \<and> (finished \<longleftrightarrow> xs = contents st) \<and>
    (length (contents st) \<le> Suc (length ls) \<longrightarrow> finished)"
proof -
  from follow_slices [OF start_slice [OF assms(2,1)] _ assms(3,4)]
  have f: "xs = take (length xs) (contents st)" "finished \<longleftrightarrow> length xs = length (contents st)"
    "length (contents st) \<le> Suc (length ls) \<longrightarrow> finished" by auto
  then have "length xs = length (contents st) \<longleftrightarrow> xs = contents st" by (metis take_all_iff order_refl)
  with f show ?thesis by simp
qed

end

section \<open>Pages of a stored result set\<close>

text \<open>One request of a client: the database it meets, the clock of the codec and the two limits.\<close>

record page_call =
  pl_db :: catalog_db
  pl_now :: time
  pl_items :: nat
  pl_bytes :: nat

definition codec_law :: "codec \<Rightarrow> string \<Rightarrow> result_set \<Rightarrow> bool" where
  "codec_law c w s \<longleftrightarrow> (\<forall>n. cd_unmarshal c (cd_marshal c (cursor_for w (sn_id s) n (sn_expires_at s))) =
     Some (cursor_for w (sn_id s) n (sn_expires_at s)))"

definition call_meets :: "codec \<Rightarrow> string \<Rightarrow> result_set \<Rightarrow> page_call \<Rightarrow> bool" where
  "call_meets c w s l \<longleftrightarrow> catalog_ok (pl_db l) \<and> s \<in> set (db_results (pl_db l)) \<and> well_numbered s \<and> codec_law c w s"

definition cursor_points :: "codec \<Rightarrow> string \<Rightarrow> result_set \<Rightarrow> string \<Rightarrow> nat \<Rightarrow> bool" where
  "cursor_points c w s text n \<longleftrightarrow>
     (\<exists>x. unix_seconds x = unix_seconds (sn_expires_at s) \<and> encode_cursor c w (sn_id s) n x = Inr text)"

lemma unix_of_seconds [simp]: "unix_seconds (seconds e) = e"
  by (simp add: unix_seconds_def seconds_def)

lemma decoded_cursor_points:
  assumes "cursor_points c w s text n" "codec_law c w s" "decode_cursor c now text w = Inr p"
  shows "cr_set p = sn_id s \<and> cr_next p = n \<and> cr_expires p = unix_seconds (sn_expires_at s)"
proof -
  from assms(1) obtain x where x: "unix_seconds x = unix_seconds (sn_expires_at s)" "encode_cursor c w (sn_id s) n x = Inr text"
    by (auto simp: cursor_points_def)
  then have same: "cursor_for w (sn_id s) n x = cursor_for w (sn_id s) n (sn_expires_at s)" by (simp add: cursor_for_def)
  from assms(2) have "cd_unmarshal c (cd_marshal c (cursor_for w (sn_id s) n x)) = Some (cursor_for w (sn_id s) n x)"
    unfolding same codec_law_def by blast
  from decode_encoded [OF x(2) this, of now w] assms(3) have "p = cursor_for w (sn_id s) n x"
    by (simp split: if_splits)
  with x(1) show ?thesis by (simp add: cursor_for_def)
qed

text \<open>What a service has to show of its page: the body of its loop answers with the first items it was
  offered and the cursor of the next ordinal.\<close>

lemma fit_page_slice:
  assumes "call_meets c w s l" "n \<le> length (sn_items s)"
    "read_result_page (sn_id s) n limit (pl_db l) = Inr p" "decode_items e decode (pg_items p) = Inr items"
    "unix_seconds x = unix_seconds (sn_expires_at s)"
    "fit_page too_large body (length items) = Inr r"
    and body: "\<And>k. body k = Inr (Some r) \<Longrightarrow>
      got r = take k items \<and> page_cursor c w (sn_id s) (n + k) (pg_total p) x = Inr (nxt r)"
  shows "page_slice (cursor_points c w s) got nxt (set_contents decode s) n r"
proof -
  from assms(1) have m: "catalog_ok (pl_db l)" "s \<in> set (db_results (pl_db l))" "well_numbered s" by (auto simp: call_meets_def)
  from read_result_slice [OF m assms(3)]
  have p: "pg_items p = take limit (drop n (sn_items s))" "pg_total p = length (sn_items s)" "0 < limit" by auto
  have items: "items = take limit (drop n (set_contents decode s))"
    using decode_items_ok [OF assms(4)] p(1) by (simp add: set_contents_def take_map drop_map)
  from assms(6) obtain k where k: "k \<le> length items" "0 < length items \<longrightarrow> 0 < k" "body k = Inr (Some r)"
      "\<forall>j \<in> {k<..length items}. body j = Inr None"
    by (rule fit_page_ok)
  from body [OF k(3)] have b: "got r = take k items" "page_cursor c w (sn_id s) (n + k) (pg_total p) x = Inr (nxt r)" by auto
  have len: "length (got r) = k" "length (set_contents decode s) = length (sn_items s)" using b(1) k(1) by (simp_all add: set_contents_def)
  have "got r = take k (drop n (set_contents decode s))" using b(1) items k(1) by (simp add: min_absorb1)
  moreover have "got r \<noteq> []" if "n < length (set_contents decode s)"
  proof -
    from that p(3) items have "0 < length items" by (cases limit) auto
    with k(2) len(1) show ?thesis by auto
  qed
  moreover have "case nxt r of None \<Rightarrow> n + k = length (set_contents decode s)
      | Some t \<Rightarrow> n + k < length (set_contents decode s) \<and> cursor_points c w s t (n + k)"
  proof (cases "n + k < length (sn_items s)")
    case True
    with b(2) p(2) obtain t where "nxt r = Some t" "encode_cursor c w (sn_id s) (n + k) x = Inr t"
      by (auto simp: page_cursor_def dest: sym)
    with True assms(5) len(2) show ?thesis by (auto simp: cursor_points_def)
  next
    case False
    with b(2) p(2) have "nxt r = None" by (simp add: page_cursor_def)
    moreover have "n + k \<le> length (sn_items s)" using k(1) items assms(2) len(2) by (simp add: le_diff_conv2)
    ultimately show ?thesis using False len(2) by simp
  qed
  ultimately show ?thesis unfolding page_slice_def len(1) by blast
qed

lemma map_enumerated: "map (\<lambda>p. f (snd p)) (List.enumerate n xs) = map f xs"
  by (induction xs arbitrary: n) auto

lemma created_set_stored:
  assumes "create_result_set json_valid s db = (db', Inr u)" "catalog_ok db"
  shows "catalog_ok db' \<and> s \<in> set (db_results db') \<and> well_numbered s"
proof -
  have "catalog_ok (fst (create_result_set json_valid s db))" by (rule create_result_ok [OF assms(2)])
  with assms(1) show ?thesis
    by (auto simp: create_result_set_def Let_def intro: validated_numbered split: sum.splits if_splits)
qed

lemma decode_items_total:
  "\<forall>x \<in> set xs. decode (ri_payload x) \<noteq> None \<Longrightarrow> decode_items e decode xs = Inr (map (\<lambda>x. the (decode (ri_payload x))) xs)"
  by (induction xs) auto

lemma fit_page_first: "body n = Inr (Some r) \<Longrightarrow> fit_page too_large body n = Inr r"
  by (cases n) (simp_all add: fit_page_def)

text \<open>The calls that a reachable database supports.\<close>

lemma reachable_call_meets:
  assumes "catalog_reachable json_valid (pl_db l)" "s \<in> set (db_results (pl_db l))" "codec_law c w s"
  shows "call_meets c w s l"
proof -
  from reachable_results_valid [OF assms(1)] assms(2) have "well_numbered s" by (blast intro: validated_numbered)
  with assms reachable_ok [OF assms(1)] show ?thesis by (simp add: call_meets_def)
qed

section \<open>Properties of cursors\<close>

text \<open>A cursor decodes, for its own workspace and before its expiry second, to exactly the result set
  and ordinal it was made for; other workspaces and later clocks are refused.\<close>

theorem cursor_round_trip:
  assumes "encode_cursor c w k n expires = Inr encoded"
    "cd_unmarshal c (cd_marshal c (cursor_for w k n expires)) = Some (cursor_for w k n expires)"
  shows "decode_cursor c now encoded v =
    (if v \<noteq> [] \<and> v \<noteq> w then Inl (Sentinel CursorInvalid)
     else if seconds (unix_seconds expires) \<le> now then Inl (Sentinel CursorExpired)
     else Inr \<lparr>cr_version = 1, cr_workspace = w, cr_set = k, cr_next = n, cr_expires = unix_seconds expires\<rparr>)"
  using decode_encoded [OF assms] by (simp add: cursor_for_def)

text \<open>Whatever encoded a client presents, an accepted cursor carries the signature of the codec over the
  payload it decodes to, names the expected workspace and a result set, and has not expired.\<close>

theorem forged_cursors_refused:
  assumes "decode_cursor c now encoded w = Inr p" "w \<noteq> []"
  shows "\<exists>body mac payload. encoded = body @ CHR ''.'' # mac \<and> b64_decode body = Some payload \<and>
    b64_decode mac = Some (cd_sign c payload) \<and> cd_unmarshal c payload = Some p \<and>
    cr_workspace p = w \<and> cr_set p \<noteq> [] \<and> now < seconds (cr_expires p)"
proof -
  from decode_cursor_signed [OF assms(1)] assms(2) obtain body mac payload where
    p: "split_on (CHR ''.'') encoded = [body, mac]" "b64_decode body = Some payload" "b64_decode mac = Some (cd_sign c payload)"
    "cd_unmarshal c payload = Some p" "cr_workspace p = w" "cr_set p \<noteq> []" "now < seconds (cr_expires p)"
    by blast
  have "encoded = body @ CHR ''.'' # mac" using join_split [of "CHR ''.''" encoded] p(1) by simp
  with p show ?thesis by blast
qed

text \<open>A codec for concrete cursors: the payload is the ordinal in unary, the signature its length.\<close>

definition demo_codec :: "time \<Rightarrow> codec" where
  "demo_codec expires = \<lparr>cd_sign = (\<lambda>s. ''k'' @ itoa (length s)), cd_marshal = (\<lambda>p. replicate (cr_next p) (CHR ''n'')),
     cd_unmarshal = (\<lambda>s. Some (cursor_for ''w'' ''s'' (length s) expires))\<rparr>"

theorem cursor_round_trip_witness:
  "decode_cursor (demo_codec (seconds 9)) (seconds 5) ''bm4.azI'' ''w'' =
     Inr \<lparr>cr_version = 1, cr_workspace = ''w'', cr_set = ''s'', cr_next = 2, cr_expires = 9\<rparr>"
proof -
  have "encode_cursor (demo_codec (seconds 9)) ''w'' ''s'' 2 (seconds 9) = Inr ''bm4.azI''" by code_simp
  from cursor_round_trip [OF this, of "seconds 5" "''w''"] show ?thesis
    by (simp add: demo_codec_def cursor_for_def) (simp add: seconds_def)
qed

theorem forged_cursors_refused_witness:
  "\<exists>body mac. ''bm4.azI'' = body @ CHR ''.'' # mac \<and> b64_decode mac = Some ''k2''"
proof -
  have "decode_cursor (demo_codec (seconds 9)) (seconds 5) ''bm4.azI'' ''w'' =
      Inr (cursor_for ''w'' ''s'' 2 (seconds 9))" by code_simp
  from forged_cursors_refused [OF this] obtain body mac payload where
    p: "''bm4.azI'' = body @ CHR ''.'' # mac" "b64_decode body = Some payload" "b64_decode mac = Some (cd_sign (demo_codec (seconds 9)) payload)"
    by auto
  have "split_on (CHR ''.'') ''bm4.azI'' = [''bm4'', ''azI'']" "b64_decode ''azI'' = Some ''k2''" by code_simp+
  then show ?thesis by (intro exI [of _ "''bm4''"] exI [of _ "''azI''"]) simp
qed

end
