(* ===== verification/RecordQueries.thy ===== *)
theory RecordQueries
  imports RecordService Paging
begin

text \<open>
  The reading half of \<open>internal/records/service.go\<close>: the project records tool with its modes, the
  bounded responses, the result sets of \<open>list\<close> and \<open>search\<close> with their pages, and the cache
  qualifications the runner asks for. JSON forms and hashes are the record \<open>result_env\<close>.
\<close>

section \<open>Requests\<close>

record records_query =
  qr_mode :: string
  qr_query :: string
  qr_id :: string
  qr_kind :: string
  qr_validity :: string
  qr_source :: string
  qr_updated_after :: string
  qr_updated_before :: string
  qr_topic_key :: string
  qr_scope :: string
  qr_configuration :: string
  qr_match_mode :: string
  qr_view :: string
  qr_cursor :: string
  qr_limits :: limit_request
  qr_payload_fields :: "string list"

type_synonym record_response = "record_result response"

text \<open>\<open>re_complete\<close> reads the stored metadata: the member \<open>complete\<close>, true when it is absent.\<close>

record result_env =
  re_codec :: codec
  re_sha :: "string \<Rightarrow> string"
  re_request :: "records_query \<Rightarrow> string"
  re_encode :: "record_result \<Rightarrow> string"
  re_decode :: "string \<Rightarrow> record_result option"
  re_metadata :: "bool \<Rightarrow> string"
  re_complete :: "string \<Rightarrow> bool option"
  re_size :: "record_response \<Rightarrow> nat"
  re_valid :: "string \<Rightarrow> bool"

definition records_too_large :: go_error where "records_too_large = Sentinel RecordsResponseTooLarge"

definition infer_mode :: "records_query \<Rightarrow> go_error + records_query" where
  "infer_mode q =
     (if qr_mode q \<noteq> [] \<or> qr_cursor q \<noteq> [] then Inr q
      else if trim_space (qr_query q) \<noteq> [] then Inr (q\<lparr>qr_mode := ''search''\<rparr>)
      else if qr_topic_key q \<noteq> [] then Inr (q\<lparr>qr_mode := ''get_topic''\<rparr>)
      else Inl (Text ''mode required''))"

definition query_limits :: "records_query \<Rightarrow> limit_request" where
  "query_limits q =
     (let l = qr_limits q; short = List.member [''search'', ''resume''] (qr_mode q);
          single = List.member [''get'', ''get_topic''] (qr_mode q)
      in l\<lparr>lr_item_limit := (if short \<and> lr_item_limit l = 0 then 8 else lr_item_limit l),
           lr_byte_limit := (if lr_byte_limit l \<noteq> 0 then lr_byte_limit l
             else if short then 8 * 1024 else if single then MaximumByteLimit else 0)\<rparr>)"

fun distinct_terms :: "string list \<Rightarrow> string list \<Rightarrow> string list" where
  "distinct_terms seen [] = []"
| "distinct_terms seen (t # ts) = (if List.member seen t then distinct_terms seen ts else t # distinct_terms (t # seen) ts)"

definition normalize_record_terms :: "(string \<Rightarrow> string) \<Rightarrow> string \<Rightarrow> string list" where
  "normalize_record_terms lower query = distinct_terms [] (fields_of (lower query))"

fun payload_names :: "string list \<Rightarrow> string list \<Rightarrow> go_error + unit" where
  "payload_names seen [] = Inr ()"
| "payload_names seen (f # fs) =
     (if f = [] \<or> 128 < int (length f) \<or> trim_space f \<noteq> f
      then Inl (Text ''payload_fields must contain non-empty top-level field names'')
      else if List.member seen f then Inl (Text ''payload_fields must not contain duplicates'')
      else payload_names (f # seen) fs)"

definition validate_payload_fields :: "string list \<Rightarrow> go_error + unit" where
  "validate_payload_fields fs = (if 32 < length fs then Inl (Sentinel ErrLimitExceeded) else payload_names [] fs)"

definition filter_checks :: "records_env \<Rightarrow> records_query \<Rightarrow> (bool \<times> go_error) list" where
  "filter_checks env q =
     (let terms = normalize_record_terms (xe_lower env) (qr_query q)
      in [(\<not> List.member [[], ''verification'', ''checkpoint'', ''memo'', ''environment'', ''run'', ''artifact''] (qr_kind q),
           Text ''invalid record kind''),
          (\<not> List.member [[], ''current'', ''stale'', ''unknown'', ''superseded''] (qr_validity q), Text ''invalid record validity''),
          (\<not> List.member [[], ''observed'', ''imported'', ''user_asserted'', ''llm_proposed''] (qr_source q),
           Text ''invalid record source''),
          (\<not> List.member [[], ''any'', ''all''] (qr_match_mode q), Text ''match_mode must be any or all''),
          (\<not> List.member [[], ''brief'', ''discovery'', ''full''] (qr_view q),
           Text ''response_view must be brief, discovery, or full''),
          (qr_topic_key q \<noteq> [] \<and> \<not> topic_key_pattern (xe_lower env (qr_topic_key q)),
           Text ''topic_key must use lowercase letters, digits, dot, underscore, slash, or hyphen''),
          (4096 < int (length (qr_scope q)) \<or> 4096 < int (length (qr_configuration q)), Sentinel ErrLimitExceeded),
          (qr_mode q = ''search'' \<and> trim_space (qr_query q) = [], Text ''query is required for search''),
          (qr_mode q \<noteq> ''search'' \<and> qr_mode q \<noteq> ''resume'' \<and> qr_query q \<noteq> [], Text ''query is only valid for search or resume''),
          (qr_mode q = ''get_topic'' \<and> qr_topic_key q = [], Text ''topic_key is required for get_topic''),
          (qr_mode q = ''get_topic'' \<and> qr_kind q \<noteq> [] \<and> qr_kind q \<noteq> ''memo'', Text ''kind must be memo for get_topic''),
          (List.member [''brief'', ''discovery''] (qr_view q) \<and> qr_payload_fields q \<noteq> [],
           Text ''payload_fields require response_view full''),
          (512 < int (length (qr_query q)) \<or> 16 < length terms, Sentinel ErrLimitExceeded),
          (list_ex (\<lambda>t. 128 < int (length t)) terms, Sentinel ErrLimitExceeded)])"

definition validate_record_filters :: "records_env \<Rightarrow> records_query \<Rightarrow> go_error + unit" where
  "validate_record_filters env q =
     try_then (check_all (filter_checks env q)) (\<lambda>_. validate_payload_fields (qr_payload_fields q))"

section \<open>Responses that are not paged\<close>

definition within_bytes :: "result_env \<Rightarrow> nat \<Rightarrow> record_response \<Rightarrow> go_error + record_response" where
  "within_bytes re byte_limit r = (if byte_limit < re_size re r then Inl records_too_large else Inr r)"

definition single_response :: "result_env \<Rightarrow> nat \<Rightarrow> record_result \<Rightarrow> go_error + record_response" where
  "single_response re byte_limit x =
     within_bytes re byte_limit
       \<lparr>rs_status = StatusOK, rs_items = [x],
        rs_counts = \<lparr>cn_matched = Some 1, cn_relation = CountExact, cn_returned = 1\<rparr>,
        rs_scan = \<lparr>sc_state = ScanNotApplicable, sc_scope_ref = None\<rparr>, rs_truncated = Some False, rs_next_cursor = None,
        rs_snapshot_ref = None, rs_warnings = []\<rparr>"

definition add_warnings :: "result_env \<Rightarrow> nat \<Rightarrow> warning list \<Rightarrow> record_response \<Rightarrow> go_error + record_response" where
  "add_warnings re byte_limit ws r = within_bytes re byte_limit (r\<lparr>rs_warnings := rs_warnings r @ ws\<rparr>)"

definition ambiguous_body ::
    "result_env \<Rightarrow> record_result list \<Rightarrow> nat \<Rightarrow> string \<Rightarrow> string \<Rightarrow> nat \<Rightarrow> nat \<Rightarrow> go_error + record_response option" where
  "ambiguous_body re items matched code message byte_limit returned =
     (if returned = 0 then Inr None
      else let r = \<lparr>rs_status = StatusPartial, rs_items = take returned items,
             rs_counts = \<lparr>cn_matched = Some (of_nat matched), cn_relation = CountExact, cn_returned = of_nat returned\<rparr>,
             rs_scan = \<lparr>sc_state = ScanComplete, sc_scope_ref = None\<rparr>, rs_truncated = Some (returned < matched),
             rs_next_cursor = None, rs_snapshot_ref = None, rs_warnings = [plain_warning code message None]\<rparr>
        in Inr (if re_size re r \<le> byte_limit then Some r else None))"

definition ambiguous_response ::
    "result_env \<Rightarrow> record_result list \<Rightarrow> nat \<Rightarrow> string \<Rightarrow> string \<Rightarrow> nat \<Rightarrow> go_error + record_response" where
  "ambiguous_response re items matched code message byte_limit =
     fit_page records_too_large (ambiguous_body re items matched code message byte_limit) (length items)"

fun each_view :: "(durable \<Rightarrow> go_error + record_result) \<Rightarrow> durable list \<Rightarrow> go_error + record_result list" where
  "each_view f [] = Inr []"
| "each_view f (r # rs) = try_then (f r) (\<lambda>x. try_then (each_view f rs) (\<lambda>xs. Inr (x # xs)))"

lemma each_view_ok: "each_view f rs = Inr xs \<Longrightarrow> length xs = length rs \<and> (\<forall>i < length rs. f (rs ! i) = Inr (xs ! i))"
proof (induction rs arbitrary: xs)
  case (Cons r rs)
  then obtain x ys where x: "f r = Inr x" "each_view f rs = Inr ys" "xs = x # ys" by auto
  from Cons.IH [OF x(2)] x(1,3) show ?case by (auto simp: less_Suc_eq_0_disj)
qed simp

section \<open>Modes\<close>

definition all_records :: "records_env \<Rightarrow> record_query" where
  "all_records env =
     \<lparr>rq_project = xe_id env, rq_workspace = xe_id env, rq_kind = [], rq_validity = [], rq_source = [],
      rq_updated_after = zero_time, rq_updated_before = zero_time, rq_topic_key = [], rq_scope = [], rq_configuration = [],
      rq_supersedes = [], rq_terms = [], rq_match_all = False, rq_limit = 1000\<rparr>"

definition find_records :: "records_env \<Rightarrow> record_query \<Rightarrow> record_db \<Rightarrow> go_error + record_page" where
  "find_records env q db = query_records (xe_lower env) (xe_json env) q db"

definition successor_of :: "records_env \<Rightarrow> durable \<Rightarrow> record_db \<Rightarrow> go_error + string" where
  "successor_of env r db =
     (if du_kind r = ''memo'' \<and> du_validity r = ''superseded''
      then try_then (find_records env ((all_records env)\<lparr>rq_kind := ''memo'', rq_supersedes := du_id r, rq_limit := 1\<rparr>) db)
        (\<lambda>page. Inr (case pg_records page of [s] \<Rightarrow> ''record:'' @ du_id s | _ \<Rightarrow> []))
      else Inr [])"

definition query_get :: "records_env \<Rightarrow> result_env \<Rightarrow> records_query \<Rightarrow> nat \<Rightarrow> record_db \<Rightarrow> go_error + record_response" where
  "query_get env re q byte_limit db =
     (if qr_id q = [] then Inl (Text ''id is required for get'')
      else try_then (get_record (xe_id env) (xe_id env) (qr_id q) db) (\<lambda>r.
        let current = (if du_kind r = ''verification'' then observe_subject env else no_subject)
        in try_then (record_view env r (Some current) (qr_payload_fields q) ''full'') (\<lambda>x.
           try_then (successor_of env r db) (\<lambda>successor.
           let y = x\<lparr>ro_superseded_by := successor\<rparr>
           in try_then (single_response re byte_limit y) (\<lambda>response.
             add_warnings re byte_limit
               ((if successor = [] then []
                 else [plain_warning ''memo_superseded'' ''successor exists; inspect before use'' (Some successor)]) @
                (if du_kind r = ''memo'' then memo_basis_warnings env r else [])) response)))))"

definition topic_query :: "records_env \<Rightarrow> records_query \<Rightarrow> record_query" where
  "topic_query env q = (all_records env)\<lparr>rq_kind := ''memo'', rq_validity := ''current'', rq_topic_key := qr_topic_key q,
     rq_scope := qr_scope q, rq_configuration := qr_configuration q\<rparr>"

definition query_topic :: "records_env \<Rightarrow> result_env \<Rightarrow> records_query \<Rightarrow> nat \<Rightarrow> record_db \<Rightarrow> go_error + record_response" where
  "query_topic env re q byte_limit db =
     (if qr_topic_key q = [] then Inl (Text ''topic_key is required for get_topic'')
      else try_then (find_records env (topic_query env q) db) (\<lambda>page.
        if pg_matched page = 0 then Inl (Sentinel StoreNotFound)
        else if pg_matched page = 1 then
          (let r = hd (pg_records page)
           in try_then (record_view env r (Some no_subject) (qr_payload_fields q) ''full'') (\<lambda>x.
              try_then (single_response re byte_limit x) (\<lambda>response.
                add_warnings re byte_limit (memo_basis_warnings env r) response)))
        else try_then (each_view (\<lambda>r. record_view env r (Some no_subject) [] ''brief'') (take 8 (pg_records page))) (\<lambda>items.
          ambiguous_response re items (pg_matched page) ''memo_topic_ambiguous''
            ''topic_key matches multiple current memos; provide scope and configuration'' byte_limit)))"

text \<open>The candidates of \<open>resume\<close>, and whether they match only some of the terms.\<close>

definition checkpoint_query :: "records_env \<Rightarrow> records_query \<Rightarrow> record_query" where
  "checkpoint_query env q = (all_records env)\<lparr>rq_kind := ''checkpoint'', rq_validity := ''current'',
     rq_terms := normalize_record_terms (xe_lower env) (qr_query q), rq_match_all := (qr_match_mode q \<noteq> ''any'')\<rparr>"

definition resume_candidates :: "records_env \<Rightarrow> records_query \<Rightarrow> record_db \<Rightarrow> go_error + (record_page \<times> bool)" where
  "resume_candidates env q db =
     (if qr_id q \<noteq> [] then
        try_then (get_record (xe_id env) (xe_id env) (qr_id q) db) (\<lambda>r.
          if du_kind r \<noteq> ''checkpoint'' then Inl (Text ''resume id must name a checkpoint'')
          else Inr (\<lparr>pg_records = [r], pg_matched = 1, pg_complete = True\<rparr>, False))
      else let query = checkpoint_query env q
        in try_then (find_records env query db) (\<lambda>page.
          if pg_matched page = 0 \<and> rq_match_all query \<and> 1 < length (rq_terms query)
          then try_then (find_records env (query\<lparr>rq_match_all := False\<rparr>) db) (\<lambda>some. Inr (some, 0 < pg_matched some))
          else Inr (page, False)))"

definition query_resume :: "records_env \<Rightarrow> result_env \<Rightarrow> records_query \<Rightarrow> nat \<Rightarrow> record_db \<Rightarrow> go_error + record_response" where
  "query_resume env re q byte_limit db =
     try_then (resume_candidates env q db) (\<lambda>(page, some_terms).
       if pg_matched page = 0 then Inl (Sentinel StoreNotFound)
       else if pg_matched page = 1 \<and> \<not> some_terms
       then try_then (resume_record env (hd (pg_records page))) (\<lambda>x. single_response re byte_limit x)
       else try_then (each_view (\<lambda>r. record_view env r (Some no_subject) [] ''brief'') (take 5 (pg_records page))) (\<lambda>items.
         if some_terms
         then ambiguous_response re items (pg_matched page) ''checkpoint_no_full_match''
           ''no current checkpoint matches all goal terms; these candidates match some terms; refine the query or use an id''
           byte_limit
         else ambiguous_response re items (pg_matched page) ''checkpoint_ambiguous''
           ''multiple current checkpoints match; provide a more specific query or checkpoint id'' byte_limit))"

section \<open>Result sets\<close>

definition recordSetTTL :: time where "recordSetTTL = seconds (30 * 60)"

definition record_item :: "result_env \<Rightarrow> nat \<Rightarrow> record_result \<Rightarrow> result_item" where
  "record_item re n x = \<lparr>ri_ordinal = n, ri_ref = ''record:'' @ ro_id x, ri_hash = ''sha256:'' @ re_sha re (re_encode re x),
     ri_payload = re_encode re x\<rparr>"

definition record_result_set ::
    "records_env \<Rightarrow> result_env \<Rightarrow> time \<Rightarrow> string \<Rightarrow> records_query \<Rightarrow> record_result list \<Rightarrow> bool \<Rightarrow> result_set" where
  "record_result_set env re now k q xs complete =
     \<lparr>sn_id = k, sn_workspace = xe_id env, sn_query = ''sha256:'' @ re_sha re (re_request re q),
      sn_generation = ''records.v1'', sn_created_at = now, sn_expires_at = now + recordSetTTL,
      sn_metadata = re_metadata re complete,
      sn_items = map (\<lambda>(n, x). record_item re n x) (List.enumerate 0 xs)\<rparr>"

definition record_page_body ::
    "records_env \<Rightarrow> result_env \<Rightarrow> bool \<Rightarrow> string \<Rightarrow> nat \<Rightarrow> time \<Rightarrow> nat \<Rightarrow> record_result list \<Rightarrow> nat \<Rightarrow> nat \<Rightarrow>
     go_error + record_response option" where
  "record_page_body env re complete k start expires whole items byte_limit returned =
     (let next_ordinal = start + returned; more = next_ordinal < whole
      in try_then (page_cursor (re_codec re) (xe_id env) k next_ordinal whole expires) (\<lambda>cursor.
        let r = \<lparr>rs_status = (if complete then StatusOK else StatusPartial), rs_items = take returned items,
              rs_counts = \<lparr>cn_matched = Some (of_nat whole), cn_relation = (if complete then CountExact else CountLowerBound),
                cn_returned = of_nat returned\<rparr>,
              rs_scan = \<lparr>sc_state = (if complete then ScanComplete else ScanPartial), sc_scope_ref = None\<rparr>,
              rs_truncated = Some (more \<or> \<not> complete), rs_next_cursor = cursor, rs_snapshot_ref = Some (''snapshot:'' @ k),
              rs_warnings = (if complete then []
                else [plain_warning ''record_snapshot_limit'' ''record snapshot exceeded its bounded item limit'' None])\<rparr>
        in Inr (if re_size re r \<le> byte_limit then Some r else None)))"

definition stored_complete :: "result_env \<Rightarrow> string \<Rightarrow> go_error + bool" where
  "stored_complete re metadata =
     (if metadata = [] then Inr True
      else case re_complete re metadata of None \<Rightarrow> Inl (Text ''decode record result metadata'') | Some c \<Rightarrow> Inr c)"

definition record_read_page ::
    "records_env \<Rightarrow> result_env \<Rightarrow> catalog_db \<Rightarrow> string \<Rightarrow> nat \<Rightarrow> nat \<Rightarrow> nat \<Rightarrow> time \<Rightarrow> go_error + record_response" where
  "record_read_page env re cdb k start item_limit byte_limit expires =
     try_then (read_result_page k start item_limit cdb) (\<lambda>page.
     try_then (stored_complete re (pg_metadata page)) (\<lambda>complete.
     try_then (decode_items (Text ''decode record result'') (re_decode re) (pg_items page)) (\<lambda>items.
       fit_page records_too_large (record_page_body env re complete k start expires (pg_total page) items byte_limit) (length items))))"

definition record_from_cursor ::
    "records_env \<Rightarrow> result_env \<Rightarrow> catalog_db \<Rightarrow> time \<Rightarrow> string \<Rightarrow> nat \<Rightarrow> nat \<Rightarrow> go_error + record_response" where
  "record_from_cursor env re cdb clock encoded item_limit byte_limit =
     try_then (decode_cursor (re_codec re) clock encoded (xe_id env)) (\<lambda>p.
       record_read_page env re cdb (cr_set p) (cr_next p) item_limit byte_limit (seconds (cr_expires p)))"

definition record_persist ::
    "records_env \<Rightarrow> result_env \<Rightarrow> time \<Rightarrow> string \<Rightarrow> records_query \<Rightarrow> record_result list \<Rightarrow> bool \<Rightarrow> nat \<Rightarrow> nat \<Rightarrow>
     catalog_db \<Rightarrow> catalog_db \<times> (go_error + record_response)" where
  "record_persist env re now k q xs complete item_limit byte_limit cdb =
     (let s = record_result_set env re now k q xs complete
      in case create_result_set (re_valid re) s cdb of
           (cdb', Inl e) \<Rightarrow> (cdb', Inl e)
         | (cdb', Inr _) \<Rightarrow> (cdb', record_read_page env re cdb' k 0 item_limit byte_limit (sn_expires_at s)))"

section \<open>Lists and searches\<close>

definition time_filter :: "records_env \<Rightarrow> string \<Rightarrow> string \<Rightarrow> go_error + time" where
  "time_filter env name s =
     (if s = [] then Inr zero_time
      else case te_parse (xe_time env) s of None \<Rightarrow> Inl (Text (name @ '' must be RFC3339'')) | Some t \<Rightarrow> Inr t)"

definition dynamic_kind :: "records_query \<Rightarrow> bool" where
  "dynamic_kind q \<longleftrightarrow> qr_kind q = [] \<or> qr_kind q = ''verification''"

definition list_query :: "records_env \<Rightarrow> records_query \<Rightarrow> time \<Rightarrow> time \<Rightarrow> record_query" where
  "list_query env q after before = (all_records env)\<lparr>rq_kind := qr_kind q,
     rq_validity := (if dynamic_kind q then [] else qr_validity q), rq_source := qr_source q, rq_updated_after := after,
     rq_updated_before := before, rq_topic_key := qr_topic_key q, rq_scope := qr_scope q,
     rq_configuration := qr_configuration q,
     rq_terms := (if qr_mode q = ''search'' then normalize_record_terms (xe_lower env) (qr_query q) else []),
     rq_match_all := (qr_match_mode q = ''all'')\<rparr>"

definition list_page :: "records_env \<Rightarrow> records_query \<Rightarrow> record_db \<Rightarrow> go_error + record_page" where
  "list_page env q db =
     try_then (time_filter env ''updated_after'' (qr_updated_after q)) (\<lambda>after.
     try_then (time_filter env ''updated_before'' (qr_updated_before q)) (\<lambda>before.
       if \<not> is_zero_time before \<and> \<not> is_zero_time after \<and> \<not> after < before
       then Inl (Text ''updated_after must precede updated_before'')
       else find_records env (list_query env q after before) db))"

definition list_view :: "records_query \<Rightarrow> string" where
  "list_view q = (if qr_view q \<noteq> [] then qr_view q
     else if qr_mode q = ''search'' \<and> qr_payload_fields q = [] then ''brief'' else ''full'')"

definition list_result ::
    "records_env \<Rightarrow> records_query \<Rightarrow> subject_observation \<Rightarrow> time \<Rightarrow> durable \<Rightarrow> go_error + record_result" where
  "list_result env q current as_of r =
     try_then (record_view env r (Some current) (qr_payload_fields q) (list_view q)) (\<lambda>x.
       Inr (if qr_mode q = ''search'' \<and> list_view q = ''brief'' then x\<lparr>ro_search_as_of := as_of\<rparr> else x))"

definition listed :: "records_query \<Rightarrow> record_result \<Rightarrow> bool" where
  "listed q x \<longleftrightarrow> qr_validity q = [] \<or> ro_validity x = qr_validity q"

definition query_list ::
    "records_env \<Rightarrow> result_env \<Rightarrow> time \<Rightarrow> time \<Rightarrow> string \<Rightarrow> records_query \<Rightarrow> nat \<Rightarrow> nat \<Rightarrow> record_db \<Rightarrow> catalog_db \<Rightarrow>
     catalog_db \<times> (go_error + record_response)" where
  "query_list env re as_of now k q item_limit byte_limit db cdb =
     (let current = (if dynamic_kind q then observe_subject env else no_subject)
      in case try_then (list_page env q db) (\<lambda>page.
           try_then (each_view (list_result env q current as_of) (pg_records page)) (\<lambda>xs. Inr (xs, pg_complete page))) of
           Inl e \<Rightarrow> (cdb, Inl e)
         | Inr (xs, complete) \<Rightarrow> record_persist env re now k q (filter (listed q) xs) complete item_limit byte_limit cdb)"

text \<open>\<open>Query\<close>; \<open>as_of\<close> is the first clock reading of the call, \<open>now\<close> the one that dates a new result set.\<close>

definition query_mode ::
    "records_env \<Rightarrow> result_env \<Rightarrow> time \<Rightarrow> time \<Rightarrow> string \<Rightarrow> records_query \<Rightarrow> nat \<Rightarrow> nat \<Rightarrow> record_db \<Rightarrow> catalog_db \<Rightarrow>
     catalog_db \<times> (go_error + record_response)" where
  "query_mode env re as_of now k q item_limit byte_limit db cdb =
     (if qr_mode q = ''get'' then (cdb, query_get env re q byte_limit db)
      else if qr_mode q = ''get_topic'' then (cdb, query_topic env re q byte_limit db)
      else if qr_mode q = ''resume'' then (cdb, query_resume env re q byte_limit db)
      else if qr_mode q = ''list'' \<or> qr_mode q = ''search''
      then query_list env re as_of now k q item_limit byte_limit db cdb
      else (cdb, Inl (Text (''unsupported records mode '' @ quoted (qr_mode q)))))"

definition project_records ::
    "records_env \<Rightarrow> result_env \<Rightarrow> time \<Rightarrow> time \<Rightarrow> string \<Rightarrow> records_query \<Rightarrow> record_db \<Rightarrow> catalog_db \<Rightarrow>
     catalog_db \<times> (go_error + record_response)" where
  "project_records env re as_of now k raw db cdb =
     (case try_then (infer_mode raw) (\<lambda>i. let q = i\<lparr>qr_limits := query_limits i\<rparr>
             in try_then (normalize_limits (qr_limits q)) (\<lambda>l. Inr (q, l))) of
        Inl e \<Rightarrow> (cdb, Inl e)
      | Inr (q, l) \<Rightarrow>
          (let item_limit = unat (lm_item_limit l); byte_limit = unat (lm_byte_limit l)
           in if qr_cursor q \<noteq> [] then
                (cdb, if qr_mode q \<noteq> [] \<and> qr_mode q \<noteq> ''list'' \<and> qr_mode q \<noteq> ''search''
                  then Inl (Text ''cursor is only valid for search or list'')
                  else record_from_cursor env re cdb as_of (qr_cursor q) item_limit byte_limit)
              else case validate_record_filters env q of
                Inl e \<Rightarrow> (cdb, Inl e)
              | Inr _ \<Rightarrow> query_mode env re as_of now k (q\<lparr>qr_topic_key := xe_lower env (qr_topic_key q)\<rparr>) item_limit
                  byte_limit db cdb))"

section \<open>Cache qualifications\<close>

definition qualifies :: "string \<Rightarrow> string \<Rightarrow> string \<Rightarrow> (string, json) gomap \<Rightarrow> bool" where
  "qualifies capability configuration check m \<longleftrightarrow>
     text_member m ''check_id'' = check \<and> text_member m ''capability'' = capability \<and>
     text_member m ''configuration'' = configuration \<and> text_member m ''outcome'' = ''passed''"

definition qualification ::
    "records_env \<Rightarrow> string \<Rightarrow> string \<Rightarrow> subject_observation \<Rightarrow> durable list \<Rightarrow> string \<Rightarrow> string option" where
  "qualification env capability configuration current rs check =
     map_option (\<lambda>r. ''record:'' @ du_id r)
       (find (\<lambda>r. case xe_object env (du_payload r) of
            Inl _ \<Rightarrow> False
          | Inr p \<Rightarrow> validity_from_payload (members p) current = ''current'' \<and>
              qualifies capability configuration check (members p)) rs)"

fun take_refs :: "(string \<Rightarrow> string option) \<Rightarrow> string list \<Rightarrow> string list \<times> bool" where
  "take_refs f [] = ([], True)"
| "take_refs f (c # cs) = (case f c of
      None \<Rightarrow> ([], False) | Some r \<Rightarrow> (let (rs, ok) = take_refs f cs in (r # rs, ok)))"

definition resolve_cache_qualifications ::
    "records_env \<Rightarrow> string \<Rightarrow> string \<Rightarrow> string list \<Rightarrow> record_db \<Rightarrow> go_error + (string list \<times> bool)" where
  "resolve_cache_qualifications env capability configuration checks db =
     (if capability = [] \<or> configuration = [] \<or> checks = [] \<or> 64 < length checks then Inr ([], False)
      else try_then (find_records env ((all_records env)\<lparr>rq_kind := ''verification''\<rparr>) db) (\<lambda>page.
        if \<not> pg_complete page then Inr ([], False)
        else Inr (take_refs (qualification env capability configuration (observe_subject env) (pg_records page)) checks)))"

section \<open>Paging\<close>

type_synonym record_state = "records_env \<times> result_env \<times> result_set"

definition record_start :: "record_state \<Rightarrow> page_call \<Rightarrow> go_error + record_response" where
  "record_start st l = (case st of (env, re, s) \<Rightarrow>
     record_read_page env re (pl_db l) (sn_id s) 0 (pl_items l) (pl_bytes l) (sn_expires_at s))"

definition record_resume :: "record_state \<Rightarrow> string \<Rightarrow> page_call \<Rightarrow> go_error + record_response" where
  "record_resume st encoded l = (case st of (env, re, s) \<Rightarrow>
     record_from_cursor env re (pl_db l) (pl_now l) encoded (pl_items l) (pl_bytes l))"

definition record_contents :: "record_state \<Rightarrow> record_result list" where
  "record_contents st = set_contents (re_decode (fst (snd st))) (snd (snd st))"

definition record_call :: "record_state \<Rightarrow> page_call \<Rightarrow> bool" where
  "record_call st = (case st of (env, re, s) \<Rightarrow> call_meets (re_codec re) (xe_id env) s)"

definition record_points :: "record_state \<Rightarrow> string \<Rightarrow> nat \<Rightarrow> bool" where
  "record_points st = (case st of (env, re, s) \<Rightarrow> cursor_points (re_codec re) (xe_id env) s)"

lemma record_body_fits:
  assumes "record_page_body env re complete k start expires whole items byte_limit n = Inr (Some r)"
  shows "rs_items r = take n items \<and> page_cursor (re_codec re) (xe_id env) k (start + n) whole expires = Inr (rs_next_cursor r)"
  using assms by (auto simp: record_page_body_def Let_def split: if_splits)

lemma record_page_slice:
  assumes "record_call (env, re, s) l" "n \<le> length (sn_items s)" "unix_seconds x = unix_seconds (sn_expires_at s)"
    "record_read_page env re (pl_db l) (sn_id s) n (pl_items l) (pl_bytes l) x = Inr y"
  shows "page_slice (record_points (env, re, s)) rs_items rs_next_cursor (record_contents (env, re, s)) n y"
proof -
  from assms(1) have m: "call_meets (re_codec re) (xe_id env) s l" by (simp add: record_call_def)
  from assms(4) obtain p complete "is" where p: "read_result_page (sn_id s) n (pl_items l) (pl_db l) = Inr p"
    "decode_items (Text ''decode record result'') (re_decode re) (pg_items p) = Inr is"
    "fit_page records_too_large (record_page_body env re complete (sn_id s) n x (pg_total p) is (pl_bytes l)) (length is) = Inr y"
    by (auto simp: record_read_page_def)
  show ?thesis
    unfolding record_points_def record_contents_def prod.case fst_conv snd_conv
    by (rule fit_page_slice [OF m assms(2) p(1,2) assms(3) p(3)]) (rule record_body_fits)
qed

interpretation record_pages: paged record_start record_resume rs_items rs_next_cursor record_contents record_call record_points
proof
  fix st l r
  assume a: "record_call st l" "record_start st l = Inr r"
  obtain env re s where st: "st = (env, re, s)" by (rule prod_cases3)
  from a show "page_slice (record_points st) rs_items rs_next_cursor (record_contents st) 0 r"
    unfolding st using record_page_slice [of env re s l 0 "sn_expires_at s" r] by (simp add: record_start_def)
next
  fix st l encoded n r
  assume a: "record_call st l" "record_points st encoded n" "n \<le> length (record_contents st)" "record_resume st encoded l = Inr r"
  obtain env re s where st: "st = (env, re, s)" by (rule prod_cases3)
  have w: "codec_law (re_codec re) (xe_id env) s" using a(1) by (auto simp: st record_call_def call_meets_def)
  from a(4) obtain p where p: "decode_cursor (re_codec re) (pl_now l) encoded (xe_id env) = Inr p"
    "record_read_page env re (pl_db l) (cr_set p) (cr_next p) (pl_items l) (pl_bytes l) (seconds (cr_expires p)) = Inr r"
    by (auto simp: st record_resume_def record_from_cursor_def)
  from decoded_cursor_points [OF _ w p(1), of n] a(2)
  have "cr_set p = sn_id s" "cr_next p = n" "cr_expires p = unix_seconds (sn_expires_at s)"
    by (auto simp: st record_points_def)
  with p(2) a(1,3) record_page_slice [of env re s l n "seconds (unix_seconds (sn_expires_at s))" r]
  show "page_slice (record_points st) rs_items rs_next_cursor (record_contents st) n r"
    by (simp add: st record_contents_def set_contents_def)
qed

end
