(* ===== verification/Manifest.thy ===== *)
theory Manifest
  imports Paths
begin

text \<open>
  Tool declarations, \<open>internal/catalog/manifest.go\<close>: the manifest types, the strict decoding of one
  document with its guards on YAML structure and Markdown front matter, and validation. The YAML and
  JSON decoders themselves are the parameters of \<open>yaml_env\<close>; \<open>lower\<close> is \<open>strings.ToLower\<close>.
\<close>

section \<open>Types\<close>

record cache_assumptions =
  as_inputs_complete :: bool
  as_outputs_complete :: bool
  as_external_state :: string
  as_nondeterminism :: string
  as_side_effects :: string

record cache_decl =
  ca_contract_revision :: u64
  ca_output_contract :: string
  ca_key_checks :: "string list"
  ca_qualification_checks :: "string list"
  ca_restore_policy :: string
  ca_isolated_root :: string
  ca_assumptions :: cache_assumptions

record preflight_check =
  pc_id :: string
  pc_kind :: string
  pc_ref :: string
  pc_requirement :: string
  pc_argv :: "string list"

record execution =
  ex_kind :: string
  ex_executable :: string
  ex_cwd :: string
  ex_argv :: "string list"
  ex_trusted :: bool
  ex_timeout_sec :: u64
  ex_artifact_mode :: string
  ex_preflight :: "preflight_check list"

record argument =
  ar_type :: string
  ar_required :: bool
  ar_default :: json
  ar_description :: string

record manifest =
  mf_id :: string
  mf_revision :: u64
  mf_summary :: string
  mf_use_when :: "string list"
  mf_tags :: "string list"
  mf_aliases :: "string list"
  mf_execution :: "execution option"
  mf_arguments :: "(string, argument) gomap"
  mf_inputs :: "string list"
  mf_outputs :: "string list"
  mf_checks :: "string list"
  mf_docs :: "string list"
  mf_cache_policy :: string
  mf_cache :: "cache_decl option"

section \<open>Validation\<close>

text \<open>\<open>^[a-z0-9][a-z0-9._-]{0,127}$\<close> and \<open>^[A-Za-z_][A-Za-z0-9_]{0,63}$\<close>.\<close>

definition lower_alnum :: "char \<Rightarrow> bool" where
  "lower_alnum c \<longleftrightarrow> between 97 122 c \<or> between 48 57 c"

definition id_pattern :: "string \<Rightarrow> bool" where
  "id_pattern s = (case s of
       [] \<Rightarrow> False
     | c # cs \<Rightarrow> lower_alnum c \<and> int (length cs) \<le> 127 \<and>
         list_all (\<lambda>d. lower_alnum d \<or> d = CHR ''.'' \<or> d = CHR ''_'' \<or> d = CHR ''-'') cs)"

definition argument_name_pattern :: "string \<Rightarrow> bool" where
  "argument_name_pattern s = (case s of
       [] \<Rightarrow> False
     | c # cs \<Rightarrow> (between 65 90 c \<or> between 97 122 c \<or> c = CHR ''_'') \<and> int (length cs) \<le> 63 \<and>
         list_all (\<lambda>d. between 65 90 d \<or> lower_alnum d \<or> d = CHR ''_'') cs)"

definition preflight_guards :: "string list \<Rightarrow> preflight_check \<Rightarrow> (bool \<times> go_error) list" where
  "preflight_guards seen c =
     [(\<not> id_pattern (pc_id c), Text ''preflight id is invalid''),
      (List.member seen (pc_id c), Text ''preflight id must be unique''),
      (\<not> List.member [''executable'', ''file'', ''environment'', ''git'', ''platform''] (pc_kind c),
        Text ''preflight kind is unsupported''),
      (\<not> List.member [[], ''required'', ''recommended'', ''informational''] (pc_requirement c),
        Text ''preflight requirement is unsupported''),
      (4096 < int (length (pc_ref c)) \<or> 32 < int (length (pc_argv c)),
        Text ''preflight declaration exceeds supported bounds''),
      (pc_argv c \<noteq> [] \<and> pc_kind c \<noteq> ''executable'', Text ''preflight argv is only valid for executable checks'')]"

fun validate_preflight :: "string list \<Rightarrow> preflight_check list \<Rightarrow> go_error + unit" where
  "validate_preflight seen [] = Inr ()"
| "validate_preflight seen (c # cs) =
     try_then (check_all (preflight_guards seen c)) (\<lambda>_. validate_preflight (pc_id c # seen) cs)"

definition validate_execution :: "execution \<Rightarrow> go_error + unit" where
  "validate_execution e =
     try_then (check_all
       [(trim_space (ex_executable e) = [], Text ''execution.executable_ref is required''),
        (256 < int (length (ex_argv e)) \<or> 24 * 60 * 60 < ex_timeout_sec e,
          Text ''execution limits exceed supported bounds''),
        (\<not> List.member [[], ''metadata'', ''capture''] (ex_artifact_mode e),
          Text ''execution.artifact_mode must be metadata or capture''),
        (64 < int (length (ex_preflight e)), Text ''execution.preflight exceeds supported bounds'')])
     (\<lambda>_. validate_preflight [] (ex_preflight e))"

definition isolated_root_bad :: "string \<Rightarrow> bool" where
  "isolated_root_bad r =
     (let root = path_clean r
      in r = [] \<or> is_abs root \<or> root = ''.'' \<or> root = ''..'' \<or> has_prefix root ''../'' \<or> contains_any r ''*?'')"

definition outputs_below :: "string \<Rightarrow> string list \<Rightarrow> bool" where
  "outputs_below r outputs = (let pre = trim_suffix r ''/'' @ ''/'' in list_all (\<lambda>x. has_prefix x pre) outputs)"

definition pure_assumptions :: "cache_assumptions \<Rightarrow> bool" where
  "pure_assumptions a \<longleftrightarrow> as_inputs_complete a \<and> as_outputs_complete a \<and> as_external_state a = ''none'' \<and>
     as_nondeterminism a = ''none'' \<and> as_side_effects a = ''declared_outputs_only''"

text \<open>The map \<open>preflight\<close> keeps the last check of an identifier.\<close>

definition key_check_ok :: "preflight_check list \<Rightarrow> string \<Rightarrow> bool" where
  "key_check_ok cs k = (case find (\<lambda>c. pc_id c = k) (rev cs) of
       None \<Rightarrow> False | Some c \<Rightarrow> pc_kind c = ''executable'' \<and> pc_requirement c = ''required'')"

definition cache_guards :: "string \<Rightarrow> manifest \<Rightarrow> execution \<Rightarrow> cache_decl \<Rightarrow> (bool \<times> go_error) list" where
  "cache_guards policy m e c =
     [(mf_inputs m = [] \<or> mf_outputs m = [] \<or> ca_contract_revision c = 0 \<or> \<not> id_pattern (ca_output_contract c),
        Text ''cache requires inputs, outputs, contract_revision, and a valid output_contract''),
      (\<not> List.member [''missing_or_matching'', ''replace_isolated_root''] (ca_restore_policy c),
        Text ''cache restore_policy is unsupported''),
      (ca_restore_policy c = ''replace_isolated_root'' \<and> isolated_root_bad (ca_isolated_root c),
        Text ''replace_isolated_root requires a fixed workspace-relative isolated_root''),
      (ca_restore_policy c = ''replace_isolated_root'' \<and> \<not> outputs_below (ca_isolated_root c) (mf_outputs m),
        Text ''all outputs must be below isolated_root''),
      (\<not> pure_assumptions (ca_assumptions c), Text ''cache purity assumptions are incomplete''),
      (ca_key_checks c = [] \<or> 64 < int (length (ca_key_checks c)) \<or> 64 < int (length (ca_qualification_checks c)) \<or>
         (policy = ''verified'' \<and> ca_qualification_checks c = []),
        Text ''cache check declarations are incomplete or exceed limits''),
      (\<not> list_all (key_check_ok (ex_preflight e)) (ca_key_checks c),
        Text ''cache key_checks must reference required executable preflight checks''),
      (\<not> list_all id_pattern (ca_qualification_checks c), Text ''cache qualification check id is invalid'')]"

definition validate_cache :: "manifest \<Rightarrow> go_error + unit" where
  "validate_cache m =
     (let policy = (if mf_cache_policy m = [] then ''disabled'' else mf_cache_policy m)
      in if policy = ''disabled'' then
           (if mf_cache m \<noteq> None then Inl (Text ''cache configuration requires cache_policy=observe or verified'')
            else Inr ())
         else case (mf_cache m, mf_execution m) of
             (Some c, Some e) \<Rightarrow>
               if \<not> ex_trusted e \<or> ex_artifact_mode e \<noteq> ''capture''
               then Inl (Text ''cache requires trusted execution with artifact_mode=capture'')
               else check_all (cache_guards policy m e c)
           | _ \<Rightarrow> Inl (Text ''cache requires trusted execution with artifact_mode=capture''))"

definition argument_guards :: "string \<times> argument \<Rightarrow> (bool \<times> go_error) list" where
  "argument_guards p =
     [(\<not> argument_name_pattern (fst p), Text ''argument name is invalid''),
      (\<not> List.member [''string'', ''project_path'', ''host_ref'', ''boolean'', ''bool'', ''integer''] (ar_type (snd p)),
        Text ''argument type is unsupported''),
      (4096 < int (length (ar_description (snd p))), Text ''argument description exceeds supported bounds'')]"

definition validate_manifest :: "manifest \<Rightarrow> go_error + unit" where
  "validate_manifest m =
     try_then (check_all
       [(\<not> id_pattern (mf_id m), Text ''id must match ^[a-z0-9][a-z0-9._-]{0,127}$''),
        (mf_revision m = 0, Text ''revision must be greater than zero''),
        (trim_space (mf_summary m) = [], Text ''summary is required''),
        (\<not> List.member [[], ''disabled'', ''observe'', ''verified''] (mf_cache_policy m),
          Text ''cache_policy must be disabled, observe, or verified''),
        (case mf_execution m of None \<Rightarrow> False | Some e \<Rightarrow> ex_kind e \<noteq> ''cli'',
          Text ''MVP only recognizes execution.kind=cli'')]) (\<lambda>_.
     try_then (case mf_execution m of None \<Rightarrow> Inr () | Some e \<Rightarrow> validate_execution e) (\<lambda>_.
     try_then (validate_cache m) (\<lambda>_.
     try_then (check_all
       [(64 < int (length (mf_arguments m)) \<or> 128 < int (length (mf_inputs m)) \<or> 128 < int (length (mf_outputs m)) \<or>
           128 < int (length (mf_checks m)) \<or> 128 < int (length (mf_docs m)),
          Text ''manifest collections exceed supported bounds'')]) (\<lambda>_.
     check_all (concat (map argument_guards (mf_arguments m)))))))"

section \<open>YAML structure\<close>

datatype yaml_kind = DocumentNode | SequenceNode | MappingNode | ScalarNode | AliasNode

datatype yaml_node = YamlNode (yn_kind: yaml_kind) (yn_flow: bool) (yn_tag: string) (yn_value: string)
  (yn_has_alias: bool) (yn_content: "yaml_node list")

definition allowed_tags :: "string list" where
  "allowed_tags = [[], ''!!map'', ''!!seq'', ''!!str'', ''!!int'', ''!!bool'', ''!!null'', ''!!float'', ''!!timestamp'']"

fun validate_yaml_node :: "yaml_node \<Rightarrow> nat \<Rightarrow> go_error + unit"
  and validate_yaml_nodes :: "yaml_node list \<Rightarrow> nat \<Rightarrow> go_error + unit" where
  "validate_yaml_node (YamlNode kind flow tag val has_alias content) depth =
     (if 64 < depth then Inl (Text ''YAML nesting exceeds supported depth'')
      else if kind = AliasNode \<or> has_alias then Inl (Text ''YAML aliases are not supported'')
      else if \<not> List.member allowed_tags tag then Inl (Text (''YAML tag '' @ tag @ '' is not supported''))
      else validate_yaml_nodes content (Suc depth))"
| "validate_yaml_nodes [] depth = Inr ()"
| "validate_yaml_nodes (n # ns) depth =
     try_then (validate_yaml_node n depth) (\<lambda>_. validate_yaml_nodes ns depth)"

fun flow_keys :: "yaml_node list \<Rightarrow> string list" where
  "flow_keys (k # v # ns) = yn_value k # flow_keys ns"
| "flow_keys ns = []"

fun flow_mapping_contains_key :: "string \<Rightarrow> yaml_node \<Rightarrow> bool"
  and flow_mappings_contain_key :: "string \<Rightarrow> yaml_node list \<Rightarrow> bool" where
  "flow_mapping_contains_key field (YamlNode kind flow tag val has_alias content) =
     (if kind = MappingNode \<and> flow \<and> List.member (flow_keys content) field then True
      else flow_mappings_contain_key field content)"
| "flow_mappings_contain_key field [] = False"
| "flow_mappings_contain_key field (n # ns) =
     (flow_mapping_contains_key field n \<or> flow_mappings_contain_key field ns)"

text \<open>The first match of \<open>field ([^ ]+) not found\<close>.\<close>

fun unknown_field :: "string \<Rightarrow> string option" where
  "unknown_field [] = None"
| "unknown_field (c # cs) =
     (let r = drop 5 cs; name = takeWhile (\<lambda>d. d \<noteq> CHR '' '') r
      in if has_prefix (c # cs) ''field '' \<and> name \<noteq> [] \<and> has_prefix (drop (length name) r) '' not found''
         then Some name else unknown_field cs)"

definition unknown_field_in_flow_mapping :: "string \<Rightarrow> yaml_node \<Rightarrow> bool" where
  "unknown_field_in_flow_mapping err node =
     (case unknown_field err of None \<Rightarrow> False | Some f \<Rightarrow> flow_mapping_contains_key f node)"

section \<open>Front matter\<close>

function front_matter_lines :: "string \<Rightarrow> string \<Rightarrow> string option" where
  "front_matter_lines taken rest =
     (let line = takeWhile (\<lambda>c. c \<noteq> CHR 0x0A) rest
      in if trim_suffix line [CHR 0x0D] = ''---'' then Some taken
         else case dropWhile (\<lambda>c. c \<noteq> CHR 0x0A) rest of
             [] \<Rightarrow> None
           | nl # later \<Rightarrow> front_matter_lines (taken @ line @ [nl]) later)"
  by pat_completeness auto
termination
proof (relation "measure (\<lambda>(_, rest). length rest)")
  fix rest :: string and nl later
  assume "dropWhile (\<lambda>c. c \<noteq> CHR 0x0A) rest = nl # later"
  then have "length (nl # later) \<le> length rest" by (metis length_dropWhile_le)
  then show "((x, later), (y, rest)) \<in> measure (\<lambda>(_, rest). length rest)" for x y by simp
qed simp

declare front_matter_lines.simps [simp del]

definition markdown_front_matter :: "string \<Rightarrow> go_error + string" where
  "markdown_front_matter raw =
     (let data = trim_prefix raw [CHR 0xEF, CHR 0xBB, CHR 0xBF]
      in if \<not> has_prefix data (''---'' @ [CHR 0x0A]) \<and> \<not> has_prefix data (''---'' @ [CHR 0x0D, CHR 0x0A])
           then Inl (Text ''Markdown catalog source must begin with YAML frontmatter'')
         else case front_matter_lines [] (tl (dropWhile (\<lambda>c. c \<noteq> CHR 0x0A) data)) of
             None \<Rightarrow> Inl (Text ''unterminated Markdown frontmatter'')
           | Some y \<Rightarrow> Inr y)"

section \<open>Decoding\<close>

text \<open>The answers of the decoders: the node and the manifest of the first document, and what a second
  \<open>Decode\<close> finds. \<open>yv_json\<close> decodes with unknown fields refused; \<open>yv_json_rest\<close> is the second
  \<open>Decode\<close> into an empty struct.\<close>

datatype second_document = AtEOF | NilValue | OtherValue | BadDocument string

record yaml_env =
  yv_node :: "string \<Rightarrow> string + yaml_node"
  yv_manifest :: "string \<Rightarrow> string + manifest"
  yv_rest :: "string \<Rightarrow> second_document"
  yv_json :: "string \<Rightarrow> string + manifest"
  yv_json_rest :: "string \<Rightarrow> second_document"

definition MaxManifestBytes :: int where "MaxManifestBytes = 1024 * 1024"

definition decode_json :: "yaml_env \<Rightarrow> string \<Rightarrow> go_error + manifest" where
  "decode_json y data =
     (case yv_json y data of
        Inl e \<Rightarrow> Inl (Text e)
      | Inr m \<Rightarrow> (case yv_json_rest y data of
            AtEOF \<Rightarrow> Inr m
          | BadDocument e \<Rightarrow> Inl (Text e)
          | _ \<Rightarrow> Inl (Text ''multiple JSON values'')))"

text \<open>When the second document is null the guard returns the nil error of \<open>Decode\<close>: the first document is
  accepted.\<close>

definition decode_yaml :: "yaml_env \<Rightarrow> string \<Rightarrow> go_error + manifest" where
  "decode_yaml y data =
     (case yv_node y data of
        Inl e \<Rightarrow> Inl (Text e)
      | Inr document \<Rightarrow>
          try_then (validate_yaml_node document 0) (\<lambda>_.
            case yv_manifest y data of
              Inl e \<Rightarrow>
                if unknown_field_in_flow_mapping e document
                then Inl (Text (e @ ''; flow-style mappings treat commas as field separators, so quote scalar values that contain commas''))
                else Inl (Text e)
            | Inr m \<Rightarrow> (case yv_rest y data of
                  AtEOF \<Rightarrow> Inr m
                | NilValue \<Rightarrow> Inr m
                | OtherValue \<Rightarrow> Inl (Text ''multiple YAML documents'')
                | BadDocument e \<Rightarrow> Inl (Text e))))"

datatype manifest_error = TooLarge | Invalid go_error

definition decode_by_format :: "(string \<Rightarrow> string) \<Rightarrow> yaml_env \<Rightarrow> string \<Rightarrow> string \<Rightarrow> go_error + manifest" where
  "decode_by_format lower y format data =
     (let f = lower format
      in if f = ''.json'' \<or> f = ''json'' then decode_json y data
         else if f = ''.yaml'' \<or> f = ''.yml'' \<or> f = ''yaml'' \<or> f = ''yml'' then decode_yaml y data
         else if f = ''.md'' \<or> f = ''md'' \<or> f = ''markdown'' then
           try_then (markdown_front_matter data) (decode_yaml y)
         else Inl (Text (''unsupported manifest format '' @ format)))"

definition decode_manifest :: "(string \<Rightarrow> string) \<Rightarrow> yaml_env \<Rightarrow> string \<Rightarrow> string \<Rightarrow> manifest_error + manifest" where
  "decode_manifest lower y format data =
     (if MaxManifestBytes < int (length data) then Inl TooLarge
      else case decode_by_format lower y format data of
          Inl e \<Rightarrow> Inl (Invalid e)
        | Inr m \<Rightarrow> (case validate_manifest m of Inl e \<Rightarrow> Inl (Invalid e) | Inr _ \<Rightarrow> Inr m))"

section \<open>Validated manifests\<close>

lemma preflight_guard_seen: "check_all (preflight_guards seen c) = Inr u \<Longrightarrow> pc_id c \<notin> set seen"
  unfolding check_all_ok preflight_guards_def by simp

lemma preflight_unique:
  "validate_preflight seen cs = Inr u \<Longrightarrow> distinct (map pc_id cs) \<and> set (map pc_id cs) \<inter> set seen = {}"
proof (induction cs arbitrary: seen u)
  case (Cons c cs)
  then have "pc_id c \<notin> set seen" "validate_preflight (pc_id c # seen) cs = Inr ()"
    by (auto dest: preflight_guard_seen)
  with Cons.IH [of "pc_id c # seen"] show ?case by auto
qed simp

lemma find_rev_unique:
  assumes "distinct (map f xs)" "find (\<lambda>c. f c = k) (rev xs) = Some c"
  shows "c \<in> set xs \<and> f c = k \<and> (\<forall>d \<in> set xs. f d = k \<longrightarrow> d = c)"
proof -
  from assms(2) have "c \<in> set (rev xs)" "f c = k" by (metis (mono_tags, lifting) find_Some_iff nth_mem)+
  with assms(1) show ?thesis by (auto simp: distinct_map dest: inj_onD)
qed

lemma isolated_root_plain:
  assumes "\<not> isolated_root_bad r"
  shows "clean_comps r \<noteq> [] \<and> list_all plain_comp (clean_comps r) \<and> \<not> is_abs r"
proof -
  from assms have r: "\<not> is_abs (path_clean r)" "path_clean r \<noteq> ''.''" "path_clean r \<noteq> ''..''" "\<not> has_prefix (path_clean r) ''../''"
    by (auto simp: isolated_root_bad_def Let_def)
  have a: "\<not> is_abs r"
  proof
    assume "is_abs r"
    then have "is_abs (path_clean r)" by (simp add: path_clean_def spell_def is_abs_def has_prefix_def)
    with r(1) show False ..
  qed
  then obtain n xs where c: "clean_comps r = replicate n ''..'' @ xs" "list_all plain_comp xs" by (rule clean_comps_dots)
  have "n = 0"
  proof (rule ccontr)
    assume "n \<noteq> 0"
    then obtain m where "n = Suc m" by (cases n) auto
    then have "clean_comps r = ''..'' # (replicate m ''..'' @ xs)" using c by simp
    then have "path_clean r = ''..'' \<or> has_prefix (path_clean r) ''../''"
      using a by (cases "replicate m ''..'' @ xs") (auto simp: path_clean_def spell_def has_prefix_def)
    with r show False by blast
  qed
  moreover have "clean_comps r \<noteq> []" using r(2) a by (auto simp: path_clean_def spell_def)
  ultimately show ?thesis using c a by simp
qed

lemma cache_guard_facts:
  assumes "check_all (cache_guards policy m e c) = Inr u"
  shows "mf_inputs m \<noteq> []" "mf_outputs m \<noteq> []" "ca_contract_revision c \<noteq> 0"
    "ca_restore_policy c = ''replace_isolated_root'' \<Longrightarrow> \<not> isolated_root_bad (ca_isolated_root c)"
    "ca_restore_policy c = ''replace_isolated_root'' \<Longrightarrow> outputs_below (ca_isolated_root c) (mf_outputs m)"
    "pure_assumptions (ca_assumptions c)" "ca_key_checks c \<noteq> []"
    "policy = ''verified'' \<Longrightarrow> ca_qualification_checks c \<noteq> []"
    "list_all (key_check_ok (ex_preflight e)) (ca_key_checks c)"
  using assms unfolding check_all_ok cache_guards_def by (simp_all del: List.member_iff)

lemma validated_parts:
  assumes "validate_manifest m = Inr u" "mf_execution m = Some e"
  shows "validate_execution e = Inr ()" "validate_cache m = Inr ()"
  using assms unfolding validate_manifest_def by auto

lemma validated_cache:
  assumes "validate_manifest m = Inr u" "mf_cache_policy m = ''observe'' \<or> mf_cache_policy m = ''verified''"
  obtains c e where "mf_cache m = Some c" "mf_execution m = Some e" "ex_trusted e" "ex_artifact_mode e = ''capture''"
    "check_all (cache_guards (mf_cache_policy m) m e c) = Inr ()" "validate_execution e = Inr ()"
proof -
  have v: "validate_cache m = Inr ()" using assms(1) unfolding validate_manifest_def by auto
  then obtain c e where "mf_cache m = Some c" "mf_execution m = Some e" "ex_trusted e" "ex_artifact_mode e = ''capture''"
    "check_all (cache_guards (mf_cache_policy m) m e c) = Inr ()"
    using assms(2) unfolding validate_cache_def Let_def by (auto split: option.splits if_splits)
  with validated_parts(1) [OF assms(1)] that show thesis by blast
qed

lemma key_check_unique:
  assumes "distinct (map pc_id cs)" "key_check_ok cs k"
  shows "\<exists>p \<in> set cs. pc_id p = k \<and> pc_kind p = ''executable'' \<and> pc_requirement p = ''required'' \<and>
    (\<forall>q \<in> set cs. pc_id q = k \<longrightarrow> q = p)"
proof -
  from assms(2) obtain p where p: "find (\<lambda>c. pc_id c = k) (rev cs) = Some p" "pc_kind p = ''executable''"
    "pc_requirement p = ''required''"
    by (auto simp: key_check_ok_def split: option.splits)
  from find_rev_unique [OF assms(1) p(1)] p(2,3) show ?thesis by blast
qed

section \<open>Properties\<close>

text \<open>A manifest that passes validation with an active cache policy runs trusted with captured
  artifacts, declares inputs, outputs and pure assumptions, and each of its key checks names exactly
  one preflight check, which is a required executable check.\<close>

theorem cached_manifests_are_checked:
  assumes "validate_manifest m = Inr u" "mf_cache_policy m = ''observe'' \<or> mf_cache_policy m = ''verified''"
  shows "\<exists>c e. mf_cache m = Some c \<and> mf_execution m = Some e \<and> ex_trusted e \<and> ex_artifact_mode e = ''capture'' \<and>
    mf_inputs m \<noteq> [] \<and> mf_outputs m \<noteq> [] \<and> ca_contract_revision c \<noteq> 0 \<and> pure_assumptions (ca_assumptions c) \<and>
    ca_key_checks c \<noteq> [] \<and> (mf_cache_policy m = ''verified'' \<longrightarrow> ca_qualification_checks c \<noteq> []) \<and>
    (\<forall>k \<in> set (ca_key_checks c). \<exists>p \<in> set (ex_preflight e). pc_id p = k \<and> pc_kind p = ''executable'' \<and>
       pc_requirement p = ''required'' \<and> (\<forall>q \<in> set (ex_preflight e). pc_id q = k \<longrightarrow> q = p))"
proof -
  obtain c e where c: "mf_cache m = Some c" "mf_execution m = Some e" "ex_trusted e" "ex_artifact_mode e = ''capture''"
    "check_all (cache_guards (mf_cache_policy m) m e c) = Inr ()" "validate_execution e = Inr ()"
    by (rule validated_cache [OF assms])
  note g = cache_guard_facts [OF c(5)]
  have "distinct (map pc_id (ex_preflight e))"
    using c(6) preflight_unique unfolding validate_execution_def by auto
  then have k: "\<exists>p \<in> set (ex_preflight e). pc_id p = k \<and> pc_kind p = ''executable'' \<and>
       pc_requirement p = ''required'' \<and> (\<forall>q \<in> set (ex_preflight e). pc_id q = k \<longrightarrow> q = p)"
    if "k \<in> set (ca_key_checks c)" for k
    using key_check_unique that g(9) unfolding list_all_iff by blast
  with c k g(1-3,6-8) show ?thesis by blast
qed

text \<open>The isolated root of a validated manifest lies strictly inside any workspace it is joined to,
  and every declared output is spelled below it.\<close>

theorem isolated_root_inside_workspace:
  assumes "validate_manifest m = Inr u" "mf_cache_policy m = ''observe'' \<or> mf_cache_policy m = ''verified''"
    "mf_cache m = Some c" "ca_restore_policy c = ''replace_isolated_root''" "is_abs ws"
  shows "path_within ws (path_join ws (ca_isolated_root c)) \<and>
    length (clean_comps ws) < length (clean_comps (path_join ws (ca_isolated_root c))) \<and>
    (\<forall>x \<in> set (mf_outputs m). has_prefix x (trim_suffix (ca_isolated_root c) ''/'' @ ''/''))"
proof -
  obtain c' e where c: "mf_cache m = Some c'" "check_all (cache_guards (mf_cache_policy m) m e c') = Inr ()"
    by (rule validated_cache [OF assms(1,2)])
  note g = cache_guard_facts [OF c(2)]
  have r: "\<not> isolated_root_bad (ca_isolated_root c)" "outputs_below (ca_isolated_root c) (mf_outputs m)"
    using g(4,5) assms(3,4) c(1) by simp_all
  from isolated_root_plain [OF r(1)] join_within [OF assms(5)] r(2) show ?thesis
    by (simp add: outputs_below_def Let_def list_all_iff)
qed

definition demo_manifest :: "string \<Rightarrow> manifest" where
  "demo_manifest out = \<lparr>mf_id = ''build'', mf_revision = 1, mf_summary = ''s'', mf_use_when = [], mf_tags = [], mf_aliases = [],
     mf_execution = Some \<lparr>ex_kind = ''cli'', ex_executable = ''cc'', ex_cwd = ''.'', ex_argv = [], ex_trusted = True,
       ex_timeout_sec = 60, ex_artifact_mode = ''capture'',
       ex_preflight = [\<lparr>pc_id = ''cc'', pc_kind = ''executable'', pc_ref = ''cc'', pc_requirement = ''required'', pc_argv = []\<rparr>]\<rparr>,
     mf_arguments = [], mf_inputs = [''src/*.c''], mf_outputs = [out], mf_checks = [], mf_docs = [], mf_cache_policy = ''observe'',
     mf_cache = Some \<lparr>ca_contract_revision = 1, ca_output_contract = ''obj'', ca_key_checks = [''cc''], ca_qualification_checks = [],
       ca_restore_policy = ''replace_isolated_root'', ca_isolated_root = ''build'',
       ca_assumptions = \<lparr>as_inputs_complete = True, as_outputs_complete = True, as_external_state = ''none'',
         as_nondeterminism = ''none'', as_side_effects = ''declared_outputs_only''\<rparr>\<rparr>\<rparr>"

text \<open>The test that all outputs lie below the isolated root compares spellings only: a manifest whose
  output climbs out of the root with \<open>..\<close> passes validation.\<close>

theorem output_may_climb_out:
  "is_ok (validate_manifest (demo_manifest ''build/../src/main.o'')) \<and>
   \<not> path_within (path_join ''/ws'' ''build'') (path_join ''/ws'' ''build/../src/main.o'')"
proof
  show "is_ok (validate_manifest (demo_manifest ''build/../src/main.o''))" by code_simp
  show "\<not> path_within (path_join ''/ws'' ''build'') (path_join ''/ws'' ''build/../src/main.o'')" by code_simp
qed

section \<open>YAML and front matter\<close>

text \<open>All nodes of a document, each with its depth.\<close>

fun yaml_nodes :: "yaml_node \<Rightarrow> nat \<Rightarrow> (yaml_node \<times> nat) list"
  and yaml_children :: "yaml_node list \<Rightarrow> nat \<Rightarrow> (yaml_node \<times> nat) list" where
  "yaml_nodes (YamlNode kind flow tag val has_alias content) d =
     (YamlNode kind flow tag val has_alias content, d) # yaml_children content (Suc d)"
| "yaml_children [] d = []"
| "yaml_children (n # ns) d = yaml_nodes n d @ yaml_children ns d"

definition plain_node :: "yaml_node \<times> nat \<Rightarrow> bool" where
  "plain_node p \<longleftrightarrow> snd p \<le> 64 \<and> yn_kind (fst p) \<noteq> AliasNode \<and> \<not> yn_has_alias (fst p) \<and> yn_tag (fst p) \<in> set allowed_tags"

lemma yaml_guard_nodes:
  "validate_yaml_node n d = Inr () \<longleftrightarrow> list_all plain_node (yaml_nodes n d)"
  "validate_yaml_nodes ns d = Inr () \<longleftrightarrow> list_all plain_node (yaml_children ns d)"
proof (induction n d and ns d rule: validate_yaml_node_validate_yaml_nodes.induct)
  case (1 kind flow tag val has_alias content depth)
  then show ?case by (auto simp: plain_node_def not_less)
qed auto

text \<open>A YAML document passes exactly when every node of it lies at most 64 levels deep, is no alias and
  carries one of the allowed tags.\<close>

theorem yaml_guard_exact:
  "validate_yaml_node document 0 = Inr () \<longleftrightarrow> list_all plain_node (yaml_nodes document 0)"
  by (rule yaml_guard_nodes)

lemma take_line:
  assumes "CHR 0x0A \<notin> set line"
  shows "takeWhile (\<lambda>c. c \<noteq> CHR 0x0A) (line @ CHR 0x0A # r) = line" "dropWhile (\<lambda>c. c \<noteq> CHR 0x0A) (line @ CHR 0x0A # r) = CHR 0x0A # r"
  using assms by (induction line) auto

lemma front_matter_body:
  assumes "\<forall>l \<in> set ls. CHR 0x0A \<notin> set l \<and> trim_suffix l [CHR 0x0D] \<noteq> ''---''"
  shows "front_matter_lines taken (concat (map (\<lambda>l. l @ [CHR 0x0A]) ls) @ ''---'' @ CHR 0x0A # r) =
    Some (taken @ concat (map (\<lambda>l. l @ [CHR 0x0A]) ls))"
  using assms
proof (induction ls arbitrary: taken)
  case Nil
  have "takeWhile (\<lambda>c. c \<noteq> CHR 0x0A) (''---'' @ CHR 0x0A # r) = ''---''" by simp
  then show ?case by (subst front_matter_lines.simps) (simp add: Let_def trim_suffix_def has_suffix_def has_prefix_def)
next
  case (Cons l ls)
  then show ?case by (subst front_matter_lines.simps) (simp add: Let_def take_line)
qed

text \<open>The front matter of a Markdown source is exactly the lines between the opening and the first
  closing marker, with or without a byte order mark and carriage returns.\<close>

theorem front_matter_exact:
  assumes "\<forall>l \<in> set ls. CHR 0x0A \<notin> set l \<and> trim_suffix l [CHR 0x0D] \<noteq> ''---''"
    "bom = [] \<or> bom = [CHR 0xEF, CHR 0xBB, CHR 0xBF]" "cr = [] \<or> cr = [CHR 0x0D]"
  shows "markdown_front_matter (bom @ ''---'' @ cr @ CHR 0x0A # concat (map (\<lambda>l. l @ [CHR 0x0A]) ls) @ ''---'' @ CHR 0x0A # r) =
    Inr (concat (map (\<lambda>l. l @ [CHR 0x0A]) ls))"
proof -
  let ?body = "concat (map (\<lambda>l. l @ [CHR 0x0A]) ls) @ ''---'' @ CHR 0x0A # r"
  let ?data = "''---'' @ cr @ CHR 0x0A # ?body"
  have t: "trim_prefix (bom @ ?data) [CHR 0xEF, CHR 0xBB, CHR 0xBF] = ?data"
    using assms(2) by (auto simp: trim_prefix_def has_prefix_def)
  have h: "has_prefix ?data (''---'' @ [CHR 0x0A]) \<or> has_prefix ?data (''---'' @ [CHR 0x0D, CHR 0x0A])"
    using assms(3) by (auto simp: has_prefix_def)
  have d: "tl (dropWhile (\<lambda>c. c \<noteq> CHR 0x0A) ?data) = ?body" using assms(3) by auto
  show ?thesis
    unfolding markdown_front_matter_def t Let_def d using h front_matter_body [OF assms(1), of "[]" r] by simp
qed

section \<open>Witnesses\<close>

lemma demo_manifest_ok: "validate_manifest (demo_manifest ''build/a.o'') = Inr ()"
  by code_simp

theorem cached_manifests_are_checked_witness:
  "\<exists>e. mf_execution (demo_manifest ''build/a.o'') = Some e \<and> ex_artifact_mode e = ''capture''"
proof -
  have "mf_cache_policy (demo_manifest ''build/a.o'') = ''observe''" by (simp add: demo_manifest_def)
  with cached_manifests_are_checked [OF demo_manifest_ok] show ?thesis by blast
qed

theorem isolated_root_inside_workspace_witness: "path_within ''/ws'' (path_join ''/ws'' ''build'')"
proof -
  have d: "mf_cache_policy (demo_manifest ''build/a.o'') = ''observe''"
    "\<exists>c. mf_cache (demo_manifest ''build/a.o'') = Some c \<and> ca_restore_policy c = ''replace_isolated_root'' \<and> ca_isolated_root c = ''build''"
    by (simp_all add: demo_manifest_def)
  then obtain c where c: "mf_cache (demo_manifest ''build/a.o'') = Some c" "ca_restore_policy c = ''replace_isolated_root''"
    "ca_isolated_root c = ''build''" by blast
  have "is_abs ''/ws''" by code_simp
  with isolated_root_inside_workspace [OF demo_manifest_ok _ c(1,2)] c(3) d(1) show ?thesis by simp
qed

theorem front_matter_exact_witness:
  "markdown_front_matter (''---'' @ CHR 0x0A # (''id: a'' @ [CHR 0x0A]) @ ''---'' @ CHR 0x0A # ''text'') = Inr (''id: a'' @ [CHR 0x0A])"
  using front_matter_exact [of "[''id: a'']" "[]" "[]" "''text''"] by (simp add: trim_suffix_def has_suffix_def has_prefix_def)

end
