(* ===== verification/RecordImport.thy ===== *)
theory RecordImport
  imports RecordService Workspace Manifest
begin

text \<open>
  \<open>ImportReport\<close> of \<open>internal/records/service.go\<close>: check reports, verification checklists, the outcome
  of a report under a checklist, and the verification record that is stored. The decoders of reports
  and checklists, the file system, Git and SHA-256 are parameters.
\<close>

section \<open>Check reports\<close>

record check_report =
  kr_schema :: string
  kr_operation :: string
  kr_status :: string
  kr_started_at :: time
  kr_finished_at :: time
  kr_commit :: string
  kr_dirty :: "bool option"
  kr_checks :: "(string \<times> string) list"
  kr_counts :: "(string, int) gomap"
  kr_truncated :: bool

definition counted :: "check_report \<Rightarrow> string \<Rightarrow> int" where
  "counted r status = (case map_of (kr_counts r) status of None \<Rightarrow> 0 | Some n \<Rightarrow> n)"

definition actual_count :: "check_report \<Rightarrow> string \<Rightarrow> int" where
  "actual_count r status = int (length (filter (\<lambda>c. snd c = status) (kr_checks r)))"

definition check_statuses :: "string list" where "check_statuses = [''passed'', ''failed'', ''unknown'']"

definition report_invalid :: go_error where "report_invalid = Sentinel RecordsReportInvalid"

definition report_faults :: "check_report \<Rightarrow> bool list" where
  "report_faults r =
     [kr_schema r \<noteq> ''check-report.v1'' \<or> 256 < int (length (kr_checks r)) \<or>
        \<not> List.member [''passed'', ''failed'', ''partial''] (kr_status r),
      \<not> List.member [''verify'', ''preflight'', ''public-release-check''] (kr_operation r),
      is_zero_time (kr_started_at r) \<or> is_zero_time (kr_finished_at r) \<or> kr_finished_at r < kr_started_at r,
      kr_commit r \<noteq> [] \<and> \<not> git_commit_pattern (kr_commit r),
      list_ex (\<lambda>(i, status). i = [] \<or> 256 < int (length i) \<or> \<not> List.member check_statuses status) (kr_checks r),
      length (kr_counts r) \<noteq> 3,
      list_ex (\<lambda>s. counted r s \<noteq> actual_count r s \<or> counted r s < 0) check_statuses,
      kr_status r = ''passed'' \<and> (kr_checks r = [] \<or> actual_count r ''failed'' \<noteq> 0 \<or> actual_count r ''unknown'' \<noteq> 0 \<or> kr_truncated r),
      kr_status r = ''failed'' \<and> actual_count r ''failed'' = 0,
      kr_status r = ''partial'' \<and> actual_count r ''unknown'' = 0 \<and> \<not> kr_truncated r]"

definition parse_report :: "(string \<Rightarrow> check_report option) \<Rightarrow> string \<Rightarrow> go_error + check_report" where
  "parse_report decode data =
     (case decode data of
        None \<Rightarrow> Inl (Wrap ''malformed JSON'' report_invalid)
      | Some r \<Rightarrow> if list_ex (\<lambda>b. b) (report_faults r) then Inl report_invalid else Inr r)"

section \<open>Verification checklists\<close>

record checklist =
  kl_schema :: string
  kl_id :: string
  kl_revision :: nat
  kl_paths :: "string list"
  kl_required :: bool
  kl_capability :: string
  kl_configurations :: "string list"
  kl_report_required :: bool
  kl_minimum :: nat

text \<open>\<open>ie_json\<close> and \<open>ie_yaml\<close> decode the first document with unknown fields refused, \<open>ie_rest\<close> is what the second
  \<open>Decode\<close> of that decoder finds; \<open>ie_sha\<close> is the hexadecimal SHA-256 sum.\<close>

record import_env =
  ie_os :: os_env
  ie_root :: root
  ie_report :: "string \<Rightarrow> check_report option"
  ie_json :: "string \<Rightarrow> checklist option"
  ie_yaml :: "string \<Rightarrow> checklist option"
  ie_json_rest :: "string \<Rightarrow> second_document"
  ie_yaml_rest :: "string \<Rightarrow> second_document"
  ie_sha :: "string \<Rightarrow> string"

definition git_tracked :: "(string list \<Rightarrow> git_exit \<times> string) \<Rightarrow> string \<Rightarrow> string \<Rightarrow> bool \<times> bool" where
  "git_tracked git r relative =
     (if fst (git [''-C'', r, ''rev-parse'', ''--is-inside-work-tree'']) \<noteq> GitOK then (False, False)
      else (fst (git [''-C'', r, ''ls-files'', ''--error-unmatch'', ''--'', relative]) = GitOK, True))"

definition one_checklist :: "checklist option \<Rightarrow> second_document \<Rightarrow> checklist option" where
  "one_checklist c rest = (if rest = AtEOF then c else None)"

definition checklist_fields :: "checklist \<Rightarrow> bool" where
  "checklist_fields c \<longleftrightarrow> kl_schema c = ''verification-check.v1'' \<and> checklist_id_pattern (kl_id c) \<and> kl_revision c \<noteq> 0 \<and>
     kl_capability c \<noteq> [] \<and> kl_paths c \<noteq> [] \<and> kl_configurations c \<noteq> [] \<and> kl_minimum c \<noteq> 0"

definition checklist_limit :: "string \<Rightarrow> nat \<Rightarrow> nat \<Rightarrow> string \<Rightarrow> bool \<times> go_error" where
  "checklist_limit name observed maximum unit =
     (maximum < observed,
      record_limit_error name (''has '' @ itoa observed @ '' '' @ unit @ ''; maximum is '' @ itoa maximum @ '' '' @ unit))"

definition checklist_checks :: "checklist \<Rightarrow> string \<Rightarrow> bool \<times> bool \<Rightarrow> (bool \<times> go_error) list" where
  "checklist_checks c configuration tracked =
     [(\<not> checklist_fields c, Text ''invalid verification checklist''),
      checklist_limit ''checklist.id'' (length (kl_id c)) 128 ''UTF-8 bytes'',
      checklist_limit ''checklist.capability'' (length (kl_capability c)) 128 ''UTF-8 bytes'',
      checklist_limit ''checklist.applies_to.paths'' (length (kl_paths c)) 128 ''entries'',
      checklist_limit ''checklist.configurations'' (length (kl_configurations c)) 64 ''entries'',
      (list_ex (\<lambda>v. v = [] \<or> 1024 < int (length v)) (kl_paths c @ kl_configurations c),
       Text ''invalid verification checklist value''),
      (\<not> List.member (kl_configurations c) configuration, Text ''configuration is not declared by checklist''),
      (snd tracked \<and> \<not> fst tracked, Text ''verification checklist must be tracked'')]"

definition read_checklist :: "records_env \<Rightarrow> import_env \<Rightarrow> string \<Rightarrow> string \<Rightarrow> go_error + (checklist \<times> string)" where
  "read_checklist env ie relative configuration =
     try_then (resolve_primary_existing (ie_os ie) (ie_root ie) relative) (\<lambda>path.
     try_then (env_read (ie_os ie) path) (\<lambda>content.
       let data = take (64 * 1024 + 1) content; format = xe_lower env (path_ext path)
       in if 64 * 1024 < int (length data)
          then Inl (record_limit_error ''checklist'' (''is at least '' @ itoa (length data) @ '' bytes; maximum is 65536 bytes''))
          else if \<not> List.member [''.json'', ''.yaml'', ''.yml''] format then Inl (Text ''unsupported checklist format'')
          else case (if format = ''.json'' then one_checklist (ie_json ie data) (ie_json_rest ie data)
                     else one_checklist (ie_yaml ie data) (ie_yaml_rest ie data)) of
              None \<Rightarrow> Inl (Text ''invalid verification checklist'')
            | Some c \<Rightarrow>
                try_then (check_all (checklist_checks c configuration (git_tracked (xe_git env) (xe_root env) relative)))
                  (\<lambda>_. Inr (c, ''sha256:'' @ ie_sha ie data))))"

section \<open>Outcome and validity\<close>

definition verification_outcome :: "check_report \<Rightarrow> checklist \<Rightarrow> string" where
  "verification_outcome r c =
     (let executed = counted r ''passed'' + counted r ''failed''
      in if kr_truncated r \<or> 0 < counted r ''unknown'' then ''unknown''
         else if 0 < counted r ''failed'' \<or> kr_status r = ''failed'' then ''failed''
         else if executed < int (kl_minimum c) \<or> (kl_report_required c \<and> kr_checks r = []) then ''not_run''
         else if kr_status r = ''passed'' then ''passed'' else ''unknown'')"

definition import_validity :: "check_report \<Rightarrow> subject_observation \<Rightarrow> string" where
  "import_validity r current =
     (case kr_dirty r of
        None \<Rightarrow> ''unknown''
      | Some dirty \<Rightarrow>
          if \<not> ob_observed current \<or> kr_commit r = [] then ''unknown''
          else if ob_commit current = kr_commit r \<and> \<not> ob_dirty current \<and> \<not> dirty
          then (if kr_truncated r then ''unknown'' else ''current'')
          else if ob_commit current \<noteq> kr_commit r \<or> (\<not> dirty \<and> ob_dirty current) then ''stale''
          else ''unknown'')"

section \<open>Importing\<close>

definition int_text :: "int \<Rightarrow> string" where
  "int_text n = (if n < 0 then ''-'' @ itoa (nat (- n)) else itoa (nat n))"

record import_request =
  iq_path :: string
  iq_checklist :: string
  iq_configuration :: string
  iq_byte_limit :: u64
  iq_time_limit_ms :: u64
  iq_view :: string

definition verification_payload :: "check_report \<Rightarrow> checklist \<Rightarrow> string \<Rightarrow> string \<Rightarrow> import_request \<Rightarrow> (string, json) gomap" where
  "verification_payload r c report_hash checklist_hash q =
     [(''operation'', JString (kr_operation r)), (''status'', JString (kr_status r)),
      (''subject'', JObject [(''git_commit'', JString (kr_commit r)),
        (''dirty'', (case kr_dirty r of None \<Rightarrow> JNull | Some b \<Rightarrow> JBool b))]),
      (''counts'', JObject (map (\<lambda>(k, n). (k, JNumber (int_text n))) (kr_counts r))),
      (''checks'', JArray (map (\<lambda>(i, s). JObject [(''id'', JString i), (''status'', JString s)]) (kr_checks r))),
      (''truncated'', JBool (kr_truncated r)), (''report_hash'', JString report_hash),
      (''parser_revision'', JString ''check-report.v1-parser.1''), (''raw_storage'', JString ''hash_only''),
      (''source_path'', JString (iq_path q)), (''check_id'', JString (kl_id c)),
      (''checklist_revision'', JNumber (itoa (kl_revision c))), (''checklist_hash'', JString checklist_hash),
      (''configuration'', JString (iq_configuration q)), (''applies_to'', json_strings (kl_paths c)),
      (''required'', JBool (kl_required c)), (''capability'', JString (kl_capability c)),
      (''outcome'', JString (verification_outcome r c))]"

definition byte_limit_check :: "string \<Rightarrow> string \<Rightarrow> nat \<Rightarrow> bool \<times> go_error" where
  "byte_limit_check name value maximum =
     (maximum < length value,
      record_limit_error name (''is '' @ itoa (length value) @ '' UTF-8 bytes; maximum is '' @ itoa maximum @ '' bytes''))"

definition maximumReportBytes :: u64 where "maximumReportBytes = 1024 * 1024"

definition import_limits :: "import_request \<Rightarrow> go_error + limits" where
  "import_limits q =
     try_then (normalize_limits \<lparr>lr_item_limit = 0,
       lr_byte_limit = (if iq_byte_limit q = 0 then maximumReportBytes else iq_byte_limit q),
       lr_time_limit_ms = iq_time_limit_ms q\<rparr>) (\<lambda>l.
     if iq_path q = [] \<or> iq_checklist q = [] \<or> iq_configuration q = []
     then Inl (Text ''path, checklist_path, and configuration are required'')
     else try_then (validate_response_view (iq_view q)) (\<lambda>_.
          try_then (check_all [byte_limit_check ''path'' (iq_path q) 4096, byte_limit_check ''checklist_path'' (iq_checklist q) 4096,
            byte_limit_check ''configuration'' (iq_configuration q) 128,
            (maximumReportBytes < lm_byte_limit l, record_limit_error ''byte_limit''
              (''is '' @ itoa (unat (lm_byte_limit l)) @ '' bytes; maximum is 1048576 bytes for a report''))]) (\<lambda>_. Inr l)))"

definition read_report :: "import_env \<Rightarrow> import_request \<Rightarrow> limits \<Rightarrow> go_error + (string \<times> check_report)" where
  "read_report ie q l =
     try_then (resolve_primary_existing (ie_os ie) (ie_root ie) (iq_path q)) (\<lambda>path.
     try_then (env_read (ie_os ie) path) (\<lambda>content.
       let limit = unat (lm_byte_limit l); data = take (Suc limit) content
       in if limit < length data
          then Inl (record_limit_error ''report''
            (''is at least '' @ itoa (length data) @ '' bytes; byte_limit is '' @ itoa limit @ '' bytes''))
          else try_then (parse_report (ie_report ie) data) (\<lambda>r. Inr (data, r))))"

text \<open>The record to store and the identity of the import.\<close>

definition prepared_import ::
    "records_env \<Rightarrow> import_env \<Rightarrow> time \<Rightarrow> string \<Rightarrow> import_request \<Rightarrow> go_error + (durable \<times> string)" where
  "prepared_import env ie now k q =
     try_then (import_limits q) (\<lambda>l.
     try_then (read_report ie q l) (\<lambda>(data, r).
     try_then (read_checklist env ie (iq_checklist q) (iq_configuration q)) (\<lambda>(c, checklist_hash).
       let report_hash = ''sha256:'' @ ie_sha ie data;
           payload = xe_marshal env (verification_payload r c report_hash checklist_hash q);
           identity = ''sha256:'' @ ie_sha ie (report_hash @ [CHR 0x00] @ checklist_hash @ [CHR 0x00] @ iq_configuration q)
       in try_then (payload_limit ''verification'' payload) (\<lambda>_.
            Inr (\<lparr>du_id = k, du_kind = ''verification'', du_schema_version = ''verification-result.v1'', du_project = xe_id env,
                  du_workspace = xe_id env, du_revision = 1, du_source = ''imported'', du_writer_class = ''importer'',
                  du_validity = import_validity r (observe_subject env), du_created_at = now, du_updated_at = now,
                  du_payload = payload, du_evidence = [''report:'' @ report_hash], du_supersedes = []\<rparr>, identity)))))"

definition import_report ::
    "records_env \<Rightarrow> import_env \<Rightarrow> time \<Rightarrow> time \<Rightarrow> string \<Rightarrow> import_request \<Rightarrow> record_db \<Rightarrow>
     record_db \<times> (go_error + mutation_response)" where
  "import_report env ie now later k q db =
     (case prepared_import env ie now k q of
        Inl e \<Rightarrow> (db, Inl e)
      | Inr (r, identity) \<Rightarrow>
          (case stored (import_verification (xe_json env) later r identity ''check-report.v1-parser.1'' db) of
             (db', Inl e) \<Rightarrow> (db', Inl e)
           | (db', Inr (x, duplicate)) \<Rightarrow> (db', mutation_answer env x duplicate (iq_view q))))"

end
