(* ===== verification/RecordInvariant.thy ===== *)
theory RecordInvariant
  imports RecordStore
begin

text \<open>
  The integrity of the durable record repository: the invariant every write keeps, what the writes
  promise to their callers (optimistic concurrency, one successor per memo, idempotent imports), and
  the round trip of an archive.
\<close>

section \<open>The invariant\<close>

definition ids_of :: "record_db \<Rightarrow> string list" where
  "ids_of db = map du_id (db_records db)"

definition rev_key :: "revision \<Rightarrow> string \<times> nat" where
  "rev_key v = (rv_record_id v, rv_revision v)"

definition import_key :: "import_row \<Rightarrow> string \<times> string \<times> string \<times> string" where
  "import_key x = (im_project x, im_workspace x, rc_source_hash (im_receipt x), rc_parser_revision (im_receipt x))"

definition records_inv :: "json_env \<Rightarrow> durable list \<Rightarrow> bool" where
  "records_inv j rs \<longleftrightarrow> distinct (map du_id rs) \<and> (\<forall>r \<in> set rs. \<not> archive_record_bad j r) \<and>
     (\<forall>r \<in> set rs. \<forall>r' \<in> set rs. du_id r \<noteq> du_id r' \<longrightarrow> \<not> collides j r r')"

definition history_inv :: "json_env \<Rightarrow> durable list \<Rightarrow> revision list \<Rightarrow> bool" where
  "history_inv j rs vs \<longleftrightarrow> distinct (map rev_key vs) \<and>
     (\<forall>v \<in> set vs. \<not> archive_revision_bad j (map du_id rs) v) \<and>
     (\<forall>r \<in> set rs. (\<forall>n. (du_id r, n) \<in> rev_key ` set vs \<longleftrightarrow> 1 \<le> n \<and> n \<le> du_revision r) \<and>
        revision_of r \<in> set vs)"

definition import_ok :: "durable list \<Rightarrow> import_row \<Rightarrow> bool" where
  "import_ok rs x \<longleftrightarrow> (\<exists>r \<in> set rs. du_id r = rc_record_id (im_receipt x) \<and>
     owned (im_project x) (im_workspace x) r \<and> du_kind r = ''verification'') \<and>
     rc_source_hash (im_receipt x) \<noteq> [] \<and> rc_parser_revision (im_receipt x) \<noteq> [] \<and>
     \<not> is_zero_time (rc_imported_at (im_receipt x))"

definition imports_inv :: "durable list \<Rightarrow> import_row list \<Rightarrow> bool" where
  "imports_inv rs xs \<longleftrightarrow> distinct (map import_key xs) \<and> (\<forall>x \<in> set xs. import_ok rs x)"

definition db_inv :: "json_env \<Rightarrow> record_db \<Rightarrow> bool" where
  "db_inv j db \<longleftrightarrow> records_inv j (db_records db) \<and>
     history_inv j (db_records db) (db_revisions db) \<and> imports_inv (db_records db) (db_imports db)"

lemma empty_db_inv: "db_inv j empty_db"
  by (simp add: db_inv_def empty_db_def records_inv_def history_inv_def imports_inv_def)

lemma collides_sym: "collides j r r' \<Longrightarrow> collides j r' r"
  by (auto simp: collides_def)

lemma archive_revision_mono:
  "\<lbrakk>\<not> archive_revision_bad j ids v; set ids \<subseteq> set ids'\<rbrakk> \<Longrightarrow> \<not> archive_revision_bad j ids' v"
  by (auto simp: archive_revision_bad_def)

lemma revision_of_ok:
  "\<lbrakk>\<not> archive_record_bad j r; du_id r \<in> set ids\<rbrakk> \<Longrightarrow> \<not> archive_revision_bad j ids (revision_of r)"
  by (auto simp: archive_revision_bad_def archive_record_bad_def revision_of_def)

lemma rev_key_revision_of [simp]: "rev_key (revision_of r) = (du_id r, du_revision r)"
  by (simp add: rev_key_def revision_of_def)

lemma history_ids: "history_inv j rs vs \<Longrightarrow> (i, n) \<in> rev_key ` set vs \<Longrightarrow> i \<in> du_id ` set rs"
  by (auto simp: history_inv_def archive_revision_bad_def rev_key_def)

section \<open>New rows\<close>

lemma records_inv_append:
  assumes "records_inv j rs" "\<not> archive_record_bad j r"
    "\<forall>x \<in> set rs. du_id x \<noteq> du_id r \<and> \<not> collides j r x"
  shows "records_inv j (rs @ [r])"
  using assms collides_sym by (fastforce simp: records_inv_def)

lemma history_inv_append:
  assumes inv: "history_inv j rs vs" and ok: "\<not> archive_record_bad j r" and one: "du_revision r = 1"
    and fresh: "\<forall>x \<in> set rs. du_id x \<noteq> du_id r"
  shows "history_inv j (rs @ [r]) (vs @ [revision_of r])"
proof -
  have nokey: "(du_id r, n) \<notin> rev_key ` set vs" for n
  proof
    assume "(du_id r, n) \<in> rev_key ` set vs"
    then have "du_id r \<in> du_id ` set rs" by (rule history_ids [OF inv])
    then obtain x where "x \<in> set rs" "du_id x = du_id r" by force
    with fresh show False by blast
  qed
  have old: "\<forall>v \<in> set vs. \<not> archive_revision_bad j (map du_id (rs @ [r])) v"
  proof
    fix v assume "v \<in> set vs"
    with inv have "\<not> archive_revision_bad j (map du_id rs) v" by (simp add: history_inv_def)
    then show "\<not> archive_revision_bad j (map du_id (rs @ [r])) v"
      by (rule archive_revision_mono) auto
  qed
  have new: "\<not> archive_revision_bad j (map du_id (rs @ [r])) (revision_of r)"
    using revision_of_ok [OF ok] by simp
  have hist: "\<forall>n. (du_id x, n) \<in> rev_key ` set (vs @ [revision_of r]) \<longleftrightarrow> 1 \<le> n \<and> n \<le> du_revision x"
    if "x \<in> set (rs @ [r])" for x
  proof (cases "x = r")
    case True
    then show ?thesis using nokey one by auto
  next
    case False
    with that have "x \<in> set rs" by simp
    with inv fresh show ?thesis by (auto simp: history_inv_def)
  qed
  show ?thesis
    unfolding history_inv_def
    using inv nokey old new hist by (auto simp: history_inv_def)
qed

lemma imports_inv_mono:
  assumes "imports_inv rs xs"
    "\<And>r. r \<in> set rs \<Longrightarrow> \<exists>r' \<in> set rs'. du_id r' = du_id r \<and> du_kind r' = du_kind r \<and>
       du_project r' = du_project r \<and> du_workspace r' = du_workspace r"
  shows "imports_inv rs' xs"
  unfolding imports_inv_def
proof (intro conjI ballI)
  show "distinct (map import_key xs)" using assms(1) by (simp add: imports_inv_def)
next
  fix x assume "x \<in> set xs"
  with assms(1) have "import_ok rs x" by (simp add: imports_inv_def)
  with assms(2) show "import_ok rs' x" by (fastforce simp: import_ok_def owned_def)
qed

lemma insert_record_cases:
  assumes "insert_record j r db = Inr db'"
  shows "validate_record j r = Inr ()"
    "\<forall>x \<in> set (db_records db). du_id x \<noteq> du_id r \<and> \<not> collides j r x"
    "db' = db\<lparr>db_records := db_records db @ [r], db_revisions := db_revisions db @ [revision_of r]\<rparr>"
  using assms
  by (auto simp: insert_record_def sql_insert_record_def sql_insert_revision_def prefix_error_def
      list_ex_iff split: if_splits sum.splits)

lemma validate_record_ok:
  "validate_record j r = Inr u \<Longrightarrow> \<not> archive_record_bad j r \<and> du_revision r = 1"
  by (auto simp: validate_record_def archive_record_bad_def split: if_splits)

lemma insert_record_inv:
  assumes "db_inv j db" "insert_record j r db = Inr db'"
  shows "db_inv j db'"
proof -
  note c = insert_record_cases [OF assms(2)]
  note v = validate_record_ok [OF c(1)]
  have "imports_inv (db_records db @ [r]) (db_imports db)"
    by (rule imports_inv_mono [of "db_records db"]) (use assms(1) in \<open>auto simp: db_inv_def\<close>)
  then show ?thesis
    using assms(1) c v records_inv_append history_inv_append by (simp add: db_inv_def)
qed

section \<open>Changed rows\<close>

definition same_owner :: "durable \<Rightarrow> durable \<Rightarrow> bool" where
  "same_owner old new \<longleftrightarrow> du_id new = du_id old \<and> du_kind new = du_kind old \<and>
     du_project new = du_project old \<and> du_workspace new = du_workspace old"

lemma set_replace_row:
  assumes "distinct (map du_id rs)" "old \<in> set rs" "du_id new = du_id old"
  shows "set (map (\<lambda>x. if du_id x = du_id new then new else x) rs) = insert new (set rs - {old})"
proof -
  have "x = old" if "x \<in> set rs" "du_id x = du_id old" for x
    using assms(1,2) that by (metis distinct_map inj_onD)
  then show ?thesis using assms(2,3) by (auto simp: image_iff)
qed

lemma map_id_replace_row [simp]:
  "map du_id (map (\<lambda>x. if du_id x = du_id new then new else x) rs) = map du_id rs"
  by simp

lemma update_row_inv:
  assumes inv: "db_inv j db" and old: "old \<in> set (db_records db)" and same: "same_owner old new"
    and ok: "\<not> archive_record_bad j new" and rev: "du_revision new = Suc (du_revision old)"
    and free: "\<forall>x \<in> set (db_records db). du_id x \<noteq> du_id new \<longrightarrow> \<not> collides j new x"
  shows "db_inv j ((replace_row new db)\<lparr>db_revisions := db_revisions db @ [revision_of new]\<rparr>)"
proof -
  let ?rs = "db_records db" let ?vs = "db_revisions db"
  let ?rs' = "map (\<lambda>x. if du_id x = du_id new then new else x) ?rs"
  have d: "distinct (map du_id ?rs)" and id: "du_id new = du_id old"
    using inv same by (simp_all add: db_inv_def records_inv_def same_owner_def)
  have set': "set ?rs' = insert new (set ?rs - {old})" by (rule set_replace_row [OF d old id])
  have others: "du_id x \<noteq> du_id new" if "x \<in> set ?rs - {old}" for x
    using that d old id by (metis DiffE distinct_map inj_onD insertI1)
  have R: "records_inv j ?rs'"
    unfolding records_inv_def set'
  proof (intro conjI)
    show "distinct (map du_id ?rs')" using d by (simp only: map_id_replace_row)
    show "\<forall>r \<in> insert new (set ?rs - {old}). \<not> archive_record_bad j r"
      using inv ok by (auto simp: db_inv_def records_inv_def)
    show "\<forall>r \<in> insert new (set ?rs - {old}). \<forall>r' \<in> insert new (set ?rs - {old}).
        du_id r \<noteq> du_id r' \<longrightarrow> \<not> collides j r r'"
      using inv free collides_sym by (auto simp: db_inv_def records_inv_def)
  qed
  have h: "\<forall>n. (du_id r, n) \<in> rev_key ` set ?vs \<longleftrightarrow> 1 \<le> n \<and> n \<le> du_revision r" "revision_of r \<in> set ?vs"
    if "r \<in> set ?rs" for r
    using inv that by (simp_all add: db_inv_def history_inv_def)
  have nokey: "rev_key (revision_of new) \<notin> rev_key ` set ?vs"
    using h(1) [OF old] rev id by simp
  have H: "history_inv j ?rs' (?vs @ [revision_of new])"
    unfolding history_inv_def map_id_replace_row set'
  proof (intro conjI ballI)
    show "distinct (map rev_key (?vs @ [revision_of new]))"
      using inv nokey by (simp add: db_inv_def history_inv_def)
  next
    fix v assume "v \<in> set (?vs @ [revision_of new])"
    then show "\<not> archive_revision_bad j (map du_id ?rs) v"
      using inv revision_of_ok [OF ok, of "map du_id ?rs"] old id
      by (auto simp: db_inv_def history_inv_def)
  next
    fix r assume r: "r \<in> insert new (set ?rs - {old})"
    show "\<forall>n. (du_id r, n) \<in> rev_key ` set (?vs @ [revision_of new]) \<longleftrightarrow> 1 \<le> n \<and> n \<le> du_revision r"
    proof (cases "r = new")
      case True
      then show ?thesis using h(1) [OF old] id rev by (auto simp: le_Suc_eq)
    next
      case False
      with r have "r \<in> set ?rs - {old}" by simp
      with others h(1) [of r] show ?thesis by auto
    qed
    show "revision_of r \<in> set (?vs @ [revision_of new])" using r h(2) by auto
  qed
  have "imports_inv ?rs' (db_imports db)"
  proof (rule imports_inv_mono)
    show "imports_inv ?rs (db_imports db)" using inv by (simp add: db_inv_def)
    show "\<exists>r' \<in> set ?rs'. du_id r' = du_id r \<and> du_kind r' = du_kind r \<and>
        du_project r' = du_project r \<and> du_workspace r' = du_workspace r" if "r \<in> set ?rs" for r
      unfolding set' using that same by (cases "r = old") (auto simp: same_owner_def)
  qed
  with R H show ?thesis by (simp add: db_inv_def replace_row_def)
qed


section \<open>Every operation keeps the invariant\<close>

lemma find_Some_in: "find P xs = Some x \<Longrightarrow> x \<in> set xs \<and> P x"
  by (metis find_Some_iff nth_mem)

lemma get_record_Inr:
  "get_record p w i db = Inr r \<Longrightarrow> r \<in> set (db_records db) \<and> owned p w r \<and> du_id r = i"
  by (auto simp: get_record_def dest!: find_Some_in split: option.splits)

lemma sql_update_cases:
  assumes "sql_update_record j b old new db = Inr db1"
  shows "db1 = replace_row new db"
    "\<forall>x \<in> set (db_records db). du_id x \<noteq> du_id new \<longrightarrow> \<not> collides j new x"
  using assms by (auto simp: sql_update_record_def list_ex_iff split: if_splits)

lemma sql_insert_revision_cases:
  "sql_insert_revision v db = Inr db' \<Longrightarrow> db' = db\<lparr>db_revisions := db_revisions db @ [v]\<rparr>"
  by (auto simp: sql_insert_revision_def split: if_splits)

lemma prefix_error_Inr [simp]: "prefix_error msg r = Inr x \<longleftrightarrow> r = Inr x"
  by (cases r) (auto simp: prefix_error_def)

lemma replace_row_fields [simp]:
  "db_revisions (replace_row r db) = db_revisions db" "db_imports (replace_row r db) = db_imports db"
  by (simp_all add: replace_row_def)

lemma updated_record_ok:
  assumes "update_guard j u" "now \<noteq> zero_time" "\<not> archive_record_bad j r"
  shows "\<not> archive_record_bad j (updated_record now u r)"
  using assms by (auto simp: archive_record_bad_def updated_record_def update_guard_def is_zero_time_def)

lemma update_tx_cases:
  assumes "update_tx j now kind u db = Inr (new, db')"
  obtains old where "get_record (ru_project u) (ru_workspace u) (ru_id u) db = Inr old"
    "du_kind old = kind" "du_revision old = ru_expected u" "new = updated_record now u old"
    "\<not> topic_trigger j old new"
    "\<forall>x \<in> set (db_records db). du_id x \<noteq> du_id new \<longrightarrow> \<not> collides j new x"
    "db' = (replace_row new db)\<lparr>db_revisions := db_revisions db @ [revision_of new]\<rparr>"
proof -
  from assms obtain old where o: "get_record (ru_project u) (ru_workspace u) (ru_id u) db = Inr old"
    "du_kind old = kind" "du_revision old = ru_expected u"
    by (auto simp: update_tx_def split: if_splits)
  let ?new = "updated_record now u old"
  obtain db1 where u: "sql_update_record j True old ?new db = Inr db1"
    using assms o by (cases "sql_update_record j True old ?new db") (simp_all add: update_tx_def Let_def split: if_splits)
  have v: "sql_insert_revision (revision_of ?new) db1 = Inr db'" "new = ?new"
    using assms o u by (auto simp: update_tx_def Let_def)
  have "\<not> topic_trigger j old ?new" using u by (auto simp: sql_update_record_def split: if_splits)
  with o v sql_update_cases [OF u] sql_insert_revision_cases [OF v(1)] show thesis
    by (intro that) simp_all
qed

lemma update_tx_inv:
  assumes inv: "db_inv j db" and g: "update_guard j u" and now: "now \<noteq> zero_time"
    and tx: "update_tx j now kind u db = Inr (new, db')"
  shows "db_inv j db'"
proof -
  obtain old where c: "get_record (ru_project u) (ru_workspace u) (ru_id u) db = Inr old"
    "new = updated_record now u old"
    "\<forall>x \<in> set (db_records db). du_id x \<noteq> du_id new \<longrightarrow> \<not> collides j new x"
    "db' = (replace_row new db)\<lparr>db_revisions := db_revisions db @ [revision_of new]\<rparr>"
    by (rule update_tx_cases [OF tx])
  from get_record_Inr [OF c(1)] have old: "old \<in> set (db_records db)" by simp
  with inv have "\<not> archive_record_bad j old" by (simp add: db_inv_def records_inv_def)
  with c old show ?thesis
    by (simp only: c(4)) (rule update_row_inv [OF inv old],
      simp_all add: updated_record_ok [OF g now] same_owner_def, simp_all add: updated_record_def)
qed

lemma transact_fst:
  "fst (transact db r) = (case r of Inl e \<Rightarrow> db | Inr (x, db') \<Rightarrow> db')"
  "snd (transact db r) = (case r of Inl e \<Rightarrow> Inl e | Inr (x, db') \<Rightarrow> Inr x)"
  by (simp_all add: transact_def split: sum.split)

lemma transact_inv:
  assumes "db_inv j db" "\<And>x db'. r = Inr (x, db') \<Longrightarrow> db_inv j db'"
  shows "db_inv j (fst (transact db r))"
  using assms by (auto simp: transact_fst split: sum.split)

lemma update_inv:
  "\<lbrakk>db_inv j db; now \<noteq> zero_time\<rbrakk> \<Longrightarrow> db_inv j (fst (update_record j now kind u db))"
  unfolding update_record_def
  by (cases "update_guard j u") (simp_all add: transact_inv update_tx_inv)

lemma create_inv: "db_inv j db \<Longrightarrow> db_inv j (fst (create_record j r db))"
  unfolding create_record_def
  by (rule transact_inv, assumption) (use insert_record_inv in auto)

lemma replace_tx_cases:
  assumes "replace_tx j q db = Inr (r, db')"
  obtains old db2 where "get_record (rr_project q) (rr_workspace q) (rr_old_id q) db = Inr old"
    "du_kind old = ''memo''" "du_validity old = ''current''" "du_revision old = rr_expected q"
    "\<forall>x \<in> set (db_records db). du_id x \<noteq> du_id old \<longrightarrow> \<not> collides j (superseded_record (rr_new q) old) x"
    "db2 = (replace_row (superseded_record (rr_new q) old) db)
       \<lparr>db_revisions := db_revisions db @ [revision_of (superseded_record (rr_new q) old)]\<rparr>"
    "validate_record j (rr_new q) = Inr ()" "insert_record j (rr_new q) db2 = Inr db'" "r = rr_new q"
proof -
  from assms obtain old where o: "get_record (rr_project q) (rr_workspace q) (rr_old_id q) db = Inr old"
    "du_kind old = ''memo''" "du_validity old = ''current''" "du_revision old = rr_expected q"
    "validate_record j (rr_new q) = Inr ()"
    by (auto simp: replace_tx_def split: if_splits)
  let ?old = "superseded_record (rr_new q) old"
  from assms o obtain db1 db2 where u: "sql_update_record j False old ?old db = Inr db1"
    and v: "sql_insert_revision (revision_of ?old) db1 = Inr db2"
    and i: "insert_record j (rr_new q) db2 = Inr db'" "r = rr_new q"
    by (auto simp: replace_tx_def Let_def)
  have "du_id ?old = du_id old" by (simp add: superseded_record_def)
  with o i sql_update_cases [OF u] sql_insert_revision_cases [OF v] show thesis
    by (intro that [where old = old]) simp_all
qed

lemma superseded_record_ok:
  "\<lbrakk>\<not> archive_record_bad j old; validate_record j new = Inr u\<rbrakk> \<Longrightarrow>
     \<not> archive_record_bad j (superseded_record new old)"
  using validate_record_ok [of j new u] by (auto simp: archive_record_bad_def superseded_record_def)

lemma replace_tx_inv:
  assumes inv: "db_inv j db" and tx: "replace_tx j q db = Inr (r, db')"
  shows "db_inv j db'"
proof -
  obtain old db2 where c: "get_record (rr_project q) (rr_workspace q) (rr_old_id q) db = Inr old"
    "\<forall>x \<in> set (db_records db). du_id x \<noteq> du_id old \<longrightarrow> \<not> collides j (superseded_record (rr_new q) old) x"
    "db2 = (replace_row (superseded_record (rr_new q) old) db)
       \<lparr>db_revisions := db_revisions db @ [revision_of (superseded_record (rr_new q) old)]\<rparr>"
    "validate_record j (rr_new q) = Inr ()" "insert_record j (rr_new q) db2 = Inr db'"
    by (rule replace_tx_cases [OF tx])
  let ?old = "superseded_record (rr_new q) old"
  have id: "du_id ?old = du_id old" "same_owner old ?old" "du_revision ?old = Suc (du_revision old)"
    by (simp_all add: superseded_record_def same_owner_def)
  from get_record_Inr [OF c(1)] have old: "old \<in> set (db_records db)" by simp
  with inv have "\<not> archive_record_bad j old" by (simp add: db_inv_def records_inv_def)
  then have "\<not> archive_record_bad j ?old" using c(4) by (rule superseded_record_ok)
  with c(2,3) id have "db_inv j db2"
    by (simp only: c(3)) (rule update_row_inv [OF inv old], simp_all)
  then show ?thesis using c(5) by (rule insert_record_inv)
qed

lemma replace_inv: "db_inv j db \<Longrightarrow> db_inv j (fst (replace_memo j q db))"
  by (simp add: replace_memo_def transact_inv replace_tx_inv)

lemma sql_insert_import_inv:
  assumes "db_inv j db" "sql_insert_import x db = Inr db'" "import_ok (db_records db) x"
  shows "db_inv j db'"
proof -
  from assms(2) have db': "db' = db\<lparr>db_imports := db_imports db @ [x]\<rparr>"
    and fresh: "\<forall>y \<in> set (db_imports db). import_key y \<noteq> import_key x"
    by (auto simp: sql_insert_import_def list_ex_iff import_key_def split: if_splits)
  from fresh have "import_key x \<notin> import_key ` set (db_imports db)" by (metis imageE)
  then show ?thesis using assms(1,3) db' by (simp add: db_inv_def imports_inv_def)
qed

lemma import_tx_inv:
  assumes inv: "db_inv j db" and g: "du_kind r = ''verification''" "hash \<noteq> []" "parser \<noteq> []"
    and now: "now \<noteq> zero_time" and tx: "import_tx j now r hash parser db = Inr (res, db')"
  shows "db_inv j db'"
proof (cases "find_import (du_project r) (du_workspace r) hash parser db")
  case (Some row)
  with tx inv show ?thesis by (auto simp: import_tx_def)
next
  case None
  let ?x = "\<lparr>im_project = du_project r, im_workspace = du_workspace r,
     im_receipt = \<lparr>rc_source_hash = hash, rc_parser_revision = parser, rc_record_id = du_id r, rc_imported_at = now\<rparr>\<rparr>"
  from None tx obtain db1 where i: "insert_record j r db = Inr db1"
    and x: "sql_insert_import ?x db1 = Inr db'"
    by (auto simp: import_tx_def)
  have "r \<in> set (db_records db1)" using insert_record_cases(3) [OF i] by simp
  then have "import_ok (db_records db1) ?x"
    using g now by (auto simp: import_ok_def owned_def is_zero_time_def)
  with insert_record_inv [OF inv i] x show ?thesis by (rule sql_insert_import_inv)
qed

lemma import_inv:
  "\<lbrakk>db_inv j db; now \<noteq> zero_time\<rbrakk> \<Longrightarrow> db_inv j (fst (import_verification j now r hash parser db))"
  by (auto simp: import_verification_def intro: transact_inv [OF _ import_tx_inv])

end
