(* ===== verification/RecordTransfer.thy ===== *)
theory RecordTransfer
  imports RecordInvariant
begin

text \<open>
  Export and restore of the durable records: a restored database satisfies the repository's
  invariant whatever archive was accepted, and an exported archive restores into an empty
  repository, under any new owner, to a database that exports the same archive.
\<close>

section \<open>What an accepted archive satisfies\<close>

lemma check_archive_records_iff:
  "check_archive_records j owner seen rs = Inr u \<longleftrightarrow>
     (\<forall>r \<in> set rs. \<not> archive_record_bad j r) \<and> distinct (map du_id rs) \<and> set (map du_id rs) \<inter> set seen = {} \<and>
     (\<forall>r \<in> set rs. (du_project r, du_workspace r) =
        (case owner of None \<Rightarrow> (du_project (hd rs), du_workspace (hd rs)) | Some x \<Rightarrow> x))"
  by (induction rs arbitrary: owner seen) (auto simp: Let_def split: option.splits)

lemma check_archive_revisions_iff:
  "check_archive_revisions j ids seen vs = Inr u \<longleftrightarrow>
     (\<forall>v \<in> set vs. \<not> archive_revision_bad j ids v) \<and> distinct (map rev_key vs) \<and>
     set (map rev_key vs) \<inter> set seen = {}"
  by (induction vs arbitrary: seen) (auto simp: rev_key_def)

lemma history_checks_ok:
  "check_all (history_checks a) = Inr u \<longleftrightarrow>
     (\<forall>r \<in> set (av_records a). \<not> history_bad (av_revisions a) r \<and> \<not> latest_differs (av_revisions a) r)"
  by (auto simp: check_all_ok history_checks_def)

lemma by_number_Some:
  "by_number vs i n = Some v \<Longrightarrow> v \<in> set vs \<and> rv_record_id v = i \<and> rv_revision v = n"
  unfolding by_number_def by (drule find_Some_in) simp

lemma by_number_None: "by_number vs i n = None \<longleftrightarrow> (i, n) \<notin> rev_key ` set vs"
  by (auto simp: by_number_def find_None_iff rev_key_def)

lemma numbers_of:
  "distinct (map rev_key vs) \<Longrightarrow>
     card {n. (i, n) \<in> rev_key ` set vs} = length (filter (\<lambda>v. rv_record_id v = i) vs)"
proof -
  assume d: "distinct (map rev_key vs)"
  let ?f = "filter (\<lambda>v. rv_record_id v = i) vs"
  have "{n. (i, n) \<in> rev_key ` set vs} = rv_revision ` set ?f"
    by (auto simp: rev_key_def image_iff)
  moreover have "inj_on rv_revision (set ?f)"
    using d by (auto simp: distinct_map inj_on_def rev_key_def)
  moreover have "distinct ?f" using d by (simp add: distinct_map)
  ultimately show ?thesis by (simp only: card_image distinct_card)
qed

lemma history_exact:
  assumes d: "distinct (map rev_key vs)" and h: "\<not> history_bad vs r"
  shows "(du_id r, n) \<in> rev_key ` set vs \<longleftrightarrow> 1 \<le> n \<and> n \<le> du_revision r"
proof -
  let ?S = "{n. (du_id r, n) \<in> rev_key ` set vs}"
  have sub: "{1..du_revision r} \<subseteq> ?S"
  proof
    fix n assume "n \<in> {1..du_revision r}"
    then have "n \<in> set [1..<Suc (du_revision r)]" by auto
    moreover from h have "\<forall>n \<in> set [1..<Suc (du_revision r)]. by_number vs (du_id r) n \<noteq> None"
      by (simp add: history_bad_def list_ex_iff del: upt_Suc set_upt)
    ultimately have "by_number vs (du_id r) n \<noteq> None" by blast
    then show "n \<in> ?S" by (simp add: by_number_None)
  qed
  have fin: "finite ?S" by (rule finite_subset [of _ "rv_revision ` set vs"]) (auto simp: rev_key_def)
  have "card ?S = card {1..du_revision r}"
    using h by (simp add: numbers_of [OF d] history_bad_def)
  with sub fin have "{1..du_revision r} = ?S" by (intro card_subset_eq) auto
  then show ?thesis by (auto simp: set_eq_iff)
qed

lemma latest_exact: "\<not> latest_differs vs r \<longleftrightarrow> (by_number vs (du_id r) (du_revision r) = Some (revision_of r))"
proof (cases "by_number vs (du_id r) (du_revision r)")
  case None
  then show ?thesis by (simp add: latest_differs_def)
next
  case (Some v)
  with by_number_Some [OF Some] show ?thesis
    by (cases v) (auto simp: latest_differs_def revision_of_def)
qed

lemma validate_archive_ok:
  assumes "validate_archive j a = Inr u"
  shows "distinct (map du_id (av_records a))" "\<forall>r \<in> set (av_records a). \<not> archive_record_bad j r"
    "history_inv j (av_records a) (av_revisions a)"
    "\<forall>c \<in> set (av_imports a). \<not> receipt_bad (av_records a) c"
proof -
  from assms have r: "check_archive_records j None [] (av_records a) = Inr ()"
    and v: "check_archive_revisions j (map du_id (av_records a)) [] (av_revisions a) = Inr ()"
    and h: "check_all (history_checks a) = Inr ()"
    and c: "check_all (map (\<lambda>c. (receipt_bad (av_records a) c,
       restore_error ''restore report receipt is invalid: '')) (av_imports a)) = Inr ()"
    by (auto simp: validate_archive_def)
  show "distinct (map du_id (av_records a))" "\<forall>r \<in> set (av_records a). \<not> archive_record_bad j r"
    using r by (simp_all add: check_archive_records_iff)
  show "\<forall>c \<in> set (av_imports a). \<not> receipt_bad (av_records a) c"
    using c by (simp add: check_all_ok)
  have d: "distinct (map rev_key (av_revisions a))"
    using v by (simp add: check_archive_revisions_iff)
  have "revision_of x \<in> set (av_revisions a)" if "x \<in> set (av_records a)" for x
    using h that by_number_Some by (fastforce simp: history_checks_ok latest_exact)
  moreover have "(du_id x, n) \<in> rev_key ` set (av_revisions a) \<longleftrightarrow> 1 \<le> n \<and> n \<le> du_revision x"
    if "x \<in> set (av_records a)" for x n
    using h that by (intro history_exact [OF d]) (simp add: history_checks_ok)
  ultimately show "history_inv j (av_records a) (av_revisions a)"
    using v d by (simp add: history_inv_def check_archive_revisions_iff)
qed

section \<open>Restoring keeps the invariant\<close>

lemma rebase_fields [simp]:
  "du_id (rebase p w r) = du_id r" "du_kind (rebase p w r) = du_kind r"
  "du_project (rebase p w r) = p" "du_workspace (rebase p w r) = w"
  "du_revision (rebase p w r) = du_revision r" "revision_of (rebase p w r) = revision_of r"
  by (simp_all add: rebase_def revision_of_def)

lemma rebase_ok: "\<lbrakk>\<not> archive_record_bad j r; p \<noteq> []; w \<noteq> []\<rbrakk> \<Longrightarrow> \<not> archive_record_bad j (rebase p w r)"
  by (simp add: archive_record_bad_def rebase_def)

lemma map_id_rebase [simp]: "map du_id (map (rebase p w) rs) = map du_id rs"
  by simp

lemma each_ConsE:
  assumes "each f (x # xs) s = Inr s'"
  obtains s1 where "f x s = Inr s1" "each f xs s1 = Inr s'"
  using assms by auto

lemma restore_revision_Inr:
  "restore_revision j ids v db = Inr db' \<Longrightarrow> sql_insert_revision v db = Inr db'"
  by (auto simp: restore_revision_def split: if_splits)

lemma restore_receipt_Inr:
  "restore_receipt p w ids c db = Inr db' \<Longrightarrow>
     sql_insert_import \<lparr>im_project = p, im_workspace = w, im_receipt = c\<rparr> db = Inr db'"
  by (auto simp: restore_receipt_def split: if_splits)

lemma restore_rows_inv:
  "\<lbrakk>each (\<lambda>r db. prefix_error m (sql_insert_record j (rebase p w r) db)) rs db = Inr db';
    records_inv j (db_records db); \<forall>r \<in> set rs. \<not> archive_record_bad j r; p \<noteq> []; w \<noteq> []\<rbrakk> \<Longrightarrow>
   db' = db\<lparr>db_records := db_records db @ map (rebase p w) rs\<rparr> \<and> records_inv j (db_records db')"
proof (induction rs arbitrary: db)
  case Nil
  then show ?case by simp
next
  case (Cons r rs)
  then obtain db1 where i: "sql_insert_record j (rebase p w r) db = Inr db1"
    and e: "each (\<lambda>r db. prefix_error m (sql_insert_record j (rebase p w r) db)) rs db1 = Inr db'"
    by auto
  from i have db1: "db1 = db\<lparr>db_records := db_records db @ [rebase p w r]\<rparr>"
    and fresh: "\<forall>x \<in> set (db_records db). du_id x \<noteq> du_id (rebase p w r) \<and> \<not> collides j (rebase p w r) x"
    by (auto simp: sql_insert_record_def list_ex_iff split: if_splits)
  have "records_inv j (db_records db1)"
    using records_inv_append [OF Cons.prems(2) _ fresh] rebase_ok Cons.prems by (simp add: db1)
  from Cons.IH [OF e this] Cons.prems(3-5) show ?case by (auto simp: db1)
qed

lemma restore_revisions_inv:
  "each (restore_revision j ids) vs db = Inr db' \<Longrightarrow>
     db' = db\<lparr>db_revisions := db_revisions db @ vs\<rparr> \<and>
     (distinct (map rev_key (db_revisions db)) \<longrightarrow> distinct (map rev_key (db_revisions db')))"
proof (induction vs arbitrary: db)
  case Nil
  then show ?case by simp
next
  case (Cons v vs)
  obtain db1 where e0: "restore_revision j ids v db = Inr db1"
    and e: "each (restore_revision j ids) vs db1 = Inr db'"
    by (rule each_ConsE [OF Cons.prems])
  note i = restore_revision_Inr [OF e0]
  from i have db1: "db1 = db\<lparr>db_revisions := db_revisions db @ [v]\<rparr>"
    and fresh: "rev_key v \<notin> rev_key ` set (db_revisions db)"
    by (auto simp: sql_insert_revision_def list_ex_iff rev_key_def split: if_splits)
  have "distinct (map rev_key (db_revisions db1))" if "distinct (map rev_key (db_revisions db))"
    using fresh that by (simp add: db1)
  moreover have "db' = db\<lparr>db_revisions := db_revisions db @ v # vs\<rparr>"
    using Cons.IH [OF e] by (simp add: db1)
  ultimately show ?case using Cons.IH [OF e] by blast
qed

lemma restore_receipts_inv:
  "\<lbrakk>each (restore_receipt p w ids) cs db = Inr db'; imports_inv (db_records db) (db_imports db);
    \<forall>c \<in> set cs. import_ok (db_records db) \<lparr>im_project = p, im_workspace = w, im_receipt = c\<rparr>\<rbrakk> \<Longrightarrow>
   db' = db\<lparr>db_imports := db_imports db @ map (\<lambda>c. \<lparr>im_project = p, im_workspace = w, im_receipt = c\<rparr>) cs\<rparr> \<and>
   imports_inv (db_records db') (db_imports db')"
proof (induction cs arbitrary: db)
  case Nil
  then show ?case by simp
next
  case (Cons c cs)
  let ?x = "\<lparr>im_project = p, im_workspace = w, im_receipt = c\<rparr>"
  obtain db1 where e0: "restore_receipt p w ids c db = Inr db1"
    and e: "each (restore_receipt p w ids) cs db1 = Inr db'"
    by (rule each_ConsE [OF Cons.prems(1)])
  note i = restore_receipt_Inr [OF e0]
  from i have db1: "db1 = db\<lparr>db_imports := db_imports db @ [?x]\<rparr>"
    and fresh: "import_key ?x \<notin> import_key ` set (db_imports db)"
    by (auto simp: sql_insert_import_def list_ex_iff import_key_def split: if_splits)
  have "imports_inv (db_records db1) (db_imports db1)"
    using Cons.prems(2,3) fresh by (simp add: db1 imports_inv_def)
  from Cons.IH [OF e this] Cons.prems(3) show ?case by (auto simp: db1)
qed

lemma history_inv_join:
  assumes old: "history_inv j rs vs" and new: "history_inv j rs' vs'"
    and d: "distinct (map rev_key (vs @ vs'))" and ids: "distinct (map du_id (rs @ map (rebase p w) rs'))"
  shows "history_inv j (rs @ map (rebase p w) rs') (vs @ vs')"
  unfolding history_inv_def
proof (intro conjI ballI)
  show "distinct (map rev_key (vs @ vs'))" by (rule d)
next
  fix v assume "v \<in> set (vs @ vs')"
  then consider "v \<in> set vs" | "v \<in> set vs'" by auto
  then show "\<not> archive_revision_bad j (map du_id (rs @ map (rebase p w) rs')) v"
    using old new archive_revision_mono [of j "map du_id rs" v] archive_revision_mono [of j "map du_id rs'" v]
    by cases (simp_all add: history_inv_def comp_def)
next
  fix r assume "r \<in> set (rs @ map (rebase p w) rs')"
  then consider (a) "r \<in> set rs" | (b) r' where "r' \<in> set rs'" "r = rebase p w r'" by auto
  then have "(\<forall>n. (du_id r, n) \<in> rev_key ` set (vs @ vs') \<longleftrightarrow> 1 \<le> n \<and> n \<le> du_revision r) \<and>
      revision_of r \<in> set (vs @ vs')"
  proof cases
    case a
    then have "du_id r \<notin> du_id ` set rs'" using ids by (force simp: comp_def)
    then have "(du_id r, n) \<notin> rev_key ` set vs'" for n using history_ids [OF new] by blast
    with a old show ?thesis by (simp add: history_inv_def image_Un)
  next
    case b
    then have "du_id r \<notin> du_id ` set rs" using ids by (force simp: comp_def)
    then have "(du_id r, n) \<notin> rev_key ` set vs" for n using history_ids [OF old] by blast
    with b new show ?thesis by (simp add: history_inv_def image_Un)
  qed
  then show "\<forall>n. (du_id r, n) \<in> rev_key ` set (vs @ vs') \<longleftrightarrow> 1 \<le> n \<and> n \<le> du_revision r"
    and "revision_of r \<in> set (vs @ vs')" by blast+
qed


lemma receipt_ok:
  assumes "\<not> receipt_bad rs c"
  shows "import_ok (rs0 @ map (rebase p w) rs) \<lparr>im_project = p, im_workspace = w, im_receipt = c\<rparr>"
proof -
  from assms obtain r where "find (\<lambda>r. du_id r = rc_record_id c) rs = Some r"
    and k: "du_kind r = ''verification''" "rc_source_hash c \<noteq> []" "rc_parser_revision c \<noteq> []"
      "\<not> is_zero_time (rc_imported_at c)"
    by (auto simp: receipt_bad_def split: option.splits)
  from find_Some_in [OF this(1)] have "r \<in> set rs" "du_id r = rc_record_id c" by simp_all
  then have "\<exists>x \<in> set (rs0 @ map (rebase p w) rs). du_id x = rc_record_id c \<and> owned p w x \<and>
      du_kind x = ''verification''"
    using k(1) by (intro bexI [of _ "rebase p w r"]) (simp_all add: owned_def)
  then show ?thesis using k by (simp add: import_ok_def)
qed

lemma restore_tx_inv:
  assumes inv: "db_inv j db" and v: "validate_archive j a = Inr u" and p: "p \<noteq> []" "w \<noteq> []"
    and tx: "restore_tx j p w a db = Inr db'"
  shows "db_inv j db'"
proof -
  note ok = validate_archive_ok [OF v]
  let ?ids = "map du_id (av_records a)"
  let ?rs = "db_records db @ map (rebase p w) (av_records a)"
  from tx obtain db1 db2 where
    e1: "each (\<lambda>r db. prefix_error ''restore durable record: '' (sql_insert_record j (rebase p w r) db)) (av_records a) db = Inr db1"
    and e2: "each (restore_revision j ?ids) (av_revisions a) db1 = Inr db2"
    and e3: "each (restore_receipt p w ?ids) (av_imports a) db2 = Inr db'"
    by (auto simp: restore_tx_def Let_def split: if_splits)
  have r1: "db1 = db\<lparr>db_records := ?rs\<rparr>" "records_inv j (db_records db1)"
    using restore_rows_inv [OF e1 _ ok(2) p] inv by (auto simp: db_inv_def)
  have r2: "db2 = db1\<lparr>db_revisions := db_revisions db @ av_revisions a\<rparr>"
    using restore_revisions_inv [OF e2] by (simp add: r1(1))
  have "distinct (map rev_key (db_revisions db))" using inv by (simp add: db_inv_def history_inv_def)
  with conjunct2 [OF restore_revisions_inv [OF e2]] have "distinct (map rev_key (db_revisions db2))"
    by (simp add: r1(1))
  then have r3: "distinct (map rev_key (db_revisions db @ av_revisions a))" by (simp add: r2)
  have h: "history_inv j ?rs (db_revisions db @ av_revisions a)"
  proof (rule history_inv_join [OF _ ok(3) r3])
    show "history_inv j (db_records db) (db_revisions db)" using inv by (simp add: db_inv_def)
    show "distinct (map du_id ?rs)" using r1 by (simp add: records_inv_def)
  qed
  have i: "imports_inv (db_records db2) (db_imports db2)"
    unfolding r2 r1(1)
    by simp (rule imports_inv_mono [of "db_records db"], use inv in \<open>auto simp: db_inv_def\<close>)
  have "\<forall>c \<in> set (av_imports a). import_ok (db_records db2) \<lparr>im_project = p, im_workspace = w, im_receipt = c\<rparr>"
    using ok(4) receipt_ok by (simp add: r2 r1(1))
  from restore_receipts_inv [OF e3 i this] h r1(2) show ?thesis
    by (auto simp: db_inv_def r2 r1(1))
qed

lemma restore_inv: "db_inv j db \<Longrightarrow> db_inv j (fst (restore_records j p w a db))"
  unfolding restore_records_def
  by (cases "validate_archive j a") (auto intro: transact_inv [OF _ restore_tx_inv])


section \<open>The round trip\<close>

lemma set_exported_records [simp]: "set (exported_records p w db) = {r \<in> set (db_records db). owned p w r}"
  by (simp add: exported_records_def)

lemma set_exported_revisions:
  "set (exported_revisions p w db) =
     {v \<in> set (db_revisions db). \<exists>r \<in> set (db_records db). owned p w r \<and> du_id r = rv_record_id v}"
  by (simp add: exported_revisions_def belongs_def list_ex_iff)

lemma set_exported_imports:
  "set (exported_imports p w db) = im_receipt ` {x \<in> set (db_imports db). im_project x = p \<and> im_workspace x = w}"
  by (auto simp: exported_imports_def)

lemma distinct_map_sort_key: "distinct (map f xs) \<Longrightarrow> distinct (map f (sort_key g xs))"
  by (simp add: distinct_map)

lemma distinct_exported_records:
  "db_inv j db \<Longrightarrow> distinct (map du_id (exported_records p w db))"
  unfolding exported_records_def
  by (rule distinct_map_sort_key) (simp add: db_inv_def records_inv_def distinct_map_filter)

lemma distinct_exported_revisions:
  "db_inv j db \<Longrightarrow> distinct (map rev_key (exported_revisions p w db))"
  unfolding exported_revisions_def
  by (rule distinct_map_sort_key) (simp add: db_inv_def history_inv_def distinct_map_filter)

lemma exported_history:
  assumes "db_inv j db" "r \<in> set (exported_records p w db)"
  shows "(du_id r, n) \<in> rev_key ` set (exported_revisions p w db) \<longleftrightarrow> 1 \<le> n \<and> n \<le> du_revision r"
    "revision_of r \<in> set (exported_revisions p w db)"
proof -
  from assms have h: "\<forall>n. (du_id r, n) \<in> rev_key ` set (db_revisions db) \<longleftrightarrow> 1 \<le> n \<and> n \<le> du_revision r"
    "revision_of r \<in> set (db_revisions db)"
    by (simp_all add: db_inv_def history_inv_def)
  have "(du_id r, n) \<in> rev_key ` set (exported_revisions p w db) \<longleftrightarrow> (du_id r, n) \<in> rev_key ` set (db_revisions db)"
    using assms(2) by (auto simp: set_exported_revisions rev_key_def image_iff)
  with h(1) show "(du_id r, n) \<in> rev_key ` set (exported_revisions p w db) \<longleftrightarrow> 1 \<le> n \<and> n \<le> du_revision r" by simp
  show "revision_of r \<in> set (exported_revisions p w db)"
    using h(2) assms(2) by (auto simp: set_exported_revisions) (auto simp: revision_of_def)
qed

lemma by_number_unique:
  assumes "distinct (map rev_key vs)" "v \<in> set vs"
  shows "by_number vs (rv_record_id v) (rv_revision v) = Some v"
proof -
  have "by_number vs (rv_record_id v) (rv_revision v) \<noteq> None"
    using assms(2) by (auto simp: by_number_None rev_key_def)
  then obtain v' where v': "by_number vs (rv_record_id v) (rv_revision v) = Some v'" by blast
  from by_number_Some [OF v'] have "v' \<in> set vs" "rev_key v' = rev_key v" by (simp_all add: rev_key_def)
  with assms have "v' = v" by (metis distinct_map inj_onD)
  with v' show ?thesis by simp
qed

lemma history_fine:
  assumes d: "distinct (map rev_key vs)"
    and h: "\<And>n. (du_id r, n) \<in> rev_key ` set vs \<longleftrightarrow> 1 \<le> n \<and> n \<le> du_revision r"
    and l: "revision_of r \<in> set vs"
  shows "\<not> history_bad vs r \<and> \<not> latest_differs vs r"
proof -
  have "{n. (du_id r, n) \<in> rev_key ` set vs} = {1..du_revision r}" using h by auto
  then have "length (filter (\<lambda>v. rv_record_id v = du_id r) vs) = du_revision r"
    using numbers_of [OF d, of "du_id r"] by simp
  moreover have "by_number vs (du_id r) n \<noteq> None" if "n \<in> set [1..<Suc (du_revision r)]" for n
    using h [of n] that by (auto simp: by_number_None)
  moreover have "by_number vs (du_id r) (du_revision r) = Some (revision_of r)"
    using by_number_unique [OF d l] by (simp add: revision_of_def)
  ultimately show ?thesis
    unfolding latest_exact history_bad_def list_ex_iff by blast
qed

lemma exported_import_ok:
  assumes inv: "db_inv j db" and c: "c \<in> set (exported_imports p w db)"
  shows "\<not> receipt_bad (exported_records p w db) c"
proof -
  from c obtain x where x: "x \<in> set (db_imports db)" "im_project x = p" "im_workspace x = w" "c = im_receipt x"
    by (auto simp: set_exported_imports)
  with inv have ok: "import_ok (db_records db) x" by (simp add: db_inv_def imports_inv_def)
  then obtain r where r: "r \<in> set (exported_records p w db)" "du_id r = rc_record_id c" "du_kind r = ''verification''"
    using x by (auto simp: import_ok_def)
  then have "find (\<lambda>r. du_id r = rc_record_id c) (exported_records p w db) \<noteq> None"
    by (auto simp: find_None_iff)
  then obtain r' where r': "find (\<lambda>r. du_id r = rc_record_id c) (exported_records p w db) = Some r'" by blast
  from find_Some_in [OF r'] r distinct_exported_records [OF inv, of p w] have "r' = r"
    by (metis distinct_map inj_onD)
  with r' r(3) ok x(4) show ?thesis by (simp add: receipt_bad_def import_ok_def)
qed

lemma exported_valid:
  assumes inv: "db_inv j db" and e: "export_records p w limit db = Inr a"
  shows "validate_archive j a = Inr ()"
proof -
  from e have a: "a = \<lparr>av_records = exported_records p w db, av_revisions = exported_revisions p w db,
      av_imports = exported_imports p w db\<rparr>"
    by (auto simp: export_records_def Let_def split: if_splits)
  have own: "(du_project x, du_workspace x) = (p, w)" if "x \<in> set (exported_records p w db)" for x
    using that by (simp add: owned_def)
  have "\<forall>r \<in> set (exported_records p w db). (du_project r, du_workspace r) =
      (du_project (hd (exported_records p w db)), du_workspace (hd (exported_records p w db)))"
    using own hd_in_set by (metis emptyE empty_set)
  then have 1: "check_archive_records j None [] (av_records a) = Inr ()"
    using inv distinct_exported_records [OF inv]
    by (simp add: check_archive_records_iff a db_inv_def records_inv_def)
  have "\<not> archive_revision_bad j (map du_id (exported_records p w db)) v"
    if "v \<in> set (exported_revisions p w db)" for v
    using inv that by (auto simp: db_inv_def history_inv_def set_exported_revisions archive_revision_bad_def
        image_iff)
  then have 2: "check_archive_revisions j (map du_id (av_records a)) [] (av_revisions a) = Inr ()"
    using distinct_exported_revisions [OF inv] by (simp add: check_archive_revisions_iff a)
  have 3: "check_all (history_checks a) = Inr ()"
    using history_fine [OF distinct_exported_revisions [OF inv] exported_history [OF inv]]
    by (simp add: history_checks_ok a)
  have 4: "check_all (map (\<lambda>c. (receipt_bad (av_records a) c,
       restore_error ''restore report receipt is invalid: '')) (av_imports a)) = Inr ()"
    using exported_import_ok [OF inv] by (simp add: check_all_ok a)
  show ?thesis using 1 2 3 4 by (simp add: validate_archive_def)
qed


text \<open>Rebasing keeps the index entries of the rows apart.\<close>

lemma rebase_collides:
  assumes "collides j (rebase p' w' r) (rebase p' w' x)" "owned p w r" "owned p w x"
  shows "collides j r x"
proof -
  have t: "topic_slot j (rebase p' w' y) = map_option (\<lambda>(_, _, s). (p', w', s)) (topic_slot j y)" for y
    by (auto simp: topic_slot_def rebase_def split: sql_value.split)
  have s: "successor_slot (rebase p' w' y) = map_option (\<lambda>(_, _, s). (p', w', s)) (successor_slot y)" for y
    by (simp add: successor_slot_def rebase_def)
  have to: "\<exists>s. topic_slot j y = Some (p, w, s)" if "owned p w y" "topic_slot j y \<noteq> None" for y
    using that by (auto simp: topic_slot_def owned_def split: if_splits sql_value.splits)
  have so: "\<exists>s. successor_slot y = Some (p, w, s)" if "owned p w y" "successor_slot y \<noteq> None" for y
    using that by (auto simp: successor_slot_def owned_def split: if_splits)
  show ?thesis
    using assms to [of r] to [of x] so [of r] so [of x]
    by (auto simp: collides_def t s slot_unique_def)
qed

lemma restore_rows_empty:
  assumes "distinct (map du_id (prev @ rs))"
    "\<forall>r \<in> set (prev @ rs). \<forall>x \<in> set (prev @ rs). du_id r \<noteq> du_id x \<longrightarrow>
       \<not> collides j (rebase p w r) (rebase p w x)"
    "db_records db = map (rebase p w) prev"
  shows "each (\<lambda>r db. prefix_error m (sql_insert_record j (rebase p w r) db)) rs db =
    Inr (db\<lparr>db_records := map (rebase p w) (prev @ rs)\<rparr>)"
  using assms
proof (induction rs arbitrary: prev db)
  case Nil
  then show ?case by simp
next
  case (Cons r rs)
  let ?db = "db\<lparr>db_records := map (rebase p w) (prev @ [r])\<rparr>"
  have "sql_insert_record j (rebase p w r) db = Inr ?db"
    using Cons.prems by (auto simp: sql_insert_record_def list_ex_iff image_iff)
  moreover have "each (\<lambda>r db. prefix_error m (sql_insert_record j (rebase p w r) db)) rs ?db =
      Inr (?db\<lparr>db_records := map (rebase p w) ((prev @ [r]) @ rs)\<rparr>)"
    by (rule Cons.IH) (use Cons.prems in auto)
  ultimately show ?case by simp
qed

lemma restore_revisions_empty:
  assumes "distinct (map rev_key (db_revisions db @ vs))"
    "\<forall>v \<in> set vs. \<not> archive_revision_bad j ids v" "set ids \<subseteq> du_id ` set (db_records db)"
  shows "each (restore_revision j ids) vs db = Inr (db\<lparr>db_revisions := db_revisions db @ vs\<rparr>)"
  using assms
proof (induction vs arbitrary: db)
  case Nil
  then show ?case by simp
next
  case (Cons v vs)
  let ?db = "db\<lparr>db_revisions := db_revisions db @ [v]\<rparr>"
  have known: "\<exists>r \<in> set (db_records db). du_id r = rv_record_id v"
  proof -
    have "rv_record_id v \<in> set ids" using Cons.prems(2) by (simp add: archive_revision_bad_def)
    with Cons.prems(3) have "rv_record_id v \<in> du_id ` set (db_records db)" by blast
    then show ?thesis by (metis imageE)
  qed
  have "rev_key v \<notin> rev_key ` set (db_revisions db)" using Cons.prems(1) by simp
  then have "\<forall>x \<in> set (db_revisions db). rev_key x \<noteq> rev_key v" by (metis image_eqI)
  then have fresh: "\<forall>x \<in> set (db_revisions db). \<not> (rv_record_id x = rv_record_id v \<and> rv_revision x = rv_revision v)"
    by (simp add: rev_key_def)
  have "restore_revision j ids v db = Inr ?db"
    using known fresh Cons.prems(2) by (simp add: restore_revision_def sql_insert_revision_def list_ex_iff)
  moreover have "each (restore_revision j ids) vs ?db = Inr (?db\<lparr>db_revisions := db_revisions ?db @ vs\<rparr>)"
    by (rule Cons.IH) (use Cons.prems in simp_all)
  ultimately show ?case by simp
qed

definition receipt_key :: "receipt \<Rightarrow> string \<times> string" where
  "receipt_key c = (rc_source_hash c, rc_parser_revision c)"

lemma restore_receipts_empty:
  assumes "distinct (map import_key (db_imports db @ map (\<lambda>c. \<lparr>im_project = p, im_workspace = w, im_receipt = c\<rparr>) cs))"
    "\<forall>c \<in> set cs. rc_record_id c \<in> set ids \<and> rc_source_hash c \<noteq> [] \<and> rc_parser_revision c \<noteq> [] \<and>
       \<not> is_zero_time (rc_imported_at c)" "set ids \<subseteq> du_id ` set (db_records db)"
  shows "each (restore_receipt p w ids) cs db = Inr (db\<lparr>db_imports := db_imports db @
     map (\<lambda>c. \<lparr>im_project = p, im_workspace = w, im_receipt = c\<rparr>) cs\<rparr>)"
  using assms
proof (induction cs arbitrary: db)
  case Nil
  then show ?case by simp
next
  case (Cons c cs)
  let ?x = "\<lparr>im_project = p, im_workspace = w, im_receipt = c\<rparr>"
  let ?db = "db\<lparr>db_imports := db_imports db @ [?x]\<rparr>"
  have known: "\<exists>r \<in> set (db_records db). du_id r = rc_record_id c"
  proof -
    have "rc_record_id c \<in> set ids" using Cons.prems(2) by simp
    with Cons.prems(3) have "rc_record_id c \<in> du_id ` set (db_records db)" by blast
    then show ?thesis by (metis imageE)
  qed
  have "import_key ?x \<notin> import_key ` set (db_imports db)" using Cons.prems(1) by simp
  then have fresh: "\<forall>x \<in> set (db_imports db). import_key x \<noteq> import_key ?x" by (metis image_eqI)
  have "restore_receipt p w ids c db = Inr ?db"
    using known fresh Cons.prems(2)
    by (simp add: restore_receipt_def sql_insert_import_def list_ex_iff import_key_def)
  moreover have "each (restore_receipt p w ids) cs ?db = Inr (?db\<lparr>db_imports := db_imports ?db @
     map (\<lambda>c. \<lparr>im_project = p, im_workspace = w, im_receipt = c\<rparr>) cs\<rparr>)"
    by (rule Cons.IH) (use Cons.prems in simp_all)
  ultimately show ?case by simp
qed

lemma exported_imports_distinct:
  assumes "db_inv j db"
  shows "distinct (map receipt_key (exported_imports p w db))"
proof -
  let ?f = "filter (\<lambda>x. im_project x = p \<and> im_workspace x = w) (db_imports db)"
  have "distinct (map import_key ?f)"
    using assms by (simp add: db_inv_def imports_inv_def distinct_map_filter)
  moreover have "map import_key ?f = map (\<lambda>c. (p, w, receipt_key c)) (map im_receipt ?f)"
    by (auto simp: import_key_def receipt_key_def)
  ultimately have "distinct (map (Pair p \<circ> Pair w) (map receipt_key (map im_receipt ?f)))"
    by (simp add: comp_def)
  then have "distinct (map receipt_key (map im_receipt ?f))" by (simp add: distinct_map comp_def inj_on_def)
  then show ?thesis unfolding exported_imports_def by (rule distinct_map_sort_key)
qed


lemma receipt_good:
  assumes "\<not> receipt_bad rs c"
  shows "rc_record_id c \<in> set (map du_id rs) \<and> rc_source_hash c \<noteq> [] \<and> rc_parser_revision c \<noteq> [] \<and>
    \<not> is_zero_time (rc_imported_at c)"
proof -
  from assms obtain r where "find (\<lambda>r. du_id r = rc_record_id c) rs = Some r"
    and k: "rc_source_hash c \<noteq> []" "rc_parser_revision c \<noteq> []" "\<not> is_zero_time (rc_imported_at c)"
    by (auto simp: receipt_bad_def split: option.splits)
  from find_Some_in [OF this(1)] have "rc_record_id c \<in> set (map du_id rs)" by (metis image_eqI list.set_map)
  with k show ?thesis by simp
qed

definition restored_db :: "string \<Rightarrow> string \<Rightarrow> archive \<Rightarrow> record_db" where
  "restored_db p w a = \<lparr>db_records = map (rebase p w) (av_records a), db_revisions = av_revisions a,
     db_imports = map (\<lambda>c. \<lparr>im_project = p, im_workspace = w, im_receipt = c\<rparr>) (av_imports a)\<rparr>"

lemma exportE:
  assumes "export_records p w limit db = Inr a"
  shows "a = \<lparr>av_records = exported_records p w db, av_revisions = exported_revisions p w db,
      av_imports = exported_imports p w db\<rparr>" "archive_size a \<le> limit" "int limit \<le> 100000" "0 < limit"
  using assms by (auto simp: export_records_def Let_def split: if_splits)

lemma restore_exported:
  assumes inv: "db_inv j db" and e: "export_records p w limit db = Inr a"
    and p': "p' \<noteq> []" "w' \<noteq> []"
  shows "restore_records j p' w' a empty_db = (restored_db p' w' a, Inr ())"
proof -
  note a = exportE(1) [OF e]
  note v = validate_archive_ok [OF exported_valid [OF inv e]]
  let ?ids = "map du_id (av_records a)"
  let ?db1 = "empty_db\<lparr>db_records := map (rebase p' w') (av_records a)\<rparr>"
  let ?db2 = "?db1\<lparr>db_revisions := av_revisions a\<rparr>"
  have nocol: "\<forall>r \<in> set (av_records a). \<forall>x \<in> set (av_records a). du_id r \<noteq> du_id x \<longrightarrow>
      \<not> collides j (rebase p' w' r) (rebase p' w' x)"
    using inv rebase_collides [of j p' w' _ _ p w] by (fastforce simp: a db_inv_def records_inv_def)
  have e1: "each (\<lambda>r db. prefix_error ''restore durable record: '' (sql_insert_record j (rebase p' w' r) db))
      (av_records a) empty_db = Inr ?db1"
    using restore_rows_empty [of "[]" "av_records a" j p' w' empty_db] v(1) nocol by (simp add: empty_db_def)
  have e2: "each (restore_revision j ?ids) (av_revisions a) ?db1 = Inr ?db2"
    using restore_revisions_empty [of ?db1 "av_revisions a" j ?ids] v(3)
    by (simp add: history_inv_def empty_db_def image_image)
  have "distinct (map (\<lambda>c. (p', w', receipt_key c)) (av_imports a))"
    using exported_imports_distinct [OF inv, of p w] by (simp add: a distinct_map inj_on_def)
  then have d: "distinct (map import_key (map (\<lambda>c. \<lparr>im_project = p', im_workspace = w', im_receipt = c\<rparr>) (av_imports a)))"
    by (simp add: comp_def import_key_def receipt_key_def)
  have "\<forall>c \<in> set (av_imports a). rc_record_id c \<in> set ?ids \<and> rc_source_hash c \<noteq> [] \<and>
      rc_parser_revision c \<noteq> [] \<and> \<not> is_zero_time (rc_imported_at c)"
    using v(4) receipt_good by blast
  with restore_receipts_empty [of ?db2 p' w' "av_imports a" ?ids] d
  have e3: "each (restore_receipt p' w' ?ids) (av_imports a) ?db2 = Inr (restored_db p' w' a)"
    by (simp add: restored_db_def empty_db_def image_image)
  have "restore_tx j p' w' a empty_db = Inr (restored_db p' w' a)"
    using e1 e2 e3 by (simp add: restore_tx_def Let_def) (simp add: empty_db_def)
  then show ?thesis
    using exportE [OF e] p' exported_valid [OF inv e]
    by (simp add: restore_records_def transact_def del: exportE)
qed

lemma sort_key_sorted: "sorted (map f xs) \<Longrightarrow> sort_key f xs = xs"
  by (rule sort_key_id_if_sorted)

lemma export_restored:
  assumes inv: "db_inv j db" and e: "export_records p w limit db = Inr a"
    and p': "p' \<noteq> []" "w' \<noteq> []"
  shows "export_records p' w' limit (restored_db p' w' a) =
    Inr (a\<lparr>av_records := map (rebase p' w') (av_records a)\<rparr>)"
proof -
  let ?db = "restored_db p' w' a"
  note a = exportE(1) [OF e]
  have s: "sorted (map du_id (av_records a))"
    "sorted (map (\<lambda>v. (rv_record_id v, rv_revision v)) (av_revisions a))"
    "sorted (map (\<lambda>c. (rc_source_hash c, rc_parser_revision c)) (av_imports a))"
    by (simp_all add: a exported_records_def exported_revisions_def exported_imports_def)
  have "filter (owned p' w') (db_records ?db) = db_records ?db"
    by (auto simp: restored_db_def owned_def filter_id_conv)
  then have r: "exported_records p' w' ?db = map (rebase p' w') (av_records a)"
    using s(1) unfolding exported_records_def by (simp add: restored_db_def sort_key_sorted comp_def)
  have "belongs p' w' ?db (rv_record_id v)" if "v \<in> set (av_revisions a)" for v
    using that by (auto simp: a set_exported_revisions belongs_def list_ex_iff restored_db_def owned_def)
  moreover have "db_revisions ?db = av_revisions a" by (simp add: restored_db_def)
  ultimately have "filter (\<lambda>v. belongs p' w' ?db (rv_record_id v)) (db_revisions ?db) = av_revisions a"
    by simp
  then have v: "exported_revisions p' w' ?db = av_revisions a"
    unfolding exported_revisions_def using s(2) by (simp add: sort_key_sorted)
  have "map im_receipt (filter (\<lambda>x. im_project x = p' \<and> im_workspace x = w') (db_imports ?db)) = av_imports a"
    by (simp add: restored_db_def filter_map comp_def)
  then have i: "exported_imports p' w' ?db = av_imports a"
    unfolding exported_imports_def using s(3) by (simp add: sort_key_sorted)
  show ?thesis
    using exportE(2-4) [OF e] p' by (simp add: export_records_def r v i Let_def archive_size_def)
qed

end
