(* ===== verification/RecordProperties.thy ===== *)
theory RecordProperties
  imports RecordTransfer "HOL-Library.Multiset"
begin

text \<open>
  The promises of the durable record repository: the interface \<open>versioned_store\<close> of optimistic
  updates with its interpretation on the SQLite adapter, the states reachable by the repository's
  operations, and the properties of each operation.
\<close>

section \<open>Optimistic updates as an interface\<close>

fun run_updates ::
    "('k \<Rightarrow> nat \<Rightarrow> 'w \<Rightarrow> 'db \<Rightarrow> 'db \<times> ('e + 'v)) \<Rightarrow> ('k \<times> nat \<times> 'w) list \<Rightarrow> 'db \<Rightarrow> 'db \<times> ('k \<times> nat) list" where
  "run_updates put [] db = (db, [])"
| "run_updates put ((k, n, x) # ops) db =
     (let (db1, r) = put k n x db; (db2, log) = run_updates put ops db1
      in (db2, (if is_ok r then [(k, n)] else []) @ log))"

locale versioned_store =
  fixes get :: "'db \<Rightarrow> 'k \<Rightarrow> 'v option"
    and version :: "'v \<Rightarrow> nat"
    and put :: "'k \<Rightarrow> nat \<Rightarrow> 'w \<Rightarrow> 'db \<Rightarrow> 'db \<times> ('e + 'v)"
    and inv :: "'db \<Rightarrow> bool"
  assumes put_inv: "inv db \<Longrightarrow> inv (fst (put k n x db))"
    and put_fails: "inv db \<Longrightarrow> put k n x db = (db', Inl e) \<Longrightarrow> db' = db"
    and put_succeeds: "inv db \<Longrightarrow> put k n x db = (db', Inr v) \<Longrightarrow>
       (\<exists>v0. get db k = Some v0 \<and> version v0 = n) \<and> get db' k = Some v \<and> version v = Suc n \<and>
       (\<forall>k'. k' \<noteq> k \<longrightarrow> get db' k' = get db k')"
begin

lemma stale_put_fails:
  "\<lbrakk>inv db; get db k = Some v0; version v0 \<noteq> n\<rbrakk> \<Longrightarrow> \<not> is_ok (snd (put k n x db)) \<and> fst (put k n x db) = db"
proof -
  assume a: "inv db" "get db k = Some v0" "version v0 \<noteq> n"
  obtain db' r where p: "put k n x db = (db', r)" by fastforce
  show ?thesis
  proof (cases r)
    case (Inl e)
    with put_fails [OF a(1)] p show ?thesis by auto
  next
    case (Inr v)
    with put_succeeds [OF a(1)] p a(2,3) show ?thesis by fastforce
  qed
qed

lemma second_put_fails:
  "\<lbrakk>inv db; put k n x db = (db1, Inr v)\<rbrakk> \<Longrightarrow> \<not> is_ok (snd (put k n y db1)) \<and> fst (put k n y db1) = db1"
proof -
  assume a: "inv db" "put k n x db = (db1, Inr v)"
  from put_succeeds [OF a] have v: "get db1 k = Some v" "version v \<noteq> n" by simp_all
  from put_inv [OF a(1), of k n x] a(2) have "inv db1" by simp
  from stale_put_fails [OF this v] show ?thesis .
qed

lemma put_step:
  assumes "inv db" "get db k = Some v0" "put k' n x db = (db1, r)"
  shows "\<exists>v1. get db1 k = Some v1 \<and>
    map snd (filter (\<lambda>e. fst e = k) (if is_ok r then [(k', n)] else [])) = [version v0..<version v1]"
proof (cases r)
  case (Inl e)
  with put_fails assms have "db1 = db" by blast
  with assms(2) Inl show ?thesis by simp
next
  case (Inr v)
  with put_succeeds assms have s: "(\<exists>w. get db k' = Some w \<and> version w = n)" "get db1 k' = Some v"
    "version v = Suc n" "\<forall>i. i \<noteq> k' \<longrightarrow> get db1 i = get db i" by blast+
  show ?thesis
  proof (cases "k' = k")
    case True
    with s assms(2) Inr show ?thesis by auto
  next
    case False
    with s assms(2) Inr show ?thesis by auto
  qed
qed

lemma updates_serialize:
  "\<lbrakk>inv db; get db k = Some v0; run_updates put ops db = (db', log)\<rbrakk> \<Longrightarrow>
   \<exists>v. get db' k = Some v \<and> version v0 \<le> version v \<and>
     map snd (filter (\<lambda>e. fst e = k) log) = [version v0..<version v]"
proof (induction ops arbitrary: db v0 log db')
  case Nil
  then show ?case by auto
next
  case (Cons a ops)
  obtain k' n x where a: "a = (k', n, x)" by (cases a)
  obtain db1 r where p: "put k' n x db = (db1, r)" by fastforce
  obtain db2 log2 where run: "run_updates put ops db1 = (db2, log2)" by fastforce
  with Cons.prems(3) a p have d: "db' = db2" "log = (if is_ok r then [(k', n)] else []) @ log2" by auto
  obtain v1 where v1: "get db1 k = Some v1"
    "map snd (filter (\<lambda>e. fst e = k) (if is_ok r then [(k', n)] else [])) = [version v0..<version v1]"
    using put_step [OF Cons.prems(1,2) p] by blast
  have le: "version v0 \<le> version v1"
  proof (cases r)
    case (Inl e)
    with put_fails [OF Cons.prems(1)] p have "db1 = db" by blast
    with v1(1) Cons.prems(2) show ?thesis by simp
  next
    case (Inr v)
    with put_succeeds [OF Cons.prems(1), of k' n x db1 v] p v1(1) Cons.prems(2) show ?thesis
      by (cases "k' = k") auto
  qed
  have "inv db1" using put_inv [OF Cons.prems(1), of k' n x] p by simp
  from Cons.IH [OF this v1(1) run] obtain v where v: "get db2 k = Some v" "version v1 \<le> version v"
    "map snd (filter (\<lambda>e. fst e = k) log2) = [version v1..<version v]" by blast
  have "map snd (filter (\<lambda>e. fst e = k) log) = [version v0..<version v1] @ [version v1..<version v]"
    unfolding d(2) filter_append map_append v1(2) v(3) ..
  also have "\<dots> = [version v0..<version v]"
    using upt_add_eq_append [of "version v0" "version v1" "version v - version v1"] le v(2) by simp
  finally show ?case using d(1) v le by auto
qed

end

section \<open>The SQLite adapter provides it\<close>

definition record_slot :: "string \<Rightarrow> string \<Rightarrow> string \<Rightarrow> record_db \<Rightarrow> string \<Rightarrow> durable option" where
  "record_slot kind p w db i =
     (case get_record p w i db of Inl _ \<Rightarrow> None | Inr r \<Rightarrow> if du_kind r = kind then Some r else None)"

definition put_record ::
    "json_env \<Rightarrow> string \<Rightarrow> string \<Rightarrow> string \<Rightarrow> string \<Rightarrow> nat \<Rightarrow> time \<times> record_update \<Rightarrow> record_db \<Rightarrow>
     record_db \<times> (go_error + durable)" where
  "put_record j kind p w i n x db = (case x of (now, u) \<Rightarrow>
     update_record j now kind (u\<lparr>ru_project := p, ru_workspace := w, ru_id := i, ru_expected := n\<rparr>) db)"

definition ids_distinct :: "record_db \<Rightarrow> bool" where
  "ids_distinct db \<longleftrightarrow> distinct (map du_id (db_records db))"

lemma find_unique:
  "\<lbrakk>distinct (map f xs); x \<in> set xs; P x; \<And>y. P y \<Longrightarrow> f y = f x\<rbrakk> \<Longrightarrow> find P xs = Some x"
proof -
  assume a: "distinct (map f xs)" "x \<in> set xs" "P x" "\<And>y. P y \<Longrightarrow> f y = f x"
  then have "find P xs \<noteq> None" by (auto simp: find_None_iff)
  then obtain y where y: "find P xs = Some y" by blast
  from find_Some_in [OF y] a have "y = x" by (metis distinct_map inj_onD)
  with y show ?thesis by simp
qed

lemma get_record_intro:
  "\<lbrakk>ids_distinct db; r \<in> set (db_records db); owned p w r; du_id r = i\<rbrakk> \<Longrightarrow> get_record p w i db = Inr r"
  unfolding get_record_def ids_distinct_def
  by (subst find_unique [where f = du_id and x = r]) auto

lemma get_record_append:
  "get_record p w i (db\<lparr>db_revisions := vs\<rparr>) = get_record p w i db"
  by (simp add: get_record_def)

lemma find_map_other:
  "\<lbrakk>\<And>x. P (g x) \<longleftrightarrow> P x; \<And>x. P x \<Longrightarrow> g x = x\<rbrakk> \<Longrightarrow> find P (map g xs) = find P xs"
  by (induction xs) auto

lemma get_record_replace_other:
  assumes "same_owner old new" "i \<noteq> du_id new"
  shows "get_record p w i (replace_row new db) = get_record p w i db"
proof -
  have "find (\<lambda>r. owned p w r \<and> du_id r = i) (map (\<lambda>x. if du_id x = du_id new then new else x) (db_records db)) =
      find (\<lambda>r. owned p w r \<and> du_id r = i) (db_records db)"
    using assms(2) by (intro find_map_other) auto
  then show ?thesis by (simp add: get_record_def replace_row_def)
qed

lemma ids_distinct_replace [simp]: "ids_distinct (replace_row new db) = ids_distinct db"
proof -
  have "map du_id (db_records (replace_row new db)) = map du_id (db_records db)"
    by (simp add: replace_row_def)
  then show ?thesis by (simp add: ids_distinct_def)
qed


lemma updated_same_owner: "same_owner r (updated_record now u r)"
  by (simp add: same_owner_def updated_record_def)

lemma put_record_inv: "ids_distinct db \<Longrightarrow> ids_distinct (fst (put_record j kind p w i n x db))"
proof -
  assume d: "ids_distinct db"
  obtain now u where x: "x = (now, u)" by (cases x)
  let ?u = "u\<lparr>ru_project := p, ru_workspace := w, ru_id := i, ru_expected := n\<rparr>"
  have "ids_distinct db'" if t: "update_tx j now kind ?u db = Inr (new, db')" for new db'
  proof -
    obtain old where "db' = (replace_row new db)\<lparr>db_revisions := db_revisions db @ [revision_of new]\<rparr>"
      by (rule update_tx_cases [OF t])
    then have "db_records db' = db_records (replace_row new db)" by simp
    then show ?thesis using d ids_distinct_replace [of new db] by (simp only: ids_distinct_def)
  qed
  then show ?thesis
    using d by (auto simp: x put_record_def update_record_def transact_fst split: sum.split)
qed

lemma put_record_fails: "put_record j kind p w i n x db = (db', Inl e) \<Longrightarrow> db' = db"
  by (auto simp: put_record_def update_record_def transact_def split: prod.splits if_splits sum.splits)

lemma put_record_succeeds:
  assumes d: "ids_distinct db" and put: "put_record j kind p w i n x db = (db', Inr v)"
  shows "(\<exists>v0. record_slot kind p w db i = Some v0 \<and> du_revision v0 = n) \<and>
    record_slot kind p w db' i = Some v \<and> du_revision v = Suc n \<and>
    (\<forall>k. k \<noteq> i \<longrightarrow> record_slot kind p w db' k = record_slot kind p w db k)"
proof -
  obtain now u where x: "x = (now, u)" by (cases x)
  let ?u = "u\<lparr>ru_project := p, ru_workspace := w, ru_id := i, ru_expected := n\<rparr>"
  from put have t: "update_tx j now kind ?u db = Inr (v, db')"
    by (auto simp: x put_record_def update_record_def transact_def split: if_splits sum.splits)
  obtain old where c: "get_record p w i db = Inr old" "du_kind old = kind" "du_revision old = n"
    "v = updated_record now ?u old"
    "db' = (replace_row v db)\<lparr>db_revisions := db_revisions db @ [revision_of v]\<rparr>"
    by (rule update_tx_cases [OF t]) simp
  from get_record_Inr [OF c(1)] have old: "old \<in> set (db_records db)" "owned p w old" "du_id old = i"
    by simp_all
  have same: "same_owner old v" unfolding c(4) by (rule updated_same_owner)
  then have v: "owned p w v" "du_id v = i" "du_kind v = kind"
    using old c(2) by (simp_all add: same_owner_def owned_def)
  have "v \<in> set (db_records (replace_row v db))"
    using old v by (auto simp: replace_row_def)
  then have "get_record p w i db' = Inr v"
    unfolding c(5) get_record_append using d v by (intro get_record_intro) simp_all
  moreover have "get_record p w k db' = get_record p w k db" if "k \<noteq> i" for k
    unfolding c(5) get_record_append by (rule get_record_replace_other [OF same]) (simp add: v that)
  moreover have "du_revision v = Suc n" using c(3,4) by (simp add: updated_record_def)
  ultimately show ?thesis using c v by (simp add: record_slot_def)
qed

interpretation sqlite_records: versioned_store "record_slot kind p w" du_revision "put_record j kind p w" ids_distinct
  for j kind p w
  by unfold_locales (blast intro: put_record_inv, blast dest: put_record_fails, rule put_record_succeeds)

section \<open>Reachable databases\<close>

inductive db_reachable :: "json_env \<Rightarrow> record_db \<Rightarrow> bool" for j where
  empty: "db_reachable j empty_db"
| checkpoint: "db_reachable j db \<Longrightarrow> db_reachable j (fst (create_checkpoint j r db))"
| memo: "db_reachable j db \<Longrightarrow> db_reachable j (fst (create_memo j r db))"
| observation: "db_reachable j db \<Longrightarrow> db_reachable j (fst (create_observation j r db))"
| update: "db_reachable j db \<Longrightarrow> now \<noteq> zero_time \<Longrightarrow> db_reachable j (fst (update_record j now kind u db))"
| replace: "db_reachable j db \<Longrightarrow> db_reachable j (fst (replace_memo j q db))"
| import_report: "db_reachable j db \<Longrightarrow> now \<noteq> zero_time \<Longrightarrow>
    db_reachable j (fst (import_verification j now r hash parser db))"
| restore: "db_reachable j db \<Longrightarrow> db_reachable j (fst (restore_records j p w a db))"

lemma db_reachable_inv: "db_reachable j db \<Longrightarrow> db_inv j db"
  by (induction rule: db_reachable.induct)
    (simp_all add: empty_db_inv create_checkpoint_def create_memo_def create_observation_def
      create_inv update_inv replace_inv import_inv restore_inv)

lemma db_inv_ids: "db_inv j db \<Longrightarrow> ids_distinct db"
  by (simp add: db_inv_def records_inv_def ids_distinct_def)


section \<open>A concrete repository\<close>

definition demo_json :: json_env where
  "demo_json = \<lparr>jn_valid = (\<lambda>p. True), jn_extract = (\<lambda>f p. if f = ''topic_key'' then SqlText p else SqlText ''s''),
     jn_texts = (\<lambda>p. [p])\<rparr>"

definition demo_record :: "string \<Rightarrow> string \<Rightarrow> string \<Rightarrow> string \<Rightarrow> string \<Rightarrow> durable" where
  "demo_record i kind writer payload supersedes = \<lparr>du_id = i, du_kind = kind, du_schema_version = ''1'',
     du_project = ''p'', du_workspace = ''w'', du_revision = 1, du_source = ''declared'',
     du_writer_class = writer, du_validity = ''current'', du_created_at = 5, du_updated_at = 5,
     du_payload = payload, du_evidence = [], du_supersedes = supersedes\<rparr>"

definition demo_m1 :: durable where "demo_m1 = demo_record ''m1'' ''memo'' ''intention'' ''t'' []"
definition demo_m2 :: durable where "demo_m2 = demo_record ''m2'' ''memo'' ''intention'' ''t'' ''m1''"
definition demo_v1 :: durable where "demo_v1 = demo_record ''v1'' ''verification'' ''importer'' ''r'' []"

definition demo_db1 :: record_db where "demo_db1 = fst (create_memo demo_json demo_m1 empty_db)"
definition demo_q :: record_replace where
  "demo_q = \<lparr>rr_project = ''p'', rr_workspace = ''w'', rr_old_id = ''m1'', rr_expected = 1, rr_new = demo_m2\<rparr>"
definition demo_db2 :: record_db where "demo_db2 = fst (replace_memo demo_json demo_q demo_db1)"
definition demo_db3 :: record_db where
  "demo_db3 = fst (import_verification demo_json 7 demo_v1 ''h'' ''x'' demo_db2)"

lemma demo_db_reachable:
  "db_reachable demo_json demo_db1" "db_reachable demo_json demo_db2" "db_reachable demo_json demo_db3"
proof -
  show 1: "db_reachable demo_json demo_db1" unfolding demo_db1_def by (intro db_reachable.intros)
  then show 2: "db_reachable demo_json demo_db2" unfolding demo_db2_def by (rule db_reachable.replace)
  then show "db_reachable demo_json demo_db3"
    unfolding demo_db3_def by (rule db_reachable.import_report) (simp add: zero_time_def)
qed

section \<open>Integrity\<close>

text \<open>C3: in every reachable database the stored revisions of a record are exactly 1 to its current
  revision, the newest agrees with the record, and no revision or import receipt is an orphan.\<close>

theorem history_complete:
  assumes "db_reachable j db"
  shows "(\<forall>r \<in> set (db_records db).
      (\<forall>n. (du_id r, n) \<in> rev_key ` set (db_revisions db) \<longleftrightarrow> 1 \<le> n \<and> n \<le> du_revision r) \<and>
      revision_of r \<in> set (db_revisions db)) \<and>
    distinct (map rev_key (db_revisions db)) \<and>
    (\<forall>v \<in> set (db_revisions db). rv_record_id v \<in> set (ids_of db)) \<and>
    (\<forall>x \<in> set (db_imports db). import_ok (db_records db) x)"
  using db_reachable_inv [OF assms]
  by (simp add: db_inv_def history_inv_def imports_inv_def archive_revision_bad_def ids_of_def)

theorem history_complete_witness:
  "(''m1'', 2) \<in> rev_key ` set (db_revisions demo_db3) \<and> (''m1'', 3) \<notin> rev_key ` set (db_revisions demo_db3)"
proof -
  have "\<exists>r \<in> set (db_records demo_db3). du_id r = ''m1'' \<and> du_revision r = 2" by code_simp
  then obtain r where r: "r \<in> set (db_records demo_db3)" "du_id r = ''m1''" "du_revision r = 2" by blast
  have "\<forall>n. (du_id r, n) \<in> rev_key ` set (db_revisions demo_db3) \<longleftrightarrow> 1 \<le> n \<and> n \<le> du_revision r"
    using history_complete [OF demo_db_reachable(3)] r(1) by blast
  then show ?thesis unfolding r(2,3) by simp
qed

lemma no_collision:
  assumes "db_inv j db" "r \<in> set (db_records db)" "r' \<in> set (db_records db)" "r \<noteq> r'"
  shows "\<not> collides j r r'"
proof -
  from assms have "du_id r \<noteq> du_id r'"
    by (metis db_inv_def distinct_map inj_onD records_inv_def)
  with assms show ?thesis by (simp add: db_inv_def records_inv_def)
qed

text \<open>C15: two different records of a reachable database never are current memos of the same topic,
  scope and configuration, and never supersede the same memo: the history of a topic is a chain.\<close>

theorem memo_topics_unique:
  assumes "db_reachable j db" "r \<in> set (db_records db)" "r' \<in> set (db_records db)" "r \<noteq> r'"
    "owned p w r" "owned p w r'" "du_kind r = ''memo''" "du_kind r' = ''memo''"
  shows "\<not> (du_validity r = ''current'' \<and> du_validity r' = ''current'' \<and>
      (\<exists>t. t \<noteq> [] \<and> jn_extract j ''topic_key'' (du_payload r) = SqlText t \<and>
        jn_extract j ''topic_key'' (du_payload r') = SqlText t) \<and>
      (\<forall>f \<in> {''scope'', ''configuration''}. jn_extract j f (du_payload r) \<noteq> SqlNull \<and>
        jn_extract j f (du_payload r) = jn_extract j f (du_payload r'))) \<and>
    \<not> (du_supersedes r \<noteq> [] \<and> du_supersedes r = du_supersedes r')"
  using no_collision [OF db_reachable_inv [OF assms(1)] assms(2-4)] assms(5-8)
  by (auto simp: collides_def topic_slot_def successor_slot_def slot_unique_def owned_def)

theorem memo_topics_unique_witness:
  "\<exists>r \<in> set (db_records demo_db2). \<exists>r' \<in> set (db_records demo_db2). r \<noteq> r' \<and> du_kind r = ''memo'' \<and>
     du_kind r' = ''memo'' \<and> \<not> (du_supersedes r \<noteq> [] \<and> du_supersedes r = du_supersedes r')"
proof -
  let ?old = "superseded_record demo_m2 demo_m1"
  have m: "?old \<in> set (db_records demo_db2)" "demo_m2 \<in> set (db_records demo_db2)" by code_simp+
  have d: "?old \<noteq> demo_m2" by (simp add: superseded_record_def demo_m1_def demo_m2_def demo_record_def)
  have o: "owned ''p'' ''w'' ?old" "owned ''p'' ''w'' demo_m2" "du_kind ?old = ''memo''" "du_kind demo_m2 = ''memo''"
    by (simp_all add: superseded_record_def demo_m1_def demo_m2_def demo_record_def owned_def)
  from memo_topics_unique [OF demo_db_reachable(2) m d o] m d o(3,4) show ?thesis by blast
qed

section \<open>Updates\<close>

text \<open>C4: however many writers race to update a record, the expected revisions of the updates that
  succeed are consecutive: no update is lost, and none is applied to a version its writer did not
  see.\<close>

theorem record_updates_serialize:
  assumes "db_reachable j db" "get_record p w i db = Inr r" "du_kind r = kind"
    "run_updates (put_record j kind p w) ops db = (db', log)"
  shows "\<exists>r'. get_record p w i db' = Inr r' \<and>
    map snd (filter (\<lambda>e. fst e = i) log) = [du_revision r..<du_revision r']"
proof -
  have "record_slot kind p w db i = Some r" using assms(2,3) by (simp add: record_slot_def)
  from sqlite_records.updates_serialize [OF db_inv_ids [OF db_reachable_inv [OF assms(1)]] this assms(4)]
  obtain v where "record_slot kind p w db' i = Some v"
    "map snd (filter (\<lambda>e. fst e = i) log) = [du_revision r..<du_revision v]" by blast
  then show ?thesis by (auto simp: record_slot_def split: sum.splits if_splits)
qed

definition demo_update :: record_update where
  "demo_update = \<lparr>ru_project = [], ru_workspace = [], ru_id = [], ru_expected = 0, ru_payload = ''t'',
     ru_evidence = [], ru_validity = ''current'', ru_supersedes = []\<rparr>"

definition demo_race :: "(string \<times> nat \<times> time \<times> record_update) list" where
  "demo_race = [(''m1'', 1, 9, demo_update), (''m1'', 1, 9, demo_update), (''m1'', 2, 9, demo_update)]"

theorem record_updates_serialize_witness:
  "snd (run_updates (put_record demo_json ''memo'' ''p'' ''w'') demo_race demo_db1) = [(''m1'', 1), (''m1'', 2)] \<and>
   (\<exists>r'. get_record ''p'' ''w'' ''m1'' (fst (run_updates (put_record demo_json ''memo'' ''p'' ''w'') demo_race demo_db1)) = Inr r'
      \<and> [1, 2] = [1..<du_revision r'])"
proof -
  let ?run = "run_updates (put_record demo_json ''memo'' ''p'' ''w'') demo_race demo_db1"
  have l: "snd ?run = [(''m1'', 1), (''m1'', 2)]" by code_simp
  have g: "get_record ''p'' ''w'' ''m1'' demo_db1 = Inr demo_m1" by code_simp
  have k: "du_kind demo_m1 = ''memo''" "du_revision demo_m1 = 1" by (simp_all add: demo_m1_def demo_record_def)
  have "?run = (fst ?run, [(''m1'', 1), (''m1'', 2)])" using l by (metis prod.collapse)
  from record_updates_serialize [OF demo_db_reachable(1) g k(1) this] obtain r' where
    "get_record ''p'' ''w'' ''m1'' (fst ?run) = Inr r'"
    "map snd (filter (\<lambda>e. fst e = ''m1'') [(''m1'', 1), (''m1'', 2)]) = [du_revision demo_m1..<du_revision r']"
    by blast
  then show ?thesis using l k(2) by simp
qed


lemma replace_memo_Inr:
  assumes "replace_memo j q db = (db', Inr r)"
  shows "replace_tx j q db = Inr (r, db')" "rr_old_id q \<noteq> []"
    "du_project (rr_new q) = rr_project q" "du_workspace (rr_new q) = rr_workspace q"
  using assms by (auto simp: replace_memo_def transact_def split: if_splits sum.splits)

lemma replace_memo_effect:
  assumes inv: "db_inv j db" and rep: "replace_memo j q db = (db', Inr r)"
  shows "r = rr_new q \<and> get_record (rr_project q) (rr_workspace q) (du_id r) db' = Inr r \<and>
    (\<exists>old. get_record (rr_project q) (rr_workspace q) (rr_old_id q) db = Inr old \<and>
       du_validity old = ''current'' \<and> du_revision old = rr_expected q \<and>
       get_record (rr_project q) (rr_workspace q) (rr_old_id q) db' = Inr (superseded_record r old))"
proof -
  note g = replace_memo_Inr [OF rep]
  obtain old db2 where c: "get_record (rr_project q) (rr_workspace q) (rr_old_id q) db = Inr old"
    "du_validity old = ''current''" "du_revision old = rr_expected q"
    "db2 = (replace_row (superseded_record (rr_new q) old) db)
       \<lparr>db_revisions := db_revisions db @ [revision_of (superseded_record (rr_new q) old)]\<rparr>"
    "insert_record j (rr_new q) db2 = Inr db'" "r = rr_new q"
    by (rule replace_tx_cases [OF g(1)])
  let ?old = "superseded_record (rr_new q) old"
  from get_record_Inr [OF c(1)] have old: "old \<in> set (db_records db)" "owned (rr_project q) (rr_workspace q) old"
    "du_id old = rr_old_id q" by simp_all
  have id: "du_id ?old = du_id old" "owned (rr_project q) (rr_workspace q) ?old"
    using old by (simp_all add: superseded_record_def owned_def)
  have in2: "?old \<in> set (db_records db2)"
    using old(1) id(1) by (auto simp: c(4) replace_row_def)
  have db': "db_records db' = db_records db2 @ [rr_new q]" using insert_record_cases(3) [OF c(5)] by simp
  have "ids_distinct db'" using replace_tx_inv [OF inv g(1)] by (rule db_inv_ids)
  then have "get_record (rr_project q) (rr_workspace q) (du_id r) db' = Inr r"
    "get_record (rr_project q) (rr_workspace q) (rr_old_id q) db' = Inr ?old"
    using in2 id old(3) g(3,4) c(6) by (auto simp: db' owned_def intro!: get_record_intro)
  with c show ?thesis by auto
qed

text \<open>Replacing a memo hands the topic over atomically: the old memo ends superseded with one
  more revision, the new one is stored, and every later replacement of the old memo is refused.\<close>

theorem replace_memo_hands_over:
  assumes "db_reachable j db" "replace_memo j q db = (db', Inr r)"
  shows "get_record (rr_project q) (rr_workspace q) (du_id (rr_new q)) db' = Inr (rr_new q) \<and>
    (\<exists>old. get_record (rr_project q) (rr_workspace q) (rr_old_id q) db = Inr old \<and>
       du_validity old = ''current'' \<and> du_revision old = rr_expected q \<and>
       get_record (rr_project q) (rr_workspace q) (rr_old_id q) db' = Inr (superseded_record (rr_new q) old)) \<and>
    (\<forall>q2. rr_old_id q2 = rr_old_id q \<and> rr_project q2 = rr_project q \<and> rr_workspace q2 = rr_workspace q \<longrightarrow>
       \<not> is_ok (snd (replace_memo j q2 db')))"
proof -
  note e = replace_memo_effect [OF db_reachable_inv [OF assms(1)] assms(2)]
  from e obtain old where old: "get_record (rr_project q) (rr_workspace q) (rr_old_id q) db' = Inr (superseded_record r old)"
    by blast
  have "\<not> is_ok (snd (replace_memo j q2 db'))"
    if "rr_old_id q2 = rr_old_id q" "rr_project q2 = rr_project q" "rr_workspace q2 = rr_workspace q" for q2
  proof
    assume "is_ok (snd (replace_memo j q2 db'))"
    then obtain db3 r2 where "replace_memo j q2 db' = (db3, Inr r2)"
      by (cases "replace_memo j q2 db'") (auto simp: is_ok_iff)
    from replace_memo_Inr(1) [OF this] obtain o2 where
      "get_record (rr_project q2) (rr_workspace q2) (rr_old_id q2) db' = Inr o2" "du_validity o2 = ''current''"
      by (rule replace_tx_cases)
    with old that show False by (auto simp: superseded_record_def)
  qed
  with e show ?thesis by blast
qed

theorem replace_memo_hands_over_witness:
  "replace_memo demo_json demo_q demo_db1 = (demo_db2, Inr demo_m2) \<and>
   get_record ''p'' ''w'' ''m2'' demo_db2 = Inr demo_m2 \<and> \<not> is_ok (snd (replace_memo demo_json demo_q demo_db2))"
proof -
  have "snd (replace_memo demo_json demo_q demo_db1) = Inr demo_m2" by code_simp
  then have r: "replace_memo demo_json demo_q demo_db1 = (demo_db2, Inr demo_m2)"
    unfolding demo_db2_def by (metis prod.collapse)
  have f: "rr_project demo_q = ''p''" "rr_workspace demo_q = ''w''" "rr_new demo_q = demo_m2"
    "du_id demo_m2 = ''m2''"
    by (simp_all add: demo_q_def demo_m2_def demo_record_def)
  note h = replace_memo_hands_over [OF demo_db_reachable(1) r]
  have "\<not> is_ok (snd (replace_memo demo_json demo_q demo_db2))"
    using conjunct2 [OF conjunct2 [OF h], rule_format, of demo_q] by simp
  with conjunct1 [OF h] r show ?thesis unfolding f by (simp only: simp_thms)
qed

section \<open>Imports\<close>

lemma find_append:
  "find P (xs @ ys) = (case find P xs of None \<Rightarrow> find P ys | Some x \<Rightarrow> Some x)"
  by (induction xs) auto

lemma import_again:
  assumes inv: "db_inv j db" and now: "now \<noteq> zero_time"
    and imp: "import_verification j now r hash parser db = (db', Inr (rec, dup))"
    and r': "du_project r' = du_project r" "du_workspace r' = du_workspace r" "du_kind r' = ''verification''"
      "du_writer_class r' = ''importer''"
  shows "import_verification j now' r' hash parser db' = (db', Inr (rec, True))"
proof -
  from imp have g: "hash \<noteq> []" "parser \<noteq> []" and t: "import_tx j now r hash parser db = Inr ((rec, dup), db')"
    by (auto simp: import_verification_def transact_def split: if_splits sum.splits)
  have "import_tx j now' r' hash parser db' = Inr ((rec, True), db')"
  proof (cases "find_import (du_project r) (du_workspace r) hash parser db")
    case (Some row)
    with t have "db' = db" "get_record (du_project r) (du_workspace r) (rc_record_id (im_receipt row)) db = Inr rec"
      by (auto simp: import_tx_def)
    with Some r' show ?thesis by (simp add: import_tx_def)
  next
    case None
    let ?x = "\<lparr>im_project = du_project r, im_workspace = du_workspace r, im_receipt = \<lparr>rc_source_hash = hash,
       rc_parser_revision = parser, rc_record_id = du_id r, rc_imported_at = now\<rparr>\<rparr>"
    from None t obtain db1 where i: "insert_record j r db = Inr db1" and x: "sql_insert_import ?x db1 = Inr db'"
      and rec: "rec = r" by (auto simp: import_tx_def)
    from x have db': "db' = db1\<lparr>db_imports := db_imports db1 @ [?x]\<rparr>"
      by (auto simp: sql_insert_import_def split: if_splits)
    have "find_import (du_project r) (du_workspace r) hash parser db' = Some ?x"
      using None insert_record_cases(3) [OF i] by (simp add: find_import_def db' find_append)
    moreover have "get_record (du_project r) (du_workspace r) (du_id r) db' = Inr r"
    proof (rule get_record_intro)
      show "ids_distinct db'"
        using db_inv_ids [OF insert_record_inv [OF inv i]] by (simp add: db' ids_distinct_def)
      show "r \<in> set (db_records db')" using insert_record_cases(3) [OF i] by (simp add: db')
    qed (simp_all add: owned_def)
    ultimately show ?thesis using r' rec by (simp add: import_tx_def)
  qed
  then show ?thesis using g r' by (simp add: import_verification_def transact_def)
qed

text \<open>Importing the same report again changes nothing and returns the record of the first
  import, whatever record the second import brought.\<close>

theorem imports_are_idempotent:
  assumes "db_reachable j db" "now \<noteq> zero_time"
    "import_verification j now r hash parser db = (db', Inr (rec, dup))"
    "du_project r' = du_project r" "du_workspace r' = du_workspace r" "du_kind r' = ''verification''"
    "du_writer_class r' = ''importer''"
  shows "import_verification j now' r' hash parser db' = (db', Inr (rec, True))"
  using db_reachable_inv [OF assms(1)] assms(2-7) by (rule import_again)

theorem imports_are_idempotent_witness:
  "import_verification demo_json 7 demo_v1 ''h'' ''x'' demo_db2 = (demo_db3, Inr (demo_v1, False)) \<and>
   import_verification demo_json 8 (demo_v1\<lparr>du_id := ''v2''\<rparr>) ''h'' ''x'' demo_db3 = (demo_db3, Inr (demo_v1, True))"
proof -
  have "snd (import_verification demo_json 7 demo_v1 ''h'' ''x'' demo_db2) = Inr (demo_v1, False)" by code_simp
  then have i: "import_verification demo_json 7 demo_v1 ''h'' ''x'' demo_db2 = (demo_db3, Inr (demo_v1, False))"
    unfolding demo_db3_def by (metis prod.collapse)
  have z: "(7::time) \<noteq> zero_time" by (simp add: zero_time_def)
  have "import_verification demo_json 8 (demo_v1\<lparr>du_id := ''v2''\<rparr>) ''h'' ''x'' demo_db3 = (demo_db3, Inr (demo_v1, True))"
    by (rule imports_are_idempotent [OF demo_db_reachable(2) z i]) (simp_all add: demo_v1_def demo_record_def)
  with i show ?thesis ..
qed

section \<open>Archives\<close>

text \<open>C5: an exported archive passes the validation of a restore, restores into an empty repository
  under any owner, and the restored repository exports the same archive again.\<close>

theorem archive_round_trip:
  assumes "db_reachable j db" "export_records p w limit db = Inr a" "p' \<noteq> []" "w' \<noteq> []"
  shows "\<exists>db'. restore_records j p' w' a empty_db = (db', Inr ()) \<and>
    export_records p' w' limit db' = Inr (a\<lparr>av_records := map (rebase p' w') (av_records a)\<rparr>)"
  using restore_exported [OF db_reachable_inv [OF assms(1)] assms(2-4)]
    export_restored [OF db_reachable_inv [OF assms(1)] assms(2-4)] by blast

theorem archive_round_trip_witness:
  "\<exists>a db'. export_records ''p'' ''w'' 100 demo_db3 = Inr a \<and> length (av_records a) = 3 \<and>
     restore_records demo_json ''p2'' ''w2'' a empty_db = (db', Inr ())"
proof -
  have "case export_records ''p'' ''w'' 100 demo_db3 of Inl _ \<Rightarrow> False | Inr a \<Rightarrow> length (av_records a) = 3"
    by code_simp
  then obtain a where a: "export_records ''p'' ''w'' 100 demo_db3 = Inr a" "length (av_records a) = 3"
    by (auto split: sum.splits)
  have "\<exists>db'. restore_records demo_json ''p2'' ''w2'' a empty_db = (db', Inr ())"
    using archive_round_trip [OF demo_db_reachable(3) a(1), of "''p2''" "''w2''"] by auto
  with a show ?thesis by blast
qed

section \<open>Queries\<close>

definition matching :: "(string \<Rightarrow> string) \<Rightarrow> json_env \<Rightarrow> record_query \<Rightarrow> record_db \<Rightarrow> durable list" where
  "matching lower j q db =
     filter (\<lambda>r. base_match j q r \<and> terms_match j q (query_terms lower q) r) (db_records db)"

lemma query_records_Inr:
  assumes "query_records lower j q db = Inr pg"
  shows "pg = \<lparr>pg_records = take (rq_limit q) (sort_key (query_rank j (query_terms lower q)) (matching lower j q db)),
     pg_matched = length (matching lower j q db), pg_complete = (length (matching lower j q db) \<le> rq_limit q)\<rparr>"
  using assms by (simp add: query_records_def matching_def Let_def split: if_splits)

text \<open>A query page holds the best matches in rank order, counts every match of its owner, and
  is complete exactly when no match was left out.\<close>

theorem query_page_exact:
  assumes "query_records lower j q db = Inr pg"
  shows "pg_matched pg = length (matching lower j q db) \<and>
    length (pg_records pg) = min (rq_limit q) (pg_matched pg) \<and>
    sorted (map (query_rank j (query_terms lower q)) (pg_records pg)) \<and>
    (\<exists>rest. mset (pg_records pg) + mset rest = mset (matching lower j q db) \<and>
       (pg_complete pg \<longleftrightarrow> rest = []) \<and>
       (\<forall>r \<in> set (pg_records pg). \<forall>x \<in> set rest.
          query_rank j (query_terms lower q) r \<le> query_rank j (query_terms lower q) x)) \<and>
    (\<forall>r \<in> set (pg_records pg). owned (rq_project q) (rq_workspace q) r)"
proof -
  let ?k = "query_rank j (query_terms lower q)" let ?m = "matching lower j q db"
  let ?s = "sort_key ?k ?m" let ?n = "rq_limit q"
  note pg = query_records_Inr [OF assms]
  have st: "sorted (map ?k (take ?n ?s) @ map ?k (drop ?n ?s))"
    unfolding map_append [symmetric] append_take_drop_id by simp
  then have 1: "sorted (map ?k (take ?n ?s))" and
    2: "\<forall>r \<in> set (take ?n ?s). \<forall>x \<in> set (drop ?n ?s). ?k r \<le> ?k x"
    unfolding sorted_append by auto
  have 3: "mset (take ?n ?s) + mset (drop ?n ?s) = mset ?m"
    by (simp flip: mset_append)
  have 4: "length ?m \<le> ?n \<longleftrightarrow> drop ?n ?s = []" by simp
  have "\<forall>r \<in> set ?m. owned (rq_project q) (rq_workspace q) r"
    by (simp add: matching_def base_match_def)
  then have 5: "\<forall>r \<in> set (take ?n ?s). owned (rq_project q) (rq_workspace q) r"
    using set_take_subset [of ?n ?s] by auto
  have 6: "length (take ?n ?s) = min ?n (length ?m)" by simp
  show ?thesis unfolding pg record_page.select_convs
    by (intro conjI exI [of _ "drop ?n ?s"] refl 1 2 3 4 5) (simp add: min.commute)
qed

definition demo_record_query :: record_query where
  "demo_record_query = \<lparr>rq_project = ''p'', rq_workspace = ''w'', rq_kind = ''memo'', rq_validity = [], rq_source = [],
     rq_updated_after = zero_time, rq_updated_before = zero_time, rq_topic_key = [], rq_scope = [],
     rq_configuration = [], rq_supersedes = [], rq_terms = [''M1'', ''t''], rq_match_all = False, rq_limit = 1\<rparr>"

theorem query_page_exact_witness:
  "\<exists>pg. query_records sql_lower demo_json demo_record_query demo_db3 = Inr pg \<and> pg_matched pg = 2 \<and>
     length (pg_records pg) = 1 \<and> \<not> pg_complete pg"
proof -
  have "case query_records sql_lower demo_json demo_record_query demo_db3 of Inl _ \<Rightarrow> False
      | Inr pg \<Rightarrow> pg_matched pg = 2 \<and> \<not> pg_complete pg" by code_simp
  then obtain pg where pg: "query_records sql_lower demo_json demo_record_query demo_db3 = Inr pg" "pg_matched pg = 2"
    "\<not> pg_complete pg" by (auto split: sum.splits)
  from query_page_exact [OF pg(1)] pg(2) have "length (pg_records pg) = 1" by (simp add: demo_record_query_def)
  with pg show ?thesis by blast
qed


definition upper_a :: string where "upper_a = [CHR 0xC3, CHR 0x84]"
definition lower_a :: string where "lower_a = [CHR 0xC3, CHR 0xA4]"

text \<open>Search terms are folded by \<open>strings.ToLower\<close> but the stored texts by SQLite's ASCII-only
  \<open>lower\<close>: a record whose text is a capital A with diaeresis is not found by that very text.\<close>

theorem non_ascii_terms_miss:
  assumes "lower upper_a = lower_a" "jn_texts j (du_payload r) = [upper_a]"
  shows "\<not> payload_match j (lower (trim_space upper_a)) r"
proof -
  have t: "trim_space upper_a = upper_a" by code_simp
  have "sql_lower upper_a = upper_a" by code_simp
  moreover have "\<not> contains_str upper_a lower_a" by code_simp
  ultimately show ?thesis using assms by (simp add: payload_match_def t)
qed

theorem non_ascii_terms_miss_witness:
  "\<not> payload_match demo_json (id lower_a) (demo_m1\<lparr>du_payload := upper_a\<rparr>)"
proof -
  have "(\<lambda>s. if s = upper_a then lower_a else s) upper_a = lower_a" by simp
  moreover have "jn_texts demo_json (du_payload (demo_m1\<lparr>du_payload := upper_a\<rparr>)) = [upper_a]"
    by (simp add: demo_json_def)
  moreover have "trim_space upper_a = upper_a" by code_simp
  ultimately show ?thesis
    using non_ascii_terms_miss [of "\<lambda>s. if s = upper_a then lower_a else s" demo_json "demo_m1\<lparr>du_payload := upper_a\<rparr>"]
    by simp
qed

end
