(* ===== verification/RecordPromises.thy ===== *)
theory RecordPromises
  imports RecordMemos RecordQueries RecordImport RecordProperties
begin

text \<open>
  What the records service promises: imports, cache qualifications, partial updates and the identity of
  memos, lists of records, and that every write is a step of the repository.
\<close>

section \<open>Imported verifications\<close>

lemma int_length_filter_all: "length (filter P xs) = length xs \<longleftrightarrow> (\<forall>x \<in> set xs. P x)"
  by (metis filter_True length_filter_less less_irrefl)

lemma parse_report_faultless:
  "parse_report decode data = Inr r \<longleftrightarrow> decode data = Some r \<and> (\<forall>b \<in> set (report_faults r). \<not> b)"
  by (auto simp: parse_report_def list_ex_iff split: option.splits if_splits)

lemma statuses_partition:
  assumes "\<forall>c \<in> set cs. snd c \<in> {''passed'', ''failed'', ''unknown''}"
  shows "length cs = length (filter (\<lambda>c. snd c = ''passed'') cs) + length (filter (\<lambda>c. snd c = ''failed'') cs) +
    length (filter (\<lambda>c. snd c = ''unknown'') cs)"
  using assms by (induction cs) auto

lemma parsed_counts:
  assumes "parse_report decode data = Inr r"
  shows "counted r ''passed'' = actual_count r ''passed'' \<and> counted r ''failed'' = actual_count r ''failed'' \<and>
    counted r ''unknown'' = actual_count r ''unknown'' \<and>
    int (length (kr_checks r)) = actual_count r ''passed'' + actual_count r ''failed'' + actual_count r ''unknown''"
proof -
  have f: "\<forall>b \<in> set (report_faults r). \<not> b" using assms parse_report_faultless by blast
  have "\<forall>c \<in> set (kr_checks r). snd c \<in> {''passed'', ''failed'', ''unknown''}"
    using f by (fastforce simp: report_faults_def list_ex_iff check_statuses_def List.member_iff)
  from statuses_partition [OF this] f show ?thesis
    by (simp add: report_faults_def check_statuses_def actual_count_def)
qed

text \<open>A report that parses is counted as passed for a checklist exactly when its status is passed and it ran at
  least the required number of checks; then every check in it passed and nothing was cut off.\<close>

theorem passed_outcome_exact:
  assumes "parse_report decode data = Inr r" "0 < kl_minimum c"
  shows "(verification_outcome r c = ''passed'' \<longleftrightarrow> kr_status r = ''passed'' \<and> kl_minimum c \<le> length (kr_checks r)) \<and>
    (verification_outcome r c = ''passed'' \<longrightarrow> \<not> kr_truncated r \<and> (\<forall>check \<in> set (kr_checks r). snd check = ''passed''))"
proof -
  have f: "\<forall>b \<in> set (report_faults r). \<not> b" using assms(1) parse_report_faultless by blast
  have passed: "\<not> kr_truncated r" "actual_count r ''failed'' = 0" "actual_count r ''unknown'' = 0" "kr_checks r \<noteq> []"
    if "kr_status r = ''passed''"
    using f that by (simp_all add: report_faults_def)
  note n = parsed_counts [OF assms(1)]
  have all: "\<forall>check \<in> set (kr_checks r). snd check = ''passed''" if "kr_status r = ''passed''"
  proof -
    have "length (filter (\<lambda>c. snd c = ''passed'') (kr_checks r)) = length (kr_checks r)"
      using n passed(2,3) [OF that] by (simp add: actual_count_def)
    then show ?thesis by (simp only: int_length_filter_all)
  qed
  have only: "kr_status r = ''passed''" if "verification_outcome r c = ''passed''"
    using that by (simp add: verification_outcome_def Let_def split: if_splits)
  have iff: "verification_outcome r c = ''passed'' \<longleftrightarrow> kl_minimum c \<le> length (kr_checks r)" if s: "kr_status r = ''passed''"
    using n passed [OF s] s by (simp add: verification_outcome_def Let_def)
  show ?thesis using only iff passed(1) all by blast
qed

text \<open>The validity an import stores is the validity a later read of the stored payload computes for the same
  observation of the working tree.\<close>

theorem imported_validity_reproducible:
  "validity_from_payload (verification_payload r c report_hash checklist_hash q) current = import_validity r current"
  by (cases "kr_dirty r")
    (auto simp: validity_from_payload_def verification_payload_def import_validity_def text_member_def)

section \<open>Cache qualifications\<close>

lemma take_refs_all:
  "take_refs f cs = (rs, True) \<Longrightarrow> map Some rs = map f cs"
proof (induction cs arbitrary: rs)
  case (Cons c cs)
  then obtain r rs' where "f c = Some r" "take_refs f cs = (rs', True)" "rs = r # rs'"
    by (auto split: option.splits prod.splits)
  with Cons.IH show ?case by simp
qed simp

lemma find_records_in:
  assumes "find_records env q db = Inr page" "r \<in> set (pg_records page)"
  shows "r \<in> set (db_records db) \<and> base_match (xe_json env) q r"
proof -
  from assms(1) obtain terms where "pg_records page = take (rq_limit q) (sort_key (query_rank (xe_json env) terms)
      (filter (\<lambda>r. base_match (xe_json env) q r \<and> terms_match (xe_json env) q terms r) (db_records db)))"
    by (auto simp: find_records_def query_records_def Let_def split: if_splits)
  with assms(2) show ?thesis by (auto dest: in_set_takeD)
qed

lemma validity_current:
  "validity_from_payload m o1 = ''current'' \<Longrightarrow> ob_observed o1 \<and> \<not> ob_dirty o1 \<and> ob_commit o1 \<noteq> [] \<and>
     (\<exists>subject. map_of m ''subject'' = Some (JObject subject) \<and> text_member subject ''git_commit'' = ob_commit o1 \<and>
        map_of subject ''dirty'' = Some (JBool False)) \<and> map_of m ''truncated'' \<noteq> Some (JBool True)"
  by (auto simp: validity_from_payload_def Let_def split: option.splits json.splits if_splits)

definition current_pass :: "records_env \<Rightarrow> string \<Rightarrow> string \<Rightarrow> string \<Rightarrow> durable \<Rightarrow> bool" where
  "current_pass env capability configuration check r \<longleftrightarrow>
     du_kind r = ''verification'' \<and> owned (xe_id env) (xe_id env) r \<and>
     (\<exists>m subject. xe_object env (du_payload r) = Inr (Some m) \<and> map_of m ''outcome'' = Some (JString ''passed'') \<and>
        map_of m ''check_id'' = Some (JString check) \<and> map_of m ''capability'' = Some (JString capability) \<and>
        map_of m ''configuration'' = Some (JString configuration) \<and> map_of m ''subject'' = Some (JObject subject) \<and>
        map_of subject ''git_commit'' = Some (JString (ob_commit (observe_subject env))) \<and>
        map_of subject ''dirty'' = Some (JBool False))"

lemma text_member_nonempty: "text_member m k = s \<Longrightarrow> s \<noteq> [] \<Longrightarrow> map_of m k = Some (JString s)"
  by (auto simp: text_member_def split: option.splits json.splits)

lemma qualification_sound:
  assumes "qualification env capability configuration (observe_subject env) rs check = Some ref" "check \<noteq> []"
    "capability \<noteq> []" "configuration \<noteq> []" "\<forall>r \<in> set rs. du_kind r = ''verification'' \<and> owned (xe_id env) (xe_id env) r"
  shows "\<exists>r \<in> set rs. ref = ''record:'' @ du_id r \<and> current_pass env capability configuration check r"
proof -
  let ?o = "observe_subject env"
  from assms(1) obtain r where r: "find (\<lambda>r. case xe_object env (du_payload r) of
            Inl _ \<Rightarrow> False
          | Inr p \<Rightarrow> validity_from_payload (members p) ?o = ''current'' \<and> qualifies capability configuration check (members p)) rs =
      Some r" "ref = ''record:'' @ du_id r"
    by (auto simp: qualification_def)
  from find_Some_in [OF r(1)] obtain p where p: "r \<in> set rs" "xe_object env (du_payload r) = Inr p"
    "validity_from_payload (members p) ?o = ''current''" "qualifies capability configuration check (members p)"
    by (auto split: sum.splits)
  from validity_current [OF p(3)] obtain subject where s: "ob_commit ?o \<noteq> []"
    "map_of (members p) ''subject'' = Some (JObject subject)" "text_member subject ''git_commit'' = ob_commit ?o"
    "map_of subject ''dirty'' = Some (JBool False)" by blast
  have m: "map_of (members p) ''outcome'' = Some (JString ''passed'')" "map_of (members p) ''check_id'' = Some (JString check)"
    "map_of (members p) ''capability'' = Some (JString capability)"
    "map_of (members p) ''configuration'' = Some (JString configuration)"
    using p(4) assms(2-4) by (simp_all add: qualifies_def text_member_nonempty)
  then obtain m where "p = Some m" by (cases p) (simp_all add: members_def)
  with p m s text_member_nonempty [OF s(3,1)] assms(5) have "current_pass env capability configuration check r"
    unfolding current_pass_def by (simp add: members_def)
  with p(1) r(2) show ?thesis by blast
qed

lemma qualifications_hold:
  assumes "resolve_cache_qualifications env capability configuration checks db = Inr (refs, True)"
  shows "length refs = length checks \<and> ob_observed (observe_subject env) \<and> \<not> ob_dirty (observe_subject env) \<and>
    (\<forall>i < length checks. checks ! i \<noteq> [] \<longrightarrow> (\<exists>r \<in> set (db_records db). refs ! i = ''record:'' @ du_id r \<and>
       current_pass env capability configuration (checks ! i) r))"
proof -
  let ?o = "observe_subject env"
  from assms(1) obtain page where ne: "capability \<noteq> []" "configuration \<noteq> []" "checks \<noteq> []"
    and page: "find_records env ((all_records env)\<lparr>rq_kind := ''verification''\<rparr>) db = Inr page"
    and refs: "take_refs (qualification env capability configuration ?o (pg_records page)) checks = (refs, True)"
    by (auto simp: resolve_cache_qualifications_def split: if_splits)
  from take_refs_all [OF refs] have map: "map Some refs = map (qualification env capability configuration ?o (pg_records page)) checks" .
  have len: "length refs = length checks" using arg_cong [OF map, of length] by simp
  have kind: "du_kind r = ''verification'' \<and> owned (xe_id env) (xe_id env) r \<and> r \<in> set (db_records db)" if "r \<in> set (pg_records page)" for r
    using find_records_in [OF page that] by (simp add: base_match_def column_filter_def all_records_def)
  have each: "\<exists>r \<in> set (pg_records page). refs ! i = ''record:'' @ du_id r \<and> current_pass env capability configuration (checks ! i) r"
    if "i < length checks" "checks ! i \<noteq> []" for i
  proof (rule qualification_sound)
    show "qualification env capability configuration ?o (pg_records page) (checks ! i) = Some (refs ! i)"
      using arg_cong [OF map, of "\<lambda>xs. xs ! i"] that(1) len by simp
  qed (use ne kind that in auto)
  have "ob_observed ?o \<and> \<not> ob_dirty ?o"
  proof -
    obtain c cs where "checks = c # cs" using ne(3) by (cases checks) auto
    with map obtain ref where "qualification env capability configuration ?o (pg_records page) c = Some ref"
      by (cases refs) (auto dest: sym)
    then obtain r where "find (\<lambda>r. case xe_object env (du_payload r) of Inl _ \<Rightarrow> False
          | Inr p \<Rightarrow> validity_from_payload (members p) ?o = ''current'' \<and>
              qualifies capability configuration c (members p)) (pg_records page) = Some r"
      by (auto simp: qualification_def)
    from find_Some_in [OF this] obtain p where "validity_from_payload (members p) ?o = ''current''" by (auto split: sum.splits)
    then show ?thesis using validity_current by blast
  qed
  with len each kind show ?thesis by blast
qed

text \<open>C18: the runner is only told that a cached result is qualified when every requested check has a verification
  record of this workspace that passed, for this capability and configuration, on the clean commit that is
  checked out now.\<close>

theorem qualifications_are_current_passes:
  assumes "resolve_cache_qualifications env capability configuration checks db = Inr (refs, True)" "[] \<notin> set checks"
  shows "length refs = length checks \<and> ob_observed (observe_subject env) \<and> \<not> ob_dirty (observe_subject env) \<and>
    (\<forall>i < length checks. \<exists>r \<in> set (db_records db). refs ! i = ''record:'' @ du_id r \<and>
       current_pass env capability configuration (checks ! i) r)"
  using qualifications_hold [OF assms(1)] assms(2) by (metis nth_mem)

section \<open>Writes are steps of the repository\<close>

lemma stored_fst [simp]: "fst (stored out) = fst out"
  by (cases out; cases "snd out") (auto simp: stored_def)

lemma answer_fst [simp]: "fst (answer env view out) = fst out"
  by (cases out; cases "snd out") (auto simp: answer_def)

lemma mutate_reachable:
  assumes "db_reachable (xe_json env) db" "later \<noteq> zero_time"
  shows "db_reachable (xe_json env) (fst (mutate env now later k kind schema source mode i expected payload evidence db))"
proof (cases "mode = ''create''")
  case True
  then show ?thesis
    by (simp add: mutate_def Let_def db_reachable.checkpoint [OF assms(1)] db_reachable.memo [OF assms(1)])
next
  case False
  then show ?thesis
    by (cases "get_record (xe_id env) (xe_id env) i db") (simp_all add: mutate_def assms(1) db_reachable.update [OF assms])
qed

lemma store_memo_reachable:
  assumes "db_reachable (xe_json env) db" "later \<noteq> zero_time"
  shows "db_reachable (xe_json env) (fst (store_memo env now later k q payload db))"
  using mutate_reachable [OF assms] assms(1) by (auto simp: store_memo_def intro: db_reachable.intros)

lemma write_memo_db:
  "fst (write_memo env now later k race raw db) =
    (case memo_request_checked env raw db of
       Inl _ \<Rightarrow> db
     | Inr (q, payload) \<Rightarrow> (case topic_check env q db of
           Inl _ \<Rightarrow> db | Inr _ \<Rightarrow> fst (store_memo env now later k q payload (race db))))"
proof (cases "memo_request_checked env raw db")
  case (Inr x)
  obtain q payload where x: "x = (q, payload)" by (cases x)
  obtain d r where out: "store_memo env now later k q payload (race db) = (d, r)" by (rule prod.exhaust)
  show ?thesis
    unfolding write_memo_def Inr x sum.case prod.case out Let_def
    by (cases "topic_check env q db"; cases r) simp_all
qed (simp add: write_memo_def)

lemma import_reachable:
  assumes "db_reachable (xe_json env) db" "later \<noteq> zero_time"
  shows "db_reachable (xe_json env) (fst (import_report env ie now later k q db))"
proof (cases "prepared_import env ie now k q")
  case (Inr x)
  obtain r identity where x: "x = (r, identity)" by (cases x)
  let ?out = "stored (import_verification (xe_json env) later r identity ''check-report.v1-parser.1'' db)"
  obtain d y where out: "?out = (d, y)" by (rule prod.exhaust)
  have "fst (import_report env ie now later k q db) = fst ?out"
    unfolding import_report_def Inr x sum.case prod.case out by (cases y) auto
  with db_reachable.import_report [OF assms] show ?thesis by simp
qed (use assms(1) in \<open>simp add: import_report_def\<close>)

section \<open>Partial updates\<close>

lemma put_all_lookup: "distinct (map fst kvs) \<Longrightarrow> map_of (put_all kvs m) k = (case map_of kvs k of Some v \<Rightarrow> Some v | None \<Rightarrow> map_of m k)"
proof (induction kvs arbitrary: m)
  case Nil
  show ?case by (simp add: put_all_def)
next
  case (Cons x kvs)
  obtain a b where x: "x = (a, b)" by (cases x)
  from Cons.prems x have "map_of kvs a = None" by (simp add: map_of_eq_None_iff)
  with Cons.IH [of "map_put a b m"] Cons.prems x show ?case
    by (auto simp: put_all_def split: option.splits)
qed

lemma put_all_wf: "wf_map m \<Longrightarrow> wf_map (put_all kvs m)"
  unfolding put_all_def by (induction kvs arbitrary: m) auto

text \<open>Members that are present under a condition.\<close>

definition optional :: "(bool \<times> string \<times> json) list \<Rightarrow> (string, json) gomap" where
  "optional ms = concat (map (\<lambda>(b, k, v). if b then [(k, v)] else []) ms)"

lemma optional_simps [simp]: "optional [] = []" "optional ((b, k, v) # ms) = (if b then [(k, v)] else []) @ optional ms"
  by (simp_all add: optional_def)

lemma optional_keys: "fst ` set (optional ms) \<subseteq> set (map (\<lambda>(b, k, v). k) ms)"
  by (force simp: optional_def split: if_splits)

lemma optional_wf: "distinct (map (\<lambda>(b, k, v). k) ms) \<Longrightarrow> wf_map (optional ms)"
proof (induction ms)
  case (Cons m ms)
  obtain b k v where m: "m = (b, k, v)" by (cases m)
  from Cons.prems m have "k \<notin> set (map (\<lambda>(b, k, v). k) ms)" by simp
  with optional_keys [of ms] have "k \<notin> fst ` set (optional ms)" by blast
  moreover have "wf_map (optional ms)" using Cons by simp
  ultimately show ?case by (simp add: m wf_map_def)
qed simp

lemma optional_lookup:
  assumes "distinct (map (\<lambda>(b, k, v). k) ms)" "(b, k, v) \<in> set ms"
  shows "map_of (optional ms) k = (if b then Some v else None)"
  using assms
proof (induction ms)
  case (Cons m ms)
  obtain b' k' v' where m: "m = (b', k', v')" by (cases m)
  show ?case
  proof (cases "m = (b, k, v)")
    case True
    with Cons.prems(1) have "k \<notin> set (map (\<lambda>(b, k, v). k) ms)" by simp
    with optional_keys [of ms] have "k \<notin> fst ` set (optional ms)" by blast
    then have "map_of (optional ms) k = None" by (simp add: map_of_eq_None_iff)
    with True show ?thesis by simp
  next
    case False
    with Cons.prems have i: "(b, k, v) \<in> set ms" "distinct (map (\<lambda>(b, k, v). k) ms)" by auto
    have "k' \<noteq> k" using i(1) Cons.prems(1) m by force
    with m Cons.IH [OF i(2,1)] show ?thesis by simp
  qed
qed simp

definition memo_members :: "memo_request \<Rightarrow> (bool \<times> string \<times> json) list" where
  "memo_members q =
     [(True, ''mode'', JString (mq_mode q)), (mq_id q \<noteq> [], ''id'', JString (mq_id q)),
      (mq_expected q \<noteq> 0, ''expected_revision'', JNumber (itoa (mq_expected q))),
      (mq_supersedes q \<noteq> [], ''supersedes'', JString (mq_supersedes q)), (mq_kind q \<noteq> [], ''memo_kind'', JString (mq_kind q)),
      (mq_scope q \<noteq> [], ''scope'', JString (mq_scope q)), (mq_configuration q \<noteq> [], ''configuration'', JString (mq_configuration q)),
      (mq_topic_key q \<noteq> [], ''topic_key'', JString (mq_topic_key q)), (mq_title q \<noteq> [], ''title'', JString (mq_title q)),
      (mq_summary q \<noteq> [], ''summary'', JString (mq_summary q)),
      (mq_temporal_kind q \<noteq> [], ''temporal_kind'', JString (mq_temporal_kind q)),
      (mq_as_of q \<noteq> [], ''as_of'', JString (mq_as_of q)), (mq_content q \<noteq> [], ''content'', JString (mq_content q)),
      (mq_host q \<noteq> None, ''host'', host_json (the (mq_host q))),
      (mq_invalidation q \<noteq> [], ''invalidation_condition'', JString (mq_invalidation q)),
      (mq_source q \<noteq> [], ''source'', JString (mq_source q)),
      (non_nil (mq_evidence q) \<noteq> [], ''evidence_refs'', json_strings (non_nil (mq_evidence q))),
      (mq_view q \<noteq> [], ''response_view'', JString (mq_view q))]"

lemma some_pieces:
  "some_text k s = optional [(s \<noteq> [], k, JString s)]"
  "some_list k xs = optional [(non_nil xs \<noteq> [], k, json_strings (non_nil xs))]"
  "(if c then [] else [(k, v)]) = optional [(\<not> c, k, v)]"
  "(case h of None \<Rightarrow> [] | Some x \<Rightarrow> [(k, g x)]) = optional [(h \<noteq> None, k, g (the h))]"
  by (simp_all add: some_text_def some_list_def split: option.split)

lemma optional_append: "optional ms @ optional ns = optional (ms @ ns)"
  by (simp add: optional_def)

lemma memo_json_members: "memo_json q = optional (memo_members q)"
proof -
  have "[(''mode'', JString (mq_mode q))] = optional [(True, ''mode'', JString (mq_mode q))]" by simp
  then show ?thesis unfolding memo_json_def memo_members_def some_pieces by (simp only: optional_append append.simps append_Nil)
qed

lemma memo_members_distinct: "distinct (map (\<lambda>(b, k, v). k) (memo_members q))"
  unfolding memo_members_def list.map prod.case by simp

lemma memo_json_wf: "wf_map (memo_json q)"
  unfolding memo_json_members by (rule optional_wf [OF memo_members_distinct])

definition memo_texts :: "(string \<times> (memo_request \<Rightarrow> string)) list" where
  "memo_texts = [(''memo_kind'', mq_kind), (''scope'', mq_scope), (''configuration'', mq_configuration),
     (''topic_key'', mq_topic_key), (''title'', mq_title), (''summary'', mq_summary),
     (''temporal_kind'', mq_temporal_kind), (''as_of'', mq_as_of), (''content'', mq_content),
     (''invalidation_condition'', mq_invalidation)]"

lemma memo_json_text:
  assumes "(k, f) \<in> set memo_texts"
  shows "map_of (memo_json q) k = (if f q = [] then None else Some (JString (f q)))"
proof -
  have "list_all (\<lambda>(k, f). (f q \<noteq> [], k, JString (f q)) \<in> set (memo_members q)) memo_texts"
    by (simp add: memo_texts_def memo_members_def)
  with assms have "(f q \<noteq> [], k, JString (f q)) \<in> set (memo_members q)" by (auto simp: list_all_iff)
  from optional_lookup [OF memo_members_distinct this] show ?thesis by (simp add: memo_json_members)
qed

lemma memo_of_json_text:
  assumes "memo_of_json m = Inr q" "(k, f) \<in> set memo_texts"
  shows "text_field m k = Inr (f q)"
proof -
  have "list_all (\<lambda>(k, f). text_field m k = Inr (f q)) memo_texts"
    using assms(1) by (auto simp: memo_of_json_def memo_texts_def)
  with assms(2) show ?thesis by (auto simp: list_all_iff)
qed

lemma memo_patch_text:
  assumes "(k, f) \<in> set memo_texts" "wf_map (mq_present q)"
  shows "map_of (memo_patch q) k = (case map_of (mq_present q) k of Some v \<Rightarrow> Some v
    | None \<Rightarrow> if f q = [] then None else Some (JString (f q)))"
proof -
  have "list_all (\<lambda>(k, f). k \<noteq> ''evidence_refs'') memo_texts" by (simp add: memo_texts_def)
  with assms(1) have k: "k \<noteq> ''evidence_refs''" by (auto simp: list_all_iff)
  have "map_of (memo_patch q) k = map_of (put_all (mq_present q) (memo_json q)) k"
    using k by (cases "mq_evidence q") (simp_all add: memo_patch_def update_patch_def put_all_def map_filter_simps)
  with put_all_lookup [of "mq_present q" "memo_json q" k] assms(2) memo_json_text [OF assms(1), of q] show ?thesis
    by (simp add: wf_map_def split: option.split)
qed

lemma memo_patch_wf: "wf_map (memo_patch q)"
  unfolding memo_patch_def update_patch_def by (intro put_all_wf memo_json_wf)

lemma text_field_cong: "map_of m k = map_of n k \<Longrightarrow> text_field m k = text_field n k"
  by (simp add: text_field_def)

text \<open>An update of a memo is partial: after the merge every text field is the one on the wire when the request
  mentions it, otherwise the one a Go caller set, and otherwise what the stored record says.\<close>

theorem memo_update_is_partial:
  assumes "merge_record_update (stored_object env) memo_of_json current (memo_patch q) = Inr m"
    "stored_object env (du_payload current) = Some base" "wf_map (mq_present q)" "(k, f) \<in> set memo_texts"
  shows "(case map_of (mq_present q) k of
      Some v \<Rightarrow> text_field [(k, v)] k = Inr (f m)
    | None \<Rightarrow> if f q \<noteq> [] then f m = f q else text_field base k = Inr (f m))"
proof -
  have "list_all (\<lambda>(k, f). k \<noteq> ''evidence_refs'' \<and> k \<noteq> ''source'') memo_texts" by (simp add: memo_texts_def)
  with assms(4) have k: "k \<noteq> ''evidence_refs''" "k \<noteq> ''source''" by (auto simp: list_all_iff)
  from assms(1,2) have m: "memo_of_json (merged_object current (memo_patch q) base) = Inr m"
    by (simp add: merge_record_update_def split: sum.splits)
  have "map_of (merged_object current (memo_patch q) base) k =
      (case map_of (memo_patch q) k of Some v \<Rightarrow> Some v | None \<Rightarrow> map_of base k)"
    using put_all_lookup [of "memo_patch q" _ k] memo_patch_wf [of q] k
    by (simp add: merged_object_def wf_map_def split: option.split)
  moreover have "text_field (merged_object current (memo_patch q) base) k = Inr (f m)"
    by (rule memo_of_json_text [OF m assms(4)])
  ultimately show ?thesis
    using memo_patch_text [OF assms(4,3)] by (cases "map_of (mq_present q) k") (auto simp: text_field_def)
qed

section \<open>Identity of memos\<close>

lemma update_result:
  assumes "ids_distinct db" "update_record j now kind u db = (db', Inr r)"
  shows "\<exists>old. get_record (ru_project u) (ru_workspace u) (ru_id u) db = Inr old \<and> du_kind old = kind \<and>
    du_revision old = ru_expected u \<and> r = updated_record now u old \<and>
    get_record (ru_project u) (ru_workspace u) (ru_id u) db' = Inr r"
proof -
  let ?p = "ru_project u" and ?w = "ru_workspace u" and ?i = "ru_id u"
  have "put_record j kind ?p ?w ?i (ru_expected u) (now, u) db = (db', Inr r)"
    using assms(2) by (simp add: put_record_def)
  from put_record_succeeds [OF assms(1) this] have g: "get_record ?p ?w ?i db' = Inr r"
    by (auto simp: record_slot_def split: sum.splits if_splits)
  from assms(2) have "update_tx j now kind u db = Inr (r, db')"
    by (auto simp: update_record_def transact_def split: if_splits sum.splits)
  then show ?thesis by (rule update_tx_cases) (use g in blast)
qed

lemma mutate_update:
  assumes "ids_distinct db" "mutate env now later k kind schema source ''update'' i expected payload evidence db = (db', Inr r)"
  shows "\<exists>old. get_record (xe_id env) (xe_id env) i db = Inr old \<and> get_record (xe_id env) (xe_id env) i db' = Inr r \<and>
    r = old\<lparr>du_revision := Suc expected, du_updated_at := later, du_payload := payload, du_evidence := evidence,
      du_validity := ''current''\<rparr>"
proof -
  let ?g = "get_record (xe_id env) (xe_id env) i db"
  from assms(2) obtain cur where cur: "?g = Inr cur" by (cases ?g) (simp_all add: mutate_def)
  let ?u = "\<lparr>ru_project = xe_id env, ru_workspace = xe_id env, ru_id = i, ru_expected = expected, ru_payload = payload,
    ru_evidence = evidence, ru_validity = ''current'', ru_supersedes = du_supersedes cur\<rparr>"
  obtain d y where out: "update_record (xe_json env) later kind ?u db = (d, y)" by (rule prod.exhaust)
  from assms(2) cur out have "y = Inr r" "d = db'"
    by (auto simp: mutate_def stored_def split: if_splits sum.splits)
  with out have "update_record (xe_json env) later kind ?u db = (db', Inr r)" by simp
  from update_result [OF assms(1) this] cur show ?thesis by (auto simp: updated_record_def)
qed

lemma identity_check_ok:
  assumes "identity_check env old c = Inr u"
  shows "du_schema_version old = memo_schema c \<and> du_source old = mq_source c \<and>
    (\<exists>p. xe_object env (du_payload old) = Inr p \<and> text_member (members p) ''memo_kind'' = mq_kind c \<and>
       (memo_schema c = ''memo.v3'' \<longrightarrow> text_field (members p) ''scope'' = Inr (mq_scope c) \<and>
          text_field (members p) ''configuration'' = Inr (mq_configuration c) \<and>
          text_field (members p) ''topic_key'' = Inr (mq_topic_key c)))"
proof -
  have same: "text_field m k = Inr s \<and> same_identity m xs = Inr u" if "same_identity m ((k, s) # xs) = Inr u" for m k s xs
    using that by (auto simp: text_field_def split: option.splits json.splits if_splits)
  from assms obtain p where p: "xe_object env (du_payload old) = Inr p" "du_schema_version old = memo_schema c"
    "text_member (members p) ''memo_kind'' = mq_kind c" "du_source old = mq_source c"
    and v3: "memo_schema c = ''memo.v3'' \<longrightarrow> same_identity (members p) [(''scope'', mq_scope c), (''configuration'', mq_configuration c),
      (''topic_key'', mq_topic_key c)] = Inr u"
    by (cases "xe_object env (du_payload old)") (auto simp: identity_check_def split: if_splits)
  then show ?thesis using same by blast
qed

text \<open>The fields of the wire that steer an update are those of the request.\<close>

definition wire_consistent :: "memo_request \<Rightarrow> bool" where
  "wire_consistent q \<longleftrightarrow> wf_map (mq_present q) \<and>
     (\<forall>k \<in> {''mode'', ''id''}. map_of (mq_present q) k = None \<or> map_of (mq_present q) k = map_of (memo_json q) k)"

lemma merge_Inr:
  "merge_record_update decode read current patch = Inr q \<longleftrightarrow>
    (\<exists>base. decode (du_payload current) = Some base \<and> read (merged_object current patch base) = Inr q)"
proof (cases "decode (du_payload current)")
  case (Some base)
  then show ?thesis by (cases "read (merged_object current patch base)") (auto simp: merge_record_update_def)
qed (simp add: merge_record_update_def)

lemma checked_update:
  assumes "memo_request_checked env raw db = Inr (c, payload)" "mq_mode raw = ''update''" "wire_consistent raw"
  shows "\<exists>old u. get_record (xe_id env) (xe_id env) (mq_id raw) db = Inr old \<and> mq_mode c = ''update'' \<and> mq_id c = mq_id raw \<and>
    identity_check env old c = Inr u \<and> payload = xe_marshal env (memo_payload c)"
proof -
  from assms(1) obtain m cur where m: "merged_memo env raw db = Inr (m, cur)" by (cases "merged_memo env raw db") (auto simp: memo_request_checked_def)
  from m assms(2) obtain old base where old: "record_for_update (xe_id env) (xe_id env) ''memo'' (mq_id raw) (mq_expected raw) db = Inr old"
    "memo_of_json (merged_object old (memo_patch raw) base) = Inr m" "cur = Some old"
    by (auto simp: merged_memo_def merge_Inr)
  have id: "mq_id raw \<noteq> []" "get_record (xe_id env) (xe_id env) (mq_id raw) db = Inr old"
    using old(1) by (auto simp: record_for_update_def split: if_splits sum.splits)
  have patch: "map_of (memo_patch raw) k = map_of (memo_json raw) k" if "k \<in> {''mode'', ''id''}" for k
  proof -
    have k: "k \<noteq> ''evidence_refs''" using that by auto
    have "map_of (memo_patch raw) k = map_of (put_all (mq_present raw) (memo_json raw)) k"
      using k by (cases "mq_evidence raw") (simp_all add: memo_patch_def update_patch_def put_all_def map_filter_simps)
    with put_all_lookup [of "mq_present raw" "memo_json raw" k] assms(3) that show ?thesis
      by (auto simp: wf_map_def wire_consistent_def split: option.split)
  qed
  have steer: "map_of (merged_object old (memo_patch raw) base) k = Some (JString s)"
    if "k \<in> {''mode'', ''id''}" "map_of (memo_json raw) k = Some (JString s)" for k s
    using put_all_lookup [of "memo_patch raw" _ k] memo_patch_wf [of raw] patch [OF that(1)] that(2)
    by (simp add: merged_object_def wf_map_def)
  have "map_of (memo_json raw) ''mode'' = Some (JString (mq_mode raw))" by (simp add: memo_json_def)
  moreover have "map_of (memo_json raw) ''id'' = Some (JString (mq_id raw))"
    using id(1) by (simp add: memo_json_def some_text_def)
  ultimately have "text_field (merged_object old (memo_patch raw) base) ''mode'' = Inr (mq_mode raw)"
    "text_field (merged_object old (memo_patch raw) base) ''id'' = Inr (mq_id raw)"
    using steer by (simp_all add: text_field_def)
  with old(2) have q: "mq_mode m = mq_mode raw" "mq_id m = mq_id raw" by (auto simp: memo_of_json_def)
  let ?q = "prepared_memo env m"
  have v: "\<exists>u. validate_memo (xe_time env) (xe_lower env) ?q = Inr u"
    using assms(1) m by (cases "validate_memo (xe_time env) (xe_lower env) ?q") (auto simp: memo_request_checked_def Let_def)
  then obtain u where "c = canonical_memo env ?q" "payload = xe_marshal env (memo_payload c)" "identity_check env old c = Inr u"
    using assms(1) m old(3) by (auto simp: memo_request_checked_def Let_def)
  with id(2) q assms(2) show ?thesis by (auto simp: canonical_memo_def prepared_memo_def)
qed

text \<open>C17: an update never changes what a memo is. The stored payload has the kind and, for a topic memo, the scope,
  configuration and topic key of the record before, and the row keeps its schema, provenance and link to
  its predecessor. Whatever the validity of the record was, it is current afterwards.\<close>

theorem memo_identity_immutable:
  assumes "db_reachable (xe_json env) db" "write_memo env now later k (\<lambda>d. d) raw db = (db', Inr a)"
    "mq_mode raw = ''update''" "wire_consistent raw"
  shows "\<exists>old p c r. get_record (xe_id env) (xe_id env) (mq_id raw) db = Inr old \<and>
    get_record (xe_id env) (xe_id env) (mq_id raw) db' = Inr r \<and>
    du_payload r = xe_marshal env (memo_payload c) \<and> xe_object env (du_payload old) = Inr p \<and>
    text_member (members p) ''memo_kind'' = mq_kind c \<and>
    (du_schema_version old = ''memo.v3'' \<longrightarrow> text_field (members p) ''scope'' = Inr (mq_scope c) \<and>
       text_field (members p) ''configuration'' = Inr (mq_configuration c) \<and>
       text_field (members p) ''topic_key'' = Inr (mq_topic_key c)) \<and>
    du_kind r = du_kind old \<and> du_schema_version r = du_schema_version old \<and> du_source r = du_source old \<and>
    du_supersedes r = du_supersedes old \<and> du_validity r = ''current''"
proof -
  obtain c payload where c: "memo_request_checked env raw db = Inr (c, payload)"
    using assms(2) by (cases "memo_request_checked env raw db") (auto simp: write_memo_def)
  from checked_update [OF c assms(3,4)] obtain old u where old: "get_record (xe_id env) (xe_id env) (mq_id raw) db = Inr old"
    "mq_mode c = ''update''" "mq_id c = mq_id raw" "identity_check env old c = Inr u" "payload = xe_marshal env (memo_payload c)"
    by blast
  obtain d y where out: "store_memo env now later k c payload db = (d, y)" by (rule prod.exhaust)
  have nt: "\<not> new_topic c" using old(2) by (simp add: new_topic_def)
  have w: "write_memo env now later k (\<lambda>d. d) raw db = (d, case y of
      Inr r \<Rightarrow> try_then (mutation_answer env r False (mq_view c)) (\<lambda>a. Inr (a\<lparr>mr_warnings := host_fact_warnings env c db @ time_warnings c\<rparr>))
    | Inl e \<Rightarrow> Inl e)"
    unfolding write_memo_def c sum.case prod.case Let_def out topic_check_def
    by (cases y) (simp_all add: nt split: sum.split option.split)
  then obtain r where r: "store_memo env now later k c payload db = (db', Inr r)"
    using assms(2) out by (cases y) auto
  then have m: "mutate env now later k ''memo'' (memo_schema c) (mq_source c) ''update'' (mq_id raw) (mq_expected c) payload
      (non_nil (mq_evidence c)) db = (db', Inr r)"
    using old(2,3) by (simp add: store_memo_def)
  from mutate_update [OF db_inv_ids [OF db_reachable_inv [OF assms(1)]] m] old(1)
  have "get_record (xe_id env) (xe_id env) (mq_id raw) db' = Inr r"
    "r = old\<lparr>du_revision := Suc (mq_expected c), du_updated_at := later, du_payload := payload,
       du_evidence := non_nil (mq_evidence c), du_validity := ''current''\<rparr>" by auto
  with identity_check_ok [OF old(4)] old(1,5) show ?thesis by auto
qed

section \<open>Topics\<close>

text \<open>The memos a topic lookup accepts; an empty scope or configuration accepts every value.\<close>

definition holds_topic :: "records_env \<Rightarrow> memo_request \<Rightarrow> durable \<Rightarrow> bool" where
  "holds_topic env q r \<longleftrightarrow> owned (xe_id env) (xe_id env) r \<and> du_kind r = ''memo'' \<and> du_validity r = ''current'' \<and>
     json_filter (xe_json env) ''topic_key'' (mq_topic_key q) r \<and> json_filter (xe_json env) ''scope'' (mq_scope q) r \<and>
     json_filter (xe_json env) ''configuration'' (mq_configuration q) r"

lemma current_topic_found:
  assumes "xe_id env \<noteq> []" "r \<in> set (db_records db)" "holds_topic env q r"
  shows "\<exists>r' \<in> set (db_records db). holds_topic env q r' \<and>
    current_topic_memo env (mq_scope q) (mq_configuration q) (mq_topic_key q) db = Inr (Some r')"
proof -
  let ?q = "(memo_query env 1)\<lparr>rq_topic_key := mq_topic_key q, rq_scope := mq_scope q, rq_configuration := mq_configuration q\<rparr>"
  let ?found = "filter (\<lambda>r. base_match (xe_json env) ?q r \<and> terms_match (xe_json env) ?q [] r) (db_records db)"
  have holds: "base_match (xe_json env) ?q x \<and> terms_match (xe_json env) ?q [] x \<longleftrightarrow> holds_topic env q x" for x
    by (auto simp: base_match_def terms_match_def memo_query_def holds_topic_def column_filter_def is_zero_time_def)
  have page: "run_query env ?q db = Inr \<lparr>pg_records = take 1 (sort_key (query_rank (xe_json env) []) ?found),
      pg_matched = length ?found, pg_complete = (length ?found \<le> 1)\<rparr>"
    using assms(1) by (simp add: run_query_def query_records_def Let_def query_terms_def memo_query_def)
  obtain ms where ms: "sort_key (query_rank (xe_json env) []) ?found = ms" by blast
  have "set ms = {x \<in> set (db_records db). holds_topic env q x}"
    unfolding ms [symmetric] set_sort set_filter holds ..
  moreover from this assms(2,3) obtain r' rest where s: "ms = r' # rest" by (cases ms) auto
  moreover have "current_topic_memo env (mq_scope q) (mq_configuration q) (mq_topic_key q) db = Inr (Some r')"
    unfolding current_topic_memo_def page ms s by simp
  ultimately show ?thesis by auto
qed

text \<open>Creating a memo for a topic that a current memo holds writes nothing, whoever else is writing: the answer is
  partial and shows that memo. A request without a configuration is answered by a memo of the topic with
  any configuration, so a second configuration of a topic cannot be created without naming it.\<close>

theorem topic_create_answers_existing:
  assumes "memo_request_checked env raw db = Inr (c, payload)" "new_topic c" "xe_id env \<noteq> []"
    "r \<in> set (db_records db)" "holds_topic env c r"
  shows "fst (write_memo env now later k race raw db) = db \<and>
    (\<exists>r' \<in> set (db_records db). holds_topic env c r' \<and>
       snd (write_memo env now later k race raw db) = existing_topic_answer env r' (mq_view c)) \<and>
    (case snd (write_memo env now later k race raw db) of Inl _ \<Rightarrow> True | Inr a \<Rightarrow> mr_status a = StatusPartial)"
proof -
  from current_topic_found [OF assms(3-5)] obtain r' where r': "r' \<in> set (db_records db)" "holds_topic env c r'"
    "current_topic_memo env (mq_scope c) (mq_configuration c) (mq_topic_key c) db = Inr (Some r')" by blast
  have "write_memo env now later k race raw db = (db, existing_topic_answer env r' (mq_view c))"
    using assms(2) r'(3) by (simp add: write_memo_def assms(1) topic_check_def)
  moreover have "mr_status a = StatusPartial" if "existing_topic_answer env r' (mq_view c) = Inr a" for a
    using that by (auto simp: existing_topic_answer_def)
  ultimately show ?thesis using r'(1,2) by (auto split: sum.split)
qed

section \<open>Lists of records\<close>

text \<open>What a list stores decodes to what was encoded.\<close>

definition listed_views ::
    "records_env \<Rightarrow> records_query \<Rightarrow> time \<Rightarrow> record_page \<Rightarrow> go_error + record_result list" where
  "listed_views env q as_of page =
     each_view (list_result env q (if dynamic_kind q then observe_subject env else no_subject) as_of) (pg_records page)"

definition list_laws :: "records_env \<Rightarrow> result_env \<Rightarrow> records_query \<Rightarrow> time \<Rightarrow> record_db \<Rightarrow> bool" where
  "list_laws env re q as_of db \<longleftrightarrow>
     (\<forall>b. re_metadata re b \<noteq> [] \<and> re_complete re (re_metadata re b) = Some b) \<and>
     (\<forall>page xs. list_page env q db = Inr page \<longrightarrow> listed_views env q as_of page = Inr xs \<longrightarrow>
        (\<forall>x \<in> set xs. re_decode re (re_encode re x) = Some x))"

text \<open>C19: a list or search with status \<open>ok\<close> is the beginning of the complete result: the store left no matching record
  out, the items are the views of the matching records in rank order that have the requested validity,
  the count is exact, and the answer says that it is truncated exactly when items are left for the next page.\<close>

theorem record_list_complete:
  assumes "catalog_ok cdb" "query_list env re as_of now k q item_limit byte_limit db cdb = (cdb', Inr y)"
    "rs_status y = StatusOK" "list_laws env re q as_of db"
  shows "\<exists>page xs. list_page env q db = Inr page \<and> length (pg_records page) = pg_matched page \<and>
    listed_views env q as_of page = Inr xs \<and>
    (let all = filter (listed q) xs
     in rs_items y = take (length (rs_items y)) all \<and> cn_matched (rs_counts y) = Some (of_nat (length all)) \<and>
        cn_relation (rs_counts y) = CountExact \<and> rs_truncated y = Some (length (rs_items y) < length all))"
proof -
  from assms(2) obtain page xs where l: "list_page env q db = Inr page" "listed_views env q as_of page = Inr xs"
    "record_persist env re now k q (filter (listed q) xs) (pg_complete page) item_limit byte_limit cdb = (cdb', Inr y)"
    by (auto simp: query_list_def listed_views_def Let_def split: sum.splits)
  have law: "\<forall>x \<in> set xs. re_decode re (re_encode re x) = Some x"
    "re_metadata re (pg_complete page) \<noteq> []" "re_complete re (re_metadata re (pg_complete page)) = Some (pg_complete page)"
    using assms(4) l(1,2) unfolding list_laws_def by blast+
  let ?all = "filter (listed q) xs"
  let ?s = "record_result_set env re now k q ?all (pg_complete page)"
  from l(3) obtain u where c: "create_result_set (re_valid re) ?s cdb = (cdb', Inr u)"
    "record_read_page env re cdb' k 0 item_limit byte_limit (sn_expires_at ?s) = Inr y"
    by (auto simp: record_persist_def Let_def split: prod.splits sum.splits)
  from created_set_stored [OF c(1) assms(1)] have s: "catalog_ok cdb'" "?s \<in> set (db_results cdb')" "well_numbered ?s" by auto
  have id: "sn_id ?s = k" "sn_metadata ?s = re_metadata re (pg_complete page)" by (simp_all add: record_result_set_def)
  from c(2) obtain p complete "is" where p: "read_result_page (sn_id ?s) 0 item_limit cdb' = Inr p"
    "stored_complete re (pg_metadata p) = Inr complete"
    "decode_items (Text ''decode record result'') (re_decode re) (pg_items p) = Inr is"
    "fit_page records_too_large (record_page_body env re complete k 0 (sn_expires_at ?s) (pg_total p) is byte_limit) (length is) = Inr y"
    by (auto simp: record_read_page_def id)
  have complete: "complete = pg_complete page"
    using p(2) read_result_metadata [OF s(1,2) p(1)] id(2) law(2,3)
    by (simp add: stored_complete_def)
  from read_result_slice [OF s p(1)] have items: "pg_items p = take item_limit (sn_items ?s)" "pg_total p = length (sn_items ?s)" by auto
  have all: "set_contents (re_decode re) ?s = ?all"
  proof -
    have "set_contents (re_decode re) ?s = map (\<lambda>x. the (re_decode re (re_encode re x))) ?all"
      by (simp add: set_contents_def record_result_set_def record_item_def comp_def case_prod_beta
          map_enumerated [where f = "\<lambda>x. the (re_decode re (re_encode re x))"])
    also have "\<dots> = ?all" using law(1) by (intro map_idI) auto
    finally show ?thesis .
  qed
  have len: "length (sn_items ?s) = length ?all" using arg_cong [OF all, of length] by (simp add: set_contents_def)
  have "is = take item_limit (set_contents (re_decode re) ?s)"
    using decode_items_ok [OF p(3)] items(1) by (simp add: set_contents_def take_map)
  then have prefix: "is = take item_limit ?all" unfolding all .
  from p(4) obtain n where n: "n \<le> length is"
    "record_page_body env re (pg_complete page) k 0 (sn_expires_at ?s) (length ?all) is byte_limit n = Inr (Some y)"
    unfolding complete items(2) len by (rule fit_page_ok)
  then have y: "rs_items y = take n is" "rs_status y = (if pg_complete page then StatusOK else StatusPartial)"
    "cn_matched (rs_counts y) = Some (of_nat (length ?all))"
    "cn_relation (rs_counts y) = (if pg_complete page then CountExact else CountLowerBound)"
    "rs_truncated y = Some (n < length ?all \<or> \<not> pg_complete page)"
    by (auto simp: record_page_body_def Let_def split: if_splits)
  have ok: "pg_complete page" using y(2) assms(3) by (simp split: if_splits)
  have whole: "length (pg_records page) = pg_matched page"
    using l(1) ok by (auto simp: list_page_def find_records_def query_records_def Let_def split: if_splits)
  have "rs_items y = take n ?all" using y(1) prefix n(1) by (simp add: min_absorb1)
  moreover have "length (rs_items y) = n" using y(1) n(1) by simp
  ultimately have "rs_items y = take (length (rs_items y)) ?all \<and> cn_matched (rs_counts y) = Some (of_nat (length ?all)) \<and>
        cn_relation (rs_counts y) = CountExact \<and> rs_truncated y = Some (length (rs_items y) < length ?all)"
    using y(3-5) ok by simp
  with l(1,2) whole show ?thesis unfolding Let_def by blast
qed

section \<open>Witnesses\<close>

definition demo_object :: "string \<Rightarrow> (string, json) gomap" where
  "demo_object s = [(''memo_kind'', JString ''decision''), (''scope'', JString ''s''), (''configuration'', JString ''c''),
     (''topic_key'', JString ''t''), (''content'', JString s), (''check_id'', JString ''k''), (''capability'', JString ''b''),
     (''outcome'', JString ''passed''),
     (''subject'', JObject [(''git_commit'', JString ''a1''), (''dirty'', JBool False)])]"

definition demo_records :: records_env where
  "demo_records = \<lparr>xe_id = ''w'', xe_root = ''/r'',
     xe_json = \<lparr>jn_valid = (\<lambda>p. True), jn_extract = (\<lambda>f p. if f = ''topic_key'' then SqlText ''t''
       else if f = ''scope'' then SqlText ''s'' else SqlText ''c''), jn_texts = (\<lambda>p. [p])\<rparr>,
     xe_lower = (\<lambda>s. s), xe_fold_eq = (=), xe_time = \<lparr>te_parse = (\<lambda>_. Some 5), te_format = (\<lambda>_. ''T'')\<rparr>,
     xe_object = (\<lambda>s. Inr (Some (demo_object s))), xe_marshal = (\<lambda>m. text_member m ''content''),
     xe_git = (\<lambda>args. (GitOK, if args = [''-C'', ''/r'', ''rev-parse'', ''HEAD''] then ''a1'' else []))\<rparr>"

definition demo_memo :: memo_request where
  "demo_memo = \<lparr>mq_present = [], mq_mode = ''create'', mq_id = [], mq_expected = 0, mq_supersedes = [], mq_kind = ''decision'',
     mq_scope = ''s'', mq_configuration = ''c'', mq_topic_key = ''t'', mq_title = [], mq_summary = [], mq_temporal_kind = [],
     mq_as_of = [], mq_content = ''x'', mq_host = None, mq_invalidation = [], mq_source = [], mq_evidence = None, mq_view = []\<rparr>"

definition demo_edit :: "string \<Rightarrow> nat \<Rightarrow> string \<Rightarrow> memo_request" where
  "demo_edit mode n content = \<lparr>mq_present = [], mq_mode = mode, mq_id = ''m1'', mq_expected = n, mq_supersedes = [], mq_kind = [],
     mq_scope = [], mq_configuration = [], mq_topic_key = [], mq_title = [], mq_summary = [], mq_temporal_kind = [],
     mq_as_of = [], mq_content = content, mq_host = None, mq_invalidation = [], mq_source = [], mq_evidence = None, mq_view = []\<rparr>"

definition demo_memo_db :: record_db where
  "demo_memo_db = fst (write_memo demo_records 5 6 ''m1'' (\<lambda>d. d) demo_memo empty_db)"

definition demo_retired_db :: record_db where
  "demo_retired_db = fst (write_memo demo_records 5 6 ''m2'' (\<lambda>d. d) (demo_edit ''supersede'' 1 []) demo_memo_db)"

definition demo_check_report :: check_report where
  "demo_check_report = \<lparr>kr_schema = ''check-report.v1'', kr_operation = ''verify'', kr_status = ''passed'', kr_started_at = 1,
     kr_finished_at = 2, kr_commit = [], kr_dirty = None, kr_checks = [(''a'', ''passed'')],
     kr_counts = [(''passed'', 1), (''failed'', 0), (''unknown'', 0)], kr_truncated = False\<rparr>"

definition demo_checklist :: checklist where
  "demo_checklist = \<lparr>kl_schema = ''verification-check.v1'', kl_id = ''k'', kl_revision = 1, kl_paths = [''p''], kl_required = True,
     kl_capability = ''b'', kl_configurations = [''c''], kl_report_required = True, kl_minimum = 1\<rparr>"

theorem passed_outcome_exact_witness:
  "verification_outcome demo_check_report demo_checklist = ''passed''"
proof -
  have "parse_report (\<lambda>_. Some demo_check_report) [] = Inr demo_check_report" "0 < kl_minimum demo_checklist"
    "kr_status demo_check_report = ''passed''" "kl_minimum demo_checklist \<le> length (kr_checks demo_check_report)"
    by code_simp+
  with passed_outcome_exact [of "\<lambda>_. Some demo_check_report" "[]" demo_check_report demo_checklist] show ?thesis by blast
qed

definition demo_verification_db :: record_db where
  "demo_verification_db = \<lparr>db_records = [\<lparr>du_id = ''v1'', du_kind = ''verification'', du_schema_version = ''1'', du_project = ''w'',
     du_workspace = ''w'', du_revision = 1, du_source = ''imported'', du_writer_class = ''importer'', du_validity = ''unknown'',
     du_created_at = 5, du_updated_at = 5, du_payload = ''v'', du_evidence = [], du_supersedes = []\<rparr>],
     db_revisions = [], db_imports = []\<rparr>"

theorem qualifications_are_current_passes_witness:
  "resolve_cache_qualifications demo_records ''b'' ''c'' [''k''] demo_verification_db = Inr ([''record:v1''], True) \<and>
   (\<exists>r \<in> set (db_records demo_verification_db). du_id r = ''v1'' \<and> current_pass demo_records ''b'' ''c'' ''k'' r)"
proof -
  have q: "resolve_cache_qualifications demo_records ''b'' ''c'' [''k''] demo_verification_db = Inr ([''record:v1''], True)" by code_simp
  have "\<exists>r \<in> set (db_records demo_verification_db). [''record:v1''] ! 0 = ''record:'' @ du_id r \<and>
      current_pass demo_records ''b'' ''c'' ([''k''] ! 0) r"
    using qualifications_are_current_passes [OF q] by simp
  with q show ?thesis by (auto dest: sym)
qed

theorem memo_update_is_partial_witness:
  "\<exists>m. merge_record_update (stored_object demo_records) memo_of_json (hd (db_records demo_memo_db))
      (memo_patch (demo_edit ''update'' 1 ''y'')) = Inr m \<and> mq_content m = ''y'' \<and> mq_scope m = ''s''"
proof -
  let ?q = "demo_edit ''update'' 1 ''y''" and ?r = "hd (db_records demo_memo_db)"
  have "is_ok (merge_record_update (stored_object demo_records) memo_of_json ?r (memo_patch ?q))" by code_simp
  then obtain m where m: "merge_record_update (stored_object demo_records) memo_of_json ?r (memo_patch ?q) = Inr m"
    unfolding is_ok_iff by blast
  have base: "stored_object demo_records (du_payload ?r) = Some (demo_object (du_payload ?r))"
    by (simp add: stored_object_def demo_records_def)
  have wf: "wf_map (mq_present ?q)" by (simp add: demo_edit_def)
  have k: "(''content'', mq_content) \<in> set memo_texts" "(''scope'', mq_scope) \<in> set memo_texts" by (simp_all add: memo_texts_def)
  have "mq_content m = ''y''" using memo_update_is_partial [OF m base wf k(1)] by (simp add: demo_edit_def)
  moreover have "mq_scope m = ''s''"
    using memo_update_is_partial [OF m base wf k(2)] by (simp add: demo_edit_def demo_object_def text_field_def)
  ultimately show ?thesis using m by blast
qed

lemma demo_retired_reachable: "db_reachable (xe_json demo_records) demo_memo_db" "db_reachable (xe_json demo_records) demo_retired_db"
proof -
  have *: "db_reachable (xe_json demo_records) (fst (write_memo demo_records 5 6 k (\<lambda>d. d) q db))"
    if "db_reachable (xe_json demo_records) db" for k q db
    using store_memo_reachable [OF that, of 6] that by (auto simp: write_memo_db zero_time_def split: sum.split prod.split)
  show m: "db_reachable (xe_json demo_records) demo_memo_db" unfolding demo_memo_db_def by (rule * [OF db_reachable.empty])
  show "db_reachable (xe_json demo_records) demo_retired_db" unfolding demo_retired_db_def by (rule * [OF m])
qed

theorem memo_identity_immutable_witness:
  "du_validity (hd (db_records demo_retired_db)) = ''superseded'' \<and>
   (\<exists>r. get_record ''w'' ''w'' ''m1'' (fst (write_memo demo_records 7 8 ''m3'' (\<lambda>d. d) (demo_edit ''update'' 2 ''y'') demo_retired_db)) = Inr r \<and>
     du_validity r = ''current'' \<and> du_schema_version r = ''memo.v3'')"
proof -
  let ?q = "demo_edit ''update'' 2 ''y''"
  let ?w = "write_memo demo_records 7 8 ''m3'' (\<lambda>d. d) ?q demo_retired_db"
  have "is_ok (snd ?w)" by code_simp
  then obtain db' a where w: "?w = (db', Inr a)" unfolding is_ok_iff by (metis prod.collapse)
  have q: "mq_mode ?q = ''update''" "wire_consistent ?q" "mq_id ?q = ''m1''"
    by (simp_all add: demo_edit_def wire_consistent_def)
  from memo_identity_immutable [OF demo_retired_reachable(2) w q(1,2)] obtain old r where
    r: "get_record (xe_id demo_records) (xe_id demo_records) ''m1'' demo_retired_db = Inr old"
    "get_record (xe_id demo_records) (xe_id demo_records) ''m1'' db' = Inr r"
    "du_schema_version r = du_schema_version old" "du_validity r = ''current''"
    unfolding q(3) by blast
  have id: "xe_id demo_records = ''w''" by (simp add: demo_records_def)
  have "(case get_record ''w'' ''w'' ''m1'' demo_retired_db of Inl _ \<Rightarrow> False | Inr x \<Rightarrow> du_schema_version x = ''memo.v3'')" by code_simp
  then have "du_schema_version old = ''memo.v3''" using r(1) id by simp
  moreover have "du_validity (hd (db_records demo_retired_db)) = ''superseded''" by code_simp
  ultimately show ?thesis using r id w by simp
qed

theorem topic_create_answers_existing_witness:
  "fst (write_memo demo_records 7 8 ''m3'' (\<lambda>d. d) (demo_memo\<lparr>mq_configuration := []\<rparr>) demo_memo_db) = demo_memo_db"
proof -
  let ?q = "demo_memo\<lparr>mq_configuration := []\<rparr>" and ?r = "hd (db_records demo_memo_db)"
  have "is_ok (memo_request_checked demo_records ?q demo_memo_db)" by code_simp
  then obtain c payload where c: "memo_request_checked demo_records ?q demo_memo_db = Inr (c, payload)"
    unfolding is_ok_iff by (metis prod.collapse)
  have "case memo_request_checked demo_records ?q demo_memo_db of Inl _ \<Rightarrow> False
    | Inr (c, _) \<Rightarrow> new_topic c \<and> holds_topic demo_records c ?r" by code_simp
  then have n: "new_topic c" "holds_topic demo_records c ?r" using c by simp_all
  have "xe_id demo_records \<noteq> []" "?r \<in> set (db_records demo_memo_db)" by code_simp+
  from topic_create_answers_existing [OF c n(1) this n(2), of 7 8 "''m3''" "\<lambda>d. d"] show ?thesis by blast
qed

definition demo_list :: records_query where
  "demo_list = \<lparr>qr_mode = ''list'', qr_query = [], qr_id = [], qr_kind = ''memo'', qr_validity = ''current'', qr_source = [],
     qr_updated_after = [], qr_updated_before = [], qr_topic_key = [], qr_scope = [], qr_configuration = [], qr_match_mode = [],
     qr_view = ''brief'', qr_cursor = [], qr_limits = \<lparr>lr_item_limit = 1, lr_byte_limit = 9, lr_time_limit_ms = 1\<rparr>,
     qr_payload_fields = []\<rparr>"

definition demo_view :: record_result where
  "demo_view = brief_record (hd (db_records demo_memo_db)) (demo_object ''x'') ''current''"

definition demo_results :: result_env where
  "demo_results = \<lparr>re_codec = demo_codec (seconds 40), re_sha = (\<lambda>_. []), re_request = qr_mode, re_encode = ro_id,
     re_decode = (\<lambda>_. Some demo_view), re_metadata = (\<lambda>b. if b then ''t'' else ''f''), re_complete = (\<lambda>s. Some (s = ''t'')),
     re_size = (\<lambda>_. 0), re_valid = (\<lambda>_. True)\<rparr>"

theorem record_list_complete_witness:
  "\<exists>cdb' y. query_list demo_records demo_results 9 9 ''s'' demo_list 1 9 demo_memo_db demo_catalog = (cdb', Inr y) \<and>
     rs_items y = [demo_view] \<and> cn_matched (rs_counts y) = Some 1 \<and> rs_truncated y = Some False"
proof -
  let ?w = "query_list demo_records demo_results 9 9 ''s'' demo_list 1 9 demo_memo_db demo_catalog"
  have e: "is_ok (snd ?w)" "rs_status (projr (snd ?w)) = StatusOK" "rs_items (projr (snd ?w)) = [demo_view]" by code_simp+
  from e(1) obtain cdb' y where w: "?w = (cdb', Inr y)" unfolding is_ok_iff by (metis prod.collapse)
  with e(2,3) have s: "rs_status y = StatusOK" "rs_items y = [demo_view]" by simp_all
  have views: "(case list_page demo_records demo_list demo_memo_db of Inl _ \<Rightarrow> False
    | Inr page \<Rightarrow> listed_views demo_records demo_list 9 page = Inr [demo_view])" by code_simp
  have one: "xs = [demo_view]" if "list_page demo_records demo_list demo_memo_db = Inr page"
      "listed_views demo_records demo_list 9 page = Inr xs" for page xs
    using views that by simp
  have laws: "list_laws demo_records demo_results demo_list 9 demo_memo_db"
    unfolding list_laws_def
  proof (intro conjI allI impI ballI)
    fix page xs x
    assume "list_page demo_records demo_list demo_memo_db = Inr page" "listed_views demo_records demo_list 9 page = Inr xs" "x \<in> set xs"
    with one have "x = demo_view" by fastforce
    then show "re_decode demo_results (re_encode demo_results x) = Some x" by (simp add: demo_results_def)
  qed (simp_all add: demo_results_def)
  have cat: "catalog_ok demo_catalog" by (rule reachable_ok [OF demo_catalog_reachable])
  have l: "listed demo_list demo_view" by code_simp
  from record_list_complete [OF cat w s(1) laws] obtain page xs where xs: "list_page demo_records demo_list demo_memo_db = Inr page"
    "listed_views demo_records demo_list 9 page = Inr xs"
    "cn_matched (rs_counts y) = Some (of_nat (length (filter (listed demo_list) xs)))"
    "rs_truncated y = Some (length (rs_items y) < length (filter (listed demo_list) xs))"
    unfolding Let_def by blast
  have "filter (listed demo_list) xs = [demo_view]" using one [OF xs(1,2)] l by simp
  with xs(3,4) s(2) w show ?thesis by simp
qed

end
