(* ===== verification/CacheStore.thy ===== *)
theory CacheStore
  imports GoPrelude "HOL-Library.Char_ord" "HOL-Library.List_Lexorder" "HOL-Library.Product_Lexorder"
begin

text \<open>
  The index of reusable Runner results, \<open>internal/store/sqlite/cache.go\<close>: a table of rows keyed by
  project, workspace and cache key. The lemmas describe how a row can change: its outputs never do,
  and a quarantined row stays quarantined until it is deleted.
\<close>

section \<open>Rows\<close>

record cache_output =
  co_path :: string
  co_hash :: string
  co_size :: int
  co_artifact :: string

record cache_row =
  cx_key :: string
  cx_project :: string
  cx_workspace :: string
  cx_capability :: string
  cx_capability_revision :: string
  cx_configuration :: string
  cx_state :: string
  cx_reason :: string
  cx_source_run :: string
  cx_outputs :: "cache_output list"
  cx_qualifications :: "string list"
  cx_created_at :: time
  cx_observed_at :: time
  cx_last_used_at :: time
  cx_expires_at :: time
  cx_observations :: nat
  cx_hits :: nat

type_synonym cache_table = "cache_row list"

definition row_is :: "string \<Rightarrow> string \<Rightarrow> string \<Rightarrow> cache_row \<Rightarrow> bool" where
  "row_is p w k r \<longleftrightarrow> cx_project r = p \<and> cx_workspace r = w \<and> cx_key r = k"

definition row_key :: "cache_row \<Rightarrow> string \<times> string \<times> string" where
  "row_key r = (cx_project r, cx_workspace r, cx_key r)"

section \<open>Operations\<close>

definition get_cache_entry :: "string \<Rightarrow> string \<Rightarrow> string \<Rightarrow> cache_table \<Rightarrow> go_error + cache_row" where
  "get_cache_entry p w k t =
     (case find (row_is p w k) t of None \<Rightarrow> Inl (Sentinel StoreNotFound) | Some r \<Rightarrow> Inr r)"

definition output_bad :: "cache_output \<Rightarrow> bool" where
  "output_bad x \<longleftrightarrow> co_path x = [] \<or> \<not> has_prefix (co_hash x) ''sha256:'' \<or> co_size x < 0 \<or> co_artifact x = []"

fun outputs_bad :: "string option \<Rightarrow> cache_output list \<Rightarrow> bool" where
  "outputs_bad prev [] = False"
| "outputs_bad prev (x # xs) = (output_bad x \<or> prev = Some (co_path x) \<or> outputs_bad (Some (co_path x)) xs)"

definition validate_cache_entry :: "cache_row \<Rightarrow> go_error + unit" where
  "validate_cache_entry r =
     (if \<not> has_prefix (cx_key r) ''hmac-sha256:'' \<or> length (cx_key r) \<noteq> 12 + 64 \<or> cx_project r = [] \<or>
         cx_workspace r = [] \<or> cx_capability r = [] \<or> cx_capability_revision r = [] \<or>
         cx_configuration r = [] \<or> cx_state r \<noteq> ''active'' \<or> cx_source_run r = [] \<or> cx_outputs r = [] \<or>
         is_zero_time (cx_created_at r) \<or> is_zero_time (cx_observed_at r) \<or>
         is_zero_time (cx_expires_at r) \<or> cx_observations r = 0
      then Inl (Sentinel StoreConflict)
      else if outputs_bad None (cx_outputs r) then Inl (Sentinel StoreConflict) else Inr ())"

definition same_output :: "cache_output \<Rightarrow> cache_output \<Rightarrow> bool" where
  "same_output x y \<longleftrightarrow> co_path x = co_path y \<and> co_hash x = co_hash y \<and> co_size x = co_size y"

definition same_cache_outputs :: "cache_output list \<Rightarrow> cache_output list \<Rightarrow> bool" where
  "same_cache_outputs xs ys \<longleftrightarrow> length xs = length ys \<and> list_all2 same_output xs ys"

definition merge_observation :: "cache_row \<Rightarrow> cache_row \<Rightarrow> cache_row" where
  "merge_observation entry current =
     (let c1 = current\<lparr>cx_observed_at := cx_observed_at entry, cx_expires_at := cx_expires_at entry,
                       cx_observations := Suc (cx_observations current)\<rparr>;
          c2 = (if cx_state c1 \<noteq> ''quarantined'' \<and> \<not> same_cache_outputs (cx_outputs c1) (cx_outputs entry)
                then c1\<lparr>cx_state := ''quarantined'', cx_reason := ''output_mismatch''\<rparr> else c1)
      in if cx_state c2 \<noteq> ''quarantined'' \<and> cx_qualifications entry \<noteq> []
           then c2\<lparr>cx_qualifications := cx_qualifications entry\<rparr> else c2)"

definition change_row :: "string \<Rightarrow> string \<Rightarrow> string \<Rightarrow> (cache_row \<Rightarrow> cache_row) \<Rightarrow> cache_table \<Rightarrow> cache_table" where
  "change_row p w k f t = map (\<lambda>r. if row_is p w k r then f r else r) t"

definition publish_cache :: "cache_row \<Rightarrow> cache_table \<Rightarrow> cache_table \<times> (go_error + cache_row)" where
  "publish_cache raw t =
     (let entry = raw\<lparr>cx_outputs := sort_key co_path (cx_outputs raw)\<rparr>;
          p = cx_project entry; w = cx_workspace entry; k = cx_key entry
      in case validate_cache_entry entry of
           Inl e \<Rightarrow> (t, Inl e)
         | Inr _ \<Rightarrow>
             (case get_cache_entry p w k t of
                Inl _ \<Rightarrow> (t @ [entry], Inr entry)
              | Inr current \<Rightarrow>
                  (let new = merge_observation entry current
                   in (change_row p w k (\<lambda>_. new) t, Inr new))))"

definition mark_cache_hit ::
    "string \<Rightarrow> string \<Rightarrow> string \<Rightarrow> time \<Rightarrow> cache_table \<Rightarrow> cache_table \<times> (go_error + cache_row)" where
  "mark_cache_hit p w k used t =
     (if list_ex (\<lambda>r. row_is p w k r \<and> cx_state r = ''active'') t then
        (let t' = map (\<lambda>r. if row_is p w k r \<and> cx_state r = ''active''
               then r\<lparr>cx_last_used_at := used, cx_hits := Suc (cx_hits r)\<rparr> else r) t
         in (t', get_cache_entry p w k t'))
      else (t, Inl (Sentinel StoreNotFound)))"

definition quarantine_cache ::
    "string \<Rightarrow> string \<Rightarrow> string \<Rightarrow> string \<Rightarrow> time \<Rightarrow> cache_table \<Rightarrow> cache_table \<times> (go_error + unit)" where
  "quarantine_cache p w k reason at_time t =
     (if reason = [] \<or> 128 < int (length reason) then (t, Inl (Sentinel StoreConflict))
      else if list_ex (row_is p w k) t then
        (change_row p w k (\<lambda>r. r\<lparr>cx_state := ''quarantined'', cx_reason := reason, cx_observed_at := at_time\<rparr>) t,
         Inr ())
      else (t, Inl (Sentinel StoreNotFound)))"

definition cache_owned :: "string \<Rightarrow> string \<Rightarrow> cache_row \<Rightarrow> bool" where
  "cache_owned p w r \<longleftrightarrow> cx_project r = p \<and> cx_workspace r = w"

definition protected_rows :: "string \<Rightarrow> string \<Rightarrow> time \<Rightarrow> cache_table \<Rightarrow> cache_row list" where
  "protected_rows p w now t = sort_key cx_key
     (filter (\<lambda>r. cache_owned p w r \<and> cx_state r = ''active'' \<and> now < cx_expires_at r) t)"

definition list_protected_hashes ::
    "string \<Rightarrow> string \<Rightarrow> time \<Rightarrow> nat \<Rightarrow> cache_table \<Rightarrow> string list \<times> bool" where
  "list_protected_hashes p w now limit t =
     (if limit = 0 then ([], False)
      else let rows = take (Suc limit) (protected_rows p w now t) in
        (sort (remdups (concat (map (\<lambda>r. map co_hash (cx_outputs r)) (take limit rows)))),
         length rows \<le> limit))"

definition expired_rows :: "string \<Rightarrow> string \<Rightarrow> time \<Rightarrow> cache_table \<Rightarrow> cache_row list" where
  "expired_rows p w now t = sort_key (\<lambda>r. (cx_expires_at r, cx_key r))
     (filter (\<lambda>r. cache_owned p w r \<and> cx_expires_at r \<le> now) t)"

definition delete_expired_cache :: "string \<Rightarrow> string \<Rightarrow> time \<Rightarrow> nat \<Rightarrow> cache_table \<Rightarrow> cache_table \<times> nat" where
  "delete_expired_cache p w now limit t =
     (if limit = 0 then (t, 0)
      else let gone = take limit (expired_rows p w now t) in
        (filter (\<lambda>r. row_key r \<notin> set (map row_key gone)) t, length gone))"

section \<open>How a row changes\<close>

definition table_inv :: "cache_table \<Rightarrow> bool" where
  "table_inv t \<longleftrightarrow> distinct (map row_key t)"

text \<open>The steps of the index, and what one step does to the row of a key.\<close>

inductive cache_step :: "cache_table \<Rightarrow> cache_table \<Rightarrow> bool" where
  publish: "cache_step t (fst (publish_cache raw t))"
| hit: "cache_step t (fst (mark_cache_hit p w k used t))"
| quarantine: "cache_step t (fst (quarantine_cache p w k reason at_time t))"
| expire: "cache_step t (fst (delete_expired_cache p w now limit t))"

definition row_evolves :: "cache_row \<Rightarrow> cache_row \<Rightarrow> bool" where
  "row_evolves r r' \<longleftrightarrow> row_key r' = row_key r \<and> cx_outputs r' = cx_outputs r \<and>
     cx_created_at r' = cx_created_at r \<and> cx_source_run r' = cx_source_run r \<and>
     cx_capability_revision r' = cx_capability_revision r \<and>
     (cx_state r = ''quarantined'' \<longrightarrow> cx_state r' = ''quarantined'') \<and>
     cx_observations r \<le> cx_observations r' \<and> cx_hits r \<le> cx_hits r' \<and>
     (cx_hits r < cx_hits r' \<longrightarrow> cx_state r \<noteq> ''quarantined'')"

lemma row_evolves_refl [simp]: "row_evolves r r"
  by (simp add: row_evolves_def)

lemma row_is_key: "row_is p w k r \<longleftrightarrow> row_key r = (p, w, k)"
  by (auto simp: row_is_def row_key_def)

lemma merge_evolves: "row_evolves c (merge_observation entry c)"
  by (simp add: row_evolves_def merge_observation_def Let_def row_key_def)

lemma table_find:
  assumes "table_inv t" "r \<in> set t"
  shows "find (row_is p w k) t = Some r \<longleftrightarrow> row_key r = (p, w, k)"
proof
  assume "find (row_is p w k) t = Some r"
  then show "row_key r = (p, w, k)" by (metis find_Some_iff row_is_key)
next
  assume k: "row_key r = (p, w, k)"
  with assms(2) have "find (row_is p w k) t \<noteq> None" by (auto simp: find_None_iff row_is_key)
  then obtain x where x: "find (row_is p w k) t = Some x" by blast
  then have "x \<in> set t" "row_key x = row_key r" using k by (metis find_Some_iff nth_mem row_is_key)+
  with assms have "x = r" by (metis distinct_map inj_onD table_inv_def)
  with x show "find (row_is p w k) t = Some r" by simp
qed

lemma map_keys_inv:
  assumes "\<And>r. r \<in> set t \<Longrightarrow> row_key (f r) = row_key r"
  shows "table_inv (map f t) = table_inv t"
proof -
  from assms have "map row_key (map f t) = map row_key t" by simp
  then show ?thesis by (simp only: table_inv_def)
qed

lemma map_evolves:
  assumes "table_inv t" "\<And>x. x \<in> set t \<Longrightarrow> row_evolves x (f x)" "r \<in> set t" "r' \<in> set (map f t)" "row_key r' = row_key r"
  shows "row_evolves r r'"
proof -
  from assms(4) obtain x where x: "x \<in> set t" "r' = f x" by auto
  with assms(2) have "row_evolves x r'" by simp
  then have "row_key x = row_key r" using assms(5) by (simp add: row_evolves_def)
  with assms(1,3) x have "x = r" by (metis distinct_map inj_onD table_inv_def)
  with \<open>row_evolves x r'\<close> show ?thesis by simp
qed

lemma publish_cases:
  obtains "fst (publish_cache raw t) = t"
  | entry where "fst (publish_cache raw t) = t @ [entry]" "row_key entry \<notin> row_key ` set t"
  | entry current where "fst (publish_cache raw t) =
      map (\<lambda>r. if row_key r = row_key current then merge_observation entry current else r) t"
      "current \<in> set t"
proof -
  let ?entry = "raw\<lparr>cx_outputs := sort_key co_path (cx_outputs raw)\<rparr>"
  let ?find = "find (row_is (cx_project raw) (cx_workspace raw) (cx_key raw)) t"
  show thesis
  proof (cases "validate_cache_entry ?entry")
    case (Inl e)
    then show thesis by (intro that(1)) (simp add: publish_cache_def Let_def)
  next
    case v: (Inr u)
    show thesis
    proof (cases ?find)
      case None
      then have "row_key ?entry \<notin> row_key ` set t"
        by (auto simp: find_None_iff row_is_key) (auto simp: row_key_def)
      with None v show thesis by (intro that(2)) (simp add: publish_cache_def get_cache_entry_def Let_def)
    next
      case (Some c)
      then have c: "c \<in> set t" "row_key c = (cx_project raw, cx_workspace raw, cx_key raw)"
        by (metis find_Some_iff nth_mem row_is_key)+
      with Some v show thesis
        by (intro that(3) [of c ?entry])
          (simp_all add: publish_cache_def get_cache_entry_def change_row_def row_is_key Let_def)
    qed
  qed
qed


lemma merge_key [simp]: "row_key (merge_observation entry c) = row_key c"
  using merge_evolves [of c entry] by (simp add: row_evolves_def)

definition hit_row :: "string \<Rightarrow> string \<Rightarrow> string \<Rightarrow> time \<Rightarrow> cache_row \<Rightarrow> cache_row" where
  "hit_row p w k used r = (if row_is p w k r \<and> cx_state r = ''active''
     then r\<lparr>cx_last_used_at := used, cx_hits := Suc (cx_hits r)\<rparr> else r)"

definition quarantined_row :: "string \<Rightarrow> string \<Rightarrow> string \<Rightarrow> string \<Rightarrow> time \<Rightarrow> cache_row \<Rightarrow> cache_row" where
  "quarantined_row p w k reason at_time r = (if row_is p w k r
     then r\<lparr>cx_state := ''quarantined'', cx_reason := reason, cx_observed_at := at_time\<rparr> else r)"

lemma hit_evolves: "row_evolves r (hit_row p w k used r)"
  by (simp add: row_evolves_def hit_row_def row_key_def)

lemma quarantine_evolves: "row_evolves r (quarantined_row p w k reason at_time r)"
  by (simp add: row_evolves_def quarantined_row_def row_key_def)

lemma mark_hit_fst:
  "fst (mark_cache_hit p w k used t) = t \<or> fst (mark_cache_hit p w k used t) = map (hit_row p w k used) t"
  by (simp add: mark_cache_hit_def Let_def hit_row_def)

lemma quarantine_fst:
  "fst (quarantine_cache p w k reason at_time t) = t \<or>
   fst (quarantine_cache p w k reason at_time t) = map (quarantined_row p w k reason at_time) t"
  by (simp add: quarantine_cache_def change_row_def quarantined_row_def)

lemma evolves_key: "row_evolves r r' \<Longrightarrow> row_key r' = row_key r"
  by (simp add: row_evolves_def)

text \<open>A step is a map by evolution, an append of a fresh row, or a deletion.\<close>

lemma cache_step_shape:
  assumes "cache_step t t'" "table_inv t"
  obtains (map) f where "t' = map f t" "\<And>r. r \<in> set t \<Longrightarrow> row_evolves r (f r)"
  | (append) e where "t' = t @ [e]" "row_key e \<notin> row_key ` set t"
  | (delete) P where "t' = filter P t"
  using assms(1)
proof cases
  case (publish raw)
  show thesis
  proof (cases rule: publish_cases [of raw t])
    case 1
    then show thesis using publish map [of id] by simp
  next
    case (2 entry)
    then show thesis using publish append by simp
  next
    case (3 entry current)
    let ?f = "\<lambda>r. if row_key r = row_key current then merge_observation entry current else r"
    have "row_evolves r (?f r)" if "r \<in> set t" for r
    proof (cases "row_key r = row_key current")
      case True
      with that 3(2) assms(2) have "r = current" by (metis distinct_map inj_onD table_inv_def)
      then show ?thesis by (simp add: merge_evolves)
    qed simp
    with 3(1) publish show thesis by (intro map [of ?f]) simp_all
  qed
next
  case (hit p w k used)
  with mark_hit_fst [of p w k used t] map [of id] map [of "hit_row p w k used"] hit_evolves
  show thesis by auto
next
  case (quarantine p w k reason at_time)
  with quarantine_fst [of p w k reason at_time t] map [of id] map [of "quarantined_row p w k reason at_time"]
    quarantine_evolves
  show thesis by auto
next
  case (expire p w now limit)
  show thesis
  proof (cases "limit = 0")
    case True
    with expire map [of id] show thesis by (simp add: delete_expired_cache_def)
  next
    case False
    with expire delete show thesis by (simp add: delete_expired_cache_def Let_def)
  qed
qed

lemma cache_step_inv: "\<lbrakk>cache_step t t'; table_inv t\<rbrakk> \<Longrightarrow> table_inv t'"
proof -
  assume a: "cache_step t t'" "table_inv t"
  show ?thesis
  proof (cases rule: cache_step_shape [OF a])
    case (1 f)
    then show ?thesis using a(2) map_keys_inv [of t f] evolves_key by simp
  next
    case (2 e)
    then show ?thesis using a(2) by (simp add: table_inv_def)
  next
    case (3 P)
    then show ?thesis using a(2) by (simp add: table_inv_def distinct_map_filter)
  qed
qed

lemma cache_step_evolves:
  assumes "cache_step t t'" "table_inv t" "r \<in> set t" "r' \<in> set t'" "row_key r' = row_key r"
  shows "row_evolves r r'"
proof (cases rule: cache_step_shape [OF assms(1,2)])
  case (1 f)
  then show ?thesis using assms map_evolves [of t f r r'] by simp
next
  case (2 e)
  with assms have "r' \<in> set t" by auto
  with assms have "r' = r" by (metis distinct_map inj_onD table_inv_def)
  then show ?thesis by simp
next
  case (3 P)
  with assms have "r' = r" by (metis distinct_map filter_is_subset inj_onD subsetD table_inv_def)
  then show ?thesis by simp
qed

inductive cache_run :: "cache_table \<Rightarrow> cache_table list \<Rightarrow> bool" where
  stop: "cache_run t []"
| step: "cache_step t t' \<Longrightarrow> cache_run t' ts \<Longrightarrow> cache_run t (t' # ts)"

text \<open>As long as a key stays in the table, its row evolves.\<close>

lemma cache_run_evolves:
  assumes "cache_run t ts" "table_inv t" "r \<in> set t"
    and "\<forall>u \<in> set ts. row_key r \<in> row_key ` set u" "r' \<in> set (last (t # ts))" "row_key r' = row_key r"
  shows "row_evolves r r'"
  using assms
proof (induction arbitrary: r rule: cache_run.induct)
  case (stop t)
  then have "r' = r" by simp (metis distinct_map inj_onD table_inv_def)
  then show ?case by simp
next
  case (step t t' ts)
  from step.prems(3) obtain r1 where r1: "r1 \<in> set t'" "row_key r1 = row_key r" by auto
  have e: "row_evolves r r1" using cache_step_evolves [OF step.hyps(1) step.prems(1,2) r1] .
  have "row_evolves r1 r'"
    using step.IH [OF cache_step_inv [OF step.hyps(1) step.prems(1)] r1(1)] step.prems(3-5) r1(2) by simp
  with e show ?case by (auto simp: row_evolves_def)
qed

text \<open>Over any sequence of index operations in which a cached result is not deleted, its outputs,
  source run and capability revision never change, a quarantine is never lifted, and hits are only
  counted on active rows.\<close>

theorem quarantine_is_permanent:
  assumes "cache_run t ts" "table_inv t" "r \<in> set t" "\<forall>u \<in> set ts. row_key r \<in> row_key ` set u"
    "r' \<in> set (last (t # ts))" "row_key r' = row_key r"
  shows "cx_outputs r' = cx_outputs r \<and> cx_source_run r' = cx_source_run r \<and>
    cx_capability_revision r' = cx_capability_revision r \<and>
    (cx_state r = ''quarantined'' \<longrightarrow> cx_state r' = ''quarantined'' \<and> cx_hits r' = cx_hits r) \<and>
    cx_observations r \<le> cx_observations r' \<and> cx_hits r \<le> cx_hits r'"
  using cache_run_evolves [OF assms] by (auto simp: row_evolves_def)

definition demo_output :: "string \<Rightarrow> cache_output" where
  "demo_output h = \<lparr>co_path = ''o'', co_hash = ''sha256:'' @ h, co_size = 1, co_artifact = ''a''\<rparr>"

definition demo_row :: "string \<Rightarrow> cache_row" where
  "demo_row h = \<lparr>cx_key = ''hmac-sha256:'' @ replicate 64 (CHR ''0''), cx_project = ''p'', cx_workspace = ''w'',
     cx_capability = ''c'', cx_capability_revision = ''1'', cx_configuration = ''x'', cx_state = ''active'',
     cx_reason = [], cx_source_run = ''run'', cx_outputs = [demo_output h], cx_qualifications = [],
     cx_created_at = 5, cx_observed_at = 5, cx_last_used_at = 5, cx_expires_at = 9, cx_observations = 1, cx_hits = 0\<rparr>"

definition demo_table :: "nat \<Rightarrow> cache_table" where
  "demo_table n = [[], fst (publish_cache (demo_row ''1'') []),
     fst (publish_cache (demo_row ''2'') (fst (publish_cache (demo_row ''1'') []))),
     fst (publish_cache (demo_row ''1'') (fst (publish_cache (demo_row ''2'') (fst (publish_cache (demo_row ''1'') [])))))] ! n"

theorem quarantine_is_permanent_witness:
  "\<exists>r \<in> set (demo_table 2). \<exists>r' \<in> set (demo_table 3). cx_state r = ''quarantined'' \<and> cx_state r' = ''quarantined'' \<and>
     cx_outputs r' = [demo_output ''1'']"
proof -
  have s: "cache_step (demo_table 2) (demo_table 3)"
    using cache_step.publish [of "demo_table 2" "demo_row ''1''"] by (simp add: demo_table_def)
  have run: "cache_run (demo_table 2) [demo_table 3]"
    by (rule cache_run.step [OF s cache_run.stop])
  have a: "table_inv (demo_table 2)" unfolding table_inv_def by code_simp
  have l: "demo_table 2 = [hd (demo_table 2)]" "demo_table 3 = [hd (demo_table 3)]"
    "row_key (hd (demo_table 3)) = row_key (hd (demo_table 2))"
    "cx_state (hd (demo_table 2)) = ''quarantined''" "cx_outputs (hd (demo_table 2)) = [demo_output ''1'']"
    by code_simp+
  have m: "hd (demo_table 2) \<in> set (demo_table 2)" "hd (demo_table 3) \<in> set (demo_table 3)"
    by (subst (2) l, simp)+
  have "\<forall>u \<in> set [demo_table 3]. row_key (hd (demo_table 2)) \<in> row_key ` set u"
    using image_eqI [where f = row_key, OF l(3) [symmetric] m(2)] by simp
  from quarantine_is_permanent [OF run a m(1) this, of "hd (demo_table 3)"] m l(3-5)
  show ?thesis by auto
qed

section \<open>Protected hashes\<close>

lemma set_protected_rows:
  "set (protected_rows p w now t) = {r \<in> set t. cache_owned p w r \<and> cx_state r = ''active'' \<and> now < cx_expires_at r}"
  by (auto simp: protected_rows_def)

text \<open>The list of content hashes that must survive a cleanup is complete when it says so: every
  output of every active, unexpired row of the workspace is in it.\<close>

theorem protected_hashes_complete:
  assumes "list_protected_hashes p w now limit t = (hashes, True)"
  shows "set hashes = (\<Union>r \<in> {r \<in> set t. cache_owned p w r \<and> cx_state r = ''active'' \<and> now < cx_expires_at r}.
    co_hash ` set (cx_outputs r)) \<and> sorted hashes \<and> distinct hashes"
proof -
  from assms have l: "length (protected_rows p w now t) \<le> limit"
    by (auto simp: list_protected_hashes_def Let_def split: if_splits)
  then have "hashes = sort (remdups (concat (map (\<lambda>r. map co_hash (cx_outputs r)) (protected_rows p w now t))))"
    using assms by (auto simp: list_protected_hashes_def Let_def split: if_splits)
  then show ?thesis by (auto simp: set_protected_rows)
qed

theorem protected_hashes_complete_witness:
  "list_protected_hashes ''p'' ''w'' 6 4 (demo_table 1) = ([''sha256:1''], True) \<and>
   ''sha256:1'' \<in> co_hash ` set (cx_outputs (demo_row ''1''))"
proof -
  have l: "list_protected_hashes ''p'' ''w'' 6 4 (demo_table 1) = ([''sha256:1''], True)" by code_simp
  from protected_hashes_complete [OF l] have "distinct [''sha256:1'']" by blast
  moreover have "''sha256:1'' \<in> co_hash ` set (cx_outputs (demo_row ''1''))"
    by (simp add: demo_row_def demo_output_def)
  ultimately show ?thesis using l by simp
qed

end
