(* ===== verification/CatalogService.thy ===== *)
theory CatalogService
  imports Paging Manifest
begin

text \<open>
  \<open>internal/catalog/service.go\<close>: the catalog query tool over the store, with its modes, the first page
  of a result set and the pages a cursor resumes. Environment answers are the fields of
  \<open>catalog_env\<close>: refreshing the index, hashing, random identifiers, JSON forms and sizes.
\<close>

section \<open>Requests and results\<close>

record query_request =
  qr_mode :: string
  qr_query :: string
  qr_id :: string
  qr_cursor :: string
  qr_limits :: limit_request

record query_result =
  qs_kind :: string
  qs_id :: string
  qs_revision :: string
  qs_summary :: string
  qs_match_reason :: string
  qs_executable :: bool
  qs_source_ref :: string
  qs_manifest :: "manifest option"
  qs_issue_code :: string
  qs_detail :: "(string, string) gomap"
  qs_generation :: string
  qs_fingerprint :: string
  qs_issue_count :: nat

definition blank_result :: query_result where
  "blank_result = \<lparr>qs_kind = [], qs_id = [], qs_revision = [], qs_summary = [], qs_match_reason = [], qs_executable = False,
     qs_source_ref = [], qs_manifest = None, qs_issue_code = [], qs_detail = [], qs_generation = [], qs_fingerprint = [],
     qs_issue_count = 0\<rparr>"

text \<open>\<open>ke_refresh\<close> is the generation \<open>Indexer.Refresh\<close> makes current (its effect on the store is the
  indexer's publication); \<open>ke_roots\<close> the unconfigured catalog roots it noticed; \<open>ke_pick\<close> the choice
  SQLite makes among equal expiries.\<close>

record catalog_env =
  ke_workspace :: string
  ke_execution :: bool
  ke_codec :: codec
  ke_lower :: "string \<Rightarrow> string"
  ke_valid :: "string \<Rightarrow> bool"
  ke_manifest :: "string \<Rightarrow> manifest option"
  ke_detail :: "string \<Rightarrow> (string, string) gomap option"
  ke_encode :: "query_result \<Rightarrow> string"
  ke_decode :: "string \<Rightarrow> query_result option"
  ke_size :: "query_result response \<Rightarrow> nat"
  ke_hash :: "string \<Rightarrow> string"
  ke_roots :: "string list"
  ke_pick :: "result_set list \<Rightarrow> result_set"


definition resultSetTTL :: time where "resultSetTTL = seconds (30 * 60)"
definition resultSetMinReuse :: time where "resultSetMinReuse = resultSetTTL div 2"
definition MaxManifestFiles :: int where "MaxManifestFiles = 10000"

section \<open>Pages\<close>

definition too_large :: go_error where "too_large = Text ''catalog: response cannot fit byte_limit''"

definition catalog_page_body ::
    "catalog_env \<Rightarrow> string \<Rightarrow> nat \<Rightarrow> time \<Rightarrow> nat \<Rightarrow> query_result list \<Rightarrow> nat \<Rightarrow> nat \<Rightarrow> go_error + query_result response option" where
  "catalog_page_body env k start expires whole items byte_limit returned =
     (let next_ordinal = start + returned; has_more = next_ordinal < whole
      in try_then (page_cursor (ke_codec env) (ke_workspace env) k next_ordinal whole expires) (\<lambda>cursor.
        let response = \<lparr>rs_status = StatusOK, rs_items = take returned items,
              rs_counts = \<lparr>cn_matched = Some (of_nat whole), cn_relation = CountExact, cn_returned = of_nat returned\<rparr>,
              rs_scan = \<lparr>sc_state = ScanComplete, sc_scope_ref = None\<rparr>, rs_truncated = Some has_more,
              rs_next_cursor = cursor, rs_snapshot_ref = Some (''snapshot:'' @ k), rs_warnings = []\<rparr>
        in Inr (if ke_size env response \<le> byte_limit then Some response else None)))"

definition catalog_read_page ::
    "catalog_env \<Rightarrow> catalog_db \<Rightarrow> string \<Rightarrow> nat \<Rightarrow> nat \<Rightarrow> nat \<Rightarrow> time \<Rightarrow> go_error + query_result response" where
  "catalog_read_page env db k start item_limit byte_limit expires =
     try_then (read_result_page k start item_limit db) (\<lambda>page.
     try_then (decode_items (Text ''decode stored result'') (ke_decode env) (pg_items page)) (\<lambda>items.
       fit_page too_large (catalog_page_body env k start expires (pg_total page) items byte_limit) (length items)))"

definition catalog_page_from_cursor ::
    "catalog_env \<Rightarrow> catalog_db \<Rightarrow> time \<Rightarrow> string \<Rightarrow> nat \<Rightarrow> nat \<Rightarrow> go_error + query_result response" where
  "catalog_page_from_cursor env db now encoded item_limit byte_limit =
     try_then (decode_cursor (ke_codec env) now encoded (ke_workspace env)) (\<lambda>p.
       catalog_read_page env db (cr_set p) (cr_next p) item_limit byte_limit (seconds (cr_expires p)))"

definition stored_item :: "catalog_env \<Rightarrow> string \<Rightarrow> nat \<Rightarrow> query_result \<Rightarrow> result_item" where
  "stored_item env k n r =
     \<lparr>ri_ordinal = n, ri_ref = (if qs_source_ref r = [] then ''catalog-result:'' @ k @ '':'' @ itoa n else qs_source_ref r),
      ri_hash = ''sha256:'' @ ke_hash env (ke_encode env r), ri_payload = ke_encode env r\<rparr>"

definition stored_items :: "catalog_env \<Rightarrow> string \<Rightarrow> query_result list \<Rightarrow> result_item list" where
  "stored_items env k rs = map (\<lambda>(n, r). stored_item env k n r) (List.enumerate 0 rs)"

definition catalog_query_hash :: "catalog_env \<Rightarrow> generation_meta \<Rightarrow> string \<Rightarrow> string" where
  "catalog_query_hash env m key = ''sha256:'' @ ke_hash env
     (''catalog.v2'' @ [CHR 0x00] @ gm_id m @ [CHR 0x00] @ (if ke_execution env then ''true'' else ''false'') @ [CHR 0x00] @ key)"

definition catalog_result_set :: "catalog_env \<Rightarrow> time \<Rightarrow> string \<Rightarrow> generation_meta \<Rightarrow> string \<Rightarrow> query_result list \<Rightarrow> result_set" where
  "catalog_result_set env now k m key results =
     \<lparr>sn_id = k, sn_workspace = ke_workspace env, sn_query = catalog_query_hash env m key, sn_generation = gm_id m,
      sn_created_at = now, sn_expires_at = now + resultSetTTL, sn_metadata = ''{}'', sn_items = stored_items env k results\<rparr>"

text \<open>\<open>set_id\<close> is the random identifier drawn for a new set.\<close>

definition catalog_first_page ::
    "catalog_env \<Rightarrow> time \<Rightarrow> string \<Rightarrow> generation_meta \<Rightarrow> string \<Rightarrow> nat \<Rightarrow> nat \<Rightarrow> go_error + query_result list \<Rightarrow>
     catalog_db \<Rightarrow> catalog_db \<times> (go_error + query_result response)" where
  "catalog_first_page env now set_id m key item_limit byte_limit built db =
     (case find_result_set (ke_pick env) (ke_workspace env) (gm_id m) (catalog_query_hash env m key) (now + resultSetMinReuse) db of
        Inr s \<Rightarrow> (db, catalog_read_page env db (sn_id s) 0 item_limit byte_limit (sn_expires_at s))
      | Inl _ \<Rightarrow>
          (case built of
             Inl e \<Rightarrow> (db, Inl e)
           | Inr results \<Rightarrow>
               (let s = catalog_result_set env now set_id m key results
                in case create_result_set (ke_valid env) s db of
                     (db', Inl e) \<Rightarrow> (db', Inl e)
                   | (db', Inr _) \<Rightarrow>
                       (db', catalog_read_page env db' set_id 0 item_limit byte_limit (sn_expires_at s)))))"

section \<open>Modes\<close>

definition query_result_of :: "catalog_env \<Rightarrow> catalog_item \<Rightarrow> bool \<Rightarrow> go_error + query_result" where
  "query_result_of env i include_manifest =
     (case ke_manifest env (ci_document i) of
        None \<Rightarrow> Inl (Text (''decode stored manifest '' @ ci_id i))
      | Some m \<Rightarrow> Inr (blank_result\<lparr>qs_kind := ''catalog_item'', qs_id := ci_id i, qs_revision := ci_revision i,
            qs_summary := mf_summary m,
            qs_executable := ke_execution env \<and> (case mf_execution m of None \<Rightarrow> False | Some e \<Rightarrow> ex_trusted e),
            qs_source_ref := ci_source i, qs_manifest := (if include_manifest then Some m else None)\<rparr>))"

definition match_reason :: "string \<Rightarrow> int \<Rightarrow> string" where
  "match_reason query sc = (if 1000000 \<le> sc then ''exact_id'' else if query \<noteq> [] then ''lexical'' else ''list'')"

fun search_results :: "catalog_env \<Rightarrow> string \<Rightarrow> catalog_match list \<Rightarrow> go_error + query_result list" where
  "search_results env query [] = Inr []"
| "search_results env query (m # ms) =
     try_then (query_result_of env (mt_item m) False) (\<lambda>r.
     try_then (search_results env query ms) (\<lambda>rs.
       Inr (r\<lparr>qs_match_reason := match_reason query (mt_score m)\<rparr> # rs)))"

definition search_build :: "catalog_env \<Rightarrow> generation_meta \<Rightarrow> string \<Rightarrow> catalog_db \<Rightarrow> go_error + query_result list" where
  "search_build env m query db =
     try_then (search_catalog (ke_lower env) \<lparr>cq_workspace = ke_workspace env, cq_generation = gm_id m,
         cq_exact = trim_space query, cq_terms = fields_of query, cq_limit = nat MaxManifestFiles\<rparr> db)
       (\<lambda>page. search_results env query (cp_matches page))"

definition no_match_warning :: warning where
  "no_match_warning = \<lparr>wn_code = ''catalog_no_match'',
     wn_message = ''no match; check catalog_query(mode=status) and runtime_config(action=status)'', wn_ref = None\<rparr>"

definition catalog_search ::
    "catalog_env \<Rightarrow> time \<Rightarrow> string \<Rightarrow> generation_meta \<Rightarrow> string \<Rightarrow> nat \<Rightarrow> nat \<Rightarrow> catalog_db \<Rightarrow>
     catalog_db \<times> (go_error + query_result response)" where
  "catalog_search env now set_id m query item_limit byte_limit db =
     (case catalog_first_page env now set_id m (''search'' @ [CHR 0x00] @ query) item_limit byte_limit (search_build env m query db) db of
        (db', Inl e) \<Rightarrow> (db', Inl e)
      | (db', Inr r) \<Rightarrow>
          if query \<noteq> [] \<and> cn_matched (rs_counts r) = Some 0 then
            (let r' = r\<lparr>rs_warnings := rs_warnings r @ [no_match_warning]\<rparr>
             in (db', if ke_size env r' \<le> byte_limit then Inr r' else Inl too_large))
          else (db', Inr r))"

definition missing_capability :: go_error where
  "missing_capability = Wrap ''catalog capability is not registered in configured roots'' (Sentinel StoreNotFound)"

definition catalog_single :: "query_result \<Rightarrow> string \<Rightarrow> scan_state \<Rightarrow> warning list \<Rightarrow> query_result response" where
  "catalog_single r k state ws =
     \<lparr>rs_status = StatusOK, rs_items = [r], rs_counts = \<lparr>cn_matched = Some 1, cn_relation = CountExact, cn_returned = 1\<rparr>,
      rs_scan = \<lparr>sc_state = state, sc_scope_ref = None\<rparr>, rs_truncated = Some False, rs_next_cursor = None,
      rs_snapshot_ref = Some (''snapshot:'' @ k), rs_warnings = ws\<rparr>"

definition bounded_response :: "catalog_env \<Rightarrow> nat \<Rightarrow> query_result response \<Rightarrow> go_error + query_result response" where
  "bounded_response env byte_limit r = (if ke_size env r \<le> byte_limit then Inr r else Inl too_large)"

definition catalog_get ::
    "catalog_env \<Rightarrow> generation_meta \<Rightarrow> string \<Rightarrow> nat \<Rightarrow> catalog_db \<Rightarrow> go_error + query_result response" where
  "catalog_get env m i byte_limit db =
     (case get_catalog_item (ke_workspace env) (gm_id m) i db of
        Inl e \<Rightarrow> Inl (if errors_is e StoreNotFound then missing_capability else e)
      | Inr item \<Rightarrow>
          try_then (query_result_of env item True) (\<lambda>r.
            bounded_response env byte_limit (catalog_single r (gm_id m) ScanNotApplicable [])))"

fun issue_results :: "catalog_env \<Rightarrow> catalog_issue list \<Rightarrow> go_error + query_result list" where
  "issue_results env [] = Inr []"
| "issue_results env (u # us) = (case ke_detail env (cu_detail u) of
      None \<Rightarrow> Inl (Text ''decode catalog issue'')
    | Some d \<Rightarrow> try_then (issue_results env us) (\<lambda>rs.
        Inr (blank_result\<lparr>qs_kind := ''issue'', qs_source_ref := cu_source u, qs_issue_code := cu_code u, qs_detail := d\<rparr> # rs)))"

definition catalog_audit ::
    "catalog_env \<Rightarrow> time \<Rightarrow> string \<Rightarrow> generation_meta \<Rightarrow> nat \<Rightarrow> nat \<Rightarrow> catalog_db \<Rightarrow>
     catalog_db \<times> (go_error + query_result response)" where
  "catalog_audit env now set_id m item_limit byte_limit db =
     catalog_first_page env now set_id m ''audit'' item_limit byte_limit
       (try_then (list_catalog_issues (ke_workspace env) (gm_id m) db) (issue_results env)) db"

definition root_warning :: "string \<Rightarrow> warning" where
  "root_warning r = \<lparr>wn_code = ''catalog_candidate_unconfigured'',
     wn_message = ''unconfigured catalog root; inspect runtime_config'', wn_ref = Some r\<rparr>"

definition catalog_status ::
    "catalog_env \<Rightarrow> generation_meta \<Rightarrow> nat \<Rightarrow> catalog_db \<Rightarrow> go_error + query_result response" where
  "catalog_status env m byte_limit db =
     try_then (search_catalog (ke_lower env) \<lparr>cq_workspace = ke_workspace env, cq_generation = gm_id m, cq_exact = [],
         cq_terms = [], cq_limit = nat MaxManifestFiles\<rparr> db) (\<lambda>page.
     try_then (list_catalog_issues (ke_workspace env) (gm_id m) db) (\<lambda>issues.
       bounded_response env byte_limit (catalog_single
         (blank_result\<lparr>qs_kind := ''status'', qs_generation := gm_id m, qs_fingerprint := gm_fingerprint m,
            qs_summary := itoa (length (cp_matches page)) @ '' catalog items'', qs_issue_count := length issues\<rparr>)
         (gm_id m) ScanComplete (map root_warning (ke_roots env)))))"

text \<open>\<open>refreshed\<close> is the outcome of the refresh, taken only after the request itself passed.\<close>

definition catalog_query ::
    "catalog_env \<Rightarrow> time \<Rightarrow> string \<Rightarrow> (catalog_db \<Rightarrow> catalog_db \<times> (go_error + generation_meta)) \<Rightarrow> query_request \<Rightarrow> catalog_db \<Rightarrow>
     catalog_db \<times> (go_error + query_result response)" where
  "catalog_query env now set_id refresh q db =
     (if qr_mode q = [] \<and> qr_cursor q = [] then (db, Inl (Text ''mode required''))
      else case normalize_limits (qr_limits q) of
        Inl e \<Rightarrow> (db, Inl e)
      | Inr l \<Rightarrow>
          (let item_limit = unat (lm_item_limit l); byte_limit = unat (lm_byte_limit l)
           in if qr_cursor q \<noteq> [] then
                (if \<not> List.member [[], ''search'', ''list''] (qr_mode q)
                 then (db, Inl (Text ''cursor is only valid for search or list''))
                 else (db, catalog_page_from_cursor env db now (qr_cursor q) item_limit byte_limit))
              else case refresh db of
                (db', Inl e) \<Rightarrow> (db', Inl (Wrap ''refresh catalog'' e))
              | (db', Inr m) \<Rightarrow>
                  if qr_mode q = ''search'' then
                    (if trim_space (qr_query q) = [] then (db', Inl (Text ''query is required for search''))
                     else catalog_search env now set_id m (qr_query q) item_limit byte_limit db')
                  else if qr_mode q = ''list'' then catalog_search env now set_id m [] item_limit byte_limit db'
                  else if qr_mode q = ''get'' then
                    (if qr_id q = [] then (db', Inl (Text ''id is required for get''))
                     else (db', catalog_get env m (qr_id q) byte_limit db'))
                  else if qr_mode q = ''audit'' then catalog_audit env now set_id m item_limit byte_limit db'
                  else if qr_mode q = ''status'' then (db', catalog_status env m byte_limit db')
                  else (db', Inl (Text (''unsupported catalog mode '' @ qr_mode q)))))"

record capability =
  cb_manifest :: manifest
  cb_revision :: string
  cb_source_ref :: string
  cb_execution_fingerprint :: string
  cb_generation :: string

definition resolve_capability ::
    "catalog_env \<Rightarrow> (catalog_db \<Rightarrow> catalog_db \<times> (go_error + generation_meta)) \<Rightarrow> string \<Rightarrow> catalog_db \<Rightarrow>
     catalog_db \<times> (go_error + capability)" where
  "resolve_capability env refresh i db =
     (case refresh db of
        (db', Inl e) \<Rightarrow> (db', Inl (Wrap ''refresh catalog'' e))
      | (db', Inr m) \<Rightarrow>
          (db', case get_catalog_item (ke_workspace env) (gm_id m) i db' of
             Inl e \<Rightarrow> Inl (if errors_is e StoreNotFound then missing_capability else e)
           | Inr item \<Rightarrow> (case ke_manifest env (ci_document item) of
               None \<Rightarrow> Inl (Text (''decode stored manifest '' @ ci_id item))
             | Some mf \<Rightarrow> Inr \<lparr>cb_manifest = mf, cb_revision = ci_revision item, cb_source_ref = ci_source item,
                 cb_execution_fingerprint = ci_execution item, cb_generation = gm_id m\<rparr>)))"

section \<open>Paging\<close>

definition catalog_start :: "catalog_env \<times> result_set \<Rightarrow> page_call \<Rightarrow> go_error + query_result response" where
  "catalog_start st l = catalog_read_page (fst st) (pl_db l) (sn_id (snd st)) 0 (pl_items l) (pl_bytes l) (sn_expires_at (snd st))"

definition catalog_resume :: "catalog_env \<times> result_set \<Rightarrow> string \<Rightarrow> page_call \<Rightarrow> go_error + query_result response" where
  "catalog_resume st c l = catalog_page_from_cursor (fst st) (pl_db l) (pl_now l) c (pl_items l) (pl_bytes l)"

definition catalog_contents :: "catalog_env \<times> result_set \<Rightarrow> query_result list" where
  "catalog_contents st = set_contents (ke_decode (fst st)) (snd st)"

definition catalog_call :: "catalog_env \<times> result_set \<Rightarrow> page_call \<Rightarrow> bool" where
  "catalog_call st = call_meets (ke_codec (fst st)) (ke_workspace (fst st)) (snd st)"

definition catalog_points :: "catalog_env \<times> result_set \<Rightarrow> string \<Rightarrow> nat \<Rightarrow> bool" where
  "catalog_points st = cursor_points (ke_codec (fst st)) (ke_workspace (fst st)) (snd st)"

lemma catalog_body_fits:
  assumes "catalog_page_body env k start expires whole items byte_limit n = Inr (Some r)"
  shows "rs_items r = take n items \<and>
    page_cursor (ke_codec env) (ke_workspace env) k (start + n) whole expires = Inr (rs_next_cursor r) \<and>
    ke_size env r \<le> byte_limit \<and> cn_returned (rs_counts r) = of_nat n"
  using assms by (auto simp: catalog_page_body_def Let_def split: if_splits)

lemma catalog_page_slice:
  assumes "catalog_call (env, s) l" "n \<le> length (sn_items s)" "unix_seconds x = unix_seconds (sn_expires_at s)"
    "catalog_read_page env (pl_db l) (sn_id s) n (pl_items l) (pl_bytes l) x = Inr r"
  shows "page_slice (catalog_points (env, s)) rs_items rs_next_cursor (catalog_contents (env, s)) n r"
proof -
  from assms(4) obtain p "is" where p: "read_result_page (sn_id s) n (pl_items l) (pl_db l) = Inr p"
    "decode_items (Text ''decode stored result'') (ke_decode env) (pg_items p) = Inr is"
    "fit_page too_large (catalog_page_body env (sn_id s) n x (pg_total p) is (pl_bytes l)) (length is) = Inr r"
    by (auto simp: catalog_read_page_def)
  show ?thesis
    unfolding catalog_points_def catalog_contents_def fst_conv snd_conv
    by (rule fit_page_slice [OF _ assms(2) p(1,2) assms(3) p(3)])
      (use assms(1) catalog_body_fits in \<open>auto simp: catalog_call_def\<close>)
qed

interpretation catalog_pages: paged catalog_start catalog_resume rs_items rs_next_cursor catalog_contents catalog_call catalog_points
proof
  fix st l r
  assume "catalog_call st l" "catalog_start st l = Inr r"
  then show "page_slice (catalog_points st) rs_items rs_next_cursor (catalog_contents st) 0 r"
    using catalog_page_slice [of "fst st" "snd st" l 0 "sn_expires_at (snd st)" r] by (simp add: catalog_start_def)
next
  fix st l c n r
  assume a: "catalog_call st l" "catalog_points st c n" "n \<le> length (catalog_contents st)" "catalog_resume st c l = Inr r"
  let ?env = "fst st" and ?s = "snd st"
  from a(4) obtain p where p: "decode_cursor (ke_codec ?env) (pl_now l) c (ke_workspace ?env) = Inr p"
    "catalog_read_page ?env (pl_db l) (cr_set p) (cr_next p) (pl_items l) (pl_bytes l) (seconds (cr_expires p)) = Inr r"
    by (auto simp: catalog_resume_def catalog_page_from_cursor_def)
  from a(1,2) decoded_cursor_points [OF _ _ p(1), of ?s n]
  have "cr_set p = sn_id ?s" "cr_next p = n" "cr_expires p = unix_seconds (sn_expires_at ?s)"
    by (auto simp: catalog_points_def catalog_call_def call_meets_def)
  with p(2) a(1,3) catalog_page_slice [of ?env ?s l n "seconds (unix_seconds (sn_expires_at ?s))" r]
  show "page_slice (catalog_points st) rs_items rs_next_cursor (catalog_contents st) n r"
    by (simp add: catalog_contents_def set_contents_def)
qed

section \<open>Properties\<close>

text \<open>C16: a client that follows the cursors of a catalog result set, at whatever limits and whatever
  reachable states of the store it meets as long as they hold the set, receives its items in order,
  each once; it has all of them when no cursor is returned, which is so after at most one page for
  every item.\<close>

theorem catalog_paging_complete:
  fixes l :: page_call and ls :: "page_call list"
  assumes "catalog_reachable json_valid (pl_db l)" "\<forall>x \<in> set ls. catalog_reachable json_valid (pl_db x)"
    "s \<in> set (db_results (pl_db l))" "\<forall>x \<in> set ls. s \<in> set (db_results (pl_db x))"
    "codec_law (ke_codec env) (ke_workspace env) s"
    "catalog_read_page env (pl_db l) (sn_id s) 0 (pl_items l) (pl_bytes l) (sn_expires_at s) = Inr r"
    "follow (\<lambda>c x. catalog_page_from_cursor env (pl_db x) (pl_now x) c (pl_items x) (pl_bytes x))
       rs_items rs_next_cursor r ls = Inr (xs, finished)"
  shows "xs = take (length xs) (set_contents (ke_decode env) s) \<and>
    (finished \<longleftrightarrow> xs = set_contents (ke_decode env) s) \<and>
    (length (sn_items s) \<le> Suc (length ls) \<longrightarrow> finished)"
proof -
  have "catalog_call (env, s) l" "\<forall>x \<in> set ls. catalog_call (env, s) x"
    using reachable_call_meets assms(1-5) by (auto simp: catalog_call_def)
  moreover have "catalog_start (env, s) l = Inr r" using assms(6) by (simp add: catalog_start_def)
  moreover have "follow (catalog_resume (env, s)) rs_items rs_next_cursor r ls = Inr (xs, finished)"
    using assms(7) by (simp add: catalog_resume_def [abs_def])
  ultimately have all: "xs = take (length xs) (catalog_contents (env, s)) \<and> (finished \<longleftrightarrow> xs = catalog_contents (env, s)) \<and>
    (length (catalog_contents (env, s)) \<le> Suc (length ls) \<longrightarrow> finished)"
    using catalog_pages.follow_all [of "(env, s)" l r ls xs finished] by blast
  have eq: "catalog_contents (env, s) = set_contents (ke_decode env) s" by (simp add: catalog_contents_def)
  have len: "length (set_contents (ke_decode env) s) = length (sn_items s)" by (simp add: set_contents_def)
  from all show ?thesis unfolding eq len .
qed

text \<open>A query that repeats one word, and the score it gives a declaration whose identifier contains it.\<close>

definition repeated_query :: "nat \<Rightarrow> string" where
  "repeated_query n = ''a'' @ concat (replicate n '' a'')"

definition xa_item :: catalog_item where
  "xa_item = \<lparr>ci_id = ''xa'', ci_revision = ''r'', ci_source = ''s'', ci_execution = [], ci_document = ''{}'',
     ci_terms = [\<lparr>ct_field = ''id'', ct_term = ''xa'', ct_weight = 100\<rparr>]\<rparr>"

lemma no_space_a [simp]: "strip_any space_encodings (CHR ''a'' # s) = None" "strip_any (map rev space_encodings) (CHR ''a'' # s) = None"
  by (simp_all add: space_encodings_def has_prefix_def)

lemma space_first [simp]: "strip_any space_encodings (CHR '' '' # s) = Some s"
  by (simp add: space_encodings_def has_prefix_def)

lemma fields_repeated: "fields_of (repeated_query n) = replicate (Suc n) ''a''"
proof -
  have "fields_from ''a'' (concat (replicate n '' a'')) = replicate (Suc n) ''a''" for n
  proof (induction n)
    case 0
    show ?case by (subst fields_from.simps) (simp add: space_encodings_def has_prefix_def)
  next
    case (Suc n)
    have "fields_from [] (''a'' @ concat (replicate n '' a'')) = fields_from ''a'' (concat (replicate n '' a''))"
      by (subst fields_from.simps) simp
    then show ?case using Suc by (subst fields_from.simps) simp
  qed
  then show ?thesis unfolding fields_of_def repeated_query_def by (subst fields_from.simps) simp
qed

lemma trim_repeated: "trim_space (repeated_query n) = repeated_query n"
proof -
  have l: "trim_left (repeated_query n) = repeated_query n"
    unfolding trim_left_def repeated_query_def by (subst trim_with.simps) simp
  have "rev (concat (replicate n '' a'')) @ ''a'' = ''a'' @ concat (replicate n '' a'')" for n
  proof (induction n)
    case (Suc n)
    have "concat (replicate n '' a'') @ '' a'' = '' a'' @ concat (replicate n '' a'')" by (induction n) auto
    with Suc show ?case by simp
  qed simp
  then have "rev (repeated_query n) = repeated_query n" by (simp add: repeated_query_def)
  then show ?thesis unfolding trim_space_def l trim_right_def
    by (subst trim_with.simps) (simp add: repeated_query_def)
qed

lemma wrap64_small: "0 \<le> x \<Longrightarrow> x < 2 ^ 63 \<Longrightarrow> wrap64 x = x"
  unfolding wrap64_def by (rule signed_take_bit_int_eq_self) simp_all

lemma repeated_score:
  assumes "0 \<le> r" "r + 100 * int n < 2 ^ 63" "fold_catalog_text lower ''xa'' = ''xa''"
  shows "fold (\<lambda>q r. fold (\<lambda>t r. if contains_str (fold_catalog_text lower (ct_term t)) q
           then wrap64 (r + ct_weight t) else r) (ci_terms xa_item) r) (replicate n ''a'') r = r + 100 * int n"
  using assms
proof (induction n arbitrary: r)
  case (Suc n)
  then have w: "wrap64 (r + 100) = r + 100" by (intro wrap64_small) auto
  have c: "contains_str ''xa'' ''a''" by code_simp
  have step: "fold (\<lambda>t r. if contains_str (fold_catalog_text lower (ct_term t)) ''a''
      then wrap64 (r + ct_weight t) else r) (ci_terms xa_item) r = r + 100"
    using w c Suc.prems(3) by (simp add: xa_item_def)
  show ?case unfolding replicate_Suc fold_simps step using Suc.IH [of "r + 100"] Suc.prems by simp
qed simp

text \<open>A long query that repeats a word is reported as an exact identifier match of a declaration whose
  identifier merely contains the word: the lexical score reaches the threshold that stands for exactness.\<close>

theorem long_query_labelled_exact:
  assumes "9999 \<le> n" "int n < 10 ^ 15" "lower ''a'' = ''a''" "lower ''xa'' = ''xa''"
    "lower (repeated_query n) = repeated_query n"
  shows "fold_catalog_text lower (trim_space (repeated_query n)) \<noteq> fold_catalog_text lower (ci_id xa_item) \<and>
    (\<exists>m. catalog_match_of lower (trim_space (repeated_query n)) (normalize_terms lower (fields_of (repeated_query n)))
        (read_terms xa_item) = Some m \<and> match_reason (repeated_query n) (mt_score m) = ''exact_id'')"
proof -
  have len: "length (repeated_query n) = 2 * n + 1" by (simp add: repeated_query_def length_concat sum_list_replicate)
  have f: "fold_catalog_text lower ''a'' = ''a''" "fold_catalog_text lower ''xa'' = ''xa''"
    using assms(3,4) by (simp_all add: fold_catalog_text_def)
  have "length (fold_catalog_text lower (repeated_query n)) = 2 * n + 1"
    using assms(5) len by (simp add: fold_catalog_text_def)
  then have ne: "fold_catalog_text lower (trim_space (repeated_query n)) \<noteq> fold_catalog_text lower (ci_id xa_item)"
    using assms(1) f(2) by (auto simp: trim_repeated xa_item_def)
  have ta: "trim_space ''a'' = ''a''" using trim_repeated [of 0] by (simp add: repeated_query_def)
  have terms: "normalize_terms lower (fields_of (repeated_query n)) = replicate (Suc n) ''a''"
    unfolding fields_repeated normalize_terms_def map_replicate ta f(1) by simp
  have rt: "ci_terms (read_terms xa_item) = ci_terms xa_item" "ci_id (read_terms xa_item) = ci_id xa_item"
    by (simp_all add: read_terms_def xa_item_def)
  have "item_score lower (ci_terms xa_item) (replicate (Suc n) ''a'') = 100 * int (Suc n)"
    unfolding item_score_def using repeated_score [of 0 "Suc n" lower] assms(2) f(2) by simp
  with ne terms rt assms(1) show ?thesis
    by (simp add: catalog_match_of_def match_reason_def Let_def trim_repeated)
qed

section \<open>Witnesses\<close>

definition demo_pair :: result_set where
  "demo_pair = \<lparr>sn_id = ''s'', sn_workspace = ''w'', sn_query = ''q'', sn_generation = ''g1'', sn_created_at = 6,
     sn_expires_at = seconds 40, sn_metadata = ''{}'',
     sn_items = [\<lparr>ri_ordinal = 0, ri_ref = ''x'', ri_hash = ''h'', ri_payload = ''1''\<rparr>,
                 \<lparr>ri_ordinal = 1, ri_ref = ''y'', ri_hash = ''h'', ri_payload = ''2''\<rparr>]\<rparr>"

definition demo_pair_db :: catalog_db where
  "demo_pair_db = fst (create_result_set (\<lambda>_. True) demo_pair demo_catalog)"

lemma demo_pair_db_reachable: "catalog_reachable (\<lambda>_. True) demo_pair_db"
proof -
  have "catalog_step (\<lambda>_. True) (sn_created_at demo_pair) demo_catalog demo_pair_db"
    unfolding demo_pair_db_def by (rule snapshot)
  with demo_catalog_reachable show ?thesis by (rule catalog_reachable.step)
qed

lemma demo_pair_stored: "demo_pair \<in> set (db_results demo_pair_db)"
  by code_simp

definition demo_catalog_env :: catalog_env where
  "demo_catalog_env = \<lparr>ke_workspace = ''w'', ke_execution = False, ke_codec = demo_codec (seconds 40), ke_lower = (\<lambda>s. s),
     ke_valid = (\<lambda>_. True), ke_manifest = (\<lambda>_. None), ke_detail = (\<lambda>_. None), ke_encode = qs_summary,
     ke_decode = (\<lambda>s. Some (blank_result\<lparr>qs_summary := s\<rparr>)), ke_size = (\<lambda>_. 0), ke_hash = (\<lambda>s. s), ke_roots = [], ke_pick = hd\<rparr>"

definition demo_call :: page_call where
  "demo_call = \<lparr>pl_db = demo_pair_db, pl_now = 9, pl_items = 1, pl_bytes = 10\<rparr>"

lemma demo_codec_law: "codec_law (demo_codec (seconds 40)) ''w'' demo_pair"
  by (simp add: codec_law_def demo_codec_def demo_pair_def cursor_for_def)

theorem catalog_paging_complete_witness:
  "\<exists>r. catalog_read_page demo_catalog_env demo_pair_db ''s'' 0 1 10 (seconds 40) = Inr r \<and> length (rs_items r) = 1 \<and>
    follow (\<lambda>c x. catalog_page_from_cursor demo_catalog_env (pl_db x) (pl_now x) c (pl_items x) (pl_bytes x))
      rs_items rs_next_cursor r [demo_call] = Inr (set_contents (ke_decode demo_catalog_env) demo_pair, True)"
proof -
  let ?first = "catalog_read_page demo_catalog_env demo_pair_db ''s'' 0 1 10 (seconds 40)"
  let ?more = "\<lambda>r. follow (\<lambda>c x. catalog_page_from_cursor demo_catalog_env (pl_db x) (pl_now x) c (pl_items x) (pl_bytes x))
      rs_items rs_next_cursor r [demo_call]"
  have e: "is_ok ?first" "length (rs_items (projr ?first)) = 1" "is_ok (?more (projr ?first))" by code_simp+
  from e(1) obtain r where r1: "?first = Inr r" unfolding is_ok_iff by blast
  from e(2,3) have r: "?first = Inr r" "length (rs_items r) = 1" and "is_ok (?more r)" unfolding r1 sum.sel by simp_all
  then obtain xs finished where m: "?more r = Inr (xs, finished)" unfolding is_ok_iff by (metis surj_pair)
  have call: "pl_db demo_call = demo_pair_db" "pl_items demo_call = 1" "pl_bytes demo_call = 10"
    "sn_id demo_pair = ''s''" "sn_expires_at demo_pair = seconds 40" "length (sn_items demo_pair) = 2"
    "ke_codec demo_catalog_env = demo_codec (seconds 40)" "ke_workspace demo_catalog_env = ''w''"
    by (simp_all add: demo_call_def demo_pair_def demo_catalog_env_def)
  have "xs = take (length xs) (set_contents (ke_decode demo_catalog_env) demo_pair) \<and>
      (finished \<longleftrightarrow> xs = set_contents (ke_decode demo_catalog_env) demo_pair) \<and>
      (length (sn_items demo_pair) \<le> Suc (length [demo_call]) \<longrightarrow> finished)"
    by (rule catalog_paging_complete [where l = demo_call and r = r and env = demo_catalog_env and json_valid = "\<lambda>_. True"])
      (use r(1) m demo_codec_law demo_pair_db_reachable demo_pair_stored in \<open>simp_all add: call del: follow.simps\<close>)
  note f = this [THEN conjunct2, THEN conjunct1] this [THEN conjunct2, THEN conjunct2]
  from f(2) have "finished" by (simp add: call(6))
  moreover from this f(1) have "xs = set_contents (ke_decode demo_catalog_env) demo_pair" by (rule iffD1 [rotated])
  ultimately show ?thesis using r m by (intro exI [of _ r]) (simp del: follow.simps)
qed

theorem long_query_labelled_exact_witness:
  "\<exists>m. catalog_match_of (\<lambda>s. s) (trim_space (repeated_query 9999)) (normalize_terms (\<lambda>s. s) (fields_of (repeated_query 9999)))
     (read_terms xa_item) = Some m \<and> match_reason (repeated_query 9999) (mt_score m) = ''exact_id''"
  using long_query_labelled_exact [of 9999 "\<lambda>s. s"] by simp

end
