(* ===== verification/TextContent.thy ===== *)
theory TextContent
  imports GoPrelude
begin

text \<open>
  Reading source text: the bounded readers of \<open>internal/content/bounded.go\<close> and the explicit
  encodings of \<open>internal/textcodec/codec.go\<close>. The Korean tables of \<open>golang.org/x/text\<close> are the fields of
  \<open>korean\<close>, SHA-256 is the argument \<open>sha\<close>, and a reader is the list of answers of its \<open>Read\<close> calls.
\<close>

section \<open>Bounded readers\<close>

text \<open>\<open>io.LimitReader(r, int64(limit)+1)\<close>: the conversion and the addition wrap around.\<close>

definition limit_reader_bound :: "u64 \<Rightarrow> int" where
  "limit_reader_bound limit = sint (limit + 1)"

definition limit_read :: "int \<Rightarrow> string \<Rightarrow> string" where
  "limit_read n source = (if n \<le> 0 then [] else if int (length source) \<le> n then source else take (nat n) source)"

definition read_bounded :: "go_error + string \<Rightarrow> u64 \<Rightarrow> go_error + (string \<times> bool)" where
  "read_bounded source limit =
     (if limit = 0 then Inl (Sentinel ContentInvalidLimit)
      else try_then source (\<lambda>s.
        let data = limit_read (limit_reader_bound limit) s
        in if uint limit < int (length data) then Inr (take (unat limit) data, True) else Inr (data, False)))"

datatype read_status = ReadMore | ReadEOF | ReadFailed go_error

text \<open>One call of the loop in \<open>HashBounded\<close> per answer; \<open>None\<close> as long as the reader has not finished. The
  check of the context is the argument \<open>cancelled\<close> of the call number.\<close>

fun hash_loop ::
    "(string \<Rightarrow> string) \<Rightarrow> (nat \<Rightarrow> bool) \<Rightarrow> nat \<Rightarrow> nat \<Rightarrow> string \<Rightarrow> (string \<times> read_status) list \<Rightarrow>
     (go_error + (string \<times> nat)) option" where
  "hash_loop sha cancelled n max_bytes seen [] =
     (if cancelled n then Some (Inl (Text ''context cancelled'')) else None)"
| "hash_loop sha cancelled n max_bytes seen ((data, state) # answers) =
     (if cancelled n then Some (Inl (Text ''context cancelled''))
      else let total = length seen + length data
        in if data \<noteq> [] \<and> max_bytes < total then Some (Inl (Sentinel ContentTooLarge))
           else case state of
             ReadEOF \<Rightarrow> Some (Inr (''sha256:'' @ sha (seen @ data), total))
           | ReadFailed e \<Rightarrow> Some (Inl (Wrap ''read source: '' e))
           | ReadMore \<Rightarrow> if data = [] then Some (Inl (Text ''multiple Read calls return no data or error''))
               else hash_loop sha cancelled (Suc n) max_bytes (seen @ data) answers)"

definition hash_bounded ::
    "(string \<Rightarrow> string) \<Rightarrow> (nat \<Rightarrow> bool) \<Rightarrow> nat \<Rightarrow> (string \<times> read_status) list \<Rightarrow> (go_error + (string \<times> nat)) option" where
  "hash_bounded sha cancelled max_bytes answers =
     (if max_bytes = 0 then Some (Inl (Sentinel ContentInvalidLimit)) else hash_loop sha cancelled 0 max_bytes [] answers)"

section \<open>Encodings\<close>

datatype encoding = Utf8 | Cp949 | EucKr

definition encoding_name :: "encoding \<Rightarrow> string" where
  "encoding_name e = (case e of Utf8 \<Rightarrow> ''utf-8'' | Cp949 \<Rightarrow> ''cp949'' | EucKr \<Rightarrow> ''euc-kr'')"

definition normalize_encoding :: "(string \<Rightarrow> string) \<Rightarrow> string \<Rightarrow> go_error + encoding" where
  "normalize_encoding lower name =
     (let n = lower (trim_space name)
      in if List.member [''utf-8'', ''utf8''] n then Inr Utf8
         else if List.member [''cp949'', ''windows-949'', ''uhc''] n then Inr Cp949
         else if List.member [''euc-kr'', ''euckr''] n then Inr EucKr
         else Inl (Wrap name (Sentinel CodecUnsupported)))"

fun validate_pairs :: "(char \<Rightarrow> char \<Rightarrow> bool) \<Rightarrow> nat \<Rightarrow> string \<Rightarrow> go_error + unit" where
  "validate_pairs ok offset [] = Inr ()"
| "validate_pairs ok offset [a] =
     (if byte a \<le> 0x7F then Inr () else Inl (Wrap (''at byte '' @ itoa offset) (Sentinel CodecInvalid)))"
| "validate_pairs ok offset (a # b # s) =
     (if byte a \<le> 0x7F then validate_pairs ok (offset + 1) (b # s)
      else if ok a b then validate_pairs ok (offset + 2) s
      else Inl (Wrap (''at byte '' @ itoa offset) (Sentinel CodecInvalid)))"

definition euc_pair :: "char \<Rightarrow> char \<Rightarrow> bool" where
  "euc_pair a b \<longleftrightarrow> between 0xA1 0xFE a \<and> between 0xA1 0xFE b"

definition cp949_pair :: "char \<Rightarrow> char \<Rightarrow> bool" where
  "cp949_pair a b \<longleftrightarrow> between 0x81 0xFE a \<and> (between 0x41 0x5A b \<or> between 0x61 0x7A b \<or> between 0x81 0xFE b)"

definition validate_euc_strict :: "string \<Rightarrow> go_error + unit" where
  "validate_euc_strict s = validate_pairs euc_pair 0 s"

definition validate_cp949 :: "string \<Rightarrow> go_error + unit" where
  "validate_cp949 s = validate_pairs cp949_pair 0 s"

record korean =
  ko_decode :: "string \<Rightarrow> string + string"
  ko_encode :: "string \<Rightarrow> string + string"

definition utf8_bom :: string where "utf8_bom = [CHR 0xEF, CHR 0xBB, CHR 0xBF]"

definition decode_korean :: "korean \<Rightarrow> string \<Rightarrow> go_error + string" where
  "decode_korean k input =
     (case ko_decode k input of
        Inl e \<Rightarrow> Inl (Wrap e (Sentinel CodecInvalid))
      | Inr s \<Rightarrow> if utf8_valid s then Inr s else Inl (Sentinel CodecInvalid))"

definition decode_text :: "(string \<Rightarrow> string) \<Rightarrow> korean \<Rightarrow> string \<Rightarrow> string \<Rightarrow> go_error + string" where
  "decode_text lower k name input =
     try_then (normalize_encoding lower name) (\<lambda>e. case e of
        Utf8 \<Rightarrow> (let s = trim_prefix input utf8_bom in if utf8_valid s then Inr s else Inl (Sentinel CodecInvalid))
      | EucKr \<Rightarrow> try_then (validate_euc_strict input) (\<lambda>_. decode_korean k input)
      | Cp949 \<Rightarrow> try_then (validate_cp949 input) (\<lambda>_. decode_korean k input))"

definition encode_text :: "(string \<Rightarrow> string) \<Rightarrow> korean \<Rightarrow> string \<Rightarrow> string \<Rightarrow> go_error + string" where
  "encode_text lower k name input =
     try_then (normalize_encoding lower name) (\<lambda>e.
       if e = Utf8 then Inr input
       else case ko_encode k input of
         Inl err \<Rightarrow> Inl (Wrap (''encode '' @ encoding_name e) (Text err))
       | Inr s \<Rightarrow> if e = EucKr then try_then (validate_euc_strict s) (\<lambda>_. Inr s) else Inr s)"

definition round_trips :: "(string \<Rightarrow> string) \<Rightarrow> korean \<Rightarrow> string \<Rightarrow> string \<Rightarrow> go_error + bool" where
  "round_trips lower k name original =
     try_then (decode_text lower k name original) (\<lambda>d.
     try_then (encode_text lower k name d) (\<lambda>e. Inr (original = e)))"

section \<open>Lemmas\<close>

text \<open>The valid byte sequences as a grammar: ASCII bytes and pairs.\<close>

inductive pair_text :: "(char \<Rightarrow> char \<Rightarrow> bool) \<Rightarrow> string \<Rightarrow> bool" for ok where
  empty: "pair_text ok []"
| ascii: "byte a \<le> 0x7F \<Longrightarrow> pair_text ok s \<Longrightarrow> pair_text ok (a # s)"
| pair: "0x7F < byte a \<Longrightarrow> ok a b \<Longrightarrow> pair_text ok s \<Longrightarrow> pair_text ok (a # b # s)"

inductive_cases pair_text_Cons: "pair_text ok (a # s)"

lemma validate_pairs_grammar: "is_ok (validate_pairs ok n s) \<longleftrightarrow> pair_text ok s"
proof (induction ok n s rule: validate_pairs.induct)
  case (1 ok offset)
  show ?case by (simp add: pair_text.empty)
next
  case (2 ok offset a)
  show ?case by (auto intro: pair_text.intros elim: pair_text_Cons)
next
  case (3 ok offset a b s)
  show ?case
  proof (cases "byte a \<le> 0x7F")
    case True
    with 3(1) have "is_ok (validate_pairs ok offset (a # b # s)) \<longleftrightarrow> pair_text ok (b # s)" by simp
    also have "\<dots> \<longleftrightarrow> pair_text ok (a # b # s)"
      using True by (auto intro: pair_text.ascii elim: pair_text_Cons)
    finally show ?thesis .
  next
    case False
    then have "pair_text ok (a # b # s) \<longleftrightarrow> ok a b \<and> pair_text ok s"
      by (auto intro: pair_text.pair elim: pair_text_Cons)
    with False 3(2) show ?thesis by auto
  qed
qed

lemma pair_text_mono: "pair_text ok s \<Longrightarrow> (\<And>a b. ok a b \<Longrightarrow> ok' a b) \<Longrightarrow> pair_text ok' s"
  by (induction rule: pair_text.induct) (auto intro: pair_text.intros)

lemma decode_text_valid:
  assumes "decode_text lower k name input = Inr s"
  shows "utf8_valid s"
proof -
  have korean: "decode_korean k input = Inr s \<Longrightarrow> utf8_valid s"
    by (auto simp: decode_korean_def split: sum.splits if_splits)
  from assms obtain e where "normalize_encoding lower name = Inr e"
    by (auto simp: decode_text_def)
  with assms korean show ?thesis
    by (cases e) (auto simp: decode_text_def Let_def split: if_splits)
qed

text \<open>What an accepted hash covers.\<close>

lemma hash_loop_total:
  assumes "hash_loop sha cancelled n max_bytes seen answers = Some (Inr (h, count))" "length seen \<le> max_bytes"
  shows "\<exists>front data rest. answers = front @ (data, ReadEOF) # rest \<and> (\<forall>x \<in> set front. snd x = ReadMore \<and> fst x \<noteq> []) \<and>
    h = ''sha256:'' @ sha (seen @ concat (map fst front) @ data) \<and>
    count = length (seen @ concat (map fst front) @ data) \<and> count \<le> max_bytes"
  using assms
proof (induction sha cancelled n max_bytes seen answers rule: hash_loop.induct)
  case (2 sha cancelled n max_bytes seen data state answers)
  then have a: "\<not> cancelled n" "\<not> (data \<noteq> [] \<and> max_bytes < length seen + length data)" by (auto split: if_splits)
  show ?case
  proof (cases state)
    case ReadEOF
    with 2 a show ?thesis by (intro exI [of _ "[]"] exI [of _ data] exI [of _ answers]) auto
  next
    case ReadMore
    with 2(2) a have d: "data \<noteq> []" "hash_loop sha cancelled (Suc n) max_bytes (seen @ data) answers = Some (Inr (h, count))"
      by (auto split: if_splits)
    with 2(1) [OF a(1) refl a(2) ReadMore] a(2) obtain front x rest where
      "answers = front @ (x, ReadEOF) # rest" "\<forall>y \<in> set front. snd y = ReadMore \<and> fst y \<noteq> []"
      "h = ''sha256:'' @ sha ((seen @ data) @ concat (map fst front) @ x)"
      "count = length ((seen @ data) @ concat (map fst front) @ x)" "count \<le> max_bytes"
      by auto
    with d ReadMore show ?thesis by (intro exI [of _ "(data, ReadMore) # front"] exI [of _ x] exI [of _ rest]) auto
  next
    case (ReadFailed e)
    with 2(2) a show ?thesis by (auto split: if_splits)
  qed
qed (auto split: if_splits)

text \<open>The bounded reader below the wrap-around of its limit.\<close>

lemma limit_bound_exact:
  assumes "uint (limit::u64) < 2 ^ 63 - 1"
  shows "limit_reader_bound limit = uint limit + 1"
proof -
  have "uint (limit + 1) = (uint limit + 1) mod 2 ^ 64" by (simp add: uint_word_ariths)
  then have "uint (limit + 1) = uint limit + 1" using assms by simp
  moreover have "signed_take_bit 63 (uint limit + 1) = uint limit + 1"
    using assms by (intro signed_take_bit_int_eq_self) (simp_all add: order_trans [of _ 0])
  ultimately show ?thesis by (simp add: limit_reader_bound_def sint_uint)
qed

lemma limit_bound_wraps:
  assumes "2 ^ 63 - 1 \<le> uint (limit::u64)"
  shows "limit_reader_bound limit \<le> 0"
proof -
  have u: "uint (limit + 1) = (uint limit + 1) mod 2 ^ 64" by (simp add: uint_word_ariths)
  show ?thesis
  proof (cases "uint limit = 2 ^ 64 - 1")
    case True
    with u have "uint (limit + 1) = 0" by simp
    then show ?thesis by (simp add: limit_reader_bound_def sint_uint)
  next
    case False
    with uint_lt2p [of limit] u have k: "uint (limit + 1) = uint limit + 1" "uint limit + 1 < 2 ^ 64" by simp_all
    let ?k = "uint limit + 1"
    have "(?k + 2 ^ 63) mod 2 ^ 64 = (?k + 2 ^ 63 - 2 ^ 64) mod 2 ^ 64" by (rule minus_mod_self2 [symmetric])
    also have "\<dots> = ?k + 2 ^ 63 - 2 ^ 64" by (rule mod_pos_pos_trivial) (use assms k(2) in simp_all)
    finally have "signed_take_bit 63 ?k = ?k - 2 ^ 64" by (simp add: signed_take_bit_eq_take_bit_shift take_bit_eq_mod)
    then show ?thesis using k by (simp add: limit_reader_bound_def sint_uint)
  qed
qed

lemma int_unat_bound: "int (unat w) = uint w" for w :: u64
  by (rule uint_nat [symmetric])

lemma nat_int_Suc: "nat (int k + 1) = Suc k"
  by simp

lemma min_less_iff: "n < min m (Suc n) \<longleftrightarrow> n < m" for n :: nat
  by auto

lemma read_bounded_small:
  assumes "limit \<noteq> 0" "uint limit < 2 ^ 63 - 1"
  shows "read_bounded (Inr s) limit = Inr (take (unat limit) s, unat limit < length s)"
proof -
  note b = limit_bound_exact [OF assms(2)]
  have n: "int (unat limit) = uint limit" by (rule int_unat_bound)
  have n1: "nat (uint limit + 1) = Suc (unat limit)" unfolding n [symmetric] by (rule nat_int_Suc)
  have lt: "uint limit < int (length s) \<longleftrightarrow> unat limit < length s" using n by linarith
  have pos: "\<not> limit_reader_bound limit \<le> 0" using b uint_ge_0 [of limit] by linarith
  have rd: "limit_read (limit_reader_bound limit) s = take (Suc (unat limit)) s"
  proof (cases "int (length s) \<le> limit_reader_bound limit")
    case True
    then have "length s \<le> Suc (unat limit)" using b n by linarith
    with True pos show ?thesis by (simp add: limit_read_def)
  next
    case False
    with pos b n1 show ?thesis by (simp add: limit_read_def)
  qed
  have more: "uint limit < int (length (take (Suc (unat limit)) s)) \<longleftrightarrow> unat limit < length s"
    unfolding length_take n [symmetric] of_nat_less_iff by (rule min_less_iff)
  have "read_bounded (Inr s) limit = (if unat limit < length s
      then Inr (take (unat limit) (take (Suc (unat limit)) s), True) else Inr (take (Suc (unat limit)) s, False))"
    unfolding read_bounded_def try_then.simps Let_def rd more by (rule if_not_P [OF assms(1)])
  also have "\<dots> = Inr (take (unat limit) s, unat limit < length s)"
    by (cases "unat limit < length s") (simp_all add: take_all [of s] del: unat_eq_0)
  finally show ?thesis .
qed

section \<open>Properties\<close>

text \<open>For limits below the wrap-around the bounded reader returns the first \<open>limit\<close> bytes and reports
  exactly whether there were more; from \<open>2 ^ 63 - 1\<close> on it reads nothing and calls the source complete.\<close>

theorem read_bounded_exact:
  assumes "limit \<noteq> 0"
  shows "read_bounded (Inr s) limit =
    (if uint limit < 2 ^ 63 - 1 then Inr (take (unat limit) s, unat limit < length s) else Inr ([], False))"
proof (cases "uint limit < 2 ^ 63 - 1")
  case True
  show ?thesis using read_bounded_small [OF assms True, of s] True by (simp only: if_True)
next
  case False
  have "limit_reader_bound limit \<le> 0" by (rule limit_bound_wraps) (use False in simp)
  then show ?thesis using assms False by (simp add: read_bounded_def limit_read_def)
qed

text \<open>A hash is only returned for a stream that was read to its end: it covers all of the bytes, their
  number is the reported one and within the limit.\<close>

theorem hash_covers_whole_stream:
  assumes "hash_bounded sha cancelled max_bytes answers = Some (Inr (h, count))"
  shows "\<exists>front data rest. answers = front @ (data, ReadEOF) # rest \<and> (\<forall>x \<in> set front. snd x = ReadMore) \<and>
    h = ''sha256:'' @ sha (concat (map fst front) @ data) \<and> count = length (concat (map fst front) @ data) \<and>
    count \<le> max_bytes"
proof -
  from assms have "hash_loop sha cancelled 0 max_bytes [] answers = Some (Inr (h, count))"
    by (simp add: hash_bounded_def split: if_splits)
  from hash_loop_total [OF this] show ?thesis by auto
qed

theorem read_bounded_exact_witness: "read_bounded (Inr ''abcd'') 3 = Inr (''abc'', True)"
  using read_bounded_exact [of 3 "''abcd''"] by simp

theorem hash_covers_whole_stream_witness:
  "\<exists>front data rest. [(''ab'', ReadMore), (''c'', ReadEOF)] = front @ (data, ReadEOF) # rest \<and>
    ''sha256:abc'' = ''sha256:'' @ (concat (map fst front) @ data)"
proof -
  have "hash_bounded (\<lambda>s. s) (\<lambda>_. False) 5 [(''ab'', ReadMore), (''c'', ReadEOF)] = Some (Inr (''sha256:abc'', 3))" by code_simp
  from hash_covers_whole_stream [OF this] show ?thesis by blast
qed

end
