(* ===== verification/DataQuery.thy ===== *)
theory DataQuery
  imports Paging Workspace TextContent
begin

text \<open>
  \<open>internal/dataquery/service.go\<close>: source references, text ranges, JSON, JSONL, delimited and log queries,
  and the result pages that stay tied to the content they were computed from. Decoders are the fields
  of \<open>data_env\<close>; \<open>late n\<close> tells whether the deadline has passed when iteration \<open>n\<close> of a scan begins.
\<close>

section \<open>Requests and results\<close>

record data_filter =
  fl_field :: string
  fl_type :: string
  fl_value :: string

record data_request =
  dr_mode :: string
  dr_ref :: string
  dr_encoding :: string
  dr_line_start :: "nat option"
  dr_line_end :: "nat option"
  dr_byte_start :: "nat option"
  dr_byte_end :: "nat option"
  dr_dialect :: string
  dr_filters :: "data_filter list"
  dr_fields :: "string list"
  dr_malformed :: string
  dr_pointer :: string
  dr_pattern :: string
  dr_case_sensitive :: bool
  dr_cursor :: string
  dr_limits :: limit_request

text \<open>A decoded object is a map, or nil.\<close>

type_synonym object = "(string, json) gomap option"

record data_result =
  dt_kind :: string
  dt_source_ref :: string
  dt_line :: nat
  dt_byte_start :: nat
  dt_byte_end :: nat
  dt_text :: string
  dt_base64 :: string
  dt_record :: object
  dt_index :: nat

record data_metadata =
  dm_mode :: string
  dm_dialect :: string
  dm_encoding :: string
  dm_missing :: string

record data_persisted =
  dp_status :: status
  dp_relation :: count_relation
  dp_scan :: scan
  dp_warnings :: "warning list"
  dp_metadata :: data_metadata
  dp_source :: string

record data_response = "data_result response" +
  rs_metadata :: data_metadata

text \<open>\<open>dv_json\<close> and \<open>dv_object\<close> are the first \<open>Decode\<close> into \<open>any\<close> and into a map, \<open>dv_more\<close> tells that a
  second \<open>Decode\<close> does not meet the end of the input; \<open>dv_csv\<close> gives the answers of the CSV reader up to
  its end; \<open>dv_regex\<close> compiles a pattern; \<open>dv_marshal\<close> is the size of the JSON form of a projection.\<close>

record data_env =
  dv_lower :: "string \<Rightarrow> string"
  dv_korean :: korean
  dv_codec :: codec
  dv_sha :: "string \<Rightarrow> string"
  dv_json :: "string \<Rightarrow> string + json"
  dv_object :: "string \<Rightarrow> string + object"
  dv_more :: "string \<Rightarrow> bool"
  dv_csv :: "char \<Rightarrow> string \<Rightarrow> (string + string list) list"
  dv_regex :: "string \<Rightarrow> string + (string \<Rightarrow> bool)"
  dv_marshal :: "object \<Rightarrow> nat option"
  dv_request :: "data_request \<Rightarrow> string"
  dv_encode :: "data_result \<Rightarrow> string"
  dv_decode :: "string \<Rightarrow> data_result option"
  dv_encode_meta :: "data_persisted \<Rightarrow> string"
  dv_decode_meta :: "string \<Rightarrow> data_persisted option"
  dv_size :: "data_response \<Rightarrow> nat"
  dv_valid :: "string \<Rightarrow> bool"

definition MaxSourceBytes :: u64 where "MaxSourceBytes = 64 * 1024 * 1024"
definition MaxProjectedBytes :: int where "MaxProjectedBytes = 64 * 1024 * 1024"
definition MaxDataItems :: int where "MaxDataItems = 100000"
definition MaximumJSONLRecord :: int where "MaximumJSONLRecord = 8 * 1024 * 1024"

definition blank_data :: data_result where
  "blank_data = \<lparr>dt_kind = [], dt_source_ref = [], dt_line = 0, dt_byte_start = 0, dt_byte_end = 0, dt_text = [], dt_base64 = [],
     dt_record = None, dt_index = 0\<rparr>"

section \<open>Source references\<close>

definition parse_source_ref :: "string \<Rightarrow> go_error + (string \<times> string)" where
  "parse_source_ref ref =
     try_then
       (if has_prefix ref ''source:mutable:'' then Inr (trim_prefix ref ''source:mutable:'', [])
        else if has_prefix ref ''source:'' then
          (let v = trim_prefix ref ''source:''
           in case last_index v ''@sha256:'' of
                None \<Rightarrow> Inl (Text ''source ref lacks mutable identity or content hash'')
              | Some marker \<Rightarrow>
                  let hash = drop (marker + 8) v
                  in if length hash \<noteq> 64 then Inl (Text ''source ref has invalid SHA-256'')
                     else Inr (take marker v, hash))
        else Inl (Text ''unsupported ref kind''))
       (\<lambda>(path, hash). if path = [] then Inl (Text ''source ref has empty path'') else Inr (path, hash))"

text \<open>\<open>strings.EqualFold\<close> against the lower-case hexadecimal text of a hash: only ASCII letters fold.\<close>

definition hex_fold :: "string \<Rightarrow> string" where
  "hex_fold s = map (\<lambda>c. if between 65 90 c then char_of (byte c + 32) else c) s"

definition read_source :: "data_env \<Rightarrow> os_env \<Rightarrow> root \<Rightarrow> string \<Rightarrow> go_error + string" where
  "read_source env os r ref =
     try_then (parse_source_ref ref) (\<lambda>(path, expected).
     try_then (resolve_existing os r path) (\<lambda>resolved.
     try_then (env_stat_file os resolved) (\<lambda>(regular, n_bytes).
       if \<not> regular then Inl (Text ''source ref does not identify a regular file'')
       else try_then (read_bounded (env_read os resolved) MaxSourceBytes) (\<lambda>(data, truncated).
         if truncated then Inl (Sentinel DataSourceTooLarge)
         else if expected \<noteq> [] \<and> hex_fold expected \<noteq> dv_sha env data then Inl (Sentinel DataSourceChanged)
         else Inr data))))"

section \<open>Filters and projection\<close>

definition parse_bool :: "string \<Rightarrow> bool option" where
  "parse_bool s =
     (if List.member [''1'', ''t'', ''T'', ''TRUE'', ''true'', ''True''] s then Some True
      else if List.member [''0'', ''f'', ''F'', ''FALSE'', ''false'', ''False''] s then Some False else None)"

text \<open>\<open>big.Int.SetString(s, 10)\<close>.\<close>

definition parse_big :: "string \<Rightarrow> int option" where
  "parse_big s = (case s of
      c # cs \<Rightarrow> if c = CHR ''-'' then (if all_digits cs then Some (- int (digits_value cs)) else None)
               else if c = CHR ''+'' then (if all_digits cs then Some (int (digits_value cs)) else None)
               else if all_digits s then Some (int (digits_value s)) else None
    | [] \<Rightarrow> None)"

definition validate_filter :: "data_filter \<Rightarrow> go_error + unit" where
  "validate_filter f =
     (if fl_field f = [] then Inl (Text ''filter field is required'')
      else if fl_type f = ''string'' \<or> fl_type f = ''null'' then Inr ()
      else if fl_type f = ''boolean'' then
        (if parse_bool (fl_value f) = None then Inl (Text ''strconv.ParseBool: invalid syntax'') else Inr ())
      else if fl_type f = ''integer'' then
        (if parse_big (fl_value f) = None then Inl (Text (''invalid integer filter '' @ fl_value f)) else Inr ())
      else Inl (Text (''unsupported filter value_type '' @ fl_type f)))"

fun validate_filters :: "data_filter list \<Rightarrow> go_error + unit" where
  "validate_filters [] = Inr ()"
| "validate_filters (f # fs) = try_then (validate_filter f) (\<lambda>_. validate_filters fs)"

definition object_get :: "object \<Rightarrow> string \<Rightarrow> json option" where
  "object_get x k = (case x of None \<Rightarrow> None | Some m \<Rightarrow> map_of m k)"

definition filter_matches :: "json \<Rightarrow> data_filter \<Rightarrow> bool" where
  "filter_matches v f =
     (if fl_type f = ''string'' then v = JString (fl_value f)
      else if fl_type f = ''boolean'' then v = JBool (parse_bool (fl_value f) = Some True)
      else if fl_type f = ''null'' then v = JNull
      else if fl_type f = ''integer'' then
        (case v of JNumber n \<Rightarrow> parse_big n \<noteq> None \<and> parse_big n = parse_big (fl_value f) | _ \<Rightarrow> False)
      else True)"

fun matches_filters :: "object \<Rightarrow> data_filter list \<Rightarrow> bool" where
  "matches_filters x [] = True"
| "matches_filters x (f # fs) = (case object_get x (fl_field f) of
      None \<Rightarrow> False
    | Some v \<Rightarrow> if filter_matches v f then matches_filters x fs else False)"

definition project_fields :: "object \<Rightarrow> string list \<Rightarrow> object" where
  "project_fields x fs =
     (if fs = [] then x
      else Some (fold (\<lambda>k m. map_put k (case object_get x k of None \<Rightarrow> JNull | Some v \<Rightarrow> v) m) fs []))"

section \<open>JSON pointers\<close>

fun decode_pointer_token :: "string \<Rightarrow> go_error + string" where
  "decode_pointer_token [] = Inr []"
| "decode_pointer_token (c # s) =
     (if c \<noteq> CHR ''~'' then try_then (decode_pointer_token s) (\<lambda>r. Inr (c # r))
      else case s of
          [] \<Rightarrow> Inl (Text ''JSON pointer contains an invalid escape'')
        | d # r \<Rightarrow>
            if d = CHR ''0'' then try_then (decode_pointer_token r) (\<lambda>t. Inr (CHR ''~'' # t))
            else if d = CHR ''1'' then try_then (decode_pointer_token r) (\<lambda>t. Inr (CHR ''/'' # t))
            else Inl (Text ''JSON pointer contains an invalid escape''))"

definition pointer_step :: "json \<Rightarrow> string \<Rightarrow> go_error + json" where
  "pointer_step current token =
     (case current of
        JObject m \<Rightarrow> (case map_of m token of
            None \<Rightarrow> Inl (Text (''JSON pointer member '' @ token @ '' is missing'')) | Some v \<Rightarrow> Inr v)
      | JArray xs \<Rightarrow> (case parse_uint token of
            None \<Rightarrow> Inl (Text (''JSON pointer array index '' @ token @ '' is invalid''))
          | Some i \<Rightarrow> if length xs \<le> i then Inl (Text (''JSON pointer array index '' @ token @ '' is invalid''))
                      else Inr (xs ! i))
      | _ \<Rightarrow> Inl (Text (''JSON pointer cannot descend through '' @ token)))"

fun pointer_walk :: "json \<Rightarrow> string list \<Rightarrow> go_error + json" where
  "pointer_walk current [] = Inr current"
| "pointer_walk current (raw # raws) =
     try_then (decode_pointer_token raw) (\<lambda>token.
     try_then (pointer_step current token) (\<lambda>next_value. pointer_walk next_value raws))"

definition resolve_json_pointer :: "json \<Rightarrow> string \<Rightarrow> go_error + json" where
  "resolve_json_pointer value pointer =
     (if pointer = [] then Inr value
      else if \<not> has_prefix pointer ''/'' then Inl (Text ''JSON pointer must be empty or begin with /'')
      else pointer_walk value (split_on (CHR ''/'') (drop 1 pointer)))"

section \<open>Text ranges\<close>

text \<open>\<open>base64.StdEncoding\<close>: the sextets of the raw form over the standard alphabet, padded.\<close>

definition std_digit :: "nat \<Rightarrow> char" where
  "std_digit n = (if n = 62 then CHR ''+'' else if n = 63 then CHR ''/'' else b64_digit n)"

definition std_base64 :: "string \<Rightarrow> string" where
  "std_base64 s = map std_digit (b64_sextets s) @ replicate ((3 - length s mod 3) mod 3) (CHR ''='')"

fun line_results :: "(nat \<Rightarrow> bool) \<Rightarrow> string \<Rightarrow> nat \<Rightarrow> nat \<Rightarrow> string list \<Rightarrow> nat \<Rightarrow> go_error + data_result list" where
  "line_results late ref line final [] seen = Inr []"
| "line_results late ref line final (s # lines) seen =
     (if final < line then Inr []
      else if late line then Inl (Text ''context deadline exceeded'')
      else if MaxDataItems \<le> int (Suc seen) then Inl (Text ''line range exceeds item limit'')
      else try_then (line_results late ref (Suc line) final lines (Suc seen)) (\<lambda>rs.
        Inr (blank_data\<lparr>dt_kind := ''line'', dt_source_ref := ref, dt_line := line, dt_text := strip_cr s\<rparr> # rs)))"

definition data_meta :: "string \<Rightarrow> string \<Rightarrow> data_request \<Rightarrow> string \<Rightarrow> data_metadata" where
  "data_meta mode dialect q missing = \<lparr>dm_mode = mode, dm_dialect = dialect, dm_encoding = dr_encoding q, dm_missing = missing\<rparr>"

definition text_range :: "data_env \<Rightarrow> (nat \<Rightarrow> bool) \<Rightarrow> data_request \<Rightarrow> string \<Rightarrow> go_error + (data_result list \<times> data_metadata)" where
  "text_range env late q data =
     (let meta = data_meta ''text_range'' [] q [];
          line_mode = (dr_line_start q \<noteq> None \<or> dr_line_end q \<noteq> None);
          byte_mode = (dr_byte_start q \<noteq> None \<or> dr_byte_end q \<noteq> None)
      in if line_mode = byte_mode then Inl (Text ''provide exactly one complete line range or byte range'')
         else if byte_mode then
           (case (dr_byte_start q, dr_byte_end q) of
              (Some a, Some b) \<Rightarrow>
                if b < a \<or> length data < b then Inl (Text ''invalid byte range'')
                else if late 0 then Inl (Text ''context deadline exceeded'')
                else let raw = take (b - a) (drop a data)
                  in Inr ([blank_data\<lparr>dt_kind := ''byte_range'', dt_source_ref := dr_ref q, dt_byte_start := a, dt_byte_end := b,
                        dt_base64 := std_base64 raw,
                        dt_text := (case decode_text (dv_lower env) (dv_korean env) (dr_encoding q) raw of Inl _ \<Rightarrow> [] | Inr s \<Rightarrow> s)\<rparr>], meta)
            | _ \<Rightarrow> Inl (Text ''invalid byte range''))
         else
           (case (dr_line_start q, dr_line_end q) of
              (Some a, Some b) \<Rightarrow>
                if a = 0 \<or> b < a then Inl (Text ''invalid line range'')
                else try_then (decode_text (dv_lower env) (dv_korean env) (dr_encoding q) data) (\<lambda>s.
                     try_then (line_results late (dr_ref q) a b (drop (a - 1) (split_on (CHR 0x0A) s)) 0) (\<lambda>rs. Inr (rs, meta)))
            | _ \<Rightarrow> Inl (Text ''invalid line range'')))"

section \<open>Scans\<close>

text \<open>The variables of a scan, and the outcomes that end or degrade it.\<close>

record scan_acc =
  sa_results :: "data_result list"
  sa_warnings :: "warning list"
  sa_status :: status
  sa_relation :: count_relation
  sa_state :: scan_state
  sa_bytes :: nat

definition scan_start :: scan_acc where
  "scan_start = \<lparr>sa_results = [], sa_warnings = [], sa_status = StatusOK, sa_relation = CountExact, sa_state = ScanComplete, sa_bytes = 0\<rparr>"

definition warn :: "string \<Rightarrow> string \<Rightarrow> scan_acc \<Rightarrow> scan_acc" where
  "warn code message a = a\<lparr>sa_status := StatusPartial, sa_relation := CountLowerBound,
     sa_warnings := sa_warnings a @ [\<lparr>wn_code = code, wn_message = message, wn_ref = None\<rparr>]\<rparr>"

definition partial_scan :: "string \<Rightarrow> string \<Rightarrow> scan_acc \<Rightarrow> scan_acc" where
  "partial_scan code message a = (warn code message a)\<lparr>sa_state := ScanPartial\<rparr>"

definition projection_full :: "scan_acc \<Rightarrow> nat \<Rightarrow> bool" where
  "projection_full a n \<longleftrightarrow> MaxDataItems \<le> int (length (sa_results a)) \<or> MaxProjectedBytes < int (sa_bytes a + n)"

definition add_result :: "data_result \<Rightarrow> nat \<Rightarrow> scan_acc \<Rightarrow> scan_acc" where
  "add_result r n a = a\<lparr>sa_results := sa_results a @ [r], sa_bytes := sa_bytes a + n\<rparr>"

text \<open>The flag of the result tells that the loop was left by \<open>break\<close>.\<close>

fun jsonl_loop ::
    "data_env \<Rightarrow> (nat \<Rightarrow> bool) \<Rightarrow> data_request \<Rightarrow> string list \<Rightarrow> nat \<Rightarrow> scan_acc \<Rightarrow> go_error + (scan_acc \<times> bool)" where
  "jsonl_loop env late q [] line a = Inr (a, False)"
| "jsonl_loop env late q (s # ss) line a =
     (let n = Suc line
      in if late n then Inr (partial_scan ''deadline_exceeded'' ''JSONL scan deadline reached'' a, True)
         else case dv_object env s of
           Inl e \<Rightarrow>
             if dr_malformed q = ''fail'' then Inl (Text (''malformed JSONL record at line '' @ itoa n @ '': '' @ e))
             else jsonl_loop env late q ss n (warn ''malformed_record'' (''skipped malformed record at line '' @ itoa n) a)
         | Inr x \<Rightarrow>
             if dv_more env s then
               (if dr_malformed q = ''fail''
                then Inl (Text (''malformed JSONL record at line '' @ itoa n @ '': trailing JSON value or data''))
                else jsonl_loop env late q ss n (warn ''malformed_record'' (''skipped malformed record at line '' @ itoa n) a))
             else if \<not> matches_filters x (dr_filters q) then jsonl_loop env late q ss n a
             else let projected = project_fields x (dr_fields q)
               in case dv_marshal env projected of
                 None \<Rightarrow> Inl (Text ''json: unsupported value'')
               | Some len \<Rightarrow>
                   if projection_full a len
                   then Inr (partial_scan ''projection_limit'' ''JSONL projection limit reached'' a, True)
                   else jsonl_loop env late q ss n (add_result (blank_data\<lparr>dt_kind := ''jsonl_record'', dt_source_ref := dr_ref q,
                          dt_line := n, dt_record := projected\<rparr>) len a))"

definition malformed_policy_bad :: "string \<Rightarrow> bool" where
  "malformed_policy_bad p \<longleftrightarrow> p \<noteq> ''fail'' \<and> p \<noteq> ''skip_with_warning''"

definition data_scope :: "data_env \<Rightarrow> string \<Rightarrow> string option" where
  "data_scope env text_key = Some (''scope:data:'' @ dv_sha env text_key)"

definition scanned :: "data_env \<Rightarrow> string \<Rightarrow> data_metadata \<Rightarrow> scan_acc \<Rightarrow> data_result list \<times> data_persisted" where
  "scanned env key meta a = (sa_results a,
     \<lparr>dp_status = sa_status a, dp_relation = sa_relation a, dp_scan = \<lparr>sc_state = sa_state a, sc_scope_ref = data_scope env key\<rparr>,
      dp_warnings = sa_warnings a, dp_metadata = meta, dp_source = []\<rparr>)"

definition or_default :: "string \<Rightarrow> string \<Rightarrow> string" where
  "or_default s d = (if s = [] then d else s)"

definition jsonl_request :: "data_request \<Rightarrow> data_request" where
  "jsonl_request q = q\<lparr>dr_dialect := or_default (dr_dialect q) ''jsonl-simple'', dr_malformed := or_default (dr_malformed q) ''fail''\<rparr>"

definition jsonl_end :: "data_env \<Rightarrow> data_request \<Rightarrow> bool \<Rightarrow> scan_acc \<times> bool \<Rightarrow> go_error + (data_result list \<times> data_persisted)" where
  "jsonl_end env q long out =
     (let finish = scanned env (dr_ref q @ [CHR 0x00] @ dr_dialect q) (data_meta ''jsonl'' (dr_dialect q) q
            ''projected missing fields are returned as null; missing filter fields do not match'')
      in if long \<and> \<not> snd out then
           (if dr_malformed q = ''fail'' then Inl (Text ''read JSONL: bufio.Scanner: token too long'')
            else Inr (finish (partial_scan ''oversized_record'' ''JSONL record exceeded the record limit'' (fst out))))
         else Inr (finish (fst out)))"

definition query_jsonl :: "data_env \<Rightarrow> (nat \<Rightarrow> bool) \<Rightarrow> data_request \<Rightarrow> string \<Rightarrow> go_error + (data_result list \<times> data_persisted)" where
  "query_jsonl env late raw data =
     (let q = jsonl_request raw
      in if dr_dialect q \<noteq> ''jsonl-simple'' then Inl (Text (''unsupported JSONL dialect '' @ dr_dialect q))
         else if malformed_policy_bad (dr_malformed q) then Inl (Text ''malformed_policy must be fail or skip_with_warning'')
         else try_then (validate_filters (dr_filters q)) (\<lambda>_.
           try_then (decode_text (dv_lower env) (dv_korean env) (dr_encoding q) data) (\<lambda>s.
             let (lines, long) = scan_lines MaximumJSONLRecord (split_on (CHR 0x0A) s)
             in try_then (jsonl_loop env late q lines 0 scan_start) (jsonl_end env q long))))"

fun json_values_loop ::
    "data_env \<Rightarrow> (nat \<Rightarrow> bool) \<Rightarrow> data_request \<Rightarrow> json list \<Rightarrow> nat \<Rightarrow> scan_acc \<Rightarrow> go_error + data_result list" where
  "json_values_loop env late q [] n a = Inr (sa_results a)"
| "json_values_loop env late q (v # vs) n a =
     (if late n then Inl (Text ''context deadline exceeded'')
      else let x = (case v of JObject m \<Rightarrow> Some m | _ \<Rightarrow> Some [(''value'', v)])
        in if \<not> matches_filters x (dr_filters q) then json_values_loop env late q vs (Suc n) a
           else let projected = project_fields x (dr_fields q)
             in case dv_marshal env projected of
               None \<Rightarrow> Inl (Text ''json: unsupported value'')
             | Some len \<Rightarrow>
                 if projection_full a len then Inl (Text ''JSON projection exceeds supported limit'')
                 else json_values_loop env late q vs (Suc n) (add_result (blank_data\<lparr>dt_kind := ''json_value'',
                        dt_source_ref := dr_ref q, dt_index := Suc n, dt_record := projected\<rparr>) len a))"

definition query_json :: "data_env \<Rightarrow> (nat \<Rightarrow> bool) \<Rightarrow> data_request \<Rightarrow> string \<Rightarrow> go_error + (data_result list \<times> data_metadata)" where
  "query_json env late raw data =
     (let q = raw\<lparr>dr_dialect := or_default (dr_dialect raw) ''json-pointer''\<rparr>
      in if dr_dialect q \<noteq> ''json-pointer'' then Inl (Text (''unsupported JSON dialect '' @ dr_dialect q))
         else try_then (validate_filters (dr_filters q)) (\<lambda>_.
         try_then (decode_text (dv_lower env) (dv_korean env) (dr_encoding q) data) (\<lambda>s.
         case dv_json env s of
           Inl e \<Rightarrow> Inl (Text (''decode JSON: '' @ e))
         | Inr v \<Rightarrow>
             if dv_more env s then Inl (Text ''JSON contains trailing value or data'')
             else try_then (resolve_json_pointer v (dr_pointer q)) (\<lambda>target.
               try_then (json_values_loop env late q (case target of JArray vs \<Rightarrow> vs | _ \<Rightarrow> [target]) 0 scan_start) (\<lambda>rs.
                 Inr (rs, data_meta ''json'' (dr_dialect q) q
                   ''missing filter fields do not match; projected missing fields are null''))))))"

text \<open>\<open>row\<close> counts the header; a record shorter than the header would make the index panic.\<close>

fun delimited_loop ::
    "data_env \<Rightarrow> (nat \<Rightarrow> bool) \<Rightarrow> data_request \<Rightarrow> string list \<Rightarrow> (string + string list) list \<Rightarrow> nat \<Rightarrow> scan_acc \<Rightarrow> go_error + scan_acc" where
  "delimited_loop env late q header [] row a =
     Inr (if late row then partial_scan ''deadline_exceeded'' ''delimited scan deadline reached'' a else a)"
| "delimited_loop env late q header (answer # answers) row a =
     (if late row then Inr (partial_scan ''deadline_exceeded'' ''delimited scan deadline reached'' a)
      else case answer of
        Inl e \<Rightarrow>
          if dr_malformed q = ''fail'' then Inl (Text (''malformed delimited record near row '' @ itoa (Suc row) @ '': '' @ e))
          else delimited_loop env late q header answers (Suc row)
            (partial_scan ''malformed_record'' (''skipped malformed record near row '' @ itoa (Suc row)) a)
      | Inr vs \<Rightarrow>
          if length vs < length header then Inl (Panic ''index out of range'')
          else let x = Some (fold (\<lambda>(k, v) m. map_put k (JString v) m) (zip header vs) [])
            in if \<not> matches_filters x (dr_filters q) then delimited_loop env late q header answers (Suc row) a
               else let projected = project_fields x (dr_fields q);
                        len = (case dv_marshal env projected of None \<Rightarrow> 0 | Some n \<Rightarrow> n)
                 in if projection_full a len
                    then Inr (partial_scan ''projection_limit'' ''delimited projection limit reached'' a)
                    else delimited_loop env late q header answers (Suc row) (add_result (blank_data\<lparr>
                           dt_kind := dr_dialect q @ ''_record'', dt_source_ref := dr_ref q, dt_index := row,
                           dt_record := projected\<rparr>) len a))"

fun header_fault :: "string list \<Rightarrow> string list \<Rightarrow> go_error option" where
  "header_fault seen [] = None"
| "header_fault seen (h # hs) =
     (if h = [] then Some (Text ''delimited header contains an empty field'')
      else if List.member seen h then Some (Text (''delimited header '' @ h @ '' is duplicated''))
      else header_fault (h # seen) hs)"

fun delimited_filters :: "data_filter list \<Rightarrow> go_error + unit" where
  "delimited_filters [] = Inr ()"
| "delimited_filters (f # fs) =
     (if fl_type f \<noteq> ''string'' then Inl (Text ''delimited filters require value_type=string'')
      else try_then (validate_filter f) (\<lambda>_. delimited_filters fs))"

definition query_delimited :: "data_env \<Rightarrow> (nat \<Rightarrow> bool) \<Rightarrow> data_request \<Rightarrow> string \<Rightarrow> go_error + (data_result list \<times> data_persisted)" where
  "query_delimited env late raw data =
     (let q = raw\<lparr>dr_malformed := or_default (dr_malformed raw) ''fail''\<rparr>
      in if dr_dialect q \<noteq> ''csv'' \<and> dr_dialect q \<noteq> ''tsv'' then Inl (Text ''delimited dialect must be csv or tsv'')
         else if malformed_policy_bad (dr_malformed q) then Inl (Text ''malformed_policy must be fail or skip_with_warning'')
         else try_then (delimited_filters (dr_filters q)) (\<lambda>_.
         try_then (decode_text (dv_lower env) (dv_korean env) (dr_encoding q) data) (\<lambda>s.
         case dv_csv env (if dr_dialect q = ''tsv'' then CHR 0x09 else CHR '','') s of
           [] \<Rightarrow> Inl (Text ''read delimited header: EOF'')
         | Inl e # _ \<Rightarrow> Inl (Text (''read delimited header: '' @ e))
         | Inr header # answers \<Rightarrow>
             (case header_fault [] header of
                Some e \<Rightarrow> Inl e
              | None \<Rightarrow> try_then (delimited_loop env late q header answers 1 scan_start) (\<lambda>a.
                  Inr (scanned env (dr_ref q @ [CHR 0x00] @ dr_dialect q) (data_meta ''delimited'' (dr_dialect q) q
                    ''missing filter fields do not match; projected missing fields are null'') a))))))"

fun log_loop ::
    "(nat \<Rightarrow> bool) \<Rightarrow> (string \<Rightarrow> bool) \<Rightarrow> string \<Rightarrow> string list \<Rightarrow> nat \<Rightarrow> scan_acc \<Rightarrow> scan_acc" where
  "log_loop late hit ref [] n a = a"
| "log_loop late hit ref (s # ss) n a =
     (if late n then partial_scan ''deadline_exceeded'' ''log scan deadline reached'' a
      else let line = strip_cr s
        in if \<not> hit line then log_loop late hit ref ss (Suc n) a
           else if MaxProjectedBytes < int (sa_bytes a + length line)
             then partial_scan ''projection_limit'' ''log projection limit reached'' a
           else let b = add_result (blank_data\<lparr>dt_kind := ''log_line'', dt_source_ref := ref, dt_line := Suc n, dt_text := line\<rparr>)
                         (length line) a
             in if MaxDataItems \<le> int (length (sa_results b)) then partial_scan ''match_limit'' ''log match limit reached'' b
                else log_loop late hit ref ss (Suc n) b)"

definition query_log :: "data_env \<Rightarrow> (nat \<Rightarrow> bool) \<Rightarrow> data_request \<Rightarrow> string \<Rightarrow> go_error + (data_result list \<times> data_persisted)" where
  "query_log env late raw data =
     (let q = raw\<lparr>dr_dialect := or_default (dr_dialect raw) ''exact''\<rparr>
      in if dr_pattern q = [] then Inl (Text ''pattern is required for log mode'')
         else try_then
           (if dr_dialect q = ''regex'' then
              (case dv_regex env (if dr_case_sensitive q then dr_pattern q else ''(?i:'' @ dr_pattern q @ '')'') of
                 Inl e \<Rightarrow> Inl (Text (''invalid log regular expression: '' @ e)) | Inr m \<Rightarrow> Inr m)
            else if dr_dialect q \<noteq> ''exact'' then Inl (Text ''log dialect must be exact or regex'')
            else if dr_case_sensitive q then Inr (\<lambda>s. contains_str s (dr_pattern q))
            else Inr (\<lambda>s. contains_str (dv_lower env s) (dv_lower env (dr_pattern q))))
           (\<lambda>hit. try_then (decode_text (dv_lower env) (dv_korean env) (dr_encoding q) data) (\<lambda>s.
              Inr (scanned env (dr_ref q @ [CHR 0x00] @ ''log'' @ [CHR 0x00] @ dr_dialect q) (data_meta ''log'' (dr_dialect q) q [])
                (log_loop late hit (dr_ref q) (split_on (CHR 0x0A) s) 0 scan_start)))))"


section \<open>Result sets and pages\<close>

definition complete_metadata :: "data_env \<Rightarrow> data_metadata \<Rightarrow> data_persisted" where
  "complete_metadata env m =
     \<lparr>dp_status = StatusOK, dp_relation = CountExact,
      dp_scan = \<lparr>sc_state = ScanNotApplicable, sc_scope_ref = data_scope env (dm_mode m @ [CHR 0x00] @ dm_encoding m)\<rparr>,
      dp_warnings = [], dp_metadata = m, dp_source = []\<rparr>"

definition unsupported_data :: "data_request \<Rightarrow> go_error \<Rightarrow> data_response" where
  "unsupported_data q e =
     \<lparr>rs_status = StatusUnsupported, rs_items = [],
      rs_counts = \<lparr>cn_matched = None, cn_relation = CountUnknown, cn_returned = 0\<rparr>,
      rs_scan = \<lparr>sc_state = ScanNotApplicable, sc_scope_ref = None\<rparr>, rs_truncated = None, rs_next_cursor = None,
      rs_snapshot_ref = None,
      rs_warnings = [\<lparr>wn_code = ''unsupported_encoding'', wn_message = ''text codec: unsupported encoding: '' @ quoted (dr_encoding q), wn_ref = None\<rparr>],
      rs_metadata = \<lparr>dm_mode = dr_mode q, dm_dialect = [], dm_encoding = dr_encoding q, dm_missing = []\<rparr>\<rparr>"

definition data_too_large :: go_error where "data_too_large = Sentinel DataResponseTooLarge"

definition data_page_body ::
    "data_env \<Rightarrow> string \<Rightarrow> data_persisted \<Rightarrow> string \<Rightarrow> nat \<Rightarrow> time \<Rightarrow> nat \<Rightarrow> data_result list \<Rightarrow> nat \<Rightarrow> nat \<Rightarrow>
     go_error + data_response option" where
  "data_page_body env w meta k start expires whole items byte_limit returned =
     (let next_ordinal = start + returned; known_more = next_ordinal < whole
      in try_then (page_cursor (dv_codec env) w k next_ordinal whole expires) (\<lambda>cursor.
        let response = \<lparr>rs_status = dp_status meta, rs_items = take returned items,
              rs_counts = \<lparr>cn_matched = Some (of_nat whole), cn_relation = dp_relation meta, cn_returned = of_nat returned\<rparr>,
              rs_scan = dp_scan meta,
              rs_truncated = (if known_more then Some True
                else if sc_state (dp_scan meta) = ScanPartial then None else Some False),
              rs_next_cursor = cursor, rs_snapshot_ref = Some (''snapshot:'' @ k), rs_warnings = dp_warnings meta,
              rs_metadata = dp_metadata meta\<rparr>
        in Inr (if dv_size env response \<le> byte_limit then Some response else None)))"

definition data_read_page ::
    "data_env \<Rightarrow> os_env \<Rightarrow> root \<Rightarrow> catalog_db \<Rightarrow> string \<Rightarrow> nat \<Rightarrow> nat \<Rightarrow> nat \<Rightarrow> time \<Rightarrow> go_error + data_response" where
  "data_read_page env os r db k start item_limit byte_limit expires =
     try_then (read_result_page k start item_limit db) (\<lambda>page.
     case dv_decode_meta env (pg_metadata page) of
       None \<Rightarrow> Inl (Text ''decode result metadata'')
     | Some meta \<Rightarrow>
         if dp_source meta = [] then Inl (Sentinel DataSourceChanged)
         else if \<not> is_ok (read_source env os r (dp_source meta))
         then Inl (Wrap ''source no longer matches the paginated result'' (Sentinel DataSourceChanged))
         else try_then (decode_items (Text ''decode stored result'') (dv_decode env) (pg_items page)) (\<lambda>items.
           fit_page data_too_large (data_page_body env (rt_id r) meta k start expires (pg_total page) items byte_limit)
             (length items)))"

definition data_from_cursor ::
    "data_env \<Rightarrow> os_env \<Rightarrow> root \<Rightarrow> catalog_db \<Rightarrow> time \<Rightarrow> string \<Rightarrow> nat \<Rightarrow> nat \<Rightarrow> go_error + data_response" where
  "data_from_cursor env os r db now encoded item_limit byte_limit =
     try_then (decode_cursor (dv_codec env) now encoded (rt_id r)) (\<lambda>p.
       data_read_page env os r db (cr_set p) (cr_next p) item_limit byte_limit (seconds (cr_expires p)))"

definition data_item :: "data_env \<Rightarrow> nat \<Rightarrow> data_result \<Rightarrow> result_item" where
  "data_item env n x = \<lparr>ri_ordinal = n, ri_ref = dt_source_ref x, ri_hash = ''sha256:'' @ dv_sha env (dv_encode env x),
     ri_payload = dv_encode env x\<rparr>"

definition resultTTL :: time where "resultTTL = seconds (30 * 60)"

definition pinned_ref :: "string \<Rightarrow> string \<Rightarrow> string" where
  "pinned_ref path hash = ''source:'' @ path @ ''@sha256:'' @ hash"

definition source_identity :: "data_env \<Rightarrow> string \<Rightarrow> string \<Rightarrow> string" where
  "source_identity env path data = pinned_ref path (dv_sha env data)"

definition data_result_set ::
    "data_env \<Rightarrow> string \<Rightarrow> time \<Rightarrow> string \<Rightarrow> data_request \<Rightarrow> data_persisted \<Rightarrow> data_result list \<Rightarrow> result_set" where
  "data_result_set env w now k q meta results =
     \<lparr>sn_id = k, sn_workspace = w, sn_query = ''sha256:'' @ dv_sha env (dv_request env (q\<lparr>dr_cursor := []\<rparr>)),
      sn_generation = ''data-query-v1'', sn_created_at = now, sn_expires_at = now + resultTTL,
      sn_metadata = dv_encode_meta env meta,
      sn_items = map (\<lambda>(n, x). data_item env n x) (List.enumerate 0 results)\<rparr>"

definition data_persist ::
    "data_env \<Rightarrow> os_env \<Rightarrow> root \<Rightarrow> time \<Rightarrow> string \<Rightarrow> data_request \<Rightarrow> string \<Rightarrow> data_result list \<Rightarrow> data_persisted \<Rightarrow> nat \<Rightarrow> nat \<Rightarrow>
     catalog_db \<Rightarrow> catalog_db \<times> (go_error + data_response)" where
  "data_persist env os r now k q data results meta item_limit byte_limit db =
     (case parse_source_ref (dr_ref q) of
        Inl e \<Rightarrow> (db, Inl e)
      | Inr (path, _) \<Rightarrow>
          (let s = data_result_set env (rt_id r) now k q (meta\<lparr>dp_source := source_identity env path data\<rparr>) results
           in case create_result_set (dv_valid env) s db of
                (db', Inl e) \<Rightarrow> (db', Inl e)
              | (db', Inr _) \<Rightarrow> (db', data_read_page env os r db' k 0 item_limit byte_limit (sn_expires_at s))))"

text \<open>One query of the content that was read: the results and the metadata to store with them.\<close>

definition data_scan ::
    "data_env \<Rightarrow> (nat \<Rightarrow> bool) \<Rightarrow> data_request \<Rightarrow> string \<Rightarrow> go_error + (data_result list \<times> data_persisted)" where
  "data_scan env late q data =
     (if dr_mode q = ''text_range'' then try_then (text_range env late q data) (\<lambda>(rs, m). Inr (rs, complete_metadata env m))
      else if dr_mode q = ''jsonl'' then query_jsonl env late q data
      else if dr_mode q = ''json'' then try_then (query_json env late q data) (\<lambda>(rs, m). Inr (rs, complete_metadata env m))
      else if dr_mode q = ''delimited'' then query_delimited env late q data
      else if dr_mode q = ''log'' then query_log env late q data
      else if dr_mode q = [] then Inl (Text ''mode required'')
      else Inl (Text (''unsupported data query mode '' @ dr_mode q)))"

text \<open>\<open>Query\<close>: the environment is read once for the scan (\<open>os\<close>) and again for the page (\<open>os'\<close>). A jsonl
  request is stored with its defaults filled in.\<close>

definition filled_request :: "data_request \<Rightarrow> data_request" where
  "filled_request q =
     (if dr_mode q = ''jsonl'' then jsonl_request q else q)"

definition data_query ::
    "data_env \<Rightarrow> os_env \<Rightarrow> os_env \<Rightarrow> root \<Rightarrow> time \<Rightarrow> (nat \<Rightarrow> bool) \<Rightarrow> string \<Rightarrow> data_request \<Rightarrow> catalog_db \<Rightarrow>
     catalog_db \<times> (go_error + data_response)" where
  "data_query env os os' r now late k q db =
     (case normalize_limits (dr_limits q) of
        Inl e \<Rightarrow> (db, Inl e)
      | Inr l \<Rightarrow>
          (let item_limit = unat (lm_item_limit l); byte_limit = unat (lm_byte_limit l)
           in if dr_cursor q \<noteq> [] then (db, data_from_cursor env os r db now (dr_cursor q) item_limit byte_limit)
              else if dr_ref q = [] then (db, Inl (Text ''ref is required''))
              else let q1 = q\<lparr>dr_encoding := or_default (dr_encoding q) ''utf-8''\<rparr>
                in case normalize_encoding (dv_lower env) (dr_encoding q1) of
                     Inl e \<Rightarrow> (db, Inr (unsupported_data q1 e))
                   | Inr encoding \<Rightarrow>
                       (let q2 = filled_request (q1\<lparr>dr_encoding := encoding_name encoding\<rparr>)
                        in case try_then (read_source env os r (dr_ref q2)) (\<lambda>data.
                             try_then (data_scan env late q2 data) (\<lambda>(rs, meta). Inr (data, rs, meta))) of
                             Inl e \<Rightarrow> (db, Inl e)
                           | Inr (data, rs, meta) \<Rightarrow> data_persist env os' r now k q2 data rs meta item_limit byte_limit db)))"

section \<open>Lemmas\<close>

lemma last_index_unique:
  assumes "CHR ''@'' \<notin> set h"
  shows "last_index_from i (a @ ''@sha256:'' @ h) ''@sha256:'' = Some (i + length a)"
proof -
  have none: "last_index_from j t ''@sha256:'' = None" if "CHR ''@'' \<notin> set t" for j t
    using that by (induction t arbitrary: j) (auto simp: has_prefix_def)
  have here: "last_index_from j (''@sha256:'' @ h) ''@sha256:'' = Some j" for j
    using none [of "''sha256:'' @ h"] assms by (simp add: has_prefix_def)
  show ?thesis using here by (induction a arbitrary: i) simp_all
qed

lemma parse_identity:
  assumes "path \<noteq> []" "\<not> has_prefix path ''mutable:''" "length h = 64" "CHR ''@'' \<notin> set h"
  shows "parse_source_ref (pinned_ref path h) = Inr (path, h)"
proof -
  have m: "\<not> has_prefix (pinned_ref path h) ''source:mutable:''"
  proof
    assume "has_prefix (pinned_ref path h) ''source:mutable:''"
    then obtain r where "path @ ''@sha256:'' @ h = ''mutable:'' @ r" by (auto simp: has_prefix_iff pinned_ref_def)
    then obtain us where "path = ''mutable:'' @ us \<or> path @ us = ''mutable:'' \<and> ''@sha256:'' @ h = us @ r"
      unfolding append_eq_append_conv2 by blast
    moreover have False if "path @ us = ''mutable:''" "''@sha256:'' @ h = us @ r"
    proof (cases us)
      case Nil
      with that(1) assms(2) show False by (simp add: has_prefix_def)
    next
      case (Cons c cs)
      with that(2) have "CHR ''@'' \<in> set us" by simp
      then have "CHR ''@'' \<in> set (path @ us)" by simp
      then show False unfolding that(1) by simp
    qed
    ultimately show False using assms(2) has_prefix_append by blast
  qed
  have t: "trim_prefix (pinned_ref path h) ''source:'' = path @ ''@sha256:'' @ h"
    unfolding pinned_ref_def by (rule trim_prefix_append)
  have p: "has_prefix (pinned_ref path h) ''source:''" unfolding pinned_ref_def by (rule has_prefix_append)
  have i: "last_index (path @ ''@sha256:'' @ h) ''@sha256:'' = Some (length path)"
    unfolding last_index_def using last_index_unique [OF assms(4), of 0 path] by simp
  have d: "drop (length path + 8) (path @ ''@sha256:'' @ h) = h" by simp
  have k: "take (length path) (path @ ''@sha256:'' @ h) = path" by simp
  show ?thesis
    unfolding parse_source_ref_def if_not_P [OF m] if_P [OF p] t i Let_def option.case d k
    by (simp add: assms(1,3))
qed

lemma parse_mutable_identity:
  assumes "rest \<noteq> []"
  shows "parse_source_ref (''source:mutable:'' @ rest) = Inr (rest, [])"
  using assms by (simp add: parse_source_ref_def has_prefix_def trim_prefix_def)

lemma read_source_pinned:
  assumes "read_source env os r (pinned_ref path h) = Inr data"
    "path \<noteq> []" "\<not> has_prefix path ''mutable:''" "length h = 64" "CHR ''@'' \<notin> set h"
  shows "\<exists>resolved. resolve_existing os r path = Inr resolved \<and> env_read os resolved = Inr data \<and> dv_sha env data = hex_fold h"
proof -
  have ne: "h \<noteq> []" using assms(4) by auto
  from assms(1) obtain resolved n where a: "resolve_existing os r path = Inr resolved"
    "read_bounded (env_read os resolved) MaxSourceBytes = Inr (data, False)" "hex_fold h = dv_sha env data"
    using ne by (auto simp: read_source_def parse_identity [OF assms(2-5)] split: if_splits)
  then obtain s where s: "env_read os resolved = Inr s" by (auto simp: read_bounded_def split: if_splits)
  have "MaxSourceBytes \<noteq> 0" "uint MaxSourceBytes < 2 ^ 63 - 1" by (simp_all add: MaxSourceBytes_def)
  then have "read_bounded (Inr s) MaxSourceBytes = Inr (take (unat MaxSourceBytes) s, unat MaxSourceBytes < length s)"
    using read_bounded_small [of MaxSourceBytes s] by simp
  with a(2) s have "take (unat MaxSourceBytes) s = data" "\<not> unat MaxSourceBytes < length s" by simp_all
  then have "data = s" by (metis linorder_not_less take_all)
  with a s show ?thesis by auto
qed


text \<open>RFC 6901: the reference tokens of a pointer, written with the two escapes.\<close>

fun escape_token :: "string \<Rightarrow> string" where
  "escape_token [] = []"
| "escape_token (c # s) =
     (if c = CHR ''~'' then ''~0'' else if c = CHR ''/'' then ''~1'' else [c]) @ escape_token s"

definition pointer_text :: "string list \<Rightarrow> string" where
  "pointer_text ts = concat (map (\<lambda>t. CHR ''/'' # escape_token t) ts)"

primrec descend :: "json \<Rightarrow> string list \<Rightarrow> go_error + json" where
  "descend v [] = Inr v"
| "descend v (t # ts) = try_then (pointer_step v t) (\<lambda>w. descend w ts)"

lemma decode_escape [simp]: "decode_pointer_token (escape_token t) = Inr t"
  by (induction t) auto

lemma escape_no_slash: "CHR ''/'' \<notin> set (escape_token t)"
  by (induction t) auto

lemma escape_decode: "decode_pointer_token raw = Inr t \<Longrightarrow> CHR ''/'' \<notin> set raw \<Longrightarrow> raw = escape_token t"
proof (induction raw arbitrary: t rule: length_induct)
  case (1 raw)
  then have ih: "length r < length raw \<Longrightarrow> decode_pointer_token r = Inr u \<Longrightarrow> CHR ''/'' \<notin> set r \<Longrightarrow> r = escape_token u" for r u
    by blast
  show ?case
  proof (cases raw)
    case (Cons c s)
    show ?thesis
    proof (cases "c = CHR ''~''")
      case False
      with Cons "1.prems" obtain u where "decode_pointer_token s = Inr u" "t = c # u" by auto
      with Cons False ih [of s u] "1.prems"(2) show ?thesis by auto
    next
      case True
      with Cons "1.prems"(1) obtain d r u where "s = d # r" "decode_pointer_token r = Inr u"
        "d = CHR ''0'' \<and> t = CHR ''~'' # u \<or> d = CHR ''1'' \<and> t = CHR ''/'' # u"
        by (auto split: list.splits if_splits)
      with Cons True ih [of r u] "1.prems"(2) show ?thesis by auto
    qed
  qed (use "1.prems" in simp)
qed

lemma split_pointer: "ts \<noteq> [] \<Longrightarrow> split_on (CHR ''/'') (drop 1 (pointer_text ts)) = map escape_token ts"
proof (induction ts)
  case (Cons t ts)
  show ?case
  proof (cases ts)
    case Nil
    then show ?thesis by (simp add: pointer_text_def split_on_none escape_no_slash)
  next
    case (Cons u us)
    have "drop 1 (pointer_text (t # ts)) = escape_token t @ CHR ''/'' # drop 1 (pointer_text ts)"
      by (simp add: pointer_text_def Cons)
    with Cons.IH Cons show ?thesis by (simp add: split_on_append escape_no_slash)
  qed
qed simp

lemma walk_escaped: "pointer_walk v (map escape_token ts) = descend v ts"
  by (induction ts arbitrary: v) simp_all

lemma walk_tokens:
  "pointer_walk v raws = Inr x \<Longrightarrow> \<forall>raw \<in> set raws. CHR ''/'' \<notin> set raw \<Longrightarrow>
    \<exists>ts. raws = map escape_token ts"
proof (induction raws arbitrary: v)
  case (Cons raw raws)
  then obtain t w where "decode_pointer_token raw = Inr t" "pointer_walk w raws = Inr x" by auto
  with Cons obtain ts where "raws = map escape_token ts" by auto
  moreover have "raw = escape_token t" using \<open>decode_pointer_token raw = Inr t\<close> Cons.prems(2) by (auto dest: escape_decode)
  ultimately show ?case by (intro exI [of _ "t # ts"]) simp
qed simp

lemma join_pointer: "ts \<noteq> [] \<Longrightarrow> pointer_text ts = CHR ''/'' # join_with ''/'' (map escape_token ts)"
proof (induction ts)
  case (Cons t ts)
  then show ?case by (cases ts) (simp_all add: pointer_text_def)
qed simp

text \<open>What a JSONL scan is to return: the matching objects of the lines, projected, with their line numbers.\<close>

definition jsonl_row :: "data_env \<Rightarrow> data_request \<Rightarrow> nat \<times> string \<Rightarrow> data_result list" where
  "jsonl_row env q p = (case dv_object env (snd p) of
      Inl _ \<Rightarrow> []
    | Inr x \<Rightarrow> if matches_filters x (dr_filters q)
        then [blank_data\<lparr>dt_kind := ''jsonl_record'', dt_source_ref := dr_ref q, dt_line := fst p,
                dt_record := project_fields x (dr_fields q)\<rparr>]
        else [])"

definition jsonl_rows :: "data_env \<Rightarrow> data_request \<Rightarrow> nat \<Rightarrow> string list \<Rightarrow> data_result list" where
  "jsonl_rows env q n lines = concat (map (jsonl_row env q) (List.enumerate n lines))"

definition text_lines :: "string \<Rightarrow> string list" where
  "text_lines s = (let ls = split_on (CHR 0x0A) s in map strip_cr (if last ls = [] then butlast ls else ls))"

definition clean_scan :: "scan_acc \<Rightarrow> bool" where
  "clean_scan a \<longleftrightarrow> sa_status a = StatusOK \<and> sa_relation a = CountExact \<and> sa_state a = ScanComplete \<and> sa_warnings a = []"

lemma warned_not_ok [simp]: "sa_status (warn c m a) = StatusPartial" "sa_status (partial_scan c m a) = StatusPartial"
  by (simp_all add: warn_def partial_scan_def)

lemma added_result [simp]:
  "sa_status (add_result r n a) = sa_status a" "sa_results (add_result r n a) = sa_results a @ [r]"
  "clean_scan (add_result r n a) = clean_scan a"
  by (simp_all add: add_result_def clean_scan_def)

lemma jsonl_status:
  "jsonl_loop env late q ss n a = Inr (b, left) \<Longrightarrow> sa_status b = StatusOK \<Longrightarrow> sa_status a = StatusOK"
proof (induction ss arbitrary: n a)
  case (Cons s ss)
  then show ?case
    by (force simp: Let_def split: sum.splits if_splits option.splits)
qed simp

lemma jsonl_exact:
  assumes "jsonl_loop env late q ss n a = Inr (b, left)" "sa_status b = StatusOK" "clean_scan a"
  shows "sa_results b = sa_results a @ jsonl_rows env q (Suc n) ss \<and> \<not> left \<and> clean_scan b \<and>
    (\<forall>s \<in> set ss. is_ok (dv_object env s) \<and> \<not> dv_more env s)"
  using assms
proof (induction ss arbitrary: n a)
  case Nil
  then show ?case by (simp add: jsonl_rows_def)
next
  case (Cons s ss)
  from Cons.prems(1,2) obtain x where x: "dv_object env s = Inr x" "\<not> dv_more env s"
    by (auto simp: Let_def dest!: jsonl_status split: sum.splits if_splits)
  show ?case
  proof (cases "matches_filters x (dr_filters q)")
    case False
    with Cons.prems x have "jsonl_loop env late q ss (Suc n) a = Inr (b, left)"
      by (auto simp: Let_def split: if_splits)
    from Cons.IH [OF this Cons.prems(2,3)] x False show ?thesis by (simp add: jsonl_rows_def jsonl_row_def)
  next
    case True
    with Cons.prems(1,2) x obtain len where "jsonl_loop env late q ss (Suc n) (add_result (blank_data\<lparr>dt_kind := ''jsonl_record'',
        dt_source_ref := dr_ref q, dt_line := Suc n, dt_record := project_fields x (dr_fields q)\<rparr>) len a) = Inr (b, left)"
      by (auto simp: Let_def split: if_splits option.splits)
    from Cons.IH [OF this Cons.prems(2)] Cons.prems(3) x True show ?thesis by (simp add: jsonl_rows_def jsonl_row_def)
  qed
qed

lemma scan_lines_short:
  "scan_lines limit ls = (xs, False) \<Longrightarrow> ls \<noteq> [] \<Longrightarrow> xs = map strip_cr (if last ls = [] then butlast ls else ls)"
  by (induction limit ls arbitrary: xs rule: scan_lines.induct) (auto split: if_splits prod.splits)

text \<open>\<open>hex.EncodeToString\<close> of a SHA-256 sum.\<close>

definition hex_law :: "data_env \<Rightarrow> bool" where
  "hex_law env \<longleftrightarrow> (\<forall>x. length (dv_sha env x) = 64 \<and> (\<forall>c \<in> set (dv_sha env x). between 48 57 c \<or> between 97 102 c))"

lemma hex_texts:
  assumes "hex_law env"
  shows "length (dv_sha env x) = 64" "CHR ''@'' \<notin> set (dv_sha env x)" "hex_fold (dv_sha env x) = dv_sha env x"
proof -
  have h: "length (dv_sha env x) = 64" "\<forall>c \<in> set (dv_sha env x). between 48 57 c \<or> between 97 102 c"
    using assms unfolding hex_law_def by blast+
  have "\<not> (between 48 57 (CHR ''@'') \<or> between 97 102 (CHR ''@''))" by (simp add: between_def byte_def)
  with h(2) show "CHR ''@'' \<notin> set (dv_sha env x)" by blast
  have "(if between 65 90 c then char_of (byte c + 32) else c) = c" if "c \<in> set (dv_sha env x)" for c
    using h(2) that by (auto simp: between_def)
  then show "hex_fold (dv_sha env x) = dv_sha env x" unfolding hex_fold_def by (simp add: map_idI)
qed (use assms in \<open>simp add: hex_law_def\<close>)

section \<open>Paging\<close>

type_synonym data_state = "data_env \<times> string \<times> result_set"
type_synonym data_call = "os_env \<times> root \<times> page_call"

definition data_start :: "data_state \<Rightarrow> data_call \<Rightarrow> go_error + data_response" where
  "data_start st c = (case (st, c) of ((env, w, s), (os, r, l)) \<Rightarrow>
     data_read_page env os r (pl_db l) (sn_id s) 0 (pl_items l) (pl_bytes l) (sn_expires_at s))"

definition data_resume :: "data_state \<Rightarrow> string \<Rightarrow> data_call \<Rightarrow> go_error + data_response" where
  "data_resume st encoded c = (case (st, c) of ((env, w, s), (os, r, l)) \<Rightarrow>
     data_from_cursor env os r (pl_db l) (pl_now l) encoded (pl_items l) (pl_bytes l))"

definition data_contents :: "data_state \<Rightarrow> data_result list" where
  "data_contents st = set_contents (dv_decode (fst st)) (snd (snd st))"

definition data_call_ok :: "data_state \<Rightarrow> data_call \<Rightarrow> bool" where
  "data_call_ok st c = (case (st, c) of ((env, w, s), (os, r, l)) \<Rightarrow> rt_id r = w \<and> call_meets (dv_codec env) w s l)"

definition data_points :: "data_state \<Rightarrow> string \<Rightarrow> nat \<Rightarrow> bool" where
  "data_points st = (case st of (env, w, s) \<Rightarrow> cursor_points (dv_codec env) w s)"

lemma data_body_fits:
  assumes "data_page_body env w meta k start expires whole items byte_limit n = Inr (Some r)"
  shows "rs_items r = take n items \<and> page_cursor (dv_codec env) w k (start + n) whole expires = Inr (rs_next_cursor r)"
  using assms by (auto simp: data_page_body_def Let_def split: if_splits)

lemma data_page_read:
  assumes "data_read_page env os r db k n limit bytes x = Inr y"
  obtains p meta source "is" where "read_result_page k n limit db = Inr p" "dv_decode_meta env (pg_metadata p) = Some meta"
    "read_source env os r (dp_source meta) = Inr source" "decode_items (Text ''decode stored result'') (dv_decode env) (pg_items p) = Inr is"
    "fit_page data_too_large (data_page_body env (rt_id r) meta k n x (pg_total p) is bytes) (length is) = Inr y"
  using assms by (auto simp: data_read_page_def is_ok_iff split: option.splits if_splits)

lemma data_page_slice:
  assumes "data_call_ok (env, w, s) (os, r, l)" "n \<le> length (sn_items s)" "unix_seconds x = unix_seconds (sn_expires_at s)"
    "data_read_page env os r (pl_db l) (sn_id s) n (pl_items l) (pl_bytes l) x = Inr y"
  shows "page_slice (data_points (env, w, s)) rs_items rs_next_cursor (data_contents (env, w, s)) n y"
proof -
  from assms(1) have m: "call_meets (dv_codec env) w s l" "rt_id r = w" by (auto simp: data_call_ok_def)
  from assms(4) obtain p meta source "is" where p: "read_result_page (sn_id s) n (pl_items l) (pl_db l) = Inr p"
    "decode_items (Text ''decode stored result'') (dv_decode env) (pg_items p) = Inr is"
    "fit_page data_too_large (data_page_body env w meta (sn_id s) n x (pg_total p) is (pl_bytes l)) (length is) = Inr y"
    unfolding m(2) [symmetric] by (rule data_page_read)
  show ?thesis
    unfolding data_points_def data_contents_def prod.case fst_conv snd_conv
    by (rule fit_page_slice [OF m(1) assms(2) p(1,2) assms(3) p(3)]) (rule data_body_fits)
qed

interpretation data_pages: paged data_start data_resume rs_items rs_next_cursor data_contents data_call_ok data_points
proof
  fix st l r
  assume a: "data_call_ok st l" "data_start st l = Inr r"
  obtain env w s where st: "st = (env, w, s)" by (rule prod_cases3)
  obtain os rt c where l: "l = (os, rt, c)" by (rule prod_cases3)
  from a show "page_slice (data_points st) rs_items rs_next_cursor (data_contents st) 0 r"
    unfolding st l using data_page_slice [of env w s os rt c 0 "sn_expires_at s" r] by (simp add: data_start_def)
next
  fix st l encoded n r
  assume a: "data_call_ok st l" "data_points st encoded n" "n \<le> length (data_contents st)" "data_resume st encoded l = Inr r"
  obtain env w s where st: "st = (env, w, s)" by (rule prod_cases3)
  obtain os rt c where l: "l = (os, rt, c)" by (rule prod_cases3)
  have w: "rt_id rt = w" "codec_law (dv_codec env) w s" using a(1) by (auto simp: st l data_call_ok_def call_meets_def)
  from a(4) obtain p where p: "decode_cursor (dv_codec env) (pl_now c) encoded w = Inr p"
    "data_read_page env os rt (pl_db c) (cr_set p) (cr_next p) (pl_items c) (pl_bytes c) (seconds (cr_expires p)) = Inr r"
    by (auto simp: st l data_resume_def data_from_cursor_def w(1))
  from decoded_cursor_points [OF _ w(2) p(1), of n] a(2)
  have "cr_set p = sn_id s" "cr_next p = n" "cr_expires p = unix_seconds (sn_expires_at s)"
    by (auto simp: st data_points_def)
  with p(2) a(1,3) data_page_slice [of env w s os rt c n "seconds (unix_seconds (sn_expires_at s))" r]
  show "page_slice (data_points st) rs_items rs_next_cursor (data_contents st) n r"
    by (simp add: st l data_contents_def set_contents_def)
qed

section \<open>Properties\<close>

text \<open>C20: a page of a stored data query on a file whose path does not begin with \<open>mutable:\<close>, the first or one a cursor
  resumes, is only answered while the file it was computed from resolves inside the readable roots and still has the recorded
  content hash.\<close>

theorem data_page_pinned:
  assumes "catalog_reachable json_valid db" "data_result_set env w created k q m rs \<in> set (db_results db)"
    "dp_source m = source_identity env path data" "dv_decode_meta env (dv_encode_meta env m) = Some m"
    "path \<noteq> []" "\<not> has_prefix path ''mutable:''" "hex_law env"
    "data_read_page env os r db k n limit bytes x = Inr y"
  shows "\<exists>resolved data'. resolve_existing os r path = Inr resolved \<and> env_read os resolved = Inr data' \<and>
    dv_sha env data' = dv_sha env data"
proof -
  let ?s = "data_result_set env w created k q m rs"
  note ok = reachable_ok [OF assms(1)]
  have wn: "well_numbered ?s" using reachable_results_valid [OF assms(1)] assms(2) by (blast intro: validated_numbered)
  have k: "sn_id ?s = k" "sn_metadata ?s = dv_encode_meta env m" by (simp_all add: data_result_set_def)
  from assms(8) obtain p meta source where p: "read_result_page (sn_id ?s) n limit db = Inr p"
    "dv_decode_meta env (pg_metadata p) = Some meta" "read_source env os r (dp_source meta) = Inr source"
    unfolding k(1) by (rule data_page_read)
  have "pg_metadata p = sn_metadata ?s" by (rule read_result_metadata [OF ok assms(2) p(1)])
  with p(2) k(2) assms(4) have "meta = m" by simp
  with p(3) assms(3) have "read_source env os r (pinned_ref path (dv_sha env data)) = Inr source"
    by (simp add: source_identity_def)
  from read_source_pinned [OF this assms(5,6) hex_texts(1,2) [OF assms(7)]] hex_texts(3) [OF assms(7), of data]
  show ?thesis by auto
qed

text \<open>The recorded identity of a file whose path begins with \<open>mutable:\<close> is read back as a mutable
  reference to another path: its pages are not tied to the content they were computed from.\<close>

theorem mutable_path_unpinned:
  "parse_source_ref (source_identity env (''mutable:'' @ rest) data) = Inr (rest @ ''@sha256:'' @ dv_sha env data, [])"
  by (simp add: source_identity_def pinned_ref_def parse_source_ref_def has_prefix_def trim_prefix_def)

text \<open>The tokens of an array index: decimal numerals, leading zeros allowed, that fit 64 bits.\<close>

lemma digits_value_snoc: "digits_value (s @ [c]) = digits_value s * 10 + (byte c - 48)"
  by (simp add: digits_value_def)

lemma digit_char_digit: "d < 10 \<Longrightarrow> between 48 57 (digit_char d) \<and> byte (digit_char d) = 48 + d"
  by (simp add: digit_char_def between_def byte_def)

lemma digit_of: "between 48 57 c \<Longrightarrow> digit_char (byte c - 48) = c \<and> byte c - 48 < 10"
  by (auto simp: digit_char_def between_def byte_def)

lemma itoa_value: "all_digits (itoa n) \<and> digits_value (itoa n) = n"
proof (induction n rule: itoa.induct)
  case (1 n)
  show ?case
  proof (cases "n < 10")
    case True
    then show ?thesis using digit_char_digit [OF True] by (simp add: itoa.simps [of n] all_digits_def digits_value_def)
  next
    case False
    then show ?thesis using 1 digit_char_digit [of "n mod 10"]
      by (simp add: itoa.simps [of n] all_digits_def digits_value_snoc)
  qed
qed

lemma zeros_value: "all_digits s \<Longrightarrow> all_digits (replicate z (CHR ''0'') @ s) \<and> digits_value (replicate z (CHR ''0'') @ s) = digits_value s"
  by (induction z) (simp_all add: all_digits_def digits_value_def between_def byte_def)

lemma digits_numeral: "s \<noteq> [] \<Longrightarrow> list_all (between 48 57) s \<Longrightarrow> \<exists>z. s = replicate z (CHR ''0'') @ itoa (digits_value s)"
proof (induction s rule: rev_induct)
  case (snoc c s)
  let ?d = "byte c - 48"
  have c: "digit_char ?d = c" "?d < 10" using digit_of [of c] snoc.prems(2) by simp_all
  show ?case
  proof (cases "s = []")
    case True
    then show ?thesis using c by (intro exI [of _ 0]) (simp add: digits_value_def itoa.simps [of ?d])
  next
    case False
    then obtain z where z: "s = replicate z (CHR ''0'') @ itoa (digits_value s)" using snoc by auto
    show ?thesis
    proof (cases "digits_value s = 0")
      case True
      have "itoa 0 = [CHR ''0'']" by code_simp
      then have "s = replicate (Suc z) (CHR ''0'')" using z True by (simp add: replicate_append_same)
      moreover have "itoa (digits_value (s @ [c])) = [c]" using c by (simp add: digits_value_snoc True itoa.simps [of ?d])
      ultimately show ?thesis by (intro exI [of _ "Suc z"]) simp
    next
      case False
      then have "itoa (digits_value (s @ [c])) = itoa (digits_value s) @ [c]"
        using c by (simp add: digits_value_snoc itoa.simps [of "digits_value s * 10 + ?d"])
      then show ?thesis using z by (metis append.assoc)
    qed
  qed
qed simp

lemma parse_uint_numeral:
  "parse_uint t = Some i \<longleftrightarrow> int i < 2 ^ 64 \<and> (\<exists>z. t = replicate z (CHR ''0'') @ itoa i)"
  using digits_numeral [of t] itoa_value [of i] zeros_value [of "itoa i"]
  by (auto simp: parse_uint_def all_digits_def split: if_splits)

text \<open>The value a list of reference tokens denotes, as RFC 6901 says, but with leading zeros allowed in an array index.\<close>

inductive denotes :: "json \<Rightarrow> string list \<Rightarrow> json \<Rightarrow> bool" where
  whole: "denotes v [] v"
| member: "map_of m t = Some v \<Longrightarrow> denotes v ts x \<Longrightarrow> denotes (JObject m) (t # ts) x"
| element: "i < length vs \<Longrightarrow> int i < 2 ^ 64 \<Longrightarrow> denotes (vs ! i) ts x \<Longrightarrow>
    denotes (JArray vs) ((replicate z (CHR ''0'') @ itoa i) # ts) x"

inductive_cases denotes_member: "denotes (JObject m) (t # ts) x"
inductive_cases denotes_element: "denotes (JArray vs) (t # ts) x"
inductive_cases denotes_step: "denotes v (t # ts) x"

lemma descend_denotes: "descend v ts = Inr x \<longleftrightarrow> denotes v ts x"
proof (induction ts arbitrary: v)
  case Nil
  show ?case by (auto intro: denotes.whole elim: denotes.cases)
next
  case (Cons t ts)
  have "descend v (t # ts) = Inr x \<longleftrightarrow> (\<exists>w. pointer_step v t = Inr w \<and> denotes w ts x)"
    by (auto simp: try_then_Inr_iff Cons.IH)
  also have "\<dots> \<longleftrightarrow> denotes v (t # ts) x"
  proof (cases v)
    case (JObject m)
    then show ?thesis by (auto simp: pointer_step_def intro: denotes.member elim!: denotes_member split: option.splits)
  next
    case (JArray vs)
    have "(\<exists>w. pointer_step v t = Inr w \<and> denotes w ts x) \<longleftrightarrow> (\<exists>i. parse_uint t = Some i \<and> i < length vs \<and> denotes (vs ! i) ts x)"
      by (auto simp: JArray pointer_step_def not_le split: option.splits if_splits)
    also have "\<dots> \<longleftrightarrow> denotes v (t # ts) x"
      unfolding JArray parse_uint_numeral by (auto intro: denotes.element elim!: denotes_element)
    finally show ?thesis .
  qed (auto simp: pointer_step_def elim: denotes_step)
  finally show ?case .
qed

text \<open>C21: a pointer resolves to a value exactly when it is the escaped form of a list of reference tokens that denotes the
  value: member names for objects, and for arrays decimal indices in range. Leading zeros of an index are accepted, which
  RFC 6901 forbids; everything else is as it says.\<close>

theorem json_pointer_exact:
  "resolve_json_pointer v p = Inr x \<longleftrightarrow> (\<exists>ts. p = pointer_text ts \<and> denotes v ts x)"
proof
  assume a: "resolve_json_pointer v p = Inr x"
  show "\<exists>ts. p = pointer_text ts \<and> denotes v ts x"
  proof (cases "p = []")
    case True
    with a show ?thesis by (intro exI [of _ "[]"]) (auto simp: resolve_json_pointer_def pointer_text_def intro: denotes.whole)
  next
    case False
    with a have p: "has_prefix p ''/''" "pointer_walk v (split_on (CHR ''/'') (drop 1 p)) = Inr x"
      by (auto simp: resolve_json_pointer_def split: if_splits)
    from p(1) obtain q where q: "p = CHR ''/'' # q" by (auto simp: has_prefix_iff)
    from walk_tokens [OF p(2)] obtain ts where ts: "split_on (CHR ''/'') q = map escape_token ts"
      using split_on_no_sep q by force
    then have "ts \<noteq> []" using split_on_not_Nil by (metis list.map(1))
    then have "p = pointer_text ts" using q ts join_split [of "CHR ''/''" q] by (simp add: join_pointer)
    moreover have "denotes v ts x" using p(2) q ts walk_escaped descend_denotes by simp
    ultimately show ?thesis by blast
  qed
next
  assume "\<exists>ts. p = pointer_text ts \<and> denotes v ts x"
  then obtain ts where ts: "p = pointer_text ts" "descend v ts = Inr x" using descend_denotes by blast
  show "resolve_json_pointer v p = Inr x"
  proof (cases "ts = []")
    case True
    with ts show ?thesis by (simp add: resolve_json_pointer_def pointer_text_def)
  next
    case False
    with ts split_pointer [OF False] walk_escaped join_pointer [OF False] show ?thesis
      by (simp add: resolve_json_pointer_def has_prefix_def)
  qed
qed

text \<open>A JSONL answer with status \<open>ok\<close> is complete: every line of the text is one JSON object, the results
  are the matching objects of all lines in order, projected and with their line numbers, and the count is
  exact.\<close>

theorem jsonl_ok_is_complete:
  assumes "query_jsonl env late q data = Inr (rs, m)" "dp_status m = StatusOK"
  shows "\<exists>s. decode_text (dv_lower env) (dv_korean env) (dr_encoding q) data = Inr s \<and>
    (\<forall>l \<in> set (text_lines s). is_ok (dv_object env l) \<and> \<not> dv_more env l) \<and>
    rs = jsonl_rows env q 1 (text_lines s) \<and> dp_relation m = CountExact \<and> dp_warnings m = []"
proof -
  define q1 where "q1 = jsonl_request q"
  have q1: "dr_encoding q1 = dr_encoding q" "dr_filters q1 = dr_filters q" "dr_fields q1 = dr_fields q" "dr_ref q1 = dr_ref q"
    by (simp_all add: q1_def jsonl_request_def)
  from assms(1) obtain s lines long a left where s: "decode_text (dv_lower env) (dv_korean env) (dr_encoding q) data = Inr s"
    "scan_lines MaximumJSONLRecord (split_on (CHR 0x0A) s) = (lines, long)"
    "jsonl_loop env late q1 lines 0 scan_start = Inr (a, left)" "jsonl_end env q1 long (a, left) = Inr (rs, m)"
    unfolding query_jsonl_def Let_def q1_def [symmetric] q1(1) by (auto split: if_splits prod.splits) (metis surj_pair)
  have fine: "\<not> (long \<and> \<not> left)" using s(4) assms(2) by (auto simp: jsonl_end_def scanned_def Let_def split: if_splits)
  then have a: "sa_status a = StatusOK" "rs = sa_results a" "dp_relation m = sa_relation a" "dp_warnings m = sa_warnings a"
    using s(4) assms(2) by (auto simp: jsonl_end_def scanned_def)
  have start: "clean_scan scan_start" by (simp add: clean_scan_def scan_start_def)
  from jsonl_exact [OF s(3) a(1) start] have e: "rs = jsonl_rows env q1 1 lines" "\<not> left" "clean_scan a"
    "\<forall>l \<in> set lines. is_ok (dv_object env l) \<and> \<not> dv_more env l"
    using a(2) by (auto simp: scan_start_def)
  with s(2) fine have "lines = text_lines s"
    using scan_lines_short [of MaximumJSONLRecord "split_on (CHR 0x0A) s" lines] by (simp add: text_lines_def Let_def)
  moreover have "jsonl_rows env q1 1 lines = jsonl_rows env q 1 lines" unfolding jsonl_rows_def jsonl_row_def q1 ..
  ultimately show ?thesis using s(1) a(3,4) e by (auto simp: clean_scan_def)
qed


text \<open>RFC 6901 has no leading zeros in array indices; the code takes them.\<close>

lemma pointer_leading_zero: "resolve_json_pointer (JArray [JNull, JBool True]) ''/01'' = Inr (JBool True)"
  by code_simp

section \<open>Witnesses\<close>

definition demo_data_set_meta :: data_persisted where
  "demo_data_set_meta = \<lparr>dp_status = StatusOK, dp_relation = CountExact, dp_scan = \<lparr>sc_state = ScanComplete, sc_scope_ref = None\<rparr>,
     dp_warnings = [], dp_metadata = \<lparr>dm_mode = ''log'', dm_dialect = [], dm_encoding = ''utf-8'', dm_missing = []\<rparr>,
     dp_source = pinned_ref ''a'' (replicate 64 (CHR ''0''))\<rparr>"

definition demo_data_env :: data_env where
  "demo_data_env = \<lparr>dv_lower = (\<lambda>s. s), dv_korean = \<lparr>ko_decode = Inr, ko_encode = Inr\<rparr>, dv_codec = demo_codec (seconds 40),
     dv_sha = (\<lambda>_. replicate 64 (CHR ''0'')), dv_json = (\<lambda>s. Inr (JString s)), dv_object = (\<lambda>s. Inr (Some [(''k'', JString s)])),
     dv_more = (\<lambda>_. False), dv_csv = (\<lambda>_ _. []), dv_regex = (\<lambda>_. Inl []), dv_marshal = (\<lambda>_. Some 1), dv_request = dr_mode,
     dv_encode = dt_text, dv_decode = (\<lambda>s. Some (blank_data\<lparr>dt_text := s\<rparr>)), dv_encode_meta = (\<lambda>_. ''{}''),
     dv_decode_meta = (\<lambda>_. Some demo_data_set_meta), dv_size = (\<lambda>_. 0), dv_valid = (\<lambda>_. True)\<rparr>"

definition demo_data_request :: data_request where
  "demo_data_request = \<lparr>dr_mode = ''jsonl'', dr_ref = ''source:mutable:a'', dr_encoding = ''utf-8'', dr_line_start = None,
     dr_line_end = None, dr_byte_start = None, dr_byte_end = None, dr_dialect = [], dr_filters = [], dr_fields = [],
     dr_malformed = [], dr_pointer = [], dr_pattern = [], dr_case_sensitive = False, dr_cursor = [],
     dr_limits = \<lparr>lr_item_limit = 0, lr_byte_limit = 0, lr_time_limit_ms = 0\<rparr>\<rparr>"

definition demo_data_os :: os_env where
  "demo_data_os = \<lparr>env_realpath = Inr, env_lstat = (\<lambda>_. LstatFound), env_stat_dir = (\<lambda>_. Inr False),
     env_stat_file = (\<lambda>_. Inr (True, 1)), env_read = (\<lambda>_. Inr ''x''), env_cwd = ''/''\<rparr>"

definition demo_data_root :: root where
  "demo_data_root = \<lparr>rt_id = ''w'', rt_lexical = ''/r'', rt_root_resolved = ''/r'', rt_grants = []\<rparr>"

definition demo_data_set :: result_set where
  "demo_data_set = data_result_set demo_data_env ''w'' 6 ''s'' demo_data_request demo_data_set_meta [blank_data\<lparr>dt_source_ref := ''x''\<rparr>]"

definition demo_data_db :: catalog_db where
  "demo_data_db = fst (create_result_set (\<lambda>_. True) demo_data_set demo_catalog)"

lemma demo_data_db_reachable: "catalog_reachable (\<lambda>_. True) demo_data_db"
proof -
  have "catalog_step (\<lambda>_. True) (sn_created_at demo_data_set) demo_catalog demo_data_db"
    unfolding demo_data_db_def by (rule snapshot)
  with demo_catalog_reachable show ?thesis by (rule catalog_reachable.step)
qed

lemma demo_data_stored: "demo_data_set \<in> set (db_results demo_data_db)"
  by code_simp

lemma demo_hex_law: "hex_law demo_data_env"
  by (simp add: hex_law_def demo_data_env_def between_def byte_def)

theorem data_page_pinned_witness:
  "is_ok (data_read_page demo_data_env demo_data_os demo_data_root demo_data_db ''s'' 0 5 100 (seconds 40)) \<and>
   (\<exists>resolved data'. resolve_existing demo_data_os demo_data_root ''a'' = Inr resolved \<and>
     env_read demo_data_os resolved = Inr data' \<and> dv_sha demo_data_env data' = dv_sha demo_data_env ''x'')"
proof -
  have e: "is_ok (data_read_page demo_data_env demo_data_os demo_data_root demo_data_db ''s'' 0 5 100 (seconds 40))" by code_simp
  then obtain y where y: "data_read_page demo_data_env demo_data_os demo_data_root demo_data_db ''s'' 0 5 100 (seconds 40) = Inr y"
    unfolding is_ok_iff by blast
  have m: "dp_source demo_data_set_meta = source_identity demo_data_env ''a'' ''x''"
    "dv_decode_meta demo_data_env (dv_encode_meta demo_data_env demo_data_set_meta) = Some demo_data_set_meta"
    by (simp_all add: demo_data_set_meta_def source_identity_def demo_data_env_def)
  have p: "\<not> has_prefix ''a'' ''mutable:''" by (simp add: has_prefix_def)
  from data_page_pinned [OF demo_data_db_reachable demo_data_stored [unfolded demo_data_set_def] m _ p demo_hex_law y] e
  show ?thesis by simp
qed

theorem jsonl_ok_is_complete_witness:
  "\<exists>rs m. query_jsonl demo_data_env (\<lambda>_. False) demo_data_request ''a'' = Inr (rs, m) \<and> length rs = 1 \<and>
     rs = jsonl_rows demo_data_env demo_data_request 1 (text_lines ''a'')"
proof -
  let ?r = "query_jsonl demo_data_env (\<lambda>_. False) demo_data_request ''a''"
  have e: "is_ok ?r" "dp_status (snd (projr ?r)) = StatusOK" "length (fst (projr ?r)) = 1"
    "decode_text (dv_lower demo_data_env) (dv_korean demo_data_env) (dr_encoding demo_data_request) ''a'' = Inr ''a''"
    by code_simp+
  from e(1) obtain rs m where r: "?r = Inr (rs, m)" unfolding is_ok_iff by (metis surj_pair)
  with e(2,3) have "dp_status m = StatusOK" "length rs = 1" by simp_all
  with jsonl_ok_is_complete [OF r] e(4) r show ?thesis by auto
qed

end
