(* ===== verification/SearchBackend.thy ===== *)
theory SearchBackend
  imports TextContent Paths "HOL-Library.Char_ord" "HOL-Library.List_Lexorder" "HOL-Library.Product_Lexorder"
begin

text \<open>
  \<open>internal/search/backend.go\<close> and \<open>internal/search/adapters.go\<close>: the ripgrep channel, the search in
  decoded files, Git history and symbol indexes. A child process is the answer it gives to a
  directory and an argument list; decoders, regular expressions, globs and files are fields of
  \<open>search_env\<close>.
\<close>

section \<open>Queries and outcomes\<close>

record backend_query =
  bq_mode :: string
  bq_pattern :: string
  bq_directory :: string
  bq_includes :: "string list"
  bq_excludes :: "string list"
  bq_hidden :: bool
  bq_ignored :: string
  bq_generated :: string
  bq_vendor :: string
  bq_case_sensitive :: bool
  bq_encoding :: string
  bq_match_kind :: string
  bq_revision :: string
  bq_since :: string
  bq_until :: string
  bq_symbol_kind :: string
  bq_language :: string
  bq_syntax :: string
  bq_prefix :: string

record search_match =
  sm_path :: string
  sm_line :: nat
  sm_text :: string
  sm_source_ref :: string
  sm_basis :: string
  sm_channel :: string
  sm_revision :: string
  sm_validity :: string

definition blank_match :: search_match where
  "blank_match = \<lparr>sm_path = [], sm_line = 0, sm_text = [], sm_source_ref = [], sm_basis = [], sm_channel = [], sm_revision = [],
     sm_validity = []\<rparr>"

record outcome =
  oc_matches :: "search_match list"
  oc_complete :: bool
  oc_warnings :: "string list"
  oc_engine :: string
  oc_validity :: string
  oc_unsupported :: bool

definition MaxMatches :: int where "MaxMatches = 10000"
definition MaxRGRecordBytes :: int where "MaxRGRecordBytes = 1024 * 1024"
definition MaxStderrBytes :: nat where "MaxStderrBytes = 8 * 1024"
definition MaxSearchFileBytes :: u64 where "MaxSearchFileBytes = 16 * 1024 * 1024"
definition maxAdapterOutput :: nat where "maxAdapterOutput = 16 * 1024 * 1024"

definition new_outcome :: "string \<Rightarrow> outcome" where
  "new_outcome engine = \<lparr>oc_matches = [], oc_complete = True, oc_warnings = [], oc_engine = engine, oc_validity = [], oc_unsupported = False\<rparr>"

definition degrade :: "string \<Rightarrow> outcome \<Rightarrow> outcome" where
  "degrade message o1 = o1\<lparr>oc_complete := False, oc_warnings := oc_warnings o1 @ [message]\<rparr>"

definition limit_warning :: string where "limit_warning = ''match limit 10000 reached''"
definition deadline_warning :: string where "deadline_warning = ''search deadline or cancellation reached''"

section \<open>Child processes\<close>

text \<open>\<open>cappedBuffer.Write\<close>: the buffer and its truncation flag.\<close>

definition capped_write :: "nat \<Rightarrow> string \<Rightarrow> string \<times> bool \<Rightarrow> string \<times> bool" where
  "capped_write limit data b =
     (let remaining = int limit - int (length (fst b))
      in if remaining \<le> 0 then (fst b, True)
         else if remaining < int (length data) then (fst b @ take (nat remaining) data, True)
         else (fst b @ data, snd b))"

definition captured :: "nat \<Rightarrow> string list \<Rightarrow> string \<times> bool" where
  "captured limit chunks = fold (capped_write limit) chunks ([], False)"

datatype wait_result = WaitOK | WaitExit int | WaitOther

text \<open>What a run of ripgrep shows: its output, whether the context was done by the end, how it exited, and
  what it wrote to standard error, write by write.\<close>

record rg_run =
  rr_start_error :: "string option"
  rr_stdout :: string
  rr_done :: bool
  rr_wait :: wait_result
  rr_stderr :: "string list"

record rg_event =
  rv_type :: string
  rv_path :: "string option"
  rv_lines :: "string option"
  rv_number :: "nat option"

record git_run =
  gr_stdout :: "string list"
  gr_stderr :: "string list"
  gr_failed :: bool
  gr_done :: bool

record symbol_record =
  sy_type :: string
  sy_name :: string
  sy_kind :: string
  sy_language :: string
  sy_path :: string
  sy_line :: json
  sy_revision :: string

text \<open>Opening a symbol index and resolving its path; the contents are as far as they could be read, the flag
  tells of a read error.\<close>

datatype index_answer = IndexMissing | IndexUnreadable | IndexOpen "string option" string bool

record search_env =
  se_version :: string
  se_rg :: "string \<Rightarrow> string list \<Rightarrow> rg_run"
  se_lower :: "string \<Rightarrow> string"
  se_korean :: korean
  se_regex :: "string \<Rightarrow> string + (string \<Rightarrow> bool)"
  se_event :: "string \<Rightarrow> string + rg_event"
  se_file :: "string \<Rightarrow> go_error + string"
  se_git :: bool
  se_git_version :: string
  se_run_git :: "string \<Rightarrow> string list \<Rightarrow> git_run"
  se_root :: string
  se_indexes :: "string list"
  se_index :: "string \<Rightarrow> index_answer"
  se_symbol :: "string \<Rightarrow> string + symbol_record"
  se_fold_eq :: "string \<Rightarrow> string \<Rightarrow> bool"
  se_glob :: "string \<Rightarrow> string \<Rightarrow> bool"

section \<open>Ripgrep\<close>

definition unavailable_backend :: outcome where
  "unavailable_backend = (new_outcome ''ripgrep unavailable'')\<lparr>oc_complete := False, oc_unsupported := True, oc_warnings :=
     [''ripgrep (rg) is unavailable; install rg or use a release archive that includes it to enable filename and text search'']\<rparr>"

definition base_arguments :: "backend_query \<Rightarrow> string list" where
  "base_arguments q =
     [''--no-config'', ''--color'', ''never'', ''--sort'', ''path''] @
     (if bq_hidden q then [''--hidden''] else []) @
     (if bq_ignored q = ''include'' then [''--no-ignore''] else []) @
     concat (map (\<lambda>p. [''--glob'', p]) (bq_includes q)) @
     concat (map (\<lambda>p. [''--glob'', ''!'' @ p]) (bq_excludes q)) @
     (if bq_generated q \<noteq> ''include''
      then concat (map (\<lambda>p. [''--glob'', p]) [''!generated/**'', ''!dist/**'', ''!build/**'']) else []) @
     (if bq_vendor q \<noteq> ''include''
      then concat (map (\<lambda>p. [''--glob'', p]) [''!vendor/**'', ''!node_modules/**'']) else [])"

definition filename_matches :: "(string \<Rightarrow> string) \<Rightarrow> string \<Rightarrow> bool \<Rightarrow> string \<Rightarrow> bool" where
  "filename_matches lower pattern case_sensitive path \<longleftrightarrow>
     pattern = [] \<or>
     contains_str (if case_sensitive then path else lower path) (if case_sensitive then pattern else lower pattern)"

text \<open>\<open>scanNull\<close> as a split function of \<open>bufio.Scanner\<close>.\<close>

fun scan_null :: "int \<Rightarrow> string list \<Rightarrow> string list \<times> bool" where
  "scan_null limit [] = ([], False)"
| "scan_null limit [t] = (if limit \<le> int (length t) then ([], True) else if t = [] then ([], False) else ([t], False))"
| "scan_null limit (t # u # ts) =
     (if limit \<le> int (length t) then ([], True) else let (rest, long) = scan_null limit (u # ts) in (t # rest, long))"

text \<open>The loop over the tokens; the flag tells that the match limit ended it.\<close>

fun rg_tokens :: "(string \<Rightarrow> go_error + search_match option) \<Rightarrow> string list \<Rightarrow> search_match list \<Rightarrow>
    go_error + (search_match list \<times> bool)" where
  "rg_tokens parse [] ms = Inr (ms, False)"
| "rg_tokens parse (t # ts) ms = try_then (parse t) (\<lambda>found. case found of
      None \<Rightarrow> rg_tokens parse ts ms
    | Some m \<Rightarrow> if MaxMatches \<le> int (Suc (length ms)) then Inr (ms @ [m], True) else rg_tokens parse ts (ms @ [m]))"

definition rg_exit :: "rg_run \<Rightarrow> outcome \<Rightarrow> go_error + outcome" where
  "rg_exit a o1 =
     (if rr_done a then Inr (degrade deadline_warning o1)
      else if rr_wait a \<noteq> WaitOK \<and> oc_complete o1 \<and> rr_wait a \<noteq> WaitExit 1 then
        (if oc_matches o1 = []
         then Inl (Text (''ripgrep failed: '' @ trim_space (fst (captured MaxStderrBytes (rr_stderr a)))))
         else Inr (degrade ''ripgrep reported an error after returning matches'' o1))
      else Inr o1)"

definition rg_diagnostics :: "rg_run \<Rightarrow> outcome \<Rightarrow> outcome" where
  "rg_diagnostics a o1 =
     (let (text, truncated) = captured MaxStderrBytes (rr_stderr a)
      in if text = [] then o1
         else degrade (''ripgrep reported diagnostics'' @
           (if truncated then ''; diagnostics exceeded the capture limit'' else [])) o1)"

definition run_rg ::
    "search_env \<Rightarrow> string \<Rightarrow> string list \<Rightarrow> (string \<Rightarrow> string list \<times> bool) \<Rightarrow> (string \<Rightarrow> go_error + search_match option) \<Rightarrow>
     go_error + outcome" where
  "run_rg env directory arguments split_tokens parse =
     (let a = se_rg env directory arguments
      in case rr_start_error a of
           Some e \<Rightarrow> Inl (Text (''start ripgrep: '' @ e))
         | None \<Rightarrow>
             try_then (rg_tokens parse (fst (split_tokens (rr_stdout a))) []) (\<lambda>(ms, full).
               let o1 = (if full then degrade limit_warning else (\<lambda>x. x)) ((new_outcome (se_version env))\<lparr>oc_matches := ms\<rparr>)
               in if snd (split_tokens (rr_stdout a)) \<and> \<not> full \<and> \<not> rr_done a
                  then Inl (Text ''read ripgrep output: bufio.Scanner: token too long'')
                  else try_then (rg_exit a o1) (\<lambda>o2. Inr (rg_diagnostics a o2))))"

definition file_token :: "search_env \<Rightarrow> backend_query \<Rightarrow> string \<Rightarrow> go_error + search_match option" where
  "file_token env q token =
     (let path = trim_prefix token ''./''
      in Inr (if filename_matches (se_lower env) (bq_pattern q) (bq_case_sensitive q) path
              then Some (blank_match\<lparr>sm_path := path\<rparr>) else None))"

definition search_files :: "search_env \<Rightarrow> backend_query \<Rightarrow> go_error + outcome" where
  "search_files env q =
     run_rg env (bq_directory q) (base_arguments q @ [''--files'', ''--null'', ''.''])
       (\<lambda>s. scan_null MaxRGRecordBytes (split_on (CHR 0x00) s)) (file_token env q)"

definition parse_rg_match :: "search_env \<Rightarrow> string \<Rightarrow> go_error + search_match option" where
  "parse_rg_match env token =
     (case se_event env token of
        Inl e \<Rightarrow> Inl (Text (''decode ripgrep event: '' @ e))
      | Inr v \<Rightarrow>
          if rv_type v \<noteq> ''match'' then Inr None
          else (case (rv_path v, rv_lines v, rv_number v) of
              (Some p, Some l, Some n) \<Rightarrow>
                Inr (Some (blank_match\<lparr>sm_path := trim_prefix p ''./'', sm_line := n, sm_text := trim_suffix l [CHR 0x0A]\<rparr>))
            | _ \<Rightarrow> Inl (Text ''ripgrep returned a non-text path or line'')))"

definition search_text :: "search_env \<Rightarrow> backend_query \<Rightarrow> go_error + outcome" where
  "search_text env q =
     run_rg env (bq_directory q)
       (base_arguments q @ [''--json'', ''--line-number'', ''--with-filename'', ''--text'', ''--encoding'', ''utf-8''] @
        (if bq_mode q = ''exact'' then [''--fixed-strings''] else []) @
        (if bq_case_sensitive q then [] else [''--ignore-case'']) @ [''--'', bq_pattern q, ''.''])
       (\<lambda>s. scan_lines MaxRGRecordBytes (split_on (CHR 0x0A) s)) (parse_rg_match env)"

section \<open>Search in decoded files\<close>

fun decoded_lines :: "(string \<Rightarrow> bool) \<Rightarrow> string \<Rightarrow> string list \<Rightarrow> nat \<Rightarrow> search_match list \<Rightarrow> search_match list \<times> bool" where
  "decoded_lines hit path [] n ms = (ms, False)"
| "decoded_lines hit path (l # ls) n ms =
     (if hit (strip_cr l) then
        (let found = ms @ [blank_match\<lparr>sm_path := path, sm_line := Suc n, sm_text := strip_cr l\<rparr>]
         in if MaxMatches \<le> int (length found) then (found, True) else decoded_lines hit path ls (Suc n) found)
      else decoded_lines hit path ls (Suc n) ms)"

definition decoded_file :: "search_env \<Rightarrow> backend_query \<Rightarrow> string \<Rightarrow> string + string" where
  "decoded_file env q path =
     (case read_bounded (se_file env (path_join (bq_directory q) path)) MaxSearchFileBytes of
        Inl _ \<Rightarrow> Inl (''could not read '' @ path)
      | Inr (data, truncated) \<Rightarrow>
          if truncated then Inl (''file exceeds search size limit: '' @ path)
          else (case decode_text (se_lower env) (se_korean env) (bq_encoding q) data of
              Inl _ \<Rightarrow> Inl (''decode failed for '' @ path)
            | Inr text \<Rightarrow> Inr text))"

fun decoded_files ::
    "search_env \<Rightarrow> backend_query \<Rightarrow> (string \<Rightarrow> bool) \<Rightarrow> (nat \<Rightarrow> bool) \<Rightarrow> string list \<Rightarrow> nat \<Rightarrow> outcome \<Rightarrow> outcome" where
  "decoded_files env q hit late [] n o1 = o1"
| "decoded_files env q hit late (path # paths) n o1 =
     (if late n then degrade deadline_warning o1
      else case decoded_file env q path of
        Inl message \<Rightarrow> decoded_files env q hit late paths (Suc n) (degrade message o1)
      | Inr text \<Rightarrow>
          (case decoded_lines hit path (split_on (CHR 0x0A) text) 0 (oc_matches o1) of
             (ms, full) \<Rightarrow>
               if full then degrade limit_warning (o1\<lparr>oc_matches := ms\<rparr>)
               else decoded_files env q hit late paths (Suc n) (o1\<lparr>oc_matches := ms\<rparr>)))"

definition line_matcher :: "search_env \<Rightarrow> backend_query \<Rightarrow> go_error + (string \<Rightarrow> bool)" where
  "line_matcher env q =
     (if bq_mode q = ''regex'' then
        (case se_regex env (if bq_case_sensitive q then bq_pattern q else ''(?i:'' @ bq_pattern q @ '')'') of
           Inl e \<Rightarrow> Inl (Text (''invalid regular expression: '' @ e)) | Inr hit \<Rightarrow> Inr hit)
      else if bq_case_sensitive q then Inr (\<lambda>l. contains_str l (bq_pattern q))
      else Inr (\<lambda>l. contains_str (se_lower env l) (se_lower env (bq_pattern q))))"

definition enumeration_query :: "backend_query \<Rightarrow> backend_query" where
  "enumeration_query q = q\<lparr>bq_mode := ''filename'', bq_pattern := [], bq_case_sensitive := True, bq_match_kind := [], bq_revision := [],
     bq_since := [], bq_until := [], bq_symbol_kind := [], bq_language := [], bq_syntax := [], bq_prefix := []\<rparr>"

definition search_decoded :: "search_env \<Rightarrow> (nat \<Rightarrow> bool) \<Rightarrow> backend_query \<Rightarrow> go_error + outcome" where
  "search_decoded env late q =
     try_then (search_files env (enumeration_query q)) (\<lambda>files.
     try_then (line_matcher env q) (\<lambda>hit.
       Inr (decoded_files env q hit late (map sm_path (oc_matches files)) 0
         ((new_outcome (se_version env @ '' file enumeration + Go textcodec/regexp''))
            \<lparr>oc_complete := oc_complete files, oc_warnings := oc_warnings files\<rparr>))))"

definition rg_search :: "search_env \<Rightarrow> (nat \<Rightarrow> bool) \<Rightarrow> backend_query \<Rightarrow> go_error + outcome" where
  "rg_search env late raw =
     (let q = (if bq_encoding raw = [] then raw\<lparr>bq_encoding := ''utf-8''\<rparr> else raw)
      in if bq_mode q = ''filename'' then search_files env q
         else if bq_mode q = ''exact'' \<or> bq_mode q = ''regex'' then
           (if bq_encoding q = ''cp949'' \<or> bq_encoding q = ''euc-kr'' then search_decoded env late q else search_text env q)
         else Inl (Text (''unsupported search mode '' @ quoted (bq_mode q))))"

section \<open>Git history\<close>

definition object_id :: "string \<Rightarrow> bool" where
  "object_id s \<longleftrightarrow> 40 \<le> length s \<and> length s \<le> 64 \<and> list_all (\<lambda>c. between 48 57 c \<or> between 65 70 c \<or> between 97 102 c) s"

text \<open>\<open>runGit\<close>: output, completeness and warning.\<close>

definition run_git :: "search_env \<Rightarrow> string \<Rightarrow> string list \<Rightarrow> go_error + (string \<times> bool \<times> string)" where
  "run_git env directory args =
     (let a = se_run_git env directory args;
          (out, truncated) = captured maxAdapterOutput (gr_stdout a);
          (err, _) = captured MaxStderrBytes (gr_stderr a)
      in if gr_done a then Inr (out, False, ''Git history deadline or cancellation reached'')
         else if gr_failed a then Inl (Text (''Git history query failed: '' @ trim_space err))
         else if truncated then Inr (out, False, ''Git history output limit reached'')
         else if err \<noteq> [] then Inr (out, False, ''Git history reported diagnostics'')
         else Inr (out, True, []))"

definition git_text :: "search_env \<Rightarrow> string \<Rightarrow> string list \<Rightarrow> go_error + string" where
  "git_text env directory args = try_then (run_git env directory args) (\<lambda>(out, _). Inr out)"

definition git_base_args :: "backend_query \<Rightarrow> string list" where
  "git_base_args q =
     [''--no-pager'', ''-c'', ''color.ui=false'', ''log'', ''--no-ext-diff'', ''--no-textconv'', ''--no-renames'',
      ''--format=%H%x00%s%x00'', ''-z''] @
     (if bq_since q = [] then [] else [''--since='' @ bq_since q]) @
     (if bq_until q = [] then [] else [''--until='' @ bq_until q])"

definition git_match :: "string \<Rightarrow> string \<Rightarrow> string \<Rightarrow> string \<Rightarrow> search_match" where
  "git_match revision path text channel =
     \<lparr>sm_path = path, sm_line = 0, sm_text = text, sm_source_ref = ''git:'' @ revision, sm_basis = ''git_revision'',
      sm_channel = channel, sm_revision = revision, sm_validity = ''current''\<rparr>"

text \<open>The tokens two by two.\<close>

fun git_pairs :: "string \<Rightarrow> string list \<Rightarrow> search_match list" where
  "git_pairs channel (a # b # ts) =
     (let revision = trim_space a
      in if revision = [] \<or> \<not> object_id revision then git_pairs channel ts
         else git_match revision [] (trim_space b) channel # git_pairs channel ts)"
| "git_pairs channel ts = []"

definition parse_git_pairs :: "string \<Rightarrow> string \<Rightarrow> search_match list" where
  "parse_git_pairs data channel = git_pairs channel (split_on (CHR 0x00) data)"

definition warning_list :: "string \<Rightarrow> string list" where
  "warning_list s = (if s = [] then [] else [s])"

type_synonym git_part = "search_match list \<times> bool \<times> string list"

definition git_commit_matches :: "search_env \<Rightarrow> backend_query \<Rightarrow> string \<Rightarrow> go_error + git_part" where
  "git_commit_matches env q commit =
     try_then (run_git env (bq_directory q)
         (git_base_args q @ [''--grep='' @ bq_pattern q] @
          (if bq_syntax q = ''regex'' then [''--extended-regexp''] else [''--fixed-strings'']) @
          (if bq_case_sensitive q then [] else [''--regexp-ignore-case'']) @ [commit, ''--'', ''.'']))
       (\<lambda>(out, complete, w). Inr (parse_git_pairs out ''commit'', complete, warning_list w))"

definition git_diff_matches :: "search_env \<Rightarrow> backend_query \<Rightarrow> string \<Rightarrow> go_error + git_part" where
  "git_diff_matches env q commit =
     try_then (run_git env (bq_directory q)
         (git_base_args q @ [(if bq_syntax q = ''regex'' then ''-G'' else ''-S'') @ bq_pattern q] @
          (if bq_case_sensitive q then [] else [''--regexp-ignore-case'']) @ [commit, ''--'', ''.'']))
       (\<lambda>(out, complete, w). Inr (parse_git_pairs out ''diff'', complete, warning_list w))"

definition match_text :: "search_env \<Rightarrow> string \<Rightarrow> string \<Rightarrow> bool \<Rightarrow> bool \<Rightarrow> bool" where
  "match_text env value pattern case_sensitive regex_mode =
     (if regex_mode then
        (case se_regex env (if case_sensitive then pattern else ''(?i:'' @ pattern @ '')'') of
           Inl _ \<Rightarrow> False | Inr hit \<Rightarrow> hit value)
      else if case_sensitive then contains_str value pattern
      else contains_str (se_lower env value) (se_lower env pattern))"

definition path_in_scope :: "search_env \<Rightarrow> string \<Rightarrow> backend_query \<Rightarrow> bool" where
  "path_in_scope env raw q =
     (let path = trim_prefix raw ''./''
      in if list_ex (\<lambda>p. se_glob env p path) (bq_excludes q) then False
         else if bq_generated q \<noteq> ''include'' \<and> list_ex (has_prefix path) [''generated/'', ''dist/'', ''build/''] then False
         else if bq_vendor q \<noteq> ''include'' \<and> list_ex (has_prefix path) [''vendor/'', ''node_modules/''] then False
         else bq_includes q = [] \<or> list_ex (\<lambda>p. se_glob env p path) (bq_includes q))"

definition under_prefix :: "string \<Rightarrow> string \<Rightarrow> string option" where
  "under_prefix pre path =
     (if pre = [] then Some path else if has_prefix path pre then Some (trim_prefix path pre) else None)"

text \<open>The loop over the tokens of \<open>--name-only\<close>, with the revision read last.\<close>

fun git_paths :: "search_env \<Rightarrow> backend_query \<Rightarrow> string \<Rightarrow> string list \<Rightarrow> search_match list" where
  "git_paths env q revision [] = []"
| "git_paths env q revision (t # ts) =
     (let token = trim_space t
      in if token = [] then git_paths env q revision ts
         else if object_id token \<and> ts \<noteq> [] then git_paths env q token (tl ts)
         else case under_prefix (bq_prefix q) token of
             None \<Rightarrow> git_paths env q revision ts
           | Some path \<Rightarrow>
               if revision = [] \<or> \<not> match_text env path (bq_pattern q) (bq_case_sensitive q) (bq_syntax q = ''regex'') \<or>
                  \<not> path_in_scope env path q
               then git_paths env q revision ts
               else git_match revision path path ''path'' # git_paths env q revision ts)"

definition git_path_matches :: "search_env \<Rightarrow> backend_query \<Rightarrow> string \<Rightarrow> go_error + git_part" where
  "git_path_matches env q commit =
     try_then (run_git env (bq_directory q) (git_base_args q @ [''--name-only'', commit, ''--'', ''.'']))
       (\<lambda>(out, complete, w). Inr (git_paths env q [] (split_on (CHR 0x00) out), complete, warning_list w))"

definition add_part :: "bool \<Rightarrow> go_error + git_part \<Rightarrow> outcome \<Rightarrow> go_error + outcome" where
  "add_part wanted part o1 =
     (if wanted then try_then part (\<lambda>(ms, complete, ws).
        Inr (o1\<lparr>oc_matches := oc_matches o1 @ ms, oc_complete := oc_complete o1 \<and> complete, oc_warnings := oc_warnings o1 @ ws\<rparr>))
      else Inr o1)"

definition search_git :: "search_env \<Rightarrow> backend_query \<Rightarrow> go_error + outcome" where
  "search_git env q =
     (if \<not> se_git env
      then Inr ((new_outcome ''git unavailable'')\<lparr>oc_complete := False, oc_unsupported := True,
             oc_warnings := [''Git history adapter is unavailable'']\<rparr>)
      else case git_text env (bq_directory q)
          [''rev-parse'', ''--verify'', (if bq_revision q = [] then ''HEAD'' else bq_revision q) @ ''^{commit}''] of
        Inl e \<Rightarrow> Inl (Wrap ''resolve Git revision: '' e)
      | Inr resolved \<Rightarrow>
          (let commit = trim_space resolved;
               kind = (if bq_match_kind q = [] then ''all'' else bq_match_kind q);
               shallow = (case git_text env (bq_directory q) [''rev-parse'', ''--is-shallow-repository''] of
                  Inl _ \<Rightarrow> False | Inr s \<Rightarrow> trim_space s = ''true'');
               o1 = (new_outcome (if se_git_version env = [] then ''git'' else se_git_version env))\<lparr>oc_validity := ''current''\<rparr>;
               o2 = (if shallow then degrade ''Git repository is shallow; older history is unknown'' o1 else o1)
           in if \<not> object_id commit then Inl (Text ''Git returned an invalid object ID'')
              else try_then (add_part (List.member [''all'', ''commit''] kind) (git_commit_matches env q commit) o2) (\<lambda>o3.
                   try_then (add_part (List.member [''all'', ''path''] kind) (git_path_matches env q commit) o3) (\<lambda>o4.
                   try_then (add_part (List.member [''all'', ''diff''] kind) (git_diff_matches env q commit) o4) (\<lambda>o5.
                     Inr (if MaxMatches < int (length (oc_matches o5))
                          then degrade limit_warning (o5\<lparr>oc_matches := take (nat MaxMatches) (oc_matches o5)\<rparr>) else o5))))))"

section \<open>Symbol indexes\<close>

text \<open>A relative path that does not begin with a step up.\<close>

definition stays_inside :: "string option \<Rightarrow> bool" where
  "stays_inside relative = (case relative of None \<Rightarrow> False | Some r \<Rightarrow> r \<noteq> ''..'' \<and> \<not> has_prefix r ''../'')"

definition safe_symbol_path :: "string \<Rightarrow> bool" where
  "safe_symbol_path path \<longleftrightarrow>
     path \<noteq> [] \<and> \<not> is_abs (path_clean path) \<and> path_clean path \<noteq> ''..'' \<and> \<not> has_prefix (path_clean path) ''../''"

text \<open>\<open>ParseUint\<close> with the error dropped: out of range it leaves the largest value, otherwise zero.\<close>

definition uint_or_zero :: "string \<Rightarrow> nat" where
  "uint_or_zero s = (if all_digits s then min (digits_value s) (2 ^ 64 - 1) else 0)"

definition symbol_line :: "json \<Rightarrow> nat" where
  "symbol_line v = (case v of JNumber s \<Rightarrow> uint_or_zero s | JString s \<Rightarrow> uint_or_zero s | _ \<Rightarrow> 0)"

definition symbol_channel :: "(string \<Rightarrow> string) \<Rightarrow> string \<Rightarrow> string \<Rightarrow> bool \<Rightarrow> string" where
  "symbol_channel lower name pattern case_sensitive =
     (let left = (if case_sensitive then name else lower name); right = (if case_sensitive then pattern else lower pattern)
      in if left = right then ''exact'' else if has_prefix left right then ''prefix''
         else if contains_str left right then ''substring'' else [])"

text \<open>The match of a record, if it is one: \<open>head\<close> is the current commit, \<open>clean\<close> that the work tree has no changes.\<close>

definition symbol_match :: "search_env \<Rightarrow> backend_query \<Rightarrow> string \<Rightarrow> bool \<Rightarrow> symbol_record \<Rightarrow> search_match option" where
  "symbol_match env q head clean r =
     (if (sy_type r \<noteq> [] \<and> sy_type r \<noteq> ''tag'') \<or> sy_name r = [] \<or> \<not> safe_symbol_path (sy_path r) \<or>
         (bq_symbol_kind q \<noteq> [] \<and> sy_kind r \<noteq> bq_symbol_kind q) \<or>
         (bq_language q \<noteq> [] \<and> \<not> se_fold_eq env (sy_language r) (bq_language q)) then None
      else case under_prefix (bq_prefix q) (sy_path r) of
          None \<Rightarrow> None
        | Some path \<Rightarrow>
            (let channel = symbol_channel (se_lower env) (sy_name r) (bq_pattern q) (bq_case_sensitive q);
                 validity = (if sy_revision r \<noteq> [] \<and> head \<noteq> []
                   then (if sy_revision r \<noteq> head then ''stale'' else if clean then ''current'' else ''unknown'') else ''unknown'')
             in if channel = [] \<or> \<not> path_in_scope env path q then None
                else Some \<lparr>sm_path = path, sm_line = symbol_line (sy_line r), sm_text = sy_name r,
                       sm_source_ref = ''source:mutable:'' @ sy_path r, sm_basis = ''generated_index'', sm_channel = channel,
                       sm_revision = sy_revision r, sm_validity = validity\<rparr>))"

definition add_symbol :: "search_match \<Rightarrow> outcome \<Rightarrow> outcome" where
  "add_symbol m o1 = o1\<lparr>oc_matches := oc_matches o1 @ [m],
     oc_validity := (if sm_validity m \<noteq> ''current'' then sm_validity m else oc_validity o1)\<rparr>"

text \<open>The loop over the lines of one index; the flag tells that it was left by \<open>break\<close>.\<close>

fun symbol_lines ::
    "search_env \<Rightarrow> backend_query \<Rightarrow> string \<Rightarrow> bool \<Rightarrow> (nat \<Rightarrow> bool) \<Rightarrow> string list \<Rightarrow> nat \<Rightarrow> outcome \<Rightarrow> outcome \<times> bool" where
  "symbol_lines env q head clean late [] n o1 = (o1, False)"
| "symbol_lines env q head clean late (l # ls) n o1 =
     (if late (Suc n) then (degrade ''symbol scan deadline or cancellation reached'' o1, True)
      else case se_symbol env l of
        Inl _ \<Rightarrow> symbol_lines env q head clean late ls (Suc n) (degrade (''malformed symbol record at line '' @ itoa (Suc n)) o1)
      | Inr r \<Rightarrow>
          (case symbol_match env q head clean r of
             None \<Rightarrow> symbol_lines env q head clean late ls (Suc n) o1
           | Some m \<Rightarrow>
               (let o2 = add_symbol m o1
                in if MaxMatches \<le> int (length (oc_matches o2)) then (o2\<lparr>oc_complete := False\<rparr>, True)
                   else symbol_lines env q head clean late ls (Suc n) o2)))"

text \<open>The loop over the configured indexes, with the number of those that could be opened.\<close>

fun symbol_indexes ::
    "search_env \<Rightarrow> backend_query \<Rightarrow> string \<Rightarrow> bool \<Rightarrow> (string \<Rightarrow> nat \<Rightarrow> bool) \<Rightarrow> string list \<Rightarrow> nat \<Rightarrow> outcome \<Rightarrow>
     go_error + (outcome \<times> nat)" where
  "symbol_indexes env q head clean late [] opened o1 = Inr (o1, opened)"
| "symbol_indexes env q head clean late (configured # rest) opened o1 =
     (let absolute = (if is_abs configured then configured else path_join (se_root env) configured)
      in if \<not> stays_inside (path_rel (se_root env) absolute) then Inl (Text ''symbol index resolves outside workspace'')
         else case se_index env absolute of
           IndexMissing \<Rightarrow> symbol_indexes env q head clean late rest opened
             ((degrade ''configured symbol index is missing'' o1)\<lparr>oc_validity := ''unknown''\<rparr>)
         | IndexUnreadable \<Rightarrow> Inl (Text ''configured symbol index cannot be read'')
         | IndexOpen None _ _ \<Rightarrow> Inl (Text ''configured symbol index cannot be resolved'')
         | IndexOpen (Some resolved) contents read_error \<Rightarrow>
             if \<not> stays_inside (path_rel (se_root env) resolved) then Inl (Text ''symbol index resolves outside workspace'')
             else (case scan_lines MaxRGRecordBytes (split_on (CHR 0x0A) contents) of (lines, long) \<Rightarrow>
               (case symbol_lines env q head clean (late configured) lines 0 o1 of (o2, left) \<Rightarrow>
                 symbol_indexes env q head clean late rest (Suc opened)
                   (if (long \<or> read_error) \<and> \<not> left then degrade ''symbol index record exceeded the supported limit'' o2 else o2))))"

definition channel_weight :: "string \<Rightarrow> nat" where
  "channel_weight c = (if c = ''prefix'' then 1 else if c = ''substring'' then 2 else 0)"

definition search_symbols :: "search_env \<Rightarrow> (string \<Rightarrow> nat \<Rightarrow> bool) \<Rightarrow> backend_query \<Rightarrow> go_error + outcome" where
  "search_symbols env late q =
     (if se_indexes env = []
      then Inr ((new_outcome ''symbol index unavailable'')\<lparr>oc_complete := False, oc_unsupported := True,
             oc_warnings := [''no symbol index is configured'']\<rparr>)
      else
        (let head = (if se_git env then (case git_text env (se_root env) [''rev-parse'', ''--verify'', ''HEAD^{commit}''] of
                Inl _ \<Rightarrow> [] | Inr s \<Rightarrow> trim_space s) else []);
             clean = (if se_git env then (case run_git env (se_root env)
                  [''status'', ''--porcelain=v1'', ''-z'', ''--untracked-files=all''] of
                Inl _ \<Rightarrow> False | Inr (out, complete, _) \<Rightarrow> complete \<and> out = []) else False)
         in try_then (symbol_indexes env q head clean late (se_indexes env) 0
              ((new_outcome ''symbol-index.v1/ctags-json'')\<lparr>oc_validity := ''current''\<rparr>)) (\<lambda>(o1, opened).
            let o2 = (if opened = 0 then o1\<lparr>oc_unsupported := True, oc_complete := False\<rparr> else o1);
                o3 = (if oc_matches o2 = [] \<and> oc_warnings o2 \<noteq> [] then o2\<lparr>oc_validity := ''unknown''\<rparr> else o2)
            in Inr (o3\<lparr>oc_matches := sort_key (\<lambda>m. (channel_weight (sm_channel m), sm_text m, sm_path m)) (oc_matches o3)\<rparr>))))"

definition adapter_search ::
    "search_env \<Rightarrow> (string \<Rightarrow> nat \<Rightarrow> bool) \<Rightarrow> (backend_query \<Rightarrow> go_error + outcome) \<Rightarrow> backend_query \<Rightarrow> go_error + outcome" where
  "adapter_search env late_symbol base raw =
     (let q = (case path_rel (se_root env) (bq_directory raw) of
            Some r \<Rightarrow> if r = ''.'' then raw else raw\<lparr>bq_prefix := trim_suffix r ''/'' @ ''/''\<rparr>
          | None \<Rightarrow> raw)
      in if bq_mode q = ''git_history'' then search_git env q
         else if bq_mode q = ''symbol'' then search_symbols env late_symbol q
         else base q)"

section \<open>Captured output\<close>

lemma captured_from:
  assumes "[] \<notin> set chunks"
  shows "fold (capped_write limit) chunks (take limit s, limit < length s) =
    (take limit (s @ concat chunks), limit < length (s @ concat chunks))"
  using assms
proof (induction chunks arbitrary: s)
  case (Cons c cs)
  have "capped_write limit c (take limit s, limit < length s) = (take limit (s @ c), limit < length (s @ c))"
    using Cons.prems by (cases "limit \<le> length s"; cases c) (auto simp: capped_write_def Let_def nat_diff_distrib)
  moreover have "fold (capped_write limit) cs (take limit (s @ c), limit < length (s @ c)) =
      (take limit ((s @ c) @ concat cs), limit < length ((s @ c) @ concat cs))"
    using Cons.prems by (intro Cons.IH) simp
  ultimately show ?case by (simp only: fold_simps concat.simps append_assoc)
qed simp

section \<open>Complete searches\<close>

lemma degraded [simp]: "oc_complete (degrade m o1) = False"
  by (simp add: degrade_def)

definition null_tokens :: "string \<Rightarrow> string list" where
  "null_tokens s = (let ts = split_on (CHR 0x00) s in if last ts = [] then butlast ts else ts)"

lemma scan_null_short:
  "scan_null limit ts = (xs, False) \<Longrightarrow> ts \<noteq> [] \<Longrightarrow> xs = (if last ts = [] then butlast ts else ts)"
  by (induction limit ts arbitrary: xs rule: scan_null.induct) (auto split: if_splits prod.splits)

lemma rg_tokens_all:
  "rg_tokens parse ts ms = Inr (out, False) \<Longrightarrow>
    (\<forall>t \<in> set ts. is_ok (parse t)) \<and> out = ms @ List.map_filter (\<lambda>t. projr (parse t)) ts"
proof (induction ts arbitrary: ms)
  case (Cons t ts)
  from Cons.prems obtain found where f: "parse t = Inr found" by auto
  show ?case
  proof (cases found)
    case None
    with Cons.prems f have "rg_tokens parse ts ms = Inr (out, False)" by simp
    from Cons.IH [OF this] f None show ?thesis by simp
  next
    case (Some m)
    with Cons.prems f have "rg_tokens parse ts (ms @ [m]) = Inr (out, False)" by (simp split: if_splits)
    from Cons.IH [OF this] f Some show ?thesis by simp
  qed
qed simp

lemma run_rg_complete:
  assumes "run_rg env d args split_tokens parse = Inr o1" "oc_complete o1"
  shows "(let a = se_rg env d args; ts = fst (split_tokens (rr_stdout a))
    in \<not> snd (split_tokens (rr_stdout a)) \<and> \<not> rr_done a \<and> (rr_wait a = WaitOK \<or> rr_wait a = WaitExit 1) \<and>
       fst (captured MaxStderrBytes (rr_stderr a)) = [] \<and> (\<forall>t \<in> set ts. is_ok (parse t)) \<and>
       oc_matches o1 = List.map_filter (\<lambda>t. projr (parse t)) ts \<and> oc_warnings o1 = [])"
proof -
  let ?a = "se_rg env d args"
  from assms(1) obtain ms full o2 where r: "rg_tokens parse (fst (split_tokens (rr_stdout ?a))) [] = Inr (ms, full)"
    "\<not> (snd (split_tokens (rr_stdout ?a)) \<and> \<not> full \<and> \<not> rr_done ?a)"
    "rg_exit ?a ((if full then degrade limit_warning else (\<lambda>x. x)) ((new_outcome (se_version env))\<lparr>oc_matches := ms\<rparr>)) = Inr o2"
    "o1 = rg_diagnostics ?a o2"
    by (auto simp: run_rg_def Let_def split: option.splits if_splits)
  from r(4) assms(2) have d: "fst (captured MaxStderrBytes (rr_stderr ?a)) = []" "o1 = o2"
    by (auto simp: rg_diagnostics_def Let_def split: prod.splits if_splits)
  with r(3) assms(2) have e: "\<not> rr_done ?a" "\<not> full" "rr_wait ?a = WaitOK \<or> rr_wait ?a = WaitExit 1"
    "o2 = (new_outcome (se_version env))\<lparr>oc_matches := ms\<rparr>"
    by (auto simp: rg_exit_def new_outcome_def split: if_splits)
  with rg_tokens_all [of parse _ "[]" ms] r(1,2) d show ?thesis by (simp add: Let_def new_outcome_def)
qed

lemma search_files_complete:
  assumes "search_files env q = Inr o1" "oc_complete o1" "bq_pattern q = []"
  shows "oc_matches o1 = map (\<lambda>t. blank_match\<lparr>sm_path := trim_prefix t ''./''\<rparr>)
      (null_tokens (rr_stdout (se_rg env (bq_directory q) (base_arguments q @ [''--files'', ''--null'', ''.''])))) \<and>
    oc_warnings o1 = []"
proof -
  let ?out = "rr_stdout (se_rg env (bq_directory q) (base_arguments q @ [''--files'', ''--null'', ''.'']))"
  from run_rg_complete [OF assms(1) [unfolded search_files_def] assms(2)]
  have c: "\<not> snd (scan_null MaxRGRecordBytes (split_on (CHR 0x00) ?out))"
    "oc_matches o1 = List.map_filter (\<lambda>t. projr (file_token env q t)) (fst (scan_null MaxRGRecordBytes (split_on (CHR 0x00) ?out)))"
    "oc_warnings o1 = []" by (simp_all add: Let_def)
  obtain ts where "scan_null MaxRGRecordBytes (split_on (CHR 0x00) ?out) = (ts, False)" using c(1) by (cases "scan_null MaxRGRecordBytes (split_on (CHR 0x00) ?out)") auto
  moreover from scan_null_short [OF this] have "ts = null_tokens ?out" by (simp add: null_tokens_def Let_def)
  ultimately show ?thesis using c(2,3) assms(3)
    by (simp add: file_token_def filename_matches_def Let_def List.map_filter_def comp_def)
qed

text \<open>The matching lines of a text.\<close>

definition line_hits :: "(string \<Rightarrow> bool) \<Rightarrow> string \<Rightarrow> nat \<Rightarrow> string list \<Rightarrow> search_match list" where
  "line_hits hit path n ls = map (\<lambda>(k, l). blank_match\<lparr>sm_path := path, sm_line := k, sm_text := strip_cr l\<rparr>)
     (filter (\<lambda>(k, l). hit (strip_cr l)) (List.enumerate n ls))"

lemma line_hits_Cons: "line_hits hit path n (l # ls) =
    (if hit (strip_cr l) then [blank_match\<lparr>sm_path := path, sm_line := n, sm_text := strip_cr l\<rparr>] else []) @
    line_hits hit path (Suc n) ls"
  by (simp add: line_hits_def)

lemma decoded_lines_all:
  "decoded_lines hit path ls n ms = (out, False) \<Longrightarrow> out = ms @ line_hits hit path (Suc n) ls"
proof (induction ls arbitrary: n ms)
  case (Cons l ls)
  show ?case
  proof (cases "hit (strip_cr l)")
    case True
    with Cons.prems have "decoded_lines hit path ls (Suc n)
        (ms @ [blank_match\<lparr>sm_path := path, sm_line := Suc n, sm_text := strip_cr l\<rparr>]) = (out, False)"
      by (simp add: Let_def split: if_splits)
    from Cons.IH [OF this] True show ?thesis by (simp add: line_hits_Cons)
  next
    case False
    with Cons show ?thesis by (simp add: line_hits_Cons)
  qed
qed (simp add: line_hits_def)

lemma decoded_files_kept: "oc_complete (decoded_files env q hit late ps n o1) \<Longrightarrow> oc_complete o1"
proof (induction ps arbitrary: n o1)
  case (Cons p ps)
  from Cons.prems have l: "\<not> late n" by (auto split: if_splits)
  show ?case
  proof (cases "decoded_file env q p")
    case (Inl m)
    with Cons.prems l have "oc_complete (decoded_files env q hit late ps (Suc n) (degrade m o1))" by simp
    from Cons.IH [OF this] show ?thesis by simp
  next
    case (Inr body)
    obtain ms full where m: "decoded_lines hit p (split_on (CHR 0x0A) body) 0 (oc_matches o1) = (ms, full)" by fastforce
    with Cons.prems l Inr have "\<not> full" by (cases full) simp_all
    with Cons.prems l Inr m have "oc_complete (decoded_files env q hit late ps (Suc n) (o1\<lparr>oc_matches := ms\<rparr>))" by simp
    from Cons.IH [OF this] show ?thesis by simp
  qed
qed simp

definition file_hits :: "search_env \<Rightarrow> backend_query \<Rightarrow> (string \<Rightarrow> bool) \<Rightarrow> string \<Rightarrow> search_match list" where
  "file_hits env q hit path = line_hits hit path 1 (split_on (CHR 0x0A) (projr (decoded_file env q path)))"

lemma decoded_files_all:
  assumes "oc_complete (decoded_files env q hit late ps n o1)"
  shows "(\<forall>p \<in> set ps. is_ok (decoded_file env q p)) \<and>
    oc_matches (decoded_files env q hit late ps n o1) = oc_matches o1 @ concat (map (file_hits env q hit) ps) \<and>
    oc_warnings (decoded_files env q hit late ps n o1) = oc_warnings o1"
  using assms
proof (induction ps arbitrary: n o1)
  case (Cons p ps)
  have late: "\<not> late n" using Cons.prems by (auto split: if_splits)
  have "\<exists>body. decoded_file env q p = Inr body"
  proof (cases "decoded_file env q p")
    case (Inl m)
    with Cons.prems late have "oc_complete (decoded_files env q hit late ps (Suc n) (degrade m o1))" by simp
    from decoded_files_kept [OF this] show ?thesis by simp
  qed blast
  with late obtain body where t: "decoded_file env q p = Inr body" "\<not> late n" by blast
  obtain ms where m: "decoded_lines hit p (split_on (CHR 0x0A) body) 0 (oc_matches o1) = (ms, False)"
    using Cons.prems t by (cases "decoded_lines hit p (split_on (CHR 0x0A) body) 0 (oc_matches o1)") (auto split: if_splits)
  with t have step: "decoded_files env q hit late (p # ps) n o1 = decoded_files env q hit late ps (Suc n) (o1\<lparr>oc_matches := ms\<rparr>)"
    by simp
  from Cons.IH [of "Suc n" "o1\<lparr>oc_matches := ms\<rparr>"] Cons.prems decoded_lines_all [OF m] t(1) show ?case
    unfolding step by (simp add: file_hits_def)
qed simp

section \<open>Git output\<close>

lemma ascii_no_space:
  assumes "33 \<le> byte c" "byte c < 128"
  shows "strip_any space_encodings (c # s) = None" "strip_any (map rev space_encodings) (c # s) = None"
proof -
  have "c \<noteq> d" if "byte d < 33 \<or> 128 \<le> byte d" for d using assms that by auto
  then show "strip_any space_encodings (c # s) = None" "strip_any (map rev space_encodings) (c # s) = None"
    by (simp_all add: space_encodings_def has_prefix_def byte_def)
qed

lemma trim_plain:
  assumes "s \<noteq> []" "33 \<le> byte (hd s)" "byte (hd s) < 128" "33 \<le> byte (last s)" "byte (last s) < 128"
  shows "trim_space s = s"
proof -
  have "trim_left s = s" unfolding trim_left_def
    by (subst trim_with.simps) (use ascii_no_space(1) [OF assms(2,3), of "tl s"] assms(1) in simp)
  moreover have "trim_right s = s" unfolding trim_right_def
    by (cases s rule: rev_cases; subst trim_with.simps) (use assms in \<open>simp_all add: ascii_no_space\<close>)
  ultimately show ?thesis by (simp add: trim_space_def)
qed

lemma object_id_bytes:
  assumes "object_id h"
  shows "h \<noteq> []" "c \<in> set h \<Longrightarrow> 33 \<le> byte c \<and> byte c < 128"
  using assms by (auto simp: object_id_def list_all_iff between_def)

lemma object_id_trim: "object_id h \<Longrightarrow> trim_space h = h"
  using object_id_bytes(2) [of h "hd h"] object_id_bytes(2) [of h "last h"] object_id_bytes(1) trim_plain [of h] by simp

text \<open>The output of \<open>git log --format=%H%x00%s%x00 -z\<close>: the text of each commit is followed by the NUL that
  terminates its entry.\<close>

definition git_log :: "(string \<times> string) list \<Rightarrow> string" where
  "git_log commits = concat (map (\<lambda>(h, s). h @ CHR 0x00 # s @ [CHR 0x00, CHR 0x00]) commits)"

definition plain_commit :: "string \<times> string \<Rightarrow> bool" where
  "plain_commit c \<longleftrightarrow> object_id (fst c) \<and> CHR 0x00 \<notin> set (snd c) \<and> \<not> object_id (trim_space (snd c))"

fun every_other :: "'a list \<Rightarrow> 'a list" where
  "every_other [] = []"
| "every_other [x] = [x]"
| "every_other (x # y # zs) = x # every_other zs"

lemma split_log: "\<forall>c \<in> set commits. plain_commit c \<Longrightarrow>
    split_on (CHR 0x00) (git_log commits) = concat (map (\<lambda>(h, s). [h, s, []]) commits) @ [[]]"
proof (induction commits)
  case (Cons c cs)
  obtain h s where c: "c = (h, s)" by (cases c)
  have h: "CHR 0x00 \<notin> set h"
    using Cons.prems object_id_bytes(2) [of h "CHR 0x00"] by (auto simp: c plain_commit_def byte_def)
  have s: "CHR 0x00 \<notin> set s" using Cons.prems by (simp add: c plain_commit_def)
  have "git_log (c # cs) = h @ CHR 0x00 # (s @ CHR 0x00 # ([] @ CHR 0x00 # git_log cs))"
    by (simp add: git_log_def c)
  then have "split_on (CHR 0x00) (git_log (c # cs)) = h # s # [] # split_on (CHR 0x00) (git_log cs)"
    using h s by (simp add: split_on_append)
  with Cons c show ?case by simp
qed (simp add: git_log_def)

section \<open>Properties\<close>

text \<open>C38: A search in decoded files that calls itself complete has read and decoded every file ripgrep listed
  and returns all matching lines of all of them, in order, without a warning.\<close>

theorem complete_decoded_search:
  assumes "search_decoded env late q = Inr o1" "oc_complete o1"
  shows "\<exists>hit. line_matcher env q = Inr hit \<and> oc_warnings o1 = [] \<and>
    (let listed = map (\<lambda>t. trim_prefix t ''./'') (null_tokens (rr_stdout (se_rg env (bq_directory q)
           (base_arguments q @ [''--files'', ''--null'', ''.'']))))
     in (\<forall>p \<in> set listed. is_ok (decoded_file env q p)) \<and> oc_matches o1 = concat (map (file_hits env q hit) listed))"
proof -
  from assms(1) obtain files hit where f: "search_files env (enumeration_query q) = Inr files" "line_matcher env q = Inr hit"
    "o1 = decoded_files env q hit late (map sm_path (oc_matches files)) 0
         ((new_outcome (se_version env @ '' file enumeration + Go textcodec/regexp''))
            \<lparr>oc_complete := oc_complete files, oc_warnings := oc_warnings files\<rparr>)"
    by (auto simp: search_decoded_def)
  note all = decoded_files_all [OF assms(2) [unfolded f(3)], folded f(3)]
  have "oc_complete files" using decoded_files_kept [OF assms(2) [unfolded f(3)]] by simp
  from search_files_complete [OF f(1) this]
  have p: "map sm_path (oc_matches files) = map (\<lambda>t. trim_prefix t ''./'') (null_tokens (rr_stdout (se_rg env (bq_directory q)
           (base_arguments q @ [''--files'', ''--null'', ''.'']))))" "oc_warnings files = []"
    by (simp_all add: enumeration_query_def base_arguments_def)
  from all p(2) f(2) show ?thesis unfolding p(1) Let_def by (simp add: new_outcome_def)
qed

text \<open>What is captured of the output of a process does not depend on how it was written: it is the first
  bytes up to the limit, and the flag tells exactly whether there were more.\<close>

theorem captured_exact:
  assumes "[] \<notin> set chunks"
  shows "captured limit chunks = (take limit (concat chunks), limit < length (concat chunks))"
  using captured_from [OF assms, of limit "[]"] by (simp add: captured_def)

text \<open>Of the commits Git reports for a message or diff search only every other one becomes a match: the
  parser takes the tokens two by two, but every entry ends with a NUL of its own.\<close>

theorem git_pairs_skip_commits:
  assumes "\<forall>c \<in> set commits. plain_commit c"
  shows "parse_git_pairs (git_log commits) channel =
    map (\<lambda>(h, s). git_match h [] (trim_space s) channel) (every_other commits)"
proof -
  have "git_pairs channel (concat (map (\<lambda>(h, s). [h, s, []]) commits) @ [[]]) =
      map (\<lambda>(h, s). git_match h [] (trim_space s) channel) (every_other commits)"
    using assms
  proof (induction commits rule: every_other.induct)
    case (3 x y zs)
    then show ?case
      by (cases x; cases y) (auto simp: plain_commit_def object_id_trim Let_def dest: object_id_bytes(1))
  next
    case (2 x)
    then show ?case by (cases x) (auto simp: plain_commit_def object_id_trim Let_def dest: object_id_bytes(1))
  qed simp
  then show ?thesis unfolding parse_git_pairs_def split_log [OF assms] .
qed

section \<open>Witnesses\<close>

theorem git_pairs_skip_commits_witness:
  "(let h = replicate 40 (CHR ''a'') in
     map sm_text (parse_git_pairs (git_log [(h, ''one''), (h, ''two''), (h, ''three'')]) ''commit'') = [''one'', ''three''])"
proof -
  let ?h = "replicate 40 (CHR ''a'')"
  have id: "object_id ?h" by (simp add: object_id_def between_def byte_def list_all_iff)
  moreover have "trim_space ''one'' = ''one''" "trim_space ''two'' = ''two''" "trim_space ''three'' = ''three''"
    by (simp_all add: trim_plain byte_def)
  ultimately show ?thesis
    using git_pairs_skip_commits [of "[(?h, ''one''), (?h, ''two''), (?h, ''three'')]" "''commit''"]
    by (simp add: plain_commit_def git_match_def Let_def id) (simp add: object_id_def)
qed

theorem captured_exact_witness: "captured 3 [''ab'', ''cd''] = (''abc'', True)"
  using captured_exact [of "[''ab'', ''cd'']" 3] by simp

definition demo_search_env :: search_env where
  "demo_search_env = \<lparr>se_version = ''rg'', se_rg = (\<lambda>_ _. \<lparr>rr_start_error = None, rr_stdout = ''./a'' @ [CHR 0x00] @ ''b'' @ [CHR 0x00],
     rr_done = False, rr_wait = WaitOK, rr_stderr = []\<rparr>), se_lower = (\<lambda>s. s), se_korean = \<lparr>ko_decode = Inr, ko_encode = Inr\<rparr>,
     se_regex = (\<lambda>_. Inl []), se_event = (\<lambda>_. Inl []), se_file = (\<lambda>p. Inr (''x'' @ [CHR 0x0A] @ p)), se_git = False,
     se_git_version = [], se_run_git = (\<lambda>_ _. \<lparr>gr_stdout = [], gr_stderr = [], gr_failed = False, gr_done = False\<rparr>),
     se_root = ''/r'', se_indexes = [], se_index = (\<lambda>_. IndexMissing), se_symbol = (\<lambda>_. Inl []), se_fold_eq = (\<lambda>a b. a = b),
     se_glob = (\<lambda>_ _. False)\<rparr>"

definition demo_query :: backend_query where
  "demo_query = \<lparr>bq_mode = ''exact'', bq_pattern = ''/r'', bq_directory = ''/r'', bq_includes = [], bq_excludes = [], bq_hidden = False,
     bq_ignored = ''exclude'', bq_generated = ''exclude'', bq_vendor = ''exclude'', bq_case_sensitive = True,
     bq_encoding = ''euc-kr'', bq_match_kind = [], bq_revision = [], bq_since = [], bq_until = [], bq_symbol_kind = [],
     bq_language = [], bq_syntax = [], bq_prefix = []\<rparr>"

theorem complete_decoded_search_witness:
  "\<exists>o1 hit. search_decoded demo_search_env (\<lambda>_. False) demo_query = Inr o1 \<and> line_matcher demo_search_env demo_query = Inr hit \<and>
    map sm_text (oc_matches o1) = [''/r/a'', ''/r/b''] \<and>
    oc_matches o1 = concat (map (file_hits demo_search_env demo_query hit) [''a'', ''b''])"
proof -
  let ?r = "search_decoded demo_search_env (\<lambda>_. False) demo_query"
  let ?listed = "map (\<lambda>t. trim_prefix t ''./'') (null_tokens (rr_stdout (se_rg demo_search_env (bq_directory demo_query)
           (base_arguments demo_query @ [''--files'', ''--null'', ''.'']))))"
  have e: "is_ok ?r" "oc_complete (projr ?r)" "map sm_text (oc_matches (projr ?r)) = [''/r/a'', ''/r/b'']"
    "?listed = [''a'', ''b'']"
    by code_simp+
  from e(1) obtain o1 where r: "?r = Inr o1" unfolding is_ok_iff by blast
  with e(2,3) have "oc_complete o1" "map sm_text (oc_matches o1) = [''/r/a'', ''/r/b'']" by simp_all
  with complete_decoded_search [OF r] r show ?thesis unfolding e(4) by auto
qed

end
