(* ===== verification/SearchService.thy ===== *)
theory SearchService
  imports Paging Workspace SearchBackend
begin

text \<open>
  \<open>internal/search/service.go\<close>: the workspace search tool over a backend, its validation, its
  result sets and their pages. JSON forms, hashes and the identifier of a new set are fields of
  \<open>query_env\<close> or arguments.
\<close>

section \<open>Requests and responses\<close>

record search_request =
  sq_mode :: string
  sq_pattern :: string
  sq_root :: string
  sq_include :: "string list"
  sq_exclude :: "string list"
  sq_hidden :: bool
  sq_ignored :: string
  sq_generated :: string
  sq_vendor :: string
  sq_encoding :: string
  sq_case_sensitive :: bool
  sq_cursor :: string
  sq_limits :: limit_request
  sq_match_kind :: string
  sq_revision :: string
  sq_since :: string
  sq_until :: string
  sq_symbol_kind :: string
  sq_language :: string
  sq_syntax :: string

record search_result =
  sr_path :: string
  sr_line :: nat
  sr_text :: string
  sr_source_ref :: string
  sr_basis :: string
  sr_channel :: string
  sr_revision :: string
  sr_validity :: string

record search_scope =
  so_root :: string
  so_include :: "string list"
  so_exclude :: "string list"
  so_hidden :: bool
  so_ignored :: string
  so_generated :: string
  so_vendor :: string
  so_encoding :: string
  so_case_sensitive :: bool
  so_revision :: string
  so_since :: string
  so_until :: string

record search_metadata =
  sd_engine :: string
  sd_mode :: string
  sd_scope :: search_scope
  sd_validity :: string

record search_persisted =
  sp_status :: status
  sp_relation :: count_relation
  sp_scan :: scan
  sp_warnings :: "warning list"
  sp_metadata :: search_metadata

record search_response = "search_result response" +
  rs_search :: search_metadata

record query_env =
  qe_codec :: codec
  qe_sha :: "string \<Rightarrow> string"
  qe_scope :: "search_scope \<Rightarrow> string"
  qe_request :: "search_request \<Rightarrow> string"
  qe_encode :: "search_result \<Rightarrow> string"
  qe_decode :: "string \<Rightarrow> search_result option"
  qe_encode_meta :: "search_persisted \<Rightarrow> string"
  qe_decode_meta :: "string \<Rightarrow> search_persisted option"
  qe_size :: "search_response \<Rightarrow> nat"
  qe_valid :: "string \<Rightarrow> bool"
  qe_regex :: "string \<Rightarrow> string option"

definition searchTTL :: time where "searchTTL = seconds (30 * 60)"

definition search_too_large :: go_error where "search_too_large = Text ''search: response cannot fit byte_limit''"

definition or_else :: "string \<Rightarrow> string \<Rightarrow> string" where
  "or_else s d = (if s = [] then d else s)"

definition normalize_request :: "search_request \<Rightarrow> search_request" where
  "normalize_request q = q\<lparr>sq_root := or_else (sq_root q) ''.'', sq_ignored := or_else (sq_ignored q) ''exclude'',
     sq_generated := or_else (sq_generated q) ''exclude'', sq_vendor := or_else (sq_vendor q) ''exclude'',
     sq_encoding := or_else (sq_encoding q) ''utf-8''\<rparr>"

text \<open>\<open>order\<close> is the order in which the range over the map of the three policies visits it; \<open>qe_regex\<close> is the
  error of compiling a regular expression, if there is one.\<close>

definition policy_checks :: "(string \<times> string) list \<Rightarrow> (bool \<times> go_error) list" where
  "policy_checks order =
     map (\<lambda>(name, value). (value \<noteq> ''exclude'' \<and> value \<noteq> ''include'', Text (name @ '' must be exclude or include''))) order"

definition request_policies :: "search_request \<Rightarrow> (string \<times> string) list" where
  "request_policies q = [(''ignored'', sq_ignored q), (''generated'', sq_generated q), (''vendor'', sq_vendor q)]"

definition validate_search :: "query_env \<Rightarrow> (string \<times> string) list \<Rightarrow> search_request \<Rightarrow> go_error + unit" where
  "validate_search env order q =
     (let git = (sq_mode q = ''git_history'');
          compiled = (if git \<and> sq_syntax q = ''regex'' then qe_regex env (sq_pattern q) else None)
      in check_all (
        [(sq_mode q = [], Text ''mode required''),
         (\<not> List.member [''filename'', ''exact'', ''regex'', ''git_history'', ''symbol''] (sq_mode q),
          Text (''unsupported search mode '' @ quoted (sq_mode q))),
         (sq_pattern q = [] \<and> sq_mode q \<noteq> ''filename'', Text ''pattern is required for text, Git, and symbol search'')] @
        policy_checks order @
        [(\<not> List.member [''filename'', ''git_history'', ''symbol''] (sq_mode q) \<and>
          \<not> List.member [''utf-8'', ''cp949'', ''euc-kr''] (sq_encoding q),
          Text (''encoding '' @ quoted (sq_encoding q) @ '' is not supported for text search'')),
         (git \<and> \<not> List.member [[], ''all'', ''commit'', ''path'', ''diff''] (sq_match_kind q),
          Text ''match_kind must be all, commit, path, or diff''),
         (git \<and> \<not> List.member [[], ''exact'', ''regex''] (sq_syntax q), Text ''pattern_syntax must be exact or regex''),
         (compiled \<noteq> None, Text (''invalid Git regular expression: '' @ the compiled))]))"

text \<open>The text of the errors of this validation.\<close>

fun error_text :: "go_error \<Rightarrow> string" where
  "error_text (Text s) = s"
| "error_text (Wrap s e) = error_text e @ '': '' @ s"
| "error_text e = []"

definition blank_scope :: search_scope where
  "blank_scope = \<lparr>so_root = [], so_include = [], so_exclude = [], so_hidden = False, so_ignored = [], so_generated = [],
     so_vendor = [], so_encoding = [], so_case_sensitive = False, so_revision = [], so_since = [], so_until = []\<rparr>"

definition unsupported_search :: "search_request \<Rightarrow> go_error \<Rightarrow> search_response" where
  "unsupported_search q reason =
     \<lparr>rs_status = StatusUnsupported, rs_items = [],
      rs_counts = \<lparr>cn_matched = None, cn_relation = CountUnknown, cn_returned = 0\<rparr>,
      rs_scan = \<lparr>sc_state = ScanNotApplicable, sc_scope_ref = None\<rparr>, rs_truncated = None, rs_next_cursor = None,
      rs_snapshot_ref = None,
      rs_warnings = [\<lparr>wn_code = ''unsupported_encoding'', wn_message = error_text reason, wn_ref = None\<rparr>],
      rs_search = \<lparr>sd_engine = [], sd_mode = sq_mode q, sd_scope = blank_scope\<lparr>so_encoding := sq_encoding q\<rparr>, sd_validity = []\<rparr>\<rparr>"

definition scope_of :: "search_request \<Rightarrow> search_scope" where
  "scope_of q = \<lparr>so_root = path_clean (sq_root q), so_include = sq_include q, so_exclude = sq_exclude q, so_hidden = sq_hidden q,
     so_ignored = sq_ignored q, so_generated = sq_generated q, so_vendor = sq_vendor q, so_encoding = sq_encoding q,
     so_case_sensitive = sq_case_sensitive q, so_revision = sq_revision q, so_since = sq_since q, so_until = sq_until q\<rparr>"

definition backend_query_of :: "search_request \<Rightarrow> string \<Rightarrow> backend_query" where
  "backend_query_of q directory =
     \<lparr>bq_mode = sq_mode q, bq_pattern = sq_pattern q, bq_directory = directory, bq_includes = sq_include q,
      bq_excludes = sq_exclude q, bq_hidden = sq_hidden q, bq_ignored = sq_ignored q, bq_generated = sq_generated q,
      bq_vendor = sq_vendor q, bq_case_sensitive = sq_case_sensitive q, bq_encoding = sq_encoding q,
      bq_match_kind = sq_match_kind q, bq_revision = sq_revision q, bq_since = sq_since q, bq_until = sq_until q,
      bq_symbol_kind = sq_symbol_kind q, bq_language = sq_language q, bq_syntax = sq_syntax q, bq_prefix = []\<rparr>"

section \<open>Result sets and pages\<close>

definition warning_code :: "outcome \<Rightarrow> string" where
  "warning_code o1 = (if oc_unsupported o1
     then (if oc_engine o1 = ''ripgrep unavailable'' then ''ripgrep_unavailable'' else ''adapter_unavailable'')
     else ''backend_warning'')"

definition search_persisted_of :: "query_env \<Rightarrow> search_request \<Rightarrow> outcome \<Rightarrow> search_persisted" where
  "search_persisted_of env q o1 =
     \<lparr>sp_status = (if oc_unsupported o1 then StatusUnsupported else if \<not> oc_complete o1 then StatusPartial else StatusOK),
      sp_relation = (if oc_unsupported o1 then CountUnknown else if \<not> oc_complete o1 then CountLowerBound else CountExact),
      sp_scan = \<lparr>sc_state = (if oc_unsupported o1 then ScanNotApplicable else if \<not> oc_complete o1 then ScanPartial else ScanComplete),
                 sc_scope_ref = Some (''scope:sha256:'' @ qe_sha env (qe_scope env (scope_of q)))\<rparr>,
      sp_warnings = map (\<lambda>m. \<lparr>wn_code = warning_code o1, wn_message = m, wn_ref = None\<rparr>) (oc_warnings o1),
      sp_metadata = \<lparr>sd_engine = oc_engine o1, sd_mode = sq_mode q, sd_scope = scope_of q, sd_validity = oc_validity o1\<rparr>\<rparr>"

definition search_result_of :: "search_request \<Rightarrow> search_match \<Rightarrow> search_result" where
  "search_result_of q m =
     (let path = (if sm_path m = [] then []
            else trim_prefix (path_clean (path_join (sq_root q) (sm_path m))) ''./'')
      in \<lparr>sr_path = path, sr_line = sm_line m, sr_text = sm_text m,
          sr_source_ref = or_else (sm_source_ref m) (''source:mutable:'' @ path), sr_basis = or_else (sm_basis m) ''observed'',
          sr_channel = sm_channel m, sr_revision = sm_revision m, sr_validity = sm_validity m\<rparr>)"

definition search_item :: "query_env \<Rightarrow> nat \<Rightarrow> search_result \<Rightarrow> result_item" where
  "search_item env n x = \<lparr>ri_ordinal = n, ri_ref = sr_source_ref x, ri_hash = ''sha256:'' @ qe_sha env (qe_encode env x),
     ri_payload = qe_encode env x\<rparr>"

definition search_result_set ::
    "query_env \<Rightarrow> string \<Rightarrow> time \<Rightarrow> string \<Rightarrow> search_request \<Rightarrow> search_persisted \<Rightarrow> search_match list \<Rightarrow> result_set" where
  "search_result_set env w now k q meta ms =
     \<lparr>sn_id = k, sn_workspace = w, sn_query = ''sha256:'' @ qe_sha env (qe_request env (q\<lparr>sq_cursor := []\<rparr>)),
      sn_generation = ''workspace-search-v1'', sn_created_at = now, sn_expires_at = now + searchTTL,
      sn_metadata = qe_encode_meta env meta,
      sn_items = map (\<lambda>(n, m). search_item env n (search_result_of q m)) (List.enumerate 0 ms)\<rparr>"

definition search_page_body ::
    "query_env \<Rightarrow> string \<Rightarrow> search_persisted \<Rightarrow> string \<Rightarrow> nat \<Rightarrow> time \<Rightarrow> nat \<Rightarrow> search_result list \<Rightarrow> nat \<Rightarrow> nat \<Rightarrow>
     go_error + search_response option" where
  "search_page_body env w meta k start expires whole items byte_limit returned =
     (let next_ordinal = start + returned; known_more = next_ordinal < whole
      in try_then (page_cursor (qe_codec env) w k next_ordinal whole expires) (\<lambda>cursor.
        let response = \<lparr>rs_status = sp_status meta, rs_items = take returned items,
              rs_counts = \<lparr>cn_matched = (if sp_relation meta \<noteq> CountUnknown then Some (of_nat whole) else None),
                cn_relation = sp_relation meta, cn_returned = of_nat returned\<rparr>,
              rs_scan = sp_scan meta,
              rs_truncated = (if known_more then Some True
                else if sc_state (sp_scan meta) = ScanPartial then None else Some False),
              rs_next_cursor = cursor, rs_snapshot_ref = Some (''snapshot:'' @ k), rs_warnings = sp_warnings meta,
              rs_search = sp_metadata meta\<rparr>
        in Inr (if qe_size env response \<le> byte_limit then Some response else None)))"

definition search_read_page ::
    "query_env \<Rightarrow> string \<Rightarrow> catalog_db \<Rightarrow> string \<Rightarrow> nat \<Rightarrow> nat \<Rightarrow> nat \<Rightarrow> time \<Rightarrow> go_error + search_response" where
  "search_read_page env w db k start item_limit byte_limit expires =
     try_then (read_result_page k start item_limit db) (\<lambda>page.
     case qe_decode_meta env (pg_metadata page) of
       None \<Rightarrow> Inl (Text ''decode search metadata'')
     | Some meta \<Rightarrow>
         try_then (decode_items (Text ''decode search result'') (qe_decode env) (pg_items page)) (\<lambda>items.
           fit_page search_too_large (search_page_body env w meta k start expires (pg_total page) items byte_limit) (length items)))"

definition search_from_cursor ::
    "query_env \<Rightarrow> string \<Rightarrow> catalog_db \<Rightarrow> time \<Rightarrow> string \<Rightarrow> nat \<Rightarrow> nat \<Rightarrow> go_error + search_response" where
  "search_from_cursor env w db now encoded item_limit byte_limit =
     try_then (decode_cursor (qe_codec env) now encoded w) (\<lambda>p.
       search_read_page env w db (cr_set p) (cr_next p) item_limit byte_limit (seconds (cr_expires p)))"

definition search_persist ::
    "query_env \<Rightarrow> string \<Rightarrow> time \<Rightarrow> string \<Rightarrow> search_request \<Rightarrow> search_match list \<Rightarrow> search_persisted \<Rightarrow> nat \<Rightarrow> nat \<Rightarrow>
     catalog_db \<Rightarrow> catalog_db \<times> (go_error + search_response)" where
  "search_persist env w now k q ms meta item_limit byte_limit db =
     (let s = search_result_set env w now k q meta ms
      in case create_result_set (qe_valid env) s db of
           (db', Inl e) \<Rightarrow> (db', Inl e)
         | (db', Inr _) \<Rightarrow> (db', search_read_page env w db' k 0 item_limit byte_limit (sn_expires_at s)))"

text \<open>\<open>Query\<close>; \<open>order\<close> gives the visiting order of the policy map, \<open>backend\<close> the outcome of the backend.\<close>

definition search_query ::
    "query_env \<Rightarrow> os_env \<Rightarrow> root \<Rightarrow> time \<Rightarrow> string \<Rightarrow> (search_request \<Rightarrow> (string \<times> string) list) \<Rightarrow>
     (backend_query \<Rightarrow> go_error + outcome) \<Rightarrow> search_request \<Rightarrow> catalog_db \<Rightarrow> catalog_db \<times> (go_error + search_response)" where
  "search_query env os r now k order backend raw db =
     (case normalize_limits (sq_limits raw) of
        Inl e \<Rightarrow> (db, Inl e)
      | Inr l \<Rightarrow>
          (let item_limit = unat (lm_item_limit l); byte_limit = unat (lm_byte_limit l); q = normalize_request raw
           in if sq_cursor raw \<noteq> [] then (db, search_from_cursor env (rt_id r) db now (sq_cursor raw) item_limit byte_limit)
              else case validate_search env (order q) q of
                Inl e \<Rightarrow> (db, if contains_str (error_text e) ''encoding'' then Inr (unsupported_search q e) else Inl e)
              | Inr _ \<Rightarrow>
                  (case try_then (resolve_existing os r (sq_root q)) (\<lambda>directory. backend (backend_query_of q directory)) of
                     Inl e \<Rightarrow> (db, Inl e)
                   | Inr o1 \<Rightarrow>
                       search_persist env (rt_id r) now k q (oc_matches o1) (search_persisted_of env q o1) item_limit byte_limit db)))"

section \<open>Paging\<close>

type_synonym search_state = "query_env \<times> string \<times> result_set"

definition search_start :: "search_state \<Rightarrow> page_call \<Rightarrow> go_error + search_response" where
  "search_start st l = (case st of (env, w, s) \<Rightarrow>
     search_read_page env w (pl_db l) (sn_id s) 0 (pl_items l) (pl_bytes l) (sn_expires_at s))"

definition search_resume :: "search_state \<Rightarrow> string \<Rightarrow> page_call \<Rightarrow> go_error + search_response" where
  "search_resume st encoded l = (case st of (env, w, s) \<Rightarrow>
     search_from_cursor env w (pl_db l) (pl_now l) encoded (pl_items l) (pl_bytes l))"

definition search_contents :: "search_state \<Rightarrow> search_result list" where
  "search_contents st = set_contents (qe_decode (fst st)) (snd (snd st))"

definition search_call :: "search_state \<Rightarrow> page_call \<Rightarrow> bool" where
  "search_call st = (case st of (env, w, s) \<Rightarrow> call_meets (qe_codec env) w s)"

definition search_points :: "search_state \<Rightarrow> string \<Rightarrow> nat \<Rightarrow> bool" where
  "search_points st = (case st of (env, w, s) \<Rightarrow> cursor_points (qe_codec env) w s)"

lemma search_body_fits:
  assumes "search_page_body env w meta k start expires whole items byte_limit n = Inr (Some r)"
  shows "rs_items r = take n items \<and> page_cursor (qe_codec env) w k (start + n) whole expires = Inr (rs_next_cursor r)"
  using assms by (auto simp: search_page_body_def Let_def split: if_splits)

lemma search_page_slice:
  assumes "search_call (env, w, s) l" "n \<le> length (sn_items s)" "unix_seconds x = unix_seconds (sn_expires_at s)"
    "search_read_page env w (pl_db l) (sn_id s) n (pl_items l) (pl_bytes l) x = Inr y"
  shows "page_slice (search_points (env, w, s)) rs_items rs_next_cursor (search_contents (env, w, s)) n y"
proof -
  from assms(1) have m: "call_meets (qe_codec env) w s l" by (simp add: search_call_def)
  from assms(4) obtain p meta "is" where p: "read_result_page (sn_id s) n (pl_items l) (pl_db l) = Inr p"
    "decode_items (Text ''decode search result'') (qe_decode env) (pg_items p) = Inr is"
    "fit_page search_too_large (search_page_body env w meta (sn_id s) n x (pg_total p) is (pl_bytes l)) (length is) = Inr y"
    by (auto simp: search_read_page_def split: option.splits)
  show ?thesis
    unfolding search_points_def search_contents_def prod.case fst_conv snd_conv
    by (rule fit_page_slice [OF m assms(2) p(1,2) assms(3) p(3)]) (rule search_body_fits)
qed

interpretation search_pages: paged search_start search_resume rs_items rs_next_cursor search_contents search_call search_points
proof
  fix st l r
  assume a: "search_call st l" "search_start st l = Inr r"
  obtain env w s where st: "st = (env, w, s)" by (rule prod_cases3)
  from a show "page_slice (search_points st) rs_items rs_next_cursor (search_contents st) 0 r"
    unfolding st using search_page_slice [of env w s l 0 "sn_expires_at s" r] by (simp add: search_start_def)
next
  fix st l encoded n r
  assume a: "search_call st l" "search_points st encoded n" "n \<le> length (search_contents st)" "search_resume st encoded l = Inr r"
  obtain env w s where st: "st = (env, w, s)" by (rule prod_cases3)
  have w: "codec_law (qe_codec env) w s" using a(1) by (auto simp: st search_call_def call_meets_def)
  from a(4) obtain p where p: "decode_cursor (qe_codec env) (pl_now l) encoded w = Inr p"
    "search_read_page env w (pl_db l) (cr_set p) (cr_next p) (pl_items l) (pl_bytes l) (seconds (cr_expires p)) = Inr r"
    by (auto simp: st search_resume_def search_from_cursor_def)
  from decoded_cursor_points [OF _ w p(1), of n] a(2)
  have "cr_set p = sn_id s" "cr_next p = n" "cr_expires p = unix_seconds (sn_expires_at s)"
    by (auto simp: st search_points_def)
  with p(2) a(1,3) search_page_slice [of env w s l n "seconds (unix_seconds (sn_expires_at s))" r]
  show "page_slice (search_points st) rs_items rs_next_cursor (search_contents st) n r"
    by (simp add: st search_contents_def set_contents_def)
qed

text \<open>What a search stores decodes to what was encoded.\<close>

definition json_law :: "query_env \<Rightarrow> search_request \<Rightarrow> (backend_query \<Rightarrow> go_error + outcome) \<Rightarrow> bool" where
  "json_law env q backend \<longleftrightarrow> (\<forall>directory o1. backend (backend_query_of q directory) = Inr o1 \<longrightarrow>
     (\<forall>m \<in> set (oc_matches o1). qe_decode env (qe_encode env (search_result_of q m)) = Some (search_result_of q m)) \<and>
     qe_decode_meta env (qe_encode_meta env (search_persisted_of env q o1)) = Some (search_persisted_of env q o1))"

section \<open>Properties\<close>

text \<open>C22: an answer of the search tool with status \<open>ok\<close> to a request without a cursor is the beginning of the complete result of the backend,
  in its order: the backend called its search complete, the count is the number of its matches, and the
  answer says that it is truncated exactly when matches are left out.\<close>

theorem search_ok_is_complete:
  assumes "catalog_ok db" "sq_cursor raw = []" "search_query env os r now k order backend raw db = (db', Inr y)"
    "rs_status y = StatusOK" "json_law env (normalize_request raw) backend"
  shows "\<exists>directory o1. resolve_existing os r (sq_root (normalize_request raw)) = Inr directory \<and>
    backend (backend_query_of (normalize_request raw) directory) = Inr o1 \<and> oc_complete o1 \<and>
    (let all = map (search_result_of (normalize_request raw)) (oc_matches o1)
     in rs_items y = take (length (rs_items y)) all \<and> cn_matched (rs_counts y) = Some (of_nat (length all)) \<and>
        cn_relation (rs_counts y) = CountExact \<and> rs_truncated y = Some (length (rs_items y) < length all))"
proof -
  let ?q = "normalize_request raw"
  from assms(2,3,4) obtain l directory o1 where a: "normalize_limits (sq_limits raw) = Inr l"
    "resolve_existing os r (sq_root ?q) = Inr directory" "backend (backend_query_of ?q directory) = Inr o1"
    "search_persist env (rt_id r) now k ?q (oc_matches o1) (search_persisted_of env ?q o1) (unat (lm_item_limit l))
       (unat (lm_byte_limit l)) db = (db', Inr y)"
    by (auto simp: search_query_def Let_def unsupported_search_def split: sum.splits if_splits)
  let ?m = "search_persisted_of env ?q o1"
  have law: "\<forall>m \<in> set (oc_matches o1). qe_decode env (qe_encode env (search_result_of ?q m)) = Some (search_result_of ?q m)"
    "qe_decode_meta env (qe_encode_meta env ?m) = Some ?m"
    using assms(5) a(3) unfolding json_law_def by blast+
  let ?s = "search_result_set env (rt_id r) now k ?q ?m (oc_matches o1)"
  from a(4) obtain u where c: "create_result_set (qe_valid env) ?s db = (db', Inr u)"
    "search_read_page env (rt_id r) db' k 0 (unat (lm_item_limit l)) (unat (lm_byte_limit l)) (sn_expires_at ?s) = Inr y"
    by (auto simp: search_persist_def Let_def split: prod.splits sum.splits)
  from created_set_stored [OF c(1) assms(1)] have s: "catalog_ok db'" "?s \<in> set (db_results db')" "well_numbered ?s" by auto
  have id: "sn_id ?s = k" "sn_metadata ?s = qe_encode_meta env ?m" by (simp_all add: search_result_set_def)
  from c(2) obtain p meta "is" where p: "read_result_page (sn_id ?s) 0 (unat (lm_item_limit l)) db' = Inr p"
    "qe_decode_meta env (pg_metadata p) = Some meta"
    "decode_items (Text ''decode search result'') (qe_decode env) (pg_items p) = Inr is"
    "fit_page search_too_large (search_page_body env (rt_id r) meta k 0 (sn_expires_at ?s) (pg_total p) is (unat (lm_byte_limit l)))
       (length is) = Inr y"
    by (auto simp: search_read_page_def id split: option.splits)
  have meta: "meta = ?m" using p(2) read_result_metadata [OF s(1,2) p(1)] id(2) law(2) by simp
  from read_result_slice [OF s p(1)] have items: "pg_items p = take (unat (lm_item_limit l)) (sn_items ?s)"
    "pg_total p = length (sn_items ?s)" by auto
  let ?all = "map (search_result_of ?q) (oc_matches o1)"
  have all: "set_contents (qe_decode env) ?s = ?all"
    using law(1) by (simp add: set_contents_def search_result_set_def search_item_def comp_def case_prod_beta map_enumerated
        map_enumerated [where f = "\<lambda>m. the (qe_decode env (qe_encode env (search_result_of (normalize_request raw) m)))"])
  have len: "length (sn_items ?s) = length ?all" using all [symmetric] by (simp add: set_contents_def)
  have "is = take (unat (lm_item_limit l)) (set_contents (qe_decode env) ?s)"
    using decode_items_ok [OF p(3)] items(1) by (simp add: set_contents_def take_map)
  then have prefix: "is = take (unat (lm_item_limit l)) ?all" unfolding all .
  from p(4) obtain n where n: "n \<le> length is"
    "search_page_body env (rt_id r) ?m k 0 (sn_expires_at ?s) (length ?all) is (unat (lm_byte_limit l)) n = Inr (Some y)"
    unfolding meta items(2) len by (rule fit_page_ok)
  then have y: "rs_items y = take n is" "rs_status y = sp_status ?m"
    "cn_matched (rs_counts y) = (if sp_relation ?m \<noteq> CountUnknown then Some (of_nat (length ?all)) else None)"
    "cn_relation (rs_counts y) = sp_relation ?m"
    "rs_truncated y = (if n < length ?all then Some True else if sc_state (sp_scan ?m) = ScanPartial then None else Some False)"
    by (auto simp: search_page_body_def Let_def split: if_splits)
  have ok: "oc_complete o1" "\<not> oc_unsupported o1" using y(2) assms(4) by (auto simp: search_persisted_of_def split: if_splits)
  have "rs_items y = take n ?all" using y(1) prefix n(1) by (simp add: min_absorb1)
  moreover have "length (rs_items y) = n" using y(1) n(1) by simp
  ultimately have "rs_items y = take (length (rs_items y)) ?all \<and> cn_matched (rs_counts y) = Some (of_nat (length ?all)) \<and>
        cn_relation (rs_counts y) = CountExact \<and> rs_truncated y = Some (length (rs_items y) < length ?all)"
    using y(3-5) ok by (simp add: search_persisted_of_def)
  with a(2,3) ok(1) show ?thesis unfolding Let_def by blast
qed

text \<open>Every request whose mode mentions the word encoding is answered as an unsupported encoding instead
  of being refused for its mode.\<close>

theorem encoding_mode_unsupported:
  assumes "sq_cursor raw = []" "normalize_limits (sq_limits raw) = Inr l" "sq_mode raw = a @ ''encoding'' @ b"
  shows "search_query env os r now k order backend raw db =
    (db, Inr (unsupported_search (normalize_request raw) (Text (''unsupported search mode '' @ quoted (sq_mode raw)))))"
proof -
  let ?q = "normalize_request raw" and ?e = "Text (''unsupported search mode '' @ quoted (sq_mode raw))"
  have mode: "sq_mode ?q = a @ ''encoding'' @ b" by (simp add: normalize_request_def assms(3))
  have "sq_mode ?q \<noteq> []" "\<not> List.member [''filename'', ''exact'', ''regex'', ''git_history'', ''symbol''] (sq_mode ?q)"
  proof -
    have "contains_str (sq_mode ?q) ''encoding''" unfolding mode contains_str_iff by blast
    moreover have "\<not> contains_str m ''encoding''" if "m \<in> set [[], ''filename'', ''exact'', ''regex'', ''git_history'', ''symbol'']" for m
      using that by (auto simp: has_prefix_def)
    ultimately show "sq_mode ?q \<noteq> []" "\<not> List.member [''filename'', ''exact'', ''regex'', ''git_history'', ''symbol''] (sq_mode ?q)"
      by (auto simp: List.member_iff)
  qed
  then have v: "validate_search env (order ?q) ?q = Inl (Text (''unsupported search mode '' @ quoted (sq_mode ?q)))"
    unfolding validate_search_def Let_def by simp
  have m: "sq_mode ?q = sq_mode raw" by (simp add: normalize_request_def)
  have "''unsupported search mode '' @ quoted (sq_mode raw) =
      (''unsupported search mode '' @ [CHR 0x22] @ a) @ ''encoding'' @ (b @ [CHR 0x22])"
    unfolding assms(3) quoted_def by simp
  then have "contains_str (error_text ?e) ''encoding''" unfolding error_text.simps contains_str_iff by blast
  with v m assms(1,2) show ?thesis by (simp add: search_query_def Let_def)
qed

section \<open>Witnesses\<close>

definition demo_search_request :: search_request where
  "demo_search_request = \<lparr>sq_mode = ''exact'', sq_pattern = ''p'', sq_root = [], sq_include = [], sq_exclude = [], sq_hidden = False,
     sq_ignored = [], sq_generated = [], sq_vendor = [], sq_encoding = [], sq_case_sensitive = True, sq_cursor = [],
     sq_limits = \<lparr>lr_item_limit = 1, lr_byte_limit = 9, lr_time_limit_ms = 1\<rparr>, sq_match_kind = [], sq_revision = [],
     sq_since = [], sq_until = [], sq_symbol_kind = [], sq_language = [], sq_syntax = []\<rparr>"

definition demo_outcome :: outcome where
  "demo_outcome = (new_outcome ''rg'')\<lparr>oc_matches := [blank_match\<lparr>sm_path := ''a''\<rparr>, blank_match\<lparr>sm_path := ''b''\<rparr>]\<rparr>"

definition demo_meta :: search_persisted where
  "demo_meta = \<lparr>sp_status = StatusOK, sp_relation = CountExact,
     sp_scan = \<lparr>sc_state = ScanComplete, sc_scope_ref = Some ''scope:sha256:''\<rparr>, sp_warnings = [],
     sp_metadata = \<lparr>sd_engine = ''rg'', sd_mode = ''exact'', sd_scope = scope_of (normalize_request demo_search_request), sd_validity = []\<rparr>\<rparr>"

definition demo_query_env :: query_env where
  "demo_query_env = \<lparr>qe_codec = demo_codec (seconds 40), qe_sha = (\<lambda>_. []), qe_scope = so_root, qe_request = sq_mode,
     qe_encode = sr_path,
     qe_decode = (\<lambda>s. Some (search_result_of (normalize_request demo_search_request) (blank_match\<lparr>sm_path := s\<rparr>))),
     qe_encode_meta = (\<lambda>_. ''{}''), qe_decode_meta = (\<lambda>_. Some demo_meta), qe_size = (\<lambda>_. 0), qe_valid = (\<lambda>_. True),
     qe_regex = (\<lambda>_. None)\<rparr>"

definition demo_search_os :: os_env where
  "demo_search_os = \<lparr>env_realpath = Inr, env_lstat = (\<lambda>_. LstatFound), env_stat_dir = (\<lambda>_. Inr True),
     env_stat_file = (\<lambda>_. Inr (True, 1)), env_read = (\<lambda>_. Inr []), env_cwd = ''/''\<rparr>"

definition demo_search_root :: root where
  "demo_search_root = \<lparr>rt_id = ''w'', rt_lexical = ''/r'', rt_root_resolved = ''/r'', rt_grants = []\<rparr>"

lemma demo_json_law: "json_law demo_query_env (normalize_request demo_search_request) (\<lambda>_. Inr demo_outcome)"
proof -
  let ?q = "normalize_request demo_search_request"
  have "list_all (\<lambda>m. qe_decode demo_query_env (qe_encode demo_query_env (search_result_of ?q m)) = Some (search_result_of ?q m))
      (oc_matches demo_outcome)"
    "qe_decode_meta demo_query_env (qe_encode_meta demo_query_env (search_persisted_of demo_query_env ?q demo_outcome)) =
      Some (search_persisted_of demo_query_env ?q demo_outcome)"
    by code_simp+
  then show ?thesis by (auto simp: json_law_def list_all_iff)
qed

theorem search_ok_is_complete_witness:
  "\<exists>db' y. search_query demo_query_env demo_search_os demo_search_root 6 ''s'' request_policies (\<lambda>_. Inr demo_outcome)
      demo_search_request demo_catalog = (db', Inr y) \<and> rs_truncated y = Some True \<and> length (rs_items y) = 1 \<and>
    cn_matched (rs_counts y) = Some 2"
proof -
  let ?r = "search_query demo_query_env demo_search_os demo_search_root 6 ''s'' request_policies (\<lambda>_. Inr demo_outcome)
      demo_search_request demo_catalog"
  have e: "is_ok (snd ?r)" "rs_status (projr (snd ?r)) = StatusOK" "length (rs_items (projr (snd ?r))) = 1"
    by code_simp+
  from e(1) obtain db' y where r: "?r = (db', Inr y)" unfolding is_ok_iff by (metis prod.collapse)
  with e(2,3) have s: "rs_status y = StatusOK" "length (rs_items y) = 1" by simp_all
  have "catalog_ok demo_catalog" by (rule reachable_ok [OF demo_catalog_reachable])
  moreover have "sq_cursor demo_search_request = []" by (simp add: demo_search_request_def)
  ultimately have "\<exists>directory o1. resolve_existing demo_search_os demo_search_root (sq_root (normalize_request demo_search_request)) = Inr directory \<and>
    (\<lambda>_. Inr demo_outcome) (backend_query_of (normalize_request demo_search_request) directory) = (Inr o1 :: go_error + outcome) \<and> oc_complete o1 \<and>
    (let all = map (search_result_of (normalize_request demo_search_request)) (oc_matches o1)
     in rs_items y = take (length (rs_items y)) all \<and> cn_matched (rs_counts y) = Some (of_nat (length all)) \<and>
        cn_relation (rs_counts y) = CountExact \<and> rs_truncated y = Some (length (rs_items y) < length all))"
    by (rule search_ok_is_complete [OF _ _ r s(1) demo_json_law])
  moreover have "length (oc_matches demo_outcome) = 2" by (simp add: demo_outcome_def)
  ultimately show ?thesis using r s(2) by (auto simp: Let_def)
qed

theorem encoding_mode_unsupported_witness:
  "\<exists>y. search_query demo_query_env demo_search_os demo_search_root 6 ''s'' request_policies (\<lambda>_. Inr demo_outcome)
      (demo_search_request\<lparr>sq_mode := ''encoding''\<rparr>) demo_catalog = (demo_catalog, Inr y) \<and> rs_status y = StatusUnsupported"
proof -
  let ?q = "demo_search_request\<lparr>sq_mode := ''encoding''\<rparr>"
  have "is_ok (normalize_limits (sq_limits ?q))" by code_simp
  then obtain l where "normalize_limits (sq_limits ?q) = Inr l" unfolding is_ok_iff by blast
  moreover have "sq_cursor ?q = []" "sq_mode ?q = [] @ ''encoding'' @ []" by (simp_all add: demo_search_request_def)
  ultimately have "search_query demo_query_env demo_search_os demo_search_root 6 ''s'' request_policies (\<lambda>_. Inr demo_outcome) ?q demo_catalog =
      (demo_catalog, Inr (unsupported_search (normalize_request ?q) (Text (''unsupported search mode '' @ quoted (sq_mode ?q)))))"
    using encoding_mode_unsupported by blast
  then show ?thesis by (simp add: unsupported_search_def)
qed

end
