(* ===== verification/RunnerModel.thy ===== *)
theory RunnerModel
  imports RecordService CacheStore CatalogService Workspace
begin

text \<open>
  The state and the observations of the runner, \<open>internal/runner/types.go\<close> and \<open>service.go\<close>: files,
  executables, argument expansion, preflight checks, glob patterns and snapshots. Files are a map from
  absolute paths; Git, probes, the platform and SHA-256 are parameters of \<open>runner_env\<close>.
\<close>

section \<open>Types\<close>

datatype file_node = Regular string | Special go_error

type_synonym files = "(string, file_node) gomap"

datatype argument_value = JsonValue json | FloatValue "int option" | IntValue int

record cache_decision =
  dc_policy :: string
  dc_mode :: string
  dc_status :: string
  dc_eligible :: bool
  dc_reason :: string
  dc_key :: string
  dc_source_run :: string
  dc_qualifications :: "string list"

record preflight_result =
  pf_id :: string
  pf_kind :: string
  pf_requirement :: string
  pf_status :: string
  pf_summary :: string
  pf_identity :: string

record run_payload =
  py_state :: string
  py_capability :: string
  py_capability_revision :: string
  py_configuration :: string
  py_arguments :: "(string, argument_value) gomap"
  py_argv :: "string list"
  py_cwd :: string
  py_executable :: string
  py_executable_identity :: string
  py_fingerprint :: string
  py_cache :: cache_decision
  py_key_checks :: "(string, string) gomap"
  py_inputs :: "(string, string) gomap"
  py_outputs :: "string list"
  py_outputs_before :: "(string, string) gomap"
  py_outputs_after :: "(string, string) gomap"
  py_preflight :: string
  py_ready :: bool
  py_timeout :: nat
  py_artifact_mode :: string
  py_prepared_at :: time
  py_started_at :: "time option"
  py_finished_at :: "time option"
  py_exit :: "int option"
  py_termination :: string
  py_stdout_bytes :: nat
  py_stderr_bytes :: nat
  py_stdout_truncated :: bool
  py_stderr_truncated :: bool
  py_artifacts :: "string list"
  py_partial :: bool
  py_streams :: bool

record artifact_payload =
  ap_run :: string
  ap_path :: string
  ap_hash :: string
  ap_size :: nat
  ap_storage :: string
  ap_basis :: string
  ap_writer :: string

text \<open>\<open>xr_cache\<close> is whether a cache index is attached, \<open>xr_approved\<close> the answer of the authorization callback,
  \<open>xr_fault\<close> the error with which the file system refuses an operation on a path, and \<open>xr_recheck\<close> what it answers
  once the parents of an output have been made.\<close>

record runner_env =
  xr_id :: string
  xr_root :: root
  xr_os :: os_env
  xr_state_dir :: string
  xr_json :: json_env
  xr_lower :: "string \<Rightarrow> string"
  xr_fold_eq :: "string \<Rightarrow> string \<Rightarrow> bool"
  xr_object :: "string \<Rightarrow> string + payload"
  xr_look :: "string \<Rightarrow> go_error + string"
  xr_sha :: "string \<Rightarrow> string"
  xr_hmac :: "string \<Rightarrow> string \<Rightarrow> string"
  xr_platform :: string
  xr_environ :: "string \<Rightarrow> bool"
  xr_git :: "string list \<Rightarrow> git_exit \<times> string"
  xr_probe :: "string \<Rightarrow> string list \<Rightarrow> bool \<times> string"
  xr_home :: "string option"
  xr_encode :: "run_payload \<Rightarrow> string"
  xr_decode :: "string \<Rightarrow> run_payload option"
  xr_encode_artifact :: "artifact_payload \<Rightarrow> string"
  xr_decode_artifact :: "string \<Rightarrow> artifact_payload option"
  xr_encode_preflight :: "manifest \<Rightarrow> string \<Rightarrow> string \<Rightarrow> preflight_result list \<Rightarrow> bool \<Rightarrow> time \<Rightarrow> string"
  xr_encode_marker :: "string \<times> string \<Rightarrow> string"
  xr_decode_marker :: "string \<Rightarrow> (string \<times> string) option"
  xr_value :: "string \<Rightarrow> json option"
  xr_stamp :: "time \<Rightarrow> string"
  xr_fault :: "string \<Rightarrow> string \<Rightarrow> go_error option"
  xr_recheck :: os_env
  xr_cache :: bool
  xr_approved :: bool
  xr_cache_key :: string
  xr_stream_limit :: nat
  xr_artifact_limit :: nat
  xr_run_limit :: nat
  xr_retained_runs :: nat
  xr_retention_age :: time

definition runner_limit :: go_error where "runner_limit = Sentinel ErrLimitExceeded"

section \<open>Files\<close>

definition read_file :: "files \<Rightarrow> string \<Rightarrow> go_error + string" where
  "read_file fs path = (case map_of fs path of
      None \<Rightarrow> Inl (Sentinel FileNotExist) | Some (Special e) \<Rightarrow> Inl e | Some (Regular s) \<Rightarrow> Inr s)"

definition hash_file :: "(string \<Rightarrow> string) \<Rightarrow> files \<Rightarrow> string \<Rightarrow> int \<Rightarrow> go_error + string" where
  "hash_file sha fs path maximum =
     (case map_of fs path of
        None \<Rightarrow> Inl (Sentinel FileNotExist)
      | Some (Special e) \<Rightarrow> Inl runner_limit
      | Some (Regular s) \<Rightarrow> if maximum < int (length s) then Inl runner_limit else Inr (''sha256:'' @ sha s))"

definition maximum_file :: int where "maximum_file = 512 * 1024 * 1024"

definition blob_path :: "runner_env \<Rightarrow> string \<Rightarrow> string" where
  "blob_path env hash = path_join (xr_state_dir env) (''artifacts/blobs/'' @ trim_prefix hash ''sha256:'')"

definition resolve_executable :: "runner_env \<Rightarrow> files \<Rightarrow> string \<Rightarrow> go_error + (string \<times> string)" where
  "resolve_executable env fs ref =
     (if is_abs ref then Inl (Text ''absolute executable_ref is not allowed'')
      else case (if list_ex (\<lambda>c. c = CHR ''/'' \<or> c = CHR 0x5C) ref
                 then resolve_primary_existing (xr_os env) (xr_root env) ref else xr_look env ref) of
          Inl e \<Rightarrow> Inl (Wrap ''resolve executable'' e)
        | Inr path \<Rightarrow> (case hash_file (xr_sha env) fs path maximum_file of
              Inl e \<Rightarrow> Inl (Wrap ''hash executable'' e) | Inr identity \<Rightarrow> Inr (path, identity)))"

definition resolve_cwd :: "runner_env \<Rightarrow> string \<Rightarrow> go_error + (string \<times> string)" where
  "resolve_cwd env value =
     (if List.member [[], ''.'', ''repository''] value then Inr (rt_root_resolved (xr_root env), ''.'')
      else if is_abs value then Inl (Text ''absolute execution cwd is not allowed'')
      else try_then (resolve_primary_existing (xr_os env) (xr_root env) value) (\<lambda>path.
        if env_stat_dir (xr_os env) path \<noteq> Inr True then Inl (Text ''execution cwd must be a workspace directory'')
        else case path_rel (rt_root_resolved (xr_root env)) path of
            None \<Rightarrow> Inl (Text ''Rel: cannot make path relative'') | Some relative \<Rightarrow> Inr (path, relative)))"

section \<open>Arguments\<close>

definition parse_int64 :: "string \<Rightarrow> int option" where
  "parse_int64 s =
     (let (negative, digits) = (case s of [] \<Rightarrow> (False, []) | c # cs \<Rightarrow> if c = CHR ''-'' then (True, cs) else if c = CHR ''+'' then (False, cs) else (False, s));
          n = int (digits_value digits)
      in if \<not> all_digits digits then None
         else if negative then (if n \<le> 2 ^ 63 then Some (- n) else None)
         else if n < 2 ^ 63 then Some n else None)"

definition int_digits :: "int \<Rightarrow> string" where
  "int_digits n = (if n < 0 then ''-'' @ itoa (nat (- n)) else itoa (nat n))"

definition argument_name_ok :: "string \<Rightarrow> bool" where
  "argument_name_ok s = pattern_ok (\<lambda>c. between 65 90 c \<or> between 97 122 c \<or> c = CHR ''_'')
     (\<lambda>c. between 65 90 c \<or> between 97 122 c \<or> between 48 57 c \<or> c = CHR ''_'') 63 s"

definition bounded_text :: "argument_value \<Rightarrow> go_error + string" where
  "bounded_text v = (case v of
      JsonValue (JString s) \<Rightarrow> if 8192 < int (length s) then Inl (Text ''must be a bounded string'') else Inr s
    | _ \<Rightarrow> Inl (Text ''must be a bounded string''))"

definition normalize_argument ::
    "(string \<Rightarrow> string) \<Rightarrow> string \<Rightarrow> argument_value \<Rightarrow> go_error + (string \<times> argument_value)" where
  "normalize_argument lower kind v =
     (if kind = ''string'' \<or> kind = ''project_path'' then try_then (bounded_text v) (\<lambda>s. Inr (s, JsonValue (JString s)))
      else if kind = ''host_ref'' then try_then (bounded_text v) (\<lambda>s.
        if \<not> host_alias_pattern s then Inl (Text ''must be a host alias'') else Inr (lower s, JsonValue (JString (lower s))))
      else if kind = ''boolean'' \<or> kind = ''bool'' then (case v of
          JsonValue (JBool b) \<Rightarrow> Inr (if b then ''true'' else ''false'', JsonValue (JBool b))
        | _ \<Rightarrow> Inl (Text ''must be a boolean''))
      else if kind = ''integer'' then (case v of
          JsonValue (JNumber s) \<Rightarrow> if parse_int64 s = None then Inl (Text ''must be an integer'') else Inr (s, v)
        | FloatValue (Some n) \<Rightarrow> Inr (int_digits n, IntValue n)
        | IntValue n \<Rightarrow> Inr (int_digits n, v)
        | _ \<Rightarrow> Inl (Text ''must be an integer''))
      else Inl (Text (''unsupported type '' @ quoted kind)))"

fun check_names :: "manifest \<Rightarrow> (string, argument_value) gomap \<Rightarrow> go_error + unit" where
  "check_names m [] = Inr ()"
| "check_names m ((name, v) # rest) =
     (if \<not> argument_name_ok name then Inl (Text ''invalid argument name'')
      else if map_of (mf_arguments m) name = None then Inl (Text (''unknown argument '' @ quoted name))
      else check_names m rest)"

definition chosen_value :: "argument \<Rightarrow> argument_value option \<Rightarrow> argument_value option" where
  "chosen_value a v = (case v of Some x \<Rightarrow> Some x | None \<Rightarrow> if ar_default a = JNull then None else Some (JsonValue (ar_default a)))"

fun normalize_arguments ::
    "(string \<Rightarrow> string) \<Rightarrow> (string, argument_value) gomap \<Rightarrow> (string, argument) gomap \<Rightarrow>
     go_error + ((string, string) gomap \<times> (string, argument_value) gomap)" where
  "normalize_arguments lower given [] = Inr ([], [])"
| "normalize_arguments lower given ((name, a) # rest) =
     (case chosen_value a (map_of given name) of
        None \<Rightarrow> if ar_required a then Inl (Text (''argument '' @ quoted name @ '' is required''))
          else normalize_arguments lower given rest
      | Some v \<Rightarrow> (case normalize_argument lower (ar_type a) v of
            Inl e \<Rightarrow> Inl (Wrap (''argument '' @ quoted name) e)
          | Inr (s, w) \<Rightarrow> try_then (normalize_arguments lower given rest) (\<lambda>(texts, values).
              Inr ((name, s) # texts, (name, w) # values))))"

text \<open>The matches of \<open>\{([A-Za-z_][A-Za-z0-9_]{0,63})\}\<close> in a template element.\<close>

fun take_name :: "string \<Rightarrow> string \<Rightarrow> (string \<times> string) option" where
  "take_name acc [] = None"
| "take_name acc (c # cs) = (if c = CHR ''}'' then Some (rev acc, cs) else take_name (c # acc) cs)"

lemma take_name_length: "take_name acc s = Some (n, r) \<Longrightarrow> length r < length s"
  by (induction s arbitrary: acc) (fastforce split: if_splits)+

function template_parts :: "string \<Rightarrow> (char + string) list" where
  "template_parts [] = []"
| "template_parts (c # cs) =
     (case (if c = CHR ''{'' then take_name [] cs else None) of
        Some (name, rest) \<Rightarrow> if argument_name_ok name then Inr name # template_parts rest else Inl c # template_parts cs
      | None \<Rightarrow> Inl c # template_parts cs)"
  by pat_completeness auto
termination
  by (relation "measure length") (auto dest: take_name_length split: if_splits)

fun fill_parts :: "(string, string) gomap \<Rightarrow> (char + string) list \<Rightarrow> string option \<Rightarrow> string \<times> string option" where
  "fill_parts values [] missing = ([], missing)"
| "fill_parts values (Inl c # ps) missing = (let (s, m) = fill_parts values ps missing in (c # s, m))"
| "fill_parts values (Inr name # ps) missing =
     (case map_of values name of
        Some v \<Rightarrow> (let (s, m) = fill_parts values ps missing in (v @ s, m))
      | None \<Rightarrow> (let (s, m) = fill_parts values ps (Some name) in (''{'' @ name @ ''}'' @ s, m)))"

fun expand_template :: "(string, string) gomap \<Rightarrow> string list \<Rightarrow> go_error + string list" where
  "expand_template values [] = Inr []"
| "expand_template values (t # ts) =
     (case fill_parts values (template_parts t) None of
        (s, Some name) \<Rightarrow> Inl (Text (''argv template requires argument '' @ quoted name))
      | (s, None) \<Rightarrow> try_then (expand_template values ts) (\<lambda>argv. Inr (s # argv)))"

definition template_of :: "manifest \<Rightarrow> string list" where
  "template_of m = (case mf_execution m of None \<Rightarrow> [] | Some x \<Rightarrow> ex_argv x)"

definition expand_arguments ::
    "(string \<Rightarrow> string) \<Rightarrow> manifest \<Rightarrow> (string, argument_value) gomap \<Rightarrow>
     go_error + (string list \<times> (string, argument_value) gomap)" where
  "expand_arguments lower m given =
     try_then (check_names m given) (\<lambda>_.
     try_then (normalize_arguments lower given (mf_arguments m)) (\<lambda>(texts, values).
     try_then (expand_template texts (template_of m)) (\<lambda>argv. Inr (argv, values))))"

section \<open>Glob patterns and snapshots\<close>

datatype glob_token = GlobRune string | GlobOne | GlobSegment | GlobAny | GlobDirs

text \<open>A byte of the pattern is converted to the rune of its value before it is quoted.\<close>

definition byte_rune :: "char \<Rightarrow> string" where
  "byte_rune c = (if byte c < 0x80 then [c] else [char_of (0xC0 + byte c div 64), char_of (0x80 + byte c mod 64)])"

fun glob_tokens :: "string \<Rightarrow> glob_token list" where
  "glob_tokens [] = []"
| "glob_tokens (c # cs) =
     (if c = CHR ''*'' then
        (case cs of
           [] \<Rightarrow> [GlobSegment]
         | d # ds \<Rightarrow>
             if d = CHR ''*'' then (case ds of
                 [] \<Rightarrow> [GlobAny]
               | e # es \<Rightarrow> if e = CHR ''/'' then GlobDirs # glob_tokens es else GlobAny # glob_tokens ds)
             else GlobSegment # glob_tokens cs)
      else if c = CHR ''?'' then GlobOne # glob_tokens cs
      else GlobRune (byte_rune c) # glob_tokens cs)"

definition newline :: string where "newline = [CHR 0x0A]"

text \<open>What may follow \<open>(?:.*/)\<close>: the rest after each slash up to the first line break.\<close>

fun after_slash :: "string list \<Rightarrow> string list list" where
  "after_slash [] = []"
| "after_slash (r # rs) = (if r = ''/'' then rs # after_slash rs else if r = newline then [] else after_slash rs)"

fun glob_match :: "glob_token list \<Rightarrow> string list \<Rightarrow> bool" where
  "glob_match [] rs = (rs = [])"
| "glob_match (GlobRune s # ts) rs = (case rs of [] \<Rightarrow> False | r # rs' \<Rightarrow> r = s \<and> glob_match ts rs')"
| "glob_match (GlobOne # ts) rs = (case rs of [] \<Rightarrow> False | r # rs' \<Rightarrow> r \<noteq> ''/'' \<and> glob_match ts rs')"
| "glob_match (GlobSegment # ts) rs =
     (glob_match ts rs \<or> (case rs of [] \<Rightarrow> False | r # rs' \<Rightarrow> r \<noteq> ''/'' \<and> glob_match (GlobSegment # ts) rs'))"
| "glob_match (GlobAny # ts) rs =
     (glob_match ts rs \<or> (case rs of [] \<Rightarrow> False | r # rs' \<Rightarrow> r \<noteq> newline \<and> glob_match (GlobAny # ts) rs'))"
| "glob_match (GlobDirs # ts) rs = (glob_match ts rs \<or> list_ex (\<lambda>s. glob_match ts s) (after_slash rs))"

definition glob :: "string \<Rightarrow> string \<Rightarrow> bool" where
  "glob pattern path = glob_match (glob_tokens pattern) (rune_strings path)"

text \<open>\<open>WalkDir\<close>: the files below the root in lexical order, without the two private directories.\<close>

definition below_root :: "string \<Rightarrow> string \<Rightarrow> string option" where
  "below_root r path = (if has_prefix path (r @ ''/'') then Some (drop (Suc (length r)) path) else None)"

definition walk_files :: "string \<Rightarrow> files \<Rightarrow> string list" where
  "walk_files r fs =
     sort_key (split_on (CHR ''/'')) (filter (\<lambda>p. \<not> list_ex (\<lambda>c. c = ''.git'' \<or> c = ''.repoplane'') (butlast (split_on (CHR ''/'') p)))
       (List.map_filter (\<lambda>(path, _). below_root r path) fs))"

definition pattern_limit :: "string \<Rightarrow> go_error" where
  "pattern_limit what = Join runner_limit (Text (''runner: '' @ what @ '' limit exceeded''))"

fun hash_matches ::
    "runner_env \<Rightarrow> files \<Rightarrow> string \<Rightarrow> string list \<Rightarrow> (string, string) gomap \<Rightarrow> go_error + (string, string) gomap" where
  "hash_matches env fs resource [] acc = Inr acc"
| "hash_matches env fs resource (p # ps) acc =
     (if map_of acc p = None \<and> 256 \<le> length acc then Inl (pattern_limit (resource @ '' matched_file_count''))
      else try_then (hash_file (xr_sha env) fs (path_join (rt_root_resolved (xr_root env)) p) maximum_file) (\<lambda>h.
        hash_matches env fs resource ps (map_put p h acc)))"

fun snapshot_all ::
    "runner_env \<Rightarrow> files \<Rightarrow> string \<Rightarrow> string list \<Rightarrow> (string, string) gomap \<Rightarrow> go_error + (string, string) gomap" where
  "snapshot_all env fs resource [] acc = Inr acc"
| "snapshot_all env fs resource (p # ps) acc =
     (if p = [] \<or> is_abs p \<or> has_prefix (path_clean p) ''..''
      then Inl (Text ''input/output pattern must remain inside workspace'')
      else let found = filter (glob p) (walk_files (rt_root_resolved (xr_root env)) fs)
        in try_then (hash_matches env fs resource found acc) (\<lambda>acc'.
             snapshot_all env fs resource ps (if found = [] then map_put (''pattern:'' @ p) ''missing'' acc' else acc')))"

definition snapshot_patterns :: "runner_env \<Rightarrow> files \<Rightarrow> string list \<Rightarrow> string \<Rightarrow> go_error + (string, string) gomap" where
  "snapshot_patterns env fs patterns resource =
     (if 128 < length patterns then Inl (pattern_limit (resource @ '' pattern_count''))
      else snapshot_all env fs resource patterns [])"

end
