(* ===== verification/RunnerPreflight.thy ===== *)
theory RunnerPreflight
  imports RunnerModel RecordQueries
begin

text \<open>
  The checks of \<open>internal/runner/service.go\<close> before a run: host facts, declared preflight checks with
  their probes, and the removal of private paths from a probe's output.
\<close>

section \<open>Host facts\<close>

record host_fact_record =
  hr_record :: string
  hr_alias :: string
  hr_role :: string
  hr_os :: string
  hr_tier :: string
  hr_services :: "string list"

definition host_fact_of :: "runner_env \<Rightarrow> durable \<Rightarrow> host_fact_record option" where
  "host_fact_of env r =
     (case xr_object env (du_payload r) of
        Inl _ \<Rightarrow> None
      | Inr p \<Rightarrow>
          (case (text_field (members p) ''memo_kind'', host_field (members p) ''host'') of
             (Inr kind, Inr (Some h)) \<Rightarrow>
               if du_schema_version r \<noteq> ''memo.v2'' \<or> kind \<noteq> ''host_fact'' \<or> hf_alias h = [] then None
               else Some \<lparr>hr_record = du_id r, hr_alias = xr_lower env (hf_alias h), hr_role = hf_role h, hr_os = hf_os h,
                 hr_tier = hf_tier h, hr_services = hf_services h\<rparr>
           | _ \<Rightarrow> None))"

definition alias_argument :: "(string, argument_value) gomap \<Rightarrow> string \<Rightarrow> string" where
  "alias_argument values name = (case map_of values name of Some (JsonValue (JString s)) \<Rightarrow> s | _ \<Rightarrow> [])"

definition host_names :: "manifest \<Rightarrow> (string, argument_value) gomap \<Rightarrow> string list" where
  "host_names m values = sort (map fst (filter (\<lambda>(name, a). ar_type a = ''host_ref'' \<and> map_of values name \<noteq> None) (mf_arguments m)))"

definition host_check :: "string \<Rightarrow> string \<Rightarrow> string \<Rightarrow> string \<Rightarrow> preflight_result" where
  "host_check name status summary identity = \<lparr>pf_id = ''host.'' @ name, pf_kind = ''host_fact'', pf_requirement = ''informational'',
     pf_status = status, pf_summary = summary, pf_identity = identity\<rparr>"

definition unknown_host_checks ::
    "string list \<Rightarrow> (string, argument_value) gomap \<Rightarrow> string \<Rightarrow> preflight_result list \<times> warning list" where
  "unknown_host_checks names values summary =
     (let text = (\<lambda>n. summary @ '' for '' @ alias_argument values n)
      in (map (\<lambda>n. host_check n ''unknown'' (text n) []) names, map (\<lambda>n. plain_warning ''host_fact_unknown'' (text n) None) names))"

definition conflicting_facts :: "runner_env \<Rightarrow> host_fact_record list \<Rightarrow> bool" where
  "conflicting_facts env facts = (case facts of [] \<Rightarrow> False | f # rest \<Rightarrow>
     list_ex (\<lambda>c. \<not> xr_fold_eq env (hr_os c) (hr_os f) \<or> \<not> xr_fold_eq env (hr_role c) (hr_role f)) rest)"

definition bounded_host_summary :: "string \<Rightarrow> string" where
  "bounded_host_summary v = compact_preview v 320"

definition host_summary :: "host_fact_record \<Rightarrow> string" where
  "host_summary f = bounded_host_summary (join_with '' '' [hr_alias f, ''role='' @ hr_role f, ''os='' @ hr_os f, ''tier='' @ hr_tier f,
     ''services='' @ join_with '','' (take 4 (hr_services f))])"

definition host_outcome ::
    "runner_env \<Rightarrow> bool \<Rightarrow> host_fact_record list \<Rightarrow> string \<Rightarrow> string \<Rightarrow> preflight_result \<times> warning option" where
  "host_outcome env complete facts name alias =
     (case facts of
        [] \<Rightarrow>
          if complete then (host_check name ''unknown'' (''no current host fact for '' @ alias) [],
            Some (plain_warning ''host_fact_missing'' (''no current host fact for '' @ alias) None))
          else (host_check name ''unknown'' (''current host fact scan was partial for '' @ alias) [],
            Some (plain_warning ''host_fact_unknown'' (''current host fact scan was partial for '' @ alias) None))
      | f # _ \<Rightarrow>
          if \<not> complete \<or> conflicting_facts env facts
          then (host_check name ''unknown'' (''current host facts conflict or are partial for '' @ alias) [],
            Some (plain_warning ''host_fact_conflict'' (''current host facts conflict or are partial for '' @ alias)
              (Some (''record:'' @ hr_record f))))
          else (host_check name ''passed'' (host_summary f) (''record:'' @ hr_record f), None))"

definition host_query :: "runner_env \<Rightarrow> string list \<Rightarrow> record_query" where
  "host_query env aliases =
     \<lparr>rq_project = xr_id env, rq_workspace = xr_id env, rq_kind = ''memo'', rq_validity = ''current'', rq_source = [],
      rq_updated_after = zero_time, rq_updated_before = zero_time, rq_topic_key = [], rq_scope = [], rq_configuration = [],
      rq_supersedes = [], rq_terms = (if length aliases \<le> 16 then aliases else []), rq_match_all = False, rq_limit = 1000\<rparr>"

definition host_fact_checks ::
    "runner_env \<Rightarrow> manifest \<Rightarrow> (string, argument_value) gomap \<Rightarrow> record_db \<Rightarrow> preflight_result list \<times> warning list" where
  "host_fact_checks env m values db =
     (let names = host_names m values; aliases = distinct_terms [] (map (alias_argument values) names)
      in if names = [] then ([], [])
         else case query_records (xr_lower env) (xr_json env) (host_query env aliases) db of
             Inl _ \<Rightarrow> unknown_host_checks names values ''current host facts unavailable''
           | Inr page \<Rightarrow>
               (let facts = List.map_filter (host_fact_of env) (pg_records page);
                    outcomes = map (\<lambda>n. host_outcome env (pg_complete page)
                      (filter (\<lambda>f. hr_alias f = alias_argument values n) facts) n (alias_argument values n)) names
                in (map fst outcomes, List.map_filter snd outcomes)))"

section \<open>Private paths in a probe's output\<close>

fun find_str :: "string \<Rightarrow> string \<Rightarrow> nat option" where
  "find_str [] p = (if p = [] then Some 0 else None)"
| "find_str (c # s) p = (if has_prefix (c # s) p then Some 0 else map_option Suc (find_str s p))"

definition slice_panic :: go_error where "slice_panic = Panic ''slice bounds out of range''"

text \<open>The loop of \<open>replaceFold\<close>, one unit of fuel per round: \<open>None\<close> while it has not returned. The position is found in
  the folded text and used in the original one.\<close>

fun replace_fold :: "(string \<Rightarrow> string) \<Rightarrow> nat \<Rightarrow> string \<Rightarrow> string \<Rightarrow> string \<Rightarrow> (go_error + string) option" where
  "replace_fold lower fuel value old replacement =
     (if old = [] then Some (Inr value)
      else case fuel of
        0 \<Rightarrow> None
      | Suc n \<Rightarrow>
          (case find_str (lower value) (lower old) of
             None \<Rightarrow> Some (Inr value)
           | Some i \<Rightarrow>
               if length value < i + length old then Some (Inl slice_panic)
               else replace_fold lower n (take i value @ replacement @ drop (i + length old) value) old replacement))"

declare replace_fold.simps [simp del]

definition then_fold :: "(go_error + string) option \<Rightarrow> (string \<Rightarrow> (go_error + string) option) \<Rightarrow> (go_error + string) option" where
  "then_fold m f = (case m of Some (Inr s) \<Rightarrow> f s | _ \<Rightarrow> m)"

definition sanitize_probe :: "runner_env \<Rightarrow> nat \<Rightarrow> string \<Rightarrow> (go_error + string) option" where
  "sanitize_probe env fuel value =
     then_fold (replace_fold (xr_lower env) fuel value (rt_lexical (xr_root env)) ''WORKSPACE'') (\<lambda>a.
     then_fold (replace_fold (xr_lower env) fuel a (rt_root_resolved (xr_root env)) ''WORKSPACE'') (\<lambda>b.
     then_fold (case xr_home env of None \<Rightarrow> Some (Inr b) | Some home \<Rightarrow> replace_fold (xr_lower env) fuel b home ''USER_HOME'')
       (\<lambda>c. Some (Inr (take 4096 c)))))"

section \<open>Declared checks\<close>

definition probe_output :: "string \<Rightarrow> string" where
  "probe_output out = take 4096 out"

definition first_line :: "string \<Rightarrow> string" where
  "first_line s = trim_space (takeWhile (\<lambda>c. c \<noteq> CHR 0x0D \<and> c \<noteq> CHR 0x0A) s)"

definition environment_name_ok :: "string \<Rightarrow> bool" where
  "environment_name_ok s = (case s of [] \<Rightarrow> False | c # cs \<Rightarrow>
     (between 65 90 c \<or> between 97 122 c \<or> c = CHR ''_'') \<and>
     list_all (\<lambda>d. between 65 90 d \<or> between 97 122 d \<or> between 48 57 d \<or> d = CHR ''_'') cs)"

definition base_result :: "preflight_check \<Rightarrow> preflight_result" where
  "base_result d = \<lparr>pf_id = pc_id d, pf_kind = pc_kind d,
     pf_requirement = (if pc_requirement d = [] then ''recommended'' else pc_requirement d), pf_status = ''unknown'',
     pf_summary = ''observation unavailable'', pf_identity = []\<rparr>"

definition check_outcome :: "preflight_check \<Rightarrow> string \<Rightarrow> string \<Rightarrow> string \<Rightarrow> preflight_result" where
  "check_outcome d status summary identity = (base_result d)\<lparr>pf_status := status, pf_summary := summary, pf_identity := identity\<rparr>"

definition git_check :: "runner_env \<Rightarrow> preflight_check \<Rightarrow> string \<Rightarrow> preflight_result" where
  "git_check env d cwd =
     (case xr_git env [''-C'', cwd, ''rev-parse'', ''HEAD''] of
        (e, out) \<Rightarrow>
          if e \<noteq> GitOK then check_outcome d ''missing'' ''Git repository not observed'' []
          else let commit = trim_space (probe_output out); identity = (if git_commit_pattern commit then commit else [])
            in case xr_git env [''-C'', cwd, ''status'', ''--porcelain=v1'', ''--untracked-files=no''] of
                 (e2, status) \<Rightarrow>
                   if e2 \<noteq> GitOK then check_outcome d ''unknown'' ''Git worktree state unavailable'' identity
                   else if trim_space (probe_output status) = []
                   then check_outcome d ''passed'' ''repository observed; worktree clean'' identity
                   else check_outcome d ''passed'' ''repository observed; worktree dirty'' identity)"

definition file_check :: "runner_env \<Rightarrow> files \<Rightarrow> preflight_check \<Rightarrow> preflight_result" where
  "file_check env fs d =
     (if pc_ref d = [] \<or> is_abs (pc_ref d) then check_outcome d ''failed'' ''workspace-relative file ref is required'' []
      else case resolve_primary_existing (xr_os env) (xr_root env) (pc_ref d) of
          Inl _ \<Rightarrow> check_outcome d ''missing'' ''file not found'' []
        | Inr path \<Rightarrow> (case hash_file (xr_sha env) fs path maximum_file of
              Inl _ \<Rightarrow> check_outcome d ''unknown'' ''file identity unavailable'' []
            | Inr identity \<Rightarrow> check_outcome d ''passed'' (pc_ref d) identity))"

text \<open>\<open>fuel\<close> is the fuel of each replacement; the outer option is that of \<open>replaceFold\<close>.\<close>

definition executable_check ::
    "runner_env \<Rightarrow> files \<Rightarrow> nat \<Rightarrow> preflight_check \<Rightarrow> (go_error + preflight_result) option" where
  "executable_check env fs fuel d =
     (case resolve_executable env fs (pc_ref d) of
        Inl _ \<Rightarrow> Some (Inr (check_outcome d ''missing'' ''executable not found'' []))
      | Inr (path, identity) \<Rightarrow>
          if pc_argv d = [] then Some (Inr (check_outcome d ''passed'' (path_base path) identity))
          else case xr_probe env path (pc_argv d) of
              (False, _) \<Rightarrow> Some (Inr (check_outcome d ''failed'' ''declared version probe failed'' identity))
            | (True, out) \<Rightarrow>
                (let printed = probe_output out; line = first_line printed;
                     probed = ''sha256:'' @ xr_sha env (identity @ [CHR 0x00] @ printed)
                 in if line = [] then Some (Inr (check_outcome d ''passed'' (path_base path) probed))
                    else case sanitize_probe env fuel line of
                        None \<Rightarrow> None
                      | Some (Inl e) \<Rightarrow> Some (Inl e)
                      | Some (Inr summary) \<Rightarrow> Some (Inr (check_outcome d ''passed'' summary probed))))"

definition run_preflight_check ::
    "runner_env \<Rightarrow> files \<Rightarrow> nat \<Rightarrow> preflight_check \<Rightarrow> string \<Rightarrow> (go_error + preflight_result) option" where
  "run_preflight_check env fs fuel d cwd =
     (if pc_kind d = ''platform'' then Some (Inr (check_outcome d ''passed'' (xr_platform env) []))
      else if pc_kind d = ''environment'' then Some (Inr (
        if \<not> environment_name_ok (pc_ref d) then check_outcome d ''failed'' ''invalid environment variable name'' []
        else if xr_environ env (pc_ref d) then check_outcome d ''passed'' ''set (value withheld)'' []
        else check_outcome d ''missing'' ''not set'' []))
      else if pc_kind d = ''git'' then Some (Inr (git_check env d cwd))
      else if pc_kind d = ''file'' then Some (Inr (file_check env fs d))
      else if pc_kind d = ''executable'' then executable_check env fs fuel d
      else Some (Inr (base_result d)))"

fun run_checks ::
    "runner_env \<Rightarrow> files \<Rightarrow> nat \<Rightarrow> string \<Rightarrow> preflight_check list \<Rightarrow> (go_error + preflight_result list) option" where
  "run_checks env fs fuel cwd [] = Some (Inr [])"
| "run_checks env fs fuel cwd (d # ds) =
     (case run_preflight_check env fs fuel d cwd of
        None \<Rightarrow> None
      | Some (Inl e) \<Rightarrow> Some (Inl e)
      | Some (Inr r) \<Rightarrow> map_option (\<lambda>rest. try_then rest (\<lambda>rs. Inr (r # rs))) (run_checks env fs fuel cwd ds))"

definition preflight_declared :: "manifest \<Rightarrow> preflight_check list" where
  "preflight_declared m = (case mf_execution m of None \<Rightarrow> [] | Some x \<Rightarrow> ex_preflight x)"

definition required_result :: "string \<Rightarrow> string \<Rightarrow> string \<Rightarrow> string \<Rightarrow> preflight_result" where
  "required_result i kind summary identity = \<lparr>pf_id = i, pf_kind = kind, pf_requirement = ''required'', pf_status = ''passed'',
     pf_summary = summary, pf_identity = identity\<rparr>"

definition preflight ::
    "runner_env \<Rightarrow> files \<Rightarrow> nat \<Rightarrow> manifest \<Rightarrow> string \<Rightarrow> string \<Rightarrow> string \<Rightarrow>
     (go_error + (preflight_result list \<times> bool \<times> warning list)) option" where
  "preflight env fs fuel m executable identity cwd =
     map_option (\<lambda>out. try_then out (\<lambda>rs. Inr
       ([required_result ''runner.platform'' ''platform'' (xr_platform env) [],
         required_result ''runner.executable'' ''executable'' (path_base executable) identity] @ rs,
        list_all (\<lambda>r. pf_status r = ''passed'' \<or> pf_requirement r \<noteq> ''required'') rs,
        map (\<lambda>r. plain_warning (''preflight_'' @ pf_status r) (pf_id r @ '': '' @ pf_summary r) None)
          (filter (\<lambda>r. pf_status r \<noteq> ''passed'') rs))))
       (run_checks env fs fuel cwd (preflight_declared m))"

end
