(* ===== verification/RunnerCache.thy ===== *)
theory RunnerCache
  imports RunnerPreflight
begin

text \<open>
  Reuse of earlier results by the runner, \<open>internal/runner/cache.go\<close>: the cache key of a plan, the
  decision about a cache entry, publication of an observed result, and the copying of retained outputs into
  the workspace with its rollback. \<open>qualify\<close> stands for the qualification resolver, an interface in the code that
  may be absent.
\<close>

section \<open>State\<close>

text \<open>The repository, the cache index, the files, and the processes whose end a goroutine waits for, each with the
  record and payload the goroutine has captured.\<close>

record running_process =
  pr_record :: durable
  pr_payload :: run_payload
  pr_cancelled :: bool

record runner_state =
  rn_db :: record_db
  rn_cache :: cache_table
  rn_files :: files
  rn_running :: "(string, running_process) gomap"

type_synonym qualifier = "(string \<Rightarrow> string \<Rightarrow> string list \<Rightarrow> go_error + (string list \<times> bool)) option"

definition plan_stale :: go_error where "plan_stale = Sentinel RunnerPlanStale"
definition run_state_error :: go_error where "run_state_error = Sentinel RunnerRunState"

text \<open>A call that may run out of the fuel of \<open>replace_fold\<close>, fail, or return.\<close>

definition then_run :: "(go_error + 'a) option \<Rightarrow> ('a \<Rightarrow> (go_error + 'b) option) \<Rightarrow> (go_error + 'b) option" where
  "then_run m f = (case m of None \<Rightarrow> None | Some (Inl e) \<Rightarrow> Some (Inl e) | Some (Inr x) \<Rightarrow> f x)"

section \<open>The cache key\<close>

text \<open>Each value is written behind its length as eight bytes, most significant first.\<close>

fun length_bytes :: "nat \<Rightarrow> nat \<Rightarrow> string" where
  "length_bytes 0 n = []"
| "length_bytes (Suc k) n = length_bytes k (n div 256) @ [char_of (n mod 256)]"

definition framed :: "string \<Rightarrow> string" where
  "framed value = length_bytes 8 (length value) @ value"

definition sorted_keys :: "(string, 'v) gomap \<Rightarrow> string list" where
  "sorted_keys m = sort (map fst m)"

definition key_pairs :: "(string, string) gomap \<Rightarrow> string list" where
  "key_pairs m = concat (map (\<lambda>k. [k, the (map_of m k)]) (sorted_keys m))"

definition key_values ::
    "capability \<Rightarrow> cache_decl \<Rightarrow> string \<Rightarrow> string list \<Rightarrow> (string, string) gomap \<Rightarrow> (string, string) gomap \<Rightarrow> string list" where
  "key_values cb c configuration argv inputs checks =
     [''repoplane-cache-key.v1'', itoa (unat (ca_contract_revision c)), ca_output_contract c, mf_id (cb_manifest cb),
      cb_revision cb, cb_source_ref cb, cb_execution_fingerprint cb, configuration]
     @ argv @ key_pairs inputs @ key_pairs checks"

definition make_cache_key ::
    "runner_env \<Rightarrow> capability \<Rightarrow> string \<Rightarrow> string list \<Rightarrow> (string, string) gomap \<Rightarrow> (string, string) gomap \<Rightarrow> go_error + string" where
  "make_cache_key env cb configuration argv inputs checks =
     (case mf_cache (cb_manifest cb) of
        Some c \<Rightarrow> if length (xr_cache_key env) = 32
          then Inr (''hmac-sha256:'' @ xr_hmac env (xr_cache_key env) (concat (map framed (key_values cb c configuration argv inputs checks))))
          else Inl (Text ''cache key prerequisites unavailable'')
      | None \<Rightarrow> Inl (Text ''cache key prerequisites unavailable''))"

section \<open>The decision\<close>

definition verify_output :: "runner_env \<Rightarrow> files \<Rightarrow> cache_output \<Rightarrow> go_error + unit" where
  "verify_output env fs x =
     (if is_abs (co_path x) \<or> has_prefix (path_clean (co_path x)) ''..'' \<or> \<not> has_prefix (co_hash x) ''sha256:''
      then Inl (Text ''cache output invalid'')
      else if hash_file (xr_sha env) fs (blob_path env (co_hash x)) (int (xr_artifact_limit env)) \<noteq> Inr (co_hash x)
      then Inl (Text ''cache artifact unavailable'') else Inr ())"

fun verify_outputs :: "runner_env \<Rightarrow> files \<Rightarrow> cache_output list \<Rightarrow> go_error + unit" where
  "verify_outputs env fs [] = Inr ()"
| "verify_outputs env fs (x # xs) = try_then (verify_output env fs x) (\<lambda>_. verify_outputs env fs xs)"

definition verify_cache_outputs :: "runner_env \<Rightarrow> files \<Rightarrow> cache_output list \<Rightarrow> go_error + unit" where
  "verify_cache_outputs env fs xs =
     (if xs = [] \<or> 256 < length xs then Inl (Text ''cache output set invalid'') else verify_outputs env fs xs)"

definition within_or_equal :: "string \<Rightarrow> string \<Rightarrow> bool" where
  "within_or_equal r input \<longleftrightarrow> input = r \<or> has_prefix input (r @ ''/'') \<or> has_prefix r (trim_suffix input ''/'' @ ''/'')"

definition validate_isolated_root :: "runner_env \<Rightarrow> manifest \<Rightarrow> cache_decl \<Rightarrow> go_error + unit" where
  "validate_isolated_root env m c =
     (let r = trim_suffix (ca_isolated_root c) ''/'' in
      case resolve_for_lookup (xr_os env) (xr_root env) r of
        Inl _ \<Rightarrow> Inl (Text ''isolated root may not traverse a link'')
      | Inr (resolved, _) \<Rightarrow>
          if \<not> same_path resolved (path_join (rt_root_resolved (xr_root env)) r)
          then Inl (Text ''isolated root may not traverse a link'')
          else if list_ex (within_or_equal r) (mf_inputs m) then Inl (Text ''isolated root overlaps declared input'')
          else case xr_git env [''-C'', rt_root_resolved (xr_root env), ''ls-files'', ''--'', r] of
              (e, out) \<Rightarrow> if e \<noteq> GitOK \<or> trim_space (probe_output out) \<noteq> []
                then Inl (Text ''isolated root tracked state is not empty'') else Inr ())"

text \<open>Of several checks with one identifier the last is used.\<close>

definition check_by_id :: "preflight_result list \<Rightarrow> string \<Rightarrow> preflight_result option" where
  "check_by_id checks i = find (\<lambda>r. pf_id r = i) (rev checks)"

fun key_identities ::
    "preflight_result list \<Rightarrow> string list \<Rightarrow> (string, string) gomap \<Rightarrow> (string, string) gomap \<times> bool" where
  "key_identities checks [] acc = (acc, True)"
| "key_identities checks (i # rest) acc =
     (case check_by_id checks i of
        None \<Rightarrow> (acc, False)
      | Some r \<Rightarrow> if pf_status r \<noteq> ''passed'' \<or> pf_identity r = [] then (acc, False)
          else key_identities checks rest (map_put i (pf_identity r) acc))"

definition executable_identity :: "preflight_result list \<Rightarrow> string" where
  "executable_identity checks = (case check_by_id checks ''runner.executable'' of None \<Rightarrow> [] | Some r \<Rightarrow> pf_identity r)"

definition decided :: "cache_decision \<Rightarrow> string \<Rightarrow> string \<Rightarrow> cache_decision" where
  "decided d status reason = d\<lparr>dc_status := status, dc_reason := reason\<rparr>"

definition entry_matches :: "time \<Rightarrow> capability \<Rightarrow> string \<Rightarrow> cache_row \<Rightarrow> bool" where
  "entry_matches now cb configuration r \<longleftrightarrow> cx_state r = ''active'' \<and> now < cx_expires_at r \<and>
     cx_capability r = mf_id (cb_manifest cb) \<and> cx_capability_revision r = cb_revision cb \<and> cx_configuration r = configuration"

definition cache_lookup ::
    "runner_env \<Rightarrow> time \<Rightarrow> capability \<Rightarrow> string \<Rightarrow> cache_decision \<Rightarrow> runner_state \<Rightarrow> runner_state \<times> (go_error + cache_decision)" where
  "cache_lookup env now cb configuration d st =
     (case get_cache_entry (xr_id env) (xr_id env) (dc_key d) (rn_cache st) of
        Inl e \<Rightarrow> (st, if errors_is e StoreNotFound then Inr (decided d ''miss'' ''entry_not_found'') else Inl e)
      | Inr r \<Rightarrow>
          if cx_state r = ''quarantined''
          then (st, Inr ((decided d ''quarantined'' (cx_reason r))\<lparr>dc_source_run := cx_source_run r\<rparr>))
          else if \<not> entry_matches now cb configuration r then (st, Inr (decided d ''miss'' ''entry_stale''))
          else if cx_qualifications r \<noteq> dc_qualifications d then (st, Inr (decided d ''miss'' ''qualification_changed''))
          else (case verify_cache_outputs env (rn_files st) (cx_outputs r) of
              Inl _ \<Rightarrow> (st\<lparr>rn_cache := fst (quarantine_cache (xr_id env) (xr_id env) (dc_key d) ''artifact_unavailable'' now (rn_cache st))\<rparr>,
                Inr (decided d ''quarantined'' ''artifact_unavailable''))
            | Inr _ \<Rightarrow> (st, Inr ((decided d ''hit'' ''verified_entry'')\<lparr>dc_source_run := cx_source_run r\<rparr>))))"

text \<open>Lines 80 to 105: qualification, bypass and observation only; then the entry is looked up.\<close>

definition cache_qualified ::
    "runner_env \<Rightarrow> time \<Rightarrow> qualifier \<Rightarrow> capability \<Rightarrow> cache_decl \<Rightarrow> string \<Rightarrow> cache_decision \<Rightarrow> runner_state \<Rightarrow>
     runner_state \<times> (go_error + cache_decision)" where
  "cache_qualified env now qualify cb c configuration d st =
     (let verified = (dc_policy d = ''verified'') in
      if verified \<and> qualify = None
      then (st, Inr ((decided d (dc_status d) ''qualification_unavailable'')\<lparr>dc_eligible := False\<rparr>))
      else case (if verified then the qualify (mf_id (cb_manifest cb)) configuration (ca_qualification_checks c) else Inr ([], True)) of
        Inl e \<Rightarrow> (st, Inl e)
      | Inr (refs, ok) \<Rightarrow>
          (let d' = (if verified then d\<lparr>dc_qualifications := refs\<rparr> else d) in
           if verified \<and> \<not> ok then (st, Inr ((decided d' (dc_status d') ''qualification_not_current'')\<lparr>dc_eligible := False\<rparr>))
           else if dc_mode d' = ''bypass'' then (st, Inr (decided d' ''bypassed'' ''request_bypass''))
           else if \<not> verified then (st, Inr (decided d' ''miss'' ''observe_only''))
           else cache_lookup env now cb configuration d' st))"

definition base_decision :: "manifest \<Rightarrow> string \<Rightarrow> cache_decision" where
  "base_decision m mode = \<lparr>dc_policy = (if mf_cache_policy m = [] then ''disabled'' else mf_cache_policy m), dc_mode = mode,
     dc_status = ''rejected'', dc_eligible = False, dc_reason = ''policy_disabled'', dc_key = [], dc_source_run = [],
     dc_qualifications = []\<rparr>"

text \<open>Everything before the key: the decision is final with the reason, or the identities are complete.\<close>

definition cache_prerequisites ::
    "runner_env \<Rightarrow> manifest \<Rightarrow> preflight_result list \<Rightarrow> (string, string) gomap \<times> (string + cache_decl)" where
  "cache_prerequisites env m checks =
     (if \<not> xr_approved env then ([], Inl ''runtime_cache_not_approved'')
      else if \<not> xr_cache env \<or> length (xr_cache_key env) \<noteq> 32 then ([], Inl ''host_cache_disabled'')
      else case mf_cache m of
          None \<Rightarrow> ([], Inl ''manifest_ineligible'')
        | Some c \<Rightarrow>
            if executable_identity checks = [] then ([], Inl ''executable_identity_unavailable'')
            else (case key_identities checks (ca_key_checks c) [(''runner.executable'', executable_identity checks)] of
                (identities, complete) \<Rightarrow> (identities,
                  if \<not> complete then Inl ''key_identity_unavailable''
                  else if ca_restore_policy c = ''replace_isolated_root'' \<and> \<not> is_ok (validate_isolated_root env m c)
                  then Inl ''isolated_root_unproven'' else Inr c)))"

definition prepare_cache ::
    "runner_env \<Rightarrow> time \<Rightarrow> qualifier \<Rightarrow> capability \<Rightarrow> string \<Rightarrow> string \<Rightarrow> string list \<Rightarrow> (string, string) gomap \<Rightarrow>
     preflight_result list \<Rightarrow> runner_state \<Rightarrow> runner_state \<times> (go_error + (cache_decision \<times> (string, string) gomap))" where
  "prepare_cache env now qualify cb configuration mode argv inputs checks st =
     (let m = cb_manifest cb; d = base_decision m mode in
      if dc_policy d = ''disabled'' then (st, Inr (d\<lparr>dc_status := ''disabled''\<rparr>, []))
      else case cache_prerequisites env m checks of
          (identities, Inl reason) \<Rightarrow> (st, Inr (d\<lparr>dc_reason := reason\<rparr>, identities))
        | (identities, Inr c) \<Rightarrow>
            (case make_cache_key env cb configuration argv inputs identities of
               Inl _ \<Rightarrow> (st, Inr (d\<lparr>dc_reason := ''key_unavailable''\<rparr>, identities))
             | Inr key \<Rightarrow>
                 (case cache_qualified env now qualify cb c configuration (d\<lparr>dc_key := key, dc_eligible := True\<rparr>) st of
                    (st', r) \<Rightarrow> (st', try_then r (\<lambda>d'. Inr (d', identities))))))"

section \<open>Publication\<close>

definition load_artifact :: "runner_env \<Rightarrow> record_db \<Rightarrow> string \<Rightarrow> go_error + cache_output" where
  "load_artifact env db ref =
     (case get_record (xr_id env) (xr_id env) (trim_prefix ref ''record:'') db of
        Inl _ \<Rightarrow> Inl (Text ''cache artifact record unavailable'')
      | Inr r \<Rightarrow>
          if du_kind r \<noteq> ''artifact'' then Inl (Text ''cache artifact record unavailable'')
          else case xr_decode_artifact env (du_payload r) of
              None \<Rightarrow> Inl (Text ''cache artifact bytes unavailable'')
            | Some a \<Rightarrow> if ap_storage a \<noteq> ''stored'' then Inl (Text ''cache artifact bytes unavailable'')
                else Inr \<lparr>co_path = ap_path a, co_hash = ap_hash a, co_size = int (ap_size a), co_artifact = ref\<rparr>)"

fun load_artifacts :: "runner_env \<Rightarrow> record_db \<Rightarrow> string list \<Rightarrow> go_error + cache_output list" where
  "load_artifacts env db [] = Inr []"
| "load_artifacts env db (ref # refs) =
     try_then (load_artifact env db ref) (\<lambda>x. try_then (load_artifacts env db refs) (\<lambda>xs. Inr (x # xs)))"

definition cache_outputs :: "runner_env \<Rightarrow> record_db \<Rightarrow> string list \<Rightarrow> go_error + cache_output list" where
  "cache_outputs env db refs = try_then (load_artifacts env db refs) (\<lambda>xs. Inr (sort_key co_path xs))"

definition cacheEntryTTL :: time where "cacheEntryTTL = seconds (30 * 24 * 3600)"

definition observed_entry :: "runner_env \<Rightarrow> time \<Rightarrow> string \<Rightarrow> run_payload \<Rightarrow> cache_output list \<Rightarrow> cache_row" where
  "observed_entry env now run p outputs =
     \<lparr>cx_key = dc_key (py_cache p), cx_project = xr_id env, cx_workspace = xr_id env, cx_capability = py_capability p,
      cx_capability_revision = py_capability_revision p, cx_configuration = py_configuration p, cx_state = ''active'',
      cx_reason = [], cx_source_run = ''record:'' @ run, cx_outputs = outputs,
      cx_qualifications = dc_qualifications (py_cache p), cx_created_at = now, cx_observed_at = now, cx_last_used_at = now,
      cx_expires_at = now + cacheEntryTTL, cx_observations = 1, cx_hits = 0\<rparr>"

definition set_decision :: "string \<Rightarrow> string \<Rightarrow> run_payload \<Rightarrow> run_payload" where
  "set_decision status reason p = p\<lparr>py_cache := decided (py_cache p) status reason\<rparr>"

definition publish_cache_observation ::
    "runner_env \<Rightarrow> time \<Rightarrow> string \<Rightarrow> run_payload \<Rightarrow> record_db \<Rightarrow> cache_table \<Rightarrow> cache_table \<times> run_payload" where
  "publish_cache_observation env now run p db t =
     (if \<not> xr_cache env \<or> dc_key (py_cache p) = [] \<or> \<not> dc_eligible (py_cache p) \<or> py_state p \<noteq> ''completed'' \<or> py_partial p
      then (t, p)
      else if list_ex (\<lambda>(path, h). has_prefix path ''pattern:'') (py_outputs_after p)
      then (t, set_decision ''rejected'' ''declared_output_missing'' p)
      else case cache_outputs env db (py_artifacts p) of
          Inl _ \<Rightarrow> (t, set_decision ''rejected'' ''outputs_not_captured'' p)
        | Inr outputs \<Rightarrow>
            if outputs = [] then (t, set_decision ''rejected'' ''outputs_not_captured'' p)
            else case publish_cache (observed_entry env now run p outputs) t of
                (t', Inl _) \<Rightarrow> (t', set_decision ''rejected'' ''publish_failed'' p)
              | (t', Inr r) \<Rightarrow>
                  (t', if cx_state r = ''quarantined'' then set_decision ''quarantined'' (cx_reason r) p
                    else let q = set_decision ''observed'' ''entry_recorded'' p
                      in q\<lparr>py_cache := (py_cache q)\<lparr>dc_source_run := cx_source_run r\<rparr>\<rparr>))"

section \<open>Copying verified outputs\<close>

definition dir_of :: "string \<Rightarrow> string" where
  "dir_of path = spell (is_abs path) (butlast (clean_comps path))"

definition refused :: "runner_env \<Rightarrow> string \<Rightarrow> string \<Rightarrow> bool" where
  "refused env operation path \<longleftrightarrow> xr_fault env operation path \<noteq> None"

definition fault_of :: "runner_env \<Rightarrow> string \<Rightarrow> string \<Rightarrow> go_error + unit" where
  "fault_of env operation path = (case xr_fault env operation path of None \<Rightarrow> Inr () | Some e \<Rightarrow> Inl e)"

text \<open>The temporary file is removed on every path, so only its renaming shows.\<close>

definition copy_verified_file ::
    "runner_env \<Rightarrow> files \<Rightarrow> string \<Rightarrow> string \<Rightarrow> string \<Rightarrow> files \<times> (go_error + bool)" where
  "copy_verified_file env fs source destination identity =
     (case hash_file (xr_sha env) fs destination maximum_file of
        Inr current \<Rightarrow> (fs, if current = identity then Inr False else Inl (Text ''output_conflict''))
      | Inl e \<Rightarrow>
          if \<not> errors_is e FileNotExist then (fs, Inl e)
          else let copied =
              try_then (fault_of env ''mkdir'' (dir_of destination)) (\<lambda>_.
              try_then (fault_of env ''create'' (dir_of destination)) (\<lambda>_.
              try_then (read_file fs source) (\<lambda>content.
              try_then (fault_of env ''write'' (dir_of destination)) (\<lambda>_.
                if maximum_file < int (length content) \<or> ''sha256:'' @ xr_sha env content \<noteq> identity
                then Inl (Text ''materialized hash mismatch'')
                else try_then (fault_of env ''rename'' destination) (\<lambda>_. Inr content)))))
            in (case copied of Inl x \<Rightarrow> (fs, Inl x) | Inr content \<Rightarrow> (map_put destination (Regular content) fs, Inr True)))"

definition remove_file :: "runner_env \<Rightarrow> string \<Rightarrow> files \<Rightarrow> files" where
  "remove_file env path fs = (if refused env ''remove'' path then fs else map_del path fs)"

definition rollback_materialized :: "runner_env \<Rightarrow> string list \<Rightarrow> files \<Rightarrow> files" where
  "rollback_materialized env paths fs = fold (remove_file env) paths fs"

definition resolve_output_destination :: "runner_env \<Rightarrow> string \<Rightarrow> go_error + string" where
  "resolve_output_destination env relative =
     try_then (resolve_for_lookup (xr_os env) (xr_root env) relative) (\<lambda>(destination, _).
     try_then (fault_of env ''mkdir'' (dir_of destination)) (\<lambda>_.
       case resolve_for_lookup (xr_recheck env) (xr_root env) relative of
         Inl _ \<Rightarrow> Inl (Text ''output parent changed during materialization'')
       | Inr (rechecked, _) \<Rightarrow>
           if \<not> same_path destination rechecked then Inl (Text ''output parent changed during materialization'')
           else Inr rechecked))"

text \<open>The loop over the outputs of an entry; the list is that of the files made so far.\<close>

fun materialize_files :: "runner_env \<Rightarrow> cache_output list \<Rightarrow> string list \<Rightarrow> files \<Rightarrow> files \<times> (go_error + string list)" where
  "materialize_files env [] created fs = (fs, Inr created)"
| "materialize_files env (x # xs) created fs =
     (case resolve_output_destination env (co_path x) of
        Inl e \<Rightarrow> (rollback_materialized env created fs, Inl e)
      | Inr destination \<Rightarrow>
          (case copy_verified_file env fs (blob_path env (co_hash x)) destination (co_hash x) of
             (fs', Inl e) \<Rightarrow> (rollback_materialized env created fs', Inl e)
           | (fs', Inr wrote) \<Rightarrow> materialize_files env xs (if wrote then created @ [destination] else created) fs'))"

end
