(* ===== verification/RunnerSwap.thy ===== *)
theory RunnerSwap
  imports RunnerCache
begin

text \<open>
  Replacement of a whole isolated root, \<open>materializeIsolatedRoot\<close> and \<open>recoverCacheSwaps\<close> of
  \<open>internal/runner/cache.go\<close>: the outputs are staged beside the root, a marker is written, the root is renamed to
  a backup, the stage to the root. The lemmas show what a restart makes of every state a crash can leave. A
  directory exists while a file lies below it; empty directories are not modelled.
\<close>

section \<open>Trees of files\<close>

definition under :: "string \<Rightarrow> string \<Rightarrow> bool" where
  "under a p \<longleftrightarrow> has_prefix p (a @ ''/'')"

definition tree_found :: "files \<Rightarrow> string \<Rightarrow> bool" where
  "tree_found fs a \<longleftrightarrow> list_ex (\<lambda>(p, n). under a p) fs"

definition subtree :: "files \<Rightarrow> string \<Rightarrow> string \<Rightarrow> file_node option" where
  "subtree fs a rel = map_of fs (a @ ''/'' @ rel)"

definition move_tree :: "string \<Rightarrow> string \<Rightarrow> files \<Rightarrow> files" where
  "move_tree a b fs = map (\<lambda>(p, n). (if under a p then b @ drop (length a) p else p, n)) fs"

definition drop_tree :: "string \<Rightarrow> files \<Rightarrow> files" where
  "drop_tree a fs = filter (\<lambda>(p, n). p \<noteq> a \<and> \<not> under a p) fs"

definition remove_tree :: "runner_env \<Rightarrow> string \<Rightarrow> files \<Rightarrow> files" where
  "remove_tree env a fs = (if refused env ''remove'' a then fs else drop_tree a fs)"

text \<open>A directory is not renamed onto a file or a directory that is not empty.\<close>

definition rename_refused :: "runner_env \<Rightarrow> files \<Rightarrow> string \<Rightarrow> string \<Rightarrow> bool" where
  "rename_refused env fs a b \<longleftrightarrow> refused env ''rename'' a \<or> map_of fs b \<noteq> None \<or> tree_found fs b"

definition lstat_path :: "runner_env \<Rightarrow> files \<Rightarrow> string \<Rightarrow> lstat_answer" where
  "lstat_path env fs a = (case xr_fault env ''lstat'' a of
      Some e \<Rightarrow> LstatFailed e
    | None \<Rightarrow> if map_of fs a \<noteq> None \<or> tree_found fs a then LstatFound else LstatMissing)"

section \<open>Replacement\<close>

fun stage_outputs :: "runner_env \<Rightarrow> string \<Rightarrow> string \<Rightarrow> cache_output list \<Rightarrow> files \<Rightarrow> files \<times> (go_error + unit)" where
  "stage_outputs env stage pre [] fs = (fs, Inr ())"
| "stage_outputs env stage pre (x # xs) fs =
     (if \<not> has_prefix (co_path x) pre then (fs, Inl (Text ''cache output escaped isolated root''))
      else let destination = path_join stage (trim_prefix (co_path x) pre); rel = path_rel stage destination
        in if rel = None \<or> rel = Some ''..'' \<or> has_prefix (the rel) ''../''
           then (fs, Inl (Text ''cache output escaped staging root''))
           else case copy_verified_file env fs (blob_path env (co_hash x)) destination (co_hash x) of
               (fs', Inl e) \<Rightarrow> (fs', Inl e)
             | (fs', Inr _) \<Rightarrow> stage_outputs env stage pre xs fs')"

definition swap_error :: go_error where "swap_error = Text ''isolated root is not a plain directory''"

definition swap_roots :: "runner_env \<Rightarrow> string \<Rightarrow> string \<Rightarrow> string \<Rightarrow> files \<Rightarrow> files \<times> (go_error + unit)" where
  "swap_roots env r backup stage fs =
     (case lstat_path env fs r of
        LstatFailed e \<Rightarrow> (fs, Inl e)
      | seen \<Rightarrow>
          if map_of fs r \<noteq> None then (fs, Inl swap_error)
          else let found = (seen = LstatFound) in
            if found \<and> rename_refused env fs r backup then (fs, Inl (Text ''rename''))
            else let fs1 = (if found then move_tree r backup fs else fs) in
              if rename_refused env fs1 stage r
              then (if found \<and> \<not> rename_refused env fs1 backup r then move_tree backup r fs1 else fs1, Inl (Text ''rename''))
              else let fs2 = move_tree stage r fs1 in (if found then remove_tree env backup fs2 else fs2, Inr ()))"

definition swap_directory :: "runner_env \<Rightarrow> string" where
  "swap_directory env = path_join (xr_state_dir env) ''cache-swaps''"

definition backup_name :: "runner_env \<Rightarrow> time \<Rightarrow> string \<Rightarrow> string" where
  "backup_name env now r = r @ ''.old_repoplane_cache_'' @ xr_stamp env now"

definition swap_marker :: "runner_env \<Rightarrow> string \<Rightarrow> string" where
  "swap_marker env stage = path_join (swap_directory env) (path_base stage @ ''.json'')"

text \<open>\<open>name\<close> is the name that \<open>MkdirTemp\<close> chooses.\<close>

definition materialize_isolated_root ::
    "runner_env \<Rightarrow> time \<Rightarrow> string \<Rightarrow> string \<Rightarrow> cache_output list \<Rightarrow> files \<Rightarrow> files \<times> (go_error + unit)" where
  "materialize_isolated_root env now name isolated outputs fs =
     (case resolve_for_lookup (xr_os env) (xr_root env) isolated of
        Inl e \<Rightarrow> (fs, Inl e)
      | Inr (r, _) \<Rightarrow>
          if \<not> same_path r (path_join (rt_root_resolved (xr_root env)) isolated)
          then (fs, Inl (Text ''isolated root may not traverse a link''))
          else (case fault_of env ''create'' (dir_of r) of
              Inl e \<Rightarrow> (fs, Inl e)
            | Inr _ \<Rightarrow>
                (let stage = path_join (dir_of r) name
                 in case stage_outputs env stage (trim_suffix isolated ''/'' @ ''/'') outputs fs of
                      (fs1, Inl e) \<Rightarrow> (remove_tree env stage fs1, Inl e)
                    | (fs1, Inr _) \<Rightarrow>
                        (let backup = backup_name env now r; marker = swap_marker env stage
                         in case try_then (fault_of env ''mkdir'' (swap_directory env)) (\<lambda>_. fault_of env ''write'' marker) of
                              Inl e \<Rightarrow> (remove_tree env stage fs1, Inl e)
                            | Inr _ \<Rightarrow>
                                (case swap_roots env r backup stage (map_put marker (Regular (xr_encode_marker env (r, backup))) fs1) of
                                   (fs2, result) \<Rightarrow> (remove_tree env stage (remove_file env marker fs2), result))))))"

section \<open>Recovery\<close>

definition swap_within :: "string \<Rightarrow> string \<Rightarrow> bool" where
  "swap_within r candidate \<longleftrightarrow> (case path_rel r candidate of
      None \<Rightarrow> False
    | Some rel \<Rightarrow> rel \<noteq> ''.'' \<and> rel \<noteq> ''..'' \<and> \<not> is_abs rel \<and> \<not> has_prefix rel ''../'')"

definition marker_ok :: "runner_env \<Rightarrow> string \<times> string \<Rightarrow> bool" where
  "marker_ok env m \<longleftrightarrow> (case m of (r, backup) \<Rightarrow>
     swap_within (rt_root_resolved (xr_root env)) r \<and> swap_within (rt_root_resolved (xr_root env)) backup \<and>
     dir_of r = dir_of backup \<and> contains_str (path_base backup) ''.old_repoplane_cache_'')"

definition recover_swap :: "runner_env \<Rightarrow> string \<times> string \<Rightarrow> files \<Rightarrow> files" where
  "recover_swap env m fs = (case m of (r, backup) \<Rightarrow>
     case (lstat_path env fs r, lstat_path env fs backup) of
       (LstatMissing, LstatFound) \<Rightarrow> if rename_refused env fs backup r then fs else move_tree backup r fs
     | (LstatFound, LstatFound) \<Rightarrow> remove_tree env backup fs
     | _ \<Rightarrow> fs)"

definition recover_entry :: "runner_env \<Rightarrow> string \<Rightarrow> files \<Rightarrow> files" where
  "recover_entry env path fs =
     (case read_file fs path of
        Inl _ \<Rightarrow> fs
      | Inr data \<Rightarrow> (case xr_decode_marker env data of
            None \<Rightarrow> fs
          | Some m \<Rightarrow> if \<not> marker_ok env m then fs else remove_file env path (recover_swap env m fs)))"

definition dir_names :: "files \<Rightarrow> string \<Rightarrow> string list" where
  "dir_names fs d = sort (remdups (map (\<lambda>p. takeWhile (\<lambda>c. c \<noteq> CHR ''/'') (drop (Suc (length d)) p)) (filter (under d) (map fst fs))))"

fun recover_entries :: "runner_env \<Rightarrow> (string \<Rightarrow> bool) \<Rightarrow> string \<Rightarrow> nat \<Rightarrow> string list \<Rightarrow> files \<Rightarrow> files" where
  "recover_entries env is_dir d k [] fs = fs"
| "recover_entries env is_dir d k (name # rest) fs =
     (if 64 \<le> k \<or> is_dir name \<or> \<not> has_suffix name ''.json'' then fs
      else recover_entries env is_dir d (Suc k) rest (recover_entry env (path_join d name) fs))"

definition recover_cache_swaps :: "runner_env \<Rightarrow> files \<Rightarrow> files" where
  "recover_cache_swaps env fs =
     (let d = swap_directory env in
      if refused env ''readdir'' d then fs
      else recover_entries env (\<lambda>name. tree_found fs (path_join d name)) d 0 (dir_names fs d) fs)"

text \<open>The files a crash leaves once the marker is written, \<open>fs\<close> being those just after it; the removal of the
  backup may stop anywhere.\<close>

inductive swap_crash :: "string \<Rightarrow> string \<Rightarrow> string \<Rightarrow> files \<Rightarrow> files \<Rightarrow> bool" for r backup stage fs where
  marked: "swap_crash r backup stage fs fs"
| backed_up: "tree_found fs r \<Longrightarrow> swap_crash r backup stage fs (move_tree r backup fs)"
| installed: "swap_crash r backup stage fs (move_tree stage r (if tree_found fs r then move_tree r backup fs else fs))"
| cleaning: "tree_found fs r \<Longrightarrow>
    swap_crash r backup stage fs (filter (\<lambda>(p, n). under backup p \<longrightarrow> keep p) (move_tree stage r (move_tree r backup fs)))"

section \<open>Lookup after moving and removing trees\<close>

definition apart :: "string \<Rightarrow> string \<Rightarrow> bool" where
  "apart a b \<longleftrightarrow> a \<noteq> b \<and> \<not> under a b \<and> \<not> under b a"

lemma apart_sym: "apart a b \<Longrightarrow> apart b a"
  by (auto simp: apart_def)

lemma under_iff: "under a p \<longleftrightarrow> (\<exists>rel. p = a @ ''/'' @ rel)"
  by (simp add: under_def has_prefix_iff)

lemma apart_under:
  assumes "apart a b" "under a p"
  shows "\<not> under b p" "p \<noteq> b"
proof -
  show "\<not> under b p"
  proof
    assume "under b p"
    then obtain y where y: "p = b @ ''/'' @ y" by (auto simp: under_iff)
    obtain x where "p = a @ ''/'' @ x" using assms(2) by (auto simp: under_iff)
    with y have e: "a @ ''/'' @ x = b @ ''/'' @ y" by simp
    obtain us where us: "a = b @ us \<and> us @ ''/'' @ x = ''/'' @ y \<or> a @ us = b \<and> ''/'' @ x = us @ ''/'' @ y"
      using e append_eq_append_conv2 [of a "''/'' @ x" b "''/'' @ y"] by blast
    have "a = b \<or> under a b \<or> under b a"
      using us by (cases us) (auto simp: under_iff)
    with assms(1) show False by (auto simp: apart_def)
  qed
  show "p \<noteq> b" using assms by (auto simp: apart_def)
qed

lemma tree_found_iff: "tree_found fs a \<longleftrightarrow> (\<exists>p \<in> fst ` set fs. under a p)"
  by (force simp: tree_found_def list_ex_iff)

lemma tree_found_map: "tree_found fs a \<longleftrightarrow> (\<exists>p. under a p \<and> map_of fs p \<noteq> None)"
  by (auto simp: tree_found_iff map_of_eq_None_iff)

lemma map_of_filter_key: "map_of (filter (\<lambda>(p, n). Q p) fs) p = (if Q p then map_of fs p else None)"
  by (induction fs) auto

lemma drop_tree_lookup: "map_of (drop_tree a fs) p = (if p = a \<or> under a p then None else map_of fs p)"
  using map_of_filter_key [of "\<lambda>p. p \<noteq> a \<and> \<not> under a p" fs p] by (simp add: drop_tree_def)

lemma move_tree_lookup:
  assumes "apart a b" "\<not> tree_found fs b"
  shows "map_of (move_tree a b fs) p =
    (if under b p then map_of fs (a @ drop (length b) p) else if under a p then None else map_of fs p)"
  using assms(2)
proof (induction fs)
  case Nil
  then show ?case by (simp add: move_tree_def)
next
  case (Cons x fs)
  obtain q n where x: "x = (q, n)" by (cases x)
  from Cons.prems have q: "\<not> under b q" and rest: "\<not> tree_found fs b" by (simp_all add: tree_found_def x)
  have IH: "map_of (move_tree a b fs) p =
    (if under b p then map_of fs (a @ drop (length b) p) else if under a p then None else map_of fs p)"
    by (rule Cons.IH [OF rest])
  have step: "move_tree a b (x # fs) = (if under a q then b @ drop (length a) q else q, n) # move_tree a b fs"
    by (simp add: move_tree_def x)
  show ?case
  proof (cases "under a q")
    case True
    then obtain rel where rel: "q = a @ ''/'' @ rel" by (auto simp: under_iff)
    have moved: "move_tree a b (x # fs) = (b @ ''/'' @ rel, n) # move_tree a b fs" using step True rel by simp
    have key: "p = b @ ''/'' @ rel \<longleftrightarrow> under b p \<and> q = a @ drop (length b) p" by (auto simp: under_iff rel)
    have other: "\<not> under a (b @ ''/'' @ rel)"
      using apart_under(1) [OF apart_sym [OF assms(1)], of "b @ ''/'' @ rel"] by (auto simp: under_iff)
    show ?thesis
    proof (cases "p = b @ ''/'' @ rel")
      case True
      with key have k: "under b p" "q = a @ drop (length b) p" by auto
      have "map_of (move_tree a b (x # fs)) p = Some n" by (simp add: moved True)
      moreover have "map_of (x # fs) (a @ drop (length b) p) = Some n" using k(2) by (simp add: x)
      ultimately show ?thesis using k(1) by simp
    next
      case False
      then have "map_of (move_tree a b (x # fs)) p = map_of (move_tree a b fs) p" by (simp add: moved)
      moreover have "under b p \<Longrightarrow> map_of (x # fs) (a @ drop (length b) p) = map_of fs (a @ drop (length b) p)"
        using key False by (auto simp: x)
      moreover have "\<not> under b p \<Longrightarrow> \<not> under a p \<Longrightarrow> map_of (x # fs) p = map_of fs p" using True by (auto simp: x)
      ultimately show ?thesis using IH by simp
    qed
  next
    case False
    have moved: "move_tree a b ((q, n) # fs) = (q, n) # move_tree a b fs" using step False unfolding x by simp
    have "under b p \<Longrightarrow> q \<noteq> a @ drop (length b) p" using False by (auto simp: under_iff)
    then show ?thesis using IH False q unfolding x moved by auto
  qed
qed

lemma subtree_found: "tree_found fs a \<longleftrightarrow> (\<exists>rel. subtree fs a rel \<noteq> None)"
  by (auto simp: tree_found_map subtree_def under_iff)

lemma move_subtree:
  assumes "apart a b" "\<not> tree_found fs b"
  shows "subtree (move_tree a b fs) b = subtree fs a" "subtree (move_tree a b fs) a = (\<lambda>rel. None)"
    "apart c a \<Longrightarrow> apart c b \<Longrightarrow> subtree (move_tree a b fs) c = subtree fs c"
    "\<not> under a p \<Longrightarrow> \<not> under b p \<Longrightarrow> map_of (move_tree a b fs) p = map_of fs p"
proof -
  note look = move_tree_lookup [OF assms]
  have u: "under x (x @ ''/'' @ rel)" for x rel by (simp add: under_iff)
  show "subtree (move_tree a b fs) b = subtree fs a" by (rule ext) (simp add: subtree_def look under_def has_prefix_iff)
  have "\<not> under b (a @ ''/'' @ rel)" for rel by (rule apart_under(1) [OF assms(1) u])
  then show "subtree (move_tree a b fs) a = (\<lambda>rel. None)" using u by (auto simp: subtree_def look)
  show "subtree (move_tree a b fs) c = subtree fs c" if "apart c a" "apart c b"
    using apart_under(1) [OF that(1) u] apart_under(1) [OF that(2) u] by (auto simp: subtree_def look)
  show "\<not> under a p \<Longrightarrow> \<not> under b p \<Longrightarrow> map_of (move_tree a b fs) p = map_of fs p" by (simp add: look)
qed

section \<open>What a crash leaves, and what the restart makes of it\<close>

text \<open>The root, its backup and the stage are siblings, apart from the directory of markers, and the marker is
  named by the stage.\<close>

definition swap_layout :: "runner_env \<Rightarrow> string \<Rightarrow> string \<Rightarrow> string \<Rightarrow> bool" where
  "swap_layout env r backup stage \<longleftrightarrow> apart r backup \<and> apart r stage \<and> apart backup stage \<and>
     apart (swap_directory env) r \<and> apart (swap_directory env) backup \<and> apart (swap_directory env) stage \<and>
     marker_ok env (r, backup) \<and> CHR ''/'' \<notin> set (path_base stage) \<and>
     swap_marker env stage = swap_directory env @ ''/'' @ path_base stage @ ''.json''"

definition swap_started :: "runner_env \<Rightarrow> string \<Rightarrow> string \<Rightarrow> string \<Rightarrow> files \<Rightarrow> bool" where
  "swap_started env r backup stage fs \<longleftrightarrow>
     map_of fs (swap_marker env stage) = Some (Regular (xr_encode_marker env (r, backup))) \<and>
     map_of fs r = None \<and> map_of fs backup = None \<and> \<not> tree_found fs backup \<and> tree_found fs stage"

text \<open>The marker is the only entry of the directory of markers; recovery stops at the first entry that is no marker.\<close>

definition only_marker :: "runner_env \<Rightarrow> string \<Rightarrow> files \<Rightarrow> bool" where
  "only_marker env stage fs \<longleftrightarrow> (\<forall>p \<in> fst ` set fs. under (swap_directory env) p \<longrightarrow> p = swap_marker env stage)"

lemma sibling_free: "apart a b \<Longrightarrow> \<not> under a (b @ CHR ''/'' # rel)"
  using apart_under(1) [OF apart_sym, of a b "b @ ''/'' @ rel"] by (auto simp: under_iff)

lemma swap_crash_shape:
  assumes "swap_layout env r b g" "swap_started env r b g fs" "swap_crash r b g fs fs'"
  shows "\<not> under r p \<Longrightarrow> \<not> under b p \<Longrightarrow> \<not> under g p \<Longrightarrow> map_of fs' p = map_of fs p"
    "subtree fs' r = subtree fs r \<and> \<not> tree_found fs' b \<or>
     \<not> tree_found fs' r \<and> subtree fs' b = subtree fs r \<and> tree_found fs r \<or> subtree fs' r = subtree fs g"
proof -
  have ap: "apart r b" "apart r g" "apart b g" using assms(1) by (simp_all add: swap_layout_def)
  note ap' = ap [THEN apart_sym]
  have nb: "\<not> tree_found fs b" using assms(2) by (simp add: swap_started_def)
  note mv = move_subtree [OF ap(1) nb]
  have nr: "\<not> tree_found (move_tree r b fs) r" by (simp add: subtree_found mv(2))
  note mg = move_subtree [OF ap'(2) nr]
  have sg: "subtree (move_tree r b fs) g = subtree fs g" by (rule mv(3) [OF ap'(2) ap'(3)])
  have cases: "fs' = fs \<or> fs' = move_tree r b fs \<and> tree_found fs r \<or>
      (\<exists>f Q. fs' = filter (\<lambda>(p, n). under b p \<longrightarrow> Q p) (move_tree g r f) \<and> (f = fs \<and> \<not> tree_found fs r \<or> f = move_tree r b fs))"
    using assms(3)
  proof cases
    case installed
    then show ?thesis
      by (intro disjI2 exI [of _ "if tree_found fs r then move_tree r b fs else fs"] exI [of _ "\<lambda>_. True"]) simp
  next
    case (cleaning keep)
    then show ?thesis by blast
  qed auto
  have filtered: "map_of (filter (\<lambda>(p, n). under b p \<longrightarrow> Q p) f) p = (if under b p \<longrightarrow> Q p then map_of f p else None)" for f Q p
    by (rule map_of_filter_key)
  show "map_of fs' p = map_of fs p" if "\<not> under r p" "\<not> under b p" "\<not> under g p"
    using cases
  proof (elim disjE exE conjE)
    fix f Q assume f: "fs' = filter (\<lambda>(p, n). under b p \<longrightarrow> Q p) (move_tree g r f)" "f = fs" "\<not> tree_found fs r"
    show ?thesis using that by (simp add: f(1,2) filtered move_subtree(4) [OF ap'(2) f(3)])
  next
    fix f Q assume f: "fs' = filter (\<lambda>(p, n). under b p \<longrightarrow> Q p) (move_tree g r f)" "f = move_tree r b fs"
    show ?thesis using that by (simp add: f filtered mg(4) mv(4))
  qed (use that mv(4) in simp_all)
  have keep_r: "subtree (filter (\<lambda>(p, n). under b p \<longrightarrow> Q p) f) r = subtree f r" for f Q
    by (rule ext) (simp add: subtree_def filtered sibling_free [OF ap'(1)])
  show "subtree fs' r = subtree fs r \<and> \<not> tree_found fs' b \<or>
     \<not> tree_found fs' r \<and> subtree fs' b = subtree fs r \<and> tree_found fs r \<or> subtree fs' r = subtree fs g"
    using cases
  proof (elim disjE exE conjE)
    assume "fs' = fs" then show ?thesis using nb by simp
  next
    assume "fs' = move_tree r b fs" "tree_found fs r" then show ?thesis using nr mv(1) by simp
  next
    fix f Q assume f: "fs' = filter (\<lambda>(p, n). under b p \<longrightarrow> Q p) (move_tree g r f)" "f = fs" "\<not> tree_found fs r"
    then show ?thesis using move_subtree(1) [OF ap'(2) f(3)] by (simp add: keep_r)
  next
    fix f Q assume f: "fs' = filter (\<lambda>(p, n). under b p \<longrightarrow> Q p) (move_tree g r f)" "f = move_tree r b fs"
    then show ?thesis using mg(1) sg by (simp add: keep_r)
  qed
qed

lemma sole_marker:
  assumes "\<And>p. under d p \<Longrightarrow> map_of fs p \<noteq> None \<Longrightarrow> p = d @ ''/'' @ name" "map_of fs (d @ ''/'' @ name) \<noteq> None"
    "CHR ''/'' \<notin> set name"
  shows "dir_names fs d = [name]"
proof -
  let ?f = "\<lambda>p. takeWhile (\<lambda>c. c \<noteq> CHR ''/'') (drop (Suc (length d)) p)"
  have "p \<in> fst ` set fs \<and> under d p \<longleftrightarrow> p = d @ ''/'' @ name" for p
    using assms(1) [of p] assms(2) by (auto simp: map_of_eq_None_iff under_iff)
  then have "set (filter (under d) (map fst fs)) = {d @ ''/'' @ name}" by auto
  then have "set (map ?f (filter (under d) (map fst fs))) = {?f (d @ ''/'' @ name)}" by simp
  also have "?f (d @ ''/'' @ name) = name" using assms(3) by (auto simp: takeWhile_eq_all_conv)
  finally have one: "set (map ?f (filter (under d) (map fst fs))) = {name}" .
  let ?r = "remdups (map ?f (filter (under d) (map fst fs)))"
  have r: "set ?r = {name}" "distinct ?r" using one by simp_all
  have "length ?r = 1" using distinct_card [OF r(2)] unfolding r(1) by simp
  then obtain x where "?r = [x]" by (cases ?r) auto
  with r(1) have "?r = [name]" by auto
  then show ?thesis unfolding dir_names_def by simp
qed

lemma subtree_None: "\<not> tree_found fs a \<Longrightarrow> subtree fs a rel = None"
  by (auto simp: subtree_found)

lemma recover_swap_shape:
  assumes "apart r b" "xr_fault env = (\<lambda>_ _. None)" "map_of fs r = None" "map_of fs b = None"
  shows "tree_found fs r \<Longrightarrow> recover_swap env (r, b) fs = (if tree_found fs b then drop_tree b fs else fs)"
    "\<not> tree_found fs r \<Longrightarrow> recover_swap env (r, b) fs = (if tree_found fs b then move_tree b r fs else fs)"
  using assms by (auto simp: recover_swap_def lstat_path_def rename_refused_def refused_def remove_tree_def)

lemma recover_swap_result:
  assumes ap: "apart r b" and nf: "xr_fault env = (\<lambda>_ _. None)" and no: "map_of fs r = None" "map_of fs b = None"
  shows "\<not> tree_found (recover_swap env (r, b) fs) b"
    "subtree (recover_swap env (r, b) fs) r = (if tree_found fs r then subtree fs r else subtree fs b)"
    "\<not> under r p \<Longrightarrow> \<not> under b p \<Longrightarrow> map_of (recover_swap env (r, b) fs) p = map_of fs p"
proof -
  note shape = recover_swap_shape [OF ap nf no]
  have dropped: "subtree (drop_tree b fs) b rel = None" "subtree (drop_tree b fs) r rel = subtree fs r rel" for rel
    using sibling_free [OF apart_sym [OF ap]] ap
    by (auto simp: subtree_def drop_tree_lookup under_iff apart_def)
  have dropped_p: "\<not> under b p \<Longrightarrow> map_of (drop_tree b fs) p = map_of fs p" for p
    using no(2) by (auto simp: drop_tree_lookup)
  note mv = move_subtree [OF apart_sym [OF ap]]
  show "\<not> tree_found (recover_swap env (r, b) fs) b"
    by (cases "tree_found fs r") (auto simp: shape subtree_found [of "drop_tree b fs"] subtree_found [of "move_tree b r fs"] dropped mv(2))
  show "subtree (recover_swap env (r, b) fs) r = (if tree_found fs r then subtree fs r else subtree fs b)"
    using mv(1) dropped by (auto simp: shape subtree_None)
  show "map_of (recover_swap env (r, b) fs) p = map_of fs p" if "\<not> under r p" "\<not> under b p"
    using that mv(4) dropped_p by (cases "tree_found fs r") (auto simp: shape)
qed

lemma recover_sole_marker:
  assumes "xr_fault env = (\<lambda>_ _. None)" "swap_layout env r b g" "xr_decode_marker env (xr_encode_marker env (r, b)) = Some (r, b)"
    "map_of fs (swap_marker env g) = Some (Regular (xr_encode_marker env (r, b)))"
    "\<And>p. under (swap_directory env) p \<Longrightarrow> map_of fs p \<noteq> None \<Longrightarrow> p = swap_marker env g"
  shows "recover_cache_swaps env fs = map_del (swap_marker env g) (recover_swap env (r, b) fs)"
proof -
  let ?d = "swap_directory env" and ?n = "path_base g @ ''.json''"
  have m: "swap_marker env g = ?d @ ''/'' @ ?n" "path_join ?d ?n = ?d @ ''/'' @ ?n" "CHR ''/'' \<notin> set ?n"
    using assms(2) by (simp_all add: swap_layout_def swap_marker_def)
  have names: "dir_names fs ?d = [?n]"
    by (rule sole_marker) (use assms(4,5) m in auto)
  have "\<not> under (swap_marker env g) p \<or> map_of fs p = None" for p
  proof (cases "under (swap_marker env g) p")
    case True
    then have "under ?d p" "p \<noteq> swap_marker env g" by (auto simp: under_iff m(1))
    with assms(5) show ?thesis by blast
  qed simp
  then have nd: "\<not> tree_found fs (?d @ ''/'' @ ?n)" unfolding m(1) [symmetric] by (auto simp: tree_found_map)
  have js: "has_suffix ?n ''.json''" by (simp add: has_suffix_def has_prefix_def)
  have rd: "read_file fs (?d @ ''/'' @ ?n) = Inr (xr_encode_marker env (r, b))" using assms(4) by (simp add: read_file_def m(1))
  have nf: "\<not> refused env op x" for op x by (simp add: refused_def assms(1))
  have ok: "marker_ok env (r, b)" using assms(2) by (simp add: swap_layout_def)
  have e: "recover_entry env (?d @ ''/'' @ ?n) fs = map_del (?d @ ''/'' @ ?n) (recover_swap env (r, b) fs)"
    unfolding recover_entry_def rd sum.case assms(3) option.case remove_file_def using ok nf by simp
  show ?thesis
    unfolding recover_cache_swaps_def Let_def names m(1) recover_entries.simps m(2) using nd js nf e by simp
qed

text \<open>The main lemma: whatever the crash left, a restart leaves the old root or the new one, no backup and no marker.\<close>

lemma swap_recovered:
  assumes nf: "xr_fault env = (\<lambda>_ _. None)" and lay: "swap_layout env r b g"
    and dec: "xr_decode_marker env (xr_encode_marker env (r, b)) = Some (r, b)"
    and st: "swap_started env r b g fs" and sole: "only_marker env g fs" and cr: "swap_crash r b g fs fs'"
  defines "fin \<equiv> recover_cache_swaps env fs'"
  shows "subtree fin r = subtree fs r \<or> subtree fin r = subtree fs g" "\<not> tree_found fin b"
    "map_of fin (swap_marker env g) = None"
    "\<lbrakk>\<not> under r p; \<not> under b p; \<not> under g p; p \<noteq> swap_marker env g\<rbrakk> \<Longrightarrow> map_of fin p = map_of fs p"
proof -
  let ?m = "swap_marker env g" and ?d = "swap_directory env"
  have ap: "apart r b" "apart r g" "apart b g" "apart ?d r" "apart ?d b" "apart ?d g"
    using lay by (simp_all add: swap_layout_def)
  have md: "under ?d ?m" using lay by (auto simp: swap_layout_def under_iff)
  have out: "\<not> under r p" "\<not> under b p" "\<not> under g p" if "under ?d p" for p
    using that apart_under(1) ap(4-6) by blast+
  note same = swap_crash_shape(1) [OF lay st cr]
  have m: "map_of fs' ?m = Some (Regular (xr_encode_marker env (r, b)))"
    using same [OF out [OF md]] st by (simp add: swap_started_def)
  have only: "p = ?m" if "under ?d p" "map_of fs' p \<noteq> None" for p
    using that same [OF out [OF that(1)]] sole by (auto simp: only_marker_def map_of_eq_None_iff)
  have self: "\<not> under x x" for x by (auto simp: under_iff)
  have nr: "map_of fs' r = None"
    using same [of r] self ap st by (auto simp: apart_def swap_started_def)
  have nb: "map_of fs' b = None"
    using same [of b] self ap st by (auto simp: apart_def swap_started_def)
  have fin: "fin = map_del ?m (recover_swap env (r, b) fs')"
    unfolding fin_def by (rule recover_sole_marker [OF nf lay dec m only])
  note res = recover_swap_result [OF ap(1) nf nr nb]
  have look: "map_of fin p = (if p = ?m then None else map_of (recover_swap env (r, b) fs') p)" for p
    by (simp add: fin)
  have mr: "?m \<noteq> r @ CHR ''/'' # rel" "?m \<noteq> b @ CHR ''/'' # rel" for rel
    using out [OF md] by (auto simp: under_iff)
  have sub: "subtree fin r = subtree (recover_swap env (r, b) fs') r"
    by (rule ext) (simp add: subtree_def look mr(1) [THEN not_sym])
  show "subtree fin r = subtree fs r \<or> subtree fin r = subtree fs g"
    using swap_crash_shape(2) [OF lay st cr]
  proof (elim disjE conjE)
    assume e: "subtree fs' r = subtree fs r" "\<not> tree_found fs' b"
    show ?thesis
    proof (cases "tree_found fs' r")
      case True
      then show ?thesis unfolding sub res(2) using e(1) by simp
    next
      case False
      have "subtree fs' b = subtree fs' r" by (rule ext) (simp add: subtree_None e(2) False)
      then show ?thesis unfolding sub res(2) using False e(1) by simp
    qed
  next
    assume "\<not> tree_found fs' r" "subtree fs' b = subtree fs r"
    then show ?thesis unfolding sub res(2) by simp
  next
    assume e: "subtree fs' r = subtree fs g"
    have "tree_found fs g" using st by (simp add: swap_started_def)
    then have "tree_found fs' r" unfolding subtree_found e .
    then show ?thesis unfolding sub res(2) using e by simp
  qed
  have "subtree fin b = subtree (recover_swap env (r, b) fs') b"
    by (rule ext) (simp add: subtree_def look mr(2) [THEN not_sym])
  with res(1) show "\<not> tree_found fin b" by (simp add: subtree_found)
  show "map_of fin ?m = None" by (simp add: look)
  show "\<lbrakk>\<not> under r p; \<not> under b p; \<not> under g p; p \<noteq> ?m\<rbrakk> \<Longrightarrow> map_of fin p = map_of fs p"
    using same res(3) by (simp add: look)
qed

end
