(* ===== verification/RunnerExecute.thy ===== *)
theory RunnerExecute
  imports RunnerSwap
begin

text \<open>
  Plans and runs, \<open>Prepare\<close> of \<open>internal/runner/service.go\<close> and \<open>internal/runner/execute.go\<close>: a plan is
  a stored run record, its execution re-checks everything it was prepared from, starts a process or reuses an
  earlier result, and a goroutine (\<open>wait_for_run\<close>) records the end of the process. The catalog, the identifiers
  drawn, the clock and what the process does are arguments; deadlines are not modelled, and \<open>None\<close> means that
  \<open>replace_fold\<close> has used up its fuel.
\<close>

section \<open>Run records\<close>

definition maximum_plan :: int where "maximum_plan = 64 * 1024"

definition observed_record :: "runner_env \<Rightarrow> time \<Rightarrow> string \<Rightarrow> string \<Rightarrow> string \<Rightarrow> string \<Rightarrow> string list \<Rightarrow> durable" where
  "observed_record env now i kind schema payload evidence =
     \<lparr>du_id = i, du_kind = kind, du_schema_version = schema, du_project = xr_id env, du_workspace = xr_id env,
      du_revision = 1, du_source = ''observed'', du_writer_class = ''server'', du_validity = ''current'',
      du_created_at = now, du_updated_at = now, du_payload = payload, du_evidence = evidence, du_supersedes = []\<rparr>"

definition hex_digit :: "char \<Rightarrow> bool" where
  "hex_digit c \<longleftrightarrow> c \<in> set ''0123456789abcdef''"

definition valid_record_id :: "string \<Rightarrow> string \<Rightarrow> bool" where
  "valid_record_id i pre \<longleftrightarrow> has_prefix i pre \<and> length i = length pre + 32 \<and> list_all hex_digit (drop (length pre) i)"

definition valid_run_id :: "string \<Rightarrow> bool" where "valid_run_id i = valid_record_id i ''run_''"
definition valid_artifact_id :: "string \<Rightarrow> bool" where "valid_artifact_id i = valid_record_id i ''artifact_''"

definition load_run :: "runner_env \<Rightarrow> record_db \<Rightarrow> string \<Rightarrow> go_error + (durable \<times> run_payload)" where
  "load_run env db i =
     try_then (get_record (xr_id env) (xr_id env) i db) (\<lambda>r.
       if du_kind r \<noteq> ''run'' \<or> du_writer_class r \<noteq> ''server'' then Inl (Sentinel StoreNotFound)
       else case xr_decode env (du_payload r) of None \<Rightarrow> Inl (Text ''decode run payload'') | Some p \<Rightarrow> Inr (r, p))"

definition update_run ::
    "runner_env \<Rightarrow> time \<Rightarrow> durable \<Rightarrow> run_payload \<Rightarrow> string \<Rightarrow> record_db \<Rightarrow> record_db \<times> (go_error + durable)" where
  "update_run env now r p validity db =
     (let encoded = xr_encode env p in
      if maximum_plan < int (length encoded) then (db, Inl runner_limit)
      else update_observation (xr_json env) now ''run''
        \<lparr>ru_project = xr_id env, ru_workspace = xr_id env, ru_id = du_id r, ru_expected = du_revision r,
         ru_payload = encoded, ru_evidence = du_evidence r, ru_validity = validity, ru_supersedes = []\<rparr> db)"

section \<open>Preparation\<close>

record prepare_request =
  pq_capability :: string
  pq_revision :: string
  pq_arguments :: "(string, argument_value) gomap"
  pq_configuration :: string
  pq_cache_mode :: string
  pq_time_limit :: u64

record prepared_plan =
  pd_argv :: "string list"
  pd_arguments :: "(string, argument_value) gomap"
  pd_cwd :: string
  pd_identity :: string
  pd_checks :: "preflight_result list"
  pd_ready :: bool
  pd_warnings :: "warning list"
  pd_inputs :: "(string, string) gomap"
  pd_outputs :: "(string, string) gomap"

record plan_result =
  pn_id :: string
  pn_capability :: string
  pn_revision :: string
  pn_configuration :: string
  pn_argv :: "string list"
  pn_cwd :: string
  pn_identity :: string
  pn_inputs :: "(string, string) gomap option"
  pn_input_count :: nat
  pn_outputs :: "string list"
  pn_preflight :: string
  pn_ready :: bool
  pn_timeout :: nat
  pn_prepared_at :: time
  pn_fingerprint :: string
  pn_cache :: cache_decision

record prepare_response =
  ps_status :: status
  ps_plan :: plan_result
  ps_checks :: "preflight_result list"
  ps_warnings :: "warning list"

definition time_request :: "u64 \<Rightarrow> limit_request" where
  "time_request ms = \<lparr>lr_item_limit = 0, lr_byte_limit = 0, lr_time_limit_ms = ms\<rparr>"

fun check_project_paths ::
    "runner_env \<Rightarrow> (string, argument) gomap \<Rightarrow> (string, argument_value) gomap \<Rightarrow> go_error + unit" where
  "check_project_paths env [] values = Inr ()"
| "check_project_paths env ((name, a) # rest) values =
     (if ar_type a \<noteq> ''project_path'' \<or> map_of values name = None then check_project_paths env rest values
      else let path = alias_argument values name in
        if is_abs path then Inl (Text ''project_path argument must be workspace-relative'')
        else try_then (resolve_for_lookup (xr_os env) (xr_root env) path) (\<lambda>_. check_project_paths env rest values))"

definition trusted_execution :: "manifest \<Rightarrow> bool" where
  "trusted_execution m = (case mf_execution m of None \<Rightarrow> False | Some x \<Rightarrow> ex_trusted x)"

definition executable_of :: "manifest \<Rightarrow> string" where
  "executable_of m = (case mf_execution m of None \<Rightarrow> [] | Some x \<Rightarrow> ex_executable x)"

definition cwd_of :: "manifest \<Rightarrow> string" where
  "cwd_of m = (case mf_execution m of None \<Rightarrow> [] | Some x \<Rightarrow> ex_cwd x)"

text \<open>Lines 176 to 220: the arguments and everything observed for the plan.\<close>

definition prepare_checked ::
    "runner_env \<Rightarrow> nat \<Rightarrow> manifest \<Rightarrow> (string, argument_value) gomap \<Rightarrow> record_db \<Rightarrow> files \<Rightarrow> (go_error + prepared_plan) option" where
  "prepare_checked env fuel m given db fs =
     (if \<not> trusted_execution m then Some (Inl (Sentinel RunnerNotExecutable))
      else then_run (Some (expand_arguments (xr_lower env) m given)) (\<lambda>(argv, values).
      then_run (Some (check_project_paths env (mf_arguments m) values)) (\<lambda>_.
      then_run (Some (resolve_executable env fs (executable_of m))) (\<lambda>(executable, identity).
      then_run (Some (resolve_cwd env (cwd_of m))) (\<lambda>(cwd, relative).
      then_run (preflight env fs fuel m executable identity cwd) (\<lambda>(checks, ready, warnings).
      then_run (Some (snapshot_patterns env fs (mf_inputs m) ''inputs'')) (\<lambda>inputs.
      then_run (Some (snapshot_patterns env fs (mf_outputs m) ''outputs'')) (\<lambda>outputs.
        (let (hosts, notes) = host_fact_checks env m values db in
         Some (Inr \<lparr>pd_argv = argv, pd_arguments = values, pd_cwd = relative, pd_identity = identity, pd_checks = checks @ hosts,
           pd_ready = ready, pd_warnings = warnings @ notes, pd_inputs = inputs, pd_outputs = outputs\<rparr>))))))))))"

definition plan_payload ::
    "capability \<Rightarrow> string \<Rightarrow> prepared_plan \<Rightarrow> string \<Rightarrow> cache_decision \<Rightarrow> (string, string) gomap \<Rightarrow> time \<Rightarrow> run_payload" where
  "plan_payload cb configuration d preflight_id decision identities now =
     (let m = cb_manifest cb; timeout = (case mf_execution m of None \<Rightarrow> 0 | Some x \<Rightarrow> unat (ex_timeout_sec x));
          mode = (case mf_execution m of None \<Rightarrow> [] | Some x \<Rightarrow> ex_artifact_mode x) in
      \<lparr>py_state = ''prepared'', py_capability = mf_id m, py_capability_revision = cb_revision cb,
       py_configuration = configuration, py_arguments = pd_arguments d, py_argv = pd_argv d, py_cwd = pd_cwd d,
       py_executable = executable_of m, py_executable_identity = pd_identity d, py_fingerprint = cb_execution_fingerprint cb,
       py_cache = decision, py_key_checks = identities, py_inputs = pd_inputs d, py_outputs = mf_outputs m,
       py_outputs_before = pd_outputs d, py_outputs_after = [], py_preflight = ''record:'' @ preflight_id,
       py_ready = pd_ready d, py_timeout = (if timeout = 0 then 300 else timeout),
       py_artifact_mode = (if mode = [] then ''metadata'' else mode), py_prepared_at = now, py_started_at = None,
       py_finished_at = None, py_exit = None, py_termination = [], py_stdout_bytes = 0, py_stderr_bytes = 0,
       py_stdout_truncated = False, py_stderr_truncated = False, py_artifacts = [], py_partial = False, py_streams = False\<rparr>)"

definition plan_of :: "string \<Rightarrow> run_payload \<Rightarrow> plan_result" where
  "plan_of i p = \<lparr>pn_id = i, pn_capability = py_capability p, pn_revision = py_capability_revision p,
     pn_configuration = py_configuration p, pn_argv = py_argv p, pn_cwd = py_cwd p, pn_identity = py_executable_identity p,
     pn_inputs = Some (py_inputs p), pn_input_count = length (py_inputs p), pn_outputs = py_outputs p,
     pn_preflight = py_preflight p, pn_ready = py_ready p, pn_timeout = py_timeout p, pn_prepared_at = py_prepared_at p,
     pn_fingerprint = py_fingerprint p, pn_cache = py_cache p\<rparr>"

text \<open>Lines 221 to 294: the cache decision, the environment record and the run record. \<open>ids\<close> are the two identifiers
  drawn, absent when the random source fails.\<close>

definition prepare_records ::
    "runner_env \<Rightarrow> time \<Rightarrow> qualifier \<Rightarrow> capability \<Rightarrow> string \<Rightarrow> string \<Rightarrow> string option \<times> string option \<Rightarrow> prepared_plan \<Rightarrow>
     runner_state \<Rightarrow> runner_state \<times> (go_error + prepare_response)" where
  "prepare_records env now qualify cb configuration mode ids d st =
     (case prepare_cache env now qualify cb configuration mode (pd_argv d) (pd_inputs d) (pd_checks d) st of
        (st1, Inl e) \<Rightarrow> (st1, Inl e)
      | (st1, Inr (decision, identities)) \<Rightarrow>
          (case fst ids of
             None \<Rightarrow> (st1, Inl (Text ''rand''))
           | Some i \<Rightarrow>
               (let observed = xr_encode_preflight env (cb_manifest cb) (cb_revision cb) configuration (pd_checks d) (pd_ready d) now in
                if maximum_plan < int (length observed) then (st1, Inl runner_limit)
                else case create_observation (xr_json env)
                    (observed_record env now i ''environment'' ''environment-record.v1'' observed [cb_source_ref cb]) (rn_db st1) of
                  (db2, Inl e) \<Rightarrow> (st1\<lparr>rn_db := db2\<rparr>, Inl e)
                | (db2, Inr _) \<Rightarrow>
                    (case snd ids of
                       None \<Rightarrow> (st1\<lparr>rn_db := db2\<rparr>, Inl (Text ''rand''))
                     | Some run \<Rightarrow>
                         (let p = plan_payload cb configuration d i decision identities now; encoded = xr_encode env p in
                          if maximum_plan < int (length encoded) then (st1\<lparr>rn_db := db2\<rparr>, Inl runner_limit)
                          else case create_observation (xr_json env)
                              (observed_record env now run ''run'' ''run-receipt.v2'' encoded [cb_source_ref cb, ''record:'' @ i]) db2 of
                            (db3, Inl e) \<Rightarrow> (st1\<lparr>rn_db := db3\<rparr>, Inl e)
                          | (db3, Inr r) \<Rightarrow> (st1\<lparr>rn_db := db3\<rparr>,
                              Inr \<lparr>ps_status = (if pd_ready d then StatusOK else StatusPartial),
                                ps_plan = (plan_of (du_id r) p)\<lparr>pn_inputs := None\<rparr>, ps_checks = pd_checks d,
                                ps_warnings = pd_warnings d\<rparr>))))))"

definition request_guards :: "prepare_request \<Rightarrow> (bool \<times> go_error) list" where
  "request_guards q =
     [(pq_capability q = [] \<or> pq_revision q = [], Text ''capability_id and capability_revision are required''),
      (128 < length (pq_capability q) \<or> 128 < length (pq_revision q) \<or> 128 < length (pq_configuration q) \<or>
       64 < length (pq_arguments q), runner_limit),
      (\<not> List.member [[], ''auto'', ''bypass''] (pq_cache_mode q), Text ''cache_mode must be auto or bypass'')]"

definition fallback_text :: "string \<Rightarrow> string \<Rightarrow> string" where
  "fallback_text value fallback = (if value = [] then fallback else value)"

definition prepare ::
    "runner_env \<Rightarrow> nat \<Rightarrow> time \<Rightarrow> qualifier \<Rightarrow> (string \<Rightarrow> go_error + capability) \<Rightarrow> string option \<times> string option \<Rightarrow>
     prepare_request \<Rightarrow> runner_state \<Rightarrow> (runner_state \<times> (go_error + prepare_response)) option" where
  "prepare env fuel now qualify resolve ids q st =
     (case try_then (check_all (request_guards q)) (\<lambda>_. try_then (normalize_limits (time_request (pq_time_limit q))) (\<lambda>_.
          resolve (pq_capability q))) of
        Inl e \<Rightarrow> Some (st, Inl e)
      | Inr cb \<Rightarrow>
          if cb_revision cb \<noteq> pq_revision q then Some (st, Inl plan_stale)
          else case prepare_checked env fuel (cb_manifest cb) (pq_arguments q) (rn_db st) (rn_files st) of
              None \<Rightarrow> None
            | Some (Inl e) \<Rightarrow> Some (st, Inl e)
            | Some (Inr d) \<Rightarrow> Some (prepare_records env now qualify cb (fallback_text (pq_configuration q) ''default'')
                (fallback_text (pq_cache_mode q) ''auto'') ids d st))"

section \<open>Reuse of an earlier result\<close>

record execute_response =
  xp_run :: string
  xp_state :: string

fun recheck_keys ::
    "runner_env \<Rightarrow> files \<Rightarrow> nat \<Rightarrow> string \<Rightarrow> manifest \<Rightarrow> string \<Rightarrow> (string, string) gomap \<Rightarrow> (string, string) gomap \<Rightarrow>
     (go_error + (string, string) gomap) option" where
  "recheck_keys env fs fuel cwd m executable [] acc = Some (Inr acc)"
| "recheck_keys env fs fuel cwd m executable ((i, expected) # rest) acc =
     (if i = ''runner.executable'' then
        (if expected \<noteq> executable then Some (Inl plan_stale) else recheck_keys env fs fuel cwd m executable rest acc)
      else case find (\<lambda>d. pc_id d = i) (rev (preflight_declared m)) of
          None \<Rightarrow> Some (Inl plan_stale)
        | Some d \<Rightarrow> then_run (run_preflight_check env fs fuel d cwd) (\<lambda>check.
            if pf_status check \<noteq> ''passed'' \<or> pf_identity check \<noteq> expected then Some (Inl plan_stale)
            else recheck_keys env fs fuel cwd m executable rest (map_put i expected acc)))"

text \<open>Lines 265 to 276: the key, the qualifications and the entry of the plan are still those of the decision.\<close>

definition hit_entry ::
    "runner_env \<Rightarrow> time \<Rightarrow> qualifier \<Rightarrow> capability \<Rightarrow> (string, string) gomap \<Rightarrow> run_payload \<Rightarrow> cache_table \<Rightarrow> go_error + cache_row" where
  "hit_entry env now qualify cb identities p t =
     (case (mf_cache (cb_manifest cb), make_cache_key env cb (py_configuration p) (py_argv p) (py_inputs p) identities) of
        (Some c, Inr key) \<Rightarrow>
          if key \<noteq> dc_key (py_cache p) then Inl plan_stale
          else (case qualify of
              None \<Rightarrow> Inl (Panic ''nil qualification resolver'')
            | Some f \<Rightarrow>
                (case (f (py_capability p) (py_configuration p) (ca_qualification_checks c), get_cache_entry (xr_id env) (xr_id env) key t) of
                   (Inr (refs, True), Inr r) \<Rightarrow>
                     if refs \<noteq> dc_qualifications (py_cache p) \<or> cx_state r \<noteq> ''active'' \<or> cx_expires_at r \<le> now \<or>
                        cx_source_run r \<noteq> dc_source_run (py_cache p) \<or> cx_qualifications r \<noteq> dc_qualifications (py_cache p)
                     then Inl plan_stale else Inr r
                 | _ \<Rightarrow> Inl plan_stale))
      | _ \<Rightarrow> Inl plan_stale)"

fun record_reused ::
    "runner_env \<Rightarrow> time \<Rightarrow> string \<Rightarrow> cache_output list \<Rightarrow> string option list \<Rightarrow> record_db \<Rightarrow> record_db \<times> string list \<times> bool" where
  "record_reused env now run [] ids db = (db, [], False)"
| "record_reused env now run (x # xs) ids db =
     (case ids of
        Some i # rest \<Rightarrow>
          (let payload = xr_encode_artifact env \<lparr>ap_run = ''record:'' @ run, ap_path = co_path x, ap_hash = co_hash x,
                 ap_size = nat (co_size x), ap_storage = ''stored'', ap_basis = ''reused'', ap_writer = ''cache''\<rparr>
           in case create_observation (xr_json env)
               (observed_record env now i ''artifact'' ''artifact-record.v1'' payload [''record:'' @ run, co_artifact x]) db of
             (db', Inl _) \<Rightarrow> (case record_reused env now run xs rest db' of (d, refs, partial) \<Rightarrow> (d, refs, True))
           | (db', Inr r) \<Rightarrow> (case record_reused env now run xs rest db' of (d, refs, partial) \<Rightarrow> (d, (''record:'' @ du_id r) # refs, partial)))
      | _ \<Rightarrow> (case record_reused env now run xs (tl ids) db of (d, refs, partial) \<Rightarrow> (d, refs, True)))"

definition restore_outputs ::
    "runner_env \<Rightarrow> time \<Rightarrow> string \<Rightarrow> manifest \<Rightarrow> cache_output list \<Rightarrow> files \<Rightarrow> files \<times> (go_error + string list)" where
  "restore_outputs env now name m outputs fs =
     (case mf_cache m of
        Some c \<Rightarrow>
          if ca_restore_policy c = ''replace_isolated_root'' then
            (case materialize_isolated_root env now name (ca_isolated_root c) outputs fs of (fs', r) \<Rightarrow> (fs', try_then r (\<lambda>_. Inr [])))
          else materialize_files env outputs [] fs
      | None \<Rightarrow> materialize_files env outputs [] fs)"

definition materializing :: "time \<Rightarrow> run_payload \<Rightarrow> run_payload" where
  "materializing now p = p\<lparr>py_state := ''materializing'', py_started_at := Some now\<rparr>"

definition failed_reuse :: "time \<Rightarrow> run_payload \<Rightarrow> run_payload" where
  "failed_reuse now p = set_decision ''rejected'' ''materialization_failed''
     (p\<lparr>py_state := ''failed'', py_finished_at := Some now, py_termination := ''cache_materialization_failed'', py_partial := True\<rparr>)"

definition reused_payload :: "time \<Rightarrow> (string, string) gomap \<Rightarrow> string list \<Rightarrow> bool \<Rightarrow> run_payload \<Rightarrow> run_payload" where
  "reused_payload now after refs partial p = set_decision ''reused'' ''verified_entry_materialized''
     (p\<lparr>py_state := ''reused'', py_started_at := Some now, py_finished_at := Some now, py_termination := ''cache_hit'',
       py_exit := Some 0, py_streams := False, py_outputs_after := after, py_artifacts := refs, py_partial := partial\<rparr>)"

text \<open>Lines 281 to 337, from the record \<open>r\<close> of the plan and its verified entry.\<close>

definition reuse_entry ::
    "runner_env \<Rightarrow> time \<Rightarrow> string \<Rightarrow> string option list \<Rightarrow> manifest \<Rightarrow> durable \<Rightarrow> run_payload \<Rightarrow> cache_row \<Rightarrow> runner_state \<Rightarrow>
     runner_state \<times> (go_error + execute_response)" where
  "reuse_entry env now name ids m r p entry st =
     (let p1 = materializing now p in
      case update_run env now r p1 ''current'' (rn_db st) of
        (db1, Inl e) \<Rightarrow> (st\<lparr>rn_db := db1\<rparr>, Inl e)
      | (db1, Inr r1) \<Rightarrow>
          (case restore_outputs env now name m (cx_outputs entry) (rn_files st) of
             (fs1, Inl _) \<Rightarrow> (st\<lparr>rn_db := fst (update_run env now r1 (failed_reuse now p1) ''unknown'' db1), rn_files := fs1\<rparr>, Inl plan_stale)
           | (fs1, Inr created) \<Rightarrow>
               (case snapshot_patterns env fs1 (py_outputs p) ''outputs'' of
                  Inl e \<Rightarrow> (st\<lparr>rn_db := db1, rn_files := rollback_materialized env created fs1\<rparr>, Inl e)
                | Inr after \<Rightarrow>
                    (case record_reused env now (du_id r) (cx_outputs entry) ids db1 of
                       (db2, refs, partial) \<Rightarrow>
                         (case update_run env now r1 (reused_payload now after refs partial p1) ''current'' db2 of
                            (db3, Inl e) \<Rightarrow> (st\<lparr>rn_db := db3, rn_files := fs1\<rparr>, Inl e)
                          | (db3, Inr _) \<Rightarrow>
                              (st\<lparr>rn_db := db3, rn_files := fs1,
                                 rn_cache := fst (mark_cache_hit (xr_id env) (xr_id env) (cx_key entry) now (rn_cache st))\<rparr>,
                               Inr \<lparr>xp_run = du_id r, xp_state = ''reused''\<rparr>))))))"

definition execute_cache_hit ::
    "runner_env \<Rightarrow> nat \<Rightarrow> time \<Rightarrow> qualifier \<Rightarrow> string \<Rightarrow> string option list \<Rightarrow> capability \<Rightarrow> durable \<Rightarrow> run_payload \<Rightarrow>
     runner_state \<Rightarrow> (runner_state \<times> (go_error + execute_response)) option" where
  "execute_cache_hit env fuel now qualify name ids cb r p st =
     (let m = cb_manifest cb in
      case resolve_cwd env (cwd_of m) of
        Inl _ \<Rightarrow> Some (st, Inl plan_stale)
      | Inr (cwd, _) \<Rightarrow>
          (case recheck_keys env (rn_files st) fuel cwd m (py_executable_identity p) (py_key_checks p)
                  [(''runner.executable'', py_executable_identity p)] of
             None \<Rightarrow> None
           | Some (Inl e) \<Rightarrow> Some (st, Inl e)
           | Some (Inr identities) \<Rightarrow>
               (case hit_entry env now qualify cb identities p (rn_cache st) of
                  Inl e \<Rightarrow> Some (st, Inl e)
                | Inr entry \<Rightarrow>
                    (case verify_cache_outputs env (rn_files st) (cx_outputs entry) of
                       Inl _ \<Rightarrow> Some (st\<lparr>rn_cache := fst (quarantine_cache (xr_id env) (xr_id env) (dc_key (py_cache p))
                           ''artifact_unavailable'' now (rn_cache st))\<rparr>, Inl plan_stale)
                     | Inr _ \<Rightarrow> Some (reuse_entry env now name ids m r p entry st)))))"

section \<open>Starting a process\<close>

definition run_directory :: "runner_env \<Rightarrow> string \<Rightarrow> string" where
  "run_directory env i = path_join (xr_state_dir env) (''runs/'' @ i)"

definition stream_path :: "runner_env \<Rightarrow> string \<Rightarrow> string \<Rightarrow> string" where
  "stream_path env i stream = path_join (run_directory env i) (stream @ ''.log'')"

text \<open>\<open>OpenFile\<close> with \<open>O_EXCL\<close>.\<close>

definition create_exclusive :: "runner_env \<Rightarrow> string \<Rightarrow> files \<Rightarrow> go_error + files" where
  "create_exclusive env path fs =
     try_then (fault_of env ''create'' path) (\<lambda>_.
       if map_of fs path \<noteq> None then Inl (Text ''file exists'') else Inr (map_put path (Regular []) fs))"

definition started_payload :: "time \<Rightarrow> run_payload \<Rightarrow> run_payload" where
  "started_payload now p = p\<lparr>py_state := ''running'', py_started_at := Some now, py_streams := True\<rparr>"

definition unstarted_payload :: "time \<Rightarrow> run_payload \<Rightarrow> run_payload" where
  "unstarted_payload now p = p\<lparr>py_state := ''failed'', py_finished_at := Some now, py_termination := ''start_failed''\<rparr>"

text \<open>Lines 101 to 163; \<open>starts\<close> is whether \<open>command.Start\<close> succeeds. A process whose record cannot be updated is
  killed.\<close>

definition start_process ::
    "runner_env \<Rightarrow> time \<Rightarrow> bool \<Rightarrow> durable \<Rightarrow> run_payload \<Rightarrow> runner_state \<Rightarrow> runner_state \<times> (go_error + execute_response)" where
  "start_process env now starts r p st =
     (let i = du_id r in
      case fault_of env ''mkdir'' (run_directory env i) of
        Inl e \<Rightarrow> (st, Inl (Wrap ''create run directory'' e))
      | Inr _ \<Rightarrow>
          (case create_exclusive env (stream_path env i ''stdout'') (rn_files st) of
             Inl e \<Rightarrow> (st, Inl (Wrap ''create stdout capture'' e))
           | Inr fs1 \<Rightarrow>
               (case create_exclusive env (stream_path env i ''stderr'') fs1 of
                  Inl e \<Rightarrow> (st\<lparr>rn_files := fs1\<rparr>, Inl (Wrap ''create stderr capture'' e))
                | Inr fs2 \<Rightarrow>
                    if \<not> starts then (st\<lparr>rn_files := fs2, rn_db := fst (update_run env now r (unstarted_payload now p) ''current'' (rn_db st))\<rparr>,
                      Inl (Text ''start registered capability''))
                    else (case update_run env now r (started_payload now p) ''current'' (rn_db st) of
                        (db1, Inl e) \<Rightarrow> (st\<lparr>rn_files := fs2, rn_db := db1\<rparr>, Inl e)
                      | (db1, Inr r1) \<Rightarrow>
                          if map_of (rn_running st) i \<noteq> None then (st\<lparr>rn_files := fs2, rn_db := db1\<rparr>, Inl run_state_error)
                          else (st\<lparr>rn_files := fs2, rn_db := db1,
                              rn_running := map_put i \<lparr>pr_record = r1, pr_payload = started_payload now p, pr_cancelled = False\<rparr> (rn_running st)\<rparr>,
                            Inr \<lparr>xp_run = i, xp_state = ''running''\<rparr>)))))"

definition same_map :: "('k, 'v) gomap \<Rightarrow> ('k, 'v) gomap \<Rightarrow> bool" where
  "same_map a b \<longleftrightarrow> list_all (\<lambda>k. map_of a k = map_of b k) (map fst a @ map fst b)"

lemma same_map_iff: "same_map a b \<longleftrightarrow> map_of a = map_of b"
proof
  assume s: "same_map a b"
  show "map_of a = map_of b"
  proof
    fix k
    show "map_of a k = map_of b k"
    proof (cases "k \<in> fst ` set a \<union> fst ` set b")
      case True
      then show ?thesis using s by (auto simp: same_map_def list_all_iff)
    next
      case False
      then show ?thesis by (metis UnCI map_of_eq_None_iff)
    qed
  qed
qed (simp add: same_map_def list_all_iff)

text \<open>Lines 83 to 97: everything the plan was prepared from is unchanged.\<close>

definition plan_current :: "runner_env \<Rightarrow> files \<Rightarrow> capability \<Rightarrow> run_payload \<Rightarrow> bool" where
  "plan_current env fs cb p \<longleftrightarrow>
     cb_revision cb = py_capability_revision p \<and> cb_execution_fingerprint cb = py_fingerprint p \<and>
     trusted_execution (cb_manifest cb) \<and>
     (case resolve_executable env fs (py_executable p) of Inl _ \<Rightarrow> False | Inr (path, identity) \<Rightarrow> identity = py_executable_identity p) \<and>
     (case snapshot_patterns env fs (mf_inputs (cb_manifest cb)) ''inputs'' of Inl _ \<Rightarrow> False
        | Inr inputs \<Rightarrow> same_map inputs (py_inputs p)) \<and>
     (case resolve_cwd env (cwd_of (cb_manifest cb)) of Inl _ \<Rightarrow> False | Inr (path, relative) \<Rightarrow> relative = py_cwd p)"

text \<open>\<open>name\<close> is the name of a staging directory, \<open>ids\<close> are identifiers of artifacts.\<close>

definition execute ::
    "runner_env \<Rightarrow> nat \<Rightarrow> time \<Rightarrow> qualifier \<Rightarrow> (string \<Rightarrow> go_error + capability) \<Rightarrow> string \<Rightarrow> string option list \<Rightarrow> bool \<Rightarrow>
     string \<Rightarrow> u64 \<Rightarrow> runner_state \<Rightarrow> (runner_state \<times> (go_error + execute_response)) option" where
  "execute env fuel now qualify resolve name ids starts plan time_limit st =
     (if \<not> valid_run_id plan then Some (st, Inl (Text ''valid plan_id is required''))
      else case try_then (normalize_limits (time_request time_limit)) (\<lambda>_. load_run env (rn_db st) plan) of
          Inl e \<Rightarrow> Some (st, Inl e)
        | Inr (r, p) \<Rightarrow>
            if du_revision r \<noteq> 1 \<or> py_state p \<noteq> ''prepared'' then Some (st, Inl run_state_error)
            else if \<not> py_ready p then Some (st, Inl (Sentinel RunnerNotExecutable))
            else (case resolve (py_capability p) of
                Inl e \<Rightarrow> Some (st, Inl e)
              | Inr cb \<Rightarrow>
                  if \<not> plan_current env (rn_files st) cb p then Some (st, Inl plan_stale)
                  else if dc_status (py_cache p) = ''hit'' then execute_cache_hit env fuel now qualify name ids cb r p st
                  else Some (start_process env now starts r p st)))"

section \<open>The captured streams\<close>

record bounded_writer =
  bw_limit :: nat
  bw_written :: nat
  bw_truncated :: bool
  bw_bytes :: string

definition new_writer :: "nat \<Rightarrow> bounded_writer" where
  "new_writer limit = \<lparr>bw_limit = limit, bw_written = 0, bw_truncated = False, bw_bytes = []\<rparr>"

text \<open>One call of \<open>Write\<close>; \<open>fails\<close> is the number of bytes after which the file refuses to take more.\<close>

definition bounded_write :: "nat option \<Rightarrow> bounded_writer \<Rightarrow> string \<Rightarrow> bounded_writer \<times> (go_error + nat)" where
  "bounded_write fails w s =
     (let remaining = (if bw_written w < bw_limit w then bw_limit w - bw_written w else 0);
          out = take remaining s; w1 = w\<lparr>bw_truncated := bw_truncated w \<or> remaining < length s\<rparr>;
          taken = (case fails of None \<Rightarrow> length out | Some k \<Rightarrow> min k (length out));
          w2 = w1\<lparr>bw_written := bw_written w + taken, bw_bytes := bw_bytes w @ take taken out\<rparr>
      in if out = [] then (w1, Inr (length s))
         else case fails of None \<Rightarrow> (w2, Inr (length s)) | Some k \<Rightarrow> (w2, Inl (Text ''write'')))"

text \<open>The writes of a process, each with the number of bytes after which the file refuses it, if it does. The copying of
  \<open>os/exec\<close> ends with the first error.\<close>

type_synonym stream_writes = "(string \<times> nat option) list"

fun write_all :: "stream_writes \<Rightarrow> bounded_writer \<Rightarrow> bounded_writer" where
  "write_all [] w = w"
| "write_all ((s, fails) # rest) w = (case bounded_write fails w s of (w', Inl e) \<Rightarrow> w' | (w', Inr _) \<Rightarrow> write_all rest w')"

definition capture_stream :: "nat \<Rightarrow> stream_writes \<Rightarrow> bounded_writer" where
  "capture_stream limit writes = write_all writes (new_writer limit)"

section \<open>Artifacts\<close>

text \<open>The content is copied up to one byte above the limit.\<close>

definition capture_blob :: "runner_env \<Rightarrow> string \<Rightarrow> string \<Rightarrow> files \<Rightarrow> files \<times> (go_error + unit)" where
  "capture_blob env source identity fs =
     (if \<not> has_prefix identity ''sha256:'' \<or> length identity \<noteq> 7 + 64 then (fs, Inl (Text ''invalid artifact identity''))
      else let destination = blob_path env identity in
        case fault_of env ''mkdir'' (dir_of destination) of
          Inl e \<Rightarrow> (fs, Inl e)
        | Inr _ \<Rightarrow>
            if map_of fs destination \<noteq> None then
              (fs, if hash_file (xr_sha env) fs destination (int (xr_artifact_limit env)) \<noteq> Inr identity
                   then Inl (Text ''existing artifact blob failed identity verification'') else Inr ())
            else (case try_then (read_file fs source) (\<lambda>content.
                    try_then (fault_of env ''create'' (dir_of destination)) (\<lambda>_.
                    try_then (fault_of env ''write'' (dir_of destination)) (\<lambda>_.
                    try_then (fault_of env ''rename'' destination) (\<lambda>_. Inr (take (Suc (xr_artifact_limit env)) content))))) of
                Inl e \<Rightarrow> (fs, Inl e)
              | Inr content \<Rightarrow> (map_put destination (Regular content) fs, Inr ())))"

definition file_size :: "files \<Rightarrow> string \<Rightarrow> nat option" where
  "file_size fs path = (case map_of fs path of Some (Regular s) \<Rightarrow> Some (length s) | _ \<Rightarrow> None)"

text \<open>What happens to the bytes of one changed output: the storage state, whether it makes the observation partial, and
  the bytes captured so far.\<close>

definition store_output ::
    "runner_env \<Rightarrow> string \<Rightarrow> string \<Rightarrow> nat \<Rightarrow> string \<Rightarrow> nat \<Rightarrow> files \<Rightarrow> files \<times> string \<times> bool \<times> nat" where
  "store_output env mode path n identity captured fs =
     (if mode \<noteq> ''capture'' then (fs, ''metadata_only'', False, captured)
      else if xr_artifact_limit env < n \<or> xr_run_limit env < captured + n then (fs, ''not_stored_limit'', True, captured)
      else case capture_blob env path identity fs of
          (fs', Inl _) \<Rightarrow> (fs', ''not_stored_error'', True, captured)
        | (fs', Inr _) \<Rightarrow> (fs', ''stored'', False, captured + n))"

record observation =
  ow_db :: record_db
  ow_files :: files
  ow_refs :: "string list"
  ow_partial :: bool
  ow_captured :: nat
  ow_ids :: "string option list"

text \<open>One iteration of \<open>observeArtifacts\<close>.\<close>

definition observe_output ::
    "runner_env \<Rightarrow> time \<Rightarrow> string \<Rightarrow> run_payload \<Rightarrow> (string, string) gomap \<Rightarrow> string \<Rightarrow> observation \<Rightarrow> observation" where
  "observe_output env now run p after relative w =
     (let h = the (map_of after relative);
          before = (case map_of (py_outputs_before p) relative of None \<Rightarrow> [] | Some x \<Rightarrow> x) in
      if has_prefix relative ''pattern:'' \<or> h = before \<and> (dc_key (py_cache p) = [] \<or> \<not> dc_eligible (py_cache p)) then w
      else case resolve_primary_existing (xr_os env) (xr_root env) relative of
          Inl _ \<Rightarrow> w\<lparr>ow_partial := True\<rparr>
        | Inr path \<Rightarrow>
            (case file_size (ow_files w) path of
               None \<Rightarrow> w\<lparr>ow_partial := True\<rparr>
             | Some n \<Rightarrow>
                 (case store_output env (py_artifact_mode p) path n h (ow_captured w) (ow_files w) of
                    (fs', storage, bad, captured) \<Rightarrow>
                      (let w1 = w\<lparr>ow_files := fs', ow_captured := captured, ow_partial := ow_partial w \<or> bad, ow_ids := tl (ow_ids w)\<rparr> in
                       case ow_ids w of
                         Some i # rest \<Rightarrow>
                           (case create_observation (xr_json env) (observed_record env now i ''artifact'' ''artifact-record.v1''
                               (xr_encode_artifact env \<lparr>ap_run = ''record:'' @ run, ap_path = relative, ap_hash = h, ap_size = n,
                                  ap_storage = storage, ap_basis = ''observed'', ap_writer = ''unknown''\<rparr>) [''record:'' @ run]) (ow_db w) of
                              (db', Inl _) \<Rightarrow> w1\<lparr>ow_db := db', ow_partial := True\<rparr>
                            | (db', Inr r) \<Rightarrow> w1\<lparr>ow_db := db', ow_refs := ow_refs w @ [''record:'' @ du_id r]\<rparr>)
                       | _ \<Rightarrow> w1\<lparr>ow_partial := True\<rparr>))))"

definition observe_artifacts ::
    "runner_env \<Rightarrow> time \<Rightarrow> string option list \<Rightarrow> string \<Rightarrow> run_payload \<Rightarrow> record_db \<Rightarrow> files \<Rightarrow> observation \<times> (string, string) gomap" where
  "observe_artifacts env now ids run p db fs =
     (let w = \<lparr>ow_db = db, ow_files = fs, ow_refs = [], ow_partial = False, ow_captured = 0, ow_ids = ids\<rparr> in
      case snapshot_patterns env fs (py_outputs p) ''outputs'' of
        Inl _ \<Rightarrow> (w\<lparr>ow_partial := True\<rparr>, [])
      | Inr after \<Rightarrow> (fold (observe_output env now run p after) (sorted_keys after) w, after))"

section \<open>The end of a process\<close>

text \<open>\<open>pe_reason\<close> is the branch \<open>select\<close> takes, \<open>pe_error\<close> the exit code when \<open>Wait\<close> fails (\<open>-1\<close> without an exit
  status), \<open>pe_files\<close> the files the process leaves.\<close>

datatype end_reason = Exited | DeadlineOver | Cancelled

record process_end =
  pe_reason :: end_reason
  pe_error :: "int option"
  pe_stdout :: stream_writes
  pe_stderr :: stream_writes
  pe_files :: files

definition end_text :: "end_reason \<Rightarrow> string" where
  "end_text reason = (case reason of Exited \<Rightarrow> ''completed'' | DeadlineOver \<Rightarrow> ''timeout'' | Cancelled \<Rightarrow> ''cancelled'')"

definition end_state :: "process_end \<Rightarrow> string" where
  "end_state e = (case pe_reason e of DeadlineOver \<Rightarrow> ''timed_out'' | Cancelled \<Rightarrow> ''cancelled''
     | Exited \<Rightarrow> if pe_error e \<noteq> None then ''failed'' else ''completed'')"

definition ended_payload :: "time \<Rightarrow> process_end \<Rightarrow> bounded_writer \<Rightarrow> bounded_writer \<Rightarrow> run_payload \<Rightarrow> run_payload" where
  "ended_payload now e out err p = p\<lparr>py_finished_at := Some now, py_stdout_bytes := bw_written out, py_stderr_bytes := bw_written err,
     py_stdout_truncated := bw_truncated out, py_stderr_truncated := bw_truncated err, py_termination := end_text (pe_reason e),
     py_exit := Some (case pe_error e of None \<Rightarrow> 0 | Some code \<Rightarrow> code), py_state := end_state e\<rparr>"

definition captured_files :: "runner_env \<Rightarrow> string \<Rightarrow> bounded_writer \<Rightarrow> bounded_writer \<Rightarrow> files \<Rightarrow> files" where
  "captured_files env i out err fs = map_put (stream_path env i ''stderr'') (Regular (bw_bytes err))
     (map_put (stream_path env i ''stdout'') (Regular (bw_bytes out)) fs)"

definition wait_for_run ::
    "runner_env \<Rightarrow> time \<Rightarrow> string option list \<Rightarrow> string \<Rightarrow> process_end \<Rightarrow> runner_state \<Rightarrow> runner_state" where
  "wait_for_run env now ids i e st =
     (case map_of (rn_running st) i of
        None \<Rightarrow> st
      | Some run \<Rightarrow>
          (let out = capture_stream (xr_stream_limit env) (pe_stdout e); err = capture_stream (xr_stream_limit env) (pe_stderr e);
               p = ended_payload now e out err (pr_payload run);
               (w, after) = observe_artifacts env now ids i p (rn_db st) (captured_files env i out err (pe_files e));
               (t, p') = publish_cache_observation env now i
                 (p\<lparr>py_artifacts := ow_refs w, py_outputs_after := after, py_partial := ow_partial w\<rparr>) (ow_db w) (rn_cache st)
           in st\<lparr>rn_db := fst (update_run env now (pr_record run) p' ''current'' (ow_db w)), rn_cache := t, rn_files := ow_files w,
                 rn_running := map_del i (rn_running st)\<rparr>))"

section \<open>Shutdown and snapshots\<close>

definition cancel_run :: "string \<Rightarrow> runner_state \<Rightarrow> go_error + runner_state" where
  "cancel_run i st = (case map_of (rn_running st) i of
      None \<Rightarrow> Inl run_state_error
    | Some run \<Rightarrow> Inr (st\<lparr>rn_running := map_put i (run\<lparr>pr_cancelled := True\<rparr>) (rn_running st)\<rparr>))"

text \<open>\<open>Close\<close> cancels every process; waiting for them is a sequence of \<open>wait_for_run\<close>.\<close>

definition close_runner :: "runner_state \<Rightarrow> runner_state" where
  "close_runner st = st\<lparr>rn_running := map (\<lambda>(i, run). (i, run\<lparr>pr_cancelled := True\<rparr>)) (rn_running st)\<rparr>"

definition begin_memory_snapshot :: "runner_state \<Rightarrow> go_error + unit" where
  "begin_memory_snapshot st = (if rn_running st \<noteq> [] then Inl (Sentinel RunnerSnapshotBusy) else Inr ())"

end
