(* ===== verification/RunnerInspect.thy ===== *)
theory RunnerInspect
  imports RunnerExecute Paging
begin

text \<open>
  Reading runs, their streams and their artifacts, the second half of \<open>internal/runner/execute.go\<close>. The pages of a
  stream or artifact are slices of the stored file; offsets are 64-bit words.
\<close>

record stream_result =
  sr_ref :: string
  sr_file :: string
  sr_bytes :: nat
  sr_offset :: u64
  sr_next :: u64
  sr_base64 :: string
  sr_eof :: bool
  sr_truncated :: bool
  sr_availability :: string

record inspect_request =
  iq_run :: string
  iq_action :: string
  iq_artifact :: string
  iq_view :: string
  iq_offset :: u64
  iq_byte_limit :: u64
  iq_time_limit :: u64

text \<open>The short view of a run; the full view is the payload.\<close>

record run_summary =
  sy_run :: string
  sy_receipt :: string
  sy_state :: string
  sy_capability :: string
  sy_ready :: bool
  sy_started :: "time option"
  sy_finished :: "time option"
  sy_exit :: "int option"
  sy_termination :: string
  sy_stdout :: "nat \<times> bool"
  sy_stderr :: "nat \<times> bool"
  sy_streams :: bool
  sy_partial :: bool
  sy_artifacts :: "string list"
  sy_cache :: "string \<times> string"

datatype run_view = FullRun run_payload | ShortRun run_summary

record inspect_response =
  iv_run :: run_view
  iv_stream :: "stream_result option"
  iv_warnings :: "warning list"

definition run_summary_of :: "string \<Rightarrow> run_payload \<Rightarrow> run_summary" where
  "run_summary_of i p =
     \<lparr>sy_run = i, sy_receipt = ''record:'' @ i, sy_state = py_state p, sy_capability = py_capability p, sy_ready = py_ready p,
      sy_started = py_started_at p, sy_finished = py_finished_at p, sy_exit = py_exit p, sy_termination = py_termination p,
      sy_stdout = (py_stdout_bytes p, py_stdout_truncated p), sy_stderr = (py_stderr_bytes p, py_stderr_truncated p),
      sy_streams = py_streams p, sy_partial = py_partial p, sy_artifacts = py_artifacts p,
      sy_cache = (dc_status (py_cache p), dc_reason (py_cache p))\<rparr>"

text \<open>\<open>base64.StdEncoding\<close>: the alphabet with \<open>+\<close> and \<open>/\<close>, padded.\<close>

definition standard_digit :: "char \<Rightarrow> char" where
  "standard_digit c = (if c = CHR ''-'' then CHR ''+'' else if c = CHR ''_'' then CHR ''/'' else c)"

definition base64_text :: "string \<Rightarrow> string" where
  "base64_text s = (let t = map standard_digit (b64_encode s) in t @ replicate ((4 - length t mod 4) mod 4) (CHR ''=''))"

text \<open>The page of a stored file that both readers return: the bytes from the offset on, at most the limit, when they
  are asked for.\<close>

definition file_page :: "stream_result \<Rightarrow> string \<Rightarrow> u64 \<Rightarrow> u64 \<Rightarrow> bool \<Rightarrow> stream_result" where
  "file_page base content offset limit include =
     (let total = length content; at_end = total \<le> unat offset; data = take (unat limit) (drop (unat offset) content);
          after = offset + of_nat (length data)
      in if \<not> include then base\<lparr>sr_eof := at_end, sr_truncated := \<not> at_end\<rparr>
         else base\<lparr>sr_next := after, sr_base64 := base64_text data, sr_eof := total \<le> unat after, sr_truncated := unat after < total\<rparr>)"

definition read_stream :: "runner_env \<Rightarrow> files \<Rightarrow> string \<Rightarrow> string \<Rightarrow> u64 \<Rightarrow> u64 \<Rightarrow> bool \<Rightarrow> go_error + stream_result" where
  "read_stream env fs run stream offset limit include =
     try_then (read_file fs (stream_path env run stream)) (\<lambda>content.
       if length content < unat offset then Inl (Text ''stream offset exceeds observed size'')
       else Inr (file_page \<lparr>sr_ref = ''stream:'' @ run @ '':'' @ stream, sr_file = ''state:runs/'' @ run @ ''/'' @ stream @ ''.log'',
         sr_bytes = length content, sr_offset = offset, sr_next = offset, sr_base64 = [], sr_eof = False, sr_truncated = False,
         sr_availability = ''stored''\<rparr> content offset limit include))"

definition no_page :: "string \<Rightarrow> u64 \<Rightarrow> string \<Rightarrow> stream_result" where
  "no_page ref offset availability = \<lparr>sr_ref = ref, sr_file = [], sr_bytes = 0, sr_offset = offset, sr_next = offset,
     sr_base64 = [], sr_eof = True, sr_truncated = False, sr_availability = availability\<rparr>"

definition read_artifact ::
    "runner_env \<Rightarrow> record_db \<Rightarrow> files \<Rightarrow> string \<Rightarrow> string \<Rightarrow> u64 \<Rightarrow> u64 \<Rightarrow> bool \<Rightarrow> go_error + (stream_result \<times> warning list)" where
  "read_artifact env db fs run ref offset limit include =
     (let i = trim_prefix ref ''record:'' in
      if \<not> valid_artifact_id i then Inl (Text ''valid artifact_ref is required'')
      else case get_record (xr_id env) (xr_id env) i db of
          Inl _ \<Rightarrow> Inl (Sentinel StoreNotFound)
        | Inr r \<Rightarrow>
            if du_kind r \<noteq> ''artifact'' \<or> du_writer_class r \<noteq> ''server'' then Inl (Sentinel StoreNotFound)
            else case xr_decode_artifact env (du_payload r) of
                None \<Rightarrow> Inl (Text ''decode artifact payload'')
              | Some a \<Rightarrow>
                  if ap_run a \<noteq> ''record:'' @ run then Inl (Sentinel StoreNotFound)
                  else let answer = (\<lambda>availability code message. Inr (no_page (''record:'' @ i) offset availability, [plain_warning code message None]))
                    in if ap_storage a \<noteq> ''stored'' then answer (ap_storage a) ''artifact_not_stored'' ''artifact bytes were not retained''
                       else if \<not> has_prefix (ap_hash a) ''sha256:'' \<or> length (ap_hash a) \<noteq> 7 + 64
                       then answer ''corrupt'' ''artifact_corrupt'' ''artifact identity is invalid''
                       else case hash_file (xr_sha env) fs (blob_path env (ap_hash a)) (int (xr_artifact_limit env)) of
                           Inl e \<Rightarrow> if errors_is e FileNotExist
                             then answer ''missing'' ''artifact_missing'' ''retained artifact blob is missing''
                             else answer ''corrupt'' ''artifact_corrupt'' ''retained artifact blob failed identity verification''
                         | Inr identity \<Rightarrow>
                             if identity \<noteq> ap_hash a
                             then answer ''corrupt'' ''artifact_corrupt'' ''retained artifact blob failed identity verification''
                             else try_then (read_file fs (blob_path env (ap_hash a))) (\<lambda>content.
                               if length content < unat offset then Inl (Text ''artifact offset exceeds observed size'')
                               else Inr (file_page ((no_page (''record:'' @ i) offset ''stored'')
                                   \<lparr>sr_file := ''state:artifacts/blobs/'' @ trim_prefix (ap_hash a) ''sha256:'', sr_bytes := length content\<rparr>)
                                 content offset limit include, [])))"

definition inspect_streams ::
    "runner_env \<Rightarrow> inspect_request \<Rightarrow> string \<Rightarrow> u64 \<Rightarrow> run_payload \<Rightarrow> inspect_response \<Rightarrow> runner_state \<Rightarrow> go_error + inspect_response" where
  "inspect_streams env q action limit p base st =
     (let include = (iq_view q = ''bytes'') in
      if List.member [''status'', ''detail'', ''cancel''] action then Inr base
      else if action = ''stdout'' \<or> action = ''stderr'' then
        (if \<not> py_streams p then Inr (base\<lparr>iv_stream := Some (no_page (''stream:'' @ iq_run q @ '':'' @ action) (iq_offset q) ''expired''),
             iv_warnings := [plain_warning ''stream_expired'' ''captured stream is no longer retained'' None]\<rparr>)
         else try_then (read_stream env (rn_files st) (iq_run q) action (iq_offset q) limit include) (\<lambda>s. Inr (base\<lparr>iv_stream := Some s\<rparr>)))
      else if action = ''artifact'' then
        try_then (read_artifact env (rn_db st) (rn_files st) (iq_run q) (iq_artifact q) (iq_offset q) limit include)
          (\<lambda>(s, ws). Inr (base\<lparr>iv_stream := Some s, iv_warnings := ws\<rparr>))
      else Inl (Text (''unsupported inspect action '' @ quoted action)))"

text \<open>A cancellation takes effect before the run is loaded, also when the request then fails.\<close>

definition inspect :: "runner_env \<Rightarrow> inspect_request \<Rightarrow> runner_state \<Rightarrow> runner_state \<times> (go_error + inspect_response)" where
  "inspect env q st =
     (let action = fallback_text (iq_action q) ''status''; view = fallback_text (iq_view q) ''ref'' in
      if \<not> valid_run_id (iq_run q) then (st, Inl (Text ''valid run_id is required''))
      else if view \<noteq> ''ref'' \<and> view \<noteq> ''bytes'' then (st, Inl (Text ''response_view must be ref or bytes''))
      else case normalize_limits \<lparr>lr_item_limit = 0, lr_byte_limit = iq_byte_limit q, lr_time_limit_ms = iq_time_limit q\<rparr> of
          Inl e \<Rightarrow> (st, Inl e)
        | Inr l \<Rightarrow>
            (case (if action = ''cancel'' then cancel_run (iq_run q) st else Inr st) of
               Inl e \<Rightarrow> (st, Inl e)
             | Inr st1 \<Rightarrow> (st1, try_then (load_run env (rn_db st1) (iq_run q)) (\<lambda>(r, p).
                 inspect_streams env q action (lm_byte_limit l) p
                   \<lparr>iv_run = (if action \<noteq> ''detail'' \<or> view \<noteq> ''bytes'' then ShortRun (run_summary_of (iq_run q) p) else FullRun p),
                    iv_stream = None, iv_warnings = []\<rparr> st1))))"

end
