(* ===== verification/RunnerRetention.thy ===== *)
theory RunnerRetention
  imports RunnerExecute
begin

text \<open>
  Maintenance of the runner: \<open>Recover\<close> of \<open>internal/runner/execute.go\<close>, which marks the runs a restart has
  orphaned, and the bounded removal of old streams and artifacts of \<open>internal/runner/artifact.go\<close>.
\<close>

section \<open>Protected records\<close>

text \<open>The walk over a decoded payload visits every string, object keys excepted.\<close>

fun json_strings_in :: "json \<Rightarrow> string list" where
  "json_strings_in (JString s) = [s]"
| "json_strings_in (JArray xs) = concat (map json_strings_in xs)"
| "json_strings_in (JObject ms) = concat (map (\<lambda>m. json_strings_in (snd m)) ms)"
| "json_strings_in _ = []"

definition protected_ref :: "string \<Rightarrow> string option" where
  "protected_ref ref = (let i = trim_prefix ref ''record:'' in if valid_run_id i \<or> valid_artifact_id i then Some i else None)"

definition protected_refs :: "runner_env \<Rightarrow> string \<Rightarrow> string list" where
  "protected_refs env payload = (case xr_value env payload of None \<Rightarrow> [] | Some v \<Rightarrow> List.map_filter protected_ref (json_strings_in v))"

definition protects :: "durable \<Rightarrow> bool" where
  "protects r \<longleftrightarrow> du_validity r = ''current'' \<and> du_writer_class r \<noteq> ''server''"

definition protected_ids :: "runner_env \<Rightarrow> durable list \<Rightarrow> string list" where
  "protected_ids env rs = concat (map (\<lambda>r. List.map_filter protected_ref (du_evidence r) @ protected_refs env (du_payload r)) (filter protects rs))"

section \<open>What may be removed\<close>

definition retention_time :: "runner_env \<Rightarrow> durable \<Rightarrow> time" where
  "retention_time env r =
     (case xr_decode env (du_payload r) of
        None \<Rightarrow> du_updated_at r
      | Some p \<Rightarrow> (case py_finished_at p of Some t \<Rightarrow> t
          | None \<Rightarrow> if is_zero_time (py_prepared_at p) then du_updated_at r else py_prepared_at p))"

text \<open>\<open>SliceStable\<close>, newest first.\<close>

definition by_retention :: "runner_env \<Rightarrow> durable list \<Rightarrow> durable list" where
  "by_retention env rs = sort_key (\<lambda>r. - retention_time env r) rs"

definition run_expired :: "runner_env \<Rightarrow> time \<Rightarrow> string list \<Rightarrow> nat \<times> durable \<Rightarrow> bool" where
  "run_expired env now protected x = (case x of (k, r) \<Rightarrow>
     xr_retained_runs env \<le> k \<and> retention_time env r < now - xr_retention_age env \<and> valid_run_id (du_id r) \<and> du_id r \<notin> set protected)"

definition expired_runs :: "runner_env \<Rightarrow> time \<Rightarrow> string list \<Rightarrow> durable list \<Rightarrow> durable list" where
  "expired_runs env now protected runs = map snd (filter (run_expired env now protected) (List.enumerate 0 runs))"

definition server_artifact :: "runner_env \<Rightarrow> durable \<Rightarrow> artifact_payload option" where
  "server_artifact env r = (if du_kind r \<noteq> ''artifact'' \<or> du_writer_class r \<noteq> ''server'' then None else xr_decode_artifact env (du_payload r))"

definition artifact_run :: "artifact_payload \<Rightarrow> string" where
  "artifact_run a = trim_prefix (ap_run a) ''record:''"

definition artifacts_of :: "runner_env \<Rightarrow> durable list \<Rightarrow> string \<Rightarrow> durable list" where
  "artifacts_of env rs run = filter (\<lambda>r. case server_artifact env r of None \<Rightarrow> False | Some a \<Rightarrow> artifact_run a = run) rs"

text \<open>The hashes of the artifacts that stay.\<close>

definition retained_hashes :: "runner_env \<Rightarrow> string list \<Rightarrow> string list \<Rightarrow> durable list \<Rightarrow> string list" where
  "retained_hashes env protected eligible rs = List.map_filter (\<lambda>r. case server_artifact env r of None \<Rightarrow> None
     | Some a \<Rightarrow> if artifact_run a \<notin> set eligible \<or> du_id r \<in> set protected then Some (ap_hash a) else None) rs"

section \<open>Removal\<close>

definition update_artifact :: "runner_env \<Rightarrow> time \<Rightarrow> durable \<Rightarrow> artifact_payload \<Rightarrow> record_db \<Rightarrow> record_db \<times> (go_error + durable)" where
  "update_artifact env now r a db = update_observation (xr_json env) now ''artifact''
     \<lparr>ru_project = xr_id env, ru_workspace = xr_id env, ru_id = du_id r, ru_expected = du_revision r,
      ru_payload = xr_encode_artifact env a, ru_evidence = du_evidence r, ru_validity = du_validity r, ru_supersedes = []\<rparr> db"

definition blob_removable :: "string list \<Rightarrow> string list \<Rightarrow> durable \<Rightarrow> artifact_payload \<Rightarrow> bool" where
  "blob_removable protected hashes r a \<longleftrightarrow> du_id r \<notin> set protected \<and> ap_storage a = ''stored'' \<and> ap_hash a \<notin> set hashes \<and>
     has_prefix (ap_hash a) ''sha256:'' \<and> length (ap_hash a) = 7 + 64"

text \<open>The loop over the artifacts of one run; \<open>n\<close> counts removals, and a failing update ends the cleanup.\<close>

fun remove_blobs ::
    "runner_env \<Rightarrow> time \<Rightarrow> nat \<Rightarrow> string list \<Rightarrow> string list \<Rightarrow> durable list \<Rightarrow> nat \<Rightarrow> runner_state \<Rightarrow> runner_state \<times> (go_error + nat)" where
  "remove_blobs env now limit protected hashes [] n st = (st, Inr n)"
| "remove_blobs env now limit protected hashes (r # rs) n st =
     (if limit \<le> n then (st, Inr n)
      else case xr_decode_artifact env (du_payload r) of
          None \<Rightarrow> remove_blobs env now limit protected hashes rs n st
        | Some a \<Rightarrow>
            if \<not> blob_removable protected hashes r a \<or> refused env ''remove'' (blob_path env (ap_hash a))
            then remove_blobs env now limit protected hashes rs n st
            else (case update_artifact env now r (a\<lparr>ap_storage := ''deleted''\<rparr>) (rn_db st) of
                (db, Inl e) \<Rightarrow> (st\<lparr>rn_db := db, rn_files := map_del (blob_path env (ap_hash a)) (rn_files st)\<rparr>, Inl e)
              | (db, Inr _) \<Rightarrow> remove_blobs env now limit protected hashes rs (Suc n)
                  (st\<lparr>rn_db := db, rn_files := map_del (blob_path env (ap_hash a)) (rn_files st)\<rparr>)))"

definition remove_streams ::
    "runner_env \<Rightarrow> time \<Rightarrow> nat \<Rightarrow> durable \<Rightarrow> run_payload \<Rightarrow> nat \<Rightarrow> runner_state \<Rightarrow> runner_state \<times> (go_error + nat)" where
  "remove_streams env now limit r p n st =
     (if \<not> py_streams p \<or> limit \<le> n \<or> refused env ''remove'' (run_directory env (du_id r)) then (st, Inr n)
      else case update_run env now r (p\<lparr>py_streams := False\<rparr>) (du_validity r) (rn_db st) of
          (db, Inl e) \<Rightarrow> (st\<lparr>rn_db := db, rn_files := drop_tree (run_directory env (du_id r)) (rn_files st)\<rparr>, Inl e)
        | (db, Inr _) \<Rightarrow> (st\<lparr>rn_db := db, rn_files := drop_tree (run_directory env (du_id r)) (rn_files st)\<rparr>, Inr (Suc n)))"

fun remove_runs ::
    "runner_env \<Rightarrow> time \<Rightarrow> nat \<Rightarrow> string list \<Rightarrow> string list \<Rightarrow> durable list \<Rightarrow> durable list \<Rightarrow> nat \<Rightarrow> runner_state \<Rightarrow>
     runner_state \<times> (go_error + nat)" where
  "remove_runs env now limit protected hashes rs [] n st = (st, Inr n)"
| "remove_runs env now limit protected hashes rs (r # runs) n st =
     (if limit \<le> n then (st, Inr n)
      else case xr_decode env (du_payload r) of
          None \<Rightarrow> remove_runs env now limit protected hashes rs runs n st
        | Some p \<Rightarrow>
            if py_state p = ''running'' then remove_runs env now limit protected hashes rs runs n st
            else (case remove_streams env now limit r p n st of
                (st1, Inl e) \<Rightarrow> (st1, Inl e)
              | (st1, Inr n1) \<Rightarrow>
                  (case remove_blobs env now limit protected hashes (artifacts_of env rs (du_id r)) n1 st1 of
                     (st2, Inl e) \<Rightarrow> (st2, Inl e)
                   | (st2, Inr n2) \<Rightarrow> remove_runs env now limit protected hashes rs runs n2 st2)))"

definition every_record :: "runner_env \<Rightarrow> string \<Rightarrow> record_query" where
  "every_record env kind = \<lparr>rq_project = xr_id env, rq_workspace = xr_id env, rq_kind = kind, rq_validity = [], rq_source = [],
     rq_updated_after = zero_time, rq_updated_before = zero_time, rq_topic_key = [], rq_scope = [], rq_configuration = [],
     rq_supersedes = [], rq_terms = [], rq_match_all = False, rq_limit = 10000\<rparr>"

text \<open>Lines 143 to 195: the protected identifiers, the expired runs and the hashes that stay; \<open>None\<close> when the cache
  hashes are incomplete.\<close>

definition cleanup_plan ::
    "runner_env \<Rightarrow> time \<Rightarrow> durable list \<Rightarrow> durable list \<Rightarrow> cache_table \<Rightarrow> (string list \<times> durable list \<times> string list) option" where
  "cleanup_plan env now rs runs t =
     (let protected = protected_ids env rs; expired = expired_runs env now protected (by_retention env runs);
          (cached, complete) = (if xr_cache env then list_protected_hashes (xr_id env) (xr_id env) now 10000 t else ([], True))
      in if \<not> complete then None
         else Some (protected, expired, cached @ retained_hashes env protected (map du_id expired) rs))"

definition cleanup_expired_runs :: "runner_env \<Rightarrow> time \<Rightarrow> int \<Rightarrow> runner_state \<Rightarrow> runner_state \<times> (go_error + unit)" where
  "cleanup_expired_runs env now limit st =
     (if limit \<le> 0 \<or> 64 < limit then (st, Inl (Text ''invalid cleanup limit''))
      else case query_records (xr_lower env) (xr_json env) (every_record env []) (rn_db st) of
          Inl e \<Rightarrow> (st, Inl e)
        | Inr all \<Rightarrow>
            if \<not> pg_complete all then (st, Inr ())
            else (case query_records (xr_lower env) (xr_json env) (every_record env ''run'') (rn_db st) of
                Inl e \<Rightarrow> (st, Inl e)
              | Inr page \<Rightarrow>
                  (case cleanup_plan env now (pg_records all) (pg_records page) (rn_cache st) of
                     None \<Rightarrow> (st, Inr ())
                   | Some (protected, expired, hashes) \<Rightarrow>
                       (case remove_runs env now (nat limit) protected hashes (pg_records all) expired 0 st of
                          (st1, Inl e) \<Rightarrow> (st1, Inl e)
                        | (st1, Inr n) \<Rightarrow>
                            (if xr_cache env then st1\<lparr>rn_cache := fst (delete_expired_cache (xr_id env) (xr_id env) now (nat limit - n) (rn_cache st1))\<rparr>
                             else st1, Inr ())))))"

section \<open>Recovery\<close>

definition interrupted :: "time \<Rightarrow> run_payload \<Rightarrow> run_payload" where
  "interrupted now p = p\<lparr>py_state := ''interrupted'', py_finished_at := Some now, py_termination := ''server_restart'', py_partial := True\<rparr>"

fun interrupt_runs :: "runner_env \<Rightarrow> time \<Rightarrow> durable list \<Rightarrow> record_db \<Rightarrow> record_db \<times> (go_error + unit)" where
  "interrupt_runs env now [] db = (db, Inr ())"
| "interrupt_runs env now (r # rs) db =
     (case xr_decode env (du_payload r) of
        None \<Rightarrow> (db, Inl (Text ''decode run payload''))
      | Some p \<Rightarrow>
          if py_state p \<noteq> ''running'' \<and> py_state p \<noteq> ''materializing'' then interrupt_runs env now rs db
          else (case update_run env now r (interrupted now p) ''unknown'' db of
              (db', Inl e) \<Rightarrow> (db', Inl e)
            | (db', Inr _) \<Rightarrow> interrupt_runs env now rs db'))"

definition recover :: "runner_env \<Rightarrow> time \<Rightarrow> runner_state \<Rightarrow> runner_state \<times> (go_error + unit)" where
  "recover env now st =
     (let st1 = st\<lparr>rn_files := recover_cache_swaps env (rn_files st)\<rparr> in
      case query_records (xr_lower env) (xr_json env) (every_record env ''run'') (rn_db st1) of
        Inl e \<Rightarrow> (st1, Inl e)
      | Inr page \<Rightarrow>
          (case interrupt_runs env now (pg_records page) (rn_db st1) of
             (db, Inl e) \<Rightarrow> (st1\<lparr>rn_db := db\<rparr>, Inl e)
           | (db, Inr _) \<Rightarrow> cleanup_expired_runs env now 64 (st1\<lparr>rn_db := db\<rparr>)))"

end
