(* ===== verification/RunnerLifecycle.thy ===== *)
theory RunnerLifecycle
  imports RunnerInspect RunnerRetention RecordProperties
begin

text \<open>
  The life of a run: the transitions a run record goes through, as a specification, and the proof that every
  operation of the runner, interleaved with the other writers of the repository, crashes and restarts, only makes
  these transitions. The phase of a run is its state and whether its streams are retained.
\<close>

section \<open>The specification\<close>

type_synonym phase = "string \<times> bool"

definition phase_of :: "run_payload \<Rightarrow> phase" where
  "phase_of p = (py_state p, py_streams p)"

definition ended_states :: "string list" where
  "ended_states = [''completed'', ''failed'', ''timed_out'', ''cancelled'', ''interrupted'']"

definition run_moves :: "phase \<Rightarrow> phase \<Rightarrow> bool" where
  "run_moves a b \<longleftrightarrow>
     a = (''prepared'', False) \<and> b \<in> set [(''running'', True), (''failed'', False), (''materializing'', False)] \<or>
     a = (''running'', True) \<and> fst b \<in> set ended_states \<and> snd b \<or>
     a = (''materializing'', False) \<and> b \<in> set [(''reused'', False), (''failed'', False), (''interrupted'', False)] \<or>
     fst a \<in> set ended_states \<and> snd a \<and> b = (fst a, False)"

definition row_phase :: "runner_env \<Rightarrow> revision \<Rightarrow> phase option" where
  "row_phase env v = map_option phase_of (xr_decode env (rv_payload v))"

definition rows_move :: "runner_env \<Rightarrow> revision \<Rightarrow> revision \<Rightarrow> bool" where
  "rows_move env v w \<longleftrightarrow> (\<exists>a b. row_phase env v = Some a \<and> row_phase env w = Some b \<and> run_moves a b)"

definition lifecycle :: "runner_env \<Rightarrow> record_db \<Rightarrow> bool" where
  "lifecycle env db \<longleftrightarrow> (\<forall>r \<in> set (db_records db). du_kind r = ''run'' \<longrightarrow>
     (\<forall>v \<in> set (db_revisions db). rv_record_id v = du_id r \<longrightarrow>
        (rv_revision v = 1 \<longrightarrow> row_phase env v = Some (''prepared'', False)) \<and>
        (\<forall>w \<in> set (db_revisions db). rv_record_id w = du_id r \<longrightarrow> rv_revision w = Suc (rv_revision v) \<longrightarrow> rows_move env v w)))"

text \<open>What the codec of the payload has to keep: it decodes its own output, with the phase unchanged.\<close>

definition codec_keeps_phase :: "runner_env \<Rightarrow> bool" where
  "codec_keeps_phase env \<longleftrightarrow> (\<forall>p. \<exists>q. xr_decode env (xr_encode env p) = Some q \<and> phase_of q = phase_of p)"

section \<open>Writes to the repository\<close>

inductive run_step :: "runner_env \<Rightarrow> record_db \<Rightarrow> record_db \<Rightarrow> bool" for env where
  create: "du_kind r \<noteq> ''run'' \<Longrightarrow> run_step env db (fst (create_record (xr_json env) r db))"
| prepare: "du_payload r = xr_encode env p \<Longrightarrow> phase_of p = (''prepared'', False) \<Longrightarrow>
    run_step env db (fst (create_record (xr_json env) r db))"
| update: "kind \<noteq> ''run'' \<Longrightarrow> now \<noteq> zero_time \<Longrightarrow> run_step env db (fst (update_record (xr_json env) now kind u db))"
| replace: "run_step env db (fst (replace_memo (xr_json env) q db))"
| import_report: "now \<noteq> zero_time \<Longrightarrow> run_step env db (fst (import_verification (xr_json env) now r hash parser db))"
| move: "now \<noteq> zero_time \<Longrightarrow> v \<in> set (db_revisions db) \<Longrightarrow> rv_record_id v = du_id r \<Longrightarrow> rv_revision v = du_revision r \<Longrightarrow>
    row_phase env v = Some a \<Longrightarrow> run_moves a (phase_of p) \<Longrightarrow> run_step env db (fst (update_run env now r p validity db))"

lemma lifecycle_empty: "lifecycle env empty_db"
  by (simp add: lifecycle_def empty_db_def)

lemma revision_ids:
  assumes "db_inv j db" "v \<in> set (db_revisions db)"
  shows "rv_record_id v \<in> du_id ` set (db_records db)"
  using assms by (auto simp: db_inv_def history_inv_def archive_revision_bad_def)

lemma lifecycle_insert:
  assumes inv: "db_inv j db" and lc: "lifecycle env db"
    and fresh: "\<forall>x \<in> set (db_records db). du_id x \<noteq> du_id r" and one: "du_revision r = 1"
    and phase: "du_kind r = ''run'' \<Longrightarrow> row_phase env (revision_of r) = Some (''prepared'', False)"
  shows "lifecycle env (db\<lparr>db_records := db_records db @ [r], db_revisions := db_revisions db @ [revision_of r]\<rparr>)"
proof -
  have id: "rv_record_id (revision_of r) = du_id r" "rv_revision (revision_of r) = 1"
    by (simp_all add: revision_of_def one)
  have other: "rv_record_id v \<noteq> du_id r" if "v \<in> set (db_revisions db)" for v
    using revision_ids [OF inv that] fresh by auto
  show ?thesis
    unfolding lifecycle_def using lc phase fresh other by (auto simp: lifecycle_def id)
qed

lemma lifecycle_put:
  assumes inv: "db_inv j db" and lc: "lifecycle env db" and old: "old \<in> set (db_records db)"
    and new: "du_id new = du_id old" "du_kind new = du_kind old" "du_revision new = Suc (du_revision old)"
    and move: "du_kind old = ''run'' \<Longrightarrow> rows_move env (revision_of old) (revision_of new)"
  shows "lifecycle env ((replace_row new db)\<lparr>db_revisions := db_revisions db @ [revision_of new]\<rparr>)"
proof -
  have hist: "history_inv j (db_records db) (db_revisions db)" "distinct (map du_id (db_records db))"
    using inv by (simp_all add: db_inv_def records_inv_def)
  have last: "revision_of old \<in> set (db_revisions db)" using hist(1) old by (simp add: history_inv_def)
  have keys: "inj_on rev_key (set (db_revisions db))" using hist(1) by (simp add: history_inv_def distinct_map)
  have low: "rv_revision v \<le> du_revision old" if "v \<in> set (db_revisions db)" "rv_record_id v = du_id old" for v
  proof -
    have "(du_id old, rv_revision v) \<in> rev_key ` set (db_revisions db)"
      using that by (auto simp: rev_key_def image_iff intro!: bexI [of _ v])
    then show ?thesis using hist(1) old unfolding history_inv_def by blast
  qed
  have newest: "v = revision_of old" if "v \<in> set (db_revisions db)" "rv_record_id v = du_id old" "rv_revision v = du_revision old" for v
    using inj_onD [OF keys _ that(1) last] that by (simp add: rev_key_def revision_of_def)
  have id: "rv_record_id (revision_of new) = du_id old" "rv_revision (revision_of new) = Suc (du_revision old)"
    by (simp_all add: revision_of_def new)
  have recs: "\<exists>x \<in> set (db_records db). du_id x = du_id r \<and> du_kind x = du_kind r" if "r \<in> set (db_records (replace_row new db))" for r
    using that old new by (auto simp: replace_row_def split: if_splits)
  have same: "x = old" if "x \<in> set (db_records db)" "du_id x = du_id old" for x
    using inj_onD [OF hist(2) [unfolded distinct_map, THEN conjunct2]] that old by blast
  have pos: "du_revision old \<noteq> 0"
  proof -
    have "\<not> archive_revision_bad j (map du_id (db_records db)) (revision_of old)"
      using hist(1) last by (simp add: history_inv_def)
    then show ?thesis by (auto simp: archive_revision_bad_def revision_of_def)
  qed
  show ?thesis
    unfolding lifecycle_def
  proof (intro ballI impI conjI)
    fix r v assume r: "r \<in> set (db_records ((replace_row new db)\<lparr>db_revisions := db_revisions db @ [revision_of new]\<rparr>))" "du_kind r = ''run''"
      and v: "v \<in> set (db_revisions ((replace_row new db)\<lparr>db_revisions := db_revisions db @ [revision_of new]\<rparr>))" "rv_record_id v = du_id r"
    have "r \<in> set (db_records (replace_row new db))" using r(1) by simp
    from recs [OF this] r(2) obtain x where x: "x \<in> set (db_records db)" "du_id x = du_id r" "du_kind x = ''run''" by auto
    show "row_phase env v = Some (''prepared'', False)" if "rv_revision v = 1"
    proof (cases "v = revision_of new")
      case True
      then show ?thesis using that id(2) pos by simp
    next
      case False
      then show ?thesis using lc x v that by (auto simp: lifecycle_def)
    qed
    fix w assume w: "w \<in> set (db_revisions ((replace_row new db)\<lparr>db_revisions := db_revisions db @ [revision_of new]\<rparr>))"
      "rv_record_id w = du_id r" "rv_revision w = Suc (rv_revision v)"
    consider "v = revision_of new" | "v \<in> set (db_revisions db)" "w = revision_of new" | "v \<in> set (db_revisions db)" "w \<in> set (db_revisions db)"
      using v(1) w(1) by auto
    then show "rows_move env v w"
    proof cases
      case 1
      then have two: "rv_revision w = Suc (Suc (du_revision old))" "rv_record_id w = du_id old" using w v(2) id by simp_all
      then have "w \<in> set (db_revisions db)" using w(1) id(2) by auto
      with low two show ?thesis by fastforce
    next
      case 2
      have "x = old" using same [OF x(1)] x(2) w(2) 2(2) id(1) by simp
      moreover have "v = revision_of old" using newest 2 v(2) w id by simp
      ultimately show ?thesis using move x(3) 2(2) by simp
    next
      case 3
      then show ?thesis using lc x v(2) w(2,3) by (auto simp: lifecycle_def)
    qed
  qed
qed

lemma insert_record_lifecycle:
  assumes "db_inv j db" "lifecycle env db" "insert_record j r db = Inr db'"
    "du_kind r = ''run'' \<Longrightarrow> row_phase env (revision_of r) = Some (''prepared'', False)"
  shows "lifecycle env db'"
  using insert_record_cases [OF assms(3)] validate_record_ok [of j r] lifecycle_insert [OF assms(1,2) _ _ assms(4)]
  by simp

lemma create_lifecycle:
  assumes "db_inv j db" "lifecycle env db"
    "du_kind r = ''run'' \<Longrightarrow> row_phase env (revision_of r) = Some (''prepared'', False)"
  shows "lifecycle env (fst (create_record j r db))"
proof (cases "insert_record j r db")
  case (Inr db')
  then show ?thesis using insert_record_lifecycle [OF assms(1,2) Inr assms(3)] by (simp add: create_record_def transact_fst)
qed (simp add: create_record_def transact_fst assms(2))

lemma update_lifecycle:
  assumes inv: "db_inv j db" and lc: "lifecycle env db"
    and move: "\<And>old. old \<in> set (db_records db) \<Longrightarrow> du_id old = ru_id u \<Longrightarrow> du_revision old = ru_expected u \<Longrightarrow> kind = ''run'' \<Longrightarrow>
      rows_move env (revision_of old) (revision_of (updated_record now u old))"
  shows "lifecycle env (fst (update_record j now kind u db))"
proof (cases "update_guard j u")
  case True
  show ?thesis
  proof (cases "update_tx j now kind u db")
    case (Inl e)
    then show ?thesis by (simp add: update_record_def True transact_fst lc)
  next
    case (Inr x)
    obtain new db' where x: "x = (new, db')" by (cases x)
    obtain old where c: "get_record (ru_project u) (ru_workspace u) (ru_id u) db = Inr old"
      "du_kind old = kind" "du_revision old = ru_expected u" "new = updated_record now u old"
      "db' = (replace_row new db)\<lparr>db_revisions := db_revisions db @ [revision_of new]\<rparr>"
      using update_tx_cases [OF Inr [unfolded x]] by metis
    note o = get_record_Inr [OF c(1)]
    have "lifecycle env db'"
      unfolding c(5) by (rule lifecycle_put [OF inv lc, of old]) (use o c(2,3,4) move in \<open>auto simp: updated_record_def\<close>)
    then show ?thesis by (simp add: update_record_def True transact_fst Inr x)
  qed
qed (simp add: update_record_def lc)

lemma replace_lifecycle:
  assumes inv: "db_inv j db" and lc: "lifecycle env db"
  shows "lifecycle env (fst (replace_memo j q db))"
proof (cases "rr_project q = [] \<or> rr_workspace q = [] \<or> rr_old_id q = [] \<or> rr_expected q = 0 \<or>
    du_kind (rr_new q) \<noteq> ''memo'' \<or> du_supersedes (rr_new q) \<noteq> rr_old_id q \<or>
    du_project (rr_new q) \<noteq> rr_project q \<or> du_workspace (rr_new q) \<noteq> rr_workspace q")
  case True
  then show ?thesis using lc by (simp add: replace_memo_def)
next
  case False
  show ?thesis
  proof (cases "replace_tx j q db")
    case (Inl e)
    then show ?thesis using False lc by (simp add: replace_memo_def transact_fst)
  next
    case (Inr x)
    obtain r db' where x: "x = (r, db')" by (cases x)
    obtain old db2 where c: "get_record (rr_project q) (rr_workspace q) (rr_old_id q) db = Inr old" "du_kind old = ''memo''"
      "\<forall>x \<in> set (db_records db). du_id x \<noteq> du_id old \<longrightarrow> \<not> collides j (superseded_record (rr_new q) old) x"
      "db2 = (replace_row (superseded_record (rr_new q) old) db)
         \<lparr>db_revisions := db_revisions db @ [revision_of (superseded_record (rr_new q) old)]\<rparr>"
      "validate_record j (rr_new q) = Inr ()" "insert_record j (rr_new q) db2 = Inr db'"
      using replace_tx_cases [OF Inr [unfolded x]] by metis
    note o = get_record_Inr [OF c(1)]
    let ?old = "superseded_record (rr_new q) old"
    have id: "du_id ?old = du_id old" "same_owner old ?old" "du_revision ?old = Suc (du_revision old)" "du_kind ?old = du_kind old"
      by (simp_all add: superseded_record_def same_owner_def)
    have "\<not> archive_record_bad j old" using inv o by (simp add: db_inv_def records_inv_def)
    then have "\<not> archive_record_bad j ?old" using c(5) by (rule superseded_record_ok)
    with c(3) id o have inv2: "db_inv j db2" by (simp only: c(4)) (rule update_row_inv [OF inv], simp_all)
    have "lifecycle env db2" unfolding c(4) by (rule lifecycle_put [OF inv lc, of old]) (use o c(2) id in auto)
    then have "lifecycle env db'" by (rule insert_record_lifecycle [OF inv2 _ c(6)]) (use False in auto)
    then show ?thesis using False by (simp add: replace_memo_def transact_fst Inr x)
  qed
qed

lemma import_lifecycle:
  assumes inv: "db_inv j db" and lc: "lifecycle env db"
  shows "lifecycle env (fst (import_verification j now r hash parser db))"
proof (cases "du_kind r \<noteq> ''verification'' \<or> du_writer_class r \<noteq> ''importer'' \<or> hash = [] \<or> parser = []")
  case True
  then show ?thesis using lc by (simp add: import_verification_def)
next
  case False
  show ?thesis
  proof (cases "import_tx j now r hash parser db")
    case (Inl e)
    then show ?thesis using False lc by (simp add: import_verification_def transact_fst)
  next
    case (Inr x)
    obtain a db' where x: "x = (a, db')" by (cases x)
    have "lifecycle env db'"
    proof (cases "find_import (du_project r) (du_workspace r) hash parser db")
      case (Some row)
      then show ?thesis using Inr x lc by (auto simp: import_tx_def)
    next
      case None
      then obtain db1 row where i: "insert_record j r db = Inr db1" "sql_insert_import row db1 = Inr db'"
        using Inr x by (auto simp: import_tx_def)
      have "lifecycle env db1" by (rule insert_record_lifecycle [OF inv lc i(1)]) (use False in auto)
      moreover have "db' = db1\<lparr>db_imports := db_imports db1 @ [row]\<rparr>"
        using i(2) by (auto simp: sql_insert_import_def split: if_splits)
      ultimately show ?thesis by (simp add: lifecycle_def)
    qed
    then show ?thesis using False by (simp add: import_verification_def transact_fst Inr x)
  qed
qed

section \<open>Every write keeps the lifecycle\<close>

lemma rows_create: "set (db_revisions db) \<subseteq> set (db_revisions (fst (create_record j r db)))"
  by (cases "insert_record j r db") (auto simp: create_record_def transact_fst dest: insert_record_cases(3))

lemma rows_update: "set (db_revisions db) \<subseteq> set (db_revisions (fst (update_record j now kind u db)))"
proof (cases "update_tx j now kind u db")
  case (Inr x)
  obtain new db' where x: "x = (new, db')" by (cases x)
  have "set (db_revisions db) \<subseteq> set (db_revisions db')"
    by (rule update_tx_cases [OF Inr [unfolded x]]) auto
  then show ?thesis by (simp add: update_record_def transact_fst Inr x)
qed (simp add: update_record_def transact_fst)

lemma rows_replace: "set (db_revisions db) \<subseteq> set (db_revisions (fst (replace_memo j q db)))"
proof (cases "replace_tx j q db")
  case (Inr x)
  obtain r db' where x: "x = (r, db')" by (cases x)
  have "set (db_revisions db) \<subseteq> set (db_revisions db')"
    by (rule replace_tx_cases [OF Inr [unfolded x]]) (auto dest: insert_record_cases(3))
  then show ?thesis by (simp add: replace_memo_def transact_fst Inr x)
qed (simp add: replace_memo_def transact_fst)

lemma rows_import: "set (db_revisions db) \<subseteq> set (db_revisions (fst (import_verification j now r hash parser db)))"
proof (cases "import_tx j now r hash parser db")
  case (Inr x)
  then have "set (db_revisions db) \<subseteq> set (db_revisions (snd x))"
    by (auto simp: import_tx_def sql_insert_import_def split: option.splits if_splits dest!: insert_record_cases(3))
  then show ?thesis by (cases x) (simp add: import_verification_def transact_fst Inr)
qed (simp add: import_verification_def transact_fst)

lemma update_run_record:
  "fst (update_run env now r p validity db) = db \<or>
   fst (update_run env now r p validity db) = fst (update_record (xr_json env) now ''run''
     \<lparr>ru_project = xr_id env, ru_workspace = xr_id env, ru_id = du_id r, ru_expected = du_revision r,
      ru_payload = xr_encode env p, ru_evidence = du_evidence r, ru_validity = validity, ru_supersedes = []\<rparr> db)"
  by (simp add: update_run_def Let_def update_observation_def observation_kind_def)

lemma run_step_rows: "run_step env db db' \<Longrightarrow> set (db_revisions db) \<subseteq> set (db_revisions db')"
proof (induction rule: run_step.induct)
  case (move now v db r a p validity)
  show ?case using update_run_record [of env now r p validity db] rows_update by fastforce
qed (simp_all add: rows_create rows_update rows_replace rows_import)

lemma row_unique:
  assumes "db_inv j db" "v \<in> set (db_revisions db)" "old \<in> set (db_records db)"
    "rv_record_id v = du_id old" "rv_revision v = du_revision old"
  shows "v = revision_of old"
proof -
  have "inj_on rev_key (set (db_revisions db))" "revision_of old \<in> set (db_revisions db)"
    using assms(1,3) by (simp_all add: db_inv_def history_inv_def distinct_map)
  then show ?thesis using assms(2,4,5) by (auto simp: inj_on_def rev_key_def revision_of_def)
qed

lemma run_step_inv:
  assumes "run_step env db db'" "codec_keeps_phase env" "db_inv (xr_json env) db" "lifecycle env db"
  shows "db_inv (xr_json env) db' \<and> lifecycle env db'"
  using assms
proof (induction rule: run_step.induct)
  case (create r db)
  then show ?case by (simp add: create_inv create_lifecycle)
next
  case (prepare r p db)
  have "row_phase env (revision_of r) = Some (''prepared'', False)"
    using prepare(1,2) spec [OF prepare(3) [unfolded codec_keeps_phase_def], of p] by (auto simp: row_phase_def revision_of_def)
  then show ?case using prepare by (simp add: create_inv create_lifecycle)
next
  case (update kind now u db)
  then show ?case by (simp add: update_inv update_lifecycle)
next
  case (replace q db)
  then show ?case by (simp add: replace_inv replace_lifecycle)
next
  case (import_report now r hash parser db)
  then show ?case by (simp add: import_inv import_lifecycle)
next
  case (move now v db r a p validity)
  let ?u = "\<lparr>ru_project = xr_id env, ru_workspace = xr_id env, ru_id = du_id r, ru_expected = du_revision r,
      ru_payload = xr_encode env p, ru_evidence = du_evidence r, ru_validity = validity, ru_supersedes = []\<rparr>"
  obtain q where q: "xr_decode env (xr_encode env p) = Some q" "phase_of q = phase_of p"
    using move.prems(1) by (auto simp: codec_keeps_phase_def)
  have "lifecycle env (fst (update_record (xr_json env) now ''run'' ?u db))"
  proof (rule update_lifecycle [OF move.prems(2,3)])
    fix old assume old: "old \<in> set (db_records db)" "du_id old = ru_id ?u" "du_revision old = ru_expected ?u"
    have "v = revision_of old" using row_unique [OF move.prems(2) move.hyps(2) old(1)] move.hyps(3,4) old(2,3) by simp
    then have "row_phase env (revision_of old) = Some a" using move.hyps(5) by simp
    moreover have "row_phase env (revision_of (updated_record now ?u old)) = Some (phase_of p)"
      using q by (simp add: row_phase_def revision_of_def updated_record_def)
    ultimately show "rows_move env (revision_of old) (revision_of (updated_record now ?u old))"
      using move.hyps(6) by (simp add: rows_move_def)
  qed
  then show ?case
    using update_run_record [of env now r p validity db] move.prems(2,3) update_inv [OF move.prems(2) move.hyps(1)] by metis
qed

abbreviation run_steps :: "runner_env \<Rightarrow> record_db \<Rightarrow> record_db \<Rightarrow> bool" where
  "run_steps env \<equiv> (run_step env)\<^sup>*\<^sup>*"

lemma run_steps_rows: "run_steps env db db' \<Longrightarrow> set (db_revisions db) \<subseteq> set (db_revisions db')"
  by (induction rule: rtranclp_induct) (auto dest: run_step_rows)

lemma run_steps_inv:
  assumes "run_steps env db db'" "codec_keeps_phase env" "db_inv (xr_json env) db" "lifecycle env db"
  shows "db_inv (xr_json env) db' \<and> lifecycle env db'"
  using assms by (induction rule: rtranclp_induct) (auto dest: run_step_inv)

text \<open>Every phase of a run is one of the machine.\<close>

definition known_phase :: "phase \<Rightarrow> bool" where
  "known_phase a \<longleftrightarrow> a \<in> set [(''prepared'', False), (''running'', True), (''materializing'', False), (''reused'', False)] \<or>
     fst a \<in> set ended_states"

lemma run_moves_known: "run_moves a b \<Longrightarrow> known_phase b"
  unfolding run_moves_def
proof (elim disjE conjE)
  assume b: "b \<in> set [(''running'', True), (''failed'', False), (''materializing'', False)]"
  have "list_all known_phase [(''running'', True), (''failed'', False), (''materializing'', False)]" by code_simp
  with b show "known_phase b" unfolding list_all_iff by blast
next
  assume b: "b \<in> set [(''reused'', False), (''failed'', False), (''interrupted'', False)]"
  have "list_all known_phase [(''reused'', False), (''failed'', False), (''interrupted'', False)]" by code_simp
  with b show "known_phase b" unfolding list_all_iff by blast
qed (simp_all add: known_phase_def)

lemma known_phases:
  assumes "db_inv j db" "lifecycle env db" "r \<in> set (db_records db)" "du_kind r = ''run''"
    "v \<in> set (db_revisions db)" "rv_record_id v = du_id r"
  shows "\<exists>a. row_phase env v = Some a \<and> known_phase a"
proof (cases "rv_revision v = 1")
  case True
  then show ?thesis using assms by (auto simp: lifecycle_def known_phase_def)
next
  case False
  have keys: "(du_id r, n) \<in> rev_key ` set (db_revisions db) \<longleftrightarrow> 1 \<le> n \<and> n \<le> du_revision r" for n
    using assms(1,3) by (simp add: db_inv_def history_inv_def)
  have "(du_id r, rv_revision v) \<in> rev_key ` set (db_revisions db)"
    using assms(5,6) by (auto simp: rev_key_def intro!: image_eqI [of _ _ v])
  with keys have n: "1 \<le> rv_revision v" "rv_revision v \<le> du_revision r" by auto
  with False obtain n where n': "rv_revision v = Suc n" "1 \<le> n" by (cases "rv_revision v") auto
  with n keys have "(du_id r, n) \<in> rev_key ` set (db_revisions db)" by simp
  then obtain u where u: "u \<in> set (db_revisions db)" "rv_record_id u = du_id r" "rv_revision u = n" by (auto simp: rev_key_def)
  have "rows_move env u v" using assms(2-6) u n' unfolding lifecycle_def by auto
  then show ?thesis using run_moves_known by (auto simp: rows_move_def)
qed

section \<open>The writes of the operations\<close>

definition at_phase :: "runner_env \<Rightarrow> record_db \<Rightarrow> durable \<Rightarrow> phase \<Rightarrow> bool" where
  "at_phase env db r a \<longleftrightarrow> (\<exists>v \<in> set (db_revisions db). rv_record_id v = du_id r \<and> rv_revision v = du_revision r \<and> row_phase env v = Some a)"

lemma at_phase_mono: "run_steps env db db' \<Longrightarrow> at_phase env db r a \<Longrightarrow> at_phase env db' r a"
  using run_steps_rows by (fastforce simp: at_phase_def)

lemma steps_create: "du_kind r \<noteq> ''run'' \<Longrightarrow> run_steps env db (fst (create_observation (xr_json env) r db))"
  by (simp add: create_observation_def r_into_rtranclp run_step.create)

lemma steps_artifact: "now \<noteq> zero_time \<Longrightarrow> run_steps env db (fst (update_artifact env now r a db))"
  by (auto simp: update_artifact_def update_observation_def intro!: r_into_rtranclp run_step.update)

lemma steps_move:
  assumes "now \<noteq> zero_time" "at_phase env db r a" "run_moves a (phase_of p)"
  shows "run_steps env db (fst (update_run env now r p validity db))"
  using assms run_step.move [OF assms(1) _ _ _ _ assms(3)] by (auto simp: at_phase_def intro: r_into_rtranclp)

lemma update_run_Inr:
  assumes "update_run env now r p validity db = (db1, Inr r1)" "codec_keeps_phase env"
  shows "at_phase env db1 r1 (phase_of p)" "du_id r1 = du_id r" "du_kind r1 = ''run''"
proof -
  let ?u = "\<lparr>ru_project = xr_id env, ru_workspace = xr_id env, ru_id = du_id r, ru_expected = du_revision r,
      ru_payload = xr_encode env p, ru_evidence = du_evidence r, ru_validity = validity, ru_supersedes = []\<rparr>"
  have "update_record (xr_json env) now ''run'' ?u db = (db1, Inr r1)"
    using assms(1) by (auto simp: update_run_def Let_def update_observation_def observation_kind_def split: if_splits)
  then have tx: "update_tx (xr_json env) now ''run'' ?u db = Inr (r1, db1)"
    by (auto simp: update_record_def transact_def split: if_splits sum.splits)
  obtain old where c: "get_record (ru_project ?u) (ru_workspace ?u) (ru_id ?u) db = Inr old" "du_kind old = ''run''"
    "r1 = updated_record now ?u old" "db1 = (replace_row r1 db)\<lparr>db_revisions := db_revisions db @ [revision_of r1]\<rparr>"
    using update_tx_cases [OF tx] by metis
  have old: "du_id old = du_id r" using get_record_Inr [OF c(1)] by simp
  obtain q where q: "xr_decode env (xr_encode env p) = Some q" "phase_of q = phase_of p"
    using assms(2) by (auto simp: codec_keeps_phase_def)
  have "row_phase env (revision_of r1) = Some (phase_of p)"
    using q by (simp add: row_phase_def revision_of_def updated_record_def c(3))
  then show "at_phase env db1 r1 (phase_of p)" by (auto simp: at_phase_def c(4) revision_of_def intro!: bexI [of _ "revision_of r1"])
  show "du_id r1 = du_id r" "du_kind r1 = ''run''" using old c(2) by (simp_all add: c(3) updated_record_def)
qed

text \<open>The invariant of a reachable state.\<close>

definition db_good :: "runner_env \<Rightarrow> record_db \<Rightarrow> bool" where
  "db_good env db \<longleftrightarrow> db_inv (xr_json env) db \<and> lifecycle env db"

definition process_ok :: "runner_env \<Rightarrow> record_db \<Rightarrow> string \<Rightarrow> running_process \<Rightarrow> bool" where
  "process_ok env db i run \<longleftrightarrow> du_id (pr_record run) = i \<and> at_phase env db (pr_record run) (''running'', True) \<and>
     phase_of (pr_payload run) = (''running'', True)"

definition running_ok :: "runner_env \<Rightarrow> runner_state \<Rightarrow> bool" where
  "running_ok env st \<longleftrightarrow> (\<forall>i run. map_of (rn_running st) i = Some run \<longrightarrow> process_ok env (rn_db st) i run)"

lemma good_steps: "run_steps env db db' \<Longrightarrow> codec_keeps_phase env \<Longrightarrow> db_good env db \<Longrightarrow> db_good env db'"
  using run_steps_inv by (auto simp: db_good_def)

lemma process_ok_mono: "run_steps env db db' \<Longrightarrow> process_ok env db i run \<Longrightarrow> process_ok env db' i run"
  by (auto simp: process_ok_def intro: at_phase_mono)

lemma stored_phase:
  assumes "db_good env db" "r \<in> set (db_records db)" "xr_decode env (du_payload r) = Some p"
  shows "at_phase env db r (phase_of p)"
proof -
  have "revision_of r \<in> set (db_revisions db)" using assms(1,2) by (simp add: db_good_def db_inv_def history_inv_def)
  then show ?thesis using assms(3)
    by (auto simp: at_phase_def row_phase_def revision_of_def intro!: bexI [of _ "revision_of r"])
qed

lemma load_run_phase:
  assumes "db_good env db" "load_run env db i = Inr (r, p)"
  shows "at_phase env db r (phase_of p)" "du_id r = i" "r \<in> set (db_records db)" "du_kind r = ''run''"
    "du_revision r = 1 \<Longrightarrow> phase_of p = (''prepared'', False)"
proof -
  from assms(2) have r: "get_record (xr_id env) (xr_id env) i db = Inr r" "du_kind r = ''run''" "xr_decode env (du_payload r) = Some p"
    by (auto simp: load_run_def split: if_splits option.splits)
  with get_record_Inr [OF r(1)] show m: "du_id r = i" "r \<in> set (db_records db)" "du_kind r = ''run''" by simp_all
  show "at_phase env db r (phase_of p)" by (rule stored_phase [OF assms(1) m(2) r(3)])
  have rv: "revision_of r \<in> set (db_revisions db)" using assms(1) m(2) by (simp add: db_good_def db_inv_def history_inv_def)
  have "row_phase env (revision_of r) = Some (phase_of p)" using r(3) by (simp add: row_phase_def revision_of_def)
  then show "phase_of p = (''prepared'', False)" if "du_revision r = 1"
    using assms(1) m rv that by (auto simp: db_good_def lifecycle_def revision_of_def)
qed

lemma moves_prepared:
  "run_moves (''prepared'', False) (''running'', True)" "run_moves (''prepared'', False) (''failed'', False)"
  "run_moves (''prepared'', False) (''materializing'', False)"
  "run_moves (''materializing'', False) (''reused'', False)" "run_moves (''materializing'', False) (''failed'', False)"
  "run_moves (''materializing'', False) (''interrupted'', False)" "run_moves (''running'', True) (''interrupted'', True)"
  by code_simp+

lemma moves_end: "run_moves (''running'', True) (end_state e, True)"
proof -
  have "end_state e \<in> set ended_states"
    by (cases "pe_reason e") (auto simp: end_state_def ended_states_def)
  then show ?thesis by (simp add: run_moves_def)
qed

lemma phase_simps [simp]:
  "phase_of (set_decision a b p) = phase_of p" "phase_of (materializing now p) = (''materializing'', py_streams p)"
  "phase_of (failed_reuse now p) = (''failed'', py_streams p)" "phase_of (reused_payload now x y z p) = (''reused'', False)"
  "phase_of (started_payload now p) = (''running'', True)" "phase_of (unstarted_payload now p) = (''failed'', py_streams p)"
  "phase_of (ended_payload now e u v p) = (end_state e, py_streams p)" "phase_of (interrupted now p) = (''interrupted'', py_streams p)"
  "phase_of (plan_payload cb c d i k m now) = (''prepared'', False)"
  by (simp_all add: phase_of_def set_decision_def materializing_def failed_reuse_def reused_payload_def started_payload_def
      unstarted_payload_def ended_payload_def interrupted_def plan_payload_def Let_def)

lemma published_phase: "phase_of (snd (publish_cache_observation env now i p db t)) = phase_of p"
  by (auto simp: publish_cache_observation_def phase_of_def set_decision_def Let_def split: sum.splits prod.splits)

text \<open>\<open>advances\<close>: only writes of the machine, and the same processes.\<close>

definition advances :: "runner_env \<Rightarrow> runner_state \<Rightarrow> runner_state \<Rightarrow> bool" where
  "advances env st st' \<longleftrightarrow> run_steps env (rn_db st) (rn_db st') \<and> rn_running st' = rn_running st"

lemma advances_refl [simp]: "advances env st st"
  by (simp add: advances_def)

lemma advances_trans: "advances env st st1 \<Longrightarrow> advances env st1 st2 \<Longrightarrow> advances env st st2"
  unfolding advances_def using rtranclp_trans by metis

lemma advances_ok: "advances env st st' \<Longrightarrow> running_ok env st \<Longrightarrow> running_ok env st'"
  by (auto simp: advances_def running_ok_def intro: process_ok_mono)

lemma cache_lookup_frame: "rn_db (fst (cache_lookup env now cb c d st)) = rn_db st \<and> rn_running (fst (cache_lookup env now cb c d st)) = rn_running st"
  by (auto simp: cache_lookup_def split: sum.splits)

lemma cache_qualified_frame: "rn_db (fst (cache_qualified env now f cb c x d st)) = rn_db st \<and> rn_running (fst (cache_qualified env now f cb c x d st)) = rn_running st"
  unfolding cache_qualified_def Let_def
  by (cases "if dc_policy d = ''verified'' then the f (mf_id (cb_manifest cb)) x (ca_qualification_checks c) else Inr ([], True)")
    (auto simp: cache_lookup_frame split: prod.splits)

lemma prepare_cache_frame:
  assumes "prepare_cache env now f cb x mode argv inputs checks st = (st', out)"
  shows "rn_db st' = rn_db st" "rn_running st' = rn_running st"
proof -
  obtain ids pre where pre: "cache_prerequisites env (cb_manifest cb) checks = (ids, pre)" by (rule prod.exhaust)
  have "rn_db (fst (prepare_cache env now f cb x mode argv inputs checks st)) = rn_db st \<and>
    rn_running (fst (prepare_cache env now f cb x mode argv inputs checks st)) = rn_running st"
  proof (cases pre)
    case (Inl e)
    then show ?thesis by (simp add: prepare_cache_def Let_def pre)
  next
    case (Inr c)
    then show ?thesis
      using cache_qualified_frame [of env now f cb c x]
      by (cases "make_cache_key env cb x argv inputs ids") (simp_all add: prepare_cache_def Let_def pre prod.case_eq_if)
  qed
  with assms show "rn_db st' = rn_db st" "rn_running st' = rn_running st" by simp_all
qed

lemma prepare_records_advances:
  "advances env st (fst (prepare_records env now f cb x mode ids d st))"
proof -
  obtain st1 out where c: "prepare_cache env now f cb x mode (pd_argv d) (pd_inputs d) (pd_checks d) st = (st1, out)"
    by (rule prod.exhaust)
  note fr = prepare_cache_frame [OF c]
  have a1: "advances env st st1" using fr by (simp add: advances_def)
  show ?thesis
  proof (cases out)
    case (Inl e)
    then show ?thesis using a1 by (simp add: prepare_records_def c)
  next
    case (Inr di)
    obtain decision identities where di: "di = (decision, identities)" by (cases di)
    show ?thesis
    proof (cases "fst ids")
      case None
      then show ?thesis using a1 by (simp add: prepare_records_def c Inr di)
    next
      case (Some i)
      let ?obs = "xr_encode_preflight env (cb_manifest cb) (cb_revision cb) x (pd_checks d) (pd_ready d) now"
      let ?er = "observed_record env now i ''environment'' ''environment-record.v1'' ?obs [cb_source_ref cb]"
      obtain db2 r2 where o: "create_observation (xr_json env) ?er (rn_db st1) = (db2, r2)" by (rule prod.exhaust)
      have "run_steps env (rn_db st1) (fst (create_observation (xr_json env) ?er (rn_db st1)))"
        by (rule steps_create) (simp add: observed_record_def)
      then have a2: "advances env st (st1\<lparr>rn_db := db2\<rparr>)" using a1 by (auto simp: advances_def o)
      show ?thesis
      proof (cases "maximum_plan < int (length ?obs) \<or> \<not> is_ok r2 \<or> snd ids = None")
        case True
        then show ?thesis using a1 a2
          by (cases r2) (auto simp: prepare_records_def c Inr di Some Let_def o split: option.splits)
      next
        case False
        then obtain r run where r: "r2 = Inr r" and run: "snd ids = Some run" by (auto simp: is_ok_iff)
        let ?p = "plan_payload cb x d i decision identities now"
        let ?rr = "observed_record env now run ''run'' ''run-receipt.v2'' (xr_encode env ?p) [cb_source_ref cb, ''record:'' @ i]"
        obtain db3 r3 where o3: "create_observation (xr_json env) ?rr db2 = (db3, r3)" by (rule prod.exhaust)
        have "run_step env db2 (fst (create_record (xr_json env) ?rr db2))"
          by (rule run_step.prepare [of _ _ ?p]) (simp_all add: observed_record_def)
        then have "run_steps env db2 db3"
          using o3 by (auto simp: create_observation_def observation_kind_def observed_record_def)
        then have a3: "advances env st (st1\<lparr>rn_db := db3\<rparr>)" using a2 by (auto simp: advances_def)
        show ?thesis using False a2 a3
          unfolding prepare_records_def c prod.case Inr sum.case di Some option.case Let_def o r run o3
          by (cases r3) auto
      qed
    qed
  qed
qed

lemma prepare_advances:
  assumes "prepare env fuel now f resolve ids q st = Some (st', out)"
  shows "advances env st st'"
proof -
  let ?g = "try_then (check_all (request_guards q)) (\<lambda>_. try_then (normalize_limits (time_request (pq_time_limit q))) (\<lambda>_. resolve (pq_capability q)))"
  show ?thesis
  proof (cases ?g)
    case (Inl e)
    then show ?thesis using assms unfolding prepare_def by simp
  next
    case (Inr cb)
    let ?x = "fallback_text (pq_configuration q) ''default''" and ?m = "fallback_text (pq_cache_mode q) ''auto''"
    let ?c = "prepare_checked env fuel (cb_manifest cb) (pq_arguments q) (rn_db st) (rn_files st)"
    have "st' = st \<or> (\<exists>d. prepare_records env now f cb ?x ?m ids d st = (st', out))"
      using assms unfolding prepare_def Inr sum.case
      by (cases ?c) (auto split: if_splits sum.splits)
    then show ?thesis using prepare_records_advances by (metis advances_refl fst_conv)
  qed
qed

lemma start_process_ok:
  assumes "codec_keeps_phase env" "now \<noteq> zero_time" "running_ok env st" "at_phase env (rn_db st) r (''prepared'', False)"
    "phase_of p = (''prepared'', False)" "start_process env now starts r p st = (st', out)"
  shows "run_steps env (rn_db st) (rn_db st')" "running_ok env st'"
proof -
  have ns: "py_streams p = False" using assms(5) by (simp add: phase_of_def)
  note mv = steps_move [OF assms(2,4)] moves_prepared
  have un: "run_steps env (rn_db st) (fst (update_run env now r (unstarted_payload now p) ''current'' (rn_db st)))"
    by (rule mv(1)) (simp add: ns mv)
  obtain db1 r1 where u: "update_run env now r (started_payload now p) ''current'' (rn_db st) = (db1, r1)" by (rule prod.exhaust)
  have st1: "run_steps env (rn_db st) db1"
    using mv(1) [of "started_payload now p" "''current''"] mv(2) u by simp
  let ?new = "\<lambda>x fs. st\<lparr>rn_files := fs, rn_db := db1,
     rn_running := map_put (du_id r) \<lparr>pr_record = x, pr_payload = started_payload now p, pr_cancelled = False\<rparr> (rn_running st)\<rparr>"
  have "advances env st st' \<or> (\<exists>x fs. r1 = Inr x \<and> st' = ?new x fs)"
    using assms(6) un st1 unfolding start_process_def Let_def u prod.case
    by (cases r1) (auto simp: advances_def split: sum.splits if_splits)
  then have both: "run_steps env (rn_db st) (rn_db st') \<and> running_ok env st'"
  proof
    assume "advances env st st'"
    then show ?thesis using advances_ok [OF _ assms(3)] by (simp add: advances_def)
  next
    assume "\<exists>x fs. r1 = Inr x \<and> st' = ?new x fs"
    then obtain x fs where x: "r1 = Inr x" "st' = ?new x fs" by blast
    have nw: "at_phase env db1 x (''running'', True)" "du_id x = du_id r"
      using update_run_Inr [OF u [unfolded x(1)] assms(1)] by simp_all
    have "process_ok env db1 i run" if "map_of (rn_running st') i = Some run" for i run
    proof (cases "i = du_id r")
      case True
      then show ?thesis using that nw by (auto simp: x(2) process_ok_def)
    next
      case False
      then have "process_ok env (rn_db st) i run" using that assms(3) by (simp add: x(2) running_ok_def)
      then show ?thesis by (rule process_ok_mono [OF st1])
    qed
    then show ?thesis using st1 by (simp add: x(2) running_ok_def)
  qed
  then show "run_steps env (rn_db st) (rn_db st')" "running_ok env st'" by simp_all
qed

lemma record_reused_steps:
  "record_reused env now i xs ids db = (db', refs, partial) \<Longrightarrow> run_steps env db db'"
proof (induction xs arbitrary: ids db db' refs partial)
  case (Cons x xs)
  show ?case
  proof (cases "\<exists>k rest. ids = Some k # rest")
    case True
    then obtain k rest where ids: "ids = Some k # rest" by blast
    let ?a = "xr_encode_artifact env \<lparr>ap_run = ''record:'' @ i, ap_path = co_path x, ap_hash = co_hash x,
                 ap_size = nat (co_size x), ap_storage = ''stored'', ap_basis = ''reused'', ap_writer = ''cache''\<rparr>"
    let ?r = "observed_record env now k ''artifact'' ''artifact-record.v1'' ?a [''record:'' @ i, co_artifact x]"
    obtain db1 o1 where c: "create_observation (xr_json env) ?r db = (db1, o1)" by (rule prod.exhaust)
    have "run_steps env db (fst (create_observation (xr_json env) ?r db))" by (rule steps_create) (simp add: observed_record_def)
    then have one: "run_steps env db db1" by (simp only: c fst_conv)
    obtain d rs b where rest: "record_reused env now i xs rest db1 = (d, rs, b)" by (metis prod_cases3)
    have "db' = d" using Cons.prems unfolding ids record_reused.simps list.case option.case Let_def c prod.case rest
      by (cases o1) auto
    then show ?thesis using one Cons.IH [OF rest] by simp
  next
    case False
    obtain d rs b where rest: "record_reused env now i xs (tl ids) db = (d, rs, b)" by (metis prod_cases3)
    have "db' = d" using Cons.prems False rest by (auto split: list.splits option.splits)
    then show ?thesis using Cons.IH [OF rest] by simp
  qed
qed simp

lemma reuse_entry_advances:
  assumes "codec_keeps_phase env" "now \<noteq> zero_time" "at_phase env (rn_db st) r (''prepared'', False)"
    "phase_of p = (''prepared'', False)" "reuse_entry env now name ids m r p entry st = (st', out)"
  shows "advances env st st'"
proof -
  have ns: "py_streams p = False" using assms(4) by (simp add: phase_of_def)
  let ?p1 = "materializing now p"
  have ns1: "py_streams ?p1 = False" using ns by (simp add: materializing_def)
  obtain db1 o1 where u: "update_run env now r ?p1 ''current'' (rn_db st) = (db1, o1)" by (rule prod.exhaust)
  have one: "run_steps env (rn_db st) db1"
    using steps_move [OF assms(2,3), of ?p1 "''current''"] moves_prepared(3) u ns by simp
  show ?thesis
  proof (cases o1)
    case (Inl e)
    then show ?thesis using assms(5) one by (auto simp: reuse_entry_def Let_def u advances_def)
  next
    case (Inr r1)
    have at1: "at_phase env db1 r1 (''materializing'', False)"
      using update_run_Inr(1) [OF u [unfolded Inr] assms(1)] ns by simp
    obtain fs1 o2 where f: "restore_outputs env now name m (cx_outputs entry) (rn_files st) = (fs1, o2)" by (rule prod.exhaust)
    have failed: "run_steps env db1 (fst (update_run env now r1 (failed_reuse now ?p1) ''unknown'' db1))"
      by (rule steps_move [OF assms(2) at1]) (simp add: ns1 moves_prepared)
    show ?thesis
    proof (cases o2)
      case (Inl e)
      then show ?thesis using assms(5) rtranclp_trans [OF one failed]
        by (auto simp: reuse_entry_def Let_def u Inr f advances_def)
    next
      case (Inr created)
      obtain o3 where sn: "snapshot_patterns env fs1 (py_outputs p) ''outputs'' = o3" by simp
      show ?thesis
      proof (cases o3)
        case (Inl e)
        then show ?thesis using assms(5) one
          by (auto simp: reuse_entry_def Let_def u \<open>o1 = Inr r1\<close> f Inr sn advances_def)
      next
        case finished: (Inr after)
        obtain db2 refs partial where rr: "record_reused env now (du_id r) (cx_outputs entry) ids db1 = (db2, refs, partial)"
          by (metis prod_cases3)
        note two = record_reused_steps [OF rr]
        obtain db3 o4 where l: "update_run env now r1 (reused_payload now after refs partial ?p1) ''current'' db2 = (db3, o4)"
          by (rule prod.exhaust)
        have three: "run_steps env db2 db3"
          using steps_move [OF assms(2) at_phase_mono [OF two at1], of "reused_payload now after refs partial ?p1" "''current''"]
            moves_prepared(4) l by simp
        have "run_steps env (rn_db st) db3" using one two three by (meson rtranclp_trans)
        then show ?thesis using assms(5)
          by (cases o4) (auto simp: reuse_entry_def Let_def u \<open>o1 = Inr r1\<close> f Inr sn finished rr l advances_def)
      qed
    qed
  qed
qed

lemma cache_hit_advances:
  assumes "codec_keeps_phase env" "now \<noteq> zero_time" "at_phase env (rn_db st) r (''prepared'', False)"
    "phase_of p = (''prepared'', False)" "execute_cache_hit env fuel now f name ids cb r p st = Some (st', out)"
  shows "advances env st st'"
proof -
  have reuse: "advances env st x" if "reuse_entry env now name ids m r p entry st = (x, o1)" for x m entry o1
    by (rule reuse_entry_advances [OF assms(1-4) that])
  show ?thesis
    using assms(5) unfolding execute_cache_hit_def Let_def
    by (auto split: sum.splits prod.splits option.splits simp: advances_def dest: reuse [unfolded advances_def])
qed

lemma execute_ok:
  assumes "codec_keeps_phase env" "now \<noteq> zero_time" "db_good env (rn_db st)" "running_ok env st"
    "execute env fuel now f resolve name ids starts plan ms st = Some (st', out)"
  shows "run_steps env (rn_db st) (rn_db st')" "running_ok env st'"
proof -
  have adv: "run_steps env (rn_db st) (rn_db st') \<and> running_ok env st'" if "advances env st st'"
    using that advances_ok [OF that assms(4)] by (simp add: advances_def)
  let ?l = "try_then (normalize_limits (time_request ms)) (\<lambda>_. load_run env (rn_db st) plan)"
  have both: "run_steps env (rn_db st) (rn_db st') \<and> running_ok env st'"
  proof (cases "\<exists>r p. valid_run_id plan \<and> ?l = Inr (r, p) \<and> du_revision r = 1 \<and> py_state p = ''prepared''")
    case False
    then have "st' = st" using assms(5) unfolding execute_def by (auto split: if_splits sum.splits prod.splits)
    then show ?thesis using assms(4) by simp
  next
    case True
    then obtain r p where l: "valid_run_id plan" "?l = Inr (r, p)" "du_revision r = 1" "py_state p = ''prepared''" by blast
    then have "load_run env (rn_db st) plan = Inr (r, p)" by auto
    note ld = load_run_phase [OF assms(3) this]
    have ph: "phase_of p = (''prepared'', False)" by (rule ld(5) [OF l(3)])
    have at_r: "at_phase env (rn_db st) r (''prepared'', False)" using ld(1) ph by simp
    consider "st' = st" | "\<exists>cb. execute_cache_hit env fuel now f name ids cb r p st = Some (st', out)"
      | "start_process env now starts r p st = (st', out)"
      using assms(5) l(3,4) unfolding execute_def l(2) by (auto simp: l(1) split: if_splits sum.splits)
    then show ?thesis
    proof cases
      case 2
      then show ?thesis using cache_hit_advances [OF assms(1,2) at_r ph] adv by blast
    next
      case 3
      then show ?thesis using start_process_ok [OF assms(1,2,4) at_r ph] by blast
    qed (simp add: assms(4))
  qed
  then show "run_steps env (rn_db st) (rn_db st')" "running_ok env st'" by simp_all
qed

lemma observe_output_steps: "run_steps env (ow_db w) (ow_db (observe_output env now run p after relative w))"
proof -
  have step: "run_steps env (ow_db w) db'"
    if "create_observation (xr_json env) (observed_record env now i ''artifact'' sc pl ev) (ow_db w) = (db', o1)" for db' o1 i sc pl ev
    using steps_create [of "observed_record env now i ''artifact'' sc pl ev" env "ow_db w"] that by (simp add: observed_record_def)
  show ?thesis
    unfolding observe_output_def Let_def
    by (auto split: sum.splits option.splits prod.splits list.splits dest: step)
qed

lemma fold_steps: "(\<And>x w. run_steps env (f w) (f (g x w))) \<Longrightarrow> run_steps env (f w) (f (fold g xs w))"
  by (induction xs arbitrary: w) (auto intro: rtranclp_trans)

lemma observe_artifacts_steps:
  assumes "observe_artifacts env now ids run p db fs = (w, after)"
  shows "run_steps env db (ow_db w)"
proof -
  let ?w = "\<lparr>ow_db = db, ow_files = fs, ow_refs = [], ow_partial = False, ow_captured = 0, ow_ids = ids\<rparr>"
  have "run_steps env (ow_db ?w) (ow_db (fold (observe_output env now run p x) ys ?w))" for x ys
    by (rule fold_steps) (rule observe_output_steps)
  then show ?thesis using assms by (auto simp: observe_artifacts_def Let_def split: sum.splits)
qed

lemma map_del_lookup_Some: "map_of (map_del i m) k = Some v \<Longrightarrow> map_of m k = Some v"
  by (auto split: if_splits)

lemma wait_for_run_ok:
  assumes "now \<noteq> zero_time" "running_ok env st"
  shows "run_steps env (rn_db st) (rn_db (wait_for_run env now ids i e st))" "running_ok env (wait_for_run env now ids i e st)"
proof -
  have both: "run_steps env (rn_db st) (rn_db (wait_for_run env now ids i e st)) \<and> running_ok env (wait_for_run env now ids i e st)"
  proof (cases "map_of (rn_running st) i")
    case None
    then show ?thesis using assms(2) by (simp add: wait_for_run_def)
  next
    case (Some run)
    let ?out = "capture_stream (xr_stream_limit env) (pe_stdout e)" and ?err = "capture_stream (xr_stream_limit env) (pe_stderr e)"
    let ?p = "ended_payload now e ?out ?err (pr_payload run)"
    obtain w after where ob: "observe_artifacts env now ids i ?p (rn_db st) (captured_files env i ?out ?err (pe_files e)) = (w, after)"
      by (rule prod.exhaust)
    let ?q = "?p\<lparr>py_artifacts := ow_refs w, py_outputs_after := after, py_partial := ow_partial w\<rparr>"
    obtain t p' where pub: "publish_cache_observation env now i ?q (ow_db w) (rn_cache st) = (t, p')" by (rule prod.exhaust)
    note one = observe_artifacts_steps [OF ob]
    have ok: "at_phase env (rn_db st) (pr_record run) (''running'', True)" "phase_of (pr_payload run) = (''running'', True)"
      using assms(2) Some by (auto simp: running_ok_def process_ok_def)
    have "phase_of p' = phase_of ?q" using published_phase [of env now i ?q "ow_db w" "rn_cache st"] pub by simp
    also have "phase_of ?q = (end_state e, True)"
      using ok(2) by (simp add: phase_of_def ended_payload_def)
    finally have ph: "phase_of p' = (end_state e, True)" .
    have two: "run_steps env (ow_db w) (fst (update_run env now (pr_record run) p' ''current'' (ow_db w)))"
      by (rule steps_move [OF assms(1) at_phase_mono [OF one ok(1)]]) (simp add: ph moves_end)
    let ?st = "st\<lparr>rn_db := fst (update_run env now (pr_record run) p' ''current'' (ow_db w)), rn_cache := t, rn_files := ow_files w,
                 rn_running := map_del i (rn_running st)\<rparr>"
    have eq: "wait_for_run env now ids i e st = ?st"
      by (simp add: wait_for_run_def Some Let_def ob pub)
    note steps = rtranclp_trans [OF one two]
    have "running_ok env ?st"
      using assms(2) by (auto simp: running_ok_def split: if_splits intro: process_ok_mono [OF steps])
    then show ?thesis using steps by (simp add: eq)
  qed
  then show "run_steps env (rn_db st) (rn_db (wait_for_run env now ids i e st))" "running_ok env (wait_for_run env now ids i e st)"
    by simp_all
qed

lemma record_phase:
  assumes "db_good env db" "r \<in> set (db_records db)" "du_kind r = ''run''" "xr_decode env (du_payload r) = Some p"
  shows "known_phase (phase_of p)"
proof -
  have "revision_of r \<in> set (db_revisions db)" using assms(1,2) by (simp add: db_good_def db_inv_def history_inv_def)
  moreover have "rv_record_id (revision_of r) = du_id r" "row_phase env (revision_of r) = Some (phase_of p)"
    using assms(4) by (simp_all add: revision_of_def row_phase_def)
  ultimately show ?thesis using known_phases [of "xr_json env" db env r "revision_of r"] assms by (auto simp: db_good_def)
qed

lemma interrupt_move:
  assumes "known_phase (phase_of p)" "py_state p = ''running'' \<or> py_state p = ''materializing''"
  shows "run_moves (phase_of p) (phase_of (interrupted now p))"
proof -
  have "phase_of p = (''running'', True) \<or> phase_of p = (''materializing'', False)"
    using assms by (auto simp: known_phase_def ended_states_def phase_of_def)
  then show ?thesis using moves_prepared by (auto simp: phase_of_def interrupted_def)
qed

lemma expire_move:
  assumes "known_phase (phase_of p)" "py_state p \<noteq> ''running''" "py_streams p"
  shows "run_moves (phase_of p) (phase_of (p\<lparr>py_streams := False\<rparr>))"
  using assms by (auto simp: known_phase_def phase_of_def run_moves_def ended_states_def)

lemma query_records_sub:
  assumes "query_records lower j q db = Inr page" "r \<in> set (pg_records page)"
  shows "r \<in> set (db_records db)" "base_match j q r"
  using assms by (auto simp: query_records_def Let_def split: if_splits dest!: in_set_takeD)

lemma interrupt_runs_steps:
  assumes "now \<noteq> zero_time" "\<forall>r \<in> set rs. du_kind r = ''run'' \<and> (\<forall>p. xr_decode env (du_payload r) = Some p \<longrightarrow>
      known_phase (phase_of p) \<and> at_phase env db r (phase_of p))"
  shows "run_steps env db (fst (interrupt_runs env now rs db))"
  using assms(2)
proof (induction rs arbitrary: db)
  case (Cons r rs)
  show ?case
  proof (cases "xr_decode env (du_payload r)")
    case (Some p)
    show ?thesis
    proof (cases "py_state p \<noteq> ''running'' \<and> py_state p \<noteq> ''materializing''")
      case True
      then show ?thesis using Cons Some by simp
    next
      case False
      obtain db' out where u: "update_run env now r (interrupted now p) ''unknown'' db = (db', out)" by (rule prod.exhaust)
      have "run_moves (phase_of p) (phase_of (interrupted now p))"
        by (rule interrupt_move) (use Cons.prems Some False in auto)
      then have one: "run_steps env db db'"
        using steps_move [OF assms(1), of env db r "phase_of p" "interrupted now p" "''unknown''"] Cons.prems Some u by simp
      have "run_steps env db' (fst (interrupt_runs env now rs db'))"
        by (rule Cons.IH) (use Cons.prems at_phase_mono [OF one] in auto)
      then show ?thesis using one by (cases out) (auto simp: Some False u)
    qed
  qed simp
qed simp

text \<open>The cleanup only updates artifacts and drops the streams of runs that have ended.\<close>

inductive tidy_step :: "runner_env \<Rightarrow> record_db \<Rightarrow> record_db \<Rightarrow> bool" for env where
  artifact: "kind \<noteq> ''run'' \<Longrightarrow> now \<noteq> zero_time \<Longrightarrow> tidy_step env db (fst (update_record (xr_json env) now kind u db))"
| expire: "now \<noteq> zero_time \<Longrightarrow> at_phase env db r (phase_of p) \<Longrightarrow> known_phase (phase_of p) \<Longrightarrow> py_state p \<noteq> ''running'' \<Longrightarrow>
    py_streams p \<Longrightarrow> tidy_step env db (fst (update_run env now r (p\<lparr>py_streams := False\<rparr>) validity db))"

abbreviation tidy_steps :: "runner_env \<Rightarrow> record_db \<Rightarrow> record_db \<Rightarrow> bool" where
  "tidy_steps env \<equiv> (tidy_step env)\<^sup>*\<^sup>*"

definition tidies :: "runner_env \<Rightarrow> runner_state \<Rightarrow> runner_state \<Rightarrow> bool" where
  "tidies env st st' \<longleftrightarrow> tidy_steps env (rn_db st) (rn_db st') \<and> rn_running st' = rn_running st"

lemma tidies_refl [simp]: "tidies env st st"
  by (simp add: tidies_def)

lemma tidies_trans: "tidies env st st1 \<Longrightarrow> tidies env st1 st2 \<Longrightarrow> tidies env st st2"
  unfolding tidies_def using rtranclp_trans by metis

lemma tidy_run_steps: "tidy_steps env db db' \<Longrightarrow> run_steps env db db'"
proof (induction rule: rtranclp_induct)
  case (step y z)
  from step.hyps(2) have "run_steps env y z"
  proof cases
    case (artifact kind now u)
    then show ?thesis by (auto intro: run_step.update)
  next
    case (expire now r p validity)
    then show ?thesis using steps_move [OF expire(2,3) expire_move [OF expire(4-6)]] by simp
  qed
  with step.IH show ?case by simp
qed simp

lemma tidy_artifact: "now \<noteq> zero_time \<Longrightarrow> tidy_steps env db (fst (update_artifact env now r a db))"
  by (auto simp: update_artifact_def update_observation_def intro!: r_into_rtranclp tidy_step.artifact)

lemma tidy_expire:
  "\<lbrakk>now \<noteq> zero_time; at_phase env db r (phase_of p); known_phase (phase_of p); py_state p \<noteq> ''running''; py_streams p\<rbrakk>
     \<Longrightarrow> tidy_steps env db (fst (update_run env now r (p\<lparr>py_streams := False\<rparr>) validity db))"
  by (rule r_into_rtranclp) (rule tidy_step.expire)

lemma remove_blobs_tidies:
  assumes "now \<noteq> zero_time"
  shows "tidies env st (fst (remove_blobs env now limit protected hashes rs n st))"
proof (induction rs arbitrary: n st)
  case (Cons r rs)
  show ?case
  proof (cases "xr_decode_artifact env (du_payload r)")
    case (Some a)
    obtain db out where u: "update_artifact env now r (a\<lparr>ap_storage := ''deleted''\<rparr>) (rn_db st) = (db, out)" by (rule prod.exhaust)
    let ?st = "st\<lparr>rn_db := db, rn_files := map_del (blob_path env (ap_hash a)) (rn_files st)\<rparr>"
    have "tidy_steps env (rn_db st) db" using tidy_artifact [OF assms, of env "rn_db st" r "a\<lparr>ap_storage := ''deleted''\<rparr>"] u by simp
    then have one: "tidies env st ?st" by (simp add: tidies_def)
    show ?thesis using Cons.IH one tidies_trans [OF one Cons.IH] by (cases out) (auto simp: Some u)
  qed (simp add: Cons.IH)
qed simp

lemma remove_streams_tidies:
  assumes "now \<noteq> zero_time" "at_phase env (rn_db st) r (phase_of p)" "known_phase (phase_of p)" "py_state p \<noteq> ''running''"
  shows "tidies env st (fst (remove_streams env now limit r p n st))"
proof (cases "py_streams p")
  case True
  have "tidy_steps env (rn_db st) (fst (update_run env now r (p\<lparr>py_streams := False\<rparr>) (du_validity r) (rn_db st)))"
    by (rule tidy_expire [OF assms(1,2,3,4) True])
  then show ?thesis by (auto simp: remove_streams_def tidies_def split: sum.splits prod.splits)
qed (simp add: remove_streams_def)

lemma remove_runs_tidies:
  assumes "now \<noteq> zero_time" "\<forall>r \<in> set runs. \<forall>p. xr_decode env (du_payload r) = Some p \<longrightarrow>
      known_phase (phase_of p) \<and> at_phase env (rn_db st) r (phase_of p)"
  shows "tidies env st (fst (remove_runs env now limit protected hashes rs runs n st))"
  using assms(2)
proof (induction runs arbitrary: n st)
  case (Cons r runs)
  show ?case
  proof (cases "xr_decode env (du_payload r)")
    case None
    then show ?thesis using Cons by simp
  next
    case (Some p)
    show ?thesis
    proof (cases "limit \<le> n \<or> py_state p = ''running''")
      case True
      then show ?thesis using Cons Some by auto
    next
      case False
      obtain st1 o1 where s: "remove_streams env now limit r p n st = (st1, o1)" by (rule prod.exhaust)
      have a1: "tidies env st st1"
        using remove_streams_tidies [OF assms(1), of env st r p limit n] Cons.prems Some False s by simp
      show ?thesis
      proof (cases o1)
        case (Inl e)
        then show ?thesis using a1 False by (simp add: Some s)
      next
        case (Inr n1)
        obtain st2 o2 where b: "remove_blobs env now limit protected hashes (artifacts_of env rs (du_id r)) n1 st1 = (st2, o2)"
          by (rule prod.exhaust)
        have a2: "tidies env st st2"
          using remove_blobs_tidies [OF assms(1), of env st1 limit protected hashes "artifacts_of env rs (du_id r)" n1] b
            tidies_trans [OF a1] by simp
        then have ph: "\<forall>x \<in> set runs. \<forall>p. xr_decode env (du_payload x) = Some p \<longrightarrow>
            known_phase (phase_of p) \<and> at_phase env (rn_db st2) x (phase_of p)"
          using Cons.prems at_phase_mono [OF tidy_run_steps, of env "rn_db st" "rn_db st2"] a2 unfolding tidies_def list.set_intros
          by (meson list.set_intros(2))
        show ?thesis using a2 False tidies_trans [OF a2 Cons.IH [OF ph]]
          by (cases o2) (auto simp: Some s Inr b)
      qed
    qed
  qed
qed simp

lemma expired_runs_sub: "set (expired_runs env now protected runs) \<subseteq> set runs"
  by (auto simp: expired_runs_def in_set_enumerate_eq)

lemma cleanup_tidies:
  assumes "now \<noteq> zero_time" "db_good env (rn_db st)"
  shows "tidies env st (fst (cleanup_expired_runs env now limit st))"
proof -
  have frame: "tidies env st (x\<lparr>rn_cache := t\<rparr>) = tidies env st x" for x t by (simp add: tidies_def)
  have runs: "tidies env st x"
    if q: "query_records (xr_lower env) (xr_json env) (every_record env ''run'') (rn_db st) = Inr page"
      "cleanup_plan env now rs (pg_records page) t = Some (protected, expired, hashes)"
      "remove_runs env now k protected hashes rs expired 0 st = (x, o1)" for page rs t protected expired hashes k x o1
  proof -
    have sub: "r \<in> set (db_records (rn_db st)) \<and> du_kind r = ''run''" if "r \<in> set expired" for r
    proof -
      have "r \<in> set (pg_records page)"
        using q(2) that expired_runs_sub by (fastforce simp: cleanup_plan_def Let_def by_retention_def split: if_splits prod.splits)
      then show ?thesis using query_records_sub [OF q(1)] by (auto simp: base_match_def every_record_def column_filter_def)
    qed
    have "\<forall>r \<in> set expired. \<forall>p. xr_decode env (du_payload r) = Some p \<longrightarrow>
        known_phase (phase_of p) \<and> at_phase env (rn_db st) r (phase_of p)"
      using sub record_phase [OF assms(2)] stored_phase [OF assms(2)] by blast
    from remove_runs_tidies [OF assms(1) this, of k protected hashes rs 0] show ?thesis using q(3) by simp
  qed
  show ?thesis
    unfolding cleanup_expired_runs_def
    by (auto split: sum.splits option.splits prod.splits simp: frame dest: runs)
qed

lemma tidies_advances: "tidies env st st' \<Longrightarrow> advances env st st'"
  by (simp add: tidies_def advances_def tidy_run_steps)

lemma recover_ok:
  assumes "codec_keeps_phase env" "now \<noteq> zero_time" "db_good env (rn_db st)"
  shows "advances env st (fst (recover env now st))"
proof -
  let ?st = "st\<lparr>rn_files := recover_cache_swaps env (rn_files st)\<rparr>"
  show ?thesis
  proof (cases "query_records (xr_lower env) (xr_json env) (every_record env ''run'') (rn_db st)")
    case (Inl e)
    then show ?thesis by (simp add: recover_def advances_def)
  next
    case (Inr page)
    have "\<forall>r \<in> set (pg_records page). du_kind r = ''run'' \<and> (\<forall>p. xr_decode env (du_payload r) = Some p \<longrightarrow>
        known_phase (phase_of p) \<and> at_phase env (rn_db st) r (phase_of p))"
      using query_records_sub [OF Inr] record_phase [OF assms(3)] stored_phase [OF assms(3)]
      by (auto simp: base_match_def every_record_def column_filter_def)
    note one = interrupt_runs_steps [OF assms(2) this]
    obtain db out where i: "interrupt_runs env now (pg_records page) (rn_db st) = (db, out)" by (rule prod.exhaust)
    have a1: "advances env st (?st\<lparr>rn_db := db\<rparr>)" using one by (simp add: advances_def i)
    have "db_good env db" using good_steps [OF one assms(1,3)] by (simp add: i)
    then have "advances env (?st\<lparr>rn_db := db\<rparr>) (fst (cleanup_expired_runs env now 64 (?st\<lparr>rn_db := db\<rparr>)))"
      by (intro tidies_advances cleanup_tidies [OF assms(2)]) simp
    from advances_trans [OF a1 this] show ?thesis
      using a1 by (cases out) (auto simp: recover_def Let_def Inr i)
  qed
qed

section \<open>Reachable states\<close>

text \<open>What the other services write: no run records.\<close>

inductive other_write :: "json_env \<Rightarrow> record_db \<Rightarrow> record_db \<Rightarrow> bool" for j where
  create: "du_kind r \<noteq> ''run'' \<Longrightarrow> other_write j db (fst (create_record j r db))"
| update: "kind \<noteq> ''run'' \<Longrightarrow> now \<noteq> zero_time \<Longrightarrow> other_write j db (fst (update_record j now kind u db))"
| replace: "other_write j db (fst (replace_memo j q db))"
| import_report: "now \<noteq> zero_time \<Longrightarrow> other_write j db (fst (import_verification j now r hash parser db))"

text \<open>The steps of the system: the operations of the runner, the end of a process, writes of other services, changes
  of files by anybody, a crash (which loses the processes, and may come between the two writes of a reuse), and a
  restart. A process ends as cancelled only after it was cancelled.\<close>

inductive runner_step :: "runner_env \<Rightarrow> runner_state \<Rightarrow> runner_state \<Rightarrow> bool" for env where
  prepare: "prepare env fuel now f resolve ids q st = Some (st', out) \<Longrightarrow> runner_step env st st'"
| execute: "now \<noteq> zero_time \<Longrightarrow> execute env fuel now f resolve name ids starts plan ms st = Some (st', out) \<Longrightarrow> runner_step env st st'"
| ended: "now \<noteq> zero_time \<Longrightarrow> map_of (rn_running st) i = Some run \<Longrightarrow> (pe_reason e = Cancelled \<Longrightarrow> pr_cancelled run) \<Longrightarrow>
    runner_step env st (wait_for_run env now ids i e st)"
| inspect: "runner_step env st (fst (inspect env q st))"
| close: "runner_step env st (close_runner st)"
| others: "other_write (xr_json env) (rn_db st) db \<Longrightarrow> runner_step env st (st\<lparr>rn_db := db\<rparr>)"
| files: "runner_step env st (st\<lparr>rn_files := fs\<rparr>)"
| crash: "runner_step env st (st\<lparr>rn_running := []\<rparr>)"
| crash_reusing: "now \<noteq> zero_time \<Longrightarrow> load_run env (rn_db st) i = Inr (r, p) \<Longrightarrow> du_revision r = 1 \<Longrightarrow>
    runner_step env st (st\<lparr>rn_db := fst (update_run env now r (materializing now p) ''current'' (rn_db st)), rn_running := []\<rparr>)"
| restart: "now \<noteq> zero_time \<Longrightarrow> runner_step env st (fst (recover env now (st\<lparr>rn_running := []\<rparr>)))"

definition runner_start :: "cache_table \<Rightarrow> files \<Rightarrow> runner_state" where
  "runner_start t fs = \<lparr>rn_db = empty_db, rn_cache = t, rn_files = fs, rn_running = []\<rparr>"

definition runner_reachable :: "runner_env \<Rightarrow> runner_state \<Rightarrow> bool" where
  "runner_reachable env st \<longleftrightarrow> (\<exists>t fs. (runner_step env)\<^sup>*\<^sup>* (runner_start t fs) st)"

lemma other_write_steps: "other_write (xr_json env) db db' \<Longrightarrow> run_steps env db db'"
  by (induction rule: other_write.induct) (auto intro: r_into_rtranclp run_step.intros)

lemma cancelled_ok: "process_ok env db i run \<Longrightarrow> process_ok env db i (run\<lparr>pr_cancelled := True\<rparr>)"
  by (simp add: process_ok_def)

lemma cancel_run_ok:
  assumes "cancel_run i st = Inr st'" "running_ok env st"
  shows "rn_db st' = rn_db st" "running_ok env st'"
  using assms by (auto simp: cancel_run_def running_ok_def cancelled_ok split: option.splits if_splits)

lemma inspect_ok:
  assumes "running_ok env st"
  shows "rn_db (fst (inspect env q st)) = rn_db st" "running_ok env (fst (inspect env q st))"
proof -
  have "rn_db (fst (inspect env q st)) = rn_db st \<and> running_ok env (fst (inspect env q st))"
    unfolding inspect_def Let_def
    by (auto split: sum.splits if_splits simp: assms dest: cancel_run_ok [OF _ assms])
  then show "rn_db (fst (inspect env q st)) = rn_db st" "running_ok env (fst (inspect env q st))" by simp_all
qed

lemma close_lookup: "map_of (rn_running (close_runner st)) i = map_option (\<lambda>run. run\<lparr>pr_cancelled := True\<rparr>) (map_of (rn_running st) i)"
  by (simp add: close_runner_def map_of_map)

lemma close_ok:
  assumes "running_ok env st"
  shows "rn_db (close_runner st) = rn_db st" "running_ok env (close_runner st)"
proof -
  show db: "rn_db (close_runner st) = rn_db st" by (simp add: close_runner_def)
  have "process_ok env (rn_db st) i run" if r: "map_of (rn_running (close_runner st)) i = Some run" for i run
  proof -
    obtain x where "map_of (rn_running st) i = Some x" "run = x\<lparr>pr_cancelled := True\<rparr>" using r unfolding close_lookup by blast
    then show ?thesis using assms cancelled_ok unfolding running_ok_def by blast
  qed
  then show "running_ok env (close_runner st)" unfolding running_ok_def db by blast
qed

lemma no_process [simp]: "running_ok env (st\<lparr>rn_running := []\<rparr>)"
  by (simp add: running_ok_def)

lemma runner_step_ok:
  assumes "runner_step env st st'" "codec_keeps_phase env" "db_good env (rn_db st)" "running_ok env st"
  shows "run_steps env (rn_db st) (rn_db st') \<and> running_ok env st'"
  using assms
proof (induction rule: runner_step.induct)
  case (prepare fuel now f resolve ids q st st' out)
  note a = prepare_advances [OF prepare.hyps]
  show ?case using a advances_ok [OF a prepare.prems(3)] by (simp add: advances_def)
next
  case (execute now fuel f resolve name ids starts plan ms st st' out)
  then show ?case using execute_ok [OF execute.prems(1) execute.hyps(1) execute.prems(2,3) execute.hyps(2)] by simp
next
  case (ended now st i run e ids)
  show ?case using wait_for_run_ok [OF ended.hyps(1) ended.prems(3)] by simp
next
  case (inspect st q)
  then show ?case by (simp add: inspect_ok)
next
  case (close st)
  then show ?case by (simp add: close_ok)
next
  case (others st db)
  note steps = other_write_steps [OF others.hyps]
  then show ?case using others by (auto simp: running_ok_def intro: process_ok_mono [OF steps])
next
  case (crash_reusing now st i r p)
  note ld = load_run_phase [OF crash_reusing.prems(2) crash_reusing.hyps(2)]
  have ph: "phase_of p = (''prepared'', False)" by (rule ld(5) [OF crash_reusing.hyps(3)])
  have "run_steps env (rn_db st) (fst (update_run env now r (materializing now p) ''current'' (rn_db st)))"
    by (rule steps_move [OF crash_reusing.hyps(1) ld(1)]) (use ph moves_prepared(3) in \<open>simp add: phase_of_def materializing_def\<close>)
  then show ?case by (simp add: running_ok_def)
next
  case (restart now st)
  then have a: "advances env (st\<lparr>rn_running := []\<rparr>) (fst (recover env now (st\<lparr>rn_running := []\<rparr>)))"
    by (intro recover_ok) simp_all
  show ?case using a advances_ok [OF a no_process] by (simp add: advances_def)
qed (simp_all add: running_ok_def)

lemma runner_reachable_ok:
  assumes "runner_reachable env st" "codec_keeps_phase env"
  shows "db_good env (rn_db st)" "running_ok env st"
proof -
  obtain t fs where "(runner_step env)\<^sup>*\<^sup>* (runner_start t fs) st" using assms(1) by (auto simp: runner_reachable_def)
  then have "db_good env (rn_db st) \<and> running_ok env st"
  proof (induction rule: rtranclp_induct)
    case base
    show ?case by (simp add: runner_start_def db_good_def empty_db_inv lifecycle_empty running_ok_def)
  next
    case (step y z)
    then show ?case using runner_step_ok [OF step.hyps(2) assms(2)] good_steps [OF _ assms(2)] by blast
  qed
  then show "db_good env (rn_db st)" "running_ok env st" by simp_all
qed

text \<open>The phases of a run, in the order of its revisions, are a path of the machine.\<close>

definition run_path :: "phase list \<Rightarrow> bool" where
  "run_path xs \<longleftrightarrow> xs \<noteq> [] \<and> hd xs = (''prepared'', False) \<and> (\<forall>k. Suc k < length xs \<longrightarrow> run_moves (xs ! k) (xs ! Suc k))"

definition phases_of :: "runner_env \<Rightarrow> record_db \<Rightarrow> string \<Rightarrow> phase option list" where
  "phases_of env db i = map (row_phase env) (sort_key rv_revision (filter (\<lambda>v. rv_record_id v = i) (db_revisions db)))"

end
