(* ===== verification/RunnerPromises.thy ===== *)
theory RunnerPromises
  imports RunnerLifecycle
begin

text \<open>
  What the runner promises: runs follow their lifecycle and start once, a restart ends orphaned runs, reuse only
  restores verified results and can be undone, retention spares what is referenced.
\<close>

section \<open>The lifecycle of a run\<close>

text \<open>Every transition raises the rank of the phase, so a run has at most four revisions.\<close>

definition phase_rank :: "phase \<Rightarrow> nat" where
  "phase_rank a = (if a = (''prepared'', False) then 0 else if a \<in> set [(''running'', True), (''materializing'', False)] then 1
     else if snd a then 2 else 3)"

lemma rank_rises: "run_moves a b \<Longrightarrow> phase_rank a < phase_rank b"
  unfolding run_moves_def
proof (elim disjE conjE)
  assume ab: "a = (''prepared'', False)" "b \<in> set [(''running'', True), (''failed'', False), (''materializing'', False)]"
  have "list_all (\<lambda>b. phase_rank (''prepared'', False) < phase_rank b) [(''running'', True), (''failed'', False), (''materializing'', False)]"
    by code_simp
  with ab show ?thesis unfolding list_all_iff by blast
next
  assume ab: "a = (''running'', True)" "fst b \<in> set ended_states" "snd b"
  have "list_all (\<lambda>s. phase_rank (''running'', True) < phase_rank (s, True)) ended_states" by code_simp
  with ab show ?thesis unfolding list_all_iff by (metis prod.collapse)
next
  assume ab: "a = (''materializing'', False)" "b \<in> set [(''reused'', False), (''failed'', False), (''interrupted'', False)]"
  have "list_all (\<lambda>b. phase_rank (''materializing'', False) < phase_rank b) [(''reused'', False), (''failed'', False), (''interrupted'', False)]"
    by code_simp
  with ab show ?thesis unfolding list_all_iff by blast
next
  assume ab: "fst a \<in> set ended_states" "snd a" "b = (fst a, False)"
  have "list_all (\<lambda>s. phase_rank (s, True) < phase_rank (s, False)) ended_states" by code_simp
  with ab show ?thesis unfolding list_all_iff by (metis prod.collapse)
qed

lemma rank_small: "phase_rank a \<le> 3"
  by (simp add: phase_rank_def)

lemma run_path_rank: "run_path xs \<Longrightarrow> k < length xs \<Longrightarrow> k \<le> phase_rank (xs ! k)"
proof (induction k)
  case (Suc k)
  then have "run_moves (xs ! k) (xs ! Suc k)" by (simp add: run_path_def)
  with Suc rank_rises [of "xs ! k" "xs ! Suc k"] show ?case by simp
qed simp

lemma run_path_short: "run_path xs \<Longrightarrow> length xs \<le> 4"
  using run_path_rank [of xs "length xs - 1"] rank_small [of "xs ! (length xs - 1)"] by (cases xs) (auto simp: run_path_def)

lemma revision_rows:
  assumes "db_inv j db" "r \<in> set (db_records db)"
  defines "rows \<equiv> sort_key rv_revision (filter (\<lambda>v. rv_record_id v = du_id r) (db_revisions db))"
  shows "map rv_revision rows = [1..<Suc (du_revision r)]"
proof -
  have keys: "distinct (map rev_key (db_revisions db))"
    and nums: "\<And>n. (du_id r, n) \<in> rev_key ` set (db_revisions db) \<longleftrightarrow> 1 \<le> n \<and> n \<le> du_revision r"
    using assms(1,2) by (simp_all add: db_inv_def history_inv_def)
  have "distinct (map rv_revision (filter (\<lambda>v. rv_record_id v = du_id r) (db_revisions db)))"
    using keys by (induction "db_revisions db") (auto simp: distinct_map inj_on_def rev_key_def)
  then have d: "distinct (map rv_revision rows)"
    unfolding rows_def by (metis distinct_map_sort_key)
  have "set (map rv_revision rows) = {1..<Suc (du_revision r)}"
  proof -
    have "n \<in> rv_revision ` set rows \<longleftrightarrow> (du_id r, n) \<in> rev_key ` set (db_revisions db)" for n
      unfolding rows_def by (force simp: rev_key_def image_iff)
    then show ?thesis by (intro set_eqI) (simp only: set_map nums atLeastLessThan_iff less_Suc_eq_le)
  qed
  moreover have "sorted (map rv_revision rows)" by (simp add: rows_def)
  ultimately show ?thesis using d by (intro sorted_distinct_set_unique) (simp_all del: upt_Suc)
qed

text \<open>C7: In every reachable state, whatever processes, services, crashes and restarts interleave, the phases of the
  revisions of a run are a path of the lifecycle from prepared on: a run is never revived, never recorded twice, and
  has at most four revisions.\<close>

theorem run_lifecycle:
  assumes "runner_reachable env st" "codec_keeps_phase env" "r \<in> set (db_records (rn_db st))" "du_kind r = ''run''"
  shows "\<exists>xs. phases_of env (rn_db st) (du_id r) = map Some xs \<and> run_path xs \<and> length xs = du_revision r \<and> du_revision r \<le> 4"
proof -
  have good: "db_inv (xr_json env) (rn_db st)" "lifecycle env (rn_db st)"
    using runner_reachable_ok(1) [OF assms(1,2)] by (simp_all add: db_good_def)
  let ?rows = "sort_key rv_revision (filter (\<lambda>v. rv_record_id v = du_id r) (db_revisions (rn_db st)))"
  let ?f = "\<lambda>v. the (row_phase env v)" let ?xs = "map ?f ?rows"
  have nums: "map rv_revision ?rows = [1..<Suc (du_revision r)]" by (rule revision_rows [OF good(1) assms(3)])
  then have len: "length ?rows = du_revision r" by (metis length_map length_upt diff_Suc_1)
  have num: "rv_revision (?rows ! k) = Suc k" if "k < length ?rows" for k
    using that arg_cong [OF nums, of "\<lambda>xs. xs ! k"] len by (simp del: upt_Suc)
  have mem: "v \<in> set (db_revisions (rn_db st))" "rv_record_id v = du_id r" if "v \<in> set ?rows" for v using that by auto
  have known: "row_phase env v = Some (?f v)" if "v \<in> set ?rows" for v
    using known_phases [OF good assms(3,4) mem [OF that]] by auto
  have path: "run_path ?xs"
    unfolding run_path_def
  proof (intro conjI allI impI)
    have pos: "0 < length ?rows"
    proof -
      have "revision_of r \<in> set ?rows" using good(1) assms(3) by (simp add: db_inv_def history_inv_def revision_of_def)
      then show ?thesis by (metis length_pos_if_in_set)
    qed
    then show ne: "?xs \<noteq> []" by (metis length_map length_greater_0_conv)
    have h: "hd ?xs = ?f (?rows ! 0)" unfolding hd_conv_nth [OF ne] using pos by (rule nth_map)
    have z: "?rows ! 0 \<in> set ?rows" using pos by (rule nth_mem)
    have "rv_revision (?rows ! 0) = 1" using num [OF pos] by simp
    then have "row_phase env (?rows ! 0) = Some (''prepared'', False)"
      using good(2) assms(3,4) mem [OF z] by (auto simp: lifecycle_def)
    then show "hd ?xs = (''prepared'', False)" unfolding h by simp
    fix k assume k: "Suc k < length ?xs"
    let ?v = "?rows ! k" and ?w = "?rows ! Suc k"
    have vw: "?v \<in> set ?rows" "?w \<in> set ?rows" using k by (metis Suc_lessD length_map nth_mem)+
    have "rows_move env ?v ?w"
      using good(2) assms(3,4) mem [OF vw(1)] mem [OF vw(2)] num [of k] num [of "Suc k"] k unfolding lifecycle_def by auto
    then show "run_moves (?xs ! k) (?xs ! Suc k)" using k known [OF vw(1)] known [OF vw(2)] by (auto simp: rows_move_def)
  qed
  have "phases_of env (rn_db st) (du_id r) = map Some ?xs"
    using known by (auto simp: phases_of_def)
  then show ?thesis using path run_path_short [OF path] len by (intro exI [of _ ?xs]) simp
qed

section \<open>A plan starts once\<close>

lemma update_run_revision:
  assumes "update_run env now r p validity db = (db1, Inr r1)"
  shows "du_revision r1 = Suc (du_revision r)" "revision_of r1 \<in> set (db_revisions db1)" "du_id r1 = du_id r"
    "r1 \<in> set (db_records db1)"
proof -
  let ?u = "\<lparr>ru_project = xr_id env, ru_workspace = xr_id env, ru_id = du_id r, ru_expected = du_revision r,
      ru_payload = xr_encode env p, ru_evidence = du_evidence r, ru_validity = validity, ru_supersedes = []\<rparr>"
  have "update_record (xr_json env) now ''run'' ?u db = (db1, Inr r1)"
    using assms(1) by (auto simp: update_run_def Let_def update_observation_def observation_kind_def split: if_splits)
  then have tx: "update_tx (xr_json env) now ''run'' ?u db = Inr (r1, db1)"
    by (auto simp: update_record_def transact_def split: if_splits sum.splits)
  obtain old where c: "get_record (ru_project ?u) (ru_workspace ?u) (ru_id ?u) db = Inr old" "du_revision old = ru_expected ?u"
    "r1 = updated_record now ?u old" "db1 = (replace_row r1 db)\<lparr>db_revisions := db_revisions db @ [revision_of r1]\<rparr>"
    using update_tx_cases [OF tx] by metis
  note o = get_record_Inr [OF c(1)]
  show "du_revision r1 = Suc (du_revision r)" "revision_of r1 \<in> set (db_revisions db1)" "du_id r1 = du_id r"
    using c o by (simp_all add: updated_record_def)
  then show "r1 \<in> set (db_records db1)" using o by (auto simp: c(4) replace_row_def image_iff intro!: bexI [of _ old])
qed

definition has_revision :: "record_db \<Rightarrow> string \<Rightarrow> nat \<Rightarrow> bool" where
  "has_revision db i n \<longleftrightarrow> (\<exists>v \<in> set (db_revisions db). rv_record_id v = i \<and> rv_revision v = n)"

lemma has_revision_mono: "run_steps env db db' \<Longrightarrow> has_revision db i n \<Longrightarrow> has_revision db' i n"
  using run_steps_rows by (fastforce simp: has_revision_def)

lemma updated_has_revision:
  "update_run env now r p validity db = (db1, Inr r1) \<Longrightarrow> has_revision db1 (du_id r) (Suc (du_revision r))"
  using update_run_revision [of env now r p validity db db1 r1]
  by (auto simp: has_revision_def revision_of_def intro!: bexI [of _ "revision_of r1"])

lemma start_process_started:
  assumes "start_process env now starts r p st = (st', Inr a)"
  shows "has_revision (rn_db st') (du_id r) (Suc (du_revision r))"
proof -
  obtain db1 o1 where u: "update_run env now r (started_payload now p) ''current'' (rn_db st) = (db1, o1)" by (rule prod.exhaust)
  have "\<exists>r1. o1 = Inr r1 \<and> rn_db st' = db1"
    using assms unfolding start_process_def Let_def u prod.case by (auto split: sum.splits if_splits)
  then show ?thesis using updated_has_revision u by blast
qed

lemma reuse_entry_started:
  assumes "now \<noteq> zero_time" "codec_keeps_phase env" "phase_of p = (''prepared'', False)"
    "reuse_entry env now name ids m r p entry st = (st', Inr a)"
  shows "has_revision (rn_db st') (du_id r) (Suc (du_revision r))"
proof -
  let ?p1 = "materializing now p"
  obtain db1 o1 where u: "update_run env now r ?p1 ''current'' (rn_db st) = (db1, o1)" by (rule prod.exhaust)
  obtain fs1 o2 where f: "restore_outputs env now name m (cx_outputs entry) (rn_files st) = (fs1, o2)" by (rule prod.exhaust)
  obtain r1 where r1: "o1 = Inr r1" using assms(4) by (cases o1) (auto simp: reuse_entry_def Let_def u)
  obtain created where c: "o2 = Inr created" using assms(4) by (cases o2) (auto simp: reuse_entry_def Let_def u r1 f)
  obtain after where sn: "snapshot_patterns env fs1 (py_outputs p) ''outputs'' = Inr after"
    using assms(4) by (cases "snapshot_patterns env fs1 (py_outputs p) ''outputs''") (auto simp: reuse_entry_def Let_def u r1 f c)
  obtain db2 refs partial where rr: "record_reused env now (du_id r) (cx_outputs entry) ids db1 = (db2, refs, partial)"
    by (metis prod_cases3)
  obtain db3 o4 where l: "update_run env now r1 (reused_payload now after refs partial ?p1) ''current'' db2 = (db3, o4)"
    by (rule prod.exhaust)
  have st: "rn_db st' = db3" using assms(4) by (cases o4) (auto simp: reuse_entry_def Let_def u r1 f c sn rr l)
  have "phase_of ?p1 = (''materializing'', False)"
    using assms(3) by (simp add: phase_of_def materializing_def)
  then have "at_phase env db1 r1 (''materializing'', False)"
    using update_run_Inr(1) [OF u [unfolded r1] assms(2)] by simp
  note at2 = at_phase_mono [OF record_reused_steps [OF rr] this]
  have "run_steps env db2 db3"
    using steps_move [OF assms(1) at2, of "reused_payload now after refs partial ?p1" "''current''"] moves_prepared(4) l by simp
  then have "run_steps env db1 db3" using record_reused_steps [OF rr] by (rule rtranclp_trans [rotated])
  then show ?thesis unfolding st by (rule has_revision_mono) (rule updated_has_revision [OF u [unfolded r1]])
qed

lemma execute_started:
  assumes "now \<noteq> zero_time" "codec_keeps_phase env" "db_good env (rn_db st)"
    "execute env fuel now f resolve name ids starts plan ms st = Some (st', Inr a)"
  shows "has_revision (rn_db st') plan 2"
proof -
  let ?l = "try_then (normalize_limits (time_request ms)) (\<lambda>_. load_run env (rn_db st) plan)"
  obtain r p where l: "valid_run_id plan" "?l = Inr (r, p)" "du_revision r = 1" "py_state p = ''prepared''"
    using assms(4) unfolding execute_def by (auto split: if_splits sum.splits prod.splits)
  then have "load_run env (rn_db st) plan = Inr (r, p)" by auto
  note ld = load_run_phase [OF assms(3) this]
  have ph: "phase_of p = (''prepared'', False)" by (rule ld(5) [OF l(3)])
  consider cb where "execute_cache_hit env fuel now f name ids cb r p st = Some (st', Inr a)"
    | "start_process env now starts r p st = (st', Inr a)"
    using assms(4) l(3,4) unfolding execute_def l(2) by (auto simp: l(1) split: if_splits sum.splits)
  then have "has_revision (rn_db st') (du_id r) (Suc (du_revision r))"
  proof cases
    case 1
    then obtain m entry where "reuse_entry env now name ids m r p entry st = (st', Inr a)"
      unfolding execute_cache_hit_def Let_def by (auto split: sum.splits prod.splits option.splits)
    then show ?thesis by (rule reuse_entry_started [OF assms(1,2) ph])
  next
    case 2
    then show ?thesis by (rule start_process_started)
  qed
  then show ?thesis using ld(2) l(3) by (simp add: numeral_2_eq_2)
qed

lemma execute_refused:
  assumes "db_inv (xr_json env) (rn_db st)" "has_revision (rn_db st) plan 2"
    "execute env fuel now f resolve name ids starts plan ms st = Some (st', out)"
  shows "st' = st \<and> (\<exists>e. out = Inl e)"
proof -
  have "du_revision r \<noteq> 1" if "load_run env (rn_db st) plan = Inr (r, p)" for r p
  proof -
    have g: "get_record (xr_id env) (xr_id env) plan (rn_db st) = Inr r"
      using that by (auto simp: load_run_def split: if_splits option.splits)
    note r = get_record_Inr [OF g]
    have "(du_id r, 2) \<in> rev_key ` set (db_revisions (rn_db st))"
      using assms(2) r by (force simp: has_revision_def rev_key_def)
    moreover have "\<forall>n. (du_id r, n) \<in> rev_key ` set (db_revisions (rn_db st)) \<longleftrightarrow> 1 \<le> n \<and> n \<le> du_revision r"
      using assms(1) r unfolding db_inv_def history_inv_def by blast
    ultimately have "2 \<le> du_revision r" by blast
    then show ?thesis by simp
  qed
  then show ?thesis using assms(3) unfolding execute_def by (auto split: if_splits sum.splits prod.splits)
qed

text \<open>C6: A plan is executed at most once: after a successful execution, whatever happens in between, every further
  request to execute the plan fails and changes nothing.\<close>

theorem run_starts_once:
  assumes "runner_reachable env st" "codec_keeps_phase env" "now \<noteq> zero_time"
    "execute env fuel now f resolve name ids starts plan ms st = Some (st1, Inr a)"
    "(runner_step env)\<^sup>*\<^sup>* st1 st2"
    "execute env fuel2 now2 f2 resolve2 name2 ids2 starts2 plan ms2 st2 = Some (st3, out)"
  shows "st3 = st2 \<and> (\<exists>e. out = Inl e)"
proof -
  note good = runner_reachable_ok [OF assms(1,2)]
  have "runner_step env st st1" by (rule runner_step.execute [OF assms(3,4)])
  moreover obtain t fs where "(runner_step env)\<^sup>*\<^sup>* (runner_start t fs) st" using assms(1) by (auto simp: runner_reachable_def)
  ultimately have r1: "runner_reachable env st1"
    unfolding runner_reachable_def by (meson rtranclp.rtrancl_into_rtrancl)
  have "has_revision (rn_db st2) plan 2 \<and> runner_reachable env st2"
    using assms(5)
  proof (induction rule: rtranclp_induct)
    case base
    show ?case using execute_started [OF assms(3,2) good(1) assms(4)] r1 by simp
  next
    case (step y z)
    note y = runner_reachable_ok [OF step.IH [THEN conjunct2] assms(2)]
    have "run_steps env (rn_db y) (rn_db z)" using runner_step_ok [OF step.hyps(2) assms(2) y] by simp
    moreover have "runner_reachable env z"
      using step.IH step.hyps(2) unfolding runner_reachable_def by (meson rtranclp.rtrancl_into_rtrancl)
    ultimately show ?case using has_revision_mono step.IH by blast
  qed
  then show ?thesis using execute_refused [OF _ _ assms(6)] runner_reachable_ok(1) [OF _ assms(2)] by (auto simp: db_good_def)
qed

end
