(* ===== verification/RunnerRestart.thy ===== *)
theory RunnerRestart
  imports RunnerPromises
begin

text \<open>
  A restart: the runs whose processes are lost, and the proof that recovery (\<open>Recover\<close> of
  \<open>internal/runner/execute.go\<close>) ends all of them, also when the cleanup that follows stops with an error.
\<close>

section \<open>Updates of a run that is still at its revision\<close>

definition active_run :: "runner_env \<Rightarrow> durable \<Rightarrow> bool" where
  "active_run env r \<longleftrightarrow> owned (xr_id env) (xr_id env) r \<and> du_kind r = ''run'' \<and>
     (case xr_decode env (du_payload r) of None \<Rightarrow> False | Some p \<Rightarrow> py_state p = ''running'' \<or> py_state p = ''materializing'')"

text \<open>The payload of the run can be written.\<close>

definition storable :: "runner_env \<Rightarrow> run_payload \<Rightarrow> bool" where
  "storable env p \<longleftrightarrow> int (length (xr_encode env p)) \<le> maximum_plan \<and> jn_valid (xr_json env) (xr_encode env p)"

lemma run_never_collides: "du_kind r = ''run'' \<Longrightarrow> \<not> collides j r x"
  by (simp add: collides_def topic_slot_def successor_slot_def)

lemma next_revision_free:
  assumes "db_inv j db" "r \<in> set (db_records db)" "v \<in> set (db_revisions db)" "rv_record_id v = du_id r"
  shows "rv_revision v \<noteq> Suc (du_revision r)"
proof
  assume n: "rv_revision v = Suc (du_revision r)"
  have "(du_id r, Suc (du_revision r)) \<in> rev_key ` set (db_revisions db)"
    using assms(3,4) n by (intro image_eqI [of _ _ v]) (simp_all add: rev_key_def)
  moreover have "\<forall>n. (du_id r, n) \<in> rev_key ` set (db_revisions db) \<longleftrightarrow> 1 \<le> n \<and> n \<le> du_revision r"
    using assms(1,2) unfolding db_inv_def history_inv_def by blast
  ultimately show False by (meson Suc_n_not_le_n)
qed

lemma update_run_succeeds:
  assumes "db_inv (xr_json env) db" "r \<in> set (db_records db)" "owned (xr_id env) (xr_id env) r" "du_kind r = ''run''"
    "storable env p" "validity \<noteq> []"
  obtains r1 where "update_run env now r p validity db =
      ((replace_row r1 db)\<lparr>db_revisions := db_revisions db @ [revision_of r1]\<rparr>, Inr r1)"
    "du_id r1 = du_id r" "du_payload r1 = xr_encode env p" "du_kind r1 = ''run''"
proof -
  let ?u = "\<lparr>ru_project = xr_id env, ru_workspace = xr_id env, ru_id = du_id r, ru_expected = du_revision r,
      ru_payload = xr_encode env p, ru_evidence = du_evidence r, ru_validity = validity, ru_supersedes = []\<rparr>"
  let ?r1 = "updated_record now ?u r" and ?j = "xr_json env"
  have r: "records_inv ?j (db_records db)" "\<not> archive_record_bad ?j r"
    using assms(1,2) by (auto simp: db_inv_def records_inv_def)
  have id: "du_id r \<noteq> []" "du_revision r \<noteq> 0" "xr_id env \<noteq> []" "int (length (du_evidence r)) \<le> 128"
    using r(2) assms(3) by (auto simp: archive_record_bad_def payload_ok_def owned_def)
  have g: "update_guard ?j ?u" using id assms(5,6) by (simp add: update_guard_def payload_ok_def storable_def maximum_plan_def)
  have dist: "ids_distinct db" using r(1) by (simp add: records_inv_def ids_distinct_def)
  have get: "get_record (xr_id env) (xr_id env) (du_id r) db = Inr r"
    by (rule get_record_intro [OF dist assms(2,3) refl])
  have id1: "du_id ?r1 = du_id r" "du_kind ?r1 = ''run''" "du_payload ?r1 = xr_encode env p" "du_revision ?r1 = Suc (du_revision r)"
    using assms(4) by (simp_all add: updated_record_def)
  have up: "sql_update_record ?j True r ?r1 db = Inr (replace_row ?r1 db)"
    using run_never_collides [OF id1(2)] assms(4) by (simp add: sql_update_record_def topic_trigger_def list_ex_iff)
  have fresh: "\<not> list_ex (\<lambda>x. rv_record_id x = du_id r \<and> rv_revision x = Suc (du_revision r)) (db_revisions db)"
    using next_revision_free [OF assms(1,2)] by (auto simp: list_ex_iff)
  have there: "list_ex (\<lambda>x. du_id x = du_id r) (db_records (replace_row ?r1 db))"
    using assms(2) id1(1) by (auto simp: list_ex_iff replace_row_def)
  have "sql_insert_revision (revision_of ?r1) (replace_row ?r1 db) =
      Inr ((replace_row ?r1 db)\<lparr>db_revisions := db_revisions db @ [revision_of ?r1]\<rparr>)"
    using fresh there id1 by (simp add: sql_insert_revision_def revision_of_def)
  then have "update_tx ?j now ''run'' ?u db = Inr (?r1, (replace_row ?r1 db)\<lparr>db_revisions := db_revisions db @ [revision_of ?r1]\<rparr>)"
    using get up assms(4) by (simp add: update_tx_def Let_def prefix_error_def)
  then have "update_run env now r p validity db = ((replace_row ?r1 db)\<lparr>db_revisions := db_revisions db @ [revision_of ?r1]\<rparr>, Inr ?r1)"
    using g assms(5) by (simp add: update_run_def Let_def update_observation_def observation_kind_def update_record_def transact_def storable_def)
  then show thesis using that id1 by blast
qed

section \<open>Every active run is interrupted\<close>

definition interrupted_row :: "runner_env \<Rightarrow> record_db \<Rightarrow> string \<Rightarrow> bool" where
  "interrupted_row env db i \<longleftrightarrow> (\<exists>v \<in> set (db_revisions db). rv_record_id v = i \<and>
     (\<exists>k. row_phase env v = Some (''interrupted'', k)))"

lemma interrupted_row_mono: "run_steps env db db' \<Longrightarrow> interrupted_row env db i \<Longrightarrow> interrupted_row env db' i"
  using run_steps_rows by (fastforce simp: interrupted_row_def)

text \<open>The runs a recovery can still work on.\<close>

definition recoverable :: "runner_env \<Rightarrow> time \<Rightarrow> record_db \<Rightarrow> durable list \<Rightarrow> bool" where
  "recoverable env now db rs \<longleftrightarrow> distinct (map du_id rs) \<and>
     (\<forall>r \<in> set rs. r \<in> set (db_records db) \<and> owned (xr_id env) (xr_id env) r \<and> du_kind r = ''run'' \<and>
        (\<forall>p. xr_decode env (du_payload r) = Some p \<longrightarrow> active_run env r \<longrightarrow> storable env (interrupted now p)))"

lemma run_decodes:
  assumes "db_good env db" "r \<in> set (db_records db)" "du_kind r = ''run''"
  obtains p where "xr_decode env (du_payload r) = Some p" "known_phase (phase_of p)"
proof -
  have "revision_of r \<in> set (db_revisions db)" using assms(1,2) by (simp add: db_good_def db_inv_def history_inv_def)
  then obtain a where "row_phase env (revision_of r) = Some a" "known_phase a"
    using known_phases [of "xr_json env" db env r "revision_of r"] assms by (auto simp: db_good_def revision_of_def)
  then show thesis using that by (auto simp: row_phase_def revision_of_def)
qed

lemma interrupt_one:
  assumes "codec_keeps_phase env" "now \<noteq> zero_time" "db_good env db" "recoverable env now db (r # rs)"
    "xr_decode env (du_payload r) = Some p" "known_phase (phase_of p)" "py_state p = ''running'' \<or> py_state p = ''materializing''"
  obtains db1 r1 where "update_run env now r (interrupted now p) ''unknown'' db = (db1, Inr r1)" "run_steps env db db1"
    "recoverable env now db1 rs" "interrupted_row env db1 (du_id r)"
    "\<And>x. x \<in> set (db_records db1) \<Longrightarrow> active_run env x \<Longrightarrow> x \<in> set (db_records db) \<and> du_id x \<noteq> du_id r"
proof -
  have r: "r \<in> set (db_records db)" "owned (xr_id env) (xr_id env) r" "du_kind r = ''run''" "storable env (interrupted now p)"
    using assms(4,5,7) by (auto simp: recoverable_def active_run_def)
  have inv: "db_inv (xr_json env) db" using assms(3) by (simp add: db_good_def)
  obtain r1 where u: "update_run env now r (interrupted now p) ''unknown'' db =
      ((replace_row r1 db)\<lparr>db_revisions := db_revisions db @ [revision_of r1]\<rparr>, Inr r1)"
    "du_id r1 = du_id r" "du_payload r1 = xr_encode env (interrupted now p)" "du_kind r1 = ''run''"
    by (rule update_run_succeeds [OF inv r(1,2,3,4), of "''unknown''" now]) auto
  let ?db = "(replace_row r1 db)\<lparr>db_revisions := db_revisions db @ [revision_of r1]\<rparr>"
  obtain q where q: "xr_decode env (xr_encode env (interrupted now p)) = Some q" "phase_of q = phase_of (interrupted now p)"
    using assms(1) unfolding codec_keeps_phase_def by blast
  have over: "py_state q = ''interrupted''" using q(2) by (simp add: phase_of_def interrupted_def)
  have quiet: "\<not> active_run env r1" using q(1) over by (simp add: active_run_def u(3))
  have "run_moves (phase_of p) (phase_of (interrupted now p))" by (rule interrupt_move [OF assms(6,7)])
  then have steps: "run_steps env db ?db"
    using steps_move [OF assms(2) stored_phase [OF assms(3) r(1) assms(5)], of "interrupted now p" "''unknown''"] u(1) by simp
  have rec: "\<And>x. x \<in> set (db_records ?db) \<longleftrightarrow> x = r1 \<or> x \<in> set (db_records db) \<and> du_id x \<noteq> du_id r"
    using r(1) u(2) by (auto simp: replace_row_def image_iff)
  have again: "recoverable env now ?db rs"
  proof -
    have "du_id r \<notin> du_id ` set rs" using assms(4) by (simp add: recoverable_def)
    then have "du_id x \<noteq> du_id r" if "x \<in> set rs" for x using that by (metis imageI)
    then show ?thesis using assms(4) rec unfolding recoverable_def distinct.simps list.map list.set by blast
  qed
  have row: "interrupted_row env ?db (du_id r)"
    using q u(2,3) by (auto simp: interrupted_row_def row_phase_def revision_of_def phase_of_def interrupted_def
        intro!: bexI [of _ "revision_of r1"])
  show thesis
  proof (rule that [OF u(1) steps again row])
    show "x \<in> set (db_records db) \<and> du_id x \<noteq> du_id r" if "x \<in> set (db_records ?db)" "active_run env x" for x
      using that(1) [unfolded rec] that(2) quiet by auto
  qed
qed

lemma interrupt_runs_all:
  assumes "codec_keeps_phase env" "now \<noteq> zero_time" "db_good env db" "recoverable env now db rs"
    "interrupt_runs env now rs db = (db', out)"
  shows "out = Inr () \<and> run_steps env db db' \<and>
    (\<forall>x \<in> set (db_records db'). active_run env x \<longrightarrow> x \<in> set (db_records db) \<and> du_id x \<notin> du_id ` set rs) \<and>
    (\<forall>r \<in> set rs. active_run env r \<longrightarrow> interrupted_row env db' (du_id r))"
  using assms(3-5)
proof (induction rs arbitrary: db)
  case (Cons r rs)
  have r: "r \<in> set (db_records db)" "du_kind r = ''run''" using Cons.prems(2) by (simp_all add: recoverable_def)
  obtain p where p: "xr_decode env (du_payload r) = Some p" "known_phase (phase_of p)"
    by (rule run_decodes [OF Cons.prems(1) r])
  show ?case
  proof (cases "py_state p = ''running'' \<or> py_state p = ''materializing''")
    case False
    then have quiet: "\<not> active_run env r" using p(1) by (simp add: active_run_def)
    have "interrupt_runs env now rs db = (db', out)" using Cons.prems(3) False p(1) by simp
    moreover have "recoverable env now db rs" using Cons.prems(2) by (auto simp: recoverable_def)
    ultimately have IH: "out = Inr () \<and> run_steps env db db' \<and>
        (\<forall>x \<in> set (db_records db'). active_run env x \<longrightarrow> x \<in> set (db_records db) \<and> du_id x \<notin> du_id ` set rs) \<and>
        (\<forall>r \<in> set rs. active_run env r \<longrightarrow> interrupted_row env db' (du_id r))"
      by (intro Cons.IH [OF Cons.prems(1)])
    have dist: "distinct (map du_id (db_records db))" using Cons.prems(1) by (simp add: db_good_def db_inv_def records_inv_def)
    have "du_id x \<noteq> du_id r" if "x \<in> set (db_records db)" "active_run env x" for x
      using that quiet r(1) dist by (metis distinct_map inj_on_def)
    with IH quiet show ?thesis by auto
  next
    case True
    obtain db1 r1 where u: "update_run env now r (interrupted now p) ''unknown'' db = (db1, Inr r1)" "run_steps env db db1"
      "recoverable env now db1 rs" "interrupted_row env db1 (du_id r)"
      "\<And>x. x \<in> set (db_records db1) \<Longrightarrow> active_run env x \<Longrightarrow> x \<in> set (db_records db) \<and> du_id x \<noteq> du_id r"
      using interrupt_one [OF assms(1,2) Cons.prems(1,2) p True] by blast
    have i: "interrupt_runs env now rs db1 = (db', out)" using Cons.prems(3) True p(1) u(1) by auto
    note IH = Cons.IH [OF good_steps [OF u(2) assms(1) Cons.prems(1)] u(3) i]
    have "interrupted_row env db' (du_id r)" using IH interrupted_row_mono u(4) by blast
    with IH u(5) rtranclp_trans [OF u(2)] show ?thesis by auto
  qed
qed auto

section \<open>The cleanup starts nothing\<close>

lemma update_tx_sources:
  assumes "update_tx j now kind u db = Inr (new, db')" "x \<in> set (db_records db')"
  shows "x \<in> set (db_records db) \<or> x = new \<and> du_kind new = kind \<and> du_payload new = ru_payload u"
proof -
  obtain old where c: "du_kind old = kind" "new = updated_record now u old"
    "db' = (replace_row new db)\<lparr>db_revisions := db_revisions db @ [revision_of new]\<rparr>"
    using update_tx_cases [OF assms(1)] by metis
  have "du_kind new = kind" "du_payload new = ru_payload u" using c(1) by (simp_all add: c(2) updated_record_def)
  then show ?thesis using assms(2) unfolding c(3) by (auto simp: replace_row_def split: if_splits)
qed

lemma update_record_sources:
  assumes "x \<in> set (db_records (fst (update_record j now kind u db)))"
  shows "x \<in> set (db_records db) \<or> du_kind x = kind \<and> du_payload x = ru_payload u"
proof (cases "update_guard j u \<and> (\<exists>y. update_tx j now kind u db = Inr y)")
  case True
  then obtain new db' where "update_tx j now kind u db = Inr (new, db')" "update_guard j u" by auto
  then show ?thesis using assms update_tx_sources [of j now kind u db new db' x] by (auto simp: update_record_def transact_def)
next
  case False
  then have "fst (update_record j now kind u db) = db"
    by (cases "update_tx j now kind u db") (auto simp: update_record_def transact_def)
  then show ?thesis using assms by simp
qed

lemma tidy_step_quiet:
  assumes "tidy_step env db db'" "codec_keeps_phase env" "x \<in> set (db_records db')" "active_run env x"
  shows "x \<in> set (db_records db)"
  using assms(1)
proof cases
  case (artifact kind now u)
  then show ?thesis using update_record_sources [of x "xr_json env" now kind u db] assms(3,4) by (auto simp: active_run_def)
next
  case (expire now r p validity)
  let ?p = "p\<lparr>py_streams := False\<rparr>"
  obtain q where q: "xr_decode env (xr_encode env ?p) = Some q" "phase_of q = phase_of ?p"
    using assms(2) unfolding codec_keeps_phase_def by blast
  have "py_state q = py_state p" using q(2) by (simp add: phase_of_def)
  moreover have "py_state p \<noteq> ''materializing''" using expire(4,6) by (auto simp: known_phase_def phase_of_def ended_states_def)
  ultimately have "\<not> active_run env x" if "du_payload x = xr_encode env ?p"
    using that q(1) expire(5) by (simp add: active_run_def)
  moreover have "x \<in> set (db_records db) \<or> du_payload x = xr_encode env ?p"
    using assms(3) update_record_sources
    unfolding expire(1) update_run_def update_observation_def Let_def by (fastforce split: if_splits)
  ultimately show ?thesis using assms(4) by blast
qed

lemma tidy_steps_quiet:
  "tidy_steps env db db' \<Longrightarrow> codec_keeps_phase env \<Longrightarrow> x \<in> set (db_records db') \<Longrightarrow> active_run env x \<Longrightarrow> x \<in> set (db_records db)"
  by (induction rule: rtranclp_induct) (auto dest: tidy_step_quiet)

section \<open>Recovery\<close>

definition owned_runs :: "runner_env \<Rightarrow> record_db \<Rightarrow> durable list" where
  "owned_runs env db = filter (\<lambda>r. owned (xr_id env) (xr_id env) r \<and> du_kind r = ''run'') (db_records db)"

lemma run_match:
  "base_match j (every_record env ''run'') r \<and> terms_match j (every_record env ''run'') [] r \<longleftrightarrow> owned (xr_id env) (xr_id env) r \<and> du_kind r = ''run''"
  by (auto simp: base_match_def every_record_def column_filter_def json_filter_def terms_match_def is_zero_time_def)

lemma run_page:
  assumes "xr_id env \<noteq> []" "int (length (owned_runs env db)) \<le> 10000"
  obtains page where "query_records (xr_lower env) (xr_json env) (every_record env ''run'') db = Inr page"
    "set (pg_records page) = set (owned_runs env db)" "distinct (map du_id (db_records db)) \<longrightarrow> distinct (map du_id (pg_records page))"
proof -
  let ?q = "every_record env ''run''" and ?k = "query_rank (xr_json env) []"
  have found: "filter (\<lambda>r. base_match (xr_json env) ?q r \<and> terms_match (xr_json env) ?q [] r) (db_records db) = owned_runs env db"
    unfolding owned_runs_def run_match ..
  have q: "rq_project ?q = xr_id env" "rq_workspace ?q = xr_id env" "rq_limit ?q = 10000" "rq_terms ?q = []"
    by (simp_all add: every_record_def)
  have all: "take 10000 (sort_key ?k (owned_runs env db)) = sort_key ?k (owned_runs env db)" using assms(2) by simp
  show thesis
  proof (rule that)
    show "query_records (xr_lower env) (xr_json env) ?q db = Inr \<lparr>pg_records = sort_key ?k (owned_runs env db),
        pg_matched = length (owned_runs env db), pg_complete = (length (owned_runs env db) \<le> 10000)\<rparr>"
      using assms by (simp add: query_records_def query_terms_def q found all Let_def)
    show "distinct (map du_id (db_records db)) \<longrightarrow> distinct (map du_id (pg_records \<lparr>pg_records = sort_key ?k (owned_runs env db),
        pg_matched = length (owned_runs env db), pg_complete = (length (owned_runs env db) \<le> 10000)\<rparr>))"
      using distinct_map_filter by (auto simp: distinct_map owned_runs_def inj_on_def)
  qed simp
qed

lemma recover_quiets:
  assumes "codec_keeps_phase env" "now \<noteq> zero_time" "db_good env (rn_db st)" "xr_id env \<noteq> []"
    "int (length (owned_runs env (rn_db st))) \<le> 10000"
    "\<forall>r \<in> set (db_records (rn_db st)). \<forall>p. active_run env r \<longrightarrow> xr_decode env (du_payload r) = Some p \<longrightarrow> storable env (interrupted now p)"
  shows "(\<forall>x \<in> set (db_records (rn_db (fst (recover env now st)))). \<not> active_run env x) \<and>
    (\<forall>r \<in> set (db_records (rn_db st)). active_run env r \<longrightarrow> interrupted_row env (rn_db (fst (recover env now st))) (du_id r)) \<and>
    rn_running (fst (recover env now st)) = rn_running st"
proof -
  let ?st = "st\<lparr>rn_files := recover_cache_swaps env (rn_files st)\<rparr>"
  obtain page where p: "query_records (xr_lower env) (xr_json env) (every_record env ''run'') (rn_db st) = Inr page"
    "set (pg_records page) = set (owned_runs env (rn_db st))"
    "distinct (map du_id (db_records (rn_db st))) \<longrightarrow> distinct (map du_id (pg_records page))"
    by (rule run_page [OF assms(4,5)])
  have dist: "distinct (map du_id (db_records (rn_db st)))" using assms(3) by (simp add: db_good_def db_inv_def records_inv_def)
  have "recoverable env now (rn_db st) (pg_records page)"
    using p(2) p(3) dist assms(6) by (auto simp: recoverable_def owned_runs_def)
  moreover obtain db out where i: "interrupt_runs env now (pg_records page) (rn_db st) = (db, out)" by (rule prod.exhaust)
  ultimately have all: "out = Inr ()" "run_steps env (rn_db st) db"
    "\<And>x. x \<in> set (db_records db) \<Longrightarrow> active_run env x \<Longrightarrow> x \<in> set (db_records (rn_db st)) \<and> du_id x \<notin> du_id ` set (pg_records page)"
    "\<And>r. r \<in> set (pg_records page) \<Longrightarrow> active_run env r \<Longrightarrow> interrupted_row env db (du_id r)"
    using interrupt_runs_all [OF assms(1-3), of "pg_records page" db out] by blast+
  let ?st1 = "?st\<lparr>rn_db := db\<rparr>" and ?st2 = "fst (cleanup_expired_runs env now 64 (?st\<lparr>rn_db := db\<rparr>))"
  have rec: "fst (recover env now st) = ?st2" using p(1) i all(1) by (simp add: recover_def)
  have in_page: "r \<in> set (pg_records page)" if "r \<in> set (db_records (rn_db st))" "active_run env r" for r
    using that p(2) by (auto simp: active_run_def owned_runs_def)
  have quiet: "\<not> active_run env x" if "x \<in> set (db_records db)" for x
    using all(3) [OF that] in_page by blast
  have "tidies env ?st1 ?st2" by (rule cleanup_tidies [OF assms(2)]) (use good_steps [OF all(2) assms(1,3)] in simp)
  then have t: "tidy_steps env db (rn_db ?st2)" "rn_running ?st2 = rn_running st" by (simp_all add: tidies_def)
  have "\<not> active_run env x" if "x \<in> set (db_records (rn_db ?st2))" for x
    using tidy_steps_quiet [OF t(1) assms(1) that] quiet by blast
  moreover have "interrupted_row env (rn_db ?st2) (du_id r)" if "r \<in> set (db_records (rn_db st))" "active_run env r" for r
    by (rule interrupted_row_mono [OF tidy_run_steps [OF t(1)] all(4) [OF in_page [OF that] that(2)]])
  ultimately show ?thesis unfolding rec using t(2) by blast
qed

text \<open>C10: After a restart no run of the workspace is left running or materializing, and every run that was has an
  interrupted revision, whatever the cleanup does afterwards, provided that at most 10000 runs are stored and the
  receipts of the interrupted runs fit.\<close>

theorem restart_ends_runs:
  assumes "runner_reachable env st" "codec_keeps_phase env" "now \<noteq> zero_time" "xr_id env \<noteq> []"
    "int (length (owned_runs env (rn_db st))) \<le> 10000"
    "\<forall>r \<in> set (db_records (rn_db st)). \<forall>p. active_run env r \<longrightarrow> xr_decode env (du_payload r) = Some p \<longrightarrow> storable env (interrupted now p)"
  defines "st' \<equiv> fst (recover env now (st\<lparr>rn_running := []\<rparr>))"
  shows "rn_running st' = [] \<and> (\<forall>x \<in> set (db_records (rn_db st')). \<not> active_run env x) \<and>
    (\<forall>r \<in> set (db_records (rn_db st)). active_run env r \<longrightarrow> interrupted_row env (rn_db st') (du_id r))"
  using recover_quiets [OF assms(2,3), of "st\<lparr>rn_running := []\<rparr>"] runner_reachable_ok(1) [OF assms(1,2)] assms(4-6)
  unfolding st'_def by auto

end
