(* ===== verification/RunnerDemo.thy ===== *)
theory RunnerDemo
  imports RunnerRestart
begin

text \<open>
  A concrete runner, on which the properties of the runner are instantiated: one workspace \<open>/w\<close>, one trusted
  capability, a codec that keeps the phase of a payload, and the states after preparing and starting its plan.
\<close>

definition demo_os :: os_env where
  "demo_os = \<lparr>env_realpath = Inr, env_lstat = (\<lambda>_. LstatFound), env_stat_dir = (\<lambda>_. Inr True),
     env_stat_file = (\<lambda>_. Inr (True, 1)), env_read = (\<lambda>_. Inr ''x''), env_cwd = ''/''\<rparr>"

definition demo_root :: root where
  "demo_root = \<lparr>rt_id = ''w'', rt_lexical = ''/w'', rt_root_resolved = ''/w'', rt_grants = []\<rparr>"

text \<open>The phase of a payload as text: whether streams are kept, and the state. Everything else comes from \<open>base\<close>.\<close>

definition phase_text :: "run_payload \<Rightarrow> string" where
  "phase_text p = (if py_streams p then ''1'' else ''0'') @ py_state p"

definition text_phase :: "run_payload \<Rightarrow> string \<Rightarrow> run_payload option" where
  "text_phase base s = (case s of [] \<Rightarrow> None | c # cs \<Rightarrow> Some (base\<lparr>py_streams := (c = CHR ''1''), py_state := cs\<rparr>))"

definition artifact_text :: "artifact_payload \<Rightarrow> string" where
  "artifact_text a = ap_hash a @ '' '' @ ap_storage a @ '' '' @ ap_run a"

fun text_artifact :: "string list \<Rightarrow> artifact_payload option" where
  "text_artifact [h, s, r] = Some \<lparr>ap_run = r, ap_path = ''out'', ap_hash = h, ap_size = 1, ap_storage = s, ap_basis = ''observed'',
     ap_writer = ''unknown''\<rparr>"
| "text_artifact _ = None"

definition demo_runner :: "run_payload \<Rightarrow> runner_env" where
  "demo_runner base = \<lparr>xr_id = ''w'', xr_root = demo_root, xr_os = demo_os, xr_state_dir = ''/s'',
     xr_json = \<lparr>jn_valid = (\<lambda>_. True), jn_extract = (\<lambda>_ _. SqlNull), jn_texts = (\<lambda>_. [])\<rparr>, xr_lower = (\<lambda>s. s), xr_fold_eq = (=),
     xr_object = (\<lambda>_. Inl ''none''), xr_look = (\<lambda>s. Inr (''/bin/'' @ s)), xr_sha = (\<lambda>s. take 64 (s @ replicate 64 (CHR ''0''))),
     xr_hmac = (\<lambda>_ s. s),
     xr_platform = ''linux/amd64'', xr_environ = (\<lambda>_. True), xr_git = (\<lambda>_. (GitOK, [])), xr_probe = (\<lambda>_ _. (True, [])),
     xr_home = None, xr_encode = phase_text, xr_decode = text_phase base, xr_encode_artifact = artifact_text,
     xr_decode_artifact = (\<lambda>s. text_artifact (split_on (CHR '' '') s)), xr_encode_preflight = (\<lambda>_ _ _ _ _ _. ''{}''),
     xr_encode_marker = (\<lambda>(r, b). r @ CHR 0x0A # b), xr_decode_marker = (\<lambda>s. None), xr_value = (\<lambda>_. None), xr_stamp = (\<lambda>_. ''t''),
     xr_fault = (\<lambda>_ _. None), xr_recheck = demo_os, xr_cache = True, xr_approved = True, xr_cache_key = ''k'', xr_stream_limit = 4,
     xr_artifact_limit = 8, xr_run_limit = 16, xr_retained_runs = 0, xr_retention_age = 10\<rparr>"

lemma demo_keeps_phase: "codec_keeps_phase (demo_runner base)"
  by (simp add: codec_keeps_phase_def demo_runner_def phase_text_def text_phase_def phase_of_def)

definition demo_command :: "string \<Rightarrow> manifest" where
  "demo_command policy = \<lparr>mf_id = ''build'', mf_revision = 1, mf_summary = ''s'', mf_use_when = [], mf_tags = [], mf_aliases = [],
     mf_execution = Some \<lparr>ex_kind = ''cli'', ex_executable = ''cc'', ex_cwd = ''.'', ex_argv = [''-c''], ex_trusted = True,
       ex_timeout_sec = 60, ex_artifact_mode = ''capture'', ex_preflight = []\<rparr>,
     mf_arguments = [], mf_inputs = [], mf_outputs = [], mf_checks = [], mf_docs = [], mf_cache_policy = policy,
     mf_cache = None\<rparr>"

definition demo_capability :: capability where
  "demo_capability = \<lparr>cb_manifest = demo_command ''off'', cb_revision = ''r1'', cb_source_ref = ''source:a'', cb_execution_fingerprint = ''fp'',
     cb_generation = ''g''\<rparr>"

definition demo_files :: files where
  "demo_files = [(''/bin/cc'', Regular ''cc'')]"

definition demo_request :: prepare_request where
  "demo_request = \<lparr>pq_capability = ''build'', pq_revision = ''r1'', pq_arguments = [], pq_configuration = [], pq_cache_mode = [],
     pq_time_limit = 0\<rparr>"

definition demo_identifier :: "string \<Rightarrow> string" where
  "demo_identifier pre = pre @ replicate 32 (CHR ''a'')"

definition demo_decision :: cache_decision where
  "demo_decision = \<lparr>dc_policy = ''off'', dc_mode = ''auto'', dc_status = ''bypass'', dc_eligible = False, dc_reason = [], dc_key = [],
     dc_source_run = [], dc_qualifications = []\<rparr>"

definition demo_checked :: prepared_plan where
  "demo_checked = \<lparr>pd_argv = [''-c''], pd_arguments = [], pd_cwd = ''.'', pd_identity = ''sha256:cc'' @ replicate 62 (CHR ''0''), pd_checks = [],
     pd_ready = True, pd_warnings = [], pd_inputs = [], pd_outputs = []\<rparr>"

definition demo_plan :: run_payload where
  "demo_plan = plan_payload demo_capability ''default'' demo_checked (demo_identifier ''environment_'') demo_decision [] 5"

abbreviation demo_resolve :: "string \<Rightarrow> go_error + capability" where
  "demo_resolve \<equiv> (\<lambda>_. Inr demo_capability)"

definition demo_prepare :: "runner_state \<Rightarrow> (runner_state \<times> (go_error + prepare_response)) option" where
  "demo_prepare = prepare (demo_runner demo_plan) 3 5 None demo_resolve
     (Some (demo_identifier ''environment_''), Some (demo_identifier ''run_'')) demo_request"

definition demo_execute :: "runner_state \<Rightarrow> (runner_state \<times> (go_error + execute_response)) option" where
  "demo_execute = execute (demo_runner demo_plan) 3 6 None demo_resolve ''stage'' [] True (demo_identifier ''run_'') 0"

definition demo_prepared :: runner_state where
  "demo_prepared = fst (the (demo_prepare (runner_start [] demo_files)))"

definition demo_running :: runner_state where
  "demo_running = fst (the (demo_execute demo_prepared))"

lemma demo_prepare_ok: "map_option (is_ok \<circ> snd) (demo_prepare (runner_start [] demo_files)) = Some True"
  by code_simp

lemma demo_execute_ok: "map_option (is_ok \<circ> snd) (demo_execute demo_prepared) = Some True"
  by code_simp

lemma demo_prepare_eq: "\<exists>y. demo_prepare (runner_start [] demo_files) = Some (demo_prepared, Inr y)"
proof -
  obtain st x where p: "demo_prepare (runner_start [] demo_files) = Some (st, x)"
    using demo_prepare_ok by (cases "demo_prepare (runner_start [] demo_files)") auto
  then show ?thesis using demo_prepare_ok by (cases x) (auto simp: demo_prepared_def)
qed

lemma demo_execute_eq: "\<exists>y. demo_execute demo_prepared = Some (demo_running, Inr y)"
proof -
  obtain st x where p: "demo_execute demo_prepared = Some (st, x)"
    using demo_execute_ok by (cases "demo_execute demo_prepared") auto
  then show ?thesis using demo_execute_ok by (cases x) (auto simp: demo_running_def)
qed

lemma demo_prepared_reachable: "runner_reachable (demo_runner demo_plan) demo_prepared"
  using demo_prepare_eq unfolding runner_reachable_def demo_prepare_def
  by (metis r_into_rtranclp runner_step.prepare)

lemma demo_now: "(6::time) \<noteq> zero_time" "(5::time) \<noteq> zero_time" "(9::time) \<noteq> zero_time"
  by (simp_all add: zero_time_def)

lemma demo_running_reachable: "runner_reachable (demo_runner demo_plan) demo_running"
proof -
  obtain y where "demo_execute demo_prepared = Some (demo_running, Inr y)" using demo_execute_eq by blast
  then have "runner_step (demo_runner demo_plan) demo_prepared demo_running"
    unfolding demo_execute_def by (rule runner_step.execute [OF demo_now(1)])
  then show ?thesis using demo_prepared_reachable unfolding runner_reachable_def by (metis rtranclp.rtrancl_into_rtrancl)
qed

text \<open>The only run record of the running state.\<close>

definition demo_run_record :: durable where
  "demo_run_record = the (find (\<lambda>r. du_kind r = ''run'') (db_records (rn_db demo_running)))"

lemma demo_run_record: "find (\<lambda>r. du_kind r = ''run'') (db_records (rn_db demo_running)) = Some demo_run_record"
  "demo_run_record \<in> set (db_records (rn_db demo_running))" "du_kind demo_run_record = ''run''"
proof -
  have "find (\<lambda>r. du_kind r = ''run'') (db_records (rn_db demo_running)) \<noteq> None" by code_simp
  then show f: "find (\<lambda>r. du_kind r = ''run'') (db_records (rn_db demo_running)) = Some demo_run_record"
    by (auto simp: demo_run_record_def)
  show "demo_run_record \<in> set (db_records (rn_db demo_running))" "du_kind demo_run_record = ''run''"
    using f unfolding find_Some_iff by (metis nth_mem)+
qed

theorem run_lifecycle_witness:
  "\<exists>xs. phases_of (demo_runner demo_plan) (rn_db demo_running) (du_id demo_run_record) = map Some xs \<and> run_path xs \<and> length xs = 2"
proof -
  have "du_revision demo_run_record = 2" by code_simp
  with run_lifecycle [OF demo_running_reachable demo_keeps_phase demo_run_record(2,3)] show ?thesis by auto
qed

theorem run_starts_once_witness:
  "\<exists>out. demo_execute demo_running = Some (demo_running, out) \<and> \<not> is_ok out"
proof -
  have "demo_execute demo_running \<noteq> None" by code_simp
  then obtain st out where e: "demo_execute demo_running = Some (st, out)" by auto
  obtain y where y: "demo_execute demo_prepared = Some (demo_running, Inr y)" using demo_execute_eq by blast
  show ?thesis
    using run_starts_once [OF demo_prepared_reachable demo_keeps_phase demo_now(1) y [unfolded demo_execute_def] rtranclp.rtrancl_refl
        e [unfolded demo_execute_def]] e by auto
qed

lemma demo_interrupted_fits: "storable (demo_runner base) (interrupted now p)"
  by (simp add: storable_def demo_runner_def phase_text_def interrupted_def maximum_plan_def)

theorem restart_ends_runs_witness:
  "active_run (demo_runner demo_plan) demo_run_record \<and>
   (let st = fst (recover (demo_runner demo_plan) 9 (demo_running\<lparr>rn_running := []\<rparr>)) in
    rn_running st = [] \<and> list_all (\<lambda>r. \<not> active_run (demo_runner demo_plan) r) (db_records (rn_db st)) \<and>
    interrupted_row (demo_runner demo_plan) (rn_db st) (du_id demo_run_record))"
proof -
  have a: "active_run (demo_runner demo_plan) demo_run_record" by code_simp
  have n: "xr_id (demo_runner demo_plan) \<noteq> []" "int (length (owned_runs (demo_runner demo_plan) (rn_db demo_running))) \<le> 10000"
    by code_simp+
  show ?thesis
    using restart_ends_runs [OF demo_running_reachable demo_keeps_phase demo_now(3) n] demo_interrupted_fits a demo_run_record(2)
    by (auto simp: Let_def list_all_iff)
qed

end
