(* ===== verification/RunnerReuse.thy ===== *)
theory RunnerReuse
  imports RunnerDemo RecordPromises
begin

text \<open>
  The reuse of results by the runner: the cache key separates plans, and a plan that ends as reused has had its key,
  qualifications, entry and retained bytes checked again, and leaves exactly the verified outputs.
\<close>

section \<open>The cache key separates plans\<close>

lemma length_bytes_length [simp]: "length (length_bytes k n) = k"
  by (induction k arbitrary: n) auto

lemma length_bytes_inj: "length_bytes k n = length_bytes k m \<Longrightarrow> n < 256 ^ k \<Longrightarrow> m < 256 ^ k \<Longrightarrow> n = m"
proof (induction k arbitrary: n m)
  case (Suc k)
  from Suc.prems(1) have "length_bytes k (n div 256) = length_bytes k (m div 256)" "char_of (n mod 256) = (char_of (m mod 256) :: char)"
    by simp_all
  moreover have "n div 256 < 256 ^ k" "m div 256 < 256 ^ k" using Suc.prems(2,3) by (simp_all add: less_mult_imp_div_less mult.commute)
  ultimately have d: "n div 256 = m div 256" "n mod 256 = m mod 256"
    using Suc.IH by (simp_all add: char_of_eq_iff take_bit_eq_mod)
  then show ?case by (metis div_mult_mod_eq)
qed simp

lemma framed_split:
  assumes "framed a @ xs = framed b @ ys" "length a < 256 ^ 8" "length b < 256 ^ 8"
  shows "a = b \<and> xs = ys"
proof -
  from assms(1) have h: "length_bytes 8 (length a) = length_bytes 8 (length b)" "a @ xs = b @ ys"
    unfolding framed_def by (simp_all add: append_eq_append_conv)
  from length_bytes_inj [OF h(1) assms(2,3)] h(2) show ?thesis by simp
qed

lemma framed_not_Nil [simp]: "framed a \<noteq> []"
  by (metis framed_def append_is_Nil_conv length_bytes_length list.size(3) numeral_eq_iff zero_neq_numeral)

lemma frames_inj:
  assumes "concat (map framed xs) = concat (map framed ys)" "\<forall>x \<in> set xs \<union> set ys. length x < 256 ^ 8"
  shows "xs = ys"
  using assms
proof (induction xs arbitrary: ys)
  case Nil
  then show ?case by (cases ys) auto
next
  case (Cons x xs)
  from Cons.prems(1) obtain y zs where ys: "ys = y # zs" by (cases ys) auto
  from Cons.prems framed_split [of x "concat (map framed xs)" y "concat (map framed zs)"]
  have "x = y" "concat (map framed xs) = concat (map framed zs)" by (auto simp: ys)
  with Cons.IH [of zs] Cons.prems(2) show ?case by (simp add: ys)
qed

lemma pairs_inj:
  "concat (map (\<lambda>k. [k, f k]) ks) = concat (map (\<lambda>k. [k, g k]) ls) \<Longrightarrow> ks = ls \<and> (\<forall>k \<in> set ks. f k = g k)"
proof (induction ks arbitrary: ls)
  case Nil
  then show ?case by (cases ls) auto
next
  case (Cons k ks)
  then obtain l ms where "ls = l # ms" by (cases ls) auto
  with Cons show ?case by auto
qed

lemma key_pairs_inj:
  assumes "key_pairs m = key_pairs m'"
  shows "map_of m = map_of m'"
proof
  fix k
  from pairs_inj [OF assms [unfolded key_pairs_def]]
  have s: "sorted_keys m = sorted_keys m'" "\<And>k. k \<in> set (sorted_keys m) \<Longrightarrow> the (map_of m k) = the (map_of m' k)" by auto
  have "fst ` set m = fst ` set m'" using arg_cong [OF s(1), of set] by (simp add: sorted_keys_def)
  moreover have "k \<in> fst ` set m \<Longrightarrow> the (map_of m k) = the (map_of m' k)" using s(2) [of k] by (simp add: sorted_keys_def)
  ultimately show "map_of m k = map_of m' k" by (metis map_of_eq_None_iff option.expand)
qed

lemma key_pairs_length: "length (key_pairs m) = 2 * length m"
proof -
  have "length (concat (map (\<lambda>k. [k, f k]) ks)) = 2 * length ks" for f :: "string \<Rightarrow> string" and ks by (induction ks) auto
  then show ?thesis by (simp add: key_pairs_def sorted_keys_def)
qed

lemma itoa_inj: "itoa n = itoa m \<Longrightarrow> n = m"
proof (induction n arbitrary: m rule: less_induct)
  case (less n)
  have d: "a = b" if "digit_char a = digit_char b" "a < 10" "b < 10" for a b
    using that arg_cong [OF that(1), of "of_char :: char \<Rightarrow> nat"] by (simp add: digit_char_def)
  have ne: "itoa k \<noteq> []" for k by (subst itoa.simps) simp
  show ?case
  proof (cases "n < 10")
    case True
    then have i: "itoa m = [digit_char n]" using less.prems by (simp add: itoa.simps [of n])
    then have "m < 10" using ne [of "m div 10"] by (subst (asm) itoa.simps) (simp split: if_splits)
    with i True show ?thesis using d by (subst (asm) itoa.simps) simp
  next
    case False
    then have i: "itoa m = itoa (n div 10) @ [digit_char (n mod 10)]" using less.prems by (simp add: itoa.simps [of n])
    have m: "\<not> m < 10" using i ne [of "n div 10"] by (subst (asm) itoa.simps) (auto split: if_splits)
    then have "itoa (n div 10) = itoa (m div 10)" "digit_char (n mod 10) = digit_char (m mod 10)"
      using i by (simp_all add: itoa.simps [of m])
    moreover have "n div 10 < n" using False by simp
    ultimately have "n div 10 = m div 10" "n mod 10 = m mod 10" using less.IH d by auto
    then show ?thesis by (metis div_mult_mod_eq)
  qed
qed

text \<open>C12: Two plans with the same cache key agree in everything the key is about: the declared cache contract, the
  capability with its revision, source and execution fingerprint, the configuration, the arguments, the hashes of the
  inputs and the identities of the checks. The numbers of arguments and checks, which a manifest fixes, are not part of
  the key, so this needs that they agree; the authentication code is taken to be free of collisions.\<close>

theorem cache_key_separates:
  assumes "make_cache_key env cb configuration argv inputs checks = Inr key" "make_cache_key env cb' configuration' argv' inputs' checks' = Inr key"
    "mf_cache (cb_manifest cb) = Some c" "mf_cache (cb_manifest cb') = Some c'"
    "\<And>a b. xr_hmac env (xr_cache_key env) a = xr_hmac env (xr_cache_key env) b \<Longrightarrow> a = b"
    "length argv = length argv'" "length checks = length checks'"
    "\<forall>x \<in> set (key_values cb c configuration argv inputs checks) \<union> set (key_values cb' c' configuration' argv' inputs' checks'). length x < 256 ^ 8"
  shows "ca_contract_revision c = ca_contract_revision c' \<and> ca_output_contract c = ca_output_contract c' \<and>
    mf_id (cb_manifest cb) = mf_id (cb_manifest cb') \<and> cb_revision cb = cb_revision cb' \<and> cb_source_ref cb = cb_source_ref cb' \<and>
    cb_execution_fingerprint cb = cb_execution_fingerprint cb' \<and> configuration = configuration' \<and> argv = argv' \<and>
    map_of inputs = map_of inputs' \<and> map_of checks = map_of checks'"
proof -
  let ?v = "key_values cb c configuration argv inputs checks" and ?v' = "key_values cb' c' configuration' argv' inputs' checks'"
  have "xr_hmac env (xr_cache_key env) (concat (map framed ?v)) = xr_hmac env (xr_cache_key env) (concat (map framed ?v'))"
    using assms(1-4) by (auto simp: make_cache_key_def split: if_splits)
  then have "concat (map framed ?v) = concat (map framed ?v')" by (rule assms(5))
  then have v: "?v = ?v'" using frames_inj [OF _ assms(8)] by blast
  have fixed: "itoa (unat (ca_contract_revision c)) = itoa (unat (ca_contract_revision c'))" "ca_output_contract c = ca_output_contract c'"
    "mf_id (cb_manifest cb) = mf_id (cb_manifest cb')" "cb_revision cb = cb_revision cb'" "cb_source_ref cb = cb_source_ref cb'"
    "cb_execution_fingerprint cb = cb_execution_fingerprint cb'" "configuration = configuration'"
    and tail: "argv @ key_pairs inputs @ key_pairs checks = argv' @ key_pairs inputs' @ key_pairs checks'"
    using v unfolding key_values_def append_Cons append_Nil list.inject by blast+
  from tail assms(6) have a: "argv = argv'" "key_pairs inputs @ key_pairs checks = key_pairs inputs' @ key_pairs checks'" by simp_all
  have "length (key_pairs checks) = length (key_pairs checks')" using assms(7) by (simp add: key_pairs_length)
  with a(2) have "key_pairs inputs = key_pairs inputs'" "key_pairs checks = key_pairs checks'" by simp_all
  then have "map_of inputs = map_of inputs'" "map_of checks = map_of checks'" by (iprover intro: key_pairs_inj)+
  moreover have "ca_contract_revision c = ca_contract_revision c'" by (rule unsigned_word_eqI [OF itoa_inj [OF fixed(1)]])
  ultimately show ?thesis using fixed a(1) by blast
qed

section \<open>Copying outputs\<close>

lemma hash_file_Inr:
  "hash_file sha fs path n = Inr h \<longleftrightarrow> (\<exists>s. map_of fs path = Some (Regular s) \<and> int (length s) \<le> n \<and> h = ''sha256:'' @ sha s)"
  by (auto simp: hash_file_def split: option.splits file_node.splits)

lemma hash_file_missing: "hash_file sha fs path n = Inl e \<Longrightarrow> errors_is e FileNotExist \<Longrightarrow> map_of fs path = None"
  by (auto simp: hash_file_def runner_limit_def split: option.splits file_node.splits if_splits)

text \<open>\<open>d\<close> holds a file whose hash is \<open>identity\<close>.\<close>

definition holds_output :: "runner_env \<Rightarrow> files \<Rightarrow> string \<Rightarrow> string \<Rightarrow> bool" where
  "holds_output env fs d identity \<longleftrightarrow> (\<exists>s. map_of fs d = Some (Regular s) \<and> ''sha256:'' @ xr_sha env s = identity)"

lemma copy_verified_Inr:
  assumes "copy_verified_file env fs source d identity = (fs', Inr wrote)"
  shows "holds_output env fs' d identity" "wrote \<Longrightarrow> map_of fs d = None" "\<not> wrote \<Longrightarrow> map_of fs' = map_of fs"
    "\<And>x. x \<noteq> d \<Longrightarrow> map_of fs' x = map_of fs x"
proof -
  have "holds_output env fs' d identity \<and> (wrote \<longrightarrow> map_of fs d = None) \<and> (\<not> wrote \<longrightarrow> map_of fs' = map_of fs) \<and>
      (\<forall>x. x \<noteq> d \<longrightarrow> map_of fs' x = map_of fs x)"
  proof (cases "hash_file (xr_sha env) fs d maximum_file")
    case (Inl e)
    then have m: "map_of fs d = None" using assms hash_file_missing [OF Inl] by (auto simp: copy_verified_file_def split: if_splits)
    from assms Inl show ?thesis
      unfolding copy_verified_file_def Let_def by (auto simp: m holds_output_def split: if_splits sum.splits)
  next
    case (Inr h)
    then have "fs' = fs \<and> h = identity \<and> \<not> wrote" using assms by (simp add: copy_verified_file_def split: if_splits)
    with Inr show ?thesis by (auto simp: holds_output_def hash_file_Inr)
  qed
  then show "holds_output env fs' d identity" "wrote \<Longrightarrow> map_of fs d = None" "\<not> wrote \<Longrightarrow> map_of fs' = map_of fs"
    "\<And>x. x \<noteq> d \<Longrightarrow> map_of fs' x = map_of fs x" by blast+
qed

lemma copy_verified_Inl: "copy_verified_file env fs source d identity = (fs', Inl e) \<Longrightarrow> fs' = fs"
  by (auto simp: copy_verified_file_def Let_def split: if_splits sum.splits)

lemma rollback_lookup:
  "map_of (rollback_materialized env paths fs) x = (if x \<in> set paths \<and> \<not> refused env ''remove'' x then None else map_of fs x)"
  unfolding rollback_materialized_def
  by (induction paths arbitrary: fs) (auto simp: remove_file_def)

text \<open>What the loop over the outputs keeps: \<open>fs0\<close> are the files before it.\<close>

definition copied_since :: "files \<Rightarrow> files \<Rightarrow> string list \<Rightarrow> bool" where
  "copied_since fs0 fs created \<longleftrightarrow> (\<forall>x \<in> set created. map_of fs0 x = None) \<and> (\<forall>x. x \<notin> set created \<longrightarrow> map_of fs x = map_of fs0 x)"

lemma copied_step:
  assumes "copied_since fs0 fs created" "copy_verified_file env fs source d identity = (fs', Inr wrote)"
  shows "copied_since fs0 fs' (if wrote then created @ [d] else created)"
  using assms(1) copy_verified_Inr [OF assms(2)] unfolding copied_since_def by (cases wrote) auto

lemma materialize_files_undone:
  assumes "copied_since fs0 fs created" "materialize_files env xs created fs = (fs', Inl e)" "map_of fs0 y \<noteq> None \<or> \<not> refused env ''remove'' y"
  shows "map_of fs' y = map_of fs0 y"
  using assms(1,2)
proof (induction xs arbitrary: created fs)
  case (Cons x xs)
  have undo: "map_of (rollback_materialized env created fs) y = map_of fs0 y" if "copied_since fs0 fs created" for fs
  proof (cases "y \<in> set created")
    case True
    then have "map_of fs0 y = None" using that by (auto simp: copied_since_def)
    then show ?thesis using True assms(3) by (simp add: rollback_lookup)
  next
    case False
    then have "map_of fs y = map_of fs0 y" using that by (auto simp: copied_since_def)
    then show ?thesis using False by (simp add: rollback_lookup)
  qed
  show ?case
  proof (cases "resolve_output_destination env (co_path x)")
    case (Inl e')
    then show ?thesis using Cons.prems undo by auto
  next
    case (Inr d)
    obtain fs1 out where c: "copy_verified_file env fs (blob_path env (co_hash x)) d (co_hash x) = (fs1, out)" by (rule prod.exhaust)
    show ?thesis
    proof (cases out)
      case (Inl e')
      then show ?thesis using Cons.prems undo c copy_verified_Inl [OF c [unfolded Inl]] by (auto simp: \<open>resolve_output_destination env (co_path x) = Inr d\<close>)
    next
      case (Inr wrote)
      have "materialize_files env xs (if wrote then created @ [d] else created) fs1 = (fs', Inl e)"
        using Cons.prems(2) by (simp add: \<open>resolve_output_destination env (co_path x) = Inr d\<close> c Inr)
      with Cons.IH [OF copied_step [OF Cons.prems(1) c [unfolded Inr]]] show ?thesis .
    qed
  qed
qed simp

lemma materialize_files_done:
  assumes "copied_since fs0 fs created" "materialize_files env xs created fs = (fs', Inr made)"
  shows "copied_since fs0 fs' made \<and> set created \<subseteq> set made \<and>
    (\<forall>y. map_of fs y \<noteq> None \<longrightarrow> map_of fs' y = map_of fs y) \<and>
    (\<forall>x \<in> set xs. \<exists>d. resolve_output_destination env (co_path x) = Inr d \<and> holds_output env fs' d (co_hash x)) \<and>
    (\<forall>y \<in> set made - set created. \<exists>x \<in> set xs. resolve_output_destination env (co_path x) = Inr y)"
  using assms
proof (induction xs arbitrary: created fs)
  case (Cons x xs)
  obtain d where d: "resolve_output_destination env (co_path x) = Inr d"
    using Cons.prems(2) by (cases "resolve_output_destination env (co_path x)") auto
  obtain fs1 out where c: "copy_verified_file env fs (blob_path env (co_hash x)) d (co_hash x) = (fs1, out)" by (rule prod.exhaust)
  obtain wrote where w: "out = Inr wrote" using Cons.prems(2) by (cases out) (auto simp: d c)
  let ?made = "if wrote then created @ [d] else created"
  note one = copy_verified_Inr [OF c [unfolded w]]
  have rest: "materialize_files env xs ?made fs1 = (fs', Inr made)" using Cons.prems(2) by (simp add: d c w)
  note IH = Cons.IH [OF copied_step [OF Cons.prems(1) c [unfolded w]] rest]
  have keep: "map_of fs y \<noteq> None \<Longrightarrow> map_of fs1 y = map_of fs y" for y using one by (cases "y = d"; cases wrote) auto
  have "holds_output env fs' d (co_hash x)" using one(1) IH unfolding holds_output_def by (metis option.distinct(1))
  moreover have "set created \<subseteq> set made" using IH by (auto split: if_splits)
  moreover have "map_of fs' y = map_of fs y" if "map_of fs y \<noteq> None" for y using IH keep [OF that] that by metis
  moreover have "\<exists>z \<in> set (x # xs). resolve_output_destination env (co_path z) = Inr y" if "y \<in> set made - set created" for y
    using IH that d by (cases "y \<in> set ?made") (auto split: if_splits)
  ultimately show ?case using IH d by auto
qed auto

text \<open>C26: When an output cannot be restored, the files made for the earlier outputs are removed again: every file that there
  was before is as it was, and no other path has a file unless its removal was refused.\<close>

theorem failed_restore_undone:
  assumes "materialize_files env outputs [] fs = (fs', Inl e)" "map_of fs x \<noteq> None \<or> \<not> refused env ''remove'' x"
  shows "map_of fs' x = map_of fs x"
  by (rule materialize_files_undone [OF _ assms]) (simp add: copied_since_def)

section \<open>A reused plan\<close>

lemma hit_entry_Inr:
  assumes "hit_entry env now (Some f) cb identities p t = Inr entry"
  obtains c refs where "mf_cache (cb_manifest cb) = Some c"
    "make_cache_key env cb (py_configuration p) (py_argv p) (py_inputs p) identities = Inr (dc_key (py_cache p))"
    "f (py_capability p) (py_configuration p) (ca_qualification_checks c) = Inr (refs, True)"
    "get_cache_entry (xr_id env) (xr_id env) (dc_key (py_cache p)) t = Inr entry" "cx_state entry = ''active''" "now < cx_expires_at entry"
  using assms unfolding hit_entry_def by (auto split: option.splits sum.splits if_splits bool.splits)

lemma reuse_entry_files:
  assumes "reuse_entry env now name ids m r p entry st = (st', Inr a)"
  obtains created where "restore_outputs env now name m (cx_outputs entry) (rn_files st) = (rn_files st', Inr created)"
  using assms unfolding reuse_entry_def Let_def by (auto split: prod.splits sum.splits)

lemma execute_reused:
  assumes "execute env fuel now f resolve name ids starts plan ms st = Some (st', Inr a)" "xp_state a = ''reused''"
  obtains r p cb where "load_run env (rn_db st) plan = Inr (r, p)" "resolve (py_capability p) = Inr cb"
    "plan_current env (rn_files st) cb p" "execute_cache_hit env fuel now f name ids cb r p st = Some (st', Inr a)"
proof -
  have run: "xp_state a = ''running''" if "start_process env now starts r p st = (st', Inr a)" for r p
    using that unfolding start_process_def Let_def by (auto split: prod.splits sum.splits if_splits)
  from assms show thesis
    unfolding execute_def by (auto split: if_splits sum.splits prod.splits dest: run intro: that)
qed

lemma execute_cache_hit_Inr:
  assumes "execute_cache_hit env fuel now (Some f) name ids cb r p st = Some (st', Inr a)"
  obtains identities entry where "hit_entry env now (Some f) cb identities p (rn_cache st) = Inr entry"
    "verify_cache_outputs env (rn_files st) (cx_outputs entry) = Inr ()"
    "reuse_entry env now name ids (cb_manifest cb) r p entry st = (st', Inr a)"
  using assms unfolding execute_cache_hit_def Let_def by (auto split: prod.splits sum.splits option.splits)

text \<open>C8: A plan only ends as reused when nothing it was prepared from has changed and, at that moment, an active and
  unexpired entry is stored under the key recomputed for it, every declared qualification check has a passed verification
  of the clean commit checked out, and all retained outputs have their recorded hashes; with the copying policy the
  workspace then holds every output with that hash, and no file that existed was changed.\<close>

theorem reuse_is_verified:
  assumes "execute env fuel now (Some (\<lambda>capability configuration checks. resolve_cache_qualifications records capability configuration checks (rn_db st)))
      resolve name ids starts plan ms st = Some (st', Inr a)" "xp_state a = ''reused''"
  shows "\<exists>r p cb c entry identities. load_run env (rn_db st) plan = Inr (r, p) \<and> resolve (py_capability p) = Inr cb \<and>
    plan_current env (rn_files st) cb p \<and> mf_cache (cb_manifest cb) = Some c \<and>
    make_cache_key env cb (py_configuration p) (py_argv p) (py_inputs p) identities = Inr (dc_key (py_cache p)) \<and>
    get_cache_entry (xr_id env) (xr_id env) (dc_key (py_cache p)) (rn_cache st) = Inr entry \<and>
    cx_state entry = ''active'' \<and> now < cx_expires_at entry \<and>
    (\<forall>check \<in> set (ca_qualification_checks c). check \<noteq> [] \<longrightarrow>
       (\<exists>v \<in> set (db_records (rn_db st)). current_pass records (py_capability p) (py_configuration p) check v)) \<and>
    verify_cache_outputs env (rn_files st) (cx_outputs entry) = Inr () \<and>
    (ca_restore_policy c \<noteq> ''replace_isolated_root'' \<longrightarrow>
       (\<forall>x \<in> set (cx_outputs entry). \<exists>d. resolve_output_destination env (co_path x) = Inr d \<and> holds_output env (rn_files st') d (co_hash x)) \<and>
       (\<forall>y. map_of (rn_files st) y \<noteq> None \<longrightarrow> map_of (rn_files st') y = map_of (rn_files st) y))"
proof -
  let ?f = "\<lambda>capability configuration checks. resolve_cache_qualifications records capability configuration checks (rn_db st)"
  obtain r p cb where x: "load_run env (rn_db st) plan = Inr (r, p)" "resolve (py_capability p) = Inr cb" "plan_current env (rn_files st) cb p"
    "execute_cache_hit env fuel now (Some ?f) name ids cb r p st = Some (st', Inr a)"
    by (rule execute_reused [OF assms])
  obtain identities entry where h: "hit_entry env now (Some ?f) cb identities p (rn_cache st) = Inr entry"
    "verify_cache_outputs env (rn_files st) (cx_outputs entry) = Inr ()"
    "reuse_entry env now name ids (cb_manifest cb) r p entry st = (st', Inr a)"
    by (rule execute_cache_hit_Inr [OF x(4)])
  obtain c refs where e: "mf_cache (cb_manifest cb) = Some c"
    "make_cache_key env cb (py_configuration p) (py_argv p) (py_inputs p) identities = Inr (dc_key (py_cache p))"
    "?f (py_capability p) (py_configuration p) (ca_qualification_checks c) = Inr (refs, True)"
    "get_cache_entry (xr_id env) (xr_id env) (dc_key (py_cache p)) (rn_cache st) = Inr entry" "cx_state entry = ''active''" "now < cx_expires_at entry"
    by (rule hit_entry_Inr [OF h(1)])
  have q: "\<exists>v \<in> set (db_records (rn_db st)). current_pass records (py_capability p) (py_configuration p) check v"
    if "check \<in> set (ca_qualification_checks c)" "check \<noteq> []" for check
    using qualifications_hold [OF e(3)] that by (metis in_set_conv_nth)
  obtain created where f: "restore_outputs env now name (cb_manifest cb) (cx_outputs entry) (rn_files st) = (rn_files st', Inr created)"
    by (rule reuse_entry_files [OF h(3)])
  have "(\<forall>x \<in> set (cx_outputs entry). \<exists>d. resolve_output_destination env (co_path x) = Inr d \<and> holds_output env (rn_files st') d (co_hash x)) \<and>
       (\<forall>y. map_of (rn_files st) y \<noteq> None \<longrightarrow> map_of (rn_files st') y = map_of (rn_files st) y)"
    if "ca_restore_policy c \<noteq> ''replace_isolated_root''"
  proof -
    have m: "materialize_files env (cx_outputs entry) [] (rn_files st) = (rn_files st', Inr created)"
      using f that by (simp add: restore_outputs_def e(1))
    have "copied_since (rn_files st) (rn_files st) []" by (simp add: copied_since_def)
    from materialize_files_done [OF this m] show ?thesis by blast
  qed
  with x(1-3) e h(2) q show ?thesis by blast
qed

section \<open>Instances\<close>

definition demo_cache_decl :: cache_decl where
  "demo_cache_decl = \<lparr>ca_contract_revision = 1, ca_output_contract = ''obj'', ca_key_checks = [], ca_qualification_checks = [''k''],
     ca_restore_policy = ''missing_or_matching'', ca_isolated_root = [],
     ca_assumptions = \<lparr>as_inputs_complete = True, as_outputs_complete = True, as_external_state = ''none'',
       as_nondeterminism = ''none'', as_side_effects = ''declared_outputs_only''\<rparr>\<rparr>"

definition demo_cached :: capability where
  "demo_cached = demo_capability\<lparr>cb_manifest := (demo_command ''verified'')\<lparr>mf_id := ''b'', mf_cache := Some demo_cache_decl\<rparr>\<rparr>"

definition demo_keyed :: "run_payload \<Rightarrow> runner_env" where
  "demo_keyed base = (demo_runner base)\<lparr>xr_cache_key := replicate 32 (CHR ''k'')\<rparr>"

definition demo_key :: string where
  "demo_key = (case make_cache_key (demo_keyed demo_plan) demo_cached ''c'' [''-c''] [] [(''runner.executable'', pd_identity demo_checked)] of
     Inl _ \<Rightarrow> [] | Inr k \<Rightarrow> k)"

definition demo_hash :: "string \<Rightarrow> string" where
  "demo_hash s = ''sha256:'' @ xr_sha (demo_runner demo_plan) s"

definition demo_output :: "string \<Rightarrow> string \<Rightarrow> cache_output" where
  "demo_output path content = \<lparr>co_path = path, co_hash = demo_hash content, co_size = int (length content), co_artifact = ''record:a''\<rparr>"

definition demo_entry :: cache_row where
  "demo_entry = \<lparr>cx_key = demo_key, cx_project = ''w'', cx_workspace = ''w'', cx_capability = ''b'', cx_capability_revision = ''r1'',
     cx_configuration = ''c'', cx_state = ''active'', cx_reason = [], cx_source_run = ''record:old'', cx_outputs = [demo_output ''out'' ''x''],
     cx_qualifications = [''record:v1''], cx_created_at = 1, cx_observed_at = 1, cx_last_used_at = 1, cx_expires_at = 100,
     cx_observations = 1, cx_hits = 0\<rparr>"

definition demo_hit_plan :: run_payload where
  "demo_hit_plan = plan_payload demo_cached ''c'' demo_checked (demo_identifier ''environment_'')
     \<lparr>dc_policy = ''verified'', dc_mode = ''auto'', dc_status = ''hit'', dc_eligible = True, dc_reason = ''verified_entry'', dc_key = demo_key,
      dc_source_run = ''record:old'', dc_qualifications = [''record:v1'']\<rparr> [(''runner.executable'', pd_identity demo_checked)] 5"

definition demo_hit_db :: record_db where
  "demo_hit_db = fst (create_record (xr_json (demo_runner demo_plan)) (observed_record (demo_runner demo_plan) 5 (demo_identifier ''run_'') ''run''
     ''run-receipt.v2'' ''0prepared'' []) demo_verification_db)"

definition demo_blobs :: files where
  "demo_blobs = demo_files @ [(blob_path (demo_runner demo_plan) (demo_hash ''x''), Regular ''x''), (''/w/kept'', Regular ''y'')]"

definition demo_hit_state :: runner_state where
  "demo_hit_state = \<lparr>rn_db = demo_hit_db, rn_cache = [demo_entry], rn_files = demo_blobs, rn_running = []\<rparr>"

definition demo_qualifier :: "record_db \<Rightarrow> string \<Rightarrow> string \<Rightarrow> string list \<Rightarrow> go_error + (string list \<times> bool)" where
  "demo_qualifier db = (\<lambda>capability configuration checks. resolve_cache_qualifications demo_records capability configuration checks db)"

definition demo_reuse :: "(runner_state \<times> (go_error + execute_response)) option" where
  "demo_reuse = execute (demo_keyed demo_hit_plan) 3 6 (Some (demo_qualifier (rn_db demo_hit_state))) (\<lambda>_. Inr demo_cached) ''stage''
     [Some (demo_identifier ''artifact_'')] True (demo_identifier ''run_'') 0 demo_hit_state"

theorem reuse_is_verified_witness:
  "\<exists>st a. demo_reuse = Some (st, Inr a) \<and> xp_state a = ''reused'' \<and> map_of (rn_files st) ''/w/kept'' = Some (Regular ''y'')"
proof -
  have "case demo_reuse of Some (_, Inr a) \<Rightarrow> xp_state a = ''reused'' | _ \<Rightarrow> False" by code_simp
  then obtain st a where r: "demo_reuse = Some (st, Inr a)" "xp_state a = ''reused''" by (auto split: option.splits prod.splits sum.splits)
  have c: "mf_cache (cb_manifest demo_cached) = Some demo_cache_decl" "ca_restore_policy demo_cache_decl \<noteq> ''replace_isolated_root''" by code_simp+
  have k: "map_of (rn_files demo_hit_state) ''/w/kept'' = Some (Regular ''y'')" by code_simp
  from reuse_is_verified [OF r(1) [unfolded demo_reuse_def demo_qualifier_def] r(2)] c
  have "\<forall>y. map_of (rn_files demo_hit_state) y \<noteq> None \<longrightarrow> map_of (rn_files st) y = map_of (rn_files demo_hit_state) y" by auto
  then have "map_of (rn_files st) ''/w/kept'' = Some (Regular ''y'')" using k by (metis option.distinct(1))
  with r show ?thesis by blast
qed

theorem failed_restore_undone_witness:
  "\<exists>fs' e. materialize_files (demo_runner demo_plan) [demo_output ''out'' ''x'', demo_output ''kept'' ''x''] [] demo_blobs = (fs', Inl e) \<and>
     map_of fs' ''/w/out'' = None"
proof -
  let ?m = "materialize_files (demo_runner demo_plan) [demo_output ''out'' ''x'', demo_output ''kept'' ''x''] [] demo_blobs"
  have "\<not> is_ok (snd ?m)" by code_simp
  then obtain fs' e where m: "?m = (fs', Inl e)" by (cases ?m; cases "snd ?m") auto
  have "map_of demo_blobs ''/w/out'' = None" by code_simp
  moreover have "map_of fs' ''/w/out'' = map_of demo_blobs ''/w/out''"
    by (rule failed_restore_undone [OF m]) (simp add: refused_def demo_runner_def)
  ultimately show ?thesis using m by auto
qed

lemma small_values:
  assumes "list_all (\<lambda>x. length x < m) (xs @ ys)" "m \<le> n"
  shows "\<forall>x \<in> set xs \<union> set ys. length x < n"
  using assms by (force simp: list_all_iff)

theorem cache_key_separates_witness:
  "map_of [(''runner.executable'', pd_identity demo_checked)] ''runner.executable'' = Some (pd_identity demo_checked) \<and>
   demo_key \<noteq> [] \<and> map_of [(''a'', ''1''), (''b'', ''2'')] = map_of [(''b'', ''2''), (''a'', ''1'')]"
proof -
  let ?env = "demo_keyed demo_plan" and ?c = "[(''runner.executable'', pd_identity demo_checked)]"
  let ?i = "[(''a'', ''1''), (''b'', ''2'')]" and ?i' = "[(''b'', ''2''), (''a'', ''1'')]"
  have "is_ok (make_cache_key ?env demo_cached ''c'' [''-c''] ?i ?c)" by code_simp
  then obtain key where k: "make_cache_key ?env demo_cached ''c'' [''-c''] ?i ?c = Inr key" by (auto simp: is_ok_def split: sum.splits)
  have "make_cache_key ?env demo_cached ''c'' [''-c''] ?i' ?c = make_cache_key ?env demo_cached ''c'' [''-c''] ?i ?c" by code_simp
  with k have k': "make_cache_key ?env demo_cached ''c'' [''-c''] ?i' ?c = Inr key" by simp
  have c: "mf_cache (cb_manifest demo_cached) = Some demo_cache_decl" by code_simp
  have h: "xr_hmac ?env (xr_cache_key ?env) a = xr_hmac ?env (xr_cache_key ?env) b \<Longrightarrow> a = b" for a b
    by (simp add: demo_keyed_def demo_runner_def)
  have "list_all (\<lambda>x. length x < 256) (key_values demo_cached demo_cache_decl ''c'' [''-c''] ?i ?c @
      key_values demo_cached demo_cache_decl ''c'' [''-c''] ?i' ?c)" by code_simp
  note s = small_values [OF this, of "256 ^ 8"]
  have "demo_key \<noteq> []" by code_simp
  moreover have "map_of ?i = map_of ?i'" 
    by (rule cache_key_separates [THEN conjunct2, THEN conjunct2, THEN conjunct2, THEN conjunct2, THEN conjunct2, THEN conjunct2,
        THEN conjunct2, THEN conjunct2, THEN conjunct1, OF k k' c c h refl refl s]) simp_all
  ultimately show ?thesis by simp
qed

end
