(* ===== verification/RunnerStreams.thy ===== *)
theory RunnerStreams
  imports RunnerDemo
begin

text \<open>
  The captured streams of a run: what the bounded writer of \<open>internal/runner/execute.go\<close> keeps, that the observation
  of artifacts leaves it alone, and that a client who follows the offsets reads all of it.
\<close>

section \<open>The bounded writer\<close>

lemma bounded_write_exact:
  assumes "bw_bytes w = take n s" "bw_written w = min n (length s)" "bw_truncated w \<longleftrightarrow> n < length s" "bw_limit w = n"
  shows "bw_bytes (fst (bounded_write None w t)) = take n (s @ t)" "bw_written (fst (bounded_write None w t)) = min n (length (s @ t))"
    "bw_truncated (fst (bounded_write None w t)) \<longleftrightarrow> n < length (s @ t)" "bw_limit (fst (bounded_write None w t)) = n"
  using assms by (auto simp: bounded_write_def Let_def min_def)

definition all_taken :: "stream_writes \<Rightarrow> bool" where "all_taken ws \<longleftrightarrow> list_all (\<lambda>(_, fails). fails = None) ws"

lemma write_all_exact:
  assumes "bw_bytes w = take n s" "bw_written w = min n (length s)" "bw_truncated w \<longleftrightarrow> n < length s" "bw_limit w = n" "all_taken ws"
  shows "bw_bytes (write_all ws w) = take n (s @ concat (map fst ws))"
    "bw_truncated (write_all ws w) \<longleftrightarrow> n < length (s @ concat (map fst ws))"
proof -
  have "bw_bytes (write_all ws w) = take n (s @ concat (map fst ws)) \<and> (bw_truncated (write_all ws w) \<longleftrightarrow> n < length (s @ concat (map fst ws)))"
    using assms
  proof (induction ws arbitrary: w s)
    case (Cons x ws)
    obtain t where x: "x = (t, None)" using Cons.prems(5) by (cases x) (simp add: all_taken_def)
    have "\<exists>w' r. bounded_write None w t = (w', Inr r)" by (simp add: bounded_write_def Let_def)
    then obtain w' r where w: "bounded_write None w t = (w', Inr r)" by blast
    note e = bounded_write_exact [OF Cons.prems(1-4), of t, unfolded w fst_conv]
    show ?case using Cons.IH [OF e] Cons.prems(5) by (simp add: x w all_taken_def)
  qed simp
  then show "bw_bytes (write_all ws w) = take n (s @ concat (map fst ws))"
    "bw_truncated (write_all ws w) \<longleftrightarrow> n < length (s @ concat (map fst ws))" by simp_all
qed

text \<open>With refused writes, the bytes kept are still the first ones.\<close>

lemma refused_write:
  assumes "bw_bytes w = take n s" "bw_written w = min n (length s)" "bw_limit w = n" "bounded_write (Some k) w t = (w', Inl e)"
  shows "\<exists>m. m \<le> n \<and> bw_bytes w' = take m (s @ t)"
proof -
  have room: "length s < n" and b: "bw_bytes w' = s @ take (min k (min (n - length s) (length t))) t"
    using assms by (auto simp: bounded_write_def Let_def min_def split: if_splits)
  show ?thesis unfolding b using room by (intro exI [of _ "length s + min k (min (n - length s) (length t))"]) simp
qed

lemma write_all_prefix:
  assumes "bw_bytes w = take n s" "bw_written w = min n (length s)" "bw_truncated w \<longleftrightarrow> n < length s" "bw_limit w = n"
  shows "\<exists>m. m \<le> n \<and> bw_bytes (write_all ws w) = take m (s @ concat (map fst ws))"
  using assms
proof (induction ws arbitrary: w s)
  case Nil
  then show ?case by auto
next
  case (Cons x ws)
  obtain t f where x: "x = (t, f)" by (rule prod.exhaust)
  obtain w' r where w: "bounded_write f w t = (w', r)" by (rule prod.exhaust)
  show ?case
  proof (cases r)
    case (Inl e)
    with w obtain k where "f = Some k" by (cases f) (auto simp: bounded_write_def Let_def split: if_splits)
    then obtain m where m: "m \<le> n" "bw_bytes w' = take m (s @ t)" using refused_write [OF Cons.prems(1,2,4)] w Inl by blast
    show ?thesis
    proof (cases "m \<le> length (s @ t)")
      case True
      then show ?thesis using m by (intro exI [of _ m]) (simp add: x w Inl)
    next
      case False
      then show ?thesis using m by (intro exI [of _ "length (s @ t)"]) (simp add: x w Inl)
    qed
  next
    case (Inr b)
    then have "w' = fst (bounded_write None w t)"
      using w by (cases f) (auto simp: bounded_write_def Let_def split: if_splits)
    note e = bounded_write_exact [OF Cons.prems, of t, folded this]
    show ?thesis using Cons.IH [OF e] by (simp add: x w Inr)
  qed
qed

lemma new_writer_start: "bw_bytes (new_writer n) = take n []" "bw_written (new_writer n) = min n (length ([] :: string))"
  "bw_truncated (new_writer n) \<longleftrightarrow> n < length ([] :: string)" "bw_limit (new_writer n) = n"
  by (simp_all add: new_writer_def)

lemmas capture_exact = write_all_exact [OF new_writer_start, folded capture_stream_def, simplified]
  and capture_prefix = write_all_prefix [OF new_writer_start, folded capture_stream_def, simplified]

section \<open>The paths of streams and blobs\<close>

lemma run_id_comp: "valid_run_id i \<Longrightarrow> plain_comp i"
proof -
  assume v: "valid_run_id i"
  then obtain s where s: "i = ''run_'' @ s" "list_all hex_digit s"
    by (auto simp: valid_run_id_def valid_record_id_def has_prefix_iff)
  have "\<not> hex_digit (CHR ''/'')" by code_simp
  with s(2) have "CHR ''/'' \<notin> set s" by (auto simp: list_all_iff)
  then show ?thesis using s(1) by (intro comp_of) auto
qed

lemma stream_comps:
  assumes "is_abs (xr_state_dir env)" "valid_run_id i" "plain_comp (s @ ''.log'')"
  shows "clean_comps (stream_path env i s) = clean_comps (xr_state_dir env) @ [''runs'', i, s @ ''.log'']"
proof -
  have "plain_comp ''runs''" by code_simp
  with run_id_comp [OF assms(2)] have p: "list_all plain_comp [''runs'', i]" by simp
  have d: "run_directory env i = path_join (xr_state_dir env) (join_with ''/'' [''runs'', i])" by (simp add: run_directory_def)
  note r = join_comps [OF assms(1) _ p, folded d, simplified]
  have f: "stream_path env i s = path_join (run_directory env i) (join_with ''/'' [s @ ''.log''])" by (simp add: stream_path_def)
  show ?thesis using join_comps(1) [OF r(2), of "[s @ ''.log'']"] assms(3) r(1) unfolding f by simp
qed

lemma blob_comps:
  assumes "is_abs (xr_state_dir env)" "has_prefix h ''sha256:''" "length h = 7 + 64" "CHR ''/'' \<notin> set h"
  shows "clean_comps (blob_path env h) = clean_comps (xr_state_dir env) @ [''artifacts'', ''blobs'', drop 7 h]"
proof -
  have t: "trim_prefix h ''sha256:'' = drop 7 h" using assms(2) by (auto simp: trim_prefix_def has_prefix_iff)
  have "CHR ''/'' \<notin> set (drop 7 h)" using assms(4) by (meson in_set_dropD)
  moreover have "length (drop 7 h) = 64" using assms(3) by simp
  then have "drop 7 h \<noteq> []" "drop 7 h \<noteq> ''.''" "drop 7 h \<noteq> ''..''" by (auto simp del: length_drop dest: arg_cong [of _ _ length])
  ultimately have "plain_comp (drop 7 h)" by (intro comp_of)
  moreover have "plain_comp ''artifacts''" "plain_comp ''blobs''" by code_simp+
  ultimately have p: "list_all plain_comp [''artifacts'', ''blobs'', drop 7 h]" by simp
  have b: "blob_path env h = path_join (xr_state_dir env) (join_with ''/'' [''artifacts'', ''blobs'', drop 7 h])"
    by (simp add: blob_path_def t)
  show ?thesis unfolding b by (rule join_comps(1) [OF assms(1) _ p]) simp
qed

lemma log_comps: "plain_comp (''stdout'' @ ''.log'')" "plain_comp (''stderr'' @ ''.log'')"
  by code_simp+

lemma blob_not_stream:
  assumes "is_abs (xr_state_dir env)" "valid_run_id i" "plain_comp (s @ ''.log'')"
    "has_prefix h ''sha256:''" "length h = 7 + 64" "CHR ''/'' \<notin> set h"
  shows "blob_path env h \<noteq> stream_path env i s"
  using stream_comps [OF assms(1-3)] blob_comps [OF assms(1,4-6)] by auto

section \<open>Observation of artifacts\<close>

lemma hash_matches_values:
  assumes "hash_matches env fs resource ps acc = Inr m" "\<forall>h \<in> ran (map_of acc). P h" "\<And>s. P (''sha256:'' @ xr_sha env s)"
  shows "\<forall>h \<in> ran (map_of m). P h"
  using assms(1,2)
proof (induction ps arbitrary: acc)
  case (Cons p ps)
  let ?f = "hash_file (xr_sha env) fs (path_join (rt_root_resolved (xr_root env)) p) maximum_file"
  obtain h where h: "?f = Inr h" using Cons.prems(1) by (cases ?f) (auto split: if_splits)
  then have "P h" using assms(3) by (auto simp: hash_file_def split: option.splits file_node.splits if_splits)
  then have "\<forall>h \<in> ran (map_of (map_put p h acc)). P h" using Cons.prems(2) by (auto simp: ran_def split: if_splits)
  moreover have "hash_matches env fs resource ps (map_put p h acc) = Inr m" using Cons.prems(1) h by (auto split: if_splits)
  ultimately show ?case by (intro Cons.IH)
qed simp

lemma snapshot_all_values:
  assumes "snapshot_all env fs resource ps acc = Inr m" "\<forall>h \<in> ran (map_of acc). P h" "\<And>s. P (''sha256:'' @ xr_sha env s)" "P ''missing''"
  shows "\<forall>h \<in> ran (map_of m). P h"
  using assms(1,2)
proof (induction ps arbitrary: acc)
  case (Cons p ps)
  let ?found = "filter (glob p) (walk_files (rt_root_resolved (xr_root env)) fs)"
  obtain acc' where a: "hash_matches env fs resource ?found acc = Inr acc'"
    using Cons.prems(1) by (cases "hash_matches env fs resource ?found acc") (auto split: if_splits)
  note v = hash_matches_values [OF a Cons.prems(2) assms(3)]
  let ?acc = "if ?found = [] then map_put (''pattern:'' @ p) ''missing'' acc' else acc'"
  have "\<forall>h \<in> ran (map_of ?acc). P h" using v assms(4) by (auto simp: ran_def split: if_splits)
  moreover have "snapshot_all env fs resource ps ?acc = Inr m" using Cons.prems(1) a by (auto split: if_splits)
  ultimately show ?case by (rule Cons.IH [rotated])
qed simp

lemma capture_blob_elsewhere:
  assumes "has_prefix h ''sha256:'' \<Longrightarrow> length h = 7 + 64 \<Longrightarrow> blob_path env h \<noteq> x"
  shows "map_of (fst (capture_blob env source h fs)) x = map_of fs x"
  using assms unfolding capture_blob_def Let_def by (auto split: sum.splits)

lemma store_output_elsewhere:
  assumes "has_prefix h ''sha256:'' \<Longrightarrow> length h = 7 + 64 \<Longrightarrow> blob_path env h \<noteq> x" "store_output env mode path n h captured fs = (fs', r)"
  shows "map_of fs' x = map_of fs x"
  using assms(2) capture_blob_elsewhere [OF assms(1), of path fs] unfolding store_output_def
  by (cases "capture_blob env path h fs") (auto split: if_splits sum.splits)

lemma observe_output_elsewhere:
  assumes "has_prefix (the (map_of after relative)) ''sha256:'' \<Longrightarrow> length (the (map_of after relative)) = 7 + 64 \<Longrightarrow>
      blob_path env (the (map_of after relative)) \<noteq> x"
  shows "map_of (ow_files (observe_output env now run p after relative w)) x = map_of (ow_files w) x"
  using store_output_elsewhere [OF assms] unfolding observe_output_def Let_def
  by (auto split: sum.splits option.splits prod.splits list.splits)

lemma observe_artifacts_elsewhere:
  assumes "\<And>h. has_prefix h ''sha256:'' \<Longrightarrow> length h = 7 + 64 \<Longrightarrow> CHR ''/'' \<notin> set h \<Longrightarrow> blob_path env h \<noteq> x"
    "\<And>s. CHR ''/'' \<notin> set (xr_sha env s)"
  shows "map_of (ow_files (fst (observe_artifacts env now ids run p db fs))) x = map_of fs x"
proof (cases "snapshot_patterns env fs (py_outputs p) ''outputs''")
  case (Inr after)
  then have s: "snapshot_all env fs ''outputs'' (py_outputs p) [] = Inr after" by (auto simp: snapshot_patterns_def split: if_splits)
  have v: "\<forall>h \<in> ran (map_of after). CHR ''/'' \<notin> set h"
    by (rule snapshot_all_values [OF s]) (simp_all add: assms(2))
  have step: "map_of (ow_files (observe_output env now run p after k w)) x = map_of (ow_files w) x" if "k \<in> set (sorted_keys after)" for k w
  proof (rule observe_output_elsewhere)
    obtain h where h: "map_of after k = Some h" using \<open>k \<in> set (sorted_keys after)\<close>
      by (auto simp: sorted_keys_def dest: weak_map_of_SomeI)
    then have "CHR ''/'' \<notin> set h" using v by (auto simp: ran_def)
    then show "has_prefix (the (map_of after k)) ''sha256:'' \<Longrightarrow> length (the (map_of after k)) = 7 + 64 \<Longrightarrow>
        blob_path env (the (map_of after k)) \<noteq> x" using assms(1) h by simp
  qed
  have "map_of (ow_files (fold (observe_output env now run p after) ks w)) x = map_of (ow_files w) x"
    if "set ks \<subseteq> set (sorted_keys after)" for ks w
    using that step by (induction ks arbitrary: w) auto
  then show ?thesis by (simp add: observe_artifacts_def Let_def Inr)
qed (simp add: observe_artifacts_def)

section \<open>Reading a stream\<close>

text \<open>A client that starts at \<open>offset\<close> and follows \<open>next_offset\<close> to the end, at most \<open>n\<close> pages.\<close>

fun read_pages :: "runner_env \<Rightarrow> files \<Rightarrow> string \<Rightarrow> string \<Rightarrow> u64 \<Rightarrow> nat \<Rightarrow> u64 \<Rightarrow> stream_result list" where
  "read_pages env fs run stream limit 0 offset = []"
| "read_pages env fs run stream limit (Suc n) offset =
     (case read_stream env fs run stream offset limit True of
        Inl _ \<Rightarrow> [] | Inr s \<Rightarrow> s # (if sr_eof s then [] else read_pages env fs run stream limit n (sr_next s)))"

lemma read_stream_page:
  assumes "map_of fs (stream_path env run stream) = Some (Regular content)" "length content < 2 ^ 63" "unat offset \<le> length content"
  shows "\<exists>s. read_stream env fs run stream offset limit True = Inr s \<and>
    sr_base64 s = base64_text (take (unat limit) (drop (unat offset) content)) \<and>
    unat (sr_next s) = min (unat offset + unat limit) (length content) \<and> (sr_eof s \<longleftrightarrow> unat (sr_next s) = length content)"
proof -
  let ?d = "take (unat limit) (drop (unat offset) content)"
  have "unat offset + length ?d \<le> length content" using assms(3) by simp
  then have "unat (offset + word_of_nat (length ?d)) = unat offset + length ?d"
    using assms(2) by (simp add: unat_word_ariths unat_of_nat)
  moreover have "unat offset + length ?d = min (unat offset + unat limit) (length content)" using assms(3) by (simp add: min_def) arith
  ultimately show ?thesis using assms(1,3)
    by (simp add: read_stream_def read_file_def file_page_def Let_def min_def) auto
qed

lemma read_pages_all:
  assumes "map_of fs (stream_path env run stream) = Some (Regular content)" "length content < 2 ^ 63" "unat offset \<le> length content"
    "0 < unat limit" "length content - unat offset < n"
  shows "\<exists>chunks. map sr_base64 (read_pages env fs run stream limit n offset) = map base64_text chunks \<and>
    concat chunks = drop (unat offset) content \<and> (\<forall>c \<in> set chunks. length c \<le> unat limit) \<and>
    sr_eof (last (read_pages env fs run stream limit n offset)) \<and> read_pages env fs run stream limit n offset \<noteq> []"
  using assms(3,5)
proof (induction n arbitrary: offset)
  case (Suc n)
  let ?d = "take (unat limit) (drop (unat offset) content)"
  obtain s where s: "read_stream env fs run stream offset limit True = Inr s" "sr_base64 s = base64_text ?d"
    "unat (sr_next s) = min (unat offset + unat limit) (length content)" "sr_eof s \<longleftrightarrow> unat (sr_next s) = length content"
    using read_stream_page [OF assms(1,2) Suc.prems(1)] by blast
  show ?case
  proof (cases "sr_eof s")
    case True
    then have "?d = drop (unat offset) content" using s(3,4) by simp
    then show ?thesis using s True by (intro exI [of _ "[?d]"]) simp
  next
    case False
    then have lt: "unat offset + unat limit < length content" and nx: "unat (sr_next s) = unat offset + unat limit"
      using s(3,4) by auto
    then have "unat (sr_next s) \<le> length content" "length content - unat (sr_next s) < n" using Suc.prems assms(4) by auto
    from Suc.IH [OF this] obtain chunks where c: "map sr_base64 (read_pages env fs run stream limit n (sr_next s)) = map base64_text chunks"
      "concat chunks = drop (unat (sr_next s)) content" "\<forall>c \<in> set chunks. length c \<le> unat limit"
      "sr_eof (last (read_pages env fs run stream limit n (sr_next s)))" "read_pages env fs run stream limit n (sr_next s) \<noteq> []" by blast
    have "drop (unat offset) content = ?d @ concat chunks" by (simp add: c(2) nx add.commute flip: drop_drop)
    then show ?thesis using s(1,2) False c by (intro exI [of _ "?d # chunks"]) simp
  qed
qed simp

text \<open>C25: After a process has ended, a client that reads its standard output from the start and follows the offsets gets, in
  pages of at most the requested size and up to the end, what was captured: the beginning of what the process wrote, at most
  as long as the capture limit. When the file refused no write, it is exactly the first bytes up to the limit, marked truncated
  exactly when the process wrote more.\<close>

theorem captured_stream_readable:
  fixes e :: process_end and ids :: "string option list" and now :: time
  assumes "map_of (rn_running st) i = Some run" "valid_run_id i" "is_abs (xr_state_dir env)" "\<And>s. CHR ''/'' \<notin> set (xr_sha env s)"
    "xr_stream_limit env < 2 ^ 63" "0 < limit" "xr_stream_limit env < n"
  defines "written \<equiv> concat (map fst (pe_stdout e))"
    and "pages \<equiv> read_pages env (rn_files (wait_for_run env now ids i e st)) i ''stdout'' limit n 0"
  shows "\<exists>chunks m. map sr_base64 pages = map base64_text chunks \<and> (\<forall>c \<in> set chunks. length c \<le> unat limit) \<and> sr_eof (last pages) \<and>
    m \<le> xr_stream_limit env \<and> concat chunks = take m written \<and>
    (all_taken (pe_stdout e) \<longrightarrow> concat chunks = take (xr_stream_limit env) written \<and>
       (bw_truncated (capture_stream (xr_stream_limit env) (pe_stdout e)) \<longleftrightarrow> xr_stream_limit env < length written))"
proof -
  let ?out = "capture_stream (xr_stream_limit env) (pe_stdout e)" and ?err = "capture_stream (xr_stream_limit env) (pe_stderr e)"
  let ?p = "ended_payload now e ?out ?err (pr_payload run)" and ?x = "stream_path env i ''stdout''"
  obtain m where m: "m \<le> xr_stream_limit env" "bw_bytes ?out = take m written" using capture_prefix unfolding written_def by blast
  let ?fs = "captured_files env i ?out ?err (pe_files e)"
  have "?x \<noteq> stream_path env i ''stderr''"
    using stream_comps [OF assms(3,2) log_comps(1)] stream_comps [OF assms(3,2) log_comps(2)] by auto
  then have c: "map_of ?fs ?x = Some (Regular (bw_bytes ?out))" by (simp add: captured_files_def)
  have o: "map_of (ow_files (fst (observe_artifacts env now ids i ?p (rn_db st) ?fs))) ?x = map_of ?fs ?x"
    by (rule observe_artifacts_elsewhere [OF blob_not_stream [OF assms(3,2) log_comps(1)] assms(4)])
  have "rn_files (wait_for_run env now ids i e st) = ow_files (fst (observe_artifacts env now ids i ?p (rn_db st) ?fs))"
    by (simp add: wait_for_run_def assms(1) Let_def split: prod.splits)
  with o c have f: "map_of (rn_files (wait_for_run env now ids i e st)) ?x = Some (Regular (bw_bytes ?out))" by simp
  have l: "0 < unat limit" using assms(6) by (simp add: word_less_nat_alt)
  have small: "length (bw_bytes ?out) < 2 ^ 63" "length (bw_bytes ?out) - unat (0 :: u64) < n"
    using assms(5,7) m by simp_all
  have "all_taken (pe_stdout e) \<Longrightarrow> bw_bytes ?out = take (xr_stream_limit env) written \<and> (bw_truncated ?out \<longleftrightarrow> xr_stream_limit env < length written)"
    using capture_exact unfolding written_def by blast
  moreover obtain chunks where "map sr_base64 pages = map base64_text chunks" "concat chunks = bw_bytes ?out"
    "\<forall>c \<in> set chunks. length c \<le> unat limit" "sr_eof (last pages)"
    using read_pages_all [OF f small(1) _ l small(2)] unfolding pages_def by auto
  ultimately show ?thesis using m by (intro exI [of _ chunks] exI [of _ m]) auto
qed

definition demo_end :: process_end where
  "demo_end = \<lparr>pe_reason = Exited, pe_error = None, pe_stdout = [(''ab'', None), (''cdef'', None)], pe_stderr = [], pe_files = demo_files\<rparr>"

definition demo_hex :: runner_env where
  "demo_hex = (demo_runner demo_plan)\<lparr>xr_sha := (\<lambda>s. replicate 64 (CHR ''0''))\<rparr>"

theorem captured_stream_readable_witness:
  "concat (map fst (pe_stdout demo_end)) = ''abcdef'' \<and>
   (\<exists>chunks. map sr_base64 (read_pages demo_hex (rn_files (wait_for_run demo_hex 7 [] (demo_identifier ''run_'') demo_end demo_running))
      (demo_identifier ''run_'') ''stdout'' 3 9 0) = map base64_text chunks \<and> concat chunks = ''abcd'')"
proof -
  let ?i = "demo_identifier ''run_''"
  have "map_of (rn_running demo_running) ?i \<noteq> None" by code_simp
  then obtain run where r: "map_of (rn_running demo_running) ?i = Some run" by auto
  have v: "valid_run_id ?i" "is_abs (xr_state_dir demo_hex)" "(0 :: u64) < 3" "xr_stream_limit demo_hex < 9"
    "take (xr_stream_limit demo_hex) (concat (map fst (pe_stdout demo_end))) = ''abcd''" "concat (map fst (pe_stdout demo_end)) = ''abcdef''"
    by code_simp+
  have k: "all_taken (pe_stdout demo_end)" by code_simp
  have l: "xr_stream_limit demo_hex < 2 ^ 63" by (simp add: demo_hex_def demo_runner_def)
  have h: "CHR ''/'' \<notin> set (xr_sha demo_hex s)" for s by (simp add: demo_hex_def)
  show ?thesis
    using captured_stream_readable [OF r v(1,2) h l v(3,4), where e = demo_end and ids = "[]" and now = 7] v(5,6) k by auto
qed

end
