(* ===== verification/RunnerRemoval.thy ===== *)
theory RunnerRemoval
  imports RunnerStreams CacheStore
begin

text \<open>
  What the cleanup of the runner (\<open>cleanupExpiredRuns\<close> of \<open>internal/runner/artifact.go\<close>) may remove: a specification of the
  runs that are disposable and of the bytes that are needed, and the proof that only the rest goes.
\<close>

section \<open>The specification\<close>

definition mentions :: "runner_env \<Rightarrow> durable \<Rightarrow> string list" where
  "mentions env r = du_evidence r @ (case xr_value env (du_payload r) of None \<Rightarrow> [] | Some v \<Rightarrow> json_strings_in v)"

text \<open>A current record that the runner has not written itself mentions the run or artifact.\<close>

definition referenced :: "runner_env \<Rightarrow> record_db \<Rightarrow> string \<Rightarrow> bool" where
  "referenced env db i \<longleftrightarrow> (\<exists>r \<in> set (db_records db). owned (xr_id env) (xr_id env) r \<and> protects r \<and>
     (\<exists>ref \<in> set (mentions env r). protected_ref ref = Some i))"

text \<open>A run that is not referenced, not among the newest and old enough.\<close>

definition disposable :: "runner_env \<Rightarrow> time \<Rightarrow> record_db \<Rightarrow> durable \<Rightarrow> bool" where
  "disposable env now db r \<longleftrightarrow> r \<in> set (owned_runs env db) \<and> \<not> referenced env db (du_id r) \<and>
     retention_time env r < now - xr_retention_age env \<and>
     xr_retained_runs env < length (filter (\<lambda>x. retention_time env r \<le> retention_time env x) (owned_runs env db))"

text \<open>The bytes a live cache entry lists, or an artifact that is referenced or belongs to a run that stays.\<close>

definition needed_bytes :: "runner_env \<Rightarrow> time \<Rightarrow> record_db \<Rightarrow> cache_table \<Rightarrow> string \<Rightarrow> bool" where
  "needed_bytes env now db t h \<longleftrightarrow>
     xr_cache env \<and> (\<exists>row \<in> set t. cache_owned (xr_id env) (xr_id env) row \<and> cx_state row = ''active'' \<and> now < cx_expires_at row \<and>
       h \<in> co_hash ` set (cx_outputs row)) \<or>
     (\<exists>r \<in> set (db_records db). owned (xr_id env) (xr_id env) r \<and> (\<exists>a. server_artifact env r = Some a \<and> ap_hash a = h \<and>
       (referenced env db (du_id r) \<or> \<not> (\<exists>run. disposable env now db run \<and> du_id run = artifact_run a))))"

section \<open>What the loops remove\<close>

definition in_tree :: "string \<Rightarrow> string \<Rightarrow> bool" where
  "in_tree a x \<longleftrightarrow> x = a \<or> under a x"

lemma drop_tree_at: "map_of (drop_tree a fs) x = (if in_tree a x then None else map_of fs x)"
  by (induction fs) (auto simp: drop_tree_def in_tree_def)

definition blob_of :: "runner_env \<Rightarrow> string list \<Rightarrow> string list \<Rightarrow> durable list \<Rightarrow> string \<Rightarrow> bool" where
  "blob_of env protected hashes rs x \<longleftrightarrow>
     (\<exists>r \<in> set rs. \<exists>a. xr_decode_artifact env (du_payload r) = Some a \<and> blob_removable protected hashes r a \<and> x = blob_path env (ap_hash a))"

lemma remove_blobs_files:
  "map_of (rn_files (fst (remove_blobs env now limit protected hashes rs n st))) x \<noteq> map_of (rn_files st) x \<Longrightarrow> blob_of env protected hashes rs x"
proof (induction rs arbitrary: n st)
  case (Cons r rs)
  have more: "blob_of env protected hashes rs x \<Longrightarrow> ?case" by (auto simp: blob_of_def)
  show ?case
  proof (cases "limit \<le> n")
    case False
    show ?thesis
    proof (cases "xr_decode_artifact env (du_payload r)")
      case None
      then show ?thesis using Cons False more by simp
    next
      case (Some a)
      show ?thesis
      proof (cases "\<not> blob_removable protected hashes r a \<or> refused env ''remove'' (blob_path env (ap_hash a))")
        case True
        then show ?thesis using Cons False more Some by auto
      next
        case go: False
        obtain db out where u: "update_artifact env now r (a\<lparr>ap_storage := ''deleted''\<rparr>) (rn_db st) = (db, out)" by (rule prod.exhaust)
        let ?st = "st\<lparr>rn_db := db, rn_files := map_del (blob_path env (ap_hash a)) (rn_files st)\<rparr>"
        show ?thesis
        proof (cases "x = blob_path env (ap_hash a)")
          case True
          then show ?thesis using go Some by (auto simp: blob_of_def)
        next
          case other: False
          then have same: "map_of (rn_files ?st) x = map_of (rn_files st) x" by simp
          show ?thesis
          proof (cases out)
            case (Inl e)
            then show ?thesis using Cons.prems same False Some go u by simp
          next
            case (Inr y)
            then have "map_of (rn_files (fst (remove_blobs env now limit protected hashes rs (Suc n) ?st))) x \<noteq> map_of (rn_files ?st) x"
              using Cons.prems same False Some go u by simp
            then show ?thesis using Cons.IH more by blast
          qed
        qed
      qed
    qed
  qed (use Cons.prems in simp)
qed simp

lemma remove_streams_files:
  "map_of (rn_files (fst (remove_streams env now limit r p n st))) x \<noteq> map_of (rn_files st) x \<Longrightarrow> in_tree (run_directory env (du_id r)) x"
  by (cases "update_run env now r (p\<lparr>py_streams := False\<rparr>) (du_validity r) (rn_db st)"; cases "snd (update_run env now r (p\<lparr>py_streams := False\<rparr>) (du_validity r) (rn_db st))")
    (auto simp: remove_streams_def drop_tree_at split: if_splits)

lemma remove_runs_files:
  "map_of (rn_files (fst (remove_runs env now limit protected hashes rs runs n st))) x \<noteq> map_of (rn_files st) x \<Longrightarrow>
   \<exists>r \<in> set runs. (\<exists>p. xr_decode env (du_payload r) = Some p \<and> py_state p \<noteq> ''running'') \<and>
     (in_tree (run_directory env (du_id r)) x \<or> blob_of env protected hashes (artifacts_of env rs (du_id r)) x)"
proof (induction runs arbitrary: n st)
  case (Cons r runs)
  show ?case
  proof (cases "limit \<le> n \<or> (\<forall>p. xr_decode env (du_payload r) = Some p \<longrightarrow> py_state p = ''running'')")
    case True
    then show ?thesis using Cons by (cases "xr_decode env (du_payload r)") (auto split: if_splits)
  next
    case False
    then obtain p where p: "xr_decode env (du_payload r) = Some p" "py_state p \<noteq> ''running''" "\<not> limit \<le> n" by auto
    obtain st1 o1 where s: "remove_streams env now limit r p n st = (st1, o1)" by (rule prod.exhaust)
    note one = remove_streams_files [of env now limit r p n st x, unfolded s fst_conv]
    show ?thesis
    proof (cases o1)
      case (Inl e)
      then show ?thesis using Cons.prems one p s by auto
    next
      case (Inr n1)
      obtain st2 o2 where b: "remove_blobs env now limit protected hashes (artifacts_of env rs (du_id r)) n1 st1 = (st2, o2)" by (rule prod.exhaust)
      note two = remove_blobs_files [of env now limit protected hashes "artifacts_of env rs (du_id r)" n1 st1 x, unfolded b fst_conv]
      show ?thesis
      proof (cases "map_of (rn_files st2) x = map_of (rn_files st) x")
        case False
        then show ?thesis using one two p(1,2) by (cases "map_of (rn_files st1) x = map_of (rn_files st) x") simp_all
      next
        case same: True
        show ?thesis
        proof (cases o2)
          case (Inl e)
          then show ?thesis using Cons.prems same p s Inr b by simp
        next
          case (Inr n2)
          then have "map_of (rn_files (fst (remove_runs env now limit protected hashes rs runs n2 st2))) x \<noteq> map_of (rn_files st2) x"
            using Cons.prems same p s \<open>o1 = Inr n1\<close> b by simp
          then show ?thesis using Cons.IH by auto
        qed
      qed
    qed
  qed
qed simp

section \<open>The plan of the cleanup\<close>

lemma complete_page:
  assumes "query_records (xr_lower env) (xr_json env) (every_record env []) db = Inr page" "pg_complete page"
  shows "set (pg_records page) = {r \<in> set (db_records db). owned (xr_id env) (xr_id env) r}"
proof -
  let ?q = "every_record env []"
  have match: "base_match (xr_json env) ?q r \<and> terms_match (xr_json env) ?q [] r \<longleftrightarrow> owned (xr_id env) (xr_id env) r" for r
    by (auto simp: base_match_def every_record_def column_filter_def json_filter_def terms_match_def is_zero_time_def)
  have t: "query_terms (xr_lower env) ?q = []" by (simp add: query_terms_def every_record_def)
  show ?thesis using assms by (auto simp: query_records_def t match Let_def split: if_splits)
qed

lemma set_map_filter_iff: "y \<in> set (List.map_filter f xs) \<longleftrightarrow> (\<exists>x \<in> set xs. f x = Some y)"
  by (induction xs) (auto simp: map_filter_simps split: option.splits)

lemma protected_ids_iff:
  assumes "set rs = {r \<in> set (db_records db). owned (xr_id env) (xr_id env) r}"
  shows "i \<in> set (protected_ids env rs) \<longleftrightarrow> referenced env db i"
proof -
  have m: "set (List.map_filter protected_ref (du_evidence r) @ protected_refs env (du_payload r)) = {i. \<exists>ref \<in> set (mentions env r). protected_ref ref = Some i}" for r
    by (auto simp: mentions_def protected_refs_def set_map_filter_iff split: option.splits)
  have "i \<in> set (protected_ids env rs) \<longleftrightarrow> (\<exists>r \<in> set rs. protects r \<and> i \<in> set (List.map_filter protected_ref (du_evidence r) @ protected_refs env (du_payload r)))"
    by (simp only: protected_ids_def set_concat set_map set_filter) blast
  then show ?thesis unfolding m assms referenced_def by blast
qed

lemma expired_disposable:
  assumes "query_records (xr_lower env) (xr_json env) (every_record env ''run'') db = Inr page"
    "\<And>i. i \<in> set protected \<longleftrightarrow> referenced env db i" "r \<in> set (expired_runs env now protected (by_retention env (pg_records page)))"
  shows "disposable env now db r"
proof -
  let ?runs = "by_retention env (pg_records page)"
  from assms(3) obtain k where k: "(k, r) \<in> set (List.enumerate 0 ?runs)" "run_expired env now protected (k, r)"
    by (auto simp: expired_runs_def)
  then have k': "k < length ?runs" "?runs ! k = r" by (auto simp: in_set_enumerate_eq)
  have run: "x \<in> set (owned_runs env db)" if "x \<in> set (pg_records page)" for x
    using query_records_sub [OF assms(1) that] by (auto simp: owned_runs_def base_match_def every_record_def column_filter_def)
  have "r \<in> set ?runs" using k' nth_mem by blast
  then have in_db: "r \<in> set (owned_runs env db)" using run by (simp add: by_retention_def)
  let ?P = "\<lambda>x. retention_time env r \<le> retention_time env x"
  have s: "sorted (map (\<lambda>r. - retention_time env r) ?runs)" by (simp add: by_retention_def)
  have "?P (?runs ! j)" if "j \<le> k" for j
    using sorted_nth_mono [OF s that] that k' by simp
  then have "filter ?P (take (Suc k) ?runs) = take (Suc k) ?runs" using k'(1) by (intro filter_True) (auto simp: in_set_conv_nth)
  then have "Suc k = length (filter ?P (take (Suc k) ?runs))" using k'(1) by simp
  also have "\<dots> \<le> length (filter ?P ?runs)" by (metis append_take_drop_id filter_append length_append le_add1)
  also have "\<dots> = length (filter ?P (pg_records page))" by (simp add: by_retention_def filter_sort)
  also have "\<dots> \<le> length (filter ?P (owned_runs env db))"
  proof -
    let ?k = "query_rank (xr_json env) []"
    have t: "query_terms (xr_lower env) (every_record env ''run'') = []" by (simp add: query_terms_def every_record_def)
    have "pg_records page = take (rq_limit (every_record env ''run'')) (sort_key ?k (owned_runs env db))"
      using assms(1) by (auto simp: query_records_def t run_match owned_runs_def Let_def split: if_splits)
    then have "length (filter ?P (pg_records page)) \<le> length (filter ?P (sort_key ?k (owned_runs env db)))"
      by (metis append_take_drop_id filter_append length_append le_add1)
    then show ?thesis by (simp add: filter_sort)
  qed
  finally have "k < length (filter ?P (owned_runs env db))" by simp
  then show ?thesis using k(2) in_db assms(2) by (auto simp: disposable_def run_expired_def)
qed

lemma unneeded_hash:
  assumes "cleanup_plan env now rs (pg_records page) t = Some (protected, expired, hashes)"
    "query_records (xr_lower env) (xr_json env) (every_record env ''run'') db = Inr page"
    "set rs = {r \<in> set (db_records db). owned (xr_id env) (xr_id env) r}" "h \<notin> set hashes"
  shows "\<not> needed_bytes env now db t h"
proof -
  have ref: "i \<in> set protected \<longleftrightarrow> referenced env db i" for i
    using assms(1) protected_ids_iff [OF assms(3)] by (auto simp: cleanup_plan_def Let_def split: if_splits prod.splits)
  have exp: "expired = expired_runs env now protected (by_retention env (pg_records page))"
    using assms(1) by (auto simp: cleanup_plan_def Let_def split: if_splits prod.splits)
  obtain cached where c: "(if xr_cache env then list_protected_hashes (xr_id env) (xr_id env) now 10000 t else ([], True)) = (cached, True)"
    "hashes = cached @ retained_hashes env protected (map du_id expired) rs"
    using assms(1) unfolding cleanup_plan_def Let_def by (auto split: if_splits prod.splits)
  have cache: "\<not> (\<exists>row \<in> set t. cache_owned (xr_id env) (xr_id env) row \<and> cx_state row = ''active'' \<and> now < cx_expires_at row \<and>
       h \<in> co_hash ` set (cx_outputs row))" if "xr_cache env"
    using protected_hashes_complete [of "xr_id env" "xr_id env" now 10000 t cached] c assms(4) that by auto
  have "\<exists>run. disposable env now db run \<and> du_id run = artifact_run a" "\<not> referenced env db (du_id r)"
    if "r \<in> set (db_records db)" "owned (xr_id env) (xr_id env) r" "server_artifact env r = Some a" "ap_hash a = h" for r a
  proof -
    have "ap_hash a \<notin> set (retained_hashes env protected (map du_id expired) rs)" using assms(4) c(2) that(4) by simp
    moreover have "ap_hash a \<in> set (retained_hashes env protected (map du_id expired) rs)"
      if "artifact_run a \<notin> set (map du_id expired) \<or> du_id r \<in> set protected"
      unfolding retained_hashes_def set_map_filter_iff using that \<open>r \<in> set (db_records db)\<close> \<open>owned (xr_id env) (xr_id env) r\<close>
        \<open>server_artifact env r = Some a\<close> assms(3) by (intro bexI [of _ r]) auto
    ultimately have k: "artifact_run a \<in> set (map du_id expired)" "du_id r \<notin> set protected" by blast+
    from k(2) show "\<not> referenced env db (du_id r)" using ref by simp
    from k(1) obtain run where "run \<in> set expired" "du_id run = artifact_run a" by auto
    then show "\<exists>run. disposable env now db run \<and> du_id run = artifact_run a"
      using expired_disposable [OF assms(2) ref] unfolding exp by blast
  qed
  with cache show ?thesis unfolding needed_bytes_def by blast
qed

text \<open>C11: The cleanup only changes files of the streams of disposable runs that are not running, and blobs whose bytes
  nothing of the workspace of the service needs: no live cache entry, no referenced artifact, and no artifact of a run that
  stays. Other workspaces with the same state directory are not consulted.\<close>

theorem cleanup_spares:
  assumes "cleanup_expired_runs env now limit st = (st', out)" "map_of (rn_files st') x \<noteq> map_of (rn_files st) x"
  shows "(\<exists>r p. disposable env now (rn_db st) r \<and> xr_decode env (du_payload r) = Some p \<and> py_state p \<noteq> ''running'' \<and>
      in_tree (run_directory env (du_id r)) x) \<or>
    (\<exists>h. x = blob_path env h \<and> \<not> needed_bytes env now (rn_db st) (rn_cache st) h)"
proof -
  have "limit \<in> {1..64}" using assms by (auto simp: cleanup_expired_runs_def split: if_splits)
  then have lim: "\<not> (limit \<le> 0 \<or> 64 < limit)" by simp
  obtain all where a: "query_records (xr_lower env) (xr_json env) (every_record env []) (rn_db st) = Inr all" "pg_complete all"
    using assms lim unfolding cleanup_expired_runs_def by (auto split: sum.splits if_splits)
  obtain page where p: "query_records (xr_lower env) (xr_json env) (every_record env ''run'') (rn_db st) = Inr page"
    using assms lim a unfolding cleanup_expired_runs_def by (auto split: sum.splits if_splits)
  obtain protected expired hashes where c: "cleanup_plan env now (pg_records all) (pg_records page) (rn_cache st) = Some (protected, expired, hashes)"
    using assms lim a p unfolding cleanup_expired_runs_def by (auto split: option.splits prod.splits)
  obtain st1 o1 where r: "remove_runs env now (nat limit) protected hashes (pg_records all) expired 0 st = (st1, o1)" by (rule prod.exhaust)
  have "rn_files st' = rn_files st1"
    using assms(1) lim a p c r unfolding cleanup_expired_runs_def by (auto split: sum.splits)
  then have "map_of (rn_files st1) x \<noteq> map_of (rn_files st) x" using assms(2) by simp
  from remove_runs_files [of env now "nat limit" protected hashes "pg_records all" expired 0 st x, unfolded r fst_conv, OF this]
  obtain run q where q: "run \<in> set expired" "xr_decode env (du_payload run) = Some q" "py_state q \<noteq> ''running''"
    "in_tree (run_directory env (du_id run)) x \<or> blob_of env protected hashes (artifacts_of env (pg_records all) (du_id run)) x" by blast
  have all: "set (pg_records all) = {r \<in> set (db_records (rn_db st)). owned (xr_id env) (xr_id env) r}"
    by (rule complete_page [OF a])
  have ref: "i \<in> set protected \<longleftrightarrow> referenced env (rn_db st) i" for i
    using c protected_ids_iff [OF all] by (auto simp: cleanup_plan_def Let_def split: if_splits prod.splits)
  have "disposable env now (rn_db st) run"
    using expired_disposable [OF p ref] q(1) c by (auto simp: cleanup_plan_def Let_def split: if_splits prod.splits)
  moreover have "\<exists>h. x = blob_path env h \<and> \<not> needed_bytes env now (rn_db st) (rn_cache st) h"
    if "blob_of env protected hashes (artifacts_of env (pg_records all) (du_id run)) x"
    using that unneeded_hash [OF c p all] by (auto simp: blob_of_def blob_removable_def)
  ultimately show ?thesis using q(2-4) by blast
qed

definition demo_ended :: runner_state where
  "demo_ended = wait_for_run (demo_runner demo_plan) 7 [] (demo_identifier ''run_'') demo_end demo_running"

theorem cleanup_spares_witness:
  "(\<exists>r p. disposable (demo_runner demo_plan) 100 (rn_db demo_ended) r \<and> xr_decode (demo_runner demo_plan) (du_payload r) = Some p \<and>
     py_state p \<noteq> ''running'' \<and> in_tree (run_directory (demo_runner demo_plan) (du_id r)) ''/s/runs/run_aaaaaaaaaaaaaaaaaaaaaaaaaaaaaaaa/stdout.log'') \<or>
   (\<exists>h. ''/s/runs/run_aaaaaaaaaaaaaaaaaaaaaaaaaaaaaaaa/stdout.log'' = blob_path (demo_runner demo_plan) h \<and>
     \<not> needed_bytes (demo_runner demo_plan) 100 (rn_db demo_ended) (rn_cache demo_ended) h)"
proof -
  let ?env = "demo_runner demo_plan" and ?x = "''/s/runs/run_aaaaaaaaaaaaaaaaaaaaaaaaaaaaaaaa/stdout.log''"
  obtain st out where c: "cleanup_expired_runs ?env 100 8 demo_ended = (st, out)" by (rule prod.exhaust)
  have "map_of (rn_files (fst (cleanup_expired_runs ?env 100 8 demo_ended))) ?x = None" by code_simp
  moreover have "map_of (rn_files demo_ended) ?x = Some (Regular ''abcd'')" by code_simp
  ultimately have "map_of (rn_files st) ?x \<noteq> map_of (rn_files demo_ended) ?x" by (simp add: c)
  from cleanup_spares [OF c this] show ?thesis .
qed

end
