(* ===== verification/RunnerSwapRecovery.thy ===== *)
theory RunnerSwapRecovery
  imports RunnerDemo
begin

text \<open>
  The crash recovery of an interrupted replacement of an isolated root: the promise, and an instance in which the crash
  comes between the two renames.
\<close>

text \<open>C9: Once the marker of a replacement is written, a crash at any point between its steps, also while the old tree is
  being deleted, is repaired by the recovery of the next start, provided the marker is the only entry of the directory of
  markers and no file operation of the recovery fails: the isolated root is then exactly the old tree or exactly the staged one,
  no backup and no marker are left, and nothing else has changed.\<close>

theorem crashed_swap_recovers:
  assumes "xr_fault env = (\<lambda>_ _. None)" "swap_layout env r backup stage"
    "xr_decode_marker env (xr_encode_marker env (r, backup)) = Some (r, backup)"
    "swap_started env r backup stage fs" "only_marker env stage fs" "swap_crash r backup stage fs fs'"
  shows "(subtree (recover_cache_swaps env fs') r = subtree fs r \<or> subtree (recover_cache_swaps env fs') r = subtree fs stage) \<and>
    \<not> tree_found (recover_cache_swaps env fs') backup \<and> map_of (recover_cache_swaps env fs') (swap_marker env stage) = None \<and>
    (\<forall>p. \<not> under r p \<and> \<not> under backup p \<and> \<not> under stage p \<and> p \<noteq> swap_marker env stage \<longrightarrow>
       map_of (recover_cache_swaps env fs') p = map_of fs p)"
  using swap_recovered [OF assms] by blast

definition demo_swap :: runner_env where
  "demo_swap = (demo_runner demo_plan)\<lparr>xr_decode_marker := (\<lambda>_. Some (''/w/build'', ''/w/build.old_repoplane_cache_t''))\<rparr>"

definition demo_swap_files :: files where
  "demo_swap_files = [(''/w/build/a'', Regular ''old''), (''/w/stage/a'', Regular ''new''), (''/w/kept'', Regular ''y''),
     (swap_marker demo_swap ''/w/stage'', Regular (xr_encode_marker demo_swap (''/w/build'', ''/w/build.old_repoplane_cache_t'')))]"

theorem crashed_swap_recovers_witness:
  "let fs = recover_cache_swaps demo_swap (move_tree ''/w/build'' ''/w/build.old_repoplane_cache_t'' demo_swap_files) in
   (subtree fs ''/w/build'' = subtree demo_swap_files ''/w/build'' \<or> subtree fs ''/w/build'' = subtree demo_swap_files ''/w/stage'') \<and>
   map_of fs ''/w/kept'' = Some (Regular ''y'')"
proof -
  let ?r = "''/w/build''" and ?b = "''/w/build.old_repoplane_cache_t''" and ?g = "''/w/stage''"
  have nf: "xr_fault demo_swap = (\<lambda>_ _. None)" by (simp add: demo_swap_def demo_runner_def)
  have lay: "swap_layout demo_swap ?r ?b ?g" by code_simp
  have dec: "xr_decode_marker demo_swap (xr_encode_marker demo_swap (?r, ?b)) = Some (?r, ?b)" by code_simp
  have st: "swap_started demo_swap ?r ?b ?g demo_swap_files" by code_simp
  have sole: "only_marker demo_swap ?g demo_swap_files" by code_simp
  have "tree_found demo_swap_files ?r" by code_simp
  then have cr: "swap_crash ?r ?b ?g demo_swap_files (move_tree ?r ?b demo_swap_files)" by (rule swap_crash.backed_up)
  have out: "\<not> under ?r ''/w/kept'' \<and> \<not> under ?b ''/w/kept'' \<and> \<not> under ?g ''/w/kept'' \<and> ''/w/kept'' \<noteq> swap_marker demo_swap ?g" by code_simp
  have kept: "map_of demo_swap_files ''/w/kept'' = Some (Regular ''y'')" by code_simp
  show ?thesis using crashed_swap_recovers [OF nf lay dec st sole cr] out kept unfolding Let_def by metis
qed

end
