(* ===== verification/RunnerArguments.thy ===== *)
theory RunnerArguments
  imports RunnerDemo
begin

text \<open>
  The typed arguments of a plan and the sanitizer of probe output, \<open>internal/runner/service.go\<close>: what arguments a
  capability can be started with, and when \<open>replaceFold\<close> returns.
\<close>

section \<open>Typed arguments\<close>

fun text_of :: "argument_value \<Rightarrow> string" where
  "text_of (JsonValue (JString s)) = s"
| "text_of (JsonValue (JBool b)) = (if b then ''true'' else ''false'')"
| "text_of (JsonValue (JNumber s)) = s"
| "text_of (IntValue n) = int_digits n"
| "text_of _ = []"

definition value_typed :: "(string \<Rightarrow> string) \<Rightarrow> string \<Rightarrow> argument_value \<Rightarrow> bool" where
  "value_typed lower kind v \<longleftrightarrow>
     (if kind = ''string'' \<or> kind = ''project_path'' then (\<exists>s. v = JsonValue (JString s) \<and> int (length s) \<le> 8192)
      else if kind = ''host_ref'' then (\<exists>s. v = JsonValue (JString (lower s)) \<and> host_alias_pattern s \<and> int (length s) \<le> 8192)
      else if kind = ''boolean'' \<or> kind = ''bool'' then (\<exists>b. v = JsonValue (JBool b))
      else kind = ''integer'' \<and> ((\<exists>s. v = JsonValue (JNumber s) \<and> parse_int64 s \<noteq> None) \<or> (\<exists>n. v = IntValue n)))"

lemma normalize_argument_typed:
  assumes "normalize_argument lower kind v = Inr (s, w)"
  shows "value_typed lower kind w \<and> s = text_of w"
proof -
  have b: "v = JsonValue (JString t) \<and> int (length t) \<le> 8192" if "bounded_text v = Inr t" for t
    using that by (auto simp: bounded_text_def split: argument_value.splits json.splits if_splits)
  have "(kind = ''string'' \<or> kind = ''project_path'') \<or> kind = ''host_ref'' \<or> (kind = ''boolean'' \<or> kind = ''bool'') \<or> kind = ''integer''"
    by (rule ccontr) (use assms in \<open>simp add: normalize_argument_def\<close>)
  then consider "kind = ''string'' \<or> kind = ''project_path''" | "kind = ''host_ref''" | "kind = ''boolean'' \<or> kind = ''bool''" | "kind = ''integer''"
    by (elim disjE) (erule that(1) [OF disjI1] that(1) [OF disjI2] that(2) that(3) [OF disjI1] that(3) [OF disjI2] that(4))+
  then show ?thesis
  proof cases
    case 1
    then obtain t where "bounded_text v = Inr t" "s = t" "w = JsonValue (JString t)"
      using assms by (cases "bounded_text v") (auto simp: normalize_argument_def)
    then show ?thesis using b 1 by (auto simp: value_typed_def)
  next
    case 2
    then obtain t where "bounded_text v = Inr t" "host_alias_pattern t" "s = lower t" "w = JsonValue (JString (lower t))"
      using assms by (cases "bounded_text v") (auto simp: normalize_argument_def split: if_splits)
    then show ?thesis using b 2 by (auto simp: value_typed_def)
  next
    case 3
    then have n: "normalize_argument lower kind v = (case v of
          JsonValue (JBool b) \<Rightarrow> Inr (if b then ''true'' else ''false'', JsonValue (JBool b))
        | _ \<Rightarrow> Inl (Text ''must be a boolean''))"
      by (elim disjE) (simp_all add: normalize_argument_def)
    note a = assms [unfolded n]
    have "\<exists>b. w = JsonValue (JBool b) \<and> s = text_of w"
    proof (cases v)
      case (JsonValue j)
      then show ?thesis using a by (cases j) auto
    qed (use a in simp_all)
    then obtain b where "w = JsonValue (JBool b)" "s = text_of w" by blast
    then show ?thesis using 3 by (elim disjE) (simp_all add: value_typed_def)
  next
    case 4
    have n: "normalize_argument lower kind v = (case v of
          JsonValue (JNumber s) \<Rightarrow> if parse_int64 s = None then Inl (Text ''must be an integer'') else Inr (s, v)
        | FloatValue (Some n) \<Rightarrow> Inr (int_digits n, IntValue n)
        | IntValue n \<Rightarrow> Inr (int_digits n, v)
        | _ \<Rightarrow> Inl (Text ''must be an integer''))"
      unfolding 4 by (simp add: normalize_argument_def)
    have "(\<exists>s. w = JsonValue (JNumber s) \<and> parse_int64 s \<noteq> None) \<or> (\<exists>n. w = IntValue n)" "s = text_of w"
      using assms [unfolded n] by (auto split: argument_value.splits json.splits option.splits if_splits)
    then show ?thesis unfolding value_typed_def 4 by simp
  qed
qed

lemma normalize_arguments_typed:
  assumes "normalize_arguments lower given ds = Inr (texts, vals)"
  shows "texts = map (\<lambda>(n, w). (n, text_of w)) vals \<and>
    (\<forall>(n, w) \<in> set vals. \<exists>a. (n, a) \<in> set ds \<and> value_typed lower (ar_type a) w) \<and>
    (\<forall>(n, a) \<in> set ds. ar_required a \<longrightarrow> n \<in> fst ` set vals)"
  using assms
proof (induction ds arbitrary: texts vals)
  case (Cons d ds)
  obtain n a where d: "d = (n, a)" by (cases d)
  show ?case
  proof (cases "chosen_value a (map_of given n)")
    case None
    then have "\<not> ar_required a" "normalize_arguments lower given ds = Inr (texts, vals)" using Cons.prems by (auto simp: d split: if_splits)
    with Cons.IH show ?thesis by (fastforce simp: d)
  next
    case (Some v)
    obtain s w where s: "normalize_argument lower (ar_type a) v = Inr (s, w)"
      using Cons.prems Some by (cases "normalize_argument lower (ar_type a) v") (auto simp: d)
    obtain ts vs where r: "normalize_arguments lower given ds = Inr (ts, vs)" "texts = (n, s) # ts" "vals = (n, w) # vs"
      using Cons.prems Some s by (cases "normalize_arguments lower given ds") (auto simp: d)
    show ?thesis using Cons.IH [OF r(1)] normalize_argument_typed [OF s] by (fastforce simp: d r(2,3))
  qed
qed simp

text \<open>One element of the template with the texts of the values filled in.\<close>

definition filled :: "(string, argument_value) gomap \<Rightarrow> string \<Rightarrow> string" where
  "filled vals t = concat (map (\<lambda>p. case p of Inl c \<Rightarrow> [c] | Inr name \<Rightarrow> text_of (the (map_of vals name))) (template_parts t))"

lemma fill_parts_missing: "fill_parts texts ps missing = (s, None) \<Longrightarrow> missing = None"
  by (induction texts ps missing arbitrary: s rule: fill_parts.induct) (auto split: prod.splits option.splits)

lemma fill_parts_filled:
  assumes "fill_parts (map (\<lambda>(n, w). (n, text_of w)) vals) ps None = (s, None)"
  shows "s = concat (map (\<lambda>p. case p of Inl c \<Rightarrow> [c] | Inr name \<Rightarrow> text_of (the (map_of vals name))) ps)"
  using assms
proof (induction ps arbitrary: s)
  case (Cons p ps)
  have look: "map_of (map (\<lambda>(n, w). (n, text_of w)) vals) k = map_option text_of (map_of vals k)" for k
    by (simp add: map_of_map)
  show ?case
  proof (cases p)
    case (Inl c)
    then show ?thesis using Cons by (auto split: prod.splits)
  next
    case (Inr n)
    show ?thesis
    proof (cases "map_of vals n")
      case None
      then have False using Cons.prems by (auto simp: Inr look split: prod.splits dest: fill_parts_missing)
      then show ?thesis ..
    next
      case (Some w)
      then show ?thesis using Cons by (auto simp: Inr look split: prod.splits)
    qed
  qed
qed simp

lemma expand_template_filled:
  "expand_template (map (\<lambda>(n, w). (n, text_of w)) vals) ts = Inr argv \<Longrightarrow> argv = map (filled vals) ts"
proof (induction ts arbitrary: argv)
  case (Cons t ts)
  obtain s m where f: "fill_parts (map (\<lambda>(n, w). (n, text_of w)) vals) (template_parts t) None = (s, m)" by (rule prod.exhaust)
  then have m: "m = None" using Cons.prems by (cases m) auto
  obtain rest where "expand_template (map (\<lambda>(n, w). (n, text_of w)) vals) ts = Inr rest" "argv = s # rest"
    using Cons.prems f m by (cases "expand_template (map (\<lambda>(n, w). (n, text_of w)) vals) ts") auto
  then show ?case using Cons.IH fill_parts_filled [OF f [unfolded m]] by (simp add: filled_def)
qed simp

lemma check_names_declared: "check_names m given = Inr u \<Longrightarrow> \<forall>(n, v) \<in> set given. map_of (mf_arguments m) n \<noteq> None"
  by (induction m given rule: check_names.induct) (auto split: if_splits)

text \<open>C24: The arguments of a prepared plan are well typed: only declared arguments are accepted, every value has the type
  its declaration names, every required argument has a value, and the process gets exactly one argument for each element
  of the template, which is the element with its placeholders replaced by the texts of the values.\<close>

theorem arguments_well_typed:
  assumes "expand_arguments lower m given = Inr (argv, vals)"
  shows "(\<forall>(n, v) \<in> set given. map_of (mf_arguments m) n \<noteq> None) \<and>
    (\<forall>(n, w) \<in> set vals. \<exists>a. (n, a) \<in> set (mf_arguments m) \<and> value_typed lower (ar_type a) w) \<and>
    (\<forall>(n, a) \<in> set (mf_arguments m). ar_required a \<longrightarrow> n \<in> fst ` set vals) \<and>
    argv = map (filled vals) (template_of m)"
proof -
  obtain u where c: "check_names m given = Inr u" using assms by (cases "check_names m given") (auto simp: expand_arguments_def)
  obtain texts vs where n: "normalize_arguments lower given (mf_arguments m) = Inr (texts, vs)"
    using assms c by (cases "normalize_arguments lower given (mf_arguments m)") (auto simp: expand_arguments_def)
  have v: "vs = vals" "expand_template texts (template_of m) = Inr argv"
    using assms c n by (cases "expand_template texts (template_of m)"; auto simp: expand_arguments_def)+
  note t = normalize_arguments_typed [OF n [unfolded v(1)]]
  from t v(2) have "argv = map (filled vals) (template_of m)" by (intro expand_template_filled) simp
  with t check_names_declared [OF c] show ?thesis by blast
qed

section \<open>The sanitizer of probe output\<close>

lemma find_str_Some: "find_str s p = Some i \<Longrightarrow> \<exists>u v. s = u @ p @ v \<and> length u = i"
proof (induction s p arbitrary: i rule: find_str.induct)
  case (2 c s p)
  show ?case
  proof (cases "has_prefix (c # s) p")
    case True
    then have "i = 0" using "2.prems" by simp
    moreover obtain v where "c # s = p @ v" using True by (auto simp: has_prefix_iff)
    ultimately show ?thesis by (intro exI [of _ "[]"] exI [of _ v]) simp
  next
    case False
    then obtain k where k: "find_str s p = Some k" "i = Suc k" using 2 by auto
    from "2.IH" [OF False k(1)] obtain u v where "s = u @ p @ v" "length u = k" by blast
    then show ?thesis using k(2) by (intro exI [of _ "c # u"] exI [of _ v]) simp
  qed
qed (auto split: if_splits)

definition slashes :: "string \<Rightarrow> nat" where
  "slashes s = length (filter (\<lambda>c. c = CHR ''/'') s)"

text \<open>Texts of ASCII characters, which \<open>strings.ToLower\<close> folds byte by byte.\<close>

definition ascii :: "string \<Rightarrow> bool" where "ascii s \<longleftrightarrow> list_all (\<lambda>c. byte c < 128) s"

definition folds_ascii :: "(string \<Rightarrow> string) \<Rightarrow> bool" where "folds_ascii lower \<longleftrightarrow> (\<forall>s. ascii s \<longrightarrow> lower s = sql_lower s)"

lemma folded_positions:
  assumes "folds_ascii lower" "ascii s"
  shows "length (lower s) = length s" "i < length s \<Longrightarrow> lower s ! i = CHR ''/'' \<longleftrightarrow> s ! i = CHR ''/''"
proof -
  have l: "lower s = sql_lower s" using assms by (simp add: folds_ascii_def)
  show "length (lower s) = length s" by (simp add: l sql_lower_def)
  show "i < length s \<Longrightarrow> lower s ! i = CHR ''/'' \<longleftrightarrow> s ! i = CHR ''/''"
    by (auto simp: l sql_lower_def between_def byte_def char_of_eq_iff take_bit_eq_mod)
qed

lemma ascii_append [simp]: "ascii (a @ b) \<longleftrightarrow> ascii a \<and> ascii b"
  by (simp add: ascii_def)

lemma ascii_part: "ascii s \<Longrightarrow> ascii (take n s) \<and> ascii (drop n s)"
  by (auto simp: ascii_def list_all_iff dest: in_set_takeD in_set_dropD)

lemma slashes_append [simp]: "slashes (a @ b) = slashes a + slashes b"
  by (simp add: slashes_def)

lemma slashes_pos: "CHR ''/'' \<in> set s \<longleftrightarrow> 0 < slashes s"
  by (auto simp: slashes_def filter_empty_conv)

lemma replaced_slashes:
  assumes "folds_ascii lower" "ascii v" "ascii old" "CHR ''/'' \<in> set old" "slashes replacement = 0"
    "find_str (lower v) (lower old) = Some i"
  shows "i + length old \<le> length v" "slashes (take i v @ replacement @ drop (i + length old) v) < slashes v"
proof -
  obtain a b where ab: "lower v = a @ lower old @ b" "length a = i" using find_str_Some [OF assms(6)] by blast
  have len: "length (lower v) = length v" "length (lower old) = length old" by (rule folded_positions [OF assms(1)], fact assms)+
  show le: "i + length old \<le> length v" using arg_cong [OF ab(1), of length] len ab(2) by simp
  let ?mid = "take (length old) (drop i v)"
  obtain k where k: "k < length old" "old ! k = CHR ''/''" using assms(4) by (auto simp: in_set_conv_nth)
  then have "lower old ! k = CHR ''/''" using folded_positions(2) [OF assms(1,3) k(1)] by simp
  then have "lower v ! (i + k) = CHR ''/''" using ab k len by (simp add: nth_append)
  then have "v ! (i + k) = CHR ''/''" using folded_positions(2) [OF assms(1,2), of "i + k"] le k by simp
  then have "?mid ! k = CHR ''/''" "k < length ?mid" using k le by simp_all
  then have "0 < slashes ?mid" unfolding slashes_pos [symmetric] by (metis nth_mem)
  moreover have "v = take i v @ ?mid @ drop (i + length old) v" by (metis add.commute append_take_drop_id drop_drop)
  then have "slashes v = slashes (take i v) + slashes ?mid + slashes (drop (i + length old) v)" by (metis slashes_append add.assoc)
  ultimately show "slashes (take i v @ replacement @ drop (i + length old) v) < slashes v" using assms(5) by simp
qed

lemma replace_fold_returns:
  assumes "folds_ascii lower" "old = [] \<or> CHR ''/'' \<in> set old" "ascii old" "slashes replacement = 0" "ascii replacement"
    "slashes v < fuel" "ascii v"
  shows "\<exists>r. replace_fold lower fuel v old replacement = Some (Inr r) \<and> slashes r \<le> slashes v \<and> ascii r \<and>
    (old \<noteq> [] \<longrightarrow> find_str (lower r) (lower old) = None)"
  using assms(6,7)
proof (induction fuel arbitrary: v)
  case (Suc n)
  show ?case
  proof (cases "old = [] \<or> find_str (lower v) (lower old) = None")
    case True
    then show ?thesis using Suc.prems(2) by (auto simp: replace_fold.simps [of lower "Suc n"])
  next
    case False
    then obtain i where i: "find_str (lower v) (lower old) = Some i" "CHR ''/'' \<in> set old" "old \<noteq> []" using assms(2) by auto
    note r = replaced_slashes [OF assms(1) Suc.prems(2) assms(3) i(2) assms(4) i(1)]
    let ?v = "take i v @ replacement @ drop (i + length old) v"
    have "slashes ?v < n" "ascii ?v" using r(2) Suc.prems ascii_part [OF Suc.prems(2)] assms(5) by simp_all
    from Suc.IH [OF this] obtain s where "replace_fold lower n ?v old replacement = Some (Inr s)" "slashes s \<le> slashes ?v" "ascii s"
      "old \<noteq> [] \<longrightarrow> find_str (lower s) (lower old) = None" by blast
    moreover have "replace_fold lower (Suc n) v old replacement = replace_fold lower n ?v old replacement"
      using i r(1) by (simp add: replace_fold.simps [of lower "Suc n"])
    ultimately show ?thesis using r(2) by auto
  qed
qed simp

text \<open>C27: When the probe output and the sensitive paths are ASCII texts, which folding changes byte by byte, and each of these
  paths contains a separator, as absolute paths do, the sanitizer returns, without a slice out of range: one round for each
  separator of the text is enough. The result is within the bound.\<close>

theorem probe_sanitizer_returns:
  assumes "folds_ascii (xr_lower env)" "ascii v" "slashes v < fuel"
    "\<And>old. old \<in> {rt_lexical (xr_root env), rt_root_resolved (xr_root env)} \<union> set_option (xr_home env) \<Longrightarrow>
       ascii old \<and> (old = [] \<or> CHR ''/'' \<in> set old)"
  shows "\<exists>s. sanitize_probe env fuel v = Some (Inr s) \<and> length s \<le> 4096"
proof -
  have z: "slashes ''WORKSPACE'' = 0" "slashes ''USER_HOME'' = 0" "ascii ''WORKSPACE''" "ascii ''USER_HOME''" by code_simp+
  have o: "ascii (rt_lexical (xr_root env))" "rt_lexical (xr_root env) = [] \<or> CHR ''/'' \<in> set (rt_lexical (xr_root env))"
    "ascii (rt_root_resolved (xr_root env))" "rt_root_resolved (xr_root env) = [] \<or> CHR ''/'' \<in> set (rt_root_resolved (xr_root env))"
    using assms(4) by blast+
  obtain a where a: "replace_fold (xr_lower env) fuel v (rt_lexical (xr_root env)) ''WORKSPACE'' = Some (Inr a)" "slashes a < fuel" "ascii a"
    using replace_fold_returns [OF assms(1) o(2,1) z(1,3) assms(3,2)] assms(3) by fastforce
  obtain b where b: "replace_fold (xr_lower env) fuel a (rt_root_resolved (xr_root env)) ''WORKSPACE'' = Some (Inr b)" "slashes b < fuel" "ascii b"
    using replace_fold_returns [OF assms(1) o(4,3) z(1,3) a(2,3)] a(2) by fastforce
  obtain c where c: "(case xr_home env of None \<Rightarrow> Some (Inr b) | Some home \<Rightarrow> replace_fold (xr_lower env) fuel b home ''USER_HOME'') = Some (Inr c)"
  proof (cases "xr_home env")
    case (Some home)
    then have "ascii home" "home = [] \<or> CHR ''/'' \<in> set home" using assms(4) [of home] by simp_all
    then show thesis using that replace_fold_returns [OF assms(1) _ _ z(2,4) b(2,3), of home] Some by auto
  qed (use that in simp)
  show ?thesis by (simp add: sanitize_probe_def then_fold_def a(1) b(1) c)
qed

theorem probe_sanitizer_returns_witness:
  "\<exists>s. sanitize_probe ((demo_runner demo_plan)\<lparr>xr_lower := sql_lower\<rparr>) 9 ''at /w/x and /w/y'' = Some (Inr s) \<and> length s \<le> 4096"
proof -
  let ?env = "(demo_runner demo_plan)\<lparr>xr_lower := sql_lower\<rparr>"
  have k: "folds_ascii (xr_lower ?env)" by (simp add: folds_ascii_def)
  have s: "ascii ''at /w/x and /w/y''" "slashes ''at /w/x and /w/y'' < 9" by code_simp+
  have p: "ascii ''/w''" by code_simp
  show ?thesis by (rule probe_sanitizer_returns [OF k s]) (auto simp: demo_runner_def demo_root_def p)
qed

text \<open>ASCII folding, and U+023A to U+2C65, which is one byte longer.\<close>

fun growing_lower :: "string \<Rightarrow> string" where
  "growing_lower (c # d # s) = (if c = CHR 0xC8 \<and> d = CHR 0xBA then [CHR 0xE2, CHR 0xB1, CHR 0xA5] @ growing_lower s
     else sql_lower [c] @ growing_lower (d # s))"
| "growing_lower s = sql_lower s"

text \<open>With a workspace at \<open>/work\<close>, probe output in which a letter that grows when folded stands before the path is
  never sanitized: every round finds the replacement again, however many rounds are allowed.\<close>

theorem probe_sanitizer_loops:
  "replace_fold growing_lower fuel ([CHR 0xC8, CHR 0xBA] @ ''/WORKSPACE'' @ t) ''/work'' ''WORKSPACE'' = None"
proof (induction fuel arbitrary: t)
  case 0
  show ?case by (simp add: replace_fold.simps [of growing_lower 0])
next
  case (Suc n)
  let ?v = "[CHR 0xC8, CHR 0xBA] @ ''/WORKSPACE'' @ t"
  have c: "char_of (119 :: nat) = CHR ''w''" "char_of (111 :: nat) = CHR ''o''" "char_of (114 :: nat) = CHR ''r''" "char_of (107 :: nat) = CHR ''k''"
    by code_simp+
  have l: "growing_lower ?v = [CHR 0xE2, CHR 0xB1, CHR 0xA5] @ growing_lower (''/WORKSPACE'' @ t)" by simp
  have w: "\<exists>s. growing_lower (''/WORKSPACE'' @ t) = ''/work'' @ s"
    by (cases t) (auto simp: sql_lower_def between_def byte_def c)
  have o: "growing_lower ''/work'' = ''/work''" by code_simp
  obtain s where g: "growing_lower ?v = [CHR 0xE2, CHR 0xB1, CHR 0xA5] @ ''/work'' @ s" using l w by metis
  have f: "find_str (growing_lower ?v) (growing_lower ''/work'') = Some 3"
    unfolding g o by (simp add: has_prefix_def)
  have "replace_fold growing_lower (Suc n) ?v ''/work'' ''WORKSPACE'' =
      replace_fold growing_lower n ([CHR 0xC8, CHR 0xBA] @ ''/WORKSPACE'' @ ''PACE'' @ t) ''/work'' ''WORKSPACE''"
    unfolding replace_fold.simps [of growing_lower "Suc n"] f by (simp add: numeral_eq_Suc)
  then show ?case using Suc.IH by simp
qed

definition demo_typed :: manifest where
  "demo_typed = (demo_command ''off'')\<lparr>mf_arguments := [(''n'', \<lparr>ar_type = ''integer'', ar_required = True, ar_default = JNull, ar_description = []\<rparr>)],
     mf_execution := map_option (\<lambda>x. x\<lparr>ex_argv := [''-j{n}'', ''{n}'']\<rparr>) (mf_execution (demo_command ''off''))\<rparr>"

theorem arguments_well_typed_witness:
  "\<exists>argv vals. expand_arguments (\<lambda>s. s) demo_typed [(''n'', IntValue 4)] = Inr (argv, vals) \<and> argv = [filled vals ''-j{n}'', filled vals ''{n}'']"
proof -
  have "is_ok (expand_arguments (\<lambda>s. s) demo_typed [(''n'', IntValue 4)])" by code_simp
  then obtain argv vals where e: "expand_arguments (\<lambda>s. s) demo_typed [(''n'', IntValue 4)] = Inr (argv, vals)"
    by (auto simp: is_ok_def split: sum.splits)
  have t: "template_of demo_typed = [''-j{n}'', ''{n}'']" by code_simp
  have "argv = map (filled vals) (template_of demo_typed)" using arguments_well_typed [OF e] by blast
  then show ?thesis using e t by simp
qed

end
