(* ===== verification/CatalogIndex.thy ===== *)
theory CatalogIndex
  imports CatalogService TextContent Workspace
begin

text \<open>
  \<open>internal/catalog/indexer.go\<close>: a generation of the catalog is built from the manifest files below the
  configured roots, audited against the programs in the workspace, and published when its fingerprint differs
  from the current one. The file system is read through \<open>indexer_env\<close>; the order \<open>sort.Slice\<close>
  chooses for equal issues, JSON forms and digests are parameters of it as well. Contexts are never cancelled.
\<close>

section \<open>Paths\<close>

definition normalize_relative :: "string \<Rightarrow> string" where
  "normalize_relative p = trim_prefix (path_clean p) ''./''"

definition catalog_root_key :: "string \<Rightarrow> string" where
  "catalog_root_key p = normalize_relative p"

definition program_extension :: "string \<Rightarrow> bool" where
  "program_extension e \<longleftrightarrow> List.member [''.bat'', ''.cmd'', ''.exe'', ''.ps1'', ''.py'', ''.sh''] e"

definition path_like_ref :: "(string \<Rightarrow> string) \<Rightarrow> string \<Rightarrow> bool" where
  "path_like_ref lower ref \<longleftrightarrow> is_abs ref \<or> contains_any ref (CHR 0x5C # ''/'') \<or> has_prefix ref ''./'' \<or>
     has_prefix ref ''../'' \<or> program_extension (lower (path_ext ref))"

definition supported_manifest :: "(string \<Rightarrow> string) \<Rightarrow> string \<Rightarrow> bool" where
  "supported_manifest lower p \<longleftrightarrow> List.member [''.yaml'', ''.yml'', ''.json'', ''.md''] (lower (path_ext p))"

definition manifest_like_unsupported :: "(string \<Rightarrow> string) \<Rightarrow> string \<Rightarrow> bool" where
  "manifest_like_unsupported lower p \<longleftrightarrow> lower (path_ext p) = ''.toml''"

definition source_ref :: "string \<Rightarrow> string \<Rightarrow> string" where
  "source_ref relative hash = ''source:'' @ relative @ (if hash = [] then [] else ''@sha256:'' @ hash)"

section \<open>The file system\<close>

text \<open>One call of the function given to \<open>WalkDir\<close>.\<close>

record walk_entry =
  we_path :: string
  we_error :: "go_error option"
  we_dir :: bool
  we_mode :: "go_error + nat"

text \<open>\<open>nx_open\<close> is the answer of \<open>Open\<close>, and within it that of reading; \<open>nx_digest\<close> is the SHA-256 sum as
  bytes and \<open>nx_hex\<close> its hexadecimal text; \<open>nx_details\<close> encodes an object of texts; \<open>nx_entries\<close> is the
  listing of the root with the directories that are no links marked.\<close>

record indexer_env =
  nx_os :: os_env
  nx_root :: root
  nx_roots :: "string list"
  nx_candidates :: "string list"
  nx_walk :: "string \<Rightarrow> walk_entry list"
  nx_open :: "string \<Rightarrow> go_error + (go_error + string)"
  nx_close :: "string \<Rightarrow> go_error option"
  nx_entries :: "go_error + (string \<times> bool) list"
  nx_lower :: "string \<Rightarrow> string"
  nx_yaml :: yaml_env
  nx_marshal :: "manifest \<Rightarrow> go_error + string"
  nx_unmarshal :: "string \<Rightarrow> go_error + manifest"
  nx_details :: "(string, string) gomap \<Rightarrow> string"
  nx_text :: "go_error \<Rightarrow> string"
  nx_digest :: "string \<Rightarrow> string"
  nx_hex :: "string \<Rightarrow> string"
  nx_order :: "catalog_issue list \<Rightarrow> catalog_issue list"
  nx_valid :: "string \<Rightarrow> bool"

definition find_primary :: "indexer_env \<Rightarrow> string \<Rightarrow> go_error + string" where
  "find_primary env p = resolve_primary_existing (nx_os env) (nx_root env) p"

definition read_start :: "indexer_env \<Rightarrow> string \<Rightarrow> go_error + string" where
  "read_start env p = (case nx_open env p of Inl e \<Rightarrow> Inl e | Inr r \<Rightarrow> r)"

text \<open>A file that cannot be opened counts as a candidate, one that cannot be read does not.\<close>

definition markdown_candidate :: "indexer_env \<Rightarrow> string \<Rightarrow> bool" where
  "markdown_candidate env p = (case nx_open env p of
       Inl _ \<Rightarrow> True
     | Inr r \<Rightarrow>
         let start = trim_prefix (case r of Inl _ \<Rightarrow> [] | Inr s \<Rightarrow> take 7 s) [CHR 0xEF, CHR 0xBB, CHR 0xBF]
         in has_prefix start (''---'' @ [CHR 0x0A]) \<or> has_prefix start (''---'' @ [CHR 0x0D, CHR 0x0A]))"

definition execution_candidate :: "indexer_env \<Rightarrow> walk_entry \<Rightarrow> go_error + bool" where
  "execution_candidate env e =
     (if program_extension (nx_lower env (path_ext (path_base (we_path e)))) then Inr True
      else try_then (we_mode e) (\<lambda>mode.
        if mode mod 2 = 1 \<or> mode div 8 mod 2 = 1 \<or> mode div 64 mod 2 = 1 then Inr True
        else try_then (read_start env (we_path e)) (\<lambda>s. Inr (take 2 s = ''#!''))))"

definition relative_to_root :: "indexer_env \<Rightarrow> string \<Rightarrow> go_error + string" where
  "relative_to_root env p = (case path_rel (rt_root_resolved (nx_root env)) p of
       None \<Rightarrow> Inl (Text ''Rel: cannot make path relative'') | Some r \<Rightarrow> Inr r)"

definition note_path :: "string \<Rightarrow> string list \<Rightarrow> string list" where
  "note_path p seen = (if List.member seen p then seen else seen @ [p])"

text \<open>A walk that notes the paths its filter accepts.\<close>

fun walk_noting ::
    "indexer_env \<Rightarrow> string \<Rightarrow> (walk_entry \<Rightarrow> go_error + bool) \<Rightarrow> walk_entry list \<Rightarrow> string list \<Rightarrow> go_error + string list" where
  "walk_noting env what accept [] seen = Inr seen"
| "walk_noting env what accept (e # es) seen =
     (case we_error e of
        Some err \<Rightarrow> Inl err
      | None \<Rightarrow>
          if we_dir e then walk_noting env what accept es seen
          else try_then (accept e) (\<lambda>wanted.
            if \<not> wanted then walk_noting env what accept es seen
            else try_then (relative_to_root env (we_path e)) (\<lambda>r.
              let seen' = note_path (normalize_relative r) seen
              in if 10000 < int (length seen') then Inl (Text (what @ '' count exceeds 10000''))
                 else walk_noting env what accept es seen')))"

section \<open>Collecting paths\<close>

definition manifest_entry :: "indexer_env \<Rightarrow> walk_entry \<Rightarrow> go_error + bool" where
  "manifest_entry env e = (let name = path_base (we_path e) in
     Inr (supported_manifest (nx_lower env) name \<and> (nx_lower env (path_ext name) = ''.md'' \<longrightarrow> markdown_candidate env (we_path e))))"

definition note_file :: "indexer_env \<Rightarrow> string \<Rightarrow> string list \<Rightarrow> go_error + string list" where
  "note_file env absolute seen = try_then (relative_to_root env absolute) (\<lambda>r. Inr (note_path (normalize_relative r) seen))"

text \<open>The loops over the configured roots; \<open>single\<close> says whether a root that is a file is noted.\<close>

fun collect_roots ::
    "indexer_env \<Rightarrow> string \<Rightarrow> (string \<Rightarrow> string \<Rightarrow> bool) \<Rightarrow> (walk_entry \<Rightarrow> go_error + bool) \<Rightarrow> string list \<Rightarrow> string list \<Rightarrow>
     go_error + string list" where
  "collect_roots env what single accept [] seen = Inr seen"
| "collect_roots env what single accept (c # cs) seen =
     (case find_primary env c of
        Inl e \<Rightarrow> if errors_is e FileNotExist then collect_roots env what single accept cs seen
                 else Inl (Wrap (''resolve catalog root '' @ quoted c) e)
      | Inr absolute \<Rightarrow>
          try_then (env_stat_dir (nx_os env) absolute) (\<lambda>dir.
            if \<not> dir then
              (if single c absolute then try_then (note_file env absolute seen) (collect_roots env what single accept cs)
               else collect_roots env what single accept cs seen)
            else try_then (walk_noting env what accept (nx_walk env absolute) seen) (collect_roots env what single accept cs)))"

definition manifest_paths :: "indexer_env \<Rightarrow> go_error + string list" where
  "manifest_paths env = try_then
     (collect_roots env ''catalog manifest''
        (\<lambda>c absolute. supported_manifest (nx_lower env) c \<and> (nx_lower env (path_ext c) = ''.md'' \<longrightarrow> markdown_candidate env absolute))
        (manifest_entry env) (nx_roots env) [])
     (\<lambda>seen. Inr (sort seen))"

definition unsupported_paths :: "indexer_env \<Rightarrow> go_error + string list" where
  "unsupported_paths env = try_then
     (collect_roots env ''unsupported manifest'' (\<lambda>c _. \<not> supported_manifest (nx_lower env) c)
        (\<lambda>e. Inr (manifest_like_unsupported (nx_lower env) (path_base (we_path e)))) (nx_roots env) [])
     (\<lambda>seen. Inr (sort seen))"

fun collect_candidates :: "indexer_env \<Rightarrow> string list \<Rightarrow> string list \<Rightarrow> go_error + string list" where
  "collect_candidates env [] seen = Inr seen"
| "collect_candidates env (c # cs) seen =
     (case find_primary env c of
        Inl e \<Rightarrow> if errors_is e FileNotExist then collect_candidates env cs seen
                 else Inl (Wrap (''resolve candidate root '' @ quoted c) e)
      | Inr absolute \<Rightarrow> try_then (walk_noting env ''execution candidate'' (execution_candidate env) (nx_walk env absolute) seen)
          (collect_candidates env cs))"

definition candidate_paths :: "indexer_env \<Rightarrow> go_error + string list" where
  "candidate_paths env = try_then (collect_candidates env (nx_candidates env) []) (\<lambda>seen. Inr (sort seen))"

section \<open>Manifests\<close>

definition text_issue :: "indexer_env \<Rightarrow> string \<Rightarrow> string \<Rightarrow> string \<Rightarrow> catalog_issue" where
  "text_issue env code ref message = \<lparr>cu_code = code, cu_source = ref, cu_detail = nx_details env [(''message'', message)]\<rparr>"

definition error_issue :: "indexer_env \<Rightarrow> string \<Rightarrow> string \<Rightarrow> go_error \<Rightarrow> catalog_issue" where
  "error_issue env code ref e =
     (if code = ''source_unavailable'' then text_issue env code ref ''catalog source could not be read''
      else text_issue env code ref (nx_text env e))"

definition term_of :: "string \<Rightarrow> int \<Rightarrow> string \<Rightarrow> catalog_term list" where
  "term_of field weight value = (let v = trim_space value in
     if v = [] then [] else [\<lparr>ct_field = field, ct_term = v, ct_weight = weight\<rparr>])"

definition manifest_terms :: "manifest \<Rightarrow> catalog_term list" where
  "manifest_terms m = sort_key (\<lambda>t. (ct_field t, ct_term t, ct_weight t))
     (term_of ''id'' 100 (mf_id m) @ term_of ''summary'' 30 (mf_summary m) @ concat (map (term_of ''alias'' 25) (mf_aliases m)) @
      concat (map (term_of ''tag'' 20) (mf_tags m)) @ concat (map (term_of ''use_when'' 10) (mf_use_when m)))"

record build_state =
  bs_hash :: string
  bs_items :: "catalog_item list"
  bs_issues :: "catalog_issue list"

definition add_issue :: "catalog_issue \<Rightarrow> build_state \<Rightarrow> build_state" where
  "add_issue i b = b\<lparr>bs_issues := bs_issues b @ [i]\<rparr>"

definition manifest_too_large :: go_error where "manifest_too_large = Text ''catalog: manifest exceeds size limit''"

definition manifest_failure :: "manifest_error \<Rightarrow> go_error" where
  "manifest_failure e = (case e of TooLarge \<Rightarrow> manifest_too_large | Invalid r \<Rightarrow> r)"

text \<open>Everything read of one manifest file: its bytes, whether there were more, and its size.\<close>

definition read_manifest :: "indexer_env \<Rightarrow> string \<Rightarrow> go_error + (string \<times> bool \<times> nat)" where
  "read_manifest env relative =
     try_then (find_primary env relative) (\<lambda>absolute.
     try_then (nx_open env absolute) (\<lambda>file.
     try_then (read_bounded file 1048576) (\<lambda>(data, truncated).
       case nx_close env absolute of
         Some e \<Rightarrow> Inl e
       | None \<Rightarrow> try_then (env_stat_file (nx_os env) absolute) (\<lambda>(_, n). Inr (data, truncated, n)))))"

definition manifest_step :: "indexer_env \<Rightarrow> string \<Rightarrow> build_state \<Rightarrow> go_error + build_state" where
  "manifest_step env relative b =
     (case read_manifest env relative of
        Inl e \<Rightarrow> Inr (add_issue (error_issue env ''source_unavailable'' (source_ref relative []) e) b)
      | Inr (data, truncated, n) \<Rightarrow>
          (let digest = nx_digest env data; ref = source_ref relative (nx_hex env digest);
               b1 = b\<lparr>bs_hash := bs_hash b @ relative @ [CHR 0x00] @ digest @ itoa n @ [CHR 0x00]\<rparr>
           in if truncated then Inr (add_issue (error_issue env ''invalid_manifest'' ref manifest_too_large) b1)
              else case decode_manifest (nx_lower env) (nx_yaml env) (path_ext relative) data of
                  Inl e \<Rightarrow> Inr (add_issue (error_issue env ''invalid_manifest'' ref (manifest_failure e)) b1)
                | Inr m \<Rightarrow> (case nx_marshal env m of
                    Inl e \<Rightarrow> Inl (Wrap (''marshal manifest '' @ quoted relative) e)
                  | Inr document \<Rightarrow> Inr (b1\<lparr>bs_items := bs_items b1 @
                      [\<lparr>ci_id = mf_id m, ci_revision = itoa (unat (mf_revision m)), ci_source = ref, ci_execution = [],
                        ci_document = document, ci_terms = manifest_terms m\<rparr>]\<rparr>))))"

fun manifest_steps :: "indexer_env \<Rightarrow> string list \<Rightarrow> build_state \<Rightarrow> go_error + build_state" where
  "manifest_steps env [] b = Inr b"
| "manifest_steps env (p # ps) b = try_then (manifest_step env p b) (manifest_steps env ps)"

definition with_id :: "string \<Rightarrow> catalog_item list \<Rightarrow> catalog_item list" where
  "with_id i items = filter (\<lambda>x. ci_id x = i) items"

definition duplicate_issues :: "indexer_env \<Rightarrow> catalog_item list \<Rightarrow> catalog_issue list" where
  "duplicate_issues env xs = map (\<lambda>x. error_issue env ''duplicate_id'' (ci_source x)
     (Text (''catalog id '' @ quoted (ci_id x) @ '' has '' @ itoa (length xs) @ '' declarations''))) xs"

fun unique_items :: "indexer_env \<Rightarrow> catalog_item list \<Rightarrow> string list \<Rightarrow> catalog_item list \<times> catalog_issue list" where
  "unique_items env all [] = ([], [])"
| "unique_items env all (i # ids) =
     (let xs = with_id i all; (items, issues) = unique_items env all ids
      in if 1 < length xs then (items, duplicate_issues env xs @ issues) else (xs @ items, issues))"

section \<open>Programs\<close>

definition audit_sources :: "(string \<Rightarrow> string) \<Rightarrow> execution \<Rightarrow> string list \<Rightarrow> string list" where
  "audit_sources lower x candidates =
     (let named = (if path_like_ref lower (ex_executable x) then [normalize_relative (ex_executable x)] else []);
          cwd = (if ex_cwd x = [] \<or> ex_cwd x = ''.'' \<or> ex_cwd x = ''repository'' then ''.'' else ex_cwd x);
          given = (if is_abs cwd then []
                   else filter (\<lambda>p. p \<noteq> ''..'' \<and> \<not> has_prefix p ''../'' \<and> List.member candidates p)
                     (map (\<lambda>a. normalize_relative (path_join cwd a))
                       (filter (\<lambda>a. \<not> is_abs a \<and> \<not> contains_any a ''{}'') (ex_argv x))))
      in sort (remdups (named @ given)))"

definition combined_fingerprint :: "indexer_env \<Rightarrow> (string \<times> string) list \<Rightarrow> string" where
  "combined_fingerprint env fs =
     (case fs of
        [] \<Rightarrow> []
      | [(p, f)] \<Rightarrow> f
      | _ \<Rightarrow> ''sha256:'' @ nx_hex env (nx_digest env (concat (map (\<lambda>(p, f). p @ [CHR 0x00] @ f @ [CHR 0x00]) fs))))"

definition MaxExecutableFingerprintBytes :: nat where "MaxExecutableFingerprintBytes = 64 * 1024 * 1024"

text \<open>The hash of a program: of its content in one read, or of the failing read.\<close>

definition hash_program :: "indexer_env \<Rightarrow> go_error + string \<Rightarrow> string option" where
  "hash_program env file =
     (case hash_bounded (\<lambda>s. nx_hex env (nx_digest env s)) (\<lambda>_. False) MaxExecutableFingerprintBytes
        [case file of Inl e \<Rightarrow> ([], ReadFailed e) | Inr s \<Rightarrow> (s, ReadEOF)] of
        Some (Inr (f, _)) \<Rightarrow> Some f
      | _ \<Rightarrow> None)"

lemma hash_program_code [code]:
  "hash_program env file = (case file of
       Inl _ \<Rightarrow> None
     | Inr s \<Rightarrow> if int (length s) \<le> 64 * 1024 * 1024 then Some (''sha256:'' @ nx_hex env (nx_digest env s)) else None)"
  by (auto simp: hash_program_def hash_bounded_def MaxExecutableFingerprintBytes_def split: sum.split)

definition source_fingerprint :: "indexer_env \<Rightarrow> catalog_item \<Rightarrow> string \<Rightarrow> catalog_issue + string" where
  "source_fingerprint env item path =
     (case find_primary env path of
        Inl _ \<Rightarrow> Inl (text_issue env ''missing_source'' (ci_source item)
          (''execution source '' @ quoted path @ '' does not resolve inside the workspace''))
      | Inr absolute \<Rightarrow> (case nx_open env absolute of
          Inl _ \<Rightarrow> Inl (text_issue env ''needs_review'' (ci_source item) ''execution source could not be fingerprinted'')
        | Inr file \<Rightarrow> (case (hash_program env file, nx_close env absolute) of
            (Some f, None) \<Rightarrow> Inr f
          | _ \<Rightarrow> Inl (text_issue env ''needs_review'' (ci_source item)
              ''execution source could not be fingerprinted within the audit limit''))))"

definition drift_issue :: "indexer_env \<Rightarrow> catalog_item \<Rightarrow> catalog_issue" where
  "drift_issue env item = text_issue env ''needs_review'' (ci_source item) ''execution source changed without a catalog revision change''"

text \<open>What the current generation says of an item: \<open>Some\<close> issue when its programs changed under the same revision.\<close>

definition drift_check ::
    "indexer_env \<Rightarrow> go_error + generation_meta \<Rightarrow> catalog_item \<Rightarrow> catalog_db \<Rightarrow> go_error + catalog_issue list" where
  "drift_check env current item db =
     (case current of
        Inl _ \<Rightarrow> Inr []
      | Inr m \<Rightarrow> (case get_catalog_item (rt_id (nx_root env)) (gm_id m) (ci_id item) db of
          Inl e \<Rightarrow> if errors_is e StoreNotFound then Inr [] else Inl e
        | Inr previous \<Rightarrow>
            if ci_revision previous = ci_revision item \<and> ci_execution previous \<noteq> [] \<and> ci_execution previous \<noteq> ci_execution item
            then Inr [drift_issue env item] else Inr []))"

definition program_prints :: "indexer_env \<Rightarrow> catalog_item \<Rightarrow> string list \<Rightarrow> (string \<times> string) list" where
  "program_prints env item sources = List.map_filter (\<lambda>p. case source_fingerprint env item p of
     Inl _ \<Rightarrow> None | Inr f \<Rightarrow> Some (p, f)) sources"

definition program_faults :: "indexer_env \<Rightarrow> catalog_item \<Rightarrow> string list \<Rightarrow> catalog_issue list" where
  "program_faults env item sources = List.map_filter (\<lambda>p. case source_fingerprint env item p of
     Inl u \<Rightarrow> Some u | Inr _ \<Rightarrow> None) sources"

fun audit_items ::
    "indexer_env \<Rightarrow> string list \<Rightarrow> go_error + generation_meta \<Rightarrow> catalog_db \<Rightarrow> catalog_item list \<Rightarrow>
     go_error + (catalog_item list \<times> string list \<times> catalog_issue list)" where
  "audit_items env candidates current db [] = Inr ([], [], [])"
| "audit_items env candidates current db (item # items) =
     (case nx_unmarshal env (ci_document item) of
        Inl e \<Rightarrow> Inl (Wrap (''decode indexed manifest '' @ quoted (ci_id item)) e)
      | Inr m \<Rightarrow> (case mf_execution m of
          None \<Rightarrow> try_then (audit_items env candidates current db items) (\<lambda>(is, rs, us). Inr (item # is, rs, us))
        | Some x \<Rightarrow>
            (let sources = audit_sources (nx_lower env) x candidates;
                 item' = item\<lparr>ci_execution := combined_fingerprint env (program_prints env item sources)\<rparr>
             in try_then (drift_check env current item' db) (\<lambda>drift.
                try_then (audit_items env candidates current db items) (\<lambda>(is, rs, us).
                  Inr (item' # is, sources @ rs, program_faults env item sources @ drift @ us))))))"

definition candidate_issue :: "indexer_env \<Rightarrow> string \<Rightarrow> catalog_issue" where
  "candidate_issue env c = \<lparr>cu_code = ''unregistered_candidate'', cu_source = source_ref c [],
     cu_detail = nx_details env [(''message'', ''execution candidate has no matching catalog executable_ref''), (''basis'', ''heuristic'')]\<rparr>"

definition audit_candidates ::
    "indexer_env \<Rightarrow> catalog_db \<Rightarrow> catalog_item list \<Rightarrow> go_error + (catalog_item list \<times> catalog_issue list)" where
  "audit_candidates env db items =
     try_then (candidate_paths env) (\<lambda>candidates.
       let current = current_generation (rt_id (nx_root env)) db in
       if (case current of Inl e \<Rightarrow> \<not> errors_is e StoreNotFound | Inr _ \<Rightarrow> False) then Inl (projl current)
       else try_then (audit_items env (map normalize_relative candidates) current db items) (\<lambda>(is, registered, us).
         Inr (is, us @ map (candidate_issue env) (filter (\<lambda>c. \<not> List.member registered (normalize_relative c)) candidates))))"

section \<open>Generations\<close>

definition items_text :: "catalog_item list \<Rightarrow> string" where
  "items_text items = concat (map (\<lambda>i. ci_id i @ [CHR 0x00] @ ci_execution i @ [CHR 0x00]) items)"

definition issues_text :: "catalog_issue list \<Rightarrow> string" where
  "issues_text issues = concat (map (\<lambda>u. cu_code u @ [CHR 0x00] @ cu_source u @ [CHR 0x00] @ cu_detail u @ [CHR 0x00]) issues)"

definition unsupported_issue :: "indexer_env \<Rightarrow> string \<Rightarrow> catalog_issue" where
  "unsupported_issue env p = text_issue env ''unsupported_manifest'' (source_ref p [])
     ''catalog source has a manifest-like format that this MVP does not parse''"

definition finish_build :: "indexer_env \<Rightarrow> time \<Rightarrow> string \<Rightarrow> catalog_item list \<Rightarrow> catalog_issue list \<Rightarrow> catalog_generation" where
  "finish_build env now hashed items issues =
     (let ordered = nx_order env issues;
          fingerprint = ''sha256:'' @ nx_hex env (nx_digest env (hashed @ items_text items @ issues_text ordered));
          w = rt_id (nx_root env)
      in \<lparr>gn_meta = \<lparr>gm_id = ''catalog_'' @ nx_hex env (take 16 (nx_digest env (w @ [CHR 0x00] @ fingerprint))), gm_workspace = w,
            gm_fingerprint = fingerprint, gm_created_at = now\<rparr>, gn_items = items, gn_issues = ordered\<rparr>)"

definition build_generation :: "indexer_env \<Rightarrow> time \<Rightarrow> catalog_db \<Rightarrow> go_error + catalog_generation" where
  "build_generation env now db =
     try_then (manifest_paths env) (\<lambda>paths.
     try_then (unsupported_paths env) (\<lambda>unsupported.
     try_then (manifest_steps env paths \<lparr>bs_hash = [], bs_items = [], bs_issues = map (unsupported_issue env) unsupported\<rparr>) (\<lambda>b.
       let (items, duplicates) = unique_items env (bs_items b) (sort (remdups (map ci_id (bs_items b)))) in
       try_then (audit_candidates env db items) (\<lambda>(audited, found).
         Inr (finish_build env now (bs_hash b) audited (bs_issues b @ duplicates @ found))))))"

definition retiredGenerationGrace :: time where "retiredGenerationGrace = seconds 3600"
definition retiredGenerationBatch :: nat where "retiredGenerationBatch = 16"

text \<open>\<open>race\<close> is what other indexers do before the publication and, when it conflicts, before the second reading;
  \<open>clock\<close> is the clock of the database.\<close>

definition refresh_index ::
    "indexer_env \<Rightarrow> time \<Rightarrow> time \<Rightarrow> (catalog_db \<Rightarrow> catalog_db) \<Rightarrow> (catalog_db \<Rightarrow> catalog_db) \<Rightarrow> catalog_db \<Rightarrow>
     catalog_db \<times> (go_error + generation_meta)" where
  "refresh_index env clock now race race2 db =
     (case build_generation env now db of
        Inl e \<Rightarrow> (db, Inl (Wrap ''build catalog generation'' e))
      | Inr g \<Rightarrow>
          (let w = rt_id (nx_root env); m = gn_meta g;
               db1 = fst (delete_retired_generations w (now - retiredGenerationGrace) now retiredGenerationBatch db);
               current = current_generation w db1
           in if (case current of Inr c \<Rightarrow> gm_fingerprint c = gm_fingerprint m | Inl _ \<Rightarrow> False) then (db1, current)
              else if (case current of Inl e \<Rightarrow> \<not> errors_is e StoreNotFound | Inr _ \<Rightarrow> False)
                then (db1, Inl (Wrap ''read current catalog generation'' (projl current)))
              else case publish_generation (nx_valid env) clock g (race db1) of
                  (db2, Inr _) \<Rightarrow> (db2, Inr m)
                | (db2, Inl e) \<Rightarrow>
                    (let db3 = race2 db2; again = current_generation w db3
                     in if errors_is e StoreConflict \<and> (case again of Inr c \<Rightarrow> gm_fingerprint c = gm_fingerprint m | Inl _ \<Rightarrow> False)
                        then (db3, again) else ((if errors_is e StoreConflict then db3 else db2), Inl (Wrap ''publish catalog generation'' e)))))"

section \<open>Roots that are not configured\<close>

definition consider_root :: "indexer_env \<Rightarrow> string list \<Rightarrow> string \<Rightarrow> string list" where
  "consider_root env found p =
     (if 8 \<le> length found then found
      else let relative = normalize_relative p; key = catalog_root_key relative in
        if list_ex (\<lambda>r. r = ''.'' \<or> key = r \<or> has_prefix key (r @ ''/'')) (map catalog_root_key (nx_roots env)) then found
        else case find_primary env relative of
            Inl _ \<Rightarrow> found
          | Inr absolute \<Rightarrow> if env_stat_dir (nx_os env) absolute = Inr True then found @ [relative] else found)"

fun consider_entries :: "indexer_env \<Rightarrow> (string \<times> bool) list \<Rightarrow> string list \<Rightarrow> string list" where
  "consider_entries env [] found = found"
| "consider_entries env ((name, directory) # es) found =
     (if 8 \<le> length found then found
      else if \<not> directory then consider_entries env es found
      else if \<not> is_ok (find_primary env (path_join name ''.git'')) then consider_entries env es found
      else consider_entries env es (consider_root env (consider_root env found (path_join (path_join name ''.repoplane'') ''catalog''))
        (path_join name ''catalog'')))"

definition unconfigured_roots :: "indexer_env \<Rightarrow> string list" where
  "unconfigured_roots env =
     (let found = consider_root env [] ''.repoplane/catalog'' in
      case nx_entries env of
        Inl _ \<Rightarrow> sort found
      | Inr es \<Rightarrow> if 64 < length es then sort found else sort (consider_entries env es found))"

section \<open>Every manifest is indexed or reported\<close>

text \<open>The item a file declares by itself.\<close>

definition declared_item :: "indexer_env \<Rightarrow> string \<Rightarrow> catalog_item option" where
  "declared_item env p =
     (case read_manifest env p of
        Inr (data, False, n) \<Rightarrow> (case decode_manifest (nx_lower env) (nx_yaml env) (path_ext p) data of
            Inr m \<Rightarrow> (case nx_marshal env m of
                Inr document \<Rightarrow> Some \<lparr>ci_id = mf_id m, ci_revision = itoa (unat (mf_revision m)),
                  ci_source = source_ref p (nx_hex env (nx_digest env data)), ci_execution = [],
                  ci_document = document, ci_terms = manifest_terms m\<rparr>
              | Inl _ \<Rightarrow> None)
          | Inl _ \<Rightarrow> None)
      | _ \<Rightarrow> None)"

definition reports :: "catalog_issue \<Rightarrow> string \<Rightarrow> bool" where
  "reports u p \<longleftrightarrow> cu_code u \<in> {''source_unavailable'', ''invalid_manifest'', ''duplicate_id''} \<and> (\<exists>h. cu_source u = source_ref p h)"

lemma error_issue_fields [simp]: "cu_code (error_issue env c r e) = c" "cu_source (error_issue env c r e) = r"
  by (simp_all add: error_issue_def text_issue_def)

lemma manifest_step_shape:
  assumes "manifest_step env p b = Inr b'"
  shows "bs_items b' = bs_items b @ (case declared_item env p of None \<Rightarrow> [] | Some i \<Rightarrow> [i]) \<and>
    (\<exists>us. bs_issues b' = bs_issues b @ us \<and> (declared_item env p = None \<longrightarrow> (\<exists>u \<in> set us. reports u p)))"
proof (cases "read_manifest env p")
  case (Inl e)
  with assms show ?thesis by (auto simp: manifest_step_def declared_item_def add_issue_def reports_def)
next
  case (Inr r)
  obtain data truncated n where r: "r = (data, truncated, n)" by (rule prod_cases3)
  show ?thesis
  proof (cases truncated)
    case True
    with assms Inr r show ?thesis by (auto simp: manifest_step_def declared_item_def add_issue_def reports_def Let_def)
  next
    case False
    with assms Inr r show ?thesis
      by (auto simp: manifest_step_def declared_item_def add_issue_def reports_def Let_def split: sum.splits)
  qed
qed

lemma manifest_steps_shape:
  assumes "manifest_steps env ps b = Inr b'"
  shows "bs_items b' = bs_items b @ List.map_filter (declared_item env) ps \<and>
    (\<exists>us. bs_issues b' = bs_issues b @ us \<and> (\<forall>p \<in> set ps. declared_item env p = None \<longrightarrow> (\<exists>u \<in> set us. reports u p)))"
  using assms
proof (induction ps arbitrary: b)
  case (Cons p ps)
  obtain b1 where b1: "manifest_step env p b = Inr b1" "manifest_steps env ps b1 = Inr b'"
    using Cons.prems by (auto simp: try_then_Inr_iff)
  from manifest_step_shape [OF b1(1)] obtain us where s: "bs_items b1 = bs_items b @ (case declared_item env p of None \<Rightarrow> [] | Some i \<Rightarrow> [i])"
    "bs_issues b1 = bs_issues b @ us" "declared_item env p = None \<longrightarrow> (\<exists>u \<in> set us. reports u p)"
    by (elim conjE exE)
  from Cons.IH [OF b1(2)] obtain vs where t: "bs_items b' = bs_items b1 @ List.map_filter (declared_item env) ps"
    "bs_issues b' = bs_issues b1 @ vs" "\<forall>p \<in> set ps. declared_item env p = None \<longrightarrow> (\<exists>u \<in> set vs. reports u p)"
    by (elim conjE exE)
  have "bs_items b' = bs_items b @ List.map_filter (declared_item env) (p # ps)"
    using s(1) t(1) by (simp add: List.map_filter_simps split: option.splits)
  moreover have "bs_issues b' = bs_issues b @ us @ vs" using s(2) t(2) by simp
  moreover have "\<forall>q \<in> set (p # ps). declared_item env q = None \<longrightarrow> (\<exists>u \<in> set (us @ vs). reports u q)"
    using s(3) t(3) by auto
  ultimately show ?case by blast
qed (simp add: List.map_filter_simps)

lemma unique_items_shape:
  "unique_items env all ids =
     (concat (map (\<lambda>i. if 1 < length (with_id i all) then [] else with_id i all) ids),
      concat (map (\<lambda>i. if 1 < length (with_id i all) then duplicate_issues env (with_id i all) else []) ids))"
  by (induction ids) (simp_all add: Let_def)

lemma note_path_distinct: "distinct seen \<Longrightarrow> distinct (note_path p seen)"
  by (simp add: note_path_def)

lemma walk_noting_distinct: "walk_noting env what accept es seen = Inr r \<Longrightarrow> distinct seen \<Longrightarrow> distinct r"
  by (induction env what accept es seen rule: walk_noting.induct)
    (auto simp: try_then_Inr_iff note_path_distinct Let_def split: option.splits if_splits)

lemma collect_roots_distinct: "collect_roots env what single accept cs seen = Inr r \<Longrightarrow> distinct seen \<Longrightarrow> distinct r"
  by (induction env what single accept cs seen rule: collect_roots.induct)
    (auto simp: try_then_Inr_iff note_file_def note_path_distinct dest: walk_noting_distinct split: sum.splits if_splits)

lemma manifest_paths_distinct: "manifest_paths env = Inr ps \<Longrightarrow> distinct ps"
  by (auto simp: manifest_paths_def try_then_Inr_iff dest: collect_roots_distinct)

lemma map_filter_ids:
  "i \<in> set (List.map_filter (declared_item env) ps) \<longleftrightarrow> (\<exists>p \<in> set ps. declared_item env p = Some i)"
  by (force simp: List.map_filter_def)

text \<open>Auditing only sets execution fingerprints, to those of the programs as they are.\<close>

definition audited_item :: "indexer_env \<Rightarrow> string list \<Rightarrow> catalog_item \<Rightarrow> catalog_item" where
  "audited_item env candidates item = (case nx_unmarshal env (ci_document item) of
       Inl _ \<Rightarrow> item
     | Inr m \<Rightarrow> (case mf_execution m of
         None \<Rightarrow> item
       | Some x \<Rightarrow> item\<lparr>ci_execution := combined_fingerprint env
           (program_prints env item (audit_sources (nx_lower env) x candidates))\<rparr>))"

lemma audited_fields [simp]:
  "ci_id (audited_item env cs i) = ci_id i" "ci_revision (audited_item env cs i) = ci_revision i"
  "ci_source (audited_item env cs i) = ci_source i" "ci_document (audited_item env cs i) = ci_document i"
  by (simp_all add: audited_item_def split: sum.split option.split)

lemma audit_items_shape:
  "audit_items env cs current db items = Inr (is, rs, us) \<Longrightarrow> is = map (audited_item env cs) items"
  by (induction items arbitrary: "is" rs us)
    (auto simp: try_then_Inr_iff audited_item_def Let_def split: sum.splits option.splits)

lemma audit_candidates_shape:
  assumes "audit_candidates env db items = Inr (audited, found)"
  obtains candidates where "candidate_paths env = Inr candidates" "audited = map (audited_item env (map normalize_relative candidates)) items"
  using assms by (auto simp: audit_candidates_def try_then_Inr_iff Let_def dest: audit_items_shape split: if_splits)

lemma build_parts:
  assumes "build_generation env now db = Inr g"
  obtains paths unsupported b items duplicates audited found where "manifest_paths env = Inr paths"
    "manifest_steps env paths \<lparr>bs_hash = [], bs_items = [], bs_issues = map (unsupported_issue env) unsupported\<rparr> = Inr b"
    "unique_items env (bs_items b) (sort (remdups (map ci_id (bs_items b)))) = (items, duplicates)"
    "audit_candidates env db items = Inr (audited, found)"
    "g = finish_build env now (bs_hash b) audited (bs_issues b @ duplicates @ found)"
proof -
  obtain paths where 1: "manifest_paths env = Inr paths"
    using assms unfolding build_generation_def try_then_Inr_iff by blast
  obtain unsupported where 2: "unsupported_paths env = Inr unsupported"
    using assms unfolding build_generation_def try_then_Inr_iff by blast
  have "\<exists>b. manifest_steps env paths \<lparr>bs_hash = [], bs_items = [], bs_issues = map (unsupported_issue env) unsupported\<rparr> = Inr b"
    using assms 1 2 unfolding build_generation_def try_then_Inr_iff by auto
  then obtain b where 3: "manifest_steps env paths \<lparr>bs_hash = [], bs_items = [], bs_issues = map (unsupported_issue env) unsupported\<rparr> = Inr b" ..
  obtain items duplicates where 4: "unique_items env (bs_items b) (sort (remdups (map ci_id (bs_items b)))) = (items, duplicates)"
    by (rule prod.exhaust)
  obtain audited found where "audit_candidates env db items = Inr (audited, found)"
    "g = finish_build env now (bs_hash b) audited (bs_issues b @ duplicates @ found)"
    using assms unfolding build_generation_def 1 2 3 4 try_then.simps by (auto simp: try_then_Inr_iff Let_def 4 split: prod.splits)
  with 1 3 4 show thesis by (rule that)
qed

lemma with_id_unique:
  assumes "distinct ps" "all = List.map_filter (declared_item env) ps"
  shows "length (with_id k all) = card {p \<in> set ps. \<exists>i. declared_item env p = Some i \<and> ci_id i = k}"
proof -
  have "length (with_id k (List.map_filter (declared_item env) ps)) = length (filter (\<lambda>p. \<exists>i. declared_item env p = Some i \<and> ci_id i = k) ps)"
    by (induction ps) (auto simp: with_id_def List.map_filter_simps split: option.splits)
  then show ?thesis using assms distinct_card [of "filter (\<lambda>p. \<exists>i. declared_item env p = Some i \<and> ci_id i = k) ps"] by simp
qed

lemma one_or_none: "concat (map (\<lambda>i. if 1 < length (f i) then [] else f i) (ids :: 'k list)) = xs \<Longrightarrow>
   (x \<in> set xs \<longleftrightarrow> (\<exists>i \<in> set ids. length (f i) = 1 \<and> x \<in> set (f i)))"
  by (auto simp: not_less le_Suc_eq split: if_splits)

lemma unique_ids:
  assumes "\<forall>i \<in> set ids. with_id i all \<noteq> []"
  shows "map ci_id (concat (map (\<lambda>i. if 1 < length (with_id i all) then [] else with_id i all) ids)) =
    filter (\<lambda>i. length (with_id i all) = 1) ids"
  using assms
proof (induction ids)
  case (Cons i ids)
  have "map ci_id (with_id i all) = [i]" if "length (with_id i all) = 1"
  proof -
    obtain x where "with_id i all = [x]" using \<open>length (with_id i all) = 1\<close> by (cases "with_id i all") auto
    then show ?thesis using filter_eq_ConsD [of "\<lambda>x. ci_id x = i" all x "[]"] by (auto simp: with_id_def)
  qed
  moreover have "0 < length (with_id i all)" using Cons.prems by simp
  ultimately show ?case using Cons.IH [OF ballI] Cons.prems by (auto simp: Suc_lessI)
qed simp

text \<open>C28: A generation holds exactly the identifiers that one single manifest file of the catalog roots declares, in order,
  and each item is what that file declares, with the fingerprint of its programs; every other manifest file found,
  unreadable, invalid or one of several that declare the same identifier, is named by an issue.\<close>

theorem index_is_exact:
  assumes "build_generation env now db = Inr g" "manifest_paths env = Inr paths" "candidate_paths env = Inr candidates"
    "\<And>us. set (nx_order env us) = set us"
  shows "sorted (map ci_id (gn_items g)) \<and> distinct (map ci_id (gn_items g)) \<and>
    (\<forall>k. k \<in> ci_id ` set (gn_items g) \<longleftrightarrow> card {p \<in> set paths. \<exists>i. declared_item env p = Some i \<and> ci_id i = k} = 1) \<and>
    (\<forall>x \<in> set (gn_items g). \<exists>p \<in> set paths. \<exists>i. declared_item env p = Some i \<and> x = audited_item env (map normalize_relative candidates) i) \<and>
    (\<forall>p \<in> set paths. (\<forall>i. declared_item env p = Some i \<longrightarrow> ci_id i \<notin> ci_id ` set (gn_items g)) \<longrightarrow>
       (\<exists>u \<in> set (gn_issues g). reports u p))"
proof -
  obtain paths' unsupported b items duplicates audited found where "manifest_paths env = Inr paths'"
    and m: "manifest_steps env paths' \<lparr>bs_hash = [], bs_items = [], bs_issues = map (unsupported_issue env) unsupported\<rparr> = Inr b"
    and u: "unique_items env (bs_items b) (sort (remdups (map ci_id (bs_items b)))) = (items, duplicates)"
    and a: "audit_candidates env db items = Inr (audited, found)"
    and g: "g = finish_build env now (bs_hash b) audited (bs_issues b @ duplicates @ found)"
    by (rule build_parts [OF assms(1)])
  with assms(2) have m: "manifest_steps env paths \<lparr>bs_hash = [], bs_items = [], bs_issues = map (unsupported_issue env) unsupported\<rparr> = Inr b"
    by simp
  let ?ids = "sort (remdups (map ci_id (bs_items b)))"
  obtain us where s: "bs_items b = List.map_filter (declared_item env) paths" "bs_issues b = map (unsupported_issue env) unsupported @ us"
    "\<forall>p \<in> set paths. declared_item env p = None \<longrightarrow> (\<exists>u \<in> set us. reports u p)"
    using manifest_steps_shape [OF m] by auto
  have i: "items = concat (map (\<lambda>i. if 1 < length (with_id i (bs_items b)) then [] else with_id i (bs_items b)) ?ids)"
    and d: "duplicates = concat (map (\<lambda>i. if 1 < length (with_id i (bs_items b)) then duplicate_issues env (with_id i (bs_items b)) else []) ?ids)"
    using u unfolding unique_items_shape by simp_all
  have ids: "map ci_id items = filter (\<lambda>i. length (with_id i (bs_items b)) = 1) ?ids"
    unfolding i by (rule unique_ids) (auto simp: with_id_def filter_empty_conv)
  have aud: "audited = map (audited_item env (map normalize_relative candidates)) items"
    using audit_candidates_shape [OF a] assms(3) by (metis Inr_inject)
  then have aud_ids: "map ci_id audited = map ci_id items" by simp
  have gi: "gn_items g = audited" "set (gn_issues g) = set (bs_issues b @ duplicates @ found)"
    using assms(4) by (simp_all add: g finish_build_def Let_def)
  note count = with_id_unique [OF manifest_paths_distinct [OF assms(2)] s(1)]
  have known: "length (with_id k (bs_items b)) \<noteq> 0 \<Longrightarrow> k \<in> set ?ids" for k by (auto simp: with_id_def filter_empty_conv)
  have "ci_id ` set (gn_items g) = set (map ci_id items)" using aud_ids gi(1) by (metis list.set_map)
  then have keys: "ci_id ` set (gn_items g) = {k. length (with_id k (bs_items b)) = 1}" unfolding ids set_filter using known by (metis (mono_tags, lifting) Collect_cong zero_neq_one)
  have from_file: "\<exists>p \<in> set paths. \<exists>i. declared_item env p = Some i \<and> x = audited_item env (map normalize_relative candidates) i"
    if x: "x \<in> set (gn_items g)" for x
  proof -
    obtain y where y: "y \<in> set items" "x = audited_item env (map normalize_relative candidates) y" using aud x gi(1) by auto
    then have "y \<in> set (bs_items b)" unfolding i by (auto simp: with_id_def split: if_splits)
    with y(2) show ?thesis unfolding s(1) map_filter_ids by blast
  qed
  have "\<exists>u \<in> set (gn_issues g). reports u p"
    if p: "p \<in> set paths" "\<forall>i. declared_item env p = Some i \<longrightarrow> ci_id i \<notin> ci_id ` set (gn_items g)" for p
  proof (cases "declared_item env p")
    case None
    with s(2,3) p(1) gi(2) show ?thesis by auto
  next
    case (Some y)
    let ?xs = "with_id (ci_id y) (bs_items b)"
    have y: "y \<in> set ?xs" using Some p(1) s(1) map_filter_ids [of y env paths] by (auto simp: with_id_def)
    then have "length ?xs \<noteq> 0" by auto
    moreover have "length ?xs \<noteq> 1" using p(2) Some keys by blast
    ultimately have "1 < length ?xs" "ci_id y \<in> set ?ids" using known [of "ci_id y"] by linarith+
    moreover obtain u where "u \<in> set (duplicate_issues env ?xs)" "cu_code u = ''duplicate_id''" "cu_source u = ci_source y"
      using y by (force simp: duplicate_issues_def)
    moreover have "\<exists>h. ci_source y = source_ref p h" using Some
      by (auto simp: declared_item_def split: sum.splits prod.splits bool.splits)
    ultimately show ?thesis unfolding gi(2) d reports_def by fastforce
  qed
  moreover have "sorted (map ci_id (gn_items g))" "distinct (map ci_id (gn_items g))"
    unfolding gi(1) aud_ids ids by (simp_all add: sorted_filter [of id, simplified])
  ultimately show ?thesis using keys count from_file by simp
qed

section \<open>Refreshing\<close>

lemma found_meta: "current_generation w db = Inr c \<Longrightarrow> \<exists>x. find_generation (gm_id c) db = Some x \<and> gn_meta x = c"
  by (auto simp: current_generation_def find_generation_def split: option.splits dest: find_Some_iff [THEN iffD1])

lemma retired_reachable:
  "catalog_reachable v db \<Longrightarrow> catalog_reachable v (fst (delete_retired_generations w t n limit db))"
  by (rule catalog_reachable.step [OF _ catalog_step.retire])

lemma retired_subset: "set (db_generations (fst (delete_retired_generations w t n limit db))) \<subseteq> set (db_generations db)"
  by (auto simp: delete_retired_generations_def Let_def)

lemma built_workspace: "build_generation env now db = Inr g \<Longrightarrow> gm_workspace (gn_meta g) = rt_id (nx_root env)"
  by (erule build_parts) (simp add: finish_build_def Let_def)

text \<open>What a refresh that answers leaves behind: the answered generation is the current one, it has the fingerprint just
  computed, and it is one that was stored before or the one just built.\<close>

lemma refresh_answer:
  assumes "catalog_reachable (nx_valid env) db" "refresh_index env clock now race race2 db = (db', Inr m)"
    "\<And>x. catalog_reachable (nx_valid env) x \<Longrightarrow> catalog_reachable (nx_valid env) (race x)"
  obtains g c x where "build_generation env now db = Inr g" "current_generation (rt_id (nx_root env)) db' = Inr c" "gm_id c = gm_id m"
    "gm_fingerprint c = gm_fingerprint (gn_meta g)" "find_generation (gm_id m) db' = Some x" "gn_meta x = c"
    "race = id \<Longrightarrow> race2 = id \<Longrightarrow> x = g \<or> x \<in> set (db_generations db)"
proof -
  let ?w = "rt_id (nx_root env)" and ?db1 = "fst (delete_retired_generations (rt_id (nx_root env)) (now - retiredGenerationGrace) now retiredGenerationBatch db)"
  obtain g where g: "build_generation env now db = Inr g" using assms(2) by (auto simp: refresh_index_def split: sum.splits)
  note answer = that
  have sub: "set (db_generations ?db1) \<subseteq> set (db_generations db)" by (rule retired_subset)
  have old: thesis if c: "current_generation ?w db' = Inr m" "gm_fingerprint m = gm_fingerprint (gn_meta g)"
    "race = id \<Longrightarrow> race2 = id \<Longrightarrow> set (db_generations db') \<subseteq> set (db_generations db) \<union> {g}"
  proof -
    obtain x where x: "find_generation (gm_id m) db' = Some x" "gn_meta x = m" using found_meta [OF c(1)] by blast
    moreover have "x \<in> set (db_generations db')" using find_generation_Some [OF x(1)] by blast
    ultimately show thesis using c g by (intro answer [of g m x]) auto
  qed
  consider (kept) "current_generation ?w ?db1 = Inr m" "gm_fingerprint m = gm_fingerprint (gn_meta g)" "db' = ?db1"
    | (published) u where "publish_generation (nx_valid env) clock g (race ?db1) = (db', Inr u)" "m = gn_meta g"
    | (conflict) db2 e where "publish_generation (nx_valid env) clock g (race ?db1) = (db2, Inl e)" "db' = race2 db2"
        "current_generation ?w db' = Inr m" "gm_fingerprint m = gm_fingerprint (gn_meta g)"
    using assms(2) g unfolding refresh_index_def Let_def by (auto split: sum.splits if_splits prod.splits)
  then show thesis
  proof cases
    case kept
    with sub show thesis by (intro old) auto
  next
    case published
    note r = assms(3) [OF retired_reachable [OF assms(1)]]
    from publish_makes_current [OF r published(1)] built_workspace [OF g] obtain c where c: "current_generation ?w db' = Inr c"
      "gm_id c = gm_id m" "gm_fingerprint c = gm_fingerprint (gn_meta g)"
      and f: "find_generation (gm_id m) db' = Some (case find_generation (gn_id g) (race ?db1) of None \<Rightarrow> g | Some old \<Rightarrow> old)"
      using published(2) by auto
    let ?x = "case find_generation (gn_id g) (race ?db1) of None \<Rightarrow> g | Some old \<Rightarrow> old"
    have "gn_meta ?x = c" using found_meta [OF c(1)] f c(2) by simp
    moreover have "?x = g \<or> ?x \<in> set (db_generations db)" if "race = id"
      using that sub find_generation_Some by (auto split: option.splits)
    ultimately show thesis by (rule answer [OF g c f])
  next
    case conflict
    have "set (db_generations db2) \<subseteq> set (db_generations (race ?db1)) \<union> {g}"
      using conflict(1) by (auto simp: publish_generation_def Let_def split: sum.splits option.splits if_splits)
    with conflict(2-4) sub show thesis by (intro old) auto
  qed
qed

lemma prints_same: "program_prints env i sources = program_prints env j sources"
proof -
  have "(case source_fingerprint env i p of Inl _ \<Rightarrow> None | Inr f \<Rightarrow> Some (p, f)) =
      (case source_fingerprint env j p of Inl _ \<Rightarrow> None | Inr f \<Rightarrow> Some (p, f))" for p
    by (auto simp: source_fingerprint_def split: sum.splits prod.splits option.splits)
  then show ?thesis by (simp add: program_prints_def)
qed


lemma declared_itemE:
  assumes "declared_item env p = Some i"
  obtains data n m where "read_manifest env p = Inr (data, False, n)" "decode_manifest (nx_lower env) (nx_yaml env) (path_ext p) data = Inr m"
    "nx_marshal env m = Inr (ci_document i)" "ci_id i = mf_id m" "ci_revision i = itoa (unat (mf_revision m))"
    "ci_source i = source_ref p (nx_hex env (nx_digest env data))" "ci_execution i = []"
  using assms by (auto simp: declared_item_def split: sum.splits prod.splits bool.splits)

lemma build_candidates: "build_generation env now db = Inr g \<Longrightarrow> \<exists>ps cs. manifest_paths env = Inr ps \<and> candidate_paths env = Inr cs"
  by (erule build_parts) (auto simp: audit_candidates_def try_then_Inr_iff)



section \<open>A warning that is gone\<close>

lemma audit_items_quiet:
  assumes "\<And>item. item \<in> set items \<Longrightarrow> drift_check env current (audited_item env cs item) db = Inr []"
  shows "audit_items env cs current db items = audit_items env cs (Inl e) db2 items"
  using assms
proof (induction items)
  case (Cons item items)
  have IH: "audit_items env cs current db items = audit_items env cs (Inl e) db2 items" using Cons by simp
  have "drift_check env current (audited_item env cs item) db = Inr []" using Cons.prems by simp
  then show ?case by (auto simp: IH audited_item_def Let_def drift_check_def [of env "Inl e"] split: sum.splits option.splits)
qed simp

lemma own_generation_quiet:
  assumes "find_generation (gm_id m) db = Some x" "gm_workspace (gn_meta x) = rt_id (nx_root env)" "gm_id m \<noteq> []"
    "distinct (map ci_id (gn_items x))" "item \<in> set (gn_items x)"
  shows "drift_check env (Inr m) item db = Inr []"
proof -
  have "find (\<lambda>y. ci_id y = ci_id item) (gn_items x) = Some item"
    using assms(4,5) by (induction "gn_items x" arbitrary: x) (auto simp: find_Some_iff in_set_conv_nth distinct_conv_nth)
  then show ?thesis using assms(1-3)
    by (simp add: drift_check_def get_catalog_item_def resolve_generation_def generation_items_def read_terms_def)
qed

lemma audit_candidates_quiet:
  assumes "candidate_paths env = Inr candidates" "current_generation (rt_id (nx_root env)) db = Inr m"
    "\<And>item. item \<in> set items \<Longrightarrow> drift_check env (Inr m) (audited_item env (map normalize_relative candidates) item) db = Inr []"
  shows "audit_candidates env db items = audit_candidates env fresh_catalog items"
proof -
  have "audit_items env (map normalize_relative candidates) (Inr m) db items =
      audit_items env (map normalize_relative candidates) (Inl (Sentinel StoreNotFound)) fresh_catalog items"
    by (rule audit_items_quiet) (rule assms(3))
  moreover have "current_generation (rt_id (nx_root env)) fresh_catalog = Inl (Sentinel StoreNotFound)"
    by (simp add: current_generation_def fresh_catalog_def)
  ultimately show ?thesis using assms(1,2) by (simp add: audit_candidates_def)
qed

text \<open>C31: The warning that a program changed under an unchanged revision lasts for one generation only: once the generation
  that carries it is published, the next build of the unchanged workspace is exactly the build over an empty catalog, which
  knows no earlier fingerprint to compare with.\<close>

theorem drift_warning_lasts_once:
  assumes "catalog_reachable (nx_valid env) db" "build_generation env now db = Inr g"
    "publish_generation (nx_valid env) clock g db = (db', Inr u)" "find_generation (gn_id g) db = None"
    "\<And>us. set (nx_order env us) = set us"
  shows "build_generation env later db' = build_generation env later fresh_catalog"
proof -
  obtain paths unsupported b items duplicates audited found where ps: "manifest_paths env = Inr paths"
    and b: "manifest_steps env paths \<lparr>bs_hash = [], bs_items = [], bs_issues = map (unsupported_issue env) unsupported\<rparr> = Inr b"
    and i: "unique_items env (bs_items b) (sort (remdups (map ci_id (bs_items b)))) = (items, duplicates)"
    and a: "audit_candidates env db items = Inr (audited, found)"
    and g: "g = finish_build env now (bs_hash b) audited (bs_issues b @ duplicates @ found)"
    by (rule build_parts [OF assms(2)])
  obtain candidates where cs: "candidate_paths env = Inr candidates" "audited = map (audited_item env (map normalize_relative candidates)) items"
    by (rule audit_candidates_shape [OF a])
  have gi: "gn_items g = audited" "gm_workspace (gn_meta g) = rt_id (nx_root env)" "gn_id g \<noteq> []"
    by (simp_all add: g finish_build_def Let_def)
  obtain c where c: "current_generation (rt_id (nx_root env)) db' = Inr c" "gm_id c = gn_id g" "find_generation (gn_id g) db' = Some g"
    using publish_makes_current [OF assms(1,3)] assms(4) gi(2) by auto
  have d: "distinct (map ci_id (gn_items g))" using index_is_exact [OF assms(2) ps cs(1) assms(5)] by blast
  have "drift_check env (Inr c) (audited_item env (map normalize_relative candidates) item) db' = Inr []" if "item \<in> set items" for item
    by (rule own_generation_quiet [OF _ gi(2) _ d]) (use c(2,3) gi(1,3) cs(2) that in simp_all)
  then have same: "audit_candidates env db' items = audit_candidates env fresh_catalog items"
    by (rule audit_candidates_quiet [OF cs(1) c(1)])
  have "bs_items b' = bs_items b"
    if "manifest_steps env paths \<lparr>bs_hash = [], bs_items = [], bs_issues = us\<rparr> = Inr b'" for us b'
    using manifest_steps_shape [OF that] manifest_steps_shape [OF b] by simp
  then have "unique_items env (bs_items b') (sort (remdups (map ci_id (bs_items b')))) = (items, duplicates)"
    if "manifest_steps env paths \<lparr>bs_hash = [], bs_items = [], bs_issues = us\<rparr> = Inr b'" for us b'
    using that i by simp
  note unique = this
  show ?thesis
  proof (cases "unsupported_paths env")
    case (Inr us)
    then show ?thesis
      by (cases "manifest_steps env paths \<lparr>bs_hash = [], bs_items = [], bs_issues = map (unsupported_issue env) us\<rparr>")
        (simp_all add: build_generation_def ps unique same)
  qed (simp add: build_generation_def ps)
qed

section \<open>Byte order marks\<close>

text \<open>A Markdown manifest that begins with a byte order mark and has CRLF line ends is never looked at, since only seven
  bytes are read for the eight that are compared, although decoding would accept it.\<close>

lemma bom_crlf_manifest_ignored:
  fixes rest :: string
  defines "plain \<equiv> ''---'' @ [CHR 0x0D, CHR 0x0A] @ rest" and "marked \<equiv> [CHR 0xEF, CHR 0xBB, CHR 0xBF] @ ''---'' @ [CHR 0x0D, CHR 0x0A] @ rest"
  assumes "nx_open env p = Inr (Inr marked)"
  shows "\<not> markdown_candidate env p \<and> markdown_front_matter marked = markdown_front_matter plain"
proof
  show "\<not> markdown_candidate env p"
    using assms by (simp add: markdown_candidate_def trim_prefix_def has_prefix_def Let_def)
  have "trim_prefix marked [CHR 0xEF, CHR 0xBB, CHR 0xBF] = trim_prefix plain [CHR 0xEF, CHR 0xBB, CHR 0xBF]"
    by (simp add: marked_def plain_def trim_prefix_def has_prefix_def)
  then show "markdown_front_matter marked = markdown_front_matter plain" unfolding markdown_front_matter_def by metis
qed

section \<open>A refresh succeeds\<close>

definition issue_fine :: "indexer_env \<Rightarrow> catalog_issue \<Rightarrow> bool" where
  "issue_fine env u \<longleftrightarrow> cu_code u \<noteq> [] \<and> (\<exists>d. cu_detail u = nx_details env d)"

lemma text_issue_fine [simp]: "issue_fine env (text_issue env c r s) \<longleftrightarrow> c \<noteq> []"
  by (auto simp: issue_fine_def text_issue_def)

lemma error_issue_fine [simp]: "issue_fine env (error_issue env c r e) \<longleftrightarrow> c \<noteq> []"
  by (simp add: error_issue_def)

lemma manifest_step_fine:
  "manifest_step env p b = Inr b' \<Longrightarrow> list_all (issue_fine env) (bs_issues b) \<Longrightarrow> list_all (issue_fine env) (bs_issues b')"
  by (auto simp: manifest_step_def add_issue_def Let_def split: sum.splits if_splits prod.splits)

lemma manifest_steps_fine:
  "manifest_steps env ps b = Inr b' \<Longrightarrow> list_all (issue_fine env) (bs_issues b) \<Longrightarrow> list_all (issue_fine env) (bs_issues b')"
  by (induction ps arbitrary: b) (auto simp: try_then_Inr_iff dest: manifest_step_fine)

lemma source_fingerprint_fine: "source_fingerprint env item p = Inl u \<Longrightarrow> issue_fine env u"
  by (auto simp: source_fingerprint_def split: sum.splits prod.splits option.splits)

lemma faults_fine: "list_all (issue_fine env) (program_faults env item sources)"
  by (induction sources) (auto simp: program_faults_def List.map_filter_simps source_fingerprint_fine split: sum.splits option.splits)

lemma drift_fine: "drift_check env current item db = Inr us \<Longrightarrow> list_all (issue_fine env) us"
  by (auto simp: drift_check_def drift_issue_def split: sum.splits if_splits)

lemma audit_items_fine: "audit_items env cs current db items = Inr (is, rs, us) \<Longrightarrow> list_all (issue_fine env) us"
  by (induction items arbitrary: "is" rs us)
    (auto simp: try_then_Inr_iff Let_def faults_fine dest: drift_fine split: sum.splits option.splits)

lemma candidate_issue_fine: "issue_fine env (candidate_issue env c)"
  unfolding issue_fine_def candidate_issue_def by auto

lemma audit_candidates_fine:
  assumes "audit_candidates env db items = Inr (audited, found)"
  shows "list_all (issue_fine env) found"
proof -
  obtain cs us rs where "audit_items env (map normalize_relative cs) (current_generation (rt_id (nx_root env)) db) db items = Inr (audited, rs, us)"
    "found = us @ map (candidate_issue env) (filter (\<lambda>c. \<not> List.member rs (normalize_relative c)) cs)"
    using assms by (auto simp: audit_candidates_def try_then_Inr_iff Let_def split: if_splits)
  with audit_items_fine [OF this(1)] candidate_issue_fine show ?thesis by (auto simp: list_all_iff)
qed

lemma itoa_nonempty: "itoa k \<noteq> []"
  by (subst itoa.simps) simp

lemma items_accepted:
  "\<lbrakk>distinct (map ci_id xs); \<forall>x \<in> set xs. \<not> item_invalid v x; set seen \<inter> ci_id ` set xs = {}\<rbrakk> \<Longrightarrow> \<not> items_rejected v seen xs"
  by (induction v seen xs rule: items_rejected.induct) auto

lemma declared_valid:
  assumes "declared_item env p = Some i" "\<And>m s. nx_marshal env m = Inr s \<Longrightarrow> nx_valid env s"
  shows "\<not> item_invalid (nx_valid env) (audited_item env cs i)"
proof -
  obtain data n m where d: "decode_manifest (nx_lower env) (nx_yaml env) (path_ext p) data = Inr m" "nx_marshal env m = Inr (ci_document i)"
    "ci_id i = mf_id m" "ci_revision i = itoa (unat (mf_revision m))" "ci_source i = source_ref p (nx_hex env (nx_digest env data))"
    by (rule declared_itemE [OF assms(1)])
  have "validate_manifest m = Inr ()"
    using d(1) by (auto simp: decode_manifest_def split: if_splits sum.splits)
  then have "mf_id m \<noteq> []" by (auto simp: validate_manifest_def id_pattern_def split: if_splits)
  with d(2-5) assms(2) [OF d(2)] show ?thesis by (simp add: item_invalid_def source_ref_def itoa_nonempty)
qed

lemma built_generation_valid:
  assumes "build_generation env now db = Inr g" "rt_id (nx_root env) \<noteq> []" "now \<noteq> zero_time" "\<And>us. set (nx_order env us) = set us"
    "\<And>d. nx_valid env (nx_details env d)" "\<And>m s. nx_marshal env m = Inr s \<Longrightarrow> nx_valid env s"
  shows "validate_generation (nx_valid env) g = Inr ()"
proof -
  obtain ps cs where pc: "manifest_paths env = Inr ps" "candidate_paths env = Inr cs" using build_candidates [OF assms(1)] by blast
  note exact = index_is_exact [OF assms(1) pc assms(4)]
  have items: "\<not> items_rejected (nx_valid env) [] (gn_items g)"
    by (rule items_accepted) (use exact declared_valid [OF _ assms(6)] in auto)
  obtain paths unsupported b items duplicates audited found where
    b: "manifest_steps env paths \<lparr>bs_hash = [], bs_items = [], bs_issues = map (unsupported_issue env) unsupported\<rparr> = Inr b"
    and i: "unique_items env (bs_items b) (sort (remdups (map ci_id (bs_items b)))) = (items, duplicates)"
    and a: "audit_candidates env db items = Inr (audited, found)"
    and g: "g = finish_build env now (bs_hash b) audited (bs_issues b @ duplicates @ found)"
    by (rule build_parts [OF assms(1)])
  have "list_all (issue_fine env) duplicates"
    using i unfolding unique_items_shape by (auto simp: list_all_iff duplicate_issues_def split: if_splits)
  moreover have "list_all (issue_fine env) (bs_issues b)"
    by (rule manifest_steps_fine [OF b]) (simp add: list_all_iff unsupported_issue_def)
  ultimately have "list_all (issue_fine env) (gn_issues g)"
    using audit_candidates_fine [OF a] assms(4) by (auto simp: g finish_build_def Let_def list_all_iff)
  then have issues: "\<not> list_ex (\<lambda>u. cu_code u = [] \<or> \<not> nx_valid env (cu_detail u)) (gn_issues g)"
    using assms(5) by (auto simp: list_all_iff list_ex_iff issue_fine_def)
  have "gm_id (gn_meta g) \<noteq> []" "gm_workspace (gn_meta g) \<noteq> []" "gm_fingerprint (gn_meta g) \<noteq> []" "gm_created_at (gn_meta g) \<noteq> zero_time"
    using assms(2,3) by (simp_all add: g finish_build_def Let_def)
  with items issues show ?thesis by (simp add: validate_generation_def Let_def is_zero_time_def)
qed

text \<open>C30: When the files can be indexed, a refresh of a registered workspace succeeds and makes a generation with the
  fingerprint of the files current, unless another generation already has its identifier: what is built is always
  accepted by the store.\<close>

theorem refresh_succeeds:
  assumes "catalog_reachable (nx_valid env) db" "build_generation env now db = Inr g" "has_workspace (rt_id (nx_root env)) db"
    "rt_id (nx_root env) \<noteq> []" "now \<noteq> zero_time" "\<And>us. set (nx_order env us) = set us"
    "\<And>d. nx_valid env (nx_details env d)" "\<And>m s. nx_marshal env m = Inr s \<Longrightarrow> nx_valid env s"
    "\<And>old. old \<in> set (db_generations db) \<Longrightarrow> gn_id old = gn_id g \<Longrightarrow>
      gm_workspace (gn_meta old) = rt_id (nx_root env) \<and> gm_fingerprint (gn_meta old) = gm_fingerprint (gn_meta g)"
  shows "\<exists>db' m c. refresh_index env clock now id id db = (db', Inr m) \<and> current_generation (rt_id (nx_root env)) db' = Inr c \<and>
    gm_id c = gm_id m \<and> gm_fingerprint c = gm_fingerprint (gn_meta g)"
proof -
  let ?w = "rt_id (nx_root env)" and ?db1 = "fst (delete_retired_generations (rt_id (nx_root env)) (now - retiredGenerationGrace) now retiredGenerationBatch db)"
  have sub: "set (db_generations ?db1) \<subseteq> set (db_generations db)" by (rule retired_subset)
  have ws: "has_workspace ?w ?db1" using assms(3) by (simp add: has_workspace_def)
  have pub: "\<exists>db' u. publish_generation (nx_valid env) clock g ?db1 = (db', Inr u)"
    using built_generation_valid [OF assms(2,4-8)] built_workspace [OF assms(2)] ws assms(9) sub find_generation_Some [of "gn_id g" ?db1]
    by (auto simp: publish_generation_def Let_def split: option.splits)
  have nf: "errors_is e StoreNotFound" if "current_generation ?w ?db1 = Inl e" for e
    using that by (auto simp: current_generation_def split: option.splits)
  have "\<exists>db' m. refresh_index env clock now id id db = (db', Inr m)"
    using pub nf by (cases "current_generation ?w ?db1") (auto simp: refresh_index_def assms(2) Let_def)
  then obtain db' m where r: "refresh_index env clock now id id db = (db', Inr m)" by blast
  obtain g' c x where "build_generation env now db = Inr g'" "current_generation ?w db' = Inr c" "gm_id c = gm_id m"
    "gm_fingerprint c = gm_fingerprint (gn_meta g')" by (rule refresh_answer [OF assms(1) r]) auto
  with r assms(2) show ?thesis by auto
qed

section \<open>Instances\<close>

text \<open>A workspace with one valid and one broken manifest, whose program has the given content.\<close>

definition demo_tool :: manifest where
  "demo_tool = (demo_manifest ''build/o'')\<lparr>mf_execution := map_option (\<lambda>x. x\<lparr>ex_executable := ''./x.sh''\<rparr>) (mf_execution (demo_manifest ''build/o''))\<rparr>"

definition demo_index :: "string \<Rightarrow> indexer_env" where
  "demo_index program = \<lparr>nx_os = \<lparr>env_realpath = (\<lambda>p. if p = ''/w/tools'' then Inl (Sentinel FileNotExist) else Inr p),
       env_lstat = (\<lambda>_. LstatFound), env_stat_dir = (\<lambda>p. Inr (p = ''/w/catalog'')), env_stat_file = (\<lambda>_. Inr (True, 1)),
       env_read = (\<lambda>_. Inr []), env_cwd = ''/''\<rparr>,
     nx_root = \<lparr>rt_id = ''w'', rt_lexical = ''/w'', rt_root_resolved = ''/w'', rt_grants = []\<rparr>,
     nx_roots = [''catalog''], nx_candidates = [''tools''],
     nx_walk = (\<lambda>_. [\<lparr>we_path = ''/w/catalog'', we_error = None, we_dir = True, we_mode = Inr 493\<rparr>,
       \<lparr>we_path = ''/w/catalog/a.yaml'', we_error = None, we_dir = False, we_mode = Inr 420\<rparr>,
       \<lparr>we_path = ''/w/catalog/b.yaml'', we_error = None, we_dir = False, we_mode = Inr 420\<rparr>]),
     nx_open = (\<lambda>p. Inr (Inr (if p = ''/w/catalog/a.yaml'' then ''a'' else if p = ''/w/x.sh'' then program else ''b''))),
     nx_close = (\<lambda>_. None), nx_entries = Inr [], nx_lower = (\<lambda>s. s),
     nx_yaml = \<lparr>yv_node = (\<lambda>s. if s = ''a'' then Inr (YamlNode DocumentNode False [] [] False []) else Inl ''broken''),
       yv_manifest = (\<lambda>_. Inr demo_tool), yv_rest = (\<lambda>_. AtEOF), yv_json = (\<lambda>_. Inl ''json''), yv_json_rest = (\<lambda>_. AtEOF)\<rparr>,
     nx_marshal = (\<lambda>m. if m = demo_tool then Inr ''tool'' else Inl (Text ''other'')), nx_unmarshal = (\<lambda>_. Inr demo_tool),
     nx_details = (\<lambda>d. concat (map snd d)), nx_text = (\<lambda>_. ''error''), nx_digest = (\<lambda>s. filter (\<lambda>c. c = CHR ''1'' \<or> c = CHR ''2'') s), nx_hex = (\<lambda>s. s),
     nx_order = (\<lambda>us. us), nx_valid = (\<lambda>_. True)\<rparr>"

definition demo_workspace :: catalog_db where
  "demo_workspace = fst (upsert_workspace \<lparr>ws_id = ''w'', ws_fingerprint = ''f'', ws_created_at = 1, ws_seen_at = 1\<rparr> fresh_catalog)"

lemma demo_workspace_reachable: "catalog_reachable v demo_workspace"
  unfolding demo_workspace_def by (rule catalog_reachable.step [OF catalog_reachable.fresh catalog_step.upsert])

definition demo_built :: "string \<Rightarrow> catalog_db \<Rightarrow> catalog_generation" where
  "demo_built program db = projr (build_generation (demo_index program) 5000 db)"

definition demo_indexed :: catalog_db where
  "demo_indexed = fst (publish_generation (\<lambda>_. True) 4 (demo_built ''1'' demo_workspace) demo_workspace)"

lemma demo_builds:
  "build_generation (demo_index ''1'') 5000 demo_workspace = Inr (demo_built ''1'' demo_workspace)"
  "build_generation (demo_index ''2'') 5000 demo_indexed = Inr (demo_built ''2'' demo_indexed)"
  "manifest_paths (demo_index ''1'') = Inr [''catalog/a.yaml'', ''catalog/b.yaml'']" "candidate_paths (demo_index ''1'') = Inr []"
  by code_simp+

lemma demo_order: "set (nx_order (demo_index c) us) = set us"
  by (simp add: demo_index_def)

theorem index_is_exact_witness:
  "map ci_id (gn_items (demo_built ''1'' demo_workspace)) = [''build''] \<and>
   (\<exists>u \<in> set (gn_issues (demo_built ''1'' demo_workspace)). reports u ''catalog/b.yaml'')"
proof
  show "map ci_id (gn_items (demo_built ''1'' demo_workspace)) = [''build'']" by code_simp
  have "declared_item (demo_index ''1'') ''catalog/b.yaml'' = None" by code_simp
  then show "\<exists>u \<in> set (gn_issues (demo_built ''1'' demo_workspace)). reports u ''catalog/b.yaml''"
    using index_is_exact [OF demo_builds(1,3,4) demo_order] by simp
qed

theorem refresh_succeeds_witness:
  "\<exists>db' m c. refresh_index (demo_index ''1'') 4 5000 id id demo_workspace = (db', Inr m) \<and> current_generation ''w'' db' = Inr c \<and> gm_id c = gm_id m \<and>
    gm_fingerprint c = gm_fingerprint (gn_meta (demo_built ''1'' demo_workspace))"
proof -
  have w: "has_workspace (rt_id (nx_root (demo_index ''1''))) demo_workspace" "rt_id (nx_root (demo_index ''1'')) = ''w''"
    "db_generations demo_workspace = []" by code_simp+
  show ?thesis
    using refresh_succeeds [OF demo_workspace_reachable demo_builds(1) w(1) _ _ demo_order, of 4] w(2,3)
    by (simp add: demo_index_def zero_time_def)
qed

theorem drift_warning_lasts_once_witness:
  "drift_issue (demo_index ''2'') (hd (gn_items (demo_built ''2'' demo_indexed))) \<in> set (gn_issues (demo_built ''2'' demo_indexed)) \<and>
   (\<forall>later. build_generation (demo_index ''2'') later (fst (publish_generation (\<lambda>_. True) 4 (demo_built ''2'' demo_indexed) demo_indexed)) =
      build_generation (demo_index ''2'') later fresh_catalog)"
proof (intro conjI allI)
  show "drift_issue (demo_index ''2'') (hd (gn_items (demo_built ''2'' demo_indexed))) \<in> set (gn_issues (demo_built ''2'' demo_indexed))"
    by code_simp
  fix later
  let ?p = "publish_generation (\<lambda>_. True) 4 (demo_built ''2'' demo_indexed) demo_indexed"
  have v: "nx_valid (demo_index ''2'') = (\<lambda>_. True)" by (simp add: demo_index_def)
  have r: "catalog_reachable (\<lambda>_. True) demo_indexed"
    unfolding demo_indexed_def by (rule catalog_reachable.step [OF demo_workspace_reachable catalog_step.publish])
  have "is_ok (snd ?p)" "find_generation (gn_id (demo_built ''2'' demo_indexed)) demo_indexed = None" by code_simp+
  then obtain u where "?p = (fst ?p, Inr u)" "find_generation (gn_id (demo_built ''2'' demo_indexed)) demo_indexed = None"
    by (metis is_ok_iff prod.collapse)
  then show "build_generation (demo_index ''2'') later (fst ?p) = build_generation (demo_index ''2'') later fresh_catalog"
    by (intro drift_warning_lasts_once [OF _ demo_builds(2) _ _ demo_order]) (simp_all add: v r)
qed



end
