(* ===== verification/PathFacts.thy ===== *)
theory PathFacts
  imports SearchBackend Workspace Contracts
begin

text \<open>
  \<open>internal/pathfacts/service.go\<close>: everything observed about one path of the workspace, its kind and links, its
  bytes, its Git state, the rule files that apply to it and the other files of its name. Answers of the operating
  system, of Git and of the search backend, digests and the encoded size of a response are fields of \<open>path_env\<close>;
  links are those of a Unix system. A resolved path is absolute and clean, so the walks to parent directories run down
  its reversed components.
\<close>

section \<open>Facts\<close>

record path_request =
  px_path :: string
  px_action :: string
  px_encoding :: string
  px_byte_limit :: u64
  px_time_limit :: u64

record newline_facts =
  nl_crlf :: u64
  nl_lf :: u64
  nl_cr :: u64
  nl_final :: "bool option"
  nl_partial :: bool

record encoding_facts =
  ef_bom :: string
  ef_utf8 :: "bool option"
  ef_candidates :: "string list"
  ef_requested :: string
  ef_decodes :: "bool option"
  ef_round_trip :: "bool option"
  ef_partial :: bool

record git_facts =
  gf_state :: string
  gf_repository :: string
  gf_worktree :: string
  gf_tracked :: "bool option"
  gf_ignored :: "bool option"
  gf_untracked :: "bool option"

record path_rule =
  pl_path :: string
  pl_scope :: string
  pl_source :: string

record link_facts =
  lf_symlink :: bool
  lf_reparse :: "bool option"
  lf_junction :: "bool option"
  lf_hardlinks :: "u64 option"

record path_facts =
  pf_workspace :: string
  pf_path :: string
  pf_resolved :: string
  pf_exists :: bool
  pf_file_kind :: string
  pf_resolved_kind :: string
  pf_size :: "int option"
  pf_hash :: string
  pf_links :: link_facts
  pf_git :: git_facts
  pf_encoding :: encoding_facts
  pf_newlines :: newline_facts
  pf_rules :: "path_rule list"
  pf_basenames :: "string list"
  pf_roles :: "string list"
  pf_action :: string

section \<open>Environment\<close>

record file_info =
  fi_regular :: bool
  fi_directory :: bool
  fi_symlink :: bool
  fi_size :: int
  fi_links :: "u64 option"

text \<open>\<open>pn_open\<close> is the answer of \<open>Open\<close> and within it that of reading; \<open>pn_git\<close> is whether Git succeeds for its
  arguments and what it writes, piece by piece.\<close>

record path_env =
  pn_os :: os_env
  pn_root :: root
  pn_rule_files :: "string list"
  pn_lower :: "string \<Rightarrow> string"
  pn_korean :: korean
  pn_lstat :: "string \<Rightarrow> go_error + file_info"
  pn_stat :: "string \<Rightarrow> go_error + file_info"
  pn_open :: "string \<Rightarrow> go_error + (go_error + string)"
  pn_close :: "string \<Rightarrow> go_error option"
  pn_git :: "string list \<Rightarrow> bool \<times> string list"
  pn_search :: "backend_query \<Rightarrow> go_error + outcome"
  pn_digest :: "string \<Rightarrow> string"
  pn_hex :: "string \<Rightarrow> string"
  pn_length :: "path_facts response \<Rightarrow> nat"

definition new_rule_files :: "string list \<Rightarrow> string list" where
  "new_rule_files files = (if files = [] then [''AGENTS.md''] else files)"

definition file_kind :: "file_info \<Rightarrow> string" where
  "file_kind i = (if fi_regular i then ''file'' else if fi_directory i then ''directory''
     else if fi_symlink i then ''symlink'' else ''other'')"

definition platform_links :: "file_info \<Rightarrow> link_facts" where
  "platform_links i = \<lparr>lf_symlink = fi_symlink i, lf_reparse = None, lf_junction = None, lf_hardlinks = fi_links i\<rparr>"

section \<open>Bytes\<close>

definition detect_bom :: "string \<Rightarrow> string" where
  "detect_bom data =
     (if has_prefix data [CHR 0xEF, CHR 0xBB, CHR 0xBF] then ''utf-8''
      else if has_prefix data [CHR 0xFF, CHR 0xFE] then ''utf-16le''
      else if has_prefix data [CHR 0xFE, CHR 0xFF] then ''utf-16be'' else ''none'')"

text \<open>\<open>bytes.Count\<close> of a byte and of CR LF.\<close>

definition count_byte :: "char \<Rightarrow> string \<Rightarrow> nat" where
  "count_byte c s = length (filter (\<lambda>d. d = c) s)"

fun count_crlf :: "string \<Rightarrow> nat" where
  "count_crlf (a # b # s) = (if a = CHR 0x0D \<and> b = CHR 0x0A then Suc (count_crlf s) else count_crlf (b # s))"
| "count_crlf s = 0"

definition count_newlines :: "string \<Rightarrow> bool \<Rightarrow> newline_facts" where
  "count_newlines data partial =
     (let crlf = of_nat (count_crlf data) :: u64
      in \<lparr>nl_crlf = crlf, nl_lf = of_nat (count_byte (CHR 0x0A) data) - crlf, nl_cr = of_nat (count_byte (CHR 0x0D) data) - crlf,
          nl_final = (if partial then None else Some (data \<noteq> [] \<and> (last data = CHR 0x0A \<or> last data = CHR 0x0D))),
          nl_partial = partial\<rparr>)"

definition MaxInspectBytes :: u64 where "MaxInspectBytes = 1024 * 1024"

definition codec_candidates :: "path_env \<Rightarrow> string \<Rightarrow> string list" where
  "codec_candidates env data =
     (if utf8_valid (trim_prefix data utf8_bom) then [''utf-8''] else []) @
     filter (\<lambda>name. is_ok (decode_text (pn_lower env) (pn_korean env) name data)) [''euc-kr'', ''cp949'']"

text \<open>The test of the requested encoding, \<open>Inl\<close> when the inspection ends here.\<close>

definition test_encoding :: "path_env \<Rightarrow> string \<Rightarrow> string \<Rightarrow> bool \<Rightarrow> encoding_facts \<Rightarrow> encoding_facts \<times> (go_error option + unit)" where
  "test_encoding env requested data truncated f =
     (if requested = [] then (f, Inr ())
      else case normalize_encoding (pn_lower env) requested of
          Inl e \<Rightarrow> (f, Inl (Some e))
        | Inr n \<Rightarrow>
            (let name = encoding_name n; f1 = f\<lparr>ef_requested := name\<rparr> in
             if truncated then (f1, Inl None)
             else let success = is_ok (decode_text (pn_lower env) (pn_korean env) name data); f2 = f1\<lparr>ef_decodes := Some success\<rparr> in
               if \<not> success then (f2, Inr ())
               else case round_trips (pn_lower env) (pn_korean env) name data of
                   Inl e \<Rightarrow> (f2, Inl (Some e))
                 | Inr b \<Rightarrow> (f2\<lparr>ef_round_trip := Some b\<rparr>, Inr ())))"

definition inspect_file :: "path_env \<Rightarrow> string \<Rightarrow> string \<Rightarrow> path_facts \<Rightarrow> path_facts \<times> go_error option" where
  "inspect_file env path requested facts =
     (case try_then (pn_open env path) (\<lambda>file. try_then (read_bounded file MaxInspectBytes) (\<lambda>r.
          case pn_close env path of Some e \<Rightarrow> Inl e | None \<Rightarrow> Inr r)) of
        Inl e \<Rightarrow> (facts, Some e)
      | Inr (data, truncated) \<Rightarrow>
          (let f = (pf_encoding facts)\<lparr>ef_partial := truncated, ef_bom := detect_bom data,
                 ef_utf8 := Some (utf8_valid (trim_prefix data utf8_bom)),
                 ef_candidates := ef_candidates (pf_encoding facts) @ codec_candidates env data\<rparr>
           in case test_encoding env requested data truncated f of
               (f', Inl e) \<Rightarrow> (facts\<lparr>pf_encoding := f'\<rparr>, e)
             | (f', Inr _) \<Rightarrow>
                 (let facts' = facts\<lparr>pf_encoding := f', pf_newlines := count_newlines data truncated\<rparr>
                  in (if truncated then facts' else facts'\<lparr>pf_hash := ''sha256:'' @ pn_hex env (pn_digest env data)\<rparr>, None))))"

section \<open>Rules\<close>

text \<open>The directory of the path, or the nearest existing one.\<close>

fun nearest_existing :: "(string \<Rightarrow> bool) \<Rightarrow> string list \<Rightarrow> string list option" where
  "nearest_existing found [] = (if found ''/'' then Some [] else None)"
| "nearest_existing found (c # cs) = (if found (spell True (rev (c # cs))) then Some (c # cs) else nearest_existing found cs)"

definition rule_directory :: "path_env \<Rightarrow> string \<Rightarrow> bool \<Rightarrow> string" where
  "rule_directory env path exists =
     (let up = tl (rev (clean_comps path)) in
      if exists then (case pn_stat env path of
          Inr i \<Rightarrow> if fi_directory i then path else spell True (rev up)
        | Inl _ \<Rightarrow> path)
      else (case nearest_existing (\<lambda>p. is_ok (pn_stat env p)) up of None \<Rightarrow> ''/'' | Some cs \<Rightarrow> spell True (rev cs)))"

fun scope_chain :: "string \<Rightarrow> string list \<Rightarrow> string list" where
  "scope_chain current [] = []"
| "scope_chain current (p # ps) = (let next = path_join current p in next # scope_chain next ps)"

definition rule_of :: "path_env \<Rightarrow> string \<Rightarrow> string \<Rightarrow> path_rule option" where
  "rule_of env scope name =
     (let r = rt_root_resolved (pn_root env); candidate = path_join (path_join r scope) name in
      case pn_stat env candidate of
        Inl _ \<Rightarrow> None
      | Inr i \<Rightarrow> if \<not> fi_regular i then None
          else let rel = (case path_rel r candidate of None \<Rightarrow> [] | Some p \<Rightarrow> p)
               in Some \<lparr>pl_path = rel, pl_scope = path_clean scope, pl_source = ''source:mutable:'' @ rel\<rparr>)"

definition rules_for :: "path_env \<Rightarrow> string \<Rightarrow> bool \<Rightarrow> path_rule list" where
  "rules_for env path exists =
     (case path_rel (rt_root_resolved (pn_root env)) (rule_directory env path exists) of
        None \<Rightarrow> []
      | Some relative \<Rightarrow>
          concat (map (\<lambda>scope. List.map_filter (rule_of env scope) (pn_rule_files env))
            (''.'' # (if relative = ''.'' then [] else scope_chain [] (split_on (CHR ''/'') relative)))))"

section \<open>Names\<close>

definition basename_query :: "path_env \<Rightarrow> string \<Rightarrow> backend_query" where
  "basename_query env name =
     \<lparr>bq_mode = ''filename'', bq_pattern = name, bq_directory = rt_root_resolved (pn_root env), bq_includes = [], bq_excludes = [],
      bq_hidden = True, bq_ignored = ''include'', bq_generated = ''include'', bq_vendor = ''include'', bq_case_sensitive = True,
      bq_encoding = ''utf-8'', bq_match_kind = [], bq_revision = [], bq_since = [], bq_until = [], bq_symbol_kind = [],
      bq_language = [], bq_syntax = [], bq_prefix = []\<rparr>"

definition basename_candidates :: "path_env \<Rightarrow> string \<Rightarrow> string list \<times> bool \<times> string list" where
  "basename_candidates env name =
     (case pn_search env (basename_query env name) of
        Inl _ \<Rightarrow> ([], False, [''basename scan failed''])
      | Inr o1 \<Rightarrow> (map sm_path (filter (\<lambda>m. path_base (sm_path m) = name) (oc_matches o1)), oc_complete o1, oc_warnings o1))"

section \<open>Git\<close>

text \<open>The bounded writer: what it keeps, and whether it dropped something.\<close>

definition write_bounded :: "nat \<Rightarrow> string \<times> bool \<Rightarrow> string \<Rightarrow> string \<times> bool" where
  "write_bounded limit w data =
     (let remaining = int limit - int (length (fst w)) in
      if remaining \<le> 0 then (fst w, True)
      else if remaining < int (length data) then (fst w @ take (nat remaining) data, True)
      else (fst w @ data, snd w))"

definition git_output :: "path_env \<Rightarrow> string \<Rightarrow> string list \<Rightarrow> string option" where
  "git_output env directory arguments =
     (case pn_git env ([''-C'', directory] @ arguments) of (success, chunks) \<Rightarrow>
        if \<not> success then None
        else let w = foldl (write_bounded (16 * 1024)) ([], False) chunks
          in if snd w then None else Some (trim_space (fst w)))"

definition git_success :: "path_env \<Rightarrow> string \<Rightarrow> string list \<Rightarrow> bool" where
  "git_success env directory arguments \<longleftrightarrow> fst (pn_git env ([''-C'', directory] @ arguments))"

definition git_state :: "string \<Rightarrow> git_facts" where
  "git_state s = \<lparr>gf_state = s, gf_repository = [], gf_worktree = [], gf_tracked = None, gf_ignored = None, gf_untracked = None\<rparr>"

definition git_directory :: "path_env \<Rightarrow> string \<Rightarrow> bool \<Rightarrow> string option" where
  "git_directory env path exists =
     (let comps = rev (clean_comps path); start = (if exists then comps else tl comps);
          start' = (case pn_stat env (spell True (rev start)) of Inr i \<Rightarrow> if fi_directory i then start else tl start | Inl _ \<Rightarrow> start)
      in map_option (\<lambda>cs. spell True (rev cs)) (nearest_existing (\<lambda>p. is_ok (pn_stat env p)) start'))"

definition inspect_git :: "path_env \<Rightarrow> string \<Rightarrow> bool \<Rightarrow> git_facts" where
  "inspect_git env path exists =
     (case git_directory env path exists of
        None \<Rightarrow> git_state ''not_applicable''
      | Some directory \<Rightarrow> (case git_output env directory [''rev-parse'', ''--show-toplevel''] of
          None \<Rightarrow> git_state ''not_applicable''
        | Some toplevel \<Rightarrow>
            (let repository = path_clean toplevel in
             case path_rel (rt_root_resolved (pn_root env)) repository of
               None \<Rightarrow> git_state ''unknown''
             | Some relative \<Rightarrow>
                 if has_prefix relative ''..'' then git_state ''unknown''
                 else (case (git_output env repository [''rev-parse'', ''--git-dir''], path_rel repository path) of
                   (Some git_dir, Some rel) \<Rightarrow>
                     (let tracked = git_success env repository [''ls-files'', ''--error-unmatch'', ''--'', rel];
                          ignored = git_success env repository [''check-ignore'', ''-q'', ''--'', rel]
                      in \<lparr>gf_state = ''observed'', gf_repository = relative,
                          gf_worktree = ''git_'' @ pn_hex env (take 16 (pn_digest env (repository @ [CHR 0x00] @ git_dir))),
                          gf_tracked = Some tracked, gf_ignored = Some ignored,
                          gf_untracked = Some (exists \<and> \<not> tracked \<and> \<not> ignored)\<rparr>)
                 | _ \<Rightarrow> git_state ''unknown''))))"

section \<open>Explain\<close>

definition no_newlines :: newline_facts where
  "no_newlines = \<lparr>nl_crlf = 0, nl_lf = 0, nl_cr = 0, nl_final = None, nl_partial = False\<rparr>"

definition no_links :: link_facts where
  "no_links = \<lparr>lf_symlink = False, lf_reparse = None, lf_junction = None, lf_hardlinks = None\<rparr>"

definition initial_facts :: "path_env \<Rightarrow> path_request \<Rightarrow> string \<Rightarrow> bool \<Rightarrow> path_facts" where
  "initial_facts env q relative exists =
     \<lparr>pf_workspace = rt_id (pn_root env), pf_path = path_clean (px_path q), pf_resolved = relative, pf_exists = exists,
      pf_file_kind = ''missing'', pf_resolved_kind = [], pf_size = None, pf_hash = [], pf_links = no_links, pf_git = git_state [],
      pf_encoding = \<lparr>ef_bom = ''none'', ef_utf8 = None, ef_candidates = [], ef_requested = [], ef_decodes = None,
        ef_round_trip = None, ef_partial = False\<rparr>,
      pf_newlines = no_newlines, pf_rules = [], pf_basenames = [], pf_roles = [], pf_action = px_action q\<rparr>"

definition path_warning :: "string \<Rightarrow> string \<Rightarrow> warning" where
  "path_warning code message = \<lparr>wn_code = code, wn_message = message, wn_ref = None\<rparr>"

text \<open>The facts of an existing path, with the warnings of the inspection.\<close>

definition inspect_path ::
    "path_env \<Rightarrow> path_request \<Rightarrow> string \<Rightarrow> path_facts \<Rightarrow> go_error + (path_facts \<times> warning list)" where
  "inspect_path env q resolved facts =
     (let lexical = path_join (rt_lexical (pn_root env)) (path_clean (px_path q)) in
      try_then (pn_lstat env lexical) (\<lambda>requested.
      try_then (pn_stat env resolved) (\<lambda>i.
        let facts1 = facts\<lparr>pf_file_kind := file_kind requested, pf_resolved_kind := file_kind i, pf_size := Some (fi_size i),
              pf_links := platform_links requested\<rparr>
        in if \<not> fi_regular i then Inr (facts1, [])
           else (case inspect_file env resolved (px_encoding q) facts1 of (facts2, failure) \<Rightarrow>
             Inr (facts2, (if failure = None then [] else [path_warning ''inspection_failed'' ''file inspection failed'']) @
               (if ef_partial (pf_encoding facts2)
                then [path_warning ''inspection_truncated'' ''file exceeds inspection byte limit''] else []))))))"

definition path_response :: "path_env \<Rightarrow> path_facts \<Rightarrow> bool \<Rightarrow> warning list \<Rightarrow> path_facts response" where
  "path_response env facts partial warnings =
     \<lparr>rs_status = (if partial then StatusPartial else StatusOK), rs_items = [facts],
      rs_counts = \<lparr>cn_matched = Some 1, cn_relation = CountExact, cn_returned = 1\<rparr>,
      rs_scan = \<lparr>sc_state = (if partial then ScanPartial else ScanComplete), sc_scope_ref = Some (''scope:path:'' @ rt_id (pn_root env))\<rparr>,
      rs_truncated = Some False, rs_next_cursor = None, rs_snapshot_ref = None, rs_warnings = warnings\<rparr>"

definition path_too_large :: go_error where "path_too_large = Text ''path facts: response cannot fit byte_limit''"

definition explain_path :: "path_env \<Rightarrow> path_request \<Rightarrow> go_error + path_facts response" where
  "explain_path env q =
     (if px_path q = [] then Inl (Text ''path is required'')
      else try_then (normalize_limits \<lparr>lr_item_limit = 0, lr_byte_limit = px_byte_limit q, lr_time_limit_ms = px_time_limit q\<rparr>) (\<lambda>l.
        try_then (resolve_for_lookup (pn_os env) (pn_root env) (px_path q)) (\<lambda>(resolved, exists).
        try_then (case path_rel (rt_root_resolved (pn_root env)) resolved of
            None \<Rightarrow> Inl (Text ''Rel: cannot make path relative'') | Some r \<Rightarrow> Inr r) (\<lambda>relative.
        let facts = initial_facts env q relative exists in
        try_then (if exists then inspect_path env q resolved facts else Inr (facts, [])) (\<lambda>(facts1, warnings).
          case basename_candidates env (path_base resolved) of (names, complete, messages) \<Rightarrow>
            (let facts2 = facts1\<lparr>pf_git := inspect_git env resolved exists, pf_rules := rules_for env resolved exists,
                   pf_basenames := names\<rparr>;
                 response = path_response env facts2 (warnings \<noteq> [] \<or> \<not> complete)
                   (warnings @ map (path_warning ''basename_scan'') messages)
             in if unat (lm_byte_limit l) < pn_length env response then Inl path_too_large else Inr response))))))"

section \<open>Line ends\<close>

datatype line_end = CrLf | Lf | Cr

text \<open>The line ends of a text, read from left to right.\<close>

fun line_ends :: "string \<Rightarrow> line_end list" where
  "line_ends [] = []"
| "line_ends [a] = (if a = CHR 0x0A then [Lf] else if a = CHR 0x0D then [Cr] else [])"
| "line_ends (a # b # s) =
     (if a = CHR 0x0D \<and> b = CHR 0x0A then CrLf # line_ends s
      else (if a = CHR 0x0A then [Lf] else if a = CHR 0x0D then [Cr] else []) @ line_ends (b # s))"

definition count_ends :: "line_end \<Rightarrow> string \<Rightarrow> nat" where
  "count_ends e s = length (filter (\<lambda>x. x = e) (line_ends s))"

lemma count_byte_simps [simp]:
  "count_byte c [] = 0" "count_byte c (d # s) = (if d = c then Suc (count_byte c s) else count_byte c s)"
  by (simp_all add: count_byte_def)

lemma count_ends_step:
  "count_ends e (CHR 0x0D # CHR 0x0A # s) = (if e = CrLf then Suc (count_ends e s) else count_ends e s)"
  "\<not> (a = CHR 0x0D \<and> b = CHR 0x0A) \<Longrightarrow> count_ends e (a # b # s) =
     (if a = CHR 0x0A \<and> e = Lf \<or> a = CHR 0x0D \<and> e = Cr then Suc (count_ends e (b # s)) else count_ends e (b # s))"
  by (auto simp: count_ends_def)

lemma line_ends_counts:
  "count_crlf s = count_ends CrLf s \<and> count_byte (CHR 0x0A) s = count_ends Lf s + count_ends CrLf s \<and>
   count_byte (CHR 0x0D) s = count_ends Cr s + count_ends CrLf s"
proof (induction s rule: line_ends.induct)
  case (3 a b s)
  show ?case
  proof (cases "a = CHR 0x0D \<and> b = CHR 0x0A")
    case True
    with 3(1) show ?thesis by (simp add: count_ends_step(1))
  next
    case False
    note step = count_ends_step(2) [OF False, of _ s]
    have bytes: "count_byte c (a # b # s) = (if a = c then Suc (count_byte c (b # s)) else count_byte c (b # s))" for c
      by (rule count_byte_simps)
    have "count_crlf (a # b # s) = count_crlf (b # s)" by (simp only: count_crlf.simps(1) False if_False)
    with 3(2) [OF False] show ?thesis by (simp only: bytes step) (simp del: count_byte_simps)
  qed
qed (simp_all add: count_ends_def)

lemma line_ends_short: "count_ends e s \<le> length s"
  unfolding count_ends_def
  by (rule order_trans [OF length_filter_le]) (induction s rule: line_ends.induct, auto)

text \<open>The counts of the line ends of a file are those of reading it from left to right, CR LF as one: nothing is counted
  twice and the subtractions do not wrap around.\<close>

theorem newline_counts_exact:
  assumes "length data < 2 ^ 64"
  shows "unat (nl_crlf (count_newlines data partial)) = count_ends CrLf data \<and>
    unat (nl_lf (count_newlines data partial)) = count_ends Lf data \<and>
    unat (nl_cr (count_newlines data partial)) = count_ends Cr data"
proof -
  have small: "unat (of_nat (count_ends e data) :: u64) = count_ends e data" for e
    using line_ends_short [of e data] assms by (simp add: unat_of_nat)
  show ?thesis
    by (simp add: count_newlines_def Let_def line_ends_counts small)
qed


section \<open>An explanation without reservations\<close>

lemma read_inspected:
  assumes "read_bounded (Inr data) MaxInspectBytes = Inr (d, False)"
  shows "d = data \<and> length data \<le> 1048576"
proof -
  have u: "unat MaxInspectBytes = 1048576" by (simp add: MaxInspectBytes_def)
  have "read_bounded (Inr data) MaxInspectBytes = Inr (take (unat MaxInspectBytes) data, unat MaxInspectBytes < length data)"
    by (rule read_bounded_small) (simp_all add: MaxInspectBytes_def)
  with assms u show ?thesis by auto
qed

lemma test_encoding_partial: "ef_partial (fst (test_encoding env requested data truncated f)) = ef_partial f"
  by (simp add: test_encoding_def Let_def split: sum.split)

lemma inspect_file_partial:
  assumes "inspect_file env path requested facts = (facts', None)" "\<not> ef_partial (pf_encoding facts')"
  obtains data f where "pn_open env path = Inr (Inr data)" "length data \<le> 1048576"
    "test_encoding env requested data False ((pf_encoding facts)\<lparr>ef_partial := False, ef_bom := detect_bom data,
       ef_utf8 := Some (utf8_valid (trim_prefix data utf8_bom)),
       ef_candidates := ef_candidates (pf_encoding facts) @ codec_candidates env data\<rparr>) = (f, Inr ())"
    "facts' = facts\<lparr>pf_encoding := f, pf_newlines := count_newlines data False, pf_hash := ''sha256:'' @ pn_hex env (pn_digest env data)\<rparr>"
proof -
  obtain opened d truncated where opened: "pn_open env path = Inr opened" "read_bounded opened MaxInspectBytes = Inr (d, truncated)"
    and closed: "pn_close env path = None"
    using assms(1) by (auto simp: inspect_file_def try_then_Inr_iff split: sum.splits option.splits prod.splits)
  let ?f = "(pf_encoding facts)\<lparr>ef_partial := truncated, ef_bom := detect_bom d, ef_utf8 := Some (utf8_valid (trim_prefix d utf8_bom)),
       ef_candidates := ef_candidates (pf_encoding facts) @ codec_candidates env d\<rparr>"
  obtain f out where t: "test_encoding env requested d truncated ?f = (f, out)" by (rule prod.exhaust)
  have ran: "inspect_file env path requested facts = (case out of Inl e \<Rightarrow> (facts\<lparr>pf_encoding := f\<rparr>, e)
     | Inr _ \<Rightarrow> (if truncated then facts\<lparr>pf_encoding := f, pf_newlines := count_newlines d truncated\<rparr>
         else facts\<lparr>pf_encoding := f, pf_newlines := count_newlines d truncated, pf_hash := ''sha256:'' @ pn_hex env (pn_digest env d)\<rparr>, None))"
    using opened closed t by (simp add: inspect_file_def Let_def split: sum.split)
  have "ef_partial f = truncated" using test_encoding_partial [of env requested d truncated ?f] t by simp
  with assms ran have open_end: "\<not> truncated" by (auto split: sum.splits if_splits)
  with t have "out \<noteq> Inl None" by (auto simp: test_encoding_def Let_def split: if_splits sum.splits)
  with assms(1) ran obtain u where "out = Inr u" by (cases out) auto
  moreover obtain data where "opened = Inr data" using opened(2) by (cases opened) (auto simp: read_bounded_def split: if_splits)
  moreover have "d = data \<and> length data \<le> 1048576" using opened(2) open_end calculation(2) by (intro read_inspected) simp
  ultimately show thesis using opened(1) t ran assms(1) open_end by (intro that [of data f]) auto
qed

lemma test_encoding_result:
  assumes "test_encoding env requested data False f = (f', Inr ())" "requested \<noteq> []"
  obtains e where "normalize_encoding (pn_lower env) requested = Inr e"
    "ef_decodes f' = Some (is_ok (decode_text (pn_lower env) (pn_korean env) (encoding_name e) data))"
    "is_ok (decode_text (pn_lower env) (pn_korean env) (encoding_name e) data) \<longrightarrow>
       (\<exists>b. ef_round_trip f' = Some b \<and> round_trips (pn_lower env) (pn_korean env) (encoding_name e) data = Inr b)"
  using assms by (auto simp: test_encoding_def Let_def split: sum.splits if_splits)

lemma inspect_path_quiet:
  assumes "inspect_path env q resolved start = Inr (facts1, [])" "pn_stat env resolved = Inr i" "fi_regular i"
  obtains facts where "inspect_file env resolved (px_encoding q) facts = (facts1, None)" "\<not> ef_partial (pf_encoding facts1)"
    "pf_encoding facts = pf_encoding start"
proof -
  obtain requested where lstat: "pn_lstat env (path_join (rt_lexical (pn_root env)) (path_clean (px_path q))) = Inr requested"
    using assms(1) unfolding inspect_path_def Let_def try_then_Inr_iff by blast
  let ?facts = "start\<lparr>pf_file_kind := file_kind requested, pf_resolved_kind := file_kind i, pf_size := Some (fi_size i),
    pf_links := platform_links requested\<rparr>"
  obtain facts2 failure where f: "inspect_file env resolved (px_encoding q) ?facts = (facts2, failure)" by (rule prod.exhaust)
  have "facts2 = facts1 \<and> failure = None \<and> \<not> ef_partial (pf_encoding facts2)"
    using assms(1) unfolding inspect_path_def Let_def lstat assms(2) try_then.simps f by (simp add: assms(3) split: if_splits)
  with f show thesis by (intro that [of ?facts]) auto
qed

lemma explain_inspected:
  assumes "explain_path env q = Inr r" "rs_status r = StatusOK"
    "resolve_for_lookup (pn_os env) (pn_root env) (px_path q) = Inr (resolved, True)" "pn_stat env resolved = Inr i" "fi_regular i"
  obtains relative facts facts1 o1 where "inspect_file env resolved (px_encoding q) facts = (facts1, None)"
    "\<not> ef_partial (pf_encoding facts1)" "ef_candidates (pf_encoding facts) = []"
    "pn_search env (basename_query env (path_base resolved)) = Inr o1" "oc_complete o1"
    "rs_items r = [facts1\<lparr>pf_git := inspect_git env resolved True, pf_rules := rules_for env resolved True,
       pf_basenames := map sm_path (filter (\<lambda>m. path_base (sm_path m) = path_base resolved) (oc_matches o1))\<rparr>]"
proof -
  obtain l where l: "normalize_limits \<lparr>lr_item_limit = 0, lr_byte_limit = px_byte_limit q, lr_time_limit_ms = px_time_limit q\<rparr> = Inr l"
    using assms(1) unfolding explain_path_def by (auto simp: try_then_Inr_iff split: if_splits)
  obtain relative where relative: "path_rel (rt_root_resolved (pn_root env)) resolved = Some relative"
    using assms(1,3) unfolding explain_path_def by (auto simp: try_then_Inr_iff split: if_splits option.splits)
  let ?x = "inspect_path env q resolved (initial_facts env q relative True)"
  have "is_ok ?x"
    using assms(1) by (cases ?x) (simp_all add: explain_path_def l assms(3) relative split: if_splits)
  then obtain facts1 warnings where parts: "?x = Inr (facts1, warnings)" by (auto simp: is_ok_iff)
  have out: "(case basename_candidates env (path_base resolved) of (names, complete, messages) \<Rightarrow>
      (let facts2 = facts1\<lparr>pf_git := inspect_git env resolved True, pf_rules := rules_for env resolved True, pf_basenames := names\<rparr>;
           response = path_response env facts2 (warnings \<noteq> [] \<or> \<not> complete) (warnings @ map (path_warning ''basename_scan'') messages)
       in if unat (lm_byte_limit l) < pn_length env response then Inl path_too_large else Inr response)) = Inr r"
    using assms(1) by (simp add: explain_path_def l assms(3) relative parts split: if_splits)
  from out have quiet: "warnings = []" and found: "fst (snd (basename_candidates env (path_base resolved)))"
    and items: "rs_items r = [facts1\<lparr>pf_git := inspect_git env resolved True, pf_rules := rules_for env resolved True,
       pf_basenames := fst (basename_candidates env (path_base resolved))\<rparr>]"
    using assms(2) by (auto simp: path_response_def Let_def split: prod.splits if_splits)
  obtain o1 where o1: "pn_search env (basename_query env (path_base resolved)) = Inr o1" "oc_complete o1"
    using found by (cases "pn_search env (basename_query env (path_base resolved))") (auto simp: basename_candidates_def)
  obtain facts where inspected: "inspect_file env resolved (px_encoding q) facts = (facts1, None)" "\<not> ef_partial (pf_encoding facts1)"
    "pf_encoding facts = pf_encoding (initial_facts env q relative True)"
    by (rule inspect_path_quiet [OF parts [unfolded quiet] assms(4,5)])
  then have none: "ef_candidates (pf_encoding facts) = []" by (simp add: initial_facts_def)
  show thesis
    by (rule that [OF inspected(1,2) none o1]) (use items o1(1) in \<open>simp add: basename_candidates_def\<close>)
qed

text \<open>An explanation of a regular file with status ok has seen all of its bytes: the hash, the counts of line ends and
  the encodings are those of the whole file, a tested encoding is reported to decode or to return the same bytes exactly
  when it does, and the files of the same name are all those of a complete scan.\<close>

theorem explained_file_exact:
  assumes "explain_path env q = Inr r" "rs_status r = StatusOK"
    "resolve_for_lookup (pn_os env) (pn_root env) (px_path q) = Inr (resolved, True)" "pn_stat env resolved = Inr i" "fi_regular i"
  shows "\<exists>f data o1. rs_items r = [f] \<and> pn_open env resolved = Inr (Inr data) \<and> length data \<le> 1048576 \<and>
    pf_hash f = ''sha256:'' @ pn_hex env (pn_digest env data) \<and> pf_newlines f = count_newlines data False \<and>
    ef_candidates (pf_encoding f) = codec_candidates env data \<and>
    (px_encoding q \<noteq> [] \<longrightarrow> (\<exists>e. normalize_encoding (pn_lower env) (px_encoding q) = Inr e \<and>
       ef_decodes (pf_encoding f) = Some (is_ok (decode_text (pn_lower env) (pn_korean env) (encoding_name e) data)) \<and>
       (\<forall>t. decode_text (pn_lower env) (pn_korean env) (encoding_name e) data = Inr t \<longrightarrow>
          ef_round_trip (pf_encoding f) = Some (encode_text (pn_lower env) (pn_korean env) (encoding_name e) t = Inr data)))) \<and>
    pn_search env (basename_query env (path_base resolved)) = Inr o1 \<and> oc_complete o1 \<and>
    pf_basenames f = map sm_path (filter (\<lambda>m. path_base (sm_path m) = path_base resolved) (oc_matches o1))"
proof -
  obtain facts facts1 o1 where x: "inspect_file env resolved (px_encoding q) facts = (facts1, None)" "\<not> ef_partial (pf_encoding facts1)"
    "ef_candidates (pf_encoding facts) = []"
    and o1: "pn_search env (basename_query env (path_base resolved)) = Inr o1" "oc_complete o1"
    and items: "rs_items r = [facts1\<lparr>pf_git := inspect_git env resolved True, pf_rules := rules_for env resolved True,
       pf_basenames := map sm_path (filter (\<lambda>m. path_base (sm_path m) = path_base resolved) (oc_matches o1))\<rparr>]"
    by (rule explain_inspected [OF assms])
  obtain data f where d: "pn_open env resolved = Inr (Inr data)" "length data \<le> 1048576"
    and t: "test_encoding env (px_encoding q) data False ((pf_encoding facts)\<lparr>ef_partial := False, ef_bom := detect_bom data,
       ef_utf8 := Some (utf8_valid (trim_prefix data utf8_bom)),
       ef_candidates := ef_candidates (pf_encoding facts) @ codec_candidates env data\<rparr>) = (f, Inr ())"
    and f: "facts1 = facts\<lparr>pf_encoding := f, pf_newlines := count_newlines data False, pf_hash := ''sha256:'' @ pn_hex env (pn_digest env data)\<rparr>"
    by (rule inspect_file_partial [OF x(1,2)])
  have c: "ef_candidates f = codec_candidates env data"
    using t x(3) by (auto simp: test_encoding_def Let_def split: if_splits sum.splits)
  have "\<exists>e. normalize_encoding (pn_lower env) (px_encoding q) = Inr e \<and>
       ef_decodes f = Some (is_ok (decode_text (pn_lower env) (pn_korean env) (encoding_name e) data)) \<and>
       (\<forall>t. decode_text (pn_lower env) (pn_korean env) (encoding_name e) data = Inr t \<longrightarrow>
          ef_round_trip f = Some (encode_text (pn_lower env) (pn_korean env) (encoding_name e) t = Inr data))"
    if requested: "px_encoding q \<noteq> []"
  proof -
    obtain e where e: "normalize_encoding (pn_lower env) (px_encoding q) = Inr e"
      "ef_decodes f = Some (is_ok (decode_text (pn_lower env) (pn_korean env) (encoding_name e) data))"
      "is_ok (decode_text (pn_lower env) (pn_korean env) (encoding_name e) data) \<longrightarrow>
         (\<exists>b. ef_round_trip f = Some b \<and> round_trips (pn_lower env) (pn_korean env) (encoding_name e) data = Inr b)"
      by (rule test_encoding_result [OF t requested])
    have "ef_round_trip f = Some (encode_text (pn_lower env) (pn_korean env) (encoding_name e) t = Inr data)"
      if t: "decode_text (pn_lower env) (pn_korean env) (encoding_name e) data = Inr t" for t
      using e(3) t by (auto simp: round_trips_def try_then_Inr_iff)
    with e(1,2) show ?thesis by blast
  qed
  with items d f c o1 show ?thesis by auto
qed

text \<open>A file above the limit with a requested encoding is reported with zero line ends that do not count as partial,
  since the inspection returns before they are counted.\<close>

lemma truncated_file_without_newlines:
  assumes "pn_open env path = Inr (Inr data)" "1048576 < length data" "pn_close env path = None"
    "requested \<noteq> []" "is_ok (normalize_encoding (pn_lower env) requested)" "pf_newlines facts = no_newlines"
  shows "snd (inspect_file env path requested facts) = None \<and> pf_newlines (fst (inspect_file env path requested facts)) = no_newlines"
proof -
  have "read_bounded (Inr data) MaxInspectBytes = Inr (take (unat MaxInspectBytes) data, unat MaxInspectBytes < length data)"
    by (rule read_bounded_small) (simp_all add: MaxInspectBytes_def)
  then have r: "read_bounded (Inr data) MaxInspectBytes = Inr (take 1048576 data, True)" using assms(2) by (simp add: MaxInspectBytes_def)
  show ?thesis using assms(1,3-6) by (auto simp: inspect_file_def r test_encoding_def Let_def is_ok_iff)
qed

section \<open>Instances\<close>

definition demo_path_env :: path_env where
  "demo_path_env = \<lparr>pn_os = \<lparr>env_realpath = Inr, env_lstat = (\<lambda>_. LstatFound), env_stat_dir = (\<lambda>_. Inr False),
       env_stat_file = (\<lambda>_. Inr (True, 4)), env_read = (\<lambda>_. Inr []), env_cwd = ''/''\<rparr>,
     pn_root = \<lparr>rt_id = ''w'', rt_lexical = ''/w'', rt_root_resolved = ''/w'', rt_grants = []\<rparr>,
     pn_rule_files = [''AGENTS.md''], pn_lower = (\<lambda>s. s), pn_korean = \<lparr>ko_decode = Inr, ko_encode = Inr\<rparr>,
     pn_lstat = (\<lambda>_. Inr \<lparr>fi_regular = True, fi_directory = False, fi_symlink = False, fi_size = 4, fi_links = Some 1\<rparr>),
     pn_stat = (\<lambda>p. if p = ''/w/AGENTS.md'' \<or> p = ''/w/d/f''
       then Inr \<lparr>fi_regular = True, fi_directory = False, fi_symlink = False, fi_size = 4, fi_links = Some 1\<rparr>
       else if p = ''/'' \<or> p = ''/w'' \<or> p = ''/w/d'' then Inr \<lparr>fi_regular = False, fi_directory = True, fi_symlink = False, fi_size = 0, fi_links = Some 2\<rparr>
       else Inl (Sentinel FileNotExist)),
     pn_open = (\<lambda>_. Inr (Inr [CHR ''a'', CHR 0x0D, CHR 0x0A, CHR 0x0A])), pn_close = (\<lambda>_. None), pn_git = (\<lambda>_. (False, [])),
     pn_search = (\<lambda>_. Inr \<lparr>oc_matches = [blank_match\<lparr>sm_path := ''d/f''\<rparr>, blank_match\<lparr>sm_path := ''d/ff''\<rparr>], oc_complete = True, oc_warnings = [],
       oc_engine = [], oc_validity = [], oc_unsupported = False\<rparr>),
     pn_digest = (\<lambda>s. s), pn_hex = (\<lambda>s. s), pn_length = (\<lambda>_. 0)\<rparr>"

definition demo_path_request :: path_request where
  "demo_path_request = \<lparr>px_path = ''d/f'', px_action = ''edit'', px_encoding = ''utf-8'', px_byte_limit = 0, px_time_limit = 0\<rparr>"

theorem explained_file_exact_witness:
  "\<exists>r f. explain_path demo_path_env demo_path_request = Inr r \<and> rs_items r = [f] \<and> unat (nl_crlf (pf_newlines f)) = 1 \<and>
     ef_round_trip (pf_encoding f) = Some True \<and> pf_basenames f = [''d/f''] \<and> map pl_path (pf_rules f) = [''AGENTS.md'']"
proof -
  let ?r = "explain_path demo_path_env demo_path_request"
  have ok: "is_ok ?r" and shape: "(case ?r of Inl _ \<Rightarrow> False | Inr r \<Rightarrow> rs_status r = StatusOK \<and>
      list_all (\<lambda>f. map pl_path (pf_rules f) = [''AGENTS.md'']) (rs_items r))" by code_simp+
  from ok shape obtain r where r: "?r = Inr r" "rs_status r = StatusOK" "list_all (\<lambda>f. map pl_path (pf_rules f) = [''AGENTS.md'']) (rs_items r)"
    by (auto simp: is_ok_iff)
  have look: "resolve_for_lookup (pn_os demo_path_env) (pn_root demo_path_env) (px_path demo_path_request) = Inr (''/w/d/f'', True)"
    by code_simp
  have stat: "pn_stat demo_path_env ''/w/d/f'' = Inr \<lparr>fi_regular = True, fi_directory = False, fi_symlink = False, fi_size = 4, fi_links = Some 1\<rparr>"
    by code_simp
  have name: "path_base ''/w/d/f'' = ''f''" "path_base ''d/f'' = ''f''" "path_base ''d/ff'' = ''ff''" by code_simp+
  have utf: "normalize_encoding (\<lambda>s. s) ''utf-8'' = Inr Utf8"
    "decode_text (\<lambda>s. s) \<lparr>ko_decode = Inr, ko_encode = Inr\<rparr> ''utf-8'' [CHR ''a'', CHR 0x0D, CHR 0x0A, CHR 0x0A] = Inr [CHR ''a'', CHR 0x0D, CHR 0x0A, CHR 0x0A]"
    "encode_text (\<lambda>s. s) \<lparr>ko_decode = Inr, ko_encode = Inr\<rparr> ''utf-8'' [CHR ''a'', CHR 0x0D, CHR 0x0A, CHR 0x0A] = Inr [CHR ''a'', CHR 0x0D, CHR 0x0A, CHR 0x0A]"
    by code_simp+
  have ends: "count_crlf [CHR ''a'', CHR 0x0D, CHR 0x0A, CHR 0x0A] = 1" by code_simp
  show ?thesis
    using explained_file_exact [OF r(1,2) look stat] r name utf ends
    by (auto simp: demo_path_env_def demo_path_request_def blank_match_def encoding_name_def count_newlines_def)
qed

theorem newline_counts_exact_witness:
  "unat (nl_lf (count_newlines [CHR ''a'', CHR 0x0D, CHR 0x0A, CHR 0x0A] False)) = 1"
proof -
  have "count_ends Lf [CHR ''a'', CHR 0x0D, CHR 0x0A, CHR 0x0A] = 1" by code_simp
  then show ?thesis using newline_counts_exact [of "[CHR ''a'', CHR 0x0D, CHR 0x0A, CHR 0x0A]" False] by simp
qed

end
