(* ===== verification/MemoryBackup.thy ===== *)
theory MemoryBackup
  imports RunnerExecute RecordProperties
begin

text \<open>
  \<open>internal/memorybackup/service.go\<close>: the durable records and the state files of a workspace are exported into one
  archive file and restored from it. The files are those of \<open>RunnerModel\<close>; an archive is the list of its entries, and
  the ZIP and JSON forms are fields of \<open>backup_codec\<close>. Contexts are never cancelled.
\<close>

section \<open>Requests and archives\<close>

record backup_request =
  br_destination :: string
  br_byte_limit :: u64

record backup_response =
  bp_status :: string
  bp_name :: string
  bp_bytes :: nat
  bp_sha :: string
  bp_records :: nat
  bp_revisions :: nat
  bp_files :: nat
  bp_portable :: bool

record backup_manifest =
  bm_format :: string
  bm_version :: int
  bm_created_at :: time
  bm_records :: nat
  bm_revisions :: nat
  bm_imports :: nat
  bm_files :: nat
  bm_secrets :: bool

text \<open>An entry as the reader lists it: \<open>ze_plain\<close> when it is neither a link nor a directory, \<open>ze_content\<close> the
  answer of reading it to its end.\<close>

record zip_entry =
  ze_name :: string
  ze_size :: nat
  ze_plain :: bool
  ze_content :: "go_error + string"

record backup_codec =
  bc_archive :: "archive \<Rightarrow> string"
  bc_read_archive :: "string \<Rightarrow> archive option"
  bc_manifest :: "backup_manifest \<Rightarrow> string"
  bc_read_manifest :: "string \<Rightarrow> backup_manifest option"
  bc_pack :: "(string \<times> string) list \<Rightarrow> string"
  bc_unpack :: "string \<Rightarrow> zip_entry list option"
  bc_stamp :: "time \<Rightarrow> string"

definition defaultByteLimit :: u64 where "defaultByteLimit = 1024 * 1024 * 1024"
definition maximumByteLimit :: u64 where "maximumByteLimit = 4 * 1024 * 1024 * 1024"
definition maximumArchiveItems :: int where "maximumArchiveItems = 100000"

definition backup_invalid :: go_error where "backup_invalid = Text ''memory backup archive is invalid''"
definition destination_invalid :: go_error where "destination_invalid = Text ''memory backup destination is invalid''"
definition backup_not_idle :: go_error where "backup_not_idle = Text ''memory backup requires no active Runner process''"

definition backup_limit :: "u64 \<Rightarrow> go_error + u64" where
  "backup_limit value =
     (if value = 0 then Inr defaultByteLimit
      else if maximumByteLimit < value then Inl (Wrap ''byte_limit exceeds maximum'' backup_invalid)
      else Inr value)"

definition new_backup :: "(string \<Rightarrow> go_error + string) \<Rightarrow> string \<Rightarrow> string" where
  "new_backup realpath state_dir = (case realpath (path_clean state_dir) of Inr p \<Rightarrow> p | Inl _ \<Rightarrow> state_dir)"

section \<open>The destination\<close>

definition inside_directory :: "string \<Rightarrow> string \<Rightarrow> go_error + bool" where
  "inside_directory r candidate =
     (case path_rel (path_clean r) (path_clean candidate) of
        None \<Rightarrow> Inl (Text ''Rel: cannot make path relative'')
      | Some p \<Rightarrow> Inr (p = ''.'' \<or> (p \<noteq> ''..'' \<and> \<not> has_prefix p ''../'')))"

definition validate_destination :: "runner_env \<Rightarrow> string \<Rightarrow> go_error + string" where
  "validate_destination env value =
     (if \<not> is_abs value then Inl destination_invalid
      else case env_realpath (xr_os env) (path_clean value) of
          Inl _ \<Rightarrow> Inl (Wrap ''resolve backup destination'' destination_invalid)
        | Inr resolved \<Rightarrow>
            if env_stat_dir (xr_os env) resolved \<noteq> Inr True then Inl destination_invalid
            else if list_ex (\<lambda>x. inside_directory x resolved \<noteq> Inr False) [rt_root_resolved (xr_root env), xr_state_dir env]
              then Inl destination_invalid
            else Inr resolved)"

section \<open>Export\<close>

record archive_file =
  af_source :: string
  af_name :: string
  af_size :: nat

definition backup_roots :: "string list" where "backup_roots = [''runs'', ''artifacts'']"

text \<open>The files at or below one root in the order of the walk, as paths.\<close>

definition state_files :: "runner_env \<Rightarrow> files \<Rightarrow> string \<Rightarrow> string list" where
  "state_files env fs name =
     (let r = path_join (xr_state_dir env) name
      in (if map_of fs r \<noteq> None then [r] else []) @ map (\<lambda>p. r @ ''/'' @ p) (sort_key (split_on (CHR ''/'')) (List.map_filter (\<lambda>(path, _). below_root r path) fs)))"

fun collect_state_files ::
    "runner_env \<Rightarrow> u64 \<Rightarrow> files \<Rightarrow> string list \<Rightarrow> archive_file list \<Rightarrow> nat \<Rightarrow> go_error + (archive_file list \<times> nat)" where
  "collect_state_files env limit fs [] found amount = Inr (found, amount)"
| "collect_state_files env limit fs (p # ps) found amount =
     (case map_of fs p of
        Some (Regular s) \<Rightarrow>
          (case path_rel (xr_state_dir env) p of
             None \<Rightarrow> Inl (Text ''Rel: cannot make path relative'')
           | Some relative \<Rightarrow>
               let amount' = amount + length s in
               if uint limit < int amount' \<or> maximumArchiveItems \<le> int (length found)
               then Inl (Wrap ''memory backup exceeds a bounded limit'' backup_invalid)
               else collect_state_files env limit fs ps
                 (found @ [\<lparr>af_source = p, af_name = ''files/'' @ relative, af_size = length s\<rparr>]) amount')
      | _ \<Rightarrow> Inl (Wrap ''memory backup only accepts regular state files'' backup_invalid))"

definition collect_files :: "runner_env \<Rightarrow> u64 \<Rightarrow> files \<Rightarrow> go_error + (archive_file list \<times> nat)" where
  "collect_files env limit fs =
     try_then (collect_state_files env limit fs (concat (map (state_files env fs) backup_roots)) [] 0) (\<lambda>(found, amount).
       Inr (sort_key af_name found, amount))"

fun read_entries :: "runner_env \<Rightarrow> files \<Rightarrow> archive_file list \<Rightarrow> go_error + (string \<times> string) list" where
  "read_entries env fs [] = Inr []"
| "read_entries env fs (x # xs) =
     (if refused env ''open'' (af_source x) then Inl (the (xr_fault env ''open'' (af_source x)))
      else try_then (read_file fs (af_source x)) (\<lambda>s. try_then (read_entries env fs xs) (\<lambda>es. Inr ((af_name x, s) # es))))"

definition manifest_of :: "archive \<Rightarrow> time \<Rightarrow> nat \<Rightarrow> backup_manifest" where
  "manifest_of a created n = \<lparr>bm_format = ''repoplane-memory'', bm_version = 1, bm_created_at = created, bm_records = length (av_records a),
     bm_revisions = length (av_revisions a), bm_imports = length (av_imports a), bm_files = n, bm_secrets = False\<rparr>"

text \<open>Everything before the archive file is created: the records, the state files and the path of the archive.\<close>

definition plan_export ::
    "runner_env \<Rightarrow> backup_codec \<Rightarrow> time \<Rightarrow> backup_request \<Rightarrow> runner_state \<Rightarrow> go_error + (u64 \<times> archive \<times> archive_file list \<times> string)" where
  "plan_export env z now q st =
     try_then (backup_limit (br_byte_limit q)) (\<lambda>limit.
     try_then (validate_destination env (br_destination q)) (\<lambda>destination.
     try_then (case begin_memory_snapshot st of Inl e \<Rightarrow> Inl (Join backup_not_idle e) | Inr u \<Rightarrow> Inr u) (\<lambda>_.
     try_then (export_records (xr_id env) (xr_id env) (nat maximumArchiveItems) (rn_db st)) (\<lambda>a.
     try_then (collect_files env limit (rn_files st)) (\<lambda>(found, amount).
       if uint limit < int (length (bc_archive z a) + amount) then Inl (Wrap ''memory backup exceeds byte_limit'' backup_invalid)
       else Inr (limit, a, found, path_join destination (''repoplane-memory-'' @ bc_stamp z now @ ''.zip'')))))))"

text \<open>The archive file is created exclusively and removed again unless everything succeeds; faults \<open>create\<close> and
  \<open>write\<close> are those of the file system for it, its removal is taken to succeed.\<close>

definition export_backup ::
    "runner_env \<Rightarrow> backup_codec \<Rightarrow> time \<Rightarrow> backup_request \<Rightarrow> runner_state \<Rightarrow> runner_state \<times> (go_error + backup_response)" where
  "export_backup env z now q st =
     (case plan_export env z now q st of
        Inl e \<Rightarrow> (st, Inl e)
      | Inr (limit, a, found, path) \<Rightarrow>
          if map_of (rn_files st) path \<noteq> None \<or> refused env ''create'' path then (st, Inl (Text ''create memory backup''))
          else (case read_entries env (rn_files st) found of
              Inl e \<Rightarrow> (st, Inl e)
            | Inr entries \<Rightarrow>
                (let m = manifest_of a now (length found);
                     packed = bc_pack z ([(''manifest.json'', bc_manifest z m), (''records.json'', bc_archive z a)] @ entries);
                     written = st\<lparr>rn_files := map_put path (Regular packed) (rn_files st)\<rparr>
                 in if refused env ''write'' path then (st, Inl (the (xr_fault env ''write'' path)))
                    else if uint limit < int (length packed) then (st, Inl (Wrap ''memory backup exceeds byte_limit'' backup_invalid))
                    else (written, Inr \<lparr>bp_status = ''ok'', bp_name = path_base path, bp_bytes = length packed,
                       bp_sha = ''sha256:'' @ xr_sha env packed, bp_records = bm_records m, bp_revisions = bm_revisions m,
                       bp_files = bm_files m, bp_portable = True\<rparr>))))"

section \<open>Restore\<close>

definition unsafe_entry :: "zip_entry \<Rightarrow> bool" where
  "unsafe_entry x \<longleftrightarrow> ze_name x = [] \<or> has_prefix (ze_name x) ''/'' \<or> contains_str (ze_name x) ''../'' \<or>
     path_clean (ze_name x) \<noteq> ze_name x \<or> \<not> ze_plain x"

text \<open>\<open>decodeEntry\<close>, with the decoder of the target.\<close>

definition decode_entry :: "(string \<Rightarrow> 'a option) \<Rightarrow> zip_entry \<Rightarrow> int \<Rightarrow> go_error + 'a" where
  "decode_entry decode x limit =
     (if limit < int (ze_size x) then Inl backup_invalid
      else case ze_content x of
          Inl _ \<Rightarrow> Inl backup_invalid
        | Inr s \<Rightarrow> (case decode (take (nat (limit + 1)) s) of
            None \<Rightarrow> Inl (Wrap ''decode memory backup entry'' backup_invalid) | Some v \<Rightarrow> Inr v))"

record restore_state =
  re_seen :: "string list"
  re_expanded :: nat
  re_manifest :: backup_manifest
  re_archive :: archive
  re_files :: files

definition blank_manifest :: backup_manifest where
  "blank_manifest = \<lparr>bm_format = [], bm_version = 0, bm_created_at = zero_time, bm_records = 0, bm_revisions = 0, bm_imports = 0,
     bm_files = 0, bm_secrets = False\<rparr>"

definition blank_archive :: archive where "blank_archive = \<lparr>av_records = [], av_revisions = [], av_imports = []\<rparr>"

definition extract_entry :: "runner_env \<Rightarrow> zip_entry \<Rightarrow> string \<Rightarrow> files \<Rightarrow> go_error + files" where
  "extract_entry env x target fs =
     (if refused env ''write'' target then Inl (the (xr_fault env ''write'' target))
      else try_then (ze_content x) (\<lambda>s.
        if map_of fs target \<noteq> None \<or> tree_found fs target then Inl (Text ''file exists'') else Inr (map_put target (Regular s) fs)))"

definition restore_entry :: "runner_env \<Rightarrow> backup_codec \<Rightarrow> u64 \<Rightarrow> string \<Rightarrow> zip_entry \<Rightarrow> restore_state \<Rightarrow> go_error + restore_state" where
  "restore_entry env z limit stage x s =
     (let name = ze_name x in
      if unsafe_entry x then Inl (Wrap ''unsafe memory backup entry'' backup_invalid)
      else if List.member (re_seen s) name then Inl (Wrap ''duplicate memory backup entry'' backup_invalid)
      else if uint limit - int (re_expanded s) < int (ze_size x) then Inl (Wrap ''expanded memory backup exceeds byte_limit'' backup_invalid)
      else let s1 = s\<lparr>re_seen := name # re_seen s, re_expanded := re_expanded s + ze_size x\<rparr> in
        if name = ''manifest.json'' then try_then (decode_entry (bc_read_manifest z) x (64 * 1024)) (\<lambda>m. Inr (s1\<lparr>re_manifest := m\<rparr>))
        else if name = ''records.json'' then try_then (decode_entry (bc_read_archive z) x (uint limit)) (\<lambda>a. Inr (s1\<lparr>re_archive := a\<rparr>))
        else if \<not> has_prefix name ''files/runs/'' \<and> \<not> has_prefix name ''files/artifacts/''
          then Inl (Wrap ''unsupported memory backup entry'' backup_invalid)
        else try_then (extract_entry env x (path_join stage (trim_prefix name ''files/'')) (re_files s1)) (\<lambda>fs. Inr (s1\<lparr>re_files := fs\<rparr>)))"

text \<open>The loop over the entries, with what has been staged when it ends or fails; a file half extracted when it fails is
  below the stage, which is removed.\<close>

fun restore_entries ::
    "runner_env \<Rightarrow> backup_codec \<Rightarrow> u64 \<Rightarrow> string \<Rightarrow> zip_entry list \<Rightarrow> restore_state \<Rightarrow> restore_state \<times> (go_error + unit)" where
  "restore_entries env z limit stage [] s = (s, Inr ())"
| "restore_entries env z limit stage (x # xs) s = (case restore_entry env z limit stage x s of
      Inl e \<Rightarrow> (s, Inl e) | Inr s' \<Rightarrow> restore_entries env z limit stage xs s')"

definition manifest_mismatch :: "restore_state \<Rightarrow> nat \<Rightarrow> bool" where
  "manifest_mismatch s entries \<longleftrightarrow>
     (let m = re_manifest s; a = re_archive s in
      \<not> List.member (re_seen s) ''manifest.json'' \<or> \<not> List.member (re_seen s) ''records.json'' \<or> bm_format m \<noteq> ''repoplane-memory'' \<or>
      bm_version m \<noteq> 1 \<or> bm_secrets m \<or> bm_records m \<noteq> length (av_records a) \<or> bm_revisions m \<noteq> length (av_revisions a) \<or>
      bm_imports m \<noteq> length (av_imports a) \<or> int (bm_files m) \<noteq> int entries - 2)"

text \<open>The staged trees become the state trees; \<open>Inl\<close> when one is refused, with the trees promoted so far.\<close>

fun promote_trees :: "runner_env \<Rightarrow> string \<Rightarrow> string list \<Rightarrow> string list \<Rightarrow> files \<Rightarrow> files \<times> string list \<times> (go_error + unit)" where
  "promote_trees env stage [] promoted fs = (fs, promoted, Inr ())"
| "promote_trees env stage (d # ds) promoted fs =
     (let source = path_join stage d; target = path_join (xr_state_dir env) d in
      if \<not> tree_found fs source then promote_trees env stage ds promoted fs
      else if map_of fs target \<noteq> None then (fs, promoted, Inl (Text ''readdir: not a directory''))
      else if tree_found fs target then (fs, promoted, Inl (Wrap (''restore target '' @ d @ '' is not empty'') (Sentinel StoreConflict)))
      else if refused env ''rename'' source then (fs, promoted, Inl (Wrap (''restore '' @ d) (the (xr_fault env ''rename'' source))))
      else promote_trees env stage ds (promoted @ [target]) (move_tree source target fs))"

text \<open>\<open>os.RemoveAll\<close> with its error ignored: the files the system refuses to remove stay.\<close>

definition remove_all :: "runner_env \<Rightarrow> string \<Rightarrow> files \<Rightarrow> files" where
  "remove_all env a fs = filter (\<lambda>(p, n). p \<noteq> a \<and> \<not> under a p \<or> refused env ''remove'' p) fs"

fun drop_trees :: "runner_env \<Rightarrow> string list \<Rightarrow> files \<Rightarrow> files" where
  "drop_trees env [] fs = fs"
| "drop_trees env (d # ds) fs = drop_trees env ds (remove_all env d fs)"

text \<open>The archive as it is read: its bytes and its entries.\<close>

definition open_archive :: "backup_codec \<Rightarrow> u64 \<Rightarrow> files \<Rightarrow> string \<Rightarrow> go_error + (string \<times> zip_entry list)" where
  "open_archive z limit fs path =
     (case map_of fs path of
        Some (Regular s) \<Rightarrow>
          if uint limit < int (length s) then Inl (Wrap ''open memory backup'' backup_invalid)
          else (case bc_unpack z s of
              None \<Rightarrow> Inl (Wrap ''open memory backup'' backup_invalid)
            | Some es \<Rightarrow> if maximumArchiveItems + 2 < int (length es)
                then Inl (Wrap ''memory backup has too many entries'' backup_invalid) else Inr (s, es))
      | _ \<Rightarrow> Inl (Wrap ''open memory backup'' backup_invalid))"

text \<open>\<open>mkdir\<close> is the answer of \<open>MkdirTemp\<close>, a path that does not exist.\<close>

definition finish_restore ::
    "runner_env \<Rightarrow> string \<Rightarrow> string \<Rightarrow> string \<Rightarrow> nat \<Rightarrow> restore_state \<Rightarrow> runner_state \<Rightarrow> runner_state \<times> (go_error + backup_response)" where
  "finish_restore env path bytes stage entries s st =
     (if manifest_mismatch s entries
      then (st\<lparr>rn_files := remove_all env stage (re_files s)\<rparr>, Inl (Wrap ''memory backup manifest mismatch'' backup_invalid))
      else case promote_trees env stage backup_roots [] (re_files s) of
          (fs, promoted, Inl e) \<Rightarrow> (st\<lparr>rn_files := remove_all env stage (drop_trees env promoted fs)\<rparr>, Inl e)
        | (fs, promoted, Inr _) \<Rightarrow>
            (case restore_records (xr_json env) (xr_id env) (xr_id env) (re_archive s) (rn_db st) of
               (db, Inl e) \<Rightarrow> (st\<lparr>rn_db := db, rn_files := remove_all env stage (drop_trees env promoted fs)\<rparr>, Inl e)
             | (db, Inr _) \<Rightarrow>
                 (st\<lparr>rn_db := db, rn_files := remove_all env stage fs\<rparr>,
                  Inr \<lparr>bp_status = ''ok'', bp_name = path_base path, bp_bytes = length bytes, bp_sha = ''sha256:'' @ xr_sha env bytes,
                    bp_records = bm_records (re_manifest s), bp_revisions = bm_revisions (re_manifest s),
                    bp_files = bm_files (re_manifest s), bp_portable = True\<rparr>)))"

definition restore_backup ::
    "runner_env \<Rightarrow> backup_codec \<Rightarrow> go_error + string \<Rightarrow> string \<Rightarrow> u64 \<Rightarrow> runner_state \<Rightarrow>
     runner_state \<times> (go_error + backup_response)" where
  "restore_backup env z mkdir path byte_limit st =
     (case try_then (backup_limit byte_limit) (\<lambda>limit. try_then (open_archive z limit (rn_files st) path) (\<lambda>a. Inr (limit, a))) of
        Inl e \<Rightarrow> (st, Inl e)
      | Inr (limit, bytes, es) \<Rightarrow> (case mkdir of
          Inl e \<Rightarrow> (st, Inl (Wrap ''create restore staging directory'' e))
        | Inr stage \<Rightarrow>
            (case restore_entries env z limit stage es \<lparr>re_seen = [], re_expanded = 0, re_manifest = blank_manifest,
                re_archive = blank_archive, re_files = rn_files st\<rparr> of
               (s, Inl e) \<Rightarrow> (st\<lparr>rn_files := remove_all env stage (re_files s)\<rparr>, Inl e)
             | (s, Inr _) \<Rightarrow> finish_restore env path bytes stage (length es) s st)))"

section \<open>The layout of the state directory\<close>

definition in_path :: "string \<Rightarrow> string \<Rightarrow> bool" where
  "in_path a p \<longleftrightarrow> p = a \<or> under a p"

lemma remove_all_lookup:
  "map_of (remove_all env a fs) p = (if in_path a p \<and> \<not> refused env ''remove'' p then None else map_of fs p)"
  using map_of_filter_key [of "\<lambda>p. p \<noteq> a \<and> \<not> under a p \<or> refused env ''remove'' p" fs p]
  by (simp add: remove_all_def in_path_def)

lemma remove_all_quiet: "(\<And>p. \<not> refused env ''remove'' p) \<Longrightarrow> remove_all env a fs = drop_tree a fs"
  by (simp add: remove_all_def drop_tree_def)

lemma drop_trees_lookup:
  "map_of (drop_trees env ds fs) p = (if (\<exists>d \<in> set ds. in_path d p) \<and> \<not> refused env ''remove'' p then None else map_of fs p)"
  by (induction ds arbitrary: fs) (auto simp: remove_all_lookup)

text \<open>The state directory is absolute and clean; the stage is a fresh directory directly in it, apart from the state
  trees.\<close>

definition restore_layout :: "runner_env \<Rightarrow> string \<Rightarrow> files \<Rightarrow> bool" where
  "restore_layout env stage fs \<longleftrightarrow>
     is_abs (xr_state_dir env) \<and> path_clean (xr_state_dir env) = xr_state_dir env \<and> xr_state_dir env \<noteq> ''/'' \<and>
     (\<exists>t. stage = xr_state_dir env @ ''/'' @ t \<and> plain_comp t \<and> t \<notin> set backup_roots) \<and>
     map_of fs stage = None \<and> \<not> tree_found fs stage"

lemma spelled_abs: "is_abs a \<Longrightarrow> is_abs (a @ s)"
  by (auto simp: is_abs_def has_prefix_iff)

lemma child_clean:
  assumes "is_abs a" "path_clean a = a" "a \<noteq> ''/''" "plain_comp t"
  shows "path_join a t = a @ ''/'' @ t" "path_clean (a @ ''/'' @ t) = a @ ''/'' @ t" "a @ ''/'' @ t \<noteq> ''/''"
proof -
  show j: "path_join a t = a @ ''/'' @ t" using path_join_spelled [OF assms(1-3), of "[t]"] assms(4) by simp
  have "a \<noteq> []" using assms(1) by (auto simp: is_abs_def has_prefix_iff)
  then have "path_join a t = path_clean (a @ ''/'' @ t)" by (simp add: path_join_def)
  with j show "path_clean (a @ ''/'' @ t) = a @ ''/'' @ t" by simp
  show "a @ ''/'' @ t \<noteq> ''/''" using assms(1) by (auto simp: is_abs_def has_prefix_iff)
qed

lemma backup_root_comp: "d \<in> set backup_roots \<Longrightarrow> plain_comp d"
  unfolding backup_roots_def by (auto simp: plain_comp_def is_comp_def)

lemma layout_paths:
  assumes "restore_layout env stage fs" "d \<in> set backup_roots"
  shows "path_join (xr_state_dir env) d = xr_state_dir env @ ''/'' @ d" "path_join stage d = stage @ ''/'' @ d"
    "is_abs stage" "path_clean stage = stage" "stage \<noteq> ''/''"
proof -
  obtain t where t: "stage = xr_state_dir env @ ''/'' @ t" "plain_comp t" using assms(1) by (auto simp: restore_layout_def)
  have s: "is_abs (xr_state_dir env)" "path_clean (xr_state_dir env) = xr_state_dir env" "xr_state_dir env \<noteq> ''/''"
    using assms(1) by (simp_all add: restore_layout_def)
  show "path_join (xr_state_dir env) d = xr_state_dir env @ ''/'' @ d" by (rule child_clean(1) [OF s backup_root_comp [OF assms(2)]])
  show stage: "is_abs stage" "path_clean stage = stage" "stage \<noteq> ''/''"
    unfolding t(1) by (rule spelled_abs [OF s(1)] child_clean(2,3) [OF s t(2)])+
  show "path_join stage d = stage @ ''/'' @ d" by (rule child_clean(1) [OF stage backup_root_comp [OF assms(2)]])
qed

lemma apart_comps:
  assumes "plain_comp x" "plain_comp y" "x \<noteq> y"
  shows "apart (a @ ''/'' @ x) (a @ ''/'' @ y)"
proof -
  have no: "\<not> under (a @ ''/'' @ u) (a @ ''/'' @ v)" if "plain_comp v" for u v
    using that by (auto simp: under_iff plain_comp_def is_comp_def)
  show ?thesis using assms no by (simp add: apart_def)
qed

lemma in_path_trans: "in_path a b \<Longrightarrow> in_path b p \<Longrightarrow> in_path a p"
  by (auto simp: in_path_def under_iff)

lemma apart_in_path: "apart a b \<Longrightarrow> in_path a p \<Longrightarrow> \<not> in_path b p"
  using apart_under [of a b p] apart_sym [of a b] unfolding in_path_def apart_def by blast

lemma layout_apart:
  assumes "restore_layout env stage fs" "d \<in> set backup_roots"
  shows "apart stage (xr_state_dir env @ ''/'' @ d)"
    "d' \<in> set backup_roots \<Longrightarrow> d' \<noteq> d \<Longrightarrow> apart (xr_state_dir env @ ''/'' @ d') (xr_state_dir env @ ''/'' @ d)"
proof -
  obtain t where t: "stage = xr_state_dir env @ ''/'' @ t" "plain_comp t" "t \<notin> set backup_roots" using assms(1) by (auto simp: restore_layout_def)
  show "apart stage (xr_state_dir env @ ''/'' @ d)"
    unfolding t(1) by (rule apart_comps [OF t(2) backup_root_comp [OF assms(2)]]) (use t(3) assms(2) in blast)
  show "apart (xr_state_dir env @ ''/'' @ d') (xr_state_dir env @ ''/'' @ d)" if "d' \<in> set backup_roots" "d' \<noteq> d"
    using that assms(2) by (intro apart_comps backup_root_comp) auto
qed

section \<open>Safe entries\<close>

text \<open>A safe name is spelled by its components, none of which leads upwards.\<close>

lemma clean_name:
  assumes "path_clean name = name" "has_prefix name (''files/'' @ d @ ''/'')" "d \<in> set backup_roots"
  obtains cs where "name = ''files/'' @ d @ ''/'' @ join_with ''/'' cs" "cs \<noteq> []" "list_all plain_comp cs"
proof -
  obtain rest where rest: "name = ''files/'' @ d @ ''/'' @ rest" using assms(2) by (auto simp: has_prefix_iff)
  then have rel: "\<not> is_abs name" by (simp add: is_abs_def has_prefix_def)
  obtain n xs where c: "clean_comps name = replicate n ''..'' @ xs" "list_all plain_comp xs" by (rule clean_comps_dots [OF rel])
  have name: "name = join_with ''/'' (clean_comps name)" "clean_comps name \<noteq> []"
    using assms(1) rel rest by (auto simp: path_clean_def spell_def split: if_splits)
  have n: "n = 0"
  proof (cases n)
    case (Suc k)
    then have "hd name = CHR ''.''" using name(1) c(1) by (cases "replicate k ''..'' @ xs") auto
    with rest show ?thesis by simp
  qed simp
  with c have plain: "list_all plain_comp (clean_comps name)" by simp
  then have noslash: "\<forall>c \<in> set (clean_comps name). CHR ''/'' \<notin> set c" by (auto simp: list_all_iff plain_comp_def is_comp_def)
  have split: "split_on (CHR ''/'') name = clean_comps name" using split_join [OF name(2) noslash] name(1) by simp
  have d: "CHR ''/'' \<notin> set d" using backup_root_comp [OF assms(3)] by (simp add: plain_comp_def is_comp_def)
  have "split_on (CHR ''/'') name = ''files'' # d # split_on (CHR ''/'') rest"
    using split_on_join [of "CHR ''/''" "''files''" "d @ ''/'' @ rest"] split_on_join [of "CHR ''/''" d rest] split_on_none [OF d] by (simp add: rest)
  then have cs: "clean_comps name = ''files'' # d # split_on (CHR ''/'') rest" using split by simp
  then have "name = ''files/'' @ d @ ''/'' @ join_with ''/'' (split_on (CHR ''/'') rest)"
    using name(1) split_on_not_Nil [of "CHR ''/''" rest] by (cases "split_on (CHR ''/'') rest") auto
  moreover have "list_all plain_comp (split_on (CHR ''/'') rest)" using plain cs by simp
  ultimately show thesis using split_on_not_Nil that by blast
qed

lemma staged_target:
  assumes "restore_layout env stage fs" "\<not> unsafe_entry x" "has_prefix (ze_name x) (''files/'' @ d @ ''/'')" "d \<in> set backup_roots"
  obtains cs where "ze_name x = ''files/'' @ d @ ''/'' @ join_with ''/'' cs" "cs \<noteq> []" "list_all plain_comp cs"
    "path_join stage (trim_prefix (ze_name x) ''files/'') = stage @ ''/'' @ d @ ''/'' @ join_with ''/'' cs"
proof -
  have "path_clean (ze_name x) = ze_name x" using assms(2) by (simp add: unsafe_entry_def)
  then obtain cs where cs: "ze_name x = ''files/'' @ d @ ''/'' @ join_with ''/'' cs" "cs \<noteq> []" "list_all plain_comp cs"
    by (rule clean_name [OF _ assms(3,4)])
  obtain c cs' where "cs = c # cs'" using cs(2) by (cases cs) auto
  then have j: "join_with ''/'' (d # cs) = d @ ''/'' @ join_with ''/'' cs" by simp
  have "path_join stage (join_with ''/'' (d # cs)) = stage @ ''/'' @ join_with ''/'' (d # cs)"
    by (rule path_join_spelled [OF layout_paths(3-5) [OF assms(1,4)]]) (use cs(3) backup_root_comp [OF assms(4)] in simp_all)
  moreover have "trim_prefix (ze_name x) ''files/'' = d @ ''/'' @ join_with ''/'' cs"
    using cs(1) trim_prefix_append [of "''files/''" "d @ ''/'' @ join_with ''/'' cs"] by simp
  ultimately show thesis using cs j by (intro that [of cs]) simp_all
qed

text \<open>An accepted entry changes nothing outside the stage.\<close>

lemma restore_entry_outside:
  assumes "restore_layout env stage fs" "restore_entry env z limit stage x s = Inr s'" "\<not> in_path stage p"
  shows "map_of (re_files s') p = map_of (re_files s) p"
proof (cases "ze_name x = ''manifest.json'' \<or> ze_name x = ''records.json''")
  case True
  with assms(2) show ?thesis by (auto simp: restore_entry_def Let_def try_then_Inr_iff split: if_splits)
next
  case False
  then obtain fs' where e: "extract_entry env x (path_join stage (trim_prefix (ze_name x) ''files/'')) (re_files s) = Inr fs'" "re_files s' = fs'"
    and safe: "\<not> unsafe_entry x" and named: "has_prefix (ze_name x) ''files/runs/'' \<or> has_prefix (ze_name x) ''files/artifacts/''"
    using assms(2) by (auto simp: restore_entry_def Let_def try_then_Inr_iff split: if_splits)
  from named obtain d where d: "d \<in> set backup_roots" "has_prefix (ze_name x) (''files/'' @ d @ ''/'')"
    by (elim disjE) (force simp: backup_roots_def)+
  obtain cs where "path_join stage (trim_prefix (ze_name x) ''files/'') = stage @ ''/'' @ d @ ''/'' @ join_with ''/'' cs"
    by (rule staged_target [OF assms(1) safe d(2,1)])
  then have "path_join stage (trim_prefix (ze_name x) ''files/'') \<noteq> p" using assms(3) by (auto simp: in_path_def under_iff)
  moreover obtain c where "fs' = map_put (path_join stage (trim_prefix (ze_name x) ''files/'')) (Regular c) (re_files s)"
    using e(1) by (auto simp: extract_entry_def try_then_Inr_iff split: if_splits)
  ultimately show ?thesis by (simp add: e(2))
qed

lemma restore_entries_outside:
  assumes "restore_layout env stage fs" "restore_entries env z limit stage xs s = (s', out)" "\<not> in_path stage p"
  shows "map_of (re_files s') p = map_of (re_files s) p"
  using assms(2)
proof (induction xs arbitrary: s)
  case (Cons x xs)
  show ?case
  proof (cases "restore_entry env z limit stage x s")
    case (Inr s1)
    with Cons restore_entry_outside [OF assms(1) Inr assms(3)] show ?thesis by simp
  qed (use Cons.prems in simp)
qed simp

section \<open>A failed restore\<close>

text \<open>What the promotion leaves outside the stage and the promoted trees, which held nothing before.\<close>

lemma promote_trees_outside:
  assumes "restore_layout env stage fs0" "set ds \<subseteq> set backup_roots" "distinct ds"
    "promote_trees env stage ds promoted fs = (fs', promoted', out)"
  shows "\<exists>new. promoted' = promoted @ map (\<lambda>d. xr_state_dir env @ ''/'' @ d) new \<and> set new \<subseteq> set ds \<and>
    (\<forall>p. \<not> in_path stage p \<longrightarrow> (\<forall>d \<in> set new. \<not> in_path (xr_state_dir env @ ''/'' @ d) p) \<longrightarrow> map_of fs' p = map_of fs p) \<and>
    (\<forall>d \<in> set new. \<forall>p. in_path (xr_state_dir env @ ''/'' @ d) p \<longrightarrow> map_of fs p = None)"
  using assms(2-)
proof (induction ds arbitrary: promoted fs)
  case Nil
  then show ?case by auto
next
  case (Cons d ds)
  let ?S = "\<lambda>d. xr_state_dir env @ ''/'' @ d"
  have d: "d \<in> set backup_roots" using Cons.prems(1) by simp
  note paths = layout_paths [OF assms(1) d]
  let ?next = "promote_trees env stage ds (promoted @ [?S d]) (move_tree (stage @ ''/'' @ d) (?S d) fs)"
  consider (skip) "promote_trees env stage ds promoted fs = (fs', promoted', out)" | (stop) "fs' = fs" "promoted' = promoted"
    | (go) "map_of fs (?S d) = None" "\<not> tree_found fs (?S d)" "?next = (fs', promoted', out)"
    using Cons.prems(3) unfolding promote_trees.simps Let_def paths(1,2) by (auto split: if_splits)
  then show ?case
  proof cases
    case skip
    obtain new where "promoted' = promoted @ map ?S new" "set new \<subseteq> set ds"
      "\<forall>p. \<not> in_path stage p \<longrightarrow> (\<forall>x \<in> set new. \<not> in_path (?S x) p) \<longrightarrow> map_of fs' p = map_of fs p"
      "\<forall>x \<in> set new. \<forall>p. in_path (?S x) p \<longrightarrow> map_of fs p = None"
      using Cons.IH [OF _ _ skip] Cons.prems(1,2) by auto
    then show ?thesis by (intro exI [of _ new]) auto
  next
    case stop
    then show ?thesis by (intro exI [of _ "[]"]) simp
  next
    case go
    obtain new where new: "promoted' = (promoted @ [?S d]) @ map ?S new" "set new \<subseteq> set ds"
      "\<forall>p. \<not> in_path stage p \<longrightarrow> (\<forall>x \<in> set new. \<not> in_path (?S x) p) \<longrightarrow> map_of fs' p = map_of (move_tree (stage @ ''/'' @ d) (?S d) fs) p"
      "\<forall>x \<in> set new. \<forall>p. in_path (?S x) p \<longrightarrow> map_of (move_tree (stage @ ''/'' @ d) (?S d) fs) p = None"
      using Cons.IH [OF _ _ go(3)] Cons.prems(1,2) by auto
    have sub: "in_path stage (stage @ ''/'' @ d)" by (auto simp: in_path_def under_iff)
    have far: "apart (stage @ ''/'' @ d) (?S d)"
    proof -
      have "\<not> in_path (stage @ ''/'' @ d) (?S d)" using layout_apart(1) [OF assms(1) d] in_path_trans [OF sub]
        by (auto simp: apart_def in_path_def)
      moreover have "\<not> in_path (?S d) (stage @ ''/'' @ d)" using apart_in_path [OF layout_apart(1) [OF assms(1) d] sub] by simp
      ultimately show ?thesis by (auto simp: apart_def in_path_def)
    qed
    have kept: "map_of (move_tree (stage @ ''/'' @ d) (?S d) fs) p = map_of fs p" if "\<not> under (stage @ ''/'' @ d) p" "\<not> under (?S d) p" for p
      by (rule move_subtree(4) [OF far go(2) that])
    have none: "map_of fs p = None" if "in_path (?S d) p" for p
      using that go(1,2) by (auto simp: in_path_def tree_found_map)
    have "map_of fs p = None" if x: "x \<in> set new" "in_path (?S x) p" for x p
    proof -
      have xd: "x \<noteq> d" "x \<in> set backup_roots" using x(1) new(2) Cons.prems(1,2) by auto
      have "\<not> under (?S d) p" using apart_in_path [OF layout_apart(2) [OF assms(1) d xd(2,1)] x(2)] by (auto simp: in_path_def)
      moreover have "\<not> under (stage @ ''/'' @ d) p"
        using apart_in_path [OF layout_apart(1) [OF assms(1) xd(2)], of p] x(2) in_path_trans [OF sub, of p] by (auto simp: in_path_def)
      ultimately show ?thesis using kept new(4) x by metis
    qed
    moreover have "map_of fs' p = map_of fs p" if "\<not> in_path stage p" "\<forall>x \<in> set (d # new). \<not> in_path (?S x) p" for p
    proof -
      have "\<not> under (stage @ ''/'' @ d) p" using that(1) in_path_trans [OF sub, of p] by (auto simp: in_path_def)
      moreover have "\<not> under (?S d) p" using that(2) by (simp add: in_path_def)
      ultimately show ?thesis using that new(3) kept by simp
    qed
    ultimately show ?thesis using new(1,2) none by (intro exI [of _ "d # new"]) auto
  qed
qed

lemma restore_records_failed: "restore_records j p w a db = (db', Inl e) \<Longrightarrow> db' = db"
  by (auto simp: restore_records_def transact_def split: if_splits sum.splits prod.splits)

lemma rolled_back:
  assumes "restore_layout env stage fs" "\<And>p. \<not> in_path stage p \<Longrightarrow> map_of gs p = map_of fs p"
    "promote_trees env stage backup_roots [] gs = (hs, promoted, out)" "map_of fs p \<noteq> None \<or> \<not> refused env ''remove'' p"
  shows "map_of (remove_all env stage (drop_trees env promoted hs)) p = map_of fs p"
proof -
  have "distinct backup_roots" by (simp add: backup_roots_def)
  from promote_trees_outside [OF assms(1) subset_refl this assms(3)] obtain new where new: "promoted = map (\<lambda>d. xr_state_dir env @ ''/'' @ d) new"
    "set new \<subseteq> set backup_roots"
    "\<forall>p. \<not> in_path stage p \<longrightarrow> (\<forall>d \<in> set new. \<not> in_path (xr_state_dir env @ ''/'' @ d) p) \<longrightarrow> map_of hs p = map_of gs p"
    "\<forall>d \<in> set new. \<forall>p. in_path (xr_state_dir env @ ''/'' @ d) p \<longrightarrow> map_of gs p = None" by auto
  have fresh: "map_of fs p = None" if "in_path stage p"
    using that assms(1) by (auto simp: restore_layout_def in_path_def tree_found_map)
  show ?thesis
  proof (cases "in_path stage p")
    case True
    then show ?thesis using fresh assms(4) by (simp add: remove_all_lookup)
  next
    case False
    then have p: "map_of (remove_all env stage (drop_trees env promoted hs)) p = map_of (drop_trees env promoted hs) p"
      by (simp add: remove_all_lookup)
    show ?thesis
    proof (cases "\<exists>d \<in> set new. in_path (xr_state_dir env @ ''/'' @ d) p")
      case True
      then have "map_of gs p = None" using new(4) by blast
      with True assms(2) [OF False] assms(4) show ?thesis by (subst p, subst drop_trees_lookup) (simp add: new(1))
    next
      case other: False
      then have "map_of hs p = map_of gs p" using False new(3) by blast
      with other assms(2) [OF False] show ?thesis by (subst p, subst drop_trees_lookup) (simp add: new(1))
    qed
  qed
qed

text \<open>C33: A restore that fails, whatever is wrong with the archive and wherever the file system or the records refuse,
  leaves the records and every file there was as they were, and leaves no other file behind unless its removal was refused.\<close>

theorem failed_restore_changes_nothing:
  assumes "restore_layout env stage (rn_files st)" "restore_backup env z (Inr stage) path byte_limit st = (st', Inl e)"
  shows "rn_db st' = rn_db st \<and>
    (\<forall>p. map_of (rn_files st) p \<noteq> None \<or> \<not> refused env ''remove'' p \<longrightarrow> map_of (rn_files st') p = map_of (rn_files st) p)"
proof -
  let ?start = "\<lparr>re_seen = [], re_expanded = 0, re_manifest = blank_manifest, re_archive = blank_archive, re_files = rn_files st\<rparr>"
  have fresh: "map_of (rn_files st) p = None" if "in_path stage p" for p
    using that assms(1) by (auto simp: restore_layout_def in_path_def tree_found_map)
  consider (early) "st' = st" | (entries) limit es s where "restore_entries env z limit stage es ?start = (s, Inl e)"
        "st' = st\<lparr>rn_files := remove_all env stage (re_files s)\<rparr>"
    | (finish) limit bytes es s u where "restore_entries env z limit stage es ?start = (s, Inr u)"
        "finish_restore env path bytes stage (length es) s st = (st', Inl e)"
  proof (cases "try_then (backup_limit byte_limit) (\<lambda>limit. try_then (open_archive z limit (rn_files st) path) (\<lambda>a. Inr (limit, a)))")
    case (Inl x)
    with assms(2) show thesis by (intro early) (simp add: restore_backup_def)
  next
    case (Inr r)
    obtain limit bytes es where r: "r = (limit, bytes, es)" by (rule prod_cases3)
    obtain s out where loop: "restore_entries env z limit stage es ?start = (s, out)" by (rule prod.exhaust)
    show thesis
    proof (cases out)
      case (Inl x)
      with assms(2) Inr r loop show thesis by (intro entries [of limit es s]) (simp_all add: restore_backup_def)
    next
      case out: (Inr u)
      with assms(2) Inr r loop show thesis by (intro finish [of limit es s u bytes]) (simp_all add: restore_backup_def)
    qed
  qed
  then show ?thesis
  proof cases
    case early
    then show ?thesis by simp
  next
    case entries
    have "map_of (remove_all env stage (re_files s)) p = map_of (rn_files st) p"
      if "map_of (rn_files st) p \<noteq> None \<or> \<not> refused env ''remove'' p" for p
      using restore_entries_outside [OF assms(1) entries(1), of p] fresh [of p] that by (cases "in_path stage p") (auto simp: remove_all_lookup)
    then show ?thesis using entries(2) by auto
  next
    case finish
    have out: "\<not> in_path stage p \<Longrightarrow> map_of (re_files s) p = map_of (rn_files st) p" for p
      using restore_entries_outside [OF assms(1) finish(1), of p] by simp
    obtain hs promoted o1 where p: "promote_trees env stage backup_roots [] (re_files s) = (hs, promoted, o1)" by (rule prod_cases3)
    have undone: "map_of (remove_all env stage (drop_trees env promoted hs)) q = map_of (rn_files st) q"
      if "map_of (rn_files st) q \<noteq> None \<or> \<not> refused env ''remove'' q" for q
      by (rule rolled_back [OF assms(1) _ p that]) (rule out)
    have mismatch: "map_of (remove_all env stage (re_files s)) p = map_of (rn_files st) p"
      if "map_of (rn_files st) p \<noteq> None \<or> \<not> refused env ''remove'' p" for p
      using out [of p] fresh [of p] that by (cases "in_path stage p") (auto simp: remove_all_lookup)
    have db: "rn_db st' = rn_db st"
      using finish(2) p by (auto simp: finish_restore_def dest: restore_records_failed split: if_splits sum.splits prod.splits)
    have "rn_files st' = remove_all env stage (re_files s) \<or> rn_files st' = remove_all env stage (drop_trees env promoted hs)"
      using finish(2) p by (auto simp: finish_restore_def split: if_splits sum.splits prod.splits)
    then have "map_of (rn_files st') p = map_of (rn_files st) p"
      if "map_of (rn_files st) p \<noteq> None \<or> \<not> refused env ''remove'' p" for p using undone [OF that] mismatch [OF that] by auto
    with db show ?thesis by blast
  qed
qed

section \<open>What an export holds\<close>

text \<open>State files as the program writes them: clean paths without a component that ends in two dots, nothing below a
  file, and directories at the two roots.\<close>

definition tidy_state :: "runner_env \<Rightarrow> files \<Rightarrow> bool" where
  "tidy_state env fs \<longleftrightarrow>
     is_abs (xr_state_dir env) \<and> path_clean (xr_state_dir env) = xr_state_dir env \<and> xr_state_dir env \<noteq> ''/'' \<and> wf_map fs \<and>
     (\<forall>d \<in> set backup_roots. map_of fs (xr_state_dir env @ ''/'' @ d) = None) \<and>
     (\<forall>p. map_of fs p \<noteq> None \<longrightarrow> under (xr_state_dir env) p \<longrightarrow> path_clean p = p \<and> \<not> contains_str p ''../'' \<and> \<not> tree_found fs p)"

lemma clean_below:
  assumes "is_abs S" "path_clean S = S" "S \<noteq> ''/''" "path_clean (S @ ''/'' @ d @ ''/'' @ rest) = S @ ''/'' @ d @ ''/'' @ rest" "plain_comp d"
  obtains cs where "rest = join_with ''/'' cs" "cs \<noteq> []" "list_all plain_comp cs"
proof -
  let ?p = "S @ ''/'' @ d @ ''/'' @ rest" and ?sp = "split_on (CHR ''/'')"
  have abs: "is_abs ?p" by (rule spelled_abs [OF assms(1)])
  have spelled: "?sp x = [] # clean_comps x" if "is_abs x" "path_clean x = x" "x \<noteq> ''/''" for x
  proof -
    have x: "x = [] @ CHR ''/'' # join_with ''/'' (clean_comps x)" "clean_comps x \<noteq> []"
      using that by (auto simp: path_clean_def spell_def)
    have "\<forall>c \<in> set (clean_comps x). CHR ''/'' \<notin> set c"
      using clean_comps_plain [OF that(1)] by (auto simp: list_all_iff plain_comp_def is_comp_def)
    from split_join [OF x(2) this] split_on_join [of "CHR ''/''" "[]" "join_with ''/'' (clean_comps x)"] show ?thesis
      by (metis x(1) append_Cons append_Nil split_on.simps(1))
  qed
  have d: "CHR ''/'' \<notin> set d" using assms(5) by (simp add: plain_comp_def is_comp_def)
  have "?sp ?p = ?sp S @ d # ?sp rest"
    using split_on_join [of "CHR ''/''" S "d @ ''/'' @ rest"] split_on_join [of "CHR ''/''" d rest] split_on_none [OF d] by simp
  moreover have "?p \<noteq> ''/''" by simp
  ultimately have "clean_comps ?p = clean_comps S @ d # ?sp rest"
    using spelled [OF assms(1-3)] spelled [OF abs assms(4)] by simp
  then have "list_all plain_comp (?sp rest)" using clean_comps_plain [OF abs] by simp
  then show thesis using that [of "?sp rest"] split_on_not_Nil join_split [of "CHR ''/''" rest] by metis
qed

lemma relative_below:
  assumes "is_abs S" "path_clean S = S" "S \<noteq> ''/''" "cs \<noteq> []" "list_all plain_comp cs"
  shows "path_rel S (S @ ''/'' @ join_with ''/'' cs) = Some (join_with ''/'' cs)"
proof -
  let ?p = "S @ ''/'' @ join_with ''/'' cs"
  have abs: "is_abs ?p" by (rule spelled_abs [OF assms(1)])
  have j: "path_join S (join_with ''/'' cs) = ?p" by (rule path_join_spelled [OF assms])
  have comps: "clean_comps ?p = clean_comps S @ cs" using join_comps(1) [OF assms(1,4,5)] j by simp
  have strip: "strip_common xs (xs @ cs) = ([], cs)" for xs using assms(4) by (induction xs) auto
  have "path_clean ?p \<noteq> path_clean S" using path_clean_eq_iff [OF abs assms(1)] comps assms(4) by simp
  then show ?thesis using abs assms(1) comps by (simp add: path_rel_def strip)
qed

lemma below_root_Some: "below_root r path = Some rel \<longleftrightarrow> path = r @ ''/'' @ rel"
  by (auto simp: below_root_def has_prefix_iff)

lemma below_files: "set (List.map_filter (\<lambda>(path, _). below_root r path) fs) = {rel. r @ ''/'' @ rel \<in> fst ` set fs}"
proof (induction fs)
  case (Cons x fs)
  obtain path n where x: "x = (path, n)" by (rule prod.exhaust)
  show ?case
  proof (cases "below_root r path")
    case None
    then have "path \<noteq> r @ ''/'' @ rel" for rel using below_root_Some [of r path rel] by simp
    then show ?thesis using None Cons by (auto simp: x List.map_filter_simps)
  next
    case (Some rel)
    then have "path = r @ ''/'' @ rel" by (simp only: below_root_Some)
    then show ?thesis using Some Cons by (auto simp: x List.map_filter_simps)
  qed
qed (simp add: List.map_filter_simps)

text \<open>The state files of one root, all and once each.\<close>

lemma state_files_set:
  assumes "tidy_state env fs" "d \<in> set backup_roots"
  shows "set (state_files env fs d) = {p. map_of fs p \<noteq> None \<and> under (xr_state_dir env @ ''/'' @ d) p}" "distinct (state_files env fs d)"
proof -
  let ?r = "xr_state_dir env @ ''/'' @ d"
  have s: "is_abs (xr_state_dir env)" "path_clean (xr_state_dir env) = xr_state_dir env" "xr_state_dir env \<noteq> ''/''" "wf_map fs"
    using assms(1) by (simp_all add: tidy_state_def)
  have r: "path_join (xr_state_dir env) d = ?r" by (rule child_clean(1) [OF s(1-3) backup_root_comp [OF assms(2)]])
  have none: "map_of fs ?r = None" using assms by (auto simp: tidy_state_def)
  let ?below = "List.map_filter (\<lambda>(path, _). below_root ?r path) fs"
  have files: "state_files env fs d = map (\<lambda>p. ?r @ ''/'' @ p) (sort_key (split_on (CHR ''/'')) ?below)"
    unfolding state_files_def r Let_def none by simp
  have below: "set ?below = {rel. map_of fs (?r @ ''/'' @ rel) \<noteq> None}"
  proof -
    have "?r @ ''/'' @ rel \<in> fst ` set fs \<longleftrightarrow> map_of fs (?r @ ''/'' @ rel) \<noteq> None" for rel
      by (simp add: map_of_eq_None_iff)
    then show ?thesis unfolding below_files by blast
  qed
  show "set (state_files env fs d) = {p. map_of fs p \<noteq> None \<and> under ?r p}"
    unfolding files set_map set_sort below by (auto simp: under_iff)
  have "distinct ?below" using s(4) unfolding wf_map_def
  proof (induction fs)
    case (Cons x fs)
    have "rel \<notin> set (List.map_filter (\<lambda>(path, _). below_root ?r path) fs)" if "below_root ?r (fst x) = Some rel" for rel
      using that Cons.prems by (force simp: List.map_filter_def below_root_Some)
    with Cons show ?case by (auto simp: List.map_filter_simps split: option.splits prod.splits)
  qed (simp add: List.map_filter_simps)
  then show "distinct (state_files env fs d)" unfolding files by (simp add: distinct_map inj_on_def)
qed

lemma collect_state_files_shape:
  assumes "collect_state_files env limit fs ps found amount = Inr (found', amount')"
  shows "\<exists>new. found' = found @ new \<and> map af_source new = ps \<and> amount' = amount + sum_list (map af_size new) \<and>
    (new = [] \<or> int (length found') \<le> maximumArchiveItems) \<and>
    (\<forall>x \<in> set new. \<exists>s rel. map_of fs (af_source x) = Some (Regular s) \<and> path_rel (xr_state_dir env) (af_source x) = Some rel \<and>
       af_name x = ''files/'' @ rel \<and> af_size x = length s)"
  using assms
proof (induction env limit fs ps found amount rule: collect_state_files.induct)
  case (2 env limit fs p ps found amount)
  obtain s relative where s: "map_of fs p = Some (Regular s)" "path_rel (xr_state_dir env) p = Some relative"
    using 2(2) by (auto split: option.splits file_node.splits)
  let ?x = "\<lparr>af_source = p, af_name = ''files/'' @ relative, af_size = length s\<rparr>"
  have guard: "\<not> (uint limit < int (amount + length s) \<or> maximumArchiveItems \<le> int (length found))"
    and rest: "collect_state_files env limit fs ps (found @ [?x]) (amount + length s) = Inr (found', amount')"
    using 2(2) s by (auto simp: Let_def split: if_splits)
  from 2(1) [OF s(1) _ s(2) refl guard rest] obtain new where new: "found' = (found @ [?x]) @ new" "map af_source new = ps"
    "amount' = amount + length s + sum_list (map af_size new)" "new = [] \<or> int (length found') \<le> maximumArchiveItems"
    "\<forall>x \<in> set new. \<exists>s rel. map_of fs (af_source x) = Some (Regular s) \<and> path_rel (xr_state_dir env) (af_source x) = Some rel \<and>
       af_name x = ''files/'' @ rel \<and> af_size x = length s" by blast
  have "int (length found') \<le> maximumArchiveItems" using new(1,4) guard by auto
  with new s show ?case by (intro exI [of _ "?x # new"]) auto
qed simp

definition state_path :: "runner_env \<Rightarrow> string \<Rightarrow> string \<Rightarrow> string" where
  "state_path env d rel = xr_state_dir env @ ''/'' @ d @ ''/'' @ rel"

text \<open>A state file: its path, and the name of its entry.\<close>

lemma state_file_name:
  assumes "tidy_state env fs" "d \<in> set backup_roots" "map_of fs p \<noteq> None" "under (xr_state_dir env @ ''/'' @ d) p"
  obtains cs where "p = state_path env d (join_with ''/'' cs)" "cs \<noteq> []" "list_all plain_comp cs"
    "path_rel (xr_state_dir env) p = Some (d @ ''/'' @ join_with ''/'' cs)" "\<not> contains_str p ''../''"
proof -
  have s: "is_abs (xr_state_dir env)" "path_clean (xr_state_dir env) = xr_state_dir env" "xr_state_dir env \<noteq> ''/''"
    using assms(1) by (simp_all add: tidy_state_def)
  obtain rest where rest: "p = xr_state_dir env @ ''/'' @ d @ ''/'' @ rest" using assms(4) by (auto simp: under_iff)
  have "under (xr_state_dir env) p" by (auto simp: rest under_iff)
  with assms(1,3) have p: "path_clean p = p" "\<not> contains_str p ''../''" by (auto simp: tidy_state_def)
  obtain cs where cs: "rest = join_with ''/'' cs" "cs \<noteq> []" "list_all plain_comp cs"
    by (rule clean_below [OF s p(1) [unfolded rest] backup_root_comp [OF assms(2)]])
  have j: "join_with ''/'' (d # cs) = d @ ''/'' @ join_with ''/'' cs" using cs(2) by (cases cs) auto
  have "path_rel (xr_state_dir env) (xr_state_dir env @ ''/'' @ join_with ''/'' (d # cs)) = Some (join_with ''/'' (d # cs))"
    by (rule relative_below [OF s]) (use cs(3) backup_root_comp [OF assms(2)] in simp_all)
  then have "path_rel (xr_state_dir env) p = Some (d @ ''/'' @ join_with ''/'' cs)" unfolding j rest cs(1) by simp
  with cs p(2) rest show thesis by (intro that [of cs]) (simp_all add: state_path_def)
qed

lemma all_state_files:
  assumes "tidy_state env fs"
  shows "distinct (concat (map (state_files env fs) backup_roots))"
    "set (concat (map (state_files env fs) backup_roots)) =
       {p. map_of fs p \<noteq> None \<and> (\<exists>d \<in> set backup_roots. under (xr_state_dir env @ ''/'' @ d) p)}"
proof -
  note f = state_files_set [OF assms]
  show "set (concat (map (state_files env fs) backup_roots)) =
       {p. map_of fs p \<noteq> None \<and> (\<exists>d \<in> set backup_roots. under (xr_state_dir env @ ''/'' @ d) p)}" using f(1) by auto
  have r: "backup_roots = [''runs'', ''artifacts'']" "''runs'' \<in> set backup_roots" "''artifacts'' \<in> set backup_roots" by (simp_all add: backup_roots_def)
  have "apart (xr_state_dir env @ ''/'' @ ''runs'') (xr_state_dir env @ ''/'' @ ''artifacts'')"
    by (rule apart_comps [OF backup_root_comp backup_root_comp]) (simp_all add: backup_roots_def)
  then have "set (state_files env fs ''runs'') \<inter> set (state_files env fs ''artifacts'') = {}"
    using f(1) [OF r(2)] f(1) [OF r(3)] apart_in_path unfolding in_path_def by blast
  then show "distinct (concat (map (state_files env fs) backup_roots))" using f(2) [OF r(2)] f(2) [OF r(3)] by (simp add: r(1))
qed

lemma read_entries_shape:
  "read_entries env fs found = Inr es \<Longrightarrow>
     map fst es = map af_name found \<and> (\<forall>n c. (n, c) \<in> set es \<longleftrightarrow> (\<exists>x \<in> set found. n = af_name x \<and> read_file fs (af_source x) = Inr c)) \<and>
     map snd es = map (\<lambda>x. projr (read_file fs (af_source x))) found"
  by (induction found arbitrary: es) (auto simp: try_then_Inr_iff split: if_splits)

text \<open>The entries of an archive: names with their components, and contents.\<close>

lemma exported_entries:
  assumes tidy: "tidy_state env fs" and c: "collect_files env limit fs = Inr (found, amount)" and e: "read_entries env fs found = Inr es"
  shows "distinct (map fst es)" "sum_list (map (length \<circ> snd) es) = amount" "int (length es) \<le> maximumArchiveItems"
    "length es = length found"
    "\<And>n s. (n, s) \<in> set es \<Longrightarrow> \<exists>d \<in> set backup_roots. \<exists>cs. n = ''files/'' @ d @ ''/'' @ join_with ''/'' cs \<and> cs \<noteq> [] \<and> list_all plain_comp cs \<and>
       map_of fs (state_path env d (join_with ''/'' cs)) = Some (Regular s) \<and> \<not> contains_str (state_path env d (join_with ''/'' cs)) ''../''"
    "\<And>d rel. d \<in> set backup_roots \<Longrightarrow> map_of fs (state_path env d rel) \<noteq> None \<Longrightarrow>
       \<exists>s. map_of fs (state_path env d rel) = Some (Regular s) \<and> (''files/'' @ d @ ''/'' @ rel, s) \<in> set es"
proof -
  let ?F = "concat (map (state_files env fs) backup_roots)"
  obtain raw where raw: "collect_state_files env limit fs ?F [] 0 = Inr (raw, amount)" "found = sort_key af_name raw"
    using c by (auto simp: collect_files_def try_then_Inr_iff)
  from collect_state_files_shape [OF raw(1)] have src: "map af_source raw = ?F" "amount = sum_list (map af_size raw)"
    and few: "raw = [] \<or> int (length raw) \<le> maximumArchiveItems"
    and each: "\<And>x. x \<in> set raw \<Longrightarrow> \<exists>s rel. map_of fs (af_source x) = Some (Regular s) \<and> path_rel (xr_state_dir env) (af_source x) = Some rel \<and>
       af_name x = ''files/'' @ rel \<and> af_size x = length s" by auto
  note r = read_entries_shape [OF e]
  have perm: "mset found = mset raw" and fset: "set found = set raw" by (simp_all add: raw(2))
  have item: "\<exists>d cs s. d \<in> set backup_roots \<and> cs \<noteq> [] \<and> list_all plain_comp cs \<and> af_source x = state_path env d (join_with ''/'' cs) \<and>
      af_name x = ''files/'' @ d @ ''/'' @ join_with ''/'' cs \<and> map_of fs (af_source x) = Some (Regular s) \<and> af_size x = length s \<and>
      \<not> contains_str (af_source x) ''../''" if x: "x \<in> set raw" for x
  proof -
    have "af_source x \<in> set ?F" using src(1) x by (metis image_eqI list.set_map)
    then obtain d where d: "d \<in> set backup_roots" "map_of fs (af_source x) \<noteq> None" "under (xr_state_dir env @ ''/'' @ d) (af_source x)"
      using all_state_files(2) [OF tidy] by blast
    obtain cs where "af_source x = state_path env d (join_with ''/'' cs)" "cs \<noteq> []" "list_all plain_comp cs"
      "path_rel (xr_state_dir env) (af_source x) = Some (d @ ''/'' @ join_with ''/'' cs)" "\<not> contains_str (af_source x) ''../''"
      by (rule state_file_name [OF tidy d])
    with each [OF x] d(1) show ?thesis by auto
  qed
  have source: "af_source x = xr_state_dir env @ ''/'' @ drop 6 (af_name x)" if "x \<in> set raw" for x
    using item [OF that] by (auto simp: state_path_def)
  have "distinct (map af_source raw)" using all_state_files(1) [OF tidy] src(1) by simp
  then have "distinct (map af_name raw)" unfolding distinct_map inj_on_def using source by metis
  then show "distinct (map fst es)" using r perm by (metis mset_eq_imp_distinct_iff mset_map)
  show len: "length es = length found" using r by (metis length_map)
  show "int (length es) \<le> maximumArchiveItems" using few len perm by (auto simp: raw(2) maximumArchiveItems_def)
  have "map (length \<circ> snd) es = map af_size found"
  proof -
    have "length (projr (read_file fs (af_source x))) = af_size x" if "x \<in> set found" for x
      using item [of x] that fset by (auto simp: read_file_def)
    moreover have "map length (map snd es) = map (\<lambda>x. length (projr (read_file fs (af_source x)))) found" using r by simp
    ultimately show ?thesis by simp
  qed
  then show "sum_list (map (length \<circ> snd) es) = amount" using src(2) perm by (metis mset_map sum_mset_sum_list)
  show "\<exists>d \<in> set backup_roots. \<exists>cs. n = ''files/'' @ d @ ''/'' @ join_with ''/'' cs \<and> cs \<noteq> [] \<and> list_all plain_comp cs \<and>
       map_of fs (state_path env d (join_with ''/'' cs)) = Some (Regular s) \<and> \<not> contains_str (state_path env d (join_with ''/'' cs)) ''../''"
    if ns: "(n, s) \<in> set es" for n s
  proof -
    obtain x where x: "x \<in> set raw" "n = af_name x" "read_file fs (af_source x) = Inr s" using r ns fset by auto
    obtain d cs u where d: "d \<in> set backup_roots" "cs \<noteq> []" "list_all plain_comp cs" "af_source x = state_path env d (join_with ''/'' cs)"
      "af_name x = ''files/'' @ d @ ''/'' @ join_with ''/'' cs" "map_of fs (af_source x) = Some (Regular u)" "\<not> contains_str (af_source x) ''../''"
      using item [OF x(1)] by blast
    moreover have "u = s" using x(3) d(6) by (simp add: read_file_def)
    ultimately show ?thesis using x(2) by (intro bexI [of _ d] exI [of _ cs]) auto
  qed
  show "\<exists>s. map_of fs (state_path env d rel) = Some (Regular s) \<and> (''files/'' @ d @ ''/'' @ rel, s) \<in> set es"
    if d: "d \<in> set backup_roots" "map_of fs (state_path env d rel) \<noteq> None" for d rel
  proof -
    have "under (xr_state_dir env @ ''/'' @ d) (state_path env d rel)" by (auto simp: state_path_def under_iff)
    then have "state_path env d rel \<in> set ?F" using all_state_files(2) [OF tidy] d by blast
    then obtain x where x: "x \<in> set raw" "af_source x = state_path env d rel" using src(1) by (metis imageE list.set_map)
    obtain s where s: "map_of fs (af_source x) = Some (Regular s)" using item [OF x(1)] by blast
    have "drop 6 (af_name x) = d @ ''/'' @ rel" "take 6 (af_name x) = ''files/''"
      using source [OF x(1)] x(2) item [OF x(1)] by (auto simp: state_path_def)
    then have "af_name x = ''files/'' @ d @ ''/'' @ rel" by (metis append_take_drop_id)
    then show ?thesis using s x r fset by (auto simp: read_file_def intro!: exI [of _ s] bexI [of _ x])
  qed
qed

section \<open>What a restore makes of it\<close>

definition entry_of :: "string \<times> string \<Rightarrow> zip_entry" where
  "entry_of e = \<lparr>ze_name = fst e, ze_size = length (snd e), ze_plain = True, ze_content = Inr (snd e)\<rparr>"

definition staged_path :: "string \<Rightarrow> string \<Rightarrow> string" where
  "staged_path stage n = stage @ ''/'' @ drop 6 n"

text \<open>An entry of a state file, as an export writes it.\<close>

definition state_entry :: "string \<times> string \<Rightarrow> bool" where
  "state_entry e \<longleftrightarrow> (\<exists>d \<in> set backup_roots. \<exists>cs. fst e = ''files/'' @ d @ ''/'' @ join_with ''/'' cs \<and> cs \<noteq> [] \<and> list_all plain_comp cs) \<and>
     \<not> contains_str (fst e) ''../''"

lemma state_entry_safe:
  assumes "restore_layout env stage fs" "state_entry e"
  shows "\<not> unsafe_entry (entry_of e)" "path_join stage (trim_prefix (fst e) ''files/'') = staged_path stage (fst e)"
    "has_prefix (fst e) ''files/runs/'' \<or> has_prefix (fst e) ''files/artifacts/''" "fst e \<noteq> ''manifest.json''" "fst e \<noteq> ''records.json''"
    "in_path stage (staged_path stage (fst e))"
proof -
  obtain d cs where d: "d \<in> set backup_roots" "fst e = ''files/'' @ d @ ''/'' @ join_with ''/'' cs" "cs \<noteq> []" "list_all plain_comp cs"
    using assms(2) by (auto simp: state_entry_def)
  have j: "join_with ''/'' (d # cs) = d @ ''/'' @ join_with ''/'' cs" "join_with ''/'' (''files'' # d # cs) = fst e"
    using d(2,3) by (cases cs; simp)+
  have f: "plain_comp ''files''" by code_simp
  note rel = relative_comps [of "''files'' # d # cs"]
  have "path_clean (fst e) = fst e"
    using rel f d(4) backup_root_comp [OF d(1)] by (simp add: path_clean_def spell_def flip: j(2))
  then show safe: "\<not> unsafe_entry (entry_of e)" using assms(2) d(2) by (simp add: unsafe_entry_def entry_of_def state_entry_def has_prefix_def)
  have p: "has_prefix (ze_name (entry_of e)) (''files/'' @ d @ ''/'')" using d(2) by (simp add: entry_of_def has_prefix_iff)
  obtain ds where "fst e = ''files/'' @ d @ ''/'' @ join_with ''/'' ds"
    "path_join stage (trim_prefix (fst e) ''files/'') = stage @ ''/'' @ d @ ''/'' @ join_with ''/'' ds"
    using staged_target [OF assms(1) safe p d(1)] by (auto simp: entry_of_def)
  then show "path_join stage (trim_prefix (fst e) ''files/'') = staged_path stage (fst e)" by (simp add: staged_path_def)
  show "has_prefix (fst e) ''files/runs/'' \<or> has_prefix (fst e) ''files/artifacts/''"
    using d(1,2) by (auto simp: backup_roots_def has_prefix_iff)
  show "fst e \<noteq> ''manifest.json''" "fst e \<noteq> ''records.json''" using d(2) by auto
  show "in_path stage (staged_path stage (fst e))" by (auto simp: in_path_def under_iff staged_path_def)
qed

lemma restore_state_entries:
  assumes "restore_layout env stage fs" "\<And>operation p. \<not> refused env operation p"
    "\<forall>e \<in> set es. state_entry e" "distinct (map fst es)" "set (map fst es) \<inter> set (re_seen s) = {}"
    "int (re_expanded s + sum_list (map (length \<circ> snd) es)) \<le> uint limit"
    "\<forall>e \<in> set es. \<forall>p. in_path (staged_path stage (fst e)) p \<longrightarrow> map_of (re_files s) p = None"
    "\<forall>e \<in> set es. \<forall>e' \<in> set es. fst e \<noteq> fst e' \<longrightarrow> \<not> in_path (staged_path stage (fst e)) (staged_path stage (fst e'))"
  shows "\<exists>s'. restore_entries env z limit stage (map entry_of es) s = (s', Inr ()) \<and> re_manifest s' = re_manifest s \<and>
    re_archive s' = re_archive s \<and> set (re_seen s) \<subseteq> set (re_seen s') \<and>
    (\<forall>p. map_of (re_files s') p = (case map_of (map (\<lambda>e. (staged_path stage (fst e), Regular (snd e))) es) p of
       None \<Rightarrow> map_of (re_files s) p | Some x \<Rightarrow> Some x))"
  using assms(3-)
proof (induction es arbitrary: s)
  case Nil
  then show ?case by simp
next
  case (Cons e es)
  have "state_entry e" using Cons.prems(1) by simp
  note safe = state_entry_safe [OF assms(1) this]
  let ?t = "staged_path stage (fst e)"
  let ?s = "s\<lparr>re_seen := fst e # re_seen s, re_expanded := re_expanded s + length (snd e), re_files := map_put ?t (Regular (snd e)) (re_files s)\<rparr>"
  have "\<forall>p. in_path ?t p \<longrightarrow> map_of (re_files s) p = None" using Cons.prems(5) by simp
  then have free: "map_of (re_files s) ?t = None" "\<not> tree_found (re_files s) ?t" by (auto simp: in_path_def tree_found_map)
  have fits: "\<not> uint limit - int (re_expanded s) < int (length (snd e))" using Cons.prems(4) by simp
  have unseen: "fst e \<notin> set (re_seen s)" using Cons.prems(3) by simp
  have step: "restore_entry env z limit stage (entry_of e) s = Inr ?s"
    using safe(1-5) free fits unseen assms(2)
    by (simp add: restore_entry_def entry_of_def extract_entry_def Let_def)
  have put: "map_of (re_files ?s) p = None" if "e' \<in> set es" "in_path (staged_path stage (fst e')) p" for e' p
  proof -
    have "fst e' \<noteq> fst e" using Cons.prems(2) that(1) by (metis distinct.simps(2) image_eqI list.set_map list.simps(9))
    then have "\<not> in_path (staged_path stage (fst e')) ?t" using Cons.prems(6) that(1) by simp
    with that Cons.prems(5) show ?thesis by auto
  qed
  have "\<exists>s'. restore_entries env z limit stage (map entry_of es) ?s = (s', Inr ()) \<and> re_manifest s' = re_manifest ?s \<and>
    re_archive s' = re_archive ?s \<and> set (re_seen ?s) \<subseteq> set (re_seen s') \<and>
    (\<forall>p. map_of (re_files s') p = (case map_of (map (\<lambda>e. (staged_path stage (fst e), Regular (snd e))) es) p of
       None \<Rightarrow> map_of (re_files ?s) p | Some x \<Rightarrow> Some x))"
    by (rule Cons.IH) (use Cons.prems put in auto)
  then obtain s' where s': "restore_entries env z limit stage (map entry_of es) ?s = (s', Inr ())" "re_manifest s' = re_manifest s"
    "re_archive s' = re_archive s" "set (re_seen s) \<subseteq> set (re_seen s')"
    "\<forall>p. map_of (re_files s') p = (case map_of (map (\<lambda>e. (staged_path stage (fst e), Regular (snd e))) es) p of
       None \<Rightarrow> map_of (re_files ?s) p | Some x \<Rightarrow> Some x)" by auto
  have "map_of (map (\<lambda>e. (staged_path stage (fst e), Regular (snd e))) es) ?t = None"
  proof (rule ccontr)
    assume "map_of (map (\<lambda>e. (staged_path stage (fst e), Regular (snd e))) es) ?t \<noteq> None"
    then obtain e' where e': "e' \<in> set es" "staged_path stage (fst e') = ?t" by (auto simp: map_of_eq_None_iff)
    then have "fst e' \<noteq> fst e" using Cons.prems(2) by (metis distinct.simps(2) image_eqI list.set_map list.simps(9))
    with Cons.prems(6) e' show False by (auto simp: in_path_def)
  qed
  then have "map_of (re_files s') p = (case map_of (map (\<lambda>e. (staged_path stage (fst e), Regular (snd e))) (e # es)) p of
       None \<Rightarrow> map_of (re_files s) p | Some x \<Rightarrow> Some x)" for p
    using spec [OF s'(5), of p] by (cases "p = ?t") (simp_all split: option.splits)
  with s'(1-4) step show ?case by (intro exI [of _ s']) auto
qed

lemma promoted_trees:
  assumes "restore_layout env stage fs0" "set ds \<subseteq> set backup_roots" "distinct ds" "\<And>operation p. \<not> refused env operation p"
    "\<forall>d \<in> set ds. \<forall>p. in_path (xr_state_dir env @ ''/'' @ d) p \<longrightarrow> map_of fs p = None"
  shows "\<exists>fs' promoted'. promote_trees env stage ds promoted fs = (fs', promoted', Inr ()) \<and>
    (\<forall>d \<in> set ds. subtree fs' (xr_state_dir env @ ''/'' @ d) = subtree fs (stage @ ''/'' @ d)) \<and>
    (\<forall>p. (\<forall>d \<in> set ds. \<not> in_path (xr_state_dir env @ ''/'' @ d) p \<and> \<not> in_path (stage @ ''/'' @ d) p) \<longrightarrow> map_of fs' p = map_of fs p)"
  using assms(2,3,5)
proof (induction ds arbitrary: promoted fs)
  case Nil
  then show ?case by simp
next
  case (Cons d ds)
  let ?S = "\<lambda>d. xr_state_dir env @ ''/'' @ d" and ?G = "\<lambda>d. stage @ ''/'' @ d"
  have d: "d \<in> set backup_roots" "d \<notin> set ds" using Cons.prems(1,2) by auto
  note paths = layout_paths [OF assms(1) d(1)]
  have sub: "in_path stage (?G x)" for x by (auto simp: in_path_def under_iff)
  have far: "apart (?G x) (?S y)" if "y \<in> set backup_roots" for x y
  proof -
    note a = layout_apart(1) [OF assms(1) that]
    have "\<not> in_path (?S y) (?G x)" using apart_in_path [OF a sub] by simp
    moreover have "\<not> in_path (?G x) (?S y)" using a in_path_trans [OF sub] by (auto simp: apart_def in_path_def)
    ultimately show ?thesis by (auto simp: apart_def in_path_def)
  qed
  have fd: "apart (?G d) (?S d)" by (rule far [OF d(1)])
  have farS: "apart (?S x) (?S d)" "apart (?G x) (?G d)" if "x \<in> set ds" for x
    using that d Cons.prems(1) layout_apart(2) [OF assms(1) d(1), of x] apart_comps [OF backup_root_comp backup_root_comp, of x d stage] by auto
  have clear: "map_of fs (?S d) = None" "\<not> tree_found fs (?S d)"
    using Cons.prems(3) by (auto simp: in_path_def tree_found_map)
  let ?fs = "if tree_found fs (?G d) then move_tree (?G d) (?S d) fs else fs"
  let ?promoted = "if tree_found fs (?G d) then promoted @ [?S d] else promoted"
  have step: "promote_trees env stage (d # ds) promoted fs = promote_trees env stage ds ?promoted ?fs"
    using clear assms(4) unfolding promote_trees.simps Let_def paths(1,2) by simp
  have moved: "subtree ?fs (?S d) = subtree fs (?G d)"
  proof (cases "tree_found fs (?G d)")
    case True
    then show ?thesis using move_subtree(1) [OF far [OF d(1)] clear(2)] by simp
  next
    case False
    then have "subtree fs (?G d) = (\<lambda>_. None)" "subtree fs (?S d) = (\<lambda>_. None)" using clear(2) by (auto simp: subtree_found)
    with False show ?thesis by simp
  qed
  have kept: "map_of ?fs p = map_of fs p" if "\<not> in_path (?S d) p" "\<not> in_path (?G d) p" for p
    using that move_subtree(4) [OF fd clear(2), of p] by (auto simp: in_path_def)
  have apart_kept: "map_of ?fs p = map_of fs p" if "x \<in> set ds" "in_path (?S x) p \<or> in_path (?G x) p" for x p
  proof (rule kept)
    have x: "x \<in> set backup_roots" using that(1) Cons.prems(1) by auto
    show "\<not> in_path (?S d) p" using that(2) apart_in_path [OF farS(1) [OF that(1)]] apart_in_path [OF far [OF d(1)]] by blast
    show "\<not> in_path (?G d) p"
      using that(2) apart_in_path [OF apart_sym [OF far [OF x]]] apart_in_path [OF farS(2) [OF that(1)]] by blast
  qed
  have "\<forall>x \<in> set ds. \<forall>p. in_path (?S x) p \<longrightarrow> map_of ?fs p = None" using apart_kept Cons.prems(3) by auto
  with Cons.IH [of ?fs ?promoted] Cons.prems(1,2) obtain fs' promoted' where
    rest: "promote_trees env stage ds ?promoted ?fs = (fs', promoted', Inr ())"
    "\<forall>x \<in> set ds. subtree fs' (?S x) = subtree ?fs (?G x)"
    "\<forall>p. (\<forall>x \<in> set ds. \<not> in_path (?S x) p \<and> \<not> in_path (?G x) p) \<longrightarrow> map_of fs' p = map_of ?fs p" by auto
  have "subtree fs' (?S x) = subtree fs (?G x)" if "x \<in> set ds" for x
  proof -
    have "map_of ?fs (?G x @ ''/'' @ rel) = map_of fs (?G x @ ''/'' @ rel)" for rel
      by (rule apart_kept [OF that]) (auto simp: in_path_def under_iff)
    with rest(2) that show ?thesis by (auto simp: subtree_def)
  qed
  moreover have "subtree fs' (?S d) = subtree fs (?G d)"
  proof -
    have "map_of fs' (?S d @ ''/'' @ rel) = map_of ?fs (?S d @ ''/'' @ rel)" for rel
    proof -
      have i: "in_path (?S d) (?S d @ ''/'' @ rel)" by (auto simp: in_path_def under_iff)
      then show ?thesis
        using rest(3) apart_in_path [OF apart_sym [OF farS(1)] i] apart_in_path [OF apart_sym [OF far [OF d(1)]] i] by blast
    qed
    then have "subtree fs' (?S d) = subtree ?fs (?S d)" unfolding subtree_def by (intro ext)
    with moved show ?thesis by (rule trans [rotated])
  qed
  moreover have "map_of fs' p = map_of fs p" if "\<forall>x \<in> set (d # ds). \<not> in_path (?S x) p \<and> \<not> in_path (?G x) p" for p
    using that rest(3) kept by simp
  ultimately show ?case using step rest(1) by auto
qed

section \<open>The round trip\<close>

lemma exported_parts:
  assumes "plan_export env z now q st = Inr (limit, a, found, path)" "export_backup env z now q st = (st1, Inr r)"
  obtains amount es where "export_records (xr_id env) (xr_id env) 100000 (rn_db st) = Inr a" "collect_files env limit (rn_files st) = Inr (found, amount)"
    "read_entries env (rn_files st) found = Inr es"
    "map_of (rn_files st1) path = Some (Regular (bc_pack z ([(''manifest.json'', bc_manifest z (manifest_of a now (length found))),
       (''records.json'', bc_archive z a)] @ es)))"
    "bp_bytes r = length (bc_pack z ([(''manifest.json'', bc_manifest z (manifest_of a now (length found))), (''records.json'', bc_archive z a)] @ es))"
proof -
  have "nat maximumArchiveItems = 100000" by (simp add: maximumArchiveItems_def)
  with assms(1) obtain amount where p: "export_records (xr_id env) (xr_id env) 100000 (rn_db st) = Inr a"
    "collect_files env limit (rn_files st) = Inr (found, amount)"
    by (auto simp: plan_export_def try_then_Inr_iff split: if_splits)
  obtain es where e: "read_entries env (rn_files st) found = Inr es"
    using assms by (cases "read_entries env (rn_files st) found") (auto simp: export_backup_def split: if_splits)
  show thesis
    by (rule that [OF p e]) (use assms e in \<open>auto simp: export_backup_def Let_def split: if_splits\<close>)
qed

lemma exported_state_entry:
  assumes "tidy_state env fs" "collect_files env limit fs = Inr (found, amount)" "read_entries env fs found = Inr es" "e \<in> set es"
  shows "state_entry e"
proof -
  obtain d cs where d: "d \<in> set backup_roots" "fst e = ''files/'' @ d @ ''/'' @ join_with ''/'' cs" "cs \<noteq> []" "list_all plain_comp cs"
    and safe: "\<not> contains_str (state_path env d (join_with ''/'' cs)) ''../''"
    using exported_entries(5) [OF assms(1-3), of "fst e" "snd e"] assms(4) by auto
  have "\<not> contains_str (fst e) ''../''"
  proof
    assume "contains_str (fst e) ''../''"
    then obtain u v where uv: "fst e = u @ ''../'' @ v" by (auto simp: contains_str_iff)
    let ?rel = "d @ ''/'' @ join_with ''/'' cs"
    have split: "''files/'' @ ?rel = u @ ''../'' @ v" using uv d(2) by simp
    have long: "6 \<le> length u"
    proof (rule ccontr)
      assume "\<not> 6 \<le> length u"
      then have u: "length u < 6" by simp
      then have "(''files/'' @ ?rel) ! length u = ''files/'' ! length u" by (intro nth_append_left) simp
      moreover have "(u @ ''../'' @ v) ! length u = CHR ''.''" by simp
      ultimately have "''files/'' ! length u = CHR ''.''" using split by metis
      moreover have "''files/'' ! k \<noteq> CHR ''.''" if "k < 6" for k
        using that by (auto simp: less_Suc_eq numeral_eq_Suc)
      ultimately show False using u by blast
    qed
    have "?rel = drop 6 (u @ ''../'' @ v)" using arg_cong [OF split, of "drop 6"] by simp
    also have "\<dots> = drop 6 u @ ''../'' @ v" using long by simp
    finally have "state_path env d (join_with ''/'' cs) = (xr_state_dir env @ ''/'' @ drop 6 u) @ ''../'' @ v" by (simp add: state_path_def)
    then have "contains_str (state_path env d (join_with ''/'' cs)) ''../''" unfolding contains_str_iff by (intro exI)
    with safe show False by simp
  qed
  with d show ?thesis unfolding state_entry_def by blast
qed

lemma staged_lookup:
  assumes "tidy_state env fs" "collect_files env limit fs = Inr (found, amount)" "read_entries env fs found = Inr es" "d \<in> set backup_roots"
  shows "map_of (map (\<lambda>e. (staged_path stage (fst e), Regular (snd e))) es) (stage @ ''/'' @ d @ ''/'' @ rel) = map_of fs (state_path env d rel)"
    (is "map_of ?m ?p = _")
proof -
  note x = exported_entries [OF assms(1-3)]
  have name: "n = ''files/'' @ d @ ''/'' @ rel" if "(n, s) \<in> set es" "staged_path stage n = ?p" for n s
    using x(5) [OF that(1)] that(2) by (auto simp: staged_path_def)
  have dist: "distinct (map fst ?m)"
  proof -
    have "staged_path stage (fst e) = staged_path stage (fst e') \<longrightarrow> fst e = fst e'" if "e \<in> set es" "e' \<in> set es" for e e'
      using x(5) [of "fst e" "snd e"] x(5) [of "fst e'" "snd e'"] that by (auto simp: staged_path_def)
    with x(1) show ?thesis by (auto simp: distinct_map inj_on_def)
  qed
  show ?thesis
  proof (cases "map_of fs (state_path env d rel)")
    case None
    have "?p \<notin> fst ` set ?m"
    proof
      assume "?p \<in> fst ` set ?m"
      then obtain n s where ns: "(n, s) \<in> set es" "staged_path stage n = ?p" by auto
      obtain d' cs where c: "n = ''files/'' @ d' @ ''/'' @ join_with ''/'' cs" "map_of fs (state_path env d' (join_with ''/'' cs)) = Some (Regular s)"
        using x(5) [OF ns(1)] by blast
      with name [OF ns] None show False by (simp add: state_path_def)
    qed
    then have "map_of ?m ?p = None" unfolding map_of_eq_None_iff .
    with None show ?thesis by (rule trans [rotated, OF sym])
  next
    case (Some y)
    then obtain s where s: "y = Regular s" "(''files/'' @ d @ ''/'' @ rel, s) \<in> set es" using x(6) [OF assms(4), of rel] by auto
    then have "(?p, Regular s) \<in> set ?m" by (force simp: staged_path_def)
    then show ?thesis using dist s(1) Some by (simp add: map_of_eq_Some_iff)
  qed
qed

text \<open>The two first entries.\<close>

lemma restore_head:
  assumes "bc_read_manifest z (bc_manifest z m) = Some m" "bc_read_archive z (bc_archive z a) = Some a"
    "length (bc_manifest z m) \<le> 64 * 1024" "int (length (bc_manifest z m) + length (bc_archive z a)) \<le> uint limit"
  shows "restore_entries env z limit stage (map entry_of ([(''manifest.json'', bc_manifest z m), (''records.json'', bc_archive z a)] @ es))
      \<lparr>re_seen = [], re_expanded = 0, re_manifest = blank_manifest, re_archive = blank_archive, re_files = fs\<rparr> =
    restore_entries env z limit stage (map entry_of es)
      \<lparr>re_seen = [''records.json'', ''manifest.json''], re_expanded = length (bc_manifest z m) + length (bc_archive z a),
       re_manifest = m, re_archive = a, re_files = fs\<rparr>"
proof -
  have safe: "path_clean ''manifest.json'' = ''manifest.json''" "path_clean ''records.json'' = ''records.json''"
    "\<not> contains_str ''manifest.json'' ''../''" "\<not> contains_str ''records.json'' ''../''"
    "\<not> has_prefix ''manifest.json'' ''/''" "\<not> has_prefix ''records.json'' ''/''" by code_simp+
  have n: "take (nat (64 * 1024 + 1)) (bc_manifest z m) = bc_manifest z m" using assms(3) by simp
  have k: "take (nat (uint limit + 1)) (bc_archive z a) = bc_archive z a" using assms(4) by simp
  have u: "\<not> unsafe_entry (entry_of (''manifest.json'', s))" "\<not> unsafe_entry (entry_of (''records.json'', s))" for s
    using safe by (simp_all add: unsafe_entry_def entry_of_def)
  let ?s0 = "\<lparr>re_seen = [], re_expanded = 0, re_manifest = blank_manifest, re_archive = blank_archive, re_files = fs\<rparr>"
  let ?s1 = "\<lparr>re_seen = [''manifest.json''], re_expanded = length (bc_manifest z m), re_manifest = m, re_archive = blank_archive, re_files = fs\<rparr>"
  have "decode_entry (bc_read_manifest z) (entry_of (''manifest.json'', bc_manifest z m)) (64 * 1024) = Inr m"
    using assms(1,3) n by (simp add: decode_entry_def entry_of_def)
  then have first: "restore_entry env z limit stage (entry_of (''manifest.json'', bc_manifest z m)) ?s0 = Inr ?s1"
    using u(1) assms(4) unfolding restore_entry_def Let_def by (simp add: entry_of_def)
  have "decode_entry (bc_read_archive z) (entry_of (''records.json'', bc_archive z a)) (uint limit) = Inr a"
    using assms(2,4) k by (simp add: decode_entry_def entry_of_def)
  then have second: "restore_entry env z limit stage (entry_of (''records.json'', bc_archive z a)) ?s1 =
     Inr \<lparr>re_seen = [''records.json'', ''manifest.json''], re_expanded = length (bc_manifest z m) + length (bc_archive z a),
       re_manifest = m, re_archive = a, re_files = fs\<rparr>"
    using u(2) assms(4) unfolding restore_entry_def Let_def by (simp add: entry_of_def)
  show ?thesis by (simp add: first second)
qed

lemma staged_apart:
  assumes "tidy_state env fs" "collect_files env limit fs = Inr (found, amount)" "read_entries env fs found = Inr es"
    "e \<in> set es" "e' \<in> set es" "fst e \<noteq> fst e'"
  shows "\<not> in_path (staged_path stage (fst e)) (staged_path stage (fst e'))"
proof
  assume inside: "in_path (staged_path stage (fst e)) (staged_path stage (fst e'))"
  note x = exported_entries(5) [OF assms(1-3)]
  obtain d cs where e: "fst e = ''files/'' @ d @ ''/'' @ join_with ''/'' cs" "map_of fs (state_path env d (join_with ''/'' cs)) \<noteq> None"
    using x [of "fst e" "snd e"] assms(4) by auto
  obtain d' cs' where e': "fst e' = ''files/'' @ d' @ ''/'' @ join_with ''/'' cs'" "map_of fs (state_path env d' (join_with ''/'' cs')) \<noteq> None"
    using x [of "fst e'" "snd e'"] assms(5) by auto
  have "under (staged_path stage (fst e)) (staged_path stage (fst e'))"
    using inside assms(6) e(1) e'(1) by (auto simp: in_path_def staged_path_def)
  then have "under (state_path env d (join_with ''/'' cs)) (state_path env d' (join_with ''/'' cs'))"
    by (auto simp: e(1) e'(1) staged_path_def state_path_def under_iff)
  then have "tree_found fs (state_path env d (join_with ''/'' cs))" using e'(2) by (auto simp: tree_found_map)
  moreover have "under (xr_state_dir env) (state_path env d (join_with ''/'' cs))" by (auto simp: state_path_def under_iff)
  ultimately show False using assms(1) e(2) unfolding tidy_state_def by blast
qed

text \<open>C32: What an export wrote is restored by any installation whose state directory is empty, as long as no file operation
  fails there and the byte limit of the restore covers the archive file and, expanded, the manifest, the records and the files
  together: the records of its database export the same archive again, rebased to the new owner, the run and artifact trees are
  exactly the old ones, and no other file changes. The limit of the export does not count the manifest, so the same limit may be
  too small.\<close>

theorem backup_round_trip:
  assumes "db_reachable (xr_json env) (rn_db st)" "tidy_state env (rn_files st)"
    "plan_export env z now q st = Inr (limit, a, found, path)" "export_backup env z now q st = (st1, Inr r)"
    "\<And>es. bc_unpack z (bc_pack z es) = Some (map entry_of es)" "bc_read_archive z (bc_archive z a) = Some a"
    "bc_read_manifest z (bc_manifest z (manifest_of a now (length found))) = Some (manifest_of a now (length found))"
    "restore_layout env' stage (rn_files st')" "rn_db st' = empty_db" "xr_json env' = xr_json env" "xr_id env' \<noteq> []"
    "\<And>d p. d \<in> set backup_roots \<Longrightarrow> in_path (xr_state_dir env' @ ''/'' @ d) p \<Longrightarrow> map_of (rn_files st') p = None"
    "\<And>operation p. \<not> refused env' operation p" "map_of (rn_files st') path' = map_of (rn_files st1) path"
    "backup_limit byte_limit = Inr limit'" "int (bp_bytes r) \<le> uint limit'"
    "length (bc_manifest z (manifest_of a now (length found))) \<le> 64 * 1024"
    "int (length (bc_manifest z (manifest_of a now (length found))) + length (bc_archive z a) + sum_list (map af_size found)) \<le> uint limit'"
  shows "\<exists>st2 r'. restore_backup env' z (Inr stage) path' byte_limit st' = (st2, Inr r') \<and>
    export_records (xr_id env') (xr_id env') 100000 (rn_db st2) = Inr (a\<lparr>av_records := map (rebase (xr_id env') (xr_id env')) (av_records a)\<rparr>) \<and>
    (\<forall>d \<in> set backup_roots. subtree (rn_files st2) (xr_state_dir env' @ ''/'' @ d) = subtree (rn_files st) (xr_state_dir env @ ''/'' @ d)) \<and>
    (\<forall>p. (\<forall>d \<in> set backup_roots. \<not> in_path (xr_state_dir env' @ ''/'' @ d) p) \<longrightarrow> map_of (rn_files st2) p = map_of (rn_files st') p)"
proof -
  let ?m = "manifest_of a now (length found)" and ?fs = "rn_files st" and ?S = "\<lambda>d. xr_state_dir env' @ ''/'' @ d"
  obtain amount es where a: "export_records (xr_id env) (xr_id env) 100000 (rn_db st) = Inr a" and c: "collect_files env limit ?fs = Inr (found, amount)"
    and e: "read_entries env ?fs found = Inr es"
    and packed: "map_of (rn_files st1) path = Some (Regular (bc_pack z ([(''manifest.json'', bc_manifest z ?m), (''records.json'', bc_archive z a)] @ es)))"
      "bp_bytes r = length (bc_pack z ([(''manifest.json'', bc_manifest z ?m), (''records.json'', bc_archive z a)] @ es))"
    by (rule exported_parts [OF assms(3,4)])
  let ?all = "[(''manifest.json'', bc_manifest z ?m), (''records.json'', bc_archive z a)] @ es"
  note x = exported_entries [OF assms(2) c e]
  have amount: "amount = sum_list (map af_size found)"
  proof -
    obtain raw where raw: "collect_state_files env limit ?fs (concat (map (state_files env ?fs) backup_roots)) [] 0 = Inr (raw, amount)"
      "found = sort_key af_name raw" using c by (auto simp: collect_files_def try_then_Inr_iff)
    have "amount = sum_list (map af_size raw)" using collect_state_files_shape [OF raw(1)] by auto
    moreover have "mset (map af_size found) = mset (map af_size raw)" by (simp add: raw(2))
    ultimately show ?thesis by (metis sum_mset_sum_list)
  qed
  have opened: "open_archive z limit' (rn_files st') path' = Inr (bc_pack z ?all, map entry_of ?all)"
    using packed assms(5,14,16) x(3) by (simp add: open_archive_def)
  let ?s = "\<lparr>re_seen = [''records.json'', ''manifest.json''], re_expanded = length (bc_manifest z ?m) + length (bc_archive z a),
       re_manifest = ?m, re_archive = a, re_files = rn_files st'\<rparr>"
  note inside = state_entry_safe(6) [OF assms(8) exported_state_entry [OF assms(2) c e]]
  have fresh: "map_of (rn_files st') p = None" if "in_path stage p" for p
    using that assms(8) by (auto simp: restore_layout_def in_path_def tree_found_map)
  have "\<exists>s'. restore_entries env' z limit' stage (map entry_of es) ?s = (s', Inr ()) \<and> re_manifest s' = re_manifest ?s \<and>
    re_archive s' = re_archive ?s \<and> set (re_seen ?s) \<subseteq> set (re_seen s') \<and>
    (\<forall>p. map_of (re_files s') p = (case map_of (map (\<lambda>e. (staged_path stage (fst e), Regular (snd e))) es) p of
       None \<Rightarrow> map_of (re_files ?s) p | Some x \<Rightarrow> Some x))"
  proof (rule restore_state_entries [OF assms(8,13)])
    show "\<forall>e \<in> set es. state_entry e" using exported_state_entry [OF assms(2) c e] by blast
    show "distinct (map fst es)" by (rule x(1))
    show "set (map fst es) \<inter> set (re_seen ?s) = {}"
    proof -
      have "fst e \<noteq> ''manifest.json'' \<and> fst e \<noteq> ''records.json''" if "e \<in> set es" for e
        using state_entry_safe(4,5) [OF assms(8) exported_state_entry [OF assms(2) c e that]] by blast
      then show ?thesis by fastforce
    qed
    show "int (re_expanded ?s + sum_list (map (length \<circ> snd) es)) \<le> uint limit'" using assms(18) x(2) amount by simp
    show "\<forall>e \<in> set es. \<forall>p. in_path (staged_path stage (fst e)) p \<longrightarrow> map_of (re_files ?s) p = None"
      using fresh [OF in_path_trans [OF inside]] by simp
    show "\<forall>e \<in> set es. \<forall>e' \<in> set es. fst e \<noteq> fst e' \<longrightarrow> \<not> in_path (staged_path stage (fst e)) (staged_path stage (fst e'))"
      using staged_apart [OF assms(2) c e] by blast
  qed
  then obtain s' where r': "restore_entries env' z limit' stage (map entry_of es) ?s = (s', Inr ())" "re_manifest s' = re_manifest ?s"
    "re_archive s' = re_archive ?s" "set (re_seen ?s) \<subseteq> set (re_seen s')"
    "\<forall>p. map_of (re_files s') p = (case map_of (map (\<lambda>e. (staged_path stage (fst e), Regular (snd e))) es) p of
       None \<Rightarrow> map_of (re_files ?s) p | Some x \<Rightarrow> Some x)" by (elim exE conjE) (rule that)
  note s' = r'(1) r'(2,3) [simplified] r'(4) [simplified] and lookup = r'(5) [unfolded restore_state.select_convs]
  have staged: "map_of (re_files s') p = map_of (rn_files st') p" if "\<not> in_path stage p" for p
    using restore_entries_outside [OF assms(8) s'(1) that] by simp
  have tree: "subtree (re_files s') (stage @ ''/'' @ d) = subtree ?fs (xr_state_dir env @ ''/'' @ d)" if d: "d \<in> set backup_roots" for d
  proof
    fix rel
    have "map_of (rn_files st') (stage @ ''/'' @ d @ ''/'' @ rel) = None" by (rule fresh) (auto simp: in_path_def under_iff)
    then have "map_of (re_files s') (stage @ ''/'' @ d @ ''/'' @ rel) = map_of ?fs (state_path env d rel)"
      using spec [OF lookup, of "stage @ ''/'' @ d @ ''/'' @ rel"] staged_lookup [OF assms(2) c e d, of stage rel] by (simp split: option.splits)
    then show "subtree (re_files s') (stage @ ''/'' @ d) rel = subtree ?fs (xr_state_dir env @ ''/'' @ d) rel"
      by (simp add: subtree_def state_path_def)
  qed
  have few: "length ?all = length found + 2" using x(4) by simp
  have matches: "\<not> manifest_mismatch s' (length (map entry_of ?all))"
    using s' few by (simp add: manifest_mismatch_def manifest_of_def Let_def)
  have roots: "distinct backup_roots" by (simp add: backup_roots_def)
  have empty: "\<forall>d \<in> set backup_roots. \<forall>p. in_path (?S d) p \<longrightarrow> map_of (re_files s') p = None"
    using assms(12) staged apart_in_path [OF apart_sym [OF layout_apart(1) [OF assms(8)]]] by auto
  from promoted_trees [OF assms(8) subset_refl roots assms(13) empty, of "[]"] obtain hs promoted where
    hs: "promote_trees env' stage backup_roots [] (re_files s') = (hs, promoted, Inr ())"
    "\<forall>d \<in> set backup_roots. subtree hs (?S d) = subtree (re_files s') (stage @ ''/'' @ d)"
    "\<forall>p. (\<forall>d \<in> set backup_roots. \<not> in_path (?S d) p \<and> \<not> in_path (stage @ ''/'' @ d) p) \<longrightarrow> map_of hs p = map_of (re_files s') p" by blast
  note inv = db_reachable_inv [OF assms(1)]
  have db: "restore_records (xr_json env') (xr_id env') (xr_id env') a (rn_db st') = (restored_db (xr_id env') (xr_id env') a, Inr ())"
    unfolding assms(9,10) by (rule restore_exported [OF inv a assms(11,11)])
  let ?st = "st'\<lparr>rn_db := restored_db (xr_id env') (xr_id env') a, rn_files := drop_tree stage hs\<rparr>"
  have run: "restore_entries env' z limit' stage (map entry_of ?all) \<lparr>re_seen = [], re_expanded = 0, re_manifest = blank_manifest,
      re_archive = blank_archive, re_files = rn_files st'\<rparr> = (s', Inr ())"
    by (rule trans [OF restore_head [OF assms(7,6,17)] s'(1)]) (use assms(18) in simp)
  have fin: "\<exists>r'. finish_restore env' path' bytes stage (length (map entry_of ?all)) s' st' = (?st, Inr r')" for bytes
    using matches hs(1) db by (simp add: finish_restore_def s'(3) remove_all_quiet [OF assms(13)])
  have "\<exists>r'. restore_backup env' z (Inr stage) path' byte_limit st' = (?st, Inr r')"
    using fin by (simp only: restore_backup_def assms(15) opened try_then.simps sum.case prod.case run)
  moreover have "subtree (drop_tree stage hs) (?S d) = subtree ?fs (xr_state_dir env @ ''/'' @ d)" if d: "d \<in> set backup_roots" for d
  proof -
    have "\<not> in_path stage (?S d @ ''/'' @ rel)" for rel
      using apart_in_path [OF apart_sym [OF layout_apart(1) [OF assms(8) d]]] by (auto simp: in_path_def under_iff)
    then have "subtree (drop_tree stage hs) (?S d) = subtree hs (?S d)"
      by (intro ext) (simp add: subtree_def drop_tree_lookup in_path_def)
    with hs(2) tree d show ?thesis by simp
  qed
  moreover have "map_of (drop_tree stage hs) p = map_of (rn_files st') p" if p: "\<forall>d \<in> set backup_roots. \<not> in_path (?S d) p" for p
  proof (cases "in_path stage p")
    case True
    then show ?thesis using fresh [OF True] by (auto simp: drop_tree_lookup in_path_def)
  next
    case False
    have "in_path stage (stage @ ''/'' @ d)" for d by (auto simp: in_path_def under_iff)
    then have "\<not> in_path (stage @ ''/'' @ d) p" for d using False in_path_trans by blast
    with hs(3) p staged [OF False] have "map_of hs p = map_of (rn_files st') p" by simp
    then show ?thesis using False by (simp add: drop_tree_lookup in_path_def)
  qed
  moreover note export_restored [OF inv a assms(11,11)]
  ultimately show ?thesis by auto
qed

end
