(* ===== verification/MemoryDemo.thy ===== *)
theory MemoryDemo
  imports MemoryBackup RunnerDemo
begin

text \<open>
  Instances of the promises of \<open>MemoryBackup\<close>: an archive of one record and one captured stream, restored by another
  installation, and a restore refused because the state directory is not empty.
\<close>

section \<open>A codec\<close>

text \<open>Entries as a text: every byte of a name or a content is marked, and both end with a dot.\<close>

definition marked :: "string \<Rightarrow> string" where
  "marked s = concat (map (\<lambda>c. [CHR ''x'', c]) s) @ ''.''"

fun unmark :: "string \<Rightarrow> string \<times> string" where
  "unmark (m # c # s) = (if m = CHR ''x'' then (case unmark s of (t, rest) \<Rightarrow> (c # t, rest)) else ([], c # s))"
| "unmark s = ([], [])"

lemma unmark_marked: "unmark (marked s @ rest) = (s, rest)"
proof (induction s)
  case Nil
  show ?case by (cases rest) (simp_all add: marked_def)
qed (simp add: marked_def)

definition demo_pack :: "(string \<times> string) list \<Rightarrow> string" where
  "demo_pack es = concat (map (\<lambda>(n, s). marked n @ marked s) es)"

fun demo_unpack :: "nat \<Rightarrow> string \<Rightarrow> (string \<times> string) list" where
  "demo_unpack 0 s = []"
| "demo_unpack (Suc k) s = (if s = [] then [] else
     case unmark s of (n, rest) \<Rightarrow> (case unmark rest of (c, rest') \<Rightarrow> (n, c) # demo_unpack k rest'))"

lemma demo_unpack_pack: "length es \<le> k \<Longrightarrow> demo_unpack k (demo_pack es) = es"
proof (induction es arbitrary: k)
  case Nil
  then show ?case by (cases k) (simp_all add: demo_pack_def)
next
  case (Cons e es)
  obtain n s where e: "e = (n, s)" by (rule prod.exhaust)
  obtain j where k: "k = Suc j" "length es \<le> j" using Cons.prems by (cases k) auto
  have p: "demo_pack ((n, s) # es) = marked n @ marked s @ demo_pack es" by (simp add: demo_pack_def)
  have "demo_pack ((n, s) # es) \<noteq> []" by (simp add: p marked_def)
  then show ?case using Cons.IH [OF k(2)] by (simp add: k(1) e) (simp add: p unmark_marked)
qed

lemma demo_pack_length: "length es \<le> length (demo_pack es)"
  by (induction es) (auto simp: demo_pack_def marked_def)

definition demo_zip_codec :: "archive \<Rightarrow> backup_manifest \<Rightarrow> backup_codec" where
  "demo_zip_codec a m = \<lparr>bc_archive = (\<lambda>_. ''archive''), bc_read_archive = (\<lambda>_. Some a), bc_manifest = (\<lambda>_. ''manifest''),
     bc_read_manifest = (\<lambda>_. Some m), bc_pack = demo_pack, bc_unpack = (\<lambda>s. Some (map entry_of (demo_unpack (length s) s))),
     bc_stamp = (\<lambda>_. ''t'')\<rparr>"

lemma demo_zip_codec_packs: "bc_unpack (demo_zip_codec a m) (bc_pack (demo_zip_codec a m) es) = Some (map entry_of es)"
  by (simp add: demo_zip_codec_def demo_unpack_pack [OF demo_pack_length])

section \<open>Two installations\<close>

definition demo_source :: runner_env where
  "demo_source = (demo_runner demo_plan)\<lparr>xr_json := demo_json\<rparr>"

definition demo_target :: runner_env where
  "demo_target = demo_source\<lparr>xr_id := ''w2'', xr_state_dir := ''/t''\<rparr>"

definition demo_memory :: record_db where
  "demo_memory = fst (create_memo demo_json (demo_m1\<lparr>du_project := ''w''\<rparr>) empty_db)"

definition demo_exporting :: runner_state where
  "demo_exporting = \<lparr>rn_db = demo_memory, rn_cache = [], rn_files = [(''/s/runs/r/stdout.log'', Regular ''out'')], rn_running = []\<rparr>"

definition demo_archive :: archive where
  "demo_archive = \<lparr>av_records = exported_records ''w'' ''w'' demo_memory, av_revisions = exported_revisions ''w'' ''w'' demo_memory,
     av_imports = exported_imports ''w'' ''w'' demo_memory\<rparr>"

definition demo_backup :: backup_codec where
  "demo_backup = demo_zip_codec demo_archive (manifest_of demo_archive 7 1)"

definition demo_backup_request :: backup_request where
  "demo_backup_request = \<lparr>br_destination = ''/b'', br_byte_limit = 0\<rparr>"

definition demo_importing :: "file_node \<Rightarrow> runner_state" where
  "demo_importing backup = \<lparr>rn_db = empty_db, rn_cache = [], rn_files = [(''/b/m.zip'', backup)], rn_running = []\<rparr>"

lemma demo_records: "export_records ''w'' ''w'' 100000 demo_memory = Inr demo_archive" "map du_id (av_records demo_archive) = [''m1'']"
proof -
  have "archive_size demo_archive = 2" by code_simp
  then show "export_records ''w'' ''w'' 100000 demo_memory = Inr demo_archive"
    by (simp add: export_records_def demo_archive_def)
  show "map du_id (av_records demo_archive) = [''m1'']" by code_simp
qed

lemma demo_collected:
  "collect_files demo_source (1024 * 1024 * 1024) (rn_files demo_exporting) =
     Inr ([\<lparr>af_source = ''/s/runs/r/stdout.log'', af_name = ''files/runs/r/stdout.log'', af_size = 3\<rparr>], 3)"
  "validate_destination demo_source ''/b'' = Inr ''/b''"
  "path_join ''/b'' ''repoplane-memory-t.zip'' = ''/b/repoplane-memory-t.zip''"
  by code_simp+

lemma demo_planned:
  "plan_export demo_source demo_backup 7 demo_backup_request demo_exporting = Inr (1024 * 1024 * 1024, demo_archive,
     [\<lparr>af_source = ''/s/runs/r/stdout.log'', af_name = ''files/runs/r/stdout.log'', af_size = 3\<rparr>], ''/b/repoplane-memory-t.zip'')"
proof -
  have id: "xr_id demo_source = ''w''" "rn_db demo_exporting = demo_memory" "begin_memory_snapshot demo_exporting = Inr ()"
    by (simp_all add: demo_source_def demo_runner_def demo_exporting_def begin_memory_snapshot_def)
  have c: "bc_archive demo_backup demo_archive = ''archive''" "bc_stamp demo_backup 7 = ''t''" by (simp_all add: demo_backup_def demo_zip_codec_def)
  have n: "nat maximumArchiveItems = 100000" by (simp add: maximumArchiveItems_def)
  have b: "backup_limit (br_byte_limit demo_backup_request) = Inr (1024 * 1024 * 1024)" "br_destination demo_backup_request = ''/b''"
    by (simp_all add: backup_limit_def demo_backup_request_def defaultByteLimit_def)
  show ?thesis
    unfolding plan_export_def b id n demo_records(1) demo_collected(2) try_then.simps sum.case demo_collected(1) prod.case c
    using demo_collected(3) by simp
qed

definition demo_packed :: string where
  "demo_packed = demo_pack [(''manifest.json'', ''manifest''), (''records.json'', ''archive''), (''files/runs/r/stdout.log'', ''out'')]"

lemma demo_exported_file:
  "export_backup demo_source demo_backup 7 demo_backup_request demo_exporting =
     (demo_exporting\<lparr>rn_files := map_put ''/b/repoplane-memory-t.zip'' (Regular demo_packed) (rn_files demo_exporting)\<rparr>,
      Inr \<lparr>bp_status = ''ok'', bp_name = ''repoplane-memory-t.zip'', bp_bytes = length demo_packed,
        bp_sha = ''sha256:'' @ xr_sha demo_source demo_packed, bp_records = 1, bp_revisions = 1, bp_files = 1, bp_portable = True\<rparr>)"
proof -
  have absent: "map_of (rn_files demo_exporting) ''/b/repoplane-memory-t.zip'' = None" by (simp add: demo_exporting_def)
  have quiet: "\<not> refused demo_source x y" for x y by (simp add: refused_def demo_source_def demo_runner_def)
  have entries: "read_entries demo_source (rn_files demo_exporting)
      [\<lparr>af_source = ''/s/runs/r/stdout.log'', af_name = ''files/runs/r/stdout.log'', af_size = 3\<rparr>] = Inr [(''files/runs/r/stdout.log'', ''out'')]"
    using quiet by (simp add: demo_exporting_def read_file_def)
  have codec: "bc_manifest demo_backup m = ''manifest''" "bc_archive demo_backup a = ''archive''" "bc_pack demo_backup = demo_pack" for m a
    by (simp_all add: demo_backup_def demo_zip_codec_def)
  have len: "length (av_records demo_archive) = 1" "length (av_revisions demo_archive) = 1" "length demo_packed < 1000"
    "path_base ''/b/repoplane-memory-t.zip'' = ''repoplane-memory-t.zip''" by code_simp+
  show ?thesis
    unfolding export_backup_def demo_planned sum.case prod.case Let_def entries
    using absent quiet codec len by (simp add: manifest_of_def flip: demo_packed_def)
qed

section \<open>The promises at these installations\<close>

lemma demo_memory_reachable: "db_reachable demo_json demo_memory"
  unfolding demo_memory_def by (rule db_reachable.memo [OF db_reachable.empty])

lemma demo_source_tidy: "tidy_state demo_source (rn_files demo_exporting)"
proof -
  have "path_clean ''/s'' = ''/s''" "path_clean ''/s/runs/r/stdout.log'' = ''/s/runs/r/stdout.log''" "is_abs ''/s''"
    "\<not> contains_str ''/s/runs/r/stdout.log'' ''../''" "\<not> tree_found [(''/s/runs/r/stdout.log'', Regular ''out'')] ''/s/runs/r/stdout.log''"
    by code_simp+
  then show ?thesis
    unfolding tidy_state_def by (simp add: demo_source_def demo_runner_def demo_exporting_def wf_map_def backup_roots_def)
qed

lemma demo_target_layout: "restore_layout demo_target ''/t/.restore'' (rn_files (demo_importing backup))"
proof -
  have "path_clean ''/t'' = ''/t''" "is_abs ''/t''" by code_simp+
  moreover have "\<not> tree_found (rn_files (demo_importing backup)) ''/t/.restore''"
    by (simp add: tree_found_map demo_importing_def under_def has_prefix_def)
  moreover have "plain_comp ''.restore''" by (simp add: plain_comp_def is_comp_def)
  ultimately show ?thesis
    unfolding restore_layout_def by (simp add: demo_target_def demo_importing_def backup_roots_def)
qed

lemma demo_quiet: "\<not> refused demo_target operation p"
  by (simp add: refused_def demo_target_def demo_source_def demo_runner_def)

lemma demo_unfinished:
  "is_ok (snd (restore_backup demo_target demo_backup (Inr ''/t/.restore'') ''/b/m.zip'' 0
     (demo_importing (Regular (demo_pack [(''files/runs/a'', ''x'')]))))) = False"
  by code_simp

theorem failed_restore_changes_nothing_witness:
  "case restore_backup demo_target demo_backup (Inr ''/t/.restore'') ''/b/m.zip'' 0
       (demo_importing (Regular (demo_pack [(''files/runs/a'', ''x'')]))) of
     (st', out) \<Rightarrow> \<not> is_ok out \<and> rn_db st' = empty_db \<and>
       map_of (rn_files st') = map_of (rn_files (demo_importing (Regular (demo_pack [(''files/runs/a'', ''x'')]))))"
proof -
  let ?st = "demo_importing (Regular (demo_pack [(''files/runs/a'', ''x'')]))"
  obtain st' out where r: "restore_backup demo_target demo_backup (Inr ''/t/.restore'') ''/b/m.zip'' 0 ?st = (st', out)" by (rule prod.exhaust)
  with demo_unfinished obtain e where e: "out = Inl e" by (cases out) (simp_all add: r)
  have "rn_db ?st = empty_db" by (simp add: demo_importing_def)
  then show ?thesis
    using failed_restore_changes_nothing [OF demo_target_layout r [unfolded e]] demo_quiet by (simp add: r e fun_eq_iff)
qed

theorem backup_round_trip_witness:
  "case export_backup demo_source demo_backup 7 demo_backup_request demo_exporting of (st1, out) \<Rightarrow>
     (\<exists>st2 r'. restore_backup demo_target demo_backup (Inr ''/t/.restore'') ''/b/m.zip'' 0
        (demo_importing (the (map_of (rn_files st1) ''/b/repoplane-memory-t.zip''))) = (st2, Inr r') \<and>
      export_records ''w2'' ''w2'' 100000 (rn_db st2) =
        Inr (demo_archive\<lparr>av_records := map (rebase ''w2'' ''w2'') (av_records demo_archive)\<rparr>) \<and>
      map_of (rn_files st2) ''/t/runs/r/stdout.log'' = Some (Regular ''out''))"
proof -
  let ?st1 = "demo_exporting\<lparr>rn_files := map_put ''/b/repoplane-memory-t.zip'' (Regular demo_packed) (rn_files demo_exporting)\<rparr>"
  let ?st' = "demo_importing (Regular demo_packed)"
  have written: "map_of (rn_files ?st1) ''/b/repoplane-memory-t.zip'' = Some (Regular demo_packed)" by simp
  have codec: "bc_read_archive demo_backup (bc_archive demo_backup demo_archive) = Some demo_archive"
    "length (bc_manifest demo_backup m) = 8" "length (bc_archive demo_backup demo_archive) = 7"
    "bc_read_manifest demo_backup (bc_manifest demo_backup (manifest_of demo_archive 7 1)) = Some (manifest_of demo_archive 7 1)" for m
    by (simp_all add: demo_backup_def demo_zip_codec_def)
  have env: "xr_json demo_source = demo_json" "xr_json demo_target = demo_json" "xr_id demo_target = ''w2''"
    "xr_state_dir demo_target = ''/t''" "xr_state_dir demo_source = ''/s''" by (simp_all add: demo_target_def demo_source_def demo_runner_def)
  have len: "length demo_packed < 1000" by code_simp
  have bl: "backup_limit 0 = Inr (1024 * 1024 * 1024)" by (simp add: backup_limit_def defaultByteLimit_def)
  have empty: "map_of (rn_files ?st') p = None" if "in_path (''/t'' @ ''/'' @ d) p" for d p
    using that by (auto simp: demo_importing_def in_path_def under_iff)
  have "\<exists>st2 r'. restore_backup demo_target demo_backup (Inr ''/t/.restore'') ''/b/m.zip'' 0 ?st' = (st2, Inr r') \<and>
    export_records (xr_id demo_target) (xr_id demo_target) 100000 (rn_db st2) =
      Inr (demo_archive\<lparr>av_records := map (rebase (xr_id demo_target) (xr_id demo_target)) (av_records demo_archive)\<rparr>) \<and>
    (\<forall>d \<in> set backup_roots. subtree (rn_files st2) (xr_state_dir demo_target @ ''/'' @ d) =
       subtree (rn_files demo_exporting) (xr_state_dir demo_source @ ''/'' @ d)) \<and>
    (\<forall>p. (\<forall>d \<in> set backup_roots. \<not> in_path (xr_state_dir demo_target @ ''/'' @ d) p) \<longrightarrow>
       map_of (rn_files st2) p = map_of (rn_files ?st') p)"
    by (rule backup_round_trip [OF _ demo_source_tidy demo_planned demo_exported_file _ codec(1) _ demo_target_layout _ _ _ _ demo_quiet _ bl])
      (use demo_memory_reachable codec env len empty in
        \<open>simp_all add: demo_exporting_def demo_importing_def demo_backup_def demo_zip_codec_packs\<close>)
  then obtain st2 r' where st2: "restore_backup demo_target demo_backup (Inr ''/t/.restore'') ''/b/m.zip'' 0 ?st' = (st2, Inr r')"
    "export_records ''w2'' ''w2'' 100000 (rn_db st2) = Inr (demo_archive\<lparr>av_records := map (rebase ''w2'' ''w2'') (av_records demo_archive)\<rparr>)"
    "subtree (rn_files st2) ''/t/runs'' = subtree (rn_files demo_exporting) ''/s/runs''"
    unfolding env by (elim exE conjE) (rule that, assumption, assumption, simp add: backup_roots_def)
  have "map_of (rn_files st2) ''/t/runs/r/stdout.log'' = Some (Regular ''out'')"
    using fun_cong [OF st2(3), of "''r/stdout.log''"] by (simp add: subtree_def demo_exporting_def)
  then show ?thesis unfolding demo_exported_file prod.case written option.sel using st2(1,2) by blast
qed

end
