(* ===== verification/AuditUsage.thy ===== *)
theory AuditUsage
  imports Contracts "HOL-Library.Product_Lexorder" "HOL-Library.List_Lexorder" "HOL-Library.Char_ord"
begin

text \<open>
  \<open>internal/store/sqlite/audit.go\<close>, \<open>internal/store/sqlite/usage.go\<close> and \<open>internal/usage/report.go\<close>: the table of audited HTTP
  requests and the daily counters of tool calls with their report. A table is the list of its rows in the order of their
  insertion; opening the files and the SQL driver are not modelled, a refusing database is a field \<open>fault\<close>.
\<close>

section \<open>Audited requests\<close>

record audit_event =
  av_id :: string
  av_principal :: string
  av_workspace :: string
  av_method :: string
  av_tool :: string
  av_operation :: string
  av_decision :: string
  av_status :: string
  av_request :: u64
  av_response :: u64
  av_started :: string
  av_completed :: string

type_synonym audit_db = "audit_event list"

text \<open>Times are stored as text in the form \<open>RFC3339Nano\<close>. The statements of one transaction: the row is inserted, then
  the 256 oldest rows go when there are more than 100000.\<close>

definition admit_audit :: "go_error option \<Rightarrow> audit_event \<Rightarrow> audit_db \<Rightarrow> audit_db \<times> (go_error + unit)" where
  "admit_audit fault e db =
     (case fault of
        Some x \<Rightarrow> (db, Inl (Wrap ''write audit admission'' x))
      | None \<Rightarrow>
          if av_id e \<in> av_id ` set db then (db, Inl (Wrap ''write audit admission'' (Text ''UNIQUE constraint failed'')))
          else let db1 = db @ [e\<lparr>av_response := 0, av_completed := []\<rparr>];
                   oldest = map av_id (take 256 (sort_key (\<lambda>r. (av_started r, av_id r)) db1))
               in (if 100000 < int (length db1) then filter (\<lambda>r. \<not> List.member oldest (av_id r)) db1 else db1, Inr ()))"

definition resolve_audit_operation :: "string \<Rightarrow> string \<Rightarrow> audit_db \<Rightarrow> audit_db \<times> (go_error + unit)" where
  "resolve_audit_operation i operation db =
     (if \<exists>r \<in> set db. av_id r = i \<and> av_operation r = []
      then (map (\<lambda>r. if av_id r = i \<and> av_operation r = [] then r\<lparr>av_operation := operation\<rparr> else r) db, Inr ())
      else (db, Inl (Text ''resolve audit operation: request not found or already resolved'')))"

definition complete_audit :: "string \<Rightarrow> string \<Rightarrow> u64 \<Rightarrow> string \<Rightarrow> audit_db \<Rightarrow> audit_db \<times> (go_error + unit)" where
  "complete_audit i status bytes completed db =
     (if \<exists>r \<in> set db. av_id r = i
      then (map (\<lambda>r. if av_id r = i then r\<lparr>av_status := status, av_response := bytes, av_completed := completed\<rparr> else r) db, Inr ())
      else (db, Inl (Sentinel StoreNotFound)))"

definition delete_expired_audit :: "string \<Rightarrow> u64 \<Rightarrow> audit_db \<Rightarrow> audit_db \<times> (go_error + u64)" where
  "delete_expired_audit before limit db =
     (if limit = 0 \<or> 256 < limit then (db, Inl (Text ''audit deletion limit must be 1..256''))
      else let gone = map av_id (take (unat limit) (sort_key av_started (filter (\<lambda>r. av_started r < before) db)))
           in (filter (\<lambda>r. \<not> List.member gone (av_id r)) db, Inr (of_nat (length gone))))"

lemma admitted_present:
  assumes "admit_audit fault e db = (db', Inr u)" "int (length db) < 100000"
  shows "\<exists>r \<in> set db'. av_id r = av_id e \<and> av_status r = av_status e \<and> av_operation r = av_operation e \<and>
    av_principal r = av_principal e \<and> av_decision r = av_decision e \<and> av_tool r = av_tool e"
  using assms by (auto simp: admit_audit_def Let_def split: option.splits if_splits)

section \<open>Daily counters\<close>

record usage_event =
  ue_at :: time
  ue_workspace :: string
  ue_transport :: string
  ue_tool :: string
  ue_outcome :: string
  ue_request :: u64
  ue_response :: u64
  ue_duration :: u64

record usage_row =
  uw_day :: string
  uw_workspace :: string
  uw_transport :: string
  uw_tool :: string
  uw_outcome :: string
  uw_calls :: u64
  uw_request :: u64
  uw_response :: u64
  uw_duration :: u64

type_synonym usage_db = "usage_row list"

text \<open>Days are numbered from 1970 in UTC; \<open>dy_text\<close> writes a day as \<open>2006-01-02\<close> and \<open>dy_parse\<close> reads it. Counters are
  taken to stay below \<open>2 ^ 63\<close>.\<close>

record day_env =
  dy_text :: "int \<Rightarrow> string"
  dy_parse :: "string \<Rightarrow> int option"

definition usageRetentionDays :: int where "usageRetentionDays = 365"

definition day_of :: "time \<Rightarrow> int" where "day_of t = t div seconds 86400"

definition usage_key :: "usage_row \<Rightarrow> string \<times> string \<times> string \<times> string \<times> string" where
  "usage_key r = (uw_day r, uw_workspace r, uw_transport r, uw_tool r, uw_outcome r)"

definition event_key :: "day_env \<Rightarrow> usage_event \<Rightarrow> string \<times> string \<times> string \<times> string \<times> string" where
  "event_key env e = (dy_text env (day_of (ue_at e)), ue_workspace e, ue_transport e, ue_tool e, ue_outcome e)"

definition add_call :: "usage_event \<Rightarrow> usage_row \<Rightarrow> usage_row" where
  "add_call e r = r\<lparr>uw_calls := uw_calls r + 1, uw_request := uw_request r + ue_request e,
     uw_response := uw_response r + ue_response e, uw_duration := uw_duration r + ue_duration e\<rparr>"

definition new_usage_row :: "day_env \<Rightarrow> usage_event \<Rightarrow> usage_row" where
  "new_usage_row env e = \<lparr>uw_day = dy_text env (day_of (ue_at e)), uw_workspace = ue_workspace e, uw_transport = ue_transport e,
     uw_tool = ue_tool e, uw_outcome = ue_outcome e, uw_calls = 1, uw_request = ue_request e, uw_response = ue_response e,
     uw_duration = ue_duration e\<rparr>"

definition count_call :: "day_env \<Rightarrow> usage_event \<Rightarrow> usage_db \<Rightarrow> usage_db" where
  "count_call env e db =
     (if event_key env e \<in> usage_key ` set db
      then map (\<lambda>r. if usage_key r = event_key env e then add_call e r else r) db
      else db @ [new_usage_row env e])"

lemma add_call_simps [simp]: "usage_key (add_call e r) = usage_key r" "uw_calls (add_call e r) = uw_calls r + 1"
  by (simp_all add: add_call_def usage_key_def)

lemma new_usage_row_simps [simp]: "usage_key (new_usage_row env e) = event_key env e" "uw_calls (new_usage_row env e) = 1"
  by (simp_all add: new_usage_row_def usage_key_def event_key_def)

text \<open>At most 256 rows older than the retention go at a time, in the order of the primary key.\<close>

definition record_usage :: "day_env \<Rightarrow> go_error option \<Rightarrow> usage_event \<Rightarrow> usage_db \<Rightarrow> usage_db \<times> (go_error + unit)" where
  "record_usage env fault e db =
     (case fault of
        Some x \<Rightarrow> (db, Inl x)
      | None \<Rightarrow>
          (let db1 = count_call env e db; cutoff = dy_text env (day_of (ue_at e) - usageRetentionDays);
               gone = map usage_key (take 256 (sort_key usage_key (filter (\<lambda>r. uw_day r < cutoff) db1)))
           in (filter (\<lambda>r. \<not> List.member gone (usage_key r)) db1, Inr ())))"

record usage_aggregate =
  ug_transport :: string
  ug_tool :: string
  ug_outcome :: string
  ug_calls :: u64
  ug_request :: u64
  ug_response :: u64
  ug_duration :: u64

definition group_key :: "usage_row \<Rightarrow> string \<times> string \<times> string" where
  "group_key r = (uw_transport r, uw_tool r, uw_outcome r)"

definition group_sum :: "(usage_row \<Rightarrow> u64) \<Rightarrow> string \<times> string \<times> string \<Rightarrow> usage_row list \<Rightarrow> u64" where
  "group_sum f k rows = sum_list (map f (filter (\<lambda>r. group_key r = k) rows))"

definition aggregate_of :: "usage_row list \<Rightarrow> string \<times> string \<times> string \<Rightarrow> usage_aggregate" where
  "aggregate_of rows k = (case k of (transport, tool, outcome) \<Rightarrow>
     \<lparr>ug_transport = transport, ug_tool = tool, ug_outcome = outcome, ug_calls = group_sum uw_calls k rows,
      ug_request = group_sum uw_request k rows, ug_response = group_sum uw_response k rows,
      ug_duration = group_sum uw_duration k rows div 1000000\<rparr>)"

text \<open>The aggregates of a range of days, and the first day there is anything of the workspace.\<close>

definition query_usage :: "string \<Rightarrow> string \<Rightarrow> string \<Rightarrow> usage_db \<Rightarrow> usage_aggregate list \<times> string" where
  "query_usage w since until db =
     (let rows = filter (\<lambda>r. uw_workspace r = w \<and> since \<le> uw_day r \<and> uw_day r \<le> until) db;
          days = sort (map uw_day (filter (\<lambda>r. uw_workspace r = w) db))
      in (map (aggregate_of rows) (sort (remdups (map group_key rows))), (case days of [] \<Rightarrow> [] | d # _ \<Rightarrow> d)))"

section \<open>The report\<close>

record usage_totals =
  ut_calls :: u64
  ut_errors :: u64
  ut_approvals :: u64
  ut_reused :: u64
  ut_request :: u64
  ut_response :: u64
  ut_duration :: u64

record usage_report =
  us_since :: string
  us_until :: string
  us_first_day :: string
  us_totals :: usage_totals
  us_rows :: "usage_aggregate list"

definition zero_totals :: usage_totals where
  "zero_totals = \<lparr>ut_calls = 0, ut_errors = 0, ut_approvals = 0, ut_reused = 0, ut_request = 0, ut_response = 0, ut_duration = 0\<rparr>"

definition add_totals :: "usage_totals \<Rightarrow> usage_aggregate \<Rightarrow> usage_totals" where
  "add_totals t a =
     (let only = (\<lambda>outcome. if ug_outcome a = outcome then ug_calls a else 0)
      in \<lparr>ut_calls = ut_calls t + ug_calls a, ut_errors = ut_errors t + only ''error'', ut_approvals = ut_approvals t + only ''approval'',
          ut_reused = ut_reused t + only ''reused'', ut_request = ut_request t + ug_request a,
          ut_response = ut_response t + ug_response a, ut_duration = ut_duration t + ug_duration a\<rparr>)"

text \<open>\<open>read\<close> is \<open>QueryUsage\<close> of the workspace; a date that parses is the text of its day.\<close>

definition usage_query ::
    "day_env \<Rightarrow> (string \<Rightarrow> string \<Rightarrow> go_error + (usage_aggregate list \<times> string)) \<Rightarrow> string \<Rightarrow> string \<Rightarrow> time \<Rightarrow> go_error + usage_report" where
  "usage_query env read since0 until0 now =
     (let until = (if until0 = [] then dy_text env (day_of now) else until0) in
      case dy_parse env until of
        None \<Rightarrow> Inl (Text ''until must be YYYY-MM-DD'')
      | Some last_day \<Rightarrow>
          (let since = (if since0 = [] then dy_text env (last_day - 29) else since0) in
           case dy_parse env since of
             None \<Rightarrow> Inl (Text ''since must be YYYY-MM-DD'')
           | Some first_day \<Rightarrow>
               if last_day < first_day \<or> 365 < last_day - first_day then Inl (Text ''usage range must span 1 to 366 days'')
               else try_then (read since until) (\<lambda>(rows, first).
                 Inr \<lparr>us_since = since, us_until = until, us_first_day = first, us_totals = foldl add_totals zero_totals rows, us_rows = rows\<rparr>)))"

section \<open>The totals count every call\<close>

definition tally :: "(string \<times> string \<times> string \<times> string \<times> string \<Rightarrow> bool) \<Rightarrow> usage_db \<Rightarrow> u64" where
  "tally P db = sum_list (map uw_calls (filter (\<lambda>r. P (usage_key r)) db))"

lemma tally_Nil [simp]: "tally P [] = 0"
  by (simp add: tally_def)

lemma tally_Cons [simp]: "tally P (r # db) = (if P (usage_key r) then uw_calls r else 0) + tally P db"
  by (simp add: tally_def)

lemma tally_append [simp]: "tally P (xs @ ys) = tally P xs + tally P ys"
  by (simp add: tally_def)

lemma tally_update:
  assumes "distinct (map usage_key db)" "k \<in> usage_key ` set db" "\<And>r. usage_key (f r) = usage_key r" "\<And>r. uw_calls (f r) = uw_calls r + 1"
  shows "tally P (map (\<lambda>r. if usage_key r = k then f r else r) db) = tally P db + (if P k then 1 else 0)"
  using assms(1,2)
proof (induction db)
  case (Cons r db)
  show ?case
  proof (cases "usage_key r = k")
    case True
    have "map (\<lambda>r. if usage_key r = k then f r else r) db = db"
      by (rule map_idI) (use Cons.prems(1) True in \<open>auto simp: image_iff\<close>)
    then show ?thesis using True assms(3,4) by (simp add: algebra_simps)
  next
    case False
    then show ?thesis using Cons by (simp add: algebra_simps)
  qed
qed simp

lemma count_call_keys:
  assumes "distinct (map usage_key db)"
  shows "distinct (map usage_key (count_call env e db))"
proof -
  have "map usage_key (map (\<lambda>r. if usage_key r = k then add_call e r else r) db) = map usage_key db" for k
    by simp
  then show ?thesis using assms unfolding count_call_def by (cases "event_key env e \<in> usage_key ` set db") (simp_all del: map_map)
qed

lemma tally_count_call:
  assumes "distinct (map usage_key db)"
  shows "tally P (count_call env e db) = tally P db + (if P (event_key env e) then 1 else 0)"
  using tally_update [OF assms, of "event_key env e" "add_call e" P] by (simp add: count_call_def)

lemma record_usage_tally:
  assumes "distinct (map usage_key db)" "record_usage env None e db = (db', out)"
    "\<And>k. P k \<Longrightarrow> dy_text env (day_of (ue_at e) - 365) \<le> fst k"
  shows "distinct (map usage_key db') \<and> tally P db' = tally P db + (if P (event_key env e) then 1 else 0)"
proof -
  let ?db1 = "count_call env e db" and ?cutoff = "dy_text env (day_of (ue_at e) - usageRetentionDays)"
  define gone where "gone = map usage_key (take 256 (sort_key usage_key (filter (\<lambda>r. uw_day r < ?cutoff) ?db1)))"
  have db': "db' = filter (\<lambda>r. \<not> List.member gone (usage_key r)) ?db1"
    using assms(2) unfolding record_usage_def Let_def option.case gone_def by simp
  have below: "fst k < ?cutoff" if "k \<in> set gone" for k
    using that by (auto simp: gone_def usage_key_def dest!: in_set_takeD)
  have kept: "\<not> List.member gone k" if "P k" for k
  proof
    assume "List.member gone k"
    then have "fst k < ?cutoff" using below by (simp add: List.member_iff)
    then show False using assms(3) [OF that] by (simp add: usageRetentionDays_def)
  qed
  have "tally P db' = tally P ?db1"
    unfolding tally_def db' filter_filter by (metis (no_types, opaque_lifting) kept)
  moreover have "distinct (map usage_key db')"
    using count_call_keys [OF assms(1)] by (simp add: db' distinct_map_filter)
  ultimately show ?thesis using tally_count_call [OF assms(1)] by simp
qed

text \<open>Recording a list of calls.\<close>

fun record_all :: "day_env \<Rightarrow> usage_event list \<Rightarrow> usage_db \<Rightarrow> usage_db" where
  "record_all env [] db = db"
| "record_all env (e # es) db = record_all env es (fst (record_usage env None e db))"

lemma record_all_tally:
  assumes "distinct (map usage_key db)" "\<And>e k. e \<in> set es \<Longrightarrow> P k \<Longrightarrow> dy_text env (day_of (ue_at e) - 365) \<le> fst k"
  shows "tally P (record_all env es db) = tally P db + of_nat (length (filter (\<lambda>e. P (event_key env e)) es))"
  using assms
proof (induction es arbitrary: db)
  case (Cons e es)
  obtain db' out where r: "record_usage env None e db = (db', out)" by (rule prod.exhaust)
  note step = record_usage_tally [OF Cons.prems(1) r, of P, OF Cons.prems(2) [of e, simplified]]
  have "tally P (record_all env es db') = tally P db' + of_nat (length (filter (\<lambda>e. P (event_key env e)) es))"
    by (rule Cons.IH) (use step Cons.prems(2) in auto)
  with step show ?case by (simp add: r)
qed simp

lemma grouped_sum:
  "distinct ks \<Longrightarrow> sum_list (map (\<lambda>k. if Q k then group_sum f k rows else 0) ks) =
     (sum_list (map f (filter (\<lambda>r. group_key r \<in> set ks \<and> Q (group_key r)) rows)) :: u64)"
proof (induction ks)
  case (Cons k ks)
  have "sum_list (map f (filter (\<lambda>r. group_key r \<in> set (k # ks) \<and> Q (group_key r)) rows)) =
      (if Q k then group_sum f k rows else 0) + sum_list (map f (filter (\<lambda>r. group_key r \<in> set ks \<and> Q (group_key r)) rows))"
    using Cons.prems by (induction rows) (auto simp: group_sum_def)
  then show ?case using Cons by simp
qed simp

lemma totals_sums:
  "ut_calls (foldl add_totals t as) = ut_calls t + sum_list (map ug_calls as) \<and>
   ut_errors (foldl add_totals t as) = ut_errors t + sum_list (map (\<lambda>a. if ug_outcome a = ''error'' then ug_calls a else 0) as)"
  by (induction as arbitrary: t) (simp_all add: add_totals_def algebra_simps)

text \<open>The totals of the aggregates of a range of days.\<close>

lemma queried_totals:
  assumes "query_usage w since until db = (as, first)"
  shows "ut_calls (foldl add_totals zero_totals as) =
      tally (\<lambda>(d, w', _). w' = w \<and> since \<le> d \<and> d \<le> until) db"
    "ut_errors (foldl add_totals zero_totals as) =
      tally (\<lambda>(d, w', _, _, o1). w' = w \<and> since \<le> d \<and> d \<le> until \<and> o1 = ''error'') db"
proof -
  let ?rows = "filter (\<lambda>r. uw_workspace r = w \<and> since \<le> uw_day r \<and> uw_day r \<le> until) db"
  let ?ks = "sort (remdups (map group_key ?rows))"
  have as: "as = map (aggregate_of ?rows) ?ks" using assms by (simp add: query_usage_def Let_def)
  have a: "ug_calls (aggregate_of ?rows k) = group_sum uw_calls k ?rows" "ug_outcome (aggregate_of ?rows k) = snd (snd k)" for k
    by (simp_all add: aggregate_of_def split: prod.split)
  have ks: "distinct ?ks" "set ?ks = group_key ` set ?rows" by simp_all
  have "sum_list (map ug_calls as) = sum_list (map (\<lambda>k. if True then group_sum uw_calls k ?rows else 0) ?ks)"
    unfolding as map_map comp_def a by simp
  also have "\<dots> = sum_list (map uw_calls (filter (\<lambda>r. group_key r \<in> set ?ks \<and> True) ?rows))" by (rule grouped_sum [OF ks(1)])
  also have "filter (\<lambda>r. group_key r \<in> set ?ks \<and> True) ?rows = ?rows" unfolding ks(2) by (intro filter_True) auto
  finally show "ut_calls (foldl add_totals zero_totals as) = tally (\<lambda>(d, w', _). w' = w \<and> since \<le> d \<and> d \<le> until) db"
    by (simp add: totals_sums zero_totals_def tally_def usage_key_def)
  have "sum_list (map (\<lambda>a. if ug_outcome a = ''error'' then ug_calls a else 0) as) =
      sum_list (map (\<lambda>k. if snd (snd k) = ''error'' then group_sum uw_calls k ?rows else 0) ?ks)"
    unfolding as map_map comp_def a by simp
  also have "\<dots> = sum_list (map uw_calls (filter (\<lambda>r. group_key r \<in> set ?ks \<and> snd (snd (group_key r)) = ''error'') ?rows))"
    by (rule grouped_sum [OF ks(1)])
  also have "filter (\<lambda>r. group_key r \<in> set ?ks \<and> snd (snd (group_key r)) = ''error'') ?rows =
      filter (\<lambda>r. snd (snd (group_key r)) = ''error'') ?rows" unfolding ks(2) by (intro filter_cong) auto
  finally show "ut_errors (foldl add_totals zero_totals as) =
      tally (\<lambda>(d, w', _, _, o1). w' = w \<and> since \<le> d \<and> d \<le> until \<and> o1 = ''error'') db"
    by (simp add: totals_sums zero_totals_def tally_def usage_key_def group_key_def conj_ac)
qed

text \<open>C40: A usage report counts every call recorded for the workspace in its range of days, and every one of them that ended
  with an error, exactly once, as long as no call lies more than the retention after the first day of the range.\<close>

theorem usage_report_exact:
  assumes "usage_query env (\<lambda>since until. Inr (query_usage w since until (record_all env es []))) since until now = Inr r"
    "\<And>e. e \<in> set es \<Longrightarrow> dy_text env (day_of (ue_at e) - 365) \<le> us_since r"
  shows "ut_calls (us_totals r) = of_nat (length (filter (\<lambda>e. ue_workspace e = w \<and> us_since r \<le> dy_text env (day_of (ue_at e)) \<and>
      dy_text env (day_of (ue_at e)) \<le> us_until r) es)) \<and>
    ut_errors (us_totals r) = of_nat (length (filter (\<lambda>e. ue_workspace e = w \<and> us_since r \<le> dy_text env (day_of (ue_at e)) \<and>
      dy_text env (day_of (ue_at e)) \<le> us_until r \<and> ue_outcome e = ''error'') es))"
proof -
  obtain as first where q: "query_usage w (us_since r) (us_until r) (record_all env es []) = (as, first)"
    and totals: "us_totals r = foldl add_totals zero_totals as"
    using assms(1) by (auto simp: usage_query_def Let_def try_then_Inr_iff split: option.splits if_splits prod.splits)
  have "dy_text env (day_of (ue_at e) - 365) \<le> fst k" if "e \<in> set es" "us_since r \<le> fst k" for e k
    using assms(2) [OF that(1)] that(2) by (rule order_trans)
  note all = record_all_tally [of "[]" es _ env, simplified, OF this]
  show ?thesis
    unfolding totals queried_totals [OF q]
    by (subst (1 2) all) (auto simp: event_key_def split: prod.splits)
qed

definition demo_days :: day_env where
  "demo_days = \<lparr>dy_text = (\<lambda>n. [char_of (nat n)]), dy_parse = (\<lambda>s. case s of [c] \<Rightarrow> Some (of_char c) | _ \<Rightarrow> None)\<rparr>"

definition demo_usage_call :: "int \<Rightarrow> string \<Rightarrow> usage_event" where
  "demo_usage_call day outcome = \<lparr>ue_at = day * seconds 86400, ue_workspace = ''w'', ue_transport = ''stdio'', ue_tool = ''memo_write'',
     ue_outcome = outcome, ue_request = 10, ue_response = 20, ue_duration = 5\<rparr>"

definition demo_calls :: "usage_event list" where
  "demo_calls = [demo_usage_call 66 ''ok'', demo_usage_call 66 ''error'', demo_usage_call 67 ''ok'']"

definition demo_usage :: "go_error + usage_report" where
  "demo_usage = usage_query demo_days (\<lambda>since until. Inr (query_usage ''w'' since until (record_all demo_days demo_calls []))) ''A'' ''F'' 0"

lemma demo_usage_ok: "is_ok demo_usage" "us_since (projr demo_usage) = ''A''" "us_until (projr demo_usage) = ''F''"
  by code_simp+

theorem usage_report_exact_witness:
  "case demo_usage of Inr r \<Rightarrow> ut_calls (us_totals r) = 3 \<and> ut_errors (us_totals r) = 1 | Inl _ \<Rightarrow> False"
proof -
  from demo_usage_ok(1) obtain r where r: "demo_usage = Inr r" by (rule is_okE)
  have range: "us_since r = ''A''" "us_until r = ''F''" using demo_usage_ok(2,3) by (simp_all add: r)
  have day: "dy_text demo_days n = [char_of (nat n)]" for n by (simp add: demo_days_def)
  have "list_all (\<lambda>e. dy_text demo_days (day_of (ue_at e) - 365) \<le> ''A'') demo_calls" by code_simp
  then have late: "dy_text demo_days (day_of (ue_at e) - 365) \<le> us_since r" if "e \<in> set demo_calls" for e
    using that by (simp add: list_all_iff range)
  have n: "length (filter (\<lambda>e. ue_workspace e = ''w'' \<and> ''A'' \<le> dy_text demo_days (day_of (ue_at e)) \<and>
      dy_text demo_days (day_of (ue_at e)) \<le> ''F'') demo_calls) = 3"
    "length (filter (\<lambda>e. ue_workspace e = ''w'' \<and> ''A'' \<le> dy_text demo_days (day_of (ue_at e)) \<and>
      dy_text demo_days (day_of (ue_at e)) \<le> ''F'' \<and> ue_outcome e = ''error'') demo_calls) = 1" by code_simp+
  show ?thesis using usage_report_exact [OF r [unfolded demo_usage_def] late] by (simp add: r range n)
qed

end
