(* ===== verification/ToolServer.thy ===== *)
theory ToolServer
  imports AuditUsage RuntimeConfig CatalogService SearchService DataQuery PathFacts RecordQueries RecordMemos RecordImport RunnerInspect MemoryBackup
begin

text \<open>
  \<open>internal/mcpserver\<close>: the tools a client of the protocol can call, their scopes, the approvals they ask for, the toolboxes
  and their contracts, and the errors that are made public. The services behind the tools are fields of \<open>tool_options\<close>, as
  the interfaces of \<open>Options\<close> are; schemas, JSON forms and the protocol library are parameters.
\<close>

section \<open>Scopes\<close>

definition required_scope :: "string \<Rightarrow> string option" where
  "required_scope tool =
     (if List.member [''catalog_query'', ''workspace_search'', ''path_explain'', ''data_query'', ''project_records'', ''runtime_access'',
          ''repoplane_read''] tool then Some ''repoplane.read''
      else if List.member [''memory_backup'', ''runtime_config'', ''repoplane_state''] tool then Some ''repoplane.state.export''
      else if List.member [''checkpoint_write'', ''memo_write'', ''repoplane_write''] tool then Some ''repoplane.intent.write''
      else if List.member [''check_report_import'', ''repoplane_import''] tool then Some ''repoplane.report.import''
      else if List.member [''run_prepare'', ''run_execute'', ''run_inspect'', ''repoplane_runner''] tool then Some ''repoplane.runner.execute''
      else None)"

definition toolbox_names :: "string list" where
  "toolbox_names = [''repoplane_read'', ''repoplane_write'', ''repoplane_import'', ''repoplane_runner'', ''repoplane_state'']"

section \<open>Requests and answers\<close>

record access_request =
  aq_action :: string
  aq_kind :: string
  aq_path :: string
  aq_grant :: string

datatype tool_input =
    InCatalog CatalogService.query_request | InSearch search_request | InPath path_request | InData data_request
  | InRecords records_query | InCheckpoint checkpoint_request | InMemo memo_request | InImport import_request
  | InPrepare prepare_request | InExecute string u64 | InInspect inspect_request | InBackup backup_request
  | InAccess access_request | InConfig config_request

datatype tool_output =
    OutCatalog "query_result response" | OutSearch search_response | OutPath "path_facts response" | OutData data_response
  | OutRecords "record_result response" | OutMutation mutation_response | OutPrepare prepare_response
  | OutExecute execute_response | OutInspect inspect_response | OutBackup backup_response
  | OutAccess access_response | OutConfig config_response

definition tool_of :: "tool_input \<Rightarrow> string" where
  "tool_of i = (case i of InCatalog _ \<Rightarrow> ''catalog_query'' | InSearch _ \<Rightarrow> ''workspace_search'' | InPath _ \<Rightarrow> ''path_explain''
     | InData _ \<Rightarrow> ''data_query'' | InRecords _ \<Rightarrow> ''project_records'' | InCheckpoint _ \<Rightarrow> ''checkpoint_write''
     | InMemo _ \<Rightarrow> ''memo_write'' | InImport _ \<Rightarrow> ''check_report_import'' | InPrepare _ \<Rightarrow> ''run_prepare''
     | InExecute _ _ \<Rightarrow> ''run_execute'' | InInspect _ \<Rightarrow> ''run_inspect'' | InBackup _ \<Rightarrow> ''memory_backup''
     | InAccess _ \<Rightarrow> ''runtime_access'' | InConfig _ \<Rightarrow> ''runtime_config'')"

text \<open>An answer, or a request for an approval with the token of the proposal and its message.\<close>

datatype 'a tool_answer = Answered 'a | Approval string string

text \<open>\<open>tc_state\<close> is the token sent back; \<open>tc_response\<close> the response to the approval, within it the action of an
  elicitation.\<close>

record tool_call =
  tc_state :: string
  tc_response :: "string option option"

section \<open>Public errors\<close>

record public_failure =
  pu_code :: string
  pu_message :: string
  pu_correlation :: string
  pu_mutation :: string
  pu_details :: "(string, json) gomap"

datatype tool_error = Public public_failure | Raw go_error

text \<open>\<open>te_text\<close> is the text of an error, \<open>te_details\<close> its details, \<open>te_script\<close> the extension in an unsupported script
  error; \<open>te_contract\<close> encodes a contract.\<close>

record operation_contract =
  kt_version :: string
  kt_description :: string
  kt_input :: string
  kt_output :: "string option"
  kt_summary :: string
  kt_scope :: string
  kt_effect :: string
  kt_approval :: string
  kt_retry :: string

record tool_decoders =
  td_catalog :: "string \<Rightarrow> go_error + CatalogService.query_request"
  td_search :: "string \<Rightarrow> go_error + search_request"
  td_path :: "string \<Rightarrow> go_error + path_request"
  td_data :: "string \<Rightarrow> go_error + data_request"
  td_records :: "string \<Rightarrow> go_error + records_query"
  td_checkpoint :: "string \<Rightarrow> go_error + checkpoint_request"
  td_memo :: "string \<Rightarrow> go_error + memo_request"
  td_import :: "string \<Rightarrow> go_error + import_request"
  td_prepare :: "string \<Rightarrow> go_error + prepare_request"
  td_execute :: "string \<Rightarrow> go_error + (string \<times> u64)"
  td_inspect :: "string \<Rightarrow> go_error + inspect_request"
  td_backup :: "string \<Rightarrow> go_error + backup_request"
  td_access :: "string \<Rightarrow> go_error + access_request"
  td_config :: "string \<Rightarrow> go_error + config_request"

record tool_env =
  te_os :: os_env
  te_now :: time
  te_token :: "go_error + string"
  te_digest :: "string \<Rightarrow> string"
  te_quote :: "string \<Rightarrow> string"
  te_text :: "go_error \<Rightarrow> string"
  te_details :: "go_error \<Rightarrow> (string, json) gomap"
  te_script :: "go_error \<Rightarrow> string"
  te_correlation :: string
  te_decoders :: tool_decoders
  te_describe :: "string \<Rightarrow> string"
  te_schema :: "string \<Rightarrow> string \<times> string"
  te_contract :: "string \<Rightarrow> string \<Rightarrow> operation_contract \<Rightarrow> go_error + string"
  te_sha :: "string \<Rightarrow> string"
  te_input_size :: "tool_input \<Rightarrow> u64"
  te_output_size :: "tool_output tool_answer \<Rightarrow> u64"
  te_duration :: u64
  te_days :: day_env
  te_usage_fault :: "go_error option"

text \<open>\<open>errors.Is\<close> with an error that is told by its text, and \<open>errors.As\<close>.\<close>

fun names_text :: "go_error \<Rightarrow> string \<Rightarrow> bool" where
  "names_text (Text s) t = (s = t)"
| "names_text (Wrap _ e) t = names_text e t"
| "names_text (Join a b) t = (names_text a t \<or> names_text b t)"
| "names_text _ t = False"

fun missing_capability_error :: "go_error \<Rightarrow> bool" where
  "missing_capability_error (Wrap s e) = (s = ''catalog capability is not registered in configured roots'' \<or> missing_capability_error e)"
| "missing_capability_error (Join a b) = (missing_capability_error a \<or> missing_capability_error b)"
| "missing_capability_error _ = False"

fun find_validation :: "go_error \<Rightarrow> string option" where
  "find_validation (Validation field reason) = Some (field @ '' '' @ reason)"
| "find_validation (Wrap _ e) = find_validation e"
| "find_validation (Join a b) = (case find_validation a of Some s \<Rightarrow> Some s | None \<Rightarrow> find_validation b)"
| "find_validation _ = None"

fun find_transition :: "go_error \<Rightarrow> string option" where
  "find_transition (Transition field reason) = Some (field @ '' '' @ reason)"
| "find_transition (Wrap _ e) = find_transition e"
| "find_transition (Join a b) = (case find_transition a of Some s \<Rightarrow> Some s | None \<Rightarrow> find_transition b)"
| "find_transition _ = None"

fun first_code :: "(bool \<times> string) list \<Rightarrow> string" where
  "first_code [] = ''internal_error''"
| "first_code ((found, code) # rest) = (if found then code else first_code rest)"

definition config_unavailable :: go_error where "config_unavailable = Text ''runtime configuration is unavailable for this transport''"
definition authorization_denied :: go_error where "authorization_denied = Text ''mcpserver: authorization denied''"

definition too_large_error :: "go_error \<Rightarrow> bool" where
  "too_large_error e \<longleftrightarrow> errors_is e ErrLimitExceeded \<or> names_text e ''catalog: response cannot fit byte_limit'' \<or>
     names_text e ''search: response cannot fit byte_limit'' \<or> names_text e ''path facts: response cannot fit byte_limit'' \<or>
     errors_is e DataResponseTooLarge \<or> errors_is e RecordsResponseTooLarge \<or> errors_is e DataSourceTooLarge"

definition public_code :: "tool_env \<Rightarrow> go_error \<Rightarrow> string" where
  "public_code env e = first_code
     [(errors_is e ConfigStateOverlap, ''workspace_state_overlap''),
      (missing_capability_error e, ''capability_not_found''),
      (names_text e ''context deadline exceeded'' \<or> names_text e ''context canceled'', ''deadline_exceeded''),
      (errors_is e ErrEscape \<or> errors_is e ErrAbsolute, ''workspace_escape''),
      (errors_is e AccessDisabled, ''runtime_access_unavailable''),
      (errors_is e AccessDeclined, ''permission_denied''),
      (errors_is e AccessPending, ''runtime_approval_invalid''),
      (names_text e ''runtime configuration is unavailable for this transport'', ''runtime_configuration_unavailable''),
      (names_text e ''runtime configuration conflicts with active work'', ''runtime_configuration_busy''),
      (names_text e ''memory backup destination is invalid'', ''backup_destination_invalid''),
      (names_text e ''memory backup requires no active Runner process'', ''runner_busy''),
      (names_text e ''memory backup archive is invalid'', ''backup_invalid''),
      (errors_is e CursorExpired, ''cursor_expired''),
      (errors_is e CursorInvalid, ''cursor_invalid''),
      (errors_is e DataSourceChanged, ''source_changed''),
      (errors_is e FileNotExist, ''source_not_found''),
      (errors_is e StoreNotFound, ''record_not_found''),
      (errors_is e StoreConflict, ''revision_conflict''),
      (errors_is e RecordsInvalidArgument, ''invalid_argument''),
      (errors_is e RecordsInvalidTransition, ''invalid_transition''),
      (errors_is e RecordsStorageFailure, ''storage_failure''),
      (names_text e ''records: permission denied'', ''permission_denied''),
      (names_text e ''mcpserver: authorization denied'', ''permission_denied''),
      (errors_is e RecordsReportInvalid, ''report_invalid''),
      (errors_is e RunnerNotExecutable, ''capability_not_executable''),
      (names_text e ''runner: unsupported script type'', ''unsupported_script_type''),
      (errors_is e RunnerPlanStale, ''plan_stale''),
      (errors_is e RunnerRunState, ''run_state_conflict''),
      (too_large_error e, ''limit_exceeded''),
      (names_text e ''search: ripgrep backend unavailable'', ''backend_unavailable''),
      (errors_is e CodecInvalid, ''decode_failed''),
      (errors_is e CodecUnsupported \<or> contains_str (te_text env e) ''unsupported'', ''unsupported_operation''),
      (contains_str (te_text env e) ''only valid'', ''invalid_argument''),
      (list_ex (contains_str (te_text env e)) [''required'', ''invalid'', ''must be'', ''provide exactly'', ''malformed''], ''invalid_argument'')]"

definition plain_messages :: "(string, string) gomap" where
  "plain_messages =
     [(''workspace_state_overlap'', ''State directory is inside the workspace; repository operations are disabled. Use runtime_config(action=status), then select a project workspace or a state directory outside the workspace. The MCP connection stays available.''),
      (''revision_conflict'', ''expected revision does not match the current record''),
      (''storage_failure'', ''durable storage operation failed''),
      (''record_not_found'', ''record was not found''),
      (''capability_not_found'', ''capability is not registered in configured catalog roots; inspect catalog_query(mode=status) and runtime_config(action=status); an unspecified private profile location requires host configuration''),
      (''internal_error'', ''internal operation failed'')]"

definition argument_messages :: "(string, string) gomap" where
  "argument_messages =
     [(''mode required'', ''mode required''), (''query is only valid for search'', ''use mode=search''),
      (''query is required for search'', ''query required''), (''id is required for get'', ''id required''),
      (''ref is required'', ''ref required''), (''path is required'', ''path required''),
      (''pattern is required for text, Git, and symbol search'', ''pattern required''),
      (''pattern is required for log mode'', ''pattern required''), (''invalid record kind'', ''invalid kind''),
      (''invalid record validity'', ''invalid validity''), (''invalid record source'', ''invalid source''),
      (''cursor is only valid for search or list'', ''cursor: search|list''),
      (''mode must be create, update, or supersede'', ''mode: create|update|supersede''),
      (''goal is required for create'', ''goal required''),
      (''id and expected_revision are required for update or supersede'', ''id, expected_revision required''),
      (''host is only valid for host_fact'', ''host: host_fact only''),
      (''source must be user_asserted or llm_proposed'', ''source: user_asserted|llm_proposed''),
      (''response_view must be full or receipt'', ''response_view: full|receipt''),
      (''payload_fields must contain non-empty top-level field names'', ''payload_fields: nonempty names''),
      (''payload_fields must not contain duplicates'', ''payload_fields: duplicate names'')]"

definition script_messages :: "string \<times> string" where
  "script_messages =
     (''Windows cannot execute a Python .py file directly; set executable_ref to an available Python interpreter (for example python) and put the script path and arguments in argv_template; resolve the script path from cwd'',
      ''direct PowerShell script execution is unsupported; use a PowerShell executable_ref and pass the workspace-relative script path in argv_template'')"

definition spaced_code :: "string \<Rightarrow> string" where
  "spaced_code code = map (\<lambda>c. if c = CHR ''_'' then CHR '' '' else c) code"

definition public_message :: "tool_env \<Rightarrow> string \<Rightarrow> go_error \<Rightarrow> string" where
  "public_message env code e =
     (if code = ''limit_exceeded'' \<and> find_validation e \<noteq> None then the (find_validation e)
      else case map_of plain_messages code of
          Some m \<Rightarrow> m
        | None \<Rightarrow>
            if code = ''invalid_argument'' then
              (if errors_is e ConfigReplaceValues then ''values is required for replace; use an explicit [] only to clear the selected list''
               else case find_validation e of
                   Some m \<Rightarrow> m
                 | None \<Rightarrow> (case map_of argument_messages (te_text env e) of Some m \<Rightarrow> m | None \<Rightarrow> ''request validation failed''))
            else if code = ''invalid_transition'' then
              (case find_transition e of Some m \<Rightarrow> m | None \<Rightarrow> ''requested record transition is not allowed'')
            else if code = ''unsupported_script_type'' then
              (if te_script env e = ''.py'' then fst script_messages else snd script_messages)
            else spaced_code code)"

definition unknown_codes :: "string list" where
  "unknown_codes = [''storage_failure'', ''internal_error'', ''deadline_exceeded'']"

definition public_failure_of :: "tool_env \<Rightarrow> bool \<Rightarrow> go_error \<Rightarrow> public_failure" where
  "public_failure_of env mutation e =
     (let code = public_code env e
      in \<lparr>pu_code = code, pu_message = public_message env code e, pu_correlation = te_correlation env,
          pu_mutation = (if \<not> mutation then [] else if List.member unknown_codes code then ''unknown'' else ''not_applied''),
          pu_details = te_details env e\<rparr>)"

definition public_error :: "tool_env \<Rightarrow> bool \<Rightarrow> go_error \<Rightarrow> tool_error" where
  "public_error env mutation e = Public (public_failure_of env mutation e)"

section \<open>The server\<close>

type_synonym ('s, 'q, 'r) service = "access option \<Rightarrow> 'q \<Rightarrow> 's \<Rightarrow> 's \<times> (go_error + 'r)"

record 's runner_services =
  sn_prepare :: "('s, prepare_request, prepare_response) service"
  sn_execute :: "('s, string \<times> u64, execute_response) service"
  sn_inspect :: "('s, inspect_request, inspect_response) service"

record 's config_service =
  cg_status :: "access \<Rightarrow> 's \<Rightarrow> go_error + config_response"
  cg_apply :: "access \<Rightarrow> config_request \<Rightarrow> 's \<Rightarrow> access \<times> 's \<times> (go_error + config_response)"

text \<open>\<open>to_authorize\<close> and \<open>to_audit\<close> are the hooks for the context of the request.\<close>

record 's tool_options =
  to_catalog :: "('s, CatalogService.query_request, query_result response) service option"
  to_search :: "('s, search_request, search_response) service option"
  to_paths :: "('s, path_request, path_facts response) service option"
  to_data :: "('s, data_request, data_response) service option"
  to_records :: "('s, records_query, record_result response) service option"
  to_checkpoint :: "('s, checkpoint_request, mutation_response) service option"
  to_memo :: "('s, memo_request, mutation_response) service option"
  to_import :: "('s, import_request, mutation_response) service option"
  to_runner :: "'s runner_services option"
  to_backup :: "('s, backup_request, backup_response) service option"
  to_config :: "'s config_service option"
  to_authorize :: "(string \<Rightarrow> go_error + unit) option"
  to_audit :: "(string \<Rightarrow> audit_db \<Rightarrow> audit_db \<times> (go_error + unit)) option"
  to_transport :: "string option"

record 's server =
  ss_access :: "access option"
  ss_services :: 's
  ss_usage :: usage_db
  ss_audit :: audit_db

definition authorize_tool :: "'s tool_options \<Rightarrow> string \<Rightarrow> go_error + unit" where
  "authorize_tool opts tool = (case to_authorize opts of None \<Rightarrow> Inr () | Some f \<Rightarrow> f tool)"

section \<open>Approvals\<close>

definition approval_accepted :: "tool_call \<Rightarrow> go_error + bool" where
  "approval_accepted c = (case tc_response c of Some (Some action) \<Rightarrow> Inr (action = ''accept'') | _ \<Rightarrow> Inl (Sentinel AccessPending))"

definition complete_approval :: "tool_env \<Rightarrow> tool_call \<Rightarrow> access option \<Rightarrow> access option \<times> (go_error + access_response)" where
  "complete_approval env c a =
     (case a of
        None \<Rightarrow> (a, Inl (Sentinel AccessPending))
      | Some s \<Rightarrow>
          if tc_state c = [] then (a, Inl (Sentinel AccessPending))
          else (case approval_accepted c of
              Inl e \<Rightarrow> (a, Inl e)
            | Inr accepted \<Rightarrow> (case complete (te_now env) (tc_state c) accepted s of (s', r) \<Rightarrow> (Some s', r))))"

definition resume_approval :: "tool_env \<Rightarrow> tool_call \<Rightarrow> access option \<Rightarrow> access option \<times> (go_error + unit)" where
  "resume_approval env c a =
     (if tc_state c = [] then (a, Inr ())
      else case complete_approval env c a of (a', Inl e) \<Rightarrow> (a', Inl e) | (a', Inr _) \<Rightarrow> (a', Inr ()))"

definition approval_message :: "string \<Rightarrow> string \<Rightarrow> string" where
  "approval_message operation message = ''Operation '' @ operation @ '': '' @ message"

definition ask_approval :: "tool_env \<Rightarrow> string \<Rightarrow> string \<Rightarrow> string \<Rightarrow> access \<Rightarrow> access \<times> (go_error + string \<times> string)" where
  "ask_approval env operation kind path s =
     (case begin_access (te_digest env) (te_quote env) (te_os env) (te_now env) (te_token env) kind path s of
        (s', Inl e) \<Rightarrow> (s', Inl e)
      | (s', Inr (token, message)) \<Rightarrow> (s', Inr (token, approval_message operation message)))"

text \<open>\<open>Inr None\<close>: go on; \<open>Inr (Some a)\<close>: ask for the approval \<open>a\<close>.\<close>

definition ensure_capability ::
    "tool_env \<Rightarrow> tool_call \<Rightarrow> string \<Rightarrow> string \<Rightarrow> access option \<Rightarrow> access option \<times> (go_error + (string \<times> string) option)" where
  "ensure_capability env c kind operation a =
     (case a of
        None \<Rightarrow> (a, Inr None)
      | Some _ \<Rightarrow> (case resume_approval env c a of
          (a1, Inl e) \<Rightarrow> (a1, Inl e)
        | (a1, Inr _) \<Rightarrow>
            (let s = the a1 in
             if enabled s kind then (a1, Inr None)
             else case ask_approval env operation kind [] s of (s', r) \<Rightarrow> (Some s', try_then r (\<lambda>x. Inr (Some x))))))"

definition ensure_destination ::
    "tool_env \<Rightarrow> tool_call \<Rightarrow> string \<Rightarrow> string \<Rightarrow> access option \<Rightarrow> access option \<times> (go_error + (string \<times> string) option)" where
  "ensure_destination env c path operation a =
     (case a of
        None \<Rightarrow> (a, Inr None)
      | Some _ \<Rightarrow> (case resume_approval env c a of
          (a1, Inl e) \<Rightarrow> (a1, Inl e)
        | (a1, Inr _) \<Rightarrow>
            (let s = the a1 in
             if granted_path (te_os env) s KindMemoryExport path then (a1, Inr None)
             else case ask_approval env operation KindMemoryExport path s of (s', r) \<Rightarrow> (Some s', try_then r (\<lambda>x. Inr (Some x))))))"

text \<open>The approval of a read, whose errors are returned as they are.\<close>

definition request_read_approval ::
    "tool_env \<Rightarrow> string \<Rightarrow> string \<Rightarrow> 's server \<Rightarrow> 's server \<times> (tool_error + 'a tool_answer)" where
  "request_read_approval env path operation st =
     (case ss_access st of
        None \<Rightarrow> (st, Inl (Raw (Sentinel ErrEscape)))
      | Some s \<Rightarrow> (case ask_approval env operation KindReadPath path s of
          (s', Inl e) \<Rightarrow> (st\<lparr>ss_access := Some s'\<rparr>, Inl (Raw e))
        | (s', Inr (token, message)) \<Rightarrow> (st\<lparr>ss_access := Some s'\<rparr>, Inr (Approval token message))))"

definition source_path :: "string \<Rightarrow> string" where
  "source_path ref =
     (if has_prefix ref ''source:mutable:'' then trim_prefix ref ''source:mutable:''
      else if has_prefix ref ''source:'' then
        (let v = trim_prefix ref ''source:'' in case last_index v ''@sha256:'' of Some i \<Rightarrow> take i v | None \<Rightarrow> [])
      else [])"

section \<open>Operations\<close>

text \<open>The handlers: of a tool that only reads the state directory, of one that may read granted paths, of one that needs a
  capability, and of the three that change runtime state.\<close>

definition run_service ::
    "tool_env \<Rightarrow> bool \<Rightarrow> ('r \<Rightarrow> tool_output) \<Rightarrow> ('s, 'q, 'r) service \<Rightarrow> 'q \<Rightarrow> 's server \<Rightarrow> 's server \<times> (tool_error + tool_output tool_answer)" where
  "run_service env mutation wrap service q st =
     (case service (ss_access st) q (ss_services st) of (s, out) \<Rightarrow>
        (st\<lparr>ss_services := s\<rparr>, case out of Inl e \<Rightarrow> Inl (public_error env mutation e) | Inr r \<Rightarrow> Inr (Answered (wrap r))))"

definition read_tool ::
    "tool_env \<Rightarrow> tool_call \<Rightarrow> string \<Rightarrow> string \<Rightarrow> ('r \<Rightarrow> tool_output) \<Rightarrow> ('s, 'q, 'r) service \<Rightarrow> 'q \<Rightarrow> 's server \<Rightarrow>
     's server \<times> (tool_error + tool_output tool_answer)" where
  "read_tool env c tool path wrap service q st =
     (case resume_approval env c (ss_access st) of
        (a, Inl e) \<Rightarrow> (st\<lparr>ss_access := a\<rparr>, Inl (public_error env False e))
      | (a, Inr _) \<Rightarrow>
          (case service a q (ss_services st) of (s, out) \<Rightarrow>
            (let st' = st\<lparr>ss_access := a, ss_services := s\<rparr> in
             case out of
               Inl e \<Rightarrow> if errors_is e ErrEscape then request_read_approval env path tool st' else (st', Inl (public_error env False e))
             | Inr r \<Rightarrow> (st', Inr (Answered (wrap r))))))"

definition capability_tool ::
    "tool_env \<Rightarrow> tool_call \<Rightarrow> string \<Rightarrow> string \<Rightarrow> bool \<Rightarrow> ('r \<Rightarrow> tool_output) \<Rightarrow> ('s, 'q, 'r) service \<Rightarrow> 'q \<Rightarrow> 's server \<Rightarrow>
     's server \<times> (tool_error + tool_output tool_answer)" where
  "capability_tool env c tool kind mutation wrap service q st =
     (case ensure_capability env c kind tool (ss_access st) of
        (a, Inl e) \<Rightarrow> (st\<lparr>ss_access := a\<rparr>, Inl (public_error env mutation e))
      | (a, Inr (Some (token, message))) \<Rightarrow> (st\<lparr>ss_access := a\<rparr>, Inr (Approval token message))
      | (a, Inr None) \<Rightarrow> run_service env mutation wrap service q (st\<lparr>ss_access := a\<rparr>))"

definition backup_tool ::
    "tool_env \<Rightarrow> tool_call \<Rightarrow> ('s, backup_request, backup_response) service \<Rightarrow> backup_request \<Rightarrow> 's server \<Rightarrow>
     's server \<times> (tool_error + tool_output tool_answer)" where
  "backup_tool env c service q st =
     (case ensure_destination env c (br_destination q) ''memory_backup'' (ss_access st) of
        (a, Inl e) \<Rightarrow> (st\<lparr>ss_access := a\<rparr>, Inl (public_error env False e))
      | (a, Inr (Some (token, message))) \<Rightarrow> (st\<lparr>ss_access := a\<rparr>, Inr (Approval token message))
      | (a, Inr None) \<Rightarrow>
          (let st' = st\<lparr>ss_access := a\<rparr> in
           case a of
             None \<Rightarrow> run_service env False OutBackup service q st'
           | Some s \<Rightarrow> (case approved_path (te_os env) s KindMemoryExport (br_destination q) of
               None \<Rightarrow> (st', Inl (public_error env False (Sentinel AccessPending)))
             | Some approved \<Rightarrow> run_service env False OutBackup service (q\<lparr>br_destination := approved\<rparr>) st')))"

definition access_tool :: "tool_env \<Rightarrow> tool_call \<Rightarrow> access_request \<Rightarrow> 's server \<Rightarrow> 's server \<times> (tool_error + tool_output tool_answer)" where
  "access_tool env c q st =
     (case ss_access st of
        None \<Rightarrow> (st, Inl (Raw (Text ''unknown tool'')))
      | Some s \<Rightarrow>
          if aq_action q = ''status'' then (st, Inr (Answered (OutAccess (status_of s))))
          else if aq_action q = ''revoke'' then
            (case revoke (aq_grant q) s of (s', r) \<Rightarrow>
               (st\<lparr>ss_access := Some s'\<rparr>, case r of Inl e \<Rightarrow> Inl (public_error env False e) | Inr x \<Rightarrow> Inr (Answered (OutAccess x))))
          else if aq_action q = ''grant'' then
            (if tc_state c = [] then
               (case ask_approval env ''runtime_access'' (aq_kind q) (aq_path q) s of
                  (s', Inl e) \<Rightarrow> (st\<lparr>ss_access := Some s'\<rparr>, Inl (public_error env False e))
                | (s', Inr (token, message)) \<Rightarrow> (st\<lparr>ss_access := Some s'\<rparr>, Inr (Approval token message)))
             else case complete_approval env c (Some s) of (a, r) \<Rightarrow>
               (st\<lparr>ss_access := a\<rparr>, case r of Inl e \<Rightarrow> Inl (public_error env False e) | Inr x \<Rightarrow> Inr (Answered (OutAccess x))))
          else (st, Inl (public_error env False (Sentinel AccessInvalid))))"

definition config_tool :: "tool_env \<Rightarrow> 's config_service \<Rightarrow> config_request \<Rightarrow> 's server \<Rightarrow> 's server \<times> (tool_error + tool_output tool_answer)" where
  "config_tool env service q st =
     (case ss_access st of
        None \<Rightarrow> (st, Inl (Raw (Text ''unknown tool'')))
      | Some s \<Rightarrow>
          if \<not> available s then (st, Inl (public_error env False config_unavailable))
          else if cr_action q = ''status'' then
            (st, case cg_status service s (ss_services st) of Inl e \<Rightarrow> Inl (public_error env False e) | Inr x \<Rightarrow> Inr (Answered (OutConfig x)))
          else (case cg_apply service s q (ss_services st) of (s', x, out) \<Rightarrow>
            (st\<lparr>ss_access := Some s', ss_services := x\<rparr>,
             case out of Inl e \<Rightarrow> Inl (public_error env False e) | Inr r \<Rightarrow> Inr (Answered (OutConfig r)))))"

definition unknown_tool :: "'s server \<Rightarrow> 's server \<times> (tool_error + tool_output tool_answer)" where
  "unknown_tool st = (st, Inl (Raw (Text ''unknown tool'')))"

definition mutating :: "tool_input \<Rightarrow> bool" where
  "mutating i = (case i of InCheckpoint _ \<Rightarrow> True | InMemo _ \<Rightarrow> True | InImport _ \<Rightarrow> True | _ \<Rightarrow> False)"

definition dispatch_tool ::
    "tool_env \<Rightarrow> 's tool_options \<Rightarrow> tool_call \<Rightarrow> tool_input \<Rightarrow> 's server \<Rightarrow> 's server \<times> (tool_error + tool_output tool_answer)" where
  "dispatch_tool env opts c i st =
     (case i of
        InCatalog q \<Rightarrow> (case to_catalog opts of None \<Rightarrow> unknown_tool st | Some f \<Rightarrow> run_service env False OutCatalog f q st)
      | InSearch q \<Rightarrow> (case to_search opts of None \<Rightarrow> unknown_tool st
          | Some f \<Rightarrow> read_tool env c ''workspace_search'' (sq_root q) OutSearch f q st)
      | InPath q \<Rightarrow> (case to_paths opts of None \<Rightarrow> unknown_tool st
          | Some f \<Rightarrow> read_tool env c ''path_explain'' (px_path q) OutPath f q st)
      | InData q \<Rightarrow> (case to_data opts of None \<Rightarrow> unknown_tool st
          | Some f \<Rightarrow> read_tool env c ''data_query'' (source_path (dr_ref q)) OutData f q st)
      | InRecords q \<Rightarrow> (case to_records opts of None \<Rightarrow> unknown_tool st | Some f \<Rightarrow> run_service env False OutRecords f q st)
      | InCheckpoint q \<Rightarrow> (case to_checkpoint opts of None \<Rightarrow> unknown_tool st
          | Some f \<Rightarrow> capability_tool env c ''checkpoint_write'' KindIntentWrite True OutMutation f q st)
      | InMemo q \<Rightarrow> (case to_memo opts of None \<Rightarrow> unknown_tool st
          | Some f \<Rightarrow> capability_tool env c ''memo_write'' KindIntentWrite True OutMutation f q st)
      | InImport q \<Rightarrow> (case to_import opts of None \<Rightarrow> unknown_tool st
          | Some f \<Rightarrow> capability_tool env c ''check_report_import'' KindReportImport True OutMutation f q st)
      | InPrepare q \<Rightarrow> (case to_runner opts of None \<Rightarrow> unknown_tool st
          | Some r \<Rightarrow> capability_tool env c ''run_prepare'' KindRunner False OutPrepare (sn_prepare r) q st)
      | InExecute plan limit \<Rightarrow> (case to_runner opts of None \<Rightarrow> unknown_tool st
          | Some r \<Rightarrow> capability_tool env c ''run_execute'' KindRunner False OutExecute (sn_execute r) (plan, limit) st)
      | InInspect q \<Rightarrow> (case to_runner opts of None \<Rightarrow> unknown_tool st
          | Some r \<Rightarrow> capability_tool env c ''run_inspect'' KindRunner False OutInspect (sn_inspect r) q st)
      | InBackup q \<Rightarrow> (case to_backup opts of None \<Rightarrow> unknown_tool st | Some f \<Rightarrow> backup_tool env c f q st)
      | InAccess q \<Rightarrow> access_tool env c q st
      | InConfig q \<Rightarrow> (case to_config opts of None \<Rightarrow> unknown_tool st | Some f \<Rightarrow> config_tool env f q st))"

text \<open>The handler of a tool: its authorization comes first.\<close>

definition handle_tool ::
    "tool_env \<Rightarrow> 's tool_options \<Rightarrow> tool_call \<Rightarrow> tool_input \<Rightarrow> 's server \<Rightarrow> 's server \<times> (tool_error + tool_output tool_answer)" where
  "handle_tool env opts c i st =
     (case authorize_tool opts (tool_of i) of
        Inl e \<Rightarrow> (st, Inl (public_error env (mutating i) e))
      | Inr _ \<Rightarrow> dispatch_tool env opts c i st)"

text \<open>The observation of a call for the usage counters; its own failure is only logged.\<close>

definition call_outcome :: "tool_error + tool_output tool_answer \<Rightarrow> string" where
  "call_outcome out = (case out of Inl _ \<Rightarrow> ''error'' | Inr (Approval _ _) \<Rightarrow> ''approval''
     | Inr (Answered (OutExecute x)) \<Rightarrow> if xp_state x = ''reused'' then ''reused'' else ''ok'' | Inr _ \<Rightarrow> ''ok'')"

definition call_event :: "tool_env \<Rightarrow> string \<Rightarrow> string \<Rightarrow> tool_input \<Rightarrow> tool_error + tool_output tool_answer \<Rightarrow> usage_event" where
  "call_event env w transport i out =
     \<lparr>ue_at = te_now env, ue_workspace = w, ue_transport = transport, ue_tool = tool_of i, ue_outcome = call_outcome out,
      ue_request = te_input_size env i, ue_response = (case out of Inl _ \<Rightarrow> 0 | Inr a \<Rightarrow> te_output_size env a),
      ue_duration = te_duration env\<rparr>"

definition observed_tool ::
    "tool_env \<Rightarrow> string \<Rightarrow> 's tool_options \<Rightarrow> tool_call \<Rightarrow> tool_input \<Rightarrow> 's server \<Rightarrow> 's server \<times> (tool_error + tool_output tool_answer)" where
  "observed_tool env w opts c i st =
     (case handle_tool env opts c i st of (st', out) \<Rightarrow>
        (case to_transport opts of
           None \<Rightarrow> (st', out)
         | Some transport \<Rightarrow>
             (st'\<lparr>ss_usage := fst (record_usage (te_days env) (te_usage_fault env) (call_event env w transport i out) (ss_usage st'))\<rparr>, out)))"

end
