(* ===== verification/ToolArguments.thy ===== *)
theory ToolArguments
  imports GoPrelude
begin

text \<open>
  The bounds on the arguments of a toolbox call in \<open>internal/mcpserver/operations.go\<close>: a scan of the bytes for the nesting
  and the number of containers and commas, before any decoder sees them. It is compared with the same measures on
  the value a text stands for.
\<close>

definition structure_error :: go_error where "structure_error = Text ''invalid arguments structure''"

fun scan_json :: "int \<Rightarrow> int \<Rightarrow> bool \<Rightarrow> bool \<Rightarrow> string \<Rightarrow> go_error + unit" where
  "scan_json depth items inside escaped [] = (if depth \<noteq> 0 \<or> inside then Inl structure_error else Inr ())"
| "scan_json depth items inside escaped (c # s) =
     (if inside then
        (if escaped then scan_json depth items True False s
         else if c = CHR 0x5C then scan_json depth items True True s
         else if c = CHR 0x22 then scan_json depth items False False s
         else scan_json depth items True False s)
      else if c = CHR 0x22 then scan_json depth items True escaped s
      else if c = CHR ''{'' \<or> c = CHR ''['' then
        (if 64 < depth + 1 \<or> 10000 < items + 1 then Inl (Sentinel ErrLimitExceeded)
         else scan_json (depth + 1) (items + 1) False escaped s)
      else if c = CHR ''}'' \<or> c = CHR '']'' then
        (if depth - 1 < 0 then Inl structure_error else scan_json (depth - 1) items False escaped s)
      else if c = CHR '','' then
        (if 10000 < items + 1 then Inl (Sentinel ErrLimitExceeded) else scan_json depth (items + 1) False escaped s)
      else scan_json depth items False escaped s)"

definition validate_json_bounds :: "string \<Rightarrow> go_error + unit" where
  "validate_json_bounds raw = scan_json 0 0 False False raw"

text \<open>\<open>decodeStrict\<close> for a decoder that refuses unknown fields and further values.\<close>

definition decode_strict :: "(string \<Rightarrow> go_error + 'a) \<Rightarrow> string \<Rightarrow> go_error + 'a" where
  "decode_strict decode raw =
     (if raw = [] \<or> 1048576 < int (length raw) then Inl (Sentinel ErrLimitExceeded)
      else try_then (validate_json_bounds raw) (\<lambda>_. decode raw))"

section \<open>Values and their texts\<close>

text \<open>The inside of a string literal: no quote and no backslash but in an escape.\<close>

fun literal_body :: "string \<Rightarrow> bool" where
  "literal_body [] = True"
| "literal_body (c # s) =
     (if c = CHR 0x22 then False
      else if c = CHR 0x5C then (case s of [] \<Rightarrow> False | d # t \<Rightarrow> literal_body t)
      else literal_body s)"

definition string_literal :: "string \<Rightarrow> bool" where
  "string_literal s \<longleftrightarrow> (\<exists>b. s = [CHR 0x22] @ b @ [CHR 0x22] \<and> literal_body b)"

definition plain_token :: "string \<Rightarrow> bool" where
  "plain_token s \<longleftrightarrow> set s \<inter> {CHR 0x22, CHR ''{'', CHR ''['', CHR ''}'', CHR '']'', CHR '',''} = {}"

text \<open>The compact text of a value; \<open>quote\<close> writes a string.\<close>

fun json_text :: "(string \<Rightarrow> string) \<Rightarrow> json \<Rightarrow> string"
  and json_list_text :: "(string \<Rightarrow> string) \<Rightarrow> json list \<Rightarrow> string"
  and json_member_text :: "(string \<Rightarrow> string) \<Rightarrow> (string \<times> json) list \<Rightarrow> string" where
  "json_text quote JNull = ''null''"
| "json_text quote (JBool b) = (if b then ''true'' else ''false'')"
| "json_text quote (JNumber n) = n"
| "json_text quote (JString s) = quote s"
| "json_text quote (JArray vs) = ''['' @ json_list_text quote vs @ '']''"
| "json_text quote (JObject ms) = ''{'' @ json_member_text quote ms @ ''}''"
| "json_list_text quote [] = []"
| "json_list_text quote (v # vs) = json_text quote v @ (if vs = [] then [] else '','') @ json_list_text quote vs"
| "json_member_text quote [] = []"
| "json_member_text quote ((k, v) # ms) = quote k @ '':'' @ json_text quote v @ (if ms = [] then [] else '','') @ json_member_text quote ms"

text \<open>Its nesting, and its containers and commas.\<close>

fun json_depth :: "json \<Rightarrow> int" and list_depth :: "json list \<Rightarrow> int" and member_depth :: "(string \<times> json) list \<Rightarrow> int" where
  "json_depth (JArray vs) = 1 + list_depth vs"
| "json_depth (JObject ms) = 1 + member_depth ms"
| "json_depth JNull = 0"
| "json_depth (JBool _) = 0"
| "json_depth (JNumber _) = 0"
| "json_depth (JString _) = 0"
| "list_depth [] = 0"
| "list_depth (v # vs) = max (json_depth v) (list_depth vs)"
| "member_depth [] = 0"
| "member_depth ((k, v) # ms) = max (json_depth v) (member_depth ms)"

fun json_items :: "json \<Rightarrow> int" and list_items :: "json list \<Rightarrow> int" and member_items :: "(string \<times> json) list \<Rightarrow> int" where
  "json_items (JArray vs) = 1 + list_items vs"
| "json_items (JObject ms) = 1 + member_items ms"
| "json_items _ = 0"
| "list_items [] = 0"
| "list_items (v # vs) = json_items v + (if vs = [] then 0 else 1) + list_items vs"
| "member_items [] = 0"
| "member_items ((k, v) # ms) = json_items v + (if ms = [] then 0 else 1) + member_items ms"

fun numbers_plain :: "json \<Rightarrow> bool" and list_plain :: "json list \<Rightarrow> bool" and member_plain :: "(string \<times> json) list \<Rightarrow> bool" where
  "numbers_plain (JNumber n) = plain_token n"
| "numbers_plain (JArray vs) = list_plain vs"
| "numbers_plain (JObject ms) = member_plain ms"
| "numbers_plain _ = True"
| "list_plain [] = True"
| "list_plain (v # vs) = (numbers_plain v \<and> list_plain vs)"
| "member_plain [] = True"
| "member_plain ((k, v) # ms) = (numbers_plain v \<and> member_plain ms)"

lemma depth_nonneg: "0 \<le> json_depth v" "0 \<le> list_depth vs" "0 \<le> member_depth ms"
  by (induction v and vs and ms rule: json_depth_list_depth_member_depth.induct) (auto simp: max_def)

lemma items_nonneg: "0 \<le> json_items v" "0 \<le> list_items vs" "0 \<le> member_items ms"
  by (induction v and vs and ms rule: json_depth_list_depth_member_depth.induct) auto

section \<open>The scan measures the value\<close>

lemma scan_token: "plain_token t \<Longrightarrow> scan_json d n False False (t @ rest) = scan_json d n False False rest"
  by (induction t) (auto simp: plain_token_def)

lemma scan_body: "literal_body b \<Longrightarrow> scan_json d n True False (b @ CHR 0x22 # rest) = scan_json d n False False rest"
proof (induction b rule: literal_body.induct)
  case (2 c s)
  then show ?case by (cases s) (auto split: if_splits)
qed simp

lemma scan_literal: "string_literal t \<Longrightarrow> scan_json d n False False (t @ rest) = scan_json d n False False rest"
  by (auto simp: string_literal_def scan_body)

text \<open>Within the bounds a value only adds its items; beyond them the scan stops.\<close>

definition fits :: "int \<Rightarrow> int \<Rightarrow> int \<Rightarrow> int \<Rightarrow> bool" where
  "fits d n depth items \<longleftrightarrow> d + depth \<le> 64 \<and> n + items \<le> 10000"

lemma scan_value:
  assumes q: "\<And>s. string_literal (quote s)"
  shows "numbers_plain v \<Longrightarrow> 0 \<le> d \<Longrightarrow> d \<le> 64 \<Longrightarrow> n \<le> 10000 \<Longrightarrow> scan_json d n False False (json_text quote v @ rest) =
      (if fits d n (json_depth v) (json_items v) then scan_json d (n + json_items v) False False rest else Inl (Sentinel ErrLimitExceeded))"
    and "list_plain vs \<Longrightarrow> 0 \<le> d \<Longrightarrow> d \<le> 64 \<Longrightarrow> n \<le> 10000 \<Longrightarrow> scan_json d n False False (json_list_text quote vs @ rest) =
      (if fits d n (list_depth vs) (list_items vs) then scan_json d (n + list_items vs) False False rest else Inl (Sentinel ErrLimitExceeded))"
    and "member_plain ms \<Longrightarrow> 0 \<le> d \<Longrightarrow> d \<le> 64 \<Longrightarrow> n \<le> 10000 \<Longrightarrow> scan_json d n False False (json_member_text quote ms @ rest) =
      (if fits d n (member_depth ms) (member_items ms) then scan_json d (n + member_items ms) False False rest else Inl (Sentinel ErrLimitExceeded))"
proof (induction v and vs and ms arbitrary: d n rest and d n rest and d n rest
    rule: json_depth_list_depth_member_depth.induct)
  case (1 vs)
  then show ?case using depth_nonneg(2) [of vs] items_nonneg(2) [of vs] by (auto simp: fits_def algebra_simps)
next
  case (2 ms)
  then show ?case using depth_nonneg(3) [of ms] items_nonneg(3) [of ms] by (auto simp: fits_def algebra_simps)
next
  case 3
  then show ?case by (simp add: fits_def)
next
  case (4 b)
  then show ?case by (simp add: fits_def)
next
  case (5 t)
  then show ?case by (simp add: fits_def scan_token)
next
  case (6 t)
  then show ?case by (simp add: fits_def scan_literal [OF q])
next
  case 7
  then show ?case by (simp add: fits_def)
next
  case (8 v vs)
  then show ?case using depth_nonneg(1) [of v] depth_nonneg(2) [of vs] items_nonneg(1) [of v] items_nonneg(2) [of vs]
    by (auto simp: fits_def algebra_simps max_def)
next
  case 9
  then show ?case by (simp add: fits_def)
next
  case (10 k v ms)
  then show ?case using depth_nonneg(1) [of v] depth_nonneg(3) [of ms] items_nonneg(1) [of v] items_nonneg(3) [of ms]
    by (auto simp: fits_def algebra_simps max_def scan_literal [OF q])
qed

text \<open>C39: The scan of toolbox arguments accepts the compact text of a value exactly when the value nests at most 64 deep and has at
  most 10000 containers and commas, whatever its strings contain, and refuses it with the limit error otherwise.\<close>

theorem json_bounds_exact:
  assumes "\<And>s. string_literal (quote s)" "numbers_plain v"
  shows "validate_json_bounds (json_text quote v) =
    (if json_depth v \<le> 64 \<and> json_items v \<le> 10000 then Inr () else Inl (Sentinel ErrLimitExceeded))"
  using scan_value(1) [of quote v 0 0 "[]", OF assms] by (simp add: validate_json_bounds_def fits_def)

text \<open>A writer of strings, and a value whose string looks like structure.\<close>

fun escape_text :: "string \<Rightarrow> string" where
  "escape_text [] = []"
| "escape_text (c # s) = (if c = CHR 0x22 \<or> c = CHR 0x5C then [CHR 0x5C, c] else [c]) @ escape_text s"

definition quote_text :: "string \<Rightarrow> string" where
  "quote_text s = [CHR 0x22] @ escape_text s @ [CHR 0x22]"

lemma quote_text_literal: "string_literal (quote_text s)"
proof -
  have "literal_body (escape_text s)" by (induction s) auto
  then show ?thesis by (auto simp: string_literal_def quote_text_def)
qed

theorem json_bounds_exact_witness:
  "validate_json_bounds (json_text quote_text (JObject [(''a'', JString (replicate 100 (CHR ''[''))), (''b'', JArray [JNumber ''1'', JNull])])) = Inr ()"
  using json_bounds_exact [of quote_text "JObject [(''a'', JString (replicate 100 (CHR ''[''))), (''b'', JArray [JNumber ''1'', JNull])]",
      OF quote_text_literal] by (simp add: plain_token_def)

end
