(* ===== verification/Toolbox.thy ===== *)
theory Toolbox
  imports ToolServer ToolArguments
begin

text \<open>
  The operations of \<open>internal/mcpserver/operations.go\<close> as a client meets them: the registry, the contracts with their handles,
  and the toolboxes, whose callers describe an operation first and call it with the handle of the contract they know.
\<close>

section \<open>The registry\<close>

record operation =
  on_name :: string
  on_toolbox :: string
  on_scope :: string
  on_effect :: string
  on_approval :: string

definition new_operation :: "string \<Rightarrow> string \<Rightarrow> string \<Rightarrow> string \<Rightarrow> string \<Rightarrow> operation" where
  "new_operation name toolbox scope effect approval =
     \<lparr>on_name = name, on_toolbox = toolbox, on_scope = scope, on_effect = effect, on_approval = approval\<rparr>"

definition operation_table :: "'s tool_options \<Rightarrow> bool \<Rightarrow> (bool \<times> operation) list" where
  "operation_table opts access =
     [(to_catalog opts \<noteq> None, new_operation ''catalog_query'' ''repoplane_read'' ''repoplane.read'' ''read_only'' ''none''),
      (to_search opts \<noteq> None, new_operation ''workspace_search'' ''repoplane_read'' ''repoplane.read'' ''read_only'' ''conditional''),
      (to_paths opts \<noteq> None, new_operation ''path_explain'' ''repoplane_read'' ''repoplane.read'' ''read_only'' ''conditional''),
      (to_data opts \<noteq> None, new_operation ''data_query'' ''repoplane_read'' ''repoplane.read'' ''read_only'' ''conditional''),
      (to_records opts \<noteq> None, new_operation ''project_records'' ''repoplane_read'' ''repoplane.read'' ''read_only'' ''none''),
      (to_checkpoint opts \<noteq> None, new_operation ''checkpoint_write'' ''repoplane_write'' ''repoplane.intent.write'' ''write'' ''conditional''),
      (to_memo opts \<noteq> None, new_operation ''memo_write'' ''repoplane_write'' ''repoplane.intent.write'' ''write'' ''conditional''),
      (to_import opts \<noteq> None, new_operation ''check_report_import'' ''repoplane_import'' ''repoplane.report.import'' ''write'' ''conditional''),
      (to_runner opts \<noteq> None, new_operation ''run_prepare'' ''repoplane_runner'' ''repoplane.runner.execute'' ''plan_write'' ''conditional''),
      (to_runner opts \<noteq> None, new_operation ''run_execute'' ''repoplane_runner'' ''repoplane.runner.execute'' ''execute'' ''conditional''),
      (to_runner opts \<noteq> None, new_operation ''run_inspect'' ''repoplane_runner'' ''repoplane.runner.execute'' ''inspect_or_cancel'' ''conditional''),
      (to_backup opts \<noteq> None, new_operation ''memory_backup'' ''repoplane_state'' ''repoplane.state.export'' ''state_export'' ''conditional''),
      (access, new_operation ''runtime_access'' ''repoplane_read'' ''repoplane.read'' ''runtime_access_change'' ''explicit''),
      (to_config opts \<noteq> None \<and> access, new_operation ''runtime_config'' ''repoplane_state'' ''repoplane.state.export'' ''runtime_configuration_change'' ''none'')]"

text \<open>The operations whose services the options provide, in this order.\<close>

definition operation_registry :: "'s tool_options \<Rightarrow> bool \<Rightarrow> operation list" where
  "operation_registry opts access = map snd (filter fst (operation_table opts access))"

lemma new_operation_simps [simp]: "on_name (new_operation n t s e a) = n" "on_toolbox (new_operation n t s e a) = t"
  "on_scope (new_operation n t s e a) = s"
  by (simp_all add: new_operation_def)

text \<open>The scope an operation declares is the one its name and its toolbox require.\<close>

lemma registry_scopes:
  assumes "x \<in> set (operation_registry opts access)"
  shows "required_scope (on_name x) = Some (on_scope x) \<and> required_scope (on_toolbox x) = Some (on_scope x) \<and> on_toolbox x \<in> set toolbox_names"
proof -
  have "list_all (\<lambda>(_, x). required_scope (on_name x) = Some (on_scope x) \<and> required_scope (on_toolbox x) = Some (on_scope x) \<and>
      on_toolbox x \<in> set toolbox_names) (operation_table opts access)"
    by (simp add: operation_table_def required_scope_def toolbox_names_def)
  then show ?thesis using assms by (auto simp: operation_registry_def list_all_iff)
qed

lemma registry_names_distinct: "distinct (map on_name (operation_registry opts access))"
proof -
  have "distinct (map (on_name \<circ> snd) (operation_table opts access))" by (simp add: operation_table_def)
  then show ?thesis unfolding operation_registry_def map_map by (rule distinct_map_filter)
qed

section \<open>Contracts\<close>

definition complete_contract :: "tool_env \<Rightarrow> operation \<Rightarrow> operation_contract" where
  "complete_contract env x =
     \<lparr>kt_version = ''operation-contract.v1'', kt_description = te_describe env (on_name x), kt_input = fst (te_schema env (on_name x)),
      kt_output = Some (snd (te_schema env (on_name x))),
      kt_summary = ''typed operation result; request detail=complete to include its output schema'', kt_scope = on_scope x,
      kt_effect = on_effect x, kt_approval = on_approval x,
      kt_retry = ''re-describe after schema_changed; never retry a side effect without inspecting its result''\<rparr>"

definition contracts_for :: "tool_env \<Rightarrow> operation \<Rightarrow> go_error + (string \<times> operation_contract \<times> operation_contract)" where
  "contracts_for env x =
     try_then (te_contract env (on_toolbox x) (on_name x) (complete_contract env x)) (\<lambda>canonical.
       Inr (''schema:'' @ on_name x @ ''@sha256:'' @ te_sha env canonical, (complete_contract env x)\<lparr>kt_output := None\<rparr>,
            complete_contract env x))"

section \<open>Decoding\<close>

definition decode_as :: "(string \<Rightarrow> go_error + 'q) \<Rightarrow> ('q \<Rightarrow> tool_input) \<Rightarrow> string \<Rightarrow> go_error + tool_input" where
  "decode_as decode wrap raw = try_then (decode_strict decode raw) (\<lambda>q. Inr (wrap q))"

definition decode_input :: "tool_decoders \<Rightarrow> string \<Rightarrow> string \<Rightarrow> go_error + tool_input" where
  "decode_input d name =
     (if name = ''catalog_query'' then decode_as (td_catalog d) InCatalog
      else if name = ''workspace_search'' then decode_as (td_search d) InSearch
      else if name = ''path_explain'' then decode_as (td_path d) InPath
      else if name = ''data_query'' then decode_as (td_data d) InData
      else if name = ''project_records'' then decode_as (td_records d) InRecords
      else if name = ''checkpoint_write'' then decode_as (td_checkpoint d) InCheckpoint
      else if name = ''memo_write'' then decode_as (td_memo d) InMemo
      else if name = ''check_report_import'' then decode_as (td_import d) InImport
      else if name = ''run_prepare'' then decode_as (td_prepare d) InPrepare
      else if name = ''run_execute'' then decode_as (td_execute d) (\<lambda>(plan, limit). InExecute plan limit)
      else if name = ''run_inspect'' then decode_as (td_inspect d) InInspect
      else if name = ''memory_backup'' then decode_as (td_backup d) InBackup
      else if name = ''runtime_access'' then decode_as (td_access d) InAccess
      else if name = ''runtime_config'' then decode_as (td_config d) InConfig
      else (\<lambda>_. Inl (Text ''unknown tool'')))"

lemma decoded_tool: "decode_input d name raw = Inr i \<Longrightarrow> tool_of i = name"
  by (auto simp: decode_input_def decode_as_def tool_of_def try_then_Inr_iff split: if_splits prod.splits)

section \<open>Toolboxes\<close>

record toolbox_request =
  tb_action :: string
  tb_operation :: string
  tb_detail :: string
  tb_known :: string
  tb_handle :: string
  tb_arguments :: string

record toolbox_response =
  tp_status :: string
  tp_operation :: string
  tp_handle :: string
  tp_contract :: "operation_contract option"
  tp_result :: "tool_output option"

definition toolbox_operation :: "'s tool_options \<Rightarrow> bool \<Rightarrow> string \<Rightarrow> string \<Rightarrow> operation option" where
  "toolbox_operation opts access toolbox name =
     find (\<lambda>x. on_toolbox x = toolbox \<and> on_name x = name) (operation_registry opts access)"

definition describe_operation ::
    "tool_env \<Rightarrow> toolbox_request \<Rightarrow> string \<Rightarrow> operation_contract \<Rightarrow> operation_contract \<Rightarrow> tool_error + toolbox_response tool_answer" where
  "describe_operation env q handle compact full =
     (if tb_handle q \<noteq> [] \<or> tb_arguments q \<noteq> [] then Inl (public_error env False (Text ''invalid describe fields''))
      else if tb_detail q \<noteq> [] \<and> tb_detail q \<noteq> ''compact'' \<and> tb_detail q \<noteq> ''complete''
        then Inl (public_error env False (Text ''invalid describe detail''))
      else if tb_known q = handle
        then Inr (Answered \<lparr>tp_status = ''unchanged'', tp_operation = tb_operation q, tp_handle = handle, tp_contract = None, tp_result = None\<rparr>)
      else Inr (Answered \<lparr>tp_status = ''ok'', tp_operation = tb_operation q, tp_handle = handle,
             tp_contract = Some (if tb_detail q = ''complete'' then full else compact), tp_result = None\<rparr>))"

text \<open>\<open>invoke\<close>: the arguments are decoded strictly, then the observed handler runs.\<close>

definition invoke_operation ::
    "tool_env \<Rightarrow> string \<Rightarrow> 's tool_options \<Rightarrow> tool_call \<Rightarrow> string \<Rightarrow> string \<Rightarrow> 's server \<Rightarrow> 's server \<times> (tool_error + tool_output tool_answer)" where
  "invoke_operation env w opts c name raw st =
     (case decode_input (te_decoders env) name raw of
        Inl e \<Rightarrow> (st, Inl (public_error env False e))
      | Inr i \<Rightarrow> observed_tool env w opts c i st)"

definition call_operation ::
    "tool_env \<Rightarrow> string \<Rightarrow> 's tool_options \<Rightarrow> tool_call \<Rightarrow> toolbox_request \<Rightarrow> string \<Rightarrow> operation_contract \<Rightarrow> 's server \<Rightarrow>
     's server \<times> (tool_error + toolbox_response tool_answer)" where
  "call_operation env w opts c q handle compact st =
     (if tb_detail q \<noteq> [] \<or> tb_known q \<noteq> [] \<or> tb_handle q = [] \<or> tb_arguments q = []
        then (st, Inl (public_error env False (Text ''invalid call fields'')))
      else if tb_handle q \<noteq> handle
        then (st, Inr (Answered \<lparr>tp_status = ''schema_changed'', tp_operation = tb_operation q, tp_handle = handle, tp_contract = Some compact,
                tp_result = None\<rparr>))
      else (case invoke_operation env w opts c (tb_operation q) (tb_arguments q) st of
          (st', Inl e) \<Rightarrow> (st', Inl e)
        | (st', Inr (Approval token message)) \<Rightarrow> (st', Inr (Approval token message))
        | (st', Inr (Answered r)) \<Rightarrow>
            (st', Inr (Answered \<lparr>tp_status = ''ok'', tp_operation = tb_operation q, tp_handle = handle, tp_contract = None, tp_result = Some r\<rparr>))))"

definition audited_operation :: "tool_env \<Rightarrow> 's tool_options \<Rightarrow> string \<Rightarrow> 's server \<Rightarrow> 's server \<times> (tool_error + unit)" where
  "audited_operation env opts name st =
     (case to_audit opts of
        None \<Rightarrow> (st, Inr ())
      | Some f \<Rightarrow> (case f name (ss_audit st) of
          (audit, Inl e) \<Rightarrow> (st\<lparr>ss_audit := audit\<rparr>, Inl (public_error env False e))
        | (audit, Inr _) \<Rightarrow> (st\<lparr>ss_audit := audit\<rparr>, Inr ())))"

text \<open>The checks before a contract is looked up; describing stays possible while the state directory overlaps the
  workspace.\<close>

definition admit_operation ::
    "tool_env \<Rightarrow> 's tool_options \<Rightarrow> string \<Rightarrow> bool \<Rightarrow> toolbox_request \<Rightarrow> tool_error + operation" where
  "admit_operation env opts toolbox access q =
     (if 8192 < int (length (tb_action q) + length (tb_operation q) + length (tb_detail q) + length (tb_known q) + length (tb_handle q))
        then Inl (public_error env False (Sentinel ErrLimitExceeded))
      else case authorize_tool opts toolbox of
          Inl e \<Rightarrow> Inl (public_error env False e)
        | Inr _ \<Rightarrow> (case toolbox_operation opts access toolbox (tb_operation q) of
            None \<Rightarrow> Inl (public_error env False (Text ''invalid toolbox operation''))
          | Some x \<Rightarrow> (case authorize_tool opts (on_name x) of
              Inl e \<Rightarrow> if tb_action q = ''describe'' \<and> errors_is e ConfigStateOverlap then Inr x else Inl (public_error env False e)
            | Inr _ \<Rightarrow> Inr x)))"

definition handle_toolbox ::
    "tool_env \<Rightarrow> string \<Rightarrow> 's tool_options \<Rightarrow> string \<Rightarrow> tool_call \<Rightarrow> toolbox_request \<Rightarrow> 's server \<Rightarrow>
     's server \<times> (tool_error + toolbox_response tool_answer)" where
  "handle_toolbox env w opts toolbox c q st =
     (case admit_operation env opts toolbox (ss_access st \<noteq> None) q of
        Inl e \<Rightarrow> (st, Inl e)
      | Inr x \<Rightarrow> (case audited_operation env opts (on_name x) st of
          (st1, Inl e) \<Rightarrow> (st1, Inl e)
        | (st1, Inr _) \<Rightarrow> (case contracts_for env x of
            Inl e \<Rightarrow> (st1, Inl (public_error env False e))
          | Inr (handle, compact, full) \<Rightarrow>
              if tb_action q = ''describe'' then (st1, describe_operation env q handle compact full)
              else if tb_action q = ''call'' then call_operation env w opts c q handle compact st1
              else (st1, Inl (public_error env False (Text ''invalid toolbox action''))))))"

end
