(* ===== verification/ToolPromises.thy ===== *)
theory ToolPromises
  imports Toolbox RecordPromises
begin

text \<open>
  What the tools promise, over the approvals of \<open>RuntimeAccess\<close>: no effect without
  its capability, and no effect through a toolbox but by the current contract.
\<close>

section \<open>Capabilities\<close>

definition needed_kind :: "tool_input \<Rightarrow> string option" where
  "needed_kind i = (case i of InCheckpoint _ \<Rightarrow> Some KindIntentWrite | InMemo _ \<Rightarrow> Some KindIntentWrite
     | InImport _ \<Rightarrow> Some KindReportImport | InPrepare _ \<Rightarrow> Some KindRunner | InExecute _ _ \<Rightarrow> Some KindRunner
     | InInspect _ \<Rightarrow> Some KindRunner | _ \<Rightarrow> None)"

text \<open>The user accepts, in this call, an unexpired proposal for exactly this capability.\<close>

definition approves :: "tool_env \<Rightarrow> tool_call \<Rightarrow> string \<Rightarrow> access \<Rightarrow> bool" where
  "approves env c kind s \<longleftrightarrow> ac_allowed s \<and> tc_response c = Some (Some ''accept'') \<and>
     (\<exists>p. map_of (ac_pending s) (tc_state c) = Some p \<and> pe_kind p = kind \<and> te_now env < pe_expires_at p)"

lemma enabled_after_complete:
  assumes "complete now token accepted s = (s', Inr r)" "enabled s' kind"
  shows "enabled s kind \<or> (accepted \<and> ac_allowed s \<and>
    (\<exists>p. map_of (ac_pending s) token = Some p \<and> pe_kind p = kind \<and> now < pe_expires_at p))"
  using assms
  by (auto simp: complete_def take_pending_def check_item_def apply_item_def apply_root_def publish_grant_def add_grant_def enabled_def
      Let_def split: if_splits option.splits sum.splits prod.splits)

lemma resumed_enabled:
  assumes "resume_approval env c (Some s) = (a, Inr u)" "enabled (the a) kind"
  shows "enabled s kind \<or> approves env c kind s"
proof (cases "tc_state c = []")
  case True
  with assms show ?thesis by (auto simp: resume_approval_def)
next
  case False
  obtain b s' r where b: "approval_accepted c = Inr b" "complete (te_now env) (tc_state c) b s = (s', Inr r)" "a = Some s'"
    using assms(1) False by (auto simp: resume_approval_def complete_approval_def split: sum.splits prod.splits)
  have "b \<Longrightarrow> tc_response c = Some (Some ''accept'')" using b(1) by (auto simp: approval_accepted_def split: option.splits)
  then show ?thesis using enabled_after_complete [OF b(2)] assms(2) b(3) by (auto simp: approves_def)
qed

text \<open>A handler that goes on, or answers.\<close>

definition acts :: "'s server \<Rightarrow> 's server \<Rightarrow> tool_error + tool_output tool_answer \<Rightarrow> bool" where
  "acts st st' out \<longleftrightarrow> ss_services st' \<noteq> ss_services st \<or> (\<exists>r. out = Inr (Answered r))"

lemma capability_tool_acts:
  assumes "capability_tool env c tool kind mutation wrap service q st = (st', out)" "acts st st' out" "ss_access st = Some s"
  shows "(\<exists>s'. ss_access st' = Some s' \<and> enabled s' kind) \<and> (enabled s kind \<or> approves env c kind s)"
proof -
  obtain a x where e: "ensure_capability env c kind tool (Some s) = (a, x)" by (rule prod.exhaust)
  have x: "x = Inr None"
    using assms e by (auto simp: capability_tool_def acts_def split: sum.splits option.splits prod.splits)
  obtain a1 u where r: "resume_approval env c (Some s) = (a1, Inr u)" "enabled (the a1) kind" "a = a1"
    using e unfolding x ensure_capability_def by (auto split: sum.splits prod.splits if_splits simp: Let_def try_then_Inr_iff)
  obtain s' where s': "a1 = Some s'"
    using r(1) by (auto simp: resume_approval_def complete_approval_def split: sum.splits prod.splits if_splits)
  have "ss_access st' = a"
    using assms(1,3) e x by (auto simp: capability_tool_def run_service_def split: prod.splits)
  then show ?thesis using resumed_enabled [OF r(1,2)] r(2,3) s' by auto
qed

text \<open>C34: A tool that writes, imports or runs only acts, by changing a service or answering, with its capability enabled after the
  approval it may have completed; the capability was enabled before or the user accepted, in this very call, an unexpired
  proposal for it.\<close>

theorem tool_needs_capability:
  assumes "handle_tool env opts c i st = (st', out)" "needed_kind i = Some kind" "ss_access st = Some s"
    "ss_services st' \<noteq> ss_services st \<or> (\<exists>r. out = Inr (Answered r))"
  shows "authorize_tool opts (tool_of i) = Inr () \<and> (\<exists>s'. ss_access st' = Some s' \<and> enabled s' kind) \<and>
    (enabled s kind \<or> approves env c kind s)"
proof -
  have acts: "acts st st' out" using assms(4) by (simp add: acts_def)
  have auth: "authorize_tool opts (tool_of i) = Inr ()"
    using assms(1) acts by (auto simp: handle_tool_def acts_def split: sum.splits)
  have d: "dispatch_tool env opts c i st = (st', out)" using assms(1) auth by (simp add: handle_tool_def)
  have none: "\<not> acts st st' out" if "unknown_tool st = (st', out)" using that by (auto simp: unknown_tool_def acts_def)
  have "(\<exists>s'. ss_access st' = Some s' \<and> enabled s' kind) \<and> (enabled s kind \<or> approves env c kind s)"
    using assms(2) d
    by (cases i) (auto simp: needed_kind_def dispatch_tool_def dest: none [THEN notE, OF _ acts]
        dest!: capability_tool_acts [OF _ acts assms(3)] split: option.splits)
  with auth show ?thesis by blast
qed

section \<open>Toolboxes\<close>

lemma describing_keeps: "describe_operation env q handle compact full = out \<Longrightarrow> st = st" by simp

lemma called_effects:
  assumes "call_operation env w opts c q handle compact st = (st', out)" "st' \<noteq> st"
  obtains i where "tb_handle q = handle" "decode_input (te_decoders env) (tb_operation q) (tb_arguments q) = Inr i"
    "fst (observed_tool env w opts c i st) = st'"
proof -
  have h: "tb_handle q = handle" using assms by (auto simp: call_operation_def split: if_splits)
  obtain x where "invoke_operation env w opts c (tb_operation q) (tb_arguments q) st = (st', x)"
    using assms by (auto simp: call_operation_def split: if_splits prod.splits sum.splits tool_answer.splits)
  then show thesis using that [OF h] assms(2) by (auto simp: invoke_operation_def split: sum.splits)
qed

lemma audited_keeps:
  "audited_operation env opts name st = (st1, r) \<Longrightarrow>
     ss_services st1 = ss_services st \<and> ss_access st1 = ss_access st \<and> ss_usage st1 = ss_usage st"
  by (auto simp: audited_operation_def split: option.splits sum.splits prod.splits)

lemma decoded_bounds: "decode_input d name raw = Inr i \<Longrightarrow> validate_json_bounds raw = Inr () \<and> int (length raw) \<le> 1048576"
  by (auto simp: decode_input_def decode_as_def decode_strict_def try_then_Inr_iff split: if_splits prod.splits)

text \<open>C35: A call of a toolbox only changes a service, an approval or a counter when it calls an operation of this toolbox that both
  authorizations admit, with exactly the current handle of its contract and arguments within the bounds that decode for this
  operation; what happens then is what the operation does, after the audit of its name.\<close>

theorem toolbox_effects_exact:
  assumes "handle_toolbox env w opts toolbox c q st = (st', out)"
    "ss_services st' \<noteq> ss_services st \<or> ss_access st' \<noteq> ss_access st \<or> ss_usage st' \<noteq> ss_usage st"
  shows "\<exists>x contracts i st1. toolbox_operation opts (ss_access st \<noteq> None) toolbox (tb_operation q) = Some x \<and>
    authorize_tool opts toolbox = Inr () \<and> authorize_tool opts (tb_operation q) = Inr () \<and> tb_action q = ''call'' \<and>
    contracts_for env x = Inr (tb_handle q, contracts) \<and> validate_json_bounds (tb_arguments q) = Inr () \<and>
    decode_input (te_decoders env) (tb_operation q) (tb_arguments q) = Inr i \<and> tool_of i = tb_operation q \<and>
    audited_operation env opts (tb_operation q) st = (st1, Inr ()) \<and> st' = fst (observed_tool env w opts c i st1)"
proof -
  obtain x where x: "admit_operation env opts toolbox (ss_access st \<noteq> None) q = Inr x"
    using assms by (cases "admit_operation env opts toolbox (ss_access st \<noteq> None) q") (auto simp: handle_toolbox_def)
  obtain st1 a where a: "audited_operation env opts (on_name x) st = (st1, a)" by (rule prod.exhaust)
  note kept = audited_keeps [OF a]
  obtain u where u: "a = Inr u" using assms x a kept by (cases a) (auto simp: handle_toolbox_def)
  obtain handle compact full where k: "contracts_for env x = Inr (handle, compact, full)"
    using assms x a u kept by (cases "contracts_for env x") (auto simp: handle_toolbox_def)
  have call: "tb_action q = ''call''" "call_operation env w opts c q handle compact st1 = (st', out)"
    using assms x a u k kept by (auto simp: handle_toolbox_def split: if_splits)
  have "st' \<noteq> st1" using assms(2) kept by auto
  from called_effects [OF call(2) this] obtain i where
    i: "tb_handle q = handle" "decode_input (te_decoders env) (tb_operation q) (tb_arguments q) = Inr i" "fst (observed_tool env w opts c i st1) = st'" .
  have op: "toolbox_operation opts (ss_access st \<noteq> None) toolbox (tb_operation q) = Some x" "authorize_tool opts toolbox = Inr ()"
    "authorize_tool opts (on_name x) = Inr ()"
    using x call(1) by (auto simp: admit_operation_def split: if_splits sum.splits option.splits)
  have name: "on_name x = tb_operation q" using op(1) by (auto simp: toolbox_operation_def find_Some_iff)
  show ?thesis
    using op call(1) k i(1) decoded_bounds [OF i(2)] i decoded_tool [OF i(2)] a u name by auto
qed

section \<open>A server with one tool\<close>

definition demo_mcp_os :: os_env where
  "demo_mcp_os = \<lparr>env_realpath = Inr, env_lstat = (\<lambda>_. LstatFound), env_stat_dir = (\<lambda>_. Inr True),
     env_stat_file = (\<lambda>_. Inr (True, 1)), env_read = (\<lambda>_. Inr []), env_cwd = ''/''\<rparr>"

definition demo_decoders :: tool_decoders where
  "demo_decoders = \<lparr>td_catalog = (\<lambda>_. Inl (Text [])), td_search = (\<lambda>_. Inl (Text [])), td_path = (\<lambda>_. Inl (Text [])),
     td_data = (\<lambda>_. Inl (Text [])), td_records = (\<lambda>_. Inl (Text [])), td_checkpoint = (\<lambda>_. Inl (Text [])), td_memo = (\<lambda>_. Inr demo_memo),
     td_import = (\<lambda>_. Inl (Text [])), td_prepare = (\<lambda>_. Inl (Text [])), td_execute = (\<lambda>_. Inl (Text [])),
     td_inspect = (\<lambda>_. Inl (Text [])), td_backup = (\<lambda>_. Inl (Text [])), td_access = (\<lambda>_. Inl (Text [])), td_config = (\<lambda>_. Inl (Text []))\<rparr>"

definition demo_mcp :: tool_env where
  "demo_mcp = \<lparr>te_os = demo_mcp_os, te_now = 7, te_token = Inr ''t1'', te_digest = (\<lambda>s. s), te_quote = (\<lambda>s. s), te_text = (\<lambda>_. ''error''),
     te_details = (\<lambda>_. []), te_script = (\<lambda>_. []), te_correlation = ''err_1'', te_decoders = demo_decoders, te_describe = (\<lambda>n. n),
     te_schema = (\<lambda>_. (''in'', ''out'')), te_contract = (\<lambda>_ n _. Inr n), te_sha = (\<lambda>s. s), te_input_size = (\<lambda>_. 1),
     te_output_size = (\<lambda>_. 1), te_duration = 1, te_days = demo_days, te_usage_fault = None\<rparr>"

definition demo_memo_service :: "(record_db, memo_request, mutation_response) service" where
  "demo_memo_service = (\<lambda>_ q db. write_memo demo_records 5 6 ''m1'' (\<lambda>d. d) q db)"

definition demo_options :: "record_db tool_options" where
  "demo_options = \<lparr>to_catalog = None, to_search = None, to_paths = None, to_data = None, to_records = None, to_checkpoint = None,
     to_memo = Some demo_memo_service, to_import = None, to_runner = None, to_backup = None, to_config = None, to_authorize = None,
     to_audit = None, to_transport = Some ''stdio''\<rparr>"

definition demo_access :: access where
  "demo_access = new_access \<lparr>rt_id = ''w'', rt_lexical = ''/r'', rt_root_resolved = ''/r'', rt_grants = []\<rparr> True
     \<lparr>in_intent_write = False, in_report_import = False, in_runner = False, in_cache = False\<rparr>"

text \<open>The state after the first call, which asked for the approval \<open>t1\<close>.\<close>

definition demo_asked :: access where
  "demo_asked = fst (ask_approval demo_mcp ''memo_write'' KindIntentWrite [] demo_access)"

definition demo_serving :: "record_db server" where
  "demo_serving = \<lparr>ss_access = Some demo_asked, ss_services = empty_db, ss_usage = [], ss_audit = []\<rparr>"

definition demo_accepting :: tool_call where
  "demo_accepting = \<lparr>tc_state = ''t1'', tc_response = Some (Some ''accept'')\<rparr>"

definition demo_toolbox_call :: toolbox_request where
  "demo_toolbox_call = \<lparr>tb_action = ''call'', tb_operation = ''memo_write'', tb_detail = [], tb_known = [],
     tb_handle = ''schema:memo_write@sha256:memo_write'', tb_arguments = ''{}''\<rparr>"

definition answered :: "tool_error + 'a tool_answer \<Rightarrow> bool" where
  "answered out = (case out of Inr (Answered _) \<Rightarrow> True | _ \<Rightarrow> False)"

lemma demo_serving_parts: "ss_access demo_serving = Some demo_asked" "db_records (ss_services demo_serving) = []"
  by (simp_all add: demo_serving_def empty_db_def)

lemma demo_memo_answered:
  "answered (snd (handle_tool demo_mcp demo_options demo_accepting (InMemo demo_memo) demo_serving))"
  "\<not> enabled demo_asked KindIntentWrite"
  "db_records (ss_services (fst (handle_toolbox demo_mcp ''w'' demo_options ''repoplane_write'' demo_accepting demo_toolbox_call demo_serving))) \<noteq> []"
  by code_simp+

theorem tool_needs_capability_witness:
  "case handle_tool demo_mcp demo_options demo_accepting (InMemo demo_memo) demo_serving of (st', out) \<Rightarrow>
     answered out \<and> (\<exists>s'. ss_access st' = Some s' \<and> enabled s' KindIntentWrite) \<and> approves demo_mcp demo_accepting KindIntentWrite demo_asked"
proof -
  obtain st' out where h: "handle_tool demo_mcp demo_options demo_accepting (InMemo demo_memo) demo_serving = (st', out)" by (rule prod.exhaust)
  have a: "answered out" using demo_memo_answered(1) by (simp add: h)
  then have "\<exists>r. out = Inr (Answered r)" by (auto simp: answered_def split: sum.splits tool_answer.splits)
  then show ?thesis
    using tool_needs_capability [OF h, of KindIntentWrite demo_asked] demo_memo_answered(2) a
    unfolding h prod.case by (simp add: needed_kind_def demo_serving_parts)
qed

theorem toolbox_effects_exact_witness:
  "\<exists>i. decode_input demo_decoders ''memo_write'' ''{}'' = Inr i \<and>
     fst (handle_toolbox demo_mcp ''w'' demo_options ''repoplane_write'' demo_accepting demo_toolbox_call demo_serving) =
       fst (observed_tool demo_mcp ''w'' demo_options demo_accepting i demo_serving)"
proof -
  obtain st' out where h: "handle_toolbox demo_mcp ''w'' demo_options ''repoplane_write'' demo_accepting demo_toolbox_call demo_serving = (st', out)"
    by (rule prod.exhaust)
  have "ss_services st' \<noteq> ss_services demo_serving" using demo_memo_answered(3) demo_serving_parts(2) unfolding h by auto
  with toolbox_effects_exact [OF h] obtain i st1 where
    i: "decode_input (te_decoders demo_mcp) (tb_operation demo_toolbox_call) (tb_arguments demo_toolbox_call) = Inr i"
    "audited_operation demo_mcp demo_options (tb_operation demo_toolbox_call) demo_serving = (st1, Inr ())"
    "st' = fst (observed_tool demo_mcp ''w'' demo_options demo_accepting i st1)" by blast
  have "st1 = demo_serving" using i(2) by (simp add: audited_operation_def demo_options_def)
  then show ?thesis using i(1,3) unfolding h by (auto simp: demo_mcp_def demo_toolbox_call_def)
qed

end
