(* ===== verification/HttpLimiter.thy ===== *)
theory HttpLimiter
  imports GoPrelude
begin

text \<open>
  The limiter of \<open>internal/httptransport/server.go\<close>: a bound on concurrent requests and, per principal, on concurrent requests and
  on admissions in a minute. Its critical sections are functions; a step relation interleaves those of any number of requests.
\<close>

section \<open>The critical sections\<close>

record limits_profile =
  ml_body :: int
  ml_concurrent :: int
  ml_principal :: int
  ml_minute :: int
  ml_read_header :: int
  ml_read :: int
  ml_idle :: int
  ml_shutdown :: int

record principal_state =
  ps_minute :: int
  ps_count :: int
  ps_active :: int
  ps_seen :: time

type_synonym principals = "(string, principal_state) gomap"

record limiter =
  la_used :: int
  la_states :: principals

definition new_limiter :: limiter where "new_limiter = \<lparr>la_used = 0, la_states = []\<rparr>"

definition minute_of :: "time \<Rightarrow> int" where "minute_of now = now div seconds 60"

definition idle_state :: "time \<Rightarrow> principal_state \<Rightarrow> bool" where
  "idle_state now x \<longleftrightarrow> seconds 120 < now - ps_seen x \<and> ps_active x = 0"

definition swept :: "time \<Rightarrow> principals \<Rightarrow> principals" where
  "swept now states = (if 1024 \<le> length states then filter (\<lambda>(_, x). \<not> idle_state now x) states else states)"

definition blank_principal :: principal_state where
  "blank_principal = \<lparr>ps_minute = 0, ps_count = 0, ps_active = 0, ps_seen = zero_time\<rparr>"

definition at_minute :: "time \<Rightarrow> principal_state \<Rightarrow> principal_state" where
  "at_minute now x = (if ps_minute x \<noteq> minute_of now then x\<lparr>ps_minute := minute_of now, ps_count := 0\<rparr> else x)"

text \<open>The channel of slots, and the section under the mutex; \<open>Inl\<close> gives the seconds after which to retry.\<close>

definition take_slot :: "limits_profile \<Rightarrow> limiter \<Rightarrow> limiter option" where
  "take_slot l s = (if la_used s < ml_concurrent l then Some (s\<lparr>la_used := la_used s + 1\<rparr>) else None)"

definition drop_slot :: "limiter \<Rightarrow> limiter" where "drop_slot s = s\<lparr>la_used := la_used s - 1\<rparr>"

definition decide :: "limits_profile \<Rightarrow> time \<Rightarrow> string \<Rightarrow> principals \<Rightarrow> principals \<times> (int + unit)" where
  "decide l now p states0 =
     (let states = swept now states0 in
      if map_of states p = None \<and> 1024 \<le> length states then (states, Inl 1)
      else let x = at_minute now (case map_of states p of None \<Rightarrow> blank_principal | Some x \<Rightarrow> x)
        in if ml_minute l \<le> ps_count x \<or> ml_principal l \<le> ps_active x
           then (map_put p x states, Inl (60 - now div seconds 1 mod 60))
           else (map_put p (x\<lparr>ps_count := ps_count x + 1, ps_active := ps_active x + 1, ps_seen := now\<rparr>) states, Inr ()))"

definition acquire :: "limits_profile \<Rightarrow> time \<Rightarrow> string \<Rightarrow> limiter \<Rightarrow> limiter \<times> (int + unit)" where
  "acquire l now p s =
     (case take_slot l s of
        None \<Rightarrow> (s, Inl 1)
      | Some s1 \<Rightarrow> (case decide l now p (la_states s1) of
          (states, Inl wait) \<Rightarrow> (drop_slot (s1\<lparr>la_states := states\<rparr>), Inl wait)
        | (states, Inr _) \<Rightarrow> (s1\<lparr>la_states := states\<rparr>, Inr ())))"

definition release_principal :: "time \<Rightarrow> string \<Rightarrow> principals \<Rightarrow> principals" where
  "release_principal now p states =
     (case map_of states p of None \<Rightarrow> states | Some x \<Rightarrow> map_put p (x\<lparr>ps_active := ps_active x - 1, ps_seen := now\<rparr>) states)"

definition release_slot :: "time \<Rightarrow> string \<Rightarrow> limiter \<Rightarrow> limiter" where
  "release_slot now p s = drop_slot (s\<lparr>la_states := release_principal now p (la_states s)\<rparr>)"

section \<open>Interleaved requests\<close>

text \<open>Requests that have a slot and wait for the mutex, with the time of their arrival; the principals of running requests; the
  number of slots about to be given back; all decisions, the last one first; the clock.\<close>

record load =
  ld_limiter :: limiter
  ld_waiting :: "(string \<times> time) list"
  ld_running :: "string list"
  ld_leaving :: nat
  ld_decisions :: "(string \<times> time \<times> bool) list"
  ld_clock :: time

definition idle_load :: "time \<Rightarrow> load" where
  "idle_load t = \<lparr>ld_limiter = new_limiter, ld_waiting = [], ld_running = [], ld_leaving = 0, ld_decisions = [], ld_clock = t\<rparr>"

definition with_states :: "principals \<Rightarrow> load \<Rightarrow> load" where
  "with_states states s = s\<lparr>ld_limiter := (ld_limiter s)\<lparr>la_states := states\<rparr>\<rparr>"

inductive load_step :: "limits_profile \<Rightarrow> load \<Rightarrow> load \<Rightarrow> bool" for l where
  tick: "ld_clock s \<le> t \<Longrightarrow> load_step l s (s\<lparr>ld_clock := t\<rparr>)"
| arrive: "take_slot l (ld_limiter s) = Some x \<Longrightarrow>
    load_step l s (s\<lparr>ld_limiter := x, ld_waiting := (p, ld_clock s) # ld_waiting s\<rparr>)"
| admit: "(p, t0) \<in> set (ld_waiting s) \<Longrightarrow> t0 \<le> t \<Longrightarrow> t \<le> ld_clock s \<Longrightarrow> decide l t p (la_states (ld_limiter s)) = (states, Inr ()) \<Longrightarrow>
    load_step l s ((with_states states s)\<lparr>ld_waiting := remove1 (p, t0) (ld_waiting s), ld_running := p # ld_running s,
      ld_decisions := (p, t, True) # ld_decisions s\<rparr>)"
| refuse: "(p, t0) \<in> set (ld_waiting s) \<Longrightarrow> t0 \<le> t \<Longrightarrow> t \<le> ld_clock s \<Longrightarrow> decide l t p (la_states (ld_limiter s)) = (states, Inl wait) \<Longrightarrow>
    load_step l s ((with_states states s)\<lparr>ld_waiting := remove1 (p, t0) (ld_waiting s), ld_leaving := Suc (ld_leaving s),
      ld_decisions := (p, t, False) # ld_decisions s\<rparr>)"
| release: "p \<in> set (ld_running s) \<Longrightarrow>
    load_step l s ((with_states (release_principal (ld_clock s) p (la_states (ld_limiter s))) s)
      \<lparr>ld_running := remove1 p (ld_running s), ld_leaving := Suc (ld_leaving s)\<rparr>)"
| leave: "ld_leaving s = Suc n \<Longrightarrow> load_step l s (s\<lparr>ld_limiter := drop_slot (ld_limiter s), ld_leaving := n\<rparr>)"

inductive load_reachable :: "limits_profile \<Rightarrow> load \<Rightarrow> bool" for l where
  load_start: "load_reachable l (idle_load t)"
| load_next: "load_reachable l s \<Longrightarrow> load_step l s s' \<Longrightarrow> load_reachable l s'"

section \<open>Slots and running requests\<close>

lemma with_states_simps [simp]:
  "ld_limiter (with_states states s) = (ld_limiter s)\<lparr>la_states := states\<rparr>" "ld_waiting (with_states states s) = ld_waiting s"
  "ld_running (with_states states s) = ld_running s" "ld_leaving (with_states states s) = ld_leaving s"
  "ld_decisions (with_states states s) = ld_decisions s" "ld_clock (with_states states s) = ld_clock s"
  by (simp_all add: with_states_def)

lemma at_minute_simps [simp]: "ps_active (at_minute now x) = ps_active x" "ps_seen (at_minute now x) = ps_seen x"
  "ps_minute (at_minute now x) = minute_of now"
  by (simp_all add: at_minute_def)

definition active_of :: "principals \<Rightarrow> string \<Rightarrow> int" where
  "active_of states p = (case map_of states p of None \<Rightarrow> 0 | Some x \<Rightarrow> ps_active x)"

definition principals_ok :: "limits_profile \<Rightarrow> string list \<Rightarrow> principals \<Rightarrow> bool" where
  "principals_ok l running states \<longleftrightarrow> wf_map states \<and> length states \<le> 1024 \<and>
     (\<forall>p. active_of states p = int (count_list running p) \<and> int (count_list running p) \<le> ml_principal l)"

lemma active_put [simp]: "active_of (map_put p x states) q = (if q = p then ps_active x else active_of states q)"
  by (simp add: active_of_def)

lemma swept_wf: "wf_map states \<Longrightarrow> wf_map (swept now states)"
  by (auto simp: swept_def wf_map_def intro: distinct_map_filter)

lemma swept_lookup:
  assumes "wf_map states"
  shows "map_of (swept now states) p = (case map_of states p of None \<Rightarrow> None
     | Some x \<Rightarrow> if 1024 \<le> length states \<and> idle_state now x then None else Some x)"
proof -
  have "map_of (filter (\<lambda>(_, x). \<not> idle_state now x) states) p =
      (case map_of states p of None \<Rightarrow> None | Some x \<Rightarrow> if idle_state now x then None else Some x)"
    using assms
    by (induction states) (auto simp: wf_map_def map_of_eq_None_iff image_iff dest: map_of_SomeD split: option.splits)
  then show ?thesis by (auto simp: swept_def split: option.splits)
qed

lemma swept_active: "wf_map states \<Longrightarrow> active_of (swept now states) p = active_of states p"
  by (simp add: active_of_def swept_lookup idle_state_def split: option.splits)

lemma swept_length: "length (swept now states) \<le> length states"
  by (simp add: swept_def)

lemma swept_ok: "principals_ok l running states \<Longrightarrow> principals_ok l running (swept now states)"
  using swept_length [of now states] by (simp add: principals_ok_def swept_wf swept_active)

lemma put_present_length: "map_of states p \<noteq> None \<Longrightarrow> length (map_put p x states) = length states"
  unfolding map_put_def by (induction states) (auto split: if_splits)

lemma put_length: "map_of states p = None \<longrightarrow> length states < n \<Longrightarrow> length states \<le> n \<Longrightarrow> length (map_put p x states) \<le> n"
  using put_present_length [of states p x] map_put_length [of p x states] by (cases "map_of states p") auto

lemma put_ok:
  assumes "principals_ok l running states" "map_of states p = None \<longrightarrow> length states < 1024" "ps_active x \<le> ml_principal l"
    "\<And>q. int (count_list running' q) = (if q = p then ps_active x else int (count_list running q))"
  shows "principals_ok l running' (map_put p x states)"
  using assms by (simp add: principals_ok_def put_length)

lemma decide_ok:
  assumes "decide l now p states = (states', out)" "principals_ok l running states"
  shows "principals_ok l (if out = Inr () then p # running else running) states'"
proof -
  note ok = swept_ok [OF assms(2), of now]
  let ?x = "at_minute now (case map_of (swept now states) p of None \<Rightarrow> blank_principal | Some x \<Rightarrow> x)"
  have x: "ps_active ?x = active_of (swept now states) p" by (simp add: active_of_def blank_principal_def split: option.split)
  have a: "active_of (swept now states) p = int (count_list running p)" "int (count_list running p) \<le> ml_principal l"
    using ok by (simp_all add: principals_ok_def)
  consider "states' = swept now states" "out \<noteq> Inr ()"
    | "states' = map_put p ?x (swept now states)" "out \<noteq> Inr ()" "map_of (swept now states) p = None \<longrightarrow> length (swept now states) < 1024"
    | "states' = map_put p (?x\<lparr>ps_count := ps_count ?x + 1, ps_active := ps_active ?x + 1, ps_seen := now\<rparr>) (swept now states)"
      "out = Inr ()" "ps_active ?x < ml_principal l" "map_of (swept now states) p = None \<longrightarrow> length (swept now states) < 1024"
    using assms(1) unfolding decide_def Let_def by (auto simp del: at_minute_simps split: if_splits)
  then show ?thesis
  proof cases
    case 1
    then show ?thesis using ok by simp
  next
    case 2
    have "principals_ok l running (map_put p ?x (swept now states))"
      by (rule put_ok [OF ok 2(3)]) (simp_all only: x a split: if_split, simp)
    then show ?thesis using 2 by simp
  next
    case 3
    have "principals_ok l (p # running) states'"
      unfolding 3(1) by (rule put_ok [OF ok 3(4)]) (use 3(3) x a in simp_all)
    then show ?thesis using 3(2) by simp
  qed
qed

lemma release_ok:
  assumes "principals_ok l running states" "p \<in> set running"
  shows "principals_ok l (remove1 p running) (release_principal now p states)"
proof -
  have n: "0 < count_list running p" using assms(2) by (metis count_list_0_iff gr0I)
  have a: "active_of states p = int (count_list running p)" "int (count_list running p) \<le> ml_principal l"
    using assms(1) by (simp_all add: principals_ok_def)
  then obtain x where x: "map_of states p = Some x" "ps_active x = int (count_list running p)"
    using n by (auto simp: active_of_def split: option.splits)
  have c: "count_list (remove1 p running) q = (if q = p then count_list running q - 1 else count_list running q)" for q
    by (induction running) (auto simp: neq0_conv count_list_0_iff)
  show ?thesis
    unfolding release_principal_def x(1) option.case
    by (rule put_ok [OF assms(1)]) (use x n a in \<open>auto simp: c of_nat_diff\<close>)
qed

definition load_ok :: "limits_profile \<Rightarrow> load \<Rightarrow> bool" where
  "load_ok l s \<longleftrightarrow> principals_ok l (ld_running s) (la_states (ld_limiter s)) \<and>
     la_used (ld_limiter s) = int (length (ld_waiting s) + length (ld_running s) + ld_leaving s) \<and>
     la_used (ld_limiter s) \<le> ml_concurrent l"

lemma remove1_length: "x \<in> set xs \<Longrightarrow> length xs = Suc (length (remove1 x xs))"
  by (induction xs) auto

lemma load_step_ok:
  assumes "load_step l s s'" "load_ok l s"
  shows "load_ok l s'"
  using assms
proof (cases rule: load_step.cases)
  case (admit p t0 t states)
  then show ?thesis using admit(1) decide_ok [OF admit(5)] assms(2) remove1_length [OF admit(2)] by (simp add: load_ok_def)
next
  case (refuse p t0 t states wait)
  then show ?thesis using refuse(1) decide_ok [OF refuse(5)] assms(2) remove1_length [OF refuse(2)] by (simp add: load_ok_def)
next
  case (release p)
  then show ?thesis using release(1) release_ok [OF _ release(2)] assms(2) remove1_length [OF release(2)] by (simp add: load_ok_def)
qed (auto simp: load_ok_def take_slot_def drop_slot_def split: if_splits)

lemma reachable_load_ok:
  "load_reachable l s \<Longrightarrow> 0 \<le> ml_principal l \<Longrightarrow> 0 \<le> ml_concurrent l \<Longrightarrow> load_ok l s"
proof (induction rule: load_reachable.induct)
  case (load_start t)
  then show ?case by (simp add: load_ok_def idle_load_def new_limiter_def principals_ok_def wf_map_def active_of_def)
next
  case (load_next s s')
  then show ?case by (blast intro: load_step_ok)
qed

section \<open>Admissions in a minute\<close>

text \<open>The decisions were made in the order of the clock readings they used. The code reads the clock before it takes the mutex,
  so this can fail.\<close>

definition in_order :: "(string \<times> time \<times> bool) list \<Rightarrow> bool" where
  "in_order ds \<longleftrightarrow> sorted_wrt (\<ge>) (map (\<lambda>(_, t, _). t) ds)"

definition admissions :: "string \<Rightarrow> int \<Rightarrow> (string \<times> time \<times> bool) list \<Rightarrow> int" where
  "admissions p m ds = int (length (filter (\<lambda>(q, t, ok). ok \<and> q = p \<and> minute_of t = m) ds))"

definition outdated :: "time \<Rightarrow> (string \<times> time \<times> bool) list \<Rightarrow> bool" where
  "outdated t ds \<longleftrightarrow> (\<exists>(q, u, ok) \<in> set ds. minute_of t < minute_of u)"

text \<open>What a state knows of the admissions of its principal.\<close>

definition rate_counted :: "string \<Rightarrow> principal_state option \<Rightarrow> (string \<times> time \<times> bool) list \<Rightarrow> bool" where
  "rate_counted p state ds \<longleftrightarrow> (case state of
      None \<Rightarrow> \<forall>t. (p, t, True) \<in> set ds \<longrightarrow> outdated t ds
    | Some x \<Rightarrow> (\<forall>t. (p, t, True) \<in> set ds \<longrightarrow> minute_of t \<le> ps_minute x \<and> (t \<le> ps_seen x \<or> outdated t ds)) \<and>
        admissions p (ps_minute x) ds \<le> ps_count x \<and> (\<exists>(q, u, ok) \<in> set ds. ps_minute x \<le> minute_of u))"

definition rate_ok :: "limits_profile \<Rightarrow> principals \<Rightarrow> (string \<times> time \<times> bool) list \<Rightarrow> bool" where
  "rate_ok l states ds \<longleftrightarrow> (\<forall>p. rate_counted p (map_of states p) ds \<and> (\<forall>m. admissions p m ds \<le> ml_minute l))"

lemma minute_mono: "t \<le> u \<Longrightarrow> minute_of t \<le> minute_of u"
  by (simp add: minute_of_def seconds_def zdiv_mono1)

lemma minute_far: "seconds 120 < u - t \<Longrightarrow> minute_of t < minute_of u"
  by (simp add: minute_of_def seconds_def)

lemma in_order_Cons: "in_order ((p, t, ok) # ds) \<longleftrightarrow> (\<forall>(q, u, b) \<in> set ds. u \<le> t) \<and> in_order ds"
  by (auto simp: in_order_def)

lemma admissions_Cons: "admissions p m ((q, t, ok) # ds) = (if ok \<and> q = p \<and> minute_of t = m then 1 else 0) + admissions p m ds"
  by (simp add: admissions_def)

lemma admissions_none: "(\<And>t. (p, t, True) \<in> set ds \<Longrightarrow> minute_of t \<noteq> m) \<Longrightarrow> admissions p m ds = 0"
  by (fastforce simp: admissions_def filter_empty_conv)

lemma outdated_Cons: "outdated t ds \<Longrightarrow> outdated t (d # ds)"
  by (auto simp: outdated_def)

lemma outdated_before:
  assumes "outdated t ds" "in_order ((p, u, ok) # ds)"
  shows "minute_of t < minute_of u"
  using assms minute_mono by (fastforce simp: outdated_def in_order_Cons)

text \<open>A further decision in order, about another principal, and the eviction of an idle state.\<close>

lemma counted_other:
  assumes "rate_counted p state ds" "q \<noteq> p \<or> \<not> ok"
  shows "rate_counted p state ((q, t, ok) # ds)"
  using assms by (auto simp: rate_counted_def admissions_Cons intro: outdated_Cons split: option.splits)

lemma counted_evicted:
  assumes "rate_counted p (Some x) ds" "in_order ((q, t, ok) # ds)" "idle_state t x" "q \<noteq> p \<or> \<not> ok"
  shows "rate_counted p None ((q, t, ok) # ds)"
proof -
  have "minute_of u < minute_of t" if "(p, u, True) \<in> set ds" for u
  proof (cases "outdated u ds")
    case False
    then have "u \<le> ps_seen x" using assms(1) that by (auto simp: rate_counted_def)
    then have "seconds 120 < t - u" using assms(3) by (simp add: idle_state_def)
    then show ?thesis by (rule minute_far)
  qed (use outdated_before assms(2) in blast)
  then show ?thesis using assms(4) by (auto simp: rate_counted_def outdated_def)
qed

text \<open>The state a decision looks at, at the minute of the decision.\<close>

lemma state_now:
  assumes "wf_map states" "rate_counted p (map_of states p) ds" "in_order ((p, t, ok) # ds)"
    "x = at_minute t (case map_of (swept t states) p of None \<Rightarrow> blank_principal | Some y \<Rightarrow> y)"
  shows "map_of (swept t states) p = None \<Longrightarrow> (p, u, True) \<in> set ds \<Longrightarrow> minute_of u < minute_of t"
    and "admissions p (minute_of t) ds \<le> ps_count x"
    and "(p, u, True) \<in> set ds \<Longrightarrow> u \<le> ps_seen x \<or> outdated u ((p, t, ok) # ds)"
proof -
  have fresh: "minute_of u < minute_of t" if "map_of (swept t states) p = None" "(p, u, True) \<in> set ds" for u
  proof (cases "map_of states p")
    case None
    then show ?thesis using assms(2) that(2) outdated_before [OF _ assms(3)] by (auto simp: rate_counted_def)
  next
    case (Some y)
    then have "idle_state t y" using that(1) assms(1) by (auto simp: swept_lookup split: if_splits)
    then have "rate_counted p None ((p, t, False) # ds)" using assms(2,3) Some by (intro counted_evicted) (auto simp: in_order_def)
    then have "outdated u ((p, t, False) # ds)" using that(2) by (auto simp: rate_counted_def)
    then show ?thesis using outdated_before [of u ds p t ok, OF _ assms(3)] by (auto simp: outdated_def)
  qed
  show "map_of (swept t states) p = None \<Longrightarrow> (p, u, True) \<in> set ds \<Longrightarrow> minute_of u < minute_of t" by (rule fresh)
  have seen: "rate_counted p (Some y) ds" if "map_of (swept t states) p = Some y" for y
    using that assms(1,2) by (auto simp: swept_lookup split: option.splits if_splits)
  show "admissions p (minute_of t) ds \<le> ps_count x"
  proof (cases "map_of (swept t states) p")
    case None
    then have "admissions p (minute_of t) ds = 0" using fresh by (intro admissions_none) fastforce
    then show ?thesis by (simp add: assms(4) None at_minute_def blank_principal_def)
  next
    case (Some y)
    show ?thesis
    proof (cases "ps_minute y = minute_of t")
      case True
      then show ?thesis using seen [OF Some] by (simp add: assms(4) Some at_minute_def rate_counted_def)
    next
      case False
      obtain q u b where "(q, u, b) \<in> set ds" "ps_minute y \<le> minute_of u" using seen [OF Some] by (auto simp: rate_counted_def)
      then have "ps_minute y < minute_of t" using False assms(3) minute_mono [of u t] by (fastforce simp: in_order_Cons)
      then have "admissions p (minute_of t) ds = 0"
        using seen [OF Some] by (intro admissions_none) (fastforce simp: rate_counted_def)
      then show ?thesis by (simp add: assms(4) Some at_minute_def False)
    qed
  qed
  show "(p, u, True) \<in> set ds \<Longrightarrow> u \<le> ps_seen x \<or> outdated u ((p, t, ok) # ds)"
  proof (cases "map_of (swept t states) p")
    case None
    then show "(p, u, True) \<in> set ds \<Longrightarrow> ?thesis" using fresh by (auto simp: outdated_def)
  next
    case (Some y)
    then show "(p, u, True) \<in> set ds \<Longrightarrow> ?thesis" using seen [OF Some] by (auto simp: assms(4) rate_counted_def intro: outdated_Cons)
  qed
qed

lemma decide_counted:
  assumes "decide l t p states = (states', out)" "wf_map states" "rate_ok l states ds" "in_order ((p, t, out = Inr ()) # ds)"
  shows "rate_ok l states' ((p, t, out = Inr ()) # ds)"
proof -
  let ?ds = "(p, t, out = Inr ()) # ds" and ?s = "swept t states"
  define x where "x = at_minute t (case map_of ?s p of None \<Rightarrow> blank_principal | Some y \<Rightarrow> y)"
  have c: "rate_counted q (map_of states q) ds" "admissions q m ds \<le> ml_minute l" for q m
    using assms(3) by (simp_all add: rate_ok_def)
  note now = state_now [OF assms(2) c(1) assms(4) x_def]
  have late: "minute_of u \<le> minute_of t" "u \<le> t" if "(p, u, True) \<in> set ds" for u
    using that assms(4) minute_mono [of u t] by (auto simp: in_order_Cons)
  have others: "rate_counted q (map_of ?s q) ?ds" if "q \<noteq> p" for q
    using counted_other [OF c(1) [of q], of p "out = Inr ()" t] counted_evicted [of q _ ds, OF _ assms(4)] c(1) [of q] that assms(2)
    by (auto simp: swept_lookup split: option.splits)
  have x: "ps_minute x = minute_of t" by (simp add: x_def)
  consider (full) "states' = ?s" "out \<noteq> Inr ()" "map_of ?s p = None"
    | (refused) "states' = map_put p x ?s" "out \<noteq> Inr ()"
    | (admitted) "states' = map_put p (x\<lparr>ps_count := ps_count x + 1, ps_active := ps_active x + 1, ps_seen := t\<rparr>) ?s"
      "out = Inr ()" "ps_count x < ml_minute l"
    using assms(1) unfolding decide_def Let_def x_def by (auto split: if_splits)
  then have "rate_counted p (map_of states' p) ?ds \<and> (\<forall>m. admissions p m ?ds \<le> ml_minute l) \<and> (\<forall>q. q \<noteq> p \<longrightarrow> map_of states' q = map_of ?s q)"
  proof cases
    case full
    then show ?thesis using now(1) c(2) by (auto simp: rate_counted_def admissions_Cons outdated_def)
  next
    case refused
    then show ?thesis using now(2,3) late c(2) x by (auto simp: rate_counted_def admissions_Cons)
  next
    case admitted
    have "admissions p m ?ds \<le> ml_minute l" for m
      using c(2) [of p m] now(2) admitted by (cases "m = minute_of t") (auto simp: admissions_Cons)
    moreover have "rate_counted p (map_of states' p) ?ds" using now(2) late x admitted by (auto simp: rate_counted_def admissions_Cons)
    ultimately show ?thesis using admitted by simp
  qed
  then have "rate_counted q (map_of states' q) ?ds \<and> admissions q m ?ds \<le> ml_minute l" for q m
    using others [of q] c(2) [of q m] by (cases "q = p") (auto simp: admissions_Cons)
  then show ?thesis by (simp add: rate_ok_def)
qed

lemma release_counted:
  assumes "rate_ok l states ds" "\<And>q u b. (q, u, b) \<in> set ds \<Longrightarrow> u \<le> now"
  shows "rate_ok l (release_principal now p states) ds"
  using assms by (auto simp: rate_ok_def release_principal_def rate_counted_def split: option.splits)

definition timed_ok :: "limits_profile \<Rightarrow> load \<Rightarrow> bool" where
  "timed_ok l s \<longleftrightarrow> (\<forall>(q, u, b) \<in> set (ld_decisions s). u \<le> ld_clock s) \<and>
     (in_order (ld_decisions s) \<longrightarrow> rate_ok l (la_states (ld_limiter s)) (ld_decisions s))"

lemma load_step_timed:
  assumes "load_step l s s'" "load_ok l s" "timed_ok l s"
  shows "timed_ok l s'"
proof -
  have wf: "wf_map (la_states (ld_limiter s))" using assms(2) by (simp add: load_ok_def principals_ok_def)
  show ?thesis
    using assms(1)
  proof cases
    case (admit p t0 t states)
    then show ?thesis using assms(3) decide_counted [OF admit(5) wf] by (auto simp: timed_ok_def in_order_Cons)
  next
    case (refuse p t0 t states wait)
    then show ?thesis using assms(3) decide_counted [OF refuse(5) wf] by (auto simp: timed_ok_def in_order_Cons)
  next
    case (release p)
    have "u \<le> ld_clock s" if "(q, u, b) \<in> set (ld_decisions s)" for q u b using that assms(3) by (auto simp: timed_ok_def)
    from release_counted [OF _ this] show ?thesis using release assms(3) by (auto simp: timed_ok_def)
  qed (use assms(3) in \<open>fastforce simp: timed_ok_def take_slot_def drop_slot_def split: if_splits\<close>)+
qed

lemma reachable_timed_ok:
  "load_reachable l s \<Longrightarrow> 0 \<le> ml_principal l \<Longrightarrow> 0 \<le> ml_concurrent l \<Longrightarrow> 0 \<le> ml_minute l \<Longrightarrow> timed_ok l s"
proof (induction rule: load_reachable.induct)
  case (load_start t)
  then show ?case by (simp add: timed_ok_def idle_load_def new_limiter_def rate_ok_def rate_counted_def admissions_def)
next
  case (load_next s s')
  then show ?case using load_step_timed reachable_load_ok by blast
qed

text \<open>C37: However requests interleave, the running ones and those about to run or leave never exceed the concurrency limit, no
  principal has more than its share running, and at most 1024 principals are remembered; when the decisions are made in the
  order of their clock readings, no principal is admitted more often in a minute than the limit, evictions included.\<close>

theorem http_load_bounded:
  assumes "load_reachable l s" "0 \<le> ml_principal l" "0 \<le> ml_concurrent l" "0 \<le> ml_minute l"
  shows "int (length (ld_waiting s) + length (ld_running s) + ld_leaving s) \<le> ml_concurrent l \<and>
    int (count_list (ld_running s) p) \<le> ml_principal l \<and> length (la_states (ld_limiter s)) \<le> 1024 \<and>
    (in_order (ld_decisions s) \<longrightarrow> admissions p m (ld_decisions s) \<le> ml_minute l)"
  using reachable_load_ok [OF assms(1-3)] reachable_timed_ok [OF assms]
  by (simp add: load_ok_def principals_ok_def timed_ok_def rate_ok_def)

section \<open>Two requests of one principal\<close>

definition demo_limits :: limits_profile where
  "demo_limits = \<lparr>ml_body = 1024, ml_concurrent = 2, ml_principal = 1, ml_minute = 1, ml_read_header = 1, ml_read = 1, ml_idle = 1,
     ml_shutdown = 1\<rparr>"

definition demo_active :: principal_state where
  "demo_active = \<lparr>ps_minute = 0, ps_count = 1, ps_active = 1, ps_seen = 0\<rparr>"

text \<open>Two requests of \<open>a\<close> arrive at the time 0; the first is admitted, the second refused.\<close>

definition demo_load :: load where
  "demo_load = \<lparr>ld_limiter = \<lparr>la_used = 2, la_states = [(''a'', demo_active)]\<rparr>, ld_waiting = [], ld_running = [''a''], ld_leaving = 1,
     ld_decisions = [(''a'', 0, False), (''a'', 0, True)], ld_clock = 0\<rparr>"

lemma demo_decide:
  "decide demo_limits 0 ''a'' [] = ([(''a'', demo_active)], Inr ())"
  "decide demo_limits 0 ''a'' [(''a'', demo_active)] = ([(''a'', demo_active)], Inl 60)"
  by (simp_all add: decide_def swept_def blank_principal_def at_minute_def minute_of_def demo_limits_def demo_active_def map_put_def)

lemma demo_load_reachable: "load_reachable demo_limits demo_load"
proof -
  let ?s0 = "idle_load 0"
  let ?s1 = "?s0\<lparr>ld_limiter := \<lparr>la_used = 1, la_states = []\<rparr>, ld_waiting := [(''a'', 0)]\<rparr>"
  let ?s2 = "?s0\<lparr>ld_limiter := \<lparr>la_used = 2, la_states = []\<rparr>, ld_waiting := [(''a'', 0), (''a'', 0)]\<rparr>"
  let ?s3 = "?s0\<lparr>ld_limiter := \<lparr>la_used = 2, la_states = [(''a'', demo_active)]\<rparr>, ld_waiting := [(''a'', 0)], ld_running := [''a''],
      ld_decisions := [(''a'', 0, True)]\<rparr>"
  note defs = idle_load_def new_limiter_def take_slot_def demo_limits_def with_states_def
  have "load_step demo_limits ?s0 ?s1"
    using load_step.arrive [of demo_limits ?s0 "\<lparr>la_used = 1, la_states = []\<rparr>" "''a''"] by (simp add: defs)
  moreover have "load_step demo_limits ?s1 ?s2"
    using load_step.arrive [of demo_limits ?s1 "\<lparr>la_used = 2, la_states = []\<rparr>" "''a''"] by (simp add: defs)
  moreover have "load_step demo_limits ?s2 ?s3"
    using load_step.admit [of "''a''" 0 ?s2 0 demo_limits] demo_decide(1) by (simp add: idle_load_def with_states_def)
  moreover have "load_step demo_limits ?s3 demo_load"
    using load_step.refuse [of "''a''" 0 ?s3 0 demo_limits] demo_decide(2) by (simp add: idle_load_def with_states_def demo_load_def)
  ultimately show ?thesis using load_start [of demo_limits 0] by (meson load_next)
qed

theorem http_load_bounded_witness:
  "load_reachable demo_limits demo_load \<and> count_list (ld_running demo_load) ''a'' = 1 \<and> in_order (ld_decisions demo_load) \<and>
   admissions ''a'' 0 (ld_decisions demo_load) \<le> ml_minute demo_limits"
proof -
  have o: "in_order (ld_decisions demo_load)" by (simp add: in_order_def demo_load_def)
  moreover have "admissions ''a'' 0 (ld_decisions demo_load) \<le> ml_minute demo_limits"
    using http_load_bounded [OF demo_load_reachable] o by (simp add: demo_limits_def)
  moreover have "count_list (ld_running demo_load) ''a'' = 1" by (simp add: demo_load_def)
  ultimately show ?thesis using demo_load_reachable by blast
qed

end
