(* ===== verification/HttpProfile.thy ===== *)
theory HttpProfile
  imports HttpLimiter ToolServer RunnerModel
begin

text \<open>
  \<open>internal/httptransport/profile.go\<close> and \<open>auth.go\<close>: the profile of the HTTP host and its normalization, and the verifiers of
  bearer tokens. \<open>net/url\<close>, address parsing, YAML, the clock, files and the authorization server are parameters.
\<close>

section \<open>Profiles\<close>

record auth_profile =
  ma_mode :: string
  ma_token_file :: string
  ma_scopes :: "string list"
  ma_introspection :: string
  ma_client_id :: string
  ma_client_secret :: string
  ma_servers :: "string list"
  ma_audience :: string

record http_profile =
  mp_listen :: string
  mp_endpoint :: string
  mp_resource :: string
  mp_origins :: "string list"
  mp_hosts :: "string list"
  mp_cert :: string
  mp_key :: string
  mp_auth :: auth_profile
  mp_limits :: limits_profile
  mp_retention :: int

record parsed_url =
  ul_scheme :: string
  ul_host :: string
  ul_fragment :: string

text \<open>\<open>nw_url\<close> is \<open>url.Parse\<close>, \<open>nw_host\<close> the host of \<open>net.SplitHostPort\<close>, \<open>nw_loopback\<close> whether a text is an address of the
  loopback network, \<open>nw_fold\<close> is \<open>strings.EqualFold\<close>; \<open>nw_yaml\<close> decodes the only document of a file.\<close>

record net_env =
  nw_url :: "string \<Rightarrow> parsed_url option"
  nw_host :: "string \<Rightarrow> string option"
  nw_loopback :: "string \<Rightarrow> bool"
  nw_fold :: "string \<Rightarrow> string \<Rightarrow> bool"
  nw_lower :: "string \<Rightarrow> string"
  nw_yaml :: "string \<Rightarrow> go_error + http_profile"

definition profile_defaults :: "http_profile \<Rightarrow> http_profile" where
  "profile_defaults p = p\<lparr>mp_listen := (if mp_listen p = [] then ''127.0.0.1:8080'' else mp_listen p),
     mp_endpoint := (if mp_endpoint p = [] then ''/mcp'' else mp_endpoint p)\<rparr>"

definition path_dir :: "string \<Rightarrow> string" where
  "path_dir p = path_clean (rev (dropWhile (\<lambda>c. c \<noteq> CHR ''/'') (rev p)))"

definition absolute_in :: "string \<Rightarrow> string \<Rightarrow> string" where
  "absolute_in dir p = (if is_abs p then p else path_join dir p)"

definition https_url :: "net_env \<Rightarrow> string \<Rightarrow> bool" where
  "https_url nw s = (case nw_url nw s of None \<Rightarrow> False | Some u \<Rightarrow> ul_scheme u = ''https'' \<and> ul_host u \<noteq> [])"

definition is_loopback :: "net_env \<Rightarrow> string \<Rightarrow> bool" where
  "is_loopback nw host \<longleftrightarrow> nw_fold nw host ''localhost'' \<or> nw_loopback nw host"

definition direct_tls :: "http_profile \<Rightarrow> bool" where
  "direct_tls p \<longleftrightarrow> mp_cert p \<noteq> [] \<and> mp_key p \<noteq> []"

definition normalize_listen :: "net_env \<Rightarrow> string \<Rightarrow> http_profile \<Rightarrow> go_error + (http_profile \<times> parsed_url \<times> bool)" where
  "normalize_listen nw dir p =
     (if \<not> has_prefix (mp_endpoint p) ''/'' \<or> contains_str (mp_endpoint p) ''?'' \<or> mp_endpoint p = ''/''
        then Inl (Text ''HTTP endpoint must be an absolute non-root path'')
      else case nw_url nw (mp_resource p) of
          None \<Rightarrow> Inl (Text ''resource_uri must be an absolute HTTP(S) URI'')
        | Some u \<Rightarrow>
            if ul_scheme u = [] \<or> ul_host u = [] \<or> ul_fragment u \<noteq> [] then Inl (Text ''resource_uri must be an absolute HTTP(S) URI'')
            else (case nw_host nw (mp_listen p) of
                None \<Rightarrow> Inl (Text ''listen must include host and port'')
              | Some host \<Rightarrow>
                  (let loopback = is_loopback nw host in
                   if (mp_cert p = []) \<noteq> (mp_key p = []) then Inl (Text ''both TLS cert_file and key_file are required'')
                   else if \<not> loopback \<and> \<not> direct_tls p then Inl (Text ''non-loopback HTTP listen requires direct TLS'')
                   else if \<not> direct_tls p then Inr (p, u, loopback)
                   else if ul_scheme u \<noteq> ''https'' then Inl (Text ''direct TLS requires an https resource_uri'')
                   else Inr (p\<lparr>mp_cert := absolute_in dir (mp_cert p), mp_key := absolute_in dir (mp_key p)\<rparr>, u, loopback))))"

definition normalize_auth :: "net_env \<Rightarrow> string \<Rightarrow> http_profile \<Rightarrow> parsed_url \<Rightarrow> bool \<Rightarrow> go_error + http_profile" where
  "normalize_auth nw dir p u loopback =
     (let a = mp_auth p in
      if ma_mode a \<noteq> ''local_token'' \<and> ma_mode a \<noteq> ''oauth_introspection''
        then Inl (Text ''auth.mode must be local_token or oauth_introspection'')
      else if ma_mode a = ''local_token'' then
        (if \<not> loopback then Inl (Text ''local_token auth is limited to loopback'')
         else if ma_token_file a = [] then Inl (Text ''local_token auth requires token_file'')
         else if ma_scopes a = [] then Inl (Text ''local_token auth requires scopes'')
         else Inr (p\<lparr>mp_auth := a\<lparr>ma_token_file := absolute_in dir (ma_token_file a)\<rparr>\<rparr>))
      else if ul_scheme u \<noteq> ''https'' then Inl (Text ''OAuth mode requires an https resource_uri'')
      else if \<not> https_url nw (ma_introspection a) then Inl (Text ''OAuth introspection_url must be HTTPS'')
      else if ma_servers a = [] then Inl (Text ''OAuth auth requires authorization_servers'')
      else if \<not> list_all (https_url nw) (ma_servers a) then Inl (Text ''authorization_servers must contain HTTPS issuer URIs'')
      else if ma_client_id a = [] \<or> ma_client_secret a = [] then Inl (Text ''OAuth auth requires credential environment variable names'')
      else Inr (p\<lparr>mp_auth := a\<lparr>ma_audience := (if ma_audience a = [] then mp_resource p else ma_audience a)\<rparr>\<rparr>))"

definition positive_or :: "int \<Rightarrow> int \<Rightarrow> int" where "positive_or d n = (if n = 0 then d else n)"

definition limit_defaults :: "limits_profile \<Rightarrow> limits_profile" where
  "limit_defaults l = \<lparr>ml_body = positive_or 1048576 (ml_body l), ml_concurrent = positive_or 16 (ml_concurrent l),
     ml_principal = positive_or 4 (ml_principal l), ml_minute = positive_or 120 (ml_minute l),
     ml_read_header = positive_or 10 (ml_read_header l), ml_read = positive_or 30 (ml_read l), ml_idle = positive_or 60 (ml_idle l),
     ml_shutdown = positive_or 30 (ml_shutdown l)\<rparr>"

definition profile_bounded :: "limits_profile \<Rightarrow> int \<Rightarrow> bool" where
  "profile_bounded l days \<longleftrightarrow> 1024 \<le> ml_body l \<and> ml_body l \<le> 16 * 1048576 \<and> 1 \<le> ml_concurrent l \<and> ml_concurrent l \<le> 1024 \<and>
     1 \<le> ml_principal l \<and> ml_principal l \<le> ml_concurrent l \<and> 1 \<le> ml_minute l \<and> ml_minute l \<le> 100000 \<and>
     1 \<le> ml_read_header l \<and> ml_read_header l \<le> 300 \<and> 1 \<le> ml_read l \<and> ml_read l \<le> 3600 \<and> 1 \<le> ml_idle l \<and> ml_idle l \<le> 3600 \<and>
     1 \<le> ml_shutdown l \<and> ml_shutdown l \<le> 300 \<and> 1 \<le> days \<and> days \<le> 3650"

definition normalize_limits_profile :: "http_profile \<Rightarrow> parsed_url \<Rightarrow> go_error + http_profile" where
  "normalize_limits_profile p u =
     (let p1 = p\<lparr>mp_hosts := (if mp_hosts p = [] then [ul_host u] else mp_hosts p)\<rparr> in
      if 64 < length (mp_hosts p1) \<or> 64 < length (mp_origins p1) then Inl (Text ''HTTP allowlist exceeds supported bounds'')
      else if list_ex (\<lambda>h. h = [] \<or> contains_any h (CHR ''/'' # [CHR 0x5C])) (mp_hosts p1)
        then Inl (Text ''allowed_hosts contains an invalid host'')
      else let p2 = p1\<lparr>mp_limits := limit_defaults (mp_limits p1), mp_retention := positive_or 30 (mp_retention p1)\<rparr> in
        if \<not> profile_bounded (mp_limits p2) (mp_retention p2) then Inl (Text ''HTTP limits exceed supported bounds'') else Inr p2)"

definition normalize_profile :: "net_env \<Rightarrow> string \<Rightarrow> http_profile \<Rightarrow> go_error + http_profile" where
  "normalize_profile nw dir p0 =
     try_then (normalize_listen nw dir (profile_defaults p0)) (\<lambda>(p1, u, loopback).
     try_then (normalize_auth nw dir p1 u loopback) (\<lambda>p2. normalize_limits_profile p2 u))"

text \<open>\<open>file\<close> is the answer of \<open>Open\<close> and within it that of reading; a profile above 256 KiB fails in the reader.\<close>

definition load_profile :: "net_env \<Rightarrow> go_error + (go_error + string) \<Rightarrow> string \<Rightarrow> go_error + http_profile" where
  "load_profile nw file path =
     (case file of
        Inl e \<Rightarrow> Inl (Wrap ''open HTTP profile'' e)
      | Inr (Inl e) \<Rightarrow> Inl (Wrap ''read HTTP profile'' e)
      | Inr (Inr s) \<Rightarrow>
          if 256 * 1024 < int (length s) then Inl (Wrap ''read HTTP profile'' (Text ''size limit reached''))
          else try_then (nw_yaml nw s) (normalize_profile nw (path_dir path)))"

section \<open>Tokens\<close>

record token_info =
  ti_scopes :: "string list"
  ti_expiration :: time
  ti_user :: string

datatype token_failure = InvalidToken | OtherFailure string

type_synonym verifier = "string \<Rightarrow> token_failure + token_info"

definition local_verifier :: "auth_profile \<Rightarrow> string \<Rightarrow> time \<Rightarrow> verifier" where
  "local_verifier a token now candidate =
     (if candidate \<noteq> token then Inl InvalidToken
      else Inr \<lparr>ti_scopes = ma_scopes a, ti_expiration = now + seconds 86400, ti_user = ''local''\<rparr>)"

record introspection =
  tk_active :: bool
  tk_exp :: string
  tk_scope :: string
  tk_sub :: string
  tk_aud :: json
  tk_resource :: string

definition audience_matches :: "json \<Rightarrow> string \<Rightarrow> string \<Rightarrow> bool" where
  "audience_matches aud resource expected \<longleftrightarrow> resource = expected \<or>
     (case aud of JString s \<Rightarrow> s = expected | JArray vs \<Rightarrow> list_ex (\<lambda>v. v = JString expected) vs | _ \<Rightarrow> False)"

text \<open>The answer of the authorization server: its status, content type and body, as one JSON value.\<close>

record introspection_answer =
  rp_status :: int
  rp_type :: string
  rp_body :: "string option"

definition introspection_verifier ::
    "net_env \<Rightarrow> (string \<Rightarrow> introspection option) \<Rightarrow> (string \<Rightarrow> introspection_answer option) \<Rightarrow> auth_profile \<Rightarrow> verifier" where
  "introspection_verifier nw decode ask a token =
     (case ask token of
        None \<Rightarrow> Inl (OtherFailure ''OAuth introspection unavailable'')
      | Some r \<Rightarrow>
          if rp_status r \<noteq> 200 then Inl (OtherFailure ''OAuth introspection unavailable'')
          else if \<not> has_prefix (nw_lower nw (rp_type r)) ''application/json'' then Inl (OtherFailure ''OAuth introspection response invalid'')
          else (case rp_body r of
              None \<Rightarrow> Inl (OtherFailure ''OAuth introspection response invalid'')
            | Some body \<Rightarrow>
                if 256 * 1024 < int (length body) then Inl (OtherFailure ''OAuth introspection response invalid'')
                else (case decode body of
                    None \<Rightarrow> Inl (OtherFailure ''OAuth introspection response invalid'')
                  | Some x \<Rightarrow>
                      if \<not> tk_active x then Inl InvalidToken
                      else (case parse_int64 (tk_exp x) of
                          None \<Rightarrow> Inl InvalidToken
                        | Some e \<Rightarrow>
                            if e \<le> 0 \<or> \<not> audience_matches (tk_aud x) (tk_resource x) (ma_audience a) then Inl InvalidToken
                            else Inr \<lparr>ti_scopes = fields_of (tk_scope x), ti_expiration = seconds e, ti_user = tk_sub x\<rparr>))))"

text \<open>\<open>file\<close> is the answer of opening and reading the token file, \<open>environ\<close> looks up a variable.\<close>

definition token_verifier ::
    "net_env \<Rightarrow> (string \<Rightarrow> introspection option) \<Rightarrow> (string \<Rightarrow> string \<Rightarrow> string \<Rightarrow> introspection_answer option) \<Rightarrow> (string \<Rightarrow> string option) \<Rightarrow>
     go_error + (go_error + string) \<Rightarrow> http_profile \<Rightarrow> go_error + (time \<Rightarrow> verifier)" where
  "token_verifier nw decode ask environ file p =
     (let a = mp_auth p in
      if ma_mode a = ''local_token'' then
        (case file of
           Inl e \<Rightarrow> Inl (Wrap ''read local token'' e)
         | Inr (Inl e) \<Rightarrow> Inl (Text ''read local token'')
         | Inr (Inr s) \<Rightarrow>
             (let token = trim_space (take 4097 s) in
              if int (length token) < 32 \<or> 4096 < int (length token) then Inl (Text ''local token length must be 32..4096 bytes'')
              else Inr (local_verifier a token)))
      else case (environ (ma_client_id a), environ (ma_client_secret a)) of
          (Some client, Some secret) \<Rightarrow>
            if client = [] \<or> secret = [] then Inl (Text ''OAuth introspection credentials are unavailable'')
            else Inr (\<lambda>now. introspection_verifier nw decode (ask client secret) a)
        | _ \<Rightarrow> Inl (Text ''OAuth introspection credentials are unavailable''))"

definition authorize_info :: "token_info option \<Rightarrow> string \<Rightarrow> go_error + unit" where
  "authorize_info info tool =
     (case (info, required_scope tool) of
        (Some t, Some scope) \<Rightarrow> if List.member (ti_scopes t) scope then Inr () else Inl authorization_denied
      | _ \<Rightarrow> Inl authorization_denied)"

section \<open>What a loaded profile guarantees\<close>

definition loopback_listen :: "net_env \<Rightarrow> http_profile \<Rightarrow> bool" where
  "loopback_listen nw p \<longleftrightarrow> (\<exists>host. nw_host nw (mp_listen p) = Some host \<and> is_loopback nw host)"

lemma normalized_listen:
  assumes "normalize_listen nw dir p0 = Inr (p, u, loopback)"
  shows "loopback = loopback_listen nw p \<and> (loopback \<or> direct_tls p0) \<and> (direct_tls p0 \<longrightarrow> ul_scheme u = ''https'') \<and>
    nw_url nw (mp_resource p) = Some u \<and> ul_host u \<noteq> [] \<and> mp_auth p = mp_auth p0 \<and> mp_endpoint p = mp_endpoint p0 \<and>
    has_prefix (mp_endpoint p) ''/'' \<and> mp_endpoint p \<noteq> ''/'' \<and> mp_listen p = mp_listen p0 \<and>
    (direct_tls p0 \<longrightarrow> mp_cert p = absolute_in dir (mp_cert p0) \<and> mp_key p = absolute_in dir (mp_key p0))"
  using assms by (auto simp: normalize_listen_def loopback_listen_def Let_def split: if_splits option.splits)

lemma normalized_auth:
  assumes "normalize_auth nw dir p0 u loopback = Inr p"
  shows "(if ma_mode (mp_auth p) = ''local_token'' then loopback \<and> ma_scopes (mp_auth p) \<noteq> []
     else ma_mode (mp_auth p) = ''oauth_introspection'' \<and> ul_scheme u = ''https'' \<and> https_url nw (ma_introspection (mp_auth p)) \<and>
       ma_servers (mp_auth p) \<noteq> [] \<and> list_all (https_url nw) (ma_servers (mp_auth p))) \<and>
    mp_listen p = mp_listen p0 \<and> mp_resource p = mp_resource p0 \<and> mp_endpoint p = mp_endpoint p0"
  using assms by (auto simp: normalize_auth_def Let_def split: if_splits)

lemma normalized_limits:
  assumes "normalize_limits_profile p0 u = Inr p" "ul_host u \<noteq> []"
  shows "profile_bounded (mp_limits p) (mp_retention p) \<and> mp_hosts p \<noteq> [] \<and> [] \<notin> set (mp_hosts p) \<and>
    mp_auth p = mp_auth p0 \<and> mp_listen p = mp_listen p0 \<and> mp_resource p = mp_resource p0 \<and> mp_endpoint p = mp_endpoint p0"
  using assms by (auto simp: normalize_limits_profile_def Let_def list_ex_iff split: if_splits)

text \<open>A loaded profile with the local token listens on the loopback network and names its scopes, one with introspection is HTTPS
  throughout; some host is allowed, and the limits are those the bounds on the load ask for.\<close>

lemma loaded_profile_safe:
  assumes "load_profile nw content path = Inr p"
  shows "(if ma_mode (mp_auth p) = ''local_token'' then loopback_listen nw p \<and> ma_scopes (mp_auth p) \<noteq> []
     else (\<exists>u. nw_url nw (mp_resource p) = Some u \<and> ul_scheme u = ''https'') \<and> https_url nw (ma_introspection (mp_auth p)) \<and>
       list_all (https_url nw) (ma_servers (mp_auth p))) \<and>
    mp_hosts p \<noteq> [] \<and> has_prefix (mp_endpoint p) ''/'' \<and> 1 \<le> ml_principal (mp_limits p) \<and>
    ml_principal (mp_limits p) \<le> ml_concurrent (mp_limits p) \<and> 1 \<le> ml_minute (mp_limits p)"
proof -
  obtain p0 p1 p2 u loopback where n: "normalize_listen nw (path_dir path) (profile_defaults p0) = Inr (p1, u, loopback)"
    "normalize_auth nw (path_dir path) p1 u loopback = Inr p2" "normalize_limits_profile p2 u = Inr p"
    using assms by (auto simp: load_profile_def normalize_profile_def try_then_Inr_iff split: sum.splits if_splits)
  note l = normalized_listen [OF n(1)] and a = normalized_auth [OF n(2)]
  have h: "ul_host u \<noteq> []" using l by simp
  note b = normalized_limits [OF n(3) h]
  have "loopback_listen nw p = loopback_listen nw p1" using a b by (simp add: loopback_listen_def)
  then show ?thesis using l a b by (auto simp: profile_bounded_def)
qed

end
