(* ===== verification/HttpServer.thy ===== *)
theory HttpServer
  imports HttpProfile ToolPromises
begin

text \<open>
  The handlers of \<open>internal/httptransport/server.go\<close>, from the path of a request to the tools and back, with the audit of every
  admitted request. Sockets, TLS, HTTP messages, the bearer middleware and the protocol of the MCP library are
  parameters; \<open>http.CrossOriginProtection\<close> is modelled as the standard library documents it.
\<close>

section \<open>Requests\<close>

record http_request =
  hq_method :: string
  hq_path :: string
  hq_host :: string
  hq_origin :: string
  hq_site :: string
  hq_authorization :: string
  hq_mcp_method :: string
  hq_mcp_name :: string
  hq_length :: int

text \<open>A call of a tool in the message of a request: of a single tool, or of an operation of a toolbox.\<close>

datatype tool_message = PlainCall tool_call tool_input | ToolboxCall string tool_call toolbox_request

text \<open>\<open>he_bearer\<close> is \<open>auth.RequireBearerToken\<close>, \<open>he_messages\<close> the tool calls the protocol handler reads in a request, \<open>he_status\<close> and
  \<open>he_bytes\<close> what it writes; \<open>he_hash\<close> is the keyed hash, \<open>he_id\<close> the random identity, the other fields the clock and the faults
  of the database.\<close>

record http_env =
  he_net :: net_env
  he_tools :: tool_env
  he_workspace :: string
  he_toolboxes :: bool
  he_bearer :: "verifier \<Rightarrow> http_request \<Rightarrow> token_info option"
  he_messages :: "http_request \<Rightarrow> tool_message list"
  he_status :: nat
  he_bytes :: u64
  he_hash :: "string \<Rightarrow> string \<Rightarrow> string"
  he_id :: "string option"
  he_now :: time
  he_later :: time
  he_started :: string
  he_completed :: string
  he_admit_fault :: "go_error option"
  he_complete_fault :: bool

record http_answer =
  hw_status :: nat
  hw_headers :: "(string \<times> string) list"

definition refused_with :: "nat \<Rightarrow> http_answer" where "refused_with n = \<lparr>hw_status = n, hw_headers = []\<rparr>"

record 's http_state =
  hs_server :: "'s server"
  hs_limiter :: limiter

section \<open>Handlers\<close>

text \<open>\<open>AddTrustedOrigin\<close> accepts a scheme and a host only; here the parsed address and the rest of it.\<close>

definition valid_origin :: "net_env \<Rightarrow> (string \<Rightarrow> string) \<Rightarrow> string \<Rightarrow> bool" where
  "valid_origin nw rest s \<longleftrightarrow>
     (case nw_url nw s of None \<Rightarrow> False | Some u \<Rightarrow> ul_scheme u \<noteq> [] \<and> ul_host u \<noteq> [] \<and> ul_fragment u = [] \<and> rest s = [])"

definition cross_origin_ok :: "net_env \<Rightarrow> string list \<Rightarrow> http_request \<Rightarrow> bool" where
  "cross_origin_ok nw trusted q =
     (if List.member [''GET'', ''HEAD'', ''OPTIONS''] (hq_method q) then True
      else if hq_site q = ''same-origin'' \<or> hq_site q = ''none'' then True
      else if hq_site q \<noteq> [] then List.member trusted (hq_origin q)
      else hq_origin q = [] \<or> (case nw_url nw (hq_origin q) of None \<Rightarrow> False | Some u \<Rightarrow> ul_host u = hq_host q) \<or>
        List.member trusted (hq_origin q))"

definition host_allowed :: "net_env \<Rightarrow> string list \<Rightarrow> string \<Rightarrow> bool" where
  "host_allowed nw allowed host = List.member (map (nw_lower nw) allowed) (nw_lower nw host)"

definition scope_challenge :: "tool_env \<Rightarrow> net_env \<Rightarrow> string \<Rightarrow> token_info option \<Rightarrow> http_request \<Rightarrow> http_answer option" where
  "scope_challenge env nw metadata info q =
     (if \<not> nw_fold nw (hq_mcp_method q) ''tools/call'' \<or> hq_mcp_name q = [] then None
      else case authorize_info info (hq_mcp_name q) of
          Inr _ \<Rightarrow> None
        | Inl _ \<Rightarrow>
            (let required = (case required_scope (hq_mcp_name q) of None \<Rightarrow> [] | Some s \<Rightarrow> s) in
             Some \<lparr>hw_status = 403, hw_headers = [(''WWW-Authenticate'',
               ''Bearer error='' @ [CHR 0x22] @ ''insufficient_scope'' @ [CHR 0x22] @ '', scope='' @ te_quote env required @
               (if metadata = [] then [] else '', resource_metadata='' @ te_quote env metadata))]\<rparr>))"

definition bounded_bytes :: "nat \<Rightarrow> string \<Rightarrow> string" where "bounded_bytes n s = take n s"

definition principal_of :: "token_info option \<Rightarrow> string" where
  "principal_of info = (case info of None \<Rightarrow> ''unknown'' | Some t \<Rightarrow> if ti_user t = [] then ''unknown'' else ti_user t)"

definition admission_event :: "http_env \<Rightarrow> string \<Rightarrow> string \<Rightarrow> string \<Rightarrow> string \<Rightarrow> http_request \<Rightarrow> audit_event" where
  "admission_event he key resource i who q =
     \<lparr>av_id = i, av_principal = ''hmac-sha256:'' @ he_hash he key who, av_workspace = ''hmac-sha256:'' @ he_hash he key resource,
      av_method = (if hq_mcp_method q = [] then hq_method q else bounded_bytes 128 (hq_mcp_method q)),
      av_tool = bounded_bytes 128 (hq_mcp_name q), av_operation = [], av_decision = ''admitted'', av_status = ''started'',
      av_request = (if 0 < hq_length q then of_int (hq_length q) else 0), av_response = 0, av_started = he_started he, av_completed = []\<rparr>"

text \<open>The hooks \<open>Handler\<close> gives the tools, and the calls of a message one after the other.\<close>

definition http_options :: "token_info option \<Rightarrow> string \<Rightarrow> 's tool_options \<Rightarrow> 's tool_options" where
  "http_options info i opts = opts\<lparr>to_authorize := Some (authorize_info info),
     to_audit := Some (\<lambda>operation. resolve_audit_operation i (bounded_bytes 128 operation))\<rparr>"

definition serve_message :: "http_env \<Rightarrow> 's tool_options \<Rightarrow> tool_message \<Rightarrow> 's server \<Rightarrow> 's server" where
  "serve_message he opts m st =
     (case m of
        PlainCall c i \<Rightarrow> if he_toolboxes he then st else fst (observed_tool (he_tools he) (he_workspace he) opts c i st)
      | ToolboxCall toolbox c q \<Rightarrow>
          if he_toolboxes he then fst (handle_toolbox (he_tools he) (he_workspace he) opts toolbox c q st) else st)"

definition audited_server :: "'s server \<Rightarrow> audit_db \<Rightarrow> 's http_state \<Rightarrow> 's http_state" where
  "audited_server st audit s = s\<lparr>hs_server := st\<lparr>ss_audit := audit\<rparr>\<rparr>"

definition audit_middleware ::
    "http_env \<Rightarrow> http_profile \<Rightarrow> string \<Rightarrow> 's tool_options \<Rightarrow> token_info option \<Rightarrow> http_request \<Rightarrow> 's http_state \<Rightarrow> 's http_state \<times> http_answer" where
  "audit_middleware he p key opts info q s =
     (let who = principal_of info in
      case acquire (mp_limits p) (he_now he) who (hs_limiter s) of
        (l, Inl retry) \<Rightarrow> (s\<lparr>hs_limiter := l\<rparr>, \<lparr>hw_status = 429, hw_headers = [(''Retry-After'', itoa (nat retry))]\<rparr>)
      | (l, Inr _) \<Rightarrow>
          (let s1 = s\<lparr>hs_limiter := release_slot (he_later he) who l\<rparr>; st = hs_server s in
           case he_id he of
             None \<Rightarrow> (s1, refused_with 503)
           | Some i \<Rightarrow>
               (case admit_audit (he_admit_fault he) (admission_event he key (mp_resource p) i who q) (ss_audit st) of
                  (audit, Inl e) \<Rightarrow> (audited_server st audit s1, refused_with 503)
                | (audit, Inr _) \<Rightarrow>
                    (let st1 = fold (serve_message he (http_options info i opts)) (he_messages he q) (st\<lparr>ss_audit := audit\<rparr>);
                         audit1 = (if he_complete_fault he then ss_audit st1
                           else fst (complete_audit i (''http_'' @ itoa (he_status he)) (he_bytes he) (he_completed he) (ss_audit st1)))
                     in (audited_server st1 audit1 s1, \<lparr>hw_status = he_status he, hw_headers = []\<rparr>)))))"

text \<open>The chain built by \<open>Handler\<close>, from the outermost handler; \<open>metadata\<close> is the address of the resource metadata, whose own
  paths are not part of the chain.\<close>

definition serve_http ::
    "http_env \<Rightarrow> http_profile \<Rightarrow> verifier \<Rightarrow> string \<Rightarrow> string \<Rightarrow> 's tool_options \<Rightarrow> http_request \<Rightarrow> 's http_state \<Rightarrow> 's http_state \<times> http_answer" where
  "serve_http he p v key metadata opts q s =
     (if hq_path q \<noteq> mp_endpoint p then (s, refused_with 404)
      else if \<not> cross_origin_ok (he_net he) (mp_origins p) q then (s, refused_with 403)
      else if \<not> host_allowed (he_net he) (mp_hosts p) (hq_host q) then (s, refused_with 403)
      else case he_bearer he v q of
          None \<Rightarrow> (s, refused_with 401)
        | Some info \<Rightarrow>
            (case scope_challenge (he_tools he) (he_net he) (if ma_mode (mp_auth p) = ''oauth_introspection'' then metadata else []) (Some info) q of
               Some denied \<Rightarrow> (s, denied)
             | None \<Rightarrow> audit_middleware he p key opts (Some info) q s))"

definition http_handler ::
    "(string \<Rightarrow> string) \<Rightarrow> http_env \<Rightarrow> http_profile \<Rightarrow> verifier \<Rightarrow> string \<Rightarrow> string \<Rightarrow> 's tool_options \<Rightarrow>
     go_error + (http_request \<Rightarrow> 's http_state \<Rightarrow> 's http_state \<times> http_answer)" where
  "http_handler rest he p v key metadata opts =
     (if list_all (valid_origin (he_net he) rest) (mp_origins p) then Inr (serve_http he p v key metadata opts)
      else Inl (Wrap ''trusted Origin'' (Text ''invalid origin'')))"

section \<open>What the calls of a request do\<close>

definition names_of :: "tool_message \<Rightarrow> string list" where
  "names_of m = (case m of PlainCall c i \<Rightarrow> [tool_of i] | ToolboxCall toolbox c q \<Rightarrow> [toolbox, tb_operation q])"

definition scopes_held :: "token_info \<Rightarrow> tool_message \<Rightarrow> bool" where
  "scopes_held info m \<longleftrightarrow> (\<forall>name \<in> set (names_of m). \<exists>scope. required_scope name = Some scope \<and> scope \<in> set (ti_scopes info))"

lemma authorized_info: "authorize_info (Some info) name = Inr u \<longleftrightarrow> (\<exists>scope. required_scope name = Some scope \<and> scope \<in> set (ti_scopes info))"
  by (auto simp: authorize_info_def split: option.splits)

lemma http_authorize [simp]: "authorize_tool (http_options info i opts) name = authorize_info info name"
  by (simp add: authorize_tool_def http_options_def)

lemma dispatch_audit: "ss_audit (fst (dispatch_tool env opts c i st)) = ss_audit st"
  by (cases i)
    (auto simp: dispatch_tool_def unknown_tool_def run_service_def read_tool_def capability_tool_def backup_tool_def access_tool_def
      config_tool_def request_read_approval_def Let_def split: option.split sum.split prod.split)

lemma observed_audit: "ss_audit (fst (observed_tool env w opts c i st)) = ss_audit st"
proof -
  have "ss_audit (fst (handle_tool env opts c i st)) = ss_audit st"
    by (simp add: handle_tool_def dispatch_audit split: sum.split)
  then show ?thesis by (cases "handle_tool env opts c i st") (auto simp: observed_tool_def split: option.split)
qed

definition unchanged_tools :: "'s server \<Rightarrow> 's server \<Rightarrow> bool" where
  "unchanged_tools st st' \<longleftrightarrow> ss_services st' = ss_services st \<and> ss_access st' = ss_access st"

lemma observed_unauthorized:
  "authorize_tool opts (tool_of i) = Inl e \<Longrightarrow> unchanged_tools st (fst (observed_tool env w opts c i st))"
  by (simp add: observed_tool_def handle_tool_def unchanged_tools_def split: option.split)

text \<open>The principals and operations recorded for a request; a request has one row.\<close>

definition recorded :: "string \<Rightarrow> audit_db \<Rightarrow> (string \<times> string) list" where
  "recorded i db = map (\<lambda>r. (av_principal r, av_operation r)) (filter (\<lambda>r. av_id r = i) db)"

lemma recorded_admitted:
  assumes "admit_audit fault e db = (db', Inr u)" "int (length db) < 100000"
  shows "recorded (av_id e) db' = [(av_principal e, av_operation e)]"
proof -
  have new: "av_id e \<notin> av_id ` set db" "db' = db @ [e\<lparr>av_response := 0, av_completed := []\<rparr>]"
    using assms by (auto simp: admit_audit_def Let_def split: option.splits if_splits)
  then have "filter (\<lambda>r. av_id r = av_id e) db = []" by (force simp: filter_empty_conv image_iff)
  then show ?thesis using new by (simp add: recorded_def)
qed

lemma recorded_resolved:
  assumes "resolve_audit_operation i operation db = (db', r)"
  shows "r = Inr () \<Longrightarrow> recorded i db = [(x, y)] \<Longrightarrow> y = [] \<and> recorded i db' = [(x, operation)]" "r \<noteq> Inr () \<Longrightarrow> db' = db"
proof -
  show "r \<noteq> Inr () \<Longrightarrow> db' = db" using assms by (auto simp: resolve_audit_operation_def split: if_splits)
  assume r: "r = Inr ()" and x: "recorded i db = [(x, y)]"
  have "\<exists>z \<in> set db. av_id z = i \<and> av_operation z = []"
    and db': "db' = map (\<lambda>z. if av_id z = i \<and> av_operation z = [] then z\<lparr>av_operation := operation\<rparr> else z) db"
    using assms r by (auto simp: resolve_audit_operation_def split: if_splits)
  then have "\<exists>z. (z, []) \<in> set (recorded i db)" by (force simp: recorded_def)
  then have e: "y = []" using x by simp
  have "recorded i (map (\<lambda>z. if av_id z = i \<and> av_operation z = [] then z\<lparr>av_operation := operation\<rparr> else z) zs) =
      map (\<lambda>(w, v). (w, if v = [] then operation else v)) (recorded i zs)" for zs
    by (induction zs) (auto simp: recorded_def)
  then show "y = [] \<and> recorded i db' = [(x, operation)]" using x e db' by simp
qed

lemma recorded_completed: "recorded i (fst (complete_audit j status bytes t db)) = recorded i db"
proof -
  have "recorded i (map (\<lambda>r. if av_id r = j then r\<lparr>av_status := status, av_response := bytes, av_completed := t\<rparr> else r) xs) = recorded i xs" for xs
    by (induction xs) (auto simp: recorded_def)
  then show ?thesis by (simp add: complete_audit_def)
qed

lemma registered_named:
  assumes "toolbox_operation opts access toolbox name = Some x"
  shows "name \<noteq> [] \<and> length name \<le> 128"
proof -
  have "list_all (\<lambda>(_, x). on_name x \<noteq> [] \<and> length (on_name x) \<le> 128) (operation_table opts access)"
    by (simp add: operation_table_def)
  then have "\<forall>x \<in> set (operation_registry opts access). on_name x \<noteq> [] \<and> length (on_name x) \<le> 128"
    by (auto simp: operation_registry_def list_all_iff)
  then show ?thesis using assms by (auto simp: toolbox_operation_def find_Some_iff dest: nth_mem)
qed

text \<open>A call of a toolbox: nothing but the audit changes, or it was admitted, recorded and called.\<close>

lemma toolbox_message:
  assumes "handle_toolbox env w (http_options (Some info) i opts) toolbox c q st = (st', out)"
  obtains "st' = st"
  | db where "resolve_audit_operation i (tb_operation q) (ss_audit st) = (db, Inr ())" "ss_audit st' = db"
      "scopes_held info (ToolboxCall toolbox c q)" "tb_operation q \<noteq> []"
  | db where "resolve_audit_operation i (tb_operation q) (ss_audit st) = (db, Inr ())" "st' = st\<lparr>ss_audit := db\<rparr>"
proof -
  let ?o = "http_options (Some info) i opts"
  show thesis
  proof (cases "admit_operation env ?o toolbox (ss_access st \<noteq> None) q")
    case (Inl e)
    then show ?thesis using that(1) assms by (simp add: handle_toolbox_def)
  next
    case (Inr x)
    have op: "toolbox_operation ?o (ss_access st \<noteq> None) toolbox (tb_operation q) = Some x" "authorize_info (Some info) toolbox = Inr ()"
      "authorize_info (Some info) (on_name x) = Inr () \<or> tb_action q = ''describe''"
      using Inr by (auto simp: admit_operation_def split: if_splits sum.splits option.splits)
    have name: "on_name x = tb_operation q" using op(1) by (auto simp: toolbox_operation_def find_Some_iff)
    have named: "tb_operation q \<noteq> []" "bounded_bytes 128 (tb_operation q) = tb_operation q"
      using registered_named [OF op(1)] by (simp_all add: bounded_bytes_def)
    obtain db r where db: "resolve_audit_operation i (tb_operation q) (ss_audit st) = (db, r)" by (rule prod.exhaust)
    have a: "audited_operation env ?o (on_name x) st = (st\<lparr>ss_audit := db\<rparr>, case r of Inl e \<Rightarrow> Inl (public_error env False e) | Inr _ \<Rightarrow> Inr ())"
      using db name named(2) by (simp add: audited_operation_def http_options_def split: sum.split)
    show ?thesis
    proof (cases r)
      case (Inl e)
      then have "db = ss_audit st" using recorded_resolved(2) [OF db] by simp
      then show ?thesis using that(1) assms Inr a Inl by (simp add: handle_toolbox_def)
    next
      case r: (Inr u)
      show ?thesis
      proof (cases "st' = st\<lparr>ss_audit := db\<rparr>")
        case True
        then show ?thesis using that(3) db r by simp
      next
        case False
        then obtain handle compact full where k: "contracts_for env x = Inr (handle, compact, full)"
          using assms Inr a r by (cases "contracts_for env x") (auto simp: handle_toolbox_def)
        have call: "call_operation env w ?o c q handle compact (st\<lparr>ss_audit := db\<rparr>) = (st', out)" "tb_action q = ''call''"
          using assms Inr a r k False by (auto simp: handle_toolbox_def split: if_splits)
        obtain j where "fst (observed_tool env w ?o c j (st\<lparr>ss_audit := db\<rparr>)) = st'" using called_effects [OF call(1)] False by metis
        then have "ss_audit st' = db" using observed_audit [of env w ?o c j "st\<lparr>ss_audit := db\<rparr>"] by simp
        moreover have "scopes_held info (ToolboxCall toolbox c q)"
          using op(2,3) call(2) name by (auto simp: scopes_held_def names_of_def authorized_info)
        ultimately show ?thesis using that(2) db r named(1) by simp
      qed
    qed
  qed
qed

text \<open>The tools are as before the request, or a call whose scopes the token holds went through; through a toolbox, it is the one whose
  operation the row of the request records.\<close>

definition effects_ok :: "http_env \<Rightarrow> token_info \<Rightarrow> string \<Rightarrow> string \<Rightarrow> tool_message list \<Rightarrow> 's server \<Rightarrow> 's server \<Rightarrow> bool" where
  "effects_ok he info i who ms st0 st \<longleftrightarrow> (\<exists>operation. recorded i (ss_audit st) = [(who, operation)] \<and>
     (unchanged_tools st0 st \<or> (\<exists>m \<in> set ms. scopes_held info m \<and>
       (he_toolboxes he \<longrightarrow> operation \<noteq> [] \<and> operation = last (names_of m)))))"

lemma effects_more: "effects_ok he info i pr ms st0 st \<Longrightarrow> effects_ok he info i pr (m # ms) st0 st"
  by (auto simp: effects_ok_def)

lemma serve_plain_ok:
  assumes "effects_ok he info i pr ms st0 st" "\<not> he_toolboxes he"
  shows "effects_ok he info i pr (PlainCall c j # ms) st0 (serve_message he (http_options (Some info) i opts) (PlainCall c j) st)"
proof -
  let ?o = "http_options (Some info) i opts"
  let ?st = "fst (observed_tool (he_tools he) (he_workspace he) ?o c j st)"
  have "scopes_held info (PlainCall c j) \<or> unchanged_tools st ?st"
    using observed_unauthorized [of ?o j _ st "he_tools he" "he_workspace he" c]
    by (cases "authorize_info (Some info) (tool_of j)") (auto simp: scopes_held_def names_of_def authorized_info)
  then show ?thesis
    using assms by (auto simp: effects_ok_def serve_message_def observed_audit unchanged_tools_def)
qed

lemma serve_toolbox_ok:
  assumes "effects_ok he info i pr ms st0 st" "he_toolboxes he"
  shows "effects_ok he info i pr (ToolboxCall toolbox c q # ms) st0
    (serve_message he (http_options (Some info) i opts) (ToolboxCall toolbox c q) st)"
proof -
  obtain st' out where h: "handle_toolbox (he_tools he) (he_workspace he) (http_options (Some info) i opts) toolbox c q st = (st', out)"
    by (rule prod.exhaust)
  obtain x where x: "recorded i (ss_audit st) = [(pr, x)]" and
    e: "unchanged_tools st0 st \<or> (\<exists>m \<in> set ms. scopes_held info m \<and> x \<noteq> [] \<and> x = last (names_of m))"
    using assms by (auto simp: effects_ok_def)
  from h have "effects_ok he info i pr (ToolboxCall toolbox c q # ms) st0 st'"
  proof (cases rule: toolbox_message)
    case 1
    then show ?thesis using effects_more [OF assms(1)] by simp
  next
    case (2 db)
    then show ?thesis using recorded_resolved(1) [OF 2(1) _ x] by (auto simp: effects_ok_def names_of_def)
  next
    case (3 db)
    have "x = []" "recorded i db = [(pr, tb_operation q)]" using recorded_resolved(1) [OF 3(1) _ x] by simp_all
    then show ?thesis using e 3(2) by (auto simp: effects_ok_def unchanged_tools_def)
  qed
  then show ?thesis using h assms(2) by (simp add: serve_message_def)
qed

lemma serve_message_ok:
  assumes "effects_ok he info i pr ms st0 st"
  shows "effects_ok he info i pr (m # ms) st0 (serve_message he (http_options (Some info) i opts) m st)"
proof (cases m)
  case (PlainCall c j)
  show ?thesis
    using serve_plain_ok [OF assms] effects_more [OF assms] unfolding PlainCall
    by (cases "he_toolboxes he") (simp_all add: serve_message_def)
next
  case (ToolboxCall toolbox c q)
  show ?thesis
    using serve_toolbox_ok [OF assms] effects_more [OF assms] unfolding ToolboxCall
    by (cases "he_toolboxes he") (simp_all add: serve_message_def)
qed

lemma serve_messages_ok:
  "effects_ok he info i pr ms' st0 st \<Longrightarrow>
     effects_ok he info i pr (rev ms @ ms') st0 (fold (serve_message he (http_options (Some info) i opts)) ms st)"
proof (induction ms arbitrary: st ms')
  case (Cons m ms)
  show ?case using Cons.IH [OF serve_message_ok [OF Cons.prems]] by simp
qed simp

section \<open>Effects of requests\<close>

text \<open>What makes a token of this profile valid: it is the content of the token file, or the authorization server calls it active
  for this audience and with these scopes.\<close>

definition token_accepted ::
    "(string \<Rightarrow> introspection option) \<Rightarrow> (string \<Rightarrow> string \<Rightarrow> string \<Rightarrow> introspection_answer option) \<Rightarrow> go_error + (go_error + string) \<Rightarrow>
     http_profile \<Rightarrow> string \<Rightarrow> string list \<Rightarrow> bool" where
  "token_accepted decode ask file p token scopes \<longleftrightarrow>
     (if ma_mode (mp_auth p) = ''local_token''
      then scopes = ma_scopes (mp_auth p) \<and> 32 \<le> length token \<and> (\<exists>content. file = Inr (Inr content) \<and> token = trim_space (take 4097 content))
      else \<exists>client secret resp body x. client \<noteq> [] \<and> secret \<noteq> [] \<and> ask client secret token = Some resp \<and> rp_status resp = 200 \<and>
        rp_body resp = Some body \<and> decode body = Some x \<and> tk_active x \<and> scopes = fields_of (tk_scope x) \<and>
        audience_matches (tk_aud x) (tk_resource x) (ma_audience (mp_auth p)))"

lemma verified_token:
  assumes "token_verifier nw decode ask environ file p = Inr f" "f now token = Inr info"
  shows "token_accepted decode ask file p token (ti_scopes info)"
proof (cases "ma_mode (mp_auth p) = ''local_token''")
  case True
  then obtain content where "file = Inr (Inr content)" "f = local_verifier (mp_auth p) (trim_space (take 4097 content))"
    "32 \<le> length (trim_space (take 4097 content))"
    using assms(1) by (auto simp: token_verifier_def Let_def split: sum.splits if_splits)
  then show ?thesis using True assms(2) by (auto simp: token_accepted_def local_verifier_def split: if_splits)
next
  case False
  then obtain client secret where "client \<noteq> []" "secret \<noteq> []" "f = (\<lambda>now. introspection_verifier nw decode (ask client secret) (mp_auth p))"
    using assms(1) by (auto simp: token_verifier_def Let_def split: option.splits if_splits)
  then show ?thesis
    using False assms(2) unfolding token_accepted_def introspection_verifier_def
    by (fastforce split: option.splits if_splits)
qed

lemma audited_effects:
  assumes "audit_middleware he p key opts (Some info) q s = (s', out)" "\<not> unchanged_tools (hs_server s) (hs_server s')"
    "int (length (ss_audit (hs_server s))) < 100000"
  obtains i m operation where "he_id he = Some i" "m \<in> set (he_messages he q)" "scopes_held info m"
    "recorded i (ss_audit (hs_server s')) = [(''hmac-sha256:'' @ he_hash he key (principal_of (Some info)), operation)]"
    "he_toolboxes he \<longrightarrow> operation = last (names_of m)"
proof -
  let ?st = "hs_server s" and ?pr = "principal_of (Some info)"
  obtain l x where a: "acquire (mp_limits p) (he_now he) ?pr (hs_limiter s) = (l, x)" by (rule prod.exhaust)
  obtain u where u: "x = Inr u"
    using assms(1,2) a by (cases x) (auto simp: audit_middleware_def unchanged_tools_def Let_def)
  obtain i where i: "he_id he = Some i"
    using assms(1,2) a u by (cases "he_id he") (auto simp: audit_middleware_def unchanged_tools_def Let_def)
  let ?e = "admission_event he key (mp_resource p) i ?pr q"
  obtain db r where d: "admit_audit (he_admit_fault he) ?e (ss_audit ?st) = (db, r)" by (rule prod.exhaust)
  obtain v where v: "r = Inr v"
    using assms(1,2) a u i d by (cases r) (auto simp: audit_middleware_def audited_server_def unchanged_tools_def Let_def)
  let ?st1 = "fold (serve_message he (http_options (Some info) i opts)) (he_messages he q) (?st\<lparr>ss_audit := db\<rparr>)"
  have s': "ss_services (hs_server s') = ss_services ?st1" "ss_access (hs_server s') = ss_access ?st1"
    "recorded i (ss_audit (hs_server s')) = recorded i (ss_audit ?st1)"
    using assms(1) a u i d v by (auto simp: audit_middleware_def audited_server_def recorded_completed Let_def)
  have "recorded i db = [(''hmac-sha256:'' @ he_hash he key ?pr, [])]"
    using recorded_admitted [OF d [unfolded v] assms(3)] by (simp add: admission_event_def)
  then have "effects_ok he info i (''hmac-sha256:'' @ he_hash he key ?pr) [] ?st (?st\<lparr>ss_audit := db\<rparr>)"
    by (simp add: effects_ok_def unchanged_tools_def)
  from serve_messages_ok [OF this, of "he_messages he q" opts] show thesis
    using that [OF i] assms(2) s' by (auto simp: effects_ok_def unchanged_tools_def)
qed

text \<open>C36: An HTTP request only changes a service or an approval when it came to the endpoint, from an origin and for a host that the
  profile allows, with a token that is the one of the token file or that the authorization server calls active for this
  audience; when one of its calls needs only scopes of this token; and when its row is in the audit table, under the keyed
  hash of its principal and, for toolboxes, with the operation called.\<close>

theorem http_effects_authorized:
  assumes "token_verifier nw decode ask environ file p = Inr f" "serve_http he p (f now) key metadata opts q s = (s', out)"
    "ss_services (hs_server s') \<noteq> ss_services (hs_server s) \<or> ss_access (hs_server s') \<noteq> ss_access (hs_server s)"
    "\<And>v q t. he_bearer he v q = Some t \<Longrightarrow> \<exists>token. contains_str (hq_authorization q) token \<and> v token = Inr t"
    "int (length (ss_audit (hs_server s))) < 100000"
  shows "hq_path q = mp_endpoint p \<and> cross_origin_ok (he_net he) (mp_origins p) q \<and> host_allowed (he_net he) (mp_hosts p) (hq_host q) \<and>
    (\<exists>token info i m operation. contains_str (hq_authorization q) token \<and> token_accepted decode ask file p token (ti_scopes info) \<and>
      he_id he = Some i \<and> m \<in> set (he_messages he q) \<and> scopes_held info m \<and>
      recorded i (ss_audit (hs_server s')) = [(''hmac-sha256:'' @ he_hash he key (principal_of (Some info)), operation)] \<and>
      (he_toolboxes he \<longrightarrow> operation = last (names_of m)))"
proof -
  have effect: "\<not> unchanged_tools (hs_server s) (hs_server s')" using assms(3) by (auto simp: unchanged_tools_def)
  have at: "hq_path q = mp_endpoint p" "cross_origin_ok (he_net he) (mp_origins p) q" "host_allowed (he_net he) (mp_hosts p) (hq_host q)"
    using assms(2,3) by (auto simp: serve_http_def split: if_splits)
  then obtain info where info: "he_bearer he (f now) q = Some info"
    using assms(2,3) by (cases "he_bearer he (f now) q") (auto simp: serve_http_def)
  then have "audit_middleware he p key opts (Some info) q s = (s', out)"
    using assms(2,3) at by (auto simp: serve_http_def split: option.splits)
  from audited_effects [OF this effect assms(5)] obtain i m operation where
    m: "he_id he = Some i" "m \<in> set (he_messages he q)" "scopes_held info m"
    "recorded i (ss_audit (hs_server s')) = [(''hmac-sha256:'' @ he_hash he key (principal_of (Some info)), operation)]"
    "he_toolboxes he \<longrightarrow> operation = last (names_of m)" .
  obtain token where "contains_str (hq_authorization q) token" "f now token = Inr info" using assms(4) [OF info] by blast
  then show ?thesis using at m verified_token [OF assms(1)] by blast
qed

section \<open>A request with one call\<close>

definition demo_net :: net_env where
  "demo_net = \<lparr>nw_url = (\<lambda>s. Some \<lparr>ul_scheme = ''http'', ul_host = ''h'', ul_fragment = []\<rparr>), nw_host = (\<lambda>_. Some ''127.0.0.1''),
     nw_loopback = (\<lambda>_. True), nw_fold = (=), nw_lower = (\<lambda>s. s), nw_yaml = (\<lambda>_. Inl (Text []))\<rparr>"

definition demo_secret :: string where "demo_secret = replicate 32 CHR ''s''"

definition demo_profile :: http_profile where
  "demo_profile = \<lparr>mp_listen = ''127.0.0.1:8080'', mp_endpoint = ''/mcp'', mp_resource = ''http://h/mcp'', mp_origins = [], mp_hosts = [''h''],
     mp_cert = [], mp_key = [], mp_auth = \<lparr>ma_mode = ''local_token'', ma_token_file = ''/t'', ma_scopes = [''repoplane.intent.write''],
       ma_introspection = [], ma_client_id = [], ma_client_secret = [], ma_servers = [], ma_audience = []\<rparr>,
     mp_limits = limit_defaults \<lparr>ml_body = 0, ml_concurrent = 0, ml_principal = 0, ml_minute = 0, ml_read_header = 0, ml_read = 0,
       ml_idle = 0, ml_shutdown = 0\<rparr>, mp_retention = 30\<rparr>"

text \<open>A bearer middleware: the token is the header after its first seven bytes.\<close>

definition demo_bearer :: "verifier \<Rightarrow> http_request \<Rightarrow> token_info option" where
  "demo_bearer v q = (case v (drop 7 (hq_authorization q)) of Inl _ \<Rightarrow> None | Inr t \<Rightarrow> Some t)"

definition demo_http :: http_env where
  "demo_http = \<lparr>he_net = demo_net, he_tools = demo_mcp, he_workspace = ''w'', he_toolboxes = True, he_bearer = demo_bearer,
     he_messages = (\<lambda>_. [ToolboxCall ''repoplane_write'' demo_accepting demo_toolbox_call]), he_status = 200, he_bytes = 9,
     he_hash = (\<lambda>k s. s), he_id = Some ''http_1'', he_now = 60, he_later = 61, he_started = ''a'', he_completed = ''b'',
     he_admit_fault = None, he_complete_fault = False\<rparr>"

definition demo_post :: http_request where
  "demo_post = \<lparr>hq_method = ''POST'', hq_path = ''/mcp'', hq_host = ''h'', hq_origin = [], hq_site = [], hq_authorization = ''Bearer '' @ demo_secret,
     hq_mcp_method = ''tools/call'', hq_mcp_name = ''repoplane_write'', hq_length = 5\<rparr>"

definition demo_http_state :: "record_db http_state" where
  "demo_http_state = \<lparr>hs_server = demo_serving, hs_limiter = new_limiter\<rparr>"

definition demo_served :: "record_db http_state \<times> http_answer" where
  "demo_served = serve_http demo_http demo_profile (local_verifier (mp_auth demo_profile) demo_secret 60) ''key'' [] demo_options demo_post demo_http_state"

lemma demo_served_effect: "db_records (ss_services (hs_server (fst demo_served))) \<noteq> []"
  by code_simp

lemma contains_drop: "contains_str s (drop n s)"
  unfolding contains_str_iff by (rule exI [of _ "take n s"], rule exI [of _ "[]"]) simp

lemma demo_bearer_token: "demo_bearer v q = Some t \<Longrightarrow> \<exists>token. contains_str (hq_authorization q) token \<and> v token = Inr t"
  by (auto simp: demo_bearer_def contains_drop split: sum.splits intro: exI [of _ "drop 7 (hq_authorization q)"])

lemma demo_verifier:
  "token_verifier demo_net decode ask environ (Inr (Inr demo_secret)) demo_profile = Inr (local_verifier (mp_auth demo_profile) demo_secret)"
proof -
  have "trim_space demo_secret = demo_secret" "ma_mode (mp_auth demo_profile) = ''local_token''" by code_simp+
  then show ?thesis by (simp add: token_verifier_def demo_secret_def)
qed

theorem http_effects_authorized_witness:
  "recorded ''http_1'' (ss_audit (hs_server (fst demo_served))) = [(''hmac-sha256:local'', ''memo_write'')]"
proof -
  have st: "hs_server demo_http_state = demo_serving" "ss_audit demo_serving = []" by (simp_all add: demo_http_state_def demo_serving_def)
  obtain s' out where d: "demo_served = (s', out)" by (rule prod.exhaust)
  have call: "serve_http demo_http demo_profile (local_verifier (mp_auth demo_profile) demo_secret 60) ''key'' [] demo_options demo_post demo_http_state =
      (s', out)" using d by (simp add: demo_served_def)
  have effect: "ss_services (hs_server s') \<noteq> ss_services (hs_server demo_http_state)"
    using demo_served_effect demo_serving_parts(2) by (auto simp: d st)
  have he: "he_bearer demo_http = demo_bearer" "he_id demo_http = Some ''http_1''" "he_toolboxes demo_http" "he_hash demo_http = (\<lambda>k s. s)"
    "he_messages demo_http = (\<lambda>_. [ToolboxCall ''repoplane_write'' demo_accepting demo_toolbox_call])"
    by (simp_all add: demo_http_def)
  have "\<exists>info. recorded ''http_1'' (ss_audit (hs_server s')) = [(''hmac-sha256:'' @ principal_of (Some info), ''memo_write'')]"
    using http_effects_authorized [OF demo_verifier [of "\<lambda>_. None" "\<lambda>_ _ _. None" "\<lambda>_. None"] call disjI1 [OF effect]]
    by (auto simp: he demo_bearer_token st names_of_def demo_toolbox_call_def)
  moreover have "recorded ''http_1'' (ss_audit (hs_server (fst demo_served))) = [(''hmac-sha256:local'', ''memo_write'')]" by code_simp
  ultimately show ?thesis by simp
qed

end
