(* ===== verification/Spec2Isabelle.thy ===== *)
theory Spec2Isabelle
  imports Contracts Workspace RuntimeConfig ToolboxClient RecordPromises CacheStore CatalogService DataQuery SearchService RunnerReuse RunnerRemoval RunnerSwapRecovery RunnerArguments CatalogIndex PathFacts MemoryDemo ToolPromises HttpServer
begin

text \<open>
  RepoPlane is a server of the Model Context Protocol for one workspace: it answers questions about the workspace (catalog,
  search, path facts, data, records), writes intentions and check reports into a durable record database, and runs
  registered capabilities whose results it can reuse. All sources are below \<open>src/internal\<close>; the theories model the Go code for a
  host with \<open>/\<close> as separator, and this root imports them all.

  \<^bold>\<open>Parts and theories.\<close>

  \<^item> \<open>GoPrelude\<close>: words, strings, errors (\<open>go_error\<close> with its chain of causes), maps in insertion order, \<open>base64\<close>, times as
    nanoseconds, and the lemmas on them; \<open>Paths\<close>: \<open>path/filepath\<close>; \<open>Contracts\<close>: \<open>contracts/limits.go\<close> and the response envelope.
  \<^item> \<open>Workspace\<close>: \<open>workspace/root.go\<close>, the boundary every read goes through (\<open>resolve_primary_existing\<close>, \<open>resolve_existing\<close>).
  \<^item> \<open>RuntimeAccess\<close>: \<open>runtimeaccess/service.go\<close>, proposals, approvals and grants, with its runs (\<open>access_run\<close>).
  \<^item> \<open>Settings\<close>, \<open>RuntimeConfig\<close>: \<open>config/config.go\<close>, \<open>runtimeconfig/types.go\<close>, \<open>application/runtime_config.go\<close>: startup
    settings and their live change with its roll-back.
  \<^item> \<open>RecordStore\<close>, \<open>RecordInvariant\<close>, \<open>RecordProperties\<close>, \<open>RecordTransfer\<close>: \<open>store/sqlite/records.go\<close>. \<open>record_db\<close> holds the rows of
    the tables; indexes and the trigger are checks of the writes; \<open>db_reachable\<close> is what any sequence of operations leaves.
  \<^item> \<open>RecordRequests\<close>, \<open>RecordMemos\<close>, \<open>RecordService\<close>, \<open>RecordImport\<close>, \<open>RecordQueries\<close>, \<open>RecordPromises\<close>:
    \<open>records/service.go\<close> and \<open>update.go\<close>, the tools over that repository.
  \<^item> \<open>CacheStore\<close>: \<open>store/sqlite/cache.go\<close>; \<open>CatalogStore\<close>: \<open>store/sqlite/sqlite.go\<close> and \<open>catalog_retention.go\<close>, generations and
    result sets; \<open>Paging\<close>: \<open>cursor/codec.go\<close> and what all paged tools share.
  \<^item> \<open>Manifest\<close>, \<open>CatalogIndex\<close>, \<open>CatalogService\<close>: \<open>catalog/manifest.go\<close>, \<open>indexer.go\<close>, \<open>service.go\<close>. The query takes the
    refresh as a parameter; \<open>refresh_index\<close> of \<open>CatalogIndex\<close> is what the program passes.
  \<^item> \<open>TextContent\<close>, \<open>DataQuery\<close>, \<open>SearchBackend\<close>, \<open>SearchService\<close>, \<open>PathFacts\<close>: \<open>content\<close>, \<open>textcodec\<close>, \<open>dataquery\<close>, \<open>search\<close> and
    \<open>pathfacts\<close>.
  \<^item> \<open>RunnerModel\<close>, \<open>RunnerPreflight\<close>, \<open>RunnerCache\<close>, \<open>RunnerSwap\<close>, \<open>RunnerExecute\<close>, \<open>RunnerInspect\<close>, \<open>RunnerRetention\<close>: the operations
    of \<open>runner\<close>. Its state \<open>runner\<close> holds the record database, the reuse index, the file tree and the running processes; files are
    a map from paths to nodes, and every file operation can be refused (\<open>refused\<close>).
  \<^item> \<open>RunnerLifecycle\<close>, \<open>RunnerPromises\<close>, \<open>RunnerRestart\<close>, \<open>RunnerReuse\<close>, \<open>RunnerStreams\<close>, \<open>RunnerRemoval\<close>, \<open>RunnerSwapRecovery\<close>,
    \<open>RunnerArguments\<close>, \<open>RunnerDemo\<close>: the promises of the runner and the concrete runner on which they are instantiated.
  \<^item> \<open>MemoryBackup\<close>, \<open>MemoryDemo\<close>: \<open>memorybackup/service.go\<close>; \<open>AuditUsage\<close>: \<open>store/sqlite/audit.go\<close>, \<open>usage.go\<close> and
    \<open>usage/report.go\<close>.
  \<^item> \<open>ToolArguments\<close>, \<open>ToolServer\<close>, \<open>Toolbox\<close>, \<open>ToolPromises\<close>: \<open>mcpserver\<close>, the handlers, toolboxes, public errors and approvals;
    \<open>ToolboxClient\<close>: \<open>toolboxclient/cache.go\<close>.
  \<^item> \<open>HttpLimiter\<close>, \<open>HttpProfile\<close>, \<open>HttpServer\<close>: \<open>httptransport\<close>, the limiter, the profile with its tokens, and the handlers.

  A request comes in through \<open>HttpServer\<close> or the stdio loop, passes the authorizations and approvals of \<open>ToolServer\<close> (which
  change the \<open>access\<close> of \<open>RuntimeAccess\<close>), and calls a service; services read through \<open>Workspace\<close> and write through the stores.
  The runner observes its runs as records of \<open>RecordStore\<close> and its results as rows of \<open>CacheStore\<close>.
\<close>

text \<open>
  \<^bold>\<open>What the lemmas show.\<close> Each component first has its operations, then its invariant with one preservation lemma for each
  operation, then what callers rely on. Records: the integrity of the tables (\<open>db_reachable\<close>), serialized updates, the round
  trip of an archive, unique topics, the identity of memos. Catalog: exact generations, pinned result sets, complete paging.
  Runner: the path of a run through its phases in every interleaving with crashes and restarts, a plan that starts once,
  verified reuse, undone restores, crash-safe replacement of a root, a cleanup that spares what its workspace needs. Tools: no
  effect without capability and authorization. HTTP: no effect without a valid token, scopes and an audit row, and bounded
  load in every interleaving.

  \<^bold>\<open>Interfaces.\<close> The locale \<open>paged\<close> of \<open>Paging\<close> is the contract of a paged tool (start, resume, items, next cursor); following the
  cursors lists everything once. It is interpreted on the four paged tools: \<open>catalog_pages\<close>, \<open>data_pages\<close>,
  \<open>record_pages\<close>, \<open>search_pages\<close>. The locale \<open>versioned_store\<close> of \<open>RecordProperties\<close> is optimistic concurrency on a revision,
  interpreted on the record tables as \<open>sqlite_records\<close>.

  \<^bold>\<open>Bounds and fuel.\<close> Every recursion is total; the only fuel is that of \<open>replace_fold\<close> in \<open>RunnerModel\<close>, whose loop can run for
  ever: one round for each separator of an ASCII text is enough. Limits are those of the code: 10000 records of a query (so
  recovery and cleanup see the first 10000 runs), 64 KiB of a receipt, 100000 items of an archive, 100000 audited requests, 1024
  principals. Words keep their width where the code can wrap around (\<open>u64\<close>); JSON integers are unbounded, where the code refuses those
  beyond 64 bits in its decoder.
\<close>

text \<open>
  \<^bold>\<open>Parameters.\<close> Code of other packages is an argument: SQL text functions, JSON, YAML, CSV and ZIP codecs, regular
  expressions, hashes, Git, ripgrep, the clock, random identifiers, the operating system (\<open>os_env\<close>), child processes, the MCP
  library. What a theorem needs of them is a named hypothesis: a decoder reads what its encoder wrote
  (\<open>codec_law\<close>, \<open>json_law\<close>), ASCII texts fold byte by byte (\<open>folds_ascii\<close>), a bearer token comes from the request.

  \<^bold>\<open>Not modelled.\<close> Failures of SQLite itself: a transaction (\<open>transact\<close>) commits or leaves the tables as they were, so an error of
  the commit, a full disk or a deadline in the middle of a statement do not occur, but for the audit and usage tables whose writes can
  fail. Schema migrations, process start-up, the router that forwards to the current bundle, the Windows files, the development
  commands, JSON schemas and the texts of results. The scan of toolbox arguments is proved exact on compact texts. Removals that the
  code ignores the errors of (\<open>os.RemoveAll\<close>, \<open>os.Remove\<close>) are modelled with their refusals.
\<close>

end
